(* ===== verification/Prelude.thy ===== *)
theory Prelude
  imports Main "HOL-Library.Word" "HOL-Library.AList" "HOL-Library.Char_ord"
    "HOL-Library.List_Lexorder" "HOL-Library.Sublist"
begin

section \<open>Shared vocabulary of the development\<close>

text \<open>
  The types, the result plumbing and the collection operations that every component uses.

  \<^item> Rust's \<open>Result<T, E>\<close> is the sum \<open>'e + 'a\<close>, \<open>Inl\<close> being \<open>Err\<close>; the \<open>?\<close> operator is
    \<open>and_then\<close> and a \<open>for\<close> loop whose body uses \<open>?\<close> is \<open>for_each\<close>.
  \<^item> \<open>u64\<close>, \<open>u32\<close>, \<open>u16\<close> keep their width; \<open>i64\<close> values (sequence numbers and millisecond
    timestamps, on which the code only compares and counts) are \<open>int\<close>.
  \<^item> \<open>uuid\<close> is the 128-bit value of the \<open>uuid\<close> crate. How it is printed and parsed is code of
    that crate: it is a parameter (\<open>show_uuid\<close>) of the definitions that use it, and the locale
    \<open>uuid_codec\<close> states the documented law.
  \<^item> A \<open>HashMap\<close> is an association list in some iteration order (\<open>hm_get\<close>, \<open>hm_insert\<close>,
    \<open>hm_remove\<close>); a \<open>BTreeMap\<close> is an association list kept sorted by key (\<open>bt_insert\<close>).
  \<^item> A Rust \<open>String\<close> is its UTF-8 byte sequence (\<open>string\<close>, a list of 8-bit characters).
\<close>

named_theorems result_simps \<open>rewriting of the result plumbing\<close>
named_theorems map_simps \<open>look-ups after updates of the map models\<close>

type_synonym u64 = "64 word"
type_synonym u32 = "32 word"
type_synonym u16 = "16 word"
type_synonym i64 = int
type_synonym uuid = "128 word"

subsection \<open>Results\<close>

definition and_then :: "'e + 'a \<Rightarrow> ('a \<Rightarrow> 'e + 'b) \<Rightarrow> 'e + 'b" where
  "and_then r f = (case r of Inl e \<Rightarrow> Inl e | Inr a \<Rightarrow> f a)"

lemma and_then_simps [simp, result_simps]:
  "and_then (Inl e) f = Inl e"
  "and_then (Inr a) f = f a"
  by (simp_all add: and_then_def)

lemma and_then_eq_Inr [result_simps]:
  "and_then r f = Inr b \<longleftrightarrow> (\<exists>a. r = Inr a \<and> f a = Inr b)"
  by (cases r) simp_all

lemma and_then_eq_Inl [result_simps]:
  "and_then r f = Inl e \<longleftrightarrow> r = Inl e \<or> (\<exists>a. r = Inr a \<and> f a = Inl e)"
  by (cases r) simp_all

lemma and_then_cong [fundef_cong]:
  "r = r' \<Longrightarrow> (\<And>a. r' = Inr a \<Longrightarrow> f a = g a) \<Longrightarrow> and_then r f = and_then r' g"
  by (cases r') simp_all

lemma and_then_unit:
  "and_then (r :: 'e + unit) f = Inr b \<longleftrightarrow> r = Inr () \<and> f () = Inr b"
  by (cases r) simp_all

lemma ex_unit_ok: "(\<exists>a. r = Inr (a :: unit) \<and> P a) \<longleftrightarrow> r = Inr () \<and> P ()"
  "(\<exists>a. r = Inr (a :: unit)) \<longleftrightarrow> r = Inr ()"
  by auto

lemma ok_if: "((if b then r else s) = Inr x) = (if b then r = Inr x else s = Inr x)"
  by simp

lemma ok_case_option:
  "((case m of None \<Rightarrow> r | Some y \<Rightarrow> f y) = Inr x) =
   (case m of None \<Rightarrow> r = Inr x | Some y \<Rightarrow> f y = Inr x)"
  by (cases m) simp_all

lemma case_option_False:
  "(case m of None \<Rightarrow> False | Some y \<Rightarrow> P y) \<longleftrightarrow> (\<exists>y. m = Some y \<and> P y)"
  by (cases m) simp_all

lemma if_True_False: "(if b then True else False) = b"
  by simp

lemmas ok_simps = and_then_eq_Inr ok_if ok_case_option

definition is_ok :: "'e + 'a \<Rightarrow> bool" where
  "is_ok r = (case r of Inl _ \<Rightarrow> False | Inr _ \<Rightarrow> True)"

lemma is_ok_simps [simp]: "is_ok (Inl e) = False" "is_ok (Inr a) = True"
  by (simp_all add: is_ok_def)

lemma is_ok_unit: "is_ok (r :: 'e + unit) \<longleftrightarrow> r = Inr ()"
  by (cases r) simp_all

lemma is_ok_and_then: "is_ok (and_then r f) \<longleftrightarrow> (\<exists>a. r = Inr a \<and> is_ok (f a))"
  by (cases r) simp_all

text \<open>\<open>for x in xs { body(x)?; }\<close>\<close>

primrec for_each :: "('a \<Rightarrow> 'e + unit) \<Rightarrow> 'a list \<Rightarrow> 'e + unit" where
  "for_each f [] = Inr ()"
| "for_each f (x # xs) = and_then (f x) (\<lambda>_. for_each f xs)"

lemma for_each_cong [fundef_cong]:
  "xs = ys \<Longrightarrow> (\<And>x. x \<in> set ys \<Longrightarrow> f x = g x) \<Longrightarrow> for_each f xs = for_each g ys"
proof (induction ys arbitrary: xs)
  case Nil
  then show ?case by simp
next
  case (Cons y ys)
  then have "for_each f ys = for_each g ys" by simp
  with Cons.prems show ?case by simp
qed

lemma for_each_ok: "for_each f xs = Inr () \<longleftrightarrow> (\<forall>x \<in> set xs. f x = Inr ())"
  by (induction xs) (auto simp: and_then_eq_Inr)

lemma for_each_err: "for_each f xs = Inl e \<Longrightarrow> \<exists>x \<in> set xs. f x = Inl e"
  by (induction xs) (auto simp: and_then_eq_Inl)

lemma distinct_singleton: "set xs = {x} \<Longrightarrow> distinct xs \<Longrightarrow> xs = [x]"
  by (cases xs; cases "tl xs") auto

lemma ball_enumerate:
  "(\<forall>p \<in> set (List.enumerate 0 xs). P p) \<longleftrightarrow> (\<forall>i < length xs. P (i, xs ! i))"
  by (force simp: in_set_enumerate_eq)

text \<open>\<open>iter.map(f).collect::<Result<Vec<_>, _>>()\<close>\<close>

primrec collect_results :: "('a \<Rightarrow> 'e + 'b) \<Rightarrow> 'a list \<Rightarrow> 'e + 'b list" where
  "collect_results f [] = Inr []"
| "collect_results f (x # xs) =
     and_then (f x) (\<lambda>y. and_then (collect_results f xs) (\<lambda>ys. Inr (y # ys)))"

lemma collect_results_ok:
  "collect_results f xs = Inr ys \<longleftrightarrow> list_all2 (\<lambda>x y. f x = Inr y) xs ys"
proof (induction xs arbitrary: ys)
  case Nil
  then show ?case by auto
next
  case (Cons x xs)
  then show ?case by (cases ys) (auto simp: and_then_eq_Inr)
qed

text \<open>
  A method that mutates a locked state returns its result and the state it leaves.  \<open>?\<close> on a check
  made before the state is touched returns the error with the state as it is.
\<close>

definition or_return :: "'e + 'a \<Rightarrow> 's \<Rightarrow> ('a \<Rightarrow> ('e + 'b) \<times> 's) \<Rightarrow> ('e + 'b) \<times> 's" where
  "or_return r s f = (case r of Inl e \<Rightarrow> (Inl e, s) | Inr a \<Rightarrow> f a)"

lemma or_return_simps [simp, result_simps]:
  "or_return (Inl e) s f = (Inl e, s)"
  "or_return (Inr a) s f = f a"
  by (simp_all add: or_return_def)

lemma or_return_ok:
  "or_return r s f = (Inr b, s') \<longleftrightarrow> (\<exists>a. r = Inr a \<and> f a = (Inr b, s'))"
  by (cases r) simp_all

lemma or_return_err:
  "or_return r s f = (Inl e, s') \<longleftrightarrow> r = Inl e \<and> s' = s \<or> (\<exists>a. r = Inr a \<and> f a = (Inl e, s'))"
  by (cases r) auto

text \<open>
  A computation that may run forever is an \<open>option\<close>, \<open>None\<close> standing for divergence;
  \<open>and_then_opt\<close> is \<open>?\<close> on its result.
\<close>

definition and_then_opt :: "('e + 'a) option \<Rightarrow> ('a \<Rightarrow> ('e + 'b) option) \<Rightarrow> ('e + 'b) option" where
  "and_then_opt r f =
     (case r of None \<Rightarrow> None | Some (Inl e) \<Rightarrow> Some (Inl e) | Some (Inr a) \<Rightarrow> f a)"

lemma and_then_opt_simps [simp, result_simps]:
  "and_then_opt None f = None"
  "and_then_opt (Some (Inl e)) f = Some (Inl e)"
  "and_then_opt (Some (Inr a)) f = f a"
  by (simp_all add: and_then_opt_def)

lemma and_then_opt_ok:
  "and_then_opt r f = Some (Inr b) \<longleftrightarrow> (\<exists>a. r = Some (Inr a) \<and> f a = Some (Inr b))"
  by (auto simp: and_then_opt_def split: option.splits sum.splits)

lemma and_then_opt_err:
  "and_then_opt r f = Some (Inl e) \<longleftrightarrow>
   r = Some (Inl e) \<or> (\<exists>a. r = Some (Inr a) \<and> f a = Some (Inl e))"
  by (auto simp: and_then_opt_def split: option.splits sum.splits)

lemma and_then_opt_None:
  "and_then_opt r f = None \<longleftrightarrow> r = None \<or> (\<exists>a. r = Some (Inr a) \<and> f a = None)"
  by (auto simp: and_then_opt_def split: option.splits sum.splits)

lemma and_then_opt_cong [fundef_cong]:
  "r = r' \<Longrightarrow> (\<And>a. r' = Some (Inr a) \<Longrightarrow> f a = g a) \<Longrightarrow> and_then_opt r f = and_then_opt r' g"
  by (auto simp: and_then_opt_def split: option.splits sum.splits)

subsection \<open>Hash maps\<close>

type_synonym ('k, 'v) hmap = "('k \<times> 'v) list"

definition hm_get :: "('k, 'v) hmap \<Rightarrow> 'k \<Rightarrow> 'v option" where
  "hm_get m k = map_of m k"

definition hm_insert :: "'k \<Rightarrow> 'v \<Rightarrow> ('k, 'v) hmap \<Rightarrow> ('k, 'v) hmap" where
  "hm_insert k v m = AList.update k v m"

definition hm_remove :: "'k \<Rightarrow> ('k, 'v) hmap \<Rightarrow> ('k, 'v) hmap" where
  "hm_remove k m = AList.delete k m"

definition hm_wf :: "('k, 'v) hmap \<Rightarrow> bool" where
  "hm_wf m \<longleftrightarrow> distinct (map fst m)"

lemma hm_get_empty [simp, map_simps]: "hm_get [] k = None"
  by (simp add: hm_get_def)

lemma hm_get_insert [simp, map_simps]:
  "hm_get (hm_insert k v m) k' = (if k' = k then Some v else hm_get m k')"
  by (simp add: hm_get_def hm_insert_def update_conv')

lemma hm_get_remove [simp, map_simps]:
  "hm_get (hm_remove k m) k' = (if k' = k then None else hm_get m k')"
  by (simp add: hm_get_def hm_remove_def delete_conv')

lemma hm_wf_empty [simp]: "hm_wf []"
  by (simp add: hm_wf_def)

lemma hm_wf_insert [simp]: "hm_wf m \<Longrightarrow> hm_wf (hm_insert k v m)"
  by (simp add: hm_wf_def hm_insert_def distinct_update)

lemma hm_wf_remove [simp]: "hm_wf m \<Longrightarrow> hm_wf (hm_remove k m)"
  by (simp add: hm_wf_def hm_remove_def distinct_delete)

lemma hm_get_SomeD: "hm_get m k = Some v \<Longrightarrow> (k, v) \<in> set m"
  by (simp add: hm_get_def map_of_SomeD)

lemma hm_get_iff_mem: "hm_wf m \<Longrightarrow> hm_get m k = Some v \<longleftrightarrow> (k, v) \<in> set m"
  by (simp add: hm_get_def hm_wf_def)

lemma hm_keys_insert: "fst ` set (hm_insert k v m) = insert k (fst ` set m)"
  by (simp add: hm_insert_def dom_update)

lemma hm_keys_remove: "fst ` set (hm_remove k m) = fst ` set m - {k}"
  by (auto simp: hm_remove_def AList.delete_eq)

lemma hm_get_None_iff: "hm_get m k = None \<longleftrightarrow> k \<notin> fst ` set m"
  by (simp add: hm_get_def map_of_eq_None_iff)

text \<open>\<open>map.get(k).cloned().unwrap_or_default()\<close> for a map of vectors or maps.\<close>

definition hm_list :: "('k, 'v list) hmap \<Rightarrow> 'k \<Rightarrow> 'v list" where
  "hm_list m k = (case hm_get m k of None \<Rightarrow> [] | Some xs \<Rightarrow> xs)"

lemma hm_list_empty [simp, map_simps]: "hm_list [] k = []"
  by (simp add: hm_list_def)

lemma hm_list_insert [simp, map_simps]:
  "hm_list (hm_insert k xs m) k' = (if k' = k then xs else hm_list m k')"
  by (simp add: hm_list_def)

lemma hm_list_Some [simp]: "hm_get m k = Some xs \<Longrightarrow> hm_list m k = xs"
  by (simp add: hm_list_def)

lemma hm_get_keyI: "hm_get m k = Some v \<Longrightarrow> k \<in> fst ` set m"
  by (force dest: hm_get_SomeD)

subsection \<open>Ordered maps\<close>

type_synonym ('k, 'v) btmap = "('k \<times> 'v) list"

fun bt_insert :: "'k :: linorder \<Rightarrow> 'v \<Rightarrow> ('k, 'v) btmap \<Rightarrow> ('k, 'v) btmap" where
  "bt_insert k v [] = [(k, v)]"
| "bt_insert k v ((k', v') # m) =
     (if k = k' then (k, v) # m
      else if k < k' then (k, v) # (k', v') # m
      else (k', v') # bt_insert k v m)"

text \<open>Building a map by inserting the pairs in order, as \<open>collect\<close> and \<open>json!\<close> do.\<close>

definition bt_of :: "('k :: linorder \<times> 'v) list \<Rightarrow> ('k, 'v) btmap" where
  "bt_of kvs = fold (\<lambda>(k, v). bt_insert k v) kvs []"

definition bt_wf :: "('k :: linorder, 'v) btmap \<Rightarrow> bool" where
  "bt_wf m \<longleftrightarrow> sorted_wrt (<) (map fst m)"

lemma map_of_bt_insert [simp, map_simps]:
  "bt_wf m \<Longrightarrow> map_of (bt_insert k v m) = (map_of m)(k \<mapsto> v)"
proof (induction k v m rule: bt_insert.induct)
  case (1 k v)
  then show ?case by simp
next
  case (2 k v k' v' m)
  from "2.prems" have wf: "bt_wf m" by (simp add: bt_wf_def)
  show ?case using "2.IH" wf by (auto simp: fun_upd_twist)
qed

lemma set_keys_bt_insert [simp]: "fst ` set (bt_insert k v m) = insert k (fst ` set m)"
  by (induction k v m rule: bt_insert.induct) auto

lemma bt_wf_Nil [simp]: "bt_wf []"
  by (simp add: bt_wf_def)

lemma bt_wf_insert [simp]: "bt_wf m \<Longrightarrow> bt_wf (bt_insert k v m)"
proof (induction k v m rule: bt_insert.induct)
  case (1 k v)
  then show ?case by (simp add: bt_wf_def)
next
  case (2 k v k' v' m)
  from "2.prems" have wf: "bt_wf m" and lt: "\<forall>x \<in> fst ` set m. k' < x"
    by (auto simp: bt_wf_def)
  consider "k = k'" | "k < k'" | "k' < k" by (rule linorder_cases)
  then show ?case
  proof cases
    case 3
    then have "\<forall>x \<in> fst ` set (bt_insert k v m). k' < x" using lt by simp
    moreover from 3 "2.IH" wf have "bt_wf (bt_insert k v m)" by simp
    ultimately show ?thesis using 3 by (auto simp: bt_wf_def)
  qed (use "2.prems" lt in \<open>auto simp: bt_wf_def\<close>)
qed

lemma bt_wf_fold: "bt_wf m \<Longrightarrow> bt_wf (fold (\<lambda>(k, v). bt_insert k v) kvs m)"
  by (induction kvs arbitrary: m) auto

lemma bt_wf_of [simp]: "bt_wf (bt_of kvs)"
  by (simp add: bt_of_def bt_wf_fold)

lemma map_of_fold_bt_insert:
  "bt_wf m \<Longrightarrow> distinct (map fst kvs) \<Longrightarrow>
   map_of (fold (\<lambda>(k, v). bt_insert k v) kvs m) k =
     (case map_of kvs k of Some v \<Rightarrow> Some v | None \<Rightarrow> map_of m k)"
proof (induction kvs arbitrary: m)
  case Nil
  then show ?case by simp
next
  case (Cons p kvs)
  obtain k' v' where p: "p = (k', v')" by (cases p)
  from Cons.prems p have "map_of kvs k' = None"
    by (simp add: map_of_eq_None_iff)
  with Cons p show ?case by (auto split: option.splits)
qed

lemma map_of_bt_of:
  "distinct (map fst kvs) \<Longrightarrow> map_of (bt_of kvs) k = map_of kvs k"
  by (simp add: bt_of_def map_of_fold_bt_insert split: option.splits)

lemma set_keys_bt_of: "fst ` set (bt_of kvs) = fst ` set kvs"
proof -
  have "fst ` set (fold (\<lambda>(k, v). bt_insert k v) kvs m) = fst ` set kvs \<union> fst ` set m" for m
    by (induction kvs arbitrary: m) (simp_all add: case_prod_beta)
  then show ?thesis by (simp add: bt_of_def)
qed

subsection \<open>Strings\<close>

definition starts_with :: "string \<Rightarrow> string \<Rightarrow> bool" where
  "starts_with s p \<longleftrightarrow> take (length p) s = p"

lemma starts_with_append [simp]: "starts_with (p @ s) p"
  by (simp add: starts_with_def)

lemma starts_with_prefix: "starts_with s p \<longleftrightarrow> prefix p s"
proof
  assume "starts_with s p"
  then show "prefix p s" unfolding starts_with_def by (metis take_is_prefix)
next
  assume "prefix p s"
  then show "starts_with s p" unfolding starts_with_def prefix_def by auto
qed

definition ends_with :: "string \<Rightarrow> string \<Rightarrow> bool" where
  "ends_with s p \<longleftrightarrow> length p \<le> length s \<and> drop (length s - length p) s = p"

subsection \<open>Greatest elements\<close>

text \<open>\<open>max_by_key\<close>: the last of the elements with the greatest key.\<close>

fun max_by_key :: "('a \<Rightarrow> 'k :: linorder) \<Rightarrow> 'a list \<Rightarrow> 'a option" where
  "max_by_key f [] = None"
| "max_by_key f (x # xs) =
     (case max_by_key f xs of None \<Rightarrow> Some x | Some y \<Rightarrow> if f x > f y then Some x else Some y)"

lemma max_by_key_None [simp]: "max_by_key f xs = None \<longleftrightarrow> xs = []"
  by (cases xs) (auto split: option.splits if_splits)

lemma max_by_key_Some: "max_by_key f xs = Some x \<Longrightarrow> x \<in> set xs \<and> (\<forall>y \<in> set xs. f y \<le> f x)"
  by (induction xs arbitrary: x) (fastforce split: option.splits if_splits)+

lemma max_by_key_iff:
  assumes "inj_on f (set xs)"
  shows "max_by_key f xs = Some x \<longleftrightarrow> x \<in> set xs \<and> (\<forall>y \<in> set xs. f y \<le> f x)"
proof
  assume x: "x \<in> set xs \<and> (\<forall>y \<in> set xs. f y \<le> f x)"
  then obtain z where z: "max_by_key f xs = Some z" by (cases "max_by_key f xs") auto
  with x max_by_key_Some [OF z] have "f z = f x" by (auto intro: antisym)
  with x z max_by_key_Some [OF z] assms show "max_by_key f xs = Some x" by (auto dest: inj_onD)
qed (rule max_by_key_Some)

subsection \<open>The printed form of a UUID\<close>

text \<open>
  The \<open>uuid\<close> crate's \<open>Display\<close> and \<open>parse_str\<close>: parsing a printed identifier returns it.
\<close>

locale uuid_codec =
  fixes show_uuid :: "uuid \<Rightarrow> string" and parse_uuid_str :: "string \<Rightarrow> uuid option"
  assumes parse_show: "parse_uuid_str (show_uuid u) = Some u"
begin

lemma show_inj: "show_uuid u = show_uuid v \<longleftrightarrow> u = v"
  by (metis option.inject parse_show)

lemma prefixed_inj: "p @ show_uuid u = p @ show_uuid v \<longleftrightarrow> u = v"
  by (simp add: show_inj)

end

end
