(* ===== verification/Daemon_Retry.thy ===== *)
theory Daemon_Retry
  imports Prelude
begin

section \<open>Retry pacing of the daemon's pollers\<close>

text \<open>
  \<^verbatim>\<open>src/crates/verlet-kernel/src/daemon/retry.rs\<close>: the state machine that paces a poll loop after
  failures and decides what is logged.  A \<open>std::time::Duration\<close> is its number of nanoseconds, with
  the saturation of \<open>saturating_mul\<close> at \<open>Duration::MAX\<close> written out; the poll counters are \<open>u64\<close>
  with \<open>saturating_add\<close>.  \<open>poll\<close> is one iteration of the loops that use the state.
\<close>

type_synonym duration = nat

definition duration_max :: duration where
  "duration_max = (2 ^ 64 - 1) * 1000000000 + 999999999"

definition saturating_mul2 :: "duration \<Rightarrow> duration" where
  "saturating_mul2 d = min (2 * d) duration_max"

definition saturating_add1 :: "u64 \<Rightarrow> u64" where
  "saturating_add1 n = (if n = - 1 then - 1 else n + 1)"

definition RETRY_CAP :: duration where
  "RETRY_CAP = 60 * 1000000000"

definition RETRY_MIN :: duration where
  "RETRY_MIN = 1000000"

definition DEGRADED_THRESHOLD :: u64 where
  "DEGRADED_THRESHOLD = 5"

definition RECOVERY_THRESHOLD :: u64 where
  "RECOVERY_THRESHOLD = 2"

datatype retry_log =
    Failed string
  | BackoffIncreased u64 duration
  | ErrorChanged u64 duration string
  | Degraded u64 duration string
  | Recovered u64

record retry_decision =
  rd_delay :: duration
  rd_log :: "retry_log option"

record retry_state =
  rs_failed_polls :: u64
  rs_successful_polls :: u64
  rs_current_delay :: duration
  rs_last_error_key :: "string option"

definition poll_delay :: "duration \<Rightarrow> duration" where
  "poll_delay poll_interval = max poll_interval RETRY_MIN"

definition retry_base :: "duration \<Rightarrow> duration" where
  "retry_base poll_interval = min (poll_delay poll_interval) RETRY_CAP"

definition retry_new :: "duration \<Rightarrow> retry_state" where
  "retry_new poll_interval = \<lparr>rs_failed_polls = 0, rs_successful_polls = 0,
     rs_current_delay = poll_delay poll_interval, rs_last_error_key = None\<rparr>"

definition on_failure_with_key ::
  "string \<Rightarrow> string \<Rightarrow> duration \<Rightarrow> retry_state \<Rightarrow> retry_decision \<times> retry_state" where
  "on_failure_with_key error_key error poll_interval st =
     (let same_error = (rs_last_error_key st = Some error_key);
          previous_delay = rs_current_delay st;
          failed_polls = saturating_add1 (rs_failed_polls st);
          current_delay =
            (if failed_polls \<ge> DEGRADED_THRESHOLD then RETRY_CAP
             else if failed_polls = 1 then retry_base poll_interval
             else min (saturating_mul2 (rs_current_delay st)) RETRY_CAP);
          log =
            (if failed_polls = 1 then Some (Failed error)
             else if failed_polls = DEGRADED_THRESHOLD
               then Some (Degraded failed_polls current_delay error)
             else if \<not> same_error then Some (ErrorChanged failed_polls current_delay error)
             else if current_delay > previous_delay
               then Some (BackoffIncreased failed_polls current_delay)
             else None) in
      (\<lparr>rd_delay = current_delay, rd_log = log\<rparr>,
       \<lparr>rs_failed_polls = failed_polls, rs_successful_polls = 0,
        rs_current_delay = current_delay, rs_last_error_key = Some error_key\<rparr>))"

definition on_success :: "duration \<Rightarrow> retry_state \<Rightarrow> retry_decision \<times> retry_state" where
  "on_success poll_interval st =
     (if rs_failed_polls st = 0
      then (\<lparr>rd_delay = poll_delay poll_interval, rd_log = None\<rparr>,
            st\<lparr>rs_current_delay := poll_delay poll_interval\<rparr>)
      else let successful_polls = saturating_add1 (rs_successful_polls st) in
        if successful_polls < RECOVERY_THRESHOLD
        then (\<lparr>rd_delay = rs_current_delay st, rd_log = None\<rparr>,
              st\<lparr>rs_successful_polls := successful_polls\<rparr>)
        else (\<lparr>rd_delay = poll_delay poll_interval, rd_log = Some (Recovered (rs_failed_polls st))\<rparr>,
              \<lparr>rs_failed_polls = 0, rs_successful_polls = 0,
               rs_current_delay = poll_delay poll_interval, rs_last_error_key = None\<rparr>))"

subsection \<open>Stable error keys\<close>

text \<open>\<open>str::find\<close> with a pattern: the offset of its first occurrence.\<close>

fun find_str :: "string \<Rightarrow> string \<Rightarrow> nat option" where
  "find_str pat [] = (if pat = [] then Some 0 else None)"
| "find_str pat (c # cs) =
     (if starts_with (c # cs) pat then Some 0 else map_option Suc (find_str pat cs))"

definition wal_marker :: string where
  "wal_marker = ''short read on WAL frame''"

definition wal_validation_marker :: string where
  "wal_validation_marker = ''short read on WAL frame validation''"

definition stable_error_key :: "string \<Rightarrow> string" where
  "stable_error_key error =
     (case find_str wal_marker error of
        None \<Rightarrow> error
      | Some start \<Rightarrow>
          take start error @
          (if starts_with (drop start error) wal_validation_marker then wal_validation_marker
           else wal_marker))"

definition on_failure ::
  "string \<Rightarrow> duration \<Rightarrow> retry_state \<Rightarrow> retry_decision \<times> retry_state" where
  "on_failure error poll_interval st =
     on_failure_with_key (stable_error_key error) error poll_interval st"

subsection \<open>Poll histories\<close>

datatype poll_outcome = PollFailed string | PollSucceeded

primrec poll :: "duration \<Rightarrow> poll_outcome \<Rightarrow> retry_state \<Rightarrow> retry_decision \<times> retry_state" where
  "poll interval (PollFailed error) st = on_failure error interval st"
| "poll interval PollSucceeded st = on_success interval st"

primrec polls :: "duration \<Rightarrow> poll_outcome list \<Rightarrow> retry_state \<Rightarrow> retry_decision list \<times> retry_state" where
  "polls interval [] st = ([], st)"
| "polls interval (outcome # outcomes) st =
     (let (d, st') = poll interval outcome st; (ds, st'') = polls interval outcomes st' in
      (d # ds, st''))"

subsection \<open>The intended pacing\<close>

text \<open>
  What the loop is meant to do, without saturating counters: \<open>episode\<close> counts the failures since
  the last recovery and the successes since the last failure (two of them recover), and the delay
  after \<open>n\<close> failures is the poll interval, kept between a millisecond and a minute, doubled with
  every further failure up to a minute, and a minute from the fifth failure on.
\<close>

primrec episode_step :: "nat \<times> nat \<Rightarrow> poll_outcome \<Rightarrow> nat \<times> nat" where
  "episode_step nk (PollFailed error) = (Suc (fst nk), 0)"
| "episode_step nk PollSucceeded =
     (if fst nk = 0 \<or> 0 < snd nk then (0, 0) else (fst nk, 1))"

definition episode :: "poll_outcome list \<Rightarrow> nat \<times> nat" where
  "episode outcomes = foldl episode_step (0, 0) outcomes"

definition backoff :: "duration \<Rightarrow> nat \<Rightarrow> duration" where
  "backoff interval n =
     (if n = 0 then poll_delay interval else if 5 \<le> n then RETRY_CAP
      else min (retry_base interval * 2 ^ (n - 1)) RETRY_CAP)"

definition paced :: "duration \<Rightarrow> nat \<times> nat \<Rightarrow> retry_state \<Rightarrow> bool" where
  "paced interval nk st \<longleftrightarrow>
     unat (rs_failed_polls st) = min (fst nk) (2 ^ 64 - 1) \<and>
     unat (rs_successful_polls st) = snd nk \<and> snd nk \<le> 1 \<and> (fst nk = 0 \<longrightarrow> snd nk = 0) \<and>
     rs_current_delay st = backoff interval (fst nk)"

lemma unat_saturating_add1: "unat (saturating_add1 n) = min (unat n + 1) (2 ^ 64 - 1)"
proof (cases "n = - 1")
  case True
  then show ?thesis by (simp add: saturating_add1_def unsigned_minus_1_eq_mask mask_eq_exp_minus_1)
next
  case False
  then have "1 + n \<noteq> 0" by (metis add.inverse_unique)
  then have "unat (n + 1) = unat n + 1" by (simp add: unatSuc add.commute)
  moreover have "unat (n + 1) < 2 ^ 64" using unsigned_less [where w = "n + 1" and ?'a = nat] by simp
  ultimately show ?thesis using False by (simp add: saturating_add1_def)
qed

lemma u64_eq_iff: "(n :: u64) = m \<longleftrightarrow> unat n = unat m"
  by (simp add: word_unat_eq_iff)

lemma cap_below_max: "2 * RETRY_CAP \<le> duration_max"
  by (simp add: RETRY_CAP_def duration_max_def)

lemma backoff_Suc:
  assumes "1 \<le> n" "n < 4"
  shows "min (saturating_mul2 (backoff interval n)) RETRY_CAP = backoff interval (Suc n)"
proof -
  have "backoff interval n \<le> RETRY_CAP" using assms by (simp add: backoff_def)
  then have "saturating_mul2 (backoff interval n) = 2 * backoff interval n"
    using cap_below_max by (simp add: saturating_mul2_def)
  moreover have "2 ^ n = 2 * (2 :: nat) ^ (n - 1)"
    using assms(1) by (metis Suc_diff_1 less_le_trans power_Suc zero_less_one)
  moreover have "min (2 * min x c) c = min (2 * x) c" for x c :: nat by (simp add: min_def)
  ultimately show ?thesis using assms by (simp add: backoff_def mult.left_commute)
qed

lemma thresholds:
  "DEGRADED_THRESHOLD \<le> n \<longleftrightarrow> 5 \<le> unat n" "n = DEGRADED_THRESHOLD \<longleftrightarrow> unat n = 5"
  "n < RECOVERY_THRESHOLD \<longleftrightarrow> unat n < 2"
  by (simp_all add: DEGRADED_THRESHOLD_def RECOVERY_THRESHOLD_def word_le_nat_alt word_less_nat_alt
      u64_eq_iff)

lemma paced_failure:
  assumes "paced interval (n, k) st"
  shows "paced interval (Suc n, 0) (snd (on_failure error interval st)) \<and>
    rd_delay (fst (on_failure error interval st)) = backoff interval (Suc n)"
proof -
  let ?f = "saturating_add1 (rs_failed_polls st)"
  have f: "unat ?f = min (Suc n) (2 ^ 64 - 1)"
    using assms by (simp add: paced_def unat_saturating_add1)
  have one: "?f = 1 \<longleftrightarrow> n = 0" unfolding u64_eq_iff f by (simp add: min_def)
  have "(if ?f \<ge> DEGRADED_THRESHOLD then RETRY_CAP else if ?f = 1 then retry_base interval
      else min (saturating_mul2 (rs_current_delay st)) RETRY_CAP) = backoff interval (Suc n)"
  proof (cases "4 \<le> n")
    case True
    then show ?thesis by (simp add: thresholds f backoff_def)
  next
    case False
    show ?thesis
    proof (cases "n = 0")
      case True
      then show ?thesis using one by (simp add: thresholds f backoff_def retry_base_def)
    next
      case pos: False
      with False assms show ?thesis
        using one backoff_Suc [of n interval] by (simp add: thresholds f paced_def)
    qed
  qed
  with f show ?thesis
    by (simp add: paced_def on_failure_def on_failure_with_key_def Let_def)
qed

lemma paced_success:
  assumes "paced interval (n, k) st"
  shows "paced interval (episode_step (n, k) PollSucceeded) (snd (on_success interval st)) \<and>
    rd_delay (fst (on_success interval st)) =
      backoff interval (fst (episode_step (n, k) PollSucceeded))"
proof -
  have zero: "rs_failed_polls st = 0 \<longleftrightarrow> n = 0"
    using assms by (auto simp: paced_def u64_eq_iff min_def split: if_splits)
  have "k = 0 \<or> k = 1" using assms by (auto simp: paced_def)
  then show ?thesis
    using assms zero
    by (auto simp: on_success_def Let_def thresholds unat_saturating_add1 paced_def backoff_def)
qed

lemma paced_poll:
  assumes "paced interval nk st"
  shows "paced interval (episode_step nk outcome) (snd (poll interval outcome st)) \<and>
    rd_delay (fst (poll interval outcome st)) = backoff interval (fst (episode_step nk outcome))"
  using paced_failure paced_success assms by (cases outcome; cases nk) auto

lemma polls_delays:
  "paced interval nk st \<Longrightarrow>
   map rd_delay (fst (polls interval outcomes st)) =
   map (\<lambda>i. backoff interval (fst (foldl episode_step nk (take (Suc i) outcomes)))) [0..<length outcomes]"
proof (induction outcomes arbitrary: nk st)
  case Nil
  then show ?case by simp
next
  case (Cons outcome outcomes)
  note step = paced_poll [OF Cons.prems, of outcome]
  have "[0..<length (outcome # outcomes)] = 0 # map Suc [0..<length outcomes]"
    by (simp add: map_Suc_upt upt_conv_Cons del: upt_Suc)
  then show ?case
    using step Cons.IH [of "episode_step nk outcome" "snd (poll interval outcome st)"]
    by (simp add: case_prod_beta Let_def comp_def del: upt_Suc)
qed

lemma paced_new: "paced interval (0, 0) (retry_new interval)"
  by (simp add: paced_def retry_new_def backoff_def)

text \<open>
  C40. The delays follow the intended pacing for every history of polls, however long: saturating
  counters and saturating multiplication never show.  Hence every delay is at least a millisecond,
  and every delay after a failure is at most a minute, and exactly a minute from the fifth failure
  of an episode on.
\<close>

theorem retry_delays_follow_backoff:
  "map rd_delay (fst (polls interval outcomes (retry_new interval))) =
     map (\<lambda>i. backoff interval (fst (episode (take (Suc i) outcomes)))) [0..<length outcomes] \<and>
   RETRY_MIN \<le> backoff interval n \<and> backoff interval (Suc n) \<le> RETRY_CAP \<and>
   backoff interval (n + 5) = RETRY_CAP"
proof -
  have "RETRY_MIN \<le> RETRY_CAP" by (simp add: RETRY_MIN_def RETRY_CAP_def)
  moreover have "RETRY_MIN \<le> retry_base interval"
    using \<open>RETRY_MIN \<le> RETRY_CAP\<close> by (simp add: retry_base_def poll_delay_def)
  then have "RETRY_MIN \<le> retry_base interval * 2 ^ (n - 1)"
    by (metis le_trans mult_le_mono2 mult_1_right one_le_numeral one_le_power)
  ultimately show ?thesis
    using polls_delays [OF paced_new, of interval outcomes]
    by (simp add: episode_def backoff_def poll_delay_def)
qed

lemma paced_polls:
  "paced interval nk st \<Longrightarrow>
   paced interval (foldl episode_step nk outcomes) (snd (polls interval outcomes st))"
  using paced_poll by (induction outcomes arbitrary: nk st) (auto simp: case_prod_beta Let_def)

lemma failure_logs:
  assumes "paced interval (n, k) st"
  shows "(\<exists>e. rd_log (fst (on_failure error interval st)) = Some (Failed e)) \<longleftrightarrow> n = 0"
    and "(\<exists>m d e. rd_log (fst (on_failure error interval st)) = Some (Degraded m d e)) \<longleftrightarrow> n = 4"
proof -
  let ?f = "saturating_add1 (rs_failed_polls st)"
  have f: "unat ?f = min (Suc n) (2 ^ 64 - 1)"
    using assms by (simp add: paced_def unat_saturating_add1)
  have one: "?f = 1 \<longleftrightarrow> n = 0" unfolding u64_eq_iff f by (simp add: min_def)
  have five: "?f = DEGRADED_THRESHOLD \<longleftrightarrow> n = 4" unfolding thresholds f by (simp add: min_def)
  show "(\<exists>e. rd_log (fst (on_failure error interval st)) = Some (Failed e)) \<longleftrightarrow> n = 0"
    by (simp add: on_failure_def on_failure_with_key_def Let_def one [symmetric])
  show "(\<exists>m d e. rd_log (fst (on_failure error interval st)) = Some (Degraded m d e)) \<longleftrightarrow> n = 4"
    by (simp add: on_failure_def on_failure_with_key_def Let_def one five)
qed

lemma success_logs:
  assumes "paced interval (n, k) st"
  shows "rd_log (fst (on_success interval st)) \<noteq> None \<longleftrightarrow> k = 1"
    and "k = 1 \<Longrightarrow> rd_log (fst (on_success interval st)) = Some (Recovered (rs_failed_polls st))"
    and "k = 1 \<Longrightarrow> snd (on_success interval st) = retry_new interval"
proof -
  have zero: "rs_failed_polls st = 0 \<longleftrightarrow> n = 0"
    using assms by (auto simp: paced_def u64_eq_iff min_def split: if_splits)
  have "k = 0 \<or> k = 1" using assms by (auto simp: paced_def)
  then show "rd_log (fst (on_success interval st)) \<noteq> None \<longleftrightarrow> k = 1"
    using zero assms
    by (auto simp: on_success_def Let_def thresholds unat_saturating_add1 paced_def)
  assume "k = 1"
  then show "rd_log (fst (on_success interval st)) = Some (Recovered (rs_failed_polls st))"
      "snd (on_success interval st) = retry_new interval"
    using zero assms
    by (auto simp: on_success_def Let_def thresholds unat_saturating_add1 paced_def retry_new_def)
qed

text \<open>
  What is logged, after any history of polls.  A failure is logged as \<open>Failed\<close> exactly when it
  starts an episode and as \<open>Degraded\<close> exactly when it is the episode's fifth; a success is logged
  exactly when it is the second in a row after a failure, as \<open>Recovered\<close>, and then the pacing
  starts afresh.
\<close>

theorem retry_logs_episode_edges:
  "let st = snd (polls interval outcomes (retry_new interval));
       (n, k) = episode outcomes in
     ((\<exists>e. rd_log (fst (on_failure error interval st)) = Some (Failed e)) \<longleftrightarrow> n = 0) \<and>
     ((\<exists>m d e. rd_log (fst (on_failure error interval st)) = Some (Degraded m d e)) \<longleftrightarrow> n = 4) \<and>
     (rd_log (fst (on_success interval st)) \<noteq> None \<longleftrightarrow> k = 1) \<and>
     (k = 1 \<longrightarrow>
        rd_log (fst (on_success interval st)) = Some (Recovered (rs_failed_polls st)) \<and>
        snd (on_success interval st) = retry_new interval)"
proof -
  obtain n k where nk: "episode outcomes = (n, k)" by fastforce
  have "paced interval (n, k) (snd (polls interval outcomes (retry_new interval)))"
    using paced_polls [OF paced_new, of interval outcomes] nk by (simp add: episode_def)
  from failure_logs [OF this] success_logs [OF this] show ?thesis by (simp add: nk)
qed

theorem retry_logs_episode_edges_witness:
  "rd_log (fst (on_success 1000 (snd (polls 1000 [PollFailed ''timeout'', PollSucceeded]
     (retry_new 1000))))) \<noteq> None"
  using retry_logs_episode_edges [of 1000 "[PollFailed ''timeout'', PollSucceeded]" "''timeout''"]
  by (simp add: episode_def Let_def)

subsection \<open>Error keys\<close>

lemma find_str_iff:
  "find_str pat s = Some i \<longleftrightarrow>
   i \<le> length s \<and> prefix pat (drop i s) \<and> (\<forall>j < i. \<not> prefix pat (drop j s))"
proof (induction pat s arbitrary: i rule: find_str.induct)
  case (1 pat)
  then show ?case by (auto simp: prefix_def)
next
  case (2 pat c cs)
  show ?case
  proof (cases "starts_with (c # cs) pat")
    case True
    then show ?thesis by (auto simp: starts_with_prefix)
  next
    case False
    then have no: "\<not> prefix pat (c # cs)" by (simp add: starts_with_prefix)
    show ?thesis
    proof (cases i)
      case 0
      with False no show ?thesis by auto
    next
      case (Suc k)
      have "(\<forall>j < Suc k. \<not> prefix pat (drop j (c # cs))) \<longleftrightarrow> (\<forall>j < k. \<not> prefix pat (drop j cs))"
        using no by (auto simp: less_Suc_eq_0_disj)
      with False Suc 2 [OF False, of k] show ?thesis by auto
    qed
  qed
qed

lemma find_str_prefix:
  assumes "find_str pat e = Some i" "prefix s e" "i + length pat \<le> length s"
  shows "find_str pat s = Some i"
proof -
  obtain r where r: "e = s @ r" using assms(2) by (auto simp: prefix_def)
  have i: "i \<le> length s" using assms(3) by simp
  have "prefix pat (drop i s @ r)" using assms(1) i by (simp add: find_str_iff r)
  moreover have "length pat \<le> length (drop i s)" using assms(3) by simp
  ultimately have "prefix pat (drop i s)" by (metis prefix_length_prefix prefixI)
  moreover have "\<not> prefix pat (drop j s)" if "j < i" for j
    using that assms(1) i by (auto simp: find_str_iff r prefix_append)
  ultimately show ?thesis using i by (simp add: find_str_iff)
qed

lemma marker_kinds:
  "starts_with wal_validation_marker wal_validation_marker"
  "\<not> starts_with wal_marker wal_validation_marker"
  by (simp_all add: starts_with_def wal_marker_def wal_validation_marker_def)

text \<open>
  Keys of errors are stable: taking the key of a key changes nothing, and two messages that
  agree up to and including the short-read marker and differ only after it (a frame number, an
  offset) have the same key unless exactly one of them is about validation.
\<close>

theorem stable_error_key_stable:
  "stable_error_key (stable_error_key error) = stable_error_key error \<and>
   (find_str wal_marker error = Some (length p) \<and> error = p @ wal_marker @ x \<and>
      \<not> starts_with (wal_marker @ x) wal_validation_marker \<longrightarrow>
    stable_error_key error = p @ wal_marker)"
proof (intro conjI impI)
  show "stable_error_key (stable_error_key error) = stable_error_key error"
  proof (cases "find_str wal_marker error")
    case None
    then show ?thesis by (simp add: stable_error_key_def)
  next
    case (Some i)
    define kind where "kind = (if starts_with (drop i error) wal_validation_marker
      then wal_validation_marker else wal_marker)"
    have key: "stable_error_key error = take i error @ kind"
      using Some by (simp add: stable_error_key_def kind_def)
    have i: "i \<le> length error" using Some by (simp add: find_str_iff)
    have "prefix kind (drop i error)"
      using Some by (simp add: kind_def find_str_iff starts_with_prefix)
    then have pre: "prefix (take i error @ kind) error"
      by (metis append_take_drop_id same_prefix_prefix)
    have "length wal_marker \<le> length kind"
      by (simp add: kind_def wal_marker_def wal_validation_marker_def)
    with i have "i + length wal_marker \<le> length (take i error @ kind)" by simp
    from find_str_prefix [OF Some pre this] have "stable_error_key (take i error @ kind) = take i (take i error @ kind) @
        (if starts_with (drop i (take i error @ kind)) wal_validation_marker
         then wal_validation_marker else wal_marker)"
      by (simp only: stable_error_key_def option.case)
    moreover have "take i (take i error @ kind) = take i error" "drop i (take i error @ kind) = kind"
      using i by simp_all
    moreover have "(if starts_with kind wal_validation_marker then wal_validation_marker
        else wal_marker) = kind"
      using marker_kinds unfolding kind_def by (cases "starts_with (drop i error) wal_validation_marker") simp_all
    ultimately show ?thesis unfolding key by (simp only:)
  qed
next
  assume a: "find_str wal_marker error = Some (length p) \<and> error = p @ wal_marker @ x \<and>
      \<not> starts_with (wal_marker @ x) wal_validation_marker"
  from a have "find_str wal_marker error = Some (length p)" by blast
  then have "stable_error_key error = take (length p) error @
      (if starts_with (drop (length p) error) wal_validation_marker then wal_validation_marker
       else wal_marker)"
    by (simp only: stable_error_key_def option.case)
  moreover have "take (length p) error = p" "drop (length p) error = wal_marker @ x"
    using a by simp_all
  ultimately show "stable_error_key error = p @ wal_marker" using a by simp
qed

theorem stable_error_key_stable_witness:
  "stable_error_key ''db: short read on WAL frame 12'' = ''db: short read on WAL frame''"
proof -
  have "find_str wal_marker ''db: short read on WAL frame 12'' = Some (length ''db: '')"
    by code_simp
  moreover have "''db: short read on WAL frame 12'' = ''db: '' @ wal_marker @ '' 12''"
    by (simp add: wal_marker_def)
  moreover have "\<not> starts_with (wal_marker @ '' 12'') wal_validation_marker"
    by code_simp
  ultimately have "stable_error_key ''db: short read on WAL frame 12'' = ''db: '' @ wal_marker"
    using stable_error_key_stable by blast
  then show ?thesis by (simp add: wal_marker_def)
qed

end
