(* ===== verification/Json_Value.thy ===== *)
theory Json_Value
  imports Prelude
begin

section \<open>JSON values\<close>

text \<open>
  The data type \<open>serde_json::Value\<close> as the crate documents it (version 1 without the
  \<open>preserve_order\<close> and \<open>arbitrary_precision\<close> features, which is what \<^verbatim>\<open>src/Cargo.toml\<close>
  selects): an object is a \<open>BTreeMap\<close>, iterated in key order and equal to another object when
  the two maps agree; a number is an unsigned integer, a negative integer or a finite
  \<open>f64\<close>.  A finite \<open>f64\<close>, up to the sign of zero (which \<open>==\<close> ignores), is the dyadic number
  \<open>m * 2 ^ e\<close> with \<open>m\<close> odd, or zero written \<open>Dyadic 0 0\<close>; with that representation Rust's
  \<open>==\<close> on values is HOL's equality.

  The accessors below are the ones the repository's code calls.
\<close>

named_theorems json_simps \<open>evaluation of the JSON accessors\<close>

datatype f64 = Dyadic int int

datatype json_number = PosInt u64 | NegInt i64 | Float f64

datatype json =
    JNull
  | JBool bool
  | JNumber json_number
  | JString string
  | JArray "json list"
  | JObject "(string \<times> json) list"

text \<open>A representable value: sorted objects, negative \<open>NegInt\<close>, canonical floats.\<close>

fun f64_canonical :: "f64 \<Rightarrow> bool" where
  "f64_canonical (Dyadic m e) \<longleftrightarrow> odd m \<or> m = 0 \<and> e = 0"

fun number_wf :: "json_number \<Rightarrow> bool" where
  "number_wf (PosInt _) = True"
| "number_wf (NegInt n) = (- (2 ^ 63) \<le> n \<and> n < 0)"
| "number_wf (Float f) = f64_canonical f"

fun json_wf :: "json \<Rightarrow> bool" where
  "json_wf JNull = True"
| "json_wf (JBool _) = True"
| "json_wf (JNumber n) = number_wf n"
| "json_wf (JString _) = True"
| "json_wf (JArray xs) = list_all json_wf xs"
| "json_wf (JObject kvs) = (bt_wf kvs \<and> list_all (\<lambda>(k, v). json_wf v) kvs)"

subsection \<open>Construction\<close>

text \<open>\<open>json!({...})\<close> inserts its entries one after the other.\<close>

definition jobj :: "(string \<times> json) list \<Rightarrow> json" where
  "jobj kvs = JObject (bt_of kvs)"

definition jstrs :: "string list \<Rightarrow> json" where
  "jstrs xs = JArray (map JString xs)"

text \<open>\<open>Value::from(i64)\<close> and \<open>Value::from(u64)\<close>.\<close>

definition json_of_i64 :: "i64 \<Rightarrow> json" where
  "json_of_i64 n = JNumber (if n < 0 then NegInt n else PosInt (word_of_int n))"

definition json_of_u64 :: "u64 \<Rightarrow> json" where
  "json_of_u64 n = JNumber (PosInt n)"

text \<open>
  The fields a derived \<open>Serialize\<close> writes: a plain field, a field with
  \<open>skip_serializing_if = "Option::is_none"\<close>, and one with
  \<open>skip_serializing_if = "Vec::is_empty"\<close>.
\<close>

definition field :: "string \<Rightarrow> json \<Rightarrow> (string \<times> json) list" where
  "field k v = [(k, v)]"

definition opt_field :: "string \<Rightarrow> ('a \<Rightarrow> json) \<Rightarrow> 'a option \<Rightarrow> (string \<times> json) list" where
  "opt_field k f v = (case v of None \<Rightarrow> [] | Some x \<Rightarrow> [(k, f x)])"

definition vec_field :: "string \<Rightarrow> ('a \<Rightarrow> json) \<Rightarrow> 'a list \<Rightarrow> (string \<times> json) list" where
  "vec_field k f xs = (if xs = [] then [] else [(k, JArray (map f xs))])"

definition json_of_option :: "('a \<Rightarrow> json) \<Rightarrow> 'a option \<Rightarrow> json" where
  "json_of_option f v = (case v of None \<Rightarrow> JNull | Some x \<Rightarrow> f x)"

subsection \<open>Access\<close>

fun as_object :: "json \<Rightarrow> (string \<times> json) list option" where
  "as_object (JObject kvs) = Some kvs"
| "as_object _ = None"

fun as_array :: "json \<Rightarrow> json list option" where
  "as_array (JArray xs) = Some xs"
| "as_array _ = None"

fun as_str :: "json \<Rightarrow> string option" where
  "as_str (JString s) = Some s"
| "as_str _ = None"

fun as_i64 :: "json \<Rightarrow> i64 option" where
  "as_i64 (JNumber (PosInt n)) = (if unat n < 2 ^ 63 then Some (int (unat n)) else None)"
| "as_i64 (JNumber (NegInt n)) = Some n"
| "as_i64 _ = None"

fun as_u64 :: "json \<Rightarrow> u64 option" where
  "as_u64 (JNumber (PosInt n)) = Some n"
| "as_u64 _ = None"

text \<open>\<open>Value::get(key)\<close>: \<open>None\<close> unless the value is an object that has the key.\<close>

definition json_get :: "json \<Rightarrow> string \<Rightarrow> json option" where
  "json_get v k = (case as_object v of None \<Rightarrow> None | Some kvs \<Rightarrow> map_of kvs k)"

text \<open>\<open>if let Some(object) = v.as_object_mut() { object.insert(k, x); }\<close>\<close>

fun object_insert :: "string \<Rightarrow> json \<Rightarrow> json \<Rightarrow> json" where
  "object_insert k x (JObject kvs) = JObject (bt_insert k x kvs)"
| "object_insert k x v = v"

fun is_object :: "json \<Rightarrow> bool" where
  "is_object (JObject _) = True"
| "is_object _ = False"

fun is_array :: "json \<Rightarrow> bool" where
  "is_array (JArray _) = True"
| "is_array _ = False"

fun is_string :: "json \<Rightarrow> bool" where
  "is_string (JString _) = True"
| "is_string _ = False"

fun is_number :: "json \<Rightarrow> bool" where
  "is_number (JNumber _) = True"
| "is_number _ = False"

fun is_boolean :: "json \<Rightarrow> bool" where
  "is_boolean (JBool _) = True"
| "is_boolean _ = False"

fun is_null :: "json \<Rightarrow> bool" where
  "is_null JNull = True"
| "is_null _ = False"

lemma is_object_iff: "is_object v \<longleftrightarrow> (\<exists>kvs. v = JObject kvs)"
  by (cases v) simp_all

lemma is_array_iff: "is_array v \<longleftrightarrow> (\<exists>xs. v = JArray xs)"
  by (cases v) simp_all

lemma as_object_eq_Some [simp]: "as_object v = Some kvs \<longleftrightarrow> v = JObject kvs"
  by (cases v) auto

lemma as_array_eq_Some [simp]: "as_array v = Some xs \<longleftrightarrow> v = JArray xs"
  by (cases v) auto

lemma as_str_eq_Some [simp]: "as_str v = Some s \<longleftrightarrow> v = JString s"
  by (cases v) auto

lemma is_object_jobj [simp]: "is_object (jobj kvs)"
  by (simp add: jobj_def)

lemma is_object_insert [simp]: "is_object (object_insert k x v) = is_object v"
  by (cases v) simp_all

lemma json_get_jobj: "distinct (map fst kvs) \<Longrightarrow> json_get (jobj kvs) k = map_of kvs k"
  by (simp add: json_get_def jobj_def map_of_bt_of)

lemma size_map_of: "map_of kvs k = Some v \<Longrightarrow> size v < size (JObject kvs)"
  using size_list_estimation [of "(k, v)" kvs "size v" "size_prod (\<lambda>x. 0) size"]
  by (force dest: map_of_SomeD simp: less_Suc_eq_le intro: size_list_estimation')

lemma size_obj_mem: "(k, v) \<in> set kvs \<Longrightarrow> size v < size (JObject kvs)"
  by (force simp: less_Suc_eq_le intro: size_list_estimation')

lemmas json_build_defs = jobj_def bt_of_def field_def opt_field_def vec_field_def jstrs_def

subsection \<open>Decimal numerals\<close>

text \<open>\<open>format!("{n}")\<close> of an unsigned integer.\<close>

fun show_nat :: "nat \<Rightarrow> string" where
  "show_nat n =
     (if n < 10 then [char_of (48 + n)] else show_nat (n div 10) @ [char_of (48 + n mod 10)])"

declare show_nat.simps [simp del]

end
