(* ===== verification/Json_Schema.thy ===== *)
theory Json_Schema
  imports Json_Value
begin

section \<open>The JSON schema subset\<close>

text \<open>
  \<^verbatim>\<open>src/crates/verlet-runtime-contracts/src/schema.rs\<close>: the fail-closed validator for the
  subset of JSON Schema the runtime accepts, and the registry of schemas by id.

  The model keeps the code's shape: the three mutually recursive value validators, the two
  mutually recursive validators of the schema itself, and the helper of each keyword, with every
  early return.  An error carries the label, the path string the code builds, and its message
  as a value of \<open>schema_message\<close> (one constructor per message text, holding what the text
  interpolates).  Objects are iterated in key order, as the code's \<open>BTreeMap\<close>s are, so the
  error reported is the first one the code meets.
\<close>

datatype schema_message =
    UnknownSchemaId string
  | SchemaNotObject
  | UnsupportedKeyword string
  | EnumNotArray
  | NotInEnum json
  | MissingType
  | UnsupportedType string
  | ExpectedType string string
  | ExpectedOneOf "string list" string
  | ExpectedObject string
  | ExpectedArray string
  | MissingRequired string
  | UnexpectedProperty string
  | AdditionalPropertiesShape
  | ArrayWithoutItems
  | ArrayDisallowsItems
  | ItemsShape
  | EmptyTypeUnion
  | TypeUnionEntryNotString
  | TypeShape
  | DepthExceeded
  | RequiredNotArray
  | RequiredEntryNotString
  | PropertiesNotObject

record schema_validation_error =
  sve_label :: string
  sve_path :: string
  sve_message :: schema_message

type_synonym 'a schema_result = "schema_validation_error + 'a"

definition MAX_JSON_SCHEMA_SUBSET_DEPTH :: nat where
  "MAX_JSON_SCHEMA_SUBSET_DEPTH = 64"

definition schema_error :: "string \<Rightarrow> string \<Rightarrow> schema_message \<Rightarrow> schema_validation_error" where
  "schema_error label path message =
     \<lparr>sve_label = label, sve_path = path, sve_message = message\<rparr>"

lemma sve_message_schema_error [simp]: "sve_message (schema_error l p m) = m"
  by (simp add: schema_error_def)

subsection \<open>Keyword helpers\<close>

definition is_supported_schema_key :: "string \<Rightarrow> bool" where
  "is_supported_schema_key key \<longleftrightarrow> key \<in> set
     [''type'', ''required'', ''properties'', ''enum'', ''items'', ''additionalProperties'',
      ''$schema'', ''$id'', ''title'', ''description'', ''default'', ''examples'',
      ''deprecated'', ''readOnly'', ''writeOnly'']"

definition check_schema_depth :: "string \<Rightarrow> string \<Rightarrow> nat \<Rightarrow> unit schema_result" where
  "check_schema_depth label path depth =
     (if depth > MAX_JSON_SCHEMA_SUBSET_DEPTH
      then Inl (schema_error label path DepthExceeded) else Inr ())"

definition schema_type_universe :: "string list" where
  "schema_type_universe =
     [''object'', ''array'', ''string'', ''number'', ''integer'', ''boolean'', ''null'']"

definition validate_schema_type_name ::
  "string \<Rightarrow> string \<Rightarrow> string \<Rightarrow> string schema_result" where
  "validate_schema_type_name name label path =
     (if name \<in> set schema_type_universe then Inr name
      else Inl (schema_error label path (UnsupportedType name)))"

text \<open>The loop of \<open>schema_type_names\<close> over a type union, dropping repeated names.\<close>

fun type_union_names ::
  "string \<Rightarrow> string \<Rightarrow> string list \<Rightarrow> json list \<Rightarrow> string list schema_result" where
  "type_union_names label path names [] = Inr names"
| "type_union_names label path names (v # vs) =
     (case as_str v of
        None \<Rightarrow> Inl (schema_error label path TypeUnionEntryNotString)
      | Some name \<Rightarrow>
          and_then (validate_schema_type_name name label path) (\<lambda>name.
            type_union_names label path
              (if name \<in> set names then names else names @ [name]) vs))"

fun schema_type_names :: "json \<Rightarrow> string \<Rightarrow> string \<Rightarrow> string list schema_result" where
  "schema_type_names (JString name) label path =
     and_then (validate_schema_type_name name label path) (\<lambda>n. Inr [n])"
| "schema_type_names (JArray values) label path =
     (if values = [] then Inl (schema_error label path EmptyTypeUnion)
      else type_union_names label path [] values)"
| "schema_type_names _ label path = Inl (schema_error label path TypeShape)"

definition is_json_integer :: "json \<Rightarrow> bool" where
  \<comment> \<open>a \<open>PosInt\<close> or \<open>NegInt\<close> is an integer by \<open>as_u64\<close> or \<open>as_i64\<close>; a float by its fraction\<close>
  "is_json_integer v \<longleftrightarrow>
     as_i64 v \<noteq> None \<or> as_u64 v \<noteq> None \<or>
     (case v of JNumber (Float (Dyadic m e)) \<Rightarrow> 0 \<le> e \<or> m = 0 \<or> 2 ^ nat (- e) dvd m
      | _ \<Rightarrow> False)"

definition schema_value_type_matches :: "string \<Rightarrow> json \<Rightarrow> bool" where
  "schema_value_type_matches schema_type v =
     (if schema_type = ''object'' then is_object v
      else if schema_type = ''array'' then is_array v
      else if schema_type = ''string'' then is_string v
      else if schema_type = ''number'' then is_number v
      else if schema_type = ''integer'' then is_json_integer v
      else if schema_type = ''boolean'' then is_boolean v
      else if schema_type = ''null'' then is_null v
      else False)"

fun json_type_name :: "json \<Rightarrow> string" where
  "json_type_name JNull = ''null''"
| "json_type_name (JBool _) = ''boolean''"
| "json_type_name (JNumber (PosInt _)) = ''integer''"
| "json_type_name (JNumber (NegInt _)) = ''integer''"
| "json_type_name (JNumber (Float _)) = ''number''"
| "json_type_name (JString _) = ''string''"
| "json_type_name (JArray _) = ''array''"
| "json_type_name (JObject _) = ''object''"

definition required_properties :: "json \<Rightarrow> string \<Rightarrow> string \<Rightarrow> string list schema_result" where
  "required_properties v label path =
     (case as_array v of
        None \<Rightarrow> Inl (schema_error label path RequiredNotArray)
      | Some values \<Rightarrow> collect_results (\<lambda>x. case as_str x of
            None \<Rightarrow> Inl (schema_error label path RequiredEntryNotString)
          | Some s \<Rightarrow> Inr s) values)"

definition schema_properties ::
  "json \<Rightarrow> string \<Rightarrow> string \<Rightarrow> (string \<times> json) list schema_result" where
  "schema_properties v label path =
     (case as_object v of
        None \<Rightarrow> Inl (schema_error label path PropertiesNotObject)
      | Some kvs \<Rightarrow> Inr kvs)"

text \<open>The keyword loop at the head of both validators.\<close>

definition check_schema_keys ::
  "(string \<times> json) list \<Rightarrow> string \<Rightarrow> string \<Rightarrow> unit schema_result" where
  "check_schema_keys object label path =
     for_each (\<lambda>key. if is_supported_schema_key key then Inr ()
       else Inl (schema_error label path (UnsupportedKeyword key))) (map fst object)"

text \<open>\<open>schema.get("required").map(required_properties).transpose()?.unwrap_or_default()\<close>\<close>

definition required_of ::
  "(string \<times> json) list \<Rightarrow> string \<Rightarrow> string \<Rightarrow> string list schema_result" where
  "required_of schema label path =
     (case map_of schema ''required'' of
        None \<Rightarrow> Inr [] | Some v \<Rightarrow> required_properties v label path)"

definition properties_of ::
  "(string \<times> json) list \<Rightarrow> string \<Rightarrow> string \<Rightarrow> (string \<times> json) list schema_result" where
  "properties_of schema label path =
     (case map_of schema ''properties'' of
        None \<Rightarrow> Inr [] | Some v \<Rightarrow> schema_properties v label path)"

text \<open>The \<open>enum\<close> check of \<open>validate_schema_value\<close>.\<close>

definition check_enum ::
  "(string \<times> json) list \<Rightarrow> json \<Rightarrow> string \<Rightarrow> string \<Rightarrow> unit schema_result" where
  "check_enum object v label path =
     (case map_of object ''enum'' of
        None \<Rightarrow> Inr ()
      | Some enumeration \<Rightarrow>
          (case as_array enumeration of
             None \<Rightarrow> Inl (schema_error label path EnumNotArray)
           | Some values \<Rightarrow> if v \<in> set values then Inr ()
               else Inl (schema_error label path (NotInEnum v))))"

lemma properties_of_size:
  "properties_of schema label path = Inr props \<Longrightarrow> (n, s) \<in> set props \<Longrightarrow>
   size s < size (JObject schema)"
  by (auto simp: properties_of_def schema_properties_def split: option.splits
      dest!: size_map_of size_obj_mem)

subsection \<open>Values against a schema\<close>

function (sequential)
  validate_schema_value :: "json \<Rightarrow> json \<Rightarrow> string \<Rightarrow> string \<Rightarrow> nat \<Rightarrow> unit schema_result" and
  validate_object_schema ::
    "(string \<times> json) list \<Rightarrow> json \<Rightarrow> string \<Rightarrow> string \<Rightarrow> nat \<Rightarrow> unit schema_result" and
  validate_array_schema ::
    "(string \<times> json) list \<Rightarrow> json \<Rightarrow> string \<Rightarrow> string \<Rightarrow> nat \<Rightarrow> unit schema_result"
where
  "validate_schema_value (JObject object) v path label depth =
     and_then (check_schema_depth label path depth) (\<lambda>_.
     and_then (check_schema_keys object label path) (\<lambda>_.
     and_then (check_enum object v label path) (\<lambda>_.
       case map_of object ''type'' of
         None \<Rightarrow> if map_of object ''enum'' \<noteq> None then Inr ()
                 else Inl (schema_error label path MissingType)
       | Some schema_type_value \<Rightarrow>
           and_then (schema_type_names schema_type_value label path) (\<lambda>schema_types.
             case find (\<lambda>schema_type. schema_value_type_matches schema_type v) schema_types of
               Some schema_type \<Rightarrow>
                 if schema_type = ''object'' then validate_object_schema object v path label depth
                 else if schema_type = ''array'' then validate_array_schema object v path label depth
                 else if schema_type \<in> set [''string'', ''number'', ''integer'', ''boolean'', ''null'']
                   then Inr ()
                 else Inl (schema_error label path (UnsupportedType schema_type))
             | None \<Rightarrow>
                 if length schema_types = 1
                 then Inl (schema_error label path (ExpectedType (hd schema_types) (json_type_name v)))
                 else Inl (schema_error label path (ExpectedOneOf schema_types (json_type_name v)))))))"
| "validate_schema_value schema v path label depth =
     and_then (check_schema_depth label path depth) (\<lambda>_.
       Inl (schema_error label path SchemaNotObject))"
| "validate_object_schema schema v path label depth =
     (case as_object v of
        None \<Rightarrow> Inl (schema_error label path (ExpectedObject (json_type_name v)))
      | Some object \<Rightarrow>
          and_then (required_of schema label path) (\<lambda>required.
          and_then (for_each (\<lambda>property. if map_of object property \<noteq> None then Inr ()
              else Inl (schema_error label path (MissingRequired property))) required) (\<lambda>_.
          and_then (properties_of schema label path) (\<lambda>properties.
          and_then (for_each (\<lambda>(name, property_schema).
              case map_of object name of
                None \<Rightarrow> Inr ()
              | Some property_value \<Rightarrow>
                  validate_schema_value property_schema property_value
                    (path @ ''.'' @ name) label (depth + 1)) properties) (\<lambda>_.
          for_each (\<lambda>(name, property_value).
              if map_of properties name \<noteq> None then Inr ()
              else case map_of schema ''additionalProperties'' of
                None \<Rightarrow> Inl (schema_error label path (UnexpectedProperty name))
              | Some extra \<Rightarrow>
                  if extra = JBool True then Inr ()
                  else if extra = JBool False
                    then Inl (schema_error label path (UnexpectedProperty name))
                  else if is_object extra
                    then validate_schema_value extra property_value
                           (path @ ''.'' @ name) label (depth + 1)
                  else Inl (schema_error label path AdditionalPropertiesShape)) object)))))"
| "validate_array_schema schema v path label depth =
     (case as_array v of
        None \<Rightarrow> Inl (schema_error label path (ExpectedArray (json_type_name v)))
      | Some elements \<Rightarrow>
          (case map_of schema ''items'' of
             None \<Rightarrow> Inl (schema_error label path ArrayWithoutItems)
           | Some items \<Rightarrow>
               if items = JBool True then Inr ()
               else if items = JBool False
                 then (if elements = [] then Inr ()
                       else Inl (schema_error label path ArrayDisallowsItems))
               else if is_object items
                 then for_each (\<lambda>(index, item).
                        validate_schema_value items item
                          (path @ ''['' @ show_nat index @ '']'') label (depth + 1))
                        (enumerate 0 elements)
               else Inl (schema_error label path ItemsShape)))"
  by pat_completeness auto
termination
proof (relation "measure (\<lambda>x. case x of
    Inl (schema, _) \<Rightarrow> 2 * size schema + 1
  | Inr (Inl (object, _)) \<Rightarrow> 2 * size (JObject object)
  | Inr (Inr (object, _)) \<Rightarrow> 2 * size (JObject object))", goal_cases)
qed (auto dest!: properties_of_size size_map_of)

declare validate_schema_value.simps [simp del] validate_object_schema.simps [simp del]
  validate_array_schema.simps [simp del]

subsection \<open>Schemas themselves\<close>

function (sequential)
  validate_schema_interpretable :: "json \<Rightarrow> string \<Rightarrow> string \<Rightarrow> nat \<Rightarrow> unit schema_result" and
  validate_nested_schema_keywords ::
    "(string \<times> json) list \<Rightarrow> string \<Rightarrow> string \<Rightarrow> nat \<Rightarrow> unit schema_result"
where
  "validate_schema_interpretable (JObject object) path label depth =
     and_then (check_schema_depth label path depth) (\<lambda>_.
     and_then (check_schema_keys object label path) (\<lambda>_.
     and_then (case map_of object ''enum'' of
                 None \<Rightarrow> Inr ()
               | Some enumeration \<Rightarrow> if is_array enumeration then Inr ()
                   else Inl (schema_error label path EnumNotArray)) (\<lambda>_.
     and_then (validate_nested_schema_keywords object path label depth) (\<lambda>_.
       case map_of object ''type'' of
         None \<Rightarrow> if map_of object ''enum'' \<noteq> None then Inr ()
                 else Inl (schema_error label path MissingType)
       | Some schema_type_value \<Rightarrow>
           and_then (schema_type_names schema_type_value label path) (\<lambda>schema_types.
             for_each (\<lambda>schema_type.
               if schema_type = ''object'' then Inr ()
               else if schema_type = ''array''
                 then (if map_of object ''items'' \<noteq> None then Inr ()
                       else Inl (schema_error label path ArrayWithoutItems))
               else if schema_type \<in> set [''string'', ''number'', ''integer'', ''boolean'', ''null'']
                 then Inr ()
               else Inl (schema_error label path (UnsupportedType schema_type))) schema_types)))))"
| "validate_schema_interpretable schema path label depth =
     and_then (check_schema_depth label path depth) (\<lambda>_.
       Inl (schema_error label path SchemaNotObject))"
| "validate_nested_schema_keywords schema path label depth =
     and_then (case map_of schema ''required'' of
                 None \<Rightarrow> Inr ()
               | Some required \<Rightarrow>
                   and_then (required_properties required label path) (\<lambda>_. Inr ())) (\<lambda>_.
     and_then (and_then (properties_of schema label path) (\<lambda>properties.
                 for_each (\<lambda>(name, property_schema).
                   validate_schema_interpretable property_schema
                     (path @ ''.'' @ name) label (depth + 1)) properties)) (\<lambda>_.
     and_then (case map_of schema ''additionalProperties'' of
                 None \<Rightarrow> Inr ()
               | Some extra \<Rightarrow>
                   if is_boolean extra then Inr ()
                   else if is_object extra
                     then validate_schema_interpretable extra (path @ ''.*'') label (depth + 1)
                   else Inl (schema_error label path AdditionalPropertiesShape)) (\<lambda>_.
     (case map_of schema ''items'' of
        None \<Rightarrow> Inr ()
      | Some items \<Rightarrow>
          if is_boolean items then Inr ()
          else if is_object items
            then validate_schema_interpretable items (path @ ''[]'') label (depth + 1)
          else Inl (schema_error label path ItemsShape)))))"
  by pat_completeness auto
termination
proof (relation "measure (\<lambda>x. case x of
    Inl (schema, _) \<Rightarrow> 2 * size schema + 1
  | Inr (object, _) \<Rightarrow> 2 * size (JObject object))", goal_cases)
qed (auto dest!: properties_of_size size_map_of)

declare validate_schema_interpretable.simps [simp del]
  validate_nested_schema_keywords.simps [simp del]

definition validate_json_schema_subset :: "json \<Rightarrow> string \<Rightarrow> unit schema_result" where
  "validate_json_schema_subset schema label = validate_schema_interpretable schema ''$'' label 0"

definition validate_json_value_against_schema ::
  "json \<Rightarrow> json \<Rightarrow> string \<Rightarrow> unit schema_result" where
  "validate_json_value_against_schema schema v label =
     and_then (validate_schema_interpretable schema ''$'' label 0) (\<lambda>_.
       validate_schema_value schema v ''$'' label 0)"

subsection \<open>The registry\<close>

record schema_registry =
  sr_schemas :: "(string, json) btmap"

definition registry_new :: schema_registry where
  "registry_new = \<lparr>sr_schemas = []\<rparr>"

definition registry_register ::
  "schema_registry \<Rightarrow> string \<Rightarrow> json \<Rightarrow> unit schema_result \<times> schema_registry" where
  "registry_register r schema_id schema =
     (case validate_json_schema_subset schema schema_id of
        Inl e \<Rightarrow> (Inl e, r)
      | Inr _ \<Rightarrow> (Inr (), r\<lparr>sr_schemas := bt_insert schema_id schema (sr_schemas r)\<rparr>))"

definition registry_validate :: "schema_registry \<Rightarrow> string \<Rightarrow> json \<Rightarrow> unit schema_result" where
  "registry_validate r schema_id v =
     (case map_of (sr_schemas r) schema_id of
        None \<Rightarrow> Inl (schema_error schema_id ''$'' (UnknownSchemaId schema_id))
      | Some schema \<Rightarrow> validate_json_value_against_schema schema v schema_id)"

lemmas schema_exec =
  validate_schema_value.simps validate_object_schema.simps validate_array_schema.simps
  validate_schema_interpretable.simps validate_nested_schema_keywords.simps
  check_schema_depth_def MAX_JSON_SCHEMA_SUBSET_DEPTH_def check_schema_keys_def
  is_supported_schema_key_def check_enum_def required_of_def properties_of_def
  required_properties_def schema_properties_def validate_schema_type_name_def
  schema_type_universe_def schema_value_type_matches_def is_json_integer_def

subsection \<open>What acceptance means\<close>

text \<open>
  The declarative reading of a schema, with no path, label, order of keywords or order of
  properties in it.
\<close>

definition declared_types :: "(string \<times> json) list \<Rightarrow> string list option" where
  "declared_types object =
     (case map_of object ''type'' of
        None \<Rightarrow> None
      | Some t \<Rightarrow> (case schema_type_names t [] [] of Inl _ \<Rightarrow> None | Inr ts \<Rightarrow> Some ts))"

definition declared_required :: "(string \<times> json) list \<Rightarrow> string set option" where
  "declared_required object =
     (case required_of object [] [] of Inl _ \<Rightarrow> None | Inr rs \<Rightarrow> Some (set rs))"

definition declared_properties :: "(string \<times> json) list \<Rightarrow> (string \<times> json) list option" where
  "declared_properties object =
     (case properties_of object [] [] of Inl _ \<Rightarrow> None | Inr ps \<Rightarrow> Some ps)"

definition enum_admits :: "(string \<times> json) list \<Rightarrow> json \<Rightarrow> bool" where
  "enum_admits object v \<longleftrightarrow>
     (\<forall>e. map_of object ''enum'' = Some e \<longrightarrow> (\<exists>vs. e = JArray vs \<and> v \<in> set vs))"

definition schema_head :: "nat \<Rightarrow> (string \<times> json) list \<Rightarrow> json \<Rightarrow> bool" where
  "schema_head d object v \<longleftrightarrow>
     d \<le> MAX_JSON_SCHEMA_SUBSET_DEPTH \<and>
     (\<forall>k \<in> fst ` set object. is_supported_schema_key k) \<and> enum_admits object v"

definition chosen_type :: "(string \<times> json) list \<Rightarrow> json \<Rightarrow> string option" where
  "chosen_type object v =
     (case declared_types object of
        None \<Rightarrow> None
      | Some ts \<Rightarrow> find (\<lambda>t. schema_value_type_matches t v) ts)"

inductive conforms :: "nat \<Rightarrow> json \<Rightarrow> json \<Rightarrow> bool" where
  enum_only:
    "schema_head d object v \<Longrightarrow> map_of object ''type'' = None \<Longrightarrow>
     map_of object ''enum'' \<noteq> None \<Longrightarrow> conforms d (JObject object) v"
| scalar:
    "schema_head d object v \<Longrightarrow> chosen_type object v = Some t \<Longrightarrow>
     t \<notin> {''object'', ''array''} \<Longrightarrow> conforms d (JObject object) v"
| object:
    "schema_head d schema (JObject members) \<Longrightarrow>
     chosen_type schema (JObject members) = Some ''object'' \<Longrightarrow>
     declared_required schema = Some required \<Longrightarrow> required \<subseteq> fst ` set members \<Longrightarrow>
     declared_properties schema = Some properties \<Longrightarrow>
     (\<forall>(name, s) \<in> set properties. \<forall>x. map_of members name = Some x \<longrightarrow> conforms (Suc d) s x) \<Longrightarrow>
     (\<forall>(name, x) \<in> set members. name \<in> fst ` set properties \<or>
        map_of schema ''additionalProperties'' = Some (JBool True) \<or>
        (\<exists>extra. map_of schema ''additionalProperties'' = Some extra \<and> is_object extra \<and>
           conforms (Suc d) extra x)) \<Longrightarrow>
     conforms d (JObject schema) (JObject members)"
| array:
    "schema_head d schema (JArray elements) \<Longrightarrow>
     chosen_type schema (JArray elements) = Some ''array'' \<Longrightarrow>
     map_of schema ''items'' = Some items \<Longrightarrow>
     items = JBool True \<or> items = JBool False \<and> elements = [] \<or>
       is_object items \<and> (\<forall>x \<in> set elements. conforms (Suc d) items x) \<Longrightarrow>
     conforms d (JObject schema) (JArray elements)"

inductive_cases conforms_non_objectE [elim!]:
  "conforms d JNull v" "conforms d (JBool b) v" "conforms d (JNumber n) v"
  "conforms d (JString s) v" "conforms d (JArray xs) v"


lemma schema_type_names_indep:
  "schema_type_names t l p = Inr ts \<longleftrightarrow> schema_type_names t [] [] = Inr ts"
proof (cases t)
  case (JArray vs)
  have "type_union_names l p names vs = Inr ts \<longleftrightarrow> type_union_names [] [] names vs = Inr ts" for names
    by (induction vs arbitrary: names)
      (auto simp: and_then_eq_Inr validate_schema_type_name_def split: option.splits)
  with JArray show ?thesis by simp
qed (auto simp: and_then_eq_Inr validate_schema_type_name_def)

lemma required_of_indep: "required_of o1 l p = Inr rs \<longleftrightarrow> required_of o1 [] [] = Inr rs"
  by (auto simp: required_of_def required_properties_def collect_results_ok
      split: option.splits elim!: list.rel_mono_strong)

lemma properties_of_indep: "properties_of o1 l p = Inr ps \<longleftrightarrow> properties_of o1 [] [] = Inr ps"
  by (auto simp: properties_of_def schema_properties_def split: option.splits)

lemma schema_head_iff:
  "schema_head d obj v \<longleftrightarrow>
     check_schema_depth l p d = Inr () \<and> check_schema_keys obj l p = Inr () \<and>
     check_enum obj v l p = Inr ()"
  by (auto simp: schema_head_def check_schema_depth_def check_schema_keys_def for_each_ok
      check_enum_def enum_admits_def split: option.splits if_splits)

lemma declared_types_iff:
  "declared_types obj = Some ts \<longleftrightarrow>
     (\<exists>t. map_of obj ''type'' = Some t \<and> schema_type_names t l p = Inr ts)"
  unfolding declared_types_def using schema_type_names_indep [of _ l p ts]
  by (auto split: option.splits sum.splits)

lemma declared_required_iff:
  "declared_required obj = Some R \<longleftrightarrow> (\<exists>rs. required_of obj l p = Inr rs \<and> R = set rs)"
  unfolding declared_required_def using required_of_indep [of obj l p]
  by (auto split: sum.splits)

lemma declared_properties_iff:
  "declared_properties obj = Some ps \<longleftrightarrow> properties_of obj l p = Inr ps"
  unfolding declared_properties_def using properties_of_indep [of obj l p]
  by (auto split: sum.splits)

lemma type_names_in_universe:
  "schema_type_names t l p = Inr ts \<Longrightarrow> set ts \<subseteq> set schema_type_universe"
proof (cases t)
  case (JArray vs)
  have "set names \<subseteq> set schema_type_universe \<Longrightarrow> type_union_names l p names vs = Inr ts \<Longrightarrow>
      set ts \<subseteq> set schema_type_universe" for names
  proof (induction vs arbitrary: names)
    case (Cons a vs)
    from Cons.prems(2) obtain name where name: "name \<in> set schema_type_universe"
      and rest: "type_union_names l p (if name \<in> set names then names else names @ [name]) vs = Inr ts"
      by (auto simp: and_then_eq_Inr validate_schema_type_name_def split: option.splits if_splits)
    show ?case by (rule Cons.IH [OF _ rest]) (use name Cons.prems(1) in auto)
  qed simp
  moreover assume "schema_type_names t l p = Inr ts"
  ultimately show ?thesis using JArray by (metis Inl_Inr_False empty_subsetI list.set(1) schema_type_names.simps(2))
qed (auto simp: and_then_eq_Inr validate_schema_type_name_def split: if_splits)

lemma schema_type_cases [consumes 1, case_names object array scalar]:
  assumes "t \<in> set schema_type_universe"
    and "t = ''object'' \<Longrightarrow> P" and "t = ''array'' \<Longrightarrow> P"
    and "t \<in> set [''string'', ''number'', ''integer'', ''boolean'', ''null''] \<Longrightarrow>
      t \<noteq> ''object'' \<Longrightarrow> t \<noteq> ''array'' \<Longrightarrow> P"
  shows P
proof -
  from assms(1) have "t = ''object'' \<or> t = ''array'' \<or>
      t \<in> set [''string'', ''number'', ''integer'', ''boolean'', ''null'']"
    by (auto simp: schema_type_universe_def)
  with assms(2-4) show P by metis
qed

lemma chosen_type_iff:
  "chosen_type obj v = Some t \<longleftrightarrow>
     (\<exists>tv ts. map_of obj ''type'' = Some tv \<and> schema_type_names tv l p = Inr ts \<and>
        find (\<lambda>t. schema_value_type_matches t v) ts = Some t)"
proof (cases "declared_types obj")
  case None
  then have "schema_type_names tv l p \<noteq> Inr ts" if "map_of obj ''type'' = Some tv" for tv ts
    using declared_types_iff [of obj ts l p] that by auto
  with None show ?thesis by (auto simp: chosen_type_def)
next
  case (Some ts)
  then obtain tv where "map_of obj ''type'' = Some tv" "schema_type_names tv l p = Inr ts"
    by (auto simp: declared_types_iff [of _ _ l p])
  with Some show ?thesis by (simp add: chosen_type_def)
qed

lemma chosen_type_matches:
  "chosen_type obj v = Some t \<Longrightarrow> schema_value_type_matches t v \<and> t \<in> set schema_type_universe"
  by (auto simp: chosen_type_iff [of _ _ _ "[]" "[]"] find_Some_iff
      dest!: type_names_in_universe nth_mem)

lemma ex_regroup: "(\<exists>x. A x \<and> (\<exists>y. B x y \<and> C y)) \<longleftrightarrow> (\<exists>y. (\<exists>x. A x \<and> B x y) \<and> C y)"
  by blast

text \<open>One step of each validator, in terms of the declarative vocabulary.\<close>

lemma validate_schema_value_ok:
  "validate_schema_value (JObject obj) v p l d = Inr () \<longleftrightarrow>
     schema_head d obj v \<and>
     (map_of obj ''type'' = None \<and> map_of obj ''enum'' \<noteq> None \<or>
      (\<exists>t. chosen_type obj v = Some t \<and>
         (t = ''object'' \<longrightarrow> validate_object_schema obj v p l d = Inr ()) \<and>
         (t = ''array'' \<longrightarrow> validate_array_schema obj v p l d = Inr ())))"
proof -
  have head: "validate_schema_value (JObject obj) v p l d = Inr () \<longleftrightarrow> schema_head d obj v \<and>
      (case map_of obj ''type'' of
         None \<Rightarrow> map_of obj ''enum'' \<noteq> None
       | Some tv \<Rightarrow> \<exists>ts. schema_type_names tv l p = Inr ts \<and>
           (\<exists>t. find (\<lambda>t. schema_value_type_matches t v) ts = Some t \<and>
             (if t = ''object'' then validate_object_schema obj v p l d = Inr ()
              else if t = ''array'' then validate_array_schema obj v p l d = Inr ()
              else t \<in> set [''string'', ''number'', ''integer'', ''boolean'', ''null''])))"
    unfolding validate_schema_value.simps ok_simps schema_head_iff [of d obj v l p]
    by (simp only: sum.distinct sum.inject simp_thms if_cancel if_True_False case_option_False
        ex_unit_ok conj_assoc)
  have scalar: "t \<in> set [''string'', ''number'', ''integer'', ''boolean'', ''null'']"
    if "chosen_type obj v = Some t" "t \<noteq> ''object''" "t \<noteq> ''array''" for t
    using chosen_type_matches [OF that(1)] that(2,3) by (auto simp: schema_type_universe_def)
  show ?thesis
  proof (cases "map_of obj ''type''")
    case None
    then show ?thesis by (simp add: head chosen_type_iff [of obj v _ l p])
  next
    case (Some tv)
    then have ct: "chosen_type obj v = Some t \<longleftrightarrow> (\<exists>ts. schema_type_names tv l p = Inr ts \<and>
        find (\<lambda>t. schema_value_type_matches t v) ts = Some t)" for t
      by (simp add: chosen_type_iff [of obj v t l p])
    have "validate_schema_value (JObject obj) v p l d = Inr () \<longleftrightarrow> schema_head d obj v \<and>
        (\<exists>t. chosen_type obj v = Some t \<and>
          (if t = ''object'' then validate_object_schema obj v p l d = Inr ()
           else if t = ''array'' then validate_array_schema obj v p l d = Inr ()
           else t \<in> set [''string'', ''number'', ''integer'', ''boolean'', ''null'']))"
      unfolding head ct Some option.case by (simp only: ex_regroup)
    moreover have "(chosen_type obj v = Some t \<and>
          (if t = ''object'' then validate_object_schema obj v p l d = Inr ()
           else if t = ''array'' then validate_array_schema obj v p l d = Inr ()
           else t \<in> set [''string'', ''number'', ''integer'', ''boolean'', ''null''])) \<longleftrightarrow>
        (chosen_type obj v = Some t \<and>
         (t = ''object'' \<longrightarrow> validate_object_schema obj v p l d = Inr ()) \<and>
         (t = ''array'' \<longrightarrow> validate_array_schema obj v p l d = Inr ()))" for t
    proof (cases "t = ''object'' \<or> t = ''array''")
      case False
      with scalar [of t] show ?thesis by (metis (full_types))
    qed auto
    ultimately show ?thesis by (simp only: Some option.distinct simp_thms)
  qed
qed

lemma validate_object_schema_ok:
  "validate_object_schema schema (JObject members) p l d = Inr () \<longleftrightarrow>
     (\<exists>R ps. declared_required schema = Some R \<and> R \<subseteq> fst ` set members \<and>
        declared_properties schema = Some ps \<and>
        (\<forall>(name, s) \<in> set ps. \<forall>x. map_of members name = Some x \<longrightarrow>
           validate_schema_value s x (p @ ''.'' @ name) l (Suc d) = Inr ()) \<and>
        (\<forall>(name, x) \<in> set members. name \<in> fst ` set ps \<or>
           map_of schema ''additionalProperties'' = Some (JBool True) \<or>
           (\<exists>extra. map_of schema ''additionalProperties'' = Some extra \<and> is_object extra \<and>
              validate_schema_value extra x (p @ ''.'' @ name) l (Suc d) = Inr ())))"
proof -
  have keys: "map_of m k \<noteq> None \<longleftrightarrow> k \<in> fst ` set m" for m :: "(string \<times> json) list" and k
    by (simp add: map_of_eq_None_iff)
  have extra: "(case map_of schema ''additionalProperties'' of
        None \<Rightarrow> Inl e1
      | Some extra \<Rightarrow> if extra = JBool True then Inr () else if extra = JBool False then Inl e1
          else if is_object extra then f extra else Inl e2) = Inr () \<longleftrightarrow>
      map_of schema ''additionalProperties'' = Some (JBool True) \<or>
      (\<exists>extra. map_of schema ''additionalProperties'' = Some extra \<and> is_object extra \<and> f extra = Inr ())"
    for e1 e2 :: schema_validation_error and f
    by (auto split: option.splits)
  have present: "(case map_of members name of None \<Rightarrow> Inr () | Some x \<Rightarrow> g x) = Inr () \<longleftrightarrow>
      (\<forall>x. map_of members name = Some x \<longrightarrow> g x = (Inr () :: unit schema_result))" for name g
    by (auto split: option.splits)
  have cond: "(if b then Inr () else r) = (Inr () :: unit schema_result) \<longleftrightarrow> b \<or> r = Inr ()" for b r
    by simp
  show ?thesis
    unfolding validate_object_schema.simps as_object.simps option.case and_then_eq_Inr for_each_ok
      case_prod_beta cond present extra keys declared_required_iff [of _ _ l p]
      declared_properties_iff [of _ _ l p]
    by (cases "required_of schema l p"; cases "properties_of schema l p"; simp add: subset_eq ex_unit_ok for_each_ok present)
qed

lemma validate_array_schema_ok:
  "validate_array_schema schema (JArray elements) p l d = Inr () \<longleftrightarrow>
     (\<exists>items. map_of schema ''items'' = Some items \<and>
       (items = JBool True \<or> items = JBool False \<and> elements = [] \<or>
        is_object items \<and> (\<forall>(i, x) \<in> set (enumerate 0 elements).
          validate_schema_value items x (p @ ''['' @ show_nat i @ '']'') l (Suc d) = Inr ())))"
  unfolding validate_array_schema.simps as_array.simps option.case ok_simps for_each_ok
  by (auto split: option.splits simp: case_prod_beta)

lemma snd_enumerate: "snd ` set (enumerate n xs) = set xs"
  by (metis map_snd_enumerate set_map)

lemma ball_enumerate_snd:
  "(\<forall>m \<in> set (enumerate n xs). P (snd m)) \<longleftrightarrow> (\<forall>x \<in> set xs. P x)"
  unfolding snd_enumerate [symmetric, of xs n] by blast

text \<open>
  The validator accepts exactly the conforming values, whatever the path and the label.
\<close>

lemma validate_value_iff_conforms:
  "validate_schema_value s v p l d = Inr () \<longleftrightarrow> conforms d s v"
proof (induction s arbitrary: v p l d rule: measure_induct_rule [of size])
  case (less s)
  show ?case
  proof (cases s)
    case (JObject obj)
    have IH: "validate_schema_value s' v' p' l' d' = Inr () \<longleftrightarrow> conforms d' s' v'"
      if "size s' < size (JObject obj)" for s' v' p' l' d'
      using less.IH [of s'] that JObject by blast
    have objs: "validate_object_schema obj (JObject members) p l d = Inr () \<longleftrightarrow>
      (\<exists>R ps. declared_required obj = Some R \<and> R \<subseteq> fst ` set members \<and>
        declared_properties obj = Some ps \<and>
        (\<forall>(name, s) \<in> set ps. \<forall>x. map_of members name = Some x \<longrightarrow> conforms (Suc d) s x) \<and>
        (\<forall>(name, x) \<in> set members. name \<in> fst ` set ps \<or>
           map_of obj ''additionalProperties'' = Some (JBool True) \<or>
           (\<exists>extra. map_of obj ''additionalProperties'' = Some extra \<and> is_object extra \<and>
              conforms (Suc d) extra x)))" for members
    proof -
      have "validate_schema_value s' x q l (Suc d) = Inr () \<longleftrightarrow> conforms (Suc d) s' x"
        if "declared_properties obj = Some ps" "m \<in> set ps" "s' = snd m" for ps m s' x q
        using that properties_of_size [of obj l p ps "fst m" "snd m"] IH
        by (simp add: declared_properties_iff [of _ _ l p])
      moreover have "validate_schema_value extra x q l (Suc d) = Inr () \<longleftrightarrow> conforms (Suc d) extra x"
        if "map_of obj ''additionalProperties'' = Some extra" for extra x q
        using size_map_of [OF that] IH by blast
      ultimately show ?thesis unfolding validate_object_schema_ok
        by (simp cong: conj_cong ball_cong add: case_prod_beta)
    qed
    have arrs: "validate_array_schema obj (JArray elements) p l d = Inr () \<longleftrightarrow>
      (\<exists>items. map_of obj ''items'' = Some items \<and>
        (items = JBool True \<or> items = JBool False \<and> elements = [] \<or>
         is_object items \<and> (\<forall>x \<in> set elements. conforms (Suc d) items x)))" for elements
    proof -
      have "validate_schema_value items x q l (Suc d) = Inr () \<longleftrightarrow> conforms (Suc d) items x"
        if "map_of obj ''items'' = Some items" for items x q
        using size_map_of [OF that] IH by blast
      then show ?thesis unfolding validate_array_schema_ok
        by (simp cong: conj_cong add: case_prod_beta ball_enumerate_snd)
    qed
    have shape: "t = ''object'' \<Longrightarrow> \<exists>members. v = JObject members"
      "t = ''array'' \<Longrightarrow> \<exists>elements. v = JArray elements" if "chosen_type obj v = Some t" for t
      using chosen_type_matches [OF that]
      by (simp_all add: schema_value_type_matches_def is_object_iff is_array_iff)
    show ?thesis unfolding JObject validate_schema_value_ok
    proof
      assume ok: "schema_head d obj v \<and>
        (map_of obj ''type'' = None \<and> map_of obj ''enum'' \<noteq> None \<or>
         (\<exists>t. chosen_type obj v = Some t \<and>
           (t = ''object'' \<longrightarrow> validate_object_schema obj v p l d = Inr ()) \<and>
           (t = ''array'' \<longrightarrow> validate_array_schema obj v p l d = Inr ())))"
      then have head: "schema_head d obj v" ..
      from ok consider (enum) "map_of obj ''type'' = None" "map_of obj ''enum'' \<noteq> None"
        | (typed) t where "chosen_type obj v = Some t"
            "t = ''object'' \<longrightarrow> validate_object_schema obj v p l d = Inr ()"
            "t = ''array'' \<longrightarrow> validate_array_schema obj v p l d = Inr ()" by meson
      then show "conforms d (JObject obj) v"
      proof cases
        case enum
        with head show ?thesis by (rule conforms.enum_only)
      next
        case (typed t)
        consider "t = ''object''" | "t = ''array''" | "t \<notin> {''object'', ''array''}" by blast
        then show ?thesis
        proof cases
          case 1
          with typed shape(1) obtain members where v: "v = JObject members" by blast
          with 1 typed(2) have "validate_object_schema obj (JObject members) p l d = Inr ()" by simp
          then show ?thesis unfolding v objs
            using head typed(1) 1 unfolding v by (elim exE conjE) (rule conforms.object, simp_all)
        next
          case 2
          with typed shape(2) obtain elements where v: "v = JArray elements" by blast
          with 2 typed(3) have "validate_array_schema obj (JArray elements) p l d = Inr ()" by simp
          then show ?thesis unfolding v arrs
            using head typed(1) 2 unfolding v by (elim exE conjE) (rule conforms.array, simp_all)
        next
          case 3
          with head typed(1) show ?thesis by (rule conforms.scalar)
        qed
      qed
    next
      assume "conforms d (JObject obj) v"
      then show "schema_head d obj v \<and>
        (map_of obj ''type'' = None \<and> map_of obj ''enum'' \<noteq> None \<or>
         (\<exists>t. chosen_type obj v = Some t \<and>
           (t = ''object'' \<longrightarrow> validate_object_schema obj v p l d = Inr ()) \<and>
           (t = ''array'' \<longrightarrow> validate_array_schema obj v p l d = Inr ())))"
      proof (rule conforms.cases, goal_cases)
        case (3 d' schema members required properties)
        then have "validate_object_schema obj (JObject members) p l d = Inr ()"
          unfolding objs by (intro exI conjI) simp_all
        with 3 show ?case by simp
      next
        case (4 d' schema elements items)
        then have "validate_array_schema obj (JArray elements) p l d = Inr ()"
          unfolding arrs by (intro exI conjI) simp_all
        with 4 show ?case by simp
      qed auto
    qed
  qed (auto simp: validate_schema_value.simps and_then_eq_Inr elim: conforms.cases)
qed

subsection \<open>The preflight\<close>

text \<open>The messages that speak about the value rather than about the schema.\<close>

fun value_message :: "schema_message \<Rightarrow> bool" where
  "value_message (NotInEnum _) = True"
| "value_message (ExpectedType _ _) = True"
| "value_message (ExpectedOneOf _ _) = True"
| "value_message (MissingRequired _) = True"
| "value_message (UnexpectedProperty _) = True"
| "value_message ArrayDisallowsItems = True"
| "value_message _ = False"

lemma interpretable_head:
  assumes "validate_schema_interpretable (JObject obj) p l d = Inr ()"
  shows "check_schema_depth l' p' d = Inr ()" "check_schema_keys obj l' p' = Inr ()"
    "\<And>e. map_of obj ''enum'' = Some e \<Longrightarrow> is_array e"
    "map_of obj ''type'' = None \<Longrightarrow> map_of obj ''enum'' \<noteq> None"
    "\<And>t. map_of obj ''type'' = Some t \<Longrightarrow> \<exists>ts. schema_type_names t l' p' = Inr ts"
    "\<And>t ts. map_of obj ''type'' = Some t \<Longrightarrow> schema_type_names t l' p' = Inr ts \<Longrightarrow>
       ''array'' \<in> set ts \<Longrightarrow> map_of obj ''items'' \<noteq> None"
    "validate_nested_schema_keywords obj p l d = Inr ()"
proof -
  note ok = assms [unfolded validate_schema_interpretable.simps and_then_unit, unfolded ok_simps]
  from ok show "check_schema_depth l' p' d = Inr ()"
    by (simp add: check_schema_depth_def split: if_splits)
  from ok show "check_schema_keys obj l' p' = Inr ()"
    by (simp add: check_schema_keys_def for_each_ok split: if_splits)
  from ok show "map_of obj ''enum'' = Some e \<Longrightarrow> is_array e" for e
    by (simp split: if_splits)
  from ok show "map_of obj ''type'' = None \<Longrightarrow> map_of obj ''enum'' \<noteq> None"
    by (simp split: if_splits)
  from ok show "map_of obj ''type'' = Some t \<Longrightarrow> \<exists>ts. schema_type_names t l' p' = Inr ts" for t
    using schema_type_names_indep [of t l p] schema_type_names_indep [of t l' p'] by auto
  show "map_of obj ''items'' \<noteq> None" if "map_of obj ''type'' = Some t"
    "schema_type_names t l' p' = Inr ts" "''array'' \<in> set ts" for t ts
  proof -
    from that(2) have "schema_type_names t l p = Inr ts"
      using schema_type_names_indep [of t l p ts] schema_type_names_indep [of t l' p' ts] by simp
    with ok that(1) have "\<forall>t \<in> set ts.
        (if t = ''object'' then Inr () else if t = ''array''
         then if map_of obj ''items'' \<noteq> None then Inr ()
           else Inl (schema_error l p ArrayWithoutItems)
         else if t \<in> set [''string'', ''number'', ''integer'', ''boolean'', ''null''] then Inr ()
         else Inl (schema_error l p (UnsupportedType t))) = Inr ()"
      by (simp only: for_each_ok option.case sum.inject) blast
    from bspec [OF this that(3)] show ?thesis by (simp split: if_splits)
  qed
  from ok show "validate_nested_schema_keywords obj p l d = Inr ()" by simp
qed

lemma interpretable_nested:
  assumes "validate_nested_schema_keywords obj p l d = Inr ()"
  shows "\<exists>rs. required_of obj l' p' = Inr rs"
    "\<exists>ps. properties_of obj l' p' = Inr ps \<and>
       (\<forall>(n, s) \<in> set ps. validate_schema_interpretable s (p @ ''.'' @ n) l (d + 1) = Inr ())"
    "\<And>x. map_of obj ''additionalProperties'' = Some x \<Longrightarrow> is_boolean x \<or>
       is_object x \<and> validate_schema_interpretable x (p @ ''.*'') l (d + 1) = Inr ()"
    "\<And>x. map_of obj ''items'' = Some x \<Longrightarrow> is_boolean x \<or>
       is_object x \<and> validate_schema_interpretable x (p @ ''[]'') l (d + 1) = Inr ()"
proof -
  note ok = assms [unfolded validate_nested_schema_keywords.simps and_then_unit, unfolded ok_simps]
  from ok have "\<exists>rs. required_of obj l p = Inr rs"
    unfolding required_of_def by (auto split: option.splits)
  then show "\<exists>rs. required_of obj l' p' = Inr rs"
    using required_of_indep [of obj l p] required_of_indep [of obj l' p'] by auto
  from ok have "\<exists>ps. properties_of obj l p = Inr ps \<and>
      for_each (\<lambda>(n, s). validate_schema_interpretable s (p @ ''.'' @ n) l (d + 1)) ps = Inr ()"
    by (elim conjE) assumption
  then obtain ps where ps: "properties_of obj l p = Inr ps"
    and fe: "for_each (\<lambda>(n, s). validate_schema_interpretable s (p @ ''.'' @ n) l (d + 1)) ps = Inr ()"
    by blast
  from ps have "properties_of obj l' p' = Inr ps"
    using properties_of_indep [of obj l p ps] properties_of_indep [of obj l' p' ps] by simp
  moreover from fe have "\<forall>(n, s) \<in> set ps. validate_schema_interpretable s (p @ ''.'' @ n) l (d + 1) = Inr ()"
    by (simp add: for_each_ok case_prod_beta)
  ultimately show "\<exists>ps. properties_of obj l' p' = Inr ps \<and>
      (\<forall>(n, s) \<in> set ps. validate_schema_interpretable s (p @ ''.'' @ n) l (d + 1) = Inr ())"
    by blast
  from ok show "map_of obj ''additionalProperties'' = Some x \<Longrightarrow> is_boolean x \<or>
      is_object x \<and> validate_schema_interpretable x (p @ ''.*'') l (d + 1) = Inr ()" for x
    by (auto split: if_splits)
  from ok show "map_of obj ''items'' = Some x \<Longrightarrow> is_boolean x \<or>
      is_object x \<and> validate_schema_interpretable x (p @ ''[]'') l (d + 1) = Inr ()" for x
    by (auto split: if_splits)
qed

lemma object_errors_are_value_errors:
  assumes nested: "validate_nested_schema_keywords obj p l d = Inr ()"
    and IH: "\<And>s v q m e p l. size s < size (JObject obj) \<Longrightarrow>
      validate_schema_interpretable s p l (Suc d) = Inr () \<Longrightarrow>
      validate_schema_value s v q m (Suc d) = Inl e \<Longrightarrow> value_message (sve_message e)"
    and err: "validate_object_schema obj (JObject members) q m d = Inl e"
  shows "value_message (sve_message e)"
proof -
  from interpretable_nested(1) [OF nested] obtain rs where rs: "required_of obj m q = Inr rs" by blast
  from interpretable_nested(2) [OF nested] obtain ps where ps: "properties_of obj m q = Inr ps"
    and sub: "\<And>n s. (n, s) \<in> set ps \<Longrightarrow>
      validate_schema_interpretable s (p @ ''.'' @ n) l (Suc d) = Inr ()" by fastforce
  have prop_err: "value_message (sve_message e)"
    if "(n, s) \<in> set ps" "validate_schema_value s x q' m (Suc d) = Inl e" for n s x q'
    using IH [OF properties_of_size [OF ps that(1)] sub [OF that(1)] that(2)] .
  have extra_err: "value_message (sve_message e)"
    if "map_of obj ''additionalProperties'' = Some extra" "is_object extra"
      "validate_schema_value extra x q' m (Suc d) = Inl e" for extra x q'
    using IH [OF size_map_of [OF that(1)] _ that(3)] interpretable_nested(3) [OF nested that(1)] that(2)
    by (cases extra) auto
  from err [unfolded validate_object_schema.simps as_object.simps option.case rs ps and_then_simps
      and_then_eq_Inl]
  consider (required) "for_each (\<lambda>property. if map_of members property \<noteq> None then Inr ()
        else Inl (schema_error m q (MissingRequired property))) rs = Inl e"
    | (props) "for_each (\<lambda>(name, s). case map_of members name of None \<Rightarrow> Inr ()
        | Some x \<Rightarrow> validate_schema_value s x (q @ ''.'' @ name) m (d + 1)) ps = Inl e"
    | (extra) "for_each (\<lambda>(name, x). if map_of ps name \<noteq> None then Inr ()
        else case map_of obj ''additionalProperties'' of
          None \<Rightarrow> Inl (schema_error m q (UnexpectedProperty name))
        | Some extra \<Rightarrow> if extra = JBool True then Inr ()
            else if extra = JBool False then Inl (schema_error m q (UnexpectedProperty name))
            else if is_object extra then validate_schema_value extra x (q @ ''.'' @ name) m (d + 1)
            else Inl (schema_error m q AdditionalPropertiesShape)) members = Inl e"
    by blast
  then show ?thesis
  proof cases
    case required
    then show ?thesis by (auto dest!: for_each_err split: if_splits)
  next
    case props
    then show ?thesis by (auto dest!: for_each_err split: option.splits intro: prop_err)
  next
    case extra
    then obtain name x where "(if map_of ps name \<noteq> None then Inr ()
        else case map_of obj ''additionalProperties'' of
          None \<Rightarrow> Inl (schema_error m q (UnexpectedProperty name))
        | Some extra \<Rightarrow> if extra = JBool True then Inr ()
            else if extra = JBool False then Inl (schema_error m q (UnexpectedProperty name))
            else if is_object extra then validate_schema_value extra x (q @ ''.'' @ name) m (d + 1)
            else Inl (schema_error m q AdditionalPropertiesShape)) = Inl e"
      by (auto dest!: for_each_err)
    moreover have "is_boolean extra \<or> is_object extra"
      if "map_of obj ''additionalProperties'' = Some extra" for extra
      using interpretable_nested(3) [OF nested that] by blast
    ultimately show ?thesis
      by (auto split: if_splits option.splits intro: extra_err elim: is_boolean.elims)
  qed
qed

lemma array_errors_are_value_errors:
  assumes nested: "validate_nested_schema_keywords obj p l d = Inr ()"
    and items: "map_of obj ''items'' \<noteq> None"
    and IH: "\<And>s v q m e p l. size s < size (JObject obj) \<Longrightarrow>
      validate_schema_interpretable s p l (Suc d) = Inr () \<Longrightarrow>
      validate_schema_value s v q m (Suc d) = Inl e \<Longrightarrow> value_message (sve_message e)"
    and err: "validate_array_schema obj (JArray elements) q m d = Inl e"
  shows "value_message (sve_message e)"
proof -
  from items obtain it where it: "map_of obj ''items'' = Some it" by blast
  from interpretable_nested(4) [OF nested it]
  consider b where "it = JBool b"
    | "is_object it" "validate_schema_interpretable it (p @ ''[]'') l (Suc d) = Inr ()"
    by (cases it) auto
  then show ?thesis
  proof cases
    case 1
    with err it show ?thesis by (cases b) (auto simp: validate_array_schema.simps split: if_splits)
  next
    case 2
    with err it obtain i x where
      "validate_schema_value it x (q @ ''['' @ show_nat i @ '']'') m (Suc d) = Inl e"
      by (auto simp: validate_array_schema.simps dest!: for_each_err split: if_splits)
    with IH [OF size_map_of [OF it] 2(2)] show ?thesis by blast
  qed
qed

lemma value_errors_after_preflight:
  "validate_schema_interpretable s p l d = Inr () \<Longrightarrow> validate_schema_value s v q m d = Inl e \<Longrightarrow>
   value_message (sve_message e)"
proof (induction s arbitrary: v q m e p l d rule: measure_induct_rule [of size])
  case (less s)
  from less.prems(1) obtain obj where s: "s = JObject obj"
    by (cases s) (auto simp: validate_schema_interpretable.simps and_then_eq_Inr)
  note head = interpretable_head [OF less.prems(1) [unfolded s]]
  have IH: "value_message (sve_message e)" if "size s' < size (JObject obj)"
    "validate_schema_interpretable s' p l (Suc d) = Inr ()"
    "validate_schema_value s' v q m (Suc d) = Inl e" for s' v q m e p l
    using less.IH [of s'] that s by blast
  have enum: "check_enum obj v m q = Inr () \<or> check_enum obj v m q = Inl (schema_error m q (NotInEnum v))"
    using head(3) by (auto simp: check_enum_def is_array_iff split: option.splits)
  show ?case
  proof (cases "check_enum obj v m q")
    case (Inl e')
    with enum have "e' = schema_error m q (NotInEnum v)" by simp
    with less.prems(2) Inl head(1,2) show ?thesis
      by (auto simp: s validate_schema_value.simps)
  next
    case (Inr u)
    note err = less.prems(2) [unfolded s validate_schema_value.simps head(1,2) Inr and_then_simps]
    show ?thesis
    proof (cases "map_of obj ''type''")
      case None
      with err head(4) show ?thesis by simp
    next
      case (Some tv)
      then obtain ts where ts: "schema_type_names tv m q = Inr ts" using head(5) by blast
      show ?thesis
      proof (cases "find (\<lambda>t. schema_value_type_matches t v) ts")
        case None
        with err Some ts show ?thesis by (auto split: if_splits)
      next
        case (Some t)
        then have t: "t \<in> set ts" "schema_value_type_matches t v" by (auto simp: find_Some_iff)
        note err' = err [unfolded \<open>map_of obj ''type'' = Some tv\<close> option.case ts and_then_simps Some]
        have "t \<in> set schema_type_universe" using type_names_in_universe [OF ts] t(1) by blast
        then have "t = ''object'' \<and> validate_object_schema obj v q m d = Inl e \<or>
            t = ''array'' \<and> validate_array_schema obj v q m d = Inl e"
        proof (cases rule: schema_type_cases)
          case scalar
          with err' have "Inr () = Inl e" by (simp only: if_True if_False)
          then show ?thesis by simp
        qed (use err' in simp_all)
        then show ?thesis
        proof (elim disjE conjE)
          assume "t = ''object''" and e: "validate_object_schema obj v q m d = Inl e"
          with t(2) obtain members where "v = JObject members"
            by (auto simp: schema_value_type_matches_def is_object_iff)
          with e have "validate_object_schema obj (JObject members) q m d = Inl e" by simp
          then show ?thesis
            by (rule object_errors_are_value_errors [OF head(7), rotated]) (rule IH; assumption)
        next
          assume a: "t = ''array''" and e: "validate_array_schema obj v q m d = Inl e"
          with t(2) obtain elements where v: "v = JArray elements"
            by (auto simp: schema_value_type_matches_def is_array_iff)
          from head(6) [OF \<open>map_of obj ''type'' = Some tv\<close> ts] t(1) a
          have items: "map_of obj ''items'' \<noteq> None" by simp
          from e v have "validate_array_schema obj (JArray elements) q m d = Inl e" by simp
          then show ?thesis
            by (rule array_errors_are_value_errors [OF head(7) items, rotated]) (rule IH; assumption)
        qed
      qed
    qed
  qed
qed

lemma registry_register_ok:
  "registry_register r i s = (Inr (), r') \<longleftrightarrow>
     validate_json_schema_subset s i = Inr () \<and>
     r' = r\<lparr>sr_schemas := bt_insert i s (sr_schemas r)\<rparr>"
  by (auto simp: registry_register_def split: sum.splits)

lemma registry_register_err:
  "registry_register r i s = (Inl e, r') \<Longrightarrow> r' = r"
  by (auto simp: registry_register_def split: sum.splits)

text \<open>
  C30. A value is accepted against a schema exactly when the schema itself is interpretable and
  the value conforms to the declarative reading of the schema: required properties present,
  every declared property conforming when present, no undeclared property unless
  \<open>additionalProperties\<close> admits it, array items conforming, enumerations respected.  Neither the
  label nor the order in which the code visits keywords and properties plays a role.
\<close>

theorem schema_validation_refines_conforms:
  "validate_json_value_against_schema schema v label = Inr () \<longleftrightarrow>
     validate_json_schema_subset schema label = Inr () \<and> conforms 0 schema v"
  by (simp add: validate_json_value_against_schema_def validate_json_schema_subset_def
      and_then_unit validate_value_iff_conforms)

text \<open>
  The preflight is complete: once a schema has passed \<open>validate_json_schema_subset\<close>, checking
  any value against it can only fail because of the value (an enumeration, type, required or
  unexpected property mismatch), never with a complaint about the schema's own shape.
\<close>

theorem preflight_makes_schema_errors_unreachable:
  assumes "validate_json_schema_subset schema label = Inr ()"
    and "validate_json_value_against_schema schema v label = Inl e"
  shows "value_message (sve_message e)"
proof -
  from assms have "validate_schema_value schema v ''$'' label 0 = Inl e"
    by (simp add: validate_json_value_against_schema_def validate_json_schema_subset_def)
  with assms(1) show ?thesis
    unfolding validate_json_schema_subset_def by (rule value_errors_after_preflight)
qed

definition sample_schema :: json where
  "sample_schema = jobj [(''type'', JString ''object''), (''required'', jstrs [''message'']),
     (''additionalProperties'', JBool False),
     (''properties'', jobj [(''message'', jobj [(''type'', JString ''string'')])])]"

theorem preflight_makes_schema_errors_unreachable_witness:
  "validate_json_value_against_schema sample_schema (jobj [(''extra'', JBool True)]) ''tool'' =
     Inl (schema_error ''tool'' ''$'' (MissingRequired ''message'')) \<and>
   value_message (MissingRequired ''message'')"
proof -
  have ok: "validate_json_schema_subset sample_schema ''tool'' = Inr ()"
    by (simp add: sample_schema_def json_build_defs validate_json_schema_subset_def schema_exec)
  have err: "validate_json_value_against_schema sample_schema (jobj [(''extra'', JBool True)]) ''tool'' =
      Inl (schema_error ''tool'' ''$'' (MissingRequired ''message''))"
    by (simp add: sample_schema_def json_build_defs validate_json_value_against_schema_def schema_exec)
  from preflight_makes_schema_errors_unreachable [OF ok err] err show ?thesis by simp
qed

end
