(* ===== verification/Runtime_Contracts.thy ===== *)
theory Runtime_Contracts
  imports Json_Value
begin

section \<open>Runtime contract types\<close>

text \<open>
  \<^verbatim>\<open>src/crates/verlet-runtime-contracts/src/lib.rs\<close> and \<^verbatim>\<open>handle.rs\<close>: the identities,
  the thread topology, lifecycle records and signals, and the handle envelopes that the history
  store, the kernel and the adapters share.

  Each newtype around a UUID is a datatype with one constructor.  \<open>SomethingId::new()\<close> draws a
  time-ordered UUID and \<open>unix_timestamp_ms()\<close> reads the clock; the definitions that call them
  take the value drawn as an argument.  A field is prefixed by its struct's initials, since HOL
  record selectors share one name space, and a constructor by its enum where two enums use the
  same word.
\<close>

named_theorems contract_defs \<open>constructors and accessors of the contract types\<close>

subsection \<open>Identities\<close>

datatype thread_id = ThreadId uuid
datatype thread_signal_id = ThreadSignalId uuid
datatype thread_checkpoint_id = ThreadCheckpointId uuid
datatype runtime_event_id = RuntimeEventId uuid

primrec show_thread_id :: "(uuid \<Rightarrow> string) \<Rightarrow> thread_id \<Rightarrow> string" where
  "show_thread_id show_uuid (ThreadId u) = show_uuid u"

primrec show_checkpoint_id :: "(uuid \<Rightarrow> string) \<Rightarrow> thread_checkpoint_id \<Rightarrow> string" where
  "show_checkpoint_id show_uuid (ThreadCheckpointId u) = show_uuid u"

definition thread_id_parse_str :: "(string \<Rightarrow> uuid option) \<Rightarrow> string \<Rightarrow> thread_id option" where
  "thread_id_parse_str parse_uuid_str s = map_option ThreadId (parse_uuid_str s)"

subsection \<open>Coordinates and scope\<close>

record thread_scope =
  ts_tenant_id :: string
  ts_user_id :: string
  ts_session_id :: string

record thread_coordinates =
  tc_tenant_id :: string
  tc_user_id :: string
  tc_session_id :: string
  tc_thread_id :: thread_id

definition coordinates_new :: "uuid \<Rightarrow> string \<Rightarrow> string \<Rightarrow> string \<Rightarrow> thread_coordinates" where
  "coordinates_new fresh tenant user session =
     \<lparr>tc_tenant_id = tenant, tc_user_id = user, tc_session_id = session,
      tc_thread_id = ThreadId fresh\<rparr>"

definition scope :: "thread_coordinates \<Rightarrow> thread_scope" where
  "scope c = \<lparr>ts_tenant_id = tc_tenant_id c, ts_user_id = tc_user_id c,
              ts_session_id = tc_session_id c\<rparr>"

lemma coordinates_eq_iff:
  "(c :: thread_coordinates) = c' \<longleftrightarrow> scope c = scope c' \<and> tc_thread_id c = tc_thread_id c'"
  by (cases c; cases c') (simp add: scope_def)

subsection \<open>Topology\<close>

datatype thread_initiation_source =
    InitiationRoot
  | InitiationThread thread_id "string option" "runtime_event_id option"

datatype thread_lineage =
    LineageRoot
  | LineageBranch thread_id "thread_checkpoint_id option"

record thread_spawn_attribution =
  tsa_source_thread_id :: thread_id
  tsa_source_turn_id :: "string option"
  tsa_source_event_id :: "runtime_event_id option"
  tsa_prompt_ref :: "string option"

record thread_topology =
  tt_initiation :: thread_initiation_source
  tt_lineage :: thread_lineage
  tt_spawn_attribution :: "thread_spawn_attribution option"
  tt_controller_thread_id :: "thread_id option"

definition topology_root :: thread_topology where
  "topology_root = \<lparr>tt_initiation = InitiationRoot, tt_lineage = LineageRoot,
     tt_spawn_attribution = None, tt_controller_thread_id = None\<rparr>"

definition topology_spawned_from :: "thread_id \<Rightarrow> thread_topology" where
  "topology_spawned_from source = \<lparr>tt_initiation = InitiationThread source None None,
     tt_lineage = LineageRoot,
     tt_spawn_attribution = Some \<lparr>tsa_source_thread_id = source, tsa_source_turn_id = None,
       tsa_source_event_id = None, tsa_prompt_ref = None\<rparr>,
     tt_controller_thread_id = Some source\<rparr>"

definition topology_branch_from ::
  "thread_id \<Rightarrow> thread_checkpoint_id option \<Rightarrow> thread_topology" where
  "topology_branch_from parent checkpoint = \<lparr>tt_initiation = InitiationRoot,
     tt_lineage = LineageBranch parent checkpoint,
     tt_spawn_attribution = None, tt_controller_thread_id = None\<rparr>"

definition spawn_source_thread_id :: "thread_topology \<Rightarrow> thread_id option" where
  "spawn_source_thread_id t = map_option tsa_source_thread_id (tt_spawn_attribution t)"

definition branch_parent_thread_id :: "thread_topology \<Rightarrow> thread_id option" where
  "branch_parent_thread_id t =
     (case tt_lineage t of LineageBranch parent _ \<Rightarrow> Some parent | LineageRoot \<Rightarrow> None)"

definition compatibility_parent_thread_id :: "thread_topology \<Rightarrow> thread_id option" where
  "compatibility_parent_thread_id t =
     (case tt_lineage t of
        LineageBranch parent _ \<Rightarrow> Some parent
      | LineageRoot \<Rightarrow> map_option tsa_source_thread_id (tt_spawn_attribution t))"

definition controller_thread_id :: "thread_topology \<Rightarrow> thread_id option" where
  "controller_thread_id t = tt_controller_thread_id t"

definition related_thread_ids :: "thread_topology \<Rightarrow> thread_id list" where
  "related_thread_ids t =
     (case tt_initiation t of InitiationThread thread _ _ \<Rightarrow> [thread] | InitiationRoot \<Rightarrow> []) @
     (case tt_lineage t of LineageBranch parent _ \<Rightarrow> [parent] | LineageRoot \<Rightarrow> []) @
     (case tt_spawn_attribution t of Some a \<Rightarrow> [tsa_source_thread_id a] | None \<Rightarrow> []) @
     (case tt_controller_thread_id t of Some c \<Rightarrow> [c] | None \<Rightarrow> [])"

lemmas topology_defs [contract_defs] =
  topology_root_def topology_spawned_from_def topology_branch_from_def
  spawn_source_thread_id_def branch_parent_thread_id_def compatibility_parent_thread_id_def
  controller_thread_id_def related_thread_ids_def

lemma compatibility_parent_related:
  "compatibility_parent_thread_id t = Some p \<Longrightarrow> p \<in> set (related_thread_ids t)"
  by (auto simp: topology_defs split: thread_lineage.splits option.splits)

record thread_context =
  tx_coordinates :: thread_coordinates
  tx_parent_thread_id :: "thread_id option"
  tx_topology :: thread_topology
  tx_metadata :: "(string, string) btmap"

definition with_topology_and_metadata ::
  "thread_coordinates \<Rightarrow> thread_topology \<Rightarrow> (string, string) btmap \<Rightarrow> thread_context" where
  "with_topology_and_metadata coordinates topology metadata =
     \<lparr>tx_coordinates = coordinates,
      tx_parent_thread_id = compatibility_parent_thread_id topology,
      tx_topology = topology, tx_metadata = metadata\<rparr>"

definition with_topology :: "thread_coordinates \<Rightarrow> thread_topology \<Rightarrow> thread_context" where
  "with_topology coordinates topology = with_topology_and_metadata coordinates topology []"

definition context_root :: "thread_coordinates \<Rightarrow> thread_context" where
  "context_root coordinates = with_topology coordinates topology_root"

subsection \<open>Budgets, lifecycle and signals\<close>

record turn_budget =
  tb_max_tool_rounds :: "nat option"
  tb_max_output_tokens :: "u32 option"
  tb_max_context_text_bytes :: "nat option"

definition turn_budget_is_empty :: "turn_budget \<Rightarrow> bool" where
  "turn_budget_is_empty b \<longleftrightarrow> tb_max_tool_rounds b = None \<and> tb_max_output_tokens b = None \<and>
     tb_max_context_text_bytes b = None"

datatype thread_lifecycle_status =
  LifecycleStarting | LifecycleIdle | LifecycleRunning | LifecycleCancelling
  | LifecycleStopped | LifecycleFailed

fun lifecycle_status_str :: "thread_lifecycle_status \<Rightarrow> string" where
  "lifecycle_status_str LifecycleStarting = ''starting''"
| "lifecycle_status_str LifecycleIdle = ''idle''"
| "lifecycle_status_str LifecycleRunning = ''running''"
| "lifecycle_status_str LifecycleCancelling = ''cancelling''"
| "lifecycle_status_str LifecycleStopped = ''stopped''"
| "lifecycle_status_str LifecycleFailed = ''failed''"

datatype thread_status =
  StatusStarting | StatusIdle | StatusRunning | StatusCancelling | StatusStopped | StatusFailed

fun lifecycle_of_status :: "thread_status \<Rightarrow> thread_lifecycle_status" where
  "lifecycle_of_status StatusStarting = LifecycleStarting"
| "lifecycle_of_status StatusIdle = LifecycleIdle"
| "lifecycle_of_status StatusRunning = LifecycleRunning"
| "lifecycle_of_status StatusCancelling = LifecycleCancelling"
| "lifecycle_of_status StatusStopped = LifecycleStopped"
| "lifecycle_of_status StatusFailed = LifecycleFailed"

datatype thread_signal_kind =
  SignalInterruptCancel | SignalShutdown | SignalUserQueue | SignalUserSteer | SignalUserInterrupt
  | SignalCheckpointRequested | SignalCheckpointCreated | SignalFailed

datatype turn_submission_mode = SubmitQueue | SubmitSteer | SubmitInterrupt

fun submission_mode_str :: "turn_submission_mode \<Rightarrow> string" where
  "submission_mode_str SubmitQueue = ''queue''"
| "submission_mode_str SubmitSteer = ''steer''"
| "submission_mode_str SubmitInterrupt = ''interrupt''"

record thread_signal =
  sg_id :: thread_signal_id
  sg_coordinates :: thread_coordinates
  sg_kind :: thread_signal_kind
  sg_metadata :: "(string, string) btmap"
  sg_created_at_ms :: u64

text \<open>What a constructor draws from its surroundings: the fresh UUID and the clock.\<close>

type_synonym signal_stamp = "uuid \<times> u64"

definition signal_new ::
  "signal_stamp \<Rightarrow> thread_coordinates \<Rightarrow> thread_signal_kind \<Rightarrow> thread_signal" where
  "signal_new st coordinates kind = \<lparr>sg_id = ThreadSignalId (fst st), sg_coordinates = coordinates,
     sg_kind = kind, sg_metadata = [], sg_created_at_ms = snd st\<rparr>"

definition signal_put :: "string \<Rightarrow> string \<Rightarrow> thread_signal \<Rightarrow> thread_signal" where
  "signal_put k v s = s\<lparr>sg_metadata := bt_insert k v (sg_metadata s)\<rparr>"

definition signal_user_queue ::
  "signal_stamp \<Rightarrow> thread_coordinates \<Rightarrow> string \<Rightarrow> thread_signal" where
  "signal_user_queue st c turn = signal_put ''turn_id'' turn (signal_new st c SignalUserQueue)"

definition signal_user_steer ::
  "signal_stamp \<Rightarrow> thread_coordinates \<Rightarrow> string \<Rightarrow> thread_signal" where
  "signal_user_steer st c turn = signal_put ''turn_id'' turn (signal_new st c SignalUserSteer)"

definition signal_user_interrupt ::
  "signal_stamp \<Rightarrow> thread_coordinates \<Rightarrow> string \<Rightarrow> thread_signal" where
  "signal_user_interrupt st c turn =
     signal_put ''turn_id'' turn (signal_new st c SignalUserInterrupt)"

definition signal_user_submit ::
  "signal_stamp \<Rightarrow> thread_coordinates \<Rightarrow> string \<Rightarrow> turn_submission_mode \<Rightarrow> thread_signal" where
  "signal_user_submit st c turn mode =
     (case mode of
        SubmitQueue \<Rightarrow> signal_user_queue st c turn
      | SubmitSteer \<Rightarrow> signal_user_steer st c turn
      | SubmitInterrupt \<Rightarrow> signal_user_interrupt st c turn)"

definition signal_interrupt_cancel ::
  "signal_stamp \<Rightarrow> thread_coordinates \<Rightarrow> string \<Rightarrow> thread_signal" where
  "signal_interrupt_cancel st c reason =
     signal_put ''reason'' reason (signal_new st c SignalInterruptCancel)"

definition signal_shutdown :: "signal_stamp \<Rightarrow> thread_coordinates \<Rightarrow> thread_signal" where
  "signal_shutdown st c = signal_new st c SignalShutdown"

definition signal_failed :: "signal_stamp \<Rightarrow> thread_coordinates \<Rightarrow> string \<Rightarrow> thread_signal" where
  "signal_failed st c message = signal_put ''message'' message (signal_new st c SignalFailed)"

definition signal_with_metadata :: "(string, string) btmap \<Rightarrow> thread_signal \<Rightarrow> thread_signal" where
  "signal_with_metadata metadata s =
     s\<lparr>sg_metadata := fold (\<lambda>(k, v). bt_insert k v) metadata (sg_metadata s)\<rparr>"

record thread_lifecycle_record =
  lr_coordinates :: thread_coordinates
  lr_parent_thread_id :: "thread_id option"
  lr_topology :: thread_topology
  lr_status :: thread_lifecycle_status
  lr_latest_signal_id :: "thread_signal_id option"
  lr_latest_checkpoint_id :: "thread_checkpoint_id option"
  lr_created_at_ms :: u64
  lr_updated_at_ms :: u64
  lr_metadata :: "(string, string) btmap"

definition lifecycle_record_new ::
  "u64 \<Rightarrow> thread_context \<Rightarrow> thread_lifecycle_status \<Rightarrow> (string, string) btmap \<Rightarrow>
   thread_lifecycle_record" where
  "lifecycle_record_new now context status metadata =
     \<lparr>lr_coordinates = tx_coordinates context, lr_parent_thread_id = tx_parent_thread_id context,
      lr_topology = tx_topology context, lr_status = status, lr_latest_signal_id = None,
      lr_latest_checkpoint_id = None, lr_created_at_ms = now, lr_updated_at_ms = now,
      lr_metadata = metadata\<rparr>"

subsection \<open>Runtime outcomes and handles\<close>

datatype runtime_terminal_state =
  RuntimeCompleted | RuntimeCancelled | RuntimeStopped | RuntimeFailed | RuntimeTimedOut

record runtime_usage =
  ru_input_tokens :: u64
  ru_output_tokens :: u64
  ru_cache_creation_input_tokens :: u64
  ru_cache_read_input_tokens :: u64

datatype dispatch_id = DispatchId string

datatype handle_kind = HandleThread | HandleProcess

record handle_id =
  hi_kind :: handle_kind
  hi_id :: string

definition handle_for_thread :: "(uuid \<Rightarrow> string) \<Rightarrow> thread_id \<Rightarrow> handle_id" where
  "handle_for_thread show_uuid t = \<lparr>hi_kind = HandleThread, hi_id = show_thread_id show_uuid t\<rparr>"

definition handle_for_process :: "string \<Rightarrow> handle_id" where
  "handle_for_process p = \<lparr>hi_kind = HandleProcess, hi_id = p\<rparr>"

record handle_dispatch_envelope =
  hd_dispatch_id :: dispatch_id
  hd_handle :: handle_id
  hd_consumer :: thread_coordinates
  hd_command_digest :: string

datatype handle_terminal_outcome = OutcomeCompleted | OutcomeFailed | OutcomeCancelled

fun handle_outcome_of_terminal_state :: "runtime_terminal_state \<Rightarrow> handle_terminal_outcome" where
  "handle_outcome_of_terminal_state RuntimeCompleted = OutcomeCompleted"
| "handle_outcome_of_terminal_state RuntimeCancelled = OutcomeCancelled"
| "handle_outcome_of_terminal_state RuntimeStopped = OutcomeFailed"
| "handle_outcome_of_terminal_state RuntimeFailed = OutcomeFailed"
| "handle_outcome_of_terminal_state RuntimeTimedOut = OutcomeFailed"

record handle_terminal_envelope =
  he_dispatch_id :: dispatch_id
  he_handle :: handle_id
  he_outcome :: handle_terminal_outcome
  he_outcome_reason :: "string option"
  he_result :: "json option"
  he_result_schema_id :: "string option"
  he_artifact_refs :: "string list"
  he_usage :: "runtime_usage option"
  he_retryable :: bool

subsection \<open>Wire forms\<close>

text \<open>The JSON that the derived serializers of these types write.\<close>

definition json_of_coordinates :: "(uuid \<Rightarrow> string) \<Rightarrow> thread_coordinates \<Rightarrow> json" where
  "json_of_coordinates show_uuid c = jobj
     (field ''tenant_id'' (JString (tc_tenant_id c)) @
      field ''user_id'' (JString (tc_user_id c)) @
      field ''session_id'' (JString (tc_session_id c)) @
      field ''thread_id'' (JString (show_thread_id show_uuid (tc_thread_id c))))"

fun json_of_handle_kind :: "handle_kind \<Rightarrow> json" where
  "json_of_handle_kind HandleThread = JString ''thread''"
| "json_of_handle_kind HandleProcess = JString ''process''"

definition json_of_handle_id :: "handle_id \<Rightarrow> json" where
  "json_of_handle_id h =
     jobj (field ''kind'' (json_of_handle_kind (hi_kind h)) @ field ''id'' (JString (hi_id h)))"

fun dispatch_id_str :: "dispatch_id \<Rightarrow> string" where
  "dispatch_id_str (DispatchId s) = s"

definition json_of_handle_dispatch_envelope ::
  "(uuid \<Rightarrow> string) \<Rightarrow> handle_dispatch_envelope \<Rightarrow> json" where
  "json_of_handle_dispatch_envelope show_uuid e = jobj
     (field ''dispatch_id'' (JString (dispatch_id_str (hd_dispatch_id e))) @
      field ''handle'' (json_of_handle_id (hd_handle e)) @
      field ''consumer'' (json_of_coordinates show_uuid (hd_consumer e)) @
      field ''command_digest'' (JString (hd_command_digest e)))"

fun json_of_handle_outcome :: "handle_terminal_outcome \<Rightarrow> json" where
  "json_of_handle_outcome OutcomeCompleted = JString ''completed''"
| "json_of_handle_outcome OutcomeFailed = JString ''failed''"
| "json_of_handle_outcome OutcomeCancelled = JString ''cancelled''"

definition json_of_runtime_usage :: "runtime_usage \<Rightarrow> json" where
  "json_of_runtime_usage u = jobj
     (field ''input_tokens'' (json_of_u64 (ru_input_tokens u)) @
      field ''output_tokens'' (json_of_u64 (ru_output_tokens u)) @
      field ''cache_creation_input_tokens'' (json_of_u64 (ru_cache_creation_input_tokens u)) @
      field ''cache_read_input_tokens'' (json_of_u64 (ru_cache_read_input_tokens u)))"

definition json_of_handle_terminal_envelope :: "handle_terminal_envelope \<Rightarrow> json" where
  "json_of_handle_terminal_envelope e = jobj
     (field ''dispatch_id'' (JString (dispatch_id_str (he_dispatch_id e))) @
      field ''handle'' (json_of_handle_id (he_handle e)) @
      field ''outcome'' (json_of_handle_outcome (he_outcome e)) @
      opt_field ''outcome_reason'' JString (he_outcome_reason e) @
      opt_field ''result'' (\<lambda>v. v) (he_result e) @
      opt_field ''result_schema_id'' JString (he_result_schema_id e) @
      vec_field ''artifact_refs'' JString (he_artifact_refs e) @
      opt_field ''usage'' json_of_runtime_usage (he_usage e) @
      field ''retryable'' (JBool (he_retryable e)))"

end
