(* ===== verification/Event_Vocabulary.thy ===== *)
theory Event_Vocabulary
  imports Json_Schema Runtime_Contracts
begin

section \<open>The event vocabulary\<close>

text \<open>
  \<^verbatim>\<open>src/crates/verlet-history/src/lib.rs\<close>, the closed vocabularies: the frozen event kinds
  with their strings (\<open>cooldis.events/0.5\<close>), the origin of an event, and the enumerations that
  payloads carry.  The \<open>strum\<close> attributes are the table of strings; parsing looks a string up in
  that table and fails closed.  Also here: the error type of the history crate and the
  identities of its records.
\<close>

subsection \<open>Identities\<close>

datatype session_entry_id = SessionEntryId uuid
datatype event_record_id = EventRecordId uuid
datatype observation_id = ObservationId uuid
datatype event_stream_id = EventStreamId string
datatype event_sequence = EventSequence i64

primrec sequence_get :: "event_sequence \<Rightarrow> i64" where
  "sequence_get (EventSequence n) = n"

primrec stream_id_str :: "event_stream_id \<Rightarrow> string" where
  "stream_id_str (EventStreamId s) = s"

primrec show_entry_id :: "(uuid \<Rightarrow> string) \<Rightarrow> session_entry_id \<Rightarrow> string" where
  "show_entry_id show_uuid (SessionEntryId u) = show_uuid u"

primrec show_event_id :: "(uuid \<Rightarrow> string) \<Rightarrow> event_record_id \<Rightarrow> string" where
  "show_event_id show_uuid (EventRecordId u) = show_uuid u"

definition stream_for_thread :: "(uuid \<Rightarrow> string) \<Rightarrow> thread_coordinates \<Rightarrow> event_stream_id" where
  "stream_for_thread show_uuid c =
     EventStreamId (''thread:'' @ show_thread_id show_uuid (tc_thread_id c))"

lemma sequence_get_inject [simp]: "sequence_get a = sequence_get b \<longleftrightarrow> a = b"
  by (cases a; cases b) simp

context uuid_codec
begin

lemma show_thread_id_inj: "show_thread_id show_uuid a = show_thread_id show_uuid b \<longleftrightarrow> a = b"
  by (cases a; cases b) (simp add: show_inj)

lemma stream_for_thread_inj:
  "stream_for_thread show_uuid c = stream_for_thread show_uuid c' \<longleftrightarrow> tc_thread_id c = tc_thread_id c'"
  by (simp add: stream_for_thread_def show_thread_id_inj)

end

subsection \<open>Event kinds\<close>

datatype event_kind =
    SessionEntryAppended
  | ContextCompileCompleted
  | ContextSummaryCompleted
  | ContextReadPlanSet
  | ManifestCompileCompleted
  | ManifestBindCompleted
  | BindingAttached
  | BindingDetached
  | ToolUniverseDiscoveryCompleted
  | ToolUniverseCallCompleted
  | ToolCallRequested
  | ToolCallSuspended
  | ToolCallDecision
  | ToolCallCompleted
  | TurnSubmitted
  | TurnWaiting
  | TurnResumed
  | TurnCompleted
  | TurnFailed
  | ApprovalRequested
  | ApprovalResolved
  | MandateStarted
  | MandateRevoked
  | TurnContinueRequested
  | TurnContinuationAccepted
  | TurnContinuationRejected
  | LoopCompleted
  | LoopBlocked
  | LoopBudgetExhausted
  | LoopDenied
  | CouplingRunCompleted
  | CouplingRunFailed
  | PlacementDecision
  | ThreadSpawnRequested
  | ThreadSpawned
  | ThreadJoined
  | ThreadBranchSelected
  | ThreadReloadDegraded
  | PolicyBound
  | GrantPetitioned
  | TimerFired
  | ClientRecordAppended
  | IoIngressReceived
  | IoIngressClaimed
  | IoIngressSettled
  | IoEgressRequested
  | IoEgressDelivered
  | IoEgressFailed
  | AdmissionDecided

text \<open>The \<open>strum\<close> strings.\<close>

fun event_kind_str :: "event_kind \<Rightarrow> string" where
  "event_kind_str SessionEntryAppended = ''session.entry.appended''"
| "event_kind_str ContextCompileCompleted = ''context.compile.completed''"
| "event_kind_str ContextSummaryCompleted = ''context.summary.completed''"
| "event_kind_str ContextReadPlanSet = ''context.read_plan.set''"
| "event_kind_str ManifestCompileCompleted = ''manifest.compile.completed''"
| "event_kind_str ManifestBindCompleted = ''manifest.bind.completed''"
| "event_kind_str BindingAttached = ''binding.attached''"
| "event_kind_str BindingDetached = ''binding.detached''"
| "event_kind_str ToolUniverseDiscoveryCompleted = ''tool.universe.discovery.completed''"
| "event_kind_str ToolUniverseCallCompleted = ''tool.universe.call.completed''"
| "event_kind_str ToolCallRequested = ''tool.call.requested''"
| "event_kind_str ToolCallSuspended = ''tool.call.suspended''"
| "event_kind_str ToolCallDecision = ''tool.call.decision''"
| "event_kind_str ToolCallCompleted = ''tool.call.completed''"
| "event_kind_str TurnSubmitted = ''turn.submitted''"
| "event_kind_str TurnWaiting = ''turn.waiting''"
| "event_kind_str TurnResumed = ''turn.resumed''"
| "event_kind_str TurnCompleted = ''turn.completed''"
| "event_kind_str TurnFailed = ''turn.failed''"
| "event_kind_str ApprovalRequested = ''approval.requested''"
| "event_kind_str ApprovalResolved = ''approval.resolved''"
| "event_kind_str MandateStarted = ''mandate.started''"
| "event_kind_str MandateRevoked = ''mandate.revoked''"
| "event_kind_str TurnContinueRequested = ''turn.continue.requested''"
| "event_kind_str TurnContinuationAccepted = ''turn.continuation.accepted''"
| "event_kind_str TurnContinuationRejected = ''turn.continuation.rejected''"
| "event_kind_str LoopCompleted = ''loop.completed''"
| "event_kind_str LoopBlocked = ''loop.blocked''"
| "event_kind_str LoopBudgetExhausted = ''loop.budget_exhausted''"
| "event_kind_str LoopDenied = ''loop.denied''"
| "event_kind_str CouplingRunCompleted = ''coupling.run.completed''"
| "event_kind_str CouplingRunFailed = ''coupling.run.failed''"
| "event_kind_str PlacementDecision = ''placement.decision''"
| "event_kind_str ThreadSpawnRequested = ''thread.spawn.requested''"
| "event_kind_str ThreadSpawned = ''thread.spawned''"
| "event_kind_str ThreadJoined = ''thread.joined''"
| "event_kind_str ThreadBranchSelected = ''thread.branch.selected''"
| "event_kind_str ThreadReloadDegraded = ''thread.reload.degraded''"
| "event_kind_str PolicyBound = ''policy.bound''"
| "event_kind_str GrantPetitioned = ''grant.petitioned''"
| "event_kind_str TimerFired = ''timer.fired''"
| "event_kind_str ClientRecordAppended = ''client.record.appended''"
| "event_kind_str IoIngressReceived = ''io.ingress.received''"
| "event_kind_str IoIngressClaimed = ''io.ingress.claimed''"
| "event_kind_str IoIngressSettled = ''io.ingress.settled''"
| "event_kind_str IoEgressRequested = ''io.egress.requested''"
| "event_kind_str IoEgressDelivered = ''io.egress.delivered''"
| "event_kind_str IoEgressFailed = ''io.egress.failed''"
| "event_kind_str AdmissionDecided = ''admission.decided''"

text \<open>\<open>EventKind::VARIANTS\<close>.\<close>

definition all_event_kinds :: "event_kind list" where
  "all_event_kinds =
    [SessionEntryAppended, ContextCompileCompleted, ContextSummaryCompleted,
     ContextReadPlanSet, ManifestCompileCompleted, ManifestBindCompleted,
     BindingAttached, BindingDetached, ToolUniverseDiscoveryCompleted,
     ToolUniverseCallCompleted, ToolCallRequested, ToolCallSuspended,
     ToolCallDecision, ToolCallCompleted, TurnSubmitted,
     TurnWaiting, TurnResumed, TurnCompleted,
     TurnFailed, ApprovalRequested, ApprovalResolved,
     MandateStarted, MandateRevoked, TurnContinueRequested,
     TurnContinuationAccepted, TurnContinuationRejected, LoopCompleted,
     LoopBlocked, LoopBudgetExhausted, LoopDenied,
     CouplingRunCompleted, CouplingRunFailed, PlacementDecision,
     ThreadSpawnRequested, ThreadSpawned, ThreadJoined,
     ThreadBranchSelected, ThreadReloadDegraded, PolicyBound,
     GrantPetitioned, TimerFired, ClientRecordAppended,
     IoIngressReceived, IoIngressClaimed, IoIngressSettled,
     IoEgressRequested, IoEgressDelivered, IoEgressFailed,
     AdmissionDecided]"

definition payload_schema_id :: "event_kind \<Rightarrow> string" where
  "payload_schema_id k = ''cooldis.event.'' @ event_kind_str k @ ''/1''"

definition event_kind_parse :: "string \<Rightarrow> event_kind option" where
  "event_kind_parse s = find (\<lambda>k. event_kind_str k = s) all_event_kinds"

subsection \<open>Errors of the history crate\<close>

text \<open>
  \<open>HistoryError\<close>.  The strings of \<open>Storage\<close> are the code's; a \<open>Codec\<close> error holds what its text
  interpolates.
\<close>

datatype codec_failure =
    CodecText string
  | CodecSchema schema_validation_error
  | UnsupportedCursorSchema string
  | CursorSequenceNotPositive i64
  | AckEventOfOtherStream event_record_id event_stream_id event_stream_id
  | AckNotContiguous i64 i64

datatype history_error =
    EntryNotFound session_entry_id
  | EntryThreadMismatch session_entry_id thread_id thread_id
  | ThreadScopeMismatch thread_coordinates thread_coordinates
  | ThreadBaseCycle thread_id thread_id
  | Storage string
  | Codec codec_failure
  | DischargedWithoutProvenance event_record_id
  | DuplicateEventId event_record_id
  | StreamCursorStreamMismatch event_stream_id event_stream_id
  | StreamCursorMismatch event_stream_id i64 event_record_id "i64 option" "event_record_id option"
  | AppendFenceConflict event_stream_id i64 i64
  | FencedAppendUnsupported
  | StaleLeaseEpoch event_stream_id u64 u64

type_synonym 'a history_result = "history_error + 'a"

definition event_kind_try_from :: "string \<Rightarrow> event_kind history_result" where
  "event_kind_try_from s =
     (case event_kind_parse s of
        None \<Rightarrow> Inl (Codec (CodecText (''unknown event kind: '' @ s)))
      | Some k \<Rightarrow> Inr k)"

subsection \<open>Origin and the payload enumerations\<close>

datatype event_origin = Witnessed | Discharged

fun event_origin_str :: "event_origin \<Rightarrow> string" where
  "event_origin_str Witnessed = ''witnessed''"
| "event_origin_str Discharged = ''discharged''"

datatype thread_terminal_state =
  TerminalCompleted | TerminalFailed | TerminalCancelled | TerminalBudgetExhausted

fun thread_terminal_state_str :: "thread_terminal_state \<Rightarrow> string" where
  "thread_terminal_state_str TerminalCompleted = ''completed''"
| "thread_terminal_state_str TerminalFailed = ''failed''"
| "thread_terminal_state_str TerminalCancelled = ''cancelled''"
| "thread_terminal_state_str TerminalBudgetExhausted = ''budget_exhausted''"

datatype policy_kind = AdmissionRoute | CouplingSet | Orchestrator | OtherPolicy string

fun json_of_policy_kind :: "policy_kind \<Rightarrow> json" where
  "json_of_policy_kind AdmissionRoute = JString ''admission_route''"
| "json_of_policy_kind CouplingSet = JString ''coupling_set''"
| "json_of_policy_kind Orchestrator = JString ''orchestrator''"
| "json_of_policy_kind (OtherPolicy s) = jobj [(''other'', JString s)]"

datatype admission_decision =
  DecideQueue | DecideSteer | DecideInterrupt | DecideFork | DecideObserve | DecideReject
  | DecideCoalesce

fun admission_decision_str :: "admission_decision \<Rightarrow> string" where
  "admission_decision_str DecideQueue = ''queue''"
| "admission_decision_str DecideSteer = ''steer''"
| "admission_decision_str DecideInterrupt = ''interrupt''"
| "admission_decision_str DecideFork = ''fork''"
| "admission_decision_str DecideObserve = ''observe''"
| "admission_decision_str DecideReject = ''reject''"
| "admission_decision_str DecideCoalesce = ''coalesce''"

datatype turn_failure_error_class = ProviderHttp | ProviderTransport | RunnerFailure | InternalFailure

fun turn_failure_error_class_str :: "turn_failure_error_class \<Rightarrow> string" where
  "turn_failure_error_class_str ProviderHttp = ''provider_http''"
| "turn_failure_error_class_str ProviderTransport = ''provider_transport''"
| "turn_failure_error_class_str RunnerFailure = ''runner''"
| "turn_failure_error_class_str InternalFailure = ''internal''"

datatype binding_effect_class = Pure | Idempotent | AtMostOnce

fun binding_effect_class_str :: "binding_effect_class \<Rightarrow> string" where
  "binding_effect_class_str Pure = ''pure''"
| "binding_effect_class_str Idempotent = ''idempotent''"
| "binding_effect_class_str AtMostOnce = ''at-most-once''"

definition is_at_most_once :: "binding_effect_class \<Rightarrow> bool" where
  "is_at_most_once c \<longleftrightarrow> c = AtMostOnce"

text \<open>The derived order of \<open>BindingEffectClass\<close>: the order of the variants.\<close>

fun effect_class_rank :: "binding_effect_class \<Rightarrow> nat" where
  "effect_class_rank Pure = 0"
| "effect_class_rank Idempotent = 1"
| "effect_class_rank AtMostOnce = 2"

lemma effect_class_rank_inject: "effect_class_rank a = effect_class_rank b \<Longrightarrow> a = b"
  by (cases a; cases b) simp_all

instantiation binding_effect_class :: linorder
begin

definition less_eq_binding_effect_class_def:
  "(a :: binding_effect_class) \<le> b \<longleftrightarrow> effect_class_rank a \<le> effect_class_rank b"

definition less_binding_effect_class_def:
  "(a :: binding_effect_class) < b \<longleftrightarrow> effect_class_rank a < effect_class_rank b"

instance
  by standard
    (auto simp: less_eq_binding_effect_class_def less_binding_effect_class_def
      intro: effect_class_rank_inject)

end

datatype ingress_settled_by = SettledByExecution | SettledByRecovery

fun ingress_settled_by_str :: "ingress_settled_by \<Rightarrow> string" where
  "ingress_settled_by_str SettledByExecution = ''execution''"
| "ingress_settled_by_str SettledByRecovery = ''recovery''"

datatype stream_ack_class =
  LocalCommitted | QueryProjected | StreamCommitted | BroadcastVisible | Archived

fun stream_ack_class_str :: "stream_ack_class \<Rightarrow> string" where
  "stream_ack_class_str LocalCommitted = ''local_committed''"
| "stream_ack_class_str QueryProjected = ''query_projected''"
| "stream_ack_class_str StreamCommitted = ''stream_committed''"
| "stream_ack_class_str BroadcastVisible = ''broadcast_visible''"
| "stream_ack_class_str Archived = ''archived''"

datatype stream_backend_kind = BackendSqlite

datatype stream_storage_scope = LocalEmbedded | RemoteDurable | Hybrid

fun stream_storage_scope_str :: "stream_storage_scope \<Rightarrow> string" where
  "stream_storage_scope_str LocalEmbedded = ''local_embedded''"
| "stream_storage_scope_str RemoteDurable = ''remote_durable''"
| "stream_storage_scope_str Hybrid = ''hybrid''"

datatype stream_route_profile =
  AuthorityStore | ExportBundle | ModelTrace | RuntimeTrace | BrowserSafeProjection
  | AnalyticsAggregate

fun stream_route_profile_str :: "stream_route_profile \<Rightarrow> string" where
  "stream_route_profile_str AuthorityStore = ''authority_store''"
| "stream_route_profile_str ExportBundle = ''export_bundle''"
| "stream_route_profile_str ModelTrace = ''model_trace''"
| "stream_route_profile_str RuntimeTrace = ''runtime_trace''"
| "stream_route_profile_str BrowserSafeProjection = ''browser_safe_projection''"
| "stream_route_profile_str AnalyticsAggregate = ''analytics_aggregate''"

subsection \<open>The vocabulary is a bijection with its strings\<close>

lemma all_event_kinds_complete: "k \<in> set all_event_kinds"
  by (cases k) (simp_all add: all_event_kinds_def)

lemma distinct_event_kind_strs: "distinct (map event_kind_str all_event_kinds)"
  by (simp add: all_event_kinds_def)

lemma event_kind_str_inject: "event_kind_str a = event_kind_str b \<longleftrightarrow> a = b"
  using distinct_event_kind_strs all_event_kinds_complete
  by (auto simp: distinct_map inj_on_def)

lemma event_kind_parse_str [simp]: "event_kind_parse (event_kind_str k) = Some k"
proof -
  obtain k' where k': "event_kind_parse (event_kind_str k) = Some k'"
    using all_event_kinds_complete [of k]
    by (cases "event_kind_parse (event_kind_str k)")
      (auto simp: event_kind_parse_def find_None_iff)
  then have "event_kind_str k' = event_kind_str k"
    by (auto simp: event_kind_parse_def find_Some_iff)
  with k' show ?thesis by (simp add: event_kind_str_inject)
qed

lemma event_kind_parse_SomeD: "event_kind_parse s = Some k \<Longrightarrow> event_kind_str k = s"
  by (auto simp: event_kind_parse_def find_Some_iff)

text \<open>
  The frozen vocabulary round-trips: the printed form of every event kind parses back to that
  kind, and a string is accepted only if it is the printed form of the kind returned; every other
  string is refused with an error that carries it, so there is no passthrough kind.
\<close>

theorem event_kind_roundtrip:
  "event_kind_try_from (event_kind_str k) = Inr k \<and>
   (event_kind_try_from s = Inr k \<longleftrightarrow> s = event_kind_str k) \<and>
   (s \<notin> range event_kind_str \<longleftrightarrow>
      event_kind_try_from s = Inl (Codec (CodecText (''unknown event kind: '' @ s))))"
proof -
  have "event_kind_parse s = None \<longleftrightarrow> s \<notin> range event_kind_str"
    using all_event_kinds_complete by (auto simp: event_kind_parse_def find_None_iff)
  then show ?thesis
    by (auto simp: event_kind_try_from_def split: option.splits dest: event_kind_parse_SomeD)
qed

end
