(* ===== verification/Event_Payloads.thy ===== *)
theory Event_Payloads
  imports Event_Vocabulary
begin

section \<open>Event payloads\<close>

text \<open>
  \<^verbatim>\<open>src/crates/verlet-history/src/lib.rs\<close>, the typed payloads of the event kinds: one record
  per struct and, for each, the JSON value its derived \<open>Serialize\<close> writes (attributes
  \<open>skip_serializing_if\<close>, \<open>rename\<close>, \<open>rename_all\<close> and \<open>tag\<close> included).  The last part is
  \<open>truncate_utf8_bytes\<close>, which bounds the message of \<open>turn.failed\<close>, with the proof that it
  returns the longest prefix that fits and ends on a character boundary, and so keeps a string
  valid UTF-8.
\<close>

named_theorems payload_defs \<open>the encoders of the payload records\<close>

subsection \<open>Encoders of the shared field types\<close>

definition json_of_event_id :: "(uuid \<Rightarrow> string) \<Rightarrow> event_record_id \<Rightarrow> json" where
  "json_of_event_id show_uuid i = JString (show_event_id show_uuid i)"

definition json_of_entry_id :: "(uuid \<Rightarrow> string) \<Rightarrow> session_entry_id \<Rightarrow> json" where
  "json_of_entry_id show_uuid i = JString (show_entry_id show_uuid i)"

definition json_of_thread_id :: "(uuid \<Rightarrow> string) \<Rightarrow> thread_id \<Rightarrow> json" where
  "json_of_thread_id show_uuid i = JString (show_thread_id show_uuid i)"

definition json_of_stream_id :: "event_stream_id \<Rightarrow> json" where
  "json_of_stream_id s = JString (stream_id_str s)"

definition json_of_sequence :: "event_sequence \<Rightarrow> json" where
  "json_of_sequence s = json_of_i64 (sequence_get s)"

definition json_of_u32 :: "u32 \<Rightarrow> json" where
  "json_of_u32 n = JNumber (PosInt (ucast n))"

definition json_of_u16 :: "u16 \<Rightarrow> json" where
  "json_of_u16 n = JNumber (PosInt (ucast n))"

subsection \<open>UTF-8 truncation\<close>

definition is_continuation_byte :: "char \<Rightarrow> bool" where
  "is_continuation_byte c \<longleftrightarrow> 128 \<le> (of_char c :: nat) \<and> (of_char c :: nat) < 192"

definition is_char_boundary :: "string \<Rightarrow> nat \<Rightarrow> bool" where
  "is_char_boundary s i \<longleftrightarrow>
     i = 0 \<or> i = length s \<or> i < length s \<and> \<not> is_continuation_byte (s ! i)"

primrec boundary_at_or_below :: "string \<Rightarrow> nat \<Rightarrow> nat" where
  "boundary_at_or_below s 0 = 0"
| "boundary_at_or_below s (Suc i) =
     (if is_char_boundary s (Suc i) then Suc i else boundary_at_or_below s i)"

definition truncate_utf8_bytes :: "string \<Rightarrow> nat \<Rightarrow> string" where
  "truncate_utf8_bytes value max_bytes =
     (if length value \<le> max_bytes then value
      else take (boundary_at_or_below value max_bytes) value)"

definition turn_failed_message_max_bytes :: nat where
  "turn_failed_message_max_bytes = 1024"

subsection \<open>Turn failures\<close>

record turn_failed_payload =
  tf_turn_id :: string
  tf_error_class :: turn_failure_error_class
  tf_provider_id :: "string option"
  tf_http_status :: "u16 option"
  tf_message :: string
  tf_retries_attempted :: u32

definition turn_failed_payload_new ::
  "string \<Rightarrow> turn_failure_error_class \<Rightarrow> string option \<Rightarrow> u16 option \<Rightarrow> string \<Rightarrow> u32 \<Rightarrow>
   turn_failed_payload" where
  "turn_failed_payload_new turn_id error_class provider_id http_status message retries =
     \<lparr>tf_turn_id = turn_id, tf_error_class = error_class, tf_provider_id = provider_id,
      tf_http_status = http_status,
      tf_message = truncate_utf8_bytes message turn_failed_message_max_bytes,
      tf_retries_attempted = retries\<rparr>"

definition json_of_turn_failed :: "turn_failed_payload \<Rightarrow> json" where
  [payload_defs]: "json_of_turn_failed p = jobj
     (field ''turn_id'' (JString (tf_turn_id p)) @
      field ''error_class'' (JString (turn_failure_error_class_str (tf_error_class p))) @
      opt_field ''provider_id'' JString (tf_provider_id p) @
      opt_field ''http_status'' json_of_u16 (tf_http_status p) @
      field ''message'' (JString (tf_message p)) @
      field ''retries_attempted'' (json_of_u32 (tf_retries_attempted p)))"

subsection \<open>Bindings\<close>

record binding_attachment_config =
  ac_allowed_secrets :: "string list"
  ac_allowed_private_network :: "(string, string list) btmap"
  ac_bound_parameters :: "(string, json) btmap"

definition attachment_config_is_empty :: "binding_attachment_config \<Rightarrow> bool" where
  "attachment_config_is_empty c \<longleftrightarrow> ac_allowed_secrets c = [] \<and>
     ac_allowed_private_network c = [] \<and> ac_bound_parameters c = []"

definition attachment_config_default :: binding_attachment_config where
  "attachment_config_default = \<lparr>ac_allowed_secrets = [], ac_allowed_private_network = [],
     ac_bound_parameters = []\<rparr>"

definition map_field :: "string \<Rightarrow> ('a \<Rightarrow> json) \<Rightarrow> (string, 'a) btmap \<Rightarrow> (string \<times> json) list" where
  "map_field k f m = (if m = [] then [] else [(k, JObject (map (\<lambda>(k', v). (k', f v)) m))])"

definition json_of_attachment_config :: "binding_attachment_config \<Rightarrow> json" where
  [payload_defs]: "json_of_attachment_config c = jobj
     (vec_field ''allowed_secrets'' JString (ac_allowed_secrets c) @
      map_field ''allowed_private_network'' jstrs (ac_allowed_private_network c) @
      map_field ''bound_parameters'' (\<lambda>v. v) (ac_bound_parameters c))"

record binding_attached_direct_tool =
  dt_tool_name :: string
  dt_operation :: string
  dt_effect_class :: binding_effect_class

definition effect_class_field :: "binding_effect_class \<Rightarrow> (string \<times> json) list" where
  "effect_class_field c =
     (if is_at_most_once c then [] else [(''effect_class'', JString (binding_effect_class_str c))])"

definition json_of_direct_tool :: "binding_attached_direct_tool \<Rightarrow> json" where
  [payload_defs]: "json_of_direct_tool t = jobj
     (field ''tool_name'' (JString (dt_tool_name t)) @
      field ''operation'' (JString (dt_operation t)) @
      effect_class_field (dt_effect_class t))"

record binding_attached_payload =
  ba_name :: string
  ba_artifact_hash :: string
  ba_operations :: "string list"
  ba_direct_tools :: "binding_attached_direct_tool list"
  ba_attachment_config :: binding_attachment_config
  ba_effect_class :: binding_effect_class
  ba_requested_by :: string
  ba_decided_by :: string
  ba_decision_event_id :: "event_record_id option"

definition json_of_binding_attached :: "(uuid \<Rightarrow> string) \<Rightarrow> binding_attached_payload \<Rightarrow> json" where
  [payload_defs]: "json_of_binding_attached show_uuid p = jobj
     (field ''name'' (JString (ba_name p)) @
      field ''artifact_hash'' (JString (ba_artifact_hash p)) @
      vec_field ''operations'' JString (ba_operations p) @
      vec_field ''direct_tools'' json_of_direct_tool (ba_direct_tools p) @
      (if attachment_config_is_empty (ba_attachment_config p) then []
       else field ''attachment_config'' (json_of_attachment_config (ba_attachment_config p))) @
      effect_class_field (ba_effect_class p) @
      field ''requested_by'' (JString (ba_requested_by p)) @
      field ''decided_by'' (JString (ba_decided_by p)) @
      opt_field ''decision_event_id'' (json_of_event_id show_uuid) (ba_decision_event_id p))"

record binding_detached_payload =
  bd_attach_event_id :: event_record_id
  bd_requested_by :: string
  bd_decided_by :: string
  bd_decision_event_id :: "event_record_id option"

definition json_of_binding_detached :: "(uuid \<Rightarrow> string) \<Rightarrow> binding_detached_payload \<Rightarrow> json" where
  [payload_defs]: "json_of_binding_detached show_uuid p = jobj
     (field ''attach_event_id'' (json_of_event_id show_uuid (bd_attach_event_id p)) @
      field ''requested_by'' (JString (bd_requested_by p)) @
      field ''decided_by'' (JString (bd_decided_by p)) @
      opt_field ''decision_event_id'' (json_of_event_id show_uuid) (bd_decision_event_id p))"

subsection \<open>Thread events\<close>

record thread_spawn_requested_payload =
  sr_parent_thread_id :: thread_id
  sr_parent_turn_id :: "string option"
  sr_task_name :: "string option"
  sr_submitted_turn_id :: "string option"
  sr_child_agent_ref :: string
  sr_initial_submission :: string
  sr_correlation_id :: string
  sr_block_parent :: bool

definition json_of_thread_spawn_requested ::
  "(uuid \<Rightarrow> string) \<Rightarrow> thread_spawn_requested_payload \<Rightarrow> json" where
  [payload_defs]: "json_of_thread_spawn_requested show_uuid p = jobj
     (field ''parent_thread_id'' (json_of_thread_id show_uuid (sr_parent_thread_id p)) @
      opt_field ''parent_turn_id'' JString (sr_parent_turn_id p) @
      opt_field ''task_name'' JString (sr_task_name p) @
      opt_field ''submitted_turn_id'' JString (sr_submitted_turn_id p) @
      field ''child_agent_ref'' (JString (sr_child_agent_ref p)) @
      field ''initial_submission'' (JString (sr_initial_submission p)) @
      field ''correlation_id'' (JString (sr_correlation_id p)) @
      field ''block_parent'' (JBool (sr_block_parent p)))"

record thread_spawned_fork_source_cut =
  sc_thread_id :: thread_id
  sc_checkpoint_id :: thread_checkpoint_id
  sc_leaf_entry_id :: "session_entry_id option"
  sc_stream_id :: event_stream_id
  sc_stream_to_sequence :: "event_sequence option"

definition json_of_fork_source_cut ::
  "(uuid \<Rightarrow> string) \<Rightarrow> thread_spawned_fork_source_cut \<Rightarrow> json" where
  [payload_defs]: "json_of_fork_source_cut show_uuid p = jobj
     (field ''threadId'' (json_of_thread_id show_uuid (sc_thread_id p)) @
      field ''checkpointId'' (JString (show_checkpoint_id show_uuid (sc_checkpoint_id p))) @
      field ''leafEntryId'' (json_of_option (json_of_entry_id show_uuid) (sc_leaf_entry_id p)) @
      field ''streamId'' (json_of_stream_id (sc_stream_id p)) @
      field ''streamToSequence'' (json_of_option json_of_sequence (sc_stream_to_sequence p)))"

record thread_spawned_fork_payload =
  sf_mode :: string
  sf_claim_event_id :: "event_record_id option"
  sf_source_cut :: thread_spawned_fork_source_cut

definition json_of_thread_spawned_fork ::
  "(uuid \<Rightarrow> string) \<Rightarrow> thread_spawned_fork_payload \<Rightarrow> json" where
  [payload_defs]: "json_of_thread_spawned_fork show_uuid p = jobj
     (field ''mode'' (JString (sf_mode p)) @
      opt_field ''claim_event_id'' (json_of_event_id show_uuid) (sf_claim_event_id p) @
      field ''sourceCut'' (json_of_fork_source_cut show_uuid (sf_source_cut p)))"

record thread_spawned_payload =
  sp_parent_thread_id :: thread_id
  sp_parent_turn_id :: "string option"
  sp_child_thread_id :: thread_id
  sp_child_manifest_hash :: string
  sp_child_policy_hash :: "string option"
  sp_granted :: "string list"
  sp_inputs_hash :: string
  sp_fork :: "thread_spawned_fork_payload option"

definition json_of_thread_spawned :: "(uuid \<Rightarrow> string) \<Rightarrow> thread_spawned_payload \<Rightarrow> json" where
  [payload_defs]: "json_of_thread_spawned show_uuid p = jobj
     (field ''parent_thread_id'' (json_of_thread_id show_uuid (sp_parent_thread_id p)) @
      opt_field ''parent_turn_id'' JString (sp_parent_turn_id p) @
      field ''child_thread_id'' (json_of_thread_id show_uuid (sp_child_thread_id p)) @
      field ''child_manifest_hash'' (JString (sp_child_manifest_hash p)) @
      opt_field ''child_policy_hash'' JString (sp_child_policy_hash p) @
      field ''granted'' (jstrs (sp_granted p)) @
      field ''inputs_hash'' (JString (sp_inputs_hash p)) @
      opt_field ''fork'' (json_of_thread_spawned_fork show_uuid) (sp_fork p))"

record thread_joined_payload =
  tj_child_thread_id :: thread_id
  tj_spawned_event_id :: event_record_id
  tj_terminal_state :: thread_terminal_state
  tj_result_digest :: "string option"

definition json_of_thread_joined :: "(uuid \<Rightarrow> string) \<Rightarrow> thread_joined_payload \<Rightarrow> json" where
  [payload_defs]: "json_of_thread_joined show_uuid p = jobj
     (field ''child_thread_id'' (json_of_thread_id show_uuid (tj_child_thread_id p)) @
      field ''spawned_event_id'' (json_of_event_id show_uuid (tj_spawned_event_id p)) @
      field ''terminal_state'' (JString (thread_terminal_state_str (tj_terminal_state p))) @
      opt_field ''result_digest'' JString (tj_result_digest p))"

record thread_branch_selected_payload =
  bs_thread_id :: thread_id
  bs_selected_entry_id :: "session_entry_id option"
  bs_prior_entry_id :: "session_entry_id option"

definition json_of_thread_branch_selected ::
  "(uuid \<Rightarrow> string) \<Rightarrow> thread_branch_selected_payload \<Rightarrow> json" where
  [payload_defs]: "json_of_thread_branch_selected show_uuid p = jobj
     (field ''thread_id'' (json_of_thread_id show_uuid (bs_thread_id p)) @
      opt_field ''selected_entry_id'' (json_of_entry_id show_uuid) (bs_selected_entry_id p) @
      opt_field ''prior_entry_id'' (json_of_entry_id show_uuid) (bs_prior_entry_id p))"

record thread_reload_degraded_payload =
  rd_thread_id :: thread_id
  rd_missing :: "string list"
  rd_fallback :: string

definition json_of_thread_reload_degraded ::
  "(uuid \<Rightarrow> string) \<Rightarrow> thread_reload_degraded_payload \<Rightarrow> json" where
  [payload_defs]: "json_of_thread_reload_degraded show_uuid p = jobj
     (field ''thread_id'' (json_of_thread_id show_uuid (rd_thread_id p)) @
      field ''missing'' (jstrs (rd_missing p)) @
      field ''fallback'' (JString (rd_fallback p)))"

subsection \<open>Policies, grants, timers and client records\<close>

record policy_bound_payload =
  pb_policy_kind :: policy_kind
  pb_policy_id :: string
  pb_content_hash :: string
  pb_valid_from_note :: string

definition json_of_policy_bound :: "policy_bound_payload \<Rightarrow> json" where
  [payload_defs]: "json_of_policy_bound p = jobj
     (field ''policy_kind'' (json_of_policy_kind (pb_policy_kind p)) @
      field ''policy_id'' (JString (pb_policy_id p)) @
      field ''content_hash'' (JString (pb_content_hash p)) @
      field ''valid_from_note'' (JString (pb_valid_from_note p)))"

record grant_petitioned_payload =
  gp_thread_id :: thread_id
  gp_requested :: "string list"
  gp_reason :: string
  gp_evidence_event_ids :: "event_record_id list option"

definition json_of_grant_petitioned :: "(uuid \<Rightarrow> string) \<Rightarrow> grant_petitioned_payload \<Rightarrow> json" where
  [payload_defs]: "json_of_grant_petitioned show_uuid p = jobj
     (field ''thread_id'' (json_of_thread_id show_uuid (gp_thread_id p)) @
      field ''requested'' (jstrs (gp_requested p)) @
      field ''reason'' (JString (gp_reason p)) @
      opt_field ''evidence_event_ids'' (\<lambda>ids. JArray (map (json_of_event_id show_uuid) ids))
        (gp_evidence_event_ids p))"

record timer_fired_payload =
  ti_mandate_event_id :: event_record_id
  ti_scheduled_for :: string
  ti_occurrence_index :: u64
  ti_catch_up :: bool

definition json_of_timer_fired :: "(uuid \<Rightarrow> string) \<Rightarrow> timer_fired_payload \<Rightarrow> json" where
  [payload_defs]: "json_of_timer_fired show_uuid p = jobj
     (field ''mandate_event_id'' (json_of_event_id show_uuid (ti_mandate_event_id p)) @
      field ''scheduled_for'' (JString (ti_scheduled_for p)) @
      field ''occurrence_index'' (json_of_u64 (ti_occurrence_index p)) @
      field ''catch_up'' (JBool (ti_catch_up p)))"

record client_record_appended_payload =
  cr_client_kind :: string
  cr_client_schema :: string
  cr_principal_id :: string
  cr_body :: json

definition json_of_client_record_appended :: "client_record_appended_payload \<Rightarrow> json" where
  [payload_defs]: "json_of_client_record_appended p = jobj
     (field ''client_kind'' (JString (cr_client_kind p)) @
      field ''client_schema'' (JString (cr_client_schema p)) @
      field ''principal_id'' (JString (cr_principal_id p)) @
      field ''body'' (cr_body p))"

subsection \<open>Ingress and egress\<close>

record io_ingress_received_payload =
  ir_route_id :: "string option"
  ir_dedupe_key :: "string option"
  ir_external_conversation_id :: "string option"
  ir_external_actor_id :: "string option"
  ir_external_message_id :: "string option"
  ir_content :: "json option"
  ir_envelope_digest :: string

definition json_of_io_ingress_received :: "io_ingress_received_payload \<Rightarrow> json" where
  [payload_defs]: "json_of_io_ingress_received p = jobj
     (opt_field ''route_id'' JString (ir_route_id p) @
      opt_field ''dedupe_key'' JString (ir_dedupe_key p) @
      opt_field ''external_conversation_id'' JString (ir_external_conversation_id p) @
      opt_field ''external_actor_id'' JString (ir_external_actor_id p) @
      opt_field ''external_message_id'' JString (ir_external_message_id p) @
      opt_field ''content'' (\<lambda>v. v) (ir_content p) @
      field ''envelope_digest'' (JString (ir_envelope_digest p)))"

datatype ingress_outcome_intent =
    IntentTurn (turn_id_of: string) (submission_mode_of: string) (input_digest_of: string)
  | IntentFork (child_key_of: string) (child_thread_id_of: "thread_id option")
      (input_digest_of: string)
  | IntentInterrupt (replacement_turn_id_of: "string option") (cancel_reason_of: string)
      (input_digest_of: string)
  | IntentObserve (reason_of: string)
  | IntentReject (reason_of: string)

fun json_of_ingress_intent :: "(uuid \<Rightarrow> string) \<Rightarrow> ingress_outcome_intent \<Rightarrow> json" where
  "json_of_ingress_intent show_uuid (IntentTurn turn_id submission_mode input_digest) = jobj
     (field ''outcome'' (JString ''turn'') @
      field ''turn_id'' (JString turn_id) @
      field ''submission_mode'' (JString submission_mode) @
      field ''input_digest'' (JString input_digest))"
| "json_of_ingress_intent show_uuid (IntentFork child_key child_thread_id input_digest) = jobj
     (field ''outcome'' (JString ''fork'') @
      field ''child_key'' (JString child_key) @
      opt_field ''child_thread_id'' (json_of_thread_id show_uuid) child_thread_id @
      field ''input_digest'' (JString input_digest))"
| "json_of_ingress_intent show_uuid (IntentInterrupt replacement cancel_reason input_digest) = jobj
     (field ''outcome'' (JString ''interrupt'') @
      opt_field ''replacement_turn_id'' JString replacement @
      field ''cancel_reason'' (JString cancel_reason) @
      field ''input_digest'' (JString input_digest))"
| "json_of_ingress_intent show_uuid (IntentObserve reason) = jobj
     (field ''outcome'' (JString ''observe'') @ field ''reason'' (JString reason))"
| "json_of_ingress_intent show_uuid (IntentReject reason) = jobj
     (field ''outcome'' (JString ''reject'') @ field ''reason'' (JString reason))"

record io_ingress_claimed_payload =
  ic_ingress_envelope_ids :: "string list"
  ic_ingress_witness_event_ids :: "event_record_id list"
  ic_admission_event_id :: event_record_id
  ic_intent :: ingress_outcome_intent

definition json_of_io_ingress_claimed ::
  "(uuid \<Rightarrow> string) \<Rightarrow> io_ingress_claimed_payload \<Rightarrow> json" where
  [payload_defs]: "json_of_io_ingress_claimed show_uuid p = jobj
     (field ''ingress_envelope_ids'' (jstrs (ic_ingress_envelope_ids p)) @
      field ''ingress_witness_event_ids''
        (JArray (map (json_of_event_id show_uuid) (ic_ingress_witness_event_ids p))) @
      field ''admission_event_id'' (json_of_event_id show_uuid (ic_admission_event_id p)) @
      field ''intent'' (json_of_ingress_intent show_uuid (ic_intent p)))"

record io_ingress_settled_payload =
  is_claim_event_id :: event_record_id
  is_ingress_envelope_ids :: "string list"
  is_evidence_event_id :: "event_record_id option"
  is_settled_by :: ingress_settled_by

definition json_of_io_ingress_settled ::
  "(uuid \<Rightarrow> string) \<Rightarrow> io_ingress_settled_payload \<Rightarrow> json" where
  [payload_defs]: "json_of_io_ingress_settled show_uuid p = jobj
     (field ''claim_event_id'' (json_of_event_id show_uuid (is_claim_event_id p)) @
      field ''ingress_envelope_ids'' (jstrs (is_ingress_envelope_ids p)) @
      opt_field ''evidence_event_id'' (json_of_event_id show_uuid) (is_evidence_event_id p) @
      field ''settled_by'' (JString (ingress_settled_by_str (is_settled_by p))))"

record io_egress_requested_payload =
  er_egress_kind :: json
  er_resolved_target :: "json option"
  er_requested_by_tool_call_id :: string
  er_quote :: "string option"
  er_match_event_id :: "event_record_id option"

definition json_of_io_egress_requested ::
  "(uuid \<Rightarrow> string) \<Rightarrow> io_egress_requested_payload \<Rightarrow> json" where
  [payload_defs]: "json_of_io_egress_requested show_uuid p = jobj
     (field ''egress_kind'' (er_egress_kind p) @
      opt_field ''resolved_target'' (\<lambda>v. v) (er_resolved_target p) @
      field ''requested_by_tool_call_id'' (JString (er_requested_by_tool_call_id p)) @
      opt_field ''quote'' JString (er_quote p) @
      opt_field ''match_event_id'' (json_of_event_id show_uuid) (er_match_event_id p))"

record io_egress_delivered_payload =
  ed_route_id :: string
  ed_egress_kind :: string
  ed_external_message_id :: "string option"
  ed_attempts :: u32

definition json_of_io_egress_delivered :: "io_egress_delivered_payload \<Rightarrow> json" where
  [payload_defs]: "json_of_io_egress_delivered p = jobj
     (field ''route_id'' (JString (ed_route_id p)) @
      field ''egress_kind'' (JString (ed_egress_kind p)) @
      opt_field ''external_message_id'' JString (ed_external_message_id p) @
      field ''attempts'' (json_of_u32 (ed_attempts p)))"

record io_egress_failed_payload =
  ef_route_id :: string
  ef_egress_kind :: string
  ef_attempts :: u32
  ef_error_class :: string
  ef_dead_lettered :: bool

definition json_of_io_egress_failed :: "io_egress_failed_payload \<Rightarrow> json" where
  [payload_defs]: "json_of_io_egress_failed p = jobj
     (field ''route_id'' (JString (ef_route_id p)) @
      field ''egress_kind'' (JString (ef_egress_kind p)) @
      field ''attempts'' (json_of_u32 (ef_attempts p)) @
      field ''error_class'' (JString (ef_error_class p)) @
      field ''dead_lettered'' (JBool (ef_dead_lettered p)))"

record admission_decided_payload =
  ad_route_id :: string
  ad_policy_hash :: string
  ad_decision :: admission_decision
  ad_admissible :: "admission_decision list option"
  ad_source_ingress_event_ids :: "event_record_id list"

definition json_of_admission_decision :: "admission_decision \<Rightarrow> json" where
  "json_of_admission_decision d = JString (admission_decision_str d)"

definition json_of_admission_decided ::
  "(uuid \<Rightarrow> string) \<Rightarrow> admission_decided_payload \<Rightarrow> json" where
  [payload_defs]: "json_of_admission_decided show_uuid p = jobj
     (field ''route_id'' (JString (ad_route_id p)) @
      field ''policy_hash'' (JString (ad_policy_hash p)) @
      field ''decision'' (json_of_admission_decision (ad_decision p)) @
      opt_field ''admissible'' (\<lambda>ds. JArray (map json_of_admission_decision ds))
        (ad_admissible p) @
      field ''source_ingress_event_ids''
        (JArray (map (json_of_event_id show_uuid) (ad_source_ingress_event_ids p))))"

subsection \<open>Truncation ends on a character boundary\<close>

lemma boundary_le: "boundary_at_or_below s i \<le> i"
  by (induction i) auto

lemma boundary_is_boundary: "is_char_boundary s (boundary_at_or_below s i)"
  by (induction i) (auto simp: is_char_boundary_def)

lemma boundary_greatest:
  "j \<le> i \<Longrightarrow> is_char_boundary s j \<Longrightarrow> j \<le> boundary_at_or_below s i"
  by (induction i) (auto simp: le_Suc_eq)

text \<open>
  Well-formed UTF-8, as far as lead and continuation bytes go: a sequence of characters, each a
  lead byte followed by the number of continuation bytes the lead announces.
\<close>

definition continuation_count :: "char \<Rightarrow> nat option" where
  "continuation_count c =
     (let b = (of_char c :: nat) in
      if b < 128 then Some 0 else if b < 192 then None else if b < 224 then Some 1
      else if b < 240 then Some 2 else if b < 248 then Some 3 else None)"

fun utf8_well_formed :: "string \<Rightarrow> bool" where
  "utf8_well_formed [] = True"
| "utf8_well_formed (c # s) =
     (case continuation_count c of
        None \<Rightarrow> False
      | Some n \<Rightarrow> n \<le> length s \<and> list_all is_continuation_byte (take n s) \<and>
          utf8_well_formed (drop n s))"

lemma lead_not_continuation: "continuation_count c = Some n \<Longrightarrow> \<not> is_continuation_byte c"
  by (auto simp: continuation_count_def is_continuation_byte_def Let_def split: if_splits)

lemma utf8_prefix_at_boundary:
  "utf8_well_formed s \<Longrightarrow> is_char_boundary s i \<Longrightarrow> utf8_well_formed (take i s)"
proof (induction s arbitrary: i rule: utf8_well_formed.induct)
  case 1
  then show ?case by simp
next
  case (2 c s)
  from "2.prems"(1) obtain n where n: "continuation_count c = Some n" "n \<le> length s"
    "list_all is_continuation_byte (take n s)" "utf8_well_formed (drop n s)"
    by (auto split: option.splits)
  show ?case
  proof (cases i)
    case 0
    then show ?thesis by simp
  next
    case (Suc j)
    have "n \<le> j"
    proof (rule ccontr)
      assume "\<not> n \<le> j"
      with n have "is_continuation_byte (s ! j)" by (auto simp: list_all_length)
      moreover from \<open>\<not> n \<le> j\<close> n Suc "2.prems"(2) have "\<not> is_continuation_byte (s ! j)"
        by (auto simp: is_char_boundary_def)
      ultimately show False by simp
    qed
    moreover have "is_char_boundary (drop n s) (j - n)"
      using "2.prems"(2) Suc \<open>n \<le> j\<close> n(2) by (auto simp: is_char_boundary_def)
    ultimately have "utf8_well_formed (take (j - n) (drop n s))"
      using "2.IH" [OF n(1)] n by simp
    moreover have "n \<le> length (take j s)" using "2.prems"(2) Suc \<open>n \<le> j\<close> n(2) by simp
    ultimately show ?thesis
      using Suc n \<open>n \<le> j\<close> by (simp add: drop_take min_absorb1)
  qed
qed

lemma truncate_cases:
  "truncate_utf8_bytes s m = take (if length s \<le> m then length s else boundary_at_or_below s m) s"
  by (simp add: truncate_utf8_bytes_def)

text \<open>
  The message of a \<open>turn.failed\<close> payload is a prefix of the message given, at most 1024 bytes
  long; no longer prefix within that bound ends on a character boundary; and a well-formed UTF-8
  message stays well-formed UTF-8.
\<close>

theorem turn_failed_message_bounded:
  "let s = tf_message (turn_failed_payload_new turn_id error_class provider http m retries) in
     length s \<le> 1024 \<and> prefix s m \<and>
     (\<forall>i. i \<le> 1024 \<and> is_char_boundary m i \<longrightarrow> i \<le> length s) \<and>
     (utf8_well_formed m \<longrightarrow> utf8_well_formed s)"
proof -
  define s where "s = tf_message (turn_failed_payload_new turn_id error_class provider http m retries)"
  define b where "b = (if length m \<le> 1024 then length m else boundary_at_or_below m 1024)"
  have s: "s = take b m"
    unfolding s_def b_def turn_failed_payload_new_def
    by (simp add: truncate_cases turn_failed_message_max_bytes_def)
  have b: "b \<le> 1024" "is_char_boundary m b"
    using boundary_le [of m 1024] boundary_is_boundary [of m 1024]
    by (auto simp: b_def is_char_boundary_def)
  have len: "length s = b" using s b by (auto simp: is_char_boundary_def)
  have "i \<le> b" if "i \<le> 1024" "is_char_boundary m i" for i
    using boundary_greatest [OF that] that(2) by (auto simp: b_def is_char_boundary_def)
  moreover have "utf8_well_formed s" if "utf8_well_formed m"
    using utf8_prefix_at_boundary [OF that b(2)] s by simp
  moreover have "prefix s m" using s by (simp add: take_is_prefix)
  ultimately show ?thesis using len b(1) unfolding Let_def s_def [symmetric] by simp
qed

theorem turn_failed_message_bounded_witness:
  "utf8_well_formed
     (tf_message (turn_failed_payload_new ''t'' InternalFailure None None
       (replicate 1023 CHR ''a'' @ [CHR 0xE2, CHR 0x82, CHR 0xAC]) 0)) \<and>
   1023 \<le> length
     (tf_message (turn_failed_payload_new ''t'' InternalFailure None None
       (replicate 1023 CHR ''a'' @ [CHR 0xE2, CHR 0x82, CHR 0xAC]) 0))"
proof -
  let ?m = "replicate 1023 CHR ''a'' @ [CHR 0xE2, CHR 0x82, CHR 0xAC]"
  have ascii: "utf8_well_formed (replicate n CHR ''a'' @ t) = utf8_well_formed t" for n t
    by (induction n) (simp_all add: continuation_count_def)
  have "utf8_well_formed ?m"
    unfolding ascii by (simp add: continuation_count_def is_continuation_byte_def)
  moreover have "is_char_boundary ?m 1023"
    by (simp add: is_char_boundary_def is_continuation_byte_def nth_append)
  moreover have "(1023 :: nat) \<le> 1024" by simp
  ultimately show ?thesis
    using turn_failed_message_bounded [of "''t''" InternalFailure None None ?m 0]
    unfolding Let_def by blast
qed

end
