(* ===== verification/Event_Record.thy ===== *)
theory Event_Record
  imports Event_Payloads
begin

section \<open>Event records, envelopes, acknowledgements and routing\<close>

text \<open>
  \<^verbatim>\<open>src/crates/verlet-history/src/lib.rs\<close>: provenance, the record before and after it is
  appended (\<open>NewEventRecord\<close>, \<open>EventRecord\<close>), the versioned stream envelope with its routing
  decision, the append acknowledgement, the replay cursor, and the observation records.
  \<open>EventRecordId::new()\<close> and \<open>now_ms()\<close> are the components of the \<open>stamp\<close> argument.
\<close>

named_theorems record_defs \<open>constructors of the record types\<close>

type_synonym stamp = "uuid \<times> i64"

definition stream_record_schema_id :: string where
  "stream_record_schema_id = ''cooldis.stream.record/1''"

definition stream_cursor_schema_id :: string where
  "stream_cursor_schema_id = ''cooldis.stream.cursor/1''"

definition stream_backend_capabilities_schema_id :: string where
  "stream_backend_capabilities_schema_id = ''cooldis.stream.backend_capabilities/1''"

definition stream_append_ack_schema_id :: string where
  "stream_append_ack_schema_id = ''cooldis.stream.append_ack/1''"

definition stream_routing_decision_schema_id :: string where
  "stream_routing_decision_schema_id = ''cooldis.stream.routing_decision/1''"

definition context_read_plan_schema_id :: string where
  "context_read_plan_schema_id = ''cooldis.context.read_plan/1''"

definition debug_thread_export_schema_id :: string where
  "debug_thread_export_schema_id = ''cooldis.debug.thread_export/1''"

subsection \<open>Provenance\<close>

record observation_source_range =
  os_stream_id :: event_stream_id
  os_from_sequence :: event_sequence
  os_to_sequence :: event_sequence

record event_provenance =
  ep_source_streams :: "event_stream_id list"
  ep_source_event_ids :: "event_record_id list"
  ep_source_range :: "observation_source_range option"
  ep_source_ranges :: "observation_source_range list"
  ep_discharged_by :: "string option"
  ep_function :: "string option"
  ep_config_hash :: "string option"

definition provenance_default :: event_provenance where
  "provenance_default = \<lparr>ep_source_streams = [], ep_source_event_ids = [], ep_source_range = None,
     ep_source_ranges = [], ep_discharged_by = None, ep_function = None, ep_config_hash = None\<rparr>"

definition provenance_is_empty :: "event_provenance \<Rightarrow> bool" where
  "provenance_is_empty p \<longleftrightarrow> ep_source_streams p = [] \<and> ep_source_event_ids p = [] \<and>
     ep_source_range p = None \<and> ep_source_ranges p = [] \<and> ep_discharged_by p = None \<and>
     ep_function p = None \<and> ep_config_hash p = None"

lemma provenance_is_empty_iff: "provenance_is_empty p \<longleftrightarrow> p = provenance_default"
  by (cases p) (auto simp: provenance_is_empty_def provenance_default_def)

subsection \<open>Records\<close>

record new_event_record =
  ne_id :: event_record_id
  ne_coordinates :: thread_coordinates
  ne_created_at_ms :: i64
  ne_kind :: event_kind
  ne_origin :: event_origin
  ne_provenance :: event_provenance
  ne_payload :: json

definition event_witnessed ::
  "stamp \<Rightarrow> thread_coordinates \<Rightarrow> event_kind \<Rightarrow> json \<Rightarrow> new_event_record" where
  [record_defs]: "event_witnessed st coordinates kind payload =
     \<lparr>ne_id = EventRecordId (fst st), ne_coordinates = coordinates, ne_created_at_ms = snd st,
      ne_kind = kind, ne_origin = Witnessed, ne_provenance = provenance_default,
      ne_payload = payload\<rparr>"

definition event_discharged ::
  "stamp \<Rightarrow> thread_coordinates \<Rightarrow> event_kind \<Rightarrow> json \<Rightarrow> event_provenance \<Rightarrow> new_event_record" where
  [record_defs]: "event_discharged st coordinates kind payload provenance =
     \<lparr>ne_id = EventRecordId (fst st), ne_coordinates = coordinates, ne_created_at_ms = snd st,
      ne_kind = kind, ne_origin = Discharged, ne_provenance = provenance,
      ne_payload = payload\<rparr>"

record event_record =
  ev_id :: event_record_id
  ev_stream_id :: event_stream_id
  ev_sequence :: event_sequence
  ev_coordinates :: thread_coordinates
  ev_created_at_ms :: i64
  ev_kind :: event_kind
  ev_origin :: event_origin
  ev_provenance :: event_provenance
  ev_payload :: json

definition event_from_new ::
  "event_stream_id \<Rightarrow> event_sequence \<Rightarrow> new_event_record \<Rightarrow> event_record" where
  [record_defs]: "event_from_new stream_id sequence record =
     \<lparr>ev_id = ne_id record, ev_stream_id = stream_id, ev_sequence = sequence,
      ev_coordinates = ne_coordinates record, ev_created_at_ms = ne_created_at_ms record,
      ev_kind = ne_kind record, ev_origin = ne_origin record,
      ev_provenance = ne_provenance record, ev_payload = ne_payload record\<rparr>"

definition validate_new_event :: "new_event_record \<Rightarrow> unit history_result" where
  "validate_new_event record =
     (if ne_origin record = Discharged \<and> provenance_is_empty (ne_provenance record)
      then Inl (DischargedWithoutProvenance (ne_id record))
      else Inr ())"

subsection \<open>The stream envelope\<close>

record stream_record_envelope =
  se_schema :: string
  se_event_id :: event_record_id
  se_stream_id :: event_stream_id
  se_sequence :: event_sequence
  se_coordinates :: thread_coordinates
  se_created_at_ms :: i64
  se_kind :: string
  se_origin :: event_origin
  se_payload_schema :: string
  se_trace_context :: "json option"
  se_provenance :: event_provenance
  se_payload :: json

definition to_stream_record_v1 :: "event_record \<Rightarrow> stream_record_envelope" where
  [record_defs]: "to_stream_record_v1 e =
     \<lparr>se_schema = stream_record_schema_id, se_event_id = ev_id e, se_stream_id = ev_stream_id e,
      se_sequence = ev_sequence e, se_coordinates = ev_coordinates e,
      se_created_at_ms = ev_created_at_ms e, se_kind = event_kind_str (ev_kind e),
      se_origin = ev_origin e, se_payload_schema = payload_schema_id (ev_kind e),
      se_trace_context = None, se_provenance = ev_provenance e, se_payload = ev_payload e\<rparr>"

definition json_of_source_range :: "observation_source_range \<Rightarrow> json" where
  "json_of_source_range r = jobj
     (field ''stream_id'' (json_of_stream_id (os_stream_id r)) @
      field ''from_sequence'' (json_of_sequence (os_from_sequence r)) @
      field ''to_sequence'' (json_of_sequence (os_to_sequence r)))"

definition json_of_provenance :: "(uuid \<Rightarrow> string) \<Rightarrow> event_provenance \<Rightarrow> json" where
  "json_of_provenance show_uuid p = jobj
     (vec_field ''source_streams'' json_of_stream_id (ep_source_streams p) @
      vec_field ''source_event_ids'' (json_of_event_id show_uuid) (ep_source_event_ids p) @
      opt_field ''source_range'' json_of_source_range (ep_source_range p) @
      vec_field ''source_ranges'' json_of_source_range (ep_source_ranges p) @
      opt_field ''discharged_by'' JString (ep_discharged_by p) @
      opt_field ''function'' JString (ep_function p) @
      opt_field ''config_hash'' JString (ep_config_hash p))"

definition json_of_envelope :: "(uuid \<Rightarrow> string) \<Rightarrow> stream_record_envelope \<Rightarrow> json" where
  "json_of_envelope show_uuid e = jobj
     (field ''schema'' (JString (se_schema e)) @
      field ''event_id'' (json_of_event_id show_uuid (se_event_id e)) @
      field ''stream_id'' (json_of_stream_id (se_stream_id e)) @
      field ''sequence'' (json_of_sequence (se_sequence e)) @
      field ''coordinates'' (json_of_coordinates show_uuid (se_coordinates e)) @
      field ''created_at_ms'' (json_of_i64 (se_created_at_ms e)) @
      field ''kind'' (JString (se_kind e)) @
      field ''origin'' (JString (event_origin_str (se_origin e))) @
      field ''payload_schema'' (JString (se_payload_schema e)) @
      opt_field ''trace_context'' (\<lambda>v. v) (se_trace_context e) @
      field ''provenance'' (json_of_provenance show_uuid (se_provenance e)) @
      field ''payload'' (se_payload e))"

subsection \<open>Routing\<close>

definition event_kind_routes_to_model_trace :: "event_kind \<Rightarrow> bool" where
  "event_kind_routes_to_model_trace kind \<longleftrightarrow> kind \<in>
     {ContextCompileCompleted, ToolUniverseDiscoveryCompleted, ToolUniverseCallCompleted,
      ToolCallRequested, ToolCallSuspended, ToolCallDecision, ToolCallCompleted, TurnSubmitted,
      TurnCompleted, TurnFailed}"

definition event_kind_routes_to_runtime_trace :: "event_kind \<Rightarrow> bool" where
  "event_kind_routes_to_runtime_trace kind \<longleftrightarrow> kind \<in>
     {ContextSummaryCompleted, ContextReadPlanSet, ManifestCompileCompleted,
      ManifestBindCompleted, TurnWaiting, TurnResumed, ApprovalRequested, ApprovalResolved,
      MandateStarted, MandateRevoked, TurnContinueRequested, TurnContinuationAccepted,
      TurnContinuationRejected, LoopCompleted, LoopBlocked, LoopBudgetExhausted, LoopDenied,
      CouplingRunCompleted, CouplingRunFailed, PlacementDecision, ThreadSpawned, ThreadJoined,
      ThreadBranchSelected, ThreadReloadDegraded, PolicyBound, GrantPetitioned, TimerFired,
      IoIngressReceived, IoIngressClaimed, IoIngressSettled, IoEgressRequested,
      IoEgressDelivered, IoEgressFailed, AdmissionDecided}"

definition event_kind_routes_to_analytics :: "event_kind \<Rightarrow> bool" where
  "event_kind_routes_to_analytics kind \<longleftrightarrow> kind \<in>
     {ToolUniverseCallCompleted, ToolCallCompleted, TurnCompleted, LoopCompleted, LoopBlocked,
      LoopBudgetExhausted, LoopDenied, CouplingRunCompleted, CouplingRunFailed}"

definition stream_id_routes_to_browser_projection :: "event_stream_id \<Rightarrow> bool" where
  "stream_id_routes_to_browser_projection s \<longleftrightarrow>
     starts_with (stream_id_str s) ''thread:'' \<or> starts_with (stream_id_str s) ''control:'' \<or>
     starts_with (stream_id_str s) ''derived:''"

definition trace_id_from_context :: "json option \<Rightarrow> string option" where
  "trace_id_from_context trace_context =
     Option.bind (Option.bind trace_context (\<lambda>v. json_get v ''trace_id'')) as_str"

record stream_routing_keys =
  rk_schema :: string
  rk_stream_id :: event_stream_id
  rk_tenant_id :: string
  rk_user_id :: string
  rk_session_id :: string
  rk_thread_id :: thread_id
  rk_kind :: string
  rk_origin :: event_origin
  rk_payload_schema :: string
  rk_trace_id :: "string option"
  rk_discharged_by :: "string option"

record stream_routing_decision =
  rt_schema :: string
  rt_event_id :: event_record_id
  rt_stream_id :: event_stream_id
  rt_sequence :: event_sequence
  rt_kind :: string
  rt_routes :: "stream_route_profile list"
  rt_keys :: stream_routing_keys

definition is_some_and :: "'a option \<Rightarrow> ('a \<Rightarrow> bool) \<Rightarrow> bool" where
  "is_some_and m p = (case m of None \<Rightarrow> False | Some x \<Rightarrow> p x)"

definition envelope_route_decision_v1 :: "stream_record_envelope \<Rightarrow> stream_routing_decision" where
  "envelope_route_decision_v1 e =
     (let kind = event_kind_parse (se_kind e);
          routes = [AuthorityStore, ExportBundle] @
            (if is_some_and kind event_kind_routes_to_model_trace then [ModelTrace] else []) @
            (if is_some_and kind event_kind_routes_to_runtime_trace then [RuntimeTrace] else []) @
            (if stream_id_routes_to_browser_projection (se_stream_id e)
             then [BrowserSafeProjection] else []) @
            (if is_some_and kind event_kind_routes_to_analytics then [AnalyticsAggregate] else [])
      in \<lparr>rt_schema = stream_routing_decision_schema_id, rt_event_id = se_event_id e,
          rt_stream_id = se_stream_id e, rt_sequence = se_sequence e, rt_kind = se_kind e,
          rt_routes = routes,
          rt_keys = \<lparr>rk_schema = se_schema e, rk_stream_id = se_stream_id e,
            rk_tenant_id = tc_tenant_id (se_coordinates e),
            rk_user_id = tc_user_id (se_coordinates e),
            rk_session_id = tc_session_id (se_coordinates e),
            rk_thread_id = tc_thread_id (se_coordinates e), rk_kind = se_kind e,
            rk_origin = se_origin e, rk_payload_schema = se_payload_schema e,
            rk_trace_id = trace_id_from_context (se_trace_context e),
            rk_discharged_by = ep_discharged_by (se_provenance e)\<rparr>\<rparr>)"

definition route_decision_v1 :: "event_record \<Rightarrow> stream_routing_decision" where
  "route_decision_v1 e = envelope_route_decision_v1 (to_stream_record_v1 e)"

definition json_of_routing_keys :: "(uuid \<Rightarrow> string) \<Rightarrow> stream_routing_keys \<Rightarrow> json" where
  "json_of_routing_keys show_uuid k = jobj
     (field ''schema'' (JString (rk_schema k)) @
      field ''stream_id'' (json_of_stream_id (rk_stream_id k)) @
      field ''tenant_id'' (JString (rk_tenant_id k)) @
      field ''user_id'' (JString (rk_user_id k)) @
      field ''session_id'' (JString (rk_session_id k)) @
      field ''thread_id'' (json_of_thread_id show_uuid (rk_thread_id k)) @
      field ''kind'' (JString (rk_kind k)) @
      field ''origin'' (JString (event_origin_str (rk_origin k))) @
      field ''payload_schema'' (JString (rk_payload_schema k)) @
      opt_field ''trace_id'' JString (rk_trace_id k) @
      opt_field ''discharged_by'' JString (rk_discharged_by k))"

definition json_of_routing_decision :: "(uuid \<Rightarrow> string) \<Rightarrow> stream_routing_decision \<Rightarrow> json" where
  "json_of_routing_decision show_uuid d = jobj
     (field ''schema'' (JString (rt_schema d)) @
      field ''event_id'' (json_of_event_id show_uuid (rt_event_id d)) @
      field ''stream_id'' (json_of_stream_id (rt_stream_id d)) @
      field ''sequence'' (json_of_sequence (rt_sequence d)) @
      field ''kind'' (JString (rt_kind d)) @
      field ''routes''
        (JArray (map (\<lambda>r. JString (stream_route_profile_str r)) (rt_routes d))) @
      field ''keys'' (json_of_routing_keys show_uuid (rt_keys d)))"

subsection \<open>Backend capabilities\<close>

record stream_backend_capabilities =
  bc_schema :: string
  bc_backend_kind :: stream_backend_kind
  bc_storage_scope :: stream_storage_scope
  bc_ack_classes :: "stream_ack_class list"
  bc_supports_atomic_batch_append :: bool
  bc_supports_verified_cursor_replay :: bool
  bc_supports_query_projection :: bool
  bc_supports_expected_tail :: bool
  bc_supports_fencing_tokens :: bool
  bc_supports_live_follow :: bool
  bc_supports_broadcast :: bool
  bc_supports_cold_archive :: bool
  bc_local_path :: "string option"

definition capabilities_sqlite_local :: "string \<Rightarrow> stream_backend_capabilities" where
  "capabilities_sqlite_local local_path =
     \<lparr>bc_schema = stream_backend_capabilities_schema_id, bc_backend_kind = BackendSqlite,
      bc_storage_scope = LocalEmbedded, bc_ack_classes = [LocalCommitted, QueryProjected],
      bc_supports_atomic_batch_append = True, bc_supports_verified_cursor_replay = True,
      bc_supports_query_projection = True, bc_supports_expected_tail = True,
      bc_supports_fencing_tokens = False, bc_supports_live_follow = False,
      bc_supports_broadcast = False, bc_supports_cold_archive = False,
      bc_local_path = Some local_path\<rparr>"

fun stream_backend_kind_str :: "stream_backend_kind \<Rightarrow> string" where
  "stream_backend_kind_str BackendSqlite = ''sqlite''"

definition json_of_capabilities :: "stream_backend_capabilities \<Rightarrow> json" where
  "json_of_capabilities c = jobj
     (field ''schema'' (JString (bc_schema c)) @
      field ''backend_kind'' (JString (stream_backend_kind_str (bc_backend_kind c))) @
      field ''storage_scope'' (JString (stream_storage_scope_str (bc_storage_scope c))) @
      field ''ack_classes''
        (JArray (map (\<lambda>a. JString (stream_ack_class_str a)) (bc_ack_classes c))) @
      field ''supports_atomic_batch_append'' (JBool (bc_supports_atomic_batch_append c)) @
      field ''supports_verified_cursor_replay'' (JBool (bc_supports_verified_cursor_replay c)) @
      field ''supports_query_projection'' (JBool (bc_supports_query_projection c)) @
      field ''supports_expected_tail'' (JBool (bc_supports_expected_tail c)) @
      field ''supports_fencing_tokens'' (JBool (bc_supports_fencing_tokens c)) @
      field ''supports_live_follow'' (JBool (bc_supports_live_follow c)) @
      field ''supports_broadcast'' (JBool (bc_supports_broadcast c)) @
      field ''supports_cold_archive'' (JBool (bc_supports_cold_archive c)) @
      opt_field ''local_path'' JString (bc_local_path c))"

subsection \<open>Append acknowledgements\<close>

record stream_append_ack =
  aa_schema :: string
  aa_stream_id :: event_stream_id
  aa_start_sequence :: event_sequence
  aa_end_sequence :: event_sequence
  aa_tail_sequence :: event_sequence
  aa_tail_event_id :: event_record_id
  aa_acks :: "stream_ack_class list"

definition check_ack_event ::
  "event_stream_id \<Rightarrow> event_record \<Rightarrow> nat \<times> event_record \<Rightarrow> unit history_result" where
  "check_ack_event stream_id first = (\<lambda>(index, event).
     if ev_stream_id event \<noteq> stream_id
     then Inl (Codec (AckEventOfOtherStream (ev_id event) (ev_stream_id event) stream_id))
     else let expected = sequence_get (ev_sequence first) + int index in
       if sequence_get (ev_sequence event) \<noteq> expected
       then Inl (Codec (AckNotContiguous expected (sequence_get (ev_sequence event))))
       else Inr ())"

definition ack_from_appended ::
  "event_stream_id \<Rightarrow> event_record list \<Rightarrow> stream_ack_class list \<Rightarrow>
   stream_append_ack history_result" where
  "ack_from_appended stream_id appended acks =
     (case appended of
        [] \<Rightarrow> Inl (Codec (CodecText ''append ack requires at least one event''))
      | first # _ \<Rightarrow>
          if acks = [] then
            Inl (Codec (CodecText ''append ack requires at least one ack class''))
          else and_then
            (for_each (check_ack_event stream_id first) (List.enumerate 0 appended))
            (\<lambda>_. Inr \<lparr>aa_schema = stream_append_ack_schema_id, aa_stream_id = stream_id,
               aa_start_sequence = ev_sequence first,
               aa_end_sequence = ev_sequence (last appended),
               aa_tail_sequence = ev_sequence (last appended),
               aa_tail_event_id = ev_id (last appended), aa_acks = acks\<rparr>))"

definition ack_sqlite_local ::
  "event_stream_id \<Rightarrow> event_record list \<Rightarrow> stream_append_ack history_result" where
  "ack_sqlite_local stream_id appended =
     ack_from_appended stream_id appended [LocalCommitted, QueryProjected]"

definition json_of_append_ack :: "(uuid \<Rightarrow> string) \<Rightarrow> stream_append_ack \<Rightarrow> json" where
  "json_of_append_ack show_uuid a = jobj
     (field ''schema'' (JString (aa_schema a)) @
      field ''stream_id'' (json_of_stream_id (aa_stream_id a)) @
      field ''start_sequence'' (json_of_sequence (aa_start_sequence a)) @
      field ''end_sequence'' (json_of_sequence (aa_end_sequence a)) @
      field ''tail_sequence'' (json_of_sequence (aa_tail_sequence a)) @
      field ''tail_event_id'' (json_of_event_id show_uuid (aa_tail_event_id a)) @
      field ''acks'' (JArray (map (\<lambda>c. JString (stream_ack_class_str c)) (aa_acks a))))"

text \<open>A batch as a store appends it: consecutive sequence numbers on one stream.\<close>

definition contiguous_from :: "event_stream_id \<Rightarrow> i64 \<Rightarrow> event_record list \<Rightarrow> bool" where
  "contiguous_from stream_id n es \<longleftrightarrow>
     (\<forall>i < length es. ev_stream_id (es ! i) = stream_id \<and>
        sequence_get (ev_sequence (es ! i)) = n + int i)"

lemma contiguous_from_Nil [simp]: "contiguous_from s n []"
  by (simp add: contiguous_from_def)

lemma contiguous_from_append:
  "contiguous_from s n (xs @ ys) \<longleftrightarrow>
   contiguous_from s n xs \<and> contiguous_from s (n + int (length xs)) ys"
proof
  assume l: "contiguous_from s n (xs @ ys)"
  then have "contiguous_from s n xs"
    unfolding contiguous_from_def by (metis length_append nth_append trans_less_add1)
  moreover have "contiguous_from s (n + int (length xs)) ys"
    unfolding contiguous_from_def
  proof (intro allI impI)
    fix i assume "i < length ys"
    with l show "ev_stream_id (ys ! i) = s \<and>
        sequence_get (ev_sequence (ys ! i)) = n + int (length xs) + int i"
      unfolding contiguous_from_def by (auto dest!: spec [of _ "length xs + i"])
  qed
  ultimately show "contiguous_from s n xs \<and> contiguous_from s (n + int (length xs)) ys" ..
next
  assume "contiguous_from s n xs \<and> contiguous_from s (n + int (length xs)) ys"
  then show "contiguous_from s n (xs @ ys)"
    unfolding contiguous_from_def by (auto simp: nth_append algebra_simps)
qed

lemma contiguous_from_Cons:
  "contiguous_from s n (x # xs) \<longleftrightarrow> ev_stream_id x = s \<and> sequence_get (ev_sequence x) = n \<and>
     contiguous_from s (n + 1) xs"
  using contiguous_from_append [of s n "[x]" xs] by (simp add: contiguous_from_def)

lemma check_ack_event_ok:
  "check_ack_event s first (i, e) = Inr () \<longleftrightarrow>
   ev_stream_id e = s \<and> sequence_get (ev_sequence e) = sequence_get (ev_sequence first) + int i"
  by (auto simp: check_ack_event_def Let_def)

lemma ack_checks_ok:
  "for_each (check_ack_event s first) (List.enumerate 0 es) = Inr () \<longleftrightarrow>
   contiguous_from s (sequence_get (ev_sequence first)) es"
  by (simp add: for_each_ok ball_enumerate check_ack_event_ok contiguous_from_def)

subsection \<open>Replay cursors\<close>

record stream_cursor =
  cu_schema :: string
  cu_stream_id :: event_stream_id
  cu_sequence :: event_sequence
  cu_event_id :: event_record_id

definition cursor_new ::
  "event_stream_id \<Rightarrow> event_sequence \<Rightarrow> event_record_id \<Rightarrow> stream_cursor" where
  [record_defs]: "cursor_new stream_id sequence event_id =
     \<lparr>cu_schema = stream_cursor_schema_id, cu_stream_id = stream_id, cu_sequence = sequence,
      cu_event_id = event_id\<rparr>"

definition cursor_from_event :: "event_record \<Rightarrow> stream_cursor" where
  [record_defs]: "cursor_from_event e = cursor_new (ev_stream_id e) (ev_sequence e) (ev_id e)"

definition json_of_cursor :: "(uuid \<Rightarrow> string) \<Rightarrow> stream_cursor \<Rightarrow> json" where
  "json_of_cursor show_uuid c = jobj
     (field ''schema'' (JString (cu_schema c)) @
      field ''stream_id'' (json_of_stream_id (cu_stream_id c)) @
      field ''sequence'' (json_of_sequence (cu_sequence c)) @
      field ''event_id'' (json_of_event_id show_uuid (cu_event_id c)))"

subsection \<open>Observations\<close>

record observation_provenance =
  op_source_streams :: "event_stream_id list"
  op_source_event_ids :: "event_record_id list"
  op_source_range :: "observation_source_range option"
  op_source_ranges :: "observation_source_range list"
  op_derivation_strategy :: string
  op_derivation_version :: string

definition observation_provenance_default :: observation_provenance where
  "observation_provenance_default = \<lparr>op_source_streams = [], op_source_event_ids = [],
     op_source_range = None, op_source_ranges = [], op_derivation_strategy = [],
     op_derivation_version = []\<rparr>"

record new_observation_record =
  no_id :: observation_id
  no_kind :: string
  no_scope :: thread_coordinates
  no_payload :: json
  no_created_at_ms :: i64
  no_provenance :: observation_provenance
  no_supersedes :: "observation_id option"
  no_confidence :: "f64 option"

definition observation_new ::
  "stamp \<Rightarrow> string \<Rightarrow> thread_coordinates \<Rightarrow> json \<Rightarrow> new_observation_record" where
  [record_defs]: "observation_new st kind coordinates payload =
     \<lparr>no_id = ObservationId (fst st), no_kind = kind, no_scope = coordinates, no_payload = payload,
      no_created_at_ms = snd st, no_provenance = observation_provenance_default,
      no_supersedes = None, no_confidence = None\<rparr>"

definition observation_with_provenance ::
  "observation_provenance \<Rightarrow> new_observation_record \<Rightarrow> new_observation_record" where
  "observation_with_provenance p r = r\<lparr>no_provenance := p\<rparr>"

record observation_record =
  ob_id :: observation_id
  ob_kind :: string
  ob_scope :: thread_coordinates
  ob_payload :: json
  ob_created_at_ms :: i64
  ob_provenance :: observation_provenance
  ob_supersedes :: "observation_id option"
  ob_confidence :: "f64 option"

definition observation_from_new :: "new_observation_record \<Rightarrow> observation_record" where
  [record_defs]: "observation_from_new r =
     \<lparr>ob_id = no_id r, ob_kind = no_kind r, ob_scope = no_scope r, ob_payload = no_payload r,
      ob_created_at_ms = no_created_at_ms r, ob_provenance = no_provenance r,
      ob_supersedes = no_supersedes r, ob_confidence = no_confidence r\<rparr>"

subsection \<open>What acknowledgements and routes guarantee\<close>

text \<open>
  An append acknowledgement exists exactly for a non-empty batch of contiguous events of the
  stream acknowledged, with at least one acknowledgement class; it then spans exactly that batch:
  its start is the first event's sequence number, its end and its tail are the last event's, and
  the span has as many numbers as the batch has events.
\<close>

theorem append_ack_iff_contiguous:
  "ack_from_appended stream_id appended acks = Inr ack \<longleftrightarrow>
     appended \<noteq> [] \<and> acks \<noteq> [] \<and>
     contiguous_from stream_id (sequence_get (ev_sequence (hd appended))) appended \<and>
     aa_schema ack = stream_append_ack_schema_id \<and> aa_stream_id ack = stream_id \<and>
     aa_start_sequence ack = ev_sequence (hd appended) \<and>
     aa_tail_event_id ack = ev_id (last appended) \<and>
     aa_tail_sequence ack = aa_end_sequence ack \<and>
     sequence_get (aa_end_sequence ack) =
       sequence_get (aa_start_sequence ack) + int (length appended) - 1 \<and>
     aa_acks ack = acks"
proof (cases appended)
  case Nil
  then show ?thesis by (simp add: ack_from_appended_def)
next
  case (Cons first rest)
  have last: "sequence_get (ev_sequence (last appended)) =
      sequence_get (ev_sequence first) + int (length appended) - 1"
    if "contiguous_from stream_id (sequence_get (ev_sequence first)) appended"
  proof -
    have "appended \<noteq> []" using Cons by simp
    moreover have "sequence_get (ev_sequence (appended ! (length appended - 1))) =
        sequence_get (ev_sequence first) + int (length appended - 1)"
      using that Cons unfolding contiguous_from_def by simp
    ultimately show ?thesis by (simp add: last_conv_nth Suc_leI of_nat_diff)
  qed
  have "ack_from_appended stream_id appended acks = Inr ack \<longleftrightarrow>
      acks \<noteq> [] \<and> contiguous_from stream_id (sequence_get (ev_sequence first)) appended \<and>
      ack = \<lparr>aa_schema = stream_append_ack_schema_id, aa_stream_id = stream_id,
        aa_start_sequence = ev_sequence first, aa_end_sequence = ev_sequence (last appended),
        aa_tail_sequence = ev_sequence (last appended),
        aa_tail_event_id = ev_id (last appended), aa_acks = acks\<rparr>"
    using Cons ack_checks_ok [of stream_id first appended]
    by (auto simp: ack_from_appended_def and_then_eq_Inr)
  then show ?thesis
    using Cons last by (cases ack) (auto simp flip: sequence_get_inject)
qed

text \<open>
  Routing is total and fail-safe: every record goes to the authority store and to the export
  bundle, no destination twice; a record reaches the analytics aggregate only if it also reaches
  a trace; model and runtime traces are disjoint; and a record on a thread's own stream reaches
  the browser projection.
\<close>

theorem routing_covers_and_separates:
  "let routes = rt_routes (route_decision_v1 e) in
     AuthorityStore \<in> set routes \<and> ExportBundle \<in> set routes \<and> distinct routes \<and>
     \<not> (ModelTrace \<in> set routes \<and> RuntimeTrace \<in> set routes) \<and>
     (AnalyticsAggregate \<in> set routes \<longrightarrow> ModelTrace \<in> set routes \<or> RuntimeTrace \<in> set routes) \<and>
     (ev_stream_id e = stream_for_thread show_uuid c \<longrightarrow> BrowserSafeProjection \<in> set routes)"
proof -
  have disjoint: "\<not> (event_kind_routes_to_model_trace k \<and> event_kind_routes_to_runtime_trace k)" for k
    by (cases k) (simp_all add: event_kind_routes_to_model_trace_def
        event_kind_routes_to_runtime_trace_def)
  have analytics: "event_kind_routes_to_analytics k \<Longrightarrow>
      event_kind_routes_to_model_trace k \<or> event_kind_routes_to_runtime_trace k" for k
    by (cases k) (simp_all add: event_kind_routes_to_model_trace_def
        event_kind_routes_to_runtime_trace_def event_kind_routes_to_analytics_def)
  have thread: "stream_id_routes_to_browser_projection (stream_for_thread show_uuid c)"
    by (simp add: stream_id_routes_to_browser_projection_def stream_for_thread_def
        starts_with_append del: append.simps)
  show ?thesis
    using disjoint [of "ev_kind e"] analytics [of "ev_kind e"] thread
    by (auto simp: route_decision_v1_def envelope_route_decision_v1_def to_stream_record_v1_def
        is_some_and_def Let_def)
qed

text \<open>A concrete event, used by the examples of several theories.\<close>

definition sample_coordinates :: thread_coordinates where
  "sample_coordinates = \<lparr>tc_tenant_id = ''t'', tc_user_id = ''u'', tc_session_id = ''s'',
     tc_thread_id = ThreadId 7\<rparr>"

definition sample_event :: event_record where
  "sample_event = \<lparr>ev_id = EventRecordId 1, ev_stream_id = EventStreamId ''thread:7'',
     ev_sequence = EventSequence 1, ev_coordinates = sample_coordinates, ev_created_at_ms = 5,
     ev_kind = TurnCompleted, ev_origin = Witnessed, ev_provenance = provenance_default,
     ev_payload = JObject []\<rparr>"

theorem routing_covers_and_separates_witness:
  "BrowserSafeProjection \<in> set (rt_routes (route_decision_v1 sample_event)) \<and>
   AuthorityStore \<in> set (rt_routes (route_decision_v1 sample_event))"
proof -
  have "ev_stream_id sample_event = stream_for_thread (\<lambda>_. ''7'') sample_coordinates"
    by (simp add: sample_event_def stream_for_thread_def sample_coordinates_def)
  then show ?thesis
    using routing_covers_and_separates [of sample_event "\<lambda>_. ''7''" sample_coordinates]
    unfolding Let_def by blast
qed

end
