(* ===== verification/Control_Decision.thy ===== *)
theory Control_Decision
  imports Event_Record
begin

section \<open>Decisions read off the control stream\<close>

text \<open>
  \<^verbatim>\<open>src/crates/verlet-kernel/src/kernel/control_decision.rs\<close>: whether a tool call may run, whether
  a turn may be continued and where an invocation is placed are not asked of a component; they are
  derived from the facts on the thread's control stream.  The decisions fail closed: a fact that
  does not decode but reaches the request by provenance, or two facts that compete, deny.

  The stores these functions read are represented by their \<open>read_events\<close> (argument \<open>read\<close>).
  Decoding a payload (\<open>serde_json::from_value\<close>) is a parameter: a \<open>control_codec\<close> holds one decoder
  per payload type, whose errors are the rendered messages.  \<open>rfc3339\<close> stands for the \<open>chrono\<close>
  rendering of an instant, \<open>None\<close> for one outside its range.
\<close>

named_theorems control_defs \<open>definitions of the decisions\<close>

subsection \<open>Facts\<close>

record tool_call_subject =
  su_turn_id :: string
  su_call_id :: string

record tool_call_requested_payload =
  rq_subject :: tool_call_subject
  rq_snapshot_id :: string
  rq_tool_name :: string
  rq_arguments :: json
  rq_attach_event_id :: "event_record_id option"
  rq_args_fingerprint :: "string option"
  rq_holds :: "json list"

datatype tool_call_decision_outcome = OutcomeAllow | OutcomeRewrite json | OutcomeDeny string

record tool_call_decision_payload =
  dp_subject :: tool_call_subject
  dp_snapshot_id :: string
  dp_outcome :: tool_call_decision_outcome
  dp_admissible :: "string list option"

record tool_call_suspended_payload =
  sp_subject :: tool_call_subject
  sp_snapshot_id :: string
  sp_approval_id :: "string option"
  sp_reason :: "string option"

datatype tool_call_cancellation = CancelledAcknowledged | CancelledExceededGrace

record tool_call_completed_payload =
  cp_subject :: tool_call_subject
  cp_snapshot_id :: string
  cp_tool_name :: string
  cp_success :: bool
  cp_args_fingerprint :: "string option"
  cp_duration_ms :: "u64 option"
  cp_finish_order :: "u64 option"
  cp_cancellation :: "tool_call_cancellation option"

definition tool_invocation_fingerprint_matches ::
  "string \<Rightarrow> string option \<Rightarrow> string \<Rightarrow> string option \<Rightarrow> bool" where
  "tool_invocation_fingerprint_matches recorded_snapshot_id recorded_fingerprint
     current_snapshot_id current_fingerprint \<longleftrightarrow>
     recorded_snapshot_id = current_snapshot_id \<and> recorded_fingerprint = current_fingerprint"

record mandate_subject =
  ms_thread_id :: "string option"
  ms_loop_id :: "string option"

datatype mandate_schedule = Cron string string | Interval u64 | At string

datatype mandate_catch_up_policy = CoalesceMissed | SkipMissed

definition catch_up_default :: mandate_catch_up_policy where
  "catch_up_default = SkipMissed"

record mandate_started_payload =
  mp_subject :: mandate_subject
  mp_mandate_id :: string
  mp_snapshot_id :: string
  mp_thread_id :: "string option"
  mp_max_continuations :: "u32 option"
  mp_expires_at_ms :: "i64 option"
  mp_schedule :: "mandate_schedule option"
  mp_max_occurrences :: "u32 option"
  mp_catch_up :: "mandate_catch_up_policy option"
  mp_input_template :: "string option"

record mandate_revoked_payload =
  mr_subject :: mandate_subject
  mr_mandate_id :: string
  mr_mandate_event_id :: "string option"
  mr_snapshot_id :: string
  mr_reason :: "string option"

record turn_continuation_subject =
  cs_loop_id :: string
  cs_parent_turn_id :: string

record turn_continue_requested_payload =
  cr_subject :: turn_continuation_subject
  cr_snapshot_id :: string
  cr_next_turn_input :: string

record turn_continuation_accepted_payload =
  ca_subject :: turn_continuation_subject
  ca_snapshot_id :: string
  ca_mandate_id :: string
  ca_next_turn_id :: string
  ca_admissible :: "string list option"

record turn_continuation_rejected_payload =
  cj_subject :: turn_continuation_subject
  cj_snapshot_id :: string
  cj_reason :: string
  cj_admissible :: "string list option"

datatype placement_target = PlaceLocal | PlaceRemote | PlaceSandbox

record placement_subject =
  pb_invocation_id :: string

record placement_decision_payload =
  pl_subject :: placement_subject
  pl_snapshot_id :: string
  pl_placement :: placement_target

record control_codec =
  dec_tool_requested :: "json \<Rightarrow> string + tool_call_requested_payload"
  dec_tool_decision :: "json \<Rightarrow> string + tool_call_decision_payload"
  dec_tool_suspended :: "json \<Rightarrow> string + tool_call_suspended_payload"
  dec_tool_completed :: "json \<Rightarrow> string + tool_call_completed_payload"
  dec_mandate_started :: "json \<Rightarrow> string + mandate_started_payload"
  dec_mandate_revoked :: "json \<Rightarrow> string + mandate_revoked_payload"
  dec_continue_requested :: "json \<Rightarrow> string + turn_continue_requested_payload"
  dec_continuation_accepted :: "json \<Rightarrow> string + turn_continuation_accepted_payload"
  dec_continuation_rejected :: "json \<Rightarrow> string + turn_continuation_rejected_payload"
  dec_placement :: "json \<Rightarrow> string + placement_decision_payload"

text \<open>
  Errors of the kernel.  \<open>StoreError e\<close> is \<open>VerletError::History(e.to_string())\<close>; the other
  constructors carry the rendered message.
\<close>

datatype verlet_error =
    StoreError history_error
  | HistoryMessage string
  | RuntimeExecution string
  | RuntimeFactory string

type_synonym 'a verlet_result = "verlet_error + 'a"

definition history_err :: "'a history_result \<Rightarrow> 'a verlet_result" where
  "history_err r = (case r of Inl e \<Rightarrow> Inl (StoreError e) | Inr a \<Rightarrow> Inr a)"

lemma history_err_simps [simp]:
  "history_err (Inl e) = Inl (StoreError e)" "history_err (Inr a) = Inr a"
  by (simp_all add: history_err_def)

type_synonym event_reader =
  "event_stream_id \<Rightarrow> event_sequence option \<Rightarrow> event_record list history_result"

definition control_stream_id :: "(uuid \<Rightarrow> string) \<Rightarrow> thread_coordinates \<Rightarrow> event_stream_id" where
  "control_stream_id show_uuid coordinates =
     EventStreamId (''control:'' @ show_thread_id show_uuid (tc_thread_id coordinates))"

subsection \<open>Which facts count\<close>

definition provenance_reaches_event :: "event_record \<Rightarrow> event_record_id \<Rightarrow> bool" where
  "provenance_reaches_event event request_event_id \<longleftrightarrow>
     request_event_id \<in> set (ep_source_event_ids (ev_provenance event))"

definition fresh_control_event :: "event_record \<Rightarrow> event_record_id \<Rightarrow> bool" where
  "fresh_control_event event request_event_id =
     (case ev_origin event of
        Witnessed \<Rightarrow> True
      | Discharged \<Rightarrow> provenance_reaches_event event request_event_id)"

subsection \<open>Tool calls\<close>

record tool_decision_request =
  tr_coordinates :: thread_coordinates
  tr_subject :: tool_call_subject
  tr_snapshot_id :: string
  tr_request_event_id :: event_record_id

datatype tool_call_decision =
    NoDecision
  | Allow event_record_id
  | Rewrite event_record_id json
  | Deny "event_record_id option" string bool
  | Wait event_record_id "string option" "string option"

fun consumed_fact_id :: "tool_call_decision \<Rightarrow> event_record_id option" where
  "consumed_fact_id NoDecision = None"
| "consumed_fact_id (Allow e) = Some e"
| "consumed_fact_id (Rewrite e _) = Some e"
| "consumed_fact_id (Wait e _ _) = Some e"
| "consumed_fact_id (Deny e _ _) = e"

definition fresh_control_fact :: "event_record \<Rightarrow> tool_decision_request \<Rightarrow> bool" where
  "fresh_control_fact event request = fresh_control_event event (tr_request_event_id request)"

definition provenance_reaches_request :: "event_record \<Rightarrow> tool_decision_request \<Rightarrow> bool" where
  "provenance_reaches_request event request =
     provenance_reaches_event event (tr_request_event_id request)"

definition tool_decision_from_payload ::
  "event_record_id \<Rightarrow> tool_call_decision_payload \<Rightarrow> tool_call_decision" where
  "tool_decision_from_payload consumed payload =
     (case dp_outcome payload of
        OutcomeAllow \<Rightarrow> Allow consumed
      | OutcomeRewrite arguments \<Rightarrow> Rewrite consumed arguments
      | OutcomeDeny reason \<Rightarrow> Deny (Some consumed) reason False)"

text \<open>
  The loop over the control events.  \<open>Inl\<close> is the early return, \<open>Inr\<close> the two lists of candidates.
\<close>

fun scan_tool_facts ::
  "control_codec \<Rightarrow> tool_decision_request \<Rightarrow> event_record list \<Rightarrow>
   tool_call_decision list \<times> tool_call_decision list \<Rightarrow>
   tool_call_decision + (tool_call_decision list \<times> tool_call_decision list)" where
  "scan_tool_facts codec request [] (terminal, waits) = Inr (terminal, waits)"
| "scan_tool_facts codec request (event # events) (terminal, waits) =
     (if ev_kind event = ToolCallDecision then
        (case dec_tool_decision codec (ev_payload event) of
           Inl err \<Rightarrow>
             if provenance_reaches_request event request
             then Inl (Deny (Some (ev_id event)) (''malformed tool.call.decision fact: '' @ err) True)
             else scan_tool_facts codec request events (terminal, waits)
         | Inr payload \<Rightarrow>
             if dp_subject payload \<noteq> tr_subject request \<or> dp_snapshot_id payload \<noteq> tr_snapshot_id request
             then scan_tool_facts codec request events (terminal, waits)
             else if \<not> fresh_control_fact event request
             then scan_tool_facts codec request events (terminal, waits)
             else scan_tool_facts codec request events
                    (terminal @ [tool_decision_from_payload (ev_id event) payload], waits))
      else if ev_kind event = ToolCallSuspended then
        (case dec_tool_suspended codec (ev_payload event) of
           Inl err \<Rightarrow>
             if provenance_reaches_request event request
             then Inl (Deny (Some (ev_id event)) (''malformed tool.call.suspended fact: '' @ err) True)
             else scan_tool_facts codec request events (terminal, waits)
         | Inr payload \<Rightarrow>
             if sp_subject payload \<noteq> tr_subject request \<or> sp_snapshot_id payload \<noteq> tr_snapshot_id request
             then scan_tool_facts codec request events (terminal, waits)
             else if \<not> fresh_control_fact event request
             then scan_tool_facts codec request events (terminal, waits)
             else scan_tool_facts codec request events
                    (terminal, waits @ [Wait (ev_id event) (sp_approval_id payload) (sp_reason payload)]))
      else scan_tool_facts codec request events (terminal, waits))"

definition choose_tool_decision ::
  "tool_call_decision list \<Rightarrow> tool_call_decision list \<Rightarrow> tool_call_decision" where
  "choose_tool_decision terminal waits =
     (case terminal of
        [d] \<Rightarrow> d
      | _ # _ \<Rightarrow> Deny None ''conflicting terminal tool control facts'' True
      | [] \<Rightarrow>
          (case waits of
             [] \<Rightarrow> NoDecision
           | [w] \<Rightarrow> w
           | _ \<Rightarrow> Deny None ''conflicting tool suspension facts'' True))"

definition decide_tool_facts ::
  "control_codec \<Rightarrow> tool_decision_request \<Rightarrow> event_record list \<Rightarrow> tool_call_decision" where
  "decide_tool_facts codec request events =
     (case scan_tool_facts codec request events ([], []) of
        Inl denied \<Rightarrow> denied
      | Inr (terminal, waits) \<Rightarrow> choose_tool_decision terminal waits)"

definition decide_tool_call ::
  "(uuid \<Rightarrow> string) \<Rightarrow> control_codec \<Rightarrow> event_reader \<Rightarrow> tool_decision_request \<Rightarrow>
   tool_call_decision verlet_result" where
  "decide_tool_call show_uuid codec read request =
     and_then (history_err (read (control_stream_id show_uuid (tr_coordinates request)) None))
       (\<lambda>events. Inr (decide_tool_facts codec request events))"

subsection \<open>Turn continuations\<close>

record turn_continuation_decision_request =
  tq_coordinates :: thread_coordinates
  tq_subject :: turn_continuation_subject
  tq_snapshot_id :: string
  tq_request_event_id :: event_record_id
  tq_now_ms :: i64
  tq_completed_continuations :: u32

datatype turn_continuation_decision =
    NoRequest
  | Accept event_record_id string string
  | Reject "event_record_id option" string bool

definition show_int :: "int \<Rightarrow> string" where
  "show_int i = (if i < 0 then ''-'' @ show_nat (nat (- i)) else show_nat (nat i))"

fun scan_continue_requests ::
  "control_codec \<Rightarrow> turn_continuation_decision_request \<Rightarrow> event_record list \<Rightarrow>
   (event_record_id \<times> turn_continue_requested_payload) list \<Rightarrow>
   turn_continuation_decision + (event_record_id \<times> turn_continue_requested_payload) list" where
  "scan_continue_requests codec request [] candidates = Inr candidates"
| "scan_continue_requests codec request (event # events) candidates =
     (if ev_kind event \<noteq> TurnContinueRequested
      then scan_continue_requests codec request events candidates
      else case dec_continue_requested codec (ev_payload event) of
          Inl err \<Rightarrow>
            if provenance_reaches_event event (tq_request_event_id request)
            then Inl (Reject (Some (ev_id event))
                   (''malformed turn.continue.requested fact: '' @ err) True)
            else scan_continue_requests codec request events candidates
        | Inr payload \<Rightarrow>
            if cr_subject payload \<noteq> tq_subject request \<or> cr_snapshot_id payload \<noteq> tq_snapshot_id request
            then scan_continue_requests codec request events candidates
            else if \<not> fresh_control_event event (tq_request_event_id request)
            then scan_continue_requests codec request events candidates
            else scan_continue_requests codec request events (candidates @ [(ev_id event, payload)]))"

definition mandate_applies_to ::
  "(uuid \<Rightarrow> string) \<Rightarrow> thread_coordinates \<Rightarrow> mandate_started_payload \<Rightarrow> bool" where
  "mandate_applies_to show_uuid coordinates payload =
     (case (case ms_thread_id (mp_subject payload) of
              Some t \<Rightarrow> Some t | None \<Rightarrow> mp_thread_id payload) of
        Some thread_id \<Rightarrow> thread_id = show_thread_id show_uuid (tc_thread_id coordinates)
      | None \<Rightarrow> True)"

fun matching_mandates ::
  "(uuid \<Rightarrow> string) \<Rightarrow> control_codec \<Rightarrow> turn_continuation_decision_request \<Rightarrow> event_record list \<Rightarrow>
   (i64 \<times> mandate_started_payload) list verlet_result" where
  "matching_mandates show_uuid codec request [] = Inr []"
| "matching_mandates show_uuid codec request (event # events) =
     (if ev_kind event \<noteq> MandateStarted \<or> ev_origin event \<noteq> Witnessed
      then matching_mandates show_uuid codec request events
      else case dec_mandate_started codec (ev_payload event) of
          Inl err \<Rightarrow> Inl (HistoryMessage (''mandate.started payload is invalid: '' @ err))
        | Inr payload \<Rightarrow>
            and_then (matching_mandates show_uuid codec request events) (\<lambda>matching.
              Inr ((if ms_loop_id (mp_subject payload) = Some (cs_loop_id (tq_subject request)) \<and>
                       mp_snapshot_id payload = tq_snapshot_id request \<and>
                       mandate_applies_to show_uuid (tq_coordinates request) payload
                    then [(sequence_get (ev_sequence event), payload)] else []) @ matching)))"

definition latest_matching_mandate ::
  "(uuid \<Rightarrow> string) \<Rightarrow> control_codec \<Rightarrow> event_record list \<Rightarrow> turn_continuation_decision_request \<Rightarrow>
   mandate_started_payload option verlet_result" where
  "latest_matching_mandate show_uuid codec events request =
     and_then (matching_mandates show_uuid codec request events)
       (\<lambda>matching. Inr (map_option snd (max_by_key fst matching)))"

fun mandate_rejection_reason ::
  "control_codec \<Rightarrow> event_record list \<Rightarrow> turn_continuation_decision_request \<Rightarrow>
   mandate_started_payload \<Rightarrow> string option verlet_result" where
  "mandate_rejection_reason codec [] request mandate = Inr None"
| "mandate_rejection_reason codec (event # events) request mandate =
     (if ev_kind event \<noteq> MandateRevoked \<or> ev_origin event \<noteq> Witnessed
      then mandate_rejection_reason codec events request mandate
      else case dec_mandate_revoked codec (ev_payload event) of
          Inl err \<Rightarrow> Inl (HistoryMessage (''mandate.revoked payload is invalid: '' @ err))
        | Inr payload \<Rightarrow>
            if ms_loop_id (mr_subject payload) = Some (cs_loop_id (tq_subject request)) \<and>
               mr_snapshot_id payload = tq_snapshot_id request \<and>
               mr_mandate_id payload = mp_mandate_id mandate
            then Inr (Some (case mr_reason payload of
                     Some reason \<Rightarrow> reason | None \<Rightarrow> ''continuation mandate revoked''))
            else mandate_rejection_reason codec events request mandate)"

definition expiry_reason :: "(i64 \<Rightarrow> string option) \<Rightarrow> i64 \<Rightarrow> string" where
  "expiry_reason rfc3339 expires_at_ms =
     (case rfc3339 expires_at_ms of
        Some expires_at \<Rightarrow>
          ''continuation mandate expired at '' @ show_int expires_at_ms @ '' ('' @ expires_at @ '')''
      | None \<Rightarrow> ''continuation mandate expired at '' @ show_int expires_at_ms)"

definition decide_turn_continuation ::
  "(uuid \<Rightarrow> string) \<Rightarrow> (i64 \<Rightarrow> string option) \<Rightarrow> control_codec \<Rightarrow> event_reader \<Rightarrow>
   turn_continuation_decision_request \<Rightarrow> turn_continuation_decision verlet_result" where
  "decide_turn_continuation show_uuid rfc3339 codec read request =
     and_then (history_err (read (control_stream_id show_uuid (tq_coordinates request)) None))
       (\<lambda>control_events.
     case scan_continue_requests codec request control_events [] of
       Inl rejected \<Rightarrow> Inr rejected
     | Inr [] \<Rightarrow> Inr NoRequest
     | Inr (_ # _ # _) \<Rightarrow> Inr (Reject None ''conflicting turn.continue.requested facts'' True)
     | Inr [(consumed_request_id, continuation)] \<Rightarrow>
         and_then (latest_matching_mandate show_uuid codec control_events request) (\<lambda>found.
         case found of
           None \<Rightarrow> Inr (Reject (Some consumed_request_id) ''continuation has no active mandate'' False)
         | Some mandate \<Rightarrow>
             and_then (mandate_rejection_reason codec control_events request mandate) (\<lambda>rejection.
             case rejection of
               Some reason \<Rightarrow> Inr (Reject (Some consumed_request_id) reason False)
             | None \<Rightarrow>
                 if is_some_and (mp_max_continuations mandate)
                      (\<lambda>max. tq_completed_continuations request \<ge> max)
                 then Inr (Reject (Some consumed_request_id)
                        ''continuation mandate budget exhausted'' False)
                 else if is_some_and (mp_expires_at_ms mandate)
                      (\<lambda>expires_at_ms. tq_now_ms request > expires_at_ms)
                 then Inr (Reject (Some consumed_request_id)
                        (expiry_reason rfc3339 (the (mp_expires_at_ms mandate))) False)
                 else Inr (Accept consumed_request_id (mp_mandate_id mandate)
                        (cr_next_turn_input continuation)))))"

subsection \<open>Placement\<close>

record placement_decision_request =
  pq_coordinates :: thread_coordinates
  pq_subject :: placement_subject
  pq_snapshot_id :: string
  pq_request_event_id :: event_record_id
  pq_default_target :: placement_target
  pq_allowed_targets :: "placement_target set"

datatype placement_decision =
    DefaultPlacement placement_target
  | SelectedPlacement event_record_id placement_target
  | DenyPlacement "event_record_id option" string bool

fun placement_debug :: "placement_target \<Rightarrow> string" where
  "placement_debug PlaceLocal = ''Local''"
| "placement_debug PlaceRemote = ''Remote''"
| "placement_debug PlaceSandbox = ''Sandbox''"

fun scan_placements ::
  "control_codec \<Rightarrow> placement_decision_request \<Rightarrow> event_record list \<Rightarrow>
   (event_record_id \<times> placement_decision_payload) list \<Rightarrow>
   placement_decision + (event_record_id \<times> placement_decision_payload) list" where
  "scan_placements codec request [] candidates = Inr candidates"
| "scan_placements codec request (event # events) candidates =
     (if ev_kind event \<noteq> PlacementDecision
      then scan_placements codec request events candidates
      else case dec_placement codec (ev_payload event) of
          Inl err \<Rightarrow>
            if provenance_reaches_event event (pq_request_event_id request)
            then Inl (DenyPlacement (Some (ev_id event))
                   (''malformed placement.decision fact: '' @ err) True)
            else scan_placements codec request events candidates
        | Inr payload \<Rightarrow>
            if pl_subject payload \<noteq> pq_subject request \<or>
               pl_snapshot_id payload \<noteq> pq_snapshot_id request
            then scan_placements codec request events candidates
            else if \<not> fresh_control_event event (pq_request_event_id request)
            then scan_placements codec request events candidates
            else scan_placements codec request events (candidates @ [(ev_id event, payload)]))"

definition decide_placement ::
  "(uuid \<Rightarrow> string) \<Rightarrow> control_codec \<Rightarrow> event_reader \<Rightarrow> placement_decision_request \<Rightarrow>
   placement_decision verlet_result" where
  "decide_placement show_uuid codec read request =
     and_then (history_err (read (control_stream_id show_uuid (pq_coordinates request)) None))
       (\<lambda>control_events.
     case scan_placements codec request control_events [] of
       Inl denied \<Rightarrow> Inr denied
     | Inr [] \<Rightarrow> Inr (DefaultPlacement (pq_default_target request))
     | Inr (_ # _ # _) \<Rightarrow> Inr (DenyPlacement None ''conflicting placement.decision facts'' True)
     | Inr [(placed_id, payload)] \<Rightarrow>
         if pl_placement payload \<notin> pq_allowed_targets request
         then Inr (DenyPlacement (Some placed_id)
                (''placement '' @ placement_debug (pl_placement payload) @
                 '' is not allowed for this invocation'') True)
         else Inr (SelectedPlacement placed_id (pl_placement payload)))"

subsection \<open>Suspended tool calls\<close>

record pending_tool_call_suspension =
  ps_suspended_event_id :: event_record_id
  ps_subject :: tool_call_subject
  ps_snapshot_id :: string
  ps_request_event_id :: "event_record_id option"
  ps_approval_id :: "string option"
  ps_reason :: "string option"

text \<open>\<open>serde_json::from_value(..).map_err(..)\<close> of the facts of one kind, in stream order.\<close>

definition decode_fact :: "string \<Rightarrow> (json \<Rightarrow> string + 'a) \<Rightarrow> event_record \<Rightarrow> 'a verlet_result" where
  "decode_fact label dec event =
     (case dec (ev_payload event) of
        Inl err \<Rightarrow> Inl (HistoryMessage (label @ '' payload is invalid: '' @ err))
      | Inr payload \<Rightarrow> Inr payload)"

definition suspended_request ::
  "(uuid \<Rightarrow> string) \<Rightarrow> control_codec \<Rightarrow> event_record list \<Rightarrow> event_record_id option \<Rightarrow>
   tool_call_requested_payload option verlet_result" where
  "suspended_request show_uuid codec thread_events request_event_id =
     (case request_event_id of
        None \<Rightarrow> Inr None
      | Some i \<Rightarrow>
          (case find (\<lambda>event. ev_id event = i \<and> ev_kind event = ToolCallRequested) thread_events of
             None \<Rightarrow> Inr None
           | Some request_event \<Rightarrow>
               (case dec_tool_requested codec (ev_payload request_event) of
                  Inl err \<Rightarrow> Inl (HistoryMessage (''tool.call.requested receipt '' @
                      show_event_id show_uuid (ev_id request_event) @ '' for thread '' @
                      show_thread_id show_uuid (tc_thread_id (ev_coordinates request_event)) @
                      '' is invalid: '' @ err))
                | Inr payload \<Rightarrow> Inr (Some payload))))"

definition suspension_completed ::
  "tool_call_completed_payload list \<Rightarrow> tool_call_suspended_payload \<Rightarrow>
   tool_call_requested_payload option \<Rightarrow> bool" where
  "suspension_completed completions payload request =
     (case request of
        Some request \<Rightarrow>
          (\<exists>completion \<in> set completions. cp_subject completion = rq_subject request \<and>
             cp_snapshot_id completion = rq_snapshot_id request \<and>
             cp_args_fingerprint completion = rq_args_fingerprint request)
      | None \<Rightarrow>
          (\<exists>completion \<in> set completions. cp_subject completion = sp_subject payload \<and>
             cp_snapshot_id completion = sp_snapshot_id payload))"

definition pending_suspension ::
  "(uuid \<Rightarrow> string) \<Rightarrow> control_codec \<Rightarrow> event_record list \<Rightarrow>
   (tool_call_subject \<times> string) set \<Rightarrow> tool_call_completed_payload list \<Rightarrow> event_record \<Rightarrow>
   pending_tool_call_suspension list verlet_result" where
  "pending_suspension show_uuid codec thread_events terminal_subjects completions event =
     and_then (decode_fact ''tool.call.suspended'' (dec_tool_suspended codec) event) (\<lambda>payload.
     let request_event_id = (case ep_source_event_ids (ev_provenance event) of
           [] \<Rightarrow> None | i # _ \<Rightarrow> Some i) in
     and_then (suspended_request show_uuid codec thread_events request_event_id) (\<lambda>request.
     if suspension_completed completions payload request \<or>
        (sp_subject payload, sp_snapshot_id payload) \<in> terminal_subjects
     then Inr []
     else Inr [\<lparr>ps_suspended_event_id = ev_id event, ps_subject = sp_subject payload,
            ps_snapshot_id = sp_snapshot_id payload, ps_request_event_id = request_event_id,
            ps_approval_id = sp_approval_id payload, ps_reason = sp_reason payload\<rparr>]))"

definition list_pending_tool_call_suspensions ::
  "(uuid \<Rightarrow> string) \<Rightarrow> control_codec \<Rightarrow> event_reader \<Rightarrow> thread_coordinates \<Rightarrow>
   pending_tool_call_suspension list verlet_result" where
  "list_pending_tool_call_suspensions show_uuid codec read coordinates =
     and_then (history_err (read (control_stream_id show_uuid coordinates) None)) (\<lambda>control_events.
     and_then (history_err (read (stream_for_thread show_uuid coordinates) None)) (\<lambda>thread_events.
     and_then (collect_results (decode_fact ''tool.call.decision'' (dec_tool_decision codec))
         (filter (\<lambda>event. ev_kind event = ToolCallDecision) control_events)) (\<lambda>decisions.
     let terminal_subjects = (\<lambda>payload. (dp_subject payload, dp_snapshot_id payload)) ` set decisions in
     and_then (collect_results (decode_fact ''tool.call.completed'' (dec_tool_completed codec))
         (filter (\<lambda>event. ev_kind event = ToolCallCompleted) thread_events)) (\<lambda>completions.
     and_then (collect_results
         (pending_suspension show_uuid codec thread_events terminal_subjects completions)
         (filter (\<lambda>event. ev_kind event = ToolCallSuspended) control_events)) (\<lambda>pending.
     Inr (sort_key (\<lambda>p. show_event_id show_uuid (ps_suspended_event_id p)) (concat pending)))))))"

subsection \<open>Scanning for facts\<close>

text \<open>
  The three decisions scan the control stream in the same way: a fact may stop the scan, and
  otherwise may add to what has been collected.  The locale states that shape once; its lemma turns
  a scan into the first stopping fact, or the collection of all candidates.
\<close>

locale fact_scan =
  fixes scan :: "event_record list \<Rightarrow> 'acc \<Rightarrow> 'd + 'acc"
    and stop :: "event_record \<Rightarrow> 'd option"
    and collect :: "event_record \<Rightarrow> 'acc \<Rightarrow> 'acc"
  assumes scan_Nil: "scan [] acc = Inr acc"
    and scan_Cons: "scan (e # es) acc =
      (case stop e of Some d \<Rightarrow> Inl d | None \<Rightarrow> scan es (collect e acc))"
begin

lemma scan_eq:
  "scan es acc =
   (case List.map_filter stop es of d # _ \<Rightarrow> Inl d | [] \<Rightarrow> Inr (fold collect es acc))"
  by (induction es arbitrary: acc)
    (simp_all add: scan_Nil scan_Cons map_filter_simps split: option.split list.split)

lemma scan_complete: "scan es acc = Inr r \<longleftrightarrow> (\<forall>e \<in> set es. stop e = None) \<and> r = fold collect es acc"
  by (induction es arbitrary: acc) (auto simp: scan_Nil scan_Cons split: option.split)

lemma scan_stops: "scan es acc = Inl d \<Longrightarrow> \<exists>e \<in> set es. stop e = Some d"
  by (induction es arbitrary: acc) (auto simp: scan_Nil scan_Cons split: option.splits)

end

subsubsection \<open>Tool calls\<close>

definition malformed_tool_fact ::
  "control_codec \<Rightarrow> tool_decision_request \<Rightarrow> event_record \<Rightarrow> tool_call_decision option" where
  "malformed_tool_fact codec request event =
     (if \<not> provenance_reaches_request event request then None
      else if ev_kind event = ToolCallDecision
      then case dec_tool_decision codec (ev_payload event) of
          Inl err \<Rightarrow> Some (Deny (Some (ev_id event)) (''malformed tool.call.decision fact: '' @ err) True)
        | Inr _ \<Rightarrow> None
      else if ev_kind event = ToolCallSuspended
      then case dec_tool_suspended codec (ev_payload event) of
          Inl err \<Rightarrow> Some (Deny (Some (ev_id event)) (''malformed tool.call.suspended fact: '' @ err) True)
        | Inr _ \<Rightarrow> None
      else None)"

definition tool_fact ::
  "control_codec \<Rightarrow> tool_decision_request \<Rightarrow> event_record \<Rightarrow> tool_call_decision_payload option" where
  "tool_fact codec request event =
     (if ev_kind event = ToolCallDecision \<and> fresh_control_fact event request
      then case dec_tool_decision codec (ev_payload event) of
          Inl _ \<Rightarrow> None
        | Inr p \<Rightarrow> if dp_subject p = tr_subject request \<and> dp_snapshot_id p = tr_snapshot_id request
                  then Some p else None
      else None)"

definition suspension_fact ::
  "control_codec \<Rightarrow> tool_decision_request \<Rightarrow> event_record \<Rightarrow> tool_call_suspended_payload option" where
  "suspension_fact codec request event =
     (if ev_kind event = ToolCallSuspended \<and> fresh_control_fact event request
      then case dec_tool_suspended codec (ev_payload event) of
          Inl _ \<Rightarrow> None
        | Inr p \<Rightarrow> if sp_subject p = tr_subject request \<and> sp_snapshot_id p = tr_snapshot_id request
                  then Some p else None
      else None)"

definition collect_tool_fact where
  "collect_tool_fact codec request event = (\<lambda>(terminal, waits).
     (case tool_fact codec request event of
        Some p \<Rightarrow> (terminal @ [tool_decision_from_payload (ev_id event) p], waits)
      | None \<Rightarrow>
          (case suspension_fact codec request event of
             Some p \<Rightarrow> (terminal, waits @ [Wait (ev_id event) (sp_approval_id p) (sp_reason p)])
           | None \<Rightarrow> (terminal, waits))))"

interpretation tool_scan: fact_scan "scan_tool_facts codec request"
    "malformed_tool_fact codec request" "collect_tool_fact codec request" for codec request
proof unfold_locales
  show "scan_tool_facts codec request [] acc = Inr acc" for acc by (cases acc) simp
  show "scan_tool_facts codec request (e # es) acc =
      (case malformed_tool_fact codec request e of Some d \<Rightarrow> Inl d
       | None \<Rightarrow> scan_tool_facts codec request es (collect_tool_fact codec request e acc))" for e es acc
    by (cases acc) (simp add: malformed_tool_fact_def collect_tool_fact_def tool_fact_def
        suspension_fact_def fresh_control_fact_def split: sum.split)
qed

lemma collect_tool_fact_pair:
  "collect_tool_fact codec request event (terminal, waits) =
   (case tool_fact codec request event of
      Some p \<Rightarrow> (terminal @ [tool_decision_from_payload (ev_id event) p], waits)
    | None \<Rightarrow>
        (case suspension_fact codec request event of
           Some p \<Rightarrow> (terminal, waits @ [Wait (ev_id event) (sp_approval_id p) (sp_reason p)])
         | None \<Rightarrow> (terminal, waits)))"
  by (simp add: collect_tool_fact_def)

lemma fold_tool_facts:
  "fold (collect_tool_fact codec request) es (terminal, waits) =
   (terminal @ List.map_filter (\<lambda>e. map_option (tool_decision_from_payload (ev_id e))
      (tool_fact codec request e)) es,
    waits @ List.map_filter (\<lambda>e. map_option (\<lambda>p. Wait (ev_id e) (sp_approval_id p) (sp_reason p))
      (suspension_fact codec request e)) es)"
proof (induction es arbitrary: terminal waits)
  case Nil
  then show ?case by (simp add: map_filter_simps)
next
  case (Cons e es)
  have "tool_fact codec request e = Some p \<Longrightarrow> suspension_fact codec request e = None" for p
    by (auto simp: tool_fact_def suspension_fact_def split: if_splits)
  then show ?case
    by (auto simp: Cons map_filter_simps collect_tool_fact_pair split: option.splits)
qed

fun permits :: "tool_call_decision \<Rightarrow> bool" where
  "permits (Allow _) = True"
| "permits (Rewrite _ _) = True"
| "permits _ = False"

fun outcome_permits :: "tool_call_decision_outcome \<Rightarrow> bool" where
  "outcome_permits (OutcomeDeny _) = False"
| "outcome_permits _ = True"

lemma map_filter_single:
  "List.map_filter f xs = [y] \<longleftrightarrow> (\<exists>x. filter (\<lambda>x. f x \<noteq> None) xs = [x] \<and> f x = Some y)"
proof (induction xs)
  case (Cons x xs)
  have empty: "List.map_filter f xs = [] \<longleftrightarrow> filter (\<lambda>x. f x \<noteq> None) xs = []"
    by (induction xs) (auto simp: map_filter_simps split: option.splits)
  show ?case using Cons empty by (auto simp: map_filter_simps split: option.splits)
qed (simp add: map_filter_simps)

lemma choose_permits:
  assumes "\<forall>w \<in> set waits. \<not> permits w"
  shows "permits (choose_tool_decision terminal waits) \<longleftrightarrow> (\<exists>d. terminal = [d] \<and> permits d)"
  using assms by (auto simp: choose_tool_decision_def split: list.splits)

lemma malformed_denies: "malformed_tool_fact codec request e = Some d \<Longrightarrow> \<not> permits d"
  by (auto simp: malformed_tool_fact_def split: if_splits sum.splits)

text \<open>
  C38. A tool call runs only on exactly one valid decision.  \<open>decide_tool_call\<close> permits a call
  (allowing it or rewriting its arguments) exactly when no undecodable control fact reaches the
  request by its provenance, and exactly one decision fact for the same call and snapshot is
  fresh (witnessed, or discharged from this very request), and that fact does not deny.  Two
  competing decisions never permit, whatever they say.
\<close>

theorem tool_call_permitted_iff:
  assumes "read (control_stream_id show_uuid (tr_coordinates request)) None = Inr events"
  shows "\<exists>d. decide_tool_call show_uuid codec read request = Inr d \<and>
    (permits d \<longleftrightarrow>
       (\<forall>e \<in> set events. malformed_tool_fact codec request e = None) \<and>
       (\<exists>e p. filter (\<lambda>e. tool_fact codec request e \<noteq> None) events = [e] \<and>
          tool_fact codec request e = Some p \<and> outcome_permits (dp_outcome p)))"
proof -
  define d where "d = decide_tool_facts codec request events"
  let ?terminal = "List.map_filter (\<lambda>e. map_option (tool_decision_from_payload (ev_id e))
      (tool_fact codec request e)) events"
  let ?waits = "List.map_filter (\<lambda>e. map_option (\<lambda>p. Wait (ev_id e) (sp_approval_id p) (sp_reason p))
      (suspension_fact codec request e)) events"
  have waits: "\<forall>w \<in> set ?waits. \<not> permits w" by (auto simp: map_filter_def)
  have outcome: "permits (tool_decision_from_payload i p) \<longleftrightarrow> outcome_permits (dp_outcome p)" for i p
    by (cases "dp_outcome p") (simp_all add: tool_decision_from_payload_def)
  have "permits d \<longleftrightarrow> (\<forall>e \<in> set events. malformed_tool_fact codec request e = None) \<and>
      (\<exists>d. ?terminal = [d] \<and> permits d)"
  proof (cases "scan_tool_facts codec request events ([], [])")
    case (Inl x)
    with tool_scan.scan_stops [OF Inl] show ?thesis
      by (auto simp: d_def decide_tool_facts_def dest: malformed_denies)
  next
    case (Inr r)
    then have "\<forall>e \<in> set events. malformed_tool_fact codec request e = None" "r = (?terminal, ?waits)"
      unfolding tool_scan.scan_complete by (simp_all add: fold_tool_facts)
    with Inr choose_permits [OF waits] show ?thesis by (simp add: d_def decide_tool_facts_def)
  qed
  also have "(\<exists>d. ?terminal = [d] \<and> permits d) \<longleftrightarrow>
      (\<exists>e p. filter (\<lambda>e. tool_fact codec request e \<noteq> None) events = [e] \<and>
          tool_fact codec request e = Some p \<and> outcome_permits (dp_outcome p))"
    unfolding map_filter_single using outcome by fastforce
  finally have "permits d \<longleftrightarrow> (\<forall>e \<in> set events. malformed_tool_fact codec request e = None) \<and>
      (\<exists>e p. filter (\<lambda>e. tool_fact codec request e \<noteq> None) events = [e] \<and>
          tool_fact codec request e = Some p \<and> outcome_permits (dp_outcome p))" .
  moreover have "decide_tool_call show_uuid codec read request = Inr d"
    using assms by (simp add: decide_tool_call_def d_def)
  ultimately show ?thesis by blast
qed

text \<open>
  The scans for continuation requests and for placements collect one list of candidates; for them
  the collection is the list of the candidate facts in stream order.
\<close>

locale candidate_scan =
  fixes scan :: "event_record list \<Rightarrow> 'c list \<Rightarrow> 'd + 'c list"
    and stop :: "event_record \<Rightarrow> 'd option"
    and candidate :: "event_record \<Rightarrow> 'c option"
  assumes candidates_Nil: "scan [] acc = Inr acc"
    and candidates_Cons: "scan (e # es) acc =
      (case stop e of Some d \<Rightarrow> Inl d
       | None \<Rightarrow> scan es (acc @ (case candidate e of Some c \<Rightarrow> [c] | None \<Rightarrow> [])))"
begin

sublocale fact_scan scan stop "\<lambda>e acc. acc @ (case candidate e of Some c \<Rightarrow> [c] | None \<Rightarrow> [])"
  by unfold_locales (simp_all add: candidates_Nil candidates_Cons)

lemma fold_candidates:
  "fold (\<lambda>e acc. acc @ (case candidate e of Some c \<Rightarrow> [c] | None \<Rightarrow> [])) es acc =
   acc @ List.map_filter candidate es"
  by (induction es arbitrary: acc) (simp_all add: map_filter_simps split: option.split)

lemma candidates_complete:
  "scan es [] = Inr cs \<longleftrightarrow> (\<forall>e \<in> set es. stop e = None) \<and> cs = List.map_filter candidate es"
  by (simp add: scan_complete fold_candidates)

lemma single_candidate:
  "scan es [] = Inr [c] \<longleftrightarrow> (\<forall>e \<in> set es. stop e = None) \<and>
     (\<exists>e. filter (\<lambda>e. candidate e \<noteq> None) es = [e] \<and> candidate e = Some c)"
  by (metis candidates_complete map_filter_single)

end

subsubsection \<open>Continuations\<close>

definition malformed_continue ::
  "control_codec \<Rightarrow> turn_continuation_decision_request \<Rightarrow> event_record \<Rightarrow> turn_continuation_decision option" where
  "malformed_continue codec request event =
     (if ev_kind event = TurnContinueRequested \<and> provenance_reaches_event event (tq_request_event_id request)
      then case dec_continue_requested codec (ev_payload event) of
          Inl err \<Rightarrow> Some (Reject (Some (ev_id event)) (''malformed turn.continue.requested fact: '' @ err) True)
        | Inr _ \<Rightarrow> None
      else None)"

definition continue_fact ::
  "control_codec \<Rightarrow> turn_continuation_decision_request \<Rightarrow> event_record \<Rightarrow>
   (event_record_id \<times> turn_continue_requested_payload) option" where
  "continue_fact codec request event =
     (if ev_kind event = TurnContinueRequested \<and> fresh_control_event event (tq_request_event_id request)
      then case dec_continue_requested codec (ev_payload event) of
          Inl _ \<Rightarrow> None
        | Inr p \<Rightarrow> if cr_subject p = tq_subject request \<and> cr_snapshot_id p = tq_snapshot_id request
                  then Some (ev_id event, p) else None
      else None)"

interpretation continue_scan: candidate_scan "scan_continue_requests codec request"
    "malformed_continue codec request" "continue_fact codec request" for codec request
  by unfold_locales
    (simp_all add: malformed_continue_def continue_fact_def split: sum.split)

text \<open>The mandates and the revocations that matter for a request.\<close>

definition mandate_readable :: "control_codec \<Rightarrow> event_record \<Rightarrow> bool" where
  "mandate_readable codec event \<longleftrightarrow>
     ev_kind event = MandateStarted \<and> ev_origin event = Witnessed \<longrightarrow>
     is_ok (dec_mandate_started codec (ev_payload event))"

definition mandate_fact ::
  "(uuid \<Rightarrow> string) \<Rightarrow> control_codec \<Rightarrow> turn_continuation_decision_request \<Rightarrow> event_record \<Rightarrow>
   mandate_started_payload option" where
  "mandate_fact show_uuid codec request event =
     (if ev_kind event = MandateStarted \<and> ev_origin event = Witnessed
      then case dec_mandate_started codec (ev_payload event) of
          Inl _ \<Rightarrow> None
        | Inr p \<Rightarrow> if ms_loop_id (mp_subject p) = Some (cs_loop_id (tq_subject request)) \<and>
                     mp_snapshot_id p = tq_snapshot_id request \<and>
                     mandate_applies_to show_uuid (tq_coordinates request) p
                  then Some p else None
      else None)"

definition spares_mandate ::
  "control_codec \<Rightarrow> turn_continuation_decision_request \<Rightarrow> mandate_started_payload \<Rightarrow> event_record \<Rightarrow> bool" where
  "spares_mandate codec request mandate event \<longleftrightarrow>
     ev_kind event = MandateRevoked \<and> ev_origin event = Witnessed \<longrightarrow>
     (\<exists>p. dec_mandate_revoked codec (ev_payload event) = Inr p \<and>
        \<not> (ms_loop_id (mr_subject p) = Some (cs_loop_id (tq_subject request)) \<and>
           mr_snapshot_id p = tq_snapshot_id request \<and> mr_mandate_id p = mp_mandate_id mandate))"

lemma matching_mandates_ok:
  "matching_mandates show_uuid codec request es = Inr ms \<longleftrightarrow>
     (\<forall>e \<in> set es. mandate_readable codec e) \<and>
     ms = List.map_filter (\<lambda>e. map_option (Pair (sequence_get (ev_sequence e)))
            (mandate_fact show_uuid codec request e)) es"
proof (induction es arbitrary: ms)
  case Nil
  then show ?case by (auto simp: map_filter_simps)
next
  case (Cons e es)
  show ?case
  proof (cases "ev_kind e = MandateStarted \<and> ev_origin e = Witnessed")
    case True
    then show ?thesis
      by (auto simp: Cons map_filter_simps mandate_fact_def mandate_readable_def and_then_eq_Inr
          split: sum.split)
  next
    case False
    then have "mandate_fact show_uuid codec request e = None" "mandate_readable codec e"
      by (auto simp: mandate_fact_def mandate_readable_def)
    with False show ?thesis by (auto simp: Cons map_filter_simps)
  qed
qed

lemma mandate_rejection_none:
  "mandate_rejection_reason codec es request mandate = Inr None \<longleftrightarrow>
     (\<forall>e \<in> set es. spares_mandate codec request mandate e)"
  by (induction es) (auto simp: spares_mandate_def split: sum.splits)

lemma latest_matching_mandate_iff:
  assumes "distinct (map ev_sequence es)"
  shows "latest_matching_mandate show_uuid codec es request = Inr (Some mandate) \<longleftrightarrow>
    (\<forall>e \<in> set es. mandate_readable codec e) \<and>
    (\<exists>e \<in> set es. mandate_fact show_uuid codec request e = Some mandate \<and>
       (\<forall>e' \<in> set es. mandate_fact show_uuid codec request e' \<noteq> None \<longrightarrow>
          sequence_get (ev_sequence e') \<le> sequence_get (ev_sequence e)))"
proof -
  let ?f = "mandate_fact show_uuid codec request"
  define ms where "ms = List.map_filter
    (\<lambda>e. map_option (Pair (sequence_get (ev_sequence e))) (?f e)) es"
  have mem: "(i, m) \<in> set ms \<longleftrightarrow> (\<exists>e \<in> set es. ?f e = Some m \<and> i = sequence_get (ev_sequence e))" for i m
    by (auto simp: ms_def map_filter_def image_iff)
  have same: "e = e'" if "e \<in> set es" "e' \<in> set es"
      "sequence_get (ev_sequence e) = sequence_get (ev_sequence e')" for e e'
    using that assms by (auto simp: distinct_map dest: inj_onD)
  have inj: "inj_on fst (set ms)"
  proof (rule inj_onI)
    fix p q
    assume pq: "p \<in> set ms" "q \<in> set ms" "fst p = fst q"
    obtain i m where p: "p = (i, m)" by (cases p)
    obtain n where q: "q = (i, n)" using pq p by (cases q) simp
    from pq(1,2) p q mem same show "p = q" by fastforce
  qed
  have bound: "(\<forall>q \<in> set ms. fst q \<le> i) \<longleftrightarrow>
      (\<forall>e' \<in> set es. ?f e' \<noteq> None \<longrightarrow> sequence_get (ev_sequence e') \<le> i)" for i
  proof -
    have "(\<forall>q \<in> set ms. fst q \<le> i) \<longleftrightarrow> (\<forall>j m. (j, m) \<in> set ms \<longrightarrow> j \<le> i)" by auto
    then show ?thesis unfolding mem by auto
  qed
  have "map_option snd (max_by_key fst ms) = Some mandate \<longleftrightarrow>
      (\<exists>i. (i, mandate) \<in> set ms \<and> (\<forall>q \<in> set ms. fst q \<le> i))"
    by (auto simp: max_by_key_iff [OF inj])
  also have "\<dots> \<longleftrightarrow> (\<exists>e \<in> set es. ?f e = Some mandate \<and>
       (\<forall>e' \<in> set es. ?f e' \<noteq> None \<longrightarrow> sequence_get (ev_sequence e') \<le> sequence_get (ev_sequence e)))"
    unfolding bound mem by blast
  finally show ?thesis
    by (auto simp: latest_matching_mandate_def and_then_eq_Inr matching_mandates_ok ms_def)
qed

lemma continuation_accepted:
  assumes "read (control_stream_id show_uuid (tq_coordinates request)) None = Inr events"
  shows "decide_turn_continuation show_uuid rfc3339 codec read request = Inr (Accept r m input) \<longleftrightarrow>
    (\<exists>c mandate. scan_continue_requests codec request events [] = Inr [(r, c)] \<and>
       latest_matching_mandate show_uuid codec events request = Inr (Some mandate) \<and>
       mandate_rejection_reason codec events request mandate = Inr None \<and>
       \<not> is_some_and (mp_max_continuations mandate) (\<lambda>max. tq_completed_continuations request \<ge> max) \<and>
       \<not> is_some_and (mp_expires_at_ms mandate) (\<lambda>t. tq_now_ms request > t) \<and>
       m = mp_mandate_id mandate \<and> input = cr_next_turn_input c)"
proof (cases "scan_continue_requests codec request events []")
  case (Inl x)
  from continue_scan.scan_stops [OF Inl] obtain e where
    "malformed_continue codec request e = Some x" by blast
  then have "x \<noteq> Accept r m input"
    by (cases "dec_continue_requested codec (ev_payload e)")
      (auto simp: malformed_continue_def split: if_splits)
  with Inl assms show ?thesis by (simp add: decide_turn_continuation_def)
next
  case (Inr cs)
  consider "cs = []" | i c where "cs = [(i, c)]" | a b cs' where "cs = a # b # cs'"
    by (metis list.exhaust surj_pair)
  then show ?thesis
    by cases (use Inr assms in \<open>auto simp: decide_turn_continuation_def and_then_eq_Inr
      split: option.split\<close>)
qed

text \<open>
  A turn continues only under a live mandate.  On a control stream with its unique sequence
  numbers, \<open>decide_turn_continuation\<close> accepts exactly when: no undecodable request reaches this
  one by provenance and exactly one fresh request for the same subject and snapshot is on the
  stream; every witnessed mandate decodes, and the latest witnessed one for this loop, snapshot and
  thread exists; every witnessed revocation decodes and none names that mandate; its continuation
  budget is not used up and it has not expired.  The decision then carries that request's input and
  that mandate's id.
\<close>

theorem continuation_accepted_iff:
  assumes "read (control_stream_id show_uuid (tq_coordinates request)) None = Inr events"
    and "distinct (map ev_sequence events)"
  shows "decide_turn_continuation show_uuid rfc3339 codec read request = Inr (Accept r m input) \<longleftrightarrow>
    (\<forall>e \<in> set events. malformed_continue codec request e = None \<and> mandate_readable codec e) \<and>
    (\<exists>e c. filter (\<lambda>e. continue_fact codec request e \<noteq> None) events = [e] \<and>
       continue_fact codec request e = Some (r, c) \<and> input = cr_next_turn_input c) \<and>
    (\<exists>em mandate. em \<in> set events \<and> mandate_fact show_uuid codec request em = Some mandate \<and>
       (\<forall>e \<in> set events. mandate_fact show_uuid codec request e \<noteq> None \<longrightarrow>
          sequence_get (ev_sequence e) \<le> sequence_get (ev_sequence em)) \<and>
       (\<forall>e \<in> set events. spares_mandate codec request mandate e) \<and>
       (\<forall>max. mp_max_continuations mandate = Some max \<longrightarrow> tq_completed_continuations request < max) \<and>
       (\<forall>t. mp_expires_at_ms mandate = Some t \<longrightarrow> tq_now_ms request \<le> t) \<and>
       m = mp_mandate_id mandate)"
proof -
  have some: "\<not> is_some_and x P \<longleftrightarrow> (\<forall>a. x = Some a \<longrightarrow> \<not> P a)" for x :: "'a option" and P
    by (cases x) (simp_all add: is_some_and_def)
  show ?thesis
    unfolding continuation_accepted [of read show_uuid request events, OF assms(1)] continue_scan.single_candidate
      latest_matching_mandate_iff [OF assms(2)] mandate_rejection_none some not_le not_less
    by blast
qed

subsubsection \<open>Placement\<close>

definition malformed_placement ::
  "control_codec \<Rightarrow> placement_decision_request \<Rightarrow> event_record \<Rightarrow> placement_decision option" where
  "malformed_placement codec request event =
     (if ev_kind event = PlacementDecision \<and> provenance_reaches_event event (pq_request_event_id request)
      then case dec_placement codec (ev_payload event) of
          Inl err \<Rightarrow> Some (DenyPlacement (Some (ev_id event)) (''malformed placement.decision fact: '' @ err) True)
        | Inr _ \<Rightarrow> None
      else None)"

definition placement_fact ::
  "control_codec \<Rightarrow> placement_decision_request \<Rightarrow> event_record \<Rightarrow>
   (event_record_id \<times> placement_decision_payload) option" where
  "placement_fact codec request event =
     (if ev_kind event = PlacementDecision \<and> fresh_control_event event (pq_request_event_id request)
      then case dec_placement codec (ev_payload event) of
          Inl _ \<Rightarrow> None
        | Inr p \<Rightarrow> if pl_subject p = pq_subject request \<and> pl_snapshot_id p = pq_snapshot_id request
                  then Some (ev_id event, p) else None
      else None)"

interpretation placement_scan: candidate_scan "scan_placements codec request"
    "malformed_placement codec request" "placement_fact codec request" for codec request
  by unfold_locales
    (simp_all add: malformed_placement_def placement_fact_def split: sum.split)

text \<open>The target an invocation runs on, if any.\<close>

fun placed_on :: "placement_decision \<Rightarrow> placement_target option" where
  "placed_on (DefaultPlacement t) = Some t"
| "placed_on (SelectedPlacement _ t) = Some t"
| "placed_on (DenyPlacement _ _ _) = None"

lemma map_filter_Nil: "List.map_filter f xs = [] \<longleftrightarrow> filter (\<lambda>x. f x \<noteq> None) xs = []"
  by (induction xs) (auto simp: map_filter_simps split: option.splits)

text \<open>
  Placement is decided by one fact, within what the invocation allows.  \<open>decide_placement\<close>
  places an invocation on a target exactly when no undecodable placement fact reaches the request
  by provenance and either no fresh placement fact exists and the target is the invocation's
  default, or exactly one exists, it names the target, and the target is allowed.  Every other
  stream denies.
\<close>

theorem placement_target_iff:
  assumes "read (control_stream_id show_uuid (pq_coordinates request)) None = Inr events"
  shows "\<exists>d. decide_placement show_uuid codec read request = Inr d \<and>
    (placed_on d = Some t \<longleftrightarrow>
       (\<forall>e \<in> set events. malformed_placement codec request e = None) \<and>
       (case filter (\<lambda>e. placement_fact codec request e \<noteq> None) events of
          [] \<Rightarrow> t = pq_default_target request
        | [e] \<Rightarrow> (\<exists>i p. placement_fact codec request e = Some (i, p) \<and> t = pl_placement p) \<and>
            t \<in> pq_allowed_targets request
        | _ \<Rightarrow> False))"
proof (cases "scan_placements codec request events []")
  case (Inl x)
  from placement_scan.scan_stops [OF Inl] obtain e where e: "e \<in> set events"
      "malformed_placement codec request e = Some x" by blast
  then have "placed_on x = None"
    by (auto simp: malformed_placement_def split: if_splits sum.splits)
  with Inl assms e show ?thesis by (auto simp: decide_placement_def)
next
  case (Inr cs)
  let ?es = "filter (\<lambda>e. placement_fact codec request e \<noteq> None) events"
  from Inr have ok: "\<forall>e \<in> set events. malformed_placement codec request e = None"
    and cs: "cs = List.map_filter (placement_fact codec request) events"
    unfolding placement_scan.candidates_complete by blast+
  consider "cs = []" | i p where "cs = [(i, p)]" | a b cs' where "cs = a # b # cs'"
    by (metis list.exhaust surj_pair)
  then show ?thesis
  proof cases
    case 1
    then have "?es = []" using cs map_filter_Nil by metis
    with 1 Inr assms ok show ?thesis by (auto simp: decide_placement_def)
  next
    case 2
    then obtain e where "?es = [e]" "placement_fact codec request e = Some (i, p)"
      using cs map_filter_single by metis
    with 2 Inr assms ok show ?thesis by (auto simp: decide_placement_def)
  next
    case 3
    have "length cs = length ?es" by (simp add: cs map_filter_def)
    with 3 have "length ?es = Suc (Suc (length cs'))" by simp
    then obtain x y zs where "?es = x # y # zs" unfolding length_Suc_conv by blast
    with 3 Inr assms ok show ?thesis by (simp add: decide_placement_def)
  qed
qed

subsection \<open>Examples\<close>

definition sample_subject :: tool_call_subject where
  "sample_subject = \<lparr>su_turn_id = ''turn'', su_call_id = ''call''\<rparr>"

definition sample_loop :: turn_continuation_subject where
  "sample_loop = \<lparr>cs_loop_id = ''loop'', cs_parent_turn_id = ''turn''\<rparr>"

definition sample_mandate :: mandate_started_payload where
  "sample_mandate = \<lparr>mp_subject = \<lparr>ms_thread_id = None, ms_loop_id = Some ''loop''\<rparr>,
     mp_mandate_id = ''m'', mp_snapshot_id = ''snap'', mp_thread_id = None,
     mp_max_continuations = Some 3, mp_expires_at_ms = Some 100, mp_schedule = None,
     mp_max_occurrences = None, mp_catch_up = None, mp_input_template = None\<rparr>"

text \<open>A codec that knows one payload of each type.\<close>

definition sample_codec :: control_codec where
  "sample_codec = \<lparr>dec_tool_requested = (\<lambda>_. Inl ''unknown''),
     dec_tool_decision = (\<lambda>_. Inr \<lparr>dp_subject = sample_subject, dp_snapshot_id = ''snap'',
        dp_outcome = OutcomeAllow, dp_admissible = None\<rparr>),
     dec_tool_suspended = (\<lambda>_. Inr \<lparr>sp_subject = sample_subject, sp_snapshot_id = ''snap'',
        sp_approval_id = None, sp_reason = None\<rparr>),
     dec_tool_completed = (\<lambda>_. Inl ''unknown''),
     dec_mandate_started = (\<lambda>_. Inr sample_mandate),
     dec_mandate_revoked = (\<lambda>_. Inr \<lparr>mr_subject = mp_subject sample_mandate,
        mr_mandate_id = ''m'', mr_mandate_event_id = None, mr_snapshot_id = ''snap'', mr_reason = None\<rparr>),
     dec_continue_requested = (\<lambda>_. Inr \<lparr>cr_subject = sample_loop, cr_snapshot_id = ''snap'',
        cr_next_turn_input = ''next''\<rparr>),
     dec_continuation_accepted = (\<lambda>_. Inl ''unknown''),
     dec_continuation_rejected = (\<lambda>_. Inl ''unknown''),
     dec_placement = (\<lambda>_. Inr \<lparr>pl_subject = \<lparr>pb_invocation_id = ''inv''\<rparr>,
        pl_snapshot_id = ''snap'', pl_placement = PlaceSandbox\<rparr>)\<rparr>"

definition sample_fact :: "128 word \<Rightarrow> event_kind \<Rightarrow> i64 \<Rightarrow> event_record" where
  "sample_fact i k n = sample_event \<lparr>ev_id := EventRecordId i, ev_kind := k,
     ev_sequence := EventSequence n\<rparr>"

lemmas sample_control_defs = sample_codec_def sample_fact_def sample_event_def sample_subject_def
  sample_loop_def sample_mandate_def fresh_control_event_def provenance_reaches_event_def

theorem tool_call_permitted_iff_witness:
  "\<exists>d. decide_tool_call (\<lambda>_. ''7'') sample_codec (\<lambda>_ _. Inr [sample_fact 1 ToolCallDecision 1])
     \<lparr>tr_coordinates = sample_coordinates, tr_subject = sample_subject, tr_snapshot_id = ''snap'',
      tr_request_event_id = EventRecordId 9\<rparr> = Inr d \<and> permits d"
proof -
  let ?req = "\<lparr>tr_coordinates = sample_coordinates, tr_subject = sample_subject,
    tr_snapshot_id = ''snap'', tr_request_event_id = EventRecordId 9\<rparr>"
  have "tool_fact sample_codec ?req (sample_fact 1 ToolCallDecision 1) =
      Some \<lparr>dp_subject = sample_subject, dp_snapshot_id = ''snap'', dp_outcome = OutcomeAllow,
        dp_admissible = None\<rparr>"
    by (simp add: tool_fact_def fresh_control_fact_def sample_control_defs)
  moreover have "malformed_tool_fact sample_codec ?req (sample_fact 1 ToolCallDecision 1) = None"
    by (simp add: malformed_tool_fact_def provenance_reaches_request_def sample_control_defs)
  ultimately show ?thesis
    using tool_call_permitted_iff [where read = "\<lambda>_ _. Inr [sample_fact 1 ToolCallDecision 1]"
      and request = ?req and codec = sample_codec and show_uuid = "\<lambda>_. ''7''", OF refl] by auto
qed

theorem continuation_accepted_iff_witness:
  "decide_turn_continuation (\<lambda>_. ''7'') (\<lambda>_. None) sample_codec
     (\<lambda>_ _. Inr [sample_fact 1 MandateStarted 1, sample_fact 2 TurnContinueRequested 2])
     \<lparr>tq_coordinates = sample_coordinates, tq_subject = sample_loop, tq_snapshot_id = ''snap'',
      tq_request_event_id = EventRecordId 9, tq_now_ms = 50, tq_completed_continuations = 2\<rparr> =
   Inr (Accept (EventRecordId 2) ''m'' ''next'')"
proof -
  let ?events = "[sample_fact 1 MandateStarted 1, sample_fact 2 TurnContinueRequested 2]"
  let ?req = "\<lparr>tq_coordinates = sample_coordinates, tq_subject = sample_loop,
    tq_snapshot_id = ''snap'', tq_request_event_id = EventRecordId 9, tq_now_ms = 50,
    tq_completed_continuations = 2\<rparr>"
  have *: "continue_fact sample_codec ?req (sample_fact 1 MandateStarted 1) = None"
    "continue_fact sample_codec ?req (sample_fact 2 TurnContinueRequested 2) =
     Some (EventRecordId 2, \<lparr>cr_subject = sample_loop, cr_snapshot_id = ''snap'',
       cr_next_turn_input = ''next''\<rparr>)"
    by (simp_all add: continue_fact_def sample_control_defs)
  have **: "mandate_fact (\<lambda>_. ''7'') sample_codec ?req (sample_fact 1 MandateStarted 1) = Some sample_mandate"
    "mandate_fact (\<lambda>_. ''7'') sample_codec ?req (sample_fact 2 TurnContinueRequested 2) = None"
    by (simp_all add: mandate_fact_def mandate_applies_to_def sample_control_defs)
  have ***: "\<forall>e \<in> set ?events. malformed_continue sample_codec ?req e = None \<and> mandate_readable sample_codec e"
    "\<forall>e \<in> set ?events. spares_mandate sample_codec ?req sample_mandate e"
    by (simp_all add: malformed_continue_def mandate_readable_def spares_mandate_def sample_control_defs)
  have seq: "distinct (map ev_sequence ?events)" by (simp add: sample_fact_def)
  have one: "\<exists>e c. filter (\<lambda>e. continue_fact sample_codec ?req e \<noteq> None) ?events = [e] \<and>
      continue_fact sample_codec ?req e = Some (EventRecordId 2, c) \<and> ''next'' = cr_next_turn_input c"
    by (rule exI [of _ "sample_fact 2 TurnContinueRequested 2"]) (simp add: *)
  have live: "\<exists>em mandate. em \<in> set ?events \<and>
      mandate_fact (\<lambda>_. ''7'') sample_codec ?req em = Some mandate \<and>
      (\<forall>e \<in> set ?events. mandate_fact (\<lambda>_. ''7'') sample_codec ?req e \<noteq> None \<longrightarrow>
         sequence_get (ev_sequence e) \<le> sequence_get (ev_sequence em)) \<and>
      (\<forall>e \<in> set ?events. spares_mandate sample_codec ?req mandate e) \<and>
      (\<forall>max. mp_max_continuations mandate = Some max \<longrightarrow> tq_completed_continuations ?req < max) \<and>
      (\<forall>t. mp_expires_at_ms mandate = Some t \<longrightarrow> tq_now_ms ?req \<le> t) \<and> ''m'' = mp_mandate_id mandate"
    using *** by (intro exI [of _ "sample_fact 1 MandateStarted 1"] exI [of _ sample_mandate])
      (simp add: **, simp add: sample_mandate_def)
  show ?thesis
    using continuation_accepted_iff [where read = "\<lambda>_ _. Inr ?events"
      and show_uuid = "\<lambda>_. ''7''" and request = ?req, OF refl seq] ***(1) one live by blast
qed

theorem placement_target_iff_witness:
  "\<exists>d. decide_placement (\<lambda>_. ''7'') sample_codec (\<lambda>_ _. Inr [sample_fact 1 PlacementDecision 1])
     \<lparr>pq_coordinates = sample_coordinates, pq_subject = \<lparr>pb_invocation_id = ''inv''\<rparr>,
      pq_snapshot_id = ''snap'', pq_request_event_id = EventRecordId 9,
      pq_default_target = PlaceLocal, pq_allowed_targets = {PlaceLocal, PlaceSandbox}\<rparr> = Inr d \<and>
     placed_on d = Some PlaceSandbox"
proof -
  let ?req = "\<lparr>pq_coordinates = sample_coordinates, pq_subject = \<lparr>pb_invocation_id = ''inv''\<rparr>,
      pq_snapshot_id = ''snap'', pq_request_event_id = EventRecordId 9,
      pq_default_target = PlaceLocal, pq_allowed_targets = {PlaceLocal, PlaceSandbox}\<rparr>"
  have "placement_fact sample_codec ?req (sample_fact 1 PlacementDecision 1) =
      Some (EventRecordId 1, \<lparr>pl_subject = \<lparr>pb_invocation_id = ''inv''\<rparr>,
        pl_snapshot_id = ''snap'', pl_placement = PlaceSandbox\<rparr>)"
    by (simp add: placement_fact_def sample_control_defs)
  moreover have "malformed_placement sample_codec ?req (sample_fact 1 PlacementDecision 1) = None"
    by (simp add: malformed_placement_def sample_control_defs)
  ultimately show ?thesis
    using placement_target_iff [where read = "\<lambda>_ _. Inr [sample_fact 1 PlacementDecision 1]"
      and request = ?req and codec = sample_codec and show_uuid = "\<lambda>_. ''7''" and t = PlaceSandbox,
      OF refl] by auto
qed

end
