(* ===== verification/Schema_Rules.thy ===== *)
theory Schema_Rules
  imports Json_Schema
begin

section \<open>Rules for the schema shapes the repository uses\<close>

text \<open>
  The frozen schemas are built from a dozen shapes: a scalar type, a type union, an enumeration,
  an array, an open object and an object with declared properties.  For each shape one rule says
  that the schema is interpretable (collection \<open>schema_ok_rules\<close>) and one says which values
  conform to it (collection \<open>conforms_rules\<close>), so that facts about a whole schema are found by
  rewriting with the two collections.
\<close>

named_theorems schema_ok_rules \<open>interpretability of a schema from its parts\<close>
named_theorems conforms_rules \<open>conformance to a schema from its parts\<close>

definition schema_ok :: "nat \<Rightarrow> json \<Rightarrow> bool" where
  "schema_ok d schema \<longleftrightarrow> (\<forall>path label. validate_schema_interpretable schema path label d = Inr ())"

lemma schema_ok_subset: "schema_ok 0 schema \<Longrightarrow> validate_json_schema_subset schema label = Inr ()"
  by (simp add: schema_ok_def validate_json_schema_subset_def)

lemma set_bt_insert: "set (bt_insert k v m) \<subseteq> insert (k, v) (set m)"
  by (induction k v m rule: bt_insert.induct) auto

lemma set_bt_of: "set (bt_of kvs) \<subseteq> set kvs"
proof -
  have "set (fold (\<lambda>(k, v). bt_insert k v) kvs m) \<subseteq> set kvs \<union> set m" for m
    by (induction kvs arbitrary: m) (use set_bt_insert in \<open>fastforce\<close>)+
  from this [of "[]"] show ?thesis by (simp add: bt_of_def)
qed

lemma ball_bt_of: "(\<forall>p \<in> set kvs. P p) \<Longrightarrow> (\<forall>p \<in> set (bt_of kvs). P p)"
  using set_bt_of by blast

lemma required_jstrs [simp]: "required_properties (jstrs xs) label path = Inr xs"
  by (induction xs) (simp_all add: required_properties_def jstrs_def)

lemma properties_jobj [simp]: "schema_properties (jobj ps) label path = Inr (bt_of ps)"
  by (simp add: schema_properties_def jobj_def)

lemma is_boolean_jobj [simp]: "is_boolean (jobj kvs) = False" "is_array (jstrs xs)"
  "jobj kvs \<noteq> JBool b"
  by (simp_all add: jobj_def jstrs_def)

text \<open>The keywords of each shape, in key order.\<close>

lemma shape_keys:
  "bt_of [(''type'', t)] = [(''type'', t)]"
  "bt_of [(''enum'', e)] = [(''enum'', e)]"
  "bt_of [(''type'', t), (''items'', i)] = [(''items'', i), (''type'', t)]"
  "bt_of [(''type'', t), (''additionalProperties'', a)] =
     [(''additionalProperties'', a), (''type'', t)]"
  "bt_of [(''type'', t), (''additionalProperties'', a), (''items'', i)] =
     [(''additionalProperties'', a), (''items'', i), (''type'', t)]"
  "bt_of [(''type'', t), (''additionalProperties'', a), (''properties'', p)] =
     [(''additionalProperties'', a), (''properties'', p), (''type'', t)]"
  "bt_of [(''type'', t), (''required'', r), (''additionalProperties'', a), (''properties'', p)] =
     [(''additionalProperties'', a), (''properties'', p), (''required'', r), (''type'', t)]"
  by (simp_all add: bt_of_def)

lemma type_name_ok:
  "t \<in> set schema_type_universe \<Longrightarrow> schema_type_names (JString t) label path = Inr [t]"
  by (simp add: validate_schema_type_name_def)

lemma type_union_names_ok:
  "set ts \<subseteq> set schema_type_universe \<Longrightarrow>
   \<exists>ns. type_union_names label path names (map JString ts) = Inr ns \<and>
     set ns = set names \<union> set ts"
proof (induction ts arbitrary: names)
  case Nil
  then show ?case by simp
next
  case (Cons t ts)
  define names' where "names' = (if t \<in> set names then names else names @ [t])"
  have "set names' = insert t (set names)" by (auto simp: names'_def)
  moreover obtain ns where "type_union_names label path names' (map JString ts) = Inr ns"
      "set ns = set names' \<union> set ts"
    using Cons.IH [of names'] Cons.prems by auto
  ultimately show ?case
    using Cons.prems by (auto simp: validate_schema_type_name_def names'_def)
qed

text \<open>The types a \<open>type\<close> keyword announces, and that an array schema has \<open>items\<close>.\<close>

definition types_ok :: "(string \<times> json) list \<Rightarrow> json \<Rightarrow> bool" where
  "types_ok object t \<longleftrightarrow> (\<forall>label path. \<exists>ns. schema_type_names t label path = Inr ns \<and>
     set ns \<subseteq> set schema_type_universe \<and>
     (''array'' \<in> set ns \<longrightarrow> map_of object ''items'' \<noteq> None))"

lemma types_ok_single:
  "t \<in> set schema_type_universe \<Longrightarrow> (t = ''array'' \<longrightarrow> map_of object ''items'' \<noteq> None) \<Longrightarrow>
   types_ok object (JString t)"
  by (auto simp: types_ok_def validate_schema_type_name_def)

lemma types_ok_union:
  "ts \<noteq> [] \<Longrightarrow> set ts \<subseteq> set schema_type_universe \<Longrightarrow>
   (''array'' \<in> set ts \<longrightarrow> map_of object ''items'' \<noteq> None) \<Longrightarrow> types_ok object (jstrs ts)"
  using type_union_names_ok [of ts _ _ "[]"] unfolding types_ok_def jstrs_def
  by (metis Un_empty_left list.set(1) schema_type_names.simps(2) map_is_Nil_conv)

lemma schema_ok_JObject:
  assumes "d \<le> 64" and "\<forall>k \<in> fst ` set object. is_supported_schema_key k"
    and "\<forall>e. map_of object ''enum'' = Some e \<longrightarrow> is_array e"
    and "\<forall>r. map_of object ''required'' = Some r \<longrightarrow> (\<exists>xs. r = jstrs xs)"
    and "\<forall>p. map_of object ''properties'' = Some p \<longrightarrow>
      (\<exists>ps. p = jobj ps \<and> (\<forall>(k, s) \<in> set ps. schema_ok (Suc d) s))"
    and "\<forall>a. map_of object ''additionalProperties'' = Some a \<longrightarrow>
      is_boolean a \<or> is_object a \<and> schema_ok (Suc d) a"
    and "\<forall>i. map_of object ''items'' = Some i \<longrightarrow> is_boolean i \<or> is_object i \<and> schema_ok (Suc d) i"
    and "case map_of object ''type'' of None \<Rightarrow> map_of object ''enum'' \<noteq> None
      | Some t \<Rightarrow> types_ok object t"
  shows "schema_ok d (JObject object)"
  unfolding schema_ok_def
proof (intro allI)
  fix path label
  have head: "check_schema_depth label path d = Inr ()" "check_schema_keys object label path = Inr ()"
    using assms(1,2)
    by (auto simp: check_schema_depth_def MAX_JSON_SCHEMA_SUBSET_DEPTH_def check_schema_keys_def
        for_each_ok)
  have "and_then (properties_of object label path) (for_each (\<lambda>(name, s).
      validate_schema_interpretable s (path @ ''.'' @ name) label (Suc d))) = Inr ()"
  proof (cases "map_of object ''properties''")
    case None
    then show ?thesis by (simp add: properties_of_def)
  next
    case (Some p)
    then obtain ps where p: "p = jobj ps" and "\<forall>(k, s) \<in> set ps. schema_ok (Suc d) s"
      using assms(5) by blast
    then have "\<forall>(k, s) \<in> set (bt_of ps). schema_ok (Suc d) s" by (intro ball_bt_of)
    with Some p show ?thesis by (simp add: properties_of_def for_each_ok schema_ok_def case_prod_beta)
  qed
  then have nested: "validate_nested_schema_keywords object path label d = Inr ()"
    using assms(4,6,7)
    by (auto simp: validate_nested_schema_keywords.simps schema_ok_def split: option.splits)
  have each: "for_each (\<lambda>t. if t = ''object'' then Inr ()
      else if t = ''array'' then (if map_of object ''items'' \<noteq> None then Inr () else Inl e)
      else if t \<in> set [''string'', ''number'', ''integer'', ''boolean'', ''null''] then Inr ()
      else Inl (f t)) ns = Inr ()"
    if ns: "set ns \<subseteq> set schema_type_universe" "''array'' \<in> set ns \<longrightarrow> map_of object ''items'' \<noteq> None"
    for ns and f :: "string \<Rightarrow> schema_validation_error" and e
    unfolding for_each_ok
  proof
    fix t assume t: "t \<in> set ns"
    with ns(1) have "t \<in> set schema_type_universe" by (rule subsetD)
    then show "(if t = ''object'' then Inr ()
        else if t = ''array'' then (if map_of object ''items'' \<noteq> None then Inr () else Inl e)
        else if t \<in> set [''string'', ''number'', ''integer'', ''boolean'', ''null''] then Inr ()
        else Inl (f t)) = Inr ()"
      using t ns(2)
      by (cases rule: schema_type_cases) (simp_all only: if_True simp_thms if_cancel split: if_split)
  qed
  have enum: "(case map_of object ''enum'' of None \<Rightarrow> Inr ()
      | Some e \<Rightarrow> if is_array e then Inr () else Inl (schema_error label path EnumNotArray)) = Inr ()"
    using assms(3) by (cases "map_of object ''enum''") simp_all
  show "validate_schema_interpretable (JObject object) path label d = Inr ()"
  proof (cases "map_of object ''type''")
    case None
    with assms(8) show ?thesis
      unfolding validate_schema_interpretable.simps head enum nested by simp
  next
    case (Some t)
    then obtain ns where ns: "schema_type_names t label path = Inr ns"
      "set ns \<subseteq> set schema_type_universe"
      "''array'' \<in> set ns \<longrightarrow> map_of object ''items'' \<noteq> None"
      using assms(8) unfolding types_ok_def by (simp only: option.case) blast
    show ?thesis
      unfolding validate_schema_interpretable.simps head enum nested and_then_simps Some
        option.case ns(1) by (rule each [OF ns(2,3)])
  qed
qed

subsection \<open>Interpretable shapes\<close>

definition scalar_types :: "string list" where
  "scalar_types = [''string'', ''number'', ''integer'', ''boolean'', ''null'']"

lemma scalar_in_universe:
  "t \<in> set scalar_types \<Longrightarrow> t \<in> set schema_type_universe \<and> t \<noteq> ''array''"
  by (auto simp: scalar_types_def schema_type_universe_def)

lemma schema_ok_scalar [schema_ok_rules]:
  "d \<le> 64 \<Longrightarrow> t \<in> set scalar_types \<Longrightarrow> schema_ok d (jobj [(''type'', JString t)])"
  unfolding jobj_def shape_keys
  by (rule schema_ok_JObject) (simp_all add: is_supported_schema_key_def types_ok_single scalar_in_universe)

lemma schema_ok_enum [schema_ok_rules]:
  "d \<le> 64 \<Longrightarrow> is_array e \<Longrightarrow> schema_ok d (jobj [(''enum'', e)])"
  unfolding jobj_def shape_keys
  by (rule schema_ok_JObject) (simp_all add: is_supported_schema_key_def)

lemma object_array_ok:
  "types_ok object (JString ''object'')"
  "map_of object ''items'' \<noteq> None \<Longrightarrow> types_ok object (JString ''array'')"
  by (rule types_ok_single; simp add: schema_type_universe_def)+

lemma schema_ok_array [schema_ok_rules]:
  "d \<le> 64 \<Longrightarrow> is_object s \<Longrightarrow> schema_ok (Suc d) s \<Longrightarrow>
   schema_ok d (jobj [(''type'', JString ''array''), (''items'', s)])"
  unfolding jobj_def shape_keys
  by (rule schema_ok_JObject) (simp_all add: is_supported_schema_key_def object_array_ok)

lemma schema_ok_open_object [schema_ok_rules]:
  "d \<le> 64 \<Longrightarrow>
   schema_ok d (jobj [(''type'', JString ''object''), (''additionalProperties'', JBool b)])"
  unfolding jobj_def shape_keys
  by (rule schema_ok_JObject) (simp_all add: is_supported_schema_key_def object_array_ok)

lemma schema_ok_map_object [schema_ok_rules]:
  "d \<le> 64 \<Longrightarrow> is_object s \<Longrightarrow> schema_ok (Suc d) s \<Longrightarrow>
   schema_ok d (jobj [(''type'', JString ''object''), (''additionalProperties'', s)])"
  unfolding jobj_def shape_keys
  by (rule schema_ok_JObject) (simp_all add: is_supported_schema_key_def object_array_ok)

lemma schema_ok_object [schema_ok_rules]:
  "d \<le> 64 \<Longrightarrow> \<forall>(k, s) \<in> set ps. schema_ok (Suc d) s \<Longrightarrow>
   schema_ok d (jobj [(''type'', JString ''object''), (''required'', jstrs r),
     (''additionalProperties'', JBool b), (''properties'', jobj ps)])"
  unfolding jobj_def [of "[(''type'', _), (''required'', _), _, _]"] shape_keys
  by (rule schema_ok_JObject)
    (simp_all add: is_supported_schema_key_def object_array_ok, blast+)

lemma schema_ok_object_no_required [schema_ok_rules]:
  "d \<le> 64 \<Longrightarrow> \<forall>(k, s) \<in> set ps. schema_ok (Suc d) s \<Longrightarrow>
   schema_ok d (jobj [(''type'', JString ''object''), (''additionalProperties'', JBool b),
     (''properties'', jobj ps)])"
  unfolding jobj_def [of "[(''type'', _), _, _]"] shape_keys
  by (rule schema_ok_JObject)
    (simp_all add: is_supported_schema_key_def object_array_ok, blast+)

lemma schema_ok_nullable_object [schema_ok_rules]:
  "d \<le> 64 \<Longrightarrow> \<forall>(k, s) \<in> set ps. schema_ok (Suc d) s \<Longrightarrow>
   schema_ok d (jobj [(''type'', jstrs [''object'', ''null'']), (''required'', jstrs r),
     (''additionalProperties'', JBool b), (''properties'', jobj ps)])"
  unfolding jobj_def [of "[(''type'', _), (''required'', _), _, _]"] shape_keys
  by (rule schema_ok_JObject)
    (simp_all add: is_supported_schema_key_def types_ok_union schema_type_universe_def, blast+)

lemma schema_ok_union [schema_ok_rules]:
  "d \<le> 64 \<Longrightarrow> ts \<noteq> [] \<Longrightarrow> set ts \<subseteq> set schema_type_universe \<Longrightarrow> ''array'' \<notin> set ts \<Longrightarrow>
   schema_ok d (jobj [(''type'', jstrs ts)])"
  unfolding jobj_def shape_keys
  by (rule schema_ok_JObject) (simp_all add: is_supported_schema_key_def types_ok_union)

lemma schema_ok_open_union [schema_ok_rules]:
  "d \<le> 64 \<Longrightarrow> ts \<noteq> [] \<Longrightarrow> set ts \<subseteq> set schema_type_universe \<Longrightarrow> ''array'' \<notin> set ts \<Longrightarrow>
   schema_ok d (jobj [(''type'', jstrs ts), (''additionalProperties'', JBool b)])"
  unfolding jobj_def shape_keys
  by (rule schema_ok_JObject) (simp_all add: is_supported_schema_key_def types_ok_union)

lemma schema_ok_open_union_items [schema_ok_rules]:
  "d \<le> 64 \<Longrightarrow> ts \<noteq> [] \<Longrightarrow> set ts \<subseteq> set schema_type_universe \<Longrightarrow>
   schema_ok d (jobj [(''type'', jstrs ts), (''additionalProperties'', JBool b),
     (''items'', JBool c)])"
  unfolding jobj_def shape_keys
  by (rule schema_ok_JObject) (simp_all add: is_supported_schema_key_def types_ok_union)

subsection \<open>Conforming values\<close>

lemma conforms_enum [conforms_rules]:
  "d \<le> 64 \<Longrightarrow> v \<in> set vs \<Longrightarrow> conforms d (jobj [(''enum'', JArray vs)]) v"
  unfolding jobj_def shape_keys
  by (rule conforms.enum_only)
    (simp_all add: schema_head_def MAX_JSON_SCHEMA_SUBSET_DEPTH_def is_supported_schema_key_def
      enum_admits_def)

lemma conforms_enum_strs [conforms_rules]:
  "d \<le> 64 \<Longrightarrow> s \<in> set xs \<Longrightarrow> conforms d (jobj [(''enum'', jstrs xs)]) (JString s)"
  unfolding jstrs_def by (rule conforms_enum) simp_all

lemma conforms_enum_strsD:
  assumes "conforms d (jobj [(''enum'', jstrs xs)]) (JString s)"
  shows "s \<in> set xs"
proof -
  have "schema_head d [(''enum'', jstrs xs)] (JString s)"
    using assms unfolding jobj_def shape_keys by (cases rule: conforms.cases) simp_all
  then show ?thesis by (auto simp: schema_head_def enum_admits_def jstrs_def)
qed

text \<open>A schema without \<open>enum\<close> constrains a value through its types only.\<close>

lemma schema_head_no_enum:
  "d \<le> 64 \<Longrightarrow> \<forall>k \<in> fst ` set object. is_supported_schema_key k \<Longrightarrow>
   map_of object ''enum'' = None \<Longrightarrow> schema_head d object v"
  by (simp add: schema_head_def MAX_JSON_SCHEMA_SUBSET_DEPTH_def enum_admits_def)

lemma chosen_type_single:
  "map_of object ''type'' = Some (JString t) \<Longrightarrow> t \<in> set schema_type_universe \<Longrightarrow>
   schema_value_type_matches t v \<Longrightarrow> chosen_type object v = Some t"
  by (simp add: chosen_type_def declared_types_def type_name_ok del: schema_type_names.simps)

lemma conforms_scalar:
  assumes "d \<le> 64" and "t \<in> set scalar_types" and "schema_value_type_matches t v"
  shows "conforms d (jobj [(''type'', JString t)]) v"
  unfolding jobj_def shape_keys
proof (rule conforms.scalar)
  show "schema_head d [(''type'', JString t)] v"
    by (rule schema_head_no_enum) (simp_all add: assms is_supported_schema_key_def)
  show "chosen_type [(''type'', JString t)] v = Some t"
    using scalar_in_universe [OF assms(2)] assms(3) by (intro chosen_type_single) simp_all
  show "t \<notin> {''object'', ''array''}" using assms(2) by (auto simp: scalar_types_def)
qed

lemma is_json_integer_of [simp]:
  "is_json_integer (json_of_i64 n)" "is_json_integer (json_of_u64 m)"
  by (simp_all add: is_json_integer_def json_of_i64_def json_of_u64_def)

lemma conforms_string [conforms_rules]:
  "d \<le> 64 \<Longrightarrow> conforms d (jobj [(''type'', JString ''string'')]) (JString s)"
  by (rule conforms_scalar) (simp_all add: scalar_types_def schema_value_type_matches_def)

lemma conforms_integer [conforms_rules]:
  "d \<le> 64 \<Longrightarrow> is_json_integer v \<Longrightarrow> conforms d (jobj [(''type'', JString ''integer'')]) v"
  by (rule conforms_scalar) (simp_all add: scalar_types_def schema_value_type_matches_def)

lemma conforms_boolean [conforms_rules]:
  "d \<le> 64 \<Longrightarrow> conforms d (jobj [(''type'', JString ''boolean'')]) (JBool b)"
  by (rule conforms_scalar) (simp_all add: scalar_types_def schema_value_type_matches_def)

lemma union_evaluates:
  "schema_type_names (jstrs [a, b]) [] [] = Inr [a, b]"
  if "a \<noteq> b" "a \<in> set schema_type_universe" "b \<in> set schema_type_universe"
  using that by (simp add: jstrs_def validate_schema_type_name_def)

lemma conforms_optional:
  assumes "d \<le> 64" and "t \<in> set scalar_types" and "t \<noteq> ''null''"
    and "v = JNull \<or> schema_value_type_matches t v"
  shows "conforms d (jobj [(''type'', jstrs [t, ''null''])]) v"
  unfolding jobj_def shape_keys
proof (rule conforms.scalar)
  show "schema_head d [(''type'', jstrs [t, ''null''])] v"
    by (rule schema_head_no_enum) (simp_all add: assms is_supported_schema_key_def)
  have "schema_type_names (jstrs [t, ''null'']) [] [] = Inr [t, ''null'']"
  proof (rule union_evaluates)
    show "t \<in> set schema_type_universe" using scalar_in_universe [OF assms(2)] by simp
  qed (use assms(3) in \<open>simp_all add: schema_type_universe_def\<close>)
  moreover have "schema_value_type_matches ''null'' JNull"
    by (simp add: schema_value_type_matches_def)
  ultimately show "chosen_type [(''type'', jstrs [t, ''null''])] v =
      Some (if schema_value_type_matches t v then t else ''null'')"
    using assms(4) by (cases "schema_value_type_matches t v")
      (simp_all add: chosen_type_def declared_types_def)
  show "(if schema_value_type_matches t v then t else ''null'') \<notin> {''object'', ''array''}"
    using assms(2) by (auto simp: scalar_types_def)
qed

lemma conforms_optional_string [conforms_rules]:
  "d \<le> 64 \<Longrightarrow> v = JNull \<or> is_string v \<Longrightarrow>
   conforms d (jobj [(''type'', jstrs [''string'', ''null''])]) v"
  by (rule conforms_optional) (simp_all add: scalar_types_def schema_value_type_matches_def)

lemma conforms_optional_integer [conforms_rules]:
  "d \<le> 64 \<Longrightarrow> v = JNull \<or> is_json_integer v \<Longrightarrow>
   conforms d (jobj [(''type'', jstrs [''integer'', ''null''])]) v"
  by (rule conforms_optional) (simp_all add: scalar_types_def schema_value_type_matches_def)

lemma conforms_array [conforms_rules]:
  assumes "d \<le> 64" and "is_object s" and "\<forall>x \<in> set xs. conforms (Suc d) s x"
  shows "conforms d (jobj [(''type'', JString ''array''), (''items'', s)]) (JArray xs)"
  unfolding jobj_def shape_keys
proof (rule conforms.array)
  show "schema_head d [(''items'', s), (''type'', JString ''array'')] (JArray xs)"
    by (rule schema_head_no_enum) (simp_all add: assms is_supported_schema_key_def)
  show "chosen_type [(''items'', s), (''type'', JString ''array'')] (JArray xs) = Some ''array''"
    by (rule chosen_type_single) (simp_all add: schema_type_universe_def schema_value_type_matches_def)
  show "map_of [(''items'', s), (''type'', JString ''array'')] ''items'' = Some s" by simp
qed (use assms in simp)

lemma conforms_string_array [conforms_rules]:
  "d \<le> 63 \<Longrightarrow> conforms d (jobj [(''type'', JString ''array''),
     (''items'', jobj [(''type'', JString ''string'')])]) (jstrs xs)"
  unfolding jstrs_def by (rule conforms_array) (auto intro: conforms_string)

text \<open>
  Objects: the members are those of \<open>kvs\<close>; a declared one conforms to its schema, another one
  is admitted by \<open>additionalProperties\<close>.
\<close>

definition member_ok :: "nat \<Rightarrow> (string \<times> json) list \<Rightarrow> json \<Rightarrow> string \<times> json \<Rightarrow> bool" where
  "member_ok d ps extra = (\<lambda>(k, v).
     (\<forall>s. (k, s) \<in> set ps \<longrightarrow> conforms d s v) \<and>
     (k \<in> fst ` set ps \<or> extra = JBool True \<or> is_object extra \<and> conforms d extra v))"

lemma object_schema_types:
  "map_of object ''type'' = Some (JString ''object'') \<Longrightarrow>
   chosen_type object (JObject kvs) = Some ''object''"
  by (rule chosen_type_single) (simp_all add: schema_type_universe_def schema_value_type_matches_def)

lemma conforms_object_members:
  assumes head: "d \<le> 64" "\<forall>k \<in> fst ` set object. is_supported_schema_key k"
      "map_of object ''enum'' = None" "chosen_type object (JObject kvs) = Some ''object''"
    and "declared_required object = Some r" "r \<subseteq> fst ` set kvs"
    and "declared_properties object = Some (bt_of ps)"
    and "map_of object ''additionalProperties'' = Some extra"
    and "\<forall>p \<in> set kvs. member_ok (Suc d) ps extra p"
  shows "conforms d (JObject object) (JObject kvs)"
proof (rule conforms.object)
  show "schema_head d object (JObject kvs)" by (rule schema_head_no_enum) (use head in auto)
  show "chosen_type object (JObject kvs) = Some ''object''" by fact
  show "declared_required object = Some r" "r \<subseteq> fst ` set kvs"
    "declared_properties object = Some (bt_of ps)" by fact+
  show "\<forall>(name, s) \<in> set (bt_of ps). \<forall>x. map_of kvs name = Some x \<longrightarrow> conforms (Suc d) s x"
  proof (intro ballI, clarify)
    fix name s x assume "(name, s) \<in> set (bt_of ps)" and "map_of kvs name = Some x"
    then have "(name, s) \<in> set ps" "(name, x) \<in> set kvs"
      using set_bt_of by (auto dest: map_of_SomeD)
    with assms(9) show "conforms (Suc d) s x" by (auto simp: member_ok_def)
  qed
  show "\<forall>(name, x) \<in> set kvs. name \<in> fst ` set (bt_of ps) \<or>
      map_of object ''additionalProperties'' = Some (JBool True) \<or>
      (\<exists>extra. map_of object ''additionalProperties'' = Some extra \<and> is_object extra \<and>
         conforms (Suc d) extra x)"
    using assms(8,9) by (auto simp: member_ok_def set_keys_bt_of)
qed

lemma conforms_object [conforms_rules]:
  assumes "d \<le> 64" and "set r \<subseteq> fst ` set kvs"
    and "\<forall>p \<in> set kvs. member_ok (Suc d) ps (JBool b) p"
  shows "conforms d (jobj [(''type'', JString ''object''), (''required'', jstrs r),
     (''additionalProperties'', JBool b), (''properties'', jobj ps)]) (jobj kvs)"
  unfolding jobj_def [of "[(''type'', _), (''required'', _), _, _]"] jobj_def [of kvs] shape_keys
proof (rule conforms_object_members)
  show "\<forall>p \<in> set (bt_of kvs). member_ok (Suc d) ps (JBool b) p"
    using assms(3) by (rule ball_bt_of)
qed (use assms in \<open>simp_all add: is_supported_schema_key_def object_schema_types
    declared_required_def required_of_def declared_properties_def properties_of_def set_keys_bt_of\<close>)

lemma conforms_object_no_required [conforms_rules]:
  assumes "d \<le> 64" and "\<forall>p \<in> set kvs. member_ok (Suc d) ps (JBool b) p"
  shows "conforms d (jobj [(''type'', JString ''object''), (''additionalProperties'', JBool b),
     (''properties'', jobj ps)]) (jobj kvs)"
  unfolding jobj_def [of "[(''type'', _), _, _]"] jobj_def [of kvs] shape_keys
proof (rule conforms_object_members)
  show "\<forall>p \<in> set (bt_of kvs). member_ok (Suc d) ps (JBool b) p"
    using assms(2) by (rule ball_bt_of)
  show "({} :: string set) \<subseteq> fst ` set (bt_of kvs)" by simp
qed (use assms in \<open>simp_all add: is_supported_schema_key_def object_schema_types
    declared_required_def required_of_def declared_properties_def properties_of_def\<close>)

lemma conforms_map_object:
  assumes "d \<le> 64" and "extra = JBool True \<or> is_object extra \<and> (\<forall>(k, v) \<in> set kvs. conforms (Suc d) extra v)"
  shows "conforms d (jobj [(''type'', JString ''object''), (''additionalProperties'', extra)])
    (JObject kvs)"
  unfolding jobj_def shape_keys
proof (rule conforms_object_members [where ps = "[]" and r = "{}"])
  show "\<forall>p \<in> set kvs. member_ok (Suc d) [] extra p"
    using assms(2) by (auto simp: member_ok_def)
qed (use assms in \<open>simp_all add: is_supported_schema_key_def object_schema_types
    declared_required_def required_of_def declared_properties_def properties_of_def bt_of_def\<close>)

lemma conforms_open_object [conforms_rules]:
  "d \<le> 64 \<Longrightarrow> is_object v \<Longrightarrow>
   conforms d (jobj [(''type'', JString ''object''), (''additionalProperties'', JBool True)]) v"
  by (cases v) (simp_all add: conforms_map_object)

lemma conforms_string_or_object [conforms_rules]:
  assumes "d \<le> 64" and "is_string v \<or> is_object v"
  shows "conforms d (jobj [(''type'', jstrs [''string'', ''object'']),
    (''additionalProperties'', JBool True)]) v"
  unfolding jobj_def shape_keys
proof -
  let ?object = "[(''additionalProperties'', JBool True), (''type'', jstrs [''string'', ''object''])]"
  have "schema_type_names (jstrs [''string'', ''object'']) [] [] = Inr [''string'', ''object'']"
    by (rule union_evaluates) (simp_all add: schema_type_universe_def)
  then have chosen: "chosen_type ?object v = Some (if is_string v then ''string'' else ''object'')"
    using assms(2)
    by (cases v) (simp_all add: chosen_type_def declared_types_def schema_value_type_matches_def)
  have head: "\<forall>k \<in> fst ` set ?object. is_supported_schema_key k"
    by (simp add: is_supported_schema_key_def)
  show "conforms d (JObject ?object) v"
  proof (cases "is_string v")
    case True
    with chosen have "chosen_type ?object v = Some ''string''" by simp
    then show ?thesis
      using assms(1) head by (intro conforms.scalar [where t = "''string''"] schema_head_no_enum) simp_all
  next
    case False
    with assms(2) obtain kvs where v: "v = JObject kvs" by (auto simp: is_object_iff)
    show ?thesis
      unfolding v
    proof (rule conforms_object_members [where ps = "[]" and r = "{}" and extra = "JBool True"])
      show "chosen_type ?object (JObject kvs) = Some ''object''" using chosen v by simp
      show "\<forall>p \<in> set kvs. member_ok (Suc d) [] (JBool True) p" by (auto simp: member_ok_def)
    qed (use assms(1) head in \<open>simp_all add: declared_required_def required_of_def
        declared_properties_def properties_of_def bt_of_def\<close>)
  qed
qed

text \<open>A schema that names every type and leaves members and items open accepts every value.\<close>

lemma conforms_any [conforms_rules]:
  assumes "d \<le> 64"
  shows "conforms d (jobj [(''type'',
      jstrs [''object'', ''array'', ''string'', ''number'', ''boolean'', ''null'']),
    (''additionalProperties'', JBool True), (''items'', JBool True)]) v"
  unfolding jobj_def shape_keys
proof -
  let ?types = "[''object'', ''array'', ''string'', ''number'', ''boolean'', ''null'']"
  let ?object = "[(''additionalProperties'', JBool True), (''items'', JBool True),
      (''type'', jstrs ?types)]"
  have names: "schema_type_names (jstrs ?types) [] [] = Inr ?types"
    by (simp add: jstrs_def validate_schema_type_name_def schema_type_universe_def)
  have chosen: "chosen_type ?object v = find (\<lambda>t. schema_value_type_matches t v) ?types"
    unfolding chosen_type_def declared_types_def using names by simp
  have head: "schema_head d ?object w" for w
    by (rule schema_head_no_enum) (simp_all add: assms is_supported_schema_key_def)
  show "conforms d (JObject ?object) v"
  proof (cases v)
    case (JObject kvs)
    show ?thesis
      unfolding JObject
    proof (rule conforms_object_members [where ps = "[]" and r = "{}" and extra = "JBool True"])
      show "chosen_type ?object (json.JObject kvs) = Some ''object''"
        using chosen JObject by (simp add: schema_value_type_matches_def)
      show "\<forall>p \<in> set kvs. member_ok (Suc d) [] (JBool True) p" by (auto simp: member_ok_def)
    qed (use assms in \<open>simp_all add: is_supported_schema_key_def declared_required_def
        required_of_def declared_properties_def properties_of_def bt_of_def\<close>)
  next
    case (JArray xs)
    with chosen have "chosen_type ?object (json.JArray xs) = Some ''array''"
      by (simp add: schema_value_type_matches_def)
    then show ?thesis
      unfolding JArray by (intro conforms.array [where items = "JBool True"] head) simp_all
  qed (rule conforms.scalar [OF head], use chosen in \<open>simp add: schema_value_type_matches_def\<close>,
      simp)+
qed

lemma member_ok_declared:
  assumes "(k, s) \<in> set ps" "distinct (map fst ps)" "conforms d s v"
  shows "member_ok d ps extra (k, v)"
proof -
  have "s' = s" if "(k, s') \<in> set ps" for s'
    using assms(2) that assms(1) by (rule eq_key_imp_eq_value)
  moreover have "k \<in> fst ` set ps" using assms(1) by (rule rev_image_eqI) simp
  ultimately show ?thesis using assms(3) unfolding member_ok_def by auto
qed

lemma member_ok_lookup [conforms_rules]:
  assumes "distinct (map fst ps)"
    and "case map_of ps k of Some s \<Rightarrow> conforms d s v
      | None \<Rightarrow> extra = JBool True \<or> is_object extra \<and> conforms d extra v"
  shows "member_ok d ps extra (k, v)"
proof (cases "map_of ps k")
  case None
  then have "k \<notin> fst ` set ps" by (simp add: map_of_eq_None_iff)
  then have "(k, s) \<notin> set ps" for s using rev_image_eqI [of "(k, s)" "set ps" k fst] by auto
  with None assms(2) show ?thesis unfolding member_ok_def by simp
next
  case (Some s)
  then have "(k, s) \<in> set ps" by (rule map_of_SomeD)
  moreover from Some assms(2) have "conforms d s v" by (simp only: option.case)
  ultimately show ?thesis using assms(1) by (intro member_ok_declared)
qed

text \<open>Members written by the field encoders.\<close>

lemma ball_opt_field: "(\<forall>p \<in> set (opt_field k f m). P p) \<longleftrightarrow> (\<forall>x. m = Some x \<longrightarrow> P (k, f x))"
  by (cases m) (simp_all add: opt_field_def)

lemma ball_vec_field:
  "(\<forall>p \<in> set (vec_field k f xs). P p) \<longleftrightarrow> (xs \<noteq> [] \<longrightarrow> P (k, JArray (map f xs)))"
  by (simp add: vec_field_def)

lemma ball_field: "(\<forall>p \<in> set (field k v). P p) \<longleftrightarrow> P (k, v)" "fst ` set (field k v) = {k}"
  by (simp_all add: field_def)

lemmas member_simps = ball_Un ball_field ball_opt_field ball_vec_field image_Un

subsection \<open>What conformance to an object schema requires\<close>

lemma conforms_typed_objectD:
  assumes "conforms d (JObject object) v"
    and "map_of object ''type'' = Some (JString ''object'')"
  obtains kvs where "v = JObject kvs"
    and "\<And>name s x. declared_properties object = Some ps \<Longrightarrow> (name, s) \<in> set ps \<Longrightarrow>
      map_of kvs name = Some x \<Longrightarrow> conforms (Suc d) s x"
    and "\<And>r. declared_required object = Some r \<Longrightarrow> r \<subseteq> fst ` set kvs"
  using assms(1)
proof cases
  case (scalar t)
  from assms(2) scalar have "t = ''object''"
    by (auto simp: chosen_type_def declared_types_def validate_schema_type_name_def
        split: if_splits)
  with scalar show ?thesis by simp
next
  case (array elements items)
  then show ?thesis
    using assms(2) by (simp add: chosen_type_def declared_types_def validate_schema_type_name_def
        split: if_splits)
qed (use assms(2) that in auto)

lemma conforms_open_objectD:
  "conforms d (jobj [(''type'', JString ''object''), (''additionalProperties'', JBool b)]) v \<Longrightarrow>
   is_object v"
  unfolding jobj_def shape_keys by (erule conforms_typed_objectD) simp_all

lemma mem_bt_of: "distinct (map fst kvs) \<Longrightarrow> (k, v) \<in> set kvs \<Longrightarrow> map_of (bt_of kvs) k = Some v"
  by (simp add: map_of_bt_of)

lemma conforms_object_memberD:
  assumes "conforms d (jobj [(''type'', JString ''object''), (''required'', jstrs r),
      (''additionalProperties'', JBool b), (''properties'', jobj ps)]) (jobj kvs)"
    and "distinct (map fst ps)" "(k, s) \<in> set ps" "distinct (map fst kvs)" "(k, v) \<in> set kvs"
  shows "conforms (Suc d) s v"
proof -
  let ?object = "[(''additionalProperties'', JBool b), (''properties'', jobj ps),
      (''required'', jstrs r), (''type'', JString ''object'')]"
  have props: "declared_properties ?object = Some (bt_of ps)"
    by (simp add: declared_properties_def properties_of_def)
  have s: "(k, s) \<in> set (bt_of ps)" by (rule map_of_SomeD [OF mem_bt_of [OF assms(2,3)]])
  have "conforms d (JObject ?object) (jobj kvs)"
    using assms(1) unfolding jobj_def [of "[(''type'', _), (''required'', _), _, _]"] shape_keys .
  moreover have "map_of ?object ''type'' = Some (JString ''object'')" by simp
  ultimately show ?thesis
  proof (rule conforms_typed_objectD [where ps = "bt_of ps"])
    fix kvs'
    assume "jobj kvs = JObject kvs'"
      and member: "\<And>name s x. declared_properties ?object = Some (bt_of ps) \<Longrightarrow>
        (name, s) \<in> set (bt_of ps) \<Longrightarrow> map_of kvs' name = Some x \<Longrightarrow> conforms (Suc d) s x"
    then have "map_of kvs' k = Some v" using mem_bt_of [OF assms(4,5)] by (simp add: jobj_def)
    with props s show ?thesis by (rule member)
  qed
qed

end
