(* ===== verification/Stream_Schemas.thy ===== *)
theory Stream_Schemas
  imports Schema_Rules Event_Record
begin

section \<open>The frozen stream schemas\<close>

text \<open>
  \<^verbatim>\<open>src/crates/verlet-history/src/lib.rs\<close>, the functions \<open>*_schema_v1\<close> and
  \<open>stream_schema_registry_v1\<close>: each \<open>json!\<close> literal keyword by keyword, and the registry built
  by registering the 29 schemas in order, each of which may fail.  The code calls \<open>expect\<close> on
  the outcome; here the outcome and the registry built so far are kept apart, and the outcome is
  proved to be \<open>Ok\<close>, so that \<open>expect\<close> never panics.
\<close>

named_theorems schema_defs \<open>the schema literals\<close>

subsection \<open>The schema literals\<close>

definition stream_record_schema_v1 :: json where
  [schema_defs]:
  "stream_record_schema_v1 = jobj
       [(''type'', JString ''object''),
        (''required'', jstrs
           [''schema'', ''event_id'', ''stream_id'', ''sequence'', ''coordinates'',
            ''created_at_ms'', ''kind'', ''origin'', ''payload_schema'', ''provenance'',
            ''payload'']),
        (''additionalProperties'', JBool True),
        (''properties'', jobj
           [(''schema'', jobj [(''enum'', JArray [JString stream_record_schema_id])]),
            (''event_id'', jobj [(''type'', JString ''string'')]),
            (''stream_id'', jobj [(''type'', JString ''string'')]),
            (''sequence'', jobj [(''type'', JString ''integer'')]),
            (''coordinates'', jobj
               [(''type'', JString ''object''),
                (''required'', jstrs [''tenant_id'', ''user_id'', ''session_id'', ''thread_id'']),
                (''additionalProperties'', JBool False),
                (''properties'', jobj
                   [(''tenant_id'', jobj [(''type'', JString ''string'')]),
                    (''user_id'', jobj [(''type'', JString ''string'')]),
                    (''session_id'', jobj [(''type'', JString ''string'')]),
                    (''thread_id'', jobj [(''type'', JString ''string'')])])]),
            (''created_at_ms'', jobj [(''type'', JString ''integer'')]),
            (''kind'', jobj [(''type'', JString ''string'')]),
            (''origin'', jobj [(''enum'', jstrs [''witnessed'', ''discharged''])]),
            (''payload_schema'', jobj [(''type'', JString ''string'')]),
            (''trace_context'', jobj [(''type'', JString ''object''), (''additionalProperties'', JBool True)]),
            (''provenance'', jobj [(''type'', JString ''object''), (''additionalProperties'', JBool True)]),
            (''payload'', jobj [(''type'', JString ''object''), (''additionalProperties'', JBool True)])])]"

definition stream_cursor_schema_v1 :: json where
  [schema_defs]:
  "stream_cursor_schema_v1 = jobj
       [(''type'', JString ''object''),
        (''required'', jstrs [''schema'', ''stream_id'', ''sequence'', ''event_id'']),
        (''additionalProperties'', JBool False),
        (''properties'', jobj
           [(''schema'', jobj [(''enum'', JArray [JString stream_cursor_schema_id])]),
            (''stream_id'', jobj [(''type'', JString ''string'')]),
            (''sequence'', jobj [(''type'', JString ''integer'')]),
            (''event_id'', jobj [(''type'', JString ''string'')])])]"

definition stream_ack_classes_schema_v1 :: json where
  [schema_defs]:
  "stream_ack_classes_schema_v1 = jobj
       [(''type'', JString ''array''),
        (''items'', jobj
           [(''enum'', jstrs
               [''local_committed'', ''query_projected'', ''stream_committed'',
                ''broadcast_visible'', ''archived''])])]"

definition stream_backend_capabilities_schema_v1 :: json where
  [schema_defs]:
  "stream_backend_capabilities_schema_v1 = jobj
       [(''type'', JString ''object''),
        (''required'', jstrs
           [''schema'', ''backend_kind'', ''storage_scope'', ''ack_classes'',
            ''supports_atomic_batch_append'', ''supports_verified_cursor_replay'',
            ''supports_query_projection'', ''supports_expected_tail'',
            ''supports_fencing_tokens'', ''supports_live_follow'',
            ''supports_broadcast'', ''supports_cold_archive'']),
        (''additionalProperties'', JBool False),
        (''properties'', jobj
           [(''schema'', jobj [(''enum'', JArray [JString stream_backend_capabilities_schema_id])]),
            (''backend_kind'', jobj [(''enum'', jstrs [''sqlite''])]),
            (''storage_scope'', jobj [(''enum'', jstrs [''local_embedded'', ''remote_durable'', ''hybrid''])]),
            (''ack_classes'', stream_ack_classes_schema_v1),
            (''supports_atomic_batch_append'', jobj [(''type'', JString ''boolean'')]),
            (''supports_verified_cursor_replay'', jobj [(''type'', JString ''boolean'')]),
            (''supports_query_projection'', jobj [(''type'', JString ''boolean'')]),
            (''supports_expected_tail'', jobj [(''type'', JString ''boolean'')]),
            (''supports_fencing_tokens'', jobj [(''type'', JString ''boolean'')]),
            (''supports_live_follow'', jobj [(''type'', JString ''boolean'')]),
            (''supports_broadcast'', jobj [(''type'', JString ''boolean'')]),
            (''supports_cold_archive'', jobj [(''type'', JString ''boolean'')]),
            (''local_path'', jobj [(''type'', JString ''string'')])])]"

definition stream_append_ack_schema_v1 :: json where
  [schema_defs]:
  "stream_append_ack_schema_v1 = jobj
       [(''type'', JString ''object''),
        (''required'', jstrs
           [''schema'', ''stream_id'', ''start_sequence'', ''end_sequence'',
            ''tail_sequence'', ''tail_event_id'', ''acks'']),
        (''additionalProperties'', JBool False),
        (''properties'', jobj
           [(''schema'', jobj [(''enum'', JArray [JString stream_append_ack_schema_id])]),
            (''stream_id'', jobj [(''type'', JString ''string'')]),
            (''start_sequence'', jobj [(''type'', JString ''integer'')]),
            (''end_sequence'', jobj [(''type'', JString ''integer'')]),
            (''tail_sequence'', jobj [(''type'', JString ''integer'')]),
            (''tail_event_id'', jobj [(''type'', JString ''string'')]),
            (''acks'', stream_ack_classes_schema_v1)])]"

definition stream_routing_decision_schema_v1 :: json where
  [schema_defs]:
  "stream_routing_decision_schema_v1 = jobj
       [(''type'', JString ''object''),
        (''required'', jstrs
           [''schema'', ''event_id'', ''stream_id'', ''sequence'', ''kind'', ''routes'',
            ''keys'']),
        (''additionalProperties'', JBool False),
        (''properties'', jobj
           [(''schema'', jobj [(''enum'', JArray [JString stream_routing_decision_schema_id])]),
            (''event_id'', jobj [(''type'', JString ''string'')]),
            (''stream_id'', jobj [(''type'', JString ''string'')]),
            (''sequence'', jobj [(''type'', JString ''integer'')]),
            (''kind'', jobj [(''type'', JString ''string'')]),
            (''routes'', jobj
               [(''type'', JString ''array''),
                (''items'', jobj
                   [(''enum'', jstrs
                       [''authority_store'', ''export_bundle'',
                        ''model_trace'', ''runtime_trace'',
                        ''browser_safe_projection'', ''analytics_aggregate''])])]),
            (''keys'', jobj
               [(''type'', JString ''object''),
                (''required'', jstrs
                   [''schema'', ''stream_id'', ''tenant_id'', ''user_id'',
                    ''session_id'', ''thread_id'', ''kind'', ''origin'',
                    ''payload_schema'']),
                (''additionalProperties'', JBool False),
                (''properties'', jobj
                   [(''schema'', jobj [(''type'', JString ''string'')]),
                    (''stream_id'', jobj [(''type'', JString ''string'')]),
                    (''tenant_id'', jobj [(''type'', JString ''string'')]),
                    (''user_id'', jobj [(''type'', JString ''string'')]),
                    (''session_id'', jobj [(''type'', JString ''string'')]),
                    (''thread_id'', jobj [(''type'', JString ''string'')]),
                    (''kind'', jobj [(''type'', JString ''string'')]),
                    (''origin'', jobj [(''enum'', jstrs [''witnessed'', ''discharged''])]),
                    (''payload_schema'', jobj [(''type'', JString ''string'')]),
                    (''trace_id'', jobj [(''type'', JString ''string'')]),
                    (''discharged_by'', jobj [(''type'', JString ''string'')])])])])]"

definition context_read_plan_schema_v1 :: json where
  [schema_defs]:
  "context_read_plan_schema_v1 = jobj
       [(''type'', JString ''object''),
        (''required'', jstrs [''schema'', ''name'', ''source_stream'', ''frontier'', ''entries'']),
        (''additionalProperties'', JBool False),
        (''properties'', jobj
           [(''schema'', jobj [(''enum'', JArray [JString context_read_plan_schema_id])]),
            (''name'', jobj [(''type'', JString ''string'')]),
            (''source_stream'', jobj [(''type'', JString ''string'')]),
            (''frontier'', jobj [(''enum'', jstrs [''compile_frontier''])]),
            (''entries'', jobj
               [(''type'', JString ''array''),
                (''items'', jobj
                   [(''type'', JString ''object''),
                    (''required'', jstrs [''kind'']),
                    (''additionalProperties'', JBool False),
                    (''properties'', jobj
                       [(''kind'', jobj
                           [(''enum'', jstrs [''raw_range'', ''event_ref'', ''drop_range''])]),
                        (''stream_id'', jobj [(''type'', JString ''string'')]),
                        (''event_id'', jobj [(''type'', JString ''string'')]),
                        (''event_role'', jobj [(''type'', JString ''string'')]),
                        (''reason'', jobj [(''type'', JString ''string'')]),
                        (''range'', jobj
                           [(''type'', JString ''object''),
                            (''additionalProperties'', JBool True)]),
                        (''covers'', jobj
                           [(''type'', JString ''object''),
                            (''additionalProperties'', JBool True)])])])])])]"

definition context_compile_completed_payload_schema_v1 :: json where
  [schema_defs]:
  "context_compile_completed_payload_schema_v1 = jobj
       [(''type'', JString ''object''),
        (''required'', jstrs [''schema'', ''read_plan'']),
        (''additionalProperties'', JBool True),
        (''properties'', jobj
           [(''schema'', jobj [(''enum'', JArray [JString (payload_schema_id ContextCompileCompleted)])]),
            (''strategy'', jobj [(''type'', JString ''string'')]),
            (''output_hash'', jobj [(''type'', JString ''string'')]),
            (''read_plan'', context_read_plan_schema_v1)])]"

definition context_summary_completed_payload_schema_v1 :: json where
  [schema_defs]:
  "context_summary_completed_payload_schema_v1 = jobj
       [(''type'', JString ''object''),
        (''required'', jstrs [''schema'', ''role'', ''text'', ''covered_ranges'', ''content'']),
        (''additionalProperties'', JBool True),
        (''properties'', jobj
           [(''schema'', jobj [(''enum'', JArray [JString (payload_schema_id ContextSummaryCompleted)])]),
            (''role'', jobj [(''enum'', jstrs [''summary_checkpoint''])]),
            (''text'', jobj [(''type'', JString ''string'')]),
            (''covered_ranges'', jobj
               [(''type'', JString ''array''),
                (''items'', jobj
                   [(''type'', JString ''object''),
                    (''required'', jstrs [''stream_id'', ''from_sequence'', ''to_sequence'']),
                    (''additionalProperties'', JBool False),
                    (''properties'', jobj
                       [(''stream_id'', jobj [(''type'', JString ''string'')]),
                        (''from_sequence'', jobj [(''type'', JString ''integer'')]),
                        (''to_sequence'', jobj [(''type'', JString ''integer'')])])])]),
            (''content'', jobj
               [(''type'', JString ''object''),
                (''required'', jstrs [''sha256'']),
                (''additionalProperties'', JBool False),
                (''properties'', jobj [(''sha256'', jobj [(''type'', JString ''string'')])])])])]"

definition context_read_plan_set_payload_schema_v1 :: json where
  [schema_defs]:
  "context_read_plan_set_payload_schema_v1 = jobj
       [(''type'', JString ''object''),
        (''required'', jstrs [''schema'', ''scope'', ''name'', ''read_plan'']),
        (''additionalProperties'', JBool True),
        (''properties'', jobj
           [(''schema'', jobj [(''enum'', JArray [JString (payload_schema_id ContextReadPlanSet)])]),
            (''scope'', jobj [(''enum'', jstrs [''thread''])]),
            (''name'', jobj [(''type'', JString ''string'')]),
            (''pipeline_id'', jobj [(''type'', JString ''string'')]),
            (''source_id'', jobj [(''type'', JString ''string'')]),
            (''summary_event_id'', jobj [(''type'', JString ''string'')]),
            (''read_plan'', context_read_plan_schema_v1)])]"

definition string_array_schema_v1 :: json where
  [schema_defs]:
  "string_array_schema_v1 = jobj [(''type'', JString ''array''), (''items'', jobj [(''type'', JString ''string'')])]"

definition binding_effect_class_schema_v1 :: json where
  [schema_defs]:
  "binding_effect_class_schema_v1 = jobj [(''enum'', jstrs [''pure'', ''idempotent'', ''at-most-once''])]"

definition binding_attachment_config_schema_v1 :: json where
  [schema_defs]:
  "binding_attachment_config_schema_v1 = jobj
       [(''type'', JString ''object''),
        (''additionalProperties'', JBool False),
        (''properties'', jobj
           [(''allowed_secrets'', string_array_schema_v1),
            (''allowed_private_network'', jobj
               [(''type'', JString ''object''),
                (''additionalProperties'', string_array_schema_v1)]),
            (''bound_parameters'', jobj [(''type'', JString ''object''), (''additionalProperties'', JBool True)])])]"

definition binding_attached_payload_schema_v1 :: json where
  [schema_defs]:
  "binding_attached_payload_schema_v1 = jobj
       [(''type'', JString ''object''),
        (''required'', jstrs [''name'', ''artifact_hash'', ''requested_by'', ''decided_by'']),
        (''additionalProperties'', JBool False),
        (''properties'', jobj
           [(''name'', jobj [(''type'', JString ''string'')]),
            (''artifact_hash'', jobj [(''type'', JString ''string'')]),
            (''operations'', string_array_schema_v1),
            (''direct_tools'', jobj
               [(''type'', JString ''array''),
                (''items'', jobj
                   [(''type'', JString ''object''),
                    (''required'', jstrs [''tool_name'', ''operation'']),
                    (''additionalProperties'', JBool False),
                    (''properties'', jobj
                       [(''tool_name'', jobj [(''type'', JString ''string'')]),
                        (''operation'', jobj [(''type'', JString ''string'')]),
                        (''effect_class'', binding_effect_class_schema_v1)])])]),
            (''attachment_config'', binding_attachment_config_schema_v1),
            (''effect_class'', binding_effect_class_schema_v1),
            (''requested_by'', jobj [(''type'', JString ''string'')]),
            (''decided_by'', jobj [(''type'', JString ''string'')]),
            (''decision_event_id'', jobj [(''type'', JString ''string'')])])]"

definition binding_detached_payload_schema_v1 :: json where
  [schema_defs]:
  "binding_detached_payload_schema_v1 = jobj
       [(''type'', JString ''object''),
        (''required'', jstrs [''attach_event_id'', ''requested_by'', ''decided_by'']),
        (''additionalProperties'', JBool False),
        (''properties'', jobj
           [(''attach_event_id'', jobj [(''type'', JString ''string'')]),
            (''requested_by'', jobj [(''type'', JString ''string'')]),
            (''decided_by'', jobj [(''type'', JString ''string'')]),
            (''decision_event_id'', jobj [(''type'', JString ''string'')])])]"

definition turn_failed_payload_schema_v1 :: json where
  [schema_defs]:
  "turn_failed_payload_schema_v1 = jobj
       [(''type'', JString ''object''),
        (''required'', jstrs [''turn_id'', ''error_class'', ''message'', ''retries_attempted'']),
        (''additionalProperties'', JBool False),
        (''properties'', jobj
           [(''turn_id'', jobj [(''type'', JString ''string'')]),
            (''error_class'', jobj
               [(''enum'', jstrs [''provider_http'', ''provider_transport'', ''runner'', ''internal''])]),
            (''provider_id'', jobj [(''type'', JString ''string'')]),
            (''http_status'', jobj [(''type'', JString ''integer'')]),
            (''message'', jobj [(''type'', JString ''string'')]),
            (''retries_attempted'', jobj [(''type'', JString ''integer'')])])]"

definition grant_set_schema_v1 :: json where
  [schema_defs]:
  "grant_set_schema_v1 = jobj [(''type'', JString ''array''), (''items'', jobj [(''type'', JString ''string'')])]"

definition thread_spawned_payload_schema_v1 :: json where
  [schema_defs]:
  "thread_spawned_payload_schema_v1 = jobj
       [(''type'', JString ''object''),
        (''required'', jstrs
           [''parent_thread_id'', ''child_thread_id'', ''child_manifest_hash'',
            ''granted'', ''inputs_hash'']),
        (''additionalProperties'', JBool True),
        (''properties'', jobj
           [(''parent_thread_id'', jobj [(''type'', JString ''string'')]),
            (''parent_turn_id'', jobj [(''type'', JString ''string'')]),
            (''child_thread_id'', jobj [(''type'', JString ''string'')]),
            (''child_manifest_hash'', jobj [(''type'', JString ''string'')]),
            (''child_policy_hash'', jobj [(''type'', JString ''string'')]),
            (''granted'', grant_set_schema_v1),
            (''inputs_hash'', jobj [(''type'', JString ''string'')]),
            (''fork'', jobj
               [(''type'', JString ''object''),
                (''required'', jstrs [''mode'', ''sourceCut'']),
                (''additionalProperties'', JBool True),
                (''properties'', jobj
                   [(''mode'', jobj [(''type'', JString ''string'')]),
                    (''claim_event_id'', jobj [(''type'', JString ''string'')]),
                    (''sourceCut'', jobj
                       [(''type'', JString ''object''),
                        (''required'', jstrs
                           [''threadId'', ''checkpointId'',
                            ''leafEntryId'', ''streamId'',
                            ''streamToSequence'']),
                        (''additionalProperties'', JBool True),
                        (''properties'', jobj
                           [(''threadId'', jobj [(''type'', JString ''string'')]),
                            (''checkpointId'', jobj [(''type'', JString ''string'')]),
                            (''leafEntryId'', jobj [(''type'', jstrs [''string'', ''null''])]),
                            (''streamId'', jobj [(''type'', JString ''string'')]),
                            (''streamToSequence'', jobj [(''type'', jstrs [''integer'', ''null''])])])])])])])]"

definition thread_spawn_requested_payload_schema_v1 :: json where
  [schema_defs]:
  "thread_spawn_requested_payload_schema_v1 = jobj
       [(''type'', JString ''object''),
        (''required'', jstrs
           [''parent_thread_id'', ''child_agent_ref'', ''initial_submission'',
            ''correlation_id'']),
        (''additionalProperties'', JBool True),
        (''properties'', jobj
           [(''parent_thread_id'', jobj [(''type'', JString ''string'')]),
            (''parent_turn_id'', jobj [(''type'', JString ''string'')]),
            (''task_name'', jobj [(''type'', JString ''string'')]),
            (''submitted_turn_id'', jobj [(''type'', JString ''string'')]),
            (''child_agent_ref'', jobj [(''type'', JString ''string'')]),
            (''initial_submission'', jobj [(''type'', JString ''string'')]),
            (''correlation_id'', jobj [(''type'', JString ''string'')]),
            (''block_parent'', jobj [(''type'', JString ''boolean'')])])]"

definition thread_joined_payload_schema_v1 :: json where
  [schema_defs]:
  "thread_joined_payload_schema_v1 = jobj
       [(''type'', JString ''object''),
        (''required'', jstrs [''child_thread_id'', ''spawned_event_id'', ''terminal_state'']),
        (''additionalProperties'', JBool True),
        (''properties'', jobj
           [(''child_thread_id'', jobj [(''type'', JString ''string'')]),
            (''spawned_event_id'', jobj [(''type'', JString ''string'')]),
            (''terminal_state'', jobj
               [(''enum'', jstrs [''completed'', ''failed'', ''cancelled'', ''budget_exhausted''])]),
            (''result_digest'', jobj [(''type'', JString ''string'')])])]"

definition thread_branch_selected_payload_schema_v1 :: json where
  [schema_defs]:
  "thread_branch_selected_payload_schema_v1 = jobj
       [(''type'', JString ''object''),
        (''required'', jstrs [''thread_id'']),
        (''additionalProperties'', JBool True),
        (''properties'', jobj
           [(''thread_id'', jobj [(''type'', JString ''string'')]),
            (''selected_entry_id'', jobj [(''type'', jstrs [''string'', ''null''])]),
            (''prior_entry_id'', jobj [(''type'', jstrs [''string'', ''null''])])])]"

definition policy_bound_payload_schema_v1 :: json where
  [schema_defs]:
  "policy_bound_payload_schema_v1 = jobj
       [(''type'', JString ''object''),
        (''required'', jstrs [''policy_kind'', ''policy_id'', ''content_hash'', ''valid_from_note'']),
        (''additionalProperties'', JBool True),
        (''properties'', jobj
           [(''policy_kind'', jobj
               [(''type'', jstrs [''string'', ''object'']),
                (''additionalProperties'', JBool True)]),
            (''policy_id'', jobj [(''type'', JString ''string'')]),
            (''content_hash'', jobj [(''type'', JString ''string'')]),
            (''valid_from_note'', jobj [(''type'', JString ''string'')])])]"

definition event_id_array_schema_v1 :: json where
  [schema_defs]:
  "event_id_array_schema_v1 = jobj [(''type'', JString ''array''), (''items'', jobj [(''type'', JString ''string'')])]"

definition grant_petitioned_payload_schema_v1 :: json where
  [schema_defs]:
  "grant_petitioned_payload_schema_v1 = jobj
       [(''type'', JString ''object''),
        (''required'', jstrs [''thread_id'', ''requested'', ''reason'']),
        (''additionalProperties'', JBool True),
        (''properties'', jobj
           [(''thread_id'', jobj [(''type'', JString ''string'')]),
            (''requested'', grant_set_schema_v1),
            (''reason'', jobj [(''type'', JString ''string'')]),
            (''evidence_event_ids'', event_id_array_schema_v1)])]"

definition timer_fired_payload_schema_v1 :: json where
  [schema_defs]:
  "timer_fired_payload_schema_v1 = jobj
       [(''type'', JString ''object''),
        (''required'', jstrs [''mandate_event_id'', ''scheduled_for'', ''occurrence_index'', ''catch_up'']),
        (''additionalProperties'', JBool True),
        (''properties'', jobj
           [(''mandate_event_id'', jobj [(''type'', JString ''string'')]),
            (''scheduled_for'', jobj [(''type'', JString ''string'')]),
            (''occurrence_index'', jobj [(''type'', JString ''integer'')]),
            (''catch_up'', jobj [(''type'', JString ''boolean'')])])]"

definition client_record_appended_payload_schema_v1 :: json where
  [schema_defs]:
  "client_record_appended_payload_schema_v1 = jobj
       [(''type'', JString ''object''),
        (''required'', jstrs [''client_kind'', ''client_schema'', ''principal_id'', ''body'']),
        (''additionalProperties'', JBool False),
        (''properties'', jobj
           [(''client_kind'', jobj [(''type'', JString ''string'')]),
            (''client_schema'', jobj [(''type'', JString ''string'')]),
            (''principal_id'', jobj [(''type'', JString ''string'')]),
            (''body'', jobj
               [(''type'', jstrs [''object'', ''array'', ''string'', ''number'', ''boolean'', ''null'']),
                (''additionalProperties'', JBool True),
                (''items'', JBool True)])])]"

definition io_ingress_received_payload_schema_v1 :: json where
  [schema_defs]:
  "io_ingress_received_payload_schema_v1 = jobj
       [(''type'', JString ''object''),
        (''required'', jstrs [''envelope_digest'']),
        (''additionalProperties'', JBool True),
        (''properties'', jobj
           [(''route_id'', jobj [(''type'', JString ''string'')]),
            (''dedupe_key'', jobj [(''type'', JString ''string'')]),
            (''external_conversation_id'', jobj [(''type'', JString ''string'')]),
            (''external_actor_id'', jobj [(''type'', JString ''string'')]),
            (''external_message_id'', jobj [(''type'', JString ''string'')]),
            (''envelope_digest'', jobj [(''type'', JString ''string'')])])]"

definition thread_reload_degraded_payload_schema_v1 :: json where
  [schema_defs]:
  "thread_reload_degraded_payload_schema_v1 = jobj
       [(''type'', JString ''object''),
        (''required'', jstrs [''thread_id'', ''missing'', ''fallback'']),
        (''additionalProperties'', JBool False),
        (''properties'', jobj
           [(''thread_id'', jobj [(''type'', JString ''string'')]),
            (''missing'', jobj
               [(''type'', JString ''array''),
                (''items'', jobj [(''type'', JString ''string'')])]),
            (''fallback'', jobj [(''enum'', jstrs [''fabricated_root''])])])]"

definition io_ingress_claimed_payload_schema_v1 :: json where
  [schema_defs]:
  "io_ingress_claimed_payload_schema_v1 = jobj
       [(''type'', JString ''object''),
        (''required'', jstrs
           [''ingress_envelope_ids'', ''ingress_witness_event_ids'',
            ''admission_event_id'', ''intent'']),
        (''additionalProperties'', JBool False),
        (''properties'', jobj
           [(''ingress_envelope_ids'', string_array_schema_v1),
            (''ingress_witness_event_ids'', string_array_schema_v1),
            (''admission_event_id'', jobj [(''type'', JString ''string'')]),
            (''intent'', jobj
               [(''type'', JString ''object''),
                (''required'', jstrs [''outcome'']),
                (''additionalProperties'', JBool True),
                (''properties'', jobj
                   [(''outcome'', jobj
                       [(''enum'', jstrs [''turn'', ''fork'', ''interrupt'', ''observe'', ''reject''])])])])])]"

definition io_ingress_settled_payload_schema_v1 :: json where
  [schema_defs]:
  "io_ingress_settled_payload_schema_v1 = jobj
       [(''type'', JString ''object''),
        (''required'', jstrs [''claim_event_id'', ''ingress_envelope_ids'', ''settled_by'']),
        (''additionalProperties'', JBool False),
        (''properties'', jobj
           [(''claim_event_id'', jobj [(''type'', JString ''string'')]),
            (''ingress_envelope_ids'', string_array_schema_v1),
            (''evidence_event_id'', jobj [(''type'', JString ''string'')]),
            (''settled_by'', jobj [(''enum'', jstrs [''execution'', ''recovery''])])])]"

definition io_egress_requested_payload_schema_v1 :: json where
  [schema_defs]:
  "io_egress_requested_payload_schema_v1 = jobj
       [(''type'', JString ''object''),
        (''required'', jstrs [''egress_kind'', ''requested_by_tool_call_id'']),
        (''additionalProperties'', JBool True),
        (''properties'', jobj
           [(''egress_kind'', jobj [(''type'', JString ''object''), (''additionalProperties'', JBool True)]),
            (''resolved_target'', jobj [(''type'', JString ''object''), (''additionalProperties'', JBool True)]),
            (''requested_by_tool_call_id'', jobj [(''type'', JString ''string'')]),
            (''quote'', jobj [(''type'', JString ''string'')]),
            (''match_event_id'', jobj [(''type'', JString ''string'')])])]"

definition io_egress_delivered_payload_schema_v1 :: json where
  [schema_defs]:
  "io_egress_delivered_payload_schema_v1 = jobj
       [(''type'', JString ''object''),
        (''required'', jstrs [''route_id'', ''egress_kind'', ''attempts'']),
        (''additionalProperties'', JBool True),
        (''properties'', jobj
           [(''route_id'', jobj [(''type'', JString ''string'')]),
            (''egress_kind'', jobj [(''type'', JString ''string'')]),
            (''external_message_id'', jobj [(''type'', JString ''string'')]),
            (''attempts'', jobj [(''type'', JString ''integer'')])])]"

definition io_egress_failed_payload_schema_v1 :: json where
  [schema_defs]:
  "io_egress_failed_payload_schema_v1 = jobj
       [(''type'', JString ''object''),
        (''required'', jstrs [''route_id'', ''egress_kind'', ''attempts'', ''error_class'', ''dead_lettered'']),
        (''additionalProperties'', JBool True),
        (''properties'', jobj
           [(''route_id'', jobj [(''type'', JString ''string'')]),
            (''egress_kind'', jobj [(''type'', JString ''string'')]),
            (''attempts'', jobj [(''type'', JString ''integer'')]),
            (''error_class'', jobj [(''type'', JString ''string'')]),
            (''dead_lettered'', jobj [(''type'', JString ''boolean'')])])]"

definition admission_decision_schema_v1 :: json where
  [schema_defs]:
  "admission_decision_schema_v1 = jobj
       [(''enum'', jstrs
           [''queue'', ''steer'', ''interrupt'', ''fork'', ''observe'', ''reject'',
            ''coalesce''])]"

definition admission_decided_payload_schema_v1 :: json where
  [schema_defs]:
  "admission_decided_payload_schema_v1 = jobj
       [(''type'', JString ''object''),
        (''required'', jstrs [''route_id'', ''policy_hash'', ''decision'', ''source_ingress_event_ids'']),
        (''additionalProperties'', JBool True),
        (''properties'', jobj
           [(''route_id'', jobj [(''type'', JString ''string'')]),
            (''policy_hash'', jobj [(''type'', JString ''string'')]),
            (''decision'', admission_decision_schema_v1),
            (''admissible'', jobj [(''type'', JString ''array''), (''items'', admission_decision_schema_v1)]),
            (''source_ingress_event_ids'', event_id_array_schema_v1)])]"

definition debug_export_ack_classes_schema_v1 :: json where
  [schema_defs]:
  "debug_export_ack_classes_schema_v1 = jobj
       [(''type'', JString ''array''),
        (''items'', jobj [(''enum'', jstrs [''local_committed'', ''query_projected''])])]"

definition debug_export_backend_schema_v1 :: json where
  [schema_defs]:
  "debug_export_backend_schema_v1 = jobj
       [(''type'', JString ''object''),
        (''required'', jstrs [''kind'', ''sessionStorePath'']),
        (''additionalProperties'', JBool False),
        (''properties'', jobj
           [(''kind'', jobj [(''enum'', jstrs [''sqlite''])]),
            (''sessionStorePath'', jobj [(''type'', JString ''string'')]),
            (''ackClasses'', debug_export_ack_classes_schema_v1)])]"

definition nullable_stream_cursor_schema_v1 :: json where
  [schema_defs]:
  "nullable_stream_cursor_schema_v1 =
     object_insert ''type'' (jstrs [''object'', ''null'']) stream_cursor_schema_v1"

definition debug_export_stream_record_schema_v1 :: json where
  [schema_defs]:
  "debug_export_stream_record_schema_v1 = jobj
       [(''type'', JString ''object''),
        (''required'', jstrs
           [''schema'', ''event_id'', ''stream_id'', ''sequence'', ''kind'', ''origin'',
            ''payload_schema'', ''payload'', ''eventId'', ''atMs'']),
        (''additionalProperties'', JBool True),
        (''properties'', jobj
           [(''schema'', jobj [(''enum'', JArray [JString stream_record_schema_id])]),
            (''event_id'', jobj [(''type'', JString ''string'')]),
            (''stream_id'', jobj [(''type'', JString ''string'')]),
            (''sequence'', jobj [(''type'', JString ''integer'')]),
            (''kind'', jobj [(''type'', JString ''string'')]),
            (''origin'', jobj [(''enum'', jstrs [''witnessed'', ''discharged''])]),
            (''payload_schema'', jobj [(''type'', JString ''string'')]),
            (''payload'', jobj [(''type'', JString ''object''), (''additionalProperties'', JBool True)]),
            (''eventId'', jobj [(''type'', JString ''string'')]),
            (''atMs'', jobj [(''type'', JString ''integer'')])])]"

definition debug_export_receipt_schema_v1 :: json where
  [schema_defs]:
  "debug_export_receipt_schema_v1 = jobj
       [(''type'', JString ''object''),
        (''required'', jstrs
           [''eventId'', ''streamId'', ''sequence'', ''kind'', ''origin'',
            ''payloadSchema'', ''createdAtMs'']),
        (''additionalProperties'', JBool False),
        (''properties'', jobj
           [(''eventId'', jobj [(''type'', JString ''string'')]),
            (''streamId'', jobj [(''type'', JString ''string'')]),
            (''sequence'', jobj [(''type'', JString ''integer'')]),
            (''kind'', jobj [(''type'', JString ''string'')]),
            (''origin'', jobj [(''enum'', jstrs [''discharged''])]),
            (''payloadSchema'', jobj [(''type'', JString ''string'')]),
            (''createdAtMs'', jobj [(''type'', JString ''integer'')])])]"

definition debug_export_range_schema_v1 :: json where
  [schema_defs]:
  "debug_export_range_schema_v1 = jobj
       [(''type'', JString ''object''),
        (''required'', jstrs
           [''fromSequence'', ''fromCursor'', ''lastExportedSequence'',
            ''lastExportedStreamCursor'', ''toCursor'', ''tailSequence'',
            ''tailStreamCursor'', ''tailCursor'']),
        (''additionalProperties'', JBool False),
        (''properties'', jobj
           [(''fromSequence'', jobj [(''type'', JString ''integer'')]),
            (''fromCursor'', jobj [(''type'', JString ''string'')]),
            (''lastExportedSequence'', jobj [(''type'', jstrs [''integer'', ''null''])]),
            (''lastExportedStreamCursor'', nullable_stream_cursor_schema_v1),
            (''toCursor'', jobj [(''type'', jstrs [''string'', ''null''])]),
            (''tailSequence'', jobj [(''type'', jstrs [''integer'', ''null''])]),
            (''tailStreamCursor'', nullable_stream_cursor_schema_v1),
            (''tailCursor'', jobj [(''type'', JString ''string'')])])]"

definition debug_thread_export_schema_v1 :: json where
  [schema_defs]:
  "debug_thread_export_schema_v1 = (let ack_classes = debug_export_ack_classes_schema_v1;
          backend = debug_export_backend_schema_v1;
          stream_record = debug_export_stream_record_schema_v1;
          receipt = debug_export_receipt_schema_v1;
          range = debug_export_range_schema_v1
      in jobj
       [(''type'', JString ''object''),
        (''required'', jstrs
           [''schema'', ''threadId'', ''generatedAtMs'', ''backend'', ''ackClasses'',
            ''redaction'', ''thread'', ''streams'', ''receipts'']),
        (''additionalProperties'', JBool False),
        (''properties'', jobj
           [(''schema'', jobj [(''enum'', JArray [JString debug_thread_export_schema_id])]),
            (''threadId'', jobj [(''type'', JString ''string'')]),
            (''generatedAtMs'', jobj [(''type'', JString ''integer'')]),
            (''backend'', backend),
            (''ackClasses'', ack_classes),
            (''thread'', jobj
               [(''type'', jstrs [''object'', ''null'']),
                (''additionalProperties'', JBool True)]),
            (''redaction'', jobj
               [(''type'', JString ''object''),
                (''required'', jstrs [''enabled'', ''mode'', ''replacement'', ''redactedKeys'']),
                (''additionalProperties'', JBool False),
                (''properties'', jobj
                   [(''enabled'', jobj [(''type'', JString ''boolean'')]),
                    (''mode'', jobj [(''enum'', jstrs [''secret-shaped-json-keys'', ''none''])]),
                    (''replacement'', jobj [(''type'', JString ''string'')]),
                    (''redactedKeys'', jobj
                       [(''type'', JString ''array''),
                        (''items'', jobj [(''type'', JString ''string'')])])])]),
            (''streams'', jobj
               [(''type'', JString ''array''),
                (''items'', jobj
                   [(''type'', JString ''object''),
                    (''required'', jstrs
                       [''selector'', ''streamId'', ''backend'',
                        ''ackClasses'', ''range'', ''data'', ''eventCount'',
                        ''truncated'', ''cursor'', ''streamCursor'']),
                    (''additionalProperties'', JBool False),
                    (''properties'', jobj
                       [(''selector'', jobj [(''type'', JString ''string'')]),
                        (''streamId'', jobj [(''type'', JString ''string'')]),
                        (''backend'', debug_export_backend_schema_v1),
                        (''ackClasses'', debug_export_ack_classes_schema_v1),
                        (''range'', range),
                        (''data'', jobj [(''type'', JString ''array''), (''items'', stream_record)]),
                        (''eventCount'', jobj [(''type'', JString ''integer'')]),
                        (''truncated'', jobj [(''type'', JString ''boolean'')]),
                        (''cursor'', jobj [(''type'', jstrs [''string'', ''null''])]),
                        (''streamCursor'', nullable_stream_cursor_schema_v1)])])]),
            (''receipts'', jobj [(''type'', JString ''array''), (''items'', receipt)])])])"

subsection \<open>The registry\<close>

definition frozen_schemas :: "(string \<times> json) list" where
  "frozen_schemas =
     [(stream_record_schema_id, stream_record_schema_v1),
      (stream_cursor_schema_id, stream_cursor_schema_v1),
      (stream_backend_capabilities_schema_id, stream_backend_capabilities_schema_v1),
      (stream_append_ack_schema_id, stream_append_ack_schema_v1),
      (stream_routing_decision_schema_id, stream_routing_decision_schema_v1),
      (context_read_plan_schema_id, context_read_plan_schema_v1),
      (debug_thread_export_schema_id, debug_thread_export_schema_v1),
      (payload_schema_id ContextCompileCompleted, context_compile_completed_payload_schema_v1),
      (payload_schema_id ContextSummaryCompleted, context_summary_completed_payload_schema_v1),
      (payload_schema_id ContextReadPlanSet, context_read_plan_set_payload_schema_v1),
      (payload_schema_id BindingAttached, binding_attached_payload_schema_v1),
      (payload_schema_id BindingDetached, binding_detached_payload_schema_v1),
      (payload_schema_id TurnFailed, turn_failed_payload_schema_v1),
      (payload_schema_id ThreadSpawnRequested, thread_spawn_requested_payload_schema_v1),
      (payload_schema_id ThreadSpawned, thread_spawned_payload_schema_v1),
      (payload_schema_id ThreadJoined, thread_joined_payload_schema_v1),
      (payload_schema_id ThreadBranchSelected, thread_branch_selected_payload_schema_v1),
      (payload_schema_id ThreadReloadDegraded, thread_reload_degraded_payload_schema_v1),
      (payload_schema_id PolicyBound, policy_bound_payload_schema_v1),
      (payload_schema_id GrantPetitioned, grant_petitioned_payload_schema_v1),
      (payload_schema_id TimerFired, timer_fired_payload_schema_v1),
      (payload_schema_id ClientRecordAppended, client_record_appended_payload_schema_v1),
      (payload_schema_id IoIngressReceived, io_ingress_received_payload_schema_v1),
      (payload_schema_id IoIngressClaimed, io_ingress_claimed_payload_schema_v1),
      (payload_schema_id IoIngressSettled, io_ingress_settled_payload_schema_v1),
      (payload_schema_id IoEgressRequested, io_egress_requested_payload_schema_v1),
      (payload_schema_id IoEgressDelivered, io_egress_delivered_payload_schema_v1),
      (payload_schema_id IoEgressFailed, io_egress_failed_payload_schema_v1),
      (payload_schema_id AdmissionDecided, admission_decided_payload_schema_v1)]"

primrec register_all ::
  "schema_registry \<Rightarrow> (string \<times> json) list \<Rightarrow> unit schema_result \<times> schema_registry" where
  "register_all r [] = (Inr (), r)"
| "register_all r (p # ps) =
     (case registry_register r (fst p) (snd p) of
        (Inl e, r') \<Rightarrow> (Inl e, r')
      | (Inr _, r') \<Rightarrow> register_all r' ps)"

definition stream_schema_registry_outcome :: "unit schema_result" where
  "stream_schema_registry_outcome = fst (register_all registry_new frozen_schemas)"

definition stream_schema_registry_v1 :: schema_registry where
  "stream_schema_registry_v1 = snd (register_all registry_new frozen_schemas)"

definition validate_context_payload_schema_v1 :: "event_kind \<Rightarrow> json \<Rightarrow> unit schema_result" where
  "validate_context_payload_schema_v1 kind payload =
     registry_validate stream_schema_registry_v1 (payload_schema_id kind) payload"

subsection \<open>Every frozen schema is interpretable\<close>

lemma nullable_stream_cursor_shape:
  "nullable_stream_cursor_schema_v1 = jobj
     [(''type'', jstrs [''object'', ''null'']),
      (''required'', jstrs [''schema'', ''stream_id'', ''sequence'', ''event_id'']),
      (''additionalProperties'', JBool False),
      (''properties'', jobj
         [(''schema'', jobj [(''enum'', JArray [JString stream_cursor_schema_id])]),
          (''stream_id'', jobj [(''type'', JString ''string'')]),
          (''sequence'', jobj [(''type'', JString ''integer'')]),
          (''event_id'', jobj [(''type'', JString ''string'')])])]"
  unfolding nullable_stream_cursor_schema_v1_def stream_cursor_schema_v1_def
    jobj_def [of "[(''type'', _), (''required'', _), _, _]"] shape_keys object_insert.simps
  by simp

lemmas schema_ok_simps = schema_ok_rules scalar_types_def schema_type_universe_def

lemma stream_schemas_ok:
  "schema_ok 0 stream_record_schema_v1"
  "schema_ok 0 stream_cursor_schema_v1"
  "schema_ok 0 stream_backend_capabilities_schema_v1"
  "schema_ok 0 stream_append_ack_schema_v1"
  "schema_ok 0 stream_routing_decision_schema_v1"
  "schema_ok 0 context_read_plan_schema_v1"
  unfolding schema_defs by (simp_all add: schema_ok_simps)

lemma payload_schemas_ok:
  "schema_ok 0 context_compile_completed_payload_schema_v1"
  "schema_ok 0 context_summary_completed_payload_schema_v1"
  "schema_ok 0 context_read_plan_set_payload_schema_v1"
  "schema_ok 0 binding_attached_payload_schema_v1"
  "schema_ok 0 binding_detached_payload_schema_v1"
  "schema_ok 0 turn_failed_payload_schema_v1"
  "schema_ok 0 thread_spawn_requested_payload_schema_v1"
  "schema_ok 0 thread_spawned_payload_schema_v1"
  "schema_ok 0 thread_joined_payload_schema_v1"
  "schema_ok 0 thread_branch_selected_payload_schema_v1"
  "schema_ok 0 thread_reload_degraded_payload_schema_v1"
  "schema_ok 0 policy_bound_payload_schema_v1"
  "schema_ok 0 grant_petitioned_payload_schema_v1"
  "schema_ok 0 timer_fired_payload_schema_v1"
  "schema_ok 0 client_record_appended_payload_schema_v1"
  "schema_ok 0 io_ingress_received_payload_schema_v1"
  "schema_ok 0 io_ingress_claimed_payload_schema_v1"
  "schema_ok 0 io_ingress_settled_payload_schema_v1"
  "schema_ok 0 io_egress_requested_payload_schema_v1"
  "schema_ok 0 io_egress_delivered_payload_schema_v1"
  "schema_ok 0 io_egress_failed_payload_schema_v1"
  "schema_ok 0 admission_decided_payload_schema_v1"
  unfolding schema_defs by (simp_all add: schema_ok_simps)

lemma nullable_stream_cursor_ok: "d \<le> 62 \<Longrightarrow> schema_ok d nullable_stream_cursor_schema_v1"
  unfolding nullable_stream_cursor_shape by (simp add: schema_ok_simps)

lemma debug_export_parts_ok:
  "d \<le> 60 \<Longrightarrow> schema_ok d debug_export_ack_classes_schema_v1"
  "d \<le> 60 \<Longrightarrow> schema_ok d debug_export_backend_schema_v1"
  "d \<le> 60 \<Longrightarrow> schema_ok d debug_export_receipt_schema_v1"
  "d \<le> 60 \<Longrightarrow> schema_ok d debug_export_stream_record_schema_v1"
  "d \<le> 60 \<Longrightarrow> schema_ok d debug_export_range_schema_v1"
  unfolding debug_export_range_schema_v1_def debug_export_ack_classes_schema_v1_def
    debug_export_backend_schema_v1_def debug_export_receipt_schema_v1_def
    debug_export_stream_record_schema_v1_def
  by (simp_all add: schema_ok_simps nullable_stream_cursor_ok)

lemma debug_export_objects:
  "is_object debug_export_receipt_schema_v1" "is_object debug_export_stream_record_schema_v1"
  by (simp_all add: debug_export_receipt_schema_v1_def debug_export_stream_record_schema_v1_def)

lemma debug_thread_export_ok: "schema_ok 0 debug_thread_export_schema_v1"
  unfolding debug_thread_export_schema_v1_def Let_def
  by (simp add: schema_ok_simps debug_export_parts_ok debug_export_objects
      nullable_stream_cursor_ok)

lemma frozen_schemas_ok: "\<forall>(i, s) \<in> set frozen_schemas. schema_ok 0 s"
  by (simp add: frozen_schemas_def stream_schemas_ok payload_schemas_ok debug_thread_export_ok)

lemma payload_schema_id_inject: "payload_schema_id a = payload_schema_id b \<longleftrightarrow> a = b"
  by (simp add: payload_schema_id_def event_kind_str_inject)

lemma frozen_ids_distinct: "distinct (map fst frozen_schemas)"
  by (simp add: frozen_schemas_def payload_schema_id_inject payload_schema_id_def
      stream_record_schema_id_def stream_cursor_schema_id_def
      stream_backend_capabilities_schema_id_def stream_append_ack_schema_id_def
      stream_routing_decision_schema_id_def context_read_plan_schema_id_def
      debug_thread_export_schema_id_def)

lemma register_all_ok:
  "\<forall>(i, s) \<in> set ps. schema_ok 0 s \<Longrightarrow>
   register_all r ps =
     (Inr (), r\<lparr>sr_schemas := fold (\<lambda>(k, v). bt_insert k v) ps (sr_schemas r)\<rparr>)"
proof (induction ps arbitrary: r)
  case Nil
  then show ?case by simp
next
  case (Cons p ps)
  then have "registry_register r (fst p) (snd p) =
      (Inr (), r\<lparr>sr_schemas := bt_insert (fst p) (snd p) (sr_schemas r)\<rparr>)"
    by (simp add: registry_register_ok schema_ok_subset case_prod_beta)
  with Cons show ?case by (simp add: case_prod_beta)
qed

lemma registry_lookup:
  "map_of (sr_schemas stream_schema_registry_v1) i = map_of frozen_schemas i"
  unfolding stream_schema_registry_v1_def register_all_ok [OF frozen_schemas_ok] registry_new_def
  using map_of_bt_of [OF frozen_ids_distinct] by (simp add: bt_of_def)

lemma registry_validate_iff:
  assumes "(i, s) \<in> set frozen_schemas"
  shows "registry_validate stream_schema_registry_v1 i v = Inr () \<longleftrightarrow> conforms 0 s v"
proof -
  from assms have "map_of frozen_schemas i = Some s"
    using frozen_ids_distinct by (simp add: map_of_eq_Some_iff)
  moreover from assms frozen_schemas_ok have "schema_ok 0 s" by auto
  ultimately show ?thesis
    by (simp add: registry_validate_def registry_lookup validate_json_value_against_schema_def
        schema_ok_def validate_value_iff_conforms)
qed

text \<open>
  C31. Building the frozen registry never fails, so the \<open>expect\<close> of \<open>stream_schema_registry_v1\<close>
  never panics: every one of the 29 schemas passes the preflight, no two are registered under the
  same id, and a look-up returns exactly the schema registered under that id.
\<close>

theorem frozen_registry_never_panics:
  "stream_schema_registry_outcome = Inr () \<and> distinct (map fst frozen_schemas) \<and>
   length frozen_schemas = 29 \<and>
   map_of (sr_schemas stream_schema_registry_v1) = map_of frozen_schemas"
  using frozen_ids_distinct registry_lookup
  by (simp add: stream_schema_registry_outcome_def register_all_ok [OF frozen_schemas_ok] fun_eq_iff)
    (simp add: frozen_schemas_def)

end
