(* ===== verification/Stream_Records.thy ===== *)
theory Stream_Records
  imports Stream_Schemas
begin

section \<open>Records validate against the frozen schemas\<close>

text \<open>
  \<^verbatim>\<open>src/crates/verlet-history/src/lib.rs\<close>: \<open>EventRecord::validate_stream_record_v1\<close> and
  \<open>StreamCursorV1::validate_stream_cursor_v1\<close>, the two checks the append and the replay paths
  make, with the exact condition under which each succeeds; and the fact that the typed payload
  encoders produce values the registered schemas accept.
\<close>

subsection \<open>The checks\<close>

definition schema_codec :: "'a schema_result \<Rightarrow> 'a history_result" where
  "schema_codec r = (case r of Inl e \<Rightarrow> Inl (Codec (CodecSchema e)) | Inr a \<Rightarrow> Inr a)"

definition validate_stream_record_v1 :: "(uuid \<Rightarrow> string) \<Rightarrow> event_record \<Rightarrow> unit history_result" where
  "validate_stream_record_v1 show_uuid e =
     and_then (schema_codec (registry_validate stream_schema_registry_v1 stream_record_schema_id
         (json_of_envelope show_uuid (to_stream_record_v1 e)))) (\<lambda>_.
       if ev_kind e = IoEgressRequested
       then schema_codec (registry_validate stream_schema_registry_v1
              (payload_schema_id (ev_kind e)) (ev_payload e))
       else Inr ())"

definition validate_stream_cursor_v1 :: "(uuid \<Rightarrow> string) \<Rightarrow> stream_cursor \<Rightarrow> unit history_result" where
  "validate_stream_cursor_v1 show_uuid c =
     (if cu_schema c \<noteq> stream_cursor_schema_id
      then Inl (Codec (UnsupportedCursorSchema (cu_schema c)))
      else if sequence_get (cu_sequence c) < 1
      then Inl (Codec (CursorSequenceNotPositive (sequence_get (cu_sequence c))))
      else schema_codec (registry_validate stream_schema_registry_v1 stream_cursor_schema_id
             (json_of_cursor show_uuid c)))"

subsection \<open>Leaves of the encoders\<close>

lemma encoded_leaves [simp]:
  "json_of_event_id sh i = JString (show_event_id sh i)"
  "json_of_entry_id sh n = JString (show_entry_id sh n)"
  "json_of_thread_id sh t = JString (show_thread_id sh t)"
  "json_of_stream_id s = JString (stream_id_str s)"
  by (simp_all add: json_of_event_id_def json_of_entry_id_def json_of_thread_id_def
      json_of_stream_id_def)

lemma encoded_integers [simp]:
  "is_json_integer (json_of_sequence q)" "is_json_integer (json_of_u32 a)"
  "is_json_integer (json_of_u16 b)"
  by (simp_all add: json_of_sequence_def json_of_u32_def json_of_u16_def is_json_integer_def
      json_of_i64_def)

lemma schema_codec_ok: "schema_codec r = Inr a \<longleftrightarrow> r = Inr a"
  by (cases r) (simp_all add: schema_codec_def)

lemma frozen_envelopes:
  "(stream_record_schema_id, stream_record_schema_v1) \<in> set frozen_schemas"
  "(stream_cursor_schema_id, stream_cursor_schema_v1) \<in> set frozen_schemas"
  "(stream_backend_capabilities_schema_id, stream_backend_capabilities_schema_v1)
     \<in> set frozen_schemas"
  "(stream_append_ack_schema_id, stream_append_ack_schema_v1) \<in> set frozen_schemas"
  "(stream_routing_decision_schema_id, stream_routing_decision_schema_v1) \<in> set frozen_schemas"
  by (simp_all add: frozen_schemas_def)

lemma origin_enum: "event_origin_str o1 \<in> set [''witnessed'', ''discharged'']"
  by (cases o1) simp_all

lemma coordinates_conform:
  "d \<le> 60 \<Longrightarrow> conforms d (jobj
     [(''type'', JString ''object''),
      (''required'', jstrs [''tenant_id'', ''user_id'', ''session_id'', ''thread_id'']),
      (''additionalProperties'', JBool False),
      (''properties'', jobj
         [(''tenant_id'', jobj [(''type'', JString ''string'')]),
          (''user_id'', jobj [(''type'', JString ''string'')]),
          (''session_id'', jobj [(''type'', JString ''string'')]),
          (''thread_id'', jobj [(''type'', JString ''string'')])])]) (json_of_coordinates sh c)"
  unfolding json_of_coordinates_def
  by (simp add: conforms_rules member_simps)

lemma envelope_conforms:
  "is_object (se_payload e) \<Longrightarrow> se_schema e = stream_record_schema_id \<Longrightarrow>
   \<forall>t. se_trace_context e = Some t \<longrightarrow> is_object t \<Longrightarrow>
   conforms 0 stream_record_schema_v1 (json_of_envelope sh e)"
  unfolding json_of_envelope_def stream_record_schema_v1_def
  using origin_enum [of "se_origin e"]
  by (simp add: conforms_rules member_simps coordinates_conform json_of_provenance_def)

lemma envelope_payload_object:
  assumes "conforms 0 stream_record_schema_v1 (json_of_envelope sh (to_stream_record_v1 e))"
  shows "is_object (ev_payload e)"
proof -
  have "conforms (Suc 0)
      (jobj [(''type'', JString ''object''), (''additionalProperties'', JBool True)]) (ev_payload e)"
    using assms unfolding stream_record_schema_v1_def json_of_envelope_def to_stream_record_v1_def
    by (rule conforms_object_memberD [where k = "''payload''"]) (simp_all add: field_def opt_field_def)
  then show ?thesis by (rule conforms_open_objectD)
qed

lemma frozen_payloads:
  "(payload_schema_id IoEgressRequested, io_egress_requested_payload_schema_v1)
     \<in> set frozen_schemas"
  "(payload_schema_id ThreadReloadDegraded, thread_reload_degraded_payload_schema_v1)
     \<in> set frozen_schemas"
  by (simp_all add: frozen_schemas_def)

text \<open>
  The append check depends on the payload only: it must be an object and, for an egress request,
  conform to the schema of that kind.
\<close>

lemma validate_stream_record_iff:
  "validate_stream_record_v1 sh e = Inr () \<longleftrightarrow>
     is_object (ev_payload e) \<and>
     (ev_kind e = IoEgressRequested \<longrightarrow>
        conforms 0 io_egress_requested_payload_schema_v1 (ev_payload e))"
proof -
  have "conforms 0 stream_record_schema_v1 (json_of_envelope sh (to_stream_record_v1 e)) \<longleftrightarrow>
      is_object (ev_payload e)"
    using envelope_payload_object [of sh e] envelope_conforms [of "to_stream_record_v1 e" sh]
    by (auto simp: to_stream_record_v1_def)
  then show ?thesis
    using registry_validate_iff [OF frozen_envelopes(1)]
      registry_validate_iff [OF frozen_payloads(1)]
    by (simp add: validate_stream_record_v1_def and_then_unit schema_codec_ok)
qed

lemma cursor_conforms:
  "cu_schema c = stream_cursor_schema_id \<Longrightarrow>
   conforms 0 stream_cursor_schema_v1 (json_of_cursor sh c)"
  unfolding stream_cursor_schema_v1_def json_of_cursor_def
  by (simp add: conforms_rules member_simps)

lemma validate_cursor_iff:
  "validate_stream_cursor_v1 sh c = Inr () \<longleftrightarrow>
     cu_schema c = stream_cursor_schema_id \<and> 1 \<le> sequence_get (cu_sequence c)"
  using registry_validate_iff [OF frozen_envelopes(2)] cursor_conforms [of c sh]
  by (auto simp: validate_stream_cursor_v1_def schema_codec_ok)

subsection \<open>Typed payloads conform to their schemas\<close>

lemmas payload_schema_literals =
  string_array_schema_v1_def grant_set_schema_v1_def event_id_array_schema_v1_def
  binding_effect_class_schema_v1_def admission_decision_schema_v1_def

lemma enum_strings:
  "turn_failure_error_class_str c \<in>
     set [''provider_http'', ''provider_transport'', ''runner'', ''internal'']"
  "thread_terminal_state_str t \<in> set [''completed'', ''failed'', ''cancelled'', ''budget_exhausted'']"
  "ingress_settled_by_str b \<in> set [''execution'', ''recovery'']"
  "binding_effect_class_str ec \<in> set [''pure'', ''idempotent'', ''at-most-once'']"
  "admission_decision_str a \<in>
     set [''queue'', ''steer'', ''interrupt'', ''fork'', ''observe'', ''reject'', ''coalesce'']"
  subgoal by (cases c) simp_all
  subgoal by (cases t) simp_all
  subgoal by (cases b) simp_all
  subgoal by (cases ec) simp_all
  subgoal by (cases a) simp_all
  done

lemmas payload_simps = conforms_rules member_simps payload_schema_literals enum_strings [simplified]

lemma flat_payloads_conform:
  "conforms 0 turn_failed_payload_schema_v1 (json_of_turn_failed tf)"
  "conforms 0 binding_detached_payload_schema_v1 (json_of_binding_detached sh bd)"
  "conforms 0 thread_spawn_requested_payload_schema_v1 (json_of_thread_spawn_requested sh sr)"
  "conforms 0 thread_joined_payload_schema_v1 (json_of_thread_joined sh tj)"
  "conforms 0 thread_branch_selected_payload_schema_v1 (json_of_thread_branch_selected sh bs)"
  "conforms 0 grant_petitioned_payload_schema_v1 (json_of_grant_petitioned sh gp)"
  "conforms 0 timer_fired_payload_schema_v1 (json_of_timer_fired sh ti)"
  "conforms 0 client_record_appended_payload_schema_v1 (json_of_client_record_appended cr)"
  "conforms 0 io_ingress_received_payload_schema_v1 (json_of_io_ingress_received ir)"
  "conforms 0 io_ingress_settled_payload_schema_v1 (json_of_io_ingress_settled sh is)"
  "conforms 0 io_egress_delivered_payload_schema_v1 (json_of_io_egress_delivered ed)"
  "conforms 0 io_egress_failed_payload_schema_v1 (json_of_io_egress_failed ef)"
  "conforms 0 admission_decided_payload_schema_v1 (json_of_admission_decided sh ad)"
  unfolding schema_defs payload_defs
  by (simp_all add: payload_simps json_of_admission_decision_def)

lemma policy_bound_conforms: "conforms 0 policy_bound_payload_schema_v1 (json_of_policy_bound p)"
  unfolding policy_bound_payload_schema_v1_def json_of_policy_bound_def
  by (cases "pb_policy_kind p") (simp_all add: payload_simps)

lemma intent_conforms:
  "d \<le> 60 \<Longrightarrow> conforms d (jobj
     [(''type'', JString ''object''),
      (''required'', jstrs [''outcome'']),
      (''additionalProperties'', JBool True),
      (''properties'', jobj
         [(''outcome'', jobj
             [(''enum'', jstrs [''turn'', ''fork'', ''interrupt'', ''observe'', ''reject''])])])])
     (json_of_ingress_intent sh i)"
  by (cases i) (simp_all add: payload_simps)

lemma io_ingress_claimed_conforms:
  "conforms 0 io_ingress_claimed_payload_schema_v1 (json_of_io_ingress_claimed sh p)"
  unfolding io_ingress_claimed_payload_schema_v1_def json_of_io_ingress_claimed_def
  by (simp add: payload_simps intent_conforms)

lemma source_cut_values:
  "json_of_option (json_of_entry_id sh) l = JNull \<or> is_string (json_of_option (json_of_entry_id sh) l)"
  "json_of_option json_of_sequence q = JNull \<or> is_json_integer (json_of_option json_of_sequence q)"
  by (cases l; cases q; simp add: json_of_option_def)+

lemma thread_spawned_conforms:
  "conforms 0 thread_spawned_payload_schema_v1 (json_of_thread_spawned sh p)"
  unfolding thread_spawned_payload_schema_v1_def json_of_thread_spawned_def
    json_of_thread_spawned_fork_def json_of_fork_source_cut_def
  by (simp add: payload_simps source_cut_values)

lemma ball_map_field:
  "(\<forall>p \<in> set (map_field k f m). P p) \<longleftrightarrow>
   (m \<noteq> [] \<longrightarrow> P (k, JObject (map (\<lambda>(k', v). (k', f v)) m)))"
  by (simp add: map_field_def)

lemma string_lists_conform:
  "d \<le> 61 \<Longrightarrow> conforms d (jobj [(''type'', JString ''object''), (''additionalProperties'',
     jobj [(''type'', JString ''array''), (''items'', jobj [(''type'', JString ''string'')])])])
     (JObject (map (\<lambda>(k, v). (k, jstrs v)) m))"
  by (rule conforms_map_object) (auto intro!: conforms_string_array)

lemma attachment_config_conforms:
  "d \<le> 60 \<Longrightarrow>
   conforms d binding_attachment_config_schema_v1 (json_of_attachment_config c)"
  unfolding binding_attachment_config_schema_v1_def json_of_attachment_config_def
  by (simp add: payload_simps ball_map_field string_lists_conform)

lemma ball_effect_class_field:
  "(\<forall>p \<in> set (effect_class_field c). P p) \<longleftrightarrow>
   (c \<noteq> AtMostOnce \<longrightarrow> P (''effect_class'', JString (binding_effect_class_str c)))"
  by (simp add: effect_class_field_def is_at_most_once_def)

lemma binding_attached_conforms:
  "conforms 0 binding_attached_payload_schema_v1 (json_of_binding_attached sh p)"
  unfolding binding_attached_payload_schema_v1_def json_of_binding_attached_def
    json_of_direct_tool_def
  by (simp add: payload_simps ball_effect_class_field attachment_config_conforms)

lemma payload_validates:
  "(payload_schema_id k, s) \<in> set frozen_schemas \<Longrightarrow> conforms 0 s v \<Longrightarrow>
   validate_context_payload_schema_v1 k v = Inr ()"
  by (simp add: validate_context_payload_schema_v1_def registry_validate_iff)

lemmas payload_conforms = flat_payloads_conform policy_bound_conforms io_ingress_claimed_conforms
  thread_spawned_conforms binding_attached_conforms

lemma egress_requested_iff:
  "conforms 0 io_egress_requested_payload_schema_v1 (json_of_io_egress_requested sh p) \<longleftrightarrow>
     is_object (er_egress_kind p) \<and> (\<forall>t. er_resolved_target p = Some t \<longrightarrow> is_object t)"
proof
  assume l: "conforms 0 io_egress_requested_payload_schema_v1 (json_of_io_egress_requested sh p)"
  let ?open = "jobj [(''type'', JString ''object''), (''additionalProperties'', JBool True)]"
  have distinct: "distinct (map fst
     (field ''egress_kind'' (er_egress_kind p) @
      opt_field ''resolved_target'' (\<lambda>v. v) (er_resolved_target p) @
      field ''requested_by_tool_call_id'' (JString (er_requested_by_tool_call_id p)) @
      opt_field ''quote'' JString (er_quote p) @
      opt_field ''match_event_id'' (json_of_event_id sh) (er_match_event_id p)))"
    by (simp add: field_def opt_field_def split: option.splits)
  have "conforms (Suc 0) ?open (er_egress_kind p)"
    using l unfolding io_egress_requested_payload_schema_v1_def json_of_io_egress_requested_def
    by (rule conforms_object_memberD [where k = "''egress_kind''", OF _ _ _ distinct])
      (simp_all add: field_def)
  moreover have "conforms (Suc 0) ?open t" if "er_resolved_target p = Some t" for t
    using l unfolding io_egress_requested_payload_schema_v1_def json_of_io_egress_requested_def
    by (rule conforms_object_memberD [where k = "''resolved_target''", OF _ _ _ distinct])
      (simp_all add: opt_field_def that)
  ultimately show "is_object (er_egress_kind p) \<and> (\<forall>t. er_resolved_target p = Some t \<longrightarrow> is_object t)"
    by (blast dest: conforms_open_objectD)
next
  assume "is_object (er_egress_kind p) \<and> (\<forall>t. er_resolved_target p = Some t \<longrightarrow> is_object t)"
  then show "conforms 0 io_egress_requested_payload_schema_v1 (json_of_io_egress_requested sh p)"
    unfolding io_egress_requested_payload_schema_v1_def json_of_io_egress_requested_def
    by (simp add: payload_simps)
qed

lemma reload_degraded_iff:
  "conforms 0 thread_reload_degraded_payload_schema_v1 (json_of_thread_reload_degraded sh p) \<longleftrightarrow>
     rd_fallback p = ''fabricated_root''"
proof
  assume l: "conforms 0 thread_reload_degraded_payload_schema_v1 (json_of_thread_reload_degraded sh p)"
  have "conforms (Suc 0) (jobj [(''enum'', jstrs [''fabricated_root''])]) (JString (rd_fallback p))"
    using l unfolding thread_reload_degraded_payload_schema_v1_def json_of_thread_reload_degraded_def
    by (rule conforms_object_memberD [where k = "''fallback''"]) (simp_all add: field_def)
  from conforms_enum_strsD [OF this] show "rd_fallback p = ''fabricated_root''" by simp
next
  assume "rd_fallback p = ''fabricated_root''"
  then show "conforms 0 thread_reload_degraded_payload_schema_v1 (json_of_thread_reload_degraded sh p)"
    unfolding thread_reload_degraded_payload_schema_v1_def json_of_thread_reload_degraded_def
    by (simp add: payload_simps)
qed

text \<open>
  C32. The derived serializers and the frozen schemas agree.  Of the nineteen typed payloads, seventeen
  are accepted by the schema registered for their event kind whatever their fields hold.  The other two
  have a field whose type is wider than the schema: an egress request is accepted exactly if its egress
  kind and its resolved target, if it has one, are JSON objects, and a degraded reload exactly if its
  fallback is the one the schema names.
\<close>

theorem payload_encoders_conform:
  "validate_context_payload_schema_v1 TurnFailed (json_of_turn_failed tf) = Inr () \<and>
   validate_context_payload_schema_v1 BindingAttached (json_of_binding_attached sh ba) = Inr () \<and>
   validate_context_payload_schema_v1 BindingDetached (json_of_binding_detached sh bd) = Inr () \<and>
   validate_context_payload_schema_v1 ThreadSpawnRequested
     (json_of_thread_spawn_requested sh sr) = Inr () \<and>
   validate_context_payload_schema_v1 ThreadSpawned (json_of_thread_spawned sh sp) = Inr () \<and>
   validate_context_payload_schema_v1 ThreadJoined (json_of_thread_joined sh tj) = Inr () \<and>
   validate_context_payload_schema_v1 ThreadBranchSelected
     (json_of_thread_branch_selected sh bs) = Inr () \<and>
   validate_context_payload_schema_v1 PolicyBound (json_of_policy_bound pb) = Inr () \<and>
   validate_context_payload_schema_v1 GrantPetitioned (json_of_grant_petitioned sh gp) = Inr () \<and>
   validate_context_payload_schema_v1 TimerFired (json_of_timer_fired sh ti) = Inr () \<and>
   validate_context_payload_schema_v1 ClientRecordAppended
     (json_of_client_record_appended cr) = Inr () \<and>
   validate_context_payload_schema_v1 IoIngressReceived (json_of_io_ingress_received ir) = Inr () \<and>
   validate_context_payload_schema_v1 IoIngressClaimed (json_of_io_ingress_claimed sh ic) = Inr () \<and>
   validate_context_payload_schema_v1 IoIngressSettled (json_of_io_ingress_settled sh is) = Inr () \<and>
   validate_context_payload_schema_v1 IoEgressDelivered (json_of_io_egress_delivered ed) = Inr () \<and>
   validate_context_payload_schema_v1 IoEgressFailed (json_of_io_egress_failed ef) = Inr () \<and>
   validate_context_payload_schema_v1 AdmissionDecided (json_of_admission_decided sh ad) = Inr () \<and>
   (validate_context_payload_schema_v1 IoEgressRequested (json_of_io_egress_requested sh er) = Inr () \<longleftrightarrow>
      is_object (er_egress_kind er) \<and> pred_option is_object (er_resolved_target er)) \<and>
   (validate_context_payload_schema_v1 ThreadReloadDegraded (json_of_thread_reload_degraded sh rd) = Inr () \<longleftrightarrow>
      rd_fallback rd = ''fabricated_root'')"
proof -
  have egress: "validate_context_payload_schema_v1 IoEgressRequested (json_of_io_egress_requested sh er) = Inr () \<longleftrightarrow>
      is_object (er_egress_kind er) \<and> pred_option is_object (er_resolved_target er)"
    using registry_validate_iff [OF frozen_payloads(1)] egress_requested_iff [of sh er]
    by (cases "er_resolved_target er") (simp_all add: validate_context_payload_schema_v1_def)
  have reload: "validate_context_payload_schema_v1 ThreadReloadDegraded
      (json_of_thread_reload_degraded sh rd) = Inr () \<longleftrightarrow> rd_fallback rd = ''fabricated_root''"
    using registry_validate_iff [OF frozen_payloads(2)] reload_degraded_iff [of sh rd]
    by (simp add: validate_context_payload_schema_v1_def)
  show ?thesis
    by (intro conjI egress reload; rule payload_validates, rule_tac [2] payload_conforms)
      (simp_all add: frozen_schemas_def)
qed

text \<open>
  What the append path checks: an event passes exactly when its payload is a JSON object and,
  if it requests an egress, the payload has the registered shape.  For a payload written by the
  typed encoder that shape means that the egress kind and the resolved target are objects.
\<close>

theorem append_check_iff:
  "(validate_stream_record_v1 show_uuid e = Inr () \<longleftrightarrow>
      is_object (ev_payload e) \<and>
      (ev_kind e = IoEgressRequested \<longrightarrow>
         validate_context_payload_schema_v1 IoEgressRequested (ev_payload e) = Inr ())) \<and>
   (validate_context_payload_schema_v1 IoEgressRequested (json_of_io_egress_requested show_uuid p)
      = Inr () \<longleftrightarrow>
      is_object (er_egress_kind p) \<and> (\<forall>t. er_resolved_target p = Some t \<longrightarrow> is_object t))"
  using registry_validate_iff [OF frozen_payloads(1)]
  by (simp add: validate_stream_record_iff egress_requested_iff validate_context_payload_schema_v1_def)

theorem append_check_iff_witness:
  "validate_stream_record_v1 (\<lambda>_. ''id'')
     (sample_event\<lparr>ev_kind := IoEgressRequested, ev_payload := json_of_io_egress_requested (\<lambda>_. ''id'')
        \<lparr>er_egress_kind = JObject [], er_resolved_target = Some (JObject []),
         er_requested_by_tool_call_id = ''call'', er_quote = None, er_match_event_id = None\<rparr>\<rparr>)
   = Inr ()"
  using append_check_iff [of "\<lambda>_. ''id''"
      "sample_event\<lparr>ev_kind := IoEgressRequested, ev_payload := json_of_io_egress_requested (\<lambda>_. ''id'')
        \<lparr>er_egress_kind = JObject [], er_resolved_target = Some (JObject []),
         er_requested_by_tool_call_id = ''call'', er_quote = None, er_match_event_id = None\<rparr>\<rparr>"
      "\<lparr>er_egress_kind = JObject [], er_resolved_target = Some (JObject []),
         er_requested_by_tool_call_id = ''call'', er_quote = None, er_match_event_id = None\<rparr>"]
  by (simp add: json_of_io_egress_requested_def)

subsection \<open>Stream envelopes conform to their schemas\<close>

lemma ack_class_enum: "stream_ack_class_str a \<in>
    set [''local_committed'', ''query_projected'', ''stream_committed'', ''broadcast_visible'', ''archived'']"
  by (cases a) simp_all

lemma ack_classes_conform:
  "d \<le> 60 \<Longrightarrow> conforms d stream_ack_classes_schema_v1
     (JArray (map (\<lambda>a. JString (stream_ack_class_str a)) acks))"
  unfolding stream_ack_classes_schema_v1_def
  by (rule conforms_array) (use ack_class_enum in \<open>auto intro!: conforms_enum_strs simp del: set_simps\<close>)

lemma append_ack_conforms:
  "aa_schema a = stream_append_ack_schema_id \<Longrightarrow>
   conforms 0 stream_append_ack_schema_v1 (json_of_append_ack sh a)"
  unfolding stream_append_ack_schema_v1_def json_of_append_ack_def
  by (simp add: payload_simps ack_classes_conform)

lemma capabilities_conform:
  "bc_schema c = stream_backend_capabilities_schema_id \<Longrightarrow>
   conforms 0 stream_backend_capabilities_schema_v1 (json_of_capabilities c)"
  unfolding stream_backend_capabilities_schema_v1_def json_of_capabilities_def
  by (cases "bc_backend_kind c"; cases "bc_storage_scope c")
    (simp_all add: payload_simps ack_classes_conform)

lemma route_enum: "stream_route_profile_str r \<in>
    set [''authority_store'', ''export_bundle'', ''model_trace'', ''runtime_trace'',
      ''browser_safe_projection'', ''analytics_aggregate'']"
  by (cases r) simp_all

lemma routing_decision_conforms:
  "rt_schema d = stream_routing_decision_schema_id \<Longrightarrow>
   conforms 0 stream_routing_decision_schema_v1 (json_of_routing_decision sh d)"
  unfolding stream_routing_decision_schema_v1_def json_of_routing_decision_def
    json_of_routing_keys_def
  by (simp add: payload_simps route_enum [simplified] origin_enum [simplified])

text \<open>
  The envelopes the crate builds are accepted by their own schemas: a routing decision of any
  event, the capabilities of the local backend, every acknowledgement that could be issued, and
  the cursor of any event with a positive sequence number; a cursor is accepted exactly when it
  names the cursor schema and a positive sequence number.
\<close>

theorem stream_envelopes_conform:
  "registry_validate stream_schema_registry_v1 stream_routing_decision_schema_id
     (json_of_routing_decision show_uuid (route_decision_v1 e)) = Inr () \<and>
   registry_validate stream_schema_registry_v1 stream_backend_capabilities_schema_id
     (json_of_capabilities (capabilities_sqlite_local path)) = Inr () \<and>
   (ack_from_appended stream_id appended acks = Inr ack \<longrightarrow>
      registry_validate stream_schema_registry_v1 stream_append_ack_schema_id
        (json_of_append_ack show_uuid ack) = Inr ()) \<and>
   (validate_stream_cursor_v1 show_uuid c = Inr () \<longleftrightarrow>
      cu_schema c = stream_cursor_schema_id \<and> 1 \<le> sequence_get (cu_sequence c))"
proof -
  have "aa_schema ack = stream_append_ack_schema_id"
    if "ack_from_appended stream_id appended acks = Inr ack"
    using that by (auto simp: ack_from_appended_def and_then_eq_Inr split: list.splits if_splits)
  moreover have "rt_schema (route_decision_v1 e) = stream_routing_decision_schema_id"
    by (simp add: route_decision_v1_def envelope_route_decision_v1_def Let_def)
  moreover have "bc_schema (capabilities_sqlite_local path) = stream_backend_capabilities_schema_id"
    by (simp add: capabilities_sqlite_local_def)
  ultimately show ?thesis
    using registry_validate_iff [OF frozen_envelopes(3)] registry_validate_iff [OF frozen_envelopes(4)]
      registry_validate_iff [OF frozen_envelopes(5)] validate_cursor_iff [of show_uuid c]
      append_ack_conforms capabilities_conform routing_decision_conforms
    by simp
qed

theorem stream_envelopes_conform_witness:
  "\<exists>ack. ack_from_appended (EventStreamId ''thread:7'') [sample_event] [LocalCommitted] = Inr ack \<and>
     registry_validate stream_schema_registry_v1 stream_append_ack_schema_id
       (json_of_append_ack (\<lambda>_. ''id'') ack) = Inr ()"
proof -
  obtain ack where ack:
    "ack_from_appended (EventStreamId ''thread:7'') [sample_event] [LocalCommitted] = Inr ack"
    by (simp add: ack_from_appended_def check_ack_event_def sample_event_def)
  with stream_envelopes_conform [of "\<lambda>_. ''id''" sample_event "''p''" "EventStreamId ''thread:7''"
      "[sample_event]" "[LocalCommitted]" ack "cursor_from_event sample_event"]
  show ?thesis by blast
qed

end
