(* ===== verification/Session_Model.thy ===== *)
theory Session_Model
  imports Event_Record
begin

section \<open>Canonical messages and session entries\<close>

text \<open>
  \<^verbatim>\<open>src/crates/verlet-history/src/lib.rs\<close>: the provider-neutral messages, the entries of a
  session tree, the context assembled from them, and the pure functions on entries: which events
  witness them, which messages a model sees, how a compaction summary is rendered, and which
  bookkeeping entries are stripped.
\<close>

subsection \<open>Messages\<close>

datatype provider_api =
  OpenAIResponses | OpenAIChatCompletions | AnthropicMessages | OtherApi string

datatype thinking_provider =
  ThinkingAnthropic | ThinkingOpenAIResponses | ThinkingOpenAICompatible | ThinkingOther string

datatype thinking_metadata =
    MetadataNone
  | MetadataAnthropic "string option"
  | MetadataAnthropicRedacted string
  | MetadataOpenAIResponses "string option" "u64 option" u64 "string option"
  | MetadataOpaque string json

datatype cache_ttl = FiveMinutes | OneHour

datatype cache_control = Ephemeral "cache_ttl option"

definition cache_ephemeral :: cache_control where
  "cache_ephemeral = Ephemeral None"

definition cache_ephemeral_1h :: cache_control where
  "cache_ephemeral_1h = Ephemeral (Some OneHour)"

datatype canonical_content =
    TextContent string "cache_control option"
  | ImageContent string string
  | ThinkingContent string thinking_provider thinking_metadata
  | ToolCallContent string string json

definition content_text :: "string \<Rightarrow> canonical_content" where
  "content_text text = TextContent text None"

definition content_cached_text :: "string \<Rightarrow> cache_control \<Rightarrow> canonical_content" where
  "content_cached_text text cache_control = TextContent text (Some cache_control)"

definition content_tool_call :: "string \<Rightarrow> string \<Rightarrow> json \<Rightarrow> canonical_content" where
  "content_tool_call call_id name arguments = ToolCallContent call_id name arguments"

record canonical_usage =
  us_input_tokens :: u64
  us_output_tokens :: u64
  us_cache_creation_input_tokens :: u64
  us_cache_read_input_tokens :: u64

definition usage_default :: canonical_usage where
  "usage_default = \<lparr>us_input_tokens = 0, us_output_tokens = 0, us_cache_creation_input_tokens = 0,
     us_cache_read_input_tokens = 0\<rparr>"

definition json_of_usage :: "canonical_usage \<Rightarrow> json" where
  "json_of_usage u = jobj
     (field ''input_tokens'' (json_of_u64 (us_input_tokens u)) @
      field ''output_tokens'' (json_of_u64 (us_output_tokens u)) @
      field ''cache_creation_input_tokens'' (json_of_u64 (us_cache_creation_input_tokens u)) @
      field ''cache_read_input_tokens'' (json_of_u64 (us_cache_read_input_tokens u)))"

datatype canonical_stop_reason =
  EndTurn | ToolUse | MaxTokens | StopSequence | PauseTurn | StopCancelled | StopError

datatype canonical_message =
    UserMessage (user_content: "canonical_content list") (user_timestamp_ms: i64)
  | AssistantMessage "canonical_content list" provider_api string string canonical_usage
      canonical_stop_reason "string option" i64
  | ToolResultMessage string string "canonical_content list" bool "cache_control option" i64

definition user_text_at :: "string \<Rightarrow> i64 \<Rightarrow> canonical_message" where
  "user_text_at text timestamp_ms = UserMessage [content_text text] timestamp_ms"

definition assistant_with_usage ::
  "i64 \<Rightarrow> string \<Rightarrow> provider_api \<Rightarrow> string \<Rightarrow> canonical_content list \<Rightarrow> canonical_usage \<Rightarrow>
   canonical_stop_reason \<Rightarrow> canonical_message" where
  "assistant_with_usage now provider api model content usage stop_reason =
     AssistantMessage content api provider model usage stop_reason None now"

definition message_assistant ::
  "i64 \<Rightarrow> string \<Rightarrow> provider_api \<Rightarrow> string \<Rightarrow> canonical_content list \<Rightarrow> canonical_stop_reason \<Rightarrow>
   canonical_message" where
  "message_assistant now provider api model content stop_reason =
     assistant_with_usage now provider api model content usage_default stop_reason"

definition message_tool_result ::
  "i64 \<Rightarrow> string \<Rightarrow> string \<Rightarrow> string \<Rightarrow> bool \<Rightarrow> canonical_message" where
  "message_tool_result now tool_call_id tool_name content is_error =
     ToolResultMessage tool_call_id tool_name [content_text content] is_error None now"

subsection \<open>Compaction summaries\<close>

text \<open>
  \<open>str::trim\<close> removes Unicode white space.  On UTF-8 bytes these are the encodings of the
  characters with the property \<open>White_Space\<close>.
\<close>

definition whitespace_encodings :: "string list" where
  "whitespace_encodings =
     [[CHR 0x09], [CHR 0x0A], [CHR 0x0B], [CHR 0x0C], [CHR 0x0D], [CHR 0x20],
      [CHR 0xC2, CHR 0x85], [CHR 0xC2, CHR 0xA0], [CHR 0xE1, CHR 0x9A, CHR 0x80],
      [CHR 0xE2, CHR 0x80, CHR 0x80], [CHR 0xE2, CHR 0x80, CHR 0x81],
      [CHR 0xE2, CHR 0x80, CHR 0x82], [CHR 0xE2, CHR 0x80, CHR 0x83],
      [CHR 0xE2, CHR 0x80, CHR 0x84], [CHR 0xE2, CHR 0x80, CHR 0x85],
      [CHR 0xE2, CHR 0x80, CHR 0x86], [CHR 0xE2, CHR 0x80, CHR 0x87],
      [CHR 0xE2, CHR 0x80, CHR 0x88], [CHR 0xE2, CHR 0x80, CHR 0x89],
      [CHR 0xE2, CHR 0x80, CHR 0x8A], [CHR 0xE2, CHR 0x80, CHR 0xA8],
      [CHR 0xE2, CHR 0x80, CHR 0xA9], [CHR 0xE2, CHR 0x80, CHR 0xAF],
      [CHR 0xE2, CHR 0x81, CHR 0x9F], [CHR 0xE3, CHR 0x80, CHR 0x80]]"

lemma whitespace_nonempty: "w \<in> set whitespace_encodings \<Longrightarrow> w \<noteq> []"
  by (auto simp: whitespace_encodings_def)

lemma find_SomeD: "find P xs = Some x \<Longrightarrow> P x \<and> x \<in> set xs"
  by (metis find_Some_iff nth_mem)

lemma find_whitespace:
  "find P whitespace_encodings = Some w \<Longrightarrow> P w \<and> w \<noteq> []"
  by (metis find_SomeD whitespace_nonempty)

lemma starts_with_shrinks:
  "find (starts_with s) whitespace_encodings = Some w \<Longrightarrow> length (drop (length w) s) < length s"
proof -
  assume "find (starts_with s) whitespace_encodings = Some w"
  then have "w \<noteq> []" and "starts_with s w" using find_whitespace by blast+
  then show ?thesis by (cases s) (auto simp: starts_with_def)
qed

lemma ends_with_shrinks:
  "find (ends_with s) whitespace_encodings = Some w \<Longrightarrow>
   length (take (length s - length w) s) < length s"
proof -
  assume "find (ends_with s) whitespace_encodings = Some w"
  then have "w \<noteq> []" and "ends_with s w" using find_whitespace by blast+
  then show ?thesis by (cases s; cases w) (auto simp: ends_with_def)
qed

function trim_start :: "string \<Rightarrow> string" where
  "trim_start s =
     (case find (starts_with s) whitespace_encodings of
        None \<Rightarrow> s
      | Some w \<Rightarrow> trim_start (drop (length w) s))"
  by pat_completeness auto
termination
  by (relation "measure length") (simp, simp only: in_measure starts_with_shrinks)

function trim_end :: "string \<Rightarrow> string" where
  "trim_end s =
     (case find (ends_with s) whitespace_encodings of
        None \<Rightarrow> s
      | Some w \<Rightarrow> trim_end (take (length s - length w) s))"
  by pat_completeness auto
termination
  by (relation "measure length") (simp, simp only: in_measure ends_with_shrinks)

declare trim_start.simps [simp del] trim_end.simps [simp del]

definition trim :: "string \<Rightarrow> string" where
  "trim s = trim_end (trim_start s)"

definition compaction_summary_prefix :: string where
  "compaction_summary_prefix = ''Compacted conversation summary:''"

definition newline :: string where
  "newline = [CHR 0x0A]"

definition render_compaction_summary :: "string \<Rightarrow> string" where
  "render_compaction_summary s =
     (let summary = trim s in
      if summary = [] then compaction_summary_prefix @ newline @ ''(no summary available)''
      else if starts_with summary compaction_summary_prefix then summary
      else compaction_summary_prefix @ newline @ summary)"

definition compaction_summary_message :: "string \<Rightarrow> i64 \<Rightarrow> canonical_message" where
  "compaction_summary_message summary timestamp_ms =
     user_text_at (render_compaction_summary summary) timestamp_ms"

subsection \<open>Session entries\<close>

datatype session_entry_kind =
    MessageEntry canonical_message
  | ModelChange string provider_api string
  | Compaction string
  | BranchSummary string
  | RuntimeEntry string json
  | CustomContextMessage canonical_message

fun entry_kind_str :: "session_entry_kind \<Rightarrow> string" where
  "entry_kind_str (MessageEntry _) = ''message''"
| "entry_kind_str (ModelChange _ _ _) = ''model_change''"
| "entry_kind_str (Compaction _) = ''compaction''"
| "entry_kind_str (BranchSummary _) = ''branch_summary''"
| "entry_kind_str (RuntimeEntry _ _) = ''runtime''"
| "entry_kind_str (CustomContextMessage _) = ''custom_context_message''"

record session_entry =
  en_entry_id :: session_entry_id
  en_parent_entry_id :: "session_entry_id option"
  en_turn_id :: "string option"
  en_coordinates :: thread_coordinates
  en_created_at_ms :: i64
  en_kind :: session_entry_kind

definition entry_new ::
  "stamp \<Rightarrow> thread_coordinates \<Rightarrow> session_entry_id option \<Rightarrow> session_entry_kind \<Rightarrow> session_entry" where
  [record_defs]: "entry_new st coordinates parent kind =
     \<lparr>en_entry_id = SessionEntryId (fst st), en_parent_entry_id = parent, en_turn_id = None,
      en_coordinates = coordinates, en_created_at_ms = snd st, en_kind = kind\<rparr>"

definition entry_for_turn ::
  "stamp \<Rightarrow> thread_coordinates \<Rightarrow> session_entry_id option \<Rightarrow> string \<Rightarrow> session_entry_kind \<Rightarrow>
   session_entry" where
  [record_defs]: "entry_for_turn st coordinates parent turn_id kind =
     (entry_new st coordinates parent kind)\<lparr>en_turn_id := Some turn_id\<rparr>"

record session_context_source_cut =
  cc_coordinates :: thread_coordinates
  cc_stream_id :: event_stream_id
  cc_inherited :: bool
  cc_entry_ids :: "session_entry_id list"

record session_context =
  cx_entries :: "session_entry list"
  cx_messages :: "canonical_message list"
  cx_source_cuts :: "session_context_source_cut list"

datatype thread_fork_reason = ManifestUpdate | ToolAdded | ModelChanged | Manual

record thread_base_ref =
  tb_child_thread_id :: thread_id
  tb_parent_thread_id :: thread_id
  tb_parent_checkpoint_id :: "thread_checkpoint_id option"
  tb_parent_leaf_entry_id :: "session_entry_id option"
  tb_parent_stream_id :: event_stream_id
  tb_parent_stream_to_sequence :: "event_sequence option"
  tb_parent_binding_snapshot_id :: "string option"
  tb_reason :: thread_fork_reason
  tb_created_at_ms :: i64

definition coordinates_with_thread_id ::
  "thread_coordinates \<Rightarrow> thread_id \<Rightarrow> thread_coordinates" where
  "coordinates_with_thread_id c t =
     \<lparr>tc_tenant_id = tc_tenant_id c, tc_user_id = tc_user_id c, tc_session_id = tc_session_id c,
      tc_thread_id = t\<rparr>"

lemma coordinates_with_thread_id_simps [simp]:
  "tc_thread_id (coordinates_with_thread_id c t) = t"
  "scope (coordinates_with_thread_id c t) = scope c"
  by (simp_all add: coordinates_with_thread_id_def scope_def)

definition validate_entry_coordinates ::
  "thread_coordinates \<Rightarrow> session_entry \<Rightarrow> unit history_result" where
  "validate_entry_coordinates requested entry =
     (if en_coordinates entry = requested then Inr ()
      else if tc_thread_id (en_coordinates entry) \<noteq> tc_thread_id requested
      then Inl (EntryThreadMismatch (en_entry_id entry) (tc_thread_id requested)
                  (tc_thread_id (en_coordinates entry)))
      else Inl (ThreadScopeMismatch requested (en_coordinates entry)))"

lemma validate_entry_coordinates_ok [simp]:
  "validate_entry_coordinates c e = Inr u \<longleftrightarrow> en_coordinates e = c"
  by (simp add: validate_entry_coordinates_def)

subsection \<open>Events of entries\<close>

fun session_entry_is_user_authored :: "session_entry_kind \<Rightarrow> bool" where
  "session_entry_is_user_authored (MessageEntry (UserMessage _ _)) = True"
| "session_entry_is_user_authored (CustomContextMessage (UserMessage _ _)) = True"
| "session_entry_is_user_authored _ = False"

fun assistant_usage :: "session_entry_kind \<Rightarrow> canonical_usage option" where
  "assistant_usage (MessageEntry (AssistantMessage _ _ _ _ usage _ _ _)) = Some usage"
| "assistant_usage (CustomContextMessage (AssistantMessage _ _ _ _ usage _ _ _)) = Some usage"
| "assistant_usage _ = None"

definition session_entry_payload :: "(uuid \<Rightarrow> string) \<Rightarrow> session_entry \<Rightarrow> json" where
  "session_entry_payload show_uuid entry =
     (let payload = jobj
            [(''entry_id'', JString (show_entry_id show_uuid (en_entry_id entry))),
             (''parent_entry_id'', json_of_option (\<lambda>i. JString (show_entry_id show_uuid i))
                (en_parent_entry_id entry)),
             (''entry_kind'', JString (entry_kind_str (en_kind entry)))];
          payload = (case en_turn_id entry of None \<Rightarrow> payload
            | Some turn_id \<Rightarrow> object_insert ''turn_id'' (JString turn_id) payload);
          payload = (case en_kind entry of
              RuntimeEntry kind runtime_payload \<Rightarrow>
                object_insert ''runtime_payload'' runtime_payload
                  (object_insert ''runtime_kind'' (JString kind) payload)
            | _ \<Rightarrow> payload)
      in (case assistant_usage (en_kind entry) of None \<Rightarrow> payload
          | Some usage \<Rightarrow> object_insert ''usage'' (json_of_usage usage) payload))"

definition session_entry_event_with_optional_provenance ::
  "(uuid \<Rightarrow> string) \<Rightarrow> stamp \<Rightarrow> session_entry \<Rightarrow> event_provenance option \<Rightarrow> new_event_record" where
  "session_entry_event_with_optional_provenance show_uuid st entry provenance =
     (if session_entry_is_user_authored (en_kind entry)
      then event_witnessed st (en_coordinates entry) SessionEntryAppended
             (session_entry_payload show_uuid entry)
      else event_discharged st (en_coordinates entry) SessionEntryAppended
             (session_entry_payload show_uuid entry)
             (case provenance of
                Some p \<Rightarrow> p
              | None \<Rightarrow> provenance_default\<lparr>ep_discharged_by := Some ''session-store:append''\<rparr>))"

definition session_entry_event ::
  "(uuid \<Rightarrow> string) \<Rightarrow> stamp \<Rightarrow> session_entry \<Rightarrow> new_event_record" where
  "session_entry_event show_uuid st entry =
     session_entry_event_with_optional_provenance show_uuid st entry None"

definition session_entry_event_with_provenance ::
  "(uuid \<Rightarrow> string) \<Rightarrow> stamp \<Rightarrow> session_entry \<Rightarrow> event_provenance \<Rightarrow> new_event_record" where
  "session_entry_event_with_provenance show_uuid st entry provenance =
     session_entry_event_with_optional_provenance show_uuid st entry (Some provenance)"

fun turn_input_kinds_match :: "session_entry_kind \<Rightarrow> session_entry_kind \<Rightarrow> bool" where
  "turn_input_kinds_match (MessageEntry (UserMessage left _)) (MessageEntry (UserMessage right _)) =
     (left = right)"
| "turn_input_kinds_match left right = (left = right)"

lemma turn_input_kinds_match_refl [simp]: "turn_input_kinds_match k k"
  by (cases "(k, k)" rule: turn_input_kinds_match.cases) simp_all

lemma session_entry_event_simps [simp]:
  "ne_id (session_entry_event_with_optional_provenance sh st e p) = EventRecordId (fst st)"
  "ne_kind (session_entry_event_with_optional_provenance sh st e p) = SessionEntryAppended"
  "ne_payload (session_entry_event_with_optional_provenance sh st e p) = session_entry_payload sh e"
  "ne_coordinates (session_entry_event_with_optional_provenance sh st e p) = en_coordinates e"
  by (simp_all add: session_entry_event_with_optional_provenance_def record_defs)

lemma session_entry_payload_object [simp]: "is_object (session_entry_payload sh e)"
  by (simp add: session_entry_payload_def Let_def split: option.splits session_entry_kind.splits)

subsection \<open>What the model sees\<close>

fun append_model_visible_messages ::
  "session_entry list \<Rightarrow> canonical_message list \<Rightarrow> canonical_message list" where
  "append_model_visible_messages [] messages = messages"
| "append_model_visible_messages (entry # entries) messages =
     append_model_visible_messages entries
       (case en_kind entry of
          MessageEntry message \<Rightarrow> messages @ [message]
        | CustomContextMessage message \<Rightarrow> messages @ [message]
        | Compaction summary \<Rightarrow> [compaction_summary_message summary (en_created_at_ms entry)]
        | ModelChange _ _ _ \<Rightarrow> messages
        | BranchSummary _ \<Rightarrow> messages
        | RuntimeEntry _ _ \<Rightarrow> messages)"

definition session_entry_is_thread_start_identity :: "session_entry \<Rightarrow> bool" where
  "session_entry_is_thread_start_identity entry \<longleftrightarrow>
     (case en_kind entry of RuntimeEntry kind _ \<Rightarrow> kind = ''thread_started'' | _ \<Rightarrow> False)"

definition strip_thread_start_identity_entries ::
  "session_entry list \<times> session_context_source_cut list \<Rightarrow>
   session_entry list \<times> session_context_source_cut list" where
  "strip_thread_start_identity_entries = (\<lambda>(entries, source_cuts).
     let identity_entry_ids =
           en_entry_id ` set (filter session_entry_is_thread_start_identity entries) in
     if identity_entry_ids = {} then (entries, source_cuts)
     else
       (filter (\<lambda>entry. en_entry_id entry \<notin> identity_entry_ids) entries,
        filter (\<lambda>cut. cc_entry_ids cut \<noteq> [])
          (map (\<lambda>cut. cut\<lparr>cc_entry_ids :=
             filter (\<lambda>i. i \<notin> identity_entry_ids) (cc_entry_ids cut)\<rparr>) source_cuts)))"

definition validate_thread_base_ref ::
  "(uuid \<Rightarrow> string) \<Rightarrow> thread_coordinates \<Rightarrow> thread_coordinates \<Rightarrow> thread_base_ref \<Rightarrow>
   unit history_result" where
  "validate_thread_base_ref show_uuid source_coordinates target_coordinates base =
     (if scope source_coordinates \<noteq> scope target_coordinates
      then Inl (ThreadScopeMismatch target_coordinates source_coordinates)
      else if tb_parent_thread_id base \<noteq> tc_thread_id source_coordinates
      then Inl (Storage (''thread base parent id '' @
             show_thread_id show_uuid (tb_parent_thread_id base) @
             '' does not match source thread '' @
             show_thread_id show_uuid (tc_thread_id source_coordinates)))
      else if tb_child_thread_id base \<noteq> tc_thread_id target_coordinates
      then Inl (Storage (''thread base child id '' @
             show_thread_id show_uuid (tb_child_thread_id base) @
             '' does not match target thread '' @
             show_thread_id show_uuid (tc_thread_id target_coordinates)))
      else if tb_parent_stream_id base \<noteq> stream_for_thread show_uuid source_coordinates
      then Inl (Storage (''thread base parent stream '' @ stream_id_str (tb_parent_stream_id base) @
             '' does not match source stream '' @
             stream_id_str (stream_for_thread show_uuid source_coordinates)))
      else Inr ())"

lemma validate_thread_base_ref_ok:
  "validate_thread_base_ref sh src tgt base = Inr () \<longleftrightarrow>
     scope src = scope tgt \<and> tb_parent_thread_id base = tc_thread_id src \<and>
     tb_child_thread_id base = tc_thread_id tgt \<and>
     tb_parent_stream_id base = stream_for_thread sh src"
  by (simp add: validate_thread_base_ref_def)

subsection \<open>Rendering a summary twice changes nothing\<close>

definition leading_whitespace :: "string \<Rightarrow> bool" where
  "leading_whitespace s \<longleftrightarrow> (\<exists>w \<in> set whitespace_encodings. starts_with s w)"

definition trailing_whitespace :: "string \<Rightarrow> bool" where
  "trailing_whitespace s \<longleftrightarrow> (\<exists>w \<in> set whitespace_encodings. ends_with s w)"

lemma trim_start_fix: "\<not> leading_whitespace s \<Longrightarrow> trim_start s = s"
  by (subst trim_start.simps) (auto simp: leading_whitespace_def dest!: find_SomeD split: option.splits)

lemma trim_end_fix: "\<not> trailing_whitespace s \<Longrightarrow> trim_end s = s"
  by (subst trim_end.simps) (auto simp: trailing_whitespace_def dest!: find_SomeD split: option.splits)

lemma trim_start_clean: "\<not> leading_whitespace (trim_start s)"
proof (induction s rule: trim_start.induct)
  case (1 s)
  show ?case
  proof (cases "find (starts_with s) whitespace_encodings")
    case None
    then have "\<not> leading_whitespace s" by (auto simp: leading_whitespace_def find_None_iff)
    then show ?thesis by (simp add: trim_start_fix)
  next
    case (Some w)
    then show ?thesis using "1.IH" by (subst trim_start.simps) simp
  qed
qed

lemma trim_end_clean: "\<not> trailing_whitespace (trim_end s)"
proof (induction s rule: trim_end.induct)
  case (1 s)
  show ?case
  proof (cases "find (ends_with s) whitespace_encodings")
    case None
    then have "\<not> trailing_whitespace s" by (auto simp: trailing_whitespace_def find_None_iff)
    then show ?thesis by (simp add: trim_end_fix)
  next
    case (Some w)
    then show ?thesis using "1.IH" by (subst trim_end.simps) simp
  qed
qed

lemma trim_end_prefix: "prefix (trim_end s) s"
proof (induction s rule: trim_end.induct)
  case (1 s)
  show ?case
  proof (cases "find (ends_with s) whitespace_encodings")
    case None
    then show ?thesis by (subst trim_end.simps) simp
  next
    case (Some w)
    then show ?thesis
      using "1.IH" by (subst trim_end.simps) (auto intro: prefix_order.trans take_is_prefix)
  qed
qed

lemma trim_clean: "\<not> leading_whitespace (trim s)" "\<not> trailing_whitespace (trim s)"
proof -
  show "\<not> trailing_whitespace (trim s)" by (simp add: trim_def trim_end_clean)
  show "\<not> leading_whitespace (trim s)"
    using trim_start_clean [of s] trim_end_prefix [of "trim_start s"]
    by (auto simp: trim_def leading_whitespace_def starts_with_prefix dest: prefix_order.trans)
qed

lemma trim_fix: "\<not> leading_whitespace s \<Longrightarrow> \<not> trailing_whitespace s \<Longrightarrow> trim s = s"
  by (simp add: trim_def trim_start_fix trim_end_fix)

lemma ends_with_suffix: "ends_with s w \<longleftrightarrow> suffix w s"
proof
  assume "ends_with s w"
  then show "suffix w s" unfolding ends_with_def by (metis suffix_drop)
next
  assume "suffix w s"
  then show "ends_with s w" unfolding ends_with_def suffix_def by auto
qed

text \<open>Prepending a header that ends in a newline adds no trailing white space.\<close>

lemma newline_encodings:
  "w \<in> set whitespace_encodings \<Longrightarrow> CHR 0x0A \<in> set w \<Longrightarrow> length w = 1"
  by (auto simp: whitespace_encodings_def)

lemma no_trailing_after_newline:
  assumes "\<not> trailing_whitespace s" "s \<noteq> []"
  shows "\<not> trailing_whitespace (h @ newline @ s)"
proof
  assume "trailing_whitespace (h @ newline @ s)"
  then obtain w where w: "w \<in> set whitespace_encodings" "suffix w (h @ newline @ s)"
    by (auto simp: trailing_whitespace_def ends_with_suffix)
  have "\<not> suffix w s" using assms(1) w(1) by (auto simp: trailing_whitespace_def ends_with_suffix)
  then have "suffix s w" "s \<noteq> w"
    using suffix_same_cases [OF w(2), of s] by (auto simp: suffix_def)
  then obtain u where u: "w = u @ s" "u \<noteq> []" by (auto simp: suffix_def)
  from w(2) u(1) have "suffix u (h @ newline)" by (auto simp: suffix_def)
  then have "CHR 0x0A \<in> set u" using u(2)
    by (cases u rule: rev_cases) (auto simp: suffix_def newline_def)
  then have "length w = 1" using newline_encodings [OF w(1)] u(1) by simp
  with u assms(2) show False by (cases u; cases s) auto
qed

lemma header_no_leading: "\<not> leading_whitespace (compaction_summary_prefix @ x)"
  by (simp add: leading_whitespace_def whitespace_encodings_def starts_with_def
      compaction_summary_prefix_def)

lemma no_summary_clean: "\<not> trailing_whitespace ''(no summary available)''"
  by (simp add: trailing_whitespace_def whitespace_encodings_def ends_with_def)

text \<open>
  Rendering a compaction summary is idempotent and always yields a text that begins with the
  summary header: a summary that was already rendered is not wrapped a second time.
\<close>

theorem render_compaction_idempotent:
  "render_compaction_summary (render_compaction_summary s) = render_compaction_summary s \<and>
   starts_with (render_compaction_summary s) compaction_summary_prefix"
proof -
  let ?t = "trim s"
  have head: "starts_with (render_compaction_summary s) compaction_summary_prefix"
    by (auto simp: render_compaction_summary_def Let_def)
  have "trim (render_compaction_summary s) = render_compaction_summary s"
  proof (cases "?t \<noteq> [] \<and> starts_with ?t compaction_summary_prefix")
    case True
    then show ?thesis
      using trim_clean [of s] by (simp add: render_compaction_summary_def trim_fix)
  next
    case False
    define body where "body = (if ?t = [] then ''(no summary available)'' else ?t)"
    have "\<not> trailing_whitespace body" "body \<noteq> []"
      using trim_clean [of s] no_summary_clean by (auto simp: body_def)
    then have "trim (compaction_summary_prefix @ newline @ body) =
        compaction_summary_prefix @ newline @ body"
      by (intro trim_fix no_trailing_after_newline header_no_leading)
    with False show ?thesis by (auto simp: render_compaction_summary_def body_def Let_def)
  qed
  moreover have "render_compaction_summary s \<noteq> []"
    using head by (auto simp: starts_with_def compaction_summary_prefix_def)
  ultimately show ?thesis
    using head by (simp add: render_compaction_summary_def [of "render_compaction_summary s"] Let_def)
qed

subsection \<open>Compaction and stripping\<close>

lemma visible_append:
  "append_model_visible_messages (xs @ ys) ms =
   append_model_visible_messages ys (append_model_visible_messages xs ms)"
  by (induction xs ms rule: append_model_visible_messages.induct) simp_all

text \<open>The message an entry without compaction shows.\<close>

fun shown_message :: "session_entry_kind \<Rightarrow> canonical_message option" where
  "shown_message (MessageEntry m) = Some m"
| "shown_message (CustomContextMessage m) = Some m"
| "shown_message _ = None"

fun is_compaction :: "session_entry_kind \<Rightarrow> bool" where
  "is_compaction (Compaction _) = True"
| "is_compaction _ = False"

lemma visible_without_compaction:
  "\<forall>e \<in> set es. \<not> is_compaction (en_kind e) \<Longrightarrow>
   append_model_visible_messages es ms = ms @ List.map_filter (shown_message \<circ> en_kind) es"
proof (induction es ms rule: append_model_visible_messages.induct)
  case (1 ms)
  then show ?case by (simp add: map_filter_simps)
next
  case (2 e es ms)
  then show ?case by (cases "en_kind e") (simp_all add: map_filter_simps)
qed

text \<open>
  After a compaction the model sees the rendered summary followed by exactly the messages of
  the entries after it, in order, and nothing of what came before, whatever it was.
\<close>

theorem compaction_replaces_history:
  assumes "en_kind c = Compaction summary"
    and "\<forall>e \<in> set after. \<not> is_compaction (en_kind e)"
  shows "append_model_visible_messages (before @ c # after) messages =
     compaction_summary_message summary (en_created_at_ms c) #
     List.map_filter (shown_message \<circ> en_kind) after"
  using assms by (simp add: visible_append visible_without_compaction)

definition sample_entry :: "uuid \<Rightarrow> session_entry_kind \<Rightarrow> session_entry" where
  "sample_entry u kind = entry_new (u, 0) sample_coordinates None kind"

theorem compaction_replaces_history_witness:
  "append_model_visible_messages
     [sample_entry 1 (MessageEntry (user_text_at ''old'' 0)), sample_entry 2 (Compaction ''short''),
      sample_entry 3 (MessageEntry (user_text_at ''new'' 0))] [] =
   [compaction_summary_message ''short'' 0, user_text_at ''new'' 0]"
  using compaction_replaces_history [of "sample_entry 2 (Compaction ''short'')" "''short''"
      "[sample_entry 3 (MessageEntry (user_text_at ''new'' 0))]"
      "[sample_entry 1 (MessageEntry (user_text_at ''old'' 0))]" "[]"]
  by (simp add: sample_entry_def entry_new_def map_filter_simps)

end
