(* ===== verification/History_Store.thy ===== *)
theory History_Store
  imports Stream_Records Session_Model
begin

section \<open>The in-memory history store\<close>

text \<open>
  \<^verbatim>\<open>src/crates/verlet-history/src/lib.rs\<close>, \<open>InMemorySessionStore\<close> with its implementations of
  the traits \<open>SessionStore\<close>, \<open>EventStore\<close> and \<open>ObservationStore\<close>.

  Every method takes the one lock of \<open>inner\<close> for its whole duration, so a method call is one
  atomic step: it maps the locked state to its result and the state it leaves, and every
  interleaving of calls from concurrent tasks is a sequence of such steps.  The handle's
  \<open>lease_epoch\<close> is an argument, since clones of a store share the state and not the epoch.

  \<open>branch_path\<close> follows parent links in a \<open>while\<close> loop that only a well-formed state bounds; it is
  a partial function into \<open>option\<close>, \<open>None\<close> being divergence, and so are the methods that call it.
  Identifiers and times drawn during a call are \<open>stamp\<close> arguments: first the one of the session
  entry, then the one of the event.
\<close>

subsection \<open>State\<close>

type_synonym entry_map = "(session_entry_id, session_entry) hmap"

record store_inner =
  si_entries :: "(thread_id, entry_map) hmap"
  si_active_leaf :: "(thread_id, session_entry_id) hmap"
  si_bases :: "(thread_id, thread_base_ref) hmap"
  si_events :: "(event_stream_id, event_record list) hmap"
  si_event_ids :: "event_record_id set"
  si_observations :: "(thread_id, observation_record list) hmap"
  si_lease_epoch_minimums :: "(event_stream_id, u64) hmap"

definition store_new :: store_inner where
  "store_new = \<lparr>si_entries = [], si_active_leaf = [], si_bases = [], si_events = [],
     si_event_ids = {}, si_observations = [], si_lease_epoch_minimums = []\<rparr>"

abbreviation entries_of :: "store_inner \<Rightarrow> thread_id \<Rightarrow> entry_map" where
  "entries_of s t \<equiv> hm_list (si_entries s) t"

abbreviation stream_events :: "store_inner \<Rightarrow> event_stream_id \<Rightarrow> event_record list" where
  "stream_events s i \<equiv> hm_list (si_events s) i"

subsection \<open>Lease epochs\<close>

definition check_in_memory_lease_epoch ::
  "store_inner \<Rightarrow> event_stream_id \<Rightarrow> u64 \<Rightarrow> unit history_result" where
  "check_in_memory_lease_epoch inner stream_id presented_epoch =
     (case hm_get (si_lease_epoch_minimums inner) stream_id of
        Some minimum_epoch \<Rightarrow>
          if presented_epoch < minimum_epoch
          then Inl (StaleLeaseEpoch stream_id presented_epoch minimum_epoch)
          else Inr ()
      | None \<Rightarrow> Inr ())"

definition raise_in_memory_lease_epoch ::
  "event_stream_id \<Rightarrow> u64 \<Rightarrow> store_inner \<Rightarrow> store_inner" where
  "raise_in_memory_lease_epoch stream_id presented_epoch inner =
     (if presented_epoch > 0
      then inner\<lparr>si_lease_epoch_minimums :=
        hm_insert stream_id
          (case hm_get (si_lease_epoch_minimums inner) stream_id of
             Some minimum_epoch \<Rightarrow> max minimum_epoch presented_epoch
           | None \<Rightarrow> presented_epoch)
          (si_lease_epoch_minimums inner)\<rparr>
      else inner)"

subsection \<open>Appending events\<close>

fun check_batch ::
  "event_record_id set \<Rightarrow> event_record_id set \<Rightarrow> new_event_record list \<Rightarrow>
   event_record_id set history_result" where
  "check_batch event_ids batch_ids [] = Inr batch_ids"
| "check_batch event_ids batch_ids (record # records) =
     and_then (validate_new_event record) (\<lambda>_.
       if ne_id record \<in> event_ids \<or> ne_id record \<in> batch_ids
       then Inl (DuplicateEventId (ne_id record))
       else check_batch event_ids (insert (ne_id record) batch_ids) records)"

definition number_event ::
  "(uuid \<Rightarrow> string) \<Rightarrow> event_stream_id \<Rightarrow> i64 \<Rightarrow> nat \<times> new_event_record \<Rightarrow>
   event_record history_result" where
  "number_event show_uuid stream_id current_len = (\<lambda>(index, record).
     let event = event_from_new stream_id (EventSequence (current_len + int index + 1)) record in
     and_then (validate_stream_record_v1 show_uuid event) (\<lambda>_. Inr event))"

definition append_in_memory_events ::
  "(uuid \<Rightarrow> string) \<Rightarrow> event_stream_id \<Rightarrow> new_event_record list \<Rightarrow> u64 \<Rightarrow> store_inner \<Rightarrow>
   event_record list history_result \<times> store_inner" where
  "append_in_memory_events show_uuid stream_id records lease_epoch inner =
     or_return (check_batch (si_event_ids inner) {} records) inner (\<lambda>batch_ids.
     let current_len = int (length (stream_events inner stream_id)) in
     or_return (collect_results (number_event show_uuid stream_id current_len)
         (List.enumerate 0 records)) inner (\<lambda>appended.
     let raised = raise_in_memory_lease_epoch stream_id lease_epoch inner in
     (Inr appended,
      raised\<lparr>si_events := hm_insert stream_id (stream_events raised stream_id @ appended)
               (si_events raised),
             si_event_ids := si_event_ids raised \<union> batch_ids\<rparr>)))"

definition append_events ::
  "(uuid \<Rightarrow> string) \<Rightarrow> u64 \<Rightarrow> event_stream_id \<Rightarrow> new_event_record list \<Rightarrow> store_inner \<Rightarrow>
   event_record list history_result \<times> store_inner" where
  "append_events show_uuid lease_epoch stream_id records inner =
     or_return (check_in_memory_lease_epoch inner stream_id lease_epoch) inner (\<lambda>_.
       append_in_memory_events show_uuid stream_id records lease_epoch inner)"

definition append_events_fenced ::
  "(uuid \<Rightarrow> string) \<Rightarrow> u64 \<Rightarrow> event_stream_id \<Rightarrow> event_sequence \<Rightarrow> new_event_record list \<Rightarrow>
   store_inner \<Rightarrow> event_record list history_result \<times> store_inner" where
  "append_events_fenced show_uuid lease_epoch stream_id expected_next_sequence records inner =
     or_return (check_in_memory_lease_epoch inner stream_id lease_epoch) inner (\<lambda>_.
       let actual_next_sequence = int (length (stream_events inner stream_id)) + 1 in
       if actual_next_sequence \<noteq> sequence_get expected_next_sequence
       then (Inl (AppendFenceConflict stream_id (sequence_get expected_next_sequence)
               actual_next_sequence), inner)
       else append_in_memory_events show_uuid stream_id records lease_epoch inner)"

text \<open>The body a store without fencing keeps.\<close>

definition append_events_fenced_default ::
  "event_stream_id \<Rightarrow> event_sequence \<Rightarrow> new_event_record list \<Rightarrow> event_record list history_result" where
  "append_events_fenced_default stream_id expected_next_sequence records =
     Inl FencedAppendUnsupported"

subsection \<open>Reading events\<close>

definition read_events ::
  "event_stream_id \<Rightarrow> event_sequence option \<Rightarrow> store_inner \<Rightarrow> event_record list history_result" where
  "read_events stream_id from_sequence inner =
     Inr (filter (\<lambda>event. case from_sequence of
            Some sequence \<Rightarrow> sequence_get sequence \<le> sequence_get (ev_sequence event)
          | None \<Rightarrow> True) (stream_events inner stream_id))"

text \<open>
  The default body of the trait, over whatever \<open>read_events\<close> the store has (\<open>read\<close>).
\<close>

definition read_events_after_cursor ::
  "(uuid \<Rightarrow> string) \<Rightarrow> (event_stream_id \<Rightarrow> event_sequence option \<Rightarrow> event_record list history_result) \<Rightarrow>
   event_stream_id \<Rightarrow> stream_cursor \<Rightarrow> event_record list history_result" where
  "read_events_after_cursor show_uuid read stream_id cursor =
     and_then (validate_stream_cursor_v1 show_uuid cursor) (\<lambda>_.
     if cu_stream_id cursor \<noteq> stream_id
     then Inl (StreamCursorStreamMismatch (cu_stream_id cursor) stream_id)
     else and_then (read stream_id (Some (cu_sequence cursor))) (\<lambda>events.
       let current = (case events of [] \<Rightarrow> None | event # _ \<Rightarrow> Some event) in
       if \<not> is_some_and current (\<lambda>event.
            ev_sequence event = cu_sequence cursor \<and> ev_id event = cu_event_id cursor)
       then Inl (StreamCursorMismatch stream_id (sequence_get (cu_sequence cursor))
              (cu_event_id cursor)
              (map_option (\<lambda>event. sequence_get (ev_sequence event)) current)
              (map_option ev_id current))
       else Inr (tl events)))"

subsection \<open>Observations\<close>

definition append_observation ::
  "new_observation_record \<Rightarrow> store_inner \<Rightarrow> observation_record history_result \<times> store_inner" where
  "append_observation record inner =
     (let stored = observation_from_new record;
          thread_id = tc_thread_id (ob_scope stored) in
      (Inr stored,
       inner\<lparr>si_observations :=
         hm_insert thread_id (hm_list (si_observations inner) thread_id @ [stored])
           (si_observations inner)\<rparr>))"

definition list_observations ::
  "thread_coordinates \<Rightarrow> string option \<Rightarrow> store_inner \<Rightarrow> observation_record list history_result" where
  "list_observations coordinates kind inner =
     Inr (filter (\<lambda>observation. case kind of Some k \<Rightarrow> ob_kind observation = k | None \<Rightarrow> True)
       (filter (\<lambda>observation. ob_scope observation = coordinates)
         (hm_list (si_observations inner) (tc_thread_id coordinates))))"

subsection \<open>Paths through the entry tree\<close>

text \<open>One turn of the loop: fetch the entry and check that it belongs to the coordinates.\<close>

definition branch_entry ::
  "entry_map \<Rightarrow> thread_coordinates \<Rightarrow> session_entry_id \<Rightarrow> session_entry history_result" where
  "branch_entry entries_by_id coordinates entry_id =
     (case hm_get entries_by_id entry_id of
        None \<Rightarrow> Inl (EntryNotFound entry_id)
      | Some entry \<Rightarrow>
          and_then (validate_entry_coordinates coordinates entry) (\<lambda>_. Inr entry))"

partial_function (option) branch_path_loop ::
  "(session_entry_id \<Rightarrow> session_entry history_result) \<Rightarrow> session_entry list \<Rightarrow>
   session_entry_id option \<Rightarrow> session_entry list history_result option" where
  "branch_path_loop fetch path cursor =
     (case cursor of
        None \<Rightarrow> Some (Inr (rev path))
      | Some entry_id \<Rightarrow>
          (case fetch entry_id of
             Inl e \<Rightarrow> Some (Inl e)
           | Inr entry \<Rightarrow> branch_path_loop fetch (path @ [entry]) (en_parent_entry_id entry)))"

definition branch_path ::
  "entry_map \<Rightarrow> session_entry_id \<Rightarrow> thread_coordinates \<Rightarrow>
   session_entry list history_result option" where
  "branch_path entries_by_id leaf_entry_id coordinates =
     branch_path_loop (branch_entry entries_by_id coordinates) [] (Some leaf_entry_id)"

subsection \<open>Contexts\<close>

definition local_leaf_of ::
  "store_inner \<Rightarrow> thread_id \<Rightarrow> session_entry_id option \<Rightarrow> session_entry_id option" where
  "local_leaf_of inner thread_id local_leaf_override =
     (case local_leaf_override of
        Some leaf \<Rightarrow> Some leaf
      | None \<Rightarrow> hm_get (si_active_leaf inner) thread_id)"

definition finish_context ::
  "session_entry list \<times> session_context_source_cut list \<Rightarrow> session_context" where
  "finish_context p =
     (let (entries, source_cuts) = strip_thread_start_identity_entries p in
      \<lparr>cx_entries = entries, cx_messages = append_model_visible_messages entries [],
       cx_source_cuts = source_cuts\<rparr>)"

text \<open>The second half of \<open>build_in_memory_context\<close>: the thread's own entries.\<close>

definition add_local_path ::
  "(uuid \<Rightarrow> string) \<Rightarrow> store_inner \<Rightarrow> thread_coordinates \<Rightarrow> session_entry_id option \<Rightarrow> bool \<Rightarrow>
   session_entry list \<times> session_context_source_cut list \<Rightarrow> session_context history_result option" where
  "add_local_path show_uuid inner coordinates local_leaf_override inherited = (\<lambda>(entries, source_cuts).
     case local_leaf_of inner (tc_thread_id coordinates) local_leaf_override of
       None \<Rightarrow> Some (Inr (finish_context (entries, source_cuts)))
     | Some local_leaf \<Rightarrow>
         (case hm_get (si_entries inner) (tc_thread_id coordinates) of
            None \<Rightarrow> Some (Inl (EntryNotFound local_leaf))
          | Some entries_by_id \<Rightarrow>
              and_then_opt (branch_path entries_by_id local_leaf coordinates) (\<lambda>local_path.
                Some (Inr (finish_context
                  (entries @ local_path,
                   source_cuts @
                   (if local_path \<noteq> [] then
                      [\<lparr>cc_coordinates = coordinates,
                        cc_stream_id = stream_for_thread show_uuid coordinates,
                        cc_inherited = inherited,
                        cc_entry_ids = map en_entry_id local_path\<rparr>]
                    else [])))))))"

definition base_child_mismatch ::
  "(uuid \<Rightarrow> string) \<Rightarrow> thread_base_ref \<Rightarrow> thread_id \<Rightarrow> history_error" where
  "base_child_mismatch show_uuid base thread_id =
     Storage (''thread base child id '' @ show_thread_id show_uuid (tb_child_thread_id base) @
       '' does not match requested thread '' @ show_thread_id show_uuid thread_id)"

lemma card_visiting_decreases:
  "hm_get m t = Some b \<Longrightarrow> t \<notin> visiting \<Longrightarrow>
   card (fst ` set m - insert t visiting) < card (fst ` set m - visiting)"
  by (rule psubset_card_mono) (use hm_get_keyI in \<open>fastforce simp: psubset_eq\<close>)+

text \<open>
  \<open>visiting\<close> is the set of threads whose contexts are under construction.  The code removes the
  thread from the shared set before returning \<open>Ok\<close> and abandons the whole construction on an
  error, so passing the set by value makes no difference.
\<close>

function build_in_memory_context ::
  "(uuid \<Rightarrow> string) \<Rightarrow> store_inner \<Rightarrow> thread_coordinates \<Rightarrow> session_entry_id option \<Rightarrow> bool \<Rightarrow>
   thread_id set \<Rightarrow> session_context history_result option" where
  "build_in_memory_context show_uuid inner coordinates local_leaf_override inherited visiting =
     (let thread_id = tc_thread_id coordinates in
      if thread_id \<in> visiting then Some (Inl (ThreadBaseCycle thread_id thread_id))
      else and_then_opt
        (case hm_get (si_bases inner) thread_id of
           None \<Rightarrow> Some (Inr ([], []))
         | Some base \<Rightarrow>
             if tb_child_thread_id base \<noteq> thread_id
             then Some (Inl (base_child_mismatch show_uuid base thread_id))
             else and_then_opt
               (build_in_memory_context show_uuid inner
                  (coordinates_with_thread_id coordinates (tb_parent_thread_id base))
                  (tb_parent_leaf_entry_id base) True (insert thread_id visiting))
               (\<lambda>parent_context.
                  Some (Inr (cx_entries parent_context, cx_source_cuts parent_context))))
        (add_local_path show_uuid inner coordinates local_leaf_override inherited))"
  by pat_completeness auto
termination
  by (relation "measure (\<lambda>(_, inner, _, _, _, visiting). card (fst ` set (si_bases inner) - visiting))")
    (simp_all add: card_visiting_decreases)

declare build_in_memory_context.simps [simp del]

definition build_context ::
  "(uuid \<Rightarrow> string) \<Rightarrow> thread_coordinates \<Rightarrow> store_inner \<Rightarrow> session_context history_result option" where
  "build_context show_uuid coordinates inner =
     build_in_memory_context show_uuid inner coordinates None False {}"

subsection \<open>Base cycles\<close>

function base_cycle_loop ::
  "(thread_id, thread_base_ref) hmap \<Rightarrow> thread_id \<Rightarrow> thread_id set \<Rightarrow> thread_id option \<Rightarrow>
   unit history_result" where
  "base_cycle_loop bases child visited cursor =
     (case cursor of
        None \<Rightarrow> Inr ()
      | Some thread_id \<Rightarrow>
          if thread_id = child \<or> thread_id \<in> visited
          then Inl (ThreadBaseCycle child thread_id)
          else base_cycle_loop bases child (insert thread_id visited)
                 (map_option tb_parent_thread_id (hm_get bases thread_id)))"
  by pat_completeness auto
termination
proof (relation "measure (\<lambda>(bases, child, visited, cursor).
    case cursor of None \<Rightarrow> 0
    | Some t \<Rightarrow> 1 + card (fst ` set bases - visited) + (if t \<in> fst ` set bases then 1 else 0))",
    goal_cases)
  case (2 bases child visited cursor t)
  show ?case
  proof (cases "hm_get bases t")
    case None
    with 2 show ?thesis by simp
  next
    case (Some b)
    with 2 have "card (fst ` set bases - insert t visited) < card (fst ` set bases - visited)"
      by (intro card_visiting_decreases) auto
    with 2 Some show ?thesis by (simp add: hm_get_keyI)
  qed
qed simp

declare base_cycle_loop.simps [simp del]

definition validate_in_memory_base_cycle ::
  "store_inner \<Rightarrow> thread_id \<Rightarrow> thread_id \<Rightarrow> unit history_result" where
  "validate_in_memory_base_cycle inner child_thread_id parent_thread_id =
     base_cycle_loop (si_bases inner) child_thread_id {} (Some parent_thread_id)"

subsection \<open>Session operations\<close>

text \<open>\<open>entries.entry(thread).or_default().insert(id, entry)\<close> and \<open>active_leaf.insert(thread, id)\<close>\<close>

definition insert_entry :: "thread_id \<Rightarrow> session_entry \<Rightarrow> store_inner \<Rightarrow> store_inner" where
  "insert_entry thread_id entry inner =
     inner\<lparr>si_entries := hm_insert thread_id
       (hm_insert (en_entry_id entry) entry (entries_of inner thread_id)) (si_entries inner)\<rparr>"

definition set_active_leaf :: "thread_id \<Rightarrow> session_entry_id \<Rightarrow> store_inner \<Rightarrow> store_inner" where
  "set_active_leaf thread_id leaf inner =
     inner\<lparr>si_active_leaf := hm_insert thread_id leaf (si_active_leaf inner)\<rparr>"

definition clear_active_leaf :: "thread_id \<Rightarrow> store_inner \<Rightarrow> store_inner" where
  "clear_active_leaf thread_id inner =
     inner\<lparr>si_active_leaf := hm_remove thread_id (si_active_leaf inner)\<rparr>"

definition remove_base :: "thread_id \<Rightarrow> store_inner \<Rightarrow> store_inner" where
  "remove_base thread_id inner = inner\<lparr>si_bases := hm_remove thread_id (si_bases inner)\<rparr>"

text \<open>Witness the entry in the journal, then store it and make it the active leaf.\<close>

definition commit_entry ::
  "(uuid \<Rightarrow> string) \<Rightarrow> u64 \<Rightarrow> thread_coordinates \<Rightarrow> session_entry \<Rightarrow> new_event_record \<Rightarrow>
   store_inner \<Rightarrow> session_entry history_result \<times> store_inner" where
  "commit_entry show_uuid lease_epoch coordinates entry event inner =
     (case append_in_memory_events show_uuid (stream_for_thread show_uuid coordinates) [event]
             lease_epoch inner of
        (Inl e, inner') \<Rightarrow> (Inl e, inner')
      | (Inr _, inner') \<Rightarrow>
          (Inr entry,
           set_active_leaf (tc_thread_id coordinates) (en_entry_id entry)
             (insert_entry (tc_thread_id coordinates) entry inner')))"

definition resolve_parent ::
  "store_inner \<Rightarrow> thread_coordinates \<Rightarrow> session_entry_id option \<Rightarrow>
   session_entry_id option history_result" where
  "resolve_parent inner coordinates parent_entry_id =
     (case parent_entry_id of
        Some parent \<Rightarrow>
          (case hm_get (si_entries inner) (tc_thread_id coordinates) of
             None \<Rightarrow> Inl (EntryNotFound parent)
           | Some entries \<Rightarrow>
               (case hm_get entries parent of
                  None \<Rightarrow> Inl (EntryNotFound parent)
                | Some parent_entry \<Rightarrow>
                    and_then (validate_entry_coordinates coordinates parent_entry)
                      (\<lambda>_. Inr (Some parent))))
      | None \<Rightarrow> Inr (hm_get (si_active_leaf inner) (tc_thread_id coordinates)))"

definition append_inner ::
  "(uuid \<Rightarrow> string) \<Rightarrow> u64 \<Rightarrow> stamp \<Rightarrow> stamp \<Rightarrow> thread_coordinates \<Rightarrow> session_entry_id option \<Rightarrow>
   session_entry_kind \<Rightarrow> event_provenance option \<Rightarrow> store_inner \<Rightarrow>
   session_entry history_result \<times> store_inner" where
  "append_inner show_uuid lease_epoch entry_stamp event_stamp coordinates parent_entry_id kind
     provenance inner =
     or_return (resolve_parent inner coordinates parent_entry_id) inner (\<lambda>parent.
     or_return (check_in_memory_lease_epoch inner (stream_for_thread show_uuid coordinates)
         lease_epoch) inner (\<lambda>_.
     let entry = entry_new entry_stamp coordinates parent kind in
     commit_entry show_uuid lease_epoch coordinates entry
       (session_entry_event_with_optional_provenance show_uuid event_stamp entry provenance)
       inner))"

definition store_append ::
  "(uuid \<Rightarrow> string) \<Rightarrow> u64 \<Rightarrow> stamp \<Rightarrow> stamp \<Rightarrow> thread_coordinates \<Rightarrow> session_entry_id option \<Rightarrow>
   session_entry_kind \<Rightarrow> store_inner \<Rightarrow> session_entry history_result \<times> store_inner" where
  "store_append show_uuid lease_epoch entry_stamp event_stamp coordinates parent_entry_id kind inner =
     append_inner show_uuid lease_epoch entry_stamp event_stamp coordinates parent_entry_id kind
       None inner"

definition append_with_provenance ::
  "(uuid \<Rightarrow> string) \<Rightarrow> u64 \<Rightarrow> stamp \<Rightarrow> stamp \<Rightarrow> thread_coordinates \<Rightarrow> session_entry_id option \<Rightarrow>
   session_entry_kind \<Rightarrow> event_provenance \<Rightarrow> store_inner \<Rightarrow>
   session_entry history_result \<times> store_inner" where
  "append_with_provenance show_uuid lease_epoch entry_stamp event_stamp coordinates parent_entry_id
     kind provenance inner =
     append_inner show_uuid lease_epoch entry_stamp event_stamp coordinates parent_entry_id kind
       (Some provenance) inner"

definition append_turn_input ::
  "(uuid \<Rightarrow> string) \<Rightarrow> u64 \<Rightarrow> stamp \<Rightarrow> stamp \<Rightarrow> thread_coordinates \<Rightarrow> string \<Rightarrow>
   session_entry_kind \<Rightarrow> store_inner \<Rightarrow> session_entry history_result \<times> store_inner" where
  "append_turn_input show_uuid lease_epoch entry_stamp event_stamp coordinates turn_id kind inner =
     (case find (\<lambda>entry. en_turn_id entry = Some turn_id)
             (map snd (entries_of inner (tc_thread_id coordinates))) of
        Some existing \<Rightarrow>
          or_return (validate_entry_coordinates coordinates existing) inner (\<lambda>_.
            if \<not> turn_input_kinds_match (en_kind existing) kind
            then (Inl (Storage (''turn '' @ turn_id @
                    '' input does not match its persisted session entry'')), inner)
            else (Inr existing, inner))
      | None \<Rightarrow>
          let parent = hm_get (si_active_leaf inner) (tc_thread_id coordinates);
              stream_id = stream_for_thread show_uuid coordinates in
          or_return (check_in_memory_lease_epoch inner stream_id lease_epoch) inner (\<lambda>_.
          let entry = entry_for_turn entry_stamp coordinates parent turn_id kind in
          commit_entry show_uuid lease_epoch coordinates entry
            (session_entry_event show_uuid event_stamp entry) inner))"

definition active_leaf ::
  "thread_coordinates \<Rightarrow> store_inner \<Rightarrow> session_entry_id option history_result" where
  "active_leaf coordinates inner =
     (case hm_get (si_active_leaf inner) (tc_thread_id coordinates) of
        None \<Rightarrow> Inr None
      | Some leaf \<Rightarrow>
          (case hm_get (entries_of inner (tc_thread_id coordinates)) leaf of
             None \<Rightarrow> Inl (EntryNotFound leaf)
           | Some entry \<Rightarrow>
               and_then (validate_entry_coordinates coordinates entry) (\<lambda>_. Inr (Some leaf))))"

text \<open>The path check of \<open>select_branch\<close> and \<open>clone_branch\<close>.\<close>

definition stored_branch_path ::
  "store_inner \<Rightarrow> thread_coordinates \<Rightarrow> session_entry_id \<Rightarrow>
   session_entry list history_result option" where
  "stored_branch_path inner coordinates leaf =
     (case hm_get (si_entries inner) (tc_thread_id coordinates) of
        None \<Rightarrow> Some (Inl (EntryNotFound leaf))
      | Some entries_by_id \<Rightarrow> branch_path entries_by_id leaf coordinates)"

definition record_selection ::
  "(uuid \<Rightarrow> string) \<Rightarrow> u64 \<Rightarrow> stamp \<Rightarrow> thread_coordinates \<Rightarrow> session_entry_id option \<Rightarrow>
   store_inner \<Rightarrow> unit history_result \<times> store_inner" where
  "record_selection show_uuid lease_epoch event_stamp coordinates leaf_entry_id inner =
     (let thread_id = tc_thread_id coordinates;
          stream_id = stream_for_thread show_uuid coordinates;
          payload = json_of_thread_branch_selected show_uuid
            \<lparr>bs_thread_id = thread_id, bs_selected_entry_id = leaf_entry_id,
             bs_prior_entry_id = hm_get (si_active_leaf inner) thread_id\<rparr> in
      or_return (check_in_memory_lease_epoch inner stream_id lease_epoch) inner (\<lambda>_.
      case append_in_memory_events show_uuid stream_id
             [event_witnessed event_stamp coordinates ThreadBranchSelected payload]
             lease_epoch inner of
        (Inl e, inner') \<Rightarrow> (Inl e, inner')
      | (Inr _, inner') \<Rightarrow>
          (Inr (),
           case leaf_entry_id of
             Some leaf \<Rightarrow> set_active_leaf thread_id leaf inner'
           | None \<Rightarrow> clear_active_leaf thread_id inner')))"

definition select_branch ::
  "(uuid \<Rightarrow> string) \<Rightarrow> u64 \<Rightarrow> stamp \<Rightarrow> thread_coordinates \<Rightarrow> session_entry_id option \<Rightarrow>
   store_inner \<Rightarrow> (unit history_result \<times> store_inner) option" where
  "select_branch show_uuid lease_epoch event_stamp coordinates leaf_entry_id inner =
     (case leaf_entry_id of
        None \<Rightarrow> Some (record_selection show_uuid lease_epoch event_stamp coordinates None inner)
      | Some leaf \<Rightarrow>
          (case stored_branch_path inner coordinates leaf of
             None \<Rightarrow> None
           | Some (Inl e) \<Rightarrow> Some (Inl e, inner)
           | Some (Inr _) \<Rightarrow>
               Some (record_selection show_uuid lease_epoch event_stamp coordinates (Some leaf)
                       inner)))"

fun clone_entries ::
  "(nat \<Rightarrow> stamp) \<Rightarrow> nat \<Rightarrow> thread_coordinates \<Rightarrow> session_entry_id option \<Rightarrow> session_entry list \<Rightarrow>
   session_entry list" where
  "clone_entries stamps i target parent [] = []"
| "clone_entries stamps i target parent (source_entry # path) =
     (let entry = entry_new (stamps i) target parent (en_kind source_entry) in
      entry # clone_entries stamps (Suc i) target (Some (en_entry_id entry)) path)"

definition commit_clone ::
  "(uuid \<Rightarrow> string) \<Rightarrow> u64 \<Rightarrow> (nat \<Rightarrow> stamp) \<Rightarrow> thread_coordinates \<Rightarrow> session_entry list \<Rightarrow>
   store_inner \<Rightarrow> session_entry_id option history_result \<times> store_inner" where
  "commit_clone show_uuid lease_epoch event_stamps target cloned inner =
     (let stream_id = stream_for_thread show_uuid target;
          thread_id = tc_thread_id target in
      or_return (check_in_memory_lease_epoch inner stream_id lease_epoch) inner (\<lambda>_.
      case append_in_memory_events show_uuid stream_id
             (map (\<lambda>(i, entry). session_entry_event show_uuid (event_stamps i) entry)
                (List.enumerate 0 cloned)) lease_epoch inner of
        (Inl e, inner') \<Rightarrow> (Inl e, inner')
      | (Inr _, inner') \<Rightarrow>
          let stored = fold (insert_entry thread_id) cloned (remove_base thread_id inner') in
          (case cloned of
             [] \<Rightarrow> (Inr None, stored)
           | _ \<Rightarrow> (Inr (Some (en_entry_id (last cloned))),
                    set_active_leaf thread_id (en_entry_id (last cloned)) stored))))"

definition clone_branch ::
  "(uuid \<Rightarrow> string) \<Rightarrow> u64 \<Rightarrow> (nat \<Rightarrow> stamp) \<Rightarrow> (nat \<Rightarrow> stamp) \<Rightarrow> thread_coordinates \<Rightarrow>
   session_entry_id option \<Rightarrow> thread_coordinates \<Rightarrow> store_inner \<Rightarrow>
   (session_entry_id option history_result \<times> store_inner) option" where
  "clone_branch show_uuid lease_epoch entry_stamps event_stamps source source_leaf target inner =
     (case source_leaf of
        None \<Rightarrow>
          Some (Inr None,
            clear_active_leaf (tc_thread_id target) (remove_base (tc_thread_id target) inner))
      | Some leaf \<Rightarrow>
          (case stored_branch_path inner source leaf of
             None \<Rightarrow> None
           | Some (Inl e) \<Rightarrow> Some (Inl e, inner)
           | Some (Inr path) \<Rightarrow>
               Some (commit_clone show_uuid lease_epoch event_stamps target
                       (clone_entries entry_stamps 0 target None path) inner)))"

definition fork_by_reference ::
  "(uuid \<Rightarrow> string) \<Rightarrow> thread_coordinates \<Rightarrow> thread_coordinates \<Rightarrow> thread_base_ref \<Rightarrow>
   store_inner \<Rightarrow> (unit history_result \<times> store_inner) option" where
  "fork_by_reference show_uuid source target base inner =
     (case and_then (validate_thread_base_ref show_uuid source target base) (\<lambda>_.
             validate_in_memory_base_cycle inner (tc_thread_id target) (tc_thread_id source)) of
        Inl e \<Rightarrow> Some (Inl e, inner)
      | Inr _ \<Rightarrow>
          (case (case tb_parent_leaf_entry_id base of
                   None \<Rightarrow> Some (Inr ())
                 | Some leaf \<Rightarrow> and_then_opt
                     (build_in_memory_context show_uuid inner source (Some leaf) False {})
                     (\<lambda>_. Some (Inr ()))) of
             None \<Rightarrow> None
           | Some (Inl e) \<Rightarrow> Some (Inl e, inner)
           | Some (Inr _) \<Rightarrow>
               Some (Inr (),
                 (clear_active_leaf (tc_thread_id target) inner)\<lparr>si_bases :=
                    hm_insert (tc_thread_id target) base (si_bases inner)\<rparr>)))"

end
