(* ===== verification/Store_Journal.thy ===== *)
theory Store_Journal
  imports History_Store
begin

section \<open>The journal: an append-only, gap-free, fenced record\<close>

text \<open>
  What the event half of the store promises.  The interfaces are locales: \<open>journal_reader\<close> (a
  store whose streams are numbered without gaps and can be read from a sequence number on),
  \<open>event_journal\<close> (appending is all or nothing and only ever extends one stream) and
  \<open>fenced_journal\<close> (the compare-and-append of \<open>append_events_fenced\<close>).  Replay from a cursor, the
  acknowledgement of an append and the exclusion of concurrent writers are proved in the locales;
  the in-memory store is the interpretation at the end of each part.
\<close>

subsection \<open>Reading\<close>

locale journal_reader =
  fixes events :: "'s \<Rightarrow> event_stream_id \<Rightarrow> event_record list"
    and read :: "event_stream_id \<Rightarrow> event_sequence option \<Rightarrow> 's \<Rightarrow> event_record list history_result"
    and inv :: "'s \<Rightarrow> bool"
  assumes contiguous: "inv s \<Longrightarrow> contiguous_from i 1 (events s i)"
    and read_all: "read i None s = Inr (events s i)"
    and read_from: "read i (Some q) s =
      Inr (filter (\<lambda>e. sequence_get q \<le> sequence_get (ev_sequence e)) (events s i))"
begin

lemma sequence_of: "inv s \<Longrightarrow> n < length (events s i) \<Longrightarrow>
    ev_sequence (events s i ! n) = EventSequence (1 + int n) \<and> ev_stream_id (events s i ! n) = i"
  using contiguous [of s i] unfolding contiguous_from_def
  by (metis event_sequence.exhaust sequence_get.simps)

lemma read_from_drop:
  assumes "inv s" "1 \<le> sequence_get q"
  shows "read i (Some q) s = Inr (drop (nat (sequence_get q) - 1) (events s i))"
proof -
  let ?k = "nat (sequence_get q) - 1"
  let ?P = "\<lambda>e. sequence_get q \<le> sequence_get (ev_sequence e)"
  have "\<not> ?P e" if "e \<in> set (take ?k (events s i))" for e
    using that assms(2) sequence_of [OF assms(1)] by (auto simp: in_set_conv_nth)
  then have "filter ?P (take ?k (events s i)) = []" by (simp add: filter_empty_conv)
  moreover have "?P e" if "e \<in> set (drop ?k (events s i))" for e
    using that assms(2) sequence_of [OF assms(1)] by (auto simp: in_set_conv_nth)
  then have "filter ?P (drop ?k (events s i)) = drop ?k (events s i)" by (simp add: filter_id_conv)
  ultimately have "filter ?P (take ?k (events s i) @ drop ?k (events s i)) = drop ?k (events s i)"
    unfolding filter_append by simp
  then show ?thesis by (simp add: read_from)
qed

lemma replay_after_cursor:
  assumes "inv s" "n < length (events s i)"
  shows "read_events_after_cursor sh (\<lambda>i q. read i q s) i (cursor_from_event (events s i ! n)) =
    Inr (drop (Suc n) (events s i))"
proof -
  let ?e = "events s i ! n"
  have seq: "ev_sequence ?e = EventSequence (1 + int n)" "ev_stream_id ?e = i"
    using sequence_of [OF assms] by auto
  have "read i (Some (ev_sequence ?e)) s = Inr (drop n (events s i))"
    using read_from_drop [OF assms(1), of "ev_sequence ?e"] seq by (simp add: nat_add_distrib)
  moreover have "drop n (events s i) = ?e # drop (Suc n) (events s i)"
    using assms(2) by (simp add: Cons_nth_drop_Suc)
  moreover have "validate_stream_cursor_v1 sh (cursor_from_event ?e) = Inr ()"
    using seq by (simp add: validate_cursor_iff cursor_from_event_def cursor_new_def)
  ultimately show ?thesis
    using seq
    by (simp add: read_events_after_cursor_def cursor_from_event_def cursor_new_def is_some_and_def)
qed

lemma replay_sound:
  assumes "inv s"
    and "read_events_after_cursor sh (\<lambda>i q. read i q s) i c = Inr es"
  shows "\<exists>n < length (events s i). cu_stream_id c = i \<and>
    cu_sequence c = ev_sequence (events s i ! n) \<and> cu_event_id c = ev_id (events s i ! n) \<and>
    es = drop (Suc n) (events s i)"
proof -
  from assms(2) have pos: "1 \<le> sequence_get (cu_sequence c)" and i: "cu_stream_id c = i"
    by (auto simp: read_events_after_cursor_def and_then_unit validate_cursor_iff split: if_splits)
  define n where "n = nat (sequence_get (cu_sequence c)) - 1"
  have "read i (Some (cu_sequence c)) s = Inr (drop n (events s i))"
    unfolding n_def by (rule read_from_drop [OF assms(1) pos])
  with assms(2) i obtain e rest where "drop n (events s i) = e # rest"
      "ev_sequence e = cu_sequence c" "ev_id e = cu_event_id c" "es = rest"
    by (auto simp: read_events_after_cursor_def and_then_unit is_some_and_def Let_def
        split: if_splits list.splits)
  moreover from this have "n < length (events s i)"
    by (metis drop_all leI list.discI)
  ultimately show ?thesis
    using i by (metis Cons_nth_drop_Suc list.inject)
qed

end

subsection \<open>Appending\<close>

locale event_journal = journal_reader events read inv
  for events :: "'s \<Rightarrow> event_stream_id \<Rightarrow> event_record list"
    and read :: "event_stream_id \<Rightarrow> event_sequence option \<Rightarrow> 's \<Rightarrow> event_record list history_result"
    and inv :: "'s \<Rightarrow> bool" +
  fixes append :: "'h \<Rightarrow> event_stream_id \<Rightarrow> new_event_record list \<Rightarrow> 's \<Rightarrow>
      event_record list history_result \<times> 's"
  assumes append_inv: "inv s \<Longrightarrow> inv (snd (append h i rs s))"
    and append_ok: "append h i rs s = (Inr es, s') \<Longrightarrow>
      events s' = (events s)(i := events s i @ es) \<and>
      map ev_id es = map ne_id rs \<and> map ev_payload es = map ne_payload rs"
    and append_err: "append h i rs s = (Inl e, s') \<Longrightarrow> s' = s"
begin

lemma append_extends: "prefix (events s j) (events (snd (append h i rs s)) j)"
proof (cases "append h i rs s")
  case (Pair r s')
  then show ?thesis
    by (cases r) (auto dest: append_ok append_err)
qed

lemma read_after_append:
  assumes "append h i rs s = (Inr es, s')"
  shows "read i None s' = Inr (events s i @ es)"
    and "j \<noteq> i \<Longrightarrow> read j None s' = read j None s"
  using append_ok [OF assms] by (simp_all add: read_all)

lemma append_acknowledged:
  assumes "inv s" "append h i rs s = (Inr es, s')" "rs \<noteq> []" "acks \<noteq> []"
  shows "\<exists>ack. ack_from_appended i es acks = Inr ack \<and>
    sequence_get (aa_start_sequence ack) = int (length (events s i)) + 1 \<and>
    sequence_get (aa_tail_sequence ack) = int (length (events s' i)) \<and>
    aa_tail_event_id ack = ne_id (last rs)"
proof -
  note ok = append_ok [OF assms(2)]
  have "inv s'" using append_inv [OF assms(1), of h i rs] assms(2) by simp
  then have "contiguous_from i 1 (events s i @ es)" using contiguous [of s' i] ok by simp
  then have c: "contiguous_from i (1 + int (length (events s i))) es"
    by (simp add: contiguous_from_append)
  from ok have len: "length es = length rs" by (metis length_map)
  with assms(3) have ne: "es \<noteq> []" by auto
  from c ne have hd: "sequence_get (ev_sequence (hd es)) = 1 + int (length (events s i))"
    by (cases es) (auto simp: contiguous_from_Cons)
  have last: "sequence_get (ev_sequence (last es)) = int (length (events s i)) + int (length es)"
    using c ne unfolding contiguous_from_def by (simp add: last_conv_nth of_nat_diff Suc_leI)
  have id: "ev_id (last es) = ne_id (last rs)"
    using ok ne assms(3) by (metis last_map)
  have "ack_from_appended i es acks = Inr \<lparr>aa_schema = stream_append_ack_schema_id,
      aa_stream_id = i, aa_start_sequence = ev_sequence (hd es),
      aa_end_sequence = ev_sequence (last es), aa_tail_sequence = ev_sequence (last es),
      aa_tail_event_id = ev_id (last es), aa_acks = acks\<rparr>"
    using ne assms(4) c hd ack_checks_ok [of i "hd es" es]
    by (cases es) (simp_all add: ack_from_appended_def)
  with hd last id ok show ?thesis by simp
qed

end

subsection \<open>Fencing\<close>

locale fenced_journal = event_journal events read inv append
  for events :: "'s \<Rightarrow> event_stream_id \<Rightarrow> event_record list"
    and read :: "event_stream_id \<Rightarrow> event_sequence option \<Rightarrow> 's \<Rightarrow> event_record list history_result"
    and inv :: "'s \<Rightarrow> bool"
    and append :: "'h \<Rightarrow> event_stream_id \<Rightarrow> new_event_record list \<Rightarrow> 's \<Rightarrow>
      event_record list history_result \<times> 's" +
  fixes fenced :: "'h \<Rightarrow> event_stream_id \<Rightarrow> event_sequence \<Rightarrow> new_event_record list \<Rightarrow> 's \<Rightarrow>
      event_record list history_result \<times> 's"
  assumes fenced_open: "sequence_get q = int (length (events s i)) + 1 \<Longrightarrow>
      fenced h i q rs s = append h i rs s"
    and fenced_closed: "sequence_get q \<noteq> int (length (events s i)) + 1 \<Longrightarrow>
      \<exists>e. fenced h i q rs s = (Inl e, s)"
begin

lemma fenced_ok:
  assumes "fenced h i q rs s = (Inr es, s')"
  shows "sequence_get q = int (length (events s i)) + 1" and "append h i rs s = (Inr es, s')"
proof -
  show q: "sequence_get q = int (length (events s i)) + 1"
    using fenced_closed [of q s i h rs] assms by fastforce
  show "append h i rs s = (Inr es, s')" using fenced_open [OF q, of h rs] assms by simp
qed

text \<open>
  Two writers that read the same tail: once one of them appended, and whatever was appended after
  it, the other is turned away.
\<close>

lemma fence_excludes:
  assumes "fenced h i q rs s = (Inr es, s')" "rs \<noteq> []"
    and "prefix (events s' i) (events t i)"
  shows "\<exists>e. fenced h' i q rs' t = (Inl e, t)"
proof -
  note f = fenced_ok [OF assms(1)] and a = append_ok [OF fenced_ok(2) [OF assms(1)]]
  from a have "length es = length rs" by (metis length_map)
  moreover have "0 < length rs" using assms(2) by simp
  moreover have "length (events s i) + length es \<le> length (events t i)"
    using a prefix_length_le [OF assms(3)] by simp
  ultimately have "length (events s i) < length (events t i)" by linarith
  with f(1) show ?thesis by (intro fenced_closed) simp
qed

end

subsection \<open>The in-memory journal\<close>

lemma check_batch_ok:
  "check_batch ids b rs = Inr b' \<longleftrightarrow>
     (\<forall>r \<in> set rs. validate_new_event r = Inr ()) \<and> distinct (map ne_id rs) \<and>
     ne_id ` set rs \<inter> (ids \<union> b) = {} \<and> b' = b \<union> ne_id ` set rs"
proof (induction ids b rs rule: check_batch.induct)
  case (1 ids b)
  then show ?case by auto
next
  case (2 ids b r rs)
  show ?case
  proof (cases "validate_new_event r = Inr () \<and> ne_id r \<notin> ids \<and> ne_id r \<notin> b")
    case True
    then show ?thesis using "2.IH" [of "()"] by auto
  next
    case False
    then show ?thesis by (cases "validate_new_event r") auto
  qed
qed

text \<open>What the record must have for its event to be stored.\<close>

definition storable :: "new_event_record \<Rightarrow> bool" where
  "storable r \<longleftrightarrow> is_object (ne_payload r) \<and>
     (ne_kind r = IoEgressRequested \<longrightarrow>
        conforms 0 io_egress_requested_payload_schema_v1 (ne_payload r))"

definition numbered :: "event_stream_id \<Rightarrow> i64 \<Rightarrow> new_event_record list \<Rightarrow> event_record list" where
  "numbered i n rs =
     map (\<lambda>(k, r). event_from_new i (EventSequence (n + int k + 1)) r) (List.enumerate 0 rs)"

lemma number_event_ok:
  "number_event sh i n (k, r) = Inr e \<longleftrightarrow>
     storable r \<and> e = event_from_new i (EventSequence (n + int k + 1)) r"
  by (auto simp: number_event_def Let_def and_then_unit validate_stream_record_iff storable_def
      event_from_new_def)

lemma number_events_ok:
  "collect_results (number_event sh i n) (List.enumerate 0 rs) = Inr es \<longleftrightarrow>
     (\<forall>r \<in> set rs. storable r) \<and> es = numbered i n rs"
proof -
  have "collect_results (number_event sh i n) (List.enumerate 0 rs) = Inr es \<longleftrightarrow>
      length es = length rs \<and> (\<forall>k < length rs. storable (rs ! k) \<and>
        es ! k = event_from_new i (EventSequence (n + int k + 1)) (rs ! k))"
    unfolding collect_results_ok list_all2_conv_all_nth
    by (auto simp: nth_enumerate_eq number_event_ok)
  also have "\<dots> \<longleftrightarrow> (\<forall>r \<in> set rs. storable r) \<and> es = numbered i n rs"
    by (auto simp: numbered_def list_eq_iff_nth_eq nth_enumerate_eq all_set_conv_all_nth)
  finally show ?thesis .
qed

lemma length_numbered [simp]: "length (numbered i n rs) = length rs"
  by (simp add: numbered_def)

lemma nth_numbered [simp]:
  "k < length rs \<Longrightarrow>
   numbered i n rs ! k = event_from_new i (EventSequence (n + int k + 1)) (rs ! k)"
  by (simp add: numbered_def nth_enumerate_eq)

lemma map_numbered:
  "map ev_id (numbered i n rs) = map ne_id rs"
  "map ev_payload (numbered i n rs) = map ne_payload rs"
  "map ev_kind (numbered i n rs) = map ne_kind rs"
  "map ev_origin (numbered i n rs) = map ne_origin rs"
  "map ev_provenance (numbered i n rs) = map ne_provenance rs"
  by (auto simp: list_eq_iff_nth_eq event_from_new_def)

lemma contiguous_numbered: "contiguous_from i (n + 1) (numbered i n rs)"
  by (simp add: contiguous_from_def event_from_new_def)

definition admissible_batch :: "store_inner \<Rightarrow> new_event_record list \<Rightarrow> bool" where
  "admissible_batch s rs \<longleftrightarrow>
     (\<forall>r \<in> set rs. validate_new_event r = Inr () \<and> storable r) \<and> distinct (map ne_id rs) \<and>
     ne_id ` set rs \<inter> si_event_ids s = {}"

definition with_events ::
  "event_stream_id \<Rightarrow> u64 \<Rightarrow> new_event_record list \<Rightarrow> store_inner \<Rightarrow> store_inner" where
  "with_events i epoch rs s = (raise_in_memory_lease_epoch i epoch s)
     \<lparr>si_events := hm_insert i
        (stream_events s i @ numbered i (int (length (stream_events s i))) rs) (si_events s),
      si_event_ids := si_event_ids s \<union> ne_id ` set rs\<rparr>"

lemma raise_keeps [simp]:
  "si_events (raise_in_memory_lease_epoch i ep s) = si_events s"
  "si_event_ids (raise_in_memory_lease_epoch i ep s) = si_event_ids s"
  "si_entries (raise_in_memory_lease_epoch i ep s) = si_entries s"
  "si_active_leaf (raise_in_memory_lease_epoch i ep s) = si_active_leaf s"
  "si_bases (raise_in_memory_lease_epoch i ep s) = si_bases s"
  "si_observations (raise_in_memory_lease_epoch i ep s) = si_observations s"
  by (simp_all add: raise_in_memory_lease_epoch_def)

lemma append_in_memory_ok:
  "append_in_memory_events sh i rs ep s = (Inr es, s') \<longleftrightarrow>
     admissible_batch s rs \<and> es = numbered i (int (length (stream_events s i))) rs \<and>
     s' = with_events i ep rs s"
  by (auto simp: append_in_memory_events_def or_return_ok check_batch_ok number_events_ok Let_def
      admissible_batch_def with_events_def)

lemma append_in_memory_err:
  "append_in_memory_events sh i rs ep s = (Inl e, s') \<Longrightarrow> s' = s"
  by (auto simp: append_in_memory_events_def or_return_err Let_def)

lemma append_events_ok:
  "append_events sh ep i rs s = (Inr es, s') \<longleftrightarrow>
     check_in_memory_lease_epoch s i ep = Inr () \<and> admissible_batch s rs \<and>
     es = numbered i (int (length (stream_events s i))) rs \<and> s' = with_events i ep rs s"
  by (auto simp: append_events_def or_return_ok append_in_memory_ok)

lemma append_events_err: "append_events sh ep i rs s = (Inl e, s') \<Longrightarrow> s' = s"
  by (auto simp: append_events_def or_return_err dest: append_in_memory_err)

lemma append_events_cases:
  obtains (ok) "append_events sh ep i rs s =
      (Inr (numbered i (int (length (stream_events s i))) rs), with_events i ep rs s)"
      "check_in_memory_lease_epoch s i ep = Inr ()" "admissible_batch s rs"
  | (err) e where "append_events sh ep i rs s = (Inl e, s)"
proof (cases "append_events sh ep i rs s")
  case (Pair r s')
  show thesis
  proof (cases r)
    case (Inl e)
    with Pair have "append_events sh ep i rs s = (Inl e, s)" by (simp add: append_events_err)
    then show thesis by (rule err)
  next
    case (Inr es)
    with Pair have "append_events sh ep i rs s = (Inr es, s')" by simp
    from this this [unfolded append_events_ok] show thesis by (metis ok)
  qed
qed

text \<open>
  The journal invariant: streams are numbered 1, 2, 3, \<open>\<dots>\<close>; no event id occurs twice in the whole
  store and \<open>event_ids\<close> is the set of those that occur; a discharged event has provenance and
  every stored event passes the stream check.
\<close>

definition event_ok :: "event_record \<Rightarrow> bool" where
  "event_ok e \<longleftrightarrow> (ev_origin e = Discharged \<longrightarrow> \<not> provenance_is_empty (ev_provenance e)) \<and>
     is_object (ev_payload e) \<and>
     (ev_kind e = IoEgressRequested \<longrightarrow>
        conforms 0 io_egress_requested_payload_schema_v1 (ev_payload e))"

definition journal_ok :: "store_inner \<Rightarrow> bool" where
  "journal_ok s \<longleftrightarrow>
     (\<forall>i. contiguous_from i 1 (stream_events s i)) \<and>
     (\<forall>i. distinct (map ev_id (stream_events s i))) \<and>
     (\<forall>i j. i \<noteq> j \<longrightarrow> ev_id ` set (stream_events s i) \<inter> ev_id ` set (stream_events s j) = {}) \<and>
     si_event_ids s = (\<Union>i. ev_id ` set (stream_events s i)) \<and>
     (\<forall>i. \<forall>e \<in> set (stream_events s i). event_ok e)"

lemma journal_ok_new: "journal_ok store_new"
  by (simp add: journal_ok_def store_new_def)

lemma numbered_ok:
  assumes "\<forall>r \<in> set rs. validate_new_event r = Inr () \<and> storable r"
    and "e \<in> set (numbered i n rs)"
  shows "event_ok e"
proof -
  from assms(2) obtain k where k: "k < length rs" and e: "e = numbered i n rs ! k"
    by (auto simp: in_set_conv_nth)
  then have "validate_new_event (rs ! k) = Inr ()" "storable (rs ! k)"
    using assms(1) by simp_all
  with e k show ?thesis
    by (simp add: event_ok_def event_from_new_def storable_def validate_new_event_def
        split: if_splits)
qed

lemma stream_events_with [simp]:
  "stream_events (with_events i ep rs s) j =
     (if j = i then stream_events s i @ numbered i (int (length (stream_events s i))) rs
      else stream_events s j)"
  by (simp add: with_events_def)

lemma with_events_keeps [simp]:
  "si_entries (with_events i ep rs s) = si_entries s"
  "si_active_leaf (with_events i ep rs s) = si_active_leaf s"
  "si_bases (with_events i ep rs s) = si_bases s"
  "si_observations (with_events i ep rs s) = si_observations s"
  "si_event_ids (with_events i ep rs s) = si_event_ids s \<union> ne_id ` set rs"
  by (simp_all add: with_events_def)

lemma numbered_ids: "ev_id ` set (numbered i n rs) = ne_id ` set rs"
  by (metis list.set_map map_numbered(1))

lemma journal_ok_with_events:
  assumes "journal_ok s" "admissible_batch s rs"
  shows "journal_ok (with_events i ep rs s)"
  unfolding journal_ok_def
proof (intro conjI allI impI ballI)
  let ?new = "numbered i (int (length (stream_events s i))) rs"
  have disj: "ne_id ` set rs \<inter> ev_id ` set (stream_events s j) = {}" for j
  proof -
    have "ev_id ` set (stream_events s j) \<subseteq> si_event_ids s"
      using assms(1) unfolding journal_ok_def by blast
    moreover have "ne_id ` set rs \<inter> si_event_ids s = {}"
      using assms(2) by (simp add: admissible_batch_def)
    ultimately show ?thesis by blast
  qed
  show "contiguous_from j 1 (stream_events (with_events i ep rs s) j)" for j
    using assms(1) contiguous_numbered [of i "int (length (stream_events s i))" rs]
    by (simp add: journal_ok_def contiguous_from_append add.commute)
  show "distinct (map ev_id (stream_events (with_events i ep rs s) j))" for j
    using assms disj [of i] by (auto simp: journal_ok_def admissible_batch_def map_numbered)
  show "ev_id ` set (stream_events (with_events i ep rs s) j) \<inter>
      ev_id ` set (stream_events (with_events i ep rs s) k) = {}" if "j \<noteq> k" for j k
  proof -
    have "ev_id ` set (stream_events s j) \<inter> ev_id ` set (stream_events s k) = {}"
      using assms(1) that unfolding journal_ok_def by blast
    then show ?thesis
      using that disj [of j] disj [of k]
        numbered_ids [of i "int (length (stream_events s i))" rs]
      by (cases "j = i"; cases "k = i")
        (simp_all add: image_Un Int_Un_distrib Int_Un_distrib2 Int_commute)
  qed
  show "si_event_ids (with_events i ep rs s) =
      (\<Union>j. ev_id ` set (stream_events (with_events i ep rs s) j))"
  proof -
    have "ev_id ` set (stream_events (with_events i ep rs s) j) =
        ev_id ` set (stream_events s j) \<union> (if j = i then ne_id ` set rs else {})" for j
      by (simp add: image_Un numbered_ids)
    moreover have "si_event_ids s = (\<Union>j. ev_id ` set (stream_events s j))"
      using assms(1) by (simp add: journal_ok_def)
    moreover have "(\<Union>j. if j = i then ne_id ` set rs else {}) = ne_id ` set rs" by auto
    ultimately show ?thesis by (simp only: UN_Un_distrib with_events_keeps)
  qed
  show "event_ok e" if "e \<in> set (stream_events (with_events i ep rs s) j)" for e j
    using that assms numbered_ok [of rs e i "int (length (stream_events s i))"]
    by (auto simp: journal_ok_def admissible_batch_def split: if_splits)
qed

subsection \<open>The in-memory store implements the interfaces\<close>

lemma fenced_when_open:
  "sequence_get q = int (length (stream_events s i)) + 1 \<Longrightarrow>
   append_events_fenced sh ep i q rs s = append_events sh ep i rs s"
  by (simp add: append_events_fenced_def append_events_def)

lemma fenced_when_closed:
  "sequence_get q \<noteq> int (length (stream_events s i)) + 1 \<Longrightarrow>
   \<exists>e. append_events_fenced sh ep i q rs s = (Inl e, s)"
  by (cases "check_in_memory_lease_epoch s i ep")
    (auto simp: append_events_fenced_def Let_def)

lemma journal_ok_append: "journal_ok s \<Longrightarrow> journal_ok (snd (append_events sh ep i rs s))"
  by (cases rule: append_events_cases [of sh ep i rs s]) (simp_all add: journal_ok_with_events)

interpretation memory_journal: fenced_journal stream_events read_events journal_ok
    "\<lambda>h. append_events (fst h) (snd h)" "\<lambda>h. append_events_fenced (fst h) (snd h)"
proof unfold_locales
  show "contiguous_from i 1 (stream_events s i)" if "journal_ok s" for s i
    using that by (simp add: journal_ok_def)
  show "read_events i None s = Inr (stream_events s i)" for s i
    by (simp add: read_events_def)
  show "read_events i (Some q) s = Inr (filter (\<lambda>e. sequence_get q \<le> sequence_get (ev_sequence e))
      (stream_events s i))" for i q s
    by (simp add: read_events_def)
  show "journal_ok (snd (append_events (fst h) (snd h) i rs s))" if "journal_ok s" for h i rs s
    using that by (rule journal_ok_append)
  show "stream_events s' = (stream_events s)(i := stream_events s i @ es) \<and>
      map ev_id es = map ne_id rs \<and> map ev_payload es = map ne_payload rs"
    if "append_events (fst h) (snd h) i rs s = (Inr es, s')" for h i rs s es s'
    using that by (auto simp: append_events_ok map_numbered fun_eq_iff)
  show "s' = s" if "append_events (fst h) (snd h) i rs s = (Inl e, s')" for h i rs s e s'
    using that by (rule append_events_err)
  show "append_events_fenced (fst h) (snd h) i q rs s = append_events (fst h) (snd h) i rs s"
    if "sequence_get q = int (length (stream_events s i)) + 1" for q s i h rs
    using that by (rule fenced_when_open)
  show "\<exists>e. append_events_fenced (fst h) (snd h) i q rs s = (Inl e, s)"
    if "sequence_get q \<noteq> int (length (stream_events s i)) + 1" for q s i h rs
    using that by (rule fenced_when_closed)
qed

subsection \<open>Lease epochs\<close>

definition lease_minimum :: "store_inner \<Rightarrow> event_stream_id \<Rightarrow> u64" where
  "lease_minimum s i = (case hm_get (si_lease_epoch_minimums s) i of None \<Rightarrow> 0 | Some m \<Rightarrow> m)"

lemma check_lease_ok: "check_in_memory_lease_epoch s i ep = Inr () \<longleftrightarrow> lease_minimum s i \<le> ep"
  by (auto simp: check_in_memory_lease_epoch_def lease_minimum_def not_less split: option.splits)

lemma check_lease_err:
  "check_in_memory_lease_epoch s i ep = Inl e \<longleftrightarrow>
   ep < lease_minimum s i \<and> e = StaleLeaseEpoch i ep (lease_minimum s i)"
  by (auto simp: check_in_memory_lease_epoch_def lease_minimum_def split: option.splits)

lemma lease_minimum_raise:
  "lease_minimum (raise_in_memory_lease_epoch i ep s) j =
   (if j = i then max (lease_minimum s i) ep else lease_minimum s j)"
  by (auto simp: raise_in_memory_lease_epoch_def lease_minimum_def max_def word_gt_0
      split: option.splits)

lemma lease_minimum_with_events:
  "lease_minimum (with_events i ep rs s) j =
   (if j = i then max (lease_minimum s i) ep else lease_minimum s j)"
  using lease_minimum_raise [of i ep s j] by (simp add: with_events_def lease_minimum_def)

subsection \<open>Properties of the journal\<close>

text \<open>A small store, used to exhibit the hypotheses of the properties.\<close>

definition sample_record :: "uuid \<Rightarrow> new_event_record" where
  "sample_record u = event_witnessed (u, 0) sample_coordinates TurnCompleted (JObject [])"

definition sample_store :: store_inner where
  "sample_store = snd (append_events (\<lambda>_. ''7'') 3 (EventStreamId ''thread:7'')
     [sample_record 1, sample_record 2] store_new)"

lemma sample_admissible:
  "admissible_batch store_new [sample_record 1, sample_record 2]"
  by (simp add: admissible_batch_def store_new_def sample_record_def event_witnessed_def
      validate_new_event_def storable_def)

lemma sample_store_eq:
  "append_events (\<lambda>_. ''7'') 3 (EventStreamId ''thread:7'') [sample_record 1, sample_record 2]
     store_new =
   (Inr (numbered (EventStreamId ''thread:7'') 0 [sample_record 1, sample_record 2]), sample_store)"
  "sample_store = with_events (EventStreamId ''thread:7'') 3 [sample_record 1, sample_record 2]
     store_new"
proof -
  have lease: "check_in_memory_lease_epoch store_new i ep = Inr ()" for i ep
    by (simp add: check_in_memory_lease_epoch_def store_new_def)
  have "append_events (\<lambda>_. ''7'') 3 (EventStreamId ''thread:7'') [sample_record 1, sample_record 2]
      store_new = (Inr (numbered (EventStreamId ''thread:7'') 0 [sample_record 1, sample_record 2]),
      with_events (EventStreamId ''thread:7'') 3 [sample_record 1, sample_record 2] store_new)"
    using sample_admissible lease by (simp add: append_events_ok) (simp add: store_new_def)
  then show "append_events (\<lambda>_. ''7'') 3 (EventStreamId ''thread:7'')
      [sample_record 1, sample_record 2] store_new =
      (Inr (numbered (EventStreamId ''thread:7'') 0 [sample_record 1, sample_record 2]), sample_store)"
    "sample_store = with_events (EventStreamId ''thread:7'') 3 [sample_record 1, sample_record 2]
      store_new"
    by (simp_all add: sample_store_def)
qed

lemma sample_journal_ok: "journal_ok sample_store"
  unfolding sample_store_eq(2) by (rule journal_ok_with_events [OF journal_ok_new sample_admissible])

lemma sample_stream_length: "length (stream_events sample_store (EventStreamId ''thread:7'')) = 2"
  unfolding sample_store_eq(2) by (simp add: store_new_def)

text \<open>
  C3. Appending is all or nothing.  It succeeds exactly when the writer's lease epoch is not below
  the stream's minimum, every record passes the provenance and schema checks, and no event id is
  repeated in the batch or already known to the store; then the stream is extended by exactly
  those records, numbered on from its length, and every other stream is as before.  When it fails
  the store is unchanged.
\<close>

theorem append_events_all_or_nothing:
  "case append_events show_uuid lease_epoch stream_id records s of
     (Inr es, s') \<Rightarrow>
       lease_minimum s stream_id \<le> lease_epoch \<and>
       (\<forall>r \<in> set records. validate_new_event r = Inr ()) \<and>
       distinct (map ne_id records) \<and> ne_id ` set records \<inter> si_event_ids s = {} \<and>
       (\<forall>e \<in> set es. validate_stream_record_v1 show_uuid e = Inr ()) \<and>
       es = map (\<lambda>(k, r). event_from_new stream_id
              (EventSequence (int (length (stream_events s stream_id)) + int k + 1)) r)
              (List.enumerate 0 records) \<and>
       stream_events s' stream_id = stream_events s stream_id @ es \<and>
       (\<forall>j. j \<noteq> stream_id \<longrightarrow> stream_events s' j = stream_events s j)
   | (Inl err, s') \<Rightarrow>
       s' = s \<and>
       (lease_epoch < lease_minimum s stream_id \<or>
        (\<exists>r \<in> set records. validate_new_event r \<noteq> Inr ()) \<or>
        \<not> distinct (map ne_id records) \<or> ne_id ` set records \<inter> si_event_ids s \<noteq> {} \<or>
        (\<exists>r \<in> set records. \<exists>q. validate_stream_record_v1 show_uuid
           (event_from_new stream_id q r) \<noteq> Inr ()))"
proof (cases "append_events show_uuid lease_epoch stream_id records s")
  case (Pair r s')
  have storable: "validate_stream_record_v1 show_uuid (event_from_new stream_id q r) = Inr () \<longleftrightarrow>
      storable r" for q r
    by (simp add: validate_stream_record_iff storable_def event_from_new_def)
  show ?thesis
  proof (cases r)
    case (Inr es)
    with Pair have ok: "lease_minimum s stream_id \<le> lease_epoch" "admissible_batch s records"
        "es = numbered stream_id (int (length (stream_events s stream_id))) records"
        "s' = with_events stream_id lease_epoch records s"
      by (simp_all add: append_events_ok check_lease_ok)
    have "\<forall>e \<in> set es. validate_stream_record_v1 show_uuid e = Inr ()"
      using ok(2,3) numbered_ok [of records]
      by (auto simp: admissible_batch_def validate_stream_record_iff event_ok_def)
    with ok show ?thesis
      unfolding Pair Inr by (simp add: admissible_batch_def numbered_def)
  next
    case (Inl err)
    have "s' = s" using Pair Inl append_events_err by blast
    moreover have "\<not> (lease_minimum s stream_id \<le> lease_epoch \<and> admissible_batch s records)"
      using Pair Inl append_events_ok [of show_uuid lease_epoch stream_id records s]
      by (auto simp: check_lease_ok)
    ultimately show ?thesis
      unfolding Pair Inl by (auto simp: admissible_batch_def storable not_le)
  qed
qed

theorem append_events_all_or_nothing_witness:
  "validate_stream_record_v1 (\<lambda>_. ''7'')
     (event_from_new (EventStreamId ''thread:7'') (EventSequence 1) (sample_record 1)) = Inr () \<and>
   stream_events sample_store (EventStreamId ''thread:7'') =
     numbered (EventStreamId ''thread:7'') 0 [sample_record 1, sample_record 2]"
  using append_events_all_or_nothing [where show_uuid = "\<lambda>_. ''7''" and lease_epoch = 3
      and stream_id = "EventStreamId ''thread:7''"
      and records = "[sample_record 1, sample_record 2]" and s = store_new]
  unfolding sample_store_eq(1) by (simp add: numbered_def store_new_def)

text \<open>
  C11. Compare-and-append.  A fenced append succeeds only if the caller's expected sequence number
  is the stream's next one, and then does exactly what an unfenced append does; on a mismatch it
  changes nothing.  Once one fenced append has written records, every later fenced append that
  still expects the same number fails and changes nothing, whatever was appended in between and
  whichever epoch it presents: two writers that decided on the same tail cannot both commit.
\<close>

theorem fenced_append_excludes:
  assumes "append_events_fenced show_uuid epoch stream_id q records s = (Inr es, s')"
  shows "sequence_get q = int (length (stream_events s stream_id)) + 1 \<and>
    append_events show_uuid epoch stream_id records s = (Inr es, s') \<and>
    (\<forall>t show_uuid' epoch' records'.
       records \<noteq> [] \<and> prefix (stream_events s' stream_id) (stream_events t stream_id) \<longrightarrow>
       (\<exists>e. append_events_fenced show_uuid' epoch' stream_id q records' t = (Inl e, t)))"
  using memory_journal.fenced_ok [of "(show_uuid, epoch)" stream_id q records s es s']
    memory_journal.fence_excludes [of "(show_uuid, epoch)" stream_id q records s es s'] assms
  by (metis fst_conv snd_conv)

theorem fenced_append_excludes_witness:
  "\<exists>e. append_events_fenced (\<lambda>_. ''7'') 9 (EventStreamId ''thread:7'') (EventSequence 1)
     [sample_record 5] sample_store = (Inl e, sample_store)"
proof -
  have "append_events_fenced (\<lambda>_. ''7'') 3 (EventStreamId ''thread:7'') (EventSequence 1)
      [sample_record 1, sample_record 2] store_new =
      (Inr (numbered (EventStreamId ''thread:7'') 0 [sample_record 1, sample_record 2]), sample_store)"
    using fenced_when_open [of "EventSequence 1" store_new "EventStreamId ''thread:7''"]
      sample_store_eq(1) by (simp add: store_new_def)
  from fenced_append_excludes [OF this] show ?thesis by blast
qed

text \<open>
  Lease fencing is monotone and fails closed: an append, successful or not, never lowers any
  stream's minimum epoch; a successful append at epoch \<open>n\<close> raises its stream's minimum to at least
  \<open>n\<close>; and any append that presents an epoch below the minimum fails with \<open>StaleLeaseEpoch\<close>, names
  that minimum, and changes nothing.  An epoch of zero leaves the minimum as it was.
\<close>

theorem lease_epoch_fences:
  "(\<forall>j. lease_minimum s j \<le> lease_minimum (snd (append_events show_uuid n i rs s)) j) \<and>
   (is_ok (fst (append_events show_uuid n i rs s)) \<longrightarrow>
      lease_minimum (snd (append_events show_uuid n i rs s)) i = max (lease_minimum s i) n) \<and>
   (n < lease_minimum s i \<longrightarrow>
      append_events show_uuid n i rs s = (Inl (StaleLeaseEpoch i n (lease_minimum s i)), s) \<and>
      append_events_fenced show_uuid n i q rs s =
        (Inl (StaleLeaseEpoch i n (lease_minimum s i)), s))"
proof (intro conjI impI)
  show "\<forall>j. lease_minimum s j \<le> lease_minimum (snd (append_events show_uuid n i rs s)) j"
    by (cases rule: append_events_cases [of show_uuid n i rs s])
      (simp_all add: lease_minimum_with_events)
  show "lease_minimum (snd (append_events show_uuid n i rs s)) i = max (lease_minimum s i) n"
    if "is_ok (fst (append_events show_uuid n i rs s))"
    using that by (cases rule: append_events_cases [of show_uuid n i rs s])
      (simp_all add: lease_minimum_with_events)
  assume "n < lease_minimum s i"
  then have stale: "check_in_memory_lease_epoch s i n = Inl (StaleLeaseEpoch i n (lease_minimum s i))"
    by (simp add: check_lease_err)
  show "append_events show_uuid n i rs s = (Inl (StaleLeaseEpoch i n (lease_minimum s i)), s)"
    by (simp add: append_events_def stale)
  show "append_events_fenced show_uuid n i q rs s =
      (Inl (StaleLeaseEpoch i n (lease_minimum s i)), s)"
    by (simp add: append_events_fenced_def stale)
qed

theorem lease_epoch_fences_witness:
  "append_events (\<lambda>_. ''7'') 2 (EventStreamId ''thread:7'') [sample_record 5] sample_store =
     (Inl (StaleLeaseEpoch (EventStreamId ''thread:7'') 2 3), sample_store)"
proof -
  have "lease_minimum sample_store (EventStreamId ''thread:7'') = 3"
    unfolding sample_store_eq(2) lease_minimum_with_events
    by (simp add: lease_minimum_def store_new_def)
  then show ?thesis
    using lease_epoch_fences [of sample_store "\<lambda>_. ''7''" 2 "EventStreamId ''thread:7''"
        "[sample_record 5]"] by simp
qed

text \<open>
  Replay resumes exactly.  Reading after the cursor of the \<open>n\<close>-th event of a stream returns
  precisely the events after it, in order; and whenever a read after a cursor returns, the cursor
  named an event of that stream, by number and by id, so a cursor taken from another history is
  refused rather than resumed at the wrong place.
\<close>

theorem replay_after_cursor_exact:
  assumes "journal_ok s"
  shows "(n < length (stream_events s i) \<longrightarrow>
      read_events_after_cursor show_uuid (\<lambda>i q. read_events i q s) i
        (cursor_from_event (stream_events s i ! n)) = Inr (drop (Suc n) (stream_events s i))) \<and>
    (read_events_after_cursor show_uuid (\<lambda>i q. read_events i q s) i c = Inr es \<longrightarrow>
      (\<exists>n < length (stream_events s i). cu_stream_id c = i \<and>
         cu_sequence c = ev_sequence (stream_events s i ! n) \<and>
         cu_event_id c = ev_id (stream_events s i ! n) \<and> es = drop (Suc n) (stream_events s i)))"
  using memory_journal.replay_after_cursor [OF assms]
    memory_journal.replay_sound [OF assms] by blast

theorem replay_after_cursor_exact_witness:
  "read_events_after_cursor (\<lambda>_. ''7'') (\<lambda>i q. read_events i q sample_store)
     (EventStreamId ''thread:7'')
     (cursor_from_event (stream_events sample_store (EventStreamId ''thread:7'') ! 0)) =
   Inr (drop 1 (stream_events sample_store (EventStreamId ''thread:7'')))"
  using replay_after_cursor_exact [OF sample_journal_ok, of 0 "EventStreamId ''thread:7''"]
    sample_stream_length by simp

text \<open>
  Every successful append can be acknowledged: the acknowledgement of the events it returned
  exists for any non-empty set of classes, starts at the stream's old length plus one, ends at its
  new length, and names the last record appended.
\<close>

theorem append_is_acknowledged:
  assumes "journal_ok s" and "append_events show_uuid epoch i records s = (Inr es, s')"
    and "records \<noteq> []" and "acks \<noteq> []"
  shows "\<exists>ack. ack_from_appended i es acks = Inr ack \<and>
    sequence_get (aa_start_sequence ack) = int (length (stream_events s i)) + 1 \<and>
    sequence_get (aa_tail_sequence ack) = int (length (stream_events s' i)) \<and>
    aa_tail_event_id ack = ne_id (last records)"
  using memory_journal.append_acknowledged [of s "(show_uuid, epoch)" i records es s' acks] assms
  by simp

theorem append_is_acknowledged_witness:
  "\<exists>ack. ack_from_appended (EventStreamId ''thread:7'')
     (numbered (EventStreamId ''thread:7'') 0 [sample_record 1, sample_record 2])
     [LocalCommitted] = Inr ack \<and> aa_tail_event_id ack = EventRecordId 2"
  using append_is_acknowledged [OF journal_ok_new sample_store_eq(1), of "[LocalCommitted]"]
  by (auto simp: sample_record_def event_witnessed_def)

end
