(* ===== verification/Store_Sessions.thy ===== *)
theory Store_Sessions
  imports Store_Journal
begin

section \<open>Session trees, branches and forks\<close>

text \<open>
  The session half of the store: entries form a forest per thread, the active leaf is a stored
  entry, fork bases never form a cycle.  \<open>ancestry\<close> is the specification of a branch (the entries
  from the root to a leaf); \<open>branch_path\<close> computes it and terminates on every well-formed store,
  and so does the construction of a context, which never meets a cycle of bases.  Every operation
  keeps the invariant \<open>session_ok\<close>, provided the entry identifiers it draws are new.
\<close>

subsection \<open>Branches\<close>

inductive ancestry :: "entry_map \<Rightarrow> session_entry_id option \<Rightarrow> session_entry list \<Rightarrow> bool"
  for m where
  root: "ancestry m None []"
| child: "hm_get m i = Some e \<Longrightarrow> ancestry m (en_parent_entry_id e) es \<Longrightarrow>
    ancestry m (Some i) (es @ [e])"

inductive_cases ancestry_NoneE [elim!]: "ancestry m None es"
inductive_cases ancestry_SomeE: "ancestry m (Some i) es"

lemma ancestry_unique: "ancestry m c es \<Longrightarrow> ancestry m c es' \<Longrightarrow> es = es'"
proof (induction arbitrary: es' rule: ancestry.induct)
  case root
  then show ?case by auto
next
  case (child i e es)
  from child.prems show ?case
    by (rule ancestry_SomeE) (use child in auto)
qed

lemma ancestry_mono:
  "ancestry m c es \<Longrightarrow> (\<And>i e. hm_get m i = Some e \<Longrightarrow> hm_get m' i = Some e) \<Longrightarrow> ancestry m' c es"
  by (induction rule: ancestry.induct) (auto intro: ancestry.intros)

lemma ancestry_entries: "ancestry m c es \<Longrightarrow> e \<in> set es \<Longrightarrow> \<exists>i. hm_get m i = Some e"
  by (induction rule: ancestry.induct) auto

definition parent_edges :: "entry_map \<Rightarrow> (session_entry_id \<times> session_entry_id) set" where
  "parent_edges m = {(i, p). \<exists>e. hm_get m i = Some e \<and> en_parent_entry_id e = Some p}"

definition entries_ok :: "entry_map \<Rightarrow> bool" where
  "entries_ok m \<longleftrightarrow> hm_wf m \<and>
     (\<forall>i e. hm_get m i = Some e \<longrightarrow> en_entry_id e = i) \<and>
     (\<forall>(i, p) \<in> parent_edges m. hm_get m p \<noteq> None) \<and> acyclic (parent_edges m)"

lemma finite_parent_edges: "finite (parent_edges m)"
proof -
  have "parent_edges m \<subseteq> (\<lambda>(i, e). (i, the (en_parent_entry_id e))) ` set m"
    by (force simp: parent_edges_def dest: hm_get_SomeD)
  then show ?thesis by (rule finite_subset) simp
qed

lemma ancestry_exists:
  assumes "entries_ok m" "hm_get m i \<noteq> None"
  shows "\<exists>es. ancestry m (Some i) es"
proof -
  have "wf ((parent_edges m)\<inverse>)"
    using assms(1) by (simp add: entries_ok_def finite_parent_edges finite_acyclic_wf_converse)
  then show ?thesis
    using assms(2)
  proof (induction i rule: wf_induct_rule)
    case (less i)
    then obtain e where e: "hm_get m i = Some e" by auto
    show ?case
    proof (cases "en_parent_entry_id e")
      case None
      with e show ?thesis by (metis ancestry.simps)
    next
      case (Some p)
      with e have edge: "(i, p) \<in> parent_edges m" by (auto simp: parent_edges_def)
      with assms(1) have "hm_get m p \<noteq> None" by (auto simp: entries_ok_def)
      with less.IH edge obtain es where "ancestry m (Some p) es" by auto
      with e Some show ?thesis by (metis ancestry.child)
    qed
  qed
qed

lemma branch_entry_ok:
  "branch_entry m c i = Inr e \<longleftrightarrow> hm_get m i = Some e \<and> en_coordinates e = c"
  by (auto simp: branch_entry_def and_then_unit split: option.splits)

lemma loop_of_ancestry:
  "ancestry m cursor es \<Longrightarrow>
   (\<forall>e \<in> set es. en_coordinates e = c) \<and>
     branch_path_loop (branch_entry m c) acc cursor = Some (Inr (es @ rev acc)) \<or>
   \<not> (\<forall>e \<in> set es. en_coordinates e = c) \<and>
     (\<exists>err. branch_path_loop (branch_entry m c) acc cursor = Some (Inl err))"
proof (induction arbitrary: acc rule: ancestry.induct)
  case root
  then show ?case by (simp add: branch_path_loop.simps)
next
  case (child i e es)
  show ?case
  proof (cases "en_coordinates e = c")
    case True
    with child.hyps have "branch_entry m c i = Inr e" by (simp add: branch_entry_ok)
    with child.IH [of "acc @ [e]"] True show ?thesis by (subst (1 2) branch_path_loop.simps) auto
  next
    case False
    with child.hyps obtain err where "branch_entry m c i = Inl err"
      by (cases "branch_entry m c i") (auto simp: branch_entry_ok)
    with False show ?thesis by (auto simp: branch_path_loop.simps)
  qed
qed

lemma branch_path_missing:
  "hm_get m i = None \<Longrightarrow> branch_path m i c = Some (Inl (EntryNotFound i))"
  by (simp add: branch_path_def branch_path_loop.simps branch_entry_def)

lemma branch_path_cases:
  assumes "entries_ok m"
  obtains (missing) "hm_get m i = None" "branch_path m i c = Some (Inl (EntryNotFound i))"
  | (path) es where "ancestry m (Some i) es" "\<forall>e \<in> set es. en_coordinates e = c"
      "branch_path m i c = Some (Inr es)"
  | (foreign) es err where "ancestry m (Some i) es" "\<not> (\<forall>e \<in> set es. en_coordinates e = c)"
      "branch_path m i c = Some (Inl err)"
proof (cases "hm_get m i")
  case None
  then show thesis by (rule missing) (rule branch_path_missing [OF None])
next
  case (Some e)
  with ancestry_exists [OF assms, of i] obtain es where "ancestry m (Some i) es" by auto
  from this loop_of_ancestry [OF this, of c "[]"] show thesis
    by (metis append_Nil2 branch_path_def foreign path rev.simps(1))
qed

lemma branch_path_total: "entries_ok m \<Longrightarrow> branch_path m i c \<noteq> None"
  by (rule branch_path_cases [of m i c]) simp_all

lemma branch_path_ok_iff:
  assumes "entries_ok m"
  shows "branch_path m i c = Some (Inr es) \<longleftrightarrow>
   ancestry m (Some i) es \<and> (\<forall>e \<in> set es. en_coordinates e = c)"
  using assms
proof (cases rule: branch_path_cases [of m i c])
  case missing
  then show ?thesis by (auto elim: ancestry_SomeE)
next
  case (path es')
  then show ?thesis by (metis ancestry_unique option.inject sum.inject(2))
next
  case (foreign es' err)
  then show ?thesis by (metis Inl_Inr_False ancestry_unique option.inject)
qed

lemma branch_path_extends:
  assumes "branch_path m i c = Some (Inr es)" "entries_ok m"
    and "\<And>i e. hm_get m i = Some e \<Longrightarrow> hm_get m' i = Some e"
  shows "branch_path m' i c = Some (Inr es)"
proof -
  from assms(1,2) have "ancestry m (Some i) es" and c: "\<forall>e \<in> set es. en_coordinates e = c"
    by (simp_all add: branch_path_ok_iff)
  then have "ancestry m' (Some i) es" using assms(3) by (blast intro: ancestry_mono)
  from loop_of_ancestry [OF this, of c "[]"] c show ?thesis by (simp add: branch_path_def)
qed

lemma stored_branch_path_eq:
  "stored_branch_path s c i = branch_path (entries_of s (tc_thread_id c)) i c"
  by (auto simp: stored_branch_path_def hm_list_def branch_path_missing split: option.splits)

text \<open>Adding a new entry under an existing one, or as a new root.\<close>

lemma entries_ok_insert:
  assumes "entries_ok m" "hm_get m (en_entry_id e) = None"
    and "\<And>p. en_parent_entry_id e = Some p \<Longrightarrow> hm_get m p \<noteq> None"
  shows "entries_ok (hm_insert (en_entry_id e) e m)"
proof -
  let ?i = "en_entry_id e"
  have edges: "parent_edges (hm_insert ?i e m) =
      parent_edges m \<union> (case en_parent_entry_id e of None \<Rightarrow> {} | Some p \<Rightarrow> {(?i, p)})"
    using assms(2) by (auto simp: parent_edges_def split: option.splits if_splits)
  have new: "(p, ?i) \<notin> (parent_edges m)\<^sup>*" if "p \<noteq> ?i" for p
  proof
    assume "(p, ?i) \<in> (parent_edges m)\<^sup>*"
    with that obtain q where "(q, ?i) \<in> parent_edges m" by (metis rtranclE)
    with assms(1,2) show False by (auto simp: entries_ok_def)
  qed
  have "acyclic (parent_edges (hm_insert ?i e m))"
  proof (cases "en_parent_entry_id e")
    case None
    with assms(1) edges show ?thesis by (simp add: entries_ok_def)
  next
    case (Some p)
    moreover have "p \<noteq> ?i" using assms(2,3) Some by blast
    ultimately show ?thesis
      using assms(1) edges new [of p] by (simp add: entries_ok_def acyclic_insert)
  qed
  moreover have "\<forall>(i, p) \<in> parent_edges (hm_insert ?i e m). hm_get (hm_insert ?i e m) p \<noteq> None"
  proof
    fix x assume x: "x \<in> parent_edges (hm_insert ?i e m)"
    obtain i p where ip: "x = (i, p)" by (cases x)
    from x ip consider "(i, p) \<in> parent_edges m" | "en_parent_entry_id e = Some p"
      unfolding edges by (auto split: option.splits)
    then have "hm_get m p \<noteq> None"
    proof cases
      case 1
      with assms(1) show ?thesis unfolding entries_ok_def by fast
    next
      case 2
      then show ?thesis by (rule assms(3))
    qed
    then show "case x of (i, p) \<Rightarrow> hm_get (hm_insert ?i e m) p \<noteq> None" by (simp add: ip)
  qed
  moreover have "\<forall>i e'. hm_get (hm_insert ?i e m) i = Some e' \<longrightarrow> en_entry_id e' = i"
    using assms(1) by (simp add: entries_ok_def)
  moreover have "hm_wf (hm_insert ?i e m)" using assms(1) by (simp add: entries_ok_def)
  ultimately show ?thesis unfolding entries_ok_def by (intro conjI)
qed

lemma entries_ok_empty: "entries_ok []"
  by (simp add: entries_ok_def parent_edges_def acyclic_def)

subsection \<open>Bases\<close>

definition base_edges :: "store_inner \<Rightarrow> (thread_id \<times> thread_id) set" where
  "base_edges s = {(t, p). \<exists>b. hm_get (si_bases s) t = Some b \<and> tb_parent_thread_id b = p}"

lemma base_cycle_ok_unreachable:
  "base_cycle_loop bases child visited (Some t) = Inr () \<Longrightarrow>
   (t, x) \<in> {(t, p). \<exists>b. hm_get bases t = Some b \<and> tb_parent_thread_id b = p}\<^sup>* \<Longrightarrow> x \<noteq> child"
proof (induction bases child visited "Some t" arbitrary: t rule: base_cycle_loop.induct)
  case (1 bases child visited t)
  from "1.prems"(1) have t: "t \<noteq> child" "t \<notin> visited"
    and rest: "base_cycle_loop bases child (insert t visited)
      (map_option tb_parent_thread_id (hm_get bases t)) = Inr ()"
    by (auto simp: base_cycle_loop.simps [of bases child visited "Some t"] split: if_splits)
  from "1.prems"(2) show ?case
  proof (cases rule: converse_rtranclE)
    case base
    with t show ?thesis by simp
  next
    case (step p)
    then obtain b where b: "hm_get bases t = Some b" "tb_parent_thread_id b = p" by auto
    show ?thesis
      using "1.hyps" [of t p] t rest step(2) b by auto
  qed
qed

lemma validate_base_cycle_ok:
  "validate_in_memory_base_cycle s child parent = Inr () \<Longrightarrow> (parent, child) \<notin> (base_edges s)\<^sup>*"
  using base_cycle_ok_unreachable [of "si_bases s" child "{}" parent child]
  by (auto simp: validate_in_memory_base_cycle_def base_edges_def)

subsection \<open>The invariant of the session state\<close>

definition thread_ok :: "thread_id \<Rightarrow> entry_map \<Rightarrow> bool" where
  "thread_ok t m \<longleftrightarrow> entries_ok m \<and>
     (\<forall>i e. hm_get m i = Some e \<longrightarrow> tc_thread_id (en_coordinates e) = t) \<and>
     (\<forall>i e j e'. hm_get m i = Some e \<longrightarrow> hm_get m j = Some e' \<longrightarrow>
        en_turn_id e \<noteq> None \<longrightarrow> en_turn_id e = en_turn_id e' \<longrightarrow> i = j)"

definition forest_ok :: "store_inner \<Rightarrow> bool" where
  "forest_ok s \<longleftrightarrow> (\<forall>t. thread_ok t (entries_of s t))"

definition leaves_ok :: "store_inner \<Rightarrow> bool" where
  "leaves_ok s \<longleftrightarrow>
     (\<forall>t l. hm_get (si_active_leaf s) t = Some l \<longrightarrow> hm_get (entries_of s t) l \<noteq> None)"

definition bases_ok :: "store_inner \<Rightarrow> bool" where
  "bases_ok s \<longleftrightarrow> (\<forall>t b. hm_get (si_bases s) t = Some b \<longrightarrow> tb_child_thread_id b = t) \<and>
     acyclic (base_edges s)"

definition session_ok :: "store_inner \<Rightarrow> bool" where
  "session_ok s \<longleftrightarrow> forest_ok s \<and> leaves_ok s \<and> bases_ok s"

lemma session_ok_new: "session_ok store_new"
  by (simp add: session_ok_def forest_ok_def thread_ok_def leaves_ok_def bases_ok_def
      base_edges_def store_new_def entries_ok_empty acyclic_def)

lemma forest_entries_ok: "forest_ok s \<Longrightarrow> entries_ok (entries_of s t)"
  by (simp add: forest_ok_def thread_ok_def)

lemma session_ok_cong:
  "si_entries s' = si_entries s \<Longrightarrow> si_active_leaf s' = si_active_leaf s \<Longrightarrow>
   si_bases s' = si_bases s \<Longrightarrow> session_ok s' = session_ok s"
  by (simp add: session_ok_def forest_ok_def leaves_ok_def bases_ok_def base_edges_def)

lemma session_ok_with_events [simp]: "session_ok (with_events i ep rs s) = session_ok s"
  by (rule session_ok_cong) simp_all

lemma insert_entry_simps [simp]:
  "entries_of (insert_entry t e s) t' =
     (if t' = t then hm_insert (en_entry_id e) e (entries_of s t) else entries_of s t')"
  "si_active_leaf (insert_entry t e s) = si_active_leaf s"
  "si_bases (insert_entry t e s) = si_bases s"
  "si_events (insert_entry t e s) = si_events s"
  "si_event_ids (insert_entry t e s) = si_event_ids s"
  "si_lease_epoch_minimums (insert_entry t e s) = si_lease_epoch_minimums s"
  by (simp_all add: insert_entry_def)

lemma leaf_simps [simp]:
  "si_entries (set_active_leaf t l s) = si_entries s"
  "si_active_leaf (set_active_leaf t l s) = hm_insert t l (si_active_leaf s)"
  "si_bases (set_active_leaf t l s) = si_bases s"
  "si_events (set_active_leaf t l s) = si_events s"
  "si_event_ids (set_active_leaf t l s) = si_event_ids s"
  "si_lease_epoch_minimums (set_active_leaf t l s) = si_lease_epoch_minimums s"
  "si_entries (clear_active_leaf t s) = si_entries s"
  "si_active_leaf (clear_active_leaf t s) = hm_remove t (si_active_leaf s)"
  "si_bases (clear_active_leaf t s) = si_bases s"
  "si_events (clear_active_leaf t s) = si_events s"
  "si_event_ids (clear_active_leaf t s) = si_event_ids s"
  "si_lease_epoch_minimums (clear_active_leaf t s) = si_lease_epoch_minimums s"
  by (simp_all add: set_active_leaf_def clear_active_leaf_def)

lemma remove_base_simps [simp]:
  "si_entries (remove_base t s) = si_entries s"
  "si_active_leaf (remove_base t s) = si_active_leaf s"
  "si_bases (remove_base t s) = hm_remove t (si_bases s)"
  "si_events (remove_base t s) = si_events s"
  "si_event_ids (remove_base t s) = si_event_ids s"
  "si_lease_epoch_minimums (remove_base t s) = si_lease_epoch_minimums s"
  by (simp_all add: remove_base_def)

text \<open>An entry that may be added to a thread: new, with a stored parent and a new turn id.\<close>

definition addable :: "store_inner \<Rightarrow> thread_id \<Rightarrow> session_entry \<Rightarrow> bool" where
  "addable s t e \<longleftrightarrow> hm_get (entries_of s t) (en_entry_id e) = None \<and>
     tc_thread_id (en_coordinates e) = t \<and>
     (\<forall>p. en_parent_entry_id e = Some p \<longrightarrow> hm_get (entries_of s t) p \<noteq> None) \<and>
     (\<forall>i e'. en_turn_id e \<noteq> None \<longrightarrow> hm_get (entries_of s t) i = Some e' \<longrightarrow>
        en_turn_id e' \<noteq> en_turn_id e)"

lemma thread_ok_insert:
  assumes "thread_ok t (entries_of s t)" "addable s t e"
  shows "thread_ok t (hm_insert (en_entry_id e) e (entries_of s t))"
proof -
  let ?m = "entries_of s t" and ?m' = "hm_insert (en_entry_id e) e (entries_of s t)"
  have "entries_ok ?m'"
    using assms by (intro entries_ok_insert) (simp_all add: thread_ok_def addable_def)
  moreover have "\<forall>i e'. hm_get ?m' i = Some e' \<longrightarrow> tc_thread_id (en_coordinates e') = t"
    using assms by (simp add: thread_ok_def addable_def)
  moreover have "i = j" if "hm_get ?m' i = Some e1" "hm_get ?m' j = Some e2"
      "en_turn_id e1 \<noteq> None" "en_turn_id e1 = en_turn_id e2" for i e1 j e2
  proof -
    have old: "hm_get ?m k = Some e3 \<Longrightarrow> en_turn_id e \<noteq> None \<Longrightarrow> en_turn_id e3 \<noteq> en_turn_id e" for k e3
      using assms(2) unfolding addable_def by metis
    have unique: "hm_get ?m i = Some e1 \<Longrightarrow> hm_get ?m j = Some e2 \<Longrightarrow> i = j"
      using that(3,4) assms(1) unfolding thread_ok_def by metis
    show ?thesis
      by (rule ccontr) (use that old [of i e1] old [of j e2] unique in \<open>auto split: if_splits\<close>)
  qed
  ultimately show ?thesis unfolding thread_ok_def by blast
qed

lemma forest_ok_insert:
  "forest_ok s \<Longrightarrow> addable s t e \<Longrightarrow> forest_ok (insert_entry t e s)"
  using thread_ok_insert by (simp add: forest_ok_def)

lemma leaves_ok_insert: "leaves_ok s \<Longrightarrow> leaves_ok (insert_entry t e s)"
  by (simp add: leaves_ok_def)

lemma leaves_ok_set:
  "leaves_ok s \<Longrightarrow> hm_get (entries_of s t) l \<noteq> None \<Longrightarrow> leaves_ok (set_active_leaf t l s)"
  by (simp add: leaves_ok_def)

lemma session_ok_commit:
  assumes "session_ok s" "addable s t e"
  shows "session_ok (set_active_leaf t (en_entry_id e) (insert_entry t e s))"
proof -
  have "leaves_ok (set_active_leaf t (en_entry_id e) (insert_entry t e s))"
    using assms(1) by (intro leaves_ok_set leaves_ok_insert) (simp_all add: session_ok_def)
  moreover have "forest_ok (set_active_leaf t (en_entry_id e) (insert_entry t e s))"
    using forest_ok_insert [OF _ assms(2)] assms(1) by (simp add: session_ok_def forest_ok_def
        del: insert_entry_simps(1))
  moreover have "bases_ok (set_active_leaf t (en_entry_id e) (insert_entry t e s))"
    using assms(1) by (simp add: session_ok_def bases_ok_def base_edges_def)
  ultimately show ?thesis by (simp add: session_ok_def)
qed

lemma base_edges_remove: "base_edges (remove_base t s) \<subseteq> base_edges s"
  by (auto simp: base_edges_def split: if_splits)

lemma bases_ok_remove: "bases_ok s \<Longrightarrow> bases_ok (remove_base t s)"
  using acyclic_subset [OF _ base_edges_remove] by (auto simp: bases_ok_def split: if_splits)

subsection \<open>Effects of the operations\<close>

lemma commit_entry_cases:
  obtains (ok) "commit_entry sh ep c e ev s =
      (Inr e, set_active_leaf (tc_thread_id c) (en_entry_id e)
         (insert_entry (tc_thread_id c) e (with_events (stream_for_thread sh c) ep [ev] s)))"
      "admissible_batch s [ev]"
  | (err) x where "commit_entry sh ep c e ev s = (Inl x, s)"
proof (cases "append_in_memory_events sh (stream_for_thread sh c) [ev] ep s")
  case (Pair r s')
  show thesis
  proof (cases r)
    case (Inl x)
    with Pair have "s' = s" using append_in_memory_err by blast
    with Pair Inl show thesis by (intro err [of x]) (simp add: commit_entry_def)
  next
    case (Inr es)
    with Pair have a: "append_in_memory_events sh (stream_for_thread sh c) [ev] ep s = (Inr es, s')"
      by simp
    then have "admissible_batch s [ev]" "s' = with_events (stream_for_thread sh c) ep [ev] s"
      unfolding append_in_memory_ok by simp_all
    with a show thesis by (intro ok) (simp_all add: commit_entry_def)
  qed
qed

lemma append_inner_cases:
  obtains (ok) parent where "resolve_parent s c p = Inr parent"
      "check_in_memory_lease_epoch s (stream_for_thread sh c) ep = Inr ()"
      "append_inner sh ep st vst c p kind prov s =
        commit_entry sh ep c (entry_new st c parent kind)
          (session_entry_event_with_optional_provenance sh vst (entry_new st c parent kind) prov) s"
  | (err) x where "append_inner sh ep st vst c p kind prov s = (Inl x, s)"
proof (cases "resolve_parent s c p")
  case (Inl x)
  then show thesis by (intro err [of x]) (simp add: append_inner_def)
next
  case (Inr parent)
  note parent = Inr
  show thesis
  proof (cases "check_in_memory_lease_epoch s (stream_for_thread sh c) ep")
    case (Inl x)
    with parent show thesis by (intro err [of x]) (simp add: append_inner_def)
  next
    case (Inr u)
    with parent show thesis by (intro ok [of parent]) (simp_all add: append_inner_def Let_def)
  qed
qed

lemma resolve_parent_stored:
  "leaves_ok s \<Longrightarrow> resolve_parent s c p = Inr (Some q) \<Longrightarrow>
   hm_get (entries_of s (tc_thread_id c)) q \<noteq> None"
  by (auto simp: resolve_parent_def leaves_ok_def hm_list_def and_then_unit
      split: option.splits)

text \<open>Identifiers a call draws for entries are new when no stored entry has them.\<close>

definition fresh_entry_id :: "store_inner \<Rightarrow> uuid \<Rightarrow> bool" where
  "fresh_entry_id s u \<longleftrightarrow> (\<forall>t. hm_get (entries_of s t) (SessionEntryId u) = None)"

lemma session_ok_commit_entry:
  assumes "session_ok s" "addable s (tc_thread_id c) e"
  shows "session_ok (snd (commit_entry sh ep c e ev s))"
proof (cases rule: commit_entry_cases [of sh ep c e ev s])
  case ok
  moreover have "addable (with_events (stream_for_thread sh c) ep [ev] s) (tc_thread_id c) e"
    using assms(2) by (simp add: addable_def)
  ultimately show ?thesis using assms(1) by (simp add: session_ok_commit)
next
  case (err x)
  with assms(1) show ?thesis by simp
qed

lemma session_ok_append_inner:
  assumes "session_ok s" "fresh_entry_id s (fst st)"
  shows "session_ok (snd (append_inner sh ep st vst c p kind prov s))"
proof (cases rule: append_inner_cases [of s c p sh ep st vst kind prov])
  case (ok parent)
  have "addable s (tc_thread_id c) (entry_new st c parent kind)"
    using assms ok(1) resolve_parent_stored [of s c p]
    by (auto simp: addable_def entry_new_def fresh_entry_id_def session_ok_def)
  with assms(1) ok(3) show ?thesis by (simp add: session_ok_commit_entry)
next
  case (err x)
  with assms(1) show ?thesis by simp
qed

lemma find_turn_None:
  assumes "find (\<lambda>e. en_turn_id e = Some u) (map snd m) = None" "hm_get m i = Some e"
  shows "en_turn_id e \<noteq> Some u"
  using assms by (auto simp: find_None_iff dest!: hm_get_SomeD)

lemma append_turn_input_new:
  "find (\<lambda>e. en_turn_id e = Some u) (map snd (entries_of s (tc_thread_id c))) = None \<Longrightarrow>
   append_turn_input sh ep st vst c u kind s =
     or_return (check_in_memory_lease_epoch s (stream_for_thread sh c) ep) s (\<lambda>_.
       commit_entry sh ep c
         (entry_for_turn st c (hm_get (si_active_leaf s) (tc_thread_id c)) u kind)
         (session_entry_event sh vst
           (entry_for_turn st c (hm_get (si_active_leaf s) (tc_thread_id c)) u kind)) s)"
  by (simp add: append_turn_input_def Let_def)

lemma or_return_snd: "(\<And>a. snd (f a) = s) \<Longrightarrow> snd (or_return r s f) = s"
  by (cases r) simp_all

lemma append_turn_input_known:
  "find (\<lambda>e. en_turn_id e = Some u) (map snd (entries_of s (tc_thread_id c))) = Some e \<Longrightarrow>
   snd (append_turn_input sh ep st vst c u kind s) = s"
  by (simp add: append_turn_input_def or_return_snd)

lemma session_ok_append_turn_input:
  assumes "session_ok s" "fresh_entry_id s (fst st)"
  shows "session_ok (snd (append_turn_input sh ep st vst c u kind s))"
proof (cases "find (\<lambda>e. en_turn_id e = Some u) (map snd (entries_of s (tc_thread_id c)))")
  case (Some e)
  with assms(1) show ?thesis by (simp add: append_turn_input_known)
next
  case None
  have "addable s (tc_thread_id c)
      (entry_for_turn st c (hm_get (si_active_leaf s) (tc_thread_id c)) u kind)"
    using assms find_turn_None [OF None]
    by (auto simp: addable_def entry_for_turn_def entry_new_def fresh_entry_id_def session_ok_def
        leaves_ok_def)
  with assms(1) show ?thesis
    unfolding append_turn_input_new [OF None]
    by (cases "check_in_memory_lease_epoch s (stream_for_thread sh c) ep")
      (simp_all add: session_ok_commit_entry)
qed

lemma record_selection_cases:
  obtains (ok) ev where "record_selection sh ep vst c leaf s =
      (Inr (), case leaf of
         Some l \<Rightarrow> set_active_leaf (tc_thread_id c) l
           (with_events (stream_for_thread sh c) ep [ev] s)
       | None \<Rightarrow> clear_active_leaf (tc_thread_id c)
           (with_events (stream_for_thread sh c) ep [ev] s))"
      "admissible_batch s [ev]"
      "ev = event_witnessed vst c ThreadBranchSelected (json_of_thread_branch_selected sh
         \<lparr>bs_thread_id = tc_thread_id c, bs_selected_entry_id = leaf,
          bs_prior_entry_id = hm_get (si_active_leaf s) (tc_thread_id c)\<rparr>)"
      "check_in_memory_lease_epoch s (stream_for_thread sh c) ep = Inr ()"
  | (err) x where "record_selection sh ep vst c leaf s = (Inl x, s)"
proof -
  define ev where "ev = event_witnessed vst c ThreadBranchSelected
    (json_of_thread_branch_selected sh \<lparr>bs_thread_id = tc_thread_id c, bs_selected_entry_id = leaf,
       bs_prior_entry_id = hm_get (si_active_leaf s) (tc_thread_id c)\<rparr>)"
  have eq: "record_selection sh ep vst c leaf s =
      or_return (check_in_memory_lease_epoch s (stream_for_thread sh c) ep) s (\<lambda>_.
      case append_in_memory_events sh (stream_for_thread sh c) [ev] ep s of
        (Inl e, s') \<Rightarrow> (Inl e, s')
      | (Inr _, s') \<Rightarrow> (Inr (), case leaf of
          Some l \<Rightarrow> set_active_leaf (tc_thread_id c) l s'
        | None \<Rightarrow> clear_active_leaf (tc_thread_id c) s'))"
    by (simp add: record_selection_def ev_def Let_def)
  show thesis
  proof (cases "check_in_memory_lease_epoch s (stream_for_thread sh c) ep")
    case (Inl x)
    then show thesis by (intro err [of x]) (simp add: eq)
  next
    case (Inr u)
    obtain r s' where a: "append_in_memory_events sh (stream_for_thread sh c) [ev] ep s = (r, s')"
      by (cases "append_in_memory_events sh (stream_for_thread sh c) [ev] ep s")
    show thesis
    proof (cases r)
      case (Inl x)
      with a have "s' = s" using append_in_memory_err by blast
      with a Inl Inr show thesis by (intro err [of x]) (simp add: eq)
    next
      case (Inr es)
      with a have a': "append_in_memory_events sh (stream_for_thread sh c) [ev] ep s = (Inr es, s')"
        by simp
      then have "admissible_batch s [ev]" "s' = with_events (stream_for_thread sh c) ep [ev] s"
        unfolding append_in_memory_ok by simp_all
      with a' \<open>check_in_memory_lease_epoch s (stream_for_thread sh c) ep = Inr u\<close>
      show thesis by (intro ok [OF _ _ ev_def]) (simp_all add: eq)
    qed
  qed
qed

lemma session_ok_leaf_change:
  assumes "session_ok s" "\<forall>l. leaf = Some l \<longrightarrow> hm_get (entries_of s t) l \<noteq> None"
  shows "session_ok (case leaf of Some l \<Rightarrow> set_active_leaf t l s | None \<Rightarrow> clear_active_leaf t s)"
proof -
  let ?s = "case leaf of Some l \<Rightarrow> set_active_leaf t l s | None \<Rightarrow> clear_active_leaf t s"
  have "leaves_ok ?s" using assms by (auto simp: session_ok_def leaves_ok_def split: option.splits)
  moreover have "si_entries ?s = si_entries s" "si_bases ?s = si_bases s"
    by (auto split: option.splits)
  ultimately show ?thesis
    using assms(1) by (simp add: session_ok_def forest_ok_def bases_ok_def base_edges_def)
qed

lemma session_ok_record_selection:
  assumes "session_ok s" "\<forall>l. leaf = Some l \<longrightarrow> hm_get (entries_of s (tc_thread_id c)) l \<noteq> None"
  shows "session_ok (snd (record_selection sh ep vst c leaf s))"
proof (cases rule: record_selection_cases [of sh ep vst c leaf s])
  case (ok ev)
  then show ?thesis
    using assms session_ok_leaf_change
      [of "with_events (stream_for_thread sh c) ep [ev] s" leaf "tc_thread_id c"] by simp
next
  case (err x)
  with assms(1) show ?thesis by simp
qed

lemma select_branch_cases:
  assumes "session_ok s"
  obtains (selected) "select_branch sh ep vst c leaf s =
      Some (record_selection sh ep vst c leaf s)"
      "\<forall>l. leaf = Some l \<longrightarrow> hm_get (entries_of s (tc_thread_id c)) l \<noteq> None"
      "\<forall>l. leaf = Some l \<longrightarrow> (\<exists>es. branch_path (entries_of s (tc_thread_id c)) l c = Some (Inr es))"
  | (err) x where "select_branch sh ep vst c leaf s = Some (Inl x, s)"
proof (cases leaf)
  case None
  then show thesis by (intro selected) (simp_all add: select_branch_def)
next
  case (Some l)
  have ok: "entries_ok (entries_of s (tc_thread_id c))"
    using assms by (simp add: session_ok_def forest_entries_ok)
  from ok show thesis
  proof (cases rule: branch_path_cases [of _ l c])
    case missing
    with Some show thesis
      by (intro err [of "EntryNotFound l"]) (simp add: select_branch_def stored_branch_path_eq)
  next
    case (path es)
    with Some show thesis
      by (intro selected) (auto simp: select_branch_def stored_branch_path_eq elim: ancestry_SomeE)
  next
    case (foreign es x)
    with Some show thesis
      by (intro err [of x]) (simp add: select_branch_def stored_branch_path_eq)
  qed
qed

end
