(* ===== verification/Store_Contexts.thy ===== *)
theory Store_Contexts
  imports Store_Sessions
begin

section \<open>Contexts, clones and forks\<close>

text \<open>
  What \<open>build_context\<close>, \<open>clone_branch\<close> and \<open>fork_by_reference\<close> do on a well-formed store: the
  construction of a context terminates and meets no cycle, a clone is a faithful copy with its own
  entries, and a fork keeps the bases acyclic and sees the parent as it was.
\<close>

subsection \<open>Contexts\<close>

lemma add_local_path_total:
  "forest_ok s \<Longrightarrow> add_local_path sh s c ov inh p \<noteq> None"
proof (cases "local_leaf_of s (tc_thread_id c) ov")
  case None
  then show ?thesis by (simp add: add_local_path_def case_prod_beta)
next
  case (Some leaf)
  assume ok: "forest_ok s"
  show ?thesis
  proof (cases "hm_get (si_entries s) (tc_thread_id c)")
    case None
    with Some show ?thesis by (simp add: add_local_path_def case_prod_beta)
  next
    case m: (Some m)
    then have "entries_ok m" using forest_entries_ok [OF ok, of "tc_thread_id c"] by simp
    then have "branch_path m leaf c \<noteq> None" by (rule branch_path_total)
    with Some m show ?thesis
      by (auto simp: add_local_path_def case_prod_beta and_then_opt_None)
  qed
qed

lemma build_in_memory_context_total:
  "forest_ok s \<Longrightarrow> build_in_memory_context sh s c ov inh visiting \<noteq> None"
proof (induction sh s c ov inh visiting rule: build_in_memory_context.induct)
  case (1 sh s c ov inh visiting)
  then show ?case
    by (subst build_in_memory_context.simps)
      (auto simp: Let_def and_then_opt_None add_local_path_total simp del: not_None_eq
        split: option.splits)
qed

lemma branch_entry_error:
  "branch_entry m c i = Inl e \<Longrightarrow> e \<noteq> ThreadBaseCycle a b"
  by (auto simp: branch_entry_def and_then_eq_Inl validate_entry_coordinates_def
      split: option.splits if_splits)

lemma loop_error:
  "ancestry m cursor es \<Longrightarrow> branch_path_loop (branch_entry m c) acc cursor = Some (Inl e) \<Longrightarrow>
   e \<noteq> ThreadBaseCycle a b"
proof (induction arbitrary: acc rule: ancestry.induct)
  case root
  then show ?case by (simp add: branch_path_loop.simps)
next
  case (child i x es)
  then show ?case
    by (cases "branch_entry m c i")
      (auto simp: branch_path_loop.simps [of _ _ "Some i"] branch_entry_ok dest: branch_entry_error)
qed

lemma branch_path_error:
  assumes "entries_ok m" "branch_path m i c = Some (Inl e)"
  shows "e \<noteq> ThreadBaseCycle a b"
proof (cases "hm_get m i")
  case None
  with assms(2) show ?thesis by (auto simp: branch_path_missing)
next
  case (Some x)
  with ancestry_exists [OF assms(1), of i] obtain es where "ancestry m (Some i) es" by auto
  from loop_error [OF this] assms(2) show ?thesis by (simp add: branch_path_def)
qed

lemma add_local_path_error:
  "forest_ok s \<Longrightarrow> add_local_path sh s c ov inh p = Some (Inl e) \<Longrightarrow> e \<noteq> ThreadBaseCycle a b"
proof -
  assume ok: "forest_ok s" and err: "add_local_path sh s c ov inh p = Some (Inl e)"
  then show ?thesis
    using branch_path_error [of "entries_of s (tc_thread_id c)"] forest_entries_ok [OF ok]
    by (auto simp: add_local_path_def case_prod_beta and_then_opt_err split: option.splits)
qed

text \<open>
  The threads under construction are proper descendants of the thread at hand, so none of them is
  met again.
\<close>

lemma build_meets_no_cycle:
  "forest_ok s \<Longrightarrow> bases_ok s \<Longrightarrow>
   \<forall>v \<in> visiting. (v, tc_thread_id c) \<in> (base_edges s)\<^sup>+ \<Longrightarrow>
   build_in_memory_context sh s c ov inh visiting = Some (Inl e) \<Longrightarrow> e \<noteq> ThreadBaseCycle a b"
proof (induction sh s c ov inh visiting arbitrary: e rule: build_in_memory_context.induct)
  case (1 sh s c ov inh visiting)
  let ?t = "tc_thread_id c"
  have fresh: "?t \<notin> visiting"
    using "1.prems"(2,3) by (auto simp: bases_ok_def acyclic_def)
  show ?case
  proof (cases "hm_get (si_bases s) ?t")
    case None
    with "1.prems" fresh show ?thesis
      by (auto simp: build_in_memory_context.simps [of _ _ _ _ _ visiting] Let_def
          dest: add_local_path_error)
  next
    case (Some base)
    then have child: "tb_child_thread_id base = ?t" using "1.prems"(2) by (simp add: bases_ok_def)
    have edge: "(?t, tb_parent_thread_id base) \<in> base_edges s" using Some by (auto simp: base_edges_def)
    let ?parent = "build_in_memory_context sh s
      (coordinates_with_thread_id c (tb_parent_thread_id base)) (tb_parent_leaf_entry_id base) True
      (insert ?t visiting)"
    have visiting: "\<forall>v \<in> insert ?t visiting.
        (v, tc_thread_id (coordinates_with_thread_id c (tb_parent_thread_id base))) \<in> (base_edges s)\<^sup>+"
      using "1.prems"(3) edge by (auto intro: trancl_into_trancl)
    have parent: "x \<noteq> ThreadBaseCycle a b" if "?parent = Some (Inl x)" for x
      using "1.IH" [OF refl fresh Some _ "1.prems"(1,2) visiting that] child by simp
    from "1.prems"(4) fresh Some child parent "1.prems"(1) show ?thesis
      by (auto simp: build_in_memory_context.simps [of _ _ _ _ _ visiting] Let_def and_then_opt_err
          dest: add_local_path_error)
  qed
qed

lemma build_context_errors:
  "session_ok s \<Longrightarrow> build_context sh c s = Some (Inl e) \<Longrightarrow> e \<noteq> ThreadBaseCycle a b"
  unfolding build_context_def by (rule build_meets_no_cycle) (auto simp: session_ok_def)

lemma build_context_total: "session_ok s \<Longrightarrow> build_context sh c s \<noteq> None"
  by (simp add: build_context_def build_in_memory_context_total session_ok_def)

subsection \<open>Forks\<close>

lemma fork_cases:
  assumes "forest_ok s"
  obtains (ok) "fork_by_reference sh src tgt base s =
      Some (Inr (), (clear_active_leaf (tc_thread_id tgt) s)\<lparr>si_bases :=
        hm_insert (tc_thread_id tgt) base (si_bases s)\<rparr>)"
      "validate_thread_base_ref sh src tgt base = Inr ()"
      "validate_in_memory_base_cycle s (tc_thread_id tgt) (tc_thread_id src) = Inr ()"
      "\<forall>leaf. tb_parent_leaf_entry_id base = Some leaf \<longrightarrow>
         (\<exists>ctx. build_in_memory_context sh s src (Some leaf) False {} = Some (Inr ctx))"
  | (err) x where "fork_by_reference sh src tgt base s = Some (Inl x, s)"
proof -
  let ?checks = "and_then (validate_thread_base_ref sh src tgt base) (\<lambda>_.
      validate_in_memory_base_cycle s (tc_thread_id tgt) (tc_thread_id src))"
  let ?leaf = "case tb_parent_leaf_entry_id base of None \<Rightarrow> Some (Inr ())
      | Some leaf \<Rightarrow> and_then_opt (build_in_memory_context sh s src (Some leaf) False {})
          (\<lambda>_. Some (Inr ()))"
  show thesis
  proof (cases ?checks)
    case (Inl x)
    then show thesis by (intro err [of x]) (simp add: fork_by_reference_def)
  next
    case (Inr u)
    then have checks: "validate_thread_base_ref sh src tgt base = Inr ()"
      "validate_in_memory_base_cycle s (tc_thread_id tgt) (tc_thread_id src) = Inr ()"
      by (simp_all add: and_then_unit)
    have "?leaf \<noteq> None"
      using build_in_memory_context_total [OF assms]
      by (auto simp: and_then_opt_None simp del: not_None_eq split: option.splits)
    then obtain r where r: "?leaf = Some r" by blast
    show thesis
    proof (cases r)
      case (Inl x)
      with r Inr show thesis by (intro err [of x]) (simp add: fork_by_reference_def)
    next
      case (Inr v)
      show thesis
      proof (rule ok)
        show "fork_by_reference sh src tgt base s =
            Some (Inr (), (clear_active_leaf (tc_thread_id tgt) s)\<lparr>si_bases :=
              hm_insert (tc_thread_id tgt) base (si_bases s)\<rparr>)"
          using r Inr checks by (simp add: fork_by_reference_def)
        show "\<forall>leaf. tb_parent_leaf_entry_id base = Some leaf \<longrightarrow>
            (\<exists>ctx. build_in_memory_context sh s src (Some leaf) False {} = Some (Inr ctx))"
          using r Inr by (auto simp: and_then_opt_ok)
      qed (use checks in simp_all)
    qed
  qed
qed

lemma session_ok_fork:
  assumes "session_ok s" "fork_by_reference sh src tgt base s = Some (r, s')"
  shows "session_ok s'"
proof -
  from assms(1) have "forest_ok s" by (simp add: session_ok_def)
  then show ?thesis
  proof (cases rule: fork_cases [of s sh src tgt base])
    case ok
    let ?t = "tc_thread_id tgt" and ?p = "tc_thread_id src"
    from ok(1) assms(2) have s': "s' = (clear_active_leaf ?t s)\<lparr>si_bases :=
        hm_insert ?t base (si_bases s)\<rparr>" by simp
    have parent: "tb_parent_thread_id base = ?p" "tb_child_thread_id base = ?t"
      using ok(2) by (simp_all add: validate_thread_base_ref_ok)
    have "base_edges s' \<subseteq> insert (?t, ?p) (base_edges s)"
      unfolding s' using parent by (auto simp: base_edges_def split: if_splits)
    moreover have "acyclic (insert (?t, ?p) (base_edges s))"
      using assms(1) validate_base_cycle_ok [OF ok(3)]
      by (simp add: acyclic_insert session_ok_def bases_ok_def)
    ultimately have "acyclic (base_edges s')" by (metis acyclic_subset)
    moreover have "forest_ok s'" "leaves_ok s'"
      using assms(1) unfolding s' by (auto simp: session_ok_def forest_ok_def leaves_ok_def
          split: if_splits)
    moreover have "\<forall>t b. hm_get (si_bases s') t = Some b \<longrightarrow> tb_child_thread_id b = t"
      using assms(1) parent unfolding s' by (simp add: session_ok_def bases_ok_def)
    ultimately show ?thesis by (simp add: session_ok_def bases_ok_def)
  next
    case (err x)
    with assms show ?thesis by simp
  qed
qed

subsection \<open>Clones\<close>

lemma fold_insert_entry_simps [simp]:
  "entries_of (fold (insert_entry t) es s) t' =
     (if t' = t then fold (\<lambda>e. hm_insert (en_entry_id e) e) es (entries_of s t)
      else entries_of s t')"
  "si_active_leaf (fold (insert_entry t) es s) = si_active_leaf s"
  "si_bases (fold (insert_entry t) es s) = si_bases s"
  "si_events (fold (insert_entry t) es s) = si_events s"
  "si_event_ids (fold (insert_entry t) es s) = si_event_ids s"
  "si_lease_epoch_minimums (fold (insert_entry t) es s) = si_lease_epoch_minimums s"
  by (induction es arbitrary: s) simp_all

lemma clone_entries_kinds [simp]:
  "map en_kind (clone_entries st i tgt parent path) = map en_kind path"
  by (induction st i tgt parent path rule: clone_entries.induct) (simp_all add: entry_new_def Let_def)

lemma length_clone_entries [simp]: "length (clone_entries st i tgt parent path) = length path"
  by (metis clone_entries_kinds length_map)

lemma clone_entries_coordinates:
  "e \<in> set (clone_entries st i tgt parent path) \<Longrightarrow> en_coordinates e = tgt \<and> en_turn_id e = None"
  by (induction st i tgt parent path rule: clone_entries.induct) (auto simp: entry_new_def Let_def)

lemma clone_entries_Nil_iff [simp]: "clone_entries st i tgt parent path = [] \<longleftrightarrow> path = []"
  by (cases path) (simp_all add: Let_def)

text \<open>Fresh and distinct identifiers for \<open>n\<close> copies, from the \<open>i\<close>-th on.\<close>

definition fresh_stamps :: "entry_map \<Rightarrow> (nat \<Rightarrow> stamp) \<Rightarrow> nat \<Rightarrow> nat \<Rightarrow> bool" where
  "fresh_stamps m st i n \<longleftrightarrow> inj_on (fst \<circ> st) {i..<i + n} \<and>
     (\<forall>k \<in> {i..<i + n}. hm_get m (SessionEntryId (fst (st k))) = None)"

text \<open>The identifiers a call of \<open>clone_branch\<close> draws, one for each entry it copies.\<close>

definition fresh_clone ::
  "store_inner \<Rightarrow> (nat \<Rightarrow> stamp) \<Rightarrow> thread_coordinates \<Rightarrow> session_entry_id option \<Rightarrow> bool" where
  "fresh_clone s st src leaf \<longleftrightarrow>
     (\<forall>l path. leaf = Some l \<longrightarrow> stored_branch_path s src l = Some (Inr path) \<longrightarrow>
        inj_on (fst \<circ> st) {..<length path} \<and> (\<forall>k < length path. fresh_entry_id s (fst (st k))))"

lemma fresh_clone_stamps:
  "fresh_clone s st src (Some l) \<Longrightarrow>
   branch_path (entries_of s (tc_thread_id src)) l src = Some (Inr path) \<Longrightarrow>
   fresh_stamps (entries_of s t) st 0 (length path)"
  by (simp add: fresh_clone_def fresh_stamps_def fresh_entry_id_def stored_branch_path_eq
      lessThan_atLeast0)

lemma fresh_stamps_insert:
  assumes "fresh_stamps m st i (Suc n)" "en_entry_id e = SessionEntryId (fst (st i))"
  shows "fresh_stamps (hm_insert (en_entry_id e) e m) st (Suc i) n"
proof -
  have inj: "inj_on (fst \<circ> st) {i..<i + Suc n}" using assms(1) by (simp add: fresh_stamps_def)
  have "fst (st k) \<noteq> fst (st i)" if "k \<in> {Suc i..<Suc i + n}" for k
    using inj_onD [OF inj, of k i] that by auto
  moreover have "inj_on (fst \<circ> st) {Suc i..<Suc i + n}"
    using inj by (rule inj_on_subset) auto
  ultimately show ?thesis using assms by (simp add: fresh_stamps_def)
qed

lemma fold_insert_present:
  "hm_get m i \<noteq> None \<Longrightarrow> hm_get (fold (\<lambda>e. hm_insert (en_entry_id e) e) es m) i \<noteq> None"
  by (induction es arbitrary: m) simp_all

lemma fold_insert_keeps:
  "hm_get m i = Some x \<Longrightarrow> i \<notin> en_entry_id ` set es \<Longrightarrow>
   hm_get (fold (\<lambda>e. hm_insert (en_entry_id e) e) es m) i = Some x"
  by (induction es arbitrary: m) auto

lemma clone_forest_ok:
  "forest_ok s \<Longrightarrow> fresh_stamps (entries_of s (tc_thread_id tgt)) st i (length path) \<Longrightarrow>
   (\<And>p. parent = Some p \<Longrightarrow> hm_get (entries_of s (tc_thread_id tgt)) p \<noteq> None) \<Longrightarrow>
   forest_ok (fold (insert_entry (tc_thread_id tgt)) (clone_entries st i tgt parent path) s)"
proof (induction path arbitrary: i parent s)
  case Nil
  then show ?case by simp
next
  case (Cons x path)
  let ?t = "tc_thread_id tgt"
  define e where "e = entry_new (st i) tgt parent (en_kind x)"
  have id: "en_entry_id e = SessionEntryId (fst (st i))" by (simp add: e_def entry_new_def)
  have "addable s ?t e"
    using Cons.prems(2,3) by (simp add: addable_def e_def entry_new_def fresh_stamps_def)
  with Cons.prems(1) have "forest_ok (insert_entry ?t e s)" by (rule forest_ok_insert)
  moreover have "fresh_stamps (entries_of (insert_entry ?t e s) ?t) st (Suc i) (length path)"
    using fresh_stamps_insert [OF Cons.prems(2) [unfolded list.size add_0_right add_Suc_right] id] by simp
  ultimately have "forest_ok (fold (insert_entry ?t)
      (clone_entries st (Suc i) tgt (Some (en_entry_id e)) path) (insert_entry ?t e s))"
    by (intro Cons.IH) simp_all
  then show ?case by (simp add: Let_def e_def)
qed

lemma clone_ancestry:
  "fresh_stamps m st i (length path) \<Longrightarrow> ancestry m parent es \<Longrightarrow>
   ancestry (fold (\<lambda>e. hm_insert (en_entry_id e) e) (clone_entries st i tgt parent path) m)
     (if path = [] then parent
      else Some (en_entry_id (last (clone_entries st i tgt parent path))))
     (es @ clone_entries st i tgt parent path)"
proof (induction path arbitrary: i parent m es)
  case Nil
  then show ?case by simp
next
  case (Cons x path)
  define e where "e = entry_new (st i) tgt parent (en_kind x)"
  define m' where "m' = hm_insert (en_entry_id e) e m"
  have id: "en_entry_id e = SessionEntryId (fst (st i))" "en_parent_entry_id e = parent"
    by (simp_all add: e_def entry_new_def)
  have new: "hm_get m (en_entry_id e) = None" using Cons.prems(1) id by (simp add: fresh_stamps_def)
  have "ancestry m' parent es"
    using Cons.prems(2) by (rule ancestry_mono) (use new in \<open>auto simp: m'_def\<close>)
  then have "ancestry m' (Some (en_entry_id e)) (es @ [e])"
    using id(2) by (intro ancestry.child) (simp_all add: m'_def)
  moreover have "fresh_stamps m' st (Suc i) (length path)"
    using fresh_stamps_insert [OF Cons.prems(1) [unfolded list.size add_0_right add_Suc_right] id(1)]
    by (simp add: m'_def)
  ultimately have "ancestry
      (fold (\<lambda>e. hm_insert (en_entry_id e) e) (clone_entries st (Suc i) tgt (Some (en_entry_id e)) path) m')
      (if path = [] then Some (en_entry_id e)
       else Some (en_entry_id (last (clone_entries st (Suc i) tgt (Some (en_entry_id e)) path))))
      ((es @ [e]) @ clone_entries st (Suc i) tgt (Some (en_entry_id e)) path)"
    by (intro Cons.IH)
  then show ?case by (cases "path = []") (simp_all add: Let_def e_def m'_def)
qed

lemma commit_clone_cases:
  assumes "cloned \<noteq> []"
  obtains (ok) evs where "commit_clone sh ep vst tgt cloned s =
      (Inr (Some (en_entry_id (last cloned))),
       set_active_leaf (tc_thread_id tgt) (en_entry_id (last cloned))
         (fold (insert_entry (tc_thread_id tgt)) cloned
           (remove_base (tc_thread_id tgt) (with_events (stream_for_thread sh tgt) ep evs s))))"
      "admissible_batch s evs"
      "evs = map (\<lambda>(i, entry). session_entry_event sh (vst i) entry) (List.enumerate 0 cloned)"
  | (err) x where "commit_clone sh ep vst tgt cloned s = (Inl x, s)"
proof -
  define evs where
    "evs = map (\<lambda>(i, entry). session_entry_event sh (vst i) entry) (List.enumerate 0 cloned)"
  have eq: "commit_clone sh ep vst tgt cloned s =
      or_return (check_in_memory_lease_epoch s (stream_for_thread sh tgt) ep) s (\<lambda>_.
      case append_in_memory_events sh (stream_for_thread sh tgt) evs ep s of
        (Inl e, s') \<Rightarrow> (Inl e, s')
      | (Inr _, s') \<Rightarrow> (Inr (Some (en_entry_id (last cloned))),
          set_active_leaf (tc_thread_id tgt) (en_entry_id (last cloned))
            (fold (insert_entry (tc_thread_id tgt)) cloned (remove_base (tc_thread_id tgt) s'))))"
    unfolding commit_clone_def Let_def evs_def
    using assms by (cases cloned) (simp_all split: prod.split sum.split)
  obtain r s' where a: "append_in_memory_events sh (stream_for_thread sh tgt) evs ep s = (r, s')"
    by (cases "append_in_memory_events sh (stream_for_thread sh tgt) evs ep s")
  show thesis
  proof (cases "check_in_memory_lease_epoch s (stream_for_thread sh tgt) ep")
    case (Inl x)
    then show thesis by (intro err [of x]) (simp add: eq)
  next
    case lease: (Inr u)
    show thesis
    proof (cases r)
      case (Inl x)
      with a have "s' = s" using append_in_memory_err by blast
      with a Inl lease show thesis by (intro err [of x]) (simp add: eq)
    next
      case (Inr es)
      with a have a': "append_in_memory_events sh (stream_for_thread sh tgt) evs ep s = (Inr es, s')"
        by simp
      then have "admissible_batch s evs" "s' = with_events (stream_for_thread sh tgt) ep evs s"
        unfolding append_in_memory_ok by simp_all
      with a' lease show thesis by (intro ok [OF _ _ evs_def]) (simp_all add: eq)
    qed
  qed
qed

lemma last_cloned_stored:
  assumes "fresh_stamps m st 0 (length path)" "path \<noteq> []"
  shows "hm_get (fold (\<lambda>e. hm_insert (en_entry_id e) e) (clone_entries st 0 tgt None path) m)
    (en_entry_id (last (clone_entries st 0 tgt None path))) \<noteq> None"
  using clone_ancestry [OF assms(1) ancestry.root, of tgt] assms(2)
  by (auto elim: ancestry_SomeE)

lemma session_ok_commit_clone:
  assumes "session_ok s" "fresh_stamps (entries_of s (tc_thread_id tgt)) st 0 (length path)"
    and "path \<noteq> []"
  shows "session_ok (snd (commit_clone sh ep vst tgt (clone_entries st 0 tgt None path) s))"
proof -
  let ?cloned = "clone_entries st 0 tgt None path" and ?t = "tc_thread_id tgt"
  have "?cloned \<noteq> []" using assms(3) by simp
  then show ?thesis
  proof (cases rule: commit_clone_cases [of ?cloned sh ep vst tgt s])
    case (ok evs)
    define s1 where "s1 = remove_base ?t (with_events (stream_for_thread sh tgt) ep evs s)"
    have s1: "si_entries s1 = si_entries s" "si_active_leaf s1 = si_active_leaf s"
      by (simp_all add: s1_def)
    have "forest_ok s1" "leaves_ok s1"
      using assms(1) s1 by (simp_all add: session_ok_def forest_ok_def leaves_ok_def)
    moreover have "bases_ok s1"
      using assms(1) bases_ok_remove [of "with_events (stream_for_thread sh tgt) ep evs s" ?t]
      by (simp add: s1_def session_ok_def bases_ok_def base_edges_def)
    ultimately have s1_ok: "forest_ok s1" "leaves_ok s1" "bases_ok s1" by simp_all
    let ?s2 = "fold (insert_entry ?t) ?cloned s1"
    have fresh: "fresh_stamps (entries_of s1 ?t) st 0 (length path)" using assms(2) s1(1) by simp
    have "forest_ok ?s2" by (rule clone_forest_ok [OF s1_ok(1) fresh]) simp
    moreover have "hm_get (entries_of ?s2 ?t) (en_entry_id (last ?cloned)) \<noteq> None"
      using last_cloned_stored [OF fresh assms(3)] by simp
    moreover have "leaves_ok ?s2"
      unfolding leaves_ok_def
    proof (intro allI impI)
      fix t l assume "hm_get (si_active_leaf ?s2) t = Some l"
      with s1_ok(2) have "hm_get (entries_of s1 t) l \<noteq> None" by (simp add: leaves_ok_def)
      then show "hm_get (entries_of ?s2 t) l \<noteq> None"
        using fold_insert_present [of "entries_of s1 t" l ?cloned] by (cases "t = ?t") simp_all
    qed
    ultimately have "leaves_ok (set_active_leaf ?t (en_entry_id (last ?cloned)) ?s2)"
      "forest_ok (set_active_leaf ?t (en_entry_id (last ?cloned)) ?s2)"
      by (simp_all add: leaves_ok_set forest_ok_def del: fold_insert_entry_simps(1))
    moreover have "bases_ok (set_active_leaf ?t (en_entry_id (last ?cloned)) ?s2)"
      using s1_ok(3) by (simp add: bases_ok_def base_edges_def)
    ultimately show ?thesis using ok(1) by (simp add: session_ok_def s1_def)
  next
    case (err x)
    with assms(1) show ?thesis by simp
  qed
qed

lemma clone_branch_cases:
  assumes "session_ok s"
  obtains (clear) "source_leaf = None" "clone_branch sh ep st vst src source_leaf tgt s =
      Some (Inr None, clear_active_leaf (tc_thread_id tgt) (remove_base (tc_thread_id tgt) s))"
  | (copy) leaf path where "source_leaf = Some leaf"
      "branch_path (entries_of s (tc_thread_id src)) leaf src = Some (Inr path)" "path \<noteq> []"
      "clone_branch sh ep st vst src source_leaf tgt s =
        Some (commit_clone sh ep vst tgt (clone_entries st 0 tgt None path) s)"
  | (err) x where "clone_branch sh ep st vst src source_leaf tgt s = Some (Inl x, s)"
proof (cases source_leaf)
  case None
  then show thesis by (intro clear) (simp_all add: clone_branch_def)
next
  case (Some leaf)
  have "entries_ok (entries_of s (tc_thread_id src))"
    using assms by (simp add: session_ok_def forest_entries_ok)
  then show thesis
  proof (cases rule: branch_path_cases [of _ leaf src])
    case missing
    with Some show thesis
      by (intro err [of "EntryNotFound leaf"]) (simp add: clone_branch_def stored_branch_path_eq)
  next
    case (path es)
    then have "es \<noteq> []" by (auto elim: ancestry_SomeE)
    with path Some show thesis
      by (intro copy) (simp_all add: clone_branch_def stored_branch_path_eq)
  next
    case (foreign es x)
    with Some show thesis by (intro err [of x]) (simp add: clone_branch_def stored_branch_path_eq)
  qed
qed

lemma session_ok_clone:
  assumes "session_ok s" "fresh_clone s st src source_leaf"
    and "clone_branch sh ep st vst src source_leaf tgt s = Some (r, s')"
  shows "session_ok s'"
  using assms(1)
proof (cases rule: clone_branch_cases [of s source_leaf sh ep st vst src tgt])
  case clear
  with assms(3) have "s' = clear_active_leaf (tc_thread_id tgt) (remove_base (tc_thread_id tgt) s)"
    by simp
  moreover have "bases_ok (remove_base (tc_thread_id tgt) s)"
    using assms(1) by (simp add: session_ok_def bases_ok_remove)
  ultimately show ?thesis
    using assms(1)
    by (simp add: session_ok_def forest_ok_def leaves_ok_def bases_ok_def base_edges_def)
next
  case (copy leaf path)
  have "fresh_stamps (entries_of s (tc_thread_id tgt)) st 0 (length path)"
    using assms(2) copy(1,2) by (simp add: fresh_clone_stamps)
  from session_ok_commit_clone [OF assms(1) this copy(3), of sh ep vst] show ?thesis
    using copy(4) assms(3) by (metis option.inject snd_conv)
next
  case (err x)
  with assms show ?thesis by simp
qed

subsection \<open>A fork sees its parent as it was\<close>

text \<open>
  \<open>s'\<close> has all the entries of \<open>s\<close>, the same bases and the same active leaf for thread \<open>t\<close>: what
  any sequence of appends and branch selections on other threads leaves.
\<close>

definition keeps_view :: "thread_id \<Rightarrow> store_inner \<Rightarrow> store_inner \<Rightarrow> bool" where
  "keeps_view t s s' \<longleftrightarrow>
     (\<forall>u i e. hm_get (entries_of s u) i = Some e \<longrightarrow> hm_get (entries_of s' u) i = Some e) \<and>
     si_bases s' = si_bases s \<and> hm_get (si_active_leaf s') t = hm_get (si_active_leaf s) t"

definition pinned_bases :: "store_inner \<Rightarrow> bool" where
  "pinned_bases s \<longleftrightarrow>
     (\<forall>t b. hm_get (si_bases s) t = Some b \<longrightarrow> tb_parent_leaf_entry_id b \<noteq> None)"

lemma add_local_path_stable:
  assumes "forest_ok s" "add_local_path sh s c ov inh p = Some (Inr ctx)"
    and "\<And>i e. hm_get (entries_of s (tc_thread_id c)) i = Some e \<Longrightarrow>
      hm_get (entries_of s' (tc_thread_id c)) i = Some e"
    and "local_leaf_of s' (tc_thread_id c) ov = local_leaf_of s (tc_thread_id c) ov"
  shows "add_local_path sh s' c ov inh p = Some (Inr ctx)"
proof (cases "local_leaf_of s (tc_thread_id c) ov")
  case None
  with assms(2,4) show ?thesis by (simp add: add_local_path_def)
next
  case (Some leaf)
  with assms(2) obtain m path where m: "hm_get (si_entries s) (tc_thread_id c) = Some m"
      and path: "branch_path m leaf c = Some (Inr path)"
    by (auto simp: add_local_path_def case_prod_beta and_then_opt_ok split: option.splits)
  from m have eq: "entries_of s (tc_thread_id c) = m" by simp
  have ok: "entries_ok m" using forest_entries_ok [OF assms(1), of "tc_thread_id c"] eq by simp
  have path': "branch_path (entries_of s' (tc_thread_id c)) leaf c = Some (Inr path)"
    using path ok assms(3) unfolding eq by (rule branch_path_extends)
  then have "hm_get (entries_of s' (tc_thread_id c)) leaf \<noteq> None"
    using branch_path_missing [of "entries_of s' (tc_thread_id c)" leaf c] by auto
  then obtain m' where "hm_get (si_entries s') (tc_thread_id c) = Some m'"
    by (cases "hm_get (si_entries s') (tc_thread_id c)") (simp_all add: hm_list_def)
  with path' m path Some assms(2,4) show ?thesis
    by (simp add: add_local_path_def case_prod_beta)
qed

lemma build_stable:
  "forest_ok s \<Longrightarrow> pinned_bases s \<Longrightarrow> keeps_view t s s' \<Longrightarrow>
   ov \<noteq> None \<or> tc_thread_id c = t \<Longrightarrow>
   build_in_memory_context sh s c ov inh visiting = Some (Inr ctx) \<Longrightarrow>
   build_in_memory_context sh s' c ov inh visiting = Some (Inr ctx)"
proof (induction sh s c ov inh visiting arbitrary: ctx rule: build_in_memory_context.induct)
  case (1 sh s c ov inh visiting)
  let ?t = "tc_thread_id c"
  note build = build_in_memory_context.simps [of sh _ c ov inh visiting]
  have keeps: "hm_get (entries_of s ?t) i = Some e \<Longrightarrow> hm_get (entries_of s' ?t) i = Some e" for i e
    using "1.prems"(3) by (simp add: keeps_view_def)
  have leaf: "local_leaf_of s' ?t ov = local_leaf_of s ?t ov"
    using "1.prems"(3,4) by (auto simp: local_leaf_of_def keeps_view_def split: option.splits)
  have bases: "si_bases s' = si_bases s" using "1.prems"(3) by (simp add: keeps_view_def)
  from "1.prems"(5) have fresh: "?t \<notin> visiting" by (simp add: build Let_def split: if_splits)
  note local = add_local_path_stable [OF "1.prems"(1) _ keeps leaf]
  show ?case
  proof (cases "hm_get (si_bases s) ?t")
    case None
    with "1.prems"(5) fresh local bases show ?thesis by (simp add: build Let_def)
  next
    case (Some base)
    let ?c = "coordinates_with_thread_id c (tb_parent_thread_id base)"
    from "1.prems"(5) Some fresh obtain parent where
      child: "tb_child_thread_id base = ?t" and
      parent: "build_in_memory_context sh s ?c (tb_parent_leaf_entry_id base) True
        (insert ?t visiting) = Some (Inr parent)" and
      rest: "add_local_path sh s c ov inh (cx_entries parent, cx_source_cuts parent) = Some (Inr ctx)"
      by (auto simp: build Let_def and_then_opt_ok split: if_splits)
    have "tb_parent_leaf_entry_id base \<noteq> None"
      using "1.prems"(2) Some by (simp add: pinned_bases_def)
    then have "build_in_memory_context sh s' ?c (tb_parent_leaf_entry_id base) True
        (insert ?t visiting) = Some (Inr parent)"
      using "1.IH" [OF refl fresh Some _ "1.prems"(1-3) _ parent] child by simp
    with Some fresh child bases local [OF rest] show ?thesis by (simp add: build Let_def)
  qed
qed

end
