(* ===== verification/Store_Reachable.thy ===== *)
theory Store_Reachable
  imports Store_Contexts
begin

section \<open>Reachable stores\<close>

text \<open>
  All the calls a store serves as one labelled relation: \<open>store_call s ok s'\<close> is a call that takes
  the lock on \<open>s\<close>, answers \<open>Ok\<close> or \<open>Err\<close> according to \<open>ok\<close>, and leaves \<open>s'\<close>.  The only assumption
  on a call is that the entry identifiers it draws (time-ordered UUIDs) are new.  Concurrent
  tasks interleave whole calls, so \<open>reachable\<close> covers every schedule.
\<close>

inductive store_call :: "(uuid \<Rightarrow> string) \<Rightarrow> store_inner \<Rightarrow> bool \<Rightarrow> store_inner \<Rightarrow> bool"
  for sh where
  call_append_events:
    "append_events sh ep i rs s = (r, s') \<Longrightarrow> store_call sh s (is_ok r) s'"
| call_append_events_fenced:
    "append_events_fenced sh ep i q rs s = (r, s') \<Longrightarrow> store_call sh s (is_ok r) s'"
| call_append:
    "append_inner sh ep st vst c p kind prov s = (r, s') \<Longrightarrow> fresh_entry_id s (fst st) \<Longrightarrow>
     store_call sh s (is_ok r) s'"
| call_append_turn_input:
    "append_turn_input sh ep st vst c u kind s = (r, s') \<Longrightarrow> fresh_entry_id s (fst st) \<Longrightarrow>
     store_call sh s (is_ok r) s'"
| call_select_branch:
    "select_branch sh ep vst c leaf s = Some (r, s') \<Longrightarrow> store_call sh s (is_ok r) s'"
| call_clone_branch:
    "clone_branch sh ep sts vsts src leaf tgt s = Some (r, s') \<Longrightarrow>
     fresh_clone s sts src leaf \<Longrightarrow> store_call sh s (is_ok r) s'"
| call_fork_by_reference:
    "fork_by_reference sh src tgt base s = Some (r, s') \<Longrightarrow> store_call sh s (is_ok r) s'"
| call_append_observation:
    "append_observation obs s = (r, s') \<Longrightarrow> store_call sh s (is_ok r) s'"

text \<open>
  A state served by such calls: what holds at the start and is kept by every call holds in every
  reachable state, and a preorder that every call respects relates every state to all its
  successors.
\<close>

locale served_state =
  fixes call :: "'s \<Rightarrow> bool \<Rightarrow> 's \<Rightarrow> bool" and init :: 's and good :: "'s \<Rightarrow> bool"
  assumes init_good: "good init"
    and call_good: "good s \<Longrightarrow> call s ok s' \<Longrightarrow> good s'"
begin

lemma later_good: "(\<lambda>s s'. \<exists>ok. call s ok s')\<^sup>*\<^sup>* s s' \<Longrightarrow> good s \<Longrightarrow> good s'"
  by (induction rule: rtranclp_induct) (auto intro: call_good)

lemma reachable_good: "(\<lambda>s s'. \<exists>ok. call s ok s')\<^sup>*\<^sup>* init s \<Longrightarrow> good s"
  using later_good init_good by blast

end

locale monotone_state = served_state call init good
  for call :: "'s \<Rightarrow> bool \<Rightarrow> 's \<Rightarrow> bool" and init and good :: "'s \<Rightarrow> bool" +
  fixes grows :: "'s \<Rightarrow> 's \<Rightarrow> bool"
  assumes grows_refl: "grows s s"
    and grows_trans: "grows s s' \<Longrightarrow> grows s' s'' \<Longrightarrow> grows s s''"
    and call_grows: "good s \<Longrightarrow> call s ok s' \<Longrightarrow> grows s s'"
begin

lemma later_grows: "(\<lambda>s s'. \<exists>ok. call s ok s')\<^sup>*\<^sup>* s s' \<Longrightarrow> good s \<Longrightarrow> grows s s'"
proof (induction rule: rtranclp_induct)
  case base
  then show ?case by (simp add: grows_refl)
next
  case (step s' s'')
  then have "good s'" by (metis later_good)
  with step show ?case by (metis call_grows grows_trans)
qed

end

definition later :: "(uuid \<Rightarrow> string) \<Rightarrow> store_inner \<Rightarrow> store_inner \<Rightarrow> bool" where
  "later sh = (\<lambda>s s'. \<exists>ok. store_call sh s ok s')\<^sup>*\<^sup>*"

definition reachable :: "(uuid \<Rightarrow> string) \<Rightarrow> store_inner \<Rightarrow> bool" where
  "reachable sh s \<longleftrightarrow> later sh store_new s"

subsection \<open>The journal of a call\<close>

text \<open>What a call does to the journal: nothing, or one admissible batch on one stream.\<close>

definition same_journal :: "store_inner \<Rightarrow> store_inner \<Rightarrow> bool" where
  "same_journal s s' \<longleftrightarrow> si_events s' = si_events s \<and> si_event_ids s' = si_event_ids s \<and>
     si_lease_epoch_minimums s' = si_lease_epoch_minimums s"

definition journal_effect :: "store_inner \<Rightarrow> store_inner \<Rightarrow> bool" where
  "journal_effect s s' \<longleftrightarrow> same_journal s s' \<or>
     (\<exists>i ep rs. admissible_batch s rs \<and> same_journal (with_events i ep rs s) s')"

lemma same_journal_refl [simp, intro]: "same_journal s s"
  by (simp add: same_journal_def)

lemma journal_effect_refl [simp]: "journal_effect s s"
  by (simp add: journal_effect_def)

lemma journal_effect_batch:
  "admissible_batch s rs \<Longrightarrow> same_journal (with_events i ep rs s) s' \<Longrightarrow> journal_effect s s'"
  by (auto simp: journal_effect_def)

lemma append_events_effect: "append_events sh ep i rs s = (r, s') \<Longrightarrow> journal_effect s s'"
  by (cases rule: append_events_cases [of sh ep i rs s])
    (auto intro: journal_effect_batch)

lemma fenced_effect:
  "append_events_fenced sh ep i q rs s = (r, s') \<Longrightarrow> journal_effect s s'"
  by (cases "sequence_get q = int (length (stream_events s i)) + 1")
    (auto simp: fenced_when_open dest: fenced_when_closed [of q s i sh ep rs] append_events_effect)

lemma commit_entry_effect:
  "commit_entry sh ep c e ev s = (r, s') \<Longrightarrow> journal_effect s s'"
  by (cases rule: commit_entry_cases [of sh ep c e ev s])
    (auto intro: journal_effect_batch simp: same_journal_def)

lemma append_inner_effect:
  "append_inner sh ep st vst c p kind prov s = (r, s') \<Longrightarrow> journal_effect s s'"
  by (cases rule: append_inner_cases [of s c p sh ep st vst kind prov])
    (auto dest: commit_entry_effect)

lemma append_turn_input_effect:
  assumes "append_turn_input sh ep st vst c u kind s = (r, s')"
  shows "journal_effect s s'"
proof (cases "find (\<lambda>e. en_turn_id e = Some u) (map snd (entries_of s (tc_thread_id c)))")
  case (Some e)
  with assms show ?thesis using append_turn_input_known [OF Some] by (metis journal_effect_refl snd_conv)
next
  case None
  from assms show ?thesis
    unfolding append_turn_input_new [OF None]
    by (cases "check_in_memory_lease_epoch s (stream_for_thread sh c) ep")
      (auto dest: commit_entry_effect)
qed

lemma record_selection_effect:
  "record_selection sh ep vst c leaf s = (r, s') \<Longrightarrow> journal_effect s s'"
  by (cases rule: record_selection_cases [of sh ep vst c leaf s])
    (auto intro: journal_effect_batch simp: same_journal_def split: option.splits)

lemma select_branch_effect:
  "select_branch sh ep vst c leaf s = Some (r, s') \<Longrightarrow> journal_effect s s'"
  by (auto simp: select_branch_def dest: record_selection_effect split: option.splits sum.splits)

lemma commit_clone_effect:
  assumes "commit_clone sh ep vst tgt cloned s = (r, s')" "cloned \<noteq> []"
  shows "journal_effect s s'"
  using assms(2)
proof (cases rule: commit_clone_cases [of cloned sh ep vst tgt s])
  case (ok evs)
  from ok(1) assms(1) have s': "s' = set_active_leaf (tc_thread_id tgt) (en_entry_id (last cloned))
      (fold (insert_entry (tc_thread_id tgt)) cloned
        (remove_base (tc_thread_id tgt) (with_events (stream_for_thread sh tgt) ep evs s)))"
    by simp
  show ?thesis
    by (rule journal_effect_batch [OF ok(2), of "stream_for_thread sh tgt" ep])
      (simp add: same_journal_def s')
next
  case (err x)
  with assms(1) show ?thesis by simp
qed

lemma clone_branch_effect:
  assumes "session_ok s" "clone_branch sh ep st vst src leaf tgt s = Some (r, s')"
  shows "journal_effect s s'"
  using assms(1)
proof (cases rule: clone_branch_cases [of s leaf sh ep st vst src tgt])
  case clear
  with assms(2) show ?thesis by (auto simp: journal_effect_def same_journal_def)
next
  case (copy l path)
  with assms(2) show ?thesis
    by (intro commit_clone_effect [of sh ep vst tgt "clone_entries st 0 tgt None path" s r s']) auto
next
  case (err x)
  with assms(2) show ?thesis by simp
qed

lemma fork_effect:
  assumes "session_ok s" "fork_by_reference sh src tgt base s = Some (r, s')"
  shows "journal_effect s s'"
proof -
  from assms(1) have "forest_ok s" by (simp add: session_ok_def)
  then show ?thesis
    by (cases rule: fork_cases [of s sh src tgt base])
      (use assms(2) in \<open>auto simp: journal_effect_def same_journal_def\<close>)
qed

lemma observation_effect: "append_observation obs s = (r, s') \<Longrightarrow> journal_effect s s'"
  by (auto simp: append_observation_def Let_def journal_effect_def same_journal_def)

lemmas operation_effects = append_events_effect fenced_effect append_inner_effect
  append_turn_input_effect select_branch_effect clone_branch_effect fork_effect observation_effect

lemma call_journal_effect: "store_call sh s ok s' \<Longrightarrow> session_ok s \<Longrightarrow> journal_effect s s'"
  by (induction rule: store_call.induct) (rule operation_effects; assumption)+

lemma call_session_ok: "store_call sh s ok s' \<Longrightarrow> session_ok s \<Longrightarrow> session_ok s'"
proof (induction rule: store_call.induct)
  case (call_append_events ep i rs s r s')
  then show ?case by (cases rule: append_events_cases [of sh ep i rs s]) auto
next
  case (call_append_events_fenced ep i q rs s r s')
  show ?case
  proof (cases "sequence_get q = int (length (stream_events s i)) + 1")
    case True
    with call_append_events_fenced show ?thesis
      by (cases rule: append_events_cases [of sh ep i rs s]) (auto simp: fenced_when_open)
  next
    case False
    then obtain e where "append_events_fenced sh ep i q rs s = (Inl e, s)"
      using fenced_when_closed [of q s i sh ep rs] by blast
    with call_append_events_fenced show ?thesis by simp
  qed
next
  case (call_append ep st vst c p kind prov s r s')
  then show ?case using session_ok_append_inner [of s st sh ep vst c p kind prov] by simp
next
  case (call_append_turn_input ep st vst c u kind s r s')
  then show ?case using session_ok_append_turn_input [of s st sh ep vst c u kind] by simp
next
  case (call_select_branch ep vst c leaf s r s')
  from call_select_branch.prems show ?case
  proof (cases rule: select_branch_cases [of s sh ep vst c leaf])
    case selected
    with call_select_branch show ?thesis
      using session_ok_record_selection [OF call_select_branch.prems selected(2), of sh ep vst] by simp
  next
    case (err x)
    with call_select_branch show ?thesis by simp
  qed
next
  case (call_clone_branch ep sts vsts src leaf tgt s r s')
  then show ?case by (metis session_ok_clone)
next
  case (call_fork_by_reference src tgt base s r s')
  then show ?case by (metis session_ok_fork)
next
  case (call_append_observation obs s r s')
  then have "s' = snd (append_observation obs s)" by simp
  then have "session_ok s' = session_ok s"
    by (intro session_ok_cong) (simp_all add: append_observation_def Let_def)
  with call_append_observation.prems show ?case by simp
qed

lemma journal_ok_cong: "same_journal s s' \<Longrightarrow> journal_ok s' = journal_ok s"
  by (simp add: same_journal_def journal_ok_def)

lemma journal_ok_effect: "journal_ok s \<Longrightarrow> journal_effect s s' \<Longrightarrow> journal_ok s'"
  using journal_ok_cong journal_ok_with_events unfolding journal_effect_def by blast

text \<open>The journal grows: streams are extended at the end, minimum epochs are raised.\<close>

definition journal_grows :: "store_inner \<Rightarrow> store_inner \<Rightarrow> bool" where
  "journal_grows s s' \<longleftrightarrow> (\<forall>i. prefix (stream_events s i) (stream_events s' i)) \<and>
     (\<forall>i. lease_minimum s i \<le> lease_minimum s' i) \<and> si_event_ids s \<subseteq> si_event_ids s'"

lemma journal_grows_effect: "journal_effect s s' \<Longrightarrow> journal_grows s s'"
  by (auto simp: journal_effect_def same_journal_def journal_grows_def lease_minimum_with_events
      lease_minimum_def [of s'] lease_minimum_def [of "with_events _ _ _ _", symmetric]
      lease_minimum_def [of s, symmetric])

interpretation store: monotone_state "store_call sh" store_new
    "\<lambda>s. journal_ok s \<and> session_ok s" journal_grows for sh
proof unfold_locales
  show "journal_ok store_new \<and> session_ok store_new"
    by (simp add: journal_ok_new session_ok_new)
  show "journal_ok s' \<and> session_ok s'" if "journal_ok s \<and> session_ok s" "store_call sh s ok s'"
    for s ok s'
    using that call_journal_effect call_session_ok journal_ok_effect by metis
  show "journal_grows s s" for s by (simp add: journal_grows_def)
  show "journal_grows s s''" if "journal_grows s s'" "journal_grows s' s''" for s s' s''
    using that unfolding journal_grows_def by (meson order_trans prefix_order.trans)
  show "journal_grows s s'" if "journal_ok s \<and> session_ok s" "store_call sh s ok s'" for s ok s'
    using that call_journal_effect journal_grows_effect by metis
qed

lemma reachable_ok: "reachable sh s \<Longrightarrow> journal_ok s \<and> session_ok s"
  unfolding reachable_def later_def by (rule store.reachable_good)

lemma reachable_later: "reachable sh s \<Longrightarrow> later sh s s' \<Longrightarrow> journal_grows s s'"
  using store.later_grows reachable_ok unfolding later_def by blast

end
