(* ===== verification/Store_Properties.thy ===== *)
theory Store_Properties
  imports Store_Reachable
begin

section \<open>What the store guarantees in every reachable state\<close>

text \<open>
  The properties of the history store that its callers rely on, stated for every store reachable
  by any sequence of calls: the journal invariant, append-only growth, failed calls without
  effect, permanent fencing of superseded writers, exactly-once turn inputs, and the session tree:
  termination of context assembly, faithful clones, acyclic forks that keep their view.
\<close>

subsection \<open>Entries are never lost\<close>

definition keeps_entries :: "store_inner \<Rightarrow> store_inner \<Rightarrow> bool" where
  "keeps_entries s s' \<longleftrightarrow>
     (\<forall>t i e. hm_get (entries_of s t) i = Some e \<longrightarrow> hm_get (entries_of s' t) i = Some e)"

lemma keeps_entries_same: "si_entries s' = si_entries s \<Longrightarrow> keeps_entries s s'"
  by (simp add: keeps_entries_def)

lemma keeps_entries_insert:
  "hm_get (entries_of s t) (en_entry_id e) = None \<Longrightarrow> keeps_entries s (insert_entry t e s)"
  by (auto simp: keeps_entries_def)

lemma commit_entry_keeps:
  assumes "commit_entry sh ep c e ev s = (r, s')"
    and "hm_get (entries_of s (tc_thread_id c)) (en_entry_id e) = None"
  shows "keeps_entries s s'"
proof (cases rule: commit_entry_cases [of sh ep c e ev s])
  case ok
  with assms show ?thesis by (auto simp: keeps_entries_def)
next
  case (err x)
  with assms(1) show ?thesis by (simp add: keeps_entries_same)
qed

lemma entry_new_id [simp]: "en_entry_id (entry_new st c parent kind) = SessionEntryId (fst st)"
  by (simp add: entry_new_def)

lemma entry_for_turn_id [simp]:
  "en_entry_id (entry_for_turn st c parent u kind) = SessionEntryId (fst st)"
  by (simp add: entry_for_turn_def)

lemma append_inner_keeps:
  assumes "append_inner sh ep st vst c p kind prov s = (r, s')" "fresh_entry_id s (fst st)"
  shows "keeps_entries s s'"
proof (cases rule: append_inner_cases [of s c p sh ep st vst kind prov])
  case (ok parent)
  show ?thesis
    using assms(1) unfolding ok(3)
    by (rule commit_entry_keeps) (use assms(2) in \<open>simp add: fresh_entry_id_def\<close>)
next
  case (err x)
  with assms(1) show ?thesis by (simp add: keeps_entries_same)
qed

lemma append_turn_input_keeps:
  assumes "append_turn_input sh ep st vst c u kind s = (r, s')" "fresh_entry_id s (fst st)"
  shows "keeps_entries s s'"
proof (cases "find (\<lambda>e. en_turn_id e = Some u) (map snd (entries_of s (tc_thread_id c)))")
  case (Some e)
  with assms show ?thesis
    using append_turn_input_known [OF Some] by (metis keeps_entries_same snd_conv)
next
  case None
  show ?thesis
  proof (cases "check_in_memory_lease_epoch s (stream_for_thread sh c) ep")
    case (Inl x)
    with assms(1) show ?thesis
      unfolding append_turn_input_new [OF None] by (simp add: keeps_entries_same)
  next
    case (Inr x)
    with assms(1) have "commit_entry sh ep c (entry_for_turn st c
        (hm_get (si_active_leaf s) (tc_thread_id c)) u kind)
        (session_entry_event sh vst (entry_for_turn st c
          (hm_get (si_active_leaf s) (tc_thread_id c)) u kind)) s = (r, s')"
      unfolding append_turn_input_new [OF None] by (simp add: Let_def)
    then show ?thesis
      by (rule commit_entry_keeps) (use assms(2) in \<open>simp add: fresh_entry_id_def\<close>)
  qed
qed

lemma select_branch_keeps:
  assumes "session_ok s" "select_branch sh ep vst c leaf s = Some (r, s')"
  shows "keeps_entries s s'"
  using assms(1)
proof (cases rule: select_branch_cases [of s sh ep vst c leaf])
  case selected
  with assms(2) show ?thesis
    by (cases rule: record_selection_cases [of sh ep vst c leaf s])
      (auto simp: keeps_entries_def split: option.splits)
next
  case (err x)
  with assms(2) show ?thesis by (simp add: keeps_entries_same)
qed

lemma clone_entry_ids:
  "e \<in> set (clone_entries st i tgt parent path) \<Longrightarrow>
   \<exists>k \<in> {i..<i + length path}. en_entry_id e = SessionEntryId (fst (st k))"
proof (induction st i tgt parent path rule: clone_entries.induct)
  case (1 st i tgt parent)
  then show ?case by simp
next
  case (2 st i tgt parent x path)
  show ?case
  proof (cases "e = entry_new (st i) tgt parent (en_kind x)")
    case True
    then show ?thesis by (intro bexI [of _ i]) (simp_all add: entry_new_def)
  next
    case False
    with 2 obtain k where "k \<in> {Suc i..<Suc i + length path}"
        "en_entry_id e = SessionEntryId (fst (st k))"
      by (auto simp: Let_def)
    then show ?thesis by (intro bexI [of _ k]) simp_all
  qed
qed

lemma clone_branch_keeps:
  assumes "session_ok s" "clone_branch sh ep st vst src leaf tgt s = Some (r, s')"
    and "fresh_clone s st src leaf"
  shows "keeps_entries s s'"
  using assms(1)
proof (cases rule: clone_branch_cases [of s leaf sh ep st vst src tgt])
  case clear
  with assms(2) show ?thesis by (auto simp: keeps_entries_def)
next
  case (copy l path)
  let ?cloned = "clone_entries st 0 tgt None path"
  have "fresh_stamps (entries_of s (tc_thread_id tgt)) st 0 (length path)"
    using assms(3) copy(1,2) by (simp add: fresh_clone_stamps)
  then have "i \<notin> en_entry_id ` set ?cloned" if "hm_get (entries_of s (tc_thread_id tgt)) i = Some e" for i e
    using that clone_entry_ids [of _ st 0 tgt None path] by (fastforce simp: fresh_stamps_def)
  then have keep: "hm_get (fold (\<lambda>e. hm_insert (en_entry_id e) e) ?cloned
      (entries_of s (tc_thread_id tgt))) i = Some e"
    if "hm_get (entries_of s (tc_thread_id tgt)) i = Some e" for i e
    using that by (simp add: fold_insert_keeps)
  have "?cloned \<noteq> []" using copy(3) by simp
  then show ?thesis
    by (cases rule: commit_clone_cases [of ?cloned sh ep vst tgt s])
      (use assms(2) copy(4) keep in \<open>auto simp: keeps_entries_def\<close>)
next
  case (err x)
  with assms(2) show ?thesis by (simp add: keeps_entries_same)
qed

lemma fork_keeps:
  assumes "session_ok s" "fork_by_reference sh src tgt base s = Some (r, s')"
  shows "keeps_entries s s'"
proof -
  from assms(1) have "forest_ok s" by (simp add: session_ok_def)
  then show ?thesis
    by (cases rule: fork_cases [of s sh src tgt base])
      (use assms(2) in \<open>auto simp: keeps_entries_def\<close>)
qed

lemma append_events_keeps: "append_events sh ep i rs s = (r, s') \<Longrightarrow> keeps_entries s s'"
  by (cases rule: append_events_cases [of sh ep i rs s]) (auto simp: keeps_entries_def)

lemma fenced_keeps: "append_events_fenced sh ep i q rs s = (r, s') \<Longrightarrow> keeps_entries s s'"
proof (cases "sequence_get q = int (length (stream_events s i)) + 1")
  case True
  then show "append_events_fenced sh ep i q rs s = (r, s') \<Longrightarrow> ?thesis"
    by (simp add: fenced_when_open append_events_keeps)
next
  case False
  then obtain e where "append_events_fenced sh ep i q rs s = (Inl e, s)"
    using fenced_when_closed [of q s i sh ep rs] by blast
  then show "append_events_fenced sh ep i q rs s = (r, s') \<Longrightarrow> ?thesis"
    by (simp add: keeps_entries_same)
qed

lemma observation_keeps: "append_observation obs s = (r, s') \<Longrightarrow> keeps_entries s s'"
  by (auto simp: append_observation_def Let_def keeps_entries_def)

lemma call_keeps_entries: "store_call sh s ok s' \<Longrightarrow> session_ok s \<Longrightarrow> keeps_entries s s'"
proof (induction rule: store_call.induct)
  case (call_clone_branch ep sts vsts src leaf tgt s r s')
  then show ?case by (metis clone_branch_keeps)
qed (rule append_events_keeps fenced_keeps append_inner_keeps append_turn_input_keeps
    select_branch_keeps fork_keeps observation_keeps; assumption)+

interpretation entries: monotone_state "store_call sh" store_new
    "\<lambda>s. journal_ok s \<and> session_ok s" keeps_entries for sh
proof unfold_locales
  show "keeps_entries s s" for s by (simp add: keeps_entries_def)
  show "keeps_entries s s''" if "keeps_entries s s'" "keeps_entries s' s''" for s s' s''
    using that by (simp add: keeps_entries_def)
  show "keeps_entries s s'" if "journal_ok s \<and> session_ok s" "store_call sh s ok s'" for s ok s'
    using that call_keeps_entries by blast
qed

lemma later_keeps_entries: "reachable sh s \<Longrightarrow> later sh s s' \<Longrightarrow> keeps_entries s s'"
  using entries.later_grows reachable_ok unfolding later_def by blast

lemma later_reachable: "reachable sh s \<Longrightarrow> later sh s s' \<Longrightarrow> reachable sh s'"
  by (simp add: reachable_def later_def)

lemma call_reachable: "reachable sh s \<Longrightarrow> store_call sh s ok s' \<Longrightarrow> reachable sh s'"
  unfolding reachable_def later_def by (metis (mono_tags, lifting) rtranclp.rtrancl_into_rtrancl)

subsection \<open>The journal in every reachable state\<close>

lemma reachable_call_new: "store_call sh store_new ok s \<Longrightarrow> reachable sh s"
  unfolding reachable_def later_def by blast

lemma later_refl: "later sh s s"
  by (simp add: later_def)

lemma call_later: "store_call sh s ok s' \<Longrightarrow> later sh s s'"
  unfolding later_def by blast

lemma sample_reachable: "reachable (\<lambda>_. ''7'') sample_store"
  using call_append_events [OF sample_store_eq(1)] by (rule reachable_call_new)

lemma stored_event_ok:
  assumes "journal_ok s" "n < length (stream_events s i)"
  shows "ev_stream_id (stream_events s i ! n) = i \<and>
    ev_sequence (stream_events s i ! n) = EventSequence (int n + 1) \<and>
    event_ok (stream_events s i ! n)"
proof -
  have "event_ok (stream_events s i ! n)"
    using assms(1) nth_mem [OF assms(2)] unfolding journal_ok_def by blast
  then show ?thesis using memory_journal.sequence_of [OF assms] by simp
qed

lemma stored_id_unique:
  assumes "journal_ok s" "n < length (stream_events s i)" "m < length (stream_events s j)"
    and "ev_id (stream_events s i ! n) = ev_id (stream_events s j ! m)"
  shows "i = j \<and> n = m"
proof (cases "i = j")
  case True
  have "distinct (map ev_id (stream_events s i))" using assms(1) by (simp add: journal_ok_def)
  from nth_eq_iff_index_eq [OF this, of n m] show ?thesis using True assms(2-4) by simp
next
  case False
  with assms(1) have "ev_id ` set (stream_events s i) \<inter> ev_id ` set (stream_events s j) = {}"
    unfolding journal_ok_def by blast
  moreover have "ev_id (stream_events s i ! n) \<in> ev_id ` set (stream_events s i)"
    using assms(2) by simp
  moreover have "ev_id (stream_events s i ! n) \<in> ev_id ` set (stream_events s j)"
    using assms(3) unfolding assms(4) by simp
  ultimately show ?thesis by blast
qed

text \<open>
  C1. The record of every reachable store.  However calls of all kinds and from all tasks are
  interleaved, the \<open>n\<close>-th event of a stream carries that stream's id and sequence number \<open>n + 1\<close>; an
  event id occurs at one place of one stream only; a discharged event always has provenance; and
  every stored event passes the schema check of the stream records.
\<close>

theorem reachable_record:
  assumes "reachable show_uuid s"
  shows "(\<forall>i n. n < length (stream_events s i) \<longrightarrow>
      ev_stream_id (stream_events s i ! n) = i \<and>
      ev_sequence (stream_events s i ! n) = EventSequence (int n + 1) \<and>
      (ev_origin (stream_events s i ! n) = Discharged \<longrightarrow>
         \<not> provenance_is_empty (ev_provenance (stream_events s i ! n))) \<and>
      validate_stream_record_v1 show_uuid (stream_events s i ! n) = Inr ()) \<and>
    (\<forall>i n j m. n < length (stream_events s i) \<longrightarrow> m < length (stream_events s j) \<longrightarrow>
      ev_id (stream_events s i ! n) = ev_id (stream_events s j ! m) \<longrightarrow> i = j \<and> n = m)"
proof (intro conjI allI impI)
  have ok: "journal_ok s" using reachable_ok [OF assms] by simp
  note place = stored_event_ok [OF ok]
  show "ev_stream_id (stream_events s i ! n) = i"
      "ev_sequence (stream_events s i ! n) = EventSequence (int n + 1)"
      "validate_stream_record_v1 show_uuid (stream_events s i ! n) = Inr ()"
      if "n < length (stream_events s i)" for i n
    using place [OF that] by (simp_all add: event_ok_def validate_stream_record_iff)
  show "\<not> provenance_is_empty (ev_provenance (stream_events s i ! n))"
      if "n < length (stream_events s i)" "ev_origin (stream_events s i ! n) = Discharged" for i n
    using place [OF that(1)] that(2) by (simp add: event_ok_def)
  show "i = j" "n = m" if "n < length (stream_events s i)" "m < length (stream_events s j)"
      "ev_id (stream_events s i ! n) = ev_id (stream_events s j ! m)" for i n j m
    using stored_id_unique [OF ok that] by simp_all
qed

theorem reachable_record_witness:
  "ev_sequence (stream_events sample_store (EventStreamId ''thread:7'') ! 1) = EventSequence 2"
  using reachable_record [OF sample_reachable] sample_stream_length by simp

text \<open>
  C2. The record is append-only and cursors never expire.  Whatever calls are made after a state was
  reached, every stream keeps its events as a prefix, no minimum lease epoch drops, and the cursor
  of any event of the old state still resumes: reading after it returns the old continuation
  followed by what was appended since.
\<close>

theorem record_is_append_only:
  assumes "reachable show_uuid s" and "later show_uuid s s'"
  shows "prefix (stream_events s i) (stream_events s' i) \<and> lease_minimum s i \<le> lease_minimum s' i \<and>
    (\<forall>n < length (stream_events s i). \<exists>new.
       read_events_after_cursor show_uuid (\<lambda>i q. read_events i q s') i
         (cursor_from_event (stream_events s i ! n)) = Inr (drop (Suc n) (stream_events s i) @ new))"
proof -
  have grows: "journal_grows s s'" by (rule reachable_later [OF assms])
  then obtain new where new: "stream_events s' i = stream_events s i @ new"
    unfolding journal_grows_def by (metis prefixE)
  have "journal_ok s'" using reachable_ok [OF later_reachable [OF assms]] by simp
  then have "read_events_after_cursor show_uuid (\<lambda>i q. read_events i q s') i
      (cursor_from_event (stream_events s i ! n)) = Inr (drop (Suc n) (stream_events s i) @ new)"
    if "n < length (stream_events s i)" for n
    using that memory_journal.replay_after_cursor [of s' n i show_uuid] by (simp add: new nth_append)
  with grows show ?thesis by (auto simp: journal_grows_def)
qed

theorem record_is_append_only_witness:
  "prefix (stream_events store_new (EventStreamId ''thread:7''))
     (stream_events sample_store (EventStreamId ''thread:7''))"
proof -
  have "reachable (\<lambda>_. ''7'') store_new" by (simp add: reachable_def later_refl)
  moreover have "later (\<lambda>_. ''7'') store_new sample_store"
    using sample_reachable by (simp add: reachable_def)
  ultimately show ?thesis
    using record_is_append_only [of "\<lambda>_. ''7''" store_new sample_store] by blast
qed

lemma stored_branch_path_returns:
  assumes "session_ok s"
  shows "\<exists>p. stored_branch_path s c k = Some p"
proof -
  have "entries_ok (entries_of s (tc_thread_id c))"
    using assms by (simp add: session_ok_def forest_entries_ok)
  then show ?thesis by (cases rule: branch_path_cases [of _ k c]) (auto simp: stored_branch_path_eq)
qed

lemma stale_turn_input:
  assumes "check_in_memory_lease_epoch s (stream_for_thread sh c) m = Inl e"
    and "find (\<lambda>e. en_turn_id e = Some u) (map snd (entries_of s (tc_thread_id c))) = None"
  shows "append_turn_input sh m st vst c u kind s = (Inl e, s)"
  using assms by (simp add: append_turn_input_new)

lemma stale_selection:
  assumes "check_in_memory_lease_epoch s (stream_for_thread sh c) m = Inl e" and "session_ok s"
  shows "select_branch sh m vst c leaf s =
    Some ((case leaf of None \<Rightarrow> Inl e | Some l \<Rightarrow>
       (case stored_branch_path s c l of Some (Inl x) \<Rightarrow> Inl x | _ \<Rightarrow> Inl e)), s)"
proof (cases leaf)
  case None
  with assms(1) show ?thesis by (simp add: select_branch_def record_selection_def Let_def)
next
  case (Some l)
  from stored_branch_path_returns [OF assms(2), of c l] obtain r where
    r: "stored_branch_path s c l = Some r" by blast
  with Some assms(1) show ?thesis
    by (cases r) (simp_all add: select_branch_def record_selection_def Let_def)
qed

lemma stale_clone:
  assumes "check_in_memory_lease_epoch s (stream_for_thread sh c) m = Inl e" and "session_ok s"
  shows "clone_branch sh m sts vsts src (Some l) c s =
    Some ((case stored_branch_path s src l of Some (Inl x) \<Rightarrow> Inl x | _ \<Rightarrow> Inl e), s)"
proof -
  from stored_branch_path_returns [OF assms(2), of src l] obtain r where
    r: "stored_branch_path s src l = Some r" by blast
  with assms(1) show ?thesis by (cases r) (simp_all add: clone_branch_def commit_clone_def Let_def)
qed

text \<open>
  C9. A superseded writer stays fenced.  After an append at lease epoch \<open>n\<close> succeeded on a stream,
  and after any further calls, each of the six operations that take a lease epoch refuses a lower
  one on that stream and leaves the store as it was: plain and fenced appends with
  \<open>StaleLeaseEpoch\<close>; on a thread journalled in that stream, a session entry, a turn input, a
  branch selection and a clone into the thread with \<open>StaleLeaseEpoch\<close> too, unless the code fails
  before it looks at the lease, because the parent entry or the branch cannot be read.  The one
  answer that is not an error is that of a turn input that is already stored: it is only looked up,
  and the store stays as it was.  A clone of the empty branch (\<open>source_leaf\<close> is \<open>None\<close>) appends
  nothing and is the one call the code does not fence.
\<close>

theorem superseded_writer_stays_fenced:
  assumes "reachable show_uuid s" and "append_events show_uuid n i rs s = (Inr es, s1)"
    and "later show_uuid s1 s'" and "m < n"
  shows "n \<le> lease_minimum s' i \<and>
    append_events show_uuid m i rs' s' = (Inl (StaleLeaseEpoch i m (lease_minimum s' i)), s') \<and>
    append_events_fenced show_uuid m i q rs' s' =
      (Inl (StaleLeaseEpoch i m (lease_minimum s' i)), s') \<and>
    (stream_for_thread show_uuid c = i \<longrightarrow>
       append_inner show_uuid m st vst c p kind prov s' =
         ((case resolve_parent s' c p of
             Inl e \<Rightarrow> Inl e | Inr _ \<Rightarrow> Inl (StaleLeaseEpoch i m (lease_minimum s' i))), s') \<and>
       snd (append_turn_input show_uuid m st vst c u kind s') = s' \<and>
       (find (\<lambda>e. en_turn_id e = Some u) (map snd (entries_of s' (tc_thread_id c))) = None \<longrightarrow>
          fst (append_turn_input show_uuid m st vst c u kind s') =
            Inl (StaleLeaseEpoch i m (lease_minimum s' i))) \<and>
       select_branch show_uuid m vst c leaf s' =
         Some ((case leaf of
                  None \<Rightarrow> Inl (StaleLeaseEpoch i m (lease_minimum s' i))
                | Some l \<Rightarrow>
                    (case stored_branch_path s' c l of
                       Some (Inl e) \<Rightarrow> Inl e
                     | _ \<Rightarrow> Inl (StaleLeaseEpoch i m (lease_minimum s' i)))), s') \<and>
       clone_branch show_uuid m sts vsts src (Some l) c s' =
         Some ((case stored_branch_path s' src l of
                  Some (Inl e) \<Rightarrow> Inl e
                | _ \<Rightarrow> Inl (StaleLeaseEpoch i m (lease_minimum s' i))), s'))"
proof -
  have "s1 = with_events i n rs s" using assms(2) by (simp add: append_events_ok)
  then have "n \<le> lease_minimum s1 i" by (simp add: lease_minimum_with_events)
  moreover have r1: "reachable show_uuid s1"
    by (rule call_reachable [OF assms(1) call_append_events [OF assms(2)]])
  then have "lease_minimum s1 i \<le> lease_minimum s' i"
    using reachable_later [OF _ assms(3)] by (simp add: journal_grows_def)
  ultimately have le: "n \<le> lease_minimum s' i" by simp
  with assms(4) have lt: "m < lease_minimum s' i" by simp
  then have stale: "check_in_memory_lease_epoch s' i m = Inl (StaleLeaseEpoch i m (lease_minimum s' i))"
    by (simp add: check_lease_err)
  have ok: "session_ok s'" using reachable_ok [OF later_reachable [OF r1 assms(3)]] by simp
  show ?thesis
  proof (intro conjI impI)
    assume c: "stream_for_thread show_uuid c = i"
    have inner: "check_in_memory_lease_epoch s' (stream_for_thread show_uuid c) m =
        Inl (StaleLeaseEpoch i m (lease_minimum s' i))" using stale c by simp
    show "append_inner show_uuid m st vst c p kind prov s' =
         ((case resolve_parent s' c p of
             Inl e \<Rightarrow> Inl e | Inr _ \<Rightarrow> Inl (StaleLeaseEpoch i m (lease_minimum s' i))), s')"
      using inner by (cases "resolve_parent s' c p") (simp_all add: append_inner_def)
    show "snd (append_turn_input show_uuid m st vst c u kind s') = s'"
    proof (cases "find (\<lambda>e. en_turn_id e = Some u) (map snd (entries_of s' (tc_thread_id c)))")
      case None
      with stale_turn_input [OF inner] show ?thesis by simp
    qed (rule append_turn_input_known)
    show "fst (append_turn_input show_uuid m st vst c u kind s') =
            Inl (StaleLeaseEpoch i m (lease_minimum s' i))"
      if "find (\<lambda>e. en_turn_id e = Some u) (map snd (entries_of s' (tc_thread_id c))) = None"
      using stale_turn_input [OF inner that] by simp
  qed (use le stale ok in \<open>simp_all add: append_events_def append_events_fenced_def stale_selection
      stale_clone\<close>)
qed

theorem superseded_writer_stays_fenced_witness:
  "append_events (\<lambda>_. ''7'') 2 (EventStreamId ''thread:7'') [sample_record 9] sample_store =
     (Inl (StaleLeaseEpoch (EventStreamId ''thread:7'') 2
        (lease_minimum sample_store (EventStreamId ''thread:7''))), sample_store) \<and>
   select_branch (\<lambda>_. ''7'') 2 (9, 0) sample_coordinates None sample_store =
     Some (Inl (StaleLeaseEpoch (EventStreamId ''thread:7'') 2
        (lease_minimum sample_store (EventStreamId ''thread:7''))), sample_store)"
proof -
  have "reachable (\<lambda>_. ''7'') store_new" by (simp add: reachable_def later_refl)
  moreover have "stream_for_thread (\<lambda>_. ''7'') sample_coordinates = EventStreamId ''thread:7''"
    by (simp add: sample_coordinates_def stream_for_thread_def)
  ultimately show ?thesis
    using superseded_writer_stays_fenced [OF _ sample_store_eq(1) later_refl, where m = 2
        and rs' = "[sample_record 9]" and c = sample_coordinates and vst = "(9, 0)" and leaf = None]
    by simp
qed

subsection \<open>Failed calls\<close>

lemma commit_entry_err: "commit_entry sh ep c e ev s = (Inl x, s') \<Longrightarrow> s' = s"
  by (cases rule: commit_entry_cases [of sh ep c e ev s]) auto

lemma append_inner_err: "append_inner sh ep st vst c p kind prov s = (Inl x, s') \<Longrightarrow> s' = s"
  by (cases rule: append_inner_cases [of s c p sh ep st vst kind prov]) (auto dest: commit_entry_err)

lemma append_turn_input_err:
  assumes "append_turn_input sh ep st vst c u kind s = (Inl x, s')"
  shows "s' = s"
proof (cases "find (\<lambda>e. en_turn_id e = Some u) (map snd (entries_of s (tc_thread_id c)))")
  case (Some e)
  with assms show ?thesis using append_turn_input_known [OF Some] by (metis snd_conv)
next
  case None
  with assms show ?thesis
    by (auto simp: append_turn_input_new or_return_err dest: commit_entry_err)
qed

lemma record_selection_err: "record_selection sh ep vst c leaf s = (Inl x, s') \<Longrightarrow> s' = s"
  by (cases rule: record_selection_cases [of sh ep vst c leaf s]) auto

lemma select_branch_err: "select_branch sh ep vst c leaf s = Some (Inl x, s') \<Longrightarrow> s' = s"
  by (auto simp: select_branch_def dest: record_selection_err split: option.splits sum.splits)

lemma clone_branch_err:
  assumes "session_ok s" "clone_branch sh ep st vst src leaf tgt s = Some (Inl x, s')"
  shows "s' = s"
  using assms(1)
proof (cases rule: clone_branch_cases [of s leaf sh ep st vst src tgt])
  case clear
  with assms(2) show ?thesis by simp
next
  case (copy l path)
  then have "clone_entries st 0 tgt None path \<noteq> []" by simp
  then show ?thesis
    by (cases rule: commit_clone_cases [of "clone_entries st 0 tgt None path" sh ep vst tgt s])
      (use assms(2) copy(4) in auto)
next
  case (err y)
  with assms(2) show ?thesis by simp
qed

lemma fork_err:
  assumes "session_ok s" "fork_by_reference sh src tgt base s = Some (Inl x, s')"
  shows "s' = s"
proof -
  from assms(1) have "forest_ok s" by (simp add: session_ok_def)
  then show ?thesis
    by (cases rule: fork_cases [of s sh src tgt base]) (use assms(2) in auto)
qed

lemma fenced_err: "append_events_fenced sh ep i q rs s = (Inl x, s') \<Longrightarrow> s' = s"
  by (cases "sequence_get q = int (length (stream_events s i)) + 1")
    (auto simp: fenced_when_open dest: append_events_err fenced_when_closed [of q s i sh ep rs])

text \<open>
  C8. Failure has no effect.  In every reachable state, a call of any operation that answers with
  an error (a rejected record, a stale lease, a fence conflict, a missing entry, a foreign
  coordinate, a base cycle) leaves the whole store exactly as it found it.
\<close>

theorem failed_call_changes_nothing:
  assumes "reachable show_uuid s" and "store_call show_uuid s False s'"
  shows "s' = s"
proof -
  have ok: "session_ok s" using reachable_ok [OF assms(1)] by simp
  from assms(2) show ?thesis
  proof (cases rule: store_call.cases)
    case (call_append_events ep i rs r)
    then show ?thesis by (cases r) (auto dest: append_events_err)
  next
    case (call_append_events_fenced ep i q rs r)
    then show ?thesis by (cases r) (auto dest: fenced_err)
  next
    case (call_append ep st vst c p kind prov r)
    then show ?thesis by (cases r) (auto dest: append_inner_err)
  next
    case (call_append_turn_input ep st vst c u kind r)
    then show ?thesis by (cases r) (auto dest: append_turn_input_err)
  next
    case (call_select_branch ep vst c leaf r)
    then show ?thesis by (cases r) (auto dest: select_branch_err)
  next
    case (call_clone_branch ep sts vsts src leaf tgt r)
    then show ?thesis by (cases r) (auto dest: clone_branch_err [OF ok])
  next
    case (call_fork_by_reference src tgt base r)
    then show ?thesis by (cases r) (auto dest: fork_err [OF ok])
  next
    case (call_append_observation obs r)
    then show ?thesis by (auto simp: append_observation_def Let_def)
  qed
qed

theorem failed_call_changes_nothing_witness:
  "snd (append_events (\<lambda>_. ''7'') 3 (EventStreamId ''thread:7'') [sample_record 1] sample_store) =
   sample_store"
proof -
  define r where "r = append_events (\<lambda>_. ''7'') 3 (EventStreamId ''thread:7'') [sample_record 1]
    sample_store"
  have "\<not> admissible_batch sample_store [sample_record 1]"
    unfolding sample_store_eq(2) by (simp add: admissible_batch_def)
  then have "\<not> is_ok (fst r)"
    by (cases r; cases "fst r") (auto simp: r_def append_events_ok)
  then have "store_call (\<lambda>_. ''7'') sample_store False (snd r)"
    using call_append_events [of "\<lambda>_. ''7''" 3 "EventStreamId ''thread:7''" "[sample_record 1]"
        sample_store "fst r" "snd r"] by (simp add: r_def)
  from failed_call_changes_nothing [OF sample_reachable this] show ?thesis by (simp add: r_def)
qed

subsection \<open>Turn inputs\<close>

lemma find_turn_unique:
  assumes "thread_ok t m" "hm_get m i = Some e" "en_turn_id e = Some u"
  shows "find (\<lambda>e. en_turn_id e = Some u) (map snd m) = Some e"
proof (cases "find (\<lambda>e. en_turn_id e = Some u) (map snd m)")
  case None
  with assms(2,3) find_turn_None [OF None] show ?thesis by blast
next
  case (Some x)
  then have "x \<in> snd ` set m" "en_turn_id x = Some u" by (auto simp: find_Some_iff)
  then obtain j where "(j, x) \<in> set m" by auto
  with assms(1) have j: "hm_get m j = Some x" by (simp add: hm_get_iff_mem thread_ok_def entries_ok_def)
  with assms \<open>en_turn_id x = Some u\<close> have "i = j" unfolding thread_ok_def by (metis option.distinct(1))
  with j assms(2) Some show ?thesis by simp
qed

lemma distinct_filter_single:
  "distinct xs \<Longrightarrow> x \<in> set xs \<Longrightarrow> P x \<Longrightarrow> (\<And>y. y \<in> set xs \<Longrightarrow> P y \<Longrightarrow> y = x) \<Longrightarrow>
   filter P xs = [x]"
proof (induction xs)
  case (Cons y ys)
  show ?case
  proof (cases "P y")
    case True
    with Cons.prems(4) have y: "y = x" by simp
    have "\<not> P z" if "z \<in> set ys" for z
      using that Cons.prems(1) Cons.prems(4) [of z] y by auto
    with True y show ?thesis by (simp add: filter_empty_conv)
  next
    case False
    with Cons.prems(2,3) have "x \<in> set ys" by auto
    then have "filter P ys = [x]" using Cons.prems(1,3,4) by (intro Cons.IH) simp_all
    with False show ?thesis by simp
  qed
qed simp

lemma turn_entry_unique:
  assumes "thread_ok t m" "hm_get m i = Some e" "en_turn_id e = Some u"
  shows "filter (\<lambda>e. en_turn_id e = Some u) (map snd m) = [e]"
proof -
  have wf: "distinct (map fst m)" using assms(1) by (simp add: thread_ok_def entries_ok_def hm_wf_def)
  have key: "en_entry_id x = j" if "(j, x) \<in> set m" for j x
    using that assms(1) wf by (simp add: thread_ok_def entries_ok_def hm_get_def)
  have "inj_on snd (set m)" using key by (intro inj_onI) (metis prod.collapse)
  with wf have "distinct (map snd m)" by (simp add: distinct_map)
  moreover have "e \<in> set (map snd m)" using hm_get_SomeD [OF assms(2)] by force
  moreover have "y = e" if "y \<in> set (map snd m)" "en_turn_id y = Some u" for y
  proof -
    from that(1) obtain j where "(j, y) \<in> set m" by auto
    with wf have "hm_get m j = Some y" by (simp add: hm_get_def)
    moreover from this have "i = j"
      using assms that(2) unfolding thread_ok_def by (metis option.distinct(1))
    ultimately show ?thesis using assms(2) by simp
  qed
  ultimately show ?thesis using assms(3) by (intro distinct_filter_single)
qed

lemma append_turn_input_ok:
  assumes "session_ok s" "append_turn_input sh ep st vst c u kind s = (Inr e, s')"
  shows "hm_get (entries_of s' (tc_thread_id c)) (en_entry_id e) = Some e \<and> en_turn_id e = Some u \<and>
    en_coordinates e = c \<and> turn_input_kinds_match (en_kind e) kind"
proof (cases "find (\<lambda>e. en_turn_id e = Some u) (map snd (entries_of s (tc_thread_id c)))")
  case (Some x)
  then have x: "x \<in> snd ` set (entries_of s (tc_thread_id c))" "en_turn_id x = Some u"
    by (auto simp: find_Some_iff)
  have ok: "entries_ok (entries_of s (tc_thread_id c))"
    using assms(1) by (simp add: session_ok_def forest_entries_ok)
  then have "hm_get (entries_of s (tc_thread_id c)) (en_entry_id x) = Some x"
    using x(1) unfolding entries_ok_def by (auto simp: hm_get_iff_mem)
  with Some x(2) assms(2) show ?thesis
    by (auto simp: append_turn_input_def or_return_ok split: if_splits)
next
  case None
  let ?e = "entry_for_turn st c (hm_get (si_active_leaf s) (tc_thread_id c)) u kind"
  have "commit_entry sh ep c ?e (session_entry_event sh vst ?e) s = (Inr e, s')"
    using assms(2) by (simp add: append_turn_input_new [OF None] or_return_ok)
  then show ?thesis
    by (cases rule: commit_entry_cases [of sh ep c ?e "session_entry_event sh vst ?e" s])
      (auto simp: entry_for_turn_def entry_new_def)
qed

text \<open>
  C7. A turn's input is recorded exactly once.  Once \<open>append_turn_input\<close> answered with an entry,
  then after any further calls by anyone a retry with the same turn id and the same input answers
  with that same entry, changes nothing, needs no current lease, and the thread holds exactly one
  entry for the turn; a retry whose input differs is refused and changes nothing.
\<close>

theorem turn_input_exactly_once:
  assumes "reachable show_uuid s" and "fresh_entry_id s (fst st)"
    and "append_turn_input show_uuid ep st vst c u kind s = (Inr e, s1)"
    and "later show_uuid s1 s'"
  shows "append_turn_input show_uuid ep' st' vst' c u kind s' = (Inr e, s') \<and>
    length (filter (\<lambda>e. en_turn_id e = Some u) (map snd (entries_of s' (tc_thread_id c)))) = 1 \<and>
    (\<not> turn_input_kinds_match (en_kind e) kind' \<longrightarrow>
       (\<exists>x. append_turn_input show_uuid ep' st' vst' c u kind' s' = (Inl x, s')))"
proof -
  let ?t = "tc_thread_id c"
  have s1: "reachable show_uuid s1"
    by (rule call_reachable [OF assms(1) call_append_turn_input [OF assms(3,2)]])
  have s': "session_ok s'" using later_reachable [OF s1 assms(4)] reachable_ok by blast
  have "session_ok s" using reachable_ok [OF assms(1)] by simp
  note e = append_turn_input_ok [OF this assms(3)]
  have get: "hm_get (entries_of s' ?t) (en_entry_id e) = Some e"
    using e later_keeps_entries [OF s1 assms(4)] by (simp add: keeps_entries_def)
  have ok: "thread_ok ?t (entries_of s' ?t)" using s' by (simp add: session_ok_def forest_ok_def)
  have "find (\<lambda>e. en_turn_id e = Some u) (map snd (entries_of s' ?t)) = Some e"
    using find_turn_unique [OF ok get] e by simp
  moreover have "filter (\<lambda>e. en_turn_id e = Some u) (map snd (entries_of s' ?t)) = [e]"
    by (rule turn_entry_unique [OF ok get]) (use e in simp)
  moreover have "or_return (validate_entry_coordinates c e) s' f = f ()" 
      for f :: "unit \<Rightarrow> session_entry history_result \<times> store_inner"
    using e by (simp add: validate_entry_coordinates_def)
  ultimately show ?thesis
    using e by (simp add: append_turn_input_def)
qed

text \<open>A store with one recorded turn input, and the call that recorded it.\<close>

definition sample_turn :: session_entry where
  "sample_turn = entry_for_turn (1, 0) sample_coordinates None ''turn-1''
     (MessageEntry (user_text_at ''hello'' 0))"

definition sample_session :: store_inner where
  "sample_session = snd (append_turn_input (\<lambda>_. ''7'') 0 (1, 0) (2, 0) sample_coordinates ''turn-1''
     (MessageEntry (user_text_at ''hello'' 0)) store_new)"

lemma commit_entry_ok:
  "admissible_batch s [ev] \<Longrightarrow> commit_entry sh ep c e ev s =
     (Inr e, set_active_leaf (tc_thread_id c) (en_entry_id e)
        (insert_entry (tc_thread_id c) e (with_events (stream_for_thread sh c) ep [ev] s)))"
proof (cases "append_in_memory_events sh (stream_for_thread sh c) [ev] ep s")
  case (Pair r s')
  assume "admissible_batch s [ev]"
  then have "append_in_memory_events sh (stream_for_thread sh c) [ev] ep s =
      (Inr (numbered (stream_for_thread sh c) (int (length (stream_events s (stream_for_thread sh c))))
        [ev]), with_events (stream_for_thread sh c) ep [ev] s)"
    by (simp add: append_in_memory_ok)
  then show ?thesis by (simp add: commit_entry_def)
qed

lemma sample_session_eq:
  "append_turn_input (\<lambda>_. ''7'') 0 (1, 0) (2, 0) sample_coordinates ''turn-1''
     (MessageEntry (user_text_at ''hello'' 0)) store_new = (Inr sample_turn, sample_session)"
  "sample_session = set_active_leaf (ThreadId 7) (SessionEntryId 1) (insert_entry (ThreadId 7) sample_turn
     (with_events (EventStreamId ''thread:7'') 0
       [session_entry_event (\<lambda>_. ''7'') (2, 0) sample_turn] store_new))"
proof -
  have c: "tc_thread_id sample_coordinates = ThreadId 7"
      "stream_for_thread (\<lambda>_. ''7'') sample_coordinates = EventStreamId ''thread:7''"
    by (simp_all add: sample_coordinates_def stream_for_thread_def)
  have lease: "check_in_memory_lease_epoch store_new i ep = Inr ()" for i ep
    by (simp add: check_in_memory_lease_epoch_def store_new_def)
  have new: "hm_get (si_active_leaf store_new) t = None" "entries_of store_new t = []" for t
    by (simp_all add: store_new_def)
  have "admissible_batch store_new [session_entry_event (\<lambda>_. ''7'') (2, 0) sample_turn]"
    by (simp add: admissible_batch_def storable_def store_new_def session_entry_event_def
        validate_new_event_def sample_turn_def entry_for_turn_def entry_new_def user_text_at_def
        session_entry_event_with_optional_provenance_def event_witnessed_def)
  from commit_entry_ok [OF this, of "\<lambda>_. ''7''" 0 sample_coordinates sample_turn]
  have "append_turn_input (\<lambda>_. ''7'') 0 (1, 0) (2, 0) sample_coordinates ''turn-1''
      (MessageEntry (user_text_at ''hello'' 0)) store_new = (Inr sample_turn,
      set_active_leaf (ThreadId 7) (SessionEntryId 1) (insert_entry (ThreadId 7) sample_turn
        (with_events (EventStreamId ''thread:7'') 0
          [session_entry_event (\<lambda>_. ''7'') (2, 0) sample_turn] store_new)))"
    using append_turn_input_new [of "''turn-1''" store_new sample_coordinates]
    by (simp add: c lease new sample_turn_def)
  then show "append_turn_input (\<lambda>_. ''7'') 0 (1, 0) (2, 0) sample_coordinates ''turn-1''
      (MessageEntry (user_text_at ''hello'' 0)) store_new = (Inr sample_turn, sample_session)"
    and "sample_session = set_active_leaf (ThreadId 7) (SessionEntryId 1)
      (insert_entry (ThreadId 7) sample_turn (with_events (EventStreamId ''thread:7'') 0
        [session_entry_event (\<lambda>_. ''7'') (2, 0) sample_turn] store_new))"
    by (simp_all add: sample_session_def)
qed

lemma new_fresh: "fresh_entry_id store_new u"
  by (simp add: fresh_entry_id_def store_new_def)

lemma new_reachable: "reachable sh store_new"
  by (simp add: reachable_def later_refl)

lemma sample_session_reachable: "reachable (\<lambda>_. ''7'') sample_session"
  by (rule reachable_call_new [OF call_append_turn_input [OF sample_session_eq(1) new_fresh]])

theorem turn_input_exactly_once_witness:
  "append_turn_input (\<lambda>_. ''7'') 0 (8, 0) (9, 0) sample_coordinates ''turn-1''
     (MessageEntry (user_text_at ''hello'' 0)) sample_session = (Inr sample_turn, sample_session)"
  using turn_input_exactly_once [OF new_reachable new_fresh sample_session_eq(1) later_refl] by blast

subsection \<open>Sessions\<close>

text \<open>
  C10. Assembling a context always terminates and never meets a cycle of bases.  In every reachable
  state, the loop over parent links and the recursion over base threads of \<open>build_context\<close> both
  end for any coordinates; the answer is never \<open>ThreadBaseCycle\<close>; and \<open>select_branch\<close>, \<open>clone_branch\<close>
  and \<open>fork_by_reference\<close>, which walk the same structures, end as well.
\<close>

theorem context_assembly_terminates:
  assumes "reachable show_uuid s"
  shows "(\<exists>r. build_context show_uuid c s = Some r \<and> (\<forall>a b. r \<noteq> Inl (ThreadBaseCycle a b))) \<and>
    (\<exists>r. select_branch show_uuid ep vst c leaf s = Some r) \<and>
    (\<exists>r. clone_branch show_uuid ep sts vsts src leaf tgt s = Some r) \<and>
    (\<exists>r. fork_by_reference show_uuid src tgt base s = Some r)"
proof (intro conjI)
  have ok: "session_ok s" using reachable_ok [OF assms] by simp
  then have forest: "forest_ok s" by (simp add: session_ok_def)
  show "\<exists>r. build_context show_uuid c s = Some r \<and> (\<forall>a b. r \<noteq> Inl (ThreadBaseCycle a b))"
    using build_context_total [OF ok] build_context_errors [OF ok] by (metis option.exhaust)
  show "\<exists>r. select_branch show_uuid ep vst c leaf s = Some r"
    using ok by (rule select_branch_cases [of s show_uuid ep vst c leaf]) auto
  show "\<exists>r. clone_branch show_uuid ep sts vsts src leaf tgt s = Some r"
    using ok by (rule clone_branch_cases [of s leaf show_uuid ep sts vsts src tgt]) auto
  show "\<exists>r. fork_by_reference show_uuid src tgt base s = Some r"
    using forest by (rule fork_cases [of s show_uuid src tgt base]) auto
qed

theorem context_assembly_terminates_witness:
  "\<exists>r. build_context (\<lambda>_. ''7'') sample_coordinates sample_session = Some r"
  using context_assembly_terminates [OF sample_session_reachable] by blast

text \<open>
  The active leaf is always a leaf of the tree.  In every reachable state the cached active leaf
  of a thread names a stored entry of that thread whose chain of parents ends at a root, so
  \<open>active_leaf\<close> never answers \<open>EntryNotFound\<close>, and when it answers with a leaf, that leaf's branch
  begins at a root, ends at the leaf, and links each entry to the one before it.
\<close>

theorem active_leaf_is_stored:
  assumes "reachable show_uuid s"
  shows "(\<forall>l. active_leaf c s \<noteq> Inl (EntryNotFound l)) \<and>
    (\<forall>l. active_leaf c s = Inr (Some l) \<longrightarrow>
      (\<exists>path e. ancestry (entries_of s (tc_thread_id c)) (Some l) (path @ [e]) \<and>
         en_entry_id e = l \<and> en_coordinates e = c))"
proof -
  have ok: "session_ok s" using reachable_ok [OF assms] by simp
  have stored: "hm_get (entries_of s (tc_thread_id c)) l \<noteq> None"
      if "hm_get (si_active_leaf s) (tc_thread_id c) = Some l" for l
    using that ok unfolding session_ok_def leaves_ok_def by blast
  have entries: "entries_ok (entries_of s (tc_thread_id c))"
    using ok by (simp add: session_ok_def forest_entries_ok)
  have "active_leaf c s \<noteq> Inl (EntryNotFound l)" for l
    using stored by (auto simp: active_leaf_def and_then_eq_Inl validate_entry_coordinates_def
        split: option.splits if_splits)
  moreover have "\<exists>path e. ancestry (entries_of s (tc_thread_id c)) (Some l) (path @ [e]) \<and>
      en_entry_id e = l \<and> en_coordinates e = c" if "active_leaf c s = Inr (Some l)" for l
  proof -
    from that obtain e where
        e: "hm_get (entries_of s (tc_thread_id c)) l = Some e" "en_coordinates e = c"
      by (auto simp: active_leaf_def and_then_unit split: option.splits)
    with ancestry_exists [OF entries, of l] obtain es
      where "ancestry (entries_of s (tc_thread_id c)) (Some l) es" by auto
    then obtain path where "ancestry (entries_of s (tc_thread_id c)) (Some l) (path @ [e])"
      using e(1) by (metis ancestry_SomeE option.inject)
    moreover have "en_entry_id e = l" using e(1) entries unfolding entries_ok_def by blast
    ultimately show ?thesis using e(2) by blast
  qed
  ultimately show ?thesis by blast
qed

lemma sample_session_facts:
  "hm_get (si_active_leaf sample_session) (ThreadId 7) = Some (SessionEntryId 1)"
  "entries_of sample_session (ThreadId 7) = [(SessionEntryId 1, sample_turn)]"
  "entries_of sample_session (ThreadId 8) = []"
  "si_bases sample_session = []"
  "en_entry_id sample_turn = SessionEntryId 1" "en_coordinates sample_turn = sample_coordinates"
  "en_parent_entry_id sample_turn = None" "tc_thread_id sample_coordinates = ThreadId 7"
proof -
  show turn: "en_entry_id sample_turn = SessionEntryId 1" "en_coordinates sample_turn = sample_coordinates"
      "en_parent_entry_id sample_turn = None"
    by (simp_all add: sample_turn_def entry_for_turn_def entry_new_def)
  show "hm_get (si_active_leaf sample_session) (ThreadId 7) = Some (SessionEntryId 1)"
      "entries_of sample_session (ThreadId 7) = [(SessionEntryId 1, sample_turn)]"
      "entries_of sample_session (ThreadId 8) = []" "si_bases sample_session = []"
    by (simp_all add: sample_session_eq(2) turn hm_insert_def hm_get_def store_new_def)
  show "tc_thread_id sample_coordinates = ThreadId 7" by (simp add: sample_coordinates_def)
qed

theorem active_leaf_is_stored_witness:
  "\<exists>path e. ancestry (entries_of sample_session (ThreadId 7)) (Some (SessionEntryId 1)) (path @ [e])"
proof -
  have "active_leaf sample_coordinates sample_session = Inr (Some (SessionEntryId 1))"
    by (simp add: active_leaf_def sample_session_facts validate_entry_coordinates_def
        hm_get_def [of "[_]"])
  with active_leaf_is_stored [OF sample_session_reachable, of sample_coordinates] show ?thesis
    unfolding sample_session_facts(8) by blast
qed

text \<open>
  Selecting a branch is witnessed.  When \<open>select_branch\<close> succeeds, the branch it selects exists
  and belongs to the coordinates, the thread's active leaf is what was asked for, the thread's
  stream has gained exactly one event, a \<open>thread.branch.selected\<close> record naming the new leaf and the
  one it replaces, and nothing else changed: no entry, no base, no other thread's leaf, no other
  stream.
\<close>

theorem select_branch_is_witnessed:
  assumes "reachable show_uuid s"
    and "select_branch show_uuid ep vst c leaf s = Some (Inr u, s')"
  shows "(\<forall>l. leaf = Some l \<longrightarrow> (\<exists>es. stored_branch_path s c l = Some (Inr es))) \<and>
    hm_get (si_active_leaf s') (tc_thread_id c) = leaf \<and>
    (\<forall>t. t \<noteq> tc_thread_id c \<longrightarrow> hm_get (si_active_leaf s') t = hm_get (si_active_leaf s) t) \<and>
    si_entries s' = si_entries s \<and> si_bases s' = si_bases s \<and>
    (\<exists>e. stream_events s' (stream_for_thread show_uuid c) =
           stream_events s (stream_for_thread show_uuid c) @ [e] \<and>
       ev_kind e = ThreadBranchSelected \<and> ev_origin e = Witnessed \<and>
       ev_payload e = json_of_thread_branch_selected show_uuid
         \<lparr>bs_thread_id = tc_thread_id c, bs_selected_entry_id = leaf,
          bs_prior_entry_id = hm_get (si_active_leaf s) (tc_thread_id c)\<rparr>) \<and>
    (\<forall>i. i \<noteq> stream_for_thread show_uuid c \<longrightarrow> stream_events s' i = stream_events s i)"
proof -
  have "session_ok s" using reachable_ok [OF assms(1)] by simp
  then show ?thesis
  proof (cases rule: select_branch_cases [of s show_uuid ep vst c leaf])
    case selected
    note path = selected(3)
    show ?thesis
    proof (cases rule: record_selection_cases [of show_uuid ep vst c leaf s])
      case (ok ev)
      with assms(2) selected(1) have s': "s' = (case leaf of
           Some l \<Rightarrow> set_active_leaf (tc_thread_id c) l
             (with_events (stream_for_thread show_uuid c) ep [ev] s)
         | None \<Rightarrow> clear_active_leaf (tc_thread_id c)
             (with_events (stream_for_thread show_uuid c) ep [ev] s))" by simp
      have state: "si_entries s' = si_entries s" "si_bases s' = si_bases s"
          "\<And>t. hm_get (si_active_leaf s') t =
             (if t = tc_thread_id c then leaf else hm_get (si_active_leaf s) t)"
          "\<And>i. stream_events s' i = stream_events (with_events (stream_for_thread show_uuid c) ep [ev] s) i"
        unfolding s' by (auto split: option.splits)
      show ?thesis
        unfolding state stream_events_with stored_branch_path_eq
        using path ok(3) by (simp add: numbered_def event_from_new_def event_witnessed_def)
    next
      case (err x)
      with assms(2) selected(1) show ?thesis by simp
    qed
  next
    case (err x)
    with assms(2) show ?thesis by simp
  qed
qed

lemma sample_session_ids: "si_event_ids sample_session = {EventRecordId 2}"
  by (simp add: sample_session_eq(2) session_entry_event_def store_new_def)

lemma sample_session_lease: "check_in_memory_lease_epoch sample_session i 0 = Inr ()"
  by (simp add: sample_session_eq(2) check_lease_ok lease_minimum_def with_events_def
      raise_in_memory_lease_epoch_def store_new_def insert_entry_def set_active_leaf_def)

theorem select_branch_is_witnessed_witness:
  "\<exists>s'. select_branch (\<lambda>_. ''7'') 0 (3, 0) sample_coordinates None sample_session = Some (Inr (), s') \<and>
     hm_get (si_active_leaf s') (ThreadId 7) = None"
proof -
  define ev where "ev = event_witnessed (3, 0) sample_coordinates ThreadBranchSelected
    (json_of_thread_branch_selected (\<lambda>_. ''7'') \<lparr>bs_thread_id = ThreadId 7,
       bs_selected_entry_id = None, bs_prior_entry_id = Some (SessionEntryId 1)\<rparr>)"
  let ?i = "stream_for_thread (\<lambda>_. ''7'') sample_coordinates"
  have "admissible_batch sample_session [ev]"
    by (simp add: admissible_batch_def storable_def sample_session_ids ev_def event_witnessed_def
        validate_new_event_def json_of_thread_branch_selected_def)
  then have "append_in_memory_events (\<lambda>_. ''7'') ?i [ev] 0 sample_session =
      (Inr (numbered ?i (int (length (stream_events sample_session ?i))) [ev]),
       with_events ?i 0 [ev] sample_session)" by (simp add: append_in_memory_ok)
  then have "select_branch (\<lambda>_. ''7'') 0 (3, 0) sample_coordinates None sample_session =
      Some (Inr (), clear_active_leaf (ThreadId 7) (with_events ?i 0 [ev] sample_session))"
    by (simp add: select_branch_def record_selection_def sample_session_lease sample_session_facts
        ev_def Let_def)
  with select_branch_is_witnessed [OF sample_session_reachable this] show ?thesis
    unfolding sample_session_facts(8) by blast
qed

text \<open>
  A clone is a faithful, independent copy.  When \<open>clone_branch\<close> copies a branch, the target's new
  leaf heads a branch of the target that holds the same entry kinds in the same order under the
  target's coordinates, it is the target's active leaf, the target no longer inherits from a base,
  its stream has gained one \<open>session.entry.appended\<close> event per copied entry, and the source branch
  reads as before.
\<close>

theorem clone_branch_copies:
  assumes "reachable show_uuid s"
    and "clone_branch show_uuid ep sts vsts src (Some leaf) tgt s = Some (Inr l, s')"
    and "fresh_clone s sts src (Some leaf)"
  shows "\<exists>path copy l'. l = Some l' \<and> stored_branch_path s src leaf = Some (Inr path) \<and>
    stored_branch_path s' tgt l' = Some (Inr copy) \<and> map en_kind copy = map en_kind path \<and>
    stored_branch_path s' src leaf = Some (Inr path) \<and>
    hm_get (si_active_leaf s') (tc_thread_id tgt) = Some l' \<and>
    hm_get (si_bases s') (tc_thread_id tgt) = None \<and>
    (\<exists>es. stream_events s' (stream_for_thread show_uuid tgt) =
            stream_events s (stream_for_thread show_uuid tgt) @ es \<and>
          map ev_kind es = replicate (length path) SessionEntryAppended)"
proof -
  have ok: "session_ok s" using reachable_ok [OF assms(1)] by simp
  have "keeps_entries s s'" by (rule clone_branch_keeps [OF ok assms(2,3)])
  then have keep: "stored_branch_path s' src leaf = Some (Inr path)"
      if "stored_branch_path s src leaf = Some (Inr path)" for path
    using that ok branch_path_extends [of "entries_of s (tc_thread_id src)" leaf src path
        "entries_of s' (tc_thread_id src)"]
    by (simp add: stored_branch_path_eq session_ok_def forest_entries_ok keeps_entries_def)
  have ok': "session_ok s'" by (rule session_ok_clone [OF ok assms(3,2)])
  from ok show ?thesis
  proof (cases rule: clone_branch_cases [of s "Some leaf" show_uuid ep sts vsts src tgt])
    case (copy leaf' path)
    let ?copy = "clone_entries sts 0 tgt None path" and ?t = "tc_thread_id tgt"
    from copy(1,2) have src: "stored_branch_path s src leaf = Some (Inr path)"
      by (simp add: stored_branch_path_eq)
    have fresh: "fresh_stamps (entries_of s ?t) sts 0 (length path)"
      using assms(3) copy(1,2) by (simp add: fresh_clone_stamps)
    have "?copy \<noteq> []" using copy(3) by simp
    then show ?thesis
    proof (cases rule: commit_clone_cases [of ?copy show_uuid ep vsts tgt s])
      case (ok evs)
      with assms(2) copy(4) have l: "l = Some (en_entry_id (last ?copy))"
        and s': "s' = set_active_leaf ?t (en_entry_id (last ?copy)) (fold (insert_entry ?t) ?copy
          (remove_base ?t (with_events (stream_for_thread show_uuid tgt) ep evs s)))" by simp_all
      have "ancestry (entries_of s' ?t) (Some (en_entry_id (last ?copy))) ([] @ ?copy)"
        using clone_ancestry [OF fresh ancestry.root, of tgt] copy(3) by (simp add: s')
      moreover have "entries_ok (entries_of s' ?t)"
        using ok' by (simp add: session_ok_def forest_entries_ok)
      ultimately have "stored_branch_path s' tgt (en_entry_id (last ?copy)) = Some (Inr ?copy)"
        using clone_entries_coordinates [of _ sts 0 tgt None path]
        by (simp add: stored_branch_path_eq branch_path_ok_iff)
      moreover have "length evs = length path" "\<forall>e \<in> set evs. ne_kind e = SessionEntryAppended"
        using ok(3) by (auto simp: session_entry_event_def)
      then have "map ev_kind (numbered (stream_for_thread show_uuid tgt) n evs) =
          replicate (length path) SessionEntryAppended" for n
        unfolding map_numbered by (metis map_replicate_const map_cong length_map)
      ultimately show ?thesis
        using l src keep [OF src] clone_entries_kinds [of sts 0 tgt None path]
        by (intro exI [of _ path] exI [of _ ?copy] exI conjI) (auto simp: s')
    next
      case (err x)
      with assms(2) copy(4) show ?thesis by simp
    qed
  qed (use assms(2) in simp_all)
qed

definition sample_child :: thread_coordinates where
  "sample_child = sample_coordinates\<lparr>tc_thread_id := ThreadId 8\<rparr>"

lemma sample_branch:
  "branch_path [(SessionEntryId 1, sample_turn)] (SessionEntryId 1) sample_coordinates =
     Some (Inr [sample_turn])"
  by (simp add: branch_path_def branch_path_loop.simps [of _ _ "Some _"] branch_path_loop.simps [of _ _ None]
      branch_entry_def hm_get_def validate_entry_coordinates_def sample_session_facts)

theorem clone_branch_copies_witness:
  "\<exists>l s' copy. clone_branch (\<lambda>_. ''7'') 0 (\<lambda>k. (5, 0)) (\<lambda>k. (6, 0)) sample_coordinates
       (Some (SessionEntryId 1)) sample_child sample_session = Some (Inr (Some l), s') \<and>
     stored_branch_path s' sample_child l = Some (Inr copy) \<and>
     map en_kind copy = [en_kind sample_turn]"
proof -
  let ?i = "stream_for_thread (\<lambda>_. ''7'') sample_child"
  let ?e = "entry_new (5, 0) sample_child None (en_kind sample_turn)"
  let ?ev = "session_entry_event (\<lambda>_. ''7'') (6, 0) ?e"
  have path: "stored_branch_path sample_session sample_coordinates (SessionEntryId 1) =
      Some (Inr [sample_turn])"
    by (simp add: stored_branch_path_eq sample_session_facts sample_branch)
  have fresh: "fresh_clone sample_session (\<lambda>k. (5, 0)) sample_coordinates (Some (SessionEntryId 1))"
    using path by (auto simp: fresh_clone_def fresh_entry_id_def sample_session_eq(2) store_new_def
        hm_get_def sample_session_facts(5) hm_insert_def inj_on_def)
  have "admissible_batch sample_session [?ev]"
    by (simp add: admissible_batch_def storable_def sample_session_ids session_entry_event_def
        validate_new_event_def sample_turn_def entry_for_turn_def entry_new_def user_text_at_def
        session_entry_event_with_optional_provenance_def event_witnessed_def)
  then have "append_in_memory_events (\<lambda>_. ''7'') ?i [?ev] 0 sample_session =
      (Inr (numbered ?i (int (length (stream_events sample_session ?i))) [?ev]),
       with_events ?i 0 [?ev] sample_session)" by (simp add: append_in_memory_ok)
  then obtain s' where "clone_branch (\<lambda>_. ''7'') 0 (\<lambda>k. (5, 0)) (\<lambda>k. (6, 0)) sample_coordinates
      (Some (SessionEntryId 1)) sample_child sample_session = Some (Inr (Some (SessionEntryId 5)), s')"
    by (simp add: clone_branch_def path commit_clone_def sample_session_lease Let_def)
  with clone_branch_copies [OF sample_session_reachable this fresh] path show ?thesis by fastforce
qed

text \<open>
  Forks never close a cycle.  A fork by reference whose target is the source itself or one of
  the threads the source inherits from is refused and changes nothing.  A fork that succeeds
  records exactly the given base for the target, leaves the target without entries of its own
  selected, touches no entry, no stream and no other thread, and from the source no chain of bases
  leads back to the target.
\<close>

theorem fork_is_acyclic:
  assumes "reachable show_uuid s"
  shows "((tc_thread_id src, tc_thread_id tgt) \<in> (base_edges s)\<^sup>* \<longrightarrow>
      (\<exists>e. fork_by_reference show_uuid src tgt base s = Some (Inl e, s))) \<and>
    (fork_by_reference show_uuid src tgt base s = Some (Inr u, s') \<longrightarrow>
      hm_get (si_bases s') (tc_thread_id tgt) = Some base \<and>
      tb_parent_thread_id base = tc_thread_id src \<and>
      hm_get (si_active_leaf s') (tc_thread_id tgt) = None \<and>
      si_entries s' = si_entries s \<and> si_events s' = si_events s \<and>
      (\<forall>t. t \<noteq> tc_thread_id tgt \<longrightarrow> hm_get (si_bases s') t = hm_get (si_bases s) t \<and>
         hm_get (si_active_leaf s') t = hm_get (si_active_leaf s) t) \<and>
      (tc_thread_id src, tc_thread_id tgt) \<notin> (base_edges s')\<^sup>*)"
proof -
  have ok: "session_ok s" using reachable_ok [OF assms] by simp
  then have forest: "forest_ok s" by (simp add: session_ok_def)
  show ?thesis
    using forest
  proof (cases rule: fork_cases [of s show_uuid src tgt base])
    case ok
    let ?t = "tc_thread_id tgt" and ?p = "tc_thread_id src"
    have edges: "(?p, ?t) \<notin> (base_edges s)\<^sup>*" using ok(3) by (rule validate_base_cycle_ok)
    moreover have "tb_parent_thread_id base = ?p" using ok(2)
      by (simp add: validate_thread_base_ref_def split: if_splits)
    moreover have "(?p, ?t) \<notin> (base_edges s')\<^sup>*" if "fork_by_reference show_uuid src tgt base s = Some (Inr u, s')"
    proof -
      have "session_ok s'" by (rule session_ok_fork [OF \<open>session_ok s\<close> that])
      then have acyclic: "acyclic (base_edges s')" by (simp add: session_ok_def bases_ok_def)
      have "(?t, ?p) \<in> base_edges s'"
        using that ok(1) \<open>tb_parent_thread_id base = ?p\<close> by (auto simp: base_edges_def)
      with acyclic show ?thesis by (metis acyclic_def rtrancl_into_trancl1)
    qed
    ultimately show ?thesis using ok(1) by auto
  next
    case (err x)
    then show ?thesis by auto
  qed
qed

theorem fork_is_acyclic_witness:
  "\<forall>base. \<exists>e. fork_by_reference (\<lambda>_. ''7'') sample_coordinates sample_coordinates base
     sample_session = Some (Inl e, sample_session)"
  using fork_is_acyclic [OF sample_session_reachable, of sample_coordinates sample_coordinates]
  by blast

text \<open>
  A thread that inherits: thread 8 is forked from thread 7 at the turn of \<^const>\<open>sample_session\<close>,
  and thread 7 goes on with a second turn.
\<close>

definition sample_base :: thread_base_ref where
  "sample_base = \<lparr>tb_child_thread_id = ThreadId 8, tb_parent_thread_id = ThreadId 7,
     tb_parent_checkpoint_id = None, tb_parent_leaf_entry_id = Some (SessionEntryId 1),
     tb_parent_stream_id = EventStreamId ''thread:7'', tb_parent_stream_to_sequence = None,
     tb_parent_binding_snapshot_id = None, tb_reason = Manual, tb_created_at_ms = 0\<rparr>"

definition sample_fork :: store_inner where
  "sample_fork = (clear_active_leaf (ThreadId 8) sample_session)\<lparr>si_bases := [(ThreadId 8, sample_base)]\<rparr>"

definition sample_second_turn :: session_entry where
  "sample_second_turn = entry_for_turn (3, 0) sample_coordinates (Some (SessionEntryId 1)) ''turn-2''
     (MessageEntry (user_text_at ''more'' 0))"

definition sample_fork_later :: store_inner where
  "sample_fork_later = set_active_leaf (ThreadId 7) (SessionEntryId 3)
     (insert_entry (ThreadId 7) sample_second_turn
       (with_events (EventStreamId ''thread:7'') 0
          [session_entry_event (\<lambda>_. ''7'') (4, 0) sample_second_turn] sample_fork))"

lemma sample_session_entries:
  "hm_get (si_entries sample_session) (ThreadId 7) = Some [(SessionEntryId 1, sample_turn)]"
  by (simp add: sample_session_eq(2) insert_entry_def sample_session_facts(5) store_new_def
      with_events_def raise_in_memory_lease_epoch_def set_active_leaf_def hm_insert_def hm_get_def)

lemma sample_context:
  "build_context (\<lambda>_. ''7'') sample_coordinates sample_session =
     Some (Inr (finish_context ([sample_turn], [\<lparr>cc_coordinates = sample_coordinates,
       cc_stream_id = stream_for_thread (\<lambda>_. ''7'') sample_coordinates, cc_inherited = False,
       cc_entry_ids = [SessionEntryId 1]\<rparr>])))"
  by (simp add: build_context_def build_in_memory_context.simps add_local_path_def local_leaf_of_def
      sample_session_facts sample_session_entries sample_branch)

lemma sample_fork_facts:
  "hm_get (si_active_leaf sample_fork) (ThreadId 7) = Some (SessionEntryId 1)"
  "hm_get (si_active_leaf sample_fork) (ThreadId 8) = None"
  "si_entries sample_fork = si_entries sample_session" "si_event_ids sample_fork = {EventRecordId 2}"
  "si_bases sample_fork = [(ThreadId 8, sample_base)]"
  "check_in_memory_lease_epoch sample_fork i 0 = Inr ()"
  using sample_session_lease [of i]
  by (simp_all add: sample_fork_def clear_active_leaf_def sample_session_facts sample_session_ids
      check_in_memory_lease_epoch_def)

lemma sample_fork_call:
  "fork_by_reference (\<lambda>_. ''7'') sample_coordinates sample_child sample_base sample_session =
     Some (Inr (), sample_fork)"
proof -
  have "build_in_memory_context (\<lambda>_. ''7'') sample_session sample_coordinates (Some (SessionEntryId 1))
      False {} = build_context (\<lambda>_. ''7'') sample_coordinates sample_session"
    by (simp add: build_context_def build_in_memory_context.simps add_local_path_def
        local_leaf_of_def sample_session_facts)
  moreover have "validate_thread_base_ref (\<lambda>_. ''7'') sample_coordinates sample_child sample_base = Inr ()"
    by (simp add: validate_thread_base_ref_ok sample_base_def sample_child_def sample_coordinates_def
        scope_def stream_for_thread_def)
  moreover have "validate_in_memory_base_cycle sample_session (tc_thread_id sample_child)
      (tc_thread_id sample_coordinates) = Inr ()"
    by (simp add: validate_in_memory_base_cycle_def base_cycle_loop.simps sample_session_facts
        sample_child_def)
  ultimately show ?thesis
    by (simp add: fork_by_reference_def sample_context sample_base_def sample_fork_def sample_child_def
        sample_session_facts hm_insert_def)
qed

lemma sample_fork_reachable: "reachable (\<lambda>_. ''7'') sample_fork"
  by (rule call_reachable [OF sample_session_reachable call_fork_by_reference [OF sample_fork_call]])

lemma sample_second_turn_call:
  "append_turn_input (\<lambda>_. ''7'') 0 (3, 0) (4, 0) sample_coordinates ''turn-2''
     (MessageEntry (user_text_at ''more'' 0)) sample_fork = (Inr sample_second_turn, sample_fork_later)"
proof -
  have "admissible_batch sample_fork [session_entry_event (\<lambda>_. ''7'') (4, 0) sample_second_turn]"
    by (simp add: admissible_batch_def storable_def sample_fork_facts session_entry_event_def
        validate_new_event_def sample_second_turn_def entry_for_turn_def entry_new_def user_text_at_def
        session_entry_event_with_optional_provenance_def event_witnessed_def)
  from commit_entry_ok [OF this, of "\<lambda>_. ''7''" 0 sample_coordinates sample_second_turn]
  have commit: "commit_entry (\<lambda>_. ''7'') 0 sample_coordinates sample_second_turn
      (session_entry_event (\<lambda>_. ''7'') (4, 0) sample_second_turn) sample_fork =
      (Inr sample_second_turn, sample_fork_later)"
    by (simp add: sample_fork_later_def sample_second_turn_def entry_for_turn_def entry_new_def
        sample_session_facts stream_for_thread_def)
  have "find (\<lambda>e. en_turn_id e = Some ''turn-2'') (map snd (entries_of sample_fork (ThreadId 7))) = None"
    using sample_session_facts(2)
    by (simp add: sample_fork_facts sample_turn_def entry_for_turn_def)
  with commit show ?thesis
    by (subst append_turn_input_new)
      (simp_all add: sample_session_facts sample_fork_facts sample_second_turn_def [symmetric])
qed

lemma sample_fork_later_facts:
  "si_bases sample_fork_later = si_bases sample_fork"
  "hm_get (si_active_leaf sample_fork_later) (ThreadId 8) = None"
  "hm_get (si_active_leaf sample_fork_later) (ThreadId 7) = Some (SessionEntryId 3)"
  by (simp_all add: sample_fork_later_def sample_fork_facts)

text \<open>
  C12. A thread's context is a function of its pinned past.  As long as every base names the parent's
  leaf, the bases stay, and the thread's own leaf stays, its context is the same after any later
  calls: appends, turns, branch selections and clones on the parent, or on any other thread, never
  change what a fork inherited.
\<close>

theorem inherited_context_is_stable:
  assumes "reachable show_uuid s" and "pinned_bases s" and "later show_uuid s s'"
    and "si_bases s' = si_bases s"
    and "hm_get (si_active_leaf s') (tc_thread_id c) = hm_get (si_active_leaf s) (tc_thread_id c)"
    and "build_context show_uuid c s = Some (Inr ctx)"
  shows "build_context show_uuid c s' = Some (Inr ctx)"
proof -
  have "forest_ok s" using reachable_ok [OF assms(1)] by (simp add: session_ok_def)
  moreover have "keeps_view (tc_thread_id c) s s'"
    using later_keeps_entries [OF assms(1,3)] assms(4,5) by (simp add: keeps_view_def keeps_entries_def)
  ultimately show ?thesis
    using assms(2,6) build_stable unfolding build_context_def by blast
qed

theorem inherited_context_is_stable_witness:
  "\<exists>ctx. build_context (\<lambda>_. ''7'') sample_child sample_fork = Some (Inr ctx) \<and>
     cx_entries ctx = [sample_turn] \<and> map cc_inherited (cx_source_cuts ctx) = [True] \<and>
     append_turn_input (\<lambda>_. ''7'') 0 (3, 0) (4, 0) sample_coordinates ''turn-2''
       (MessageEntry (user_text_at ''more'' 0)) sample_fork =
         (Inr sample_second_turn, sample_fork_later) \<and>
     hm_get (si_active_leaf sample_fork_later) (ThreadId 7) \<noteq>
       hm_get (si_active_leaf sample_fork) (ThreadId 7) \<and>
     build_context (\<lambda>_. ''7'') sample_child sample_fork_later = Some (Inr ctx)"
proof -
  let ?cut = "\<lparr>cc_coordinates = sample_coordinates,
       cc_stream_id = stream_for_thread (\<lambda>_. ''7'') sample_coordinates, cc_inherited = True,
       cc_entry_ids = [SessionEntryId 1]\<rparr>"
  have c: "coordinates_with_thread_id sample_child (ThreadId 7) = sample_coordinates"
      "tc_thread_id sample_child = ThreadId 8"
    by (simp_all add: coordinates_with_thread_id_def sample_child_def sample_coordinates_def)
  have fin: "finish_context ([sample_turn], [?cut]) = \<lparr>cx_entries = [sample_turn],
      cx_messages = append_model_visible_messages [sample_turn] [], cx_source_cuts = [?cut]\<rparr>"
    by (simp add: finish_context_def strip_thread_start_identity_entries_def sample_turn_def
        session_entry_is_thread_start_identity_def entry_for_turn_def entry_new_def)
  have "build_in_memory_context (\<lambda>_. ''7'') sample_fork sample_coordinates (Some (SessionEntryId 1))
      True {ThreadId 8} = Some (Inr (finish_context ([sample_turn], [?cut])))"
    by (subst build_in_memory_context.simps)
      (simp add: add_local_path_def local_leaf_of_def sample_session_facts
        sample_fork_facts sample_session_entries sample_branch hm_get_def [of "[_]"])
  then have ctx: "build_context (\<lambda>_. ''7'') sample_child sample_fork =
      Some (Inr (finish_context ([sample_turn], [?cut])))"
    by (simp add: build_context_def build_in_memory_context.simps [of _ _ sample_child]
        add_local_path_def local_leaf_of_def sample_fork_facts c fin sample_base_def hm_get_def [of "[_]"])
  have "fresh_entry_id sample_fork (fst (3, 0))"
    by (auto simp: fresh_entry_id_def sample_fork_facts sample_session_eq(2) store_new_def hm_get_def
        sample_session_facts(5) hm_insert_def)
  note call = call_append_turn_input [OF sample_second_turn_call this]
  have "pinned_bases sample_fork"
    by (simp add: pinned_bases_def sample_fork_facts sample_base_def hm_get_def)
  from inherited_context_is_stable [OF sample_fork_reachable this call_later [OF call] _ _ ctx]
  have "build_context (\<lambda>_. ''7'') sample_child sample_fork_later =
      Some (Inr (finish_context ([sample_turn], [?cut])))"
    by (simp add: sample_fork_later_facts sample_fork_facts c)
  with ctx fin sample_second_turn_call show ?thesis
    by (simp add: sample_fork_later_facts sample_fork_facts)
qed

end
