(* ===== verification/Uuid_Format.thy ===== *)
theory Uuid_Format
  imports Event_Vocabulary
begin

section \<open>The textual form of identifiers\<close>

text \<open>
  Identifiers are UUIDs of the \<open>uuid\<close> crate, whose printing and parsing are parameters of the
  development (locale \<open>uuid_codec\<close>).  This theory interprets the locale on the crate's documented
  default format, 32 lower-case hexadecimal digits in groups of 8, 4, 4, 4 and 12 joined by
  hyphens, and states what the stream naming of the store needs from it.
\<close>

definition hex_digits :: string where
  "hex_digits = ''0123456789abcdef''"

fun hex_of_nat :: "nat \<Rightarrow> nat \<Rightarrow> string" where
  "hex_of_nat 0 n = []"
| "hex_of_nat (Suc k) n = hex_of_nat k (n div 16) @ [hex_digits ! (n mod 16)]"

definition hex_value :: "char \<Rightarrow> nat option" where
  "hex_value c = find (\<lambda>n. hex_digits ! n = c) [0..<16]"

fun nat_of_hex :: "nat \<Rightarrow> string \<Rightarrow> nat option" where
  "nat_of_hex acc [] = Some acc"
| "nat_of_hex acc (c # cs) =
     (case hex_value c of None \<Rightarrow> None | Some d \<Rightarrow> nat_of_hex (16 * acc + d) cs)"

definition hyphenate :: "string \<Rightarrow> string" where
  "hyphenate ds = take 8 ds @ ''-'' @ take 4 (drop 8 ds) @ ''-'' @ take 4 (drop 12 ds) @ ''-'' @
     take 4 (drop 16 ds) @ ''-'' @ drop 20 ds"

definition unhyphenate :: "string \<Rightarrow> string option" where
  "unhyphenate s =
     (if length s = 36 \<and> (\<forall>i \<in> {8, 13, 18, 23}. s ! i = CHR ''-'')
      then Some (take 8 s @ take 4 (drop 9 s) @ take 4 (drop 14 s) @ take 4 (drop 19 s) @ drop 24 s)
      else None)"

definition show_hyphenated :: "uuid \<Rightarrow> string" where
  "show_hyphenated u = hyphenate (hex_of_nat 32 (unat u))"

definition parse_hyphenated :: "string \<Rightarrow> uuid option" where
  "parse_hyphenated s =
     (case unhyphenate s of None \<Rightarrow> None
      | Some ds \<Rightarrow> map_option word_of_nat (nat_of_hex 0 ds))"

lemma hex_value_digit: "n < 16 \<Longrightarrow> hex_value (hex_digits ! n) = Some n"
proof -
  have "\<forall>n \<in> set [0..<16]. hex_value (hex_digits ! n) = Some n"
    by code_simp
  then show "n < 16 \<Longrightarrow> ?thesis" by simp
qed

lemma length_hex_of_nat [simp]: "length (hex_of_nat k n) = k"
  by (induction k arbitrary: n) simp_all

lemma nat_of_hex_append:
  "nat_of_hex acc (xs @ ys) =
   (case nat_of_hex acc xs of None \<Rightarrow> None | Some n \<Rightarrow> nat_of_hex n ys)"
  by (induction acc xs rule: nat_of_hex.induct) (simp_all split: option.split)

lemma nat_of_hex_of_nat: "nat_of_hex acc (hex_of_nat k n) = Some (16 ^ k * acc + n mod 16 ^ k)"
proof (induction k arbitrary: n)
  case 0
  then show ?case by simp
next
  case (Suc k)
  have "n mod 16 ^ Suc k = 16 * (n div 16 mod 16 ^ k) + n mod 16"
    by (simp add: mod_mult2_eq)
  then show ?case
    by (simp add: Suc nat_of_hex_append hex_value_digit algebra_simps)
qed

lemma unhyphenate_hyphenate: "length ds = 32 \<Longrightarrow> unhyphenate (hyphenate ds) = Some ds"
proof -
  assume len: "length ds = 32"
  define a b c d e where "a = take 8 ds" and "b = take 4 (drop 8 ds)" and "c = take 4 (drop 12 ds)"
    and "d = take 4 (drop 16 ds)" and "e = drop 20 ds"
  have parts: "length a = 8" "length b = 4" "length c = 4" "length d = 4" "length e = 12"
    using len by (simp_all add: a_def b_def c_def d_def e_def)
  have ds: "ds = a @ b @ c @ d @ e"
  proof -
    have "drop 16 ds = d @ e" using append_take_drop_id [of 4 "drop 16 ds"] by (simp add: d_def e_def)
    moreover have "drop 12 ds = c @ drop 16 ds"
      using append_take_drop_id [of 4 "drop 12 ds"] by (simp add: c_def)
    moreover have "drop 8 ds = b @ drop 12 ds"
      using append_take_drop_id [of 4 "drop 8 ds"] by (simp add: b_def)
    ultimately show ?thesis using append_take_drop_id [of 8 ds] by (simp add: a_def)
  qed
  have "hyphenate ds = a @ ''-'' @ b @ ''-'' @ c @ ''-'' @ d @ ''-'' @ e"
    by (simp add: hyphenate_def a_def b_def c_def d_def e_def)
  then show ?thesis
    unfolding ds unhyphenate_def using parts by (simp add: nth_append)
qed

lemma parse_show_hyphenated: "parse_hyphenated (show_hyphenated u) = Some u"
proof -
  have "unat u < 2 ^ 128" using unsigned_less [where w = u and ?'a = nat] by simp
  then have "unat u mod 16 ^ 32 = unat u" by simp
  then show ?thesis
    by (simp add: parse_hyphenated_def show_hyphenated_def unhyphenate_hyphenate nat_of_hex_of_nat)
qed

interpretation hyphenated: uuid_codec show_hyphenated parse_hyphenated
  by unfold_locales (rule parse_show_hyphenated)

text \<open>
  Identifiers round-trip and streams are named apart.  For any UUID format whose parser reads
  back what its printer wrote, parsing a printed thread id returns that id, and two threads share
  an event stream exactly when they are the same thread.
\<close>

theorem thread_streams_are_distinct:
  assumes "\<And>u. parse_uuid_str (show_uuid u) = Some u"
  shows "thread_id_parse_str parse_uuid_str (show_thread_id show_uuid t) = Some t \<and>
    (stream_for_thread show_uuid c = stream_for_thread show_uuid c' \<longleftrightarrow>
       tc_thread_id c = tc_thread_id c')"
proof -
  have codec: "uuid_codec show_uuid parse_uuid_str" using assms by unfold_locales
  show ?thesis
    using assms uuid_codec.show_inj [OF codec]
    by (cases t; cases "tc_thread_id c"; cases "tc_thread_id c'")
      (simp add: thread_id_parse_str_def stream_for_thread_def)
qed

theorem thread_streams_are_distinct_witness:
  "thread_id_parse_str parse_hyphenated (show_thread_id show_hyphenated (ThreadId 7)) =
     Some (ThreadId 7)"
  using thread_streams_are_distinct [of parse_hyphenated show_hyphenated, OF parse_show_hyphenated]
  by blast

end
