(* ===== verification/Mandate_Lifecycle.thy ===== *)
theory Mandate_Lifecycle
  imports Control_Decision Store_Properties Uuid_Format "HOL-Library.Multiset"
begin

section \<open>Mandates\<close>

text \<open>
  \<^verbatim>\<open>src/crates/verlet-kernel/src/kernel/mandate_lifecycle.rs\<close>: starting, listing and revoking the
  mandates of a thread, as witnessed facts on its control stream.

  The operations run against the in-memory store.  An operation that reads the stream and appends
  afterwards awaits the store twice, so other tasks may run in between: the argument \<open>between\<close> is
  what they do to the store.  The schedule libraries (\<open>croner\<close>, \<open>chrono\<close>, \<open>chrono_tz\<close>) are the
  fields of a \<open>schedule_lib\<close>; instants are nanoseconds since the epoch.  Messages are not rendered:
  a \<open>mandate_error\<close> carries the data each message is made of.
\<close>

subsection \<open>Requests and receipts\<close>

type_synonym instant = int

record fixed_datetime =
  fd_instant :: instant
  fd_local_minus_utc :: int

record ('cron, 'tz) schedule_lib =
  cron_from_str :: "string \<Rightarrow> string + 'cron"
  tz_parse :: "string \<Rightarrow> string + 'tz"
  find_next_occurrence :: "'cron \<Rightarrow> 'tz \<Rightarrow> instant \<Rightarrow> string + instant"
  parse_from_rfc3339 :: "string \<Rightarrow> string + fixed_datetime"

datatype mandate_error =
    MalformedCron string
  | UnknownTimezone string string
  | CronNoOccurrence string
  | CronNoSecondOccurrence string
  | CronTooFrequent
  | IntervalTooShort
  | AtMalformed string
  | AtInPast
  | ExpiryMalformed string string
  | ExpiryNotUtc string
  | ExpiryPassed string
  | NotActive event_record_id thread_id
  | AppendedNothing
  | MandateHistory verlet_error

type_synonym 'a mandate_result = "mandate_error + 'a"

definition mandate_history :: "'a verlet_result \<Rightarrow> 'a mandate_result" where
  "mandate_history r = (case r of Inl e \<Rightarrow> Inl (MandateHistory e) | Inr a \<Rightarrow> Inr a)"

definition MIN_MANDATE_INTERVAL_MS :: u64 where
  "MIN_MANDATE_INTERVAL_MS = 60000"

definition SCHEDULE_SNAPSHOT_ID :: string where
  "SCHEDULE_SNAPSHOT_ID = ''schedule.v1''"

record mandate_start_request =
  sr_schedule :: mandate_schedule
  sr_max_occurrences :: "u32 option"
  sr_catch_up :: "mandate_catch_up_policy option"
  sr_input_template :: "string option"
  sr_snapshot_id :: "string option"
  sr_expires_at :: "string option"

record mandate_start_receipt =
  ms_event :: event_record
  ms_payload :: mandate_started_payload

record active_mandate =
  am_event :: event_record
  am_payload :: mandate_started_payload

datatype mandate_revoke_status = Revoked | AlreadyRevoked

record mandate_revoke_receipt =
  rr_status :: mandate_revoke_status
  rr_start_event :: event_record
  rr_revoke_event :: event_record
  rr_payload :: mandate_revoked_payload

subsection \<open>The payloads as JSON\<close>

definition json_of_mandate_subject :: "mandate_subject \<Rightarrow> json" where
  "json_of_mandate_subject s = jobj
     (opt_field ''thread_id'' JString (ms_thread_id s) @ opt_field ''loop_id'' JString (ms_loop_id s))"

fun json_of_mandate_schedule :: "mandate_schedule \<Rightarrow> json" where
  "json_of_mandate_schedule (Cron expr tz) = jobj (field ''cron''
     (jobj (field ''expr'' (JString expr) @ field ''tz'' (JString tz))))"
| "json_of_mandate_schedule (Interval every_ms) =
     jobj (field ''interval'' (jobj (field ''every_ms'' (json_of_u64 every_ms))))"
| "json_of_mandate_schedule (At when) =
     jobj (field ''at'' (jobj (field ''when'' (JString when))))"

fun catch_up_str :: "mandate_catch_up_policy \<Rightarrow> string" where
  "catch_up_str CoalesceMissed = ''coalesce_missed''"
| "catch_up_str SkipMissed = ''skip_missed''"

definition json_of_mandate_started :: "mandate_started_payload \<Rightarrow> json" where
  "json_of_mandate_started p = jobj
     (field ''subject'' (json_of_mandate_subject (mp_subject p)) @
      field ''mandate_id'' (JString (mp_mandate_id p)) @
      field ''snapshot_id'' (JString (mp_snapshot_id p)) @
      opt_field ''thread_id'' JString (mp_thread_id p) @
      opt_field ''max_continuations'' json_of_u32 (mp_max_continuations p) @
      opt_field ''expires_at_ms'' json_of_i64 (mp_expires_at_ms p) @
      opt_field ''schedule'' json_of_mandate_schedule (mp_schedule p) @
      opt_field ''max_occurrences'' json_of_u32 (mp_max_occurrences p) @
      opt_field ''catch_up'' (\<lambda>c. JString (catch_up_str c)) (mp_catch_up p) @
      opt_field ''input_template'' JString (mp_input_template p))"

definition json_of_mandate_revoked :: "mandate_revoked_payload \<Rightarrow> json" where
  "json_of_mandate_revoked p = jobj
     (field ''subject'' (json_of_mandate_subject (mr_subject p)) @
      field ''mandate_id'' (JString (mr_mandate_id p)) @
      opt_field ''mandate_event_id'' JString (mr_mandate_event_id p) @
      field ''snapshot_id'' (JString (mr_snapshot_id p)) @
      opt_field ''reason'' JString (mr_reason p))"

subsection \<open>Schedules\<close>

text \<open>\<open>TimeDelta::num_milliseconds\<close> and \<open>DateTime::timestamp_millis\<close>: the first truncates towards
  zero, the second rounds down.\<close>

definition num_milliseconds :: "int \<Rightarrow> i64" where
  "num_milliseconds d = (if d \<ge> 0 then d div 1000000 else - ((- d) div 1000000))"

definition timestamp_millis :: "instant \<Rightarrow> i64" where
  "timestamp_millis t = t div 1000000"

definition map_err :: "('e \<Rightarrow> 'f) \<Rightarrow> 'e + 'a \<Rightarrow> 'f + 'a" where
  "map_err f r = (case r of Inl e \<Rightarrow> Inl (f e) | Inr a \<Rightarrow> Inr a)"

definition cron_next ::
  "('cron, 'tz) schedule_lib \<Rightarrow> 'cron \<Rightarrow> 'tz \<Rightarrow> instant \<Rightarrow> instant mandate_result" where
  "cron_next lib cron timezone now =
     map_err CronNoOccurrence (find_next_occurrence lib cron timezone now)"

definition validate_schedule ::
  "('cron, 'tz) schedule_lib \<Rightarrow> mandate_schedule \<Rightarrow> mandate_catch_up_policy \<Rightarrow> instant \<Rightarrow>
   unit mandate_result" where
  "validate_schedule lib schedule catch_up now =
     (case schedule of
        Cron expr tz \<Rightarrow>
          and_then (map_err MalformedCron (cron_from_str lib expr)) (\<lambda>cron.
          and_then (map_err (UnknownTimezone tz) (tz_parse lib tz)) (\<lambda>timezone.
          and_then (cron_next lib cron timezone now) (\<lambda>first.
          and_then (map_err CronNoSecondOccurrence
              (find_next_occurrence lib cron timezone first)) (\<lambda>second.
          if num_milliseconds (second - first) < uint MIN_MANDATE_INTERVAL_MS
          then Inl CronTooFrequent else Inr ()))))
      | Interval every_ms \<Rightarrow>
          if every_ms < MIN_MANDATE_INTERVAL_MS then Inl IntervalTooShort else Inr ()
      | At when \<Rightarrow>
          and_then (map_err AtMalformed (parse_from_rfc3339 lib when)) (\<lambda>parsed.
          if fd_instant parsed < now \<and> catch_up \<noteq> CoalesceMissed
          then Inl AtInPast else Inr ()))"

definition mandate_expiry_ms ::
  "('cron, 'tz) schedule_lib \<Rightarrow> string option \<Rightarrow> instant \<Rightarrow> i64 option mandate_result" where
  "mandate_expiry_ms lib expires_at now =
     (case expires_at of
        None \<Rightarrow> Inr None
      | Some expires_at \<Rightarrow>
          and_then (map_err (ExpiryMalformed expires_at) (parse_from_rfc3339 lib expires_at)) (\<lambda>parsed.
          if fd_local_minus_utc parsed \<noteq> 0 then Inl (ExpiryNotUtc expires_at)
          else if now > fd_instant parsed then Inl (ExpiryPassed expires_at)
          else Inr (Some (timestamp_millis (fd_instant parsed)))))"

definition validate_mandate_start_request ::
  "('cron, 'tz) schedule_lib \<Rightarrow> mandate_start_request \<Rightarrow> instant \<Rightarrow> unit mandate_result" where
  "validate_mandate_start_request lib request now =
     and_then (validate_schedule lib (sr_schedule request)
       (case sr_catch_up request of Some c \<Rightarrow> c | None \<Rightarrow> catch_up_default) now) (\<lambda>_.
     and_then (mandate_expiry_ms lib (sr_expires_at request) now) (\<lambda>_. Inr ()))"

subsection \<open>Reading the control stream\<close>

definition mandate_targets_thread ::
  "(uuid \<Rightarrow> string) \<Rightarrow> mandate_started_payload \<Rightarrow> thread_coordinates \<Rightarrow> bool" where
  "mandate_targets_thread show_uuid payload coordinates =
     (case (case ms_thread_id (mp_subject payload) of
              Some t \<Rightarrow> Some t | None \<Rightarrow> mp_thread_id payload) of
        Some subject \<Rightarrow> subject = show_thread_id show_uuid (tc_thread_id coordinates)
      | None \<Rightarrow> True)"

definition revoked_targets_thread ::
  "(uuid \<Rightarrow> string) \<Rightarrow> mandate_revoked_payload \<Rightarrow> thread_coordinates \<Rightarrow> bool" where
  "revoked_targets_thread show_uuid payload coordinates =
     (case ms_thread_id (mr_subject payload) of
        Some subject \<Rightarrow> subject = show_thread_id show_uuid (tc_thread_id coordinates)
      | None \<Rightarrow> True)"

definition decode_started :: "control_codec \<Rightarrow> event_record \<Rightarrow> mandate_started_payload mandate_result" where
  "decode_started codec event =
     mandate_history (decode_fact ''mandate.started'' (dec_mandate_started codec) event)"

definition decode_revoked :: "control_codec \<Rightarrow> event_record \<Rightarrow> mandate_revoked_payload mandate_result" where
  "decode_revoked codec event =
     mandate_history (decode_fact ''mandate.revoked'' (dec_mandate_revoked codec) event)"

text \<open>The loop of \<open>active_mandates_from_events\<close>: the mandates started, by event id, and the event ids
  and mandate ids that revocations name.\<close>

record mandate_scan =
  sc_started :: "(string, event_record \<times> mandate_started_payload) btmap"
  sc_revoked_event_ids :: "string set"
  sc_revoked_mandate_ids :: "string set"

definition scan_mandate_event ::
  "(uuid \<Rightarrow> string) \<Rightarrow> control_codec \<Rightarrow> thread_coordinates \<Rightarrow> event_record \<Rightarrow> mandate_scan \<Rightarrow>
   mandate_scan mandate_result" where
  "scan_mandate_event show_uuid codec coordinates event acc =
     (if ev_kind event = MandateStarted then
        and_then (decode_started codec event) (\<lambda>payload.
        Inr (if mandate_targets_thread show_uuid payload coordinates
             then acc\<lparr>sc_started := bt_insert (show_event_id show_uuid (ev_id event)) (event, payload)
                        (sc_started acc)\<rparr>
             else acc))
      else if ev_kind event = MandateRevoked then
        and_then (decode_revoked codec event) (\<lambda>payload.
        Inr (if revoked_targets_thread show_uuid payload coordinates
             then acc\<lparr>sc_revoked_event_ids :=
                        (case mr_mandate_event_id payload of
                           Some i \<Rightarrow> insert i (sc_revoked_event_ids acc)
                         | None \<Rightarrow> sc_revoked_event_ids acc),
                      sc_revoked_mandate_ids :=
                        insert (mr_mandate_id payload) (sc_revoked_mandate_ids acc)\<rparr>
             else acc))
      else Inr acc)"

primrec scan_mandates ::
  "(uuid \<Rightarrow> string) \<Rightarrow> control_codec \<Rightarrow> thread_coordinates \<Rightarrow> event_record list \<Rightarrow> mandate_scan \<Rightarrow>
   mandate_scan mandate_result" where
  "scan_mandates show_uuid codec coordinates [] acc = Inr acc"
| "scan_mandates show_uuid codec coordinates (event # events) acc =
     and_then (scan_mandate_event show_uuid codec coordinates event acc)
       (scan_mandates show_uuid codec coordinates events)"

definition active_mandates_from_events ::
  "(uuid \<Rightarrow> string) \<Rightarrow> control_codec \<Rightarrow> thread_coordinates \<Rightarrow> event_record list \<Rightarrow>
   active_mandate list mandate_result" where
  "active_mandates_from_events show_uuid codec coordinates events =
     and_then (scan_mandates show_uuid codec coordinates events
         \<lparr>sc_started = [], sc_revoked_event_ids = {}, sc_revoked_mandate_ids = {}\<rparr>) (\<lambda>scan.
     Inr (sort_key (\<lambda>mandate. sequence_get (ev_sequence (am_event mandate)))
       (List.map_filter (\<lambda>(event_id, (event, payload)).
          if event_id \<in> sc_revoked_event_ids scan \<or> mp_mandate_id payload \<in> sc_revoked_mandate_ids scan
          then None else Some \<lparr>am_event = event, am_payload = payload\<rparr>) (sc_started scan))))"

fun mandate_start_event ::
  "(uuid \<Rightarrow> string) \<Rightarrow> control_codec \<Rightarrow> thread_coordinates \<Rightarrow> event_record list \<Rightarrow> event_record_id \<Rightarrow>
   (event_record \<times> mandate_started_payload) option mandate_result" where
  "mandate_start_event show_uuid codec coordinates [] mandate_event_id = Inr None"
| "mandate_start_event show_uuid codec coordinates (event # events) mandate_event_id =
     (if ev_id event \<noteq> mandate_event_id \<or> ev_kind event \<noteq> MandateStarted
      then mandate_start_event show_uuid codec coordinates events mandate_event_id
      else and_then (decode_started codec event) (\<lambda>payload.
        if mandate_targets_thread show_uuid payload coordinates then Inr (Some (event, payload))
        else mandate_start_event show_uuid codec coordinates events mandate_event_id))"

fun mandate_revoked_event ::
  "(uuid \<Rightarrow> string) \<Rightarrow> control_codec \<Rightarrow> event_record list \<Rightarrow> event_record_id \<Rightarrow>
   mandate_started_payload \<Rightarrow> (event_record \<times> mandate_revoked_payload) option mandate_result" where
  "mandate_revoked_event show_uuid codec [] mandate_event_id started = Inr None"
| "mandate_revoked_event show_uuid codec (event # events) mandate_event_id started =
     (if ev_kind event \<noteq> MandateRevoked
      then mandate_revoked_event show_uuid codec events mandate_event_id started
      else and_then (decode_revoked codec event) (\<lambda>payload.
        if is_some_and (mr_mandate_event_id payload) (\<lambda>i. i = show_event_id show_uuid mandate_event_id) \<or>
           mr_mandate_id payload = mp_mandate_id started
        then Inr (Some (event, payload))
        else mandate_revoked_event show_uuid codec events mandate_event_id started))"

subsection \<open>Operations\<close>

definition list_active_mandates ::
  "(uuid \<Rightarrow> string) \<Rightarrow> control_codec \<Rightarrow> thread_coordinates \<Rightarrow> store_inner \<Rightarrow>
   active_mandate list mandate_result" where
  "list_active_mandates show_uuid codec coordinates inner =
     and_then (mandate_history (history_err
         (read_events (control_stream_id show_uuid coordinates) None inner)))
       (active_mandates_from_events show_uuid codec coordinates)"

text \<open>Appending one witnessed fact to the control stream; both operations take the last record back.\<close>

definition append_mandate_fact ::
  "(uuid \<Rightarrow> string) \<Rightarrow> u64 \<Rightarrow> stamp \<Rightarrow> thread_coordinates \<Rightarrow> event_kind \<Rightarrow> json \<Rightarrow> store_inner \<Rightarrow>
   event_record mandate_result \<times> store_inner" where
  "append_mandate_fact show_uuid lease_epoch event_stamp coordinates kind payload inner =
     (case append_events show_uuid lease_epoch (control_stream_id show_uuid coordinates)
             [event_witnessed event_stamp coordinates kind payload] inner of
        (Inl e, inner') \<Rightarrow> (Inl (MandateHistory (StoreError e)), inner')
      | (Inr [], inner') \<Rightarrow> (Inl AppendedNothing, inner')
      | (Inr (event # events), inner') \<Rightarrow> (Inr (last (event # events)), inner'))"

definition start_mandate ::
  "(uuid \<Rightarrow> string) \<Rightarrow> ('cron, 'tz) schedule_lib \<Rightarrow> u64 \<Rightarrow> stamp \<Rightarrow> uuid \<Rightarrow> thread_coordinates \<Rightarrow>
   mandate_start_request \<Rightarrow> instant \<Rightarrow> store_inner \<Rightarrow> mandate_start_receipt mandate_result \<times> store_inner" where
  "start_mandate show_uuid lib lease_epoch event_stamp mandate_uuid coordinates request now inner =
     or_return (validate_mandate_start_request lib request now) inner (\<lambda>_.
     or_return (mandate_expiry_ms lib (sr_expires_at request) now) inner (\<lambda>expires_at_ms.
     let catch_up = (case sr_catch_up request of Some c \<Rightarrow> c | None \<Rightarrow> catch_up_default);
         thread_id = show_thread_id show_uuid (tc_thread_id coordinates);
         payload = \<lparr>mp_subject = \<lparr>ms_thread_id = Some thread_id, ms_loop_id = None\<rparr>,
           mp_mandate_id = ''mandate-'' @ show_uuid mandate_uuid,
           mp_snapshot_id = (case sr_snapshot_id request of
              Some snapshot_id \<Rightarrow> if trim snapshot_id \<noteq> [] then snapshot_id else SCHEDULE_SNAPSHOT_ID
            | None \<Rightarrow> SCHEDULE_SNAPSHOT_ID),
           mp_thread_id = Some thread_id, mp_max_continuations = None,
           mp_expires_at_ms = expires_at_ms, mp_schedule = Some (sr_schedule request),
           mp_max_occurrences = sr_max_occurrences request, mp_catch_up = Some catch_up,
           mp_input_template = sr_input_template request\<rparr> in
     case append_mandate_fact show_uuid lease_epoch event_stamp coordinates MandateStarted
            (json_of_mandate_started payload) inner of
       (Inl e, inner') \<Rightarrow> (Inl e, inner')
     | (Inr event, inner') \<Rightarrow> (Inr \<lparr>ms_event = event, ms_payload = payload\<rparr>, inner')))"

definition revoke_mandate ::
  "(uuid \<Rightarrow> string) \<Rightarrow> control_codec \<Rightarrow> u64 \<Rightarrow> stamp \<Rightarrow> (store_inner \<Rightarrow> store_inner) \<Rightarrow>
   thread_coordinates \<Rightarrow> event_record_id \<Rightarrow> store_inner \<Rightarrow>
   mandate_revoke_receipt mandate_result \<times> store_inner" where
  "revoke_mandate show_uuid codec lease_epoch event_stamp between coordinates mandate_event_id inner =
     or_return (mandate_history (history_err
         (read_events (control_stream_id show_uuid coordinates) None inner))) inner (\<lambda>events.
     or_return (mandate_start_event show_uuid codec coordinates events mandate_event_id) inner (\<lambda>found.
     case found of
       None \<Rightarrow> (Inl (NotActive mandate_event_id (tc_thread_id coordinates)), inner)
     | Some (start_event, start_payload) \<Rightarrow>
         or_return (mandate_revoked_event show_uuid codec events mandate_event_id start_payload) inner
           (\<lambda>revoked.
         case revoked of
           Some (revoke_event, payload) \<Rightarrow>
             (Inr \<lparr>rr_status = AlreadyRevoked, rr_start_event = start_event,
                   rr_revoke_event = revoke_event, rr_payload = payload\<rparr>, inner)
         | None \<Rightarrow>
             let payload = \<lparr>mr_subject = mp_subject start_payload,
                   mr_mandate_id = mp_mandate_id start_payload,
                   mr_mandate_event_id = Some (show_event_id show_uuid mandate_event_id),
                   mr_snapshot_id = mp_snapshot_id start_payload, mr_reason = None\<rparr> in
             case append_mandate_fact show_uuid lease_epoch event_stamp coordinates MandateRevoked
                    (json_of_mandate_revoked payload) (between inner) of
               (Inl e, inner') \<Rightarrow> (Inl e, inner')
             | (Inr revoke_event, inner') \<Rightarrow>
                 (Inr \<lparr>rr_status = Revoked, rr_start_event = start_event,
                       rr_revoke_event = revoke_event, rr_payload = payload\<rparr>, inner'))))"

subsection \<open>The mandates a stream holds active\<close>

text \<open>The declarative reading: a mandate is active when its event is on the stream, is meant for the
  thread, and no revocation on the stream meant for the thread names it.\<close>

definition mandate_event_readable :: "control_codec \<Rightarrow> event_record \<Rightarrow> bool" where
  "mandate_event_readable codec e \<longleftrightarrow>
     (ev_kind e = MandateStarted \<longrightarrow> is_ok (dec_mandate_started codec (ev_payload e))) \<and>
     (ev_kind e = MandateRevoked \<longrightarrow> is_ok (dec_mandate_revoked codec (ev_payload e)))"

definition started_by ::
  "(uuid \<Rightarrow> string) \<Rightarrow> control_codec \<Rightarrow> thread_coordinates \<Rightarrow> event_record \<Rightarrow>
   mandate_started_payload option" where
  "started_by sh codec c e =
     (if ev_kind e = MandateStarted then
        case dec_mandate_started codec (ev_payload e) of
          Inr p \<Rightarrow> if mandate_targets_thread sh p c then Some p else None
        | Inl _ \<Rightarrow> None
      else None)"

definition revoked_by ::
  "(uuid \<Rightarrow> string) \<Rightarrow> control_codec \<Rightarrow> thread_coordinates \<Rightarrow> event_record \<Rightarrow>
   mandate_revoked_payload option" where
  "revoked_by sh codec c e =
     (if ev_kind e = MandateRevoked then
        case dec_mandate_revoked codec (ev_payload e) of
          Inr p \<Rightarrow> if revoked_targets_thread sh p c then Some p else None
        | Inl _ \<Rightarrow> None
      else None)"

definition names_mandate ::
  "(uuid \<Rightarrow> string) \<Rightarrow> event_record_id \<Rightarrow> mandate_started_payload \<Rightarrow> mandate_revoked_payload \<Rightarrow> bool" where
  "names_mandate sh i p q \<longleftrightarrow>
     mr_mandate_event_id q = Some (show_event_id sh i) \<or> mr_mandate_id q = mp_mandate_id p"

definition active_at ::
  "(uuid \<Rightarrow> string) \<Rightarrow> control_codec \<Rightarrow> thread_coordinates \<Rightarrow> event_record list \<Rightarrow> event_record \<Rightarrow>
   active_mandate option" where
  "active_at sh codec c es e =
     (case started_by sh codec c e of
        None \<Rightarrow> None
      | Some p \<Rightarrow>
          if \<exists>e' \<in> set es. \<exists>q. revoked_by sh codec c e' = Some q \<and> names_mandate sh (ev_id e) p q
          then None else Some \<lparr>am_event = e, am_payload = p\<rparr>)"

definition scan_step where
  "scan_step sh codec c e acc =
     (case started_by sh codec c e of
        Some p \<Rightarrow> acc\<lparr>sc_started := bt_insert (show_event_id sh (ev_id e)) (e, p) (sc_started acc)\<rparr>
      | None \<Rightarrow>
          (case revoked_by sh codec c e of
             Some q \<Rightarrow> acc\<lparr>sc_revoked_event_ids :=
                 (case mr_mandate_event_id q of
                    Some i \<Rightarrow> insert i (sc_revoked_event_ids acc) | None \<Rightarrow> sc_revoked_event_ids acc),
               sc_revoked_mandate_ids := insert (mr_mandate_id q) (sc_revoked_mandate_ids acc)\<rparr>
           | None \<Rightarrow> acc))"

lemma decode_started_ok: "decode_started codec e = Inr p \<longleftrightarrow> dec_mandate_started codec (ev_payload e) = Inr p"
  by (simp add: decode_started_def decode_fact_def mandate_history_def split: sum.split)

lemma decode_revoked_ok: "decode_revoked codec e = Inr p \<longleftrightarrow> dec_mandate_revoked codec (ev_payload e) = Inr p"
  by (simp add: decode_revoked_def decode_fact_def mandate_history_def split: sum.split)

lemma scan_event_ok:
  "scan_mandate_event sh codec c e acc = Inr acc' \<longleftrightarrow>
     mandate_event_readable codec e \<and> acc' = scan_step sh codec c e acc"
proof -
  consider "ev_kind e = MandateStarted" | "ev_kind e = MandateRevoked"
    | "ev_kind e \<noteq> MandateStarted" "ev_kind e \<noteq> MandateRevoked" by blast
  then show ?thesis
  proof cases
    case 1
    then show ?thesis
      by (cases "dec_mandate_started codec (ev_payload e)")
        (auto simp: scan_mandate_event_def and_then_eq_Inr decode_started_ok
          mandate_event_readable_def scan_step_def started_by_def revoked_by_def)
  next
    case 2
    then show ?thesis
      by (cases "dec_mandate_revoked codec (ev_payload e)")
        (auto simp: scan_mandate_event_def and_then_eq_Inr decode_revoked_ok
          mandate_event_readable_def scan_step_def started_by_def revoked_by_def)
  next
    case 3
    then show ?thesis
      by (auto simp: scan_mandate_event_def mandate_event_readable_def scan_step_def started_by_def
          revoked_by_def)
  qed
qed

lemma scan_mandates_ok:
  "scan_mandates sh codec c es acc = Inr acc' \<longleftrightarrow>
     (\<forall>e \<in> set es. mandate_event_readable codec e) \<and> acc' = fold (scan_step sh codec c) es acc"
  by (induction es arbitrary: acc) (auto simp: and_then_eq_Inr scan_event_ok)

lemma started_not_revoked: "started_by sh codec c e = Some p \<Longrightarrow> revoked_by sh codec c e = None"
  by (auto simp: started_by_def revoked_by_def split: if_splits)

lemma scan_step_fields:
  "sc_started (scan_step sh codec c e acc) =
     (case started_by sh codec c e of
        Some p \<Rightarrow> bt_insert (show_event_id sh (ev_id e)) (e, p) (sc_started acc)
      | None \<Rightarrow> sc_started acc)"
  "sc_revoked_event_ids (scan_step sh codec c e acc) = sc_revoked_event_ids acc \<union>
     {i. \<exists>q. revoked_by sh codec c e = Some q \<and> mr_mandate_event_id q = Some i}"
  "sc_revoked_mandate_ids (scan_step sh codec c e acc) = sc_revoked_mandate_ids acc \<union>
     {m. \<exists>q. revoked_by sh codec c e = Some q \<and> mr_mandate_id q = m}"
  by (auto simp: scan_step_def dest: started_not_revoked split: option.splits)

lemma scan_started:
  "sc_started (fold (scan_step sh codec c) es acc) =
   fold (\<lambda>(k, v). bt_insert k v) (List.map_filter
     (\<lambda>e. map_option (\<lambda>p. (show_event_id sh (ev_id e), (e, p))) (started_by sh codec c e)) es)
     (sc_started acc)"
  by (induction es arbitrary: acc)
    (simp_all add: map_filter_simps scan_step_fields split: option.split)

lemma scan_revoked:
  "sc_revoked_event_ids (fold (scan_step sh codec c) es acc) = sc_revoked_event_ids acc \<union>
     {i. \<exists>e \<in> set es. \<exists>q. revoked_by sh codec c e = Some q \<and> mr_mandate_event_id q = Some i}"
  "sc_revoked_mandate_ids (fold (scan_step sh codec c) es acc) = sc_revoked_mandate_ids acc \<union>
     {m. \<exists>e \<in> set es. \<exists>q. revoked_by sh codec c e = Some q \<and> mr_mandate_id q = m}"
  by (induction es arbitrary: acc) (auto simp: scan_step_fields)

lemma mset_bt_of:
  assumes "distinct (map fst kvs)"
  shows "mset (bt_of kvs) = mset kvs"
proof -
  have wf: "distinct (map fst (bt_of kvs))"
    using bt_wf_of [of kvs] by (simp add: bt_wf_def strict_sorted_iff)
  have "kv \<in> set (bt_of kvs) \<longleftrightarrow> kv \<in> set kvs" for kv
    using map_of_bt_of [OF assms, of "fst kv"] map_of_eq_Some_iff [OF wf, of "fst kv" "snd kv"]
      map_of_eq_Some_iff [OF assms, of "fst kv" "snd kv"] by simp
  then have "set (bt_of kvs) = set kvs" by blast
  with assms wf show ?thesis by (metis distinct_map set_eq_iff_mset_eq_distinct)
qed

lemma mset_map_filter: "mset (List.map_filter f xs) = image_mset (the \<circ> f) (filter_mset (\<lambda>x. f x \<noteq> None) (mset xs))"
  by (simp add: map_filter_def)

lemma map_filter_comp:
  "List.map_filter g (List.map_filter f xs) =
   List.map_filter (\<lambda>x. case f x of None \<Rightarrow> None | Some y \<Rightarrow> g y) xs"
  by (induction xs) (simp_all add: map_filter_simps split: option.split)

lemma show_event_id_inj: "inj sh \<Longrightarrow> show_event_id sh i = show_event_id sh j \<longleftrightarrow> i = j"
  by (cases i; cases j) (auto dest: injD)

lemma sorted_wrt_map_filter:
  assumes "sorted_wrt P xs" "\<And>x y a b. P x y \<Longrightarrow> f x = Some a \<Longrightarrow> f y = Some b \<Longrightarrow> Q a b"
  shows "sorted_wrt Q (List.map_filter f xs)"
  using assms(1)
proof (induction xs)
  case (Cons x xs)
  have "Q a b" if "f x = Some a" "b \<in> set (List.map_filter f xs)" for a b
    using that Cons.prems assms(2) by (auto simp: map_filter_def)
  with Cons show ?case by (auto simp: map_filter_simps split: option.split)
qed (simp add: map_filter_simps)

lemma active_at_event: "active_at sh codec c es e = Some m \<Longrightarrow> am_event m = e"
  by (auto simp: active_at_def split: option.splits if_splits)

lemma active_mandates_eq:
  assumes "inj sh" "distinct (map ev_id es)"
    and "sorted_wrt (\<lambda>e e'. sequence_get (ev_sequence e) < sequence_get (ev_sequence e')) es"
    and "\<forall>e \<in> set es. mandate_event_readable codec e"
  shows "active_mandates_from_events sh codec c es = Inr (List.map_filter (active_at sh codec c es) es)"
proof -
  let ?kvs = "List.map_filter
     (\<lambda>e. map_option (\<lambda>p. (show_event_id sh (ev_id e), (e, p))) (started_by sh codec c e)) es"
  let ?acc = "\<lparr>sc_started = [], sc_revoked_event_ids = {}, sc_revoked_mandate_ids = {}\<rparr>"
  define scan where "scan = fold (scan_step sh codec c) es ?acc"
  define live where "live = (\<lambda>(event_id, (event, payload)).
          if event_id \<in> sc_revoked_event_ids scan \<or> mp_mandate_id payload \<in> sc_revoked_mandate_ids scan
          then None else Some \<lparr>am_event = event, am_payload = payload\<rparr>)"
  have keys: "distinct (map fst ?kvs)"
  proof -
    have "map fst ?kvs = map (\<lambda>e. show_event_id sh (ev_id e)) (filter (\<lambda>e. started_by sh codec c e \<noteq> None) es)"
      by (induction es) (auto simp: map_filter_simps)
    then show ?thesis using assms(1,2)
      by (auto simp: distinct_map inj_on_def show_event_id_inj)
  qed
  have live_eq: "List.map_filter live ?kvs = List.map_filter (active_at sh codec c es) es"
    unfolding map_filter_comp
    by (rule arg_cong [where f = "\<lambda>g. List.map_filter g es"])
      (auto simp: fun_eq_iff live_def active_at_def scan_def scan_revoked names_mandate_def split: option.splits)
  have "sort_key (\<lambda>m. sequence_get (ev_sequence (am_event m))) (List.map_filter live (bt_of ?kvs)) =
      List.map_filter (active_at sh codec c es) es"
  proof (rule sort_key_inj_key_eq)
    show same: "mset (List.map_filter live (bt_of ?kvs)) = mset (List.map_filter (active_at sh codec c es) es)"
      unfolding live_eq [symmetric] mset_map_filter [of live] mset_bt_of [OF keys] ..
    have "sorted_wrt (\<lambda>m m'. sequence_get (ev_sequence (am_event m)) < sequence_get (ev_sequence (am_event m')))
        (List.map_filter (active_at sh codec c es) es)"
      using assms(3) by (rule sorted_wrt_map_filter) (auto dest: active_at_event)
    then have strict: "sorted_wrt (<) (map (\<lambda>m. sequence_get (ev_sequence (am_event m)))
        (List.map_filter (active_at sh codec c es) es))" by (simp add: sorted_wrt_map)
    then show "sorted (map (\<lambda>m. sequence_get (ev_sequence (am_event m)))
        (List.map_filter (active_at sh codec c es) es))" by (simp add: strict_sorted_iff)
    from strict show "inj_on (\<lambda>m. sequence_get (ev_sequence (am_event m))) (set (List.map_filter live (bt_of ?kvs)))"
      unfolding mset_eq_setD [OF same] strict_sorted_iff distinct_map by blast
  qed
  moreover have "scan_mandates sh codec c es ?acc = Inr scan"
    using assms(4) by (simp add: scan_mandates_ok scan_def)
  moreover have "sc_started scan = bt_of ?kvs"
    by (simp add: scan_def scan_started bt_of_def)
  ultimately show ?thesis
    by (simp add: active_mandates_from_events_def live_def)
qed

subsection \<open>Mandates on the store\<close>

abbreviation control_events :: "(uuid \<Rightarrow> string) \<Rightarrow> thread_coordinates \<Rightarrow> store_inner \<Rightarrow> event_record list" where
  "control_events sh c s \<equiv> stream_events s (control_stream_id sh c)"

lemma read_all [simp]: "read_events i None s = Inr (stream_events s i)"
  by (simp add: read_events_def)

lemma mandate_history_simps [simp]:
  "mandate_history (Inr a) = Inr a" "mandate_history (Inl e) = Inl (MandateHistory e)"
  by (simp_all add: mandate_history_def)

lemma map_err_simps [simp]: "map_err f (Inr a) = Inr a" "map_err f (Inl e) = Inl (f e)"
  by (simp_all add: map_err_def)

lemma map_err_ok: "map_err f r = Inr a \<longleftrightarrow> r = Inr a"
  by (cases r) simp_all

lemma list_active_eq: "list_active_mandates sh codec c s = active_mandates_from_events sh codec c (control_events sh c s)"
  by (simp add: list_active_mandates_def)

lemma active_readable:
  "active_mandates_from_events sh codec c es = Inr xs \<Longrightarrow> \<forall>e \<in> set es. mandate_event_readable codec e"
  by (auto simp: active_mandates_from_events_def and_then_eq_Inr scan_mandates_ok)

lemma stream_in_order:
  assumes "journal_ok s"
  shows "distinct (map ev_id (stream_events s i))"
    and "sorted_wrt (\<lambda>e e'. sequence_get (ev_sequence e) < sequence_get (ev_sequence e')) (stream_events s i)"
  using assms by (auto simp: journal_ok_def contiguous_from_def sorted_wrt_iff_nth_less)

lemma append_mandate_fact_ok:
  assumes "append_mandate_fact sh ep st c k j s = (Inr e, s')"
  shows "append_events sh ep (control_stream_id sh c) [event_witnessed st c k j] s = (Inr [e], s')"
    and "control_events sh c s' = control_events sh c s @ [e]"
    and "ev_kind e = k" "ev_payload e = j" "ev_origin e = Witnessed" "ev_id e = EventRecordId (fst st)"
proof -
  from assms obtain es where app: "append_events sh ep (control_stream_id sh c)
      [event_witnessed st c k j] s = (Inr es, s')" "es \<noteq> []" "e = last es"
    by (auto simp: append_mandate_fact_def split: prod.splits sum.splits list.splits)
  then have es: "es = numbered (control_stream_id sh c) (int (length (control_events sh c s)))
      [event_witnessed st c k j]" and s': "s' = with_events (control_stream_id sh c) ep
      [event_witnessed st c k j] s" by (simp_all add: append_events_ok)
  then have e: "es = [e]" "e = event_from_new (control_stream_id sh c)
      (EventSequence (int (length (control_events sh c s)) + 1)) (event_witnessed st c k j)"
    using app(3) by (simp_all add: numbered_def)
  show "append_events sh ep (control_stream_id sh c) [event_witnessed st c k j] s = (Inr [e], s')"
    using app(1) e(1) by simp
  show "control_events sh c s' = control_events sh c s @ [e]"
    using s' es e(1) by simp
  show "ev_kind e = k" "ev_payload e = j" "ev_origin e = Witnessed" "ev_id e = EventRecordId (fst st)"
    by (simp_all add: e(2) event_from_new_def event_witnessed_def)
qed

lemma append_mandate_fact_err: "append_mandate_fact sh ep st c k j s = (Inl x, s') \<Longrightarrow> s' = s"
  by (cases rule: append_events_cases [of sh ep "control_stream_id sh c" "[event_witnessed st c k j]" s])
    (auto simp: append_mandate_fact_def numbered_def)

text \<open>What a schedule must promise: occurrences at least a minute apart, and not in the past unless
  missed occurrences are to be caught up.\<close>

definition schedule_allowed ::
  "('cron, 'tz) schedule_lib \<Rightarrow> mandate_schedule \<Rightarrow> mandate_catch_up_policy \<Rightarrow> instant \<Rightarrow> bool" where
  "schedule_allowed lib schedule catch_up now =
     (case schedule of
        Cron expr tz \<Rightarrow> (\<exists>cron timezone first second. cron_from_str lib expr = Inr cron \<and>
          tz_parse lib tz = Inr timezone \<and> find_next_occurrence lib cron timezone now = Inr first \<and>
          find_next_occurrence lib cron timezone first = Inr second \<and>
          first + 60000 * 1000000 \<le> second)
      | Interval every_ms \<Rightarrow> 60000 \<le> unat every_ms
      | At when \<Rightarrow> (\<exists>t. parse_from_rfc3339 lib when = Inr t \<and>
          (now \<le> fd_instant t \<or> catch_up = CoalesceMissed)))"

lemma minute_apart: "\<not> num_milliseconds d < 60000 \<longleftrightarrow> 60000 * 1000000 \<le> d"
  by (simp add: num_milliseconds_def) linarith

lemma validate_schedule_ok:
  "validate_schedule lib schedule catch_up now = Inr () \<longleftrightarrow> schedule_allowed lib schedule catch_up now"
proof (cases schedule)
  case (Cron expr tz)
  have "\<not> num_milliseconds (second - first) < 60000 \<longleftrightarrow> first + 60000 * 1000000 \<le> second" for first second
    by (simp add: minute_apart) linarith
  with Cron show ?thesis
    by (simp add: validate_schedule_def schedule_allowed_def and_then_eq_Inr map_err_ok cron_next_def
        MIN_MANDATE_INTERVAL_MS_def ok_if) blast
next
  case (Interval n)
  then show ?thesis
    by (simp add: validate_schedule_def schedule_allowed_def MIN_MANDATE_INTERVAL_MS_def
        word_less_nat_alt not_less)
next
  case (At w)
  then show ?thesis
    by (auto simp: validate_schedule_def schedule_allowed_def and_then_eq_Inr map_err_ok not_less)
qed

lemma expiry_not_passed:
  assumes "mandate_expiry_ms lib x now = Inr (Some t)"
  shows "timestamp_millis now \<le> t"
  using assms
  by (auto simp: mandate_expiry_ms_def and_then_eq_Inr timestamp_millis_def
      split: option.splits if_splits intro: zdiv_mono1)

text \<open>The payload a start request gives.\<close>

definition started_payload where
  "started_payload sh mu c request expires_at_ms =
     \<lparr>mp_subject = \<lparr>ms_thread_id = Some (show_thread_id sh (tc_thread_id c)), ms_loop_id = None\<rparr>,
      mp_mandate_id = ''mandate-'' @ sh mu,
      mp_snapshot_id = (case sr_snapshot_id request of
         Some snapshot_id \<Rightarrow> if trim snapshot_id \<noteq> [] then snapshot_id else SCHEDULE_SNAPSHOT_ID
       | None \<Rightarrow> SCHEDULE_SNAPSHOT_ID),
      mp_thread_id = Some (show_thread_id sh (tc_thread_id c)), mp_max_continuations = None,
      mp_expires_at_ms = expires_at_ms, mp_schedule = Some (sr_schedule request),
      mp_max_occurrences = sr_max_occurrences request,
      mp_catch_up = Some (case sr_catch_up request of Some c \<Rightarrow> c | None \<Rightarrow> catch_up_default),
      mp_input_template = sr_input_template request\<rparr>"

lemma start_mandate_eq:
  "start_mandate sh lib ep st mu c request now s =
   or_return (validate_mandate_start_request lib request now) s (\<lambda>_.
   or_return (mandate_expiry_ms lib (sr_expires_at request) now) s (\<lambda>x.
     case append_mandate_fact sh ep st c MandateStarted
            (json_of_mandate_started (started_payload sh mu c request x)) s of
       (Inl e, s') \<Rightarrow> (Inl e, s')
     | (Inr event, s') \<Rightarrow> (Inr \<lparr>ms_event = event, ms_payload = started_payload sh mu c request x\<rparr>, s')))"
  by (simp only: start_mandate_def started_payload_def Let_def)

lemma start_mandate_ok:
  assumes "start_mandate sh lib ep st mu c request now s = (Inr r, s')"
  shows "append_mandate_fact sh ep st c MandateStarted (json_of_mandate_started (ms_payload r)) s =
      (Inr (ms_event r), s')"
    and "\<exists>x. mandate_expiry_ms lib (sr_expires_at request) now = Inr x \<and>
      ms_payload r = started_payload sh mu c request x"
    and "schedule_allowed lib (sr_schedule request)
      (case sr_catch_up request of Some c \<Rightarrow> c | None \<Rightarrow> catch_up_default) now"
proof -
  let ?append = "\<lambda>x. append_mandate_fact sh ep st c MandateStarted
    (json_of_mandate_started (started_payload sh mu c request x)) s"
  from assms obtain x where v: "validate_mandate_start_request lib request now = Inr ()"
      and x: "mandate_expiry_ms lib (sr_expires_at request) now = Inr x"
      and a: "(case ?append x of (Inl e, inner') \<Rightarrow> (Inl e, inner')
        | (Inr event, inner') \<Rightarrow> (Inr \<lparr>ms_event = event, ms_payload = started_payload sh mu c request x\<rparr>,
            inner')) = (Inr r, s')"
    unfolding start_mandate_eq by (auto simp: or_return_ok)
  from a have r: "?append x = (Inr (ms_event r), s')" "ms_payload r = started_payload sh mu c request x"
    by (cases "?append x"; cases "fst (?append x)"; auto)+
  then show "append_mandate_fact sh ep st c MandateStarted (json_of_mandate_started (ms_payload r)) s =
      (Inr (ms_event r), s')" by simp
  show "\<exists>x. mandate_expiry_ms lib (sr_expires_at request) now = Inr x \<and>
      ms_payload r = started_payload sh mu c request x" using x r(2) by blast
  show "schedule_allowed lib (sr_schedule request)
      (case sr_catch_up request of Some c \<Rightarrow> c | None \<Rightarrow> catch_up_default) now"
    using v by (simp add: validate_mandate_start_request_def and_then_eq_Inr validate_schedule_ok)
qed

lemma started_payload_targets: "mandate_targets_thread sh (started_payload sh mu c request x) c"
  by (simp add: mandate_targets_thread_def started_payload_def)

text \<open>
  A started mandate is valid, live and listed.  When \<open>start_mandate\<close> succeeds, its schedule is
  allowed (occurrences at least a minute apart; not in the past unless missed occurrences are
  caught up), its expiry has not passed, and the active mandates of the thread are those from
  before followed by the new one, provided its payload reads back and no revocation on the stream
  already names it.
\<close>

theorem started_mandate_is_active:
  assumes "reachable sh s" "inj sh"
    and "list_active_mandates sh codec c s = Inr old"
    and "start_mandate sh lib ep st mu c request now s = (Inr r, s')"
    and "dec_mandate_started codec (json_of_mandate_started (ms_payload r)) = Inr (ms_payload r)"
    and "\<forall>e \<in> set (control_events sh c s). \<forall>q. revoked_by sh codec c e = Some q \<longrightarrow>
      \<not> names_mandate sh (ev_id (ms_event r)) (ms_payload r) q"
  shows "list_active_mandates sh codec c s' =
      Inr (old @ [\<lparr>am_event = ms_event r, am_payload = ms_payload r\<rparr>]) \<and>
    schedule_allowed lib (sr_schedule request)
      (case sr_catch_up request of Some c \<Rightarrow> c | None \<Rightarrow> catch_up_default) now \<and>
    (\<forall>t. mp_expires_at_ms (ms_payload r) = Some t \<longrightarrow> timestamp_millis now \<le> t)"
proof -
  note start = start_mandate_ok [OF assms(4)]
  note fact_ = append_mandate_fact_ok [OF start(1)]
  let ?es = "control_events sh c s"
  have ok: "journal_ok s" using reachable_ok [OF assms(1)] by blast
  then have ok': "journal_ok s'" using journal_ok_append [of s sh ep] fact_(1) by (metis snd_conv)
  have read: "\<forall>e \<in> set ?es. mandate_event_readable codec e"
    using assms(3) active_readable list_active_eq by metis
  have old: "old = List.map_filter (active_at sh codec c ?es) ?es"
    using assms(3) active_mandates_eq [OF assms(2) stream_in_order [OF ok] read] list_active_eq by simp
  from start(2) obtain x where x: "mandate_expiry_ms lib (sr_expires_at request) now = Inr x"
    "ms_payload r = started_payload sh mu c request x" by blast
  have started: "started_by sh codec c (ms_event r) = Some (ms_payload r)"
    using fact_(3,4) assms(5) started_payload_targets x(2) by (simp add: started_by_def)
  have none: "revoked_by sh codec c (ms_event r) = None" using started by (rule started_not_revoked)
  have same: "active_at sh codec c (?es @ [ms_event r]) = active_at sh codec c ?es"
    using none by (auto simp: fun_eq_iff active_at_def split: option.split)
  have new: "active_at sh codec c ?es (ms_event r) =
      Some \<lparr>am_event = ms_event r, am_payload = ms_payload r\<rparr>"
    using started assms(6) by (auto simp: active_at_def)
  have "\<forall>e \<in> set (?es @ [ms_event r]). mandate_event_readable codec e"
    using read fact_(3,4) assms(5) by (simp add: mandate_event_readable_def)
  then have "list_active_mandates sh codec c s' =
      Inr (List.map_filter (active_at sh codec c (?es @ [ms_event r])) (?es @ [ms_event r]))"
    using active_mandates_eq [OF assms(2) stream_in_order [OF ok']] fact_(2) list_active_eq by metis
  also have "\<dots> = Inr (old @ [\<lparr>am_event = ms_event r, am_payload = ms_payload r\<rparr>])"
    using new by (simp add: same old map_filter_def)
  finally show ?thesis
    using start(3) x expiry_not_passed [of lib "sr_expires_at request" now]
    by (auto simp: started_payload_def)
qed

lemma start_event_found:
  "mandate_start_event sh codec c es i = Inr (Some (e, p)) \<Longrightarrow>
     e \<in> set es \<and> ev_id e = i \<and> started_by sh codec c e = Some p"
  by (induction es) (auto simp: and_then_eq_Inr decode_started_ok started_by_def split: if_splits)

lemma no_revocation_found:
  "mandate_revoked_event sh codec es i p = Inr None \<longleftrightarrow>
     (\<forall>e \<in> set es. ev_kind e = MandateRevoked \<longrightarrow>
        (\<exists>q. dec_mandate_revoked codec (ev_payload e) = Inr q \<and> \<not> names_mandate sh i p q))"
  by (induction es) (auto simp: and_then_eq_Inr decode_revoked_ok names_mandate_def is_some_and_def
      split: option.splits)

text \<open>The three ways \<open>revoke_mandate\<close> answers.\<close>

lemma revoke_mandate_cases:
  obtains (appended) e p r s' where "mandate_start_event sh codec c (control_events sh c s) i = Inr (Some (e, p))"
      "mandate_revoked_event sh codec (control_events sh c s) i p = Inr None"
      "revoke_mandate sh codec ep st between c i s = (Inr r, s')" "rr_status r = Revoked"
      "rr_payload r = \<lparr>mr_subject = mp_subject p, mr_mandate_id = mp_mandate_id p,
         mr_mandate_event_id = Some (show_event_id sh i), mr_snapshot_id = mp_snapshot_id p, mr_reason = None\<rparr>"
      "append_mandate_fact sh ep st c MandateRevoked (json_of_mandate_revoked (rr_payload r)) (between s) =
         (Inr (rr_revoke_event r), s')"
  | (known) r where "revoke_mandate sh codec ep st between c i s = (Inr r, s)" "rr_status r = AlreadyRevoked"
  | (refused) x where "revoke_mandate sh codec ep st between c i s = (Inl x, s)"
  | (failed) e p x s' where "mandate_start_event sh codec c (control_events sh c s) i = Inr (Some (e, p))"
      "mandate_revoked_event sh codec (control_events sh c s) i p = Inr None"
      "revoke_mandate sh codec ep st between c i s = (Inl x, s')"
proof (cases "mandate_start_event sh codec c (control_events sh c s) i")
  case (Inl x)
  then show thesis by (intro refused [of x]) (simp add: revoke_mandate_def)
next
  case (Inr found)
  show thesis
  proof (cases found)
    case None
    with Inr show thesis by (intro refused) (simp add: revoke_mandate_def)
  next
    case (Some ep')
    obtain e p where ep': "ep' = (e, p)" by (cases ep')
    show thesis
    proof (cases "mandate_revoked_event sh codec (control_events sh c s) i p")
      case (Inl x)
      with Inr Some ep' show thesis by (intro refused [of x]) (simp add: revoke_mandate_def)
    next
      case revoked: (Inr revoked)
      show thesis
      proof (cases revoked)
        case (Some eq)
        let ?r = "\<lparr>rr_status = AlreadyRevoked, rr_start_event = e, rr_revoke_event = fst eq,
          rr_payload = snd eq\<rparr>"
        from Some Inr \<open>found = Some ep'\<close> ep' revoked have
          "revoke_mandate sh codec ep st between c i s = (Inr ?r, s)"
          by (simp add: revoke_mandate_def case_prod_unfold)
        then show thesis by (rule known) simp
      next
        case None
        let ?q = "\<lparr>mr_subject = mp_subject p, mr_mandate_id = mp_mandate_id p,
          mr_mandate_event_id = Some (show_event_id sh i), mr_snapshot_id = mp_snapshot_id p, mr_reason = None\<rparr>"
        obtain r0 s' where a: "append_mandate_fact sh ep st c MandateRevoked (json_of_mandate_revoked ?q)
          (between s) = (r0, s')" by (cases "append_mandate_fact sh ep st c MandateRevoked
            (json_of_mandate_revoked ?q) (between s)")
        have found_: "mandate_start_event sh codec c (control_events sh c s) i = Inr (Some (e, p))"
          "mandate_revoked_event sh codec (control_events sh c s) i p = Inr None"
          using Inr \<open>found = Some ep'\<close> ep' revoked None by simp_all
        show thesis
        proof (cases r0)
          case (Inl x)
          with a found_ have "revoke_mandate sh codec ep st between c i s = (Inl x, s')"
            by (simp add: revoke_mandate_def Let_def)
          with found_ show thesis by (rule failed)
        next
          case (Inr re)
          let ?r = "\<lparr>rr_status = Revoked, rr_start_event = e, rr_revoke_event = re, rr_payload = ?q\<rparr>"
          from Inr a found_ have "revoke_mandate sh codec ep st between c i s = (Inr ?r, s')"
            by (simp add: revoke_mandate_def Let_def)
          with found_ a Inr show thesis by (intro appended [of e p ?r s']) simp_all
        qed
      qed
    qed
  qed
qed

text \<open>
  C37. A revocation is final.  Once \<open>revoke_mandate\<close> has appended a revocation, whatever other tasks
  did between its read and its append, and whatever calls follow, the mandate is never listed as
  active again, and every later attempt to revoke it leaves the store as it is and, if it succeeds,
  answers that it was already revoked.
\<close>

theorem revocation_is_final:
  assumes "reachable sh s" "later sh s (between s)"
    and "revoke_mandate sh codec ep st between c i s = (Inr r, s1)" "rr_status r = Revoked"
    and "dec_mandate_revoked codec (json_of_mandate_revoked (rr_payload r)) = Inr (rr_payload r)"
    and "later sh s1 s2" "inj sh"
  shows "(\<forall>active. list_active_mandates sh codec c s2 = Inr active \<longrightarrow>
       (\<forall>m \<in> set active. ev_id (am_event m) \<noteq> i)) \<and>
    snd (revoke_mandate sh codec ep' st' between' c i s2) = s2 \<and>
    (\<forall>r'. fst (revoke_mandate sh codec ep' st' between' c i s2) = Inr r' \<longrightarrow>
       rr_status r' = AlreadyRevoked)"
proof -
  from assms(3,4) obtain e p where start: "mandate_start_event sh codec c (control_events sh c s) i = Inr (Some (e, p))"
    and q: "rr_payload r = \<lparr>mr_subject = mp_subject p, mr_mandate_id = mp_mandate_id p,
         mr_mandate_event_id = Some (show_event_id sh i), mr_snapshot_id = mp_snapshot_id p, mr_reason = None\<rparr>"
    and app: "append_mandate_fact sh ep st c MandateRevoked (json_of_mandate_revoked (rr_payload r)) (between s) =
         (Inr (rr_revoke_event r), s1)"
    by (cases rule: revoke_mandate_cases [of sh codec c s i ep st between]) auto
  note fact_ = append_mandate_fact_ok [OF app]
  have reach: "reachable sh s1"
    using call_reachable [OF later_reachable [OF assms(1,2)] store_call.call_append_events [OF fact_(1)]] .
  have ok2: "journal_ok s2" using reachable_ok later_reachable [OF reach assms(6)] by blast
  have "prefix (control_events sh c s1) (control_events sh c s2)"
    using reachable_later [OF reach assms(6)] by (simp add: journal_grows_def)
  then have re: "rr_revoke_event r \<in> set (control_events sh c s2)"
    unfolding fact_(2) prefix_def by auto
  have dec: "dec_mandate_revoked codec (ev_payload (rr_revoke_event r)) = Inr (rr_payload r)"
    using fact_(4) assms(5) by simp
  have "mandate_targets_thread sh p c"
    using start_event_found [OF start] by (auto simp: started_by_def split: if_splits sum.splits)
  then have "revoked_targets_thread sh (rr_payload r) c"
    by (auto simp: q revoked_targets_thread_def mandate_targets_thread_def split: option.splits)
  with fact_(3) dec have revoked: "revoked_by sh codec c (rr_revoke_event r) = Some (rr_payload r)"
    by (simp add: revoked_by_def)
  have names: "names_mandate sh i p' (rr_payload r)" for p' by (simp add: names_mandate_def q)
  have "ev_id (am_event m) \<noteq> i" if l: "list_active_mandates sh codec c s2 = Inr active" and m: "m \<in> set active" for active m
  proof
    assume i: "ev_id (am_event m) = i"
    from l have "active = List.map_filter (active_at sh codec c (control_events sh c s2)) (control_events sh c s2)"
      using active_mandates_eq [OF assms(7) stream_in_order [OF ok2]] active_readable list_active_eq
      by (metis sum.inject(2))
    with m obtain x where "active_at sh codec c (control_events sh c s2) x = Some m"
      by (auto simp: map_filter_def)
    moreover from this have "ev_id x = i" using active_at_event i by blast
    ultimately show False
      using re revoked names by (auto simp: active_at_def split: option.splits if_splits)
  qed
  moreover have "mandate_revoked_event sh codec (control_events sh c s2) i p' \<noteq> Inr None" for p'
    using re fact_(3) dec names by (auto simp: no_revocation_found)
  ultimately show ?thesis
    by (cases rule: revoke_mandate_cases [of sh codec c s2 i ep' st' between']) auto
qed

text \<open>
  Listing and revoking do not agree on what revokes a mandate: a revocation whose subject names
  another thread is ignored by the listing but counted by \<open>revoke_mandate\<close>, which then answers
  \<open>AlreadyRevoked\<close> and appends nothing, so the mandate stays active.
\<close>

lemma foreign_revocation_blocks:
  assumes "started_by sh codec c e = Some p" "e' \<in> set es" "ev_kind e' = MandateRevoked"
    and "dec_mandate_revoked codec (ev_payload e') = Inr q" "mr_mandate_id q = mp_mandate_id p"
    and "\<forall>x \<in> set es. revoked_by sh codec c x = None"
  shows "active_at sh codec c es e = Some \<lparr>am_event = e, am_payload = p\<rparr> \<and>
    mandate_revoked_event sh codec es (ev_id e) p \<noteq> Inr None"
  using assms by (auto simp: active_at_def no_revocation_found names_mandate_def)

subsection \<open>Examples\<close>

lemma append_single:
  assumes "check_in_memory_lease_epoch s i ep = Inr ()" "validate_new_event record = Inr ()"
    and "ne_id record \<notin> si_event_ids s" "is_object (ne_payload record)" "ne_kind record \<noteq> IoEgressRequested"
  shows "append_events sh ep i [record] s =
    (Inr [event_from_new i (EventSequence (int (length (stream_events s i)) + 1)) record],
     with_events i ep [record] s)"
proof -
  have "admissible_batch s [record]" using assms by (simp add: admissible_batch_def storable_def)
  with assms(1) have "append_events sh ep i [record] s =
      (Inr (numbered i (int (length (stream_events s i))) [record]), with_events i ep [record] s)"
    by (simp add: append_events_ok)
  then show ?thesis by (simp add: numbered_def)
qed

lemma append_mandate_fact_succeeds:
  assumes "check_in_memory_lease_epoch s (control_stream_id sh c) ep = Inr ()"
    and "EventRecordId (fst st) \<notin> si_event_ids s" "is_object j" "k \<noteq> IoEgressRequested"
  shows "append_mandate_fact sh ep st c k j s =
    (Inr (event_from_new (control_stream_id sh c) (EventSequence (int (length (control_events sh c s)) + 1))
       (event_witnessed st c k j)),
     with_events (control_stream_id sh c) ep [event_witnessed st c k j] s)"
  using assms
  by (simp add: append_mandate_fact_def append_single validate_new_event_def event_witnessed_def)

definition sample_lib :: "(unit, unit) schedule_lib" where
  "sample_lib = \<lparr>cron_from_str = (\<lambda>_. Inl ''unsupported''), tz_parse = (\<lambda>_. Inl ''unsupported''),
     find_next_occurrence = (\<lambda>_ _ _. Inl ''unsupported''), parse_from_rfc3339 = (\<lambda>_. Inl ''unsupported'')\<rparr>"

definition sample_request :: mandate_start_request where
  "sample_request = \<lparr>sr_schedule = Interval 60000, sr_max_occurrences = None, sr_catch_up = None,
     sr_input_template = None, sr_snapshot_id = None, sr_expires_at = None\<rparr>"

definition sample_started :: mandate_started_payload where
  "sample_started = started_payload show_hyphenated 5 sample_coordinates sample_request None"

definition sample_revoked :: mandate_revoked_payload where
  "sample_revoked = \<lparr>mr_subject = mp_subject sample_started, mr_mandate_id = mp_mandate_id sample_started,
     mr_mandate_event_id = Some (show_event_id show_hyphenated (EventRecordId 1)),
     mr_snapshot_id = mp_snapshot_id sample_started, mr_reason = None\<rparr>"

definition sample_mandate_codec :: control_codec where
  "sample_mandate_codec = sample_codec\<lparr>dec_mandate_started := (\<lambda>_. Inr sample_started),
     dec_mandate_revoked := (\<lambda>_. Inr sample_revoked)\<rparr>"

definition sample_mandated :: store_inner where
  "sample_mandated = with_events (control_stream_id show_hyphenated sample_coordinates) 0
     [event_witnessed (1, 0) sample_coordinates MandateStarted (json_of_mandate_started sample_started)]
     store_new"

definition sample_start_event :: event_record where
  "sample_start_event = event_from_new (control_stream_id show_hyphenated sample_coordinates) (EventSequence 1)
     (event_witnessed (1, 0) sample_coordinates MandateStarted (json_of_mandate_started sample_started))"

lemma inj_show_hyphenated: "inj show_hyphenated"
  by (rule injI) (simp add: hyphenated.show_inj)

lemma sample_start:
  "start_mandate show_hyphenated sample_lib 0 (1, 0) 5 sample_coordinates sample_request 0 store_new =
   (Inr \<lparr>ms_event = sample_start_event, ms_payload = sample_started\<rparr>, sample_mandated)"
proof -
  have "append_mandate_fact show_hyphenated 0 (1, 0) sample_coordinates MandateStarted
      (json_of_mandate_started sample_started) store_new = (Inr sample_start_event, sample_mandated)"
    by (subst append_mandate_fact_succeeds)
      (simp_all add: check_in_memory_lease_epoch_def store_new_def json_of_mandate_started_def
        sample_start_event_def sample_mandated_def)
  moreover have "validate_mandate_start_request sample_lib sample_request 0 = Inr ()"
    "mandate_expiry_ms sample_lib (sr_expires_at sample_request) 0 = Inr None"
    by (simp_all add: validate_mandate_start_request_def validate_schedule_def mandate_expiry_ms_def
        sample_request_def MIN_MANDATE_INTERVAL_MS_def)
  ultimately show ?thesis
    unfolding start_mandate_eq by (simp flip: sample_started_def)
qed

lemma sample_mandated_reachable: "reachable show_hyphenated sample_mandated"
  using start_mandate_ok(1) [OF sample_start] append_mandate_fact_ok(1)
    reachable_call_new [OF store_call.call_append_events] by blast

lemma new_control_events: "stream_events store_new i = []"
  by (simp add: store_new_def)

theorem started_mandate_is_active_witness:
  "list_active_mandates show_hyphenated sample_mandate_codec sample_coordinates sample_mandated =
     Inr [\<lparr>am_event = sample_start_event, am_payload = sample_started\<rparr>]"
proof -
  have "list_active_mandates show_hyphenated sample_mandate_codec sample_coordinates store_new = Inr []"
    by (simp add: list_active_eq new_control_events active_mandates_from_events_def map_filter_simps)
  from started_mandate_is_active [OF new_reachable inj_show_hyphenated this sample_start]
  show ?thesis by (simp add: sample_mandate_codec_def new_control_events)
qed

theorem revocation_is_final_witness:
  "snd (revoke_mandate show_hyphenated sample_mandate_codec 0 (3, 0) id sample_coordinates (EventRecordId 1)
     (snd (revoke_mandate show_hyphenated sample_mandate_codec 0 (2, 0) id sample_coordinates (EventRecordId 1)
        sample_mandated))) =
   snd (revoke_mandate show_hyphenated sample_mandate_codec 0 (2, 0) id sample_coordinates (EventRecordId 1)
     sample_mandated)"
proof -
  let ?sh = show_hyphenated and ?c = sample_coordinates and ?k = sample_mandate_codec
  have events: "control_events ?sh ?c sample_mandated = [sample_start_event]"
    using append_mandate_fact_ok(2) [OF start_mandate_ok(1) [OF sample_start]] by (simp add: new_control_events)
  have e: "ev_id sample_start_event = EventRecordId 1" "ev_kind sample_start_event = MandateStarted"
    by (simp_all add: sample_start_event_def event_from_new_def event_witnessed_def)
  have targets: "mandate_targets_thread ?sh sample_started ?c"
    by (simp add: sample_started_def started_payload_targets)
  have start: "mandate_start_event ?sh ?k ?c (control_events ?sh ?c sample_mandated) (EventRecordId 1) =
      Inr (Some (sample_start_event, sample_started))"
    using e targets decode_started_ok [of ?k sample_start_event sample_started]
    by (simp add: events sample_mandate_codec_def)
  have none: "mandate_revoked_event ?sh ?k (control_events ?sh ?c sample_mandated) (EventRecordId 1)
      sample_started = Inr None"
    using e by (simp add: events)
  have app: "append_mandate_fact ?sh 0 (2, 0) ?c MandateRevoked (json_of_mandate_revoked sample_revoked)
      sample_mandated = (Inr (event_from_new (control_stream_id ?sh ?c) (EventSequence 2)
        (event_witnessed (2, 0) ?c MandateRevoked (json_of_mandate_revoked sample_revoked))),
      with_events (control_stream_id ?sh ?c) 0
        [event_witnessed (2, 0) ?c MandateRevoked (json_of_mandate_revoked sample_revoked)] sample_mandated)"
    by (subst append_mandate_fact_succeeds)
      (simp_all add: check_in_memory_lease_epoch_def json_of_mandate_revoked_def events,
       simp_all add: sample_mandated_def with_events_def store_new_def raise_in_memory_lease_epoch_def
         event_witnessed_def)
  obtain r s1 where revoke: "revoke_mandate ?sh ?k 0 (2, 0) id ?c (EventRecordId 1) sample_mandated = (Inr r, s1)"
      "rr_status r = Revoked" "rr_payload r = sample_revoked"
    using start none app [unfolded sample_revoked_def]
    by (simp add: revoke_mandate_def Let_def sample_revoked_def)
  have "dec_mandate_revoked ?k (json_of_mandate_revoked (rr_payload r)) = Inr (rr_payload r)"
    by (simp add: revoke(3) sample_mandate_codec_def)
  from revocation_is_final [OF sample_mandated_reachable _ revoke(1,2) this later_refl inj_show_hyphenated,
      where ep' = 0 and st' = "(3, 0)" and between' = id]
  show ?thesis by (simp add: revoke(1) later_refl)
qed

end
