(* ===== verification/Loop_Continuation.thy ===== *)
theory Loop_Continuation
  imports Mandate_Lifecycle
begin

section \<open>Continuing a turn\<close>

text \<open>
  \<^verbatim>\<open>src/crates/verlet-kernel/src/kernel/runtime_host/loop_continuation.rs\<close> and
  \<open>RuntimeHost::continue_turn_if_requested\<close> of \<^verbatim>\<open>src/crates/verlet-kernel/src/kernel/runtime_host.rs\<close>: a
  request to continue a turn is decided, the decision is discharged to the control stream,
  and the next turn is submitted.

  The operations run against the in-memory store.  A continuation awaits the store up to five times and
  holds no lock, so other tasks may run between any two of its steps: the argument \<open>env\<close> is what they do
  to the store, \<open>env k\<close> between the \<open>k\<close>-th access and the next.  What \<open>admission::submit_turn\<close>
  answers is an argument (\<open>submitted\<close>): it does not touch the store when it is called
  without an admission context, as here; the turn handed to it is part of the result.
\<close>

subsection \<open>Receipts and payloads\<close>

datatype loop_continuation_receipt =
    NoContinuation
  | ContinuationAccepted string string string event_record_id
  | ContinuationRejected string string string event_record_id

definition json_of_continuation_subject :: "turn_continuation_subject \<Rightarrow> json" where
  "json_of_continuation_subject s = jobj
     (field ''loop_id'' (JString (cs_loop_id s)) @ field ''parent_turn_id'' (JString (cs_parent_turn_id s)))"

definition json_of_continuation_accepted :: "turn_continuation_accepted_payload \<Rightarrow> json" where
  "json_of_continuation_accepted p = jobj
     (field ''subject'' (json_of_continuation_subject (ca_subject p)) @
      field ''snapshot_id'' (JString (ca_snapshot_id p)) @
      field ''mandate_id'' (JString (ca_mandate_id p)) @
      field ''next_turn_id'' (JString (ca_next_turn_id p)) @
      opt_field ''admissible'' jstrs (ca_admissible p))"

definition json_of_continuation_rejected :: "turn_continuation_rejected_payload \<Rightarrow> json" where
  "json_of_continuation_rejected p = jobj
     (field ''subject'' (json_of_continuation_subject (cj_subject p)) @
      field ''snapshot_id'' (JString (cj_snapshot_id p)) @
      field ''reason'' (JString (cj_reason p)) @
      opt_field ''admissible'' jstrs (cj_admissible p))"

subsection \<open>Reading the streams\<close>

text \<open>
  Two functions walk the control stream and keep the candidate with the greatest sequence number,
  replacing the one they hold only by a strictly later one.  The loop is written once, with the
  part that differs as its first argument.
\<close>

primrec latest_by_sequence ::
  "(event_record \<Rightarrow> 'a option verlet_result) \<Rightarrow> event_record list \<Rightarrow> (i64 \<times> 'a) option \<Rightarrow>
   (i64 \<times> 'a) option verlet_result" where
  "latest_by_sequence select [] latest = Inr latest"
| "latest_by_sequence select (event # events) latest =
     and_then (select event) (\<lambda>found.
       latest_by_sequence select events
         (case found of
            None \<Rightarrow> latest
          | Some candidate \<Rightarrow>
              (let sequence = sequence_get (ev_sequence event) in
               if (case latest of Some (latest_sequence, _) \<Rightarrow> sequence > latest_sequence | None \<Rightarrow> True)
               then Some (sequence, candidate) else latest)))"

definition continue_candidate ::
  "control_codec \<Rightarrow> string \<Rightarrow> string \<Rightarrow> event_record \<Rightarrow>
   (event_record \<times> turn_continue_requested_payload) option verlet_result" where
  "continue_candidate codec loop_id parent_turn_id event =
     (if ev_kind event \<noteq> TurnContinueRequested then Inr None
      else case dec_continue_requested codec (ev_payload event) of
          Inl _ \<Rightarrow> Inr None
        | Inr payload \<Rightarrow>
            if cs_loop_id (cr_subject payload) \<noteq> loop_id \<or>
               cs_parent_turn_id (cr_subject payload) \<noteq> parent_turn_id
            then Inr None else Inr (Some (event, payload)))"

definition latest_turn_continue_request ::
  "(uuid \<Rightarrow> string) \<Rightarrow> control_codec \<Rightarrow> thread_coordinates \<Rightarrow> string \<Rightarrow> string \<Rightarrow> store_inner \<Rightarrow>
   (event_record \<times> turn_continue_requested_payload) option verlet_result" where
  "latest_turn_continue_request show_uuid codec coordinates loop_id parent_turn_id inner =
     and_then (history_err (read_events (control_stream_id show_uuid coordinates) None inner)) (\<lambda>events.
     and_then (latest_by_sequence (continue_candidate codec loop_id parent_turn_id) events None)
       (\<lambda>latest. Inr (map_option snd latest)))"

definition receipt_candidate ::
  "control_codec \<Rightarrow> turn_continuation_subject \<Rightarrow> string \<Rightarrow> event_record \<Rightarrow>
   loop_continuation_receipt option verlet_result" where
  "receipt_candidate codec subject snapshot_id event =
     (if ev_kind event = TurnContinuationAccepted then
        and_then (decode_fact ''turn.continuation.accepted'' (dec_continuation_accepted codec) event)
          (\<lambda>payload.
        Inr (if ca_subject payload \<noteq> subject \<or> ca_snapshot_id payload \<noteq> snapshot_id then None
             else Some (ContinuationAccepted (cs_loop_id (ca_subject payload))
                    (cs_parent_turn_id (ca_subject payload)) (ca_next_turn_id payload) (ev_id event))))
      else if ev_kind event = TurnContinuationRejected then
        and_then (decode_fact ''turn.continuation.rejected'' (dec_continuation_rejected codec) event)
          (\<lambda>payload.
        Inr (if cj_subject payload \<noteq> subject \<or> cj_snapshot_id payload \<noteq> snapshot_id then None
             else Some (ContinuationRejected (cs_loop_id (cj_subject payload))
                    (cs_parent_turn_id (cj_subject payload)) (cj_reason payload) (ev_id event))))
      else Inr None)"

definition existing_continuation_receipt ::
  "(uuid \<Rightarrow> string) \<Rightarrow> control_codec \<Rightarrow> thread_coordinates \<Rightarrow> turn_continuation_subject \<Rightarrow> string \<Rightarrow>
   store_inner \<Rightarrow> loop_continuation_receipt option verlet_result" where
  "existing_continuation_receipt show_uuid codec coordinates subject snapshot_id inner =
     and_then (history_err (read_events (control_stream_id show_uuid coordinates) None inner)) (\<lambda>events.
     and_then (latest_by_sequence (receipt_candidate codec subject snapshot_id) events None)
       (\<lambda>latest. Inr (map_option snd latest)))"

definition is_turn_submitted :: "string \<Rightarrow> event_record \<Rightarrow> bool" where
  "is_turn_submitted turn_id event \<longleftrightarrow> ev_kind event = TurnSubmitted \<and>
     Option.bind (json_get (ev_payload event) ''turn_id'') as_str = Some turn_id"

definition turn_submitted_event ::
  "(uuid \<Rightarrow> string) \<Rightarrow> thread_coordinates \<Rightarrow> string \<Rightarrow> store_inner \<Rightarrow> event_record option verlet_result" where
  "turn_submitted_event show_uuid coordinates turn_id inner =
     and_then (history_err (read_events (stream_for_thread show_uuid coordinates) None inner)) (\<lambda>events.
     Inr (max_by_key (\<lambda>event. sequence_get (ev_sequence event)) (filter (is_turn_submitted turn_id) events)))"

subsection \<open>Writing the streams\<close>

text \<open>Appending one record and taking the first of what the store returns.\<close>

definition append_one ::
  "(uuid \<Rightarrow> string) \<Rightarrow> u64 \<Rightarrow> event_stream_id \<Rightarrow> new_event_record \<Rightarrow> store_inner \<Rightarrow>
   event_record verlet_result \<times> store_inner" where
  "append_one show_uuid lease_epoch stream_id record inner =
     (case append_events show_uuid lease_epoch stream_id [record] inner of
        (Inl e, inner') \<Rightarrow> (Inl (StoreError e), inner')
      | (Inr [], inner') \<Rightarrow> (Inl (HistoryMessage ''event append returned no record''), inner')
      | (Inr (event # _), inner') \<Rightarrow> (Inr event, inner'))"

definition append_control_discharge ::
  "(uuid \<Rightarrow> string) \<Rightarrow> u64 \<Rightarrow> stamp \<Rightarrow> thread_coordinates \<Rightarrow> event_kind \<Rightarrow> json \<Rightarrow> event_record_id \<Rightarrow>
   string \<Rightarrow> store_inner \<Rightarrow> event_record verlet_result \<times> store_inner" where
  "append_control_discharge show_uuid lease_epoch event_stamp coordinates kind payload source_event_id
     function_name inner =
     append_one show_uuid lease_epoch (control_stream_id show_uuid coordinates)
       (event_discharged event_stamp coordinates kind payload
          (provenance_default\<lparr>ep_source_streams := [control_stream_id show_uuid coordinates],
             ep_source_event_ids := [source_event_id],
             ep_discharged_by := Some ''scheduler:turn-continuation'',
             ep_function := Some function_name\<rparr>)) inner"

definition append_continuation_accepted_event ::
  "(uuid \<Rightarrow> string) \<Rightarrow> u64 \<Rightarrow> stamp \<Rightarrow> thread_coordinates \<Rightarrow> turn_continuation_subject \<Rightarrow> string \<Rightarrow>
   string \<Rightarrow> string \<Rightarrow> event_record_id \<Rightarrow> store_inner \<Rightarrow> event_record verlet_result \<times> store_inner" where
  "append_continuation_accepted_event show_uuid lease_epoch event_stamp coordinates subject snapshot_id
     mandate_id next_turn_id consumed_request_id inner =
     append_control_discharge show_uuid lease_epoch event_stamp coordinates TurnContinuationAccepted
       (json_of_continuation_accepted \<lparr>ca_subject = subject, ca_snapshot_id = snapshot_id,
          ca_mandate_id = mandate_id, ca_next_turn_id = next_turn_id, ca_admissible = None\<rparr>)
       consumed_request_id ''turn_continuation/v1'' inner"

definition append_continuation_rejected_event ::
  "(uuid \<Rightarrow> string) \<Rightarrow> u64 \<Rightarrow> stamp \<Rightarrow> thread_coordinates \<Rightarrow> turn_continuation_subject \<Rightarrow> string \<Rightarrow>
   string \<Rightarrow> event_record_id \<Rightarrow> store_inner \<Rightarrow> event_record verlet_result \<times> store_inner" where
  "append_continuation_rejected_event show_uuid lease_epoch event_stamp coordinates subject snapshot_id
     reason consumed_request_id inner =
     append_control_discharge show_uuid lease_epoch event_stamp coordinates TurnContinuationRejected
       (json_of_continuation_rejected \<lparr>cj_subject = subject, cj_snapshot_id = snapshot_id,
          cj_reason = reason, cj_admissible = None\<rparr>)
       consumed_request_id ''turn_continuation/v1'' inner"

definition turn_submitted_json :: "(uuid \<Rightarrow> string) \<Rightarrow> string \<Rightarrow> event_record_id \<Rightarrow> json" where
  "turn_submitted_json show_uuid next_turn_id accepted_event_id = jobj
     [(''turn_id'', JString next_turn_id), (''source'', JString ''turn.continuation.accepted''),
      (''accepted_event_id'', JString (show_event_id show_uuid accepted_event_id))]"

definition append_loop_turn_submitted_event ::
  "(uuid \<Rightarrow> string) \<Rightarrow> u64 \<Rightarrow> stamp \<Rightarrow> (store_inner \<Rightarrow> store_inner) \<Rightarrow> thread_coordinates \<Rightarrow> string \<Rightarrow>
   event_record_id \<Rightarrow> store_inner \<Rightarrow> event_record verlet_result \<times> store_inner" where
  "append_loop_turn_submitted_event show_uuid lease_epoch event_stamp between coordinates next_turn_id
     accepted_event_id inner =
     or_return (turn_submitted_event show_uuid coordinates next_turn_id inner) inner (\<lambda>found.
     case found of
       Some existing \<Rightarrow> (Inr existing, inner)
     | None \<Rightarrow>
         append_one show_uuid lease_epoch (stream_for_thread show_uuid coordinates)
           (event_discharged event_stamp coordinates TurnSubmitted
              (turn_submitted_json show_uuid next_turn_id accepted_event_id)
              (provenance_default\<lparr>ep_source_streams := [control_stream_id show_uuid coordinates],
                 ep_source_event_ids := [accepted_event_id],
                 ep_discharged_by := Some ''scheduler:loop-continuation'',
                 ep_function := Some ''turn_submit/v1''\<rparr>)) (between inner))"

subsection \<open>The whole continuation\<close>

type_synonym continuation_outcome =
  "loop_continuation_receipt verlet_result \<times> (string \<times> string) option \<times> store_inner"

text \<open>Submitting the next turn, after its record: the answer of \<open>submit_turn\<close> decides.\<close>

definition submit_next ::
  "unit verlet_result \<Rightarrow> event_record verlet_result \<times> store_inner \<Rightarrow> string \<Rightarrow> string \<Rightarrow>
   loop_continuation_receipt \<Rightarrow> continuation_outcome" where
  "submit_next submitted appended next_turn_id next_turn_input receipt =
     (case appended of
        (Inl e, inner') \<Rightarrow> (Inl e, None, inner')
      | (Inr _, inner') \<Rightarrow>
          (case submitted of
             Inl e \<Rightarrow> (Inl e, Some (next_turn_id, next_turn_input), inner')
           | Inr _ \<Rightarrow> (Inr receipt, Some (next_turn_id, next_turn_input), inner')))"

text \<open>The branch for a request that already has a receipt.\<close>

definition resume_continuation ::
  "(uuid \<Rightarrow> string) \<Rightarrow> u64 \<Rightarrow> stamp \<Rightarrow> unit verlet_result \<Rightarrow> (nat \<Rightarrow> store_inner \<Rightarrow> store_inner) \<Rightarrow>
   thread_coordinates \<Rightarrow> string \<Rightarrow> loop_continuation_receipt \<Rightarrow> store_inner \<Rightarrow> continuation_outcome" where
  "resume_continuation show_uuid lease_epoch submitted_stamp submitted env coordinates next_turn_input
     receipt inner =
     (case receipt of
        ContinuationAccepted _ _ next_turn_id accepted_event_id \<Rightarrow>
          (let inner = env 1 inner in
           case turn_submitted_event show_uuid coordinates next_turn_id inner of
             Inl e \<Rightarrow> (Inl e, None, inner)
           | Inr (Some _) \<Rightarrow> (Inr receipt, None, inner)
           | Inr None \<Rightarrow>
               submit_next submitted
                 (append_loop_turn_submitted_event show_uuid lease_epoch submitted_stamp (env 3) coordinates
                    next_turn_id accepted_event_id (env 2 inner)) next_turn_id next_turn_input receipt)
      | _ \<Rightarrow> (Inr receipt, None, inner))"

text \<open>The branch that decides; the stamps are those of the decision and of the submission record.\<close>

definition decide_and_continue ::
  "(uuid \<Rightarrow> string) \<Rightarrow> (i64 \<Rightarrow> string option) \<Rightarrow> control_codec \<Rightarrow> u64 \<Rightarrow> stamp \<Rightarrow> stamp \<Rightarrow>
   unit verlet_result \<Rightarrow> (nat \<Rightarrow> store_inner \<Rightarrow> store_inner) \<Rightarrow> thread_coordinates \<Rightarrow> string \<Rightarrow> string \<Rightarrow>
   string \<Rightarrow> i64 \<Rightarrow> u32 \<Rightarrow> event_record \<times> turn_continue_requested_payload \<Rightarrow> store_inner \<Rightarrow>
   continuation_outcome" where
  "decide_and_continue show_uuid rfc3339 codec lease_epoch decided_stamp submitted_stamp submitted env
     coordinates loop_id parent_turn_id next_turn_id now_ms completed_continuations request inner =
     (let (request_event, request_payload) = request;
          source_event_id = (case ep_source_event_ids (ev_provenance request_event) of
            i # _ \<Rightarrow> i | [] \<Rightarrow> ev_id request_event);
          subject = cr_subject request_payload;
          snapshot_id = cr_snapshot_id request_payload;
          inner = env 1 inner in
      case decide_turn_continuation show_uuid rfc3339 codec (\<lambda>i n. read_events i n inner)
             \<lparr>tq_coordinates = coordinates, tq_subject = subject, tq_snapshot_id = snapshot_id,
              tq_request_event_id = source_event_id, tq_now_ms = now_ms,
              tq_completed_continuations = completed_continuations\<rparr> of
        Inl e \<Rightarrow> (Inl e, None, inner)
      | Inr NoRequest \<Rightarrow> (Inr NoContinuation, None, inner)
      | Inr (Accept consumed_request_id mandate_id next_turn_input) \<Rightarrow>
          (case append_continuation_accepted_event show_uuid lease_epoch decided_stamp coordinates subject
                  snapshot_id mandate_id next_turn_id consumed_request_id (env 2 inner) of
             (Inl e, inner') \<Rightarrow> (Inl e, None, inner')
           | (Inr accepted, inner') \<Rightarrow>
               submit_next submitted
                 (append_loop_turn_submitted_event show_uuid lease_epoch submitted_stamp (env 4) coordinates
                    next_turn_id (ev_id accepted) (env 3 inner')) next_turn_id next_turn_input
                 (ContinuationAccepted loop_id parent_turn_id next_turn_id (ev_id accepted)))
      | Inr (Reject consumed_request_id reason _) \<Rightarrow>
          (case append_continuation_rejected_event show_uuid lease_epoch decided_stamp coordinates subject
                  snapshot_id reason (case consumed_request_id of Some i \<Rightarrow> i | None \<Rightarrow> ev_id request_event)
                  (env 2 inner) of
             (Inl e, inner') \<Rightarrow> (Inl e, None, inner')
           | (Inr rejected, inner') \<Rightarrow>
               (Inr (ContinuationRejected loop_id parent_turn_id reason (ev_id rejected)), None, inner')))"

definition continue_turn_if_requested ::
  "(uuid \<Rightarrow> string) \<Rightarrow> (i64 \<Rightarrow> string option) \<Rightarrow> control_codec \<Rightarrow> u64 \<Rightarrow> stamp \<Rightarrow> stamp \<Rightarrow>
   unit verlet_result \<Rightarrow> (nat \<Rightarrow> store_inner \<Rightarrow> store_inner) \<Rightarrow> thread_coordinates \<Rightarrow> string \<Rightarrow> string \<Rightarrow>
   string \<Rightarrow> i64 \<Rightarrow> u32 \<Rightarrow> store_inner \<Rightarrow> continuation_outcome" where
  "continue_turn_if_requested show_uuid rfc3339 codec lease_epoch decided_stamp submitted_stamp submitted env
     coordinates loop_id parent_turn_id next_turn_id now_ms completed_continuations inner =
     (case latest_turn_continue_request show_uuid codec coordinates loop_id parent_turn_id inner of
        Inl e \<Rightarrow> (Inl e, None, inner)
      | Inr None \<Rightarrow> (Inr NoContinuation, None, inner)
      | Inr (Some request) \<Rightarrow>
          (let inner = env 0 inner in
           case existing_continuation_receipt show_uuid codec coordinates (cr_subject (snd request))
                  (cr_snapshot_id (snd request)) inner of
             Inl e \<Rightarrow> (Inl e, None, inner)
           | Inr (Some receipt) \<Rightarrow>
               resume_continuation show_uuid lease_epoch submitted_stamp submitted env coordinates
                 (cr_next_turn_input (snd request)) receipt inner
           | Inr None \<Rightarrow>
               decide_and_continue show_uuid rfc3339 codec lease_epoch decided_stamp submitted_stamp
                 submitted env coordinates loop_id parent_turn_id next_turn_id now_ms
                 completed_continuations request inner))"

subsection \<open>What the loops find\<close>

text \<open>On a stream in order, the loop finds the last candidate.\<close>

definition selected :: "(event_record \<Rightarrow> 'a option verlet_result) \<Rightarrow> event_record \<Rightarrow> (i64 \<times> 'a) option" where
  "selected select e = (case select e of
     Inr (Some a) \<Rightarrow> Some (sequence_get (ev_sequence e), a) | _ \<Rightarrow> None)"

abbreviation in_order :: "event_record list \<Rightarrow> bool" where
  "in_order es \<equiv> sorted_wrt (\<lambda>e e'. sequence_get (ev_sequence e) < sequence_get (ev_sequence e')) es"

definition last_opt :: "'a list \<Rightarrow> 'a option" where
  "last_opt xs = (if xs = [] then None else Some (last xs))"

lemma latest_loop:
  assumes "in_order es"
    and "\<And>x. latest = Some x \<Longrightarrow> \<forall>e \<in> set es. fst x < sequence_get (ev_sequence e)"
  shows "latest_by_sequence select es latest = Inr r \<longleftrightarrow>
    (\<forall>e \<in> set es. is_ok (select e)) \<and>
    r = (case last_opt (List.map_filter (selected select) es) of Some x \<Rightarrow> Some x | None \<Rightarrow> latest)"
  using assms
proof (induction es arbitrary: latest)
  case Nil
  then show ?case by (auto simp: last_opt_def map_filter_simps)
next
  case (Cons e es)
  have order: "in_order es" using Cons.prems(1) by simp
  show ?case
  proof (cases "select e")
    case (Inl x)
    then show ?thesis by simp
  next
    case (Inr found)
    show ?thesis
    proof (cases found)
      case None
      then have "selected select e = None" using Inr by (simp add: selected_def)
      then show ?thesis using Cons.IH [OF order, of latest] Cons.prems(2) Inr None
        by (simp add: map_filter_simps)
    next
      case (Some a)
      let ?n = "sequence_get (ev_sequence e)"
      have sel: "selected select e = Some (?n, a)" using Inr Some by (simp add: selected_def)
      have new: "(case latest of Some (m, _) \<Rightarrow> ?n > m | None \<Rightarrow> True)"
        using Cons.prems(2) by (cases latest) auto
      have "latest_by_sequence select es (Some (?n, a)) = Inr r \<longleftrightarrow>
          (\<forall>e \<in> set es. is_ok (select e)) \<and>
          r = (case last_opt (List.map_filter (selected select) es) of Some x \<Rightarrow> Some x | None \<Rightarrow> Some (?n, a))"
        by (rule Cons.IH [OF order]) (use Cons.prems(1) in auto)
      then show ?thesis using Inr Some sel new
        by (simp add: map_filter_simps last_opt_def)
    qed
  qed
qed

lemma latest_found:
  assumes "in_order es"
  shows "and_then (latest_by_sequence select es None) (\<lambda>l. Inr (map_option snd l)) = Inr r \<longleftrightarrow>
    (\<forall>e \<in> set es. is_ok (select e)) \<and>
    r = map_option snd (last_opt (List.map_filter (selected select) es))"
proof -
  have "latest_by_sequence select es None = Inr l \<longleftrightarrow> (\<forall>e \<in> set es. is_ok (select e)) \<and>
      l = last_opt (List.map_filter (selected select) es)" for l
    using latest_loop [OF assms, of None select l] by (simp split: option.splits)
  then show ?thesis by (auto simp: and_then_eq_Inr)
qed

lemma last_opt_snoc: "last_opt (xs @ [x]) = Some x"
  by (simp add: last_opt_def)

lemma append_one_ok:
  assumes "append_one sh ep i record s = (Inr e, s')"
  shows "append_events sh ep i [record] s = (Inr [e], s')"
    and "stream_events s' i = stream_events s i @ [e]" "j \<noteq> i \<Longrightarrow> stream_events s' j = stream_events s j"
    and "ev_kind e = ne_kind record" "ev_payload e = ne_payload record" "ev_id e = ne_id record"
proof -
  from assms obtain es where app: "append_events sh ep i [record] s = (Inr (e # es), s')"
    by (auto simp: append_one_def split: prod.splits sum.splits list.splits)
  then have es: "e # es = numbered i (int (length (stream_events s i))) [record]"
    and s': "s' = with_events i ep [record] s" by (simp_all add: append_events_ok)
  then have e: "es = []" "e = event_from_new i (EventSequence (int (length (stream_events s i)) + 1)) record"
    by (simp_all add: numbered_def)
  show "append_events sh ep i [record] s = (Inr [e], s')" using app e(1) by simp
  show "stream_events s' i = stream_events s i @ [e]" "j \<noteq> i \<Longrightarrow> stream_events s' j = stream_events s j"
    using s' es e(1) by simp_all
  show "ev_kind e = ne_kind record" "ev_payload e = ne_payload record" "ev_id e = ne_id record"
    by (simp_all add: e(2) event_from_new_def)
qed

lemma append_one_journal: "append_one sh ep i record s = (Inr e, s') \<Longrightarrow> journal_ok s \<Longrightarrow> journal_ok s'"
  using append_one_ok(1) journal_ok_append by (metis snd_conv)

lemma discharged_fields [simp]:
  "ne_kind (event_discharged st c k j p) = k" "ne_payload (event_discharged st c k j p) = j"
  "ne_id (event_discharged st c k j p) = EventRecordId (fst st)"
  by (simp_all add: event_discharged_def)

lemma streams_apart: "control_stream_id sh c \<noteq> stream_for_thread sh c'"
  by (simp add: control_stream_id_def stream_for_thread_def)

text \<open>What the look-ups find.\<close>

lemma latest_request_eq:
  assumes "journal_ok s"
  shows "latest_turn_continue_request sh codec c l p s = Inr (map_option snd (last_opt
    (List.map_filter (selected (continue_candidate codec l p)) (control_events sh c s))))"
proof -
  have "is_ok (continue_candidate codec l p e)" for e
    by (simp add: continue_candidate_def split: sum.split)
  then show ?thesis
    using latest_found [OF stream_in_order(2) [OF assms, of "control_stream_id sh c"],
        of "continue_candidate codec l p"]
    by (simp add: latest_turn_continue_request_def)
qed

lemma last_opt_in: "last_opt xs = Some x \<Longrightarrow> x \<in> set xs"
  by (auto simp: last_opt_def split: if_splits)

lemma map_filter_mem: "x \<in> set (List.map_filter f xs) \<longleftrightarrow> (\<exists>y \<in> set xs. f y = Some x)"
  by (induction xs) (auto simp: map_filter_simps split: option.splits)

lemma selected_iff: "selected select e = Some (k, a) \<longleftrightarrow>
    select e = Inr (Some a) \<and> k = sequence_get (ev_sequence e)"
  by (auto simp: selected_def split: sum.splits option.splits)

lemma latest_request_subject:
  assumes "journal_ok s" "latest_turn_continue_request sh codec c l p s = Inr (Some request)"
  shows "cr_subject (snd request) = \<lparr>cs_loop_id = l, cs_parent_turn_id = p\<rparr>"
proof -
  from assms obtain k where "last_opt (List.map_filter (selected (continue_candidate codec l p))
      (control_events sh c s)) = Some (k, request)"
    by (auto simp: latest_request_eq)
  from last_opt_in [OF this] obtain e where "continue_candidate codec l p e = Inr (Some request)"
    unfolding map_filter_mem selected_iff by blast
  then show ?thesis
    by (cases "cr_subject (snd request)") (auto simp: continue_candidate_def split: sum.splits if_splits)
qed

lemma existing_receipt_iff:
  assumes "journal_ok s"
  shows "existing_continuation_receipt sh codec c subject snap s = Inr r \<longleftrightarrow>
    (\<forall>e \<in> set (control_events sh c s). is_ok (receipt_candidate codec subject snap e)) \<and>
    r = map_option snd (last_opt (List.map_filter (selected (receipt_candidate codec subject snap))
          (control_events sh c s)))"
  using latest_found [OF stream_in_order(2) [OF assms, of "control_stream_id sh c"],
      of "receipt_candidate codec subject snap"]
  by (simp add: existing_continuation_receipt_def)

lemma submitted_found:
  "turn_submitted_event sh c n s = Inr (max_by_key (\<lambda>e. sequence_get (ev_sequence e))
     (filter (is_turn_submitted n) (stream_events s (stream_for_thread sh c))))"
  by (simp add: turn_submitted_event_def)

lemma turn_submitted_json_id: "json_get (turn_submitted_json sh n i) ''turn_id'' = Some (JString n)"
  by (simp add: turn_submitted_json_def json_get_jobj)

subsection \<open>Decisions and submissions on record\<close>

text \<open>The decoders read the decisions this code writes.\<close>

definition reads_decisions :: "control_codec \<Rightarrow> bool" where
  "reads_decisions codec \<longleftrightarrow>
     (\<forall>p. ca_admissible p = None \<longrightarrow>
        dec_continuation_accepted codec (json_of_continuation_accepted p) = Inr p) \<and>
     (\<forall>p. cj_admissible p = None \<longrightarrow>
        dec_continuation_rejected codec (json_of_continuation_rejected p) = Inr p)"

text \<open>Other tasks reach the store through its calls only.\<close>

definition interference :: "(uuid \<Rightarrow> string) \<Rightarrow> (nat \<Rightarrow> store_inner \<Rightarrow> store_inner) \<Rightarrow> bool" where
  "interference sh env \<longleftrightarrow> (\<forall>k x. later sh x (env k x))"

definition decided ::
  "(uuid \<Rightarrow> string) \<Rightarrow> control_codec \<Rightarrow> thread_coordinates \<Rightarrow> turn_continuation_subject \<Rightarrow> string \<Rightarrow>
   loop_continuation_receipt \<Rightarrow> store_inner \<Rightarrow> bool" where
  "decided sh codec c subject snap r s \<longleftrightarrow>
     (\<exists>e \<in> set (control_events sh c s). receipt_candidate codec subject snap e = Inr (Some r))"

definition turn_on_record ::
  "(uuid \<Rightarrow> string) \<Rightarrow> thread_coordinates \<Rightarrow> string \<Rightarrow> store_inner \<Rightarrow> bool" where
  "turn_on_record sh c n s \<longleftrightarrow> (\<exists>e \<in> set (stream_events s (stream_for_thread sh c)). is_turn_submitted n e)"

lemma later_trans: "later sh s s1 \<Longrightarrow> later sh s1 s2 \<Longrightarrow> later sh s s2"
  unfolding later_def by (rule rtranclp_trans)

lemma interference_later: "interference sh env \<Longrightarrow> later sh x (env k x)"
  by (simp add: interference_def)

lemma later_events: "reachable sh s \<Longrightarrow> later sh s s' \<Longrightarrow> set (stream_events s i) \<subseteq> set (stream_events s' i)"
  using reachable_later [of sh s s'] set_mono_prefix unfolding journal_grows_def by blast

lemma decided_later:
  "reachable sh s \<Longrightarrow> later sh s s' \<Longrightarrow> decided sh codec c subject snap r s \<Longrightarrow> decided sh codec c subject snap r s'"
  using later_events [of sh s s' "control_stream_id sh c"] by (auto simp: decided_def)

lemma turn_on_record_later:
  "reachable sh s \<Longrightarrow> later sh s s' \<Longrightarrow> turn_on_record sh c n s \<Longrightarrow> turn_on_record sh c n s'"
  using later_events [of sh s s' "stream_for_thread sh c"] by (auto simp: turn_on_record_def)

definition accepted_on_record ::
  "(uuid \<Rightarrow> string) \<Rightarrow> thread_coordinates \<Rightarrow> loop_continuation_receipt \<Rightarrow> store_inner \<Rightarrow> bool" where
  "accepted_on_record sh c r s \<longleftrightarrow> (\<forall>lo pa n i. r = ContinuationAccepted lo pa n i \<longrightarrow> turn_on_record sh c n s)"

lemma accepted_on_record_later:
  "reachable sh s \<Longrightarrow> later sh s s' \<Longrightarrow> accepted_on_record sh c r s \<Longrightarrow> accepted_on_record sh c r s'"
  by (auto simp: accepted_on_record_def intro: turn_on_record_later)

lemma turn_on_record_iff: "turn_on_record sh c n s \<longleftrightarrow> (\<exists>x. turn_submitted_event sh c n s = Inr (Some x))"
proof -
  have "turn_on_record sh c n s \<longleftrightarrow> filter (is_turn_submitted n) (stream_events s (stream_for_thread sh c)) \<noteq> []"
    by (auto simp: turn_on_record_def filter_empty_conv)
  then show ?thesis unfolding submitted_found by (metis max_by_key_None not_None_eq sum.inject(2))
qed

lemma receipt_found:
  assumes "reachable sh s" "decided sh codec c subject snap r s"
    and "existing_continuation_receipt sh codec c subject snap s = Inr found"
  shows "found \<noteq> None"
proof -
  have "journal_ok s" using reachable_ok [OF assms(1)] by blast
  note found = assms(3) [unfolded existing_receipt_iff [OF this]]
  from assms(2) obtain e where e: "e \<in> set (control_events sh c s)" "receipt_candidate codec subject snap e = Inr (Some r)"
    by (auto simp: decided_def)
  then have "(sequence_get (ev_sequence e), r) \<in> set (List.map_filter
      (selected (receipt_candidate codec subject snap)) (control_events sh c s))"
    unfolding map_filter_mem selected_iff by blast
  then show ?thesis using found by (auto simp: last_opt_def)
qed

lemma receipt_decided:
  assumes "reachable sh s" "existing_continuation_receipt sh codec c subject snap s = Inr (Some r)"
  shows "decided sh codec c subject snap r s"
proof -
  have "journal_ok s" using reachable_ok [OF assms(1)] by blast
  from assms(2) [unfolded existing_receipt_iff [OF this]]
  have "map_option snd (last_opt (List.map_filter (selected (receipt_candidate codec subject snap))
      (control_events sh c s))) = Some r" by simp
  then obtain k where
    "last_opt (List.map_filter (selected (receipt_candidate codec subject snap)) (control_events sh c s)) = Some (k, r)"
    by auto
  from last_opt_in [OF this] show ?thesis
    unfolding decided_def map_filter_mem selected_iff by blast
qed

subsection \<open>What the steps write\<close>

lemma append_one_later: "append_one sh ep i record s = (x, s') \<Longrightarrow> later sh s s'"
proof -
  assume one: "append_one sh ep i record s = (x, s')"
  obtain r s'' where app: "append_events sh ep i [record] s = (r, s'')" by fastforce
  with one have "s'' = s'" by (auto simp: append_one_def split: sum.splits list.splits)
  with call_later [OF call_append_events [OF app]] show ?thesis by simp
qed

lemma accepted_appended:
  assumes "append_continuation_accepted_event sh ep st c subject snap m n i s = (Inr e, s')"
    and "reads_decisions codec"
  shows "decided sh codec c subject snap (ContinuationAccepted (cs_loop_id subject)
      (cs_parent_turn_id subject) n (ev_id e)) s'" and "later sh s s'"
proof -
  note app = assms(1) [unfolded append_continuation_accepted_event_def append_control_discharge_def]
  note one = append_one_ok [OF app]
  have "receipt_candidate codec subject snap e = Inr (Some (ContinuationAccepted (cs_loop_id subject)
      (cs_parent_turn_id subject) n (ev_id e)))"
    using one(4,5) assms(2) by (simp add: receipt_candidate_def decode_fact_def reads_decisions_def)
  then show "decided sh codec c subject snap (ContinuationAccepted (cs_loop_id subject)
      (cs_parent_turn_id subject) n (ev_id e)) s'"
    by (auto simp: decided_def one(2))
  show "later sh s s'" by (rule append_one_later [OF app])
qed

lemma rejected_appended:
  assumes "append_continuation_rejected_event sh ep st c subject snap reason i s = (Inr e, s')"
    and "reads_decisions codec"
  shows "decided sh codec c subject snap (ContinuationRejected (cs_loop_id subject)
      (cs_parent_turn_id subject) reason (ev_id e)) s'" and "later sh s s'"
proof -
  note app = assms(1) [unfolded append_continuation_rejected_event_def append_control_discharge_def]
  note one = append_one_ok [OF app]
  have "receipt_candidate codec subject snap e = Inr (Some (ContinuationRejected (cs_loop_id subject)
      (cs_parent_turn_id subject) reason (ev_id e)))"
    using one(4,5) assms(2) by (simp add: receipt_candidate_def decode_fact_def reads_decisions_def)
  then show "decided sh codec c subject snap (ContinuationRejected (cs_loop_id subject)
      (cs_parent_turn_id subject) reason (ev_id e)) s'"
    by (auto simp: decided_def one(2))
  show "later sh s s'" by (rule append_one_later [OF app])
qed

text \<open>Recording the submission leaves the control stream to the other tasks.\<close>

lemma append_submitted:
  assumes "append_loop_turn_submitted_event sh ep st between c n i s = (x, s')" "later sh s (between s)"
  shows "later sh s s'" and "is_ok x \<Longrightarrow> turn_on_record sh c n s'"
    and "control_events sh c s' = control_events sh c s \<or> control_events sh c s' = control_events sh c (between s)"
proof -
  obtain found where found: "turn_submitted_event sh c n s = Inr found" by (simp add: submitted_found)
  have "later sh s s' \<and> (is_ok x \<longrightarrow> turn_on_record sh c n s') \<and>
      (control_events sh c s' = control_events sh c s \<or> control_events sh c s' = control_events sh c (between s))"
  proof (cases found)
    case (Some e)
    with found assms(1) show ?thesis
      by (auto simp: append_loop_turn_submitted_event_def later_refl turn_on_record_iff)
  next
    case None
    with found assms(1) obtain prov where app: "append_one sh ep (stream_for_thread sh c)
        (event_discharged st c TurnSubmitted (turn_submitted_json sh n i) prov) (between s) = (x, s')"
      by (auto simp: append_loop_turn_submitted_event_def)
    note later = later_trans [OF assms(2) append_one_later [OF app]]
    show ?thesis
    proof (cases x)
      case (Inl e)
      then have "s' = between s" using app
        by (auto simp: append_one_def append_events_ok numbered_def dest: append_events_err
            split: prod.splits sum.splits list.splits)
      with later Inl show ?thesis by simp
    next
      case (Inr e)
      note one = append_one_ok [OF app [unfolded Inr]]
      have "is_turn_submitted n e"
        using one(4,5) by (simp add: is_turn_submitted_def turn_submitted_json_id)
      with later one(2) one(3) [OF streams_apart] show ?thesis by (auto simp: turn_on_record_def)
    qed
  qed
  then show "later sh s s'" "is_ok x \<Longrightarrow> turn_on_record sh c n s'"
    "control_events sh c s' = control_events sh c s \<or> control_events sh c s' = control_events sh c (between s)"
    by blast+
qed

lemma submit_next_cases:
  assumes "submit_next submitted app n input r0 = (x, sub, s')"
  obtains (refused) err where "app = (Inl err, s')" "x = Inl err" "sub = None"
  | (sent) ev where "app = (Inr ev, s')" "sub = Some (n, input)"
      "x = (case submitted of Inl err \<Rightarrow> Inl err | Inr _ \<Rightarrow> Inr r0)"
  using assms by (auto simp: submit_next_def split: prod.splits sum.splits)

subsection \<open>The resuming branch\<close>

lemma env_later:
  assumes "interference sh env"
  shows "later sh s (fold env ks s)"
  by (induction ks arbitrary: s) (auto simp: later_refl intro: later_trans interference_later [OF assms])

text \<open>
  Resuming answers the receipt it was given, hands over a turn only when the turn was not on record,
  puts it on record before, and writes nothing to the control stream.
\<close>

lemma resume_outcome:
  assumes "resume_continuation sh ep st submitted env c input r0 t = (x, sub, s1)"
    and "interference sh env" "t = env 0 s"
  shows "(x = Inr r0 \<or> (\<exists>err. x = Inl err)) \<and> later sh t s1 \<and>
    (\<exists>m \<le> 4. control_events sh c s1 = control_events sh c (fold env [0..<m] s)) \<and>
    (\<forall>y. sub = Some y \<longrightarrow> (\<exists>lo pa i. r0 = ContinuationAccepted lo pa (fst y) i) \<and>
       \<not> turn_on_record sh c (fst y) (env 1 t) \<and> turn_on_record sh c (fst y) s1) \<and>
    (x = Inr r0 \<longrightarrow> accepted_on_record sh c r0 s1)"
proof (cases r0)
  case (ContinuationAccepted lo pa n i)
  note r0 = this
  have upt: "fold env [0..<2] s = env 1 t" "fold env [0..<3] s = env 2 (env 1 t)"
      "fold env [0..<4] s = env 3 (env 2 (env 1 t))"
    by (simp_all add: assms(3) upt_rec numeral_2_eq_2 numeral_3_eq_3 eval_nat_numeral)
  have env1: "later sh t (env 1 t)" and env2: "later sh t (env 2 (env 1 t))"
    by (blast intro: later_trans interference_later [OF assms(2)])+
  obtain found where found: "turn_submitted_event sh c n (env 1 t) = Inr found" by (simp add: submitted_found)
  show ?thesis
  proof (cases found)
    case (Some e)
    with assms(1) found r0 have "x = Inr r0" "sub = None" "s1 = env 1 t" by (auto simp: resume_continuation_def)
    then show ?thesis using Some found r0 env1 upt(1)
      by (auto simp: accepted_on_record_def turn_on_record_iff intro!: exI [of _ 2])
  next
    case None
    then have off: "\<not> turn_on_record sh c n (env 1 t)" using found by (simp add: turn_on_record_iff)
    define app where "app = append_loop_turn_submitted_event sh ep st (env 3) c n i (env 2 (env 1 t))"
    from None assms(1) found r0 have next': "submit_next submitted app n input r0 = (x, sub, s1)"
      by (simp add: resume_continuation_def app_def)
    obtain a where a: "app = (a, s1)" using next' by (cases rule: submit_next_cases) auto
    note sub = append_submitted [OF a [unfolded app_def] interference_later [OF assms(2)]]
    have ctl: "\<exists>m \<le> 4. control_events sh c s1 = control_events sh c (fold env [0..<m] s)"
      using sub(3)
    proof
      assume "control_events sh c s1 = control_events sh c (env 2 (env 1 t))"
      then show ?thesis unfolding upt(2) [symmetric] by (intro exI [of _ 3]) simp
    next
      assume "control_events sh c s1 = control_events sh c (env 3 (env 2 (env 1 t)))"
      then show ?thesis unfolding upt(3) [symmetric] by (intro exI [of _ 4]) simp
    qed
    from next' show ?thesis
    proof (cases rule: submit_next_cases)
      case (refused err)
      then show ?thesis using ctl later_trans [OF env2 sub(1)] by simp
    next
      case (sent ev)
      then have "turn_on_record sh c n s1" using sub(2) a by simp
      then show ?thesis
        using sent(2,3) off ctl later_trans [OF env2 sub(1)] r0
        by (auto simp: accepted_on_record_def split: sum.splits)
    qed
  qed
qed (use assms(1,3) in \<open>auto simp: resume_continuation_def later_refl accepted_on_record_def intro!: exI [of _ 1]\<close>)

subsection \<open>The deciding branch\<close>

lemma decide_outcome:
  assumes "decide_and_continue sh rfc codec ep st st' submitted env c l p n now k request t = (Inr r, sub, s1)"
    and "interference sh env" "reachable sh t" "reads_decisions codec" "r \<noteq> NoContinuation"
    and "cr_subject (snd request) = \<lparr>cs_loop_id = l, cs_parent_turn_id = p\<rparr>"
  shows "decided sh codec c (cr_subject (snd request)) (cr_snapshot_id (snd request)) r s1 \<and> later sh t s1 \<and>
    (\<forall>y. sub = Some y \<longrightarrow> (\<exists>i. r = ContinuationAccepted l p (fst y) i)) \<and>
    accepted_on_record sh c r s1"
proof -
  obtain re rp where request: "request = (re, rp)" by (cases request)
  define q where "q = \<lparr>tq_coordinates = c, tq_subject = cr_subject rp, tq_snapshot_id = cr_snapshot_id rp,
    tq_request_event_id = (case ep_source_event_ids (ev_provenance re) of i # _ \<Rightarrow> i | [] \<Rightarrow> ev_id re),
    tq_now_ms = now, tq_completed_continuations = k\<rparr>"
  let ?t = "env 2 (env 1 t)"
  have t: "later sh t ?t" by (blast intro: later_trans interference_later [OF assms(2)])
  note ids = assms(6) [unfolded request snd_conv]
  note body = assms(1) [unfolded decide_and_continue_def request Let_def prod.case q_def [symmetric]]
  from body assms(5) consider (acc) i m input where
      "decide_turn_continuation sh rfc codec (\<lambda>i n. read_events i n (env 1 t)) q = Inr (Accept i m input)"
    | (rej) i reason b where
      "decide_turn_continuation sh rfc codec (\<lambda>i n. read_events i n (env 1 t)) q = Inr (Reject i reason b)"
    by (auto split: sum.splits turn_continuation_decision.splits)
  then show ?thesis
  proof cases
    case acc
    define app where "app = append_continuation_accepted_event sh ep st c (cr_subject rp)
      (cr_snapshot_id rp) m n i ?t"
    from body acc obtain ev s' where app: "app = (Inr ev, s')"
      by (auto simp flip: app_def simp del: One_nat_def split: prod.splits sum.splits)
    note appended = accepted_appended [OF app [unfolded app_def] assms(4)]
    let ?r = "ContinuationAccepted l p n (ev_id ev)"
    have to_s': "later sh t s'" by (rule later_trans [OF t appended(2)])
    have env3: "later sh s' (env 3 s')" by (rule interference_later [OF assms(2)])
    from body acc app have next': "submit_next submitted
        (append_loop_turn_submitted_event sh ep st' (env 4) c n (ev_id ev) (env 3 s')) n input ?r = (Inr r, sub, s1)"
      by (simp flip: app_def del: One_nat_def)
    then show ?thesis
    proof (cases rule: submit_next_cases)
      case (refused err)
      then show ?thesis by simp
    next
      case (sent ev')
      then have r: "r = ?r" by (auto split: sum.splits)
      note sub = append_submitted [OF sent(1) interference_later [OF assms(2)]]
      have rest: "later sh s' s1" by (rule later_trans [OF env3 sub(1)])
      have "decided sh codec c (cr_subject rp) (cr_snapshot_id rp) ?r s1"
        using decided_later [OF later_reachable [OF assms(3) to_s'] rest] appended(1) ids by simp
      then show ?thesis
        using later_trans [OF to_s' rest] sub(2) sent(2) by (simp add: request r accepted_on_record_def)
    qed
  next
    case rej
    define app where "app = append_continuation_rejected_event sh ep st c (cr_subject rp)
      (cr_snapshot_id rp) reason (case i of Some i \<Rightarrow> i | None \<Rightarrow> ev_id re) ?t"
    from body rej obtain ev where app: "app = (Inr ev, s1)" and sub: "sub = None"
      and r: "r = ContinuationRejected l p reason (ev_id ev)"
      by (auto simp flip: app_def simp del: One_nat_def split: prod.splits sum.splits)
    note appended = rejected_appended [OF app [unfolded app_def] assms(4)]
    show ?thesis using appended(1) ids later_trans [OF t appended(2)] sub
      by (simp add: request r accepted_on_record_def)
  qed
qed

subsection \<open>A decision stands\<close>

lemma continue_outcome:
  assumes "reachable sh s" "reads_decisions codec" "interference sh env" "r \<noteq> NoContinuation"
    and "latest_turn_continue_request sh codec c l p s = Inr (Some request)"
    and "continue_turn_if_requested sh rfc codec ep st st' submitted env c l p n now k s = (Inr r, sub, s1)"
  shows "decided sh codec c (cr_subject (snd request)) (cr_snapshot_id (snd request)) r s1 \<and> later sh s s1 \<and>
    (\<forall>y. sub = Some y \<longrightarrow> (\<exists>lo pa i. r = ContinuationAccepted lo pa (fst y) i)) \<and>
    accepted_on_record sh c r s1"
proof -
  let ?t = "env 0 s"
  have t: "later sh s ?t" by (rule interference_later [OF assms(3)])
  have reach: "reachable sh ?t" by (rule later_reachable [OF assms(1) t])
  have subject: "cr_subject (snd request) = \<lparr>cs_loop_id = l, cs_parent_turn_id = p\<rparr>"
    using latest_request_subject assms(5) reachable_ok [OF assms(1)] by blast
  from assms(5,6) obtain found where found: "existing_continuation_receipt sh codec c
      (cr_subject (snd request)) (cr_snapshot_id (snd request)) ?t = Inr found"
    by (auto simp: continue_turn_if_requested_def Let_def split: sum.splits)
  show ?thesis
  proof (cases found)
    case None
    with assms(5,6) found have "decide_and_continue sh rfc codec ep st st' submitted env c l p n now k request ?t =
        (Inr r, sub, s1)" by (simp add: continue_turn_if_requested_def Let_def)
    from decide_outcome [OF this assms(3) reach assms(2,4) subject] later_trans [OF t] show ?thesis by blast
  next
    case (Some r0)
    with assms(5,6) found have "resume_continuation sh ep st' submitted env c (cr_next_turn_input (snd request))
        r0 ?t = (Inr r, sub, s1)" by (simp add: continue_turn_if_requested_def Let_def)
    note resumed = resume_outcome [OF this assms(3) refl]
    then have "r = r0" by simp
    moreover have "decided sh codec c (cr_subject (snd request)) (cr_snapshot_id (snd request)) r0 s1"
      using decided_later [OF reach] receipt_decided [OF reach] found Some resumed by blast
    ultimately show ?thesis using resumed later_trans [OF t] by blast
  qed
qed

text \<open>A retry of a decided request never decides.\<close>

lemma retry_outcome:
  assumes "reachable sh s2" "interference sh env"
    and "latest_turn_continue_request sh codec c l p s2 = Inr (Some request)"
    and "decided sh codec c (cr_subject (snd request)) (cr_snapshot_id (snd request)) r s2"
    and "continue_turn_if_requested sh rfc codec ep st st' submitted env c l p n now k s2 = (x, sub, s3)"
  shows "(\<exists>err. x = Inl err \<and> sub = None \<and> s3 = env 0 s2) \<or>
    (\<exists>r'. existing_continuation_receipt sh codec c (cr_subject (snd request)) (cr_snapshot_id (snd request))
        (env 0 s2) = Inr (Some r') \<and>
       resume_continuation sh ep st' submitted env c (cr_next_turn_input (snd request)) r' (env 0 s2) = (x, sub, s3))"
proof (cases "existing_continuation_receipt sh codec c (cr_subject (snd request))
    (cr_snapshot_id (snd request)) (env 0 s2)")
  case (Inl err)
  with assms(3,5) have "x = Inl err \<and> sub = None \<and> s3 = env 0 s2"
    by (auto simp: continue_turn_if_requested_def Let_def)
  then show ?thesis by blast
next
  case (Inr found)
  note t = interference_later [OF assms(2), of s2 0]
  have "found \<noteq> None"
    using receipt_found [OF later_reachable [OF assms(1) t] decided_later [OF assms(1) t assms(4)] Inr] .
  then obtain r' where "found = Some r'" by blast
  with Inr assms(3,5) show ?thesis by (simp add: continue_turn_if_requested_def Let_def)
qed

lemma retry_of_latest:
  assumes "existing_continuation_receipt sh codec c (cr_subject (snd request)) (cr_snapshot_id (snd request))
      (env 0 s2) = Inr (Some r)"
    and "latest_turn_continue_request sh codec c l p s2 = Inr (Some request)"
    and "accepted_on_record sh c r (env 1 (env 0 s2))"
  shows "\<exists>s3. continue_turn_if_requested sh rfc codec ep st st' submitted env c l p n now k s2 = (Inr r, None, s3) \<and>
    (s3 = env 0 s2 \<or> s3 = env 1 (env 0 s2))"
  using assms
  by (cases r) (auto simp: continue_turn_if_requested_def Let_def resume_continuation_def turn_on_record_iff
      accepted_on_record_def)

text \<open>
  C36. A decision that was answered stands, whatever other tasks do.  The calls of other tasks may run
  between any two store accesses of \<open>continue_turn_if_requested\<close>.  When it answers with a
  decision, that decision is on the control stream for the request's subject and snapshot; if it is an
  acceptance, the accepted turn is recorded as submitted on the thread's stream; and a turn that was
  handed over is the accepted one.  After any further calls, a retry for the same snapshot (with any
  next turn id, at any time, whatever mandates say by then, and with other tasks running in between)
  takes no decision: nothing on the control stream is its own writing, what it answers is the latest
  decision on the stream, and it hands over a turn only if that decision accepted the turn and the turn
  was not on record.  As long as the decision is the latest, the retry answers it,
  hands over nothing and leaves the store to the other tasks.  (Two calls that overlap may each
  record a decision, since the look-up and the append are not one step; the later one is then
  what retries answer.)
\<close>

theorem continuation_decision_stands:
  assumes "reachable sh s" "reads_decisions codec" "interference sh env" "interference sh env2"
    and "latest_turn_continue_request sh codec c l p s = Inr (Some request)"
    and "continue_turn_if_requested sh rfc codec ep st st' submitted env c l p n now k s = (Inr r, sub, s1)"
    and "r \<noteq> NoContinuation" and "later sh s1 s2"
    and "latest_turn_continue_request sh codec c l p s2 = Inr (Some request2)"
    and "cr_snapshot_id (snd request2) = cr_snapshot_id (snd request)"
    and "continue_turn_if_requested sh rfc2 codec ep2 st2 st2' submitted2 env2 c l p n2 now2 k2 s2 = (x, sub2, s3)"
    and "subject = \<lparr>cs_loop_id = l, cs_parent_turn_id = p\<rparr>"
  shows "(\<exists>e \<in> set (control_events sh c s1).
        receipt_candidate codec subject (cr_snapshot_id (snd request)) e = Inr (Some r)) \<and>
    (\<forall>lo pa n' i. r = ContinuationAccepted lo pa n' i \<longrightarrow> (\<exists>e. turn_submitted_event sh c n' s1 = Inr (Some e))) \<and>
    (\<forall>n' input. sub = Some (n', input) \<longrightarrow> (\<exists>lo pa i. r = ContinuationAccepted lo pa n' i)) \<and>
    (\<exists>m \<le> 4. control_events sh c s3 = control_events sh c (fold env2 [0..<m] s2)) \<and>
    (\<forall>r'. x = Inr r' \<longrightarrow>
       existing_continuation_receipt sh codec c subject (cr_snapshot_id (snd request)) (env2 0 s2) = Inr (Some r')) \<and>
    (\<forall>n' input. sub2 = Some (n', input) \<longrightarrow>
       (\<exists>lo pa i. existing_continuation_receipt sh codec c subject (cr_snapshot_id (snd request)) (env2 0 s2) =
          Inr (Some (ContinuationAccepted lo pa n' i))) \<and>
       turn_submitted_event sh c n' (env2 1 (env2 0 s2)) = Inr None) \<and>
    (existing_continuation_receipt sh codec c subject (cr_snapshot_id (snd request)) (env2 0 s2) = Inr (Some r) \<longrightarrow>
       x = Inr r \<and> sub2 = None \<and> (s3 = env2 0 s2 \<or> s3 = env2 1 (env2 0 s2)))"
proof -
  note first = continue_outcome [OF assms(1,2,3,7,5,6)]
  have reach1: "reachable sh s1" using first later_reachable [OF assms(1)] by blast
  have reach2: "reachable sh s2" by (rule later_reachable [OF reach1 assms(8)])
  have "cr_subject (snd request) = subject"
    using latest_request_subject [OF _ assms(5)] reachable_ok [OF assms(1)] assms(12) by simp
  moreover have "cr_subject (snd request2) = subject"
    using latest_request_subject [OF _ assms(9)] reachable_ok [OF reach2] assms(12) by simp
  ultimately have same: "cr_subject (snd request2) = subject" "cr_subject (snd request) = subject" by simp_all
  have dec2: "decided sh codec c (cr_subject (snd request2)) (cr_snapshot_id (snd request2)) r s2"
    using decided_later [OF reach1 assms(8)] first by (simp add: same assms(10))
  have env2: "later sh s2 (env2 1 (env2 0 s2))" by (blast intro: later_trans interference_later [OF assms(4)])
  have latest: "x = Inr r \<and> sub2 = None \<and> (s3 = env2 0 s2 \<or> s3 = env2 1 (env2 0 s2))"
    if lat: "existing_continuation_receipt sh codec c subject (cr_snapshot_id (snd request)) (env2 0 s2) = Inr (Some r)"
  proof -
    have "accepted_on_record sh c r (env2 1 (env2 0 s2))"
      by (rule accepted_on_record_later [OF reach1 later_trans [OF assms(8) env2]]) (use first in simp)
    from retry_of_latest [of sh codec c request2 env2 s2 r l p rfc2 ep2 st2 st2' submitted2 n2 now2 k2,
        OF lat [folded same(1) assms(10)] assms(9) this]
    obtain s3' where "continue_turn_if_requested sh rfc2 codec ep2 st2 st2' submitted2 env2 c l p n2 now2 k2 s2 =
        (Inr r, None, s3')" "s3' = env2 0 s2 \<or> s3' = env2 1 (env2 0 s2)" by (elim exE conjE) (rule that)
    with assms(11) show ?thesis by simp
  qed
  have retry: "(\<exists>m \<le> 4. control_events sh c s3 = control_events sh c (fold env2 [0..<m] s2)) \<and>
    (\<forall>r'. x = Inr r' \<longrightarrow>
       existing_continuation_receipt sh codec c subject (cr_snapshot_id (snd request)) (env2 0 s2) = Inr (Some r')) \<and>
    (\<forall>n' input. sub2 = Some (n', input) \<longrightarrow>
       (\<exists>lo pa i. existing_continuation_receipt sh codec c subject (cr_snapshot_id (snd request)) (env2 0 s2) =
          Inr (Some (ContinuationAccepted lo pa n' i))) \<and>
       turn_submitted_event sh c n' (env2 1 (env2 0 s2)) = Inr None)"
    using retry_outcome [OF reach2 assms(4,9) dec2 assms(11)]
  proof
    assume "\<exists>err. x = Inl err \<and> sub2 = None \<and> s3 = env2 0 s2"
    then show ?thesis by (auto intro!: exI [of _ 1])
  next
    assume "\<exists>r'. existing_continuation_receipt sh codec c (cr_subject (snd request2)) (cr_snapshot_id (snd request2))
        (env2 0 s2) = Inr (Some r') \<and>
       resume_continuation sh ep2 st2' submitted2 env2 c (cr_next_turn_input (snd request2)) r' (env2 0 s2) = (x, sub2, s3)"
    then obtain r' where r': "existing_continuation_receipt sh codec c subject (cr_snapshot_id (snd request))
        (env2 0 s2) = Inr (Some r')"
      and run: "resume_continuation sh ep2 st2' submitted2 env2 c (cr_next_turn_input (snd request2)) r'
        (env2 0 s2) = (x, sub2, s3)" unfolding same assms(10) by blast
    note resumed = resume_outcome [OF run assms(4) refl]
    have "turn_submitted_event sh c n' t = Inr None" if "\<not> turn_on_record sh c n' t" for n' t
      using that by (auto simp: turn_on_record_iff submitted_found)
    with resumed r' show ?thesis by fastforce
  qed
  have recorded: "\<exists>e \<in> set (control_events sh c s1).
      receipt_candidate codec subject (cr_snapshot_id (snd request)) e = Inr (Some r)"
    using first [THEN conjunct1] unfolding decided_def same .
  have submitted: "\<forall>lo pa n' i. r = ContinuationAccepted lo pa n' i \<longrightarrow>
      (\<exists>e. turn_submitted_event sh c n' s1 = Inr (Some e))"
    using first [THEN conjunct2, THEN conjunct2, THEN conjunct2] unfolding accepted_on_record_def turn_on_record_iff .
  have accepted: "\<forall>n' input. sub = Some (n', input) \<longrightarrow> (\<exists>lo pa i. r = ContinuationAccepted lo pa n' i)"
    using first [THEN conjunct2, THEN conjunct2, THEN conjunct1] by auto
  have stands: "existing_continuation_receipt sh codec c subject (cr_snapshot_id (snd request)) (env2 0 s2) =
      Inr (Some r) \<longrightarrow> x = Inr r \<and> sub2 = None \<and> (s3 = env2 0 s2 \<or> s3 = env2 1 (env2 0 s2))"
    by (rule impI) (rule latest)
  show ?thesis
    by (rule conjI [OF recorded conjI [OF submitted conjI [OF accepted conjI [OF retry [THEN conjunct1]
          conjI [OF retry [THEN conjunct2, THEN conjunct1]
            conjI [OF retry [THEN conjunct2, THEN conjunct2] stands]]]]]])
qed

text \<open>
  The record of a submission is written before the turn is handed over.  If the hand-over is refused
  (say by the limit on pending inputs), the caller gets the error, and a retry answers that the
  continuation was accepted without submitting the turn.
\<close>

lemma submit_next_refused:
  "submit_next (Inl e) app n input r = (x, Some y, s') \<Longrightarrow> submit_next (Inr ()) app n input r = (Inr r, Some y, s')"
  by (auto simp: submit_next_def split: prod.splits sum.splits)

lemma continue_refused:
  assumes "continue_turn_if_requested sh rfc codec ep st st' (Inl e) env c l p n now k s = (x, Some y, s')"
  shows "\<exists>r. continue_turn_if_requested sh rfc codec ep st st' (Inr ()) env c l p n now k s = (Inr r, Some y, s') \<and>
    r \<noteq> NoContinuation"
  using assms
  by (auto simp: continue_turn_if_requested_def resume_continuation_def decide_and_continue_def Let_def
      split: sum.splits option.splits prod.splits loop_continuation_receipt.splits
        turn_continuation_decision.splits dest!: submit_next_refused)

lemma refused_submission_is_not_retried:
  assumes "reachable sh s" "reads_decisions codec" "interference sh env" "interference sh env2"
    and "latest_turn_continue_request sh codec c l p s = Inr (Some request)"
    and "continue_turn_if_requested sh rfc codec ep st st' (Inl e) env c l p n now k s = (Inl e, Some y, s1)"
  shows "\<exists>r. decided sh codec c (cr_subject (snd request)) (cr_snapshot_id (snd request)) r s1 \<and>
    (\<forall>s2. later sh s1 s2 \<longrightarrow> latest_turn_continue_request sh codec c l p s2 = Inr (Some request) \<longrightarrow>
      existing_continuation_receipt sh codec c (cr_subject (snd request)) (cr_snapshot_id (snd request))
        (env2 0 s2) = Inr (Some r) \<longrightarrow>
      (\<exists>s3. continue_turn_if_requested sh rfc2 codec ep2 st2 st2' submitted2 env2 c l p n2 now2 k2 s2 =
        (Inr r, None, s3)))"
proof -
  from continue_refused [OF assms(6)] obtain r where
    c: "continue_turn_if_requested sh rfc codec ep st st' (Inr ()) env c l p n now k s = (Inr r, Some y, s1)"
    and r: "r \<noteq> NoContinuation" by blast
  note first = continue_outcome [OF assms(1,2,3) r assms(5) c]
  have reach1: "reachable sh s1" using first later_reachable [OF assms(1)] by blast
  have "\<exists>s3. continue_turn_if_requested sh rfc2 codec ep2 st2 st2' submitted2 env2 c l p n2 now2 k2 s2 =
      (Inr r, None, s3)"
    if "later sh s1 s2" "latest_turn_continue_request sh codec c l p s2 = Inr (Some request)"
      "existing_continuation_receipt sh codec c (cr_subject (snd request)) (cr_snapshot_id (snd request))
        (env2 0 s2) = Inr (Some r)" for s2
  proof -
    have "later sh s1 (env2 1 (env2 0 s2))"
      using that(1) by (blast intro: later_trans interference_later [OF assms(4)])
    then have "accepted_on_record sh c r (env2 1 (env2 0 s2))"
      by (rule accepted_on_record_later [OF reach1]) (use first in simp)
    from retry_of_latest [OF that(3,2) this, of rfc2 ep2 st2 st2' submitted2 n2 now2 k2] show ?thesis
      by (elim exE conjE) (rule exI)
  qed
  then show ?thesis using first [THEN conjunct1] by (intro exI [of _ r]) simp
qed

subsection \<open>Examples\<close>

text \<open>A codec that reads the decisions back.\<close>

definition field_str :: "json \<Rightarrow> string \<Rightarrow> string" where
  "field_str j k = (case json_get j k of Some (JString x) \<Rightarrow> x | _ \<Rightarrow> [])"

definition read_subject :: "json \<Rightarrow> turn_continuation_subject" where
  "read_subject j = (case json_get j ''subject'' of
     Some x \<Rightarrow> \<lparr>cs_loop_id = field_str x ''loop_id'', cs_parent_turn_id = field_str x ''parent_turn_id''\<rparr>
   | None \<Rightarrow> \<lparr>cs_loop_id = [], cs_parent_turn_id = []\<rparr>)"

definition sample_loop_codec :: control_codec where
  "sample_loop_codec = sample_codec
     \<lparr>dec_continuation_accepted := (\<lambda>j. Inr \<lparr>ca_subject = read_subject j,
        ca_snapshot_id = field_str j ''snapshot_id'', ca_mandate_id = field_str j ''mandate_id'',
        ca_next_turn_id = field_str j ''next_turn_id'', ca_admissible = None\<rparr>),
      dec_continuation_rejected := (\<lambda>j. Inr \<lparr>cj_subject = read_subject j,
        cj_snapshot_id = field_str j ''snapshot_id'', cj_reason = field_str j ''reason'',
        cj_admissible = None\<rparr>)\<rparr>"

lemma sample_reads_decisions: "reads_decisions sample_loop_codec"
  by (simp add: reads_decisions_def sample_loop_codec_def read_subject_def field_str_def
      json_of_continuation_accepted_def json_of_continuation_rejected_def json_of_continuation_subject_def
      json_get_jobj field_def opt_field_def)

definition sample_request_store :: store_inner where
  "sample_request_store = with_events (control_stream_id (\<lambda>_. ''7'') sample_coordinates) 0
     [event_witnessed (1, 0) sample_coordinates TurnContinueRequested (JObject [])] store_new"

lemma sample_request_reachable: "reachable (\<lambda>_. ''7'') sample_request_store"
proof -
  have "append_events (\<lambda>_. ''7'') 0 (control_stream_id (\<lambda>_. ''7'') sample_coordinates)
      [event_witnessed (1, 0) sample_coordinates TurnContinueRequested (JObject [])] store_new =
    (Inr (numbered (control_stream_id (\<lambda>_. ''7'') sample_coordinates) 0
      [event_witnessed (1, 0) sample_coordinates TurnContinueRequested (JObject [])]), sample_request_store)"
    by (simp add: append_events_ok sample_request_store_def admissible_batch_def event_witnessed_def
        validate_new_event_def storable_def check_in_memory_lease_epoch_def store_new_def)
  from reachable_call_new [OF store_call.call_append_events [OF this]] show ?thesis .
qed

definition sample_request_event :: event_record where
  "sample_request_event = event_from_new (control_stream_id (\<lambda>_. ''7'') sample_coordinates) (EventSequence 1)
     (event_witnessed (1, 0) sample_coordinates TurnContinueRequested (JObject []))"

lemma sample_request_events:
  "control_events (\<lambda>_. ''7'') sample_coordinates sample_request_store = [sample_request_event]"
  by (simp add: sample_request_store_def sample_request_event_def numbered_def store_new_def)

lemma sample_request_fields:
  "ev_kind sample_request_event = TurnContinueRequested" "ev_origin sample_request_event = Witnessed"
  "ev_id sample_request_event = EventRecordId 1" "ev_provenance sample_request_event = provenance_default"
  by (simp_all add: sample_request_event_def event_from_new_def event_witnessed_def)

definition sample_continue_request :: turn_continue_requested_payload where
  "sample_continue_request = \<lparr>cr_subject = sample_loop, cr_snapshot_id = ''snap'', cr_next_turn_input = ''next''\<rparr>"

abbreviation sample_answer :: "uuid \<Rightarrow> loop_continuation_receipt" where
  "sample_answer u \<equiv> ContinuationRejected ''loop'' ''turn'' ''continuation has no active mandate'' (EventRecordId u)"

lemma sample_request_decoded: "dec_continue_requested sample_loop_codec j = Inr sample_continue_request"
  by (simp add: sample_loop_codec_def sample_codec_def sample_continue_request_def)

lemma sample_loop_ids: "cs_loop_id sample_loop = ''loop''" "cs_parent_turn_id sample_loop = ''turn''"
  by (simp_all add: sample_loop_def)

lemma sample_latest:
  assumes "journal_ok t" "control_events (\<lambda>_. ''7'') sample_coordinates t = sample_request_event # es"
    and "es = [] \<or> (\<exists>e. es = [e] \<and> ev_kind e = TurnContinuationRejected)"
  shows "latest_turn_continue_request (\<lambda>_. ''7'') sample_loop_codec sample_coordinates ''loop'' ''turn'' t =
    Inr (Some (sample_request_event, sample_continue_request))"
  using assms(3)
  by (auto simp: latest_request_eq [OF assms(1)] assms(2) map_filter_simps selected_def
      continue_candidate_def sample_request_fields sample_request_decoded last_opt_def)
    (simp_all add: sample_continue_request_def sample_loop_ids)

text \<open>Without a mandate the request is rejected, whether or not a rejection is on the stream.\<close>

lemma sample_decides:
  assumes "control_events (\<lambda>_. ''7'') sample_coordinates t = sample_request_event # es"
    and "es = [] \<or> (\<exists>e. es = [e] \<and> ev_kind e = TurnContinuationRejected)"
    and "\<And>i. check_in_memory_lease_epoch t i 0 = Inr ()" "EventRecordId u \<notin> si_event_ids t"
  shows "\<exists>s1 e. decide_and_continue (\<lambda>_. ''7'') (\<lambda>_. None) sample_loop_codec 0 (u, 0) st (Inr ()) (\<lambda>_. id)
      sample_coordinates ''loop'' ''turn'' n 0 0 (sample_request_event, sample_continue_request) t =
        (Inr (sample_answer u), None, s1) \<and>
    control_events (\<lambda>_. ''7'') sample_coordinates s1 = sample_request_event # es @ [e] \<and>
    ev_kind e = TurnContinuationRejected \<and>
    receipt_candidate sample_loop_codec sample_loop ''snap'' e = Inr (Some (sample_answer u)) \<and>
    (\<forall>i. check_in_memory_lease_epoch s1 i 0 = Inr ()) \<and> si_event_ids s1 = insert (EventRecordId u) (si_event_ids t)"
proof -
  let ?sh = "\<lambda>_. ''7''" and ?c = sample_coordinates
  let ?q = "\<lparr>tq_coordinates = ?c, tq_subject = sample_loop, tq_snapshot_id = ''snap'',
    tq_request_event_id = EventRecordId 1, tq_now_ms = 0, tq_completed_continuations = 0\<rparr>"
  have decide: "decide_turn_continuation ?sh (\<lambda>_. None) sample_loop_codec (\<lambda>i n. read_events i n t) ?q =
      Inr (Reject (Some (EventRecordId 1)) ''continuation has no active mandate'' False)"
    using assms(2)
    by (auto simp: decide_turn_continuation_def assms(1) sample_request_fields sample_request_decoded
        fresh_control_event_def latest_matching_mandate_def sample_continue_request_def)
  define ne where "ne = event_discharged (u, 0) ?c TurnContinuationRejected
    (json_of_continuation_rejected \<lparr>cj_subject = sample_loop, cj_snapshot_id = ''snap'',
       cj_reason = ''continuation has no active mandate'', cj_admissible = None\<rparr>)
    (provenance_default\<lparr>ep_source_streams := [control_stream_id ?sh ?c], ep_source_event_ids := [EventRecordId 1],
       ep_discharged_by := Some ''scheduler:turn-continuation'', ep_function := Some ''turn_continuation/v1''\<rparr>)"
  define s1 where "s1 = with_events (control_stream_id ?sh ?c) 0 [ne] t"
  define e where "e = event_from_new (control_stream_id ?sh ?c)
    (EventSequence (int (length (control_events ?sh ?c t)) + 1)) ne"
  have "append_events ?sh 0 (control_stream_id ?sh ?c) [ne] t = (Inr [e], s1)"
    using assms(3,4) unfolding s1_def e_def
    by (intro append_single) (simp_all add: ne_def validate_new_event_def provenance_is_empty_def
        json_of_continuation_rejected_def event_discharged_def)
  then have app: "append_one ?sh 0 (control_stream_id ?sh ?c) ne t = (Inr e, s1)" by (simp add: append_one_def)
  note one = append_one_ok [OF app]
  have id: "ev_id e = EventRecordId u" using one(6) by (simp add: ne_def)
  have run: "decide_and_continue ?sh (\<lambda>_. None) sample_loop_codec 0 (u, 0) st (Inr ()) (\<lambda>_. id)
      ?c ''loop'' ''turn'' n 0 0 (sample_request_event, sample_continue_request) t = (Inr (sample_answer u), None, s1)"
    using decide app id
    by (simp add: decide_and_continue_def sample_request_fields provenance_default_def sample_continue_request_def
        append_continuation_rejected_event_def append_control_discharge_def ne_def [unfolded provenance_default_def])
  have "receipt_candidate sample_loop_codec sample_loop ''snap'' e = Inr (Some (sample_answer u))"
    using one(4,5) sample_reads_decisions id
    by (simp add: receipt_candidate_def decode_fact_def reads_decisions_def ne_def sample_loop_ids)
  moreover have "check_in_memory_lease_epoch s1 i 0 = Inr ()" for i
    using assms(3) [of i] by (auto simp: check_lease_ok s1_def lease_minimum_with_events)
  moreover have "si_event_ids s1 = insert (EventRecordId u) (si_event_ids t)"
    by (simp add: s1_def with_events_def raise_in_memory_lease_epoch_def ne_def)
  ultimately show ?thesis
    using run one(2,4) assms(1) by (intro exI [of _ s1] exI [of _ e] conjI) (simp_all add: ne_def)
qed

lemma sample_request_fresh:
  "check_in_memory_lease_epoch sample_request_store i 0 = Inr ()" "si_event_ids sample_request_store = {EventRecordId 1}"
  by (simp_all add: sample_request_store_def with_events_def raise_in_memory_lease_epoch_def store_new_def
      check_in_memory_lease_epoch_def event_witnessed_def)

lemma sample_no_receipt:
  "existing_continuation_receipt (\<lambda>_. ''7'') sample_loop_codec sample_coordinates (cr_subject sample_continue_request)
     (cr_snapshot_id sample_continue_request) sample_request_store = Inr None"
proof -
  have "journal_ok sample_request_store" using reachable_ok [OF sample_request_reachable] by blast
  then show ?thesis
    by (simp add: existing_receipt_iff sample_request_events map_filter_simps selected_def
        receipt_candidate_def sample_request_fields last_opt_def)
qed

text \<open>The answer of a call to which other tasks do \<open>between\<close> after its look-up of a receipt\<close>

lemma sample_continues:
  assumes "between sample_request_store = t"
    and "control_events (\<lambda>_. ''7'') sample_coordinates t = sample_request_event # es"
    and "es = [] \<or> (\<exists>e. es = [e] \<and> ev_kind e = TurnContinuationRejected)"
    and "\<And>i. check_in_memory_lease_epoch t i 0 = Inr ()" "EventRecordId u \<notin> si_event_ids t"
  shows "\<exists>s1 e. continue_turn_if_requested (\<lambda>_. ''7'') (\<lambda>_. None) sample_loop_codec 0 (u, 0) (3, 0) (Inr ())
      (\<lambda>k. if k = 1 then between else id) sample_coordinates ''loop'' ''turn'' ''next'' 0 0 sample_request_store =
        (Inr (sample_answer u), None, s1) \<and>
    control_events (\<lambda>_. ''7'') sample_coordinates s1 = sample_request_event # es @ [e] \<and>
    ev_kind e = TurnContinuationRejected \<and>
    receipt_candidate sample_loop_codec sample_loop ''snap'' e = Inr (Some (sample_answer u)) \<and>
    (\<forall>i. check_in_memory_lease_epoch s1 i 0 = Inr ()) \<and> si_event_ids s1 = insert (EventRecordId u) (si_event_ids t)"
proof -
  let ?env = "\<lambda>k :: nat. if k = 1 then between else id"
  have ok: "journal_ok sample_request_store" using reachable_ok [OF sample_request_reachable] by blast
  have "decide_and_continue (\<lambda>_. ''7'') (\<lambda>_. None) sample_loop_codec 0 (u, 0) (3, 0) (Inr ()) ?env sample_coordinates
      ''loop'' ''turn'' ''next'' 0 0 (sample_request_event, sample_continue_request) sample_request_store =
    decide_and_continue (\<lambda>_. ''7'') (\<lambda>_. None) sample_loop_codec 0 (u, 0) (3, 0) (Inr ()) (\<lambda>_. id) sample_coordinates
      ''loop'' ''turn'' ''next'' 0 0 (sample_request_event, sample_continue_request) t"
    by (simp add: decide_and_continue_def assms(1))
  then show ?thesis
    using sample_decides [OF assms(2-5), of "(3, 0)" "''next''"] sample_latest [OF ok sample_request_events] sample_no_receipt
    by (simp add: continue_turn_if_requested_def)
qed

text \<open>Other tasks that append to another stream between any two accesses.\<close>

definition sample_traffic :: "nat \<Rightarrow> store_inner \<Rightarrow> store_inner" where
  "sample_traffic k s = snd (append_events (\<lambda>_. ''7'') 0 (EventStreamId ''other'') [sample_record (of_nat (10 + k))] s)"

lemma sample_traffic_interferes: "interference (\<lambda>_. ''7'') sample_traffic"
  unfolding interference_def sample_traffic_def by (metis call_append_events call_later prod.collapse)

lemma sample_traffic_control:
  "control_events sh sample_coordinates (sample_traffic k s) = control_events sh sample_coordinates s"
  by (cases rule: append_events_cases [of "\<lambda>_. ''7''" 0 "EventStreamId ''other''" "[sample_record (of_nat (10 + k))]" s])
    (simp_all add: sample_traffic_def control_stream_id_def)

theorem continuation_decision_stands_witness:
  "\<exists>s1 s3. continue_turn_if_requested (\<lambda>_. ''7'') (\<lambda>_. None) sample_loop_codec 0 (2, 0) (3, 0) (Inr ())
      (\<lambda>_. id) sample_coordinates ''loop'' ''turn'' ''next'' 0 0 sample_request_store =
        (Inr (sample_answer 2), None, s1) \<and>
    continue_turn_if_requested (\<lambda>_. ''7'') (\<lambda>_. None) sample_loop_codec 0 (4, 0) (5, 0) (Inr ())
      sample_traffic sample_coordinates ''loop'' ''turn'' ''other'' 9 9 s1 = (Inr (sample_answer 2), None, s3)"
proof -
  let ?sh = "\<lambda>_. ''7''" and ?c = sample_coordinates
  have quiet: "interference ?sh (\<lambda>_. id)" by (simp add: interference_def later_refl)
  from sample_continues [of id _ "[]" 2] sample_request_events sample_request_fresh obtain s1 e where
    c: "continue_turn_if_requested ?sh (\<lambda>_. None) sample_loop_codec 0 (2, 0) (3, 0) (Inr ())
      (\<lambda>_. id) ?c ''loop'' ''turn'' ''next'' 0 0 sample_request_store = (Inr (sample_answer 2), None, s1)"
    and s1: "control_events ?sh ?c s1 = [sample_request_event, e]" "ev_kind e = TurnContinuationRejected"
      "receipt_candidate sample_loop_codec sample_loop ''snap'' e = Inr (Some (sample_answer 2))"
    by auto
  have ok: "journal_ok sample_request_store" using reachable_ok [OF sample_request_reachable] by blast
  note latest = sample_latest [OF ok sample_request_events]
  have reach1: "reachable ?sh s1"
    using continue_outcome [OF sample_request_reachable sample_reads_decisions quiet _ latest c]
      later_reachable [OF sample_request_reachable] by simp
  then have ok1: "journal_ok s1" using reachable_ok by blast
  have ok2: "journal_ok (sample_traffic 0 s1)"
    using reachable_ok [OF later_reachable [OF reach1 interference_later [OF sample_traffic_interferes]]] by blast
  have latest1: "latest_turn_continue_request ?sh sample_loop_codec ?c ''loop'' ''turn'' s1 =
      Inr (Some (sample_request_event, sample_continue_request))"
    using sample_latest [OF ok1 s1(1)] s1(2) by simp
  have receipt: "existing_continuation_receipt ?sh sample_loop_codec ?c sample_loop ''snap'' (sample_traffic 0 s1) =
      Inr (Some (sample_answer 2))"
    using s1(3)
    by (simp add: existing_receipt_iff [OF ok2] sample_traffic_control s1(1) map_filter_simps selected_def
        last_opt_def receipt_candidate_def [of _ _ _ sample_request_event] sample_request_fields)
  obtain x sub s3 where run: "continue_turn_if_requested ?sh (\<lambda>_. None) sample_loop_codec 0 (4, 0) (5, 0) (Inr ())
      sample_traffic ?c ''loop'' ''turn'' ''other'' 9 9 s1 = (x, sub, s3)"
    by (cases "continue_turn_if_requested ?sh (\<lambda>_. None) sample_loop_codec 0 (4, 0) (5, 0) (Inr ())
      sample_traffic ?c ''loop'' ''turn'' ''other'' 9 9 s1")
  have "sample_loop = \<lparr>cs_loop_id = ''loop'', cs_parent_turn_id = ''turn''\<rparr>" by (simp add: sample_loop_def)
  from continuation_decision_stands [OF sample_request_reachable sample_reads_decisions quiet
      sample_traffic_interferes latest c _ later_refl latest1 _ run this,
      THEN conjunct2, THEN conjunct2, THEN conjunct2, THEN conjunct2, THEN conjunct2, THEN conjunct2]
  have "x = Inr (sample_answer 2) \<and> sub = None" using receipt by (simp add: sample_continue_request_def)
  with c run show ?thesis by blast
qed

text \<open>
  The look-up of a receipt and the append of the decision are separate calls of the store: when a
  second call runs in between, both decide, and the control stream holds two decisions for one
  request.
\<close>

lemma overlapping_calls_decide_twice:
  "\<exists>env s1 e e'. interference (\<lambda>_. ''7'') env \<and>
     continue_turn_if_requested (\<lambda>_. ''7'') (\<lambda>_. None) sample_loop_codec 0 (2, 0) (3, 0) (Inr ()) env
       sample_coordinates ''loop'' ''turn'' ''next'' 0 0 sample_request_store = (Inr (sample_answer 2), None, s1) \<and>
     control_events (\<lambda>_. ''7'') sample_coordinates s1 = [sample_request_event, e, e'] \<and>
     receipt_candidate sample_loop_codec sample_loop ''snap'' e = Inr (Some (sample_answer 4)) \<and>
     receipt_candidate sample_loop_codec sample_loop ''snap'' e' = Inr (Some (sample_answer 2))"
proof -
  let ?sh = "\<lambda>_. ''7''" and ?c = sample_coordinates
  have ok: "journal_ok sample_request_store" using reachable_ok [OF sample_request_reachable] by blast
  note latest = sample_latest [OF ok sample_request_events]
  have quiet: "interference ?sh (\<lambda>_. id)" by (simp add: interference_def later_refl)
  from sample_continues [of id _ "[]" 4] sample_request_events sample_request_fresh obtain t e where
    other: "continue_turn_if_requested ?sh (\<lambda>_. None) sample_loop_codec 0 (4, 0) (3, 0) (Inr ())
      (\<lambda>_. id) ?c ''loop'' ''turn'' ''next'' 0 0 sample_request_store =
        (Inr (sample_answer 4), None, t)"
    and t: "control_events ?sh ?c t = [sample_request_event, e]" "ev_kind e = TurnContinuationRejected"
      "receipt_candidate sample_loop_codec sample_loop ''snap'' e = Inr (Some (sample_answer 4))"
      "\<And>i. check_in_memory_lease_epoch t i 0 = Inr ()" "si_event_ids t = {EventRecordId 4, EventRecordId 1}"
    by auto
  define between where "between = (\<lambda>x. if x = sample_request_store then t else x)"
  have "later ?sh sample_request_store t"
    using continue_outcome [OF sample_request_reachable sample_reads_decisions quiet _ latest other] by simp
  then have "interference ?sh (\<lambda>k. if k = 1 then between else id)"
    by (auto simp: interference_def between_def later_refl)
  moreover from sample_continues [of between t "[e]" 2] t obtain s1 e' where
    "continue_turn_if_requested ?sh (\<lambda>_. None) sample_loop_codec 0 (2, 0) (3, 0) (Inr ())
      (\<lambda>k. if k = 1 then between else id) ?c ''loop'' ''turn'' ''next'' 0 0 sample_request_store =
        (Inr (sample_answer 2), None, s1)"
    "control_events ?sh ?c s1 = [sample_request_event, e, e']"
    "receipt_candidate sample_loop_codec sample_loop ''snap'' e' = Inr (Some (sample_answer 2))"
    by (auto simp: between_def)
  ultimately show ?thesis using t(3) by blast
qed

end
