(* ===== verification/Turn_Admission.thy ===== *)
theory Turn_Admission
  imports Loop_Continuation
begin

section \<open>Admitting turns\<close>

text \<open>
  \<^verbatim>\<open>src/crates/verlet-kernel/src/kernel/admission.rs\<close> and the choke point
  \<open>RuntimeHost::reserve_turn_submission_at_choke_point\<close> with \<open>ReservedTurnSubmission::submit_unchecked\<close> of
  \<^verbatim>\<open>src/crates/verlet-kernel/src/kernel/runtime_host.rs\<close>: before a turn is handed to a thread's runtime its
  admission is on the control stream.

  Many submissions run at the same time.  The state of the gate holds the submissions in flight;
  each function below is the code between two awaits, and the step relation lets the submissions,
  the thread's runtime and the other users of the store interleave.  A submission whose task is
  cancelled at an await is dropped, which gives back what it holds.

  Hashing a policy (\<open>canonical_json_hash\<close>, over \<open>sha2\<close>) is a parameter, and so is what the couplings
  bound to the thread answer when the admission event is appended.
\<close>

subsection \<open>Surfaces and contexts\<close>

definition TURN_ENTRY_SURFACES :: "string list" where
  "TURN_ENTRY_SURFACES = [''host-submit'', ''app-server-rpc'', ''app-server-envelope-ingress'',
     ''mcp-adapter'', ''acp-adapter'', ''debug-rpc'', ''telegram-webhook-ingress'',
     ''pgqrs-queue-ingress'', ''remote-sync-ingress'', ''kernel-thread-submit'']"

definition app_server_surface :: "string option \<Rightarrow> string" where
  "app_server_surface client_name =
     (if client_name = Some ''verlet-mcp-server'' then ''mcp-adapter''
      else if client_name = Some ''verlet-acp-agent'' then ''acp-adapter''
      else if client_name = Some ''verlet-debug-rpc'' then ''debug-rpc''
      else ''app-server-rpc'')"

record admission_gate_context =
  gc_route_id :: string
  gc_policy_hash :: string
  gc_decision :: admission_decision
  gc_admissible :: "admission_decision list option"
  gc_source_ingress_event_ids :: "event_record_id list"
  gc_discharged_by :: string
  gc_function :: string

definition route_policy ::
  "string \<Rightarrow> string \<Rightarrow> admission_decision \<Rightarrow> admission_decision list \<Rightarrow> event_record_id list \<Rightarrow>
   admission_gate_context" where
  "route_policy route_id policy_hash decision admissible source_ingress_event_ids =
     \<lparr>gc_route_id = route_id, gc_policy_hash = policy_hash, gc_decision = decision,
      gc_admissible = Some admissible, gc_source_ingress_event_ids = source_ingress_event_ids,
      gc_discharged_by = ''policy:admission_route:'' @ route_id,
      gc_function = ''admission_route/v1''\<rparr>"

definition surface_default_policy :: "string \<Rightarrow> json" where
  "surface_default_policy route_id = jobj
     [(''schema'', JString ''cooldis.admission.surface_policy/1''), (''route_id'', JString route_id),
      (''decision'', JString ''queue''), (''admissible'', JArray [JString ''queue''])]"

definition surface_default ::
  "(json \<Rightarrow> string verlet_result) \<Rightarrow> string \<Rightarrow> event_record_id list \<Rightarrow> admission_gate_context verlet_result" where
  "surface_default canonical_json_hash surface_name source_ingress_event_ids =
     (let route_id = ''surface:'' @ surface_name in
      and_then (canonical_json_hash (surface_default_policy route_id)) (\<lambda>policy_hash.
      Inr \<lparr>gc_route_id = route_id, gc_policy_hash = policy_hash, gc_decision = DecideQueue,
           gc_admissible = Some [DecideQueue], gc_source_ingress_event_ids = source_ingress_event_ids,
           gc_discharged_by = ''policy:admission_surface:'' @ surface_name,
           gc_function = ''surface_admission/v1''\<rparr>))"

definition admission_payload :: "(uuid \<Rightarrow> string) \<Rightarrow> admission_gate_context \<Rightarrow> json" where
  "admission_payload show_uuid context =
     object_insert ''schema'' (JString (payload_schema_id AdmissionDecided))
       (json_of_admission_decided show_uuid \<lparr>ad_route_id = gc_route_id context,
          ad_policy_hash = gc_policy_hash context, ad_decision = gc_decision context,
          ad_admissible = gc_admissible context,
          ad_source_ingress_event_ids = gc_source_ingress_event_ids context\<rparr>)"

definition admission_decided_record ::
  "(uuid \<Rightarrow> string) \<Rightarrow> stamp \<Rightarrow> thread_coordinates \<Rightarrow> admission_gate_context \<Rightarrow> new_event_record" where
  "admission_decided_record show_uuid event_stamp coordinates context =
     event_discharged event_stamp coordinates AdmissionDecided (admission_payload show_uuid context)
       (provenance_default\<lparr>
          ep_source_streams := [EventStreamId (''control:'' @ show_thread_id show_uuid (tc_thread_id coordinates))],
          ep_source_event_ids := gc_source_ingress_event_ids context,
          ep_discharged_by := Some (gc_discharged_by context),
          ep_function := Some (gc_function context),
          ep_config_hash := Some (gc_policy_hash context)\<rparr>)"

subsection \<open>The gate\<close>

datatype submission_stage = AwaitPermit | AwaitAdmission | ReadyToSend

record turn_submission =
  sb_turn_id :: string
  sb_mode :: turn_submission_mode
  sb_admission :: "admission_gate_context option"
  sb_slot :: bool
  sb_stage :: submission_stage
  sb_decided :: "event_record_id option"

text \<open>
  \<open>tg_slots\<close> are the free permits of the pending-input semaphore, \<open>tg_capacity\<close> those of the command
  channel.  A sent command is in the channel (\<open>tg_queue\<close>), then taken by the runtime, then started,
  which frees its pending-input permit.
\<close>

record turn_gate =
  tg_store :: store_inner
  tg_reservations :: "string set"
  tg_slots :: "nat option"
  tg_capacity :: nat
  tg_closed :: bool
  tg_tasks :: "turn_submission multiset"
  tg_queue :: "turn_submission list"
  tg_taken :: "turn_submission list"
  tg_started :: "turn_submission list"

definition MAX_PERMITS :: nat where
  "MAX_PERMITS = 2 ^ 61 - 1"

definition gate_new :: "nat option \<Rightarrow> store_inner \<Rightarrow> turn_gate" where
  "gate_new max_pending_inputs store =
     \<lparr>tg_store = store, tg_reservations = {},
      tg_slots = map_option (\<lambda>limit. min limit MAX_PERMITS) max_pending_inputs,
      tg_capacity = max (min (case max_pending_inputs of Some n \<Rightarrow> n | None \<Rightarrow> 512) MAX_PERMITS) 512,
      tg_closed = False, tg_tasks = {#}, tg_queue = [], tg_taken = [], tg_started = []\<rparr>"

datatype gate_error = NoSlotSemaphore | MaxPendingInputs nat | ThreadClosed | GateError verlet_error

datatype begin_outcome = DuplicateTurn | RefusedTurn gate_error | BegunTurn turn_submission

definition begin_turn ::
  "nat option \<Rightarrow> string \<Rightarrow> turn_submission_mode \<Rightarrow> admission_gate_context option \<Rightarrow> turn_gate \<Rightarrow>
   begin_outcome \<times> turn_gate" where
  "begin_turn max_pending_inputs turn_id mode admission gate =
     (if turn_id \<in> tg_reservations gate then (DuplicateTurn, gate)
      else
        let reserved = gate\<lparr>tg_reservations := insert turn_id (tg_reservations gate)\<rparr>;
            submission = \<lparr>sb_turn_id = turn_id, sb_mode = mode, sb_admission = admission,
              sb_slot = False, sb_stage = AwaitPermit, sb_decided = None\<rparr> in
        case (if mode = SubmitQueue then max_pending_inputs else None) of
          None \<Rightarrow> (BegunTurn submission, reserved)
        | Some limit \<Rightarrow>
            (case tg_slots gate of
               None \<Rightarrow> (RefusedTurn NoSlotSemaphore, gate)
             | Some 0 \<Rightarrow> (RefusedTurn (MaxPendingInputs limit), gate)
             | Some (Suc free) \<Rightarrow>
                 (BegunTurn (submission\<lparr>sb_slot := True\<rparr>), reserved\<lparr>tg_slots := Some free\<rparr>)))"

text \<open>Dropping a submission: the reservation was not committed, the permits go back.\<close>

definition drop_submission :: "turn_submission \<Rightarrow> turn_gate \<Rightarrow> turn_gate" where
  "drop_submission submission gate = gate\<lparr>
     tg_reservations := tg_reservations gate - {sb_turn_id submission},
     tg_slots := (if sb_slot submission then map_option Suc (tg_slots gate) else tg_slots gate),
     tg_capacity := (if sb_stage submission = AwaitPermit then tg_capacity gate
                     else Suc (tg_capacity gate))\<rparr>"

text \<open>\<open>reserve_owned\<close>: \<open>None\<close> while the channel is full.\<close>

definition take_permit ::
  "turn_submission \<Rightarrow> turn_gate \<Rightarrow> ((gate_error + turn_submission) \<times> turn_gate) option" where
  "take_permit submission gate =
     (if tg_closed gate then Some (Inl ThreadClosed, drop_submission submission gate)
      else case tg_capacity gate of
          0 \<Rightarrow> None
        | Suc free \<Rightarrow> Some (Inr (submission\<lparr>sb_stage := AwaitAdmission\<rparr>), gate\<lparr>tg_capacity := free\<rparr>))"

definition append_admission_decided ::
  "(uuid \<Rightarrow> string) \<Rightarrow> u64 \<Rightarrow> stamp \<Rightarrow> thread_coordinates \<Rightarrow> unit verlet_result \<Rightarrow>
   admission_gate_context \<Rightarrow> store_inner \<Rightarrow> event_record verlet_result \<times> store_inner" where
  "append_admission_decided show_uuid lease_epoch event_stamp coordinates couplings context inner =
     (case append_one show_uuid lease_epoch (control_stream_id show_uuid coordinates)
             (admission_decided_record show_uuid event_stamp coordinates context) inner of
        (Inl e, inner') \<Rightarrow> (Inl e, inner')
      | (Inr event, inner') \<Rightarrow> (and_then couplings (\<lambda>_. Inr event), inner'))"

definition admit_turn ::
  "(uuid \<Rightarrow> string) \<Rightarrow> u64 \<Rightarrow> stamp \<Rightarrow> thread_coordinates \<Rightarrow> unit verlet_result \<Rightarrow> turn_submission \<Rightarrow>
   turn_gate \<Rightarrow> (gate_error + turn_submission) \<times> turn_gate" where
  "admit_turn show_uuid lease_epoch event_stamp coordinates couplings submission gate =
     (case sb_admission submission of
        None \<Rightarrow> (Inr (submission\<lparr>sb_stage := ReadyToSend\<rparr>), gate)
      | Some context \<Rightarrow>
          (case append_admission_decided show_uuid lease_epoch event_stamp coordinates couplings context
                  (tg_store gate) of
             (Inl e, store') \<Rightarrow>
               (Inl (GateError e), drop_submission submission (gate\<lparr>tg_store := store'\<rparr>))
           | (Inr event, store') \<Rightarrow>
               (Inr (submission\<lparr>sb_stage := ReadyToSend, sb_decided := Some (ev_id event)\<rparr>),
                gate\<lparr>tg_store := store'\<rparr>)))"

definition submit_unchecked :: "turn_submission \<Rightarrow> turn_gate \<Rightarrow> turn_gate" where
  "submit_unchecked submission gate = gate\<lparr>tg_queue := tg_queue gate @ [submission]\<rparr>"

definition receive_turn :: "turn_gate \<Rightarrow> turn_gate" where
  "receive_turn gate =
     (case tg_queue gate of
        [] \<Rightarrow> gate
      | submission # queue \<Rightarrow> gate\<lparr>tg_queue := queue, tg_taken := tg_taken gate @ [submission],
          tg_capacity := Suc (tg_capacity gate)\<rparr>)"

definition start_turn :: "turn_gate \<Rightarrow> turn_gate" where
  "start_turn gate =
     (case tg_taken gate of
        [] \<Rightarrow> gate
      | submission # taken \<Rightarrow> gate\<lparr>tg_taken := taken, tg_started := tg_started gate @ [submission],
          tg_slots := (if sb_slot submission then map_option Suc (tg_slots gate) else tg_slots gate)\<rparr>)"

subsection \<open>Interleaved submissions\<close>

inductive gate_step ::
  "(uuid \<Rightarrow> string) \<Rightarrow> thread_coordinates \<Rightarrow> nat option \<Rightarrow> turn_gate \<Rightarrow> bool \<Rightarrow> turn_gate \<Rightarrow> bool"
  for sh c limit where
  begin_ok: "begin_turn limit t m adm g = (BegunTurn b, g') \<Longrightarrow>
    gate_step sh c limit g True (g'\<lparr>tg_tasks := add_mset b (tg_tasks g')\<rparr>)"
| begin_refused: "begin_turn limit t m adm g = (RefusedTurn e, g') \<Longrightarrow> gate_step sh c limit g False g'"
| begin_duplicate: "begin_turn limit t m adm g = (DuplicateTurn, g') \<Longrightarrow> gate_step sh c limit g True g'"
| permit_ok: "tg_tasks g = add_mset b rest \<Longrightarrow> sb_stage b = AwaitPermit \<Longrightarrow>
    take_permit b g = Some (Inr b', g') \<Longrightarrow>
    gate_step sh c limit g True (g'\<lparr>tg_tasks := add_mset b' rest\<rparr>)"
| permit_closed: "tg_tasks g = add_mset b rest \<Longrightarrow> sb_stage b = AwaitPermit \<Longrightarrow>
    take_permit b g = Some (Inl e, g') \<Longrightarrow> gate_step sh c limit g False (g'\<lparr>tg_tasks := rest\<rparr>)"
| admit_ok: "tg_tasks g = add_mset b rest \<Longrightarrow> sb_stage b = AwaitAdmission \<Longrightarrow>
    admit_turn sh ep st c couplings b g = (Inr b', g') \<Longrightarrow>
    gate_step sh c limit g True (g'\<lparr>tg_tasks := add_mset b' rest\<rparr>)"
| admit_failed: "tg_tasks g = add_mset b rest \<Longrightarrow> sb_stage b = AwaitAdmission \<Longrightarrow>
    admit_turn sh ep st c couplings b g = (Inl e, g') \<Longrightarrow>
    gate_step sh c limit g False (g'\<lparr>tg_tasks := rest\<rparr>)"
| submit: "tg_tasks g = add_mset b rest \<Longrightarrow> sb_stage b = ReadyToSend \<Longrightarrow>
    gate_step sh c limit g True ((submit_unchecked b g)\<lparr>tg_tasks := rest\<rparr>)"
| cancelled: "tg_tasks g = add_mset b rest \<Longrightarrow>
    gate_step sh c limit g False ((drop_submission b g)\<lparr>tg_tasks := rest\<rparr>)"
| received: "gate_step sh c limit g True (receive_turn g)"
| started: "gate_step sh c limit g True (start_turn g)"
| closed: "gate_step sh c limit g True (g\<lparr>tg_closed := True\<rparr>)"
| others: "store_call sh (tg_store g) ok s' \<Longrightarrow> gate_step sh c limit g True (g\<lparr>tg_store := s'\<rparr>)"

definition gate_reachable ::
  "(uuid \<Rightarrow> string) \<Rightarrow> thread_coordinates \<Rightarrow> nat option \<Rightarrow> store_inner \<Rightarrow> turn_gate \<Rightarrow> bool" where
  "gate_reachable sh c limit s = (\<lambda>g g'. \<exists>ok. gate_step sh c limit g ok g')\<^sup>*\<^sup>* (gate_new limit s)"

subsection \<open>Invariants of the gate\<close>

definition sent :: "turn_gate \<Rightarrow> turn_submission list" where
  "sent g = tg_started g @ tg_taken g @ tg_queue g"

abbreviation submissions :: "turn_gate \<Rightarrow> turn_submission multiset" where
  "submissions g \<equiv> tg_tasks g + mset (sent g)"

lemma begin_turn_ok:
  assumes "begin_turn limit t m adm g = (BegunTurn b, g')"
  shows "t \<notin> tg_reservations g" "sb_turn_id b = t" "sb_stage b = AwaitPermit" "sb_decided b = None"
    and "tg_reservations g' = insert t (tg_reservations g)" "sent g' = sent g" "tg_tasks g' = tg_tasks g"
    and "tg_store g' = tg_store g" "tg_queue g' = tg_queue g" "tg_taken g' = tg_taken g"
    and "if sb_slot b then tg_slots g = map_option Suc (tg_slots g') \<and> tg_slots g' \<noteq> None
      else tg_slots g' = tg_slots g"
  using assms
  by (auto simp: begin_turn_def Let_def sent_def split: if_splits option.splits nat.splits)

lemma begin_turn_no:
  "begin_turn limit t m adm g = (RefusedTurn e, g') \<Longrightarrow> g' = g"
  "begin_turn limit t m adm g = (DuplicateTurn, g') \<Longrightarrow> g' = g"
  by (auto simp: begin_turn_def Let_def split: if_splits option.splits nat.splits)

lemma drop_fields [simp]:
  "tg_store (drop_submission b g) = tg_store g" "sent (drop_submission b g) = sent g"
  "tg_reservations (drop_submission b g) = tg_reservations g - {sb_turn_id b}"
  "tg_queue (drop_submission b g) = tg_queue g" "tg_taken (drop_submission b g) = tg_taken g"
  "tg_slots (drop_submission b g) = (if sb_slot b then map_option Suc (tg_slots g) else tg_slots g)"
  by (simp_all add: drop_submission_def sent_def)

lemma sent_update [simp]: "sent (g\<lparr>tg_tasks := x\<rparr>) = sent g" "sent (g\<lparr>tg_store := y\<rparr>) = sent g"
  "sent (g\<lparr>tg_closed := z\<rparr>) = sent g" "sent (g\<lparr>tg_capacity := n\<rparr>) = sent g"
  by (simp_all add: sent_def)

lemma take_permit_ok:
  assumes "take_permit b g = Some (Inr b', g')"
  shows "b' = b\<lparr>sb_stage := AwaitAdmission\<rparr>" "\<exists>n. g' = g\<lparr>tg_capacity := n\<rparr>"
  using assms by (auto simp: take_permit_def split: if_splits nat.splits)

lemma take_permit_err: "take_permit b g = Some (Inl e, g') \<Longrightarrow> g' = drop_submission b g"
  by (auto simp: take_permit_def split: if_splits nat.splits)

lemma append_admission_effect:
  assumes "append_admission_decided sh ep st c couplings ctx s = (r, s')"
  shows "\<exists>ok. store_call sh s ok s'"
    and "r = Inr e \<Longrightarrow> e \<in> set (control_events sh c s') \<and> ev_id e \<notin> si_event_ids s \<and>
      ev_kind e = AdmissionDecided \<and> ev_payload e = admission_payload sh ctx \<and> ev_origin e = Discharged"
proof -
  define r0 where "r0 = append_one sh ep (control_stream_id sh c) (admission_decided_record sh st c ctx) s"
  obtain x s0 where r0: "r0 = (x, s0)" by (cases r0)
  with assms have s': "s0 = s'" by (auto simp: append_admission_decided_def r0_def split: prod.splits sum.splits)
  have "\<exists>y. append_events sh ep (control_stream_id sh c) [admission_decided_record sh st c ctx] s = (y, s')"
    using r0 s' by (auto simp: r0_def append_one_def split: prod.splits sum.splits list.splits)
  then show "\<exists>ok. store_call sh s ok s'" using store_call.call_append_events by blast
  assume "r = Inr e"
  with assms r0 s' have app: "append_one sh ep (control_stream_id sh c) (admission_decided_record sh st c ctx) s =
      (Inr e, s')"
    by (auto simp: append_admission_decided_def r0_def and_then_eq_Inr split: prod.splits sum.splits)
  note one = append_one_ok [OF app]
  have "admissible_batch s [admission_decided_record sh st c ctx]" using one(1) append_events_ok by blast
  then have "ev_id e \<notin> si_event_ids s" by (simp add: admissible_batch_def one(6))
  moreover have "e = event_from_new (control_stream_id sh c)
      (EventSequence (int (length (control_events sh c s)) + 1)) (admission_decided_record sh st c ctx)"
    using one(1) by (simp add: append_events_ok numbered_def)
  then have "ev_origin e = Discharged"
    by (simp add: event_from_new_def admission_decided_record_def event_discharged_def)
  ultimately show "e \<in> set (control_events sh c s') \<and> ev_id e \<notin> si_event_ids s \<and>
      ev_kind e = AdmissionDecided \<and> ev_payload e = admission_payload sh ctx \<and> ev_origin e = Discharged"
    using one(2,4,5) by (simp add: admission_decided_record_def)
qed

lemma admit_turn_ok:
  assumes "admit_turn sh ep st c couplings b g = (Inr b', g')"
  shows "sb_turn_id b' = sb_turn_id b" "sb_slot b' = sb_slot b" "sb_stage b' = ReadyToSend"
    and "\<exists>s'. g' = g\<lparr>tg_store := s'\<rparr> \<and> (s' = tg_store g \<or> (\<exists>ok. store_call sh (tg_store g) ok s'))"
    and "sb_admission b' = sb_admission b"
    and "sb_admission b = None \<Longrightarrow> sb_decided b' = sb_decided b"
    and "sb_admission b = Some ctx \<Longrightarrow> \<exists>e \<in> set (control_events sh c (tg_store g')).
      sb_decided b' = Some (ev_id e) \<and> ev_id e \<notin> si_event_ids (tg_store g) \<and>
      ev_kind e = AdmissionDecided \<and> ev_payload e = admission_payload sh ctx \<and> ev_origin e = Discharged"
proof -
  have "sb_turn_id b' = sb_turn_id b \<and> sb_slot b' = sb_slot b \<and> sb_stage b' = ReadyToSend \<and>
      sb_admission b' = sb_admission b \<and>
      (\<exists>s'. g' = g\<lparr>tg_store := s'\<rparr> \<and> (s' = tg_store g \<or> (\<exists>ok. store_call sh (tg_store g) ok s'))) \<and>
      (sb_admission b = None \<longrightarrow> sb_decided b' = sb_decided b) \<and>
      (\<forall>ctx. sb_admission b = Some ctx \<longrightarrow> (\<exists>e \<in> set (control_events sh c (tg_store g')).
        sb_decided b' = Some (ev_id e) \<and> ev_id e \<notin> si_event_ids (tg_store g) \<and>
        ev_kind e = AdmissionDecided \<and> ev_payload e = admission_payload sh ctx \<and> ev_origin e = Discharged))"
  proof (cases "sb_admission b")
    case None
    with assms have "b' = b\<lparr>sb_stage := ReadyToSend\<rparr>" "g' = g" by (simp_all add: admit_turn_def)
    then show ?thesis using None by (auto intro: exI [of _ "tg_store g"])
  next
    case (Some ctx)
    obtain r s' where r: "append_admission_decided sh ep st c couplings ctx (tg_store g) = (r, s')"
      by (cases "append_admission_decided sh ep st c couplings ctx (tg_store g)")
    from assms Some r obtain e where e: "r = Inr e" "g' = g\<lparr>tg_store := s'\<rparr>"
        "b' = b\<lparr>sb_stage := ReadyToSend, sb_decided := Some (ev_id e)\<rparr>"
      by (cases r) (auto simp: admit_turn_def)
    with append_admission_effect [OF r] Some show ?thesis by auto
  qed
  then show "sb_turn_id b' = sb_turn_id b" "sb_slot b' = sb_slot b" "sb_stage b' = ReadyToSend"
    "\<exists>s'. g' = g\<lparr>tg_store := s'\<rparr> \<and> (s' = tg_store g \<or> (\<exists>ok. store_call sh (tg_store g) ok s'))"
    "sb_admission b' = sb_admission b"
    "sb_admission b = None \<Longrightarrow> sb_decided b' = sb_decided b"
    "sb_admission b = Some ctx \<Longrightarrow> \<exists>e \<in> set (control_events sh c (tg_store g')).
      sb_decided b' = Some (ev_id e) \<and> ev_id e \<notin> si_event_ids (tg_store g) \<and>
      ev_kind e = AdmissionDecided \<and> ev_payload e = admission_payload sh ctx \<and> ev_origin e = Discharged"
    by blast+
qed

lemma admit_turn_err:
  assumes "admit_turn sh ep st c couplings b g = (Inl e, g')"
  shows "\<exists>s' ok. g' = drop_submission b (g\<lparr>tg_store := s'\<rparr>) \<and> store_call sh (tg_store g) ok s'"
proof (cases "sb_admission b")
  case None
  with assms show ?thesis by (simp add: admit_turn_def)
next
  case (Some ctx)
  obtain r s' where r: "append_admission_decided sh ep st c couplings ctx (tg_store g) = (r, s')"
    by (cases "append_admission_decided sh ep st c couplings ctx (tg_store g)")
  from assms Some r have "g' = drop_submission b (g\<lparr>tg_store := s'\<rparr>)"
    by (cases r) (auto simp: admit_turn_def)
  with append_admission_effect(1) [OF r] show ?thesis by blast
qed

lemma receive_fields [simp]:
  "tg_store (receive_turn g) = tg_store g" "tg_tasks (receive_turn g) = tg_tasks g"
  "tg_reservations (receive_turn g) = tg_reservations g" "sent (receive_turn g) = sent g"
  "tg_slots (receive_turn g) = tg_slots g"
  "mset (tg_queue (receive_turn g)) + mset (tg_taken (receive_turn g)) = mset (tg_queue g) + mset (tg_taken g)"
  by (simp_all add: receive_turn_def sent_def split: list.split)

lemma start_fields [simp]:
  "tg_store (start_turn g) = tg_store g" "tg_tasks (start_turn g) = tg_tasks g"
  "tg_reservations (start_turn g) = tg_reservations g" "sent (start_turn g) = sent g"
  by (simp_all add: start_turn_def sent_def split: list.split)

text \<open>The store moves only by calls of the store.\<close>

lemma gate_step_store:
  "gate_step sh c limit g ok g' \<Longrightarrow> tg_store g' = tg_store g \<or> (\<exists>ok. store_call sh (tg_store g) ok (tg_store g'))"
proof (induction rule: gate_step.induct)
  case (admit_ok g b rest ep st couplings b' g')
  from admit_turn_ok(4) [OF admit_ok(3)] show ?case by auto
next
  case (admit_failed g b rest ep st couplings e g')
  from admit_turn_err [OF admit_failed(3)] show ?case by auto
qed (auto dest: begin_turn_ok(8) begin_turn_no take_permit_ok(2) take_permit_err simp: submit_unchecked_def)

text \<open>What a submission can show for its admission, by its stage.\<close>

definition admitted :: "(uuid \<Rightarrow> string) \<Rightarrow> thread_coordinates \<Rightarrow> store_inner \<Rightarrow> turn_submission \<Rightarrow> bool" where
  "admitted sh c s b \<longleftrightarrow>
     (if sb_stage b = ReadyToSend
      then case sb_admission b of
          None \<Rightarrow> sb_decided b = None
        | Some ctx \<Rightarrow> (\<exists>e \<in> set (control_events sh c s). sb_decided b = Some (ev_id e) \<and>
            ev_kind e = AdmissionDecided \<and> ev_payload e = admission_payload sh ctx \<and>
            ev_origin e = Discharged)
      else sb_decided b = None)"

text \<open>A step leaves the submissions as they are, adds one, advances one or drops one.\<close>

lemma gate_step_moves:
  assumes "gate_step sh c limit g ok g'" "\<forall>b \<in># tg_tasks g. admitted sh c (tg_store g) b"
  obtains (same) "submissions g' = submissions g" "tg_reservations g' = tg_reservations g"
  | (new) b where "submissions g' = add_mset b (submissions g)" "sb_turn_id b \<notin> tg_reservations g"
      "tg_reservations g' = insert (sb_turn_id b) (tg_reservations g)" "sb_stage b \<noteq> ReadyToSend"
      "sb_decided b = None"
  | (advance) b b' rest where "submissions g = add_mset b rest" "submissions g' = add_mset b' rest"
      "sb_turn_id b' = sb_turn_id b" "tg_reservations g' = tg_reservations g" "sb_decided b = None"
      "admitted sh c (tg_store g') b'" "\<forall>i. sb_decided b' = Some i \<longrightarrow> i \<notin> si_event_ids (tg_store g)"
  | (dropped) b rest where "submissions g = add_mset b rest" "submissions g' = rest"
      "tg_reservations g' = tg_reservations g - {sb_turn_id b}"
  using assms(1)
proof cases
  case (begin_ok t m adm b g0)
  note b = begin_turn_ok [OF begin_ok(3)]
  show thesis by (rule new [of b]) (use b begin_ok(2) in simp_all)
next
  case (begin_refused t m adm e)
  with begin_turn_no(1) have "g' = g" by blast
  then show thesis by (intro same) simp_all
next
  case (begin_duplicate t m adm)
  with begin_turn_no(2) have "g' = g" by blast
  then show thesis by (intro same) simp_all
next
  case (permit_ok b rest b' g0)
  note p = take_permit_ok [OF permit_ok(5)]
  from assms(2) permit_ok(3,4) have "sb_decided b = None" by (simp add: admitted_def)
  with p permit_ok show thesis
    by (intro advance [of b "rest + mset (sent g)" b']) (auto simp: admitted_def)
next
  case (permit_closed b rest e g0)
  with take_permit_err [OF permit_closed(5)] show thesis
    by (intro dropped [of b "rest + mset (sent g)"]) simp_all
next
  case (admit_ok b rest ep st couplings b' g0)
  note a = admit_turn_ok [OF admit_ok(5)]
  from a(4) obtain s' where g0: "g0 = g\<lparr>tg_store := s'\<rparr>" by blast
  from assms(2) admit_ok(3,4) have none: "sb_decided b = None" by (simp add: admitted_def)
  have "admitted sh c (tg_store g0) b' \<and> (\<forall>i. sb_decided b' = Some i \<longrightarrow> i \<notin> si_event_ids (tg_store g))"
  proof (cases "sb_admission b")
    case None
    with a(3,5,6) none show ?thesis by (simp add: admitted_def)
  next
    case (Some ctx)
    with a(3,5) a(7) [OF Some] show ?thesis by (auto simp: admitted_def)
  qed
  with a(1) none admit_ok(2,3) g0 show thesis
    by (intro advance [of b "rest + mset (sent g)" b']) simp_all
next
  case (admit_failed b rest ep st couplings e g0)
  from admit_turn_err [OF admit_failed(5)] admit_failed show thesis
    by (intro dropped [of b "rest + mset (sent g)"]) auto
next
  case (submit b rest)
  then show thesis by (intro same) (simp_all add: submit_unchecked_def sent_def)
next
  case (cancelled b rest)
  then show thesis by (intro dropped [of b "rest + mset (sent g)"]) simp_all
next
  case received
  then show thesis by (intro same) simp_all
next
  case started
  then show thesis by (intro same) simp_all
next
  case closed
  then show thesis by (intro same) simp_all
next
  case (others ok' s')
  then show thesis by (intro same) simp_all
qed

definition one_each :: "'a multiset \<Rightarrow> bool" where
  "one_each M \<longleftrightarrow> (\<forall>x. count M x \<le> 1)"

lemma one_each_add: "one_each (add_mset x M) \<longleftrightarrow> one_each M \<and> x \<notin># M"
  by (auto simp: one_each_def not_in_iff le_Suc_eq split: if_splits)

abbreviation turn_ids :: "turn_gate \<Rightarrow> string multiset" where
  "turn_ids g \<equiv> image_mset sb_turn_id (submissions g)"

abbreviation decided_ids :: "turn_gate \<Rightarrow> event_record_id option multiset" where
  "decided_ids g \<equiv> filter_mset (\<lambda>x. x \<noteq> None) (image_mset sb_decided (submissions g))"

definition gate_inv :: "(uuid \<Rightarrow> string) \<Rightarrow> thread_coordinates \<Rightarrow> turn_gate \<Rightarrow> bool" where
  "gate_inv sh c g \<longleftrightarrow> reachable sh (tg_store g) \<and> one_each (turn_ids g) \<and>
     tg_reservations g = set_mset (turn_ids g) \<and>
     (\<forall>b \<in># submissions g. admitted sh c (tg_store g) b) \<and> one_each (decided_ids g) \<and>
     (\<forall>b \<in> set (sent g). sb_stage b = ReadyToSend)"

lemma admitted_grows:
  assumes "admitted sh c s b" "journal_grows s s'"
  shows "admitted sh c s' b"
proof -
  have "prefix (control_events sh c s) (control_events sh c s')"
    using assms(2) by (simp add: journal_grows_def)
  then have "set (control_events sh c s) \<subseteq> set (control_events sh c s')" by (rule set_mono_prefix)
  with assms(1) show ?thesis by (auto simp: admitted_def split: if_splits option.splits)
qed

lemma decided_known:
  assumes "reachable sh s" "admitted sh c s b" "sb_decided b = Some i"
  shows "i \<in> si_event_ids s"
proof -
  from assms(2,3) obtain e where "e \<in> set (control_events sh c s)" "i = ev_id e"
    by (auto simp: admitted_def split: if_splits option.splits)
  with reachable_ok [OF assms(1)] show ?thesis by (auto simp: journal_ok_def)
qed

lemma gate_inv_new: "reachable sh s \<Longrightarrow> gate_inv sh c (gate_new limit s)"
  by (simp add: gate_inv_def gate_new_def sent_def one_each_def)

lemma sent_step:
  assumes "gate_step sh c limit g ok g'" "\<forall>b \<in> set (sent g). sb_stage b = ReadyToSend"
  shows "\<forall>b \<in> set (sent g'). sb_stage b = ReadyToSend"
proof -
  from assms(1) have "sent g' = sent g \<or> (\<exists>b. sent g' = sent g @ [b] \<and> sb_stage b = ReadyToSend)"
  proof cases
    case (admit_ok b rest ep st couplings b' g0)
    from admit_turn_ok(4) [OF admit_ok(5)] admit_ok(2) show ?thesis by auto
  next
    case (admit_failed b rest ep st couplings e g0)
    from admit_turn_err [OF admit_failed(5)] admit_failed(2) show ?thesis by auto
  next
    case (submit b rest)
    then show ?thesis by (auto simp: submit_unchecked_def sent_def)
  qed (auto dest: begin_turn_ok(6) begin_turn_no take_permit_ok(2) take_permit_err)
  with assms(2) show ?thesis by auto
qed

lemma gate_inv_step:
  assumes "gate_inv sh c g" "gate_step sh c limit g ok g'"
  shows "gate_inv sh c g'"
proof -
  from assms(1) have inv: "reachable sh (tg_store g)" "one_each (turn_ids g)"
      "tg_reservations g = set_mset (turn_ids g)"
      "\<forall>b \<in># submissions g. admitted sh c (tg_store g) b" "one_each (decided_ids g)"
      "\<forall>b \<in> set (sent g). sb_stage b = ReadyToSend"
    unfolding gate_inv_def by blast+
  have later: "later sh (tg_store g) (tg_store g')"
    using gate_step_store [OF assms(2)] by (auto intro: call_later later_refl)
  have reach: "reachable sh (tg_store g')" using inv(1) later by (rule later_reachable)
  have keep: "admitted sh c (tg_store g') b" if "b \<in># submissions g" for b
    using inv(4) that admitted_grows reachable_later [OF inv(1) later] by blast
  have known: "Some i \<notin># decided_ids g" if "i \<notin> si_event_ids (tg_store g)" for i
  proof
    assume "Some i \<in># decided_ids g"
    then have "Some i \<in> sb_decided ` set_mset (submissions g)" by (simp add: image_Un)
    then obtain b where b: "b \<in># submissions g" "sb_decided b = Some i" by (rule imageE) metis
    with inv(4) have "admitted sh c (tg_store g) b" by blast
    from decided_known [OF inv(1) this b(2)] that show False by contradiction
  qed
  have tasks: "\<forall>b \<in># tg_tasks g. admitted sh c (tg_store g) b" using inv(4) by simp
  from assms(2) tasks have "one_each (turn_ids g') \<and> tg_reservations g' = set_mset (turn_ids g') \<and>
      (\<forall>b \<in># submissions g'. admitted sh c (tg_store g') b) \<and> one_each (decided_ids g')"
  proof (cases rule: gate_step_moves)
    case same
    with inv keep show ?thesis by simp
  next
    case (new b)
    have "admitted sh c (tg_store g') b" using new by (simp add: admitted_def)
    moreover have "sb_turn_id b \<notin># turn_ids g" using new(2) inv(3) by blast
    ultimately show ?thesis using inv keep new by (auto simp: one_each_add)
  next
    case (advance b b' rest)
    from advance(1) inv(2) have "one_each (turn_ids g')"
      unfolding advance(2) by (simp add: advance(1,3) one_each_add)
    moreover have "tg_reservations g' = set_mset (turn_ids g')"
      using inv(3) unfolding advance(1,2) by (simp add: advance(3,4))
    moreover have "\<forall>b \<in># submissions g'. admitted sh c (tg_store g') b"
      using keep advance(6) unfolding advance(1,2) by auto
    moreover have "one_each (decided_ids g')"
    proof (cases "sb_decided b'")
      case None
      with inv(5) advance(5) show ?thesis unfolding advance(1,2) by simp
    next
      case (Some i)
      with advance(7) known have "Some i \<notin># decided_ids g" by blast
      with inv(5) advance(5) Some show ?thesis unfolding advance(1,2) by (simp add: one_each_add)
    qed
    ultimately show ?thesis by blast
  next
    case (dropped b rest)
    from inv(2) have ids: "one_each (image_mset sb_turn_id rest)" "sb_turn_id b \<notin># image_mset sb_turn_id rest"
      unfolding dropped(1) by (simp_all add: one_each_add)
    have "one_each (filter_mset (\<lambda>x. x \<noteq> None) (image_mset sb_decided rest))"
      using inv(5) unfolding dropped(1) by (cases "sb_decided b") (simp_all add: one_each_add)
    moreover have "tg_reservations g - {sb_turn_id b} = set_mset (image_mset sb_turn_id rest)"
      using ids(2) unfolding inv(3) dropped(1) by simp
    moreover have "\<forall>b \<in># rest. admitted sh c (tg_store g') b"
      using keep unfolding dropped(1) by simp
    ultimately show ?thesis using ids(1) unfolding dropped(2,3) by blast
  qed
  with reach sent_step [OF assms(2) inv(6)] show ?thesis by (simp add: gate_inv_def)
qed

text \<open>Who holds a pending-input permit: submissions in flight and commands not yet started.\<close>

definition slot_holders :: "turn_gate \<Rightarrow> nat" where
  "slot_holders g = size (filter_mset sb_slot (tg_tasks g + mset (tg_queue g) + mset (tg_taken g)))"

definition slots_inv :: "nat option \<Rightarrow> turn_gate \<Rightarrow> bool" where
  "slots_inv limit g =
     (case limit of
        None \<Rightarrow> tg_slots g = None \<and> slot_holders g = 0
      | Some n \<Rightarrow> (\<exists>free. tg_slots g = Some free \<and> free + slot_holders g = min n MAX_PERMITS))"

definition slot_count :: "turn_gate \<Rightarrow> nat option" where
  "slot_count g = map_option (\<lambda>free. free + slot_holders g) (tg_slots g)"

lemma slots_inv_alt:
  "slots_inv limit g \<longleftrightarrow> slot_count g = map_option (\<lambda>n. min n MAX_PERMITS) limit \<and>
     (limit = None \<longrightarrow> slot_holders g = 0)"
  by (auto simp: slots_inv_def slot_count_def split: option.splits)

lemma start_slots:
  "slot_count (start_turn g) = slot_count g" "slot_holders (start_turn g) \<le> slot_holders g"
  by (simp_all add: start_turn_def slot_count_def slot_holders_def option.map_comp comp_def split: list.split)

lemma receive_slots: "slot_holders (receive_turn g) = slot_holders g"
  by (simp add: receive_turn_def slot_holders_def split: list.split)

lemma slot_count_None [simp]: "slot_count g = None \<longleftrightarrow> tg_slots g = None"
  by (simp add: slot_count_def)

lemma gate_step_slots:
  assumes "gate_step sh c limit g ok g'" "slots_inv limit g"
  shows "slot_count g' = slot_count g \<and> (limit = None \<longrightarrow> slot_holders g' = 0)"
  using assms(1)
proof cases
  case (begin_ok t m adm b g0)
  note b = begin_turn_ok [OF begin_ok(3)]
  have holders: "slot_holders g' = (if sb_slot b then Suc (slot_holders g) else slot_holders g)"
    using begin_ok(2) b(7,9,10) by (simp add: slot_holders_def)
  have "sb_slot b \<Longrightarrow> limit \<noteq> None" using b(11) assms(2) by (cases limit) (auto simp: slots_inv_def)
  then show ?thesis
    using holders b(11) begin_ok(2) assms(2)
    by (auto simp: slot_count_def slots_inv_def split: if_splits option.splits)
next
  case (begin_refused t m adm e)
  then have "g' = g" using begin_turn_no(1) by blast
  with assms(2) show ?thesis by (simp add: slots_inv_alt)
next
  case (begin_duplicate t m adm)
  then have "g' = g" using begin_turn_no(2) by blast
  with assms(2) show ?thesis by (simp add: slots_inv_alt)
next
  case (permit_ok b rest b' g0)
  with take_permit_ok [OF permit_ok(5)] assms(2) show ?thesis
    by (auto simp: slots_inv_alt slot_count_def slot_holders_def)
next
  case (permit_closed b rest e g0)
  with take_permit_err [OF permit_closed(5)] assms(2) show ?thesis
    by (auto simp: slots_inv_alt slot_count_def slot_holders_def option.map_comp comp_def split: if_splits)
next
  case (admit_ok b rest ep st couplings b' g0)
  from admit_turn_ok(4) [OF admit_ok(5)] obtain s' where "g0 = g\<lparr>tg_store := s'\<rparr>" by blast
  with admit_ok(2,3) admit_turn_ok(2) [OF admit_ok(5)] assms(2) show ?thesis
    by (auto simp: slots_inv_alt slot_count_def slot_holders_def split: if_splits)
next
  case (admit_failed b rest ep st couplings e g0)
  from admit_turn_err [OF admit_failed(5)] obtain s' where "g0 = drop_submission b (g\<lparr>tg_store := s'\<rparr>)" by blast
  with admit_failed(2,3) assms(2) show ?thesis
    by (auto simp: slots_inv_alt slot_count_def slot_holders_def option.map_comp comp_def split: if_splits)
next
  case (submit b rest)
  with assms(2) show ?thesis
    by (auto simp: slots_inv_alt slot_count_def slot_holders_def submit_unchecked_def split: if_splits)
next
  case (cancelled b rest)
  with assms(2) show ?thesis
    by (auto simp: slots_inv_alt slot_count_def slot_holders_def option.map_comp comp_def split: if_splits)
next
  case received
  with assms(2) show ?thesis by (auto simp: slots_inv_alt slot_count_def receive_slots)
next
  case started
  with assms(2) start_slots [of g] show ?thesis by (auto simp: slots_inv_alt)
qed (use assms(2) in \<open>auto simp: slots_inv_alt slot_count_def slot_holders_def\<close>)

lemma slots_inv_step: "slots_inv limit g \<Longrightarrow> gate_step sh c limit g ok g' \<Longrightarrow> slots_inv limit g'"
  using gate_step_slots by (metis slots_inv_alt)

lemma slots_inv_new: "slots_inv limit (gate_new limit s)"
  by (simp add: slots_inv_def gate_new_def slot_holders_def split: option.split)

text \<open>
  The gate as a served state; a start state that is not itself reachable makes no promise.
\<close>

interpretation gate: served_state "gate_step sh c limit" "gate_new limit s"
    "\<lambda>g. (reachable sh s \<longrightarrow> gate_inv sh c g) \<and> slots_inv limit g" for sh c limit s
proof unfold_locales
  show "(reachable sh s \<longrightarrow> gate_inv sh c (gate_new limit s)) \<and> slots_inv limit (gate_new limit s)"
    by (simp add: gate_inv_new slots_inv_new)
  show "(reachable sh s \<longrightarrow> gate_inv sh c g') \<and> slots_inv limit g'"
    if "(reachable sh s \<longrightarrow> gate_inv sh c g) \<and> slots_inv limit g" "gate_step sh c limit g ok g'" for g ok g'
    using that gate_inv_step slots_inv_step by blast
qed

lemma one_each_distinct: "one_each (mset xs) \<longleftrightarrow> distinct xs"
  by (induction xs) (auto simp: one_each_add, simp add: one_each_def)

text \<open>A queued input holds a permit from when it is accepted until it starts.\<close>

definition queue_inv :: "nat option \<Rightarrow> turn_gate \<Rightarrow> bool" where
  "queue_inv limit g \<longleftrightarrow> (\<forall>b \<in># submissions g. limit \<noteq> None \<and> sb_mode b = SubmitQueue \<longrightarrow> sb_slot b)"

lemma begin_turn_queue:
  "begin_turn limit t m adm g = (BegunTurn b, g') \<Longrightarrow> limit \<noteq> None \<and> sb_mode b = SubmitQueue \<longrightarrow> sb_slot b"
  by (auto simp: begin_turn_def Let_def split: if_splits option.splits nat.splits)

lemma admit_turn_mode: "admit_turn sh ep st c couplings b g = (Inr b', g') \<Longrightarrow> sb_mode b' = sb_mode b"
  by (auto simp: admit_turn_def split: option.splits prod.splits sum.splits)

lemma queue_inv_step:
  assumes "queue_inv limit g" "gate_step sh c limit g ok g'"
  shows "queue_inv limit g'"
  using assms(2)
proof cases
  case (begin_ok t m adm b g0)
  have "submissions g' = add_mset b (submissions g)"
    using begin_turn_ok [OF begin_ok(3)] begin_ok(2) by simp
  with assms(1) begin_turn_queue [OF begin_ok(3)] show ?thesis by (simp add: queue_inv_def)
next
  case (admit_ok b rest ep st couplings b' g0)
  from admit_turn_ok(4) [OF admit_ok(5)] obtain s' where "g0 = g\<lparr>tg_store := s'\<rparr>" by blast
  with admit_ok(2,3) admit_turn_ok(2) [OF admit_ok(5)] admit_turn_mode [OF admit_ok(5)] assms(1)
  show ?thesis by (simp add: queue_inv_def)
next
  case (admit_failed b rest ep st couplings e g0)
  from admit_turn_err [OF admit_failed(5)] admit_failed(2,3) assms(1) show ?thesis
    by (auto simp: queue_inv_def)
next
  case (permit_ok b rest b' g0)
  with take_permit_ok [OF permit_ok(5)] assms(1) show ?thesis by (auto simp: queue_inv_def)
next
  case (permit_closed b rest e g0)
  with take_permit_err [OF permit_closed(5)] assms(1) show ?thesis by (auto simp: queue_inv_def)
next
  case (begin_refused t m adm e)
  then have "g' = g" using begin_turn_no(1) by blast
  with assms(1) show ?thesis by simp
next
  case (begin_duplicate t m adm)
  then have "g' = g" using begin_turn_no(2) by blast
  with assms(1) show ?thesis by simp
next
  case (submit b rest)
  then have "submissions g' = submissions g" by (simp add: submit_unchecked_def sent_def)
  with assms(1) show ?thesis by (simp only: queue_inv_def)
qed (use assms(1) in \<open>auto simp: queue_inv_def\<close>)

interpretation queue: served_state "gate_step sh c limit" "gate_new limit s" "queue_inv limit" for sh c limit s
  by unfold_locales (simp add: queue_inv_def gate_new_def sent_def, rule queue_inv_step)

lemma one_each_mono: "one_each N \<Longrightarrow> M \<subseteq># N \<Longrightarrow> one_each M"
  unfolding one_each_def by (meson mset_subset_eq_count order_trans)

subsection \<open>Properties of the gate\<close>

text \<open>
  C33. No turn without an admission, and no turn twice.  However submissions, cancellations, the
  thread's runtime and other users of the store interleave: no turn id is handed to the runtime
  twice; every turn submitted with an admission context has its own \<open>admission.decided\<close> event on
  the thread's control stream, with that context's payload; and a submission is taken for a
  duplicate exactly when its turn is in flight or was handed over, so one that was refused or
  cancelled can be tried again.
\<close>

theorem no_turn_without_admission:
  assumes "reachable sh s" "gate_reachable sh c limit s g"
  shows "distinct (map sb_turn_id (sent g)) \<and>
    (\<forall>b \<in> set (sent g). \<forall>ctx. sb_admission b = Some ctx \<longrightarrow>
       (\<exists>e \<in> set (control_events sh c (tg_store g)). sb_decided b = Some (ev_id e) \<and>
          ev_kind e = AdmissionDecided \<and> ev_payload e = admission_payload sh ctx \<and> ev_origin e = Discharged)) \<and>
    distinct (filter (\<lambda>x. x \<noteq> None) (map sb_decided (sent g))) \<and>
    (fst (begin_turn limit t m adm g) = DuplicateTurn \<longleftrightarrow>
       t \<in> sb_turn_id ` set_mset (tg_tasks g) \<or> t \<in> set (map sb_turn_id (sent g)))"
proof -
  have inv: "gate_inv sh c g"
    using gate.reachable_good [OF assms(2) [unfolded gate_reachable_def]] assms(1) by blast
  have "one_each (mset (map sb_turn_id (sent g)))"
    by (rule one_each_mono [of "turn_ids g"]) (use inv in \<open>simp_all add: gate_inv_def\<close>)
  moreover have "one_each (mset (filter (\<lambda>x. x \<noteq> None) (map sb_decided (sent g))))"
    by (rule one_each_mono [of "decided_ids g"]) (use inv in \<open>simp_all add: gate_inv_def\<close>)
  moreover have "\<exists>e \<in> set (control_events sh c (tg_store g)). sb_decided b = Some (ev_id e) \<and>
      ev_kind e = AdmissionDecided \<and> ev_payload e = admission_payload sh ctx \<and> ev_origin e = Discharged"
    if "b \<in> set (sent g)" "sb_admission b = Some ctx" for b ctx
  proof -
    from inv that(1) have "admitted sh c (tg_store g) b" "sb_stage b = ReadyToSend"
      by (simp_all add: gate_inv_def)
    with that(2) show ?thesis by (simp add: admitted_def)
  qed
  moreover have "fst (begin_turn limit t m adm g) = DuplicateTurn \<longleftrightarrow> t \<in> tg_reservations g"
    by (simp add: begin_turn_def Let_def split: option.split nat.split)
  moreover have "tg_reservations g = sb_turn_id ` set_mset (tg_tasks g) \<union> set (map sb_turn_id (sent g))"
    using inv by (simp add: gate_inv_def image_Un)
  ultimately show ?thesis unfolding one_each_distinct by (simp del: set_map)
qed

text \<open>
  C34. Pending inputs are bounded.  Under a limit on pending inputs, the queued inputs that were
  accepted and have not started never exceed it, permits are neither lost nor created whatever is
  refused or cancelled, and a new one is refused exactly when no permit is free.
\<close>

theorem pending_inputs_bounded:
  assumes "gate_reachable sh c (Some n) s g"
  shows "size (filter_mset (\<lambda>b. sb_mode b = SubmitQueue) (tg_tasks g + mset (tg_queue g) + mset (tg_taken g))) \<le> n \<and>
    (\<exists>free. tg_slots g = Some free \<and> free + slot_holders g = min n MAX_PERMITS \<and>
       (t \<notin> tg_reservations g \<longrightarrow>
          (fst (begin_turn (Some n) t SubmitQueue adm g) = RefusedTurn (MaxPendingInputs n) \<longleftrightarrow> free = 0)))"
proof -
  note reach = assms [unfolded gate_reachable_def]
  have slots: "slots_inv (Some n) g" using gate.reachable_good [OF reach] by blast
  have queue: "queue_inv (Some n) g" using queue.reachable_good [OF reach] .
  have "filter_mset (\<lambda>b. sb_mode b = SubmitQueue) (tg_tasks g + mset (tg_queue g) + mset (tg_taken g)) \<subseteq>#
      filter_mset sb_slot (tg_tasks g + mset (tg_queue g) + mset (tg_taken g))"
    using queue by (intro filter_mset_mono_strong) (auto simp: queue_inv_def sent_def)
  then have "size (filter_mset (\<lambda>b. sb_mode b = SubmitQueue) (tg_tasks g + mset (tg_queue g) + mset (tg_taken g))) \<le>
      slot_holders g" unfolding slot_holders_def by (rule size_mset_mono)
  moreover from slots obtain free where free: "tg_slots g = Some free" "free + slot_holders g = min n MAX_PERMITS"
    by (auto simp: slots_inv_def)
  moreover have "t \<notin> tg_reservations g \<longrightarrow>
      (fst (begin_turn (Some n) t SubmitQueue adm g) = RefusedTurn (MaxPendingInputs n) \<longleftrightarrow> free = 0)"
    by (simp add: begin_turn_def Let_def free(1) split: nat.split)
  ultimately show ?thesis by auto
qed

subsection \<open>Examples\<close>

definition sample_context :: admission_gate_context where
  "sample_context = route_policy ''r'' ''h'' DecideQueue [DecideQueue] []"

definition sample_submission :: turn_submission where
  "sample_submission = \<lparr>sb_turn_id = ''t'', sb_mode = SubmitQueue, sb_admission = Some sample_context,
     sb_slot = True, sb_stage = AwaitPermit, sb_decided = None\<rparr>"

lemma admission_append_succeeds:
  assumes "check_in_memory_lease_epoch s (control_stream_id sh c) ep = Inr ()"
    and "EventRecordId (fst st) \<notin> si_event_ids s"
  shows "\<exists>e s'. append_admission_decided sh ep st c (Inr ()) ctx s = (Inr e, s') \<and> ev_id e = EventRecordId (fst st)"
proof -
  let ?r = "admission_decided_record sh st c ctx"
  have "validate_new_event ?r = Inr ()" "is_object (ne_payload ?r)" "ne_kind ?r \<noteq> IoEgressRequested"
      "ne_id ?r = EventRecordId (fst st)"
    by (simp_all add: admission_decided_record_def event_discharged_def validate_new_event_def
        provenance_is_empty_def admission_payload_def json_of_admission_decided_def)
  with assms show ?thesis
    by (simp add: append_admission_decided_def append_one_def append_single event_from_new_def)
qed

text \<open>One submission through the whole gate.\<close>

definition sample_gate0 :: turn_gate where "sample_gate0 = gate_new (Some 1) store_new"

definition sample_gate1 :: turn_gate where
  "sample_gate1 = sample_gate0\<lparr>tg_reservations := {''t''}, tg_slots := Some 0, tg_tasks := {#sample_submission#}\<rparr>"

definition sample_gate2 :: turn_gate where
  "sample_gate2 = sample_gate1\<lparr>tg_capacity := 511,
     tg_tasks := {#sample_submission\<lparr>sb_stage := AwaitAdmission\<rparr>#}\<rparr>"

lemma sample_gate_steps:
  "gate_step sh c (Some 1) sample_gate0 True sample_gate1"
  "gate_step sh c (Some 1) sample_gate1 True sample_gate2"
proof -
  have "begin_turn (Some 1) ''t'' SubmitQueue (Some sample_context) sample_gate0 =
      (BegunTurn sample_submission, sample_gate0\<lparr>tg_reservations := {''t''}, tg_slots := Some 0\<rparr>)"
    by (simp add: begin_turn_def sample_gate0_def gate_new_def sample_submission_def MAX_PERMITS_def)
  from gate_step.begin_ok [OF this] show "gate_step sh c (Some 1) sample_gate0 True sample_gate1"
    by (simp add: sample_gate1_def sample_gate0_def gate_new_def)
  have cap: "tg_capacity sample_gate1 = Suc 511" "\<not> tg_closed sample_gate1"
    by (simp_all add: sample_gate1_def sample_gate0_def gate_new_def MAX_PERMITS_def)
  have "take_permit sample_submission sample_gate1 =
      Some (Inr (sample_submission\<lparr>sb_stage := AwaitAdmission\<rparr>), sample_gate1\<lparr>tg_capacity := 511\<rparr>)"
    using cap by (simp add: take_permit_def)
  from gate_step.permit_ok [OF _ _ this, of "{#}"] show "gate_step sh c (Some 1) sample_gate1 True sample_gate2"
    by (simp add: sample_gate2_def sample_gate1_def sample_submission_def)
qed

lemma gate_reachable_step: "gate_reachable sh c limit s g \<Longrightarrow> gate_step sh c limit g ok g' \<Longrightarrow> gate_reachable sh c limit s g'"
  unfolding gate_reachable_def by (rule rtranclp.rtrancl_into_rtrancl) blast+

lemma sample_gate0_reachable: "gate_reachable sh c (Some 1) store_new sample_gate0"
  by (simp add: gate_reachable_def sample_gate0_def)

lemma sample_gate_sent:
  "\<exists>g. gate_reachable (\<lambda>_. ''7'') sample_coordinates (Some 1) store_new g \<and>
     sent g = [sample_submission\<lparr>sb_stage := ReadyToSend, sb_decided := Some (EventRecordId 4)\<rparr>]"
proof -
  let ?sh = "\<lambda>_. ''7''" and ?c = sample_coordinates and ?b = "sample_submission\<lparr>sb_stage := AwaitAdmission\<rparr>"
  let ?b' = "sample_submission\<lparr>sb_stage := ReadyToSend, sb_decided := Some (EventRecordId 4)\<rparr>"
  have store: "tg_store sample_gate2 = store_new"
    by (simp add: sample_gate2_def sample_gate1_def sample_gate0_def gate_new_def)
  have "\<exists>e s'. append_admission_decided ?sh 0 (4, 0) ?c (Inr ()) sample_context store_new = (Inr e, s') \<and>
      ev_id e = EventRecordId (fst (4 :: uuid, 0 :: i64))"
    by (rule admission_append_succeeds)
      (simp_all add: store_new_def check_in_memory_lease_epoch_def)
  then obtain e s' where app: "append_admission_decided ?sh 0 (4, 0) ?c (Inr ()) sample_context store_new = (Inr e, s')"
      "ev_id e = EventRecordId 4" by auto
  then have "admit_turn ?sh 0 (4, 0) ?c (Inr ()) ?b sample_gate2 = (Inr ?b', sample_gate2\<lparr>tg_store := s'\<rparr>)"
    by (simp add: admit_turn_def store sample_submission_def)
  from gate_step.admit_ok [OF _ _ this, of "{#}"]
  have "gate_step ?sh ?c (Some 1) sample_gate2 True (sample_gate2\<lparr>tg_store := s', tg_tasks := {#?b'#}\<rparr>)"
    by (simp add: sample_gate2_def)
  moreover let ?g = "(submit_unchecked ?b' (sample_gate2\<lparr>tg_store := s', tg_tasks := {#?b'#}\<rparr>))\<lparr>tg_tasks := {#}\<rparr>"
  have "gate_step ?sh ?c (Some 1) (sample_gate2\<lparr>tg_store := s', tg_tasks := {#?b'#}\<rparr>) True ?g"
    by (rule gate_step.submit) simp_all
  ultimately have "gate_reachable ?sh ?c (Some 1) store_new ?g"
    using gate_reachable_step [OF gate_reachable_step [OF gate_reachable_step [OF gate_reachable_step
      [OF sample_gate0_reachable sample_gate_steps(1)] sample_gate_steps(2)]]] by blast
  moreover have "sent ?g = [?b']"
    by (simp add: submit_unchecked_def sent_def sample_gate2_def sample_gate1_def sample_gate0_def gate_new_def)
  ultimately show ?thesis by blast
qed

theorem no_turn_without_admission_witness:
  "\<exists>g. gate_reachable (\<lambda>_. ''7'') sample_coordinates (Some 1) store_new g \<and>
     (\<exists>e \<in> set (control_events (\<lambda>_. ''7'') sample_coordinates (tg_store g)).
        ev_id e = EventRecordId 4 \<and> ev_kind e = AdmissionDecided)"
proof -
  from sample_gate_sent obtain g where g: "gate_reachable (\<lambda>_. ''7'') sample_coordinates (Some 1) store_new g"
    "sent g = [sample_submission\<lparr>sb_stage := ReadyToSend, sb_decided := Some (EventRecordId 4)\<rparr>]" by blast
  from no_turn_without_admission [OF new_reachable g(1), of "[]" SubmitQueue None] g(2)
  have "\<exists>e \<in> set (control_events (\<lambda>_. ''7'') sample_coordinates (tg_store g)).
      ev_id e = EventRecordId 4 \<and> ev_kind e = AdmissionDecided"
    by (simp add: sample_submission_def) metis
  with g(1) show ?thesis by blast
qed

theorem pending_inputs_bounded_witness:
  "fst (begin_turn (Some 1) ''u'' SubmitQueue None sample_gate1) = RefusedTurn (MaxPendingInputs 1)"
proof -
  have "gate_reachable (\<lambda>_. ''7'') sample_coordinates (Some 1) store_new sample_gate1"
    by (rule gate_reachable_step [OF sample_gate0_reachable sample_gate_steps(1)])
  from pending_inputs_bounded [OF this, of "''u''" None] show ?thesis
    by (auto simp: sample_gate1_def)
qed

end
