(* ===== verification/Binding_Projector.thy ===== *)
theory Binding_Projector
  imports Event_Record "HOL-Library.Multiset"
begin

section \<open>Folding and reconciling thread bindings\<close>

text \<open>
  \<^verbatim>\<open>src/crates/verlet-kernel/src/kernel/binding_projector.rs\<close>: which operation bindings a thread
  has is not stored anywhere; it is the fold of the \<open>binding.attached\<close> and \<open>binding.detached\<close>
  events of its stream.  \<open>reconcile_thread_bindings\<close> computes the detachments and attachments that
  lead from the active bindings to the desired ones.

  Decoding a payload (\<open>serde_json::from_value\<close>) is a parameter: a \<open>binding_codec\<close> holds the two
  decoders, whose errors are the rendered messages.
\<close>

subsection \<open>The fold\<close>

record thread_binding =
  tbi_attach_event_id :: event_record_id
  tbi_payload :: binding_attached_payload

datatype thread_binding_anomaly =
    UndecodableAttached event_record_id string
  | UndecodableDetached event_record_id string
  | UnknownDetach event_record_id event_record_id
  | AlreadyDetached event_record_id event_record_id

record thread_bindings_fold =
  bf_active :: "thread_binding list"
  bf_anomalies :: "thread_binding_anomaly list"

record binding_codec =
  decode_attached :: "json \<Rightarrow> string + binding_attached_payload"
  decode_detached :: "json \<Rightarrow> string + binding_detached_payload"

text \<open>\<open>Iterator::position\<close> and \<open>Vec::remove\<close>\<close>

primrec position :: "('a \<Rightarrow> bool) \<Rightarrow> 'a list \<Rightarrow> nat option" where
  "position P [] = None"
| "position P (x # xs) = (if P x then Some 0 else map_option Suc (position P xs))"

definition remove_at :: "nat \<Rightarrow> 'a list \<Rightarrow> 'a list" where
  "remove_at i xs = take i xs @ drop (Suc i) xs"

definition push_anomaly ::
  "thread_binding_anomaly \<Rightarrow> thread_bindings_fold \<Rightarrow> thread_bindings_fold" where
  "push_anomaly a folded = folded\<lparr>bf_anomalies := bf_anomalies folded @ [a]\<rparr>"

text \<open>One turn of the loop; the second component is the set \<open>inactive\<close>.\<close>

definition fold_binding_event ::
  "binding_codec \<Rightarrow> event_record \<Rightarrow> thread_bindings_fold \<times> event_record_id set \<Rightarrow>
   thread_bindings_fold \<times> event_record_id set" where
  "fold_binding_event codec event = (\<lambda>(folded, inactive).
     case ev_kind event of
       BindingAttached \<Rightarrow>
         (case decode_attached codec (ev_payload event) of
            Inr payload \<Rightarrow>
              (folded\<lparr>bf_active := bf_active folded @
                 [\<lparr>tbi_attach_event_id = ev_id event, tbi_payload = payload\<rparr>]\<rparr>, inactive)
          | Inl message \<Rightarrow> (push_anomaly (UndecodableAttached (ev_id event) message) folded, inactive))
     | BindingDetached \<Rightarrow>
         (case decode_detached codec (ev_payload event) of
            Inl message \<Rightarrow> (push_anomaly (UndecodableDetached (ev_id event) message) folded, inactive)
          | Inr payload \<Rightarrow>
              (case position (\<lambda>binding. tbi_attach_event_id binding = bd_attach_event_id payload)
                      (bf_active folded) of
                 Some index \<Rightarrow>
                   (folded\<lparr>bf_active := remove_at index (bf_active folded)\<rparr>,
                    insert (bd_attach_event_id payload) inactive)
               | None \<Rightarrow>
                   if bd_attach_event_id payload \<in> inactive
                   then (push_anomaly (AlreadyDetached (ev_id event) (bd_attach_event_id payload)) folded,
                         inactive)
                   else (push_anomaly (UnknownDetach (ev_id event) (bd_attach_event_id payload)) folded,
                         inactive)))
     | _ \<Rightarrow> (folded, inactive))"

definition fold_thread_bindings :: "binding_codec \<Rightarrow> event_record list \<Rightarrow> thread_bindings_fold" where
  "fold_thread_bindings codec events =
     fst (fold (fold_binding_event codec) events (\<lparr>bf_active = [], bf_anomalies = []\<rparr>, {}))"

subsection \<open>Reconciliation\<close>

definition binding_payload_identity_matches ::
  "binding_attached_payload \<Rightarrow> binding_attached_payload \<Rightarrow> bool" where
  "binding_payload_identity_matches left right \<longleftrightarrow>
     ba_name left = ba_name right \<and> ba_artifact_hash left = ba_artifact_hash right \<and>
     ba_operations left = ba_operations right \<and> ba_direct_tools left = ba_direct_tools right \<and>
     ba_attachment_config left = ba_attachment_config right \<and>
     ba_effect_class left = ba_effect_class right"

record thread_binding_delta =
  td_removed_attach_event_ids :: "event_record_id list"
  td_added_bindings :: "binding_attached_payload list"

text \<open>The loop over the desired bindings; it carries \<open>unmatched_active\<close> and \<open>added_bindings\<close>.\<close>

primrec match_desired ::
  "thread_binding list \<Rightarrow> binding_attached_payload list \<Rightarrow>
   bool list \<times> binding_attached_payload list \<Rightarrow> bool list \<times> binding_attached_payload list" where
  "match_desired active [] st = st"
| "match_desired active (desired_binding # desired) st =
     match_desired active desired
       (case find (\<lambda>(index, active_binding). fst st ! index \<and>
                binding_payload_identity_matches (tbi_payload active_binding) desired_binding)
               (List.enumerate 0 active) of
          Some (index, _) \<Rightarrow> ((fst st)[index := False], snd st)
        | None \<Rightarrow> (fst st, snd st @ [desired_binding]))"

definition reconcile_thread_bindings ::
  "thread_binding list \<Rightarrow> binding_attached_payload list \<Rightarrow> thread_binding_delta" where
  "reconcile_thread_bindings active desired =
     (let (unmatched_active, added_bindings) =
            match_desired active desired (replicate (length active) True, []) in
      \<lparr>td_removed_attach_event_ids =
         map (\<lambda>(binding, _). tbi_attach_event_id binding)
           (filter (\<lambda>(_, unmatched). unmatched) (zip active unmatched_active)),
       td_added_bindings = added_bindings\<rparr>)"

subsection \<open>The bindings a stream declares\<close>

text \<open>
  The declarative reading of a stream: an attachment is live when no later event detaches it.
\<close>

definition attached_by :: "binding_codec \<Rightarrow> event_record \<Rightarrow> thread_binding option" where
  "attached_by codec e =
     (if ev_kind e = BindingAttached
      then case decode_attached codec (ev_payload e) of
          Inl _ \<Rightarrow> None
        | Inr p \<Rightarrow> Some \<lparr>tbi_attach_event_id = ev_id e, tbi_payload = p\<rparr>
      else None)"

definition detached_by :: "binding_codec \<Rightarrow> event_record \<Rightarrow> event_record_id option" where
  "detached_by codec e =
     (if ev_kind e = BindingDetached
      then case decode_detached codec (ev_payload e) of
          Inl _ \<Rightarrow> None | Inr p \<Rightarrow> Some (bd_attach_event_id p)
      else None)"

fun live_bindings :: "binding_codec \<Rightarrow> event_record list \<Rightarrow> thread_binding list" where
  "live_bindings codec [] = []"
| "live_bindings codec (e # es) =
     (case attached_by codec e of
        None \<Rightarrow> live_bindings codec es
      | Some b \<Rightarrow>
          if \<exists>e' \<in> set es. detached_by codec e' = Some (tbi_attach_event_id b)
          then live_bindings codec es else b # live_bindings codec es)"

lemma attached_by_id: "attached_by codec e = Some b \<Longrightarrow> tbi_attach_event_id b = ev_id e"
  by (auto simp: attached_by_def split: if_splits sum.splits)

lemma live_ids: "b \<in> set (live_bindings codec es) \<Longrightarrow> tbi_attach_event_id b \<in> ev_id ` set es"
  by (induction codec es rule: live_bindings.induct)
    (auto dest: attached_by_id split: option.splits if_splits)

lemma live_distinct:
  "distinct (map ev_id es) \<Longrightarrow> distinct (map tbi_attach_event_id (live_bindings codec es))"
proof (induction es)
  case (Cons e es)
  have "ev_id e \<notin> tbi_attach_event_id ` set (live_bindings codec es)"
    using Cons.prems live_ids [of _ codec es] by auto
  with Cons show ?case by (auto dest: attached_by_id split: option.splits)
qed simp

lemma live_snoc:
  "live_bindings codec (es @ [e]) =
   (case attached_by codec e of
      Some b \<Rightarrow> live_bindings codec es @ [b]
    | None \<Rightarrow> filter (\<lambda>b. detached_by codec e \<noteq> Some (tbi_attach_event_id b)) (live_bindings codec es))"
proof -
  have excl: "attached_by codec e = Some b \<Longrightarrow> detached_by codec e = None" for b
    by (auto simp: attached_by_def detached_by_def split: if_splits)
  show ?thesis
    using excl by (induction codec es rule: live_bindings.induct) (auto split: option.splits)
qed

lemma position_None: "position P xs = None \<longleftrightarrow> (\<forall>x \<in> set xs. \<not> P x)"
  by (induction xs) auto

lemma remove_at_position:
  "distinct (map f xs) \<Longrightarrow> position (\<lambda>x. f x = a) xs = Some i \<Longrightarrow>
   remove_at i xs = filter (\<lambda>x. f x \<noteq> a) xs \<and> a \<in> f ` set xs"
proof (induction xs arbitrary: i)
  case (Cons x xs)
  show ?case
  proof (cases "f x = a")
    case True
    have "a \<notin> f ` set xs" using True Cons.prems(1) by simp
    then have "f y \<noteq> a" if "y \<in> set xs" for y using that by blast
    then have "filter (\<lambda>x. f x \<noteq> a) xs = xs" by (simp add: filter_id_conv)
    with True Cons.prems(2) show ?thesis by (auto simp: remove_at_def)
  next
    case False
    with Cons.prems(2) obtain k where "i = Suc k" "position (\<lambda>x. f x = a) xs = Some k" by auto
    with Cons.IH [of k] Cons.prems(1) False show ?thesis by (auto simp: remove_at_def)
  qed
qed simp

text \<open>Decodable events whose detachments hit a live attachment.\<close>

definition clean_event :: "binding_codec \<Rightarrow> event_record list \<Rightarrow> event_record \<Rightarrow> bool" where
  "clean_event codec es e \<longleftrightarrow>
     (ev_kind e = BindingAttached \<longrightarrow> (\<exists>p. decode_attached codec (ev_payload e) = Inr p)) \<and>
     (ev_kind e = BindingDetached \<longrightarrow>
        (\<exists>p. decode_detached codec (ev_payload e) = Inr p \<and>
           bd_attach_event_id p \<in> tbi_attach_event_id ` set (live_bindings codec es)))"

definition fold_state ::
  "binding_codec \<Rightarrow> event_record list \<Rightarrow> thread_bindings_fold \<times> event_record_id set" where
  "fold_state codec es = fold (fold_binding_event codec) es (\<lparr>bf_active = [], bf_anomalies = []\<rparr>, {})"

lemma fold_state_snoc: "fold_state codec (es @ [e]) = fold_binding_event codec e (fold_state codec es)"
  by (simp add: fold_state_def)

lemma fold_event_active:
  assumes "bf_active folded = live_bindings codec es" "distinct (map ev_id es)"
  shows "bf_active (fst (fold_binding_event codec e (folded, inactive))) = live_bindings codec (es @ [e])"
proof -
  note distinct = live_distinct [OF assms(2), of codec]
  consider (attached) "ev_kind e = BindingAttached" | (detached) "ev_kind e = BindingDetached"
    | (other) "ev_kind e \<noteq> BindingAttached" "ev_kind e \<noteq> BindingDetached" by blast
  then show ?thesis
  proof cases
    case attached
    then show ?thesis
      using assms(1) by (cases "decode_attached codec (ev_payload e)")
        (simp_all add: fold_binding_event_def live_snoc attached_by_def detached_by_def push_anomaly_def)
  next
    case detached
    show ?thesis
    proof (cases "decode_detached codec (ev_payload e)")
      case (Inl m)
      with detached assms(1) show ?thesis
        by (simp add: fold_binding_event_def live_snoc attached_by_def detached_by_def push_anomaly_def)
    next
      case (Inr p)
      let ?at = "\<lambda>b. tbi_attach_event_id b = bd_attach_event_id p"
      have live: "live_bindings codec (es @ [e]) =
          filter (\<lambda>b. \<not> ?at b) (live_bindings codec es)"
        using detached Inr by (auto simp: live_snoc attached_by_def detached_by_def intro: filter_cong)
      show ?thesis
      proof (cases "position ?at (live_bindings codec es)")
        case None
        then have "filter (\<lambda>b. \<not> ?at b) (live_bindings codec es) = live_bindings codec es"
          by (simp add: position_None filter_id_conv)
        with None detached Inr assms(1) live show ?thesis
          by (simp add: fold_binding_event_def push_anomaly_def)
      next
        case (Some i)
        with remove_at_position [OF distinct Some] detached Inr assms(1) live show ?thesis
          by (simp add: fold_binding_event_def)
      qed
    qed
  next
    case other
    then show ?thesis
      using assms(1) by (cases "ev_kind e")
        (simp_all add: fold_binding_event_def live_snoc attached_by_def detached_by_def)
  qed
qed

lemma fold_state_active:
  "distinct (map ev_id es) \<Longrightarrow> bf_active (fst (fold_state codec es)) = live_bindings codec es"
proof (induction es rule: rev_induct)
  case Nil
  then show ?case by (simp add: fold_state_def)
next
  case (snoc e es)
  obtain folded inactive where st: "fold_state codec es = (folded, inactive)" by fastforce
  from snoc have "bf_active folded = live_bindings codec es" by (simp add: st)
  from fold_event_active [OF this] snoc.prems show ?case by (simp add: fold_state_snoc st)
qed

lemma clean_event_anomalies:
  assumes "bf_active folded = live_bindings codec es" "clean_event codec es e"
  shows "bf_anomalies (fst (fold_binding_event codec e (folded, inactive))) = bf_anomalies folded"
  using assms by (cases "ev_kind e")
    (auto simp: fold_binding_event_def clean_event_def position_None split: option.splits)

lemma fold_anomalies_clean:
  "distinct (map ev_id es) \<Longrightarrow>
   bf_anomalies (fst (fold_state codec es)) = [] \<longleftrightarrow>
   (\<forall>n < length es. clean_event codec (take n es) (es ! n))"
proof (induction es rule: rev_induct)
  case Nil
  then show ?case by (simp add: fold_state_def)
next
  case (snoc e es)
  obtain folded inactive where st: "fold_state codec es = (folded, inactive)" by fastforce
  have active: "bf_active folded = live_bindings codec es"
    using fold_state_active [of es codec] snoc.prems by (simp add: st)
  let ?new = "fst (fold_binding_event codec e (folded, inactive))"
  have "bf_anomalies ?new \<noteq> []" if "\<not> clean_event codec es e"
  proof -
    have "position (\<lambda>b. tbi_attach_event_id b = a) (live_bindings codec es) = None"
      if "a \<notin> tbi_attach_event_id ` set (live_bindings codec es)" for a
      using that by (auto simp: position_None)
    with that active show ?thesis
      by (auto simp: clean_event_def fold_binding_event_def push_anomaly_def split: sum.splits)
  qed
  moreover have "bf_anomalies ?new \<noteq> []" if "bf_anomalies folded \<noteq> []"
    using that by (cases "ev_kind e") (auto simp: fold_binding_event_def push_anomaly_def
        split: sum.splits option.splits)
  ultimately have "bf_anomalies ?new = [] \<longleftrightarrow> bf_anomalies folded = [] \<and> clean_event codec es e"
    using clean_event_anomalies [OF active, of e inactive] by auto
  moreover have "bf_anomalies folded = [] \<longleftrightarrow>
      (\<forall>n < length es. clean_event codec (take n es) (es ! n))"
    using snoc by (simp add: st)
  ultimately show ?case
    by (auto simp: fold_state_snoc st less_Suc_eq nth_append)
qed

text \<open>
  C39. The fold computes the live bindings.  On a stream without repeated event ids the active
  bindings are, in order, exactly the decodable attachments that no later decodable detachment
  names; and the fold reports no anomaly exactly when every binding event decodes and every
  detachment names an attachment that is live at that point.
\<close>

theorem fold_computes_live_bindings:
  assumes "distinct (map ev_id es)"
  shows "bf_active (fold_thread_bindings codec es) = live_bindings codec es \<and>
    (bf_anomalies (fold_thread_bindings codec es) = [] \<longleftrightarrow>
       (\<forall>n < length es. clean_event codec (take n es) (es ! n)))"
  using fold_state_active [OF assms, of codec] fold_anomalies_clean [OF assms, of codec]
  by (simp add: fold_thread_bindings_def fold_state_def)

text \<open>A small stream of binding events, used to exhibit the hypotheses.\<close>

definition sample_binding :: "string \<Rightarrow> binding_attached_payload" where
  "sample_binding name = \<lparr>ba_name = name, ba_artifact_hash = ''h'', ba_operations = [],
     ba_direct_tools = [], ba_attachment_config = attachment_config_default,
     ba_effect_class = AtMostOnce, ba_requested_by = ''u'', ba_decided_by = ''u'',
     ba_decision_event_id = None\<rparr>"

definition sample_binding_codec :: binding_codec where
  "sample_binding_codec = \<lparr>
     decode_attached = (\<lambda>v. case json_get v ''name'' of
       Some (JString n) \<Rightarrow> Inr (sample_binding n) | _ \<Rightarrow> Inl ''missing field name''),
     decode_detached = (\<lambda>v. Inr \<lparr>bd_attach_event_id = EventRecordId 1, bd_requested_by = ''u'',
       bd_decided_by = ''u'', bd_decision_event_id = None\<rparr>)\<rparr>"

definition sample_binding_event :: "uuid \<Rightarrow> event_kind \<Rightarrow> string \<Rightarrow> event_record" where
  "sample_binding_event u kind name = sample_event\<lparr>ev_id := EventRecordId u, ev_kind := kind,
     ev_payload := JObject [(''name'', JString name)]\<rparr>"

definition sample_binding_events :: "event_record list" where
  "sample_binding_events = [sample_binding_event 1 BindingAttached ''a'',
     sample_binding_event 2 BindingAttached ''b'', sample_binding_event 3 BindingDetached ''a'']"

theorem fold_computes_live_bindings_witness:
  "map tbi_attach_event_id (bf_active (fold_thread_bindings sample_binding_codec sample_binding_events)) =
     [EventRecordId 2]"
proof -
  have "distinct (map ev_id sample_binding_events)"
    by (simp add: sample_binding_events_def sample_binding_event_def)
  note fold_computes_live_bindings [OF this, of sample_binding_codec]
  moreover have "map tbi_attach_event_id (live_bindings sample_binding_codec sample_binding_events) =
      [EventRecordId 2]"
    by (simp add: sample_binding_events_def sample_binding_event_def sample_binding_codec_def
        attached_by_def detached_by_def json_get_def)
  ultimately show ?thesis by metis
qed

subsection \<open>Reconciliation reaches the desired bindings\<close>

text \<open>What \<open>binding_payload_identity_matches\<close> compares.\<close>

definition binding_identity where
  "binding_identity p = (ba_name p, ba_artifact_hash p, ba_operations p, ba_direct_tools p,
     ba_attachment_config p, ba_effect_class p)"

lemma identity_matches_iff:
  "binding_payload_identity_matches a b \<longleftrightarrow> binding_identity a = binding_identity b"
  by (auto simp: binding_payload_identity_matches_def binding_identity_def)

definition matched_identities where
  "matched_identities active unmatched =
     image_mset (\<lambda>(b, _). binding_identity (tbi_payload b))
       (filter_mset (\<lambda>(_, u). \<not> u) (mset (zip active unmatched)))"

lemma matched_update:
  assumes "i < length active" "length unmatched = length active" "unmatched ! i"
  shows "matched_identities active (unmatched[i := False]) =
    matched_identities active unmatched + {#binding_identity (tbi_payload (active ! i))#}"
proof -
  have upd: "zip active (unmatched[i := False]) = (zip active unmatched)[i := (active ! i, False)]"
    using assms by (metis list_update_id zip_update)
  have "mset ((zip active unmatched)[i := (active ! i, False)]) =
      add_mset (active ! i, False) (mset (zip active unmatched) - {#(active ! i, True)#})"
    using assms by (simp add: mset_update)
  moreover have "(active ! i, True) \<in># mset (zip active unmatched)"
    using assms by (auto simp: in_set_zip)
  then obtain R where "mset (zip active unmatched) = add_mset (active ! i, True) R"
    by (metis insert_DiffM)
  ultimately show ?thesis by (simp add: matched_identities_def upd)
qed

lemma find_unmatched:
  assumes "find (\<lambda>(i, b). unmatched ! i \<and> Q b) (List.enumerate 0 active) = Some (i, b)"
  shows "i < length active \<and> b = active ! i \<and> unmatched ! i \<and> Q (active ! i)"
  using assms by (auto simp: find_Some_iff nth_enumerate_eq)

lemma match_desired_spec:
  assumes "match_desired active desired (unmatched, added) = (unmatched', added')"
    and "length unmatched = length active"
    and "\<forall>d \<in> set added. \<forall>i < length active. unmatched ! i \<longrightarrow>
      binding_identity (tbi_payload (active ! i)) \<noteq> binding_identity d"
  shows "length unmatched' = length active \<and>
    matched_identities active unmatched' + image_mset binding_identity (mset added') =
      matched_identities active unmatched + image_mset binding_identity (mset added) +
      image_mset binding_identity (mset desired) \<and>
    (\<forall>d \<in> set added'. \<forall>i < length active. unmatched' ! i \<longrightarrow>
      binding_identity (tbi_payload (active ! i)) \<noteq> binding_identity d)"
  using assms
proof (induction desired arbitrary: unmatched added)
  case Nil
  then show ?case by simp
next
  case (Cons d desired)
  let ?find = "find (\<lambda>(i, b). unmatched ! i \<and> binding_payload_identity_matches (tbi_payload b) d)
    (List.enumerate 0 active)"
  show ?case
  proof (cases ?find)
    case None
    have none: "\<not> (unmatched ! i \<and> binding_identity (tbi_payload (active ! i)) = binding_identity d)"
      if "i < length active" for i
    proof -
      have "(i, active ! i) \<in> set (List.enumerate 0 active)"
        using that by (auto simp: in_set_conv_nth nth_enumerate_eq)
      with None show ?thesis by (auto simp: find_None_iff identity_matches_iff)
    qed
    have "match_desired active desired (unmatched, added @ [d]) = (unmatched', added')"
      using Cons.prems(1) None by simp
    note ih = Cons.IH [OF this Cons.prems(2)]
    have "\<forall>d' \<in> set (added @ [d]). \<forall>i < length active. unmatched ! i \<longrightarrow>
        binding_identity (tbi_payload (active ! i)) \<noteq> binding_identity d'"
      using Cons.prems(3) none by simp
    note ih = ih [OF this]
    have "matched_identities active unmatched' + image_mset binding_identity (mset added') =
        matched_identities active unmatched + image_mset binding_identity (mset added) +
        image_mset binding_identity (mset (d # desired))"
      using ih [THEN conjunct2, THEN conjunct1] by simp
    with ih show ?thesis by blast
  next
    case (Some ib)
    then obtain i b where ib: "?find = Some (i, b)" by (cases ib) auto
    note found = find_unmatched [OF ib]
    have step: "match_desired active desired (unmatched[i := False], added) = (unmatched', added')"
      using Cons.prems(1) ib by simp
    have len: "length (unmatched[i := False]) = length active" using Cons.prems(2) by simp
    have "\<forall>d \<in> set added. \<forall>k < length active. unmatched[i := False] ! k \<longrightarrow>
        binding_identity (tbi_payload (active ! k)) \<noteq> binding_identity d"
    proof (intro ballI allI impI)
      fix d k assume "d \<in> set added" "k < length active" "unmatched[i := False] ! k"
      then show "binding_identity (tbi_payload (active ! k)) \<noteq> binding_identity d"
        using Cons.prems(2,3) by (cases "k = i") simp_all
    qed
    note ih = Cons.IH [OF step len this]
    have "matched_identities active unmatched' + image_mset binding_identity (mset added') =
        matched_identities active unmatched + image_mset binding_identity (mset added) +
        image_mset binding_identity (mset (d # desired))"
      using ih [THEN conjunct2, THEN conjunct1] found matched_update [of i active unmatched]
        Cons.prems(2) by (simp add: identity_matches_iff)
    with ih show ?thesis by blast
  qed
qed

lemma kept_of_zip:
  "length us = length xs \<Longrightarrow> (\<And>i. i < length xs \<Longrightarrow> P (xs ! i) \<longleftrightarrow> \<not> us ! i) \<Longrightarrow>
   filter P xs = map fst (filter (\<lambda>(_, u). \<not> u) (zip xs us))"
proof (induction xs us rule: list_induct2')
  case (4 x xs u us)
  have "P x \<longleftrightarrow> \<not> u" using 4(3) [of 0] by simp
  moreover have "filter P xs = map fst (filter (\<lambda>(_, u). \<not> u) (zip xs us))"
    using 4(2) 4(3) [of "Suc _"] by (intro 4(1)) auto
  ultimately show ?case by simp
qed simp_all

lemma reconcile_exact:
  assumes "distinct (map tbi_attach_event_id active)"
    and "reconcile_thread_bindings active desired = delta"
  shows "image_mset (binding_identity \<circ> tbi_payload)
      (mset (filter (\<lambda>b. tbi_attach_event_id b \<notin> set (td_removed_attach_event_ids delta)) active)) +
      image_mset binding_identity (mset (td_added_bindings delta)) =
      image_mset binding_identity (mset desired) \<and>
    (\<forall>b \<in> set active. \<forall>d \<in> set (td_added_bindings delta).
       tbi_attach_event_id b \<in> set (td_removed_attach_event_ids delta) \<longrightarrow>
       binding_identity (tbi_payload b) \<noteq> binding_identity d)"
proof -
  obtain unmatched added where m: "match_desired active desired (replicate (length active) True, []) =
      (unmatched, added)" by fastforce
  note spec = match_desired_spec [OF m, simplified]
  have start: "matched_identities active (replicate (length active) True) = {#}"
    by (auto simp: matched_identities_def filter_empty_conv set_zip simp flip: mset_filter)
  have delta: "td_added_bindings delta = added" "td_removed_attach_event_ids delta =
      map (\<lambda>(b, _). tbi_attach_event_id b) (filter (\<lambda>(_, u). u) (zip active unmatched))"
    using assms(2) m by (auto simp: reconcile_thread_bindings_def)
  have len: "length unmatched = length active" using spec by simp
  have removed: "tbi_attach_event_id (active ! i) \<in> set (td_removed_attach_event_ids delta) \<longleftrightarrow>
      unmatched ! i" if "i < length active" for i
    using that len assms(1) unfolding delta(2)
    by (auto simp: set_zip distinct_conv_nth image_iff)
  have "filter (\<lambda>b. tbi_attach_event_id b \<notin> set (td_removed_attach_event_ids delta)) active =
      map fst (filter (\<lambda>(_, u). \<not> u) (zip active unmatched))"
    by (rule kept_of_zip [OF len]) (use removed in simp)
  then have "image_mset (binding_identity \<circ> tbi_payload)
      (mset (filter (\<lambda>b. tbi_attach_event_id b \<notin> set (td_removed_attach_event_ids delta)) active)) =
      matched_identities active unmatched"
    by (simp add: matched_identities_def image_mset.compositionality comp_def case_prod_unfold)
  moreover have "\<forall>b \<in> set active. \<forall>d \<in> set added.
      tbi_attach_event_id b \<in> set (td_removed_attach_event_ids delta) \<longrightarrow>
      binding_identity (tbi_payload b) \<noteq> binding_identity d"
    using spec removed by (metis in_set_conv_nth)
  ultimately show ?thesis using spec start delta(1) by simp
qed

text \<open>
  Reconciliation is exact and minimal.  Keeping the active bindings that the delta does not
  remove and adding those it adds gives exactly the desired bindings, up to who requested them and
  counted with multiplicity; and nothing is removed and added again: no removed binding has the
  identity of an added one.
\<close>

theorem reconcile_reaches_desired:
  assumes "distinct (map tbi_attach_event_id active)"
    and "reconcile_thread_bindings active desired = delta"
  shows "image_mset (binding_identity \<circ> tbi_payload)
      (mset (filter (\<lambda>b. tbi_attach_event_id b \<notin> set (td_removed_attach_event_ids delta)) active)) +
      image_mset binding_identity (mset (td_added_bindings delta)) =
      image_mset binding_identity (mset desired) \<and>
    (\<forall>b \<in> set active. \<forall>d \<in> set (td_added_bindings delta).
       tbi_attach_event_id b \<in> set (td_removed_attach_event_ids delta) \<longrightarrow>
       binding_identity (tbi_payload b) \<noteq> binding_identity d)"
  using assms by (rule reconcile_exact)

theorem reconcile_reaches_desired_witness:
  "image_mset (binding_identity \<circ> tbi_payload)
     (mset (filter (\<lambda>b. tbi_attach_event_id b \<notin> set (td_removed_attach_event_ids
       (reconcile_thread_bindings
          [\<lparr>tbi_attach_event_id = EventRecordId 1, tbi_payload = sample_binding ''a''\<rparr>]
          [sample_binding ''b''])))
       [\<lparr>tbi_attach_event_id = EventRecordId 1, tbi_payload = sample_binding ''a''\<rparr>])) +
   image_mset binding_identity (mset (td_added_bindings (reconcile_thread_bindings
       [\<lparr>tbi_attach_event_id = EventRecordId 1, tbi_payload = sample_binding ''a''\<rparr>]
       [sample_binding ''b'']))) =
   {#binding_identity (sample_binding ''b'')#}"
  using reconcile_reaches_desired [OF _ refl, of
      "[\<lparr>tbi_attach_event_id = EventRecordId 1, tbi_payload = sample_binding ''a''\<rparr>]"
      "[sample_binding ''b'']"] by simp

end
