(* ===== verification/Manifest_Receipts.thy ===== *)
theory Manifest_Receipts
  imports Binding_Projector Mandate_Lifecycle
begin

section \<open>Recording a manifest binding\<close>

text \<open>
  \<open>RuntimeThreadHandle::record_manifest_receipts_inner\<close> of
  \<^verbatim>\<open>src/crates/verlet-kernel/src/kernel/runtime_host/thread_handle.rs\<close>: read the thread's stream, fold its
  bindings, reconcile them with those the manifest asks for, and append receipts, detachments,
  attachments and the placement witness in one batch, fenced at the end of what was read.  With it the
  parts it uses of \<^verbatim>\<open>src/crates/verlet-kernel/src/agent/manifest_bind.rs\<close> and of
  \<^verbatim>\<open>src/crates/verlet-kernel/src/adapters/app_server/threads.rs\<close>.

  The decoders of \<open>serde\<close> and the hash of a coupling set are the fields of a \<open>manifest_lib\<close>.  Other tasks
  may use the store between the read and the append (argument \<open>between\<close>).  A failure to join the spawned
  append (a panic) is not modelled.
\<close>

subsection \<open>Bindings of a manifest\<close>

datatype effect_class = EffectPure | EffectIdempotent | EffectAtMostOnce

record wasm_attachment_config =
  wa_allowed_secrets :: "string list"
  wa_allowed_private_network :: "(string, string list) btmap"

record agent_manifest_direct_tool =
  md_tool_name :: string
  md_operation :: string
  md_effect_class :: effect_class

record agent_manifest_operation_binding =
  mo_name :: string
  mo_artifact_hash :: string
  mo_effect_class :: effect_class
  mo_attachment_config :: wasm_attachment_config
  mo_bound_parameters :: "(string, json) btmap"
  mo_operations :: "string list"
  mo_direct_tools :: "agent_manifest_direct_tool list"

fun binding_effect_class_of :: "effect_class \<Rightarrow> binding_effect_class" where
  "binding_effect_class_of EffectPure = Pure"
| "binding_effect_class_of EffectIdempotent = Idempotent"
| "binding_effect_class_of EffectAtMostOnce = AtMostOnce"

definition attached_payload_of :: "agent_manifest_operation_binding \<Rightarrow> string \<Rightarrow> binding_attached_payload" where
  "attached_payload_of binding principal_id =
     \<lparr>ba_name = mo_name binding, ba_artifact_hash = mo_artifact_hash binding,
      ba_operations = mo_operations binding,
      ba_direct_tools = map (\<lambda>direct. \<lparr>dt_tool_name = md_tool_name direct,
        dt_operation = md_operation direct,
        dt_effect_class = binding_effect_class_of (md_effect_class direct)\<rparr>) (mo_direct_tools binding),
      ba_attachment_config = \<lparr>
        ac_allowed_secrets = wa_allowed_secrets (mo_attachment_config binding),
        ac_allowed_private_network = wa_allowed_private_network (mo_attachment_config binding),
        ac_bound_parameters = mo_bound_parameters binding\<rparr>,
      ba_effect_class = binding_effect_class_of (mo_effect_class binding),
      ba_requested_by = principal_id, ba_decided_by = principal_id, ba_decision_event_id = None\<rparr>"

record agent_manifest_placement_binding =
  mb_target :: placement_target
  mb_executor_ref :: "string option"
  mb_config :: "(string, json) btmap"

definition placement_binding_default :: agent_manifest_placement_binding where
  "placement_binding_default = \<lparr>mb_target = PlaceLocal, mb_executor_ref = None, mb_config = []\<rparr>"

datatype manifest_error =
    PrincipalRequired
  | InvalidOperationBindings string
  | ManifestHistory verlet_error
  | InvalidBindReceipt event_record_id string
  | BindingsWithoutEvents event_record_id
  | AnomalousBindings "thread_binding_anomaly list"
  | PlacementCodec string
  | PlacementUnavailable placement_target
  | WorkspaceNeedsLocalPlacement
  | MissingManifestHash
  | InvalidCouplingSet string
  | CouplingSetHash verlet_error
  | AppendReturned nat

type_synonym 'a manifest_result = "manifest_error + 'a"

definition resolve_manifest_placement ::
  "agent_manifest_placement_binding option \<Rightarrow> agent_manifest_placement_binding option \<Rightarrow> bool \<Rightarrow>
   agent_manifest_placement_binding manifest_result" where
  "resolve_manifest_placement default_placement placement_override remote_event_store_served =
     (let resolved = (case placement_override of
            Some placement \<Rightarrow> placement
          | None \<Rightarrow> (case default_placement of Some p \<Rightarrow> p | None \<Rightarrow> placement_binding_default)) in
      if mb_target resolved = PlaceRemote \<and> remote_event_store_served then Inr resolved
      else if mb_target resolved \<noteq> PlaceLocal then Inl (PlacementUnavailable (mb_target resolved))
      else Inr resolved)"

record manifest_lib =
  ml_operation_bindings :: "json \<Rightarrow> string + agent_manifest_operation_binding list"
  ml_placement :: "json \<Rightarrow> string + agent_manifest_placement_binding"
  ml_receipt_bindings :: "json \<Rightarrow> string + agent_manifest_operation_binding list"
  ml_coupling_set :: "string \<Rightarrow> string + (string \<times> json)"
  ml_coupling_set_hash :: "string \<times> json \<Rightarrow> string verlet_result"

definition is_binding_event :: "event_record \<Rightarrow> bool" where
  "is_binding_event event \<longleftrightarrow> ev_kind event = BindingAttached \<or> ev_kind event = BindingDetached"

definition validate_manifest_binding_event_contract ::
  "manifest_lib \<Rightarrow> event_record list \<Rightarrow> unit manifest_result" where
  "validate_manifest_binding_event_contract lib events =
     (if \<exists>event \<in> set events. is_binding_event event then Inr ()
      else for_each (\<lambda>event.
        and_then (map_err (InvalidBindReceipt (ev_id event)) (ml_receipt_bindings lib (ev_payload event)))
          (\<lambda>operation_bindings.
             if operation_bindings \<noteq> [] then Inl (BindingsWithoutEvents (ev_id event)) else Inr ()))
        (filter (\<lambda>event. ev_kind event = ManifestBindCompleted) events))"

subsection \<open>The batch\<close>

fun placement_str :: "placement_target \<Rightarrow> string" where
  "placement_str PlaceLocal = ''local''"
| "placement_str PlaceRemote = ''remote''"
| "placement_str PlaceSandbox = ''sandbox''"

definition json_of_placement_decision :: "placement_decision_payload \<Rightarrow> json" where
  "json_of_placement_decision p = jobj
     (field ''subject'' (jobj (field ''invocation_id'' (JString (pb_invocation_id (pl_subject p))))) @
      field ''snapshot_id'' (JString (pl_snapshot_id p)) @
      field ''placement'' (JString (placement_str (pl_placement p))))"

definition binder_provenance :: "event_stream_id \<Rightarrow> event_record_id \<Rightarrow> event_provenance" where
  "binder_provenance stream_id source_event_id = provenance_default\<lparr>ep_source_streams := [stream_id],
     ep_source_event_ids := [source_event_id], ep_discharged_by := Some ''binder:manifest'',
     ep_function := Some ''bind/v1''\<rparr>"

definition detachment_events ::
  "(uuid \<Rightarrow> string) \<Rightarrow> (nat \<Rightarrow> stamp) \<Rightarrow> thread_coordinates \<Rightarrow> event_stream_id \<Rightarrow> event_record_id \<Rightarrow>
   string \<Rightarrow> event_record_id list \<Rightarrow> new_event_record list" where
  "detachment_events show_uuid stamps coordinates stream_id bind_id principal_id removed =
     map (\<lambda>(k, attach_event_id). event_discharged (stamps k) coordinates BindingDetached
         (json_of_binding_detached show_uuid \<lparr>bd_attach_event_id = attach_event_id,
            bd_requested_by = principal_id, bd_decided_by = principal_id, bd_decision_event_id = None\<rparr>)
         (binder_provenance stream_id bind_id))
       (List.enumerate 3 removed)"

definition attachment_events ::
  "(uuid \<Rightarrow> string) \<Rightarrow> (nat \<Rightarrow> stamp) \<Rightarrow> nat \<Rightarrow> thread_coordinates \<Rightarrow> event_stream_id \<Rightarrow> event_record_id \<Rightarrow>
   binding_attached_payload list \<Rightarrow> new_event_record list" where
  "attachment_events show_uuid stamps first coordinates stream_id bind_id added =
     map (\<lambda>(k, payload). event_discharged (stamps k) coordinates BindingAttached
         (json_of_binding_attached show_uuid payload) (binder_provenance stream_id bind_id))
       (List.enumerate first added)"

definition policy_events ::
  "manifest_lib \<Rightarrow> stamp \<Rightarrow> thread_coordinates \<Rightarrow> event_stream_id \<Rightarrow> event_record_id \<Rightarrow> string option \<Rightarrow>
   new_event_record list manifest_result" where
  "policy_events lib event_stamp coordinates stream_id bind_id raw_coupling_set =
     (case raw_coupling_set of
        None \<Rightarrow> Inr []
      | Some raw \<Rightarrow>
          and_then (map_err InvalidCouplingSet (ml_coupling_set lib raw)) (\<lambda>coupling_set.
          and_then (map_err CouplingSetHash (ml_coupling_set_hash lib coupling_set)) (\<lambda>content_hash.
          Inr [event_discharged event_stamp coordinates PolicyBound
            (object_insert ''schema'' (JString (payload_schema_id PolicyBound))
              (json_of_policy_bound \<lparr>pb_policy_kind = CouplingSet,
                 pb_policy_id = ''coupling_set:'' @ fst coupling_set, pb_content_hash = content_hash,
                 pb_valid_from_note = ''valid until next policy.bound of same policy_id''\<rparr>))
            ((binder_provenance stream_id bind_id)\<lparr>ep_config_hash := Some content_hash\<rparr>)])))"

definition placement_for_bind ::
  "manifest_lib \<Rightarrow> json \<Rightarrow> bool \<Rightarrow> agent_manifest_placement_binding manifest_result" where
  "placement_for_bind lib bind_payload remote_execution_authorized =
     and_then (case json_get bind_payload ''placement'' of
         None \<Rightarrow> Inr placement_binding_default
       | Some j \<Rightarrow> map_err PlacementCodec (ml_placement lib j)) (\<lambda>placement.
     and_then (if \<not> remote_execution_authorized then resolve_manifest_placement None (Some placement) False
       else Inr placement) (\<lambda>placement.
     if mb_target placement \<noteq> PlaceLocal \<and>
        is_some_and (json_get bind_payload ''workspace'') (\<lambda>workspace. \<not> is_null workspace)
     then Inl WorkspaceNeedsLocalPlacement else Inr placement))"

definition bind_snapshot_id :: "json \<Rightarrow> string manifest_result" where
  "bind_snapshot_id bind_payload =
     (case Option.bind (json_get bind_payload ''manifest_hash'') as_str of
        Some value \<Rightarrow> if trim value \<noteq> [] then Inr value else Inl MissingManifestHash
      | None \<Rightarrow> Inl MissingManifestHash)"

definition receipt_batch ::
  "(uuid \<Rightarrow> string) \<Rightarrow> (nat \<Rightarrow> stamp) \<Rightarrow> thread_coordinates \<Rightarrow> event_stream_id \<Rightarrow> string \<Rightarrow> json \<Rightarrow> json \<Rightarrow>
   string \<Rightarrow> placement_target \<Rightarrow> thread_binding_delta \<Rightarrow> new_event_record list" where
  "receipt_batch show_uuid stamps coordinates stream_id principal_id compile_payload bind_payload
     snapshot_id target delta =
     (let compile_event = event_discharged (stamps 0) coordinates ManifestCompileCompleted compile_payload
            (provenance_default\<lparr>ep_source_streams := [stream_id],
               ep_discharged_by := Some ''projection:manifest-compiler'',
               ep_function := Some ''manifest_schema/v1''\<rparr>);
          bind_event = event_discharged (stamps 1) coordinates ManifestBindCompleted bind_payload
            (binder_provenance stream_id (ne_id compile_event));
          placement_event = event_witnessed (stamps 2) coordinates PlacementDecision
            (json_of_placement_decision \<lparr>pl_subject = \<lparr>pb_invocation_id =
                show_event_id show_uuid (ne_id bind_event)\<rparr>,
               pl_snapshot_id = snapshot_id, pl_placement = target\<rparr>) in
      [compile_event, bind_event] @
      detachment_events show_uuid stamps coordinates stream_id (ne_id bind_event) principal_id
        (td_removed_attach_event_ids delta) @
      attachment_events show_uuid stamps (3 + length (td_removed_attach_event_ids delta)) coordinates
        stream_id (ne_id bind_event) (td_added_bindings delta) @
      [placement_event])"

definition append_receipt_batch ::
  "(uuid \<Rightarrow> string) \<Rightarrow> u64 \<Rightarrow> event_stream_id \<Rightarrow> event_sequence \<Rightarrow> new_event_record list \<Rightarrow> nat \<Rightarrow>
   store_inner \<Rightarrow> (event_record \<times> event_record) manifest_result \<times> store_inner" where
  "append_receipt_batch show_uuid lease_epoch stream_id expected_next_sequence batch expected inner =
     (case append_events_fenced show_uuid lease_epoch stream_id expected_next_sequence batch inner of
        (Inl e, inner') \<Rightarrow> (Inl (ManifestHistory (StoreError e)), inner')
      | (Inr events, inner') \<Rightarrow>
          if length events < expected then (Inl (AppendReturned (length events)), inner')
          else (case events of
              compile # bind # _ \<Rightarrow> (Inr (compile, bind), inner')
            | _ \<Rightarrow> (Inl (AppendReturned (length events)), inner')))"

definition record_manifest_receipts_inner ::
  "(uuid \<Rightarrow> string) \<Rightarrow> manifest_lib \<Rightarrow> binding_codec \<Rightarrow> u64 \<Rightarrow> (nat \<Rightarrow> stamp) \<Rightarrow>
   (store_inner \<Rightarrow> store_inner) \<Rightarrow> thread_coordinates \<Rightarrow> string option \<Rightarrow> json \<Rightarrow> json \<Rightarrow> string \<Rightarrow> bool \<Rightarrow>
   store_inner \<Rightarrow> (event_record \<times> event_record) manifest_result \<times> store_inner" where
  "record_manifest_receipts_inner show_uuid lib codec lease_epoch stamps between coordinates
     raw_coupling_set compile_payload bind_payload principal_id remote_execution_authorized inner =
     (if trim principal_id = [] then (Inl PrincipalRequired, inner)
      else
        let stream_id = stream_for_thread show_uuid coordinates in
        or_return (case json_get bind_payload ''operation_bindings'' of
            None \<Rightarrow> Inr []
          | Some j \<Rightarrow> map_err InvalidOperationBindings (ml_operation_bindings lib j)) inner
          (\<lambda>operation_bindings.
        or_return (map_err (\<lambda>e. ManifestHistory (StoreError e)) (read_events stream_id None inner)) inner
          (\<lambda>existing_events.
        or_return (validate_manifest_binding_event_contract lib existing_events) inner (\<lambda>_.
        let expected_next_sequence = EventSequence (if existing_events = [] then 1
              else sequence_get (ev_sequence (last existing_events)) + 1);
            folded = fold_thread_bindings codec existing_events in
        if bf_anomalies folded \<noteq> [] then (Inl (AnomalousBindings (bf_anomalies folded)), inner)
        else
          let desired = map (\<lambda>binding. attached_payload_of binding principal_id) operation_bindings;
              delta = reconcile_thread_bindings (bf_active folded) desired in
          or_return (placement_for_bind lib bind_payload remote_execution_authorized) inner (\<lambda>placement.
          or_return (bind_snapshot_id bind_payload) inner (\<lambda>snapshot_id.
          let batch = receipt_batch show_uuid stamps coordinates stream_id principal_id compile_payload
                bind_payload snapshot_id (mb_target placement) delta in
          or_return (policy_events lib (stamps (length batch)) coordinates stream_id
              (EventRecordId (fst (stamps 1))) raw_coupling_set) inner (\<lambda>policy.
          append_receipt_batch show_uuid lease_epoch stream_id expected_next_sequence (batch @ policy)
            (3 + length (td_removed_attach_event_ids delta) + length (td_added_bindings delta))
            (between inner))))))))"

subsection \<open>The effect of a batch on the fold\<close>

definition clean_stream :: "binding_codec \<Rightarrow> event_record list \<Rightarrow> bool" where
  "clean_stream codec es \<longleftrightarrow> (\<forall>n < length es. clean_event codec (take n es) (es ! n))"

lemma clean_stream_snoc: "clean_stream codec (es @ [e]) \<longleftrightarrow> clean_stream codec es \<and> clean_event codec es e"
  by (auto simp: clean_stream_def less_Suc_eq nth_append)

lemma fold_clean_iff:
  assumes "distinct (map ev_id es)"
  shows "bf_anomalies (fold_thread_bindings codec es) = [] \<longleftrightarrow> clean_stream codec es"
    and "bf_active (fold_thread_bindings codec es) = live_bindings codec es"
  using fold_anomalies_clean [OF assms, of codec] fold_state_active [OF assms, of codec]
  by (simp_all add: clean_stream_def fold_thread_bindings_def fold_state_def)

lemma other_events:
  assumes "\<forall>e \<in> set ds. \<not> is_binding_event e" "clean_stream codec es"
  shows "live_bindings codec (es @ ds) = live_bindings codec es \<and> clean_stream codec (es @ ds)"
  using assms(1)
proof (induction ds rule: rev_induct)
  case Nil
  then show ?case using assms(2) by simp
next
  case (snoc e ds)
  then have "attached_by codec e = None" "detached_by codec e = None" "clean_event codec (es @ ds) e"
    by (simp_all add: is_binding_event_def attached_by_def detached_by_def clean_event_def)
  with snoc show ?case
    using live_snoc [of codec "es @ ds" e] clean_stream_snoc [of codec "es @ ds" e] by simp
qed

lemma detaching_events:
  assumes "list_all2 (\<lambda>e i. ev_kind e = BindingDetached \<and>
      (\<exists>p. decode_detached codec (ev_payload e) = Inr p \<and> bd_attach_event_id p = i)) ds removed"
    and "distinct removed" "set removed \<subseteq> tbi_attach_event_id ` set (live_bindings codec es)" "clean_stream codec es"
  shows "live_bindings codec (es @ ds) =
      filter (\<lambda>b. tbi_attach_event_id b \<notin> set removed) (live_bindings codec es) \<and> clean_stream codec (es @ ds)"
  using assms(1-3)
proof (induction ds arbitrary: removed rule: rev_induct)
  case Nil
  then show ?case using assms(4) by simp
next
  case (snoc e ds)
  from snoc.prems(1) obtain is0 i where removed: "removed = is0 @ [i]"
    and ds: "list_all2 (\<lambda>e i. ev_kind e = BindingDetached \<and>
      (\<exists>p. decode_detached codec (ev_payload e) = Inr p \<and> bd_attach_event_id p = i)) ds is0"
    and e: "ev_kind e = BindingDetached" "\<exists>p. decode_detached codec (ev_payload e) = Inr p \<and> bd_attach_event_id p = i"
    by (auto simp: list_all2_append1 list_all2_Cons1)
  have ih: "live_bindings codec (es @ ds) = filter (\<lambda>b. tbi_attach_event_id b \<notin> set is0) (live_bindings codec es)"
    "clean_stream codec (es @ ds)"
    using snoc.IH [OF ds] snoc.prems(2,3) by (simp_all add: removed)
  have at: "attached_by codec e = None" "detached_by codec e = Some i"
    using e by (auto simp: attached_by_def detached_by_def)
  have "i \<in> tbi_attach_event_id ` set (live_bindings codec (es @ ds))"
    using snoc.prems(2,3) by (auto simp: ih(1) removed)
  then have "clean_event codec (es @ ds) e" using e by (auto simp: clean_event_def)
  moreover have "live_bindings codec ((es @ ds) @ [e]) =
      filter (\<lambda>b. tbi_attach_event_id b \<notin> set removed) (live_bindings codec es)"
    unfolding live_snoc at ih(1) by (auto simp: removed intro: filter_cong)
  ultimately show ?case using ih(2) clean_stream_snoc [of codec "es @ ds" e] by simp
qed

lemma attaching_events:
  assumes "list_all2 (\<lambda>e p. ev_kind e = BindingAttached \<and> decode_attached codec (ev_payload e) = Inr p) ds added"
    and "clean_stream codec es"
  shows "\<exists>bs. live_bindings codec (es @ ds) = live_bindings codec es @ bs \<and> map tbi_payload bs = added \<and>
    clean_stream codec (es @ ds)"
  using assms(1)
proof (induction ds arbitrary: added rule: rev_induct)
  case Nil
  then show ?case using assms(2) by simp
next
  case (snoc e ds)
  from snoc.prems obtain ps p where added: "added = ps @ [p]"
    and ds: "list_all2 (\<lambda>e p. ev_kind e = BindingAttached \<and> decode_attached codec (ev_payload e) = Inr p) ds ps"
    and e: "ev_kind e = BindingAttached" "decode_attached codec (ev_payload e) = Inr p"
    by (auto simp: list_all2_append1 list_all2_Cons1)
  from snoc.IH [OF ds] obtain bs where bs: "live_bindings codec (es @ ds) = live_bindings codec es @ bs"
    "map tbi_payload bs = ps" "clean_stream codec (es @ ds)" by blast
  have "attached_by codec e = Some \<lparr>tbi_attach_event_id = ev_id e, tbi_payload = p\<rparr>"
    "clean_event codec (es @ ds) e"
    using e by (simp_all add: attached_by_def clean_event_def)
  with bs live_snoc [of codec "es @ ds" e] clean_stream_snoc [of codec "es @ ds" e] show ?case
    by (intro exI [of _ "bs @ [\<lparr>tbi_attach_event_id = ev_id e, tbi_payload = p\<rparr>]"]) (simp add: added)
qed

lemma removed_are_active:
  "set (td_removed_attach_event_ids (reconcile_thread_bindings active desired)) \<subseteq> tbi_attach_event_id ` set active"
  by (auto simp: reconcile_thread_bindings_def split: prod.splits dest!: set_zip_leftD)

lemma removed_distinct:
  assumes "distinct (map tbi_attach_event_id active)"
  shows "distinct (td_removed_attach_event_ids (reconcile_thread_bindings active desired))"
proof -
  obtain unmatched added where m: "match_desired active desired (replicate (length active) True, []) =
      (unmatched, added)" by fastforce
  have len: "length unmatched = length active" using match_desired_spec [OF m, simplified] by simp
  have "map (\<lambda>(b, _). tbi_attach_event_id b) (filter (\<lambda>(_, u). u) (zip active unmatched)) =
      map (\<lambda>b. tbi_attach_event_id b) (map fst (filter (\<lambda>(_, u). u) (zip active unmatched)))"
    by (simp add: case_prod_unfold)
  moreover have "distinct (map tbi_attach_event_id (map fst (filter (\<lambda>(_, u). u) (zip active unmatched))))"
    using assms len
  proof (induction active unmatched rule: list_induct2')
    case (4 x xs y ys)
    have "tbi_attach_event_id x \<notin> tbi_attach_event_id ` fst ` set (filter (\<lambda>(_, u). u) (zip xs ys))"
      using "4.prems"(1) by (auto dest: set_zip_leftD)
    with 4 show ?case by (auto simp: image_image)
  qed simp_all
  ultimately show ?thesis by (simp add: reconcile_thread_bindings_def m case_prod_unfold comp_def)
qed

lemma match_desired_added:
  "set (snd (match_desired active desired st)) \<subseteq> set (snd st) \<union> set desired"
proof (induction desired arbitrary: st)
  case (Cons d desired)
  let ?st = "case find (\<lambda>(index, b). fst st ! index \<and> binding_payload_identity_matches (tbi_payload b) d)
      (List.enumerate 0 active) of
    Some (index, _) \<Rightarrow> ((fst st)[index := False], snd st) | None \<Rightarrow> (fst st, snd st @ [d])"
  have "set (snd ?st) \<subseteq> insert d (set (snd st))" by (auto split: option.splits)
  with Cons.IH [of ?st] show ?case unfolding match_desired.simps by auto
qed simp

lemma added_are_desired:
  "set (td_added_bindings (reconcile_thread_bindings active desired)) \<subseteq> set desired"
  using match_desired_added [of active desired "(replicate (length active) True, [])"]
  by (simp add: reconcile_thread_bindings_def case_prod_unfold Let_def)

subsection \<open>The batch on the stream\<close>

lemma enumerate_map_snd: "list_all2 (\<lambda>x y. snd x = y) (List.enumerate n xs) xs"
  by (simp add: list_all2_conv_all_nth nth_enumerate_eq)

lemma detachment_records:
  "list_all2 (\<lambda>r i. ne_kind r = BindingDetached \<and> ne_payload r = json_of_binding_detached sh
     \<lparr>bd_attach_event_id = i, bd_requested_by = pr, bd_decided_by = pr, bd_decision_event_id = None\<rparr>)
   (detachment_events sh stamps c i0 b pr removed) removed"
  by (simp add: detachment_events_def list_all2_conv_all_nth nth_enumerate_eq event_discharged_def)

lemma attachment_records:
  "list_all2 (\<lambda>r p. ne_kind r = BindingAttached \<and> ne_payload r = json_of_binding_attached sh p)
   (attachment_events sh stamps n c i0 b added) added"
  by (simp add: attachment_events_def list_all2_conv_all_nth nth_enumerate_eq event_discharged_def)

lemma numbered_append:
  "numbered i n (xs @ ys) = numbered i n xs @ numbered i (n + int (length xs)) ys"
  by (rule nth_equalityI) (simp_all add: nth_append event_from_new_def)

lemma numbered_all2:
  "list_all2 P rs ys \<Longrightarrow> (\<And>e r y. ev_kind e = ne_kind r \<Longrightarrow> ev_payload e = ne_payload r \<Longrightarrow> P r y \<Longrightarrow> Q e y) \<Longrightarrow>
   list_all2 Q (numbered i n rs) ys"
  by (auto simp: list_all2_conv_all_nth event_from_new_def)

lemma numbered_kinds:
  assumes "e \<in> set (numbered i n rs)"
  shows "\<exists>r \<in> set rs. ev_kind e = ne_kind r"
proof -
  from assms obtain k where "k < length rs" "e = numbered i n rs ! k" by (auto simp: in_set_conv_nth)
  then have "ev_kind e = ne_kind (rs ! k)" "rs ! k \<in> set rs" by (simp_all add: event_from_new_def)
  then show ?thesis by blast
qed

lemma policy_kind:
  "policy_events lib st c i b raw = Inr policy \<Longrightarrow> \<forall>r \<in> set policy. ne_kind r = PolicyBound"
  by (auto simp: policy_events_def and_then_eq_Inr event_discharged_def split: option.splits)

lemma batch_folds:
  assumes "clean_stream codec es" "distinct (map ev_id es)"
    and "delta = reconcile_thread_bindings (live_bindings codec es) desired"
    and "\<forall>p \<in> set desired. decode_attached codec (json_of_binding_attached sh p) = Inr p"
    and "\<forall>b \<in> set (live_bindings codec es). \<exists>p. decode_detached codec (json_of_binding_detached sh
       \<lparr>bd_attach_event_id = tbi_attach_event_id b, bd_requested_by = pr, bd_decided_by = pr,
        bd_decision_event_id = None\<rparr>) = Inr p \<and> bd_attach_event_id p = tbi_attach_event_id b"
    and "\<forall>r \<in> set policy. ne_kind r = PolicyBound"
  shows "clean_stream codec (es @ numbered i n (receipt_batch sh stamps c i0 pr cj bj snap target delta @ policy)) \<and>
    image_mset (binding_identity \<circ> tbi_payload) (mset (live_bindings codec
      (es @ numbered i n (receipt_batch sh stamps c i0 pr cj bj snap target delta @ policy)))) =
    image_mset binding_identity (mset desired)"
proof -
  let ?bind = "EventRecordId (fst (stamps 1))"
  let ?removed = "td_removed_attach_event_ids delta" and ?added = "td_added_bindings delta"
  let ?ds = "detachment_events sh stamps c i0 ?bind pr ?removed"
  let ?as = "attachment_events sh stamps (3 + length ?removed) c i0 ?bind ?added"
  obtain r1 r2 r3 where batch: "receipt_batch sh stamps c i0 pr cj bj snap target delta = [r1, r2] @ ?ds @ ?as @ [r3]"
    and kinds: "ne_kind r1 = ManifestCompileCompleted" "ne_kind r2 = ManifestBindCompleted"
      "ne_kind r3 = PlacementDecision"
    by (simp add: receipt_batch_def Let_def event_discharged_def event_witnessed_def)
  define m where "m = n + int 2"
  define k where "k = m + int (length ?ds)"
  define l where "l = k + int (length ?as)"
  have split: "numbered i n (receipt_batch sh stamps c i0 pr cj bj snap target delta @ policy) =
      numbered i n [r1, r2] @ numbered i m ?ds @ numbered i k ?as @ numbered i l (r3 # policy)"
  proof -
    have "numbered i n (([r1, r2] @ ?ds @ ?as @ [r3]) @ policy) =
        numbered i n ([r1, r2] @ (?ds @ (?as @ (r3 # policy))))"
      by simp
    also have "\<dots> = numbered i n [r1, r2] @ numbered i (n + int (length [r1, r2])) (?ds @ (?as @ (r3 # policy)))"
      by (rule numbered_append)
    also have "n + int (length [r1, r2]) = m" by (simp add: m_def)
    also have "numbered i m (?ds @ (?as @ (r3 # policy))) = numbered i m ?ds @ numbered i k (?as @ (r3 # policy))"
      unfolding k_def by (rule numbered_append)
    also have "numbered i k (?as @ (r3 # policy)) = numbered i k ?as @ numbered i l (r3 # policy)"
      unfolding l_def by (rule numbered_append)
    finally show ?thesis unfolding batch .
  qed
  have d: "distinct (map tbi_attach_event_id (live_bindings codec es))" by (rule live_distinct [OF assms(2)])
  have "\<forall>e \<in> set (numbered i n [r1, r2]). \<not> is_binding_event e"
    using numbered_kinds [of _ i n "[r1, r2]"] kinds by (fastforce simp: is_binding_event_def)
  note s1 = other_events [OF this assms(1)]
  let ?es1 = "es @ numbered i n [r1, r2]"
  have removed: "set ?removed \<subseteq> tbi_attach_event_id ` set (live_bindings codec es)"
    unfolding assms(3) by (rule removed_are_active)
  have "list_all2 (\<lambda>e i. ev_kind e = BindingDetached \<and>
      (\<exists>p. decode_detached codec (ev_payload e) = Inr p \<and> bd_attach_event_id p = i)) (numbered i m ?ds) ?removed"
  proof -
    have "list_all2 (\<lambda>r j. j \<in> set ?removed \<and> ne_kind r = BindingDetached \<and>
        ne_payload r = json_of_binding_detached sh \<lparr>bd_attach_event_id = j, bd_requested_by = pr,
          bd_decided_by = pr, bd_decision_event_id = None\<rparr>) ?ds ?removed"
      using detachment_records [of sh pr stamps c i0 ?bind ?removed]
      by (auto simp: list_all2_conv_all_nth)
    then show ?thesis
      by (rule numbered_all2) (use assms(5) removed in force)
  qed
  note s2 = detaching_events [OF this, of ?es1, unfolded s1 [THEN conjunct1],
      OF removed_distinct [OF d, of desired, folded assms(3)] removed s1 [THEN conjunct2]]
  let ?es2 = "?es1 @ numbered i m ?ds"
  have added: "set ?added \<subseteq> set desired"
    unfolding assms(3) by (rule added_are_desired)
  have "list_all2 (\<lambda>e p. ev_kind e = BindingAttached \<and> decode_attached codec (ev_payload e) = Inr p)
      (numbered i k ?as) ?added"
  proof -
    have "list_all2 (\<lambda>r p. p \<in> set ?added \<and> ne_kind r = BindingAttached \<and>
        ne_payload r = json_of_binding_attached sh p) ?as ?added"
      using attachment_records [of sh stamps "3 + length ?removed" c i0 ?bind ?added]
      by (auto simp: list_all2_conv_all_nth)
    then show ?thesis
      by (rule numbered_all2) (use assms(4) added in auto)
  qed
  from attaching_events [OF this s2 [THEN conjunct2]] obtain bs where
    s3: "live_bindings codec (?es2 @ numbered i k ?as) = live_bindings codec ?es2 @ bs"
      "map tbi_payload bs = ?added" "clean_stream codec (?es2 @ numbered i k ?as)" by blast
  have "\<forall>e \<in> set (numbered i l (r3 # policy)). \<not> is_binding_event e"
    using numbered_kinds [of _ i l "r3 # policy"] kinds assms(6) by (fastforce simp: is_binding_event_def)
  note s4 = other_events [OF this s3(3)]
  have bs: "image_mset (binding_identity \<circ> tbi_payload) (mset bs) = image_mset binding_identity (mset ?added)"
    by (simp flip: s3(2) add: image_mset.compositionality)
  from reconcile_exact [OF d assms(3) [symmetric]]
  have "image_mset (binding_identity \<circ> tbi_payload) (mset (live_bindings codec (?es2 @ numbered i k ?as))) =
      image_mset binding_identity (mset desired)"
    unfolding s3(1) s2 [THEN conjunct1] by (simp add: bs)
  with s4 show ?thesis unfolding split by simp
qed

lemma contiguous_last:
  assumes "contiguous_from i 1 es" "es \<noteq> []"
  shows "sequence_get (ev_sequence (last es)) = int (length es)"
proof -
  have "length es - 1 < length es" using assms(2) by simp
  then have "sequence_get (ev_sequence (es ! (length es - 1))) = 1 + int (length es - 1)"
    using assms(1) by (simp add: contiguous_from_def)
  with assms(2) show ?thesis by (simp add: last_conv_nth of_nat_diff Suc_leI)
qed

text \<open>
  How a call goes: it fails before the append and the store is as found, or it reaches the append with
  the batch that reconciles what it read with what the manifest asks for.
\<close>

definition receipts_to_append where
  "receipts_to_append sh codec stamps c cj bj pr bs es batch \<longleftrightarrow>
     (\<exists>snap target policy delta. batch = receipt_batch sh stamps c (stream_for_thread sh c) pr cj bj snap target delta @ policy \<and>
        delta = reconcile_thread_bindings (bf_active (fold_thread_bindings codec es))
          (map (\<lambda>b. attached_payload_of b pr) bs) \<and>
        bf_anomalies (fold_thread_bindings codec es) = [] \<and> (\<forall>r \<in> set policy. ne_kind r = PolicyBound))"

lemma receipts_cases:
  assumes "record_manifest_receipts_inner sh lib codec ep stamps between c raw cj bj pr auth s = (r, s')"
    and "json_get bj ''operation_bindings'' = Some j" "ml_operation_bindings lib j = Inr bs"
    and "es = stream_events s (stream_for_thread sh c)"
  obtains (early) e where "r = Inl e" "s' = s"
  | (append) batch m where "receipts_to_append sh codec stamps c cj bj pr bs es batch" "m \<le> length batch"
    "append_receipt_batch sh ep (stream_for_thread sh c)
       (EventSequence (if es = [] then 1 else sequence_get (ev_sequence (last es)) + 1)) batch m (between s) = (r, s')"
proof -
  let ?i = "stream_for_thread sh c"
  let ?q = "EventSequence (if es = [] then 1 else sequence_get (ev_sequence (last es)) + 1)"
  define folded where "folded = fold_thread_bindings codec es"
  define delta where "delta = reconcile_thread_bindings (bf_active folded) (map (\<lambda>b. attached_payload_of b pr) bs)"
  define batch where "batch = (\<lambda>snap target. receipt_batch sh stamps c ?i pr cj bj snap target delta)"
  define k where "k = 3 + length (td_removed_attach_event_ids delta) + length (td_added_bindings delta)"
  have eq: "(if trim pr = [] then (Inl PrincipalRequired, s)
     else or_return (validate_manifest_binding_event_contract lib es) s (\<lambda>_.
       if bf_anomalies folded \<noteq> [] then (Inl (AnomalousBindings (bf_anomalies folded)), s)
       else or_return (placement_for_bind lib bj auth) s (\<lambda>placement.
         or_return (bind_snapshot_id bj) s (\<lambda>snap.
         or_return (policy_events lib (stamps (length (batch snap (mb_target placement)))) c ?i
           (EventRecordId (fst (stamps 1))) raw) s (\<lambda>policy.
         append_receipt_batch sh ep ?i ?q (batch snap (mb_target placement) @ policy) k (between s)))))) = (r, s')"
    using assms(1) unfolding record_manifest_receipts_inner_def Let_def assms(2-4) read_all
      map_err_simps option.case or_return_simps batch_def delta_def folded_def k_def .
  have len: "k \<le> length (batch snap target @ policy)" for snap target policy
    by (simp add: batch_def k_def receipt_batch_def Let_def detachment_events_def attachment_events_def)
  have "(\<exists>e. r = Inl e \<and> s' = s) \<or> (\<exists>snap target policy. bf_anomalies folded = [] \<and>
      (\<forall>r \<in> set policy. ne_kind r = PolicyBound) \<and>
      append_receipt_batch sh ep ?i ?q (batch snap target @ policy) k (between s) = (r, s'))"
    using eq by (auto simp: or_return_def dest!: policy_kind split: if_splits sum.splits) blast+
  then show thesis
  proof (elim disjE exE conjE)
    fix snap target policy
    assume "bf_anomalies folded = []" "\<forall>r \<in> set policy. ne_kind r = PolicyBound"
      "append_receipt_batch sh ep ?i ?q (batch snap target @ policy) k (between s) = (r, s')"
    then show thesis
      by (intro append [of "batch snap target @ policy" k])
        (use len in \<open>auto simp: receipts_to_append_def batch_def delta_def folded_def\<close>)
  qed (rule early)
qed

lemma append_receipt_batch_cases:
  assumes "append_receipt_batch sh ep i q batch m s = (r, s')"
  obtains (refused) e where "r = Inl e" "s' = s"
  | (short) e where "r = Inl e" "length batch < m \<or> length batch < 2"
  | (appended) rest compile bind where "r = Inr (compile, bind)" "sequence_get q = int (length (stream_events s i)) + 1"
    "numbered i (int (length (stream_events s i))) batch = compile # bind # rest"
    "stream_events s' i = stream_events s i @ numbered i (int (length (stream_events s i))) batch"
    "journal_ok s \<Longrightarrow> journal_ok s'"
proof (cases "append_events_fenced sh ep i q batch s")
  case (Pair x s2)
  show thesis
  proof (cases x)
    case (Inl e)
    with Pair have "s2 = s" by (simp add: fenced_err)
    with assms Pair Inl show thesis
      by (intro refused [of "ManifestHistory (StoreError e)"]) (auto simp: append_receipt_batch_def)
  next
    case (Inr es)
    from memory_journal.fenced_ok [of "(sh, ep)" i q batch s es s2] Pair Inr
    have q: "sequence_get q = int (length (stream_events s i)) + 1"
      and app: "append_events sh ep i batch s = (Inr es, s2)" by simp_all
    then have es: "es = numbered i (int (length (stream_events s i))) batch" and s2: "s2 = with_events i ep batch s"
      by (simp_all add: append_events_ok)
    have len: "length es = length batch" by (simp add: es)
    show thesis
    proof (cases "length es < m \<or> length es < 2")
      case True
      then have "\<exists>e. r = Inl e"
        using assms Pair Inr by (auto simp: append_receipt_batch_def split: list.splits if_splits)
      with True len show thesis using short by auto
    next
      case False
      then obtain compile bind rest where l: "es = compile # bind # rest"
        by (cases es; cases "tl es") auto
      with False assms Pair Inr have "r = Inr (compile, bind)" "s' = s2"
        by (simp_all add: append_receipt_batch_def)
      moreover have "journal_ok s \<Longrightarrow> journal_ok s2" using journal_ok_append [of s sh ep i batch] app by simp
      ultimately show thesis using q es l s2 by (intro appended [of compile bind rest]) simp_all
    qed
  qed
qed

text \<open>
  C35. Binding a manifest.  Suppose \<open>serde\<close> reads back the attachments the manifest asks for and the
  detachments of the bindings that are live.  Then, whatever other tasks do to the store between the read
  and the append, a call that succeeds found the thread's stream as it had read it, extended it by one
  batch that starts with the two receipts it returns, and left a stream that folds without anomaly to
  exactly the bindings of the manifest (compared by identity, that is without who requested them).  A call
  that fails has written nothing.
\<close>

theorem manifest_bind_is_exact:
  assumes "reachable sh s" "later sh s (between s)"
    and "json_get bj ''operation_bindings'' = Some j" "ml_operation_bindings lib j = Inr bs"
    and "\<forall>b \<in> set bs. decode_attached codec (json_of_binding_attached sh (attached_payload_of b pr)) =
       Inr (attached_payload_of b pr)"
    and "\<forall>b \<in> set (bf_active (fold_thread_bindings codec (stream_events s (stream_for_thread sh c)))).
       \<exists>p. decode_detached codec (json_of_binding_detached sh
         \<lparr>bd_attach_event_id = tbi_attach_event_id b, bd_requested_by = pr, bd_decided_by = pr,
          bd_decision_event_id = None\<rparr>) = Inr p \<and> bd_attach_event_id p = tbi_attach_event_id b"
    and "record_manifest_receipts_inner sh lib codec ep stamps between c raw cj bj pr auth s = (r, s')"
  shows "case r of
      Inl _ \<Rightarrow> s' = s \<or> s' = between s
    | Inr (compile, bind) \<Rightarrow>
        stream_events (between s) (stream_for_thread sh c) = stream_events s (stream_for_thread sh c) \<and>
        prefix (stream_events s (stream_for_thread sh c) @ [compile, bind])
          (stream_events s' (stream_for_thread sh c)) \<and>
        ev_kind compile = ManifestCompileCompleted \<and> ev_payload compile = cj \<and>
        ev_kind bind = ManifestBindCompleted \<and> ev_payload bind = bj \<and>
        bf_anomalies (fold_thread_bindings codec (stream_events s' (stream_for_thread sh c))) = [] \<and>
        image_mset (binding_identity \<circ> tbi_payload)
          (mset (bf_active (fold_thread_bindings codec (stream_events s' (stream_for_thread sh c))))) =
        image_mset (binding_identity \<circ> (\<lambda>b. attached_payload_of b pr)) (mset bs)"
  using assms(7,3,4) refl
proof (cases rule: receipts_cases)
  case early
  then show ?thesis by simp
next
  case (append batch m)
  let ?i = "stream_for_thread sh c"
  define es where "es = stream_events s ?i"
  obtain snap target policy delta where
    batch: "batch = receipt_batch sh stamps c ?i pr cj bj snap target delta @ policy"
    and delta: "delta = reconcile_thread_bindings (bf_active (fold_thread_bindings codec es))
      (map (\<lambda>b. attached_payload_of b pr) bs)"
    and clean: "bf_anomalies (fold_thread_bindings codec es) = []"
    and policy: "\<forall>r \<in> set policy. ne_kind r = PolicyBound"
    using append(1) unfolding receipts_to_append_def es_def by blast
  from reachable_ok [OF assms(1)] have ok: "journal_ok s" by simp
  note d = stream_in_order(1) [OF ok, of ?i, folded es_def]
  from append(3) show ?thesis
  proof (cases rule: append_receipt_batch_cases)
    case refused
    then show ?thesis by simp
  next
    case short
    with append(2) show ?thesis by (simp add: batch receipt_batch_def Let_def)
  next
    case (appended rest compile bind)
    have "int (length es) = int (length (stream_events (between s) ?i))"
      using appended(2) contiguous_last [of ?i es] ok by (auto simp: es_def journal_ok_def split: if_splits)
    moreover have "prefix es (stream_events (between s) ?i)"
      using reachable_later [OF assms(1,2)] by (simp add: journal_grows_def es_def)
    ultimately have same: "stream_events (between s) ?i = es" by (auto simp: prefix_def)
    have s': "stream_events s' ?i = es @ numbered ?i (int (length es)) batch"
      using appended(4) by (simp add: same)
    have "journal_ok s'"
      using appended(5) reachable_ok [OF later_reachable [OF assms(1,2)]] by simp
    then have "distinct (map ev_id (stream_events s' ?i))" by (rule stream_in_order)
    note fold' = fold_clean_iff [OF this, of codec]
    note fold = fold_clean_iff [OF d, of codec]
    have "numbered ?i (int (length es)) batch ! 0 = compile" "numbered ?i (int (length es)) batch ! 1 = bind"
      using appended(3) by (simp_all add: same)
    then have "ev_kind compile = ManifestCompileCompleted \<and> ev_payload compile = cj \<and>
        ev_kind bind = ManifestBindCompleted \<and> ev_payload bind = bj"
      by (auto simp: batch receipt_batch_def Let_def event_from_new_def event_discharged_def)
    moreover have "clean_stream codec (es @ numbered ?i (int (length es)) batch) \<and>
        image_mset (binding_identity \<circ> tbi_payload)
          (mset (live_bindings codec (es @ numbered ?i (int (length es)) batch))) =
        image_mset binding_identity (mset (map (\<lambda>b. attached_payload_of b pr) bs))"
      unfolding batch
      by (rule batch_folds) (use clean delta policy d fold assms(5,6) in \<open>simp_all add: es_def\<close>)
    ultimately show ?thesis using appended(1,3) same s' fold'
      by (simp add: es_def image_mset.compositionality)
  qed
qed

subsection \<open>A first binding\<close>

definition sample_operation_binding :: agent_manifest_operation_binding where
  "sample_operation_binding = \<lparr>mo_name = ''fs'', mo_artifact_hash = ''h'', mo_effect_class = EffectPure,
     mo_attachment_config = \<lparr>wa_allowed_secrets = [], wa_allowed_private_network = []\<rparr>,
     mo_bound_parameters = [], mo_operations = [''read''], mo_direct_tools = []\<rparr>"

definition sample_manifest_lib :: manifest_lib where
  "sample_manifest_lib = \<lparr>ml_operation_bindings = (\<lambda>_. Inr [sample_operation_binding]),
     ml_placement = (\<lambda>_. Inr placement_binding_default), ml_receipt_bindings = (\<lambda>_. Inr []),
     ml_coupling_set = (\<lambda>raw. Inr (raw, JNull)), ml_coupling_set_hash = (\<lambda>_. Inr ''h'')\<rparr>"

definition sample_manifest_codec :: binding_codec where
  "sample_manifest_codec = \<lparr>decode_attached = (\<lambda>_. Inr (attached_payload_of sample_operation_binding ''p'')),
     decode_detached = (\<lambda>_. Inl ''detached'')\<rparr>"

definition sample_bind_payload :: json where
  "sample_bind_payload = JObject [(''manifest_hash'', JString ''h''), (''operation_bindings'', JNull)]"

definition sample_bind_result ::
  "(event_record \<times> event_record) manifest_result \<times> store_inner" where
  "sample_bind_result = record_manifest_receipts_inner (\<lambda>_. ''7'') sample_manifest_lib sample_manifest_codec 3
     (\<lambda>k. (of_nat k, 0)) id sample_coordinates None (JObject []) sample_bind_payload ''p'' False store_new"

lemma sample_bind_parts:
  "json_get sample_bind_payload ''operation_bindings'' = Some JNull"
  "json_get sample_bind_payload ''placement'' = None" "json_get sample_bind_payload ''workspace'' = None"
  "bind_snapshot_id sample_bind_payload = Inr ''h''"
  "placement_for_bind sample_manifest_lib sample_bind_payload False = Inr placement_binding_default"
  "trim ''p'' = ''p''"
  by code_simp+

lemma sample_bind_ok: "\<exists>compile bind s'. sample_bind_result = (Inr (compile, bind), s')"
proof -
  let ?st = "\<lambda>k. (of_nat k, 0) :: stamp" and ?i = "stream_for_thread (\<lambda>_. ''7'') sample_coordinates"
  let ?delta = "reconcile_thread_bindings [] [attached_payload_of sample_operation_binding ''p'']"
  let ?batch = "receipt_batch (\<lambda>_. ''7'') ?st sample_coordinates ?i ''p'' (JObject []) sample_bind_payload ''h''
    PlaceLocal ?delta"
  have delta: "?delta = \<lparr>td_removed_attach_event_ids = [],
      td_added_bindings = [attached_payload_of sample_operation_binding ''p'']\<rparr>"
    by (simp add: reconcile_thread_bindings_def)
  have adm: "admissible_batch store_new ?batch"
    unfolding delta
    by (simp add: admissible_batch_def store_new_def receipt_batch_def Let_def detachment_events_def
        attachment_events_def event_discharged_def event_witnessed_def validate_new_event_def storable_def
        binder_provenance_def provenance_is_empty_def sample_bind_payload_def json_of_placement_decision_def
        json_of_binding_attached_def)
  have "check_in_memory_lease_epoch store_new ?i 3 = Inr ()"
    by (simp add: check_in_memory_lease_epoch_def store_new_def)
  with adm obtain s' where "append_events (\<lambda>_. ''7'') 3 ?i ?batch store_new = (Inr (numbered ?i 0 ?batch), s')"
    by (simp add: append_events_ok) (simp add: store_new_def)
  then have app: "append_events_fenced (\<lambda>_. ''7'') 3 ?i (EventSequence 1) ?batch store_new =
      (Inr (numbered ?i 0 ?batch), s')"
    using fenced_when_open [of "EventSequence 1" store_new ?i] by (simp add: store_new_def)
  have es: "stream_events store_new ?i = []" by (simp add: store_new_def)
  have "sample_bind_result = append_receipt_batch (\<lambda>_. ''7'') 3 ?i (EventSequence 1) ?batch 4 store_new"
    unfolding sample_bind_result_def record_manifest_receipts_inner_def Let_def sample_bind_parts read_all es
    by (simp add: delta sample_manifest_lib_def validate_manifest_binding_event_contract_def
        fold_thread_bindings_def policy_events_def placement_binding_default_def)
  with app have run: "sample_bind_result = (if length (numbered ?i 0 ?batch) < 4
      then (Inl (AppendReturned (length (numbered ?i 0 ?batch))), s')
      else (case numbered ?i 0 ?batch of compile # bind # _ \<Rightarrow> (Inr (compile, bind), s')
        | _ \<Rightarrow> (Inl (AppendReturned (length (numbered ?i 0 ?batch))), s')))"
    by (simp add: append_receipt_batch_def)
  have len: "length (numbered ?i 0 ?batch) = 4" unfolding delta
    by (simp add: receipt_batch_def Let_def detachment_events_def attachment_events_def)
  then obtain compile bind rest where "numbered ?i 0 ?batch = compile # bind # rest"
    by (cases "numbered ?i 0 ?batch"; cases "tl (numbered ?i 0 ?batch)") simp_all
  with run len have "sample_bind_result = (Inr (compile, bind), s')" by simp
  then show ?thesis by (intro exI)
qed

theorem manifest_bind_is_exact_witness:
  "image_mset (binding_identity \<circ> tbi_payload) (mset (bf_active (fold_thread_bindings sample_manifest_codec
     (stream_events (snd sample_bind_result) (stream_for_thread (\<lambda>_. ''7'') sample_coordinates))))) =
   {#binding_identity (attached_payload_of sample_operation_binding ''p'')#}"
proof -
  from sample_bind_ok obtain compile bind s' where r: "sample_bind_result = (Inr (compile, bind), s')" by blast
  have "fold_thread_bindings sample_manifest_codec
      (stream_events store_new (stream_for_thread (\<lambda>_. ''7'') sample_coordinates)) =
      \<lparr>bf_active = [], bf_anomalies = []\<rparr>"
    by (simp add: fold_thread_bindings_def store_new_def)
  then have none: "bf_active (fold_thread_bindings sample_manifest_codec
      (stream_events store_new (stream_for_thread (\<lambda>_. ''7'') sample_coordinates))) = []" by simp
  have lib: "ml_operation_bindings sample_manifest_lib JNull = Inr [sample_operation_binding]"
    by (simp add: sample_manifest_lib_def)
  have dec: "\<forall>b \<in> set [sample_operation_binding]. decode_attached sample_manifest_codec
      (json_of_binding_attached (\<lambda>_. ''7'') (attached_payload_of b ''p'')) = Inr (attached_payload_of b ''p'')"
    by (simp add: sample_manifest_codec_def)
  have "later (\<lambda>_. ''7'') store_new (id store_new)" by (simp add: later_refl)
  from manifest_bind_is_exact [OF new_reachable this sample_bind_parts(1) lib dec _ r [unfolded sample_bind_result_def]]
  show ?thesis by (simp add: none r)
qed

end
