(* ===== verification/Sqlite_Store.thy ===== *)
theory Sqlite_Store
  imports Store_Properties Uuid_Format
begin

section \<open>The SQLite history store\<close>

text \<open>
  \<^verbatim>\<open>src/crates/verlet-history-sqlite/src/lib.rs\<close>: the durable implementation of the traits that
  \<open>History_Store\<close> models in memory.

  A table is the list of its rows in the order of their \<open>rowid\<close>; a table that is only written by
  \<open>INSERT \<dots> ON CONFLICT(key) DO UPDATE\<close> and \<open>DELETE\<close> by key is a map.  The statements are written out as
  the code has them, with the constraints of \<open>init_sqlite_schema\<close>: primary keys, unique indexes and, since
  connections run with \<open>foreign_keys = ON\<close>, references.  A violated constraint is a \<open>Storage\<close> error, whose
  text is the engine's.  Every mutation runs in one immediate transaction under the writer lock, so it is
  atomic, and returning an error drops the transaction (\<open>in_transaction\<close>).  I/O errors of the engine are not
  modelled.

  The columns hold text.  The forms \<open>serde_json\<close> and the \<open>uuid\<close> crate give values are the fields of a
  \<open>sqlite_codec\<close>.
\<close>

subsection \<open>Transactions\<close>

type_synonym ('d, 'a) transaction = "'d \<Rightarrow> 'a history_result \<times> 'd"

definition tx_then :: "('d, 'a) transaction \<Rightarrow> ('a \<Rightarrow> ('d, 'b) transaction) \<Rightarrow> ('d, 'b) transaction" where
  "tx_then f g = (\<lambda>db. case f db of (Inl e, db') \<Rightarrow> (Inl e, db') | (Inr a, db') \<Rightarrow> g a db')"

definition in_transaction :: "('d, 'a) transaction \<Rightarrow> ('d, 'a) transaction" where
  "in_transaction f = (\<lambda>db. case f db of (Inl e, _) \<Rightarrow> (Inl e, db) | (Inr a, db') \<Rightarrow> (Inr a, db'))"

text \<open>\<open>for x in xs { body(x)?; }\<close>, collecting the results\<close>

primrec tx_each :: "('x \<Rightarrow> ('d, 'a) transaction) \<Rightarrow> 'x list \<Rightarrow> ('d, 'a list) transaction" where
  "tx_each f [] = (\<lambda>db. (Inr [], db))"
| "tx_each f (x # xs) = tx_then (f x) (\<lambda>a. tx_then (tx_each f xs) (\<lambda>as db. (Inr (a # as), db)))"

lemma tx_then_ok:
  "tx_then f g db = (Inr b, db'') \<longleftrightarrow> (\<exists>a db'. f db = (Inr a, db') \<and> g a db' = (Inr b, db''))"
  by (auto simp: tx_then_def split: prod.splits sum.splits)

lemma in_transaction_ok: "in_transaction f db = (Inr a, db') \<longleftrightarrow> f db = (Inr a, db')"
  by (auto simp: in_transaction_def split: prod.splits sum.splits)

lemma in_transaction_err: "in_transaction f db = (Inl e, db') \<Longrightarrow> db' = db"
  by (auto simp: in_transaction_def split: prod.splits sum.splits)

subsection \<open>Tables\<close>

record event_row =
  er_event_id :: string
  er_schema :: string
  er_payload_schema :: string
  er_stream_id :: string
  er_sequence :: i64
  er_thread_id :: string
  er_tenant_id :: string
  er_user_id :: string
  er_session_id :: string
  er_created_at_ms :: i64
  er_kind :: string
  er_origin :: string
  er_provenance_json :: string
  er_payload_json :: string

record entry_row =
  nr_entry_id :: string
  nr_parent_entry_id :: "string option"
  nr_turn_id :: "string option"
  nr_thread_id :: string
  nr_tenant_id :: string
  nr_user_id :: string
  nr_session_id :: string
  nr_created_at_ms :: i64
  nr_entry_json :: string

record base_row =
  br_child_thread_id :: string
  br_parent_thread_id :: string
  br_parent_checkpoint_id :: "string option"
  br_parent_leaf_entry_id :: "string option"
  br_parent_stream_id :: string
  br_parent_stream_to_sequence :: "i64 option"
  br_parent_binding_snapshot_id :: "string option"
  br_reason :: string
  br_created_at_ms :: i64

record database =
  db_session_entries :: "entry_row list"
  db_active_leaves :: "(string, string) hmap"
  db_thread_bases :: "(string, base_row) hmap"
  db_event_records :: "event_row list"
  db_journal_lease_epochs :: "(string, i64) hmap"

definition sqlite_new :: database where
  "sqlite_new = \<lparr>db_session_entries = [], db_active_leaves = [], db_thread_bases = [],
     db_event_records = [], db_journal_lease_epochs = []\<rparr>"

record sqlite_codec =
  sq_show_uuid :: "uuid \<Rightarrow> string"
  sq_parse_uuid :: "string \<Rightarrow> uuid option"
  sq_payload_text :: "json \<Rightarrow> string"
  sq_parse_payload :: "string \<Rightarrow> string + json"
  sq_provenance_text :: "event_provenance \<Rightarrow> string"
  sq_parse_provenance :: "string \<Rightarrow> string + event_provenance"
  sq_entry_text :: "session_entry \<Rightarrow> string"
  sq_parse_entry :: "string \<Rightarrow> string + session_entry"

definition codec_error :: "string + 'a \<Rightarrow> 'a history_result" where
  "codec_error r = (case r of Inl m \<Rightarrow> Inl (Codec (CodecText m)) | Inr a \<Rightarrow> Inr a)"

definition parse_uuid :: "sqlite_codec \<Rightarrow> string \<Rightarrow> uuid history_result" where
  "parse_uuid codec value =
     (case sq_parse_uuid codec value of
        None \<Rightarrow> Inl (Codec (CodecText value)) | Some u \<Rightarrow> Inr u)"

definition parse_thread_id :: "sqlite_codec \<Rightarrow> string \<Rightarrow> thread_id history_result" where
  "parse_thread_id codec value =
     (case thread_id_parse_str (sq_parse_uuid codec) value of
        None \<Rightarrow> Inl (Codec (CodecText value)) | Some t \<Rightarrow> Inr t)"

definition decode_entry :: "sqlite_codec \<Rightarrow> string \<Rightarrow> session_entry history_result" where
  "decode_entry codec json = codec_error (sq_parse_entry codec json)"

definition transpose_result :: "('e + 'a) option \<Rightarrow> 'e + 'a option" where
  "transpose_result r = (case r of None \<Rightarrow> Inr None | Some (Inl e) \<Rightarrow> Inl e | Some (Inr a) \<Rightarrow> Inr (Some a))"

definition constraint_failed :: history_error where
  "constraint_failed = Storage ''constraint failed''"

subsection \<open>Lease epochs\<close>

definition raise_sqlite_lease_epoch :: "event_stream_id \<Rightarrow> u64 \<Rightarrow> (database, unit) transaction" where
  "raise_sqlite_lease_epoch stream_id presented_epoch = (\<lambda>db.
     if uint presented_epoch > 2 ^ 63 - 1
     then (Inl (Storage (''journal lease epoch for '' @ stream_id_str stream_id @
             '' exceeds SQLite INTEGER range'')), db)
     else (Inr (), db\<lparr>db_journal_lease_epochs :=
            hm_insert (stream_id_str stream_id) (uint presented_epoch) (db_journal_lease_epochs db)\<rparr>))"

definition sqlite_enforce_lease_epoch :: "event_stream_id \<Rightarrow> u64 \<Rightarrow> (database, unit) transaction" where
  "sqlite_enforce_lease_epoch stream_id presented_epoch = (\<lambda>db.
     case hm_get (db_journal_lease_epochs db) (stream_id_str stream_id) of
       Some minimum_epoch \<Rightarrow>
         if minimum_epoch < 0
         then (Inl (Storage (''journal lease epoch for '' @ stream_id_str stream_id @ '' is invalid'')), db)
         else if presented_epoch < word_of_int minimum_epoch
         then (Inl (StaleLeaseEpoch stream_id presented_epoch (word_of_int minimum_epoch)), db)
         else if presented_epoch = word_of_int minimum_epoch then (Inr (), db)
         else raise_sqlite_lease_epoch stream_id presented_epoch db
     | None \<Rightarrow>
         if presented_epoch = 0 then (Inr (), db)
         else raise_sqlite_lease_epoch stream_id presented_epoch db)"

subsection \<open>Events\<close>

text \<open>\<open>COALESCE(MAX(sequence), 0) + 1\<close>\<close>

definition sqlite_next_event_sequence :: "event_stream_id \<Rightarrow> database \<Rightarrow> i64" where
  "sqlite_next_event_sequence stream_id db =
     (let sequences = map er_sequence
            (filter (\<lambda>row. er_stream_id row = stream_id_str stream_id) (db_event_records db)) in
      (if sequences = [] then 0 else Max (set sequences)) + 1)"

definition event_row_of :: "sqlite_codec \<Rightarrow> event_record \<Rightarrow> event_row" where
  "event_row_of codec event =
     \<lparr>er_event_id = show_event_id (sq_show_uuid codec) (ev_id event),
      er_schema = stream_record_schema_id,
      er_payload_schema = payload_schema_id (ev_kind event),
      er_stream_id = stream_id_str (ev_stream_id event),
      er_sequence = sequence_get (ev_sequence event),
      er_thread_id = show_thread_id (sq_show_uuid codec) (tc_thread_id (ev_coordinates event)),
      er_tenant_id = tc_tenant_id (ev_coordinates event),
      er_user_id = tc_user_id (ev_coordinates event),
      er_session_id = tc_session_id (ev_coordinates event),
      er_created_at_ms = ev_created_at_ms event,
      er_kind = event_kind_str (ev_kind event),
      er_origin = event_origin_str (ev_origin event),
      er_provenance_json = sq_provenance_text codec (ev_provenance event),
      er_payload_json = sq_payload_text codec (ev_payload event)\<rparr>"

text \<open>The \<open>INSERT\<close> with its constraints \<open>PRIMARY KEY(event_id)\<close> and \<open>UNIQUE(stream_id, sequence)\<close>\<close>

definition insert_event_row :: "event_row \<Rightarrow> (database, unit) transaction" where
  "insert_event_row row = (\<lambda>db.
     if \<exists>other \<in> set (db_event_records db). er_event_id other = er_event_id row \<or>
          er_stream_id other = er_stream_id row \<and> er_sequence other = er_sequence row
     then (Inl constraint_failed, db)
     else (Inr (), db\<lparr>db_event_records := db_event_records db @ [row]\<rparr>))"

definition sqlite_insert_event ::
  "sqlite_codec \<Rightarrow> event_stream_id \<Rightarrow> new_event_record \<Rightarrow> (database, event_record) transaction" where
  "sqlite_insert_event codec stream_id record = (\<lambda>db.
     or_return (validate_new_event record) db (\<lambda>_.
     if \<exists>row \<in> set (db_event_records db).
          er_event_id row = show_event_id (sq_show_uuid codec) (ne_id record)
     then (Inl (DuplicateEventId (ne_id record)), db)
     else
       let event = event_from_new stream_id (EventSequence (sqlite_next_event_sequence stream_id db))
             record in
       or_return (validate_stream_record_v1 (sq_show_uuid codec) event) db (\<lambda>_.
       tx_then (insert_event_row (event_row_of codec event)) (\<lambda>_ db'. (Inr event, db')) db)))"

definition append_events_fenced_in_transaction ::
  "sqlite_codec \<Rightarrow> u64 \<Rightarrow> event_stream_id \<Rightarrow> event_sequence \<Rightarrow> new_event_record list \<Rightarrow>
   (database, event_record list) transaction" where
  "append_events_fenced_in_transaction codec lease_epoch stream_id expected_next_sequence records =
     tx_then (sqlite_enforce_lease_epoch stream_id lease_epoch) (\<lambda>_ db.
       let actual_next_sequence = sqlite_next_event_sequence stream_id db in
       if actual_next_sequence \<noteq> sequence_get expected_next_sequence
       then (Inl (AppendFenceConflict stream_id (sequence_get expected_next_sequence)
               actual_next_sequence), db)
       else tx_each (sqlite_insert_event codec stream_id) records db)"

definition sqlite_append_events ::
  "sqlite_codec \<Rightarrow> u64 \<Rightarrow> event_stream_id \<Rightarrow> new_event_record list \<Rightarrow>
   (database, event_record list) transaction" where
  "sqlite_append_events codec lease_epoch stream_id records =
     in_transaction (tx_then (sqlite_enforce_lease_epoch stream_id lease_epoch) (\<lambda>_.
       tx_each (sqlite_insert_event codec stream_id) records))"

definition sqlite_append_events_fenced ::
  "sqlite_codec \<Rightarrow> u64 \<Rightarrow> event_stream_id \<Rightarrow> event_sequence \<Rightarrow> new_event_record list \<Rightarrow>
   (database, event_record list) transaction" where
  "sqlite_append_events_fenced codec lease_epoch stream_id expected_next_sequence records =
     in_transaction (append_events_fenced_in_transaction codec lease_epoch stream_id
       expected_next_sequence records)"

definition event_origin_parse :: "string \<Rightarrow> event_origin option" where
  "event_origin_parse s = find (\<lambda>origin. event_origin_str origin = s) [Witnessed, Discharged]"

definition sqlite_event_from_row :: "sqlite_codec \<Rightarrow> event_row \<Rightarrow> event_record history_result" where
  "sqlite_event_from_row codec row =
     (if er_schema row \<noteq> stream_record_schema_id
      then Inl (Codec (CodecText (''event record '' @ er_event_id row @ '' has unsupported stream schema '' @
             er_schema row)))
      else
        and_then (event_kind_try_from (er_kind row)) (\<lambda>kind.
        if er_payload_schema row \<noteq> payload_schema_id kind
        then Inl (Codec (CodecText (''event record '' @ er_event_id row @ '' kind '' @ event_kind_str kind @
               '' has payload_schema '' @ er_payload_schema row @ '', expected '' @ payload_schema_id kind)))
        else
        and_then (case event_origin_parse (er_origin row) of
            None \<Rightarrow> Inl (Codec (CodecText (''unknown event origin: '' @ er_origin row)))
          | Some origin \<Rightarrow> Inr origin) (\<lambda>origin.
        and_then (parse_uuid codec (er_event_id row)) (\<lambda>event_id.
        and_then (parse_thread_id codec (er_thread_id row)) (\<lambda>thread_id.
        and_then (codec_error (sq_parse_provenance codec (er_provenance_json row))) (\<lambda>provenance.
        and_then (codec_error (sq_parse_payload codec (er_payload_json row))) (\<lambda>payload.
        let event = \<lparr>ev_id = EventRecordId event_id, ev_stream_id = EventStreamId (er_stream_id row),
              ev_sequence = EventSequence (er_sequence row),
              ev_coordinates = \<lparr>tc_tenant_id = er_tenant_id row, tc_user_id = er_user_id row,
                tc_session_id = er_session_id row, tc_thread_id = thread_id\<rparr>,
              ev_created_at_ms = er_created_at_ms row, ev_kind = kind, ev_origin = origin,
              ev_provenance = provenance, ev_payload = payload\<rparr> in
        and_then (validate_stream_record_v1 (sq_show_uuid codec) event) (\<lambda>_. Inr event))))))))"

definition sqlite_read_events ::
  "sqlite_codec \<Rightarrow> event_stream_id \<Rightarrow> event_sequence option \<Rightarrow> database \<Rightarrow>
   event_record list history_result" where
  "sqlite_read_events codec stream_id from_sequence db =
     collect_results (sqlite_event_from_row codec)
       (sort_key er_sequence (filter (\<lambda>row. er_stream_id row = stream_id_str stream_id \<and>
          (case from_sequence of Some sequence \<Rightarrow> sequence_get sequence \<le> er_sequence row | None \<Rightarrow> True))
          (db_event_records db)))"

definition list_thread_events ::
  "sqlite_codec \<Rightarrow> thread_id \<Rightarrow> database \<Rightarrow> event_record list history_result" where
  "list_thread_events codec thread_id db =
     collect_results (sqlite_event_from_row codec)
       (filter (\<lambda>row. er_thread_id row = show_thread_id (sq_show_uuid codec) thread_id)
          (db_event_records db))"

definition list_event_records ::
  "sqlite_codec \<Rightarrow> thread_id option \<Rightarrow> event_kind option \<Rightarrow> event_sequence option \<Rightarrow>
   event_sequence option \<Rightarrow> database \<Rightarrow> event_record list history_result" where
  "list_event_records codec thread_id kind from_sequence to_sequence db =
     (let thread_text = (case thread_id of Some t \<Rightarrow> show_thread_id (sq_show_uuid codec) t | None \<Rightarrow> []);
          kind_text = (case kind of Some k \<Rightarrow> event_kind_str k | None \<Rightarrow> []);
          low = (case from_sequence of Some q \<Rightarrow> sequence_get q | None \<Rightarrow> - (2 ^ 63));
          high = (case to_sequence of Some q \<Rightarrow> sequence_get q | None \<Rightarrow> 2 ^ 63 - 1) in
      collect_results (sqlite_event_from_row codec)
        (filter (\<lambda>row. (thread_text = [] \<or> er_thread_id row = thread_text) \<and>
            (kind_text = [] \<or> er_kind row = kind_text) \<and>
            low \<le> er_sequence row \<and> er_sequence row \<le> high)
          (db_event_records db)))"

end
