(* ===== verification/Sqlite_Sessions.thy ===== *)
theory Sqlite_Sessions
  imports Sqlite_Store
begin

section \<open>Sessions in the SQLite store\<close>

text \<open>
  The session half of \<^verbatim>\<open>src/crates/verlet-history-sqlite/src/lib.rs\<close>: entries, active leaves and
  bases.  Stamps are drawn as in
  \<open>History_Store\<close>: first the entry's, then its event's.
\<close>

subsection \<open>Entries\<close>

definition sqlite_load_entry ::
  "sqlite_codec \<Rightarrow> string \<Rightarrow> session_entry_id \<Rightarrow> database \<Rightarrow> session_entry option history_result" where
  "sqlite_load_entry codec thread_id entry_id db =
     transpose_result (map_option (\<lambda>row. decode_entry codec (nr_entry_json row))
       (find (\<lambda>row. nr_thread_id row = thread_id \<and>
            nr_entry_id row = show_entry_id (sq_show_uuid codec) entry_id) (db_session_entries db)))"

text \<open>\<open>active_leaves a JOIN session_entries e ON e.thread_id = a.thread_id AND e.entry_id = a.entry_id\<close>\<close>

definition sqlite_active_leaf_entry ::
  "sqlite_codec \<Rightarrow> string \<Rightarrow> database \<Rightarrow> session_entry option history_result" where
  "sqlite_active_leaf_entry codec thread_id db =
     transpose_result (map_option (\<lambda>row. decode_entry codec (nr_entry_json row))
       (Option.bind (hm_get (db_active_leaves db) thread_id) (\<lambda>leaf.
          find (\<lambda>row. nr_thread_id row = thread_id \<and> nr_entry_id row = leaf) (db_session_entries db))))"

text \<open>The leaf's entry, checked against the coordinates, as an entry id\<close>

definition sqlite_checked_leaf ::
  "sqlite_codec \<Rightarrow> thread_coordinates \<Rightarrow> database \<Rightarrow> session_entry_id option history_result" where
  "sqlite_checked_leaf codec coordinates db =
     and_then (sqlite_active_leaf_entry codec
         (show_thread_id (sq_show_uuid codec) (tc_thread_id coordinates)) db) (\<lambda>leaf.
       transpose_result (map_option (\<lambda>entry.
         and_then (validate_entry_coordinates coordinates entry) (\<lambda>_. Inr (en_entry_id entry))) leaf))"

definition entry_row_of :: "sqlite_codec \<Rightarrow> session_entry \<Rightarrow> entry_row" where
  "entry_row_of codec entry =
     \<lparr>nr_entry_id = show_entry_id (sq_show_uuid codec) (en_entry_id entry),
      nr_parent_entry_id = map_option (show_entry_id (sq_show_uuid codec)) (en_parent_entry_id entry),
      nr_turn_id = en_turn_id entry,
      nr_thread_id = show_thread_id (sq_show_uuid codec) (tc_thread_id (en_coordinates entry)),
      nr_tenant_id = tc_tenant_id (en_coordinates entry),
      nr_user_id = tc_user_id (en_coordinates entry),
      nr_session_id = tc_session_id (en_coordinates entry),
      nr_created_at_ms = en_created_at_ms entry,
      nr_entry_json = sq_entry_text codec entry\<rparr>"

text \<open>
  The \<open>INSERT\<close> with \<open>PRIMARY KEY(entry_id)\<close>, the unique index on \<open>(thread_id, turn_id)\<close> for rows with a
  turn, and the reference of \<open>parent_entry_id\<close>.
\<close>

definition insert_entry_row :: "entry_row \<Rightarrow> (database, unit) transaction" where
  "insert_entry_row row = (\<lambda>db.
     if (\<exists>other \<in> set (db_session_entries db). nr_entry_id other = nr_entry_id row \<or>
           nr_turn_id row \<noteq> None \<and> nr_thread_id other = nr_thread_id row \<and> nr_turn_id other = nr_turn_id row) \<or>
        (case nr_parent_entry_id row of None \<Rightarrow> False
         | Some parent \<Rightarrow> parent \<noteq> nr_entry_id row \<and> parent \<notin> nr_entry_id ` set (db_session_entries db))
     then (Inl constraint_failed, db)
     else (Inr (), db\<lparr>db_session_entries := db_session_entries db @ [row]\<rparr>))"

definition sqlite_insert_entry ::
  "sqlite_codec \<Rightarrow> stamp \<Rightarrow> session_entry \<Rightarrow> event_provenance option \<Rightarrow> (database, unit) transaction" where
  "sqlite_insert_entry codec event_stamp entry provenance =
     tx_then (insert_entry_row (entry_row_of codec entry)) (\<lambda>_.
     tx_then (sqlite_insert_event codec (stream_for_thread (sq_show_uuid codec) (en_coordinates entry))
       (session_entry_event_with_optional_provenance (sq_show_uuid codec) event_stamp entry provenance)) (\<lambda>_ db.
     (Inr (), db)))"

text \<open>\<open>INSERT INTO active_leaves \<dots> ON CONFLICT(thread_id) DO UPDATE\<close>, with the reference of \<open>entry_id\<close>\<close>

definition set_leaf_row :: "string \<Rightarrow> string \<Rightarrow> (database, unit) transaction" where
  "set_leaf_row thread_id entry_id = (\<lambda>db.
     if entry_id \<notin> nr_entry_id ` set (db_session_entries db) then (Inl constraint_failed, db)
     else (Inr (), db\<lparr>db_active_leaves := hm_insert thread_id entry_id (db_active_leaves db)\<rparr>))"

definition delete_leaf_row :: "string \<Rightarrow> (database, unit) transaction" where
  "delete_leaf_row thread_id = (\<lambda>db.
     (Inr (), db\<lparr>db_active_leaves := hm_remove thread_id (db_active_leaves db)\<rparr>))"

definition delete_base_row :: "string \<Rightarrow> (database, unit) transaction" where
  "delete_base_row thread_id = (\<lambda>db.
     (Inr (), db\<lparr>db_thread_bases := hm_remove thread_id (db_thread_bases db)\<rparr>))"

subsection \<open>Paths, bases and contexts\<close>

definition sqlite_branch_entry ::
  "sqlite_codec \<Rightarrow> thread_coordinates \<Rightarrow> database \<Rightarrow> session_entry_id \<Rightarrow> session_entry history_result" where
  "sqlite_branch_entry codec coordinates db entry_id =
     and_then (sqlite_load_entry codec (show_thread_id (sq_show_uuid codec) (tc_thread_id coordinates))
         entry_id db) (\<lambda>found.
       case found of
         None \<Rightarrow> Inl (EntryNotFound entry_id)
       | Some entry \<Rightarrow> and_then (validate_entry_coordinates coordinates entry) (\<lambda>_. Inr entry))"

definition sqlite_branch_path ::
  "sqlite_codec \<Rightarrow> thread_coordinates \<Rightarrow> session_entry_id \<Rightarrow> database \<Rightarrow>
   session_entry list history_result option" where
  "sqlite_branch_path codec coordinates leaf_entry_id db =
     branch_path_loop (sqlite_branch_entry codec coordinates db) [] (Some leaf_entry_id)"

fun fork_reason_str :: "thread_fork_reason \<Rightarrow> string" where
  "fork_reason_str ManifestUpdate = ''manifest_update''"
| "fork_reason_str ToolAdded = ''tool_added''"
| "fork_reason_str ModelChanged = ''model_changed''"
| "fork_reason_str Manual = ''manual''"

definition decode_thread_fork_reason :: "string \<Rightarrow> thread_fork_reason history_result" where
  "decode_thread_fork_reason value =
     (case find (\<lambda>reason. fork_reason_str reason = value) [ManifestUpdate, ToolAdded, ModelChanged, Manual] of
        None \<Rightarrow> Inl (Codec (CodecText value)) | Some reason \<Rightarrow> Inr reason)"

definition base_row_of :: "sqlite_codec \<Rightarrow> thread_base_ref \<Rightarrow> base_row" where
  "base_row_of codec base =
     \<lparr>br_child_thread_id = show_thread_id (sq_show_uuid codec) (tb_child_thread_id base),
      br_parent_thread_id = show_thread_id (sq_show_uuid codec) (tb_parent_thread_id base),
      br_parent_checkpoint_id = map_option (show_checkpoint_id (sq_show_uuid codec)) (tb_parent_checkpoint_id base),
      br_parent_leaf_entry_id = map_option (show_entry_id (sq_show_uuid codec)) (tb_parent_leaf_entry_id base),
      br_parent_stream_id = stream_id_str (tb_parent_stream_id base),
      br_parent_stream_to_sequence = map_option sequence_get (tb_parent_stream_to_sequence base),
      br_parent_binding_snapshot_id = tb_parent_binding_snapshot_id base,
      br_reason = fork_reason_str (tb_reason base),
      br_created_at_ms = tb_created_at_ms base\<rparr>"

definition sqlite_insert_thread_base :: "sqlite_codec \<Rightarrow> thread_base_ref \<Rightarrow> (database, unit) transaction" where
  "sqlite_insert_thread_base codec base = (\<lambda>db.
     let row = base_row_of codec base in
     if (case br_parent_leaf_entry_id row of None \<Rightarrow> False
         | Some leaf \<Rightarrow> leaf \<notin> nr_entry_id ` set (db_session_entries db))
     then (Inl constraint_failed, db)
     else (Inr (), db\<lparr>db_thread_bases := hm_insert (br_child_thread_id row) row (db_thread_bases db)\<rparr>))"

definition sqlite_thread_base_from_row :: "sqlite_codec \<Rightarrow> base_row \<Rightarrow> thread_base_ref history_result" where
  "sqlite_thread_base_from_row codec row =
     and_then (parse_thread_id codec (br_child_thread_id row)) (\<lambda>child.
     and_then (parse_thread_id codec (br_parent_thread_id row)) (\<lambda>parent.
     and_then (transpose_result (map_option (parse_uuid codec) (br_parent_checkpoint_id row))) (\<lambda>checkpoint.
     and_then (transpose_result (map_option (parse_uuid codec) (br_parent_leaf_entry_id row))) (\<lambda>leaf.
     and_then (decode_thread_fork_reason (br_reason row)) (\<lambda>reason.
     Inr \<lparr>tb_child_thread_id = child, tb_parent_thread_id = parent,
       tb_parent_checkpoint_id = map_option ThreadCheckpointId checkpoint,
       tb_parent_leaf_entry_id = map_option SessionEntryId leaf,
       tb_parent_stream_id = EventStreamId (br_parent_stream_id row),
       tb_parent_stream_to_sequence = map_option EventSequence (br_parent_stream_to_sequence row),
       tb_parent_binding_snapshot_id = br_parent_binding_snapshot_id row,
       tb_reason = reason, tb_created_at_ms = br_created_at_ms row\<rparr>)))))"

definition sqlite_load_thread_base ::
  "sqlite_codec \<Rightarrow> thread_id \<Rightarrow> database \<Rightarrow> thread_base_ref option history_result" where
  "sqlite_load_thread_base codec child_thread_id db =
     transpose_result (map_option (sqlite_thread_base_from_row codec)
       (hm_get (db_thread_bases db) (show_thread_id (sq_show_uuid codec) child_thread_id)))"

text \<open>
  The walk along bases stops at a thread it has seen before, and there are finitely many thread ids.
\<close>

lemma finite_thread_ids: "finite (UNIV :: thread_id set)"
proof -
  have "finite (range ThreadId)" by simp
  moreover have "t \<in> range ThreadId" for t by (cases t) simp
  then have "range ThreadId = UNIV" by blast
  ultimately show ?thesis by simp
qed

lemma unseen_decreases: "(t :: thread_id) \<notin> visited \<Longrightarrow> card (- insert t visited) < card (- visited)"
  by (rule psubset_card_mono) (auto intro: rev_finite_subset [OF finite_thread_ids])

function sqlite_base_cycle_loop ::
  "sqlite_codec \<Rightarrow> database \<Rightarrow> thread_id \<Rightarrow> thread_id set \<Rightarrow> thread_id option \<Rightarrow> unit history_result" where
  "sqlite_base_cycle_loop codec db child visited cursor =
     (case cursor of
        None \<Rightarrow> Inr ()
      | Some thread_id \<Rightarrow>
          if thread_id = child \<or> thread_id \<in> visited then Inl (ThreadBaseCycle child thread_id)
          else and_then (sqlite_load_thread_base codec thread_id db) (\<lambda>base.
            sqlite_base_cycle_loop codec db child (insert thread_id visited)
              (map_option tb_parent_thread_id base)))"
  by pat_completeness auto
termination
  by (relation "measure (\<lambda>(_, _, _, visited, _). card (- visited))") (simp_all add: unseen_decreases)

declare sqlite_base_cycle_loop.simps [simp del]

definition validate_sqlite_base_cycle ::
  "sqlite_codec \<Rightarrow> thread_id \<Rightarrow> thread_id \<Rightarrow> database \<Rightarrow> unit history_result" where
  "validate_sqlite_base_cycle codec child_thread_id parent_thread_id db =
     sqlite_base_cycle_loop codec db child_thread_id {} (Some parent_thread_id)"

definition sqlite_add_local_path ::
  "sqlite_codec \<Rightarrow> database \<Rightarrow> thread_coordinates \<Rightarrow> session_entry_id option \<Rightarrow> bool \<Rightarrow>
   session_entry list \<times> session_context_source_cut list \<Rightarrow> session_context history_result option" where
  "sqlite_add_local_path codec db coordinates local_leaf_override inherited = (\<lambda>(entries, source_cuts).
     and_then_opt (Some (case local_leaf_override of
         Some leaf \<Rightarrow> Inr (Some leaf)
       | None \<Rightarrow> and_then (sqlite_active_leaf_entry codec
             (show_thread_id (sq_show_uuid codec) (tc_thread_id coordinates)) db)
             (\<lambda>leaf. Inr (map_option en_entry_id leaf)))) (\<lambda>local_leaf.
     case local_leaf of
       None \<Rightarrow> Some (Inr (finish_context (entries, source_cuts)))
     | Some leaf \<Rightarrow>
         and_then_opt (sqlite_branch_path codec coordinates leaf db) (\<lambda>local_path.
           Some (Inr (finish_context
             (entries @ local_path,
              source_cuts @
              (if local_path \<noteq> [] then
                 [\<lparr>cc_coordinates = coordinates,
                   cc_stream_id = stream_for_thread (sq_show_uuid codec) coordinates,
                   cc_inherited = inherited,
                   cc_entry_ids = map en_entry_id local_path\<rparr>]
               else [])))))))"

function sqlite_build_context ::
  "sqlite_codec \<Rightarrow> database \<Rightarrow> thread_coordinates \<Rightarrow> session_entry_id option \<Rightarrow> bool \<Rightarrow> thread_id set \<Rightarrow>
   session_context history_result option" where
  "sqlite_build_context codec db coordinates local_leaf_override inherited visiting =
     (let thread_id = tc_thread_id coordinates in
      if thread_id \<in> visiting then Some (Inl (ThreadBaseCycle thread_id thread_id))
      else and_then_opt
        (and_then_opt (Some (sqlite_load_thread_base codec thread_id db)) (\<lambda>found.
           case found of
             None \<Rightarrow> Some (Inr ([], []))
           | Some base \<Rightarrow>
               if tb_child_thread_id base \<noteq> thread_id
               then Some (Inl (base_child_mismatch (sq_show_uuid codec) base thread_id))
               else and_then_opt
                 (sqlite_build_context codec db
                    (coordinates_with_thread_id coordinates (tb_parent_thread_id base))
                    (tb_parent_leaf_entry_id base) True (insert thread_id visiting))
                 (\<lambda>parent_context.
                    Some (Inr (cx_entries parent_context, cx_source_cuts parent_context)))))
        (sqlite_add_local_path codec db coordinates local_leaf_override inherited))"
  by pat_completeness auto
termination
  by (relation "measure (\<lambda>(_, _, _, _, _, visiting). card (- visiting))") (simp_all add: unseen_decreases)

declare sqlite_build_context.simps [simp del]

subsection \<open>Operations\<close>

definition sqlite_active_leaf ::
  "sqlite_codec \<Rightarrow> thread_coordinates \<Rightarrow> database \<Rightarrow> session_entry_id option history_result" where
  "sqlite_active_leaf codec coordinates db = sqlite_checked_leaf codec coordinates db"

definition sqlite_context ::
  "sqlite_codec \<Rightarrow> thread_coordinates \<Rightarrow> database \<Rightarrow> session_context history_result option" where
  "sqlite_context codec coordinates db = sqlite_build_context codec db coordinates None False {}"

definition sqlite_resolve_parent ::
  "sqlite_codec \<Rightarrow> thread_coordinates \<Rightarrow> session_entry_id option \<Rightarrow> database \<Rightarrow>
   session_entry_id option history_result" where
  "sqlite_resolve_parent codec coordinates parent_entry_id db =
     (case parent_entry_id of
        Some parent \<Rightarrow>
          and_then (sqlite_branch_entry codec coordinates db parent) (\<lambda>_. Inr (Some parent))
      | None \<Rightarrow> sqlite_checked_leaf codec coordinates db)"

text \<open>What \<open>append_inner\<close> and \<open>append_turn_input\<close> share: fence, store the entry with its event, move the leaf\<close>

definition sqlite_commit_entry ::
  "sqlite_codec \<Rightarrow> u64 \<Rightarrow> stamp \<Rightarrow> thread_coordinates \<Rightarrow> session_entry \<Rightarrow> event_provenance option \<Rightarrow>
   (database, session_entry) transaction" where
  "sqlite_commit_entry codec lease_epoch event_stamp coordinates entry provenance =
     tx_then (sqlite_enforce_lease_epoch (stream_for_thread (sq_show_uuid codec) coordinates) lease_epoch) (\<lambda>_.
     tx_then (sqlite_insert_entry codec event_stamp entry provenance) (\<lambda>_.
     tx_then (set_leaf_row (show_thread_id (sq_show_uuid codec) (tc_thread_id coordinates))
         (show_entry_id (sq_show_uuid codec) (en_entry_id entry))) (\<lambda>_ db.
     (Inr entry, db))))"

definition sqlite_append_inner ::
  "sqlite_codec \<Rightarrow> u64 \<Rightarrow> stamp \<Rightarrow> stamp \<Rightarrow> thread_coordinates \<Rightarrow> session_entry_id option \<Rightarrow>
   session_entry_kind \<Rightarrow> event_provenance option \<Rightarrow> (database, session_entry) transaction" where
  "sqlite_append_inner codec lease_epoch entry_stamp event_stamp coordinates parent_entry_id kind provenance =
     in_transaction (\<lambda>db.
       or_return (sqlite_resolve_parent codec coordinates parent_entry_id db) db (\<lambda>parent.
       sqlite_commit_entry codec lease_epoch event_stamp coordinates
         (entry_new entry_stamp coordinates parent kind) provenance db))"

definition sqlite_append_turn_input ::
  "sqlite_codec \<Rightarrow> u64 \<Rightarrow> stamp \<Rightarrow> stamp \<Rightarrow> thread_coordinates \<Rightarrow> string \<Rightarrow> session_entry_kind \<Rightarrow>
   (database, session_entry) transaction" where
  "sqlite_append_turn_input codec lease_epoch entry_stamp event_stamp coordinates turn_id kind =
     in_transaction (\<lambda>db.
       or_return (transpose_result (map_option (\<lambda>row. decode_entry codec (nr_entry_json row))
           (find (\<lambda>row. nr_thread_id row = show_thread_id (sq_show_uuid codec) (tc_thread_id coordinates) \<and>
                nr_turn_id row = Some turn_id) (db_session_entries db)))) db (\<lambda>found.
       case found of
         Some existing \<Rightarrow>
           or_return (validate_entry_coordinates coordinates existing) db (\<lambda>_.
           if \<not> turn_input_kinds_match (en_kind existing) kind
           then (Inl (Storage (''turn '' @ turn_id @
                   '' input does not match its persisted session entry'')), db)
           else (Inr existing, db))
       | None \<Rightarrow>
           or_return (sqlite_checked_leaf codec coordinates db) db (\<lambda>parent.
           sqlite_commit_entry codec lease_epoch event_stamp coordinates
             (entry_for_turn entry_stamp coordinates parent turn_id kind) None db)))"

definition sqlite_record_selection ::
  "sqlite_codec \<Rightarrow> u64 \<Rightarrow> stamp \<Rightarrow> thread_coordinates \<Rightarrow> session_entry_id option \<Rightarrow>
   session_entry_id option \<Rightarrow> (database, unit) transaction" where
  "sqlite_record_selection codec lease_epoch event_stamp coordinates prior_entry_id leaf_entry_id =
     (let stream_id = stream_for_thread (sq_show_uuid codec) coordinates;
          thread_text = show_thread_id (sq_show_uuid codec) (tc_thread_id coordinates) in
      tx_then (sqlite_enforce_lease_epoch stream_id lease_epoch) (\<lambda>_.
      tx_then (sqlite_insert_event codec stream_id
        (event_witnessed event_stamp coordinates ThreadBranchSelected
          (json_of_thread_branch_selected (sq_show_uuid codec)
            \<lparr>bs_thread_id = tc_thread_id coordinates, bs_selected_entry_id = leaf_entry_id,
             bs_prior_entry_id = prior_entry_id\<rparr>))) (\<lambda>_.
      case leaf_entry_id of
        Some leaf \<Rightarrow> set_leaf_row thread_text (show_entry_id (sq_show_uuid codec) leaf)
      | None \<Rightarrow> delete_leaf_row thread_text)))"

text \<open>A transaction that may not return: \<open>None\<close> is a walk along parents that never ends.\<close>

definition sqlite_select_branch ::
  "sqlite_codec \<Rightarrow> u64 \<Rightarrow> stamp \<Rightarrow> thread_coordinates \<Rightarrow> session_entry_id option \<Rightarrow> database \<Rightarrow>
   (unit history_result \<times> database) option" where
  "sqlite_select_branch codec lease_epoch event_stamp coordinates leaf_entry_id db =
     (case sqlite_checked_leaf codec coordinates db of
        Inl e \<Rightarrow> Some (Inl e, db)
      | Inr prior \<Rightarrow>
          (case (case leaf_entry_id of None \<Rightarrow> Some (Inr [])
                 | Some leaf \<Rightarrow> sqlite_branch_path codec coordinates leaf db) of
             None \<Rightarrow> None
           | Some (Inl e) \<Rightarrow> Some (Inl e, db)
           | Some (Inr _) \<Rightarrow>
               Some (in_transaction (sqlite_record_selection codec lease_epoch event_stamp coordinates
                       prior leaf_entry_id) db)))"

primrec sqlite_clone_entries ::
  "sqlite_codec \<Rightarrow> (nat \<Rightarrow> stamp) \<Rightarrow> nat \<Rightarrow> session_entry list \<Rightarrow> (database, unit) transaction" where
  "sqlite_clone_entries codec event_stamps i [] = (\<lambda>db. (Inr (), db))"
| "sqlite_clone_entries codec event_stamps i (entry # entries) =
     tx_then (sqlite_insert_entry codec (event_stamps i) entry None) (\<lambda>_.
       sqlite_clone_entries codec event_stamps (Suc i) entries)"

definition sqlite_commit_clone ::
  "sqlite_codec \<Rightarrow> u64 \<Rightarrow> (nat \<Rightarrow> stamp) \<Rightarrow> thread_coordinates \<Rightarrow> session_entry list \<Rightarrow>
   (database, session_entry_id option) transaction" where
  "sqlite_commit_clone codec lease_epoch event_stamps target cloned =
     tx_then (sqlite_enforce_lease_epoch (stream_for_thread (sq_show_uuid codec) target) lease_epoch) (\<lambda>_.
     tx_then (sqlite_clone_entries codec event_stamps 0 cloned) (\<lambda>_.
     case cloned of
       [] \<Rightarrow> (\<lambda>db. (Inr None, db))
     | _ \<Rightarrow> tx_then (set_leaf_row (show_thread_id (sq_show_uuid codec) (tc_thread_id target))
              (show_entry_id (sq_show_uuid codec) (en_entry_id (last cloned)))) (\<lambda>_ db.
              (Inr (Some (en_entry_id (last cloned))), db))))"

definition sqlite_clone_branch ::
  "sqlite_codec \<Rightarrow> u64 \<Rightarrow> (nat \<Rightarrow> stamp) \<Rightarrow> (nat \<Rightarrow> stamp) \<Rightarrow> thread_coordinates \<Rightarrow>
   session_entry_id option \<Rightarrow> thread_coordinates \<Rightarrow> database \<Rightarrow>
   (session_entry_id option history_result \<times> database) option" where
  "sqlite_clone_branch codec lease_epoch entry_stamps event_stamps source source_leaf target db =
     (let target_text = show_thread_id (sq_show_uuid codec) (tc_thread_id target);
          db1 = snd (delete_base_row target_text db) in
      case source_leaf of
        None \<Rightarrow> Some (Inr None, snd (delete_leaf_row target_text db1))
      | Some leaf \<Rightarrow>
          (case sqlite_branch_path codec source leaf db1 of
             None \<Rightarrow> None
           | Some (Inl e) \<Rightarrow> Some (Inl e, db)
           | Some (Inr path) \<Rightarrow>
               Some (in_transaction (tx_then (delete_base_row target_text) (\<lambda>_.
                 sqlite_commit_clone codec lease_epoch event_stamps target
                   (clone_entries entry_stamps 0 target None path))) db)))"

definition sqlite_fork_by_reference ::
  "sqlite_codec \<Rightarrow> thread_coordinates \<Rightarrow> thread_coordinates \<Rightarrow> thread_base_ref \<Rightarrow> database \<Rightarrow>
   (unit history_result \<times> database) option" where
  "sqlite_fork_by_reference codec source target base db =
     (case and_then (validate_thread_base_ref (sq_show_uuid codec) source target base) (\<lambda>_.
             validate_sqlite_base_cycle codec (tc_thread_id target) (tc_thread_id source) db) of
        Inl e \<Rightarrow> Some (Inl e, db)
      | Inr _ \<Rightarrow>
          (case (case tb_parent_leaf_entry_id base of
                   None \<Rightarrow> Some (Inr ())
                 | Some leaf \<Rightarrow> and_then_opt
                     (sqlite_build_context codec db source (Some leaf) False {}) (\<lambda>_. Some (Inr ()))) of
             None \<Rightarrow> None
           | Some (Inl e) \<Rightarrow> Some (Inl e, db)
           | Some (Inr _) \<Rightarrow>
               Some (in_transaction (tx_then
                 (delete_leaf_row (show_thread_id (sq_show_uuid codec) (tc_thread_id target))) (\<lambda>_.
                 sqlite_insert_thread_base codec base)) db)))"

end
