(* ===== verification/Sqlite_Refinement.thy ===== *)
theory Sqlite_Refinement
  imports Sqlite_Sessions
begin

section \<open>The SQLite store refines the in-memory store\<close>

text \<open>
  A database stands for a state of the in-memory store (\<open>represents\<close>) when its rows, read back in the order
  of their \<open>rowid\<close>, are the events and entries of that state and its keyed tables hold the same leaves,
  bases and minimum epochs.  Every call that succeeds on the database is the same call on the
  represented state, with the same answer; every call that fails leaves the database as it was.
  What is known of the reachable states of the in-memory store therefore holds of every database.
\<close>

subsection \<open>Text that reads back\<close>

definition event_text_ok :: "sqlite_codec \<Rightarrow> new_event_record \<Rightarrow> bool" where
  "event_text_ok codec r \<longleftrightarrow>
     sq_parse_payload codec (sq_payload_text codec (ne_payload r)) = Inr (ne_payload r) \<and>
     sq_parse_provenance codec (sq_provenance_text codec (ne_provenance r)) = Inr (ne_provenance r)"

definition entry_text_ok :: "sqlite_codec \<Rightarrow> session_entry \<Rightarrow> bool" where
  "entry_text_ok codec e \<longleftrightarrow> sq_parse_entry codec (sq_entry_text codec e) = Inr e"

definition uuid_text_ok :: "sqlite_codec \<Rightarrow> bool" where
  "uuid_text_ok codec \<longleftrightarrow> uuid_codec (sq_show_uuid codec) (sq_parse_uuid codec)"

lemma show_ids_inj:
  assumes "uuid_text_ok codec"
  shows "show_event_id (sq_show_uuid codec) a = show_event_id (sq_show_uuid codec) b \<longleftrightarrow> a = b"
    and "show_entry_id (sq_show_uuid codec) x = show_entry_id (sq_show_uuid codec) y \<longleftrightarrow> x = y"
    and "show_thread_id (sq_show_uuid codec) t = show_thread_id (sq_show_uuid codec) u \<longleftrightarrow> t = u"
    and "stream_for_thread (sq_show_uuid codec) c = stream_for_thread (sq_show_uuid codec) d \<longleftrightarrow>
      tc_thread_id c = tc_thread_id d"
  using uuid_codec.show_inj [OF assms [unfolded uuid_text_ok_def]]
  by (cases a; cases b; cases x; cases y; cases t; cases u; cases "tc_thread_id c"; cases "tc_thread_id d";
      simp add: stream_for_thread_def)+

lemma parse_show_ids:
  assumes "uuid_text_ok codec"
  shows "sq_parse_uuid codec (sq_show_uuid codec u) = Some u"
    "parse_uuid codec (show_event_id (sq_show_uuid codec) a) = Inr (case a of EventRecordId u \<Rightarrow> u)"
    "parse_uuid codec (show_entry_id (sq_show_uuid codec) x) = Inr (case x of SessionEntryId u \<Rightarrow> u)"
    "parse_uuid codec (show_checkpoint_id (sq_show_uuid codec) k) = Inr (case k of ThreadCheckpointId u \<Rightarrow> u)"
    "parse_thread_id codec (show_thread_id (sq_show_uuid codec) t) = Inr t"
  using uuid_codec.parse_show [OF assms [unfolded uuid_text_ok_def]]
  by (cases a; cases x; cases k; cases t; simp add: parse_uuid_def parse_thread_id_def thread_id_parse_str_def)+

definition reads_back :: "sqlite_codec \<Rightarrow> event_record \<Rightarrow> bool" where
  "reads_back codec e \<longleftrightarrow> sqlite_event_from_row codec (event_row_of codec e) = Inr e"

lemma event_origin_parse_str: "event_origin_parse (event_origin_str o') = Some o'"
  by (cases o') (simp_all add: event_origin_parse_def)

lemma coordinates_eta:
  "\<lparr>tc_tenant_id = tc_tenant_id c, tc_user_id = tc_user_id c, tc_session_id = tc_session_id c,
    tc_thread_id = tc_thread_id c\<rparr> = (c :: thread_coordinates)"
  by simp

lemma reads_backI:
  assumes "uuid_text_ok codec" "event_text_ok codec r" "storable r"
  shows "reads_back codec (event_from_new i q r)"
proof -
  have "validate_stream_record_v1 sh (event_from_new i q r) = Inr ()" for sh
    using assms(3) by (simp add: validate_stream_record_iff storable_def event_from_new_def)
  moreover have "EventRecordId (case ne_id r of EventRecordId u \<Rightarrow> u) = ne_id r" by (cases "ne_id r") simp
  moreover have "EventStreamId (stream_id_str i) = i" by (cases i) simp
  moreover have "EventSequence (sequence_get q) = q" by (cases q) simp
  ultimately show ?thesis
    using assms(2)
    by (simp add: reads_back_def sqlite_event_from_row_def event_row_of_def parse_show_ids [OF assms(1)]
        event_kind_try_from_def event_origin_parse_str codec_error_def event_text_ok_def Let_def
        event_from_new_def coordinates_eta)
qed

subsection \<open>The journal\<close>

definition stream_of :: "event_stream_id \<Rightarrow> event_record list \<Rightarrow> event_record list" where
  "stream_of i js = filter (\<lambda>e. ev_stream_id e = i) js"

lemma stream_of_simps [simp]:
  "stream_of i [] = []" "stream_of i (js @ ks) = stream_of i js @ stream_of i ks"
  by (simp_all add: stream_of_def)

text \<open>The journal in the order of its rows: each stream numbered from one, no event id twice\<close>

definition rows_ok :: "sqlite_codec \<Rightarrow> event_record list \<Rightarrow> database \<Rightarrow> bool" where
  "rows_ok codec js db \<longleftrightarrow> db_event_records db = map (event_row_of codec) js \<and>
     (\<forall>e \<in> set js. reads_back codec e) \<and> (\<forall>i. contiguous_from i 1 (stream_of i js)) \<and>
     distinct (map ev_id js)"

lemma stream_id_str_inj [simp]: "stream_id_str i = stream_id_str j \<longleftrightarrow> i = j"
  by (cases i; cases j) simp

lemma rows_of_stream:
  "rows_ok codec js db \<Longrightarrow> filter (\<lambda>row. er_stream_id row = stream_id_str i) (db_event_records db) =
     map (event_row_of codec) (stream_of i js)"
  by (simp add: rows_ok_def stream_of_def filter_map comp_def event_row_of_def)

lemma Max_contiguous:
  assumes "contiguous_from i 1 xs"
  shows "(if xs = [] then 0 else Max ((\<lambda>e. sequence_get (ev_sequence e)) ` set xs)) = int (length xs)"
proof (cases "xs = []")
  case False
  have "(\<lambda>e. sequence_get (ev_sequence e)) ` set xs = {1..int (length xs)}"
  proof (intro set_eqI iffI)
    fix n assume "n \<in> {1..int (length xs)}"
    then have "nat (n - 1) < length xs" "n = sequence_get (ev_sequence (xs ! nat (n - 1)))"
      using assms by (auto simp: contiguous_from_def)
    then show "n \<in> (\<lambda>e. sequence_get (ev_sequence e)) ` set xs" by (metis image_eqI nth_mem)
  qed (use assms in \<open>auto simp: contiguous_from_def in_set_conv_nth\<close>)
  moreover have "Max {1..int (length xs)} = int (length xs)"
    by (rule Max_eqI) (use False in \<open>auto simp: Suc_leI\<close>)
  ultimately show ?thesis using False by simp
qed simp

lemma next_sequence:
  assumes "rows_ok codec js db"
  shows "sqlite_next_event_sequence i db = int (length (stream_of i js)) + 1"
proof -
  have "map er_sequence (filter (\<lambda>row. er_stream_id row = stream_id_str i) (db_event_records db)) =
      map (\<lambda>e. sequence_get (ev_sequence e)) (stream_of i js)"
    by (simp add: rows_of_stream [OF assms] event_row_of_def)
  moreover have "contiguous_from i 1 (stream_of i js)" using assms by (simp add: rows_ok_def)
  ultimately show ?thesis
    using Max_contiguous [of i "stream_of i js"] by (simp add: sqlite_next_event_sequence_def split: if_splits)
qed

lemma insert_event_ok:
  assumes "uuid_text_ok codec" "rows_ok codec js db" "sqlite_insert_event codec i r db = (Inr e, db')"
  shows "e = event_from_new i (EventSequence (int (length (stream_of i js)) + 1)) r"
    and "validate_new_event r = Inr ()" and "storable r" and "ne_id r \<notin> ev_id ` set js"
    and "db' = db\<lparr>db_event_records := db_event_records db @ [event_row_of codec e]\<rparr>"
proof -
  from assms(3) have ok: "validate_new_event r = Inr ()"
    "\<not> (\<exists>row \<in> set (db_event_records db). er_event_id row = show_event_id (sq_show_uuid codec) (ne_id r))"
    "validate_stream_record_v1 (sq_show_uuid codec) e = Inr ()"
    "e = event_from_new i (EventSequence (sqlite_next_event_sequence i db)) r"
    and db': "db' = db\<lparr>db_event_records := db_event_records db @ [event_row_of codec e]\<rparr>"
    by (auto simp: sqlite_insert_event_def or_return_ok Let_def tx_then_ok insert_event_row_def split: if_splits)
  from ok(1) show "validate_new_event r = Inr ()" .
  from ok(4) show e: "e = event_from_new i (EventSequence (int (length (stream_of i js)) + 1)) r"
    by (simp add: next_sequence [OF assms(2)])
  from ok(3) show "storable r" by (simp add: validate_stream_record_iff storable_def ok(4) event_from_new_def)
  show "ne_id r \<notin> ev_id ` set js"
    using ok(2) assms(2) by (auto simp: rows_ok_def event_row_of_def show_ids_inj [OF assms(1)])
  from db' show "db' = db\<lparr>db_event_records := db_event_records db @ [event_row_of codec e]\<rparr>" .
qed

lemma rows_ok_snoc:
  assumes "rows_ok codec js db" "reads_back codec e" "ev_id e \<notin> ev_id ` set js"
    and "ev_sequence e = EventSequence (int (length (stream_of (ev_stream_id e) js)) + 1)"
  shows "rows_ok codec (js @ [e]) (db\<lparr>db_event_records := db_event_records db @ [event_row_of codec e]\<rparr>)"
proof -
  have "contiguous_from i 1 (stream_of i (js @ [e]))" for i
    using assms(1,4) by (auto simp: rows_ok_def contiguous_from_def stream_of_def nth_append less_Suc_eq)
  with assms show ?thesis by (simp add: rows_ok_def)
qed

text \<open>
  A batch inserted record by record is numbered as the in-memory store numbers it, and has passed the
  checks that make it admissible there.
\<close>

lemma insert_events_ok:
  assumes "uuid_text_ok codec" "rows_ok codec js db" "\<forall>r \<in> set rs. event_text_ok codec r"
    and "tx_each (sqlite_insert_event codec i) rs db = (Inr es, db')"
  shows "es = numbered i (int (length (stream_of i js))) rs \<and> rows_ok codec (js @ es) db' \<and>
    db' = db\<lparr>db_event_records := map (event_row_of codec) (js @ es)\<rparr> \<and>
    (\<forall>r \<in> set rs. validate_new_event r = Inr () \<and> storable r) \<and> distinct (map ne_id rs) \<and>
    ne_id ` set rs \<inter> ev_id ` set js = {}"
  using assms(2-4)
proof (induction rs arbitrary: js db es)
  case Nil
  then show ?case by (simp add: numbered_def rows_ok_def)
next
  case (Cons r rs)
  from Cons.prems(3) obtain e db1 fs where e: "sqlite_insert_event codec i r db = (Inr e, db1)"
    and fs: "tx_each (sqlite_insert_event codec i) rs db1 = (Inr fs, db')" and es: "es = e # fs"
    by (auto simp: tx_then_ok)
  note ok = insert_event_ok [OF assms(1) Cons.prems(1) e]
  have "rows_ok codec (js @ [e]) db1"
    unfolding ok(5)
    by (rule rows_ok_snoc [OF Cons.prems(1)])
      (use ok Cons.prems(2) reads_backI [OF assms(1), of r i] in \<open>auto simp: event_from_new_def\<close>)
  moreover have "\<forall>r \<in> set rs. event_text_ok codec r" using Cons.prems(2) by simp
  ultimately have ih: "fs = numbered i (int (length (stream_of i (js @ [e])))) rs \<and>
      rows_ok codec ((js @ [e]) @ fs) db' \<and>
      db' = db1\<lparr>db_event_records := map (event_row_of codec) ((js @ [e]) @ fs)\<rparr> \<and>
      (\<forall>r \<in> set rs. validate_new_event r = Inr () \<and> storable r) \<and> distinct (map ne_id rs) \<and>
      ne_id ` set rs \<inter> ev_id ` set (js @ [e]) = {}"
    by (rule Cons.IH [OF _ _ fs])
  have len: "length (stream_of i (js @ [e])) = Suc (length (stream_of i js))"
    by (simp add: stream_of_def ok(1) event_from_new_def)
  have "fs = numbered i (int (length (stream_of i js)) + 1) rs"
    using ih [THEN conjunct1] unfolding len by (simp add: ac_simps)
  then have "es = numbered i (int (length (stream_of i js))) (r # rs)"
    by (intro nth_equalityI) (auto simp: es ok(1) nth_Cons algebra_simps split: nat.splits)
  moreover have "rows_ok codec (js @ es) db'" using ih [THEN conjunct2, THEN conjunct1] by (simp add: es)
  moreover have "db' = db\<lparr>db_event_records := map (event_row_of codec) (js @ es)\<rparr>"
    using ih [THEN conjunct2, THEN conjunct2, THEN conjunct1] by (simp add: es ok(5))
  moreover have "ev_id e = ne_id r" by (simp add: ok(1) event_from_new_def)
  then have "(\<forall>x \<in> set (r # rs). validate_new_event x = Inr () \<and> storable x) \<and> distinct (map ne_id (r # rs)) \<and>
      ne_id ` set (r # rs) \<inter> ev_id ` set js = {}"
    using ih ok(2-4) Cons.prems(2) by auto
  ultimately show ?case by blast
qed

subsection \<open>The represented state\<close>

definition epochs_match :: "database \<Rightarrow> store_inner \<Rightarrow> bool" where
  "epochs_match db s \<longleftrightarrow> (\<forall>i. hm_get (db_journal_lease_epochs db) (stream_id_str i) =
     map_option uint (hm_get (si_lease_epoch_minimums s) i))"

definition journal_matches :: "sqlite_codec \<Rightarrow> event_record list \<Rightarrow> database \<Rightarrow> store_inner \<Rightarrow> bool" where
  "journal_matches codec js db s \<longleftrightarrow> rows_ok codec js db \<and> (\<forall>i. stream_of i js = stream_events s i) \<and>
     epochs_match db s"

definition entries_match :: "sqlite_codec \<Rightarrow> session_entry list \<Rightarrow> database \<Rightarrow> store_inner \<Rightarrow> bool" where
  "entries_match codec es db s \<longleftrightarrow> db_session_entries db = map (entry_row_of codec) es \<and>
     (\<forall>e \<in> set es. entry_text_ok codec e) \<and> distinct (map en_entry_id es) \<and>
     (\<forall>t i. hm_get (entries_of s t) i =
        find (\<lambda>e. tc_thread_id (en_coordinates e) = t \<and> en_entry_id e = i) es)"

definition leaves_match :: "sqlite_codec \<Rightarrow> database \<Rightarrow> store_inner \<Rightarrow> bool" where
  "leaves_match codec db s \<longleftrightarrow> (\<forall>t. hm_get (db_active_leaves db) (show_thread_id (sq_show_uuid codec) t) =
     map_option (show_entry_id (sq_show_uuid codec)) (hm_get (si_active_leaf s) t))"

definition bases_match :: "sqlite_codec \<Rightarrow> database \<Rightarrow> store_inner \<Rightarrow> bool" where
  "bases_match codec db s \<longleftrightarrow> (\<forall>t. hm_get (db_thread_bases db) (show_thread_id (sq_show_uuid codec) t) =
     map_option (base_row_of codec) (hm_get (si_bases s) t))"

definition represents :: "sqlite_codec \<Rightarrow> database \<Rightarrow> store_inner \<Rightarrow> bool" where
  "represents codec db s \<longleftrightarrow> (\<exists>js es. journal_matches codec js db s \<and> entries_match codec es db s) \<and>
     leaves_match codec db s \<and> bases_match codec db s"

lemma represents_new: "represents codec sqlite_new store_new"
  by (simp add: represents_def journal_matches_def rows_ok_def entries_match_def leaves_match_def
      bases_match_def epochs_match_def sqlite_new_def store_new_def exI [of _ "[]"])

subsection \<open>Reading\<close>

lemma find_map: "find P (map f xs) = map_option f (find (\<lambda>x. P (f x)) xs)"
  by (induction xs) simp_all

lemma decode_entry_row:
  "entry_text_ok codec e \<Longrightarrow> decode_entry codec (nr_entry_json (entry_row_of codec e)) = Inr e"
  by (simp add: decode_entry_def entry_row_of_def codec_error_def entry_text_ok_def)

lemma transpose_decoded:
  assumes "\<forall>e \<in> set es. entry_text_ok codec e"
  shows "transpose_result (map_option (\<lambda>row. decode_entry codec (nr_entry_json row))
      (find P (map (entry_row_of codec) es))) = Inr (find (\<lambda>e. P (entry_row_of codec e)) es)"
proof (cases "find (\<lambda>e. P (entry_row_of codec e)) es")
  case (Some e)
  then have "e \<in> set es" by (auto simp: find_Some_iff)
  with assms Some show ?thesis by (simp add: find_map transpose_result_def decode_entry_row)
qed (simp add: find_map transpose_result_def)

lemma load_entry_eq:
  assumes "uuid_text_ok codec" "entries_match codec es db s"
  shows "sqlite_load_entry codec (show_thread_id (sq_show_uuid codec) t) i db = Inr (hm_get (entries_of s t) i)"
  using assms(2) unfolding sqlite_load_entry_def entries_match_def
  by (simp add: transpose_decoded) (simp add: entry_row_of_def show_ids_inj [OF assms(1)])

lemma active_leaf_entry_eq:
  assumes "uuid_text_ok codec" "entries_match codec es db s" "leaves_match codec db s"
  shows "sqlite_active_leaf_entry codec (show_thread_id (sq_show_uuid codec) t) db =
    Inr (Option.bind (hm_get (si_active_leaf s) t) (hm_get (entries_of s t)))"
proof (cases "hm_get (si_active_leaf s) t")
  case None
  with assms(3) show ?thesis by (simp add: sqlite_active_leaf_entry_def leaves_match_def transpose_result_def)
next
  case (Some l)
  with assms show ?thesis unfolding sqlite_active_leaf_entry_def entries_match_def leaves_match_def
    by (simp add: transpose_decoded) (simp add: entry_row_of_def show_ids_inj [OF assms(1)])
qed

lemma branch_entry_eq:
  assumes "uuid_text_ok codec" "entries_match codec es db s"
  shows "sqlite_branch_entry codec c db = branch_entry (entries_of s (tc_thread_id c)) c"
  by (rule ext) (simp add: sqlite_branch_entry_def branch_entry_def load_entry_eq [OF assms])

lemma branch_path_eq:
  assumes "uuid_text_ok codec" "entries_match codec es db s"
  shows "sqlite_branch_path codec c leaf db = stored_branch_path s c leaf"
  unfolding stored_branch_path_eq by (simp add: sqlite_branch_path_def branch_path_def branch_entry_eq [OF assms])

lemma base_row_reads_back:
  assumes "uuid_text_ok codec"
  shows "sqlite_thread_base_from_row codec (base_row_of codec b) = Inr b"
proof -
  have leaf: "transpose_result (map_option (parse_uuid codec)
      (map_option (show_entry_id (sq_show_uuid codec)) l)) = Inr (map_option (\<lambda>x. case x of SessionEntryId u \<Rightarrow> u) l)" for l
    by (cases l) (simp_all add: transpose_result_def parse_show_ids [OF assms])
  have checkpoint: "transpose_result (map_option (parse_uuid codec)
      (map_option (show_checkpoint_id (sq_show_uuid codec)) k)) =
      Inr (map_option (\<lambda>x. case x of ThreadCheckpointId u \<Rightarrow> u) k)" for k
    by (cases k) (simp_all add: transpose_result_def parse_show_ids [OF assms])
  have entry_back: "map_option SessionEntryId (map_option (\<lambda>x. case x of SessionEntryId u \<Rightarrow> u) l) = l" for l
    by (cases l; cases "the l") auto
  have checkpoint_back:
    "map_option ThreadCheckpointId (map_option (\<lambda>x. case x of ThreadCheckpointId u \<Rightarrow> u) k) = k" for k
    by (cases k; cases "the k") auto
  have sequence_back: "map_option EventSequence (map_option sequence_get q) = q" for q
    by (cases q; cases "the q") auto
  have stream_back: "EventStreamId (stream_id_str i) = i" for i by (cases i) simp
  note ids_back = entry_back checkpoint_back sequence_back stream_back
  have "decode_thread_fork_reason (fork_reason_str r) = Inr r" for r
    by (cases r) (simp_all add: decode_thread_fork_reason_def)
  then show ?thesis
    by (simp add: sqlite_thread_base_from_row_def base_row_of_def parse_show_ids [OF assms] leaf checkpoint ids_back)
qed

lemma load_thread_base_eq:
  assumes "uuid_text_ok codec" "bases_match codec db s"
  shows "sqlite_load_thread_base codec t db = Inr (hm_get (si_bases s) t)"
  using assms(2) by (cases "hm_get (si_bases s) t")
    (simp_all add: sqlite_load_thread_base_def bases_match_def transpose_result_def base_row_reads_back [OF assms(1)])

lemma base_cycle_eq:
  assumes "uuid_text_ok codec" "bases_match codec db s"
  shows "sqlite_base_cycle_loop codec db child visited cursor = base_cycle_loop (si_bases s) child visited cursor"
  using assms
proof (induction codec db child visited cursor rule: sqlite_base_cycle_loop.induct)
  case (1 codec db child visited cursor)
  show ?case
  proof (cases cursor)
    case None
    then show ?thesis by (simp add: sqlite_base_cycle_loop.simps base_cycle_loop.simps)
  next
    case (Some t)
    note ih = "1.IH" [OF Some _ load_thread_base_eq [OF "1.prems"] "1.prems"]
    show ?thesis
      unfolding sqlite_base_cycle_loop.simps [of codec db child visited cursor]
        base_cycle_loop.simps [of "si_bases s" child visited cursor]
      using ih by (simp add: Some load_thread_base_eq [OF "1.prems"])
  qed
qed

lemma leaf_entry_stored:
  assumes "session_ok s" "hm_get (si_active_leaf s) t = Some i"
  obtains e where "hm_get (entries_of s t) i = Some e" "en_entry_id e = i"
proof -
  have "leaves_ok s" "entries_ok (entries_of s t)"
    using assms(1) by (simp_all add: session_ok_def forest_entries_ok)
  then have "\<exists>e. hm_get (entries_of s t) i = Some e" "\<And>e. hm_get (entries_of s t) i = Some e \<Longrightarrow> en_entry_id e = i"
    using assms(2) unfolding leaves_ok_def entries_ok_def by blast+
  with that show thesis by blast
qed

lemma add_local_path_eq:
  assumes "uuid_text_ok codec" "entries_match codec es db s" "leaves_match codec db s" "session_ok s"
  shows "sqlite_add_local_path codec db c l inherited = add_local_path (sq_show_uuid codec) s c l inherited"
proof -
  have path: "(case hm_get (si_entries s) (tc_thread_id c) of
        None \<Rightarrow> Some (Inl (EntryNotFound leaf))
      | Some m \<Rightarrow> and_then_opt (branch_path m leaf c) f) = and_then_opt (stored_branch_path s c leaf) f" for leaf f
    by (simp add: stored_branch_path_def split: option.splits)
  have leaf: "and_then_opt (Some (case l of
         Some leaf \<Rightarrow> Inr (Some leaf)
       | None \<Rightarrow> and_then (sqlite_active_leaf_entry codec
             (show_thread_id (sq_show_uuid codec) (tc_thread_id c)) db)
             (\<lambda>leaf. Inr (map_option en_entry_id leaf)))) f = f (local_leaf_of s (tc_thread_id c) l)" for f
  proof (cases l)
    case None
    have stored: "map_option en_entry_id (Option.bind (hm_get (si_active_leaf s) t) (hm_get (entries_of s t))) =
        hm_get (si_active_leaf s) t" for t
    proof (cases "hm_get (si_active_leaf s) t")
      case (Some i)
      with leaf_entry_stored [OF assms(4)] obtain e where "hm_get (entries_of s t) i = Some e" "en_entry_id e = i"
        by blast
      with Some show ?thesis by simp
    qed simp
    show ?thesis unfolding active_leaf_entry_eq [OF assms(1-3)] by (simp add: None local_leaf_of_def stored)
  qed (simp add: local_leaf_of_def)
  show ?thesis
    unfolding sqlite_add_local_path_def add_local_path_def leaf path branch_path_eq [OF assms(1,2)] ..
qed

lemma build_context_eq:
  assumes "uuid_text_ok codec" "entries_match codec es db s" "leaves_match codec db s" "bases_match codec db s"
    "session_ok s"
  shows "sqlite_build_context codec db c l inherited visiting =
    build_in_memory_context (sq_show_uuid codec) s c l inherited visiting"
  using assms
proof (induction codec db c l inherited visiting rule: sqlite_build_context.induct)
  case (1 codec db c l inherited visiting)
  note base = load_thread_base_eq [OF "1.prems"(1,4)]
  note own = add_local_path_eq [OF "1.prems"(1-3,5)]
  show ?case
  proof (cases "tc_thread_id c \<in> visiting")
    case True
    then show ?thesis by (simp add: sqlite_build_context.simps build_in_memory_context.simps)
  next
    case False
    show ?thesis
    proof (cases "hm_get (si_bases s) (tc_thread_id c)")
      case None
      then show ?thesis
        unfolding sqlite_build_context.simps [of codec db c] build_in_memory_context.simps [of _ s c]
        by (simp add: base own Let_def)
    next
      case (Some b)
      note ih = "1.IH" [OF refl False _ _ _ "1.prems"]
      show ?thesis
        unfolding sqlite_build_context.simps [of codec db c] build_in_memory_context.simps [of _ s c]
        using ih Some by (simp add: base own Let_def False)
    qed
  qed
qed

end
