(* ===== verification/Sqlite_Simulation.thy ===== *)
theory Sqlite_Simulation
  imports Sqlite_Refinement
begin

section \<open>Simulation of the writing calls\<close>

text \<open>
  The calls that write: what a successful transaction on a database is on the state it represents.
\<close>

subsection \<open>The fence\<close>

lemma raise_sqlite_ok:
  "raise_sqlite_lease_epoch i ep db = (Inr u, db') \<Longrightarrow> db' = db\<lparr>db_journal_lease_epochs :=
     hm_insert (stream_id_str i) (uint ep) (db_journal_lease_epochs db)\<rparr>"
  by (auto simp: raise_sqlite_lease_epoch_def split: if_splits)

lemma enforce_ok:
  assumes "epochs_match db s" "sqlite_enforce_lease_epoch i ep db = (Inr u, db')"
  shows "check_in_memory_lease_epoch s i ep = Inr ()" and "epochs_match db' (raise_in_memory_lease_epoch i ep s)"
    and "\<exists>m. db' = db\<lparr>db_journal_lease_epochs := m\<rparr>"
proof -
  have get: "hm_get (db_journal_lease_epochs db) (stream_id_str j) =
      map_option uint (hm_get (si_lease_epoch_minimums s) j)" for j
    using assms(1) by (simp add: epochs_match_def)
  have same: "db' = db \<or> db' = db\<lparr>db_journal_lease_epochs :=
      hm_insert (stream_id_str i) (uint ep) (db_journal_lease_epochs db)\<rparr>"
    using assms(2) by (auto simp: sqlite_enforce_lease_epoch_def dest!: raise_sqlite_ok split: option.splits if_splits)
  then show "\<exists>m. db' = db\<lparr>db_journal_lease_epochs := m\<rparr>"
    by (elim disjE) (auto intro: exI [of _ "db_journal_lease_epochs db"])
  show "check_in_memory_lease_epoch s i ep = Inr ()"
    using assms(2) get [of i]
    by (auto simp: sqlite_enforce_lease_epoch_def check_in_memory_lease_epoch_def split: option.splits if_splits)
  show "epochs_match db' (raise_in_memory_lease_epoch i ep s)"
  proof (cases "hm_get (si_lease_epoch_minimums s) i")
    case None
    then have "db' = (if ep = 0 then db else db\<lparr>db_journal_lease_epochs :=
        hm_insert (stream_id_str i) (uint ep) (db_journal_lease_epochs db)\<rparr>)"
      using assms(2) get [of i] by (auto simp: sqlite_enforce_lease_epoch_def dest!: raise_sqlite_ok split: if_splits)
    then show ?thesis
      using get None by (auto simp: epochs_match_def raise_in_memory_lease_epoch_def word_greater_zero_iff)
  next
    case (Some m)
    then have m: "m \<le> ep" and "db' = (if ep = m then db else db\<lparr>db_journal_lease_epochs :=
        hm_insert (stream_id_str i) (uint ep) (db_journal_lease_epochs db)\<rparr>)"
      using assms(2) get [of i]
      by (auto simp: sqlite_enforce_lease_epoch_def dest!: raise_sqlite_ok split: if_splits)
    moreover have "ep = m" if "\<not> 0 < ep" using m that by (simp add: word_greater_zero_iff)
    ultimately show ?thesis
      using get Some by (auto simp: epochs_match_def raise_in_memory_lease_epoch_def max_def)
  qed
qed

lemma epochs_match_with_events:
  "epochs_match db (raise_in_memory_lease_epoch i ep s) \<longleftrightarrow> epochs_match db (with_events i ep rs s)"
  by (simp add: epochs_match_def with_events_def)

subsection \<open>Batches of events\<close>

lemma rows_ok_cong: "db_event_records db' = db_event_records db \<Longrightarrow> rows_ok codec js db' = rows_ok codec js db"
  by (simp add: rows_ok_def)

lemma event_ids_of_journal:
  assumes "journal_ok s" "\<forall>i. stream_of i js = stream_events s i"
  shows "si_event_ids s = ev_id ` set js"
proof -
  have "set js = (\<Union>i. set (stream_of i js))" by (auto simp: stream_of_def)
  with assms show ?thesis by (auto simp: journal_ok_def)
qed

text \<open>
  The rows of a batch on stream \<open>i\<close>, however they got there, make the database match the state after the
  in-memory batch.
\<close>

lemma batch_matches:
  assumes "journal_matches codec js db s" "journal_ok s"
    and "\<forall>r \<in> set rs. validate_new_event r = Inr () \<and> storable r"
    and "distinct (map ne_id rs)" "ne_id ` set rs \<inter> ev_id ` set js = {}"
    and "es = numbered i (int (length (stream_of i js))) rs" "rows_ok codec (js @ es) db'"
    and "epochs_match db' (raise_in_memory_lease_epoch i ep s)"
  shows "admissible_batch s rs" and "es = numbered i (int (length (stream_events s i))) rs"
    and "journal_matches codec (js @ es) db' (with_events i ep rs s)"
proof -
  have js: "\<forall>i. stream_of i js = stream_events s i" using assms(1) by (simp add: journal_matches_def)
  show "admissible_batch s rs"
    using assms(3-5) event_ids_of_journal [OF assms(2) js] by (simp add: admissible_batch_def)
  show es: "es = numbered i (int (length (stream_events s i))) rs" using assms(6) js by simp
  have "stream_of j (numbered i n rs) = (if j = i then numbered i n rs else [])" for j n
    by (auto simp: stream_of_def numbered_def event_from_new_def filter_empty_conv intro!: filter_True)
  then show "journal_matches codec (js @ es) db' (with_events i ep rs s)"
    using js assms(7,8) by (auto simp: journal_matches_def es with_events_def epochs_match_def)
qed

lemma append_events_simulated:
  assumes "uuid_text_ok codec" "represents codec db s" "journal_ok s" "\<forall>r \<in> set rs. event_text_ok codec r"
    and "sqlite_append_events codec ep i rs db = (Inr es, db')"
  shows "\<exists>s'. append_events (sq_show_uuid codec) ep i rs s = (Inr es, s') \<and> represents codec db' s'"
proof -
  from assms(2) obtain js ents where j: "journal_matches codec js db s" and e: "entries_match codec ents db s"
    and l: "leaves_match codec db s" and b: "bases_match codec db s" by (auto simp: represents_def)
  from assms(5) obtain u db1 where fence: "sqlite_enforce_lease_epoch i ep db = (Inr u, db1)"
    and ins: "tx_each (sqlite_insert_event codec i) rs db1 = (Inr es, db')"
    by (auto simp: sqlite_append_events_def in_transaction_ok tx_then_ok)
  note f = enforce_ok [OF _ fence, of s]
  have ep: "epochs_match db s" using j by (simp add: journal_matches_def)
  from f(3) [OF ep] obtain m where m: "db1 = db\<lparr>db_journal_lease_epochs := m\<rparr>" by blast
  have "rows_ok codec js db1" using j rows_ok_cong [of db1 db] by (simp add: m journal_matches_def)
  then have es: "es = numbered i (int (length (stream_of i js))) rs" and rows: "rows_ok codec (js @ es) db'"
    and db1: "db' = db1\<lparr>db_event_records := map (event_row_of codec) (js @ es)\<rparr>"
    and valid: "\<forall>r \<in> set rs. validate_new_event r = Inr () \<and> storable r" and d: "distinct (map ne_id rs)"
    and new: "ne_id ` set rs \<inter> ev_id ` set js = {}"
    using insert_events_ok [OF assms(1) _ assms(4) ins] by blast+
  then have db': "db' = db\<lparr>db_journal_lease_epochs := m, db_event_records := map (event_row_of codec) (js @ es)\<rparr>"
    by (simp add: m)
  have "epochs_match db' (raise_in_memory_lease_epoch i ep s)" using f(2) [OF ep] by (simp add: db' m epochs_match_def)
  note batch = batch_matches [OF j assms(3) valid d new es rows this]
  let ?s = "with_events i ep rs s"
  have "entries_match codec ents db' ?s" "leaves_match codec db' ?s" "bases_match codec db' ?s"
    using e l b by (simp_all add: db' entries_match_def leaves_match_def bases_match_def)
  with batch show ?thesis
    using f(1) [OF ep] by (auto simp: append_events_ok represents_def)
qed

lemma append_events_fenced_simulated:
  assumes "uuid_text_ok codec" "represents codec db s" "journal_ok s" "\<forall>r \<in> set rs. event_text_ok codec r"
    and "sqlite_append_events_fenced codec ep i q rs db = (Inr es, db')"
  shows "\<exists>s'. append_events_fenced (sq_show_uuid codec) ep i q rs s = (Inr es, s') \<and> represents codec db' s'"
proof -
  from assms(2) obtain js where j: "journal_matches codec js db s" by (auto simp: represents_def)
  from assms(5) obtain u db1 where fence: "sqlite_enforce_lease_epoch i ep db = (Inr u, db1)"
    and q: "sqlite_next_event_sequence i db1 = sequence_get q"
    and ins: "tx_each (sqlite_insert_event codec i) rs db1 = (Inr es, db')"
    by (auto simp: sqlite_append_events_fenced_def append_events_fenced_in_transaction_def in_transaction_ok
        tx_then_ok Let_def split: if_splits)
  from enforce_ok(3) [OF _ fence, of s] j have "db_event_records db1 = db_event_records db"
    by (auto simp: journal_matches_def)
  then have "rows_ok codec js db1" using j rows_ok_cong [of db1 db] by (simp add: journal_matches_def)
  with q j have "sequence_get q = int (length (stream_events s i)) + 1"
    by (simp add: next_sequence journal_matches_def)
  moreover have "sqlite_append_events codec ep i rs db = (Inr es, db')"
    using fence ins by (auto simp: sqlite_append_events_def in_transaction_ok tx_then_ok)
  ultimately show ?thesis using append_events_simulated [OF assms(1-4)] by (simp add: fenced_when_open)
qed

subsection \<open>Entries\<close>

lemma insert_entry_ok:
  assumes "uuid_text_ok codec" "rows_ok codec js db" "db_session_entries db = map (entry_row_of codec) es"
    and "event_text_ok codec r"
    and "r = session_entry_event_with_optional_provenance (sq_show_uuid codec) vst e prov"
    and "i = stream_for_thread (sq_show_uuid codec) (en_coordinates e)"
    and "sqlite_insert_entry codec vst e prov db = (Inr u, db')"
  shows "en_entry_id e \<notin> en_entry_id ` set es" and "validate_new_event r = Inr ()" and "storable r"
    and "ne_id r \<notin> ev_id ` set js"
    and "\<exists>ev. ev = event_from_new i (EventSequence (int (length (stream_of i js)) + 1)) r \<and>
       rows_ok codec (js @ [ev]) db' \<and>
       db' = db\<lparr>db_session_entries := map (entry_row_of codec) (es @ [e]),
         db_event_records := map (event_row_of codec) (js @ [ev])\<rparr>"
proof -
  from assms(5-7) obtain v db1 ev where row: "insert_entry_row (entry_row_of codec e) db = (Inr v, db1)"
    and ev: "sqlite_insert_event codec i r db1 = (Inr ev, db')"
    by (auto simp: sqlite_insert_entry_def tx_then_ok)
  from row have new: "\<not> (\<exists>other \<in> set (db_session_entries db). nr_entry_id other = nr_entry_id (entry_row_of codec e))"
    and db1: "db1 = db\<lparr>db_session_entries := db_session_entries db @ [entry_row_of codec e]\<rparr>"
    by (auto simp: insert_entry_row_def split: if_splits)
  then show "en_entry_id e \<notin> en_entry_id ` set es"
    using assms(3) by (auto simp: entry_row_of_def show_ids_inj [OF assms(1)])
  have "rows_ok codec js db1" using assms(2) rows_ok_cong [of db1 db] by (simp add: db1)
  note ok = insert_event_ok [OF assms(1) this ev]
  from ok show "validate_new_event r = Inr ()" "storable r" "ne_id r \<notin> ev_id ` set js" by simp_all
  have "rows_ok codec (js @ [ev]) db'"
    unfolding ok(5)
    by (rule rows_ok_snoc [OF \<open>rows_ok codec js db1\<close>])
      (use ok assms(4) reads_backI [OF assms(1), of r i] in \<open>auto simp: event_from_new_def\<close>)
  moreover have "db' = db\<lparr>db_session_entries := map (entry_row_of codec) (es @ [e]),
      db_event_records := map (event_row_of codec) (js @ [ev])\<rparr>"
    using ok(5) assms(2,3) by (simp add: db1 rows_ok_def)
  ultimately show "\<exists>ev. ev = event_from_new i (EventSequence (int (length (stream_of i js)) + 1)) r \<and>
      rows_ok codec (js @ [ev]) db' \<and>
      db' = db\<lparr>db_session_entries := map (entry_row_of codec) (es @ [e]),
        db_event_records := map (event_row_of codec) (js @ [ev])\<rparr>"
    using ok(1) by blast
qed

lemma find_append: "find P (xs @ ys) = (case find P xs of None \<Rightarrow> find P ys | Some x \<Rightarrow> Some x)"
  by (induction xs) simp_all

lemma entries_match_insert:
  assumes "entries_match codec es db s" "entry_text_ok codec e" "en_entry_id e \<notin> en_entry_id ` set es"
    and "db_session_entries db' = map (entry_row_of codec) (es @ [e])"
    and "tc_thread_id (en_coordinates e) = t" "\<And>t. entries_of s' t = entries_of s t"
  shows "entries_match codec (es @ [e]) db' (insert_entry t e s')"
proof -
  have "find (\<lambda>x. tc_thread_id (en_coordinates x) = t' \<and> en_entry_id x = en_entry_id e) es = None" for t'
    using assms(3) by (auto simp: find_None_iff image_iff)
  then show ?thesis
    using assms by (auto simp: entries_match_def find_append split: option.splits)
qed

lemma fresh_entry:
  assumes "entries_match codec es db s" "SessionEntryId u \<notin> en_entry_id ` set es"
  shows "fresh_entry_id s u"
  using assms by (auto simp: fresh_entry_id_def entries_match_def find_None_iff image_iff)

lemma leaves_match_set:
  assumes "uuid_text_ok codec" "leaves_match codec db s" "si_active_leaf s' = si_active_leaf s"
    "db_active_leaves db' = hm_insert (show_thread_id (sq_show_uuid codec) t)
       (show_entry_id (sq_show_uuid codec) l) (db_active_leaves db)"
  shows "leaves_match codec db' (set_active_leaf t l s')"
  using assms(2-4) by (simp add: leaves_match_def show_ids_inj [OF assms(1)])

lemma set_leaf_ok:
  "set_leaf_row t l db = (Inr u, db') \<Longrightarrow> db' = db\<lparr>db_active_leaves := hm_insert t l (db_active_leaves db)\<rparr>"
  by (auto simp: set_leaf_row_def split: if_splits)

lemma commit_entry_simulated:
  assumes "uuid_text_ok codec" "represents codec db s" "journal_ok s"
    and "entry_text_ok codec e" "event_text_ok codec r" "en_coordinates e = c"
    and "r = session_entry_event_with_optional_provenance (sq_show_uuid codec) vst e prov"
    and "sqlite_commit_entry codec ep vst c e prov db = (Inr x, db')"
  shows "x = e" and "check_in_memory_lease_epoch s (stream_for_thread (sq_show_uuid codec) c) ep = Inr ()"
    and "\<exists>s'. commit_entry (sq_show_uuid codec) ep c e r s = (Inr e, s') \<and> represents codec db' s'"
    and "en_entry_id e = SessionEntryId w \<Longrightarrow> fresh_entry_id s w"
proof -
  let ?i = "stream_for_thread (sq_show_uuid codec) c"
  from assms(2) obtain js es where j: "journal_matches codec js db s" and en: "entries_match codec es db s"
    and l: "leaves_match codec db s" and b: "bases_match codec db s" by (auto simp: represents_def)
  from assms(8) obtain u db1 v db2 w' where fence: "sqlite_enforce_lease_epoch ?i ep db = (Inr u, db1)"
    and ins: "sqlite_insert_entry codec vst e prov db1 = (Inr v, db2)"
    and leaf: "set_leaf_row (show_thread_id (sq_show_uuid codec) (tc_thread_id c))
      (show_entry_id (sq_show_uuid codec) (en_entry_id e)) db2 = (Inr w', db')" and x: "x = e"
    by (auto simp: sqlite_commit_entry_def tx_then_ok)
  show "x = e" by (rule x)
  have ep: "epochs_match db s" using j by (simp add: journal_matches_def)
  note f = enforce_ok [OF ep fence]
  from f(1) show "check_in_memory_lease_epoch s ?i ep = Inr ()" .
  from f(3) obtain m where m: "db1 = db\<lparr>db_journal_lease_epochs := m\<rparr>" by blast
  have rows: "rows_ok codec js db1" using j rows_ok_cong [of db1 db] by (simp add: m journal_matches_def)
  have ents: "db_session_entries db1 = map (entry_row_of codec) es" using en by (simp add: m entries_match_def)
  have i: "?i = stream_for_thread (sq_show_uuid codec) (en_coordinates e)" by (simp add: assms(6))
  note ok = insert_entry_ok [OF assms(1) rows ents assms(5,7) i ins]
  from ok(1) show "en_entry_id e = SessionEntryId w \<Longrightarrow> fresh_entry_id s w" by (simp add: fresh_entry [OF en])
  from ok(5) obtain ev where ev: "ev = event_from_new ?i (EventSequence (int (length (stream_of ?i js)) + 1)) r"
    and rows2: "rows_ok codec (js @ [ev]) db2"
    and db2: "db2 = db1\<lparr>db_session_entries := map (entry_row_of codec) (es @ [e]),
         db_event_records := map (event_row_of codec) (js @ [ev])\<rparr>" by blast
  from set_leaf_ok [OF leaf] have db': "db' = db2\<lparr>db_active_leaves :=
      hm_insert (show_thread_id (sq_show_uuid codec) (tc_thread_id c))
        (show_entry_id (sq_show_uuid codec) (en_entry_id e)) (db_active_leaves db2)\<rparr>" .
  let ?s1 = "with_events ?i ep [r] s"
  let ?s' = "set_active_leaf (tc_thread_id c) (en_entry_id e) (insert_entry (tc_thread_id c) e ?s1)"
  have num: "[ev] = numbered ?i (int (length (stream_of ?i js))) [r]" by (simp add: numbered_def ev)
  have rows': "rows_ok codec (js @ [ev]) db'" using rows2 rows_ok_cong [of db' db2] by (simp add: db')
  have ep': "epochs_match db' (raise_in_memory_lease_epoch ?i ep s)"
    using f(2) by (simp add: db' db2 epochs_match_def)
  have "\<forall>x \<in> set [r]. validate_new_event x = Inr () \<and> storable x" "distinct (map ne_id [r])"
    "ne_id ` set [r] \<inter> ev_id ` set js = {}" using ok(2-4) by simp_all
  note batch = batch_matches [OF j assms(3) this num rows' ep']
  have "commit_entry (sq_show_uuid codec) ep c e r s = (Inr e, ?s')"
    using batch(1) by (simp add: commit_entry_def append_in_memory_ok [THEN iffD2])
  moreover have "represents codec db' ?s'"
    unfolding represents_def
  proof (intro conjI exI)
    show "journal_matches codec (js @ [ev]) db' ?s'"
      using batch(3) by (simp add: journal_matches_def epochs_match_def)
    have "entries_match codec (es @ [e]) db' (insert_entry (tc_thread_id c) e ?s1)"
      by (rule entries_match_insert [OF en assms(4) ok(1)]) (simp_all add: db' db2 assms(6))
    then show "entries_match codec (es @ [e]) db' ?s'" by (simp add: entries_match_def)
    show "leaves_match codec db' ?s'"
      by (rule leaves_match_set [OF assms(1) l]) (simp_all add: db' db2 m)
    show "bases_match codec db' ?s'" using b by (simp add: bases_match_def db' db2 m)
  qed
  ultimately show "\<exists>s'. commit_entry (sq_show_uuid codec) ep c e r s = (Inr e, s') \<and> represents codec db' s'" by blast
qed

lemma checked_leaf_ok:
  assumes "uuid_text_ok codec" "entries_match codec es db s" "leaves_match codec db s" "session_ok s"
    and "sqlite_checked_leaf codec c db = Inr l"
  shows "hm_get (si_active_leaf s) (tc_thread_id c) = l"
proof (cases "hm_get (si_active_leaf s) (tc_thread_id c)")
  case None
  with assms(5) show ?thesis
    by (simp add: sqlite_checked_leaf_def active_leaf_entry_eq [OF assms(1-3)] transpose_result_def)
next
  case (Some i)
  with leaf_entry_stored [OF assms(4)] obtain e where
    "hm_get (entries_of s (tc_thread_id c)) i = Some e" "en_entry_id e = i" by blast
  with Some assms(5) show ?thesis
    by (auto simp: sqlite_checked_leaf_def active_leaf_entry_eq [OF assms(1-3)] transpose_result_def
        and_then_eq_Inr split: sum.splits)
qed

lemma resolve_parent_ok:
  assumes "uuid_text_ok codec" "entries_match codec es db s" "leaves_match codec db s" "session_ok s"
    and "sqlite_resolve_parent codec c p db = Inr q"
  shows "resolve_parent s c p = Inr q"
proof (cases p)
  case None
  with assms(5) checked_leaf_ok [OF assms(1-4)] show ?thesis by (simp add: sqlite_resolve_parent_def resolve_parent_def)
next
  case (Some i)
  with assms(5) show ?thesis
    by (auto simp: sqlite_resolve_parent_def resolve_parent_def branch_entry_eq [OF assms(1,2)] branch_entry_def
        hm_list_def and_then_eq_Inr split: option.splits)
qed

lemma append_inner_simulated:
  assumes "uuid_text_ok codec" "represents codec db s" "journal_ok s" "session_ok s"
    and "\<And>parent. sqlite_resolve_parent codec c p db = Inr parent \<Longrightarrow> entry_text_ok codec (entry_new st c parent kind)"
    and "\<And>parent. sqlite_resolve_parent codec c p db = Inr parent \<Longrightarrow> event_text_ok codec
       (session_entry_event_with_optional_provenance (sq_show_uuid codec) vst (entry_new st c parent kind) prov)"
    and "sqlite_append_inner codec ep st vst c p kind prov db = (Inr e, db')"
  shows "\<exists>s'. append_inner (sq_show_uuid codec) ep st vst c p kind prov s = (Inr e, s') \<and> represents codec db' s'"
    and "fresh_entry_id s (fst st)"
proof -
  from assms(2) obtain es where en: "entries_match codec es db s" and l: "leaves_match codec db s"
    by (auto simp: represents_def)
  from assms(7) obtain parent where parent: "sqlite_resolve_parent codec c p db = Inr parent"
    and commit: "sqlite_commit_entry codec ep vst c (entry_new st c parent kind) prov db = (Inr e, db')"
    by (auto simp: sqlite_append_inner_def in_transaction_ok or_return_ok)
  have c: "en_coordinates (entry_new st c parent kind) = c" by (simp add: entry_new_def)
  note sim = commit_entry_simulated [OF assms(1-3) assms(5,6) [OF parent] c refl commit]
  from sim(3) obtain s' where s': "commit_entry (sq_show_uuid codec) ep c (entry_new st c parent kind)
      (session_entry_event_with_optional_provenance (sq_show_uuid codec) vst (entry_new st c parent kind) prov) s =
      (Inr (entry_new st c parent kind), s')" "represents codec db' s'" by blast
  have "append_inner (sq_show_uuid codec) ep st vst c p kind prov s = (Inr e, s')"
    using resolve_parent_ok [OF assms(1) en l assms(4) parent] sim(1,2) s'(1) by (simp add: append_inner_def Let_def)
  with s'(2) show "\<exists>s'. append_inner (sq_show_uuid codec) ep st vst c p kind prov s = (Inr e, s') \<and>
      represents codec db' s'" by blast
  show "fresh_entry_id s (fst st)" using sim(4) [of "fst st"] by (simp add: entry_new_def)
qed

lemma find_turn_eq:
  assumes "uuid_text_ok codec" "entries_match codec es db s" "session_ok s"
  shows "transpose_result (map_option (\<lambda>row. decode_entry codec (nr_entry_json row))
      (find (\<lambda>row. nr_thread_id row = show_thread_id (sq_show_uuid codec) t \<and> nr_turn_id row = Some u)
        (db_session_entries db))) =
    Inr (find (\<lambda>e. en_turn_id e = Some u) (map snd (entries_of s t)))"
proof -
  let ?P = "\<lambda>e. tc_thread_id (en_coordinates e) = t \<and> en_turn_id e = Some u"
  have ok: "thread_ok t (entries_of s t)" using assms(3) by (simp add: session_ok_def forest_ok_def)
  have get: "hm_get (entries_of s t) i = find (\<lambda>e. tc_thread_id (en_coordinates e) = t \<and> en_entry_id e = i) es" for i
    using assms(2) by (simp add: entries_match_def)
  have mem: "e \<in> set es \<and> tc_thread_id (en_coordinates e) = t \<longleftrightarrow> hm_get (entries_of s t) (en_entry_id e) = Some e" for e
  proof
    assume e: "e \<in> set es \<and> tc_thread_id (en_coordinates e) = t"
    then obtain e' where "find (\<lambda>x. tc_thread_id (en_coordinates x) = t \<and> en_entry_id x = en_entry_id e) es = Some e'"
      by (cases "find (\<lambda>x. tc_thread_id (en_coordinates x) = t \<and> en_entry_id x = en_entry_id e) es")
        (auto simp: find_None_iff)
    moreover from this have "e' \<in> set es" "en_entry_id e' = en_entry_id e" by (auto simp: find_Some_iff)
    then have "e' = e" using e assms(2) by (auto simp: entries_match_def distinct_map dest: inj_onD)
    ultimately show "hm_get (entries_of s t) (en_entry_id e) = Some e" by (simp add: get)
  qed (auto simp: get find_Some_iff)
  have stored: "(i, e) \<in> set (entries_of s t) \<Longrightarrow> hm_get (entries_of s t) (en_entry_id e) = Some e" for i e
    using ok by (auto simp: thread_ok_def entries_ok_def simp flip: hm_get_iff_mem)
  have same: "find (\<lambda>e. en_turn_id e = Some u) (map snd (entries_of s t)) = find ?P es"
  proof (cases "find ?P es")
    case None
    then have "\<nexists>e. hm_get (entries_of s t) (en_entry_id e) = Some e \<and> en_turn_id e = Some u"
      by (auto simp: find_None_iff simp flip: mem)
    then have "find (\<lambda>e. en_turn_id e = Some u) (map snd (entries_of s t)) = None"
      using stored by (auto simp: find_None_iff)
    with None show ?thesis by simp
  next
    case (Some e)
    then have e: "hm_get (entries_of s t) (en_entry_id e) = Some e" "en_turn_id e = Some u"
      by (auto simp: find_Some_iff simp flip: mem)
    then have "(en_entry_id e, e) \<in> set (entries_of s t)" by (simp add: hm_get_SomeD)
    with e(2) obtain e' where e': "find (\<lambda>e. en_turn_id e = Some u) (map snd (entries_of s t)) = Some e'"
      by (cases "find (\<lambda>e. en_turn_id e = Some u) (map snd (entries_of s t))") (auto simp: find_None_iff)
    then obtain i where "(i, e') \<in> set (entries_of s t)" "en_turn_id e' = Some u"
      by (auto simp: find_Some_iff in_set_conv_nth) (metis nth_mem prod.collapse)
    then have "en_entry_id e' = en_entry_id e" using e ok stored unfolding thread_ok_def by (metis option.distinct(1))
    with e stored \<open>(i, e') \<in> set (entries_of s t)\<close> have "e' = e" by (metis option.inject)
    with e' Some show ?thesis by simp
  qed
  show ?thesis
    using assms(2) unfolding same entries_match_def
    by (simp add: transpose_decoded) (simp add: entry_row_of_def show_ids_inj [OF assms(1)])
qed

lemma append_turn_input_simulated:
  assumes "uuid_text_ok codec" "represents codec db s" "journal_ok s" "session_ok s"
    and "\<And>parent. sqlite_checked_leaf codec c db = Inr parent \<Longrightarrow> entry_text_ok codec (entry_for_turn st c parent u kind)"
    and "\<And>parent. sqlite_checked_leaf codec c db = Inr parent \<Longrightarrow>
       event_text_ok codec (session_entry_event (sq_show_uuid codec) vst (entry_for_turn st c parent u kind))"
    and "sqlite_append_turn_input codec ep st vst c u kind db = (Inr e, db')"
  shows "\<exists>s'. append_turn_input (sq_show_uuid codec) ep st vst c u kind s = (Inr e, s') \<and> represents codec db' s' \<and>
    (s' = s \<or> fresh_entry_id s (fst st))"
proof -
  from assms(2) obtain es where en: "entries_match codec es db s" and l: "leaves_match codec db s"
    by (auto simp: represents_def)
  note turn = find_turn_eq [OF assms(1) en assms(4), of "tc_thread_id c" u]
  show ?thesis
  proof (cases "find (\<lambda>e. en_turn_id e = Some u) (map snd (entries_of s (tc_thread_id c)))")
    case (Some x)
    with assms(7) have "db' = db" "e = x" "en_coordinates x = c" "turn_input_kinds_match (en_kind x) kind"
      by (auto simp: sqlite_append_turn_input_def in_transaction_ok or_return_ok turn split: if_splits)
    with Some assms(2) show ?thesis by (auto simp: append_turn_input_def validate_entry_coordinates_def)
  next
    case None
    with assms(7) obtain parent where parent: "sqlite_checked_leaf codec c db = Inr parent"
      and commit: "sqlite_commit_entry codec ep vst c (entry_for_turn st c parent u kind) None db = (Inr e, db')"
      by (auto simp: sqlite_append_turn_input_def in_transaction_ok or_return_ok turn)
    have c: "en_coordinates (entry_for_turn st c parent u kind) = c" by (simp add: entry_for_turn_def entry_new_def)
    note sim = commit_entry_simulated [OF assms(1-3) assms(5) [OF parent] assms(6) [OF parent, unfolded session_entry_event_def] c refl commit]
    note p = checked_leaf_ok [OF assms(1) en l assms(4) parent]
    have "fresh_entry_id s (fst st)" using sim(4) [of "fst st"] by (simp add: entry_for_turn_def entry_new_def)
    with sim(1-3) show ?thesis
      unfolding append_turn_input_new [OF None] p by (auto simp: session_entry_event_def)
  qed
qed

subsection \<open>Branches\<close>

lemma select_branch_simulated:
  assumes "uuid_text_ok codec" "represents codec db s" "journal_ok s" "session_ok s"
    and "\<And>prior. sqlite_checked_leaf codec c db = Inr prior \<Longrightarrow> event_text_ok codec (event_witnessed vst c ThreadBranchSelected
       (json_of_thread_branch_selected (sq_show_uuid codec) \<lparr>bs_thread_id = tc_thread_id c,
          bs_selected_entry_id = leaf, bs_prior_entry_id = prior\<rparr>))"
    and "sqlite_select_branch codec ep vst c leaf db = Some (Inr u, db')"
  shows "\<exists>s'. select_branch (sq_show_uuid codec) ep vst c leaf s = Some (Inr (), s') \<and> represents codec db' s'"
proof -
  let ?i = "stream_for_thread (sq_show_uuid codec) c" and ?t = "show_thread_id (sq_show_uuid codec) (tc_thread_id c)"
  from assms(2) obtain js es where j: "journal_matches codec js db s" and en: "entries_match codec es db s"
    and l: "leaves_match codec db s" and b: "bases_match codec db s" by (auto simp: represents_def)
  from assms(6) obtain prior where prior: "sqlite_checked_leaf codec c db = Inr prior"
    and path: "\<And>k. leaf = Some k \<Longrightarrow> \<exists>p. sqlite_branch_path codec c k db = Some (Inr p)"
    and rec: "sqlite_record_selection codec ep vst c prior leaf db = (Inr u, db')"
    by (auto simp: sqlite_select_branch_def in_transaction_ok split: sum.splits option.splits)
  define r where "r = event_witnessed vst c ThreadBranchSelected
    (json_of_thread_branch_selected (sq_show_uuid codec) \<lparr>bs_thread_id = tc_thread_id c,
      bs_selected_entry_id = leaf, bs_prior_entry_id = prior\<rparr>)"
  from rec obtain v db1 ev db2 where fence: "sqlite_enforce_lease_epoch ?i ep db = (Inr v, db1)"
    and ins: "sqlite_insert_event codec ?i r db1 = (Inr ev, db2)"
    and leaf: "(case leaf of Some k \<Rightarrow> set_leaf_row ?t (show_entry_id (sq_show_uuid codec) k)
      | None \<Rightarrow> delete_leaf_row ?t) db2 = (Inr u, db')"
    unfolding sqlite_record_selection_def Let_def r_def by (auto simp: tx_then_ok)
  have db': "db' = db2\<lparr>db_active_leaves := (case leaf of
      Some k \<Rightarrow> hm_insert ?t (show_entry_id (sq_show_uuid codec) k) (db_active_leaves db2)
    | None \<Rightarrow> hm_remove ?t (db_active_leaves db2))\<rparr>"
    using leaf by (auto simp: delete_leaf_row_def dest!: set_leaf_ok split: option.splits)
  have one: "sqlite_append_events codec ep ?i [r] db = (Inr [ev], db2)"
    using fence ins by (auto simp: sqlite_append_events_def in_transaction_ok tx_then_ok)
  have "\<forall>x \<in> set [r]. event_text_ok codec x" using assms(5) [OF prior] by (simp add: r_def)
  from append_events_simulated [OF assms(1-3) this one] obtain s1 where
    s1: "append_events (sq_show_uuid codec) ep ?i [r] s = (Inr [ev], s1)" "represents codec db2 s1" by blast
  note p = checked_leaf_ok [OF assms(1) en l assms(4) prior]
  have same: "si_active_leaf s1 = si_active_leaf s" using s1(1) by (simp add: append_events_ok)
  let ?s' = "case leaf of Some k \<Rightarrow> set_active_leaf (tc_thread_id c) k s1 | None \<Rightarrow> clear_active_leaf (tc_thread_id c) s1"
  have "record_selection (sq_show_uuid codec) ep vst c leaf s = (Inr (), ?s')"
    using s1(1) by (simp add: record_selection_def Let_def p r_def append_events_def or_return_ok)
  moreover have "select_branch (sq_show_uuid codec) ep vst c leaf s =
      Some (record_selection (sq_show_uuid codec) ep vst c leaf s)"
    using path by (auto simp: select_branch_def branch_path_eq [OF assms(1) en] split: option.splits)
  moreover have "represents codec db' ?s'"
    using s1(2) unfolding represents_def journal_matches_def rows_ok_def epochs_match_def entries_match_def
      bases_match_def leaves_match_def
    by (auto simp: db' show_ids_inj [OF assms(1)] split: option.splits)
  ultimately show ?thesis by simp
qed

lemma fork_simulated:
  assumes "uuid_text_ok codec" "represents codec db s" "session_ok s"
    and "sqlite_fork_by_reference codec src tgt base db = Some (Inr u, db')"
  shows "\<exists>s'. fork_by_reference (sq_show_uuid codec) src tgt base s = Some (Inr (), s') \<and> represents codec db' s'"
proof -
  from assms(2) obtain js es where j: "journal_matches codec js db s" and en: "entries_match codec es db s"
    and l: "leaves_match codec db s" and b: "bases_match codec db s" by (auto simp: represents_def)
  let ?t = "show_thread_id (sq_show_uuid codec) (tc_thread_id tgt)"
  note eqs = base_cycle_eq [OF assms(1) b] build_context_eq [OF assms(1) en l b assms(3)]
  from assms(4) have checks: "and_then (validate_thread_base_ref (sq_show_uuid codec) src tgt base) (\<lambda>_.
      validate_in_memory_base_cycle s (tc_thread_id tgt) (tc_thread_id src)) = Inr ()"
    and ctx: "(case tb_parent_leaf_entry_id base of None \<Rightarrow> Some (Inr ())
      | Some leaf \<Rightarrow> and_then_opt (build_in_memory_context (sq_show_uuid codec) s src (Some leaf) False {})
          (\<lambda>_. Some (Inr ()))) = Some (Inr ())"
    and db': "db' = db\<lparr>db_active_leaves := hm_remove ?t (db_active_leaves db),
      db_thread_bases := hm_insert (br_child_thread_id (base_row_of codec base)) (base_row_of codec base)
        (db_thread_bases db)\<rparr>"
    by (auto simp: sqlite_fork_by_reference_def validate_sqlite_base_cycle_def validate_in_memory_base_cycle_def
        eqs in_transaction_ok tx_then_ok delete_leaf_row_def sqlite_insert_thread_base_def Let_def
        split: sum.splits option.splits if_splits)
  have child: "tb_child_thread_id base = tc_thread_id tgt"
    using checks by (auto simp: and_then_eq_Inr validate_thread_base_ref_def split: if_splits)
  let ?s' = "(clear_active_leaf (tc_thread_id tgt) s)\<lparr>si_bases := hm_insert (tc_thread_id tgt) base (si_bases s)\<rparr>"
  have "fork_by_reference (sq_show_uuid codec) src tgt base s = Some (Inr (), ?s')"
    using checks ctx by (simp add: fork_by_reference_def)
  moreover have "represents codec db' ?s'"
    using j en l b unfolding represents_def journal_matches_def rows_ok_def epochs_match_def entries_match_def
      bases_match_def leaves_match_def
    by (auto simp: db' child base_row_of_def show_ids_inj [OF assms(1)])
  ultimately show ?thesis by blast
qed

subsection \<open>Clones\<close>

lemma clone_rows:
  assumes "uuid_text_ok codec" "i = stream_for_thread (sq_show_uuid codec) tgt"
    and "rows_ok codec js db" "db_session_entries db = map (entry_row_of codec) es"
    and "\<forall>(k, e) \<in> set (List.enumerate n cl). en_coordinates e = tgt \<and>
      event_text_ok codec (session_entry_event (sq_show_uuid codec) (vst k) e)"
    and "evs = map (\<lambda>(k, e). session_entry_event (sq_show_uuid codec) (vst k) e) (List.enumerate n cl)"
    and "sqlite_clone_entries codec vst n cl db = (Inr u, db')"
    and "es' = numbered i (int (length (stream_of i js))) evs"
  shows "rows_ok codec (js @ es') db' \<and>
    db' = db\<lparr>db_session_entries := map (entry_row_of codec) (es @ cl),
      db_event_records := map (event_row_of codec) (js @ es')\<rparr> \<and>
    (\<forall>r \<in> set evs. validate_new_event r = Inr () \<and> storable r) \<and> distinct (map ne_id evs) \<and>
    ne_id ` set evs \<inter> ev_id ` set js = {} \<and> distinct (map en_entry_id cl) \<and>
    en_entry_id ` set cl \<inter> en_entry_id ` set es = {}"
  using assms(3-8)
proof (induction cl arbitrary: n js db es evs es')
  case Nil
  then show ?case by (auto simp: numbered_def rows_ok_def)
next
  case (Cons e cl)
  let ?r = "session_entry_event (sq_show_uuid codec) (vst n) e"
  from Cons.prems(5) obtain v db1 where ins: "sqlite_insert_entry codec (vst n) e None db = (Inr v, db1)"
    and rest: "sqlite_clone_entries codec vst (Suc n) cl db1 = (Inr u, db')" by (auto simp: tx_then_ok)
  have e: "en_coordinates e = tgt" "event_text_ok codec ?r" using Cons.prems(3) by simp_all
  have i: "i = stream_for_thread (sq_show_uuid codec) (en_coordinates e)" by (simp add: assms(2) e(1))
  note ok = insert_entry_ok [OF assms(1) Cons.prems(1,2) e(2) session_entry_event_def i ins]
  from ok(5) obtain ev where ev: "ev = event_from_new i (EventSequence (int (length (stream_of i js)) + 1)) ?r"
    and rows1: "rows_ok codec (js @ [ev]) db1"
    and db1: "db1 = db\<lparr>db_session_entries := map (entry_row_of codec) (es @ [e]),
         db_event_records := map (event_row_of codec) (js @ [ev])\<rparr>" by blast
  define evs1 where "evs1 = map (\<lambda>(k, e). session_entry_event (sq_show_uuid codec) (vst k) e) (List.enumerate (Suc n) cl)"
  define es1 where "es1 = numbered i (int (length (stream_of i (js @ [ev])))) evs1"
  have "db_session_entries db1 = map (entry_row_of codec) (es @ [e])" by (simp add: db1)
  moreover have "\<forall>(k, e) \<in> set (List.enumerate (Suc n) cl). en_coordinates e = tgt \<and>
      event_text_ok codec (session_entry_event (sq_show_uuid codec) (vst k) e)" using Cons.prems(3) by simp
  ultimately have ih: "rows_ok codec ((js @ [ev]) @ es1) db' \<and>
      db' = db1\<lparr>db_session_entries := map (entry_row_of codec) ((es @ [e]) @ cl),
        db_event_records := map (event_row_of codec) ((js @ [ev]) @ es1)\<rparr> \<and>
      (\<forall>r \<in> set evs1. validate_new_event r = Inr () \<and> storable r) \<and> distinct (map ne_id evs1) \<and>
      ne_id ` set evs1 \<inter> ev_id ` set (js @ [ev]) = {} \<and> distinct (map en_entry_id cl) \<and>
      en_entry_id ` set cl \<inter> en_entry_id ` set (es @ [e]) = {}"
    by (rule Cons.IH [OF rows1 _ _ evs1_def rest es1_def])
  have evs: "evs = ?r # evs1" by (simp add: Cons.prems(4) evs1_def)
  have len: "length (stream_of i (js @ [ev])) = Suc (length (stream_of i js))"
    by (simp add: stream_of_def ev event_from_new_def)
  have es': "es' = ev # es1"
    unfolding Cons.prems(6) evs es1_def len
    by (intro nth_equalityI) (auto simp: ev nth_Cons algebra_simps split: nat.splits)
  have "rows_ok codec (js @ es') db'" using ih [THEN conjunct1] by (simp add: es')
  moreover have "db' = db\<lparr>db_session_entries := map (entry_row_of codec) (es @ e # cl),
      db_event_records := map (event_row_of codec) (js @ es')\<rparr>"
    using ih [THEN conjunct2, THEN conjunct1] by (simp add: es' db1)
  moreover have "ev_id ev = ne_id ?r" by (simp add: ev event_from_new_def)
  then have "(\<forall>r \<in> set evs. validate_new_event r = Inr () \<and> storable r) \<and> distinct (map ne_id evs) \<and>
      ne_id ` set evs \<inter> ev_id ` set js = {} \<and> distinct (map en_entry_id (e # cl)) \<and>
      en_entry_id ` set (e # cl) \<inter> en_entry_id ` set es = {}"
    using ih [THEN conjunct2, THEN conjunct2] ok(1-4) by (auto simp: evs)
  ultimately show ?case by blast
qed

lemma entries_match_fold:
  assumes "entries_match codec es db s" "\<forall>e \<in> set cl. entry_text_ok codec e \<and> tc_thread_id (en_coordinates e) = t"
    and "distinct (map en_entry_id cl)" "en_entry_id ` set cl \<inter> en_entry_id ` set es = {}"
    and "db_session_entries db' = map (entry_row_of codec) (es @ cl)" "\<And>t. entries_of s' t = entries_of s t"
  shows "entries_match codec (es @ cl) db' (fold (insert_entry t) cl s')"
  using assms
proof (induction cl arbitrary: es db s s')
  case Nil
  then show ?case by (simp add: entries_match_def)
next
  case (Cons e cl)
  let ?db = "db\<lparr>db_session_entries := map (entry_row_of codec) (es @ [e])\<rparr>"
  have "entries_match codec (es @ [e]) ?db (insert_entry t e s')"
    by (rule entries_match_insert [OF Cons.prems(1)]) (use Cons.prems in auto)
  from Cons.IH [OF this, of "insert_entry t e s'"] Cons.prems show ?case by auto
qed

lemma clone_drawn_ids:
  "map en_entry_id (clone_entries st i tgt parent path) = map (\<lambda>k. SessionEntryId (fst (st k))) [i..<i + length path]"
  by (induction st i tgt parent path rule: clone_entries.induct) (simp_all add: Let_def entry_new_def upt_rec)

lemma clone_entry_coordinates: "e \<in> set (clone_entries st i tgt parent path) \<Longrightarrow> en_coordinates e = tgt"
  by (induction st i tgt parent path rule: clone_entries.induct) (auto simp: Let_def entry_new_def)

end
