(* ===== verification/Sqlite_Calls.thy ===== *)
theory Sqlite_Calls
  imports Sqlite_Simulation
begin

section \<open>Databases reached by calls\<close>

text \<open>
  The calls of the SQLite store as one relation on databases, and what the simulation gives for every
  database they reach.
\<close>

subsection \<open>Copying a branch\<close>

lemma represents_without_base:
  assumes "uuid_text_ok codec" "represents codec db s"
  shows "represents codec (snd (delete_base_row (show_thread_id (sq_show_uuid codec) t) db)) (remove_base t s)"
  using assms(2) unfolding represents_def journal_matches_def rows_ok_def epochs_match_def entries_match_def
      bases_match_def leaves_match_def
  by (auto simp: delete_base_row_def show_ids_inj [OF assms(1)])

text \<open>The entries a clone writes and their events read back.\<close>

definition clone_text_ok ::
  "sqlite_codec \<Rightarrow> (nat \<Rightarrow> stamp) \<Rightarrow> (nat \<Rightarrow> stamp) \<Rightarrow> thread_coordinates \<Rightarrow> session_entry_id option \<Rightarrow>
   thread_coordinates \<Rightarrow> database \<Rightarrow> bool" where
  "clone_text_ok codec st vst src leaf tgt db \<longleftrightarrow>
     (\<forall>l path. leaf = Some l \<longrightarrow> sqlite_branch_path codec src l db = Some (Inr path) \<longrightarrow>
        (\<forall>(k, e) \<in> set (List.enumerate 0 (clone_entries st 0 tgt None path)).
           entry_text_ok codec e \<and> event_text_ok codec (session_entry_event (sq_show_uuid codec) (vst k) e)))"

lemma commit_clone_simulated:
  assumes "uuid_text_ok codec" "represents codec db s" "journal_ok s" "cl \<noteq> []"
    and "\<forall>(k, e) \<in> set (List.enumerate 0 cl). en_coordinates e = tgt \<and> entry_text_ok codec e \<and>
       event_text_ok codec (session_entry_event (sq_show_uuid codec) (vst k) e)"
    and "sqlite_commit_clone codec ep vst tgt cl
       (snd (delete_base_row (show_thread_id (sq_show_uuid codec) (tc_thread_id tgt)) db)) = (Inr x, db')"
  shows "\<exists>s'. commit_clone (sq_show_uuid codec) ep vst tgt cl s = (Inr x, s') \<and> represents codec db' s'"
    and "distinct (map en_entry_id cl)" and "SessionEntryId u \<in> en_entry_id ` set cl \<Longrightarrow> fresh_entry_id s u"
proof -
  let ?i = "stream_for_thread (sq_show_uuid codec) tgt" and ?t = "tc_thread_id tgt"
  let ?text = "show_thread_id (sq_show_uuid codec) ?t" and ?leaf = "en_entry_id (last cl)"
  define db0 where "db0 = snd (delete_base_row ?text db)"
  define evs where "evs = map (\<lambda>(k, e). session_entry_event (sq_show_uuid codec) (vst k) e) (List.enumerate 0 cl)"
  from represents_without_base [OF assms(1,2), of ?t] obtain js es where
    j0: "journal_matches codec js db0 (remove_base ?t s)" and en: "entries_match codec es db0 (remove_base ?t s)"
    and l: "leaves_match codec db0 (remove_base ?t s)" and b: "bases_match codec db0 (remove_base ?t s)"
    by (auto simp: represents_def db0_def)
  have j: "journal_matches codec js db0 s" using j0 by (simp add: journal_matches_def epochs_match_def)
  then have ep: "epochs_match db0 s" by (simp add: journal_matches_def)
  from assms(6) obtain v db1 w db2 w' where fence: "sqlite_enforce_lease_epoch ?i ep db0 = (Inr v, db1)"
    and rows: "sqlite_clone_entries codec vst 0 cl db1 = (Inr w, db2)"
    and leaf: "set_leaf_row ?text (show_entry_id (sq_show_uuid codec) ?leaf) db2 = (Inr w', db')" and x: "x = Some ?leaf"
    using assms(4) by (cases cl) (auto simp: sqlite_commit_clone_def tx_then_ok db0_def)
  note f = enforce_ok [OF ep fence]
  from f(3) obtain m where m: "db1 = db0\<lparr>db_journal_lease_epochs := m\<rparr>" by blast
  define evs' where "evs' = numbered ?i (int (length (stream_of ?i js))) evs"
  have rows1: "rows_ok codec js db1" using j rows_ok_cong [of db1 db0] by (simp add: m journal_matches_def)
  have ents1: "db_session_entries db1 = map (entry_row_of codec) es" using en by (simp add: m entries_match_def)
  have "\<forall>(k, e) \<in> set (List.enumerate 0 cl). en_coordinates e = tgt \<and>
      event_text_ok codec (session_entry_event (sq_show_uuid codec) (vst k) e)" using assms(5) by auto
  note c = clone_rows [OF assms(1) refl rows1 ents1 this evs_def rows evs'_def]
  have valid: "\<forall>r \<in> set evs. validate_new_event r = Inr () \<and> storable r" "distinct (map ne_id evs)"
    "ne_id ` set evs \<inter> ev_id ` set js = {}" and d: "distinct (map en_entry_id cl)"
    and new: "en_entry_id ` set cl \<inter> en_entry_id ` set es = {}" using c by blast+
  from c have db2: "db2 = db1\<lparr>db_session_entries := map (entry_row_of codec) (es @ cl),
      db_event_records := map (event_row_of codec) (js @ evs')\<rparr>" by blast
  have db': "db' = db2\<lparr>db_active_leaves := hm_insert ?text (show_entry_id (sq_show_uuid codec) ?leaf)
      (db_active_leaves db2)\<rparr>" by (rule set_leaf_ok [OF leaf])
  have "rows_ok codec (js @ evs') db'"
    using c [THEN conjunct1] rows_ok_cong [of db' db2] by (simp add: db')
  moreover have "epochs_match db' (raise_in_memory_lease_epoch ?i ep s)"
    using f(2) by (simp add: db' db2 epochs_match_def)
  ultimately have batch: "admissible_batch s evs"
    "journal_matches codec (js @ evs') db' (with_events ?i ep evs s)"
    using batch_matches [OF j assms(3) valid evs'_def] by blast+
  let ?s1 = "remove_base ?t (with_events ?i ep evs s)"
  let ?s' = "set_active_leaf ?t ?leaf (fold (insert_entry ?t) cl ?s1)"
  have "commit_clone (sq_show_uuid codec) ep vst tgt cl s = (Inr x, ?s')"
    using assms(4) batch(1) f(1)
    by (cases cl) (simp_all add: commit_clone_def Let_def append_in_memory_ok [THEN iffD2] evs_def x)
  moreover have "represents codec db' ?s'"
    unfolding represents_def
  proof (intro conjI exI)
    show "journal_matches codec (js @ evs') db' ?s'"
      using batch(2) by (simp add: journal_matches_def epochs_match_def)
    have "\<forall>e \<in> set cl. entry_text_ok codec e \<and> tc_thread_id (en_coordinates e) = ?t"
      using assms(5) unfolding ball_enumerate by (auto simp: in_set_conv_nth)
    then have "entries_match codec (es @ cl) db' (fold (insert_entry ?t) cl ?s1)"
      by (rule entries_match_fold [OF en _ d new]) (simp_all add: db' db2)
    then show "entries_match codec (es @ cl) db' ?s'" by (simp add: entries_match_def)
    show "leaves_match codec db' ?s'"
      by (rule leaves_match_set [OF assms(1) l]) (simp_all add: db' db2 m)
    show "bases_match codec db' ?s'" using b by (simp add: bases_match_def db' db2 m)
  qed
  ultimately show "\<exists>s'. commit_clone (sq_show_uuid codec) ep vst tgt cl s = (Inr x, s') \<and> represents codec db' s'"
    by blast
  show "distinct (map en_entry_id cl)" by (rule d)
  show "fresh_entry_id s u" if "SessionEntryId u \<in> en_entry_id ` set cl"
  proof -
    have "SessionEntryId u \<notin> en_entry_id ` set es" using that new by blast
    with fresh_entry [OF en] show ?thesis by (simp add: fresh_entry_id_def)
  qed
qed

lemma clone_branch_simulated:
  assumes "uuid_text_ok codec" "represents codec db s" "journal_ok s" "session_ok s"
    and "clone_text_ok codec st vst src leaf tgt db"
    and "sqlite_clone_branch codec ep st vst src leaf tgt db = Some (Inr x, db')"
  shows "\<exists>s'. clone_branch (sq_show_uuid codec) ep st vst src leaf tgt s = Some (Inr x, s') \<and>
    represents codec db' s' \<and> fresh_clone s st src leaf"
proof (cases leaf)
  case None
  let ?t = "tc_thread_id tgt"
  note r = represents_without_base [OF assms(1,2), of ?t]
  from None assms(6) have "x = None" and db': "db' = snd (delete_leaf_row (show_thread_id (sq_show_uuid codec) ?t)
      (snd (delete_base_row (show_thread_id (sq_show_uuid codec) ?t) db)))"
    by (simp_all add: sqlite_clone_branch_def Let_def)
  moreover have "represents codec db' (clear_active_leaf ?t (remove_base ?t s))"
    using r unfolding represents_def journal_matches_def rows_ok_def epochs_match_def entries_match_def
      bases_match_def leaves_match_def
    by (auto simp: db' delete_leaf_row_def show_ids_inj [OF assms(1)])
  ultimately show ?thesis using None by (simp add: clone_branch_def fresh_clone_def)
next
  case (Some l)
  let ?t = "show_thread_id (sq_show_uuid codec) (tc_thread_id tgt)"
  from assms(2) obtain es where en: "entries_match codec es db s" by (auto simp: represents_def)
  then have en0: "entries_match codec es (snd (delete_base_row ?t db)) s"
    by (simp add: entries_match_def delete_base_row_def)
  from assms(6) Some obtain path where path: "sqlite_branch_path codec src l (snd (delete_base_row ?t db)) = Some (Inr path)"
    and commit: "sqlite_commit_clone codec ep vst tgt (clone_entries st 0 tgt None path) (snd (delete_base_row ?t db)) =
      (Inr x, db')"
    by (auto simp: sqlite_clone_branch_def Let_def in_transaction_ok tx_then_ok delete_base_row_def
        split: option.splits sum.splits)
  have p: "stored_branch_path s src l = Some (Inr path)" "sqlite_branch_path codec src l db = Some (Inr path)"
    using path by (simp_all add: branch_path_eq [OF assms(1) en] branch_path_eq [OF assms(1) en0])
  have "entries_ok (entries_of s (tc_thread_id src))"
    using assms(4) by (simp add: session_ok_def forest_entries_ok)
  then have ne: "path \<noteq> []"
    by (cases rule: branch_path_cases [of _ l src])
      (use p(1) in \<open>auto simp: stored_branch_path_eq elim: ancestry_SomeE\<close>)
  let ?cl = "clone_entries st 0 tgt None path"
  have cl: "?cl \<noteq> []" using ne by (cases path) (simp_all add: Let_def)
  have ok: "\<forall>(k, e) \<in> set (List.enumerate 0 ?cl). en_coordinates e = tgt \<and> entry_text_ok codec e \<and>
      event_text_ok codec (session_entry_event (sq_show_uuid codec) (vst k) e)"
    using assms(5) Some p(2) clone_entry_coordinates [of _ st 0 tgt None path]
    unfolding clone_text_ok_def by (fastforce dest: in_set_enumerate_eq [THEN iffD1])
  note c = commit_clone_simulated [OF assms(1-3) cl ok commit]
  have "fresh_clone s st src leaf"
    unfolding fresh_clone_def
  proof (intro allI impI conjI)
    fix l' path' assume l': "leaf = Some l'" "stored_branch_path s src l' = Some (Inr path')"
    then have same: "path' = path" using Some p(1) by simp
    have "distinct (map (\<lambda>k. SessionEntryId (fst (st k))) [0..<length path])"
      using c(2) by (simp only: clone_drawn_ids add_0)
    then show "inj_on (fst \<circ> st) {..<length path'}"
      by (auto simp: same distinct_map inj_on_def)
    fix k assume k: "k < length path'"
    have "SessionEntryId (fst (st k)) \<in> set (map en_entry_id ?cl)"
      using k by (simp add: clone_drawn_ids same del: set_map) auto
    then show "fresh_entry_id s (fst (st k))" using c(3) by simp
  qed
  moreover have "clone_branch (sq_show_uuid codec) ep st vst src leaf tgt s =
      Some (commit_clone (sq_show_uuid codec) ep vst tgt ?cl s)"
    using Some p(1) by (simp add: clone_branch_def)
  ultimately show ?thesis using c(1) by auto
qed

subsection \<open>Requests\<close>

text \<open>
  The writing methods of the traits \<open>SessionStore\<close> and \<open>EventStore\<close> with their arguments, and the answers they
  give.  The lease epoch is the handle's; stamps are what a call draws.
\<close>

datatype store_request =
  AppendEvents u64 event_stream_id "new_event_record list"
| AppendEventsFenced u64 event_stream_id event_sequence "new_event_record list"
| Append u64 stamp stamp thread_coordinates "session_entry_id option" session_entry_kind "event_provenance option"
| AppendTurnInput u64 stamp stamp thread_coordinates string session_entry_kind
| SelectBranch u64 stamp thread_coordinates "session_entry_id option"
| CloneBranch u64 "nat \<Rightarrow> stamp" "nat \<Rightarrow> stamp" thread_coordinates "session_entry_id option" thread_coordinates
| ForkByReference thread_coordinates thread_coordinates thread_base_ref

datatype store_answer =
  AnswerEvents "event_record list"
| AnswerEntry session_entry
| AnswerLeaf "session_entry_id option"
| AnswerUnit

definition answer :: "('a \<Rightarrow> store_answer) \<Rightarrow> 'a history_result \<times> 'd \<Rightarrow> store_answer history_result \<times> 'd" where
  "answer f r = (map_sum id f (fst r), snd r)"

fun serve_in_memory ::
  "(uuid \<Rightarrow> string) \<Rightarrow> store_request \<Rightarrow> store_inner \<Rightarrow> (store_answer history_result \<times> store_inner) option" where
  "serve_in_memory sh (AppendEvents ep i rs) s = Some (answer AnswerEvents (append_events sh ep i rs s))"
| "serve_in_memory sh (AppendEventsFenced ep i q rs) s =
     Some (answer AnswerEvents (append_events_fenced sh ep i q rs s))"
| "serve_in_memory sh (Append ep st vst c p kind prov) s =
     Some (answer AnswerEntry (append_inner sh ep st vst c p kind prov s))"
| "serve_in_memory sh (AppendTurnInput ep st vst c u kind) s =
     Some (answer AnswerEntry (append_turn_input sh ep st vst c u kind s))"
| "serve_in_memory sh (SelectBranch ep vst c leaf) s =
     map_option (answer (\<lambda>_. AnswerUnit)) (select_branch sh ep vst c leaf s)"
| "serve_in_memory sh (CloneBranch ep st vst src leaf tgt) s =
     map_option (answer AnswerLeaf) (clone_branch sh ep st vst src leaf tgt s)"
| "serve_in_memory sh (ForkByReference src tgt base) s =
     map_option (answer (\<lambda>_. AnswerUnit)) (fork_by_reference sh src tgt base s)"

fun serve_sqlite ::
  "sqlite_codec \<Rightarrow> store_request \<Rightarrow> database \<Rightarrow> (store_answer history_result \<times> database) option" where
  "serve_sqlite codec (AppendEvents ep i rs) db = Some (answer AnswerEvents (sqlite_append_events codec ep i rs db))"
| "serve_sqlite codec (AppendEventsFenced ep i q rs) db =
     Some (answer AnswerEvents (sqlite_append_events_fenced codec ep i q rs db))"
| "serve_sqlite codec (Append ep st vst c p kind prov) db =
     Some (answer AnswerEntry (sqlite_append_inner codec ep st vst c p kind prov db))"
| "serve_sqlite codec (AppendTurnInput ep st vst c u kind) db =
     Some (answer AnswerEntry (sqlite_append_turn_input codec ep st vst c u kind db))"
| "serve_sqlite codec (SelectBranch ep vst c leaf) db =
     map_option (answer (\<lambda>_. AnswerUnit)) (sqlite_select_branch codec ep vst c leaf db)"
| "serve_sqlite codec (CloneBranch ep st vst src leaf tgt) db =
     map_option (answer AnswerLeaf) (sqlite_clone_branch codec ep st vst src leaf tgt db)"
| "serve_sqlite codec (ForkByReference src tgt base) db =
     map_option (answer (\<lambda>_. AnswerUnit)) (sqlite_fork_by_reference codec src tgt base db)"

text \<open>The texts that a request would write read back as what was written.\<close>

fun request_text_ok :: "sqlite_codec \<Rightarrow> store_request \<Rightarrow> database \<Rightarrow> bool" where
  "request_text_ok codec (AppendEvents ep i rs) db \<longleftrightarrow> (\<forall>r \<in> set rs. event_text_ok codec r)"
| "request_text_ok codec (AppendEventsFenced ep i q rs) db \<longleftrightarrow> (\<forall>r \<in> set rs. event_text_ok codec r)"
| "request_text_ok codec (Append ep st vst c p kind prov) db \<longleftrightarrow>
     (\<forall>parent. sqlite_resolve_parent codec c p db = Inr parent \<longrightarrow> entry_text_ok codec (entry_new st c parent kind) \<and>
        event_text_ok codec (session_entry_event_with_optional_provenance (sq_show_uuid codec) vst
          (entry_new st c parent kind) prov))"
| "request_text_ok codec (AppendTurnInput ep st vst c u kind) db \<longleftrightarrow>
     (\<forall>parent. sqlite_checked_leaf codec c db = Inr parent \<longrightarrow> entry_text_ok codec (entry_for_turn st c parent u kind) \<and>
        event_text_ok codec (session_entry_event (sq_show_uuid codec) vst (entry_for_turn st c parent u kind)))"
| "request_text_ok codec (SelectBranch ep vst c leaf) db \<longleftrightarrow>
     (\<forall>prior. sqlite_checked_leaf codec c db = Inr prior \<longrightarrow> event_text_ok codec (event_witnessed vst c ThreadBranchSelected
       (json_of_thread_branch_selected (sq_show_uuid codec) \<lparr>bs_thread_id = tc_thread_id c,
          bs_selected_entry_id = leaf, bs_prior_entry_id = prior\<rparr>)))"
| "request_text_ok codec (CloneBranch ep st vst src leaf tgt) db \<longleftrightarrow> clone_text_ok codec st vst src leaf tgt db"
| "request_text_ok codec (ForkByReference src tgt base) db \<longleftrightarrow> True"

lemma answer_Inr: "answer f r = (Inr a, d) \<longleftrightarrow> (\<exists>x. r = (Inr x, d) \<and> a = f x)"
  by (cases r; cases "fst r") (auto simp: answer_def)

lemma answer_Inl: "answer f r = (Inl e, d) \<longleftrightarrow> r = (Inl e, d)"
  by (cases r; cases "fst r") (auto simp: answer_def)

lemma failed_request_changes_nothing:
  "serve_sqlite codec req db = Some (Inl e, db') \<Longrightarrow> db' = db"
  by (cases req) (auto simp: answer_Inl sqlite_append_events_def sqlite_append_events_fenced_def sqlite_append_inner_def
      sqlite_append_turn_input_def sqlite_select_branch_def sqlite_clone_branch_def sqlite_fork_by_reference_def Let_def
      dest: in_transaction_err split: option.splits sum.splits)

text \<open>A call of the in-memory store made with identifiers that are new\<close>

lemma request_is_call:
  assumes "serve_in_memory sh req s = Some (Inr a, s')"
    and "\<And>ep st vst c p kind prov. req = Append ep st vst c p kind prov \<Longrightarrow> fresh_entry_id s (fst st)"
    and "\<And>ep st vst c u kind. req = AppendTurnInput ep st vst c u kind \<Longrightarrow> s' = s \<or> fresh_entry_id s (fst st)"
    and "\<And>ep st vst src leaf tgt. req = CloneBranch ep st vst src leaf tgt \<Longrightarrow> fresh_clone s st src leaf"
  shows "s' = s \<or> (\<exists>ok. store_call sh s ok s')"
  using assms by (cases req) (auto simp: answer_Inr intro: store_call.intros)

lemma later_call: "s' = s \<or> (\<exists>ok. store_call sh s ok s') \<Longrightarrow> later sh s s'"
  unfolding later_def by auto

lemma request_simulated:
  assumes "uuid_text_ok codec" "represents codec db s" "journal_ok s" "session_ok s" "request_text_ok codec req db"
    and "serve_sqlite codec req db = Some (Inr a, db')"
  shows "\<exists>s'. serve_in_memory (sq_show_uuid codec) req s = Some (Inr a, s') \<and> represents codec db' s' \<and>
    later (sq_show_uuid codec) s s'"
proof -
  note append = append_inner_simulated [OF assms(1-4)] and turn = append_turn_input_simulated [OF assms(1-4)]
    and clone = clone_branch_simulated [OF assms(1-4)]
  have "\<exists>s'. serve_in_memory (sq_show_uuid codec) req s = Some (Inr a, s') \<and> represents codec db' s' \<and>
    (s' = s \<or> (\<exists>ok. store_call (sq_show_uuid codec) s ok s'))"
  proof (cases req)
    case (AppendEvents ep i rs)
    with assms(5,6) append_events_simulated [OF assms(1-3)] show ?thesis
      by (fastforce simp: answer_Inr intro: store_call.intros)
  next
    case (AppendEventsFenced ep i q rs)
    with assms(5,6) append_events_fenced_simulated [OF assms(1-3)] show ?thesis
      by (fastforce simp: answer_Inr intro: store_call.intros)
  next
    case (Append ep st vst c p kind prov)
    with assms(6) obtain e where e: "sqlite_append_inner codec ep st vst c p kind prov db = (Inr e, db')" "a = AnswerEntry e"
      by (auto simp: answer_Inr)
    from assms(5) Append append [OF _ _ e(1)] obtain s' where
      "append_inner (sq_show_uuid codec) ep st vst c p kind prov s = (Inr e, s')" "represents codec db' s'"
      "fresh_entry_id s (fst st)" by auto
    with e(2) Append show ?thesis by (auto simp: answer_def intro: store_call.intros)
  next
    case (AppendTurnInput ep st vst c u kind)
    with assms(6) obtain e where e: "sqlite_append_turn_input codec ep st vst c u kind db = (Inr e, db')" "a = AnswerEntry e"
      by (auto simp: answer_Inr)
    from assms(5) AppendTurnInput turn [OF _ _ e(1)] obtain s' where
      "append_turn_input (sq_show_uuid codec) ep st vst c u kind s = (Inr e, s')" "represents codec db' s'"
      "s' = s \<or> fresh_entry_id s (fst st)" by auto
    with e(2) AppendTurnInput show ?thesis by (auto simp: answer_def intro: store_call.intros)
  next
    case (SelectBranch ep vst c leaf)
    with assms(6) obtain u where e: "sqlite_select_branch codec ep vst c leaf db = Some (Inr u, db')" "a = AnswerUnit"
      by (auto simp: answer_Inr)
    from assms(5) SelectBranch select_branch_simulated [OF assms(1-4) _ e(1)] obtain s' where
      "select_branch (sq_show_uuid codec) ep vst c leaf s = Some (Inr (), s')" "represents codec db' s'" by auto
    with e(2) SelectBranch show ?thesis by (auto simp: answer_def intro: store_call.intros)
  next
    case (CloneBranch ep st vst src leaf tgt)
    with assms(6) obtain x where e: "sqlite_clone_branch codec ep st vst src leaf tgt db = Some (Inr x, db')" "a = AnswerLeaf x"
      by (auto simp: answer_Inr)
    from assms(5) CloneBranch clone [OF _ e(1)] obtain s' where
      "clone_branch (sq_show_uuid codec) ep st vst src leaf tgt s = Some (Inr x, s')" "represents codec db' s'"
      "fresh_clone s st src leaf" by auto
    with e(2) CloneBranch show ?thesis by (auto simp: answer_def intro: store_call.intros)
  next
    case (ForkByReference src tgt base)
    with assms(6) obtain u where e: "sqlite_fork_by_reference codec src tgt base db = Some (Inr u, db')" "a = AnswerUnit"
      by (auto simp: answer_Inr)
    from fork_simulated [OF assms(1,2,4) e(1)] obtain s' where
      "fork_by_reference (sq_show_uuid codec) src tgt base s = Some (Inr (), s')" "represents codec db' s'" by auto
    with e(2) ForkByReference show ?thesis by (auto simp: answer_def intro: store_call.intros)
  qed
  then show ?thesis using later_call by blast
qed

text \<open>No request runs forever: the walks along parents end because the stored forest is well founded.\<close>

lemma request_returns:
  assumes "uuid_text_ok codec" "represents codec db s" "session_ok s"
  shows "\<exists>r db'. serve_sqlite codec req db = Some (r, db')"
proof -
  from assms(2) obtain es where en: "entries_match codec es db s" and l: "leaves_match codec db s"
    and b: "bases_match codec db s" by (auto simp: represents_def)
  have en0: "entries_match codec es (snd (delete_base_row t db)) s" for t
    using en by (simp add: entries_match_def delete_base_row_def)
  have "\<exists>p. stored_branch_path s c k = Some p" for c k
  proof -
    have "entries_ok (entries_of s (tc_thread_id c))" using assms(3) by (simp add: session_ok_def forest_entries_ok)
    then show ?thesis by (cases rule: branch_path_cases [of _ k c]) (auto simp: stored_branch_path_eq)
  qed
  note path = this
  have "\<exists>p. build_in_memory_context (sq_show_uuid codec) s c k False {} = Some p" for c k
    using build_in_memory_context_total [of s "sq_show_uuid codec" c k False "{}"] assms(3)
    by (auto simp: session_ok_def)
  note ctx = this
  show ?thesis
  proof (cases req)
    case (SelectBranch ep vst c leaf)
    have "sqlite_select_branch codec ep vst c leaf db \<noteq> None"
      using path [of c "the leaf"]
      by (auto simp: sqlite_select_branch_def branch_path_eq [OF assms(1) en] split: sum.splits option.splits)
    with SelectBranch show ?thesis by (auto simp: answer_def)
  next
    case (CloneBranch ep st vst src leaf tgt)
    have "sqlite_clone_branch codec ep st vst src leaf tgt db \<noteq> None"
      using path [of src "the leaf"]
      by (auto simp: sqlite_clone_branch_def Let_def branch_path_eq [OF assms(1) en0] split: sum.splits option.splits)
    with CloneBranch show ?thesis by (auto simp: answer_def)
  next
    case (ForkByReference src tgt base)
    have "sqlite_fork_by_reference codec src tgt base db \<noteq> None"
      using ctx [of src "tb_parent_leaf_entry_id base"]
      by (auto simp: sqlite_fork_by_reference_def build_context_eq [OF assms(1) en l b assms(3)]
          and_then_opt_def split: sum.splits option.splits)
    with ForkByReference show ?thesis by (auto simp: answer_def)
  qed (simp_all add: answer_def)
qed

end
