(* ===== verification/Sqlite_Properties.thy ===== *)
theory Sqlite_Properties
  imports Sqlite_Calls
begin

section \<open>What the SQLite store guarantees\<close>

text \<open>
  Every database that requests produce from an empty one stands for a reachable state of the in-memory
  store, answers as that state does and reads as it reads.  Appends are accepted in the same cases,
  except that the lease epoch has to fit a signed column.
\<close>

inductive sqlite_reachable :: "sqlite_codec \<Rightarrow> database \<Rightarrow> bool" for codec where
  opened: "sqlite_reachable codec sqlite_new"
| served: "sqlite_reachable codec db \<Longrightarrow> request_text_ok codec req db \<Longrightarrow>
    serve_sqlite codec req db = Some (r, db') \<Longrightarrow> sqlite_reachable codec db'"

lemma reachable_represents:
  assumes "uuid_text_ok codec" "sqlite_reachable codec db"
  shows "\<exists>s. reachable (sq_show_uuid codec) s \<and> represents codec db s"
  using assms(2)
proof (induction rule: sqlite_reachable.induct)
  case opened
  show ?case using represents_new new_reachable by blast
next
  case (served db req r db')
  then obtain s where s: "reachable (sq_show_uuid codec) s" "represents codec db s" by blast
  show ?case
  proof (cases r)
    case (Inl e)
    with served have "db' = db" using failed_request_changes_nothing by blast
    with s show ?thesis by blast
  next
    case (Inr a)
    with served have "serve_sqlite codec req db = Some (Inr a, db')" by simp
    from request_simulated [OF assms(1) s(2) _ _ served.hyps(2) this] reachable_ok [OF s(1)]
    obtain s' where "represents codec db' s'" "later (sq_show_uuid codec) s s'" by blast
    with later_reachable [OF s(1)] show ?thesis by blast
  qed
qed

subsection \<open>Reading\<close>

lemma event_row_columns [simp]:
  "er_sequence (event_row_of codec e) = sequence_get (ev_sequence e)"
  "er_stream_id (event_row_of codec e) = stream_id_str (ev_stream_id e)"
  "er_event_id (event_row_of codec e) = show_event_id (sq_show_uuid codec) (ev_id e)"
  by (simp_all add: event_row_of_def)

lemma collect_read_back:
  "\<forall>e \<in> set es. reads_back codec e \<Longrightarrow> collect_results (sqlite_event_from_row codec) (map (event_row_of codec) es) = Inr es"
  by (simp add: collect_results_ok list_all2_conv_all_nth reads_back_def)

lemma stream_rows_sorted:
  assumes "contiguous_from i 1 es"
  shows "sorted (map er_sequence (map (event_row_of codec) (filter P es)))"
proof -
  have "sorted (map (\<lambda>e. sequence_get (ev_sequence e)) es)"
    using assms by (auto simp: sorted_iff_nth_mono contiguous_from_def)
  then have "sorted (map (\<lambda>e. sequence_get (ev_sequence e)) (filter P es))" by (rule sorted_filter)
  then show ?thesis by (simp add: comp_def)
qed

lemma read_events_eq:
  assumes "represents codec db s"
  shows "sqlite_read_events codec i q db = read_events i q s"
proof -
  from assms obtain js where js: "rows_ok codec js db" "stream_of i js = stream_events s i"
    by (auto simp: represents_def journal_matches_def)
  let ?P = "\<lambda>e. case q of Some q \<Rightarrow> sequence_get q \<le> sequence_get (ev_sequence e) | None \<Rightarrow> True"
  have "filter (\<lambda>row. er_stream_id row = stream_id_str i \<and>
      (case q of Some q \<Rightarrow> sequence_get q \<le> er_sequence row | None \<Rightarrow> True)) (db_event_records db) =
      map (event_row_of codec) (filter ?P (stream_of i js))"
    using js(1) by (cases q) (simp_all add: rows_ok_def stream_of_def filter_map comp_def conj_commute)
  moreover have "sort_key er_sequence (map (event_row_of codec) (filter ?P (stream_of i js))) =
      map (event_row_of codec) (filter ?P (stream_of i js))"
    using js(1) by (intro sort_key_id_if_sorted stream_rows_sorted [of i]) (simp add: rows_ok_def)
  moreover have "\<forall>e \<in> set (filter ?P (stream_of i js)). reads_back codec e"
    using js(1) by (auto simp: rows_ok_def stream_of_def)
  ultimately show ?thesis
    using js(2) by (simp add: sqlite_read_events_def read_events_def collect_read_back)
qed

subsection \<open>Accepting\<close>

lemma enforce_accepts:
  assumes "epochs_match db s" "check_in_memory_lease_epoch s i ep = Inr ()" "uint ep < 2 ^ 63"
  shows "\<exists>m. sqlite_enforce_lease_epoch i ep db = (Inr (), db\<lparr>db_journal_lease_epochs := m\<rparr>)"
proof -
  have same: "\<exists>m. db = db\<lparr>db_journal_lease_epochs := m\<rparr>" by (rule exI [of _ "db_journal_lease_epochs db"]) simp
  have get: "hm_get (db_journal_lease_epochs db) (stream_id_str i) = map_option uint (hm_get (si_lease_epoch_minimums s) i)"
    using assms(1) by (simp add: epochs_match_def)
  show ?thesis
  proof (cases "hm_get (si_lease_epoch_minimums s) i")
    case None
    with get assms(3) same show ?thesis
      by (auto simp: sqlite_enforce_lease_epoch_def raise_sqlite_lease_epoch_def)
  next
    case (Some m)
    with assms(2) have "\<not> ep < m" by (simp add: check_in_memory_lease_epoch_def split: if_splits)
    with Some get assms(3) same show ?thesis
      by (auto simp: sqlite_enforce_lease_epoch_def raise_sqlite_lease_epoch_def)
  qed
qed

lemma insert_event_accepts:
  assumes "uuid_text_ok codec" "rows_ok codec js db" "validate_new_event r = Inr ()" "storable r"
    and "ne_id r \<notin> ev_id ` set js"
  shows "\<exists>e db'. sqlite_insert_event codec i r db = (Inr e, db')"
proof -
  let ?e = "event_from_new i (EventSequence (sqlite_next_event_sequence i db)) r"
  have rows: "db_event_records db = map (event_row_of codec) js" using assms(2) by (simp add: rows_ok_def)
  have id: "er_event_id row \<noteq> show_event_id (sq_show_uuid codec) (ne_id r)" if "row \<in> set (db_event_records db)" for row
    using that assms(5) unfolding rows by (auto simp: show_ids_inj [OF assms(1)] image_iff)
  have "er_sequence row < sqlite_next_event_sequence i db"
    if "row \<in> set (db_event_records db)" "er_stream_id row = stream_id_str i" for row
  proof -
    from that obtain e where e: "e \<in> set (stream_of i js)" "row = event_row_of codec e"
      unfolding rows by (auto simp: stream_of_def)
    then obtain k where "k < length (stream_of i js)" "e = stream_of i js ! k" by (auto simp: in_set_conv_nth)
    moreover have "contiguous_from i 1 (stream_of i js)" using assms(2) by (simp add: rows_ok_def)
    ultimately show ?thesis
      by (simp add: next_sequence [OF assms(2)] e(2) contiguous_from_def)
  qed
  then have "\<not> (\<exists>other \<in> set (db_event_records db). er_event_id other = er_event_id (event_row_of codec ?e) \<or>
      er_stream_id other = er_stream_id (event_row_of codec ?e) \<and> er_sequence other = er_sequence (event_row_of codec ?e))"
    using id by (fastforce simp: event_from_new_def)
  moreover have "validate_stream_record_v1 (sq_show_uuid codec) ?e = Inr ()"
    using assms(4) by (simp add: validate_stream_record_iff storable_def event_from_new_def)
  ultimately show ?thesis
    using assms(3) id by (auto simp: sqlite_insert_event_def Let_def tx_then_def insert_event_row_def)
qed

lemma insert_events_accept:
  assumes "uuid_text_ok codec" "rows_ok codec js db" "\<forall>r \<in> set rs. event_text_ok codec r"
    and "\<forall>r \<in> set rs. validate_new_event r = Inr () \<and> storable r" "distinct (map ne_id rs)"
    and "ne_id ` set rs \<inter> ev_id ` set js = {}"
  shows "\<exists>es db'. tx_each (sqlite_insert_event codec i) rs db = (Inr es, db')"
  using assms(2-6)
proof (induction rs arbitrary: js db)
  case (Cons r rs)
  have "\<exists>e db'. sqlite_insert_event codec i r db = (Inr e, db')"
    by (rule insert_event_accepts [OF assms(1) Cons.prems(1)]) (use Cons.prems in auto)
  then obtain e db1 where e: "sqlite_insert_event codec i r db = (Inr e, db1)" by blast
  then have one: "tx_each (sqlite_insert_event codec i) [r] db = (Inr [e], db1)" by (simp add: tx_then_def)
  have "\<forall>r \<in> set [r]. event_text_ok codec r" using Cons.prems(2) by simp
  from insert_events_ok [OF assms(1) Cons.prems(1) this one]
  have rows: "rows_ok codec (js @ [e]) db1" and "[e] = numbered i (int (length (stream_of i js))) [r]" by blast+
  then have "ev_id e = ne_id r" by (simp add: numbered_def event_from_new_def)
  then have "\<exists>es db'. tx_each (sqlite_insert_event codec i) rs db1 = (Inr es, db')"
    by (intro Cons.IH [OF rows]) (use Cons.prems in auto)
  with e show ?case by (auto simp: tx_then_def)
qed simp

lemma append_accepts:
  assumes "uuid_text_ok codec" "represents codec db s" "journal_ok s" "\<forall>r \<in> set rs. event_text_ok codec r"
    and "uint ep < 2 ^ 63" "append_events (sq_show_uuid codec) ep i rs s = (Inr es, s')"
  shows "\<exists>fs db'. sqlite_append_events codec ep i rs db = (Inr fs, db')"
proof -
  from assms(2) obtain js where j: "journal_matches codec js db s" by (auto simp: represents_def)
  from assms(6) have lease: "check_in_memory_lease_epoch s i ep = Inr ()" and batch: "admissible_batch s rs"
    by (simp_all add: append_events_ok)
  from enforce_accepts [OF _ lease assms(5), of db] j obtain m where
    m: "sqlite_enforce_lease_epoch i ep db = (Inr (), db\<lparr>db_journal_lease_epochs := m\<rparr>)"
    by (auto simp: journal_matches_def)
  have ids: "si_event_ids s = ev_id ` set js"
    using j by (intro event_ids_of_journal [OF assms(3)]) (simp add: journal_matches_def)
  have "rows_ok codec js (db\<lparr>db_journal_lease_epochs := m\<rparr>)"
    using j rows_ok_cong [of "db\<lparr>db_journal_lease_epochs := m\<rparr>" db] by (simp add: journal_matches_def)
  from insert_events_accept [OF assms(1) this assms(4), of i] batch ids obtain fs db' where
    "tx_each (sqlite_insert_event codec i) rs (db\<lparr>db_journal_lease_epochs := m\<rparr>) = (Inr fs, db')"
    by (auto simp: admissible_batch_def)
  with m show ?thesis by (auto simp: sqlite_append_events_def in_transaction_ok tx_then_ok)
qed

subsection \<open>Properties\<close>

definition sample_columns :: sqlite_codec where
  "sample_columns =
     \<lparr>sq_show_uuid = show_hyphenated, sq_parse_uuid = parse_hyphenated,
      sq_payload_text = (\<lambda>_. ''{}''), sq_parse_payload = (\<lambda>_. Inr (JObject [])),
      sq_provenance_text = (\<lambda>_. ''p''), sq_parse_provenance = (\<lambda>_. Inr (ne_provenance (sample_record 1))),
      sq_entry_text = (\<lambda>_. []), sq_parse_entry = (\<lambda>_. Inl [])\<rparr>"

lemma sample_columns_ok: "uuid_text_ok sample_columns" "event_text_ok sample_columns (sample_record u)"
  by (simp_all add: uuid_text_ok_def sample_columns_def hyphenated.uuid_codec_axioms event_text_ok_def
      sample_record_def event_witnessed_def)

definition sample_request :: store_request where
  "sample_request = AppendEvents 3 (EventStreamId ''thread:7'') [sample_record 1, sample_record 2]"

lemma sample_request_ok: "request_text_ok sample_columns sample_request db"
  by (simp add: sample_request_def sample_columns_ok)

lemma sample_served:
  "\<exists>db s. serve_sqlite sample_columns sample_request sqlite_new =
      Some (Inr (AnswerEvents (numbered (EventStreamId ''thread:7'') 0 [sample_record 1, sample_record 2])), db) \<and>
    represents sample_columns db s \<and> reachable (sq_show_uuid sample_columns) s \<and>
    stream_events s (EventStreamId ''thread:7'') =
      numbered (EventStreamId ''thread:7'') 0 [sample_record 1, sample_record 2]"
proof -
  let ?i = "EventStreamId ''thread:7''" and ?rs = "[sample_record 1, sample_record 2]"
  have texts: "\<forall>r \<in> set ?rs. event_text_ok sample_columns r" by (simp add: sample_columns_ok)
  have mem: "append_events (sq_show_uuid sample_columns) 3 ?i ?rs store_new =
      (Inr (numbered ?i 0 ?rs), with_events ?i 3 ?rs store_new)"
    using sample_admissible by (simp add: append_events_ok check_in_memory_lease_epoch_def store_new_def)
  from append_accepts [OF sample_columns_ok(1) represents_new journal_ok_new texts _ mem] obtain fs db where
    db: "sqlite_append_events sample_columns 3 ?i ?rs sqlite_new = (Inr fs, db)" by auto
  from append_events_simulated [OF sample_columns_ok(1) represents_new journal_ok_new texts db] mem
  have fs: "fs = numbered ?i 0 ?rs" "represents sample_columns db (with_events ?i 3 ?rs store_new)" by auto
  moreover have "reachable (sq_show_uuid sample_columns) (with_events ?i 3 ?rs store_new)"
    by (rule call_reachable [OF new_reachable store_call.call_append_events [OF mem]])
  moreover have "stream_events (with_events ?i 3 ?rs store_new) ?i = numbered ?i 0 ?rs"
    by (simp add: with_events_def store_new_def)
  ultimately show ?thesis using db by (auto simp: sample_request_def answer_def)
qed

text \<open>
  C4. The SQLite store implements the in-memory store.  Every database that requests produce from an empty
  one stands for a reachable in-memory state; on it every request returns; one that succeeds is
  the same request on that state, with the same answer, and leads to a database that stands for the new
  state; one that fails leaves the database as it was.  The assumptions are that the texts the columns
  hold for identifiers, and for the records a request writes, read back as what was written.
\<close>

theorem sqlite_implements_memory:
  assumes "uuid_text_ok codec" "sqlite_reachable codec db"
  shows "\<exists>s. reachable (sq_show_uuid codec) s \<and> represents codec db s \<and>
    (\<forall>req. request_text_ok codec req db \<longrightarrow> (\<exists>r db'. serve_sqlite codec req db = Some (r, db') \<and>
       (case r of
          Inl e \<Rightarrow> db' = db
        | Inr a \<Rightarrow> (\<exists>s'. serve_in_memory (sq_show_uuid codec) req s = Some (Inr a, s') \<and>
            later (sq_show_uuid codec) s s' \<and> represents codec db' s'))))"
proof -
  from reachable_represents [OF assms] obtain s where
    s: "reachable (sq_show_uuid codec) s" "represents codec db s" by blast
  from reachable_ok [OF s(1)] have ok: "journal_ok s" "session_ok s" by simp_all
  have "\<exists>r db'. serve_sqlite codec req db = Some (r, db') \<and>
       (case r of
          Inl e \<Rightarrow> db' = db
        | Inr a \<Rightarrow> (\<exists>s'. serve_in_memory (sq_show_uuid codec) req s = Some (Inr a, s') \<and>
            later (sq_show_uuid codec) s s' \<and> represents codec db' s'))"
    if readable: "request_text_ok codec req db" for req
  proof -
    from request_returns [OF assms(1) s(2) ok(2)] obtain r db' where r: "serve_sqlite codec req db = Some (r, db')"
      by blast
    have "case r of Inl e \<Rightarrow> db' = db
        | Inr a \<Rightarrow> (\<exists>s'. serve_in_memory (sq_show_uuid codec) req s = Some (Inr a, s') \<and>
            later (sq_show_uuid codec) s s' \<and> represents codec db' s')"
    proof (cases r)
      case (Inl e)
      with r show ?thesis by (simp add: failed_request_changes_nothing)
    next
      case (Inr a)
      with r request_simulated [OF assms(1) s(2) ok readable, of a db'] show ?thesis by auto
    qed
    with r show ?thesis by blast
  qed
  with s show ?thesis by blast
qed

theorem sqlite_implements_memory_witness:
  "\<exists>s s'. reachable show_hyphenated s \<and> represents sample_columns sqlite_new s \<and>
     serve_in_memory show_hyphenated sample_request s =
       Some (Inr (AnswerEvents (numbered (EventStreamId ''thread:7'') 0 [sample_record 1, sample_record 2])), s')"
proof -
  let ?a = "AnswerEvents (numbered (EventStreamId ''thread:7'') 0 [sample_record 1, sample_record 2])"
  have sh: "sq_show_uuid sample_columns = show_hyphenated" by (simp add: sample_columns_def)
  from sample_served obtain db where ok: "serve_sqlite sample_columns sample_request sqlite_new = Some (Inr ?a, db)" by blast
  from sqlite_implements_memory [OF sample_columns_ok(1) sqlite_reachable.opened] obtain s where
    s: "reachable show_hyphenated s" "represents sample_columns sqlite_new s" and
    serves: "request_text_ok sample_columns sample_request sqlite_new \<longrightarrow>
      (\<exists>r db'. serve_sqlite sample_columns sample_request sqlite_new = Some (r, db') \<and>
        (case r of Inl e \<Rightarrow> db' = sqlite_new
         | Inr a \<Rightarrow> \<exists>s'. serve_in_memory show_hyphenated sample_request s = Some (Inr a, s') \<and>
             later show_hyphenated s s' \<and> represents sample_columns db' s'))"
    unfolding sh by blast
  from serves [THEN mp, OF sample_request_ok] ok have
    "\<exists>s'. serve_in_memory show_hyphenated sample_request s = Some (Inr ?a, s')" by auto
  with s show ?thesis by blast
qed

text \<open>
  C5. A database reads as the state it stands for: the events of a stream, from any sequence number on,
  in the order of the stream; and the context of a thread, errors included.
\<close>

theorem sqlite_reads_as_memory:
  assumes "uuid_text_ok codec" "reachable (sq_show_uuid codec) s" "represents codec db s"
  shows "sqlite_read_events codec i q db = read_events i q s \<and>
    sqlite_context codec c db = build_context (sq_show_uuid codec) c s"
proof -
  from assms(3) obtain es where "entries_match codec es db s" "leaves_match codec db s" "bases_match codec db s"
    by (auto simp: represents_def)
  from build_context_eq [OF assms(1) this] reachable_ok [OF assms(2)]
  show ?thesis
    by (simp add: read_events_eq [OF assms(3)] sqlite_context_def build_context_def)
qed

theorem sqlite_reads_as_memory_witness:
  "\<exists>db. serve_sqlite sample_columns sample_request sqlite_new =
       Some (Inr (AnswerEvents (numbered (EventStreamId ''thread:7'') 0 [sample_record 1, sample_record 2])), db) \<and>
     sqlite_read_events sample_columns (EventStreamId ''thread:7'') None db =
       Inr (numbered (EventStreamId ''thread:7'') 0 [sample_record 1, sample_record 2])"
proof -
  from sample_served obtain db s where db: "serve_sqlite sample_columns sample_request sqlite_new =
      Some (Inr (AnswerEvents (numbered (EventStreamId ''thread:7'') 0 [sample_record 1, sample_record 2])), db)"
    and s: "represents sample_columns db s" "reachable (sq_show_uuid sample_columns) s"
    and events: "stream_events s (EventStreamId ''thread:7'') =
      numbered (EventStreamId ''thread:7'') 0 [sample_record 1, sample_record 2]" by blast
  from sqlite_reads_as_memory [OF sample_columns_ok(1) s(2,1), of "EventStreamId ''thread:7''" None] events db
  show ?thesis by (auto simp: read_events_def)
qed

text \<open>
  C6. For a lease epoch that fits the signed 64-bit column, a batch of events is accepted by the SQLite store
  exactly when the in-memory store accepts it, and its events get the same numbers.
\<close>

theorem sqlite_accepts_as_memory:
  assumes "uuid_text_ok codec" "reachable (sq_show_uuid codec) s" "represents codec db s"
    and "\<forall>r \<in> set rs. event_text_ok codec r" "uint ep < 2 ^ 63"
  shows "(\<exists>db'. sqlite_append_events codec ep i rs db = (Inr es, db')) \<longleftrightarrow>
    (\<exists>s'. append_events (sq_show_uuid codec) ep i rs s = (Inr es, s'))"
proof -
  from reachable_ok [OF assms(2)] have ok: "journal_ok s" by simp
  note sim = append_events_simulated [OF assms(1,3) ok assms(4)]
  show ?thesis
  proof
    assume "\<exists>s'. append_events (sq_show_uuid codec) ep i rs s = (Inr es, s')"
    then obtain s' where s': "append_events (sq_show_uuid codec) ep i rs s = (Inr es, s')" by blast
    from append_accepts [OF assms(1,3) ok assms(4,5) s'] obtain fs db' where
      db': "sqlite_append_events codec ep i rs db = (Inr fs, db')" by blast
    from sim [OF db'] s' have "fs = es" by auto
    with db' show "\<exists>db'. sqlite_append_events codec ep i rs db = (Inr es, db')" by blast
  qed (use sim in blast)
qed

theorem sqlite_accepts_as_memory_witness:
  "\<exists>db'. sqlite_append_events sample_columns 3 (EventStreamId ''thread:7'') [sample_record 1, sample_record 2]
     sqlite_new = (Inr (numbered (EventStreamId ''thread:7'') 0 [sample_record 1, sample_record 2]), db')"
proof -
  have "\<forall>r \<in> set [sample_record 1, sample_record 2]. event_text_ok sample_columns r" by (simp add: sample_columns_ok)
  from sqlite_accepts_as_memory [OF sample_columns_ok(1) new_reachable represents_new this, of 3 "EventStreamId ''thread:7''"]
  show ?thesis
    using sample_admissible by (simp add: append_events_ok check_in_memory_lease_epoch_def store_new_def)
qed

end
