(* ===== verification/Io_Envelopes.thy ===== *)
theory Io_Envelopes
  imports Json_Value
begin

section \<open>Ingress envelopes\<close>

text \<open>
  \<^verbatim>\<open>src/crates/verlet-io-core/src/lib.rs\<close>: what an external event is turned into before it reaches a
  thread, the identity by which redelivery is judged, and the checks at the submit and admission boundaries.
  Optional metadata is an ordered map; the text of a JSON value is an argument (\<open>render\<close>).
\<close>

definition strip_prefix :: "string \<Rightarrow> string \<Rightarrow> string option" where
  "strip_prefix pre s = (if take (length pre) s = pre then Some (drop (length pre) s) else None)"

type_synonym metadata = "(string, string) btmap"

datatype io_error = InvalidEnvelope string | TenantMismatch string string

record io_source =
  is_protocol :: string
  is_instance_id :: string
  is_metadata :: metadata

definition stable_scope :: "io_source \<Rightarrow> string" where
  "stable_scope source = is_protocol source @ '':'' @ is_instance_id source"

datatype conversation_kind = DirectConversation | GroupConversation | ChannelConversation | ThreadConversation
  | SystemConversation

record io_conversation =
  ic_external_conversation_id :: string
  ic_kind :: conversation_kind
  ic_title :: "string option"
  ic_external_thread_id :: "string option"
  ic_metadata :: metadata

definition conversation_stable_key :: "io_conversation \<Rightarrow> string" where
  "conversation_stable_key c =
     (case ic_external_thread_id c of
        Some thread_id \<Rightarrow> ic_external_conversation_id c @ ''#'' @ thread_id
      | None \<Rightarrow> ic_external_conversation_id c)"

record io_actor =
  ia_external_actor_id :: string
  ia_display_name :: "string option"
  ia_is_bot :: bool
  ia_metadata :: metadata

record io_dedupe_key =
  dk_scope :: string
  dk_key :: string

definition dedupe_for_source :: "io_source \<Rightarrow> string \<Rightarrow> io_dedupe_key" where
  "dedupe_for_source source key = \<lparr>dk_scope = stable_scope source, dk_key = key\<rparr>"

definition dedupe_stable_key :: "io_dedupe_key \<Rightarrow> string" where
  "dedupe_stable_key k = dk_scope k @ '':'' @ dk_key k"

record io_delivery =
  dv_delivery_id :: string
  dv_attempt :: "u32 option"
  dv_metadata :: metadata

record io_principal =
  ip_tenant_id :: string
  ip_principal_id :: string
  ip_via :: string

datatype ingress_content =
  IngressText string
| IngressCommand string "string option"
| IngressEvent string json

fun text_projection :: "(json \<Rightarrow> string) \<Rightarrow> ingress_content \<Rightarrow> string" where
  "text_projection render (IngressText text) = text"
| "text_projection render (IngressCommand name args) =
     (case args of
        Some args \<Rightarrow> if args \<noteq> [] then ''/'' @ name @ '' '' @ args else ''/'' @ name
      | None \<Rightarrow> ''/'' @ name)"
| "text_projection render (IngressEvent kind payload) =
     (if payload = JNull then kind else kind @ '': '' @ render payload)"

record io_attachment =
  at_id :: string
  at_media_type :: string
  at_name :: "string option"
  at_uri :: "string option"
  at_size_bytes :: "u64 option"
  at_metadata :: metadata

record ingress_envelope =
  ie_id :: string
  ie_source :: io_source
  ie_conversation :: io_conversation
  ie_actor :: "io_actor option"
  ie_content :: ingress_content
  ie_attachments :: "io_attachment list"
  ie_dedupe_key :: "io_dedupe_key option"
  ie_delivery :: "io_delivery option"
  ie_principal :: "io_principal option"
  ie_received_at_ms :: u64
  ie_metadata :: metadata

record thread_address =
  ta_tenant_id :: string
  ta_user_id :: string
  ta_session_id :: string
  ta_thread_id :: "string option"

definition scope_key :: "thread_address \<Rightarrow> string" where
  "scope_key a = ta_tenant_id a @ '':'' @ ta_user_id a @ '':'' @ ta_session_id a"

record provider_policy =
  pp_provider :: string
  pp_model :: string
  pp_metadata :: metadata

record resolved_io_target =
  rt_address :: thread_address
  rt_create_thread_if_missing :: bool
  rt_parent_thread_id :: "string option"
  rt_provider_policy :: "provider_policy option"
  rt_metadata :: metadata

record io_turn_input =
  ti_text :: string
  ti_attachments :: "io_attachment list"
  ti_provider_policy :: "provider_policy option"
  ti_metadata :: metadata

definition turn_input_from_envelope ::
  "(json \<Rightarrow> string) \<Rightarrow> ingress_envelope \<Rightarrow> resolved_io_target \<Rightarrow> io_turn_input" where
  "turn_input_from_envelope render envelope target =
     \<lparr>ti_text = text_projection render (ie_content envelope), ti_attachments = ie_attachments envelope,
      ti_provider_policy = rt_provider_policy target, ti_metadata = ie_metadata envelope\<rparr>"

definition effective_dedupe_key :: "ingress_envelope \<Rightarrow> io_dedupe_key option" where
  "effective_dedupe_key envelope =
     (case ie_dedupe_key envelope of
        Some key \<Rightarrow> Some key
      | None \<Rightarrow> map_option (\<lambda>delivery. dedupe_for_source (ie_source envelope) (dv_delivery_id delivery))
          (ie_delivery envelope))"

definition require_witnessed :: "ingress_envelope \<Rightarrow> io_error + unit" where
  "require_witnessed envelope =
     (case ie_delivery envelope of
        None \<Rightarrow> Inl (InvalidEnvelope ''delivery is required'')
      | Some delivery \<Rightarrow>
          if dv_delivery_id delivery = [] then Inl (InvalidEnvelope ''delivery.delivery_id cannot be empty'')
          else if effective_dedupe_key envelope = None
          then Inl (InvalidEnvelope ''effective dedupe key is required'')
          else Inr ())"

definition require_attributed :: "ingress_envelope \<Rightarrow> resolved_io_target \<Rightarrow> io_error + unit" where
  "require_attributed envelope target =
     and_then (require_witnessed envelope) (\<lambda>_.
     case ie_principal envelope of
       None \<Rightarrow> Inl (InvalidEnvelope ''principal is required'')
     | Some who \<Rightarrow>
         if ip_tenant_id who \<noteq> ta_tenant_id (rt_address target)
         then Inl (TenantMismatch (ip_tenant_id who) (ta_tenant_id (rt_address target)))
         else Inr ())"

record ingress_ack =
  ak_envelope_id :: string
  ak_dedupe_key :: "io_dedupe_key option"
  ak_accepted :: bool
  ak_reason :: "string option"

definition ingress_accepted :: "ingress_envelope \<Rightarrow> ingress_ack" where
  "ingress_accepted envelope =
     \<lparr>ak_envelope_id = ie_id envelope, ak_dedupe_key = effective_dedupe_key envelope, ak_accepted = True,
      ak_reason = None\<rparr>"

definition ingress_rejected :: "ingress_envelope \<Rightarrow> string \<Rightarrow> ingress_ack" where
  "ingress_rejected envelope reason =
     \<lparr>ak_envelope_id = ie_id envelope, ak_dedupe_key = effective_dedupe_key envelope, ak_accepted = False,
      ak_reason = Some reason\<rparr>"

lemma require_attributed_iff:
  "require_attributed envelope target = Inr () \<longleftrightarrow>
     (\<exists>d p. ie_delivery envelope = Some d \<and> dv_delivery_id d \<noteq> [] \<and> ie_principal envelope = Some p \<and>
        ip_tenant_id p = ta_tenant_id (rt_address target))"
  by (auto simp: require_attributed_def require_witnessed_def effective_dedupe_key_def and_then_eq_Inr
      split: option.splits if_splits)

end
