(* ===== verification/Stream_Leases.thy ===== *)
theory Stream_Leases
  imports Sqlite_Properties Control_Decision Io_Envelopes
begin

section \<open>Stream leases and write credentials\<close>

text \<open>
  \<^verbatim>\<open>src/crates/verlet-kernel/src/daemon/remote_store/lease.rs\<close>: the authority through which remote
  propagators write to the daemon's store.  Leases and credentials are rows next to the journal of the
  SQLite store, and every method is one transaction over all of them, so a method maps the
  authority's tables to a result and new tables; an error leaves them as they were.

  The clock, fresh UUIDs and their two text forms, and the digest of a token are arguments.
  Timestamps are 64-bit signed integers with the checked additions of the code.
\<close>

subsection \<open>Scopes and rows\<close>

datatype stream_lease_id = StreamLeaseId (lease_id_str: string)

datatype stream_prefix_scope = StreamPrefixScope (scope_str: string)

definition prefix_contains :: "string \<Rightarrow> string \<Rightarrow> bool" where
  "prefix_contains pre candidate \<longleftrightarrow> pre \<noteq> [] \<and>
     (case strip_prefix pre candidate of None \<Rightarrow> False
      | Some rest \<Rightarrow> rest = [] \<or> hd rest = CHR '':'')"

definition authorizes :: "stream_prefix_scope \<Rightarrow> event_stream_id \<Rightarrow> bool" where
  "authorizes lscope stream_id \<longleftrightarrow> scope_str lscope \<noteq> [] \<and>
     (case strip_prefix (scope_str lscope) (stream_id_str stream_id) of None \<Rightarrow> False
      | Some rest \<Rightarrow> rest = [] \<or> hd rest = CHR '':'')"

definition scopes_overlap :: "stream_prefix_scope \<Rightarrow> stream_prefix_scope \<Rightarrow> bool" where
  "scopes_overlap left right \<longleftrightarrow>
     prefix_contains (scope_str left) (scope_str right) \<or> prefix_contains (scope_str right) (scope_str left)"

record stream_lease_lineage =
  sl_superseded_lease_id :: "stream_lease_id option"

record stream_lease_grant =
  lg_schema :: string
  lg_lease_id :: stream_lease_id
  lg_scope :: stream_prefix_scope
  lg_holder_dispatch_id :: dispatch_id
  lg_lineage :: stream_lease_lineage
  lg_granted_at_ms :: i64
  lg_expires_at_ms :: i64

datatype lease_fence_decision = Current | Superseded | Expired | UnknownLease

fun permits_push :: "lease_fence_decision \<Rightarrow> bool" where
  "permits_push decision = (decision = Current)"

datatype lease_fenced_append_outcome =
  Appended stream_append_ack
| LeaseRejected lease_fence_decision
| AppendSequenceConflict event_sequence

record stream_write_credential =
  wc_schema :: string
  wc_credential_id :: string
  wc_scope :: stream_prefix_scope
  wc_lease_id :: stream_lease_id
  wc_minted_at_ms :: i64

record verified_push_identity =
  vi_credential_id :: string
  vi_scope :: stream_prefix_scope
  vi_lease_id :: stream_lease_id

record durable_lease =
  dl_lease_id :: stream_lease_id
  dl_scope :: stream_prefix_scope
  dl_scope_generation :: i64
  dl_holder_dispatch_id :: dispatch_id
  dl_predecessor_lease_id :: "stream_lease_id option"
  dl_granted_at_ms :: i64
  dl_expires_at_ms :: i64
  dl_released_at_ms :: "i64 option"

record credential_row =
  cr_credential_id :: string
  cr_token_digest :: string
  cr_scope :: stream_prefix_scope
  cr_lease_id :: stream_lease_id
  cr_minted_at_ms :: i64
  cr_revoked_at_ms :: "i64 option"

record lease_tables =
  lt_journal :: database
  lt_leases :: "durable_lease list"
  lt_credentials :: "credential_row list"

definition sync_stream_lease_schema :: string where
  "sync_stream_lease_schema = ''cooldis.stream.sync_lease/1''"

definition sync_stream_write_credential_schema :: string where
  "sync_stream_write_credential_schema = ''cooldis.stream.sync_write_credential/1''"

definition lease_grant :: "durable_lease \<Rightarrow> stream_lease_grant" where
  "lease_grant lease =
     \<lparr>lg_schema = sync_stream_lease_schema, lg_lease_id = dl_lease_id lease, lg_scope = dl_scope lease,
      lg_holder_dispatch_id = dl_holder_dispatch_id lease,
      lg_lineage = \<lparr>sl_superseded_lease_id = dl_predecessor_lease_id lease\<rparr>,
      lg_granted_at_ms = dl_granted_at_ms lease, lg_expires_at_ms = dl_expires_at_ms lease\<rparr>"

subsection \<open>Queries\<close>

definition lease_by_id :: "stream_lease_id \<Rightarrow> lease_tables \<Rightarrow> durable_lease option" where
  "lease_by_id lease_id t = find (\<lambda>lease. dl_lease_id lease = lease_id) (lt_leases t)"

text \<open>\<open>ORDER BY scope_generation DESC LIMIT 1\<close>\<close>

definition latest_lease_for_scope :: "stream_prefix_scope \<Rightarrow> lease_tables \<Rightarrow> durable_lease option" where
  "latest_lease_for_scope lscope t =
     (case sort_key (\<lambda>lease. - dl_scope_generation lease) (filter (\<lambda>lease. dl_scope lease = lscope) (lt_leases t)) of
        [] \<Rightarrow> None | lease # _ \<Rightarrow> Some lease)"

text \<open>The \<open>SELECT MAX(scope_generation)\<close> of a scope that has a lease\<close>

definition latest_generation :: "stream_prefix_scope \<Rightarrow> lease_tables \<Rightarrow> i64" where
  "latest_generation lscope t =
     Max (dl_scope_generation ` {lease \<in> set (lt_leases t). dl_scope lease = lscope})"

text \<open>The order by scope does not matter to the callers, which only search the list.\<close>

definition latest_unreleased_leases :: "lease_tables \<Rightarrow> durable_lease list" where
  "latest_unreleased_leases t =
     filter (\<lambda>lease. dl_released_at_ms lease = None \<and>
       dl_scope_generation lease = latest_generation (dl_scope lease) t) (lt_leases t)"

definition checked_add_i64 :: "i64 \<Rightarrow> i64 \<Rightarrow> i64 option" where
  "checked_add_i64 a b = (if - (2 ^ 63) \<le> a + b \<and> a + b < 2 ^ 63 then Some (a + b) else None)"

definition lease_expiry :: "i64 \<Rightarrow> i64 \<Rightarrow> i64 verlet_result" where
  "lease_expiry now_ms lease_ttl_ms =
     (case checked_add_i64 now_ms lease_ttl_ms of
        None \<Rightarrow> Inl (HistoryMessage ''lease expiry timestamp overflow'') | Some ms \<Rightarrow> Inr ms)"

definition next_generation :: "durable_lease option \<Rightarrow> i64 verlet_result" where
  "next_generation predecessor =
     (case predecessor of
        None \<Rightarrow> Inr 1
      | Some previous \<Rightarrow>
          (case checked_add_i64 (dl_scope_generation previous) 1 of
             None \<Rightarrow> Inl (HistoryMessage ''lease scope generation overflow'') | Some n \<Rightarrow> Inr n))"

definition revoke_credentials :: "(credential_row \<Rightarrow> bool) \<Rightarrow> i64 \<Rightarrow> credential_row list \<Rightarrow> credential_row list" where
  "revoke_credentials P now_ms rows =
     map (\<lambda>row. if P row \<and> cr_revoked_at_ms row = None then row\<lparr>cr_revoked_at_ms := Some now_ms\<rparr> else row) rows"

definition revoke_lease_credentials :: "stream_lease_id \<Rightarrow> i64 \<Rightarrow> lease_tables \<Rightarrow> lease_tables" where
  "revoke_lease_credentials lease_id now_ms t =
     t\<lparr>lt_credentials := revoke_credentials (\<lambda>row. cr_lease_id row = lease_id) now_ms (lt_credentials t)\<rparr>"

subsection \<open>Leases\<close>

text \<open>The \<open>INSERT\<close> under \<open>PRIMARY KEY(lease_id)\<close> and \<open>UNIQUE(scope, scope_generation)\<close>\<close>

definition insert_lease_row :: "durable_lease \<Rightarrow> lease_tables \<Rightarrow> unit verlet_result \<times> lease_tables" where
  "insert_lease_row lease t =
     (if \<exists>other \<in> set (lt_leases t). dl_lease_id other = dl_lease_id lease \<or>
           dl_scope other = dl_scope lease \<and> dl_scope_generation other = dl_scope_generation lease
      then (Inl (StoreError constraint_failed), t)
      else (Inr (), t\<lparr>lt_leases := lt_leases t @ [lease]\<rparr>))"

definition lineage_matches :: "durable_lease option \<Rightarrow> stream_lease_lineage \<Rightarrow> bool" where
  "lineage_matches predecessor lineage =
     (case (predecessor, sl_superseded_lease_id lineage) of
        (None, None) \<Rightarrow> True
      | (Some previous, Some named) \<Rightarrow> dl_lease_id previous = named
      | _ \<Rightarrow> False)"

definition grant_lease ::
  "(uuid \<Rightarrow> string) \<Rightarrow> i64 \<Rightarrow> i64 \<Rightarrow> uuid \<Rightarrow> stream_prefix_scope \<Rightarrow> dispatch_id \<Rightarrow> stream_lease_lineage \<Rightarrow>
   lease_tables \<Rightarrow> stream_lease_grant verlet_result \<times> lease_tables" where
  "grant_lease show_uuid lease_ttl_ms now_ms fresh lscope holder_dispatch_id lineage t =
     (if scope_str lscope = [] then (Inl (HistoryMessage ''cannot grant an empty stream scope''), t)
      else
        or_return (lease_expiry now_ms lease_ttl_ms) t (\<lambda>expires_at_ms.
        let predecessor = latest_lease_for_scope lscope t in
        if \<not> lineage_matches predecessor lineage
        then (Inl (HistoryMessage ''lease lineage does not name the immediately preceding grant''), t)
        else if \<exists>live \<in> set (latest_unreleased_leases t). dl_scope live \<noteq> lscope \<and> scopes_overlap (dl_scope live) lscope
        then (Inl (HistoryMessage ''stream lease scope overlaps a different live scope''), t)
        else
          or_return (next_generation predecessor) t (\<lambda>scope_generation.
          let lease = \<lparr>dl_lease_id = StreamLeaseId (''lease_'' @ show_uuid fresh), dl_scope = lscope,
                dl_scope_generation = scope_generation, dl_holder_dispatch_id = holder_dispatch_id,
                dl_predecessor_lease_id = sl_superseded_lease_id lineage, dl_granted_at_ms = now_ms,
                dl_expires_at_ms = expires_at_ms, dl_released_at_ms = None\<rparr> in
          case insert_lease_row lease t of
            (Inl e, _) \<Rightarrow> (Inl e, t)
          | (Inr _, inserted) \<Rightarrow>
              (Inr (lease_grant lease),
               case predecessor of None \<Rightarrow> inserted
               | Some previous \<Rightarrow> revoke_lease_credentials (dl_lease_id previous) now_ms inserted))))"

definition is_latest :: "stream_lease_id \<Rightarrow> durable_lease \<Rightarrow> lease_tables \<Rightarrow> bool" where
  "is_latest lease_id lease t \<longleftrightarrow>
     map_option dl_lease_id (latest_lease_for_scope (dl_scope lease) t) = Some lease_id"

definition update_lease :: "stream_lease_id \<Rightarrow> (durable_lease \<Rightarrow> durable_lease) \<Rightarrow> lease_tables \<Rightarrow> lease_tables" where
  "update_lease lease_id f t =
     t\<lparr>lt_leases := map (\<lambda>row. if dl_lease_id row = lease_id then f row else row) (lt_leases t)\<rparr>"

definition renew_lease ::
  "i64 \<Rightarrow> i64 \<Rightarrow> stream_lease_id \<Rightarrow> lease_tables \<Rightarrow> stream_lease_grant verlet_result \<times> lease_tables" where
  "renew_lease lease_ttl_ms now_ms lease_id t =
     (case lease_by_id lease_id t of
        None \<Rightarrow> (Inl (HistoryMessage ''cannot renew an unknown stream lease''), t)
      | Some lease \<Rightarrow>
          if dl_released_at_ms lease \<noteq> None \<or> \<not> is_latest lease_id lease t
          then (Inl (HistoryMessage ''cannot renew a superseded or released stream lease''), t)
          else
            or_return (lease_expiry now_ms lease_ttl_ms) t (\<lambda>expiry.
            let expires_at_ms = max expiry (dl_expires_at_ms lease) in
            (Inr (lease_grant (lease\<lparr>dl_expires_at_ms := expires_at_ms\<rparr>)),
             update_lease lease_id (\<lambda>row. row\<lparr>dl_expires_at_ms := expires_at_ms\<rparr>) t)))"

definition release_lease :: "i64 \<Rightarrow> stream_lease_id \<Rightarrow> lease_tables \<Rightarrow> unit verlet_result \<times> lease_tables" where
  "release_lease now_ms lease_id t =
     (case lease_by_id lease_id t of
        None \<Rightarrow> (Inr (), t)
      | Some lease \<Rightarrow>
          if dl_released_at_ms lease = None \<and> is_latest lease_id lease t
          then (Inr (), revoke_lease_credentials lease_id now_ms
                  (update_lease lease_id (\<lambda>row. row\<lparr>dl_released_at_ms := Some now_ms\<rparr>) t))
          else (Inr (), t))"

definition fence_decision ::
  "event_stream_id \<Rightarrow> stream_lease_id \<Rightarrow> i64 \<Rightarrow> lease_tables \<Rightarrow> lease_fence_decision" where
  "fence_decision stream_id presented now_ms t =
     (case lease_by_id presented t of
        None \<Rightarrow> UnknownLease
      | Some lease \<Rightarrow>
          if \<not> authorizes (dl_scope lease) stream_id then UnknownLease
          else if dl_released_at_ms lease \<noteq> None \<or> \<not> is_latest presented lease t then Superseded
          else
            (let covering = filter (\<lambda>candidate. authorizes (dl_scope candidate) stream_id)
                   (latest_unreleased_leases t) in
             if length covering \<noteq> 1 \<or> dl_lease_id (hd covering) \<noteq> presented then Superseded
             else if now_ms \<ge> dl_expires_at_ms lease then Expired
             else Current))"

definition check_fence ::
  "i64 \<Rightarrow> event_stream_id \<Rightarrow> stream_lease_id \<Rightarrow> lease_tables \<Rightarrow> lease_fence_decision verlet_result" where
  "check_fence now_ms stream_id presented t = Inr (fence_decision stream_id presented now_ms t)"

definition append_if_current ::
  "sqlite_codec \<Rightarrow> u64 \<Rightarrow> i64 \<Rightarrow> event_stream_id \<Rightarrow> stream_lease_id \<Rightarrow> event_sequence \<Rightarrow> new_event_record list \<Rightarrow>
   lease_tables \<Rightarrow> lease_fenced_append_outcome verlet_result \<times> lease_tables" where
  "append_if_current codec lease_epoch now_ms stream_id presented expected_next_sequence records t =
     (let decision = fence_decision stream_id presented now_ms t in
      if decision \<noteq> Current then (Inr (LeaseRejected decision), t)
      else
        (case append_events_fenced_in_transaction codec lease_epoch stream_id expected_next_sequence records
                (lt_journal t) of
           (Inl (AppendFenceConflict _ _ actual_next_sequence), _) \<Rightarrow>
             (Inr (AppendSequenceConflict (EventSequence actual_next_sequence)), t)
         | (Inl e, _) \<Rightarrow> (Inl (StoreError e), t)
         | (Inr appended, journal) \<Rightarrow>
             (case ack_from_appended stream_id appended [StreamCommitted, QueryProjected] of
                Inl e \<Rightarrow> (Inl (StoreError e), t)
              | Inr ack \<Rightarrow> (Inr (Appended ack), t\<lparr>lt_journal := journal\<rparr>))))"

subsection \<open>Credentials\<close>

text \<open>The \<open>INSERT\<close> under \<open>PRIMARY KEY(credential_id)\<close>, the unique digest and the reference of the lease\<close>

definition insert_credential_row :: "credential_row \<Rightarrow> lease_tables \<Rightarrow> unit verlet_result \<times> lease_tables" where
  "insert_credential_row row t =
     (if (\<exists>other \<in> set (lt_credentials t). cr_credential_id other = cr_credential_id row \<or>
            cr_token_digest other = cr_token_digest row) \<or> cr_lease_id row \<notin> dl_lease_id ` set (lt_leases t)
      then (Inl (StoreError constraint_failed), t)
      else (Inr (), t\<lparr>lt_credentials := lt_credentials t @ [row]\<rparr>))"

record token_lib =
  tk_show_uuid :: "uuid \<Rightarrow> string"
  tk_show_simple :: "uuid \<Rightarrow> string"
  tk_digest :: "string \<Rightarrow> string"

definition mint_token :: "token_lib \<Rightarrow> uuid \<times> uuid \<times> uuid \<Rightarrow> string" where
  "mint_token lib fresh =
     ''cooldis_sync_'' @ tk_show_simple lib (fst (snd fresh)) @ tk_show_simple lib (snd (snd fresh))"

definition mint_row :: "token_lib \<Rightarrow> i64 \<Rightarrow> uuid \<times> uuid \<times> uuid \<Rightarrow> stream_lease_grant \<Rightarrow> credential_row" where
  "mint_row lib now_ms fresh grant =
     \<lparr>cr_credential_id = ''credential_'' @ tk_show_uuid lib (fst fresh),
      cr_token_digest = tk_digest lib (mint_token lib fresh), cr_scope = lg_scope grant,
      cr_lease_id = lg_lease_id grant, cr_minted_at_ms = now_ms, cr_revoked_at_ms = None\<rparr>"

definition is_current_grant :: "stream_lease_grant \<Rightarrow> lease_tables \<Rightarrow> bool" where
  "is_current_grant grant t \<longleftrightarrow>
     \<not> (lg_schema grant \<noteq> sync_stream_lease_schema \<or>
        (case lease_by_id (lg_lease_id grant) t of None \<Rightarrow> True
         | Some lease \<Rightarrow> dl_released_at_ms lease \<noteq> None \<or> dl_scope lease \<noteq> lg_scope grant) \<or>
        map_option dl_lease_id (latest_lease_for_scope (lg_scope grant) t) \<noteq> Some (lg_lease_id grant))"

definition mint_credential ::
  "token_lib \<Rightarrow> i64 \<Rightarrow> uuid \<times> uuid \<times> uuid \<Rightarrow> stream_lease_grant \<Rightarrow> lease_tables \<Rightarrow>
   (stream_write_credential \<times> string) verlet_result \<times> lease_tables" where
  "mint_credential lib now_ms fresh grant t =
     (if \<not> is_current_grant grant t
      then (Inl (HistoryMessage ''cannot mint a credential for a non-current stream lease grant''), t)
      else
        let row = mint_row lib now_ms fresh grant in
        case insert_credential_row row t of
          (Inl e, _) \<Rightarrow> (Inl e, t)
        | (Inr _, t') \<Rightarrow>
            (Inr (\<lparr>wc_schema = sync_stream_write_credential_schema, wc_credential_id = cr_credential_id row,
                wc_scope = lg_scope grant, wc_lease_id = lg_lease_id grant, wc_minted_at_ms = now_ms\<rparr>,
              mint_token lib fresh), t'))"

definition verify_token ::
  "(string \<Rightarrow> string) \<Rightarrow> string \<Rightarrow> lease_tables \<Rightarrow> verified_push_identity option verlet_result" where
  "verify_token digest token t =
     Inr (map_option (\<lambda>row. \<lparr>vi_credential_id = cr_credential_id row, vi_scope = cr_scope row,
         vi_lease_id = cr_lease_id row\<rparr>)
       (find (\<lambda>row. cr_token_digest row = digest token \<and> cr_revoked_at_ms row = None \<and>
          (\<exists>lease \<in> set (lt_leases t). dl_lease_id lease = cr_lease_id row \<and> dl_scope lease = cr_scope row \<and>
             dl_released_at_ms lease = None \<and> dl_scope_generation lease = latest_generation (dl_scope lease) t))
          (lt_credentials t)))"

definition revoke_credential :: "i64 \<Rightarrow> string \<Rightarrow> lease_tables \<Rightarrow> unit verlet_result \<times> lease_tables" where
  "revoke_credential now_ms credential_id t =
     (Inr (), t\<lparr>lt_credentials :=
        revoke_credentials (\<lambda>row. cr_credential_id row = credential_id) now_ms (lt_credentials t)\<rparr>)"

definition lease_tables_new :: lease_tables where
  "lease_tables_new = \<lparr>lt_journal = sqlite_new, lt_leases = [], lt_credentials = []\<rparr>"

end
