(* ===== verification/Lease_Safety.thy ===== *)
theory Lease_Safety
  imports Stream_Leases
begin

section \<open>One live propagator per stream\<close>

text \<open>
  What the lease tables guarantee: at most one lease is live for a stream, a lease that was superseded
  or released never passes the fence again and no credential of it verifies, the holder of the latest lease
  can always come back by renewing, and an append through the authority is a fenced append of the journal.
\<close>

subsection \<open>Scopes\<close>

lemma strip_prefix_Some: "strip_prefix p s = Some r \<longleftrightarrow> s = p @ r"
proof
  assume "strip_prefix p s = Some r"
  then have "take (length p) s = p" "r = drop (length p) s" by (auto simp: strip_prefix_def split: if_splits)
  then show "s = p @ r" by (metis append_take_drop_id)
qed (simp add: strip_prefix_def)

definition at_boundary :: "string \<Rightarrow> bool" where
  "at_boundary r \<longleftrightarrow> r = [] \<or> hd r = CHR '':''"

lemma prefix_contains_iff: "prefix_contains p c \<longleftrightarrow> p \<noteq> [] \<and> (\<exists>r. c = p @ r \<and> at_boundary r)"
proof (cases "strip_prefix p c")
  case None
  then have "c \<noteq> p @ r" for r by (metis option.distinct(1) strip_prefix_Some)
  with None show ?thesis by (simp add: prefix_contains_def)
next
  case (Some r)
  then have "c = p @ r" by (simp add: strip_prefix_Some)
  with Some show ?thesis by (simp add: prefix_contains_def at_boundary_def)
qed

lemma authorizes_iff: "authorizes sc i \<longleftrightarrow> prefix_contains (scope_str sc) (stream_id_str i)"
  by (simp add: authorizes_def prefix_contains_def)

text \<open>Two scopes that authorize the same stream overlap, so that the check at grant time is enough.\<close>

lemma common_stream_overlaps:
  assumes "authorizes a i" "authorizes b i"
  shows "scopes_overlap a b"
proof -
  from assms obtain x y where a: "scope_str a \<noteq> []" "stream_id_str i = scope_str a @ x" "at_boundary x"
    and b: "scope_str b \<noteq> []" "stream_id_str i = scope_str b @ y" "at_boundary y"
    unfolding authorizes_iff prefix_contains_iff by blast
  have step: "prefix_contains p q" if "p @ u = q @ v" "at_boundary u" "length p \<le> length q" "p \<noteq> []" for p q u v
  proof -
    from that(1,3) obtain z where z: "q = p @ z" "u = z @ v" by (auto simp: append_eq_append_conv2)
    then have "at_boundary z" using that(2) by (cases z) (auto simp: at_boundary_def)
    with z(1) that(4) show ?thesis by (auto simp: prefix_contains_iff)
  qed
  have eq: "scope_str a @ x = scope_str b @ y" using a(2) b(2) by simp
  show ?thesis
  proof (cases "length (scope_str a) \<le> length (scope_str b)")
    case True
    from step [OF eq a(3) True a(1)] show ?thesis by (simp add: scopes_overlap_def)
  next
    case False
    then have "length (scope_str b) \<le> length (scope_str a)" by simp
    from step [OF eq [symmetric] b(3) this b(1)] show ?thesis by (simp add: scopes_overlap_def)
  qed
qed

lemma scopes_overlap_sym: "scopes_overlap a b = scopes_overlap b a"
  by (auto simp: scopes_overlap_def)

subsection \<open>The latest lease of a scope\<close>

lemma sort_key_hd:
  assumes "sort_key f xs = y # ys"
  shows "y \<in> set xs" and "\<forall>x \<in> set xs. f y \<le> f x"
proof -
  have set_eq: "set (sort_key f xs) = set xs" by simp
  then show "y \<in> set xs" using assms by (metis list.set_intros(1))
  have "sorted (map f (y # ys))" using assms by (metis sorted_sort_key)
  then show "\<forall>x \<in> set xs. f y \<le> f x" using assms set_eq by (metis list.map(2) set_ConsD sorted_simps(2) order_refl image_eqI list.set_map)
qed

definition generations_unique :: "lease_tables \<Rightarrow> bool" where
  "generations_unique t \<longleftrightarrow> (\<forall>l \<in> set (lt_leases t). \<forall>m \<in> set (lt_leases t).
     dl_scope l = dl_scope m \<longrightarrow> dl_scope_generation l = dl_scope_generation m \<longrightarrow> l = m)"

lemma latest_generation_ge:
  "l \<in> set (lt_leases t) \<Longrightarrow> dl_scope_generation l \<le> latest_generation (dl_scope l) t"
  unfolding latest_generation_def by (rule Max_ge) auto

lemma latest_generation_member:
  assumes "l \<in> set (lt_leases t)"
  obtains m where "m \<in> set (lt_leases t)" "dl_scope m = dl_scope l"
    "dl_scope_generation m = latest_generation (dl_scope l) t"
proof -
  have "latest_generation (dl_scope l) t \<in> dl_scope_generation ` {m \<in> set (lt_leases t). dl_scope m = dl_scope l}"
    unfolding latest_generation_def by (rule Max_in) (use assms in auto)
  then show thesis using that by auto
qed

lemma latest_lease_Some:
  assumes "generations_unique t"
  shows "latest_lease_for_scope sc t = Some l \<longleftrightarrow>
    l \<in> set (lt_leases t) \<and> dl_scope l = sc \<and> dl_scope_generation l = latest_generation sc t"
proof (cases "sort_key (\<lambda>l. - dl_scope_generation l) (filter (\<lambda>l. dl_scope l = sc) (lt_leases t))")
  case Nil
  then have "filter (\<lambda>l. dl_scope l = sc) (lt_leases t) = []" by (metis length_0_conv length_sort)
  with Nil show ?thesis by (auto simp: latest_lease_for_scope_def filter_empty_conv)
next
  case (Cons m ms)
  from sort_key_hd [OF Cons] have m: "m \<in> set (lt_leases t)" "dl_scope m = sc"
    "\<forall>x \<in> set (lt_leases t). dl_scope x = sc \<longrightarrow> dl_scope_generation x \<le> dl_scope_generation m" by auto
  have "dl_scope_generation m = latest_generation sc t"
    using m latest_generation_member [OF m(1)] latest_generation_ge [OF m(1)] by (metis order_antisym)
  with Cons m(1,2) assms show ?thesis
    by (auto simp: latest_lease_for_scope_def generations_unique_def)
qed

lemma latest_lease_None:
  "latest_lease_for_scope sc t = None \<longleftrightarrow> (\<forall>l \<in> set (lt_leases t). dl_scope l \<noteq> sc)"
proof -
  have "sort_key (\<lambda>l. - dl_scope_generation l) (filter (\<lambda>l. dl_scope l = sc) (lt_leases t)) = [] \<longleftrightarrow>
      filter (\<lambda>l. dl_scope l = sc) (lt_leases t) = []" by (metis length_0_conv length_sort)
  then show ?thesis
    by (cases "sort_key (\<lambda>l. - dl_scope_generation l) (filter (\<lambda>l. dl_scope l = sc) (lt_leases t))")
      (auto simp: latest_lease_for_scope_def filter_empty_conv)
qed

lemma lease_by_id_Some:
  "distinct (map dl_lease_id (lt_leases t)) \<Longrightarrow>
   lease_by_id i t = Some l \<longleftrightarrow> l \<in> set (lt_leases t) \<and> dl_lease_id l = i"
proof
  assume d: "distinct (map dl_lease_id (lt_leases t))" and l: "l \<in> set (lt_leases t) \<and> dl_lease_id l = i"
  then obtain m where m: "lease_by_id i t = Some m"
    by (cases "lease_by_id i t") (auto simp: lease_by_id_def find_None_iff)
  then have "m \<in> set (lt_leases t)" "dl_lease_id m = i" by (auto simp: lease_by_id_def find_Some_iff)
  with d l have "m = l" by (auto simp: distinct_map dest: inj_onD)
  with m show "lease_by_id i t = Some l" by simp
qed (auto simp: lease_by_id_def find_Some_iff)

subsection \<open>The invariant\<close>

definition live_scopes_apart :: "lease_tables \<Rightarrow> bool" where
  "live_scopes_apart t \<longleftrightarrow>
     (\<forall>l \<in> set (latest_unreleased_leases t). \<forall>m \<in> set (latest_unreleased_leases t).
        dl_scope l \<noteq> dl_scope m \<longrightarrow> \<not> scopes_overlap (dl_scope l) (dl_scope m))"

definition credentials_ok :: "lease_tables \<Rightarrow> bool" where
  "credentials_ok t \<longleftrightarrow> distinct (map cr_token_digest (lt_credentials t)) \<and>
     (\<forall>row \<in> set (lt_credentials t). cr_revoked_at_ms row = None \<longrightarrow>
        (\<exists>l \<in> set (latest_unreleased_leases t). dl_lease_id l = cr_lease_id row \<and> dl_scope l = cr_scope row))"

definition leases_ok :: "lease_tables \<Rightarrow> bool" where
  "leases_ok t \<longleftrightarrow> distinct (map dl_lease_id (lt_leases t)) \<and> generations_unique t \<and> live_scopes_apart t \<and>
     credentials_ok t"

lemma leases_ok_new: "leases_ok lease_tables_new"
  by (simp add: leases_ok_def generations_unique_def live_scopes_apart_def credentials_ok_def lease_tables_new_def
      latest_unreleased_leases_def)

lemma live_iff:
  "l \<in> set (latest_unreleased_leases t) \<longleftrightarrow> l \<in> set (lt_leases t) \<and> dl_released_at_ms l = None \<and>
     dl_scope_generation l = latest_generation (dl_scope l) t"
  by (auto simp: latest_unreleased_leases_def)

lemma is_latest_iff:
  assumes "leases_ok t" "lease_by_id i t = Some l"
  shows "is_latest i l t \<longleftrightarrow> dl_scope_generation l = latest_generation (dl_scope l) t"
proof -
  have u: "generations_unique t" and d: "distinct (map dl_lease_id (lt_leases t))"
    using assms(1) by (simp_all add: leases_ok_def)
  have l: "l \<in> set (lt_leases t)" "dl_lease_id l = i" using assms(2) by (simp_all add: lease_by_id_Some [OF d])
  show ?thesis
  proof
    assume "is_latest i l t"
    then obtain m where m: "latest_lease_for_scope (dl_scope l) t = Some m" "dl_lease_id m = i"
      by (auto simp: is_latest_def)
    then have "m \<in> set (lt_leases t)" by (simp add: latest_lease_Some [OF u])
    with m(2) l d have "m = l" by (auto simp: distinct_map dest: inj_onD)
    with m(1) show "dl_scope_generation l = latest_generation (dl_scope l) t" by (simp add: latest_lease_Some [OF u])
  next
    assume "dl_scope_generation l = latest_generation (dl_scope l) t"
    with l show "is_latest i l t" by (simp add: is_latest_def latest_lease_Some [OF u, THEN iffD2])
  qed
qed

text \<open>The fence, as a statement about the live leases\<close>

lemma covering_unique:
  assumes "leases_ok t" "l \<in> set (latest_unreleased_leases t)" "authorizes (dl_scope l) i"
  shows "filter (\<lambda>m. authorizes (dl_scope m) i) (latest_unreleased_leases t) = [l]"
proof -
  let ?c = "filter (\<lambda>m. authorizes (dl_scope m) i) (latest_unreleased_leases t)"
  have "m = l" if "m \<in> set ?c" for m
  proof -
    from that assms(3) have "scopes_overlap (dl_scope m) (dl_scope l)" by (auto intro: common_stream_overlaps)
    then have "dl_scope m = dl_scope l" using that assms(1,2) by (auto simp: leases_ok_def live_scopes_apart_def)
    moreover have "generations_unique t" using assms(1) by (simp add: leases_ok_def)
    moreover have "m \<in> set (latest_unreleased_leases t)" using that by simp
    ultimately show ?thesis using assms(2) unfolding generations_unique_def live_iff by metis
  qed
  moreover have "l \<in> set ?c" using assms(2,3) by simp
  ultimately have "set ?c = {l}" by blast
  moreover have "distinct ?c"
    using assms(1) by (simp add: leases_ok_def latest_unreleased_leases_def distinct_map)
  ultimately show ?thesis by (rule distinct_singleton)
qed

lemma fence_cases:
  assumes "leases_ok t"
  obtains (live) l where "l \<in> set (latest_unreleased_leases t)" "dl_lease_id l = x" "authorizes (dl_scope l) i"
      "fence_decision i x now t = (if dl_expires_at_ms l \<le> now then Expired else Current)"
  | (dead) "fence_decision i x now t \<in> {Superseded, UnknownLease}"
      "\<nexists>l. l \<in> set (latest_unreleased_leases t) \<and> dl_lease_id l = x \<and> authorizes (dl_scope l) i"
proof (cases "lease_by_id x t")
  case None
  have d: "distinct (map dl_lease_id (lt_leases t))" using assms by (simp add: leases_ok_def)
  have "\<not> (l \<in> set (lt_leases t) \<and> dl_lease_id l = x)" for l using lease_by_id_Some [OF d, of x l] None by simp
  with None show thesis by (intro dead) (auto simp: fence_decision_def live_iff)
next
  case (Some l)
  have d: "distinct (map dl_lease_id (lt_leases t))" using assms by (simp add: leases_ok_def)
  from Some have l: "l \<in> set (lt_leases t)" "dl_lease_id l = x" by (simp_all add: lease_by_id_Some [OF d])
  have only: "m = l" if "m \<in> set (latest_unreleased_leases t)" "dl_lease_id m = x" for m
    using that l d by (auto simp: live_iff distinct_map dest: inj_onD)
  show thesis
  proof (cases "authorizes (dl_scope l) i \<and> l \<in> set (latest_unreleased_leases t)")
    case True
    then have "is_latest x l t" "dl_released_at_ms l = None" by (simp_all add: is_latest_iff [OF assms Some] live_iff)
    moreover have "filter (\<lambda>m. authorizes (dl_scope m) i) (latest_unreleased_leases t) = [l]"
      using True by (intro covering_unique [OF assms]) simp_all
    ultimately show thesis
      using True Some l by (intro live [of l]) (simp_all add: fence_decision_def Let_def)
  next
    case False
    then have "fence_decision i x now t \<in> {Superseded, UnknownLease}"
      using Some l(1) by (auto simp: fence_decision_def is_latest_iff [OF assms Some] live_iff)
    with False only show thesis by (intro dead) auto
  qed
qed

lemma fence_live:
  assumes "leases_ok t" "fence_decision i x now t \<in> {Current, Expired}"
  obtains l where "l \<in> set (latest_unreleased_leases t)" "dl_lease_id l = x" "authorizes (dl_scope l) i"
    "fence_decision i x now t = (if dl_expires_at_ms l \<le> now then Expired else Current)"
  using assms(1)
proof (cases rule: fence_cases [of t x i now])
  case (live l)
  then show thesis by (rule that)
qed (use assms(2) in auto)

lemma fence_of_live:
  assumes "leases_ok t" "l \<in> set (latest_unreleased_leases t)" "authorizes (dl_scope l) i"
  shows "fence_decision i (dl_lease_id l) now t = (if dl_expires_at_ms l \<le> now then Expired else Current)"
  using assms(1)
proof (cases rule: fence_cases [of t "dl_lease_id l" i now])
  case (live m)
  from covering_unique [OF assms] covering_unique [OF assms(1) live(1,3)] have "m = l" by simp
  with live(4) show ?thesis by simp
qed (use assms in blast)

subsection \<open>Every method keeps the invariant\<close>

text \<open>Rows of a scope only come to it at the end, and keep what identifies them.\<close>

definition keeps_identity :: "(durable_lease \<Rightarrow> durable_lease) \<Rightarrow> bool" where
  "keeps_identity g \<longleftrightarrow> (\<forall>l. dl_lease_id (g l) = dl_lease_id l \<and> dl_scope (g l) = dl_scope l \<and>
     dl_scope_generation (g l) = dl_scope_generation l \<and>
     (dl_released_at_ms l \<noteq> None \<longrightarrow> dl_released_at_ms (g l) \<noteq> None))"

lemma keeps_identityD:
  assumes "keeps_identity g"
  shows "dl_lease_id (g l) = dl_lease_id l" "dl_scope (g l) = dl_scope l"
    "dl_scope_generation (g l) = dl_scope_generation l" "dl_released_at_ms (g l) = None \<Longrightarrow> dl_released_at_ms l = None"
  using assms unfolding keeps_identity_def by (simp, simp, simp, blast)

lemma latest_generation_map:
  assumes "keeps_identity g" "lt_leases t' = map g (lt_leases t)"
  shows "latest_generation sc t' = latest_generation sc t"
proof -
  have "{l \<in> set (lt_leases t'). dl_scope l = sc} = g ` {l \<in> set (lt_leases t). dl_scope l = sc}"
    unfolding assms(2) by (auto simp: keeps_identityD [OF assms(1)])
  then show ?thesis by (simp add: latest_generation_def image_image keeps_identityD [OF assms(1)])
qed

lemma live_map:
  assumes "keeps_identity g" "lt_leases t' = map g (lt_leases t)"
  shows "l \<in> set (latest_unreleased_leases t') \<longleftrightarrow>
    (\<exists>m \<in> set (latest_unreleased_leases t). l = g m \<and> dl_released_at_ms (g m) = None)"
proof -
  have "l \<in> set (latest_unreleased_leases t') \<longleftrightarrow> (\<exists>m \<in> set (lt_leases t). l = g m \<and> dl_released_at_ms (g m) = None \<and>
      dl_scope_generation m = latest_generation (dl_scope m) t)"
    unfolding live_iff latest_generation_map [OF assms] unfolding assms(2)
    by (auto simp: keeps_identityD(1-3) [OF assms(1)])
  then show ?thesis unfolding Bex_def live_iff using keeps_identityD(4) [OF assms(1)] by blast
qed

lemma leases_ok_map:
  assumes "leases_ok t" "keeps_identity g" "lt_leases t' = map g (lt_leases t)" "credentials_ok t'"
  shows "leases_ok t'"
  unfolding leases_ok_def
proof (intro conjI)
  note id = keeps_identityD(1-3) [OF assms(2)]
  show "distinct (map dl_lease_id (lt_leases t'))" using assms(1) by (simp add: leases_ok_def assms(3) comp_def id)
  show "generations_unique t'"
    using assms(1) by (auto simp: leases_ok_def generations_unique_def assms(3) id)
  show "live_scopes_apart t'"
    using assms(1) by (auto simp: leases_ok_def live_scopes_apart_def live_map [OF assms(2,3)] id)
qed (rule assms(4))

lemma credentials_ok_same:
  assumes "credentials_ok t" "lt_credentials t' = lt_credentials t"
    and "\<And>l. l \<in> set (latest_unreleased_leases t) \<Longrightarrow>
      \<exists>m \<in> set (latest_unreleased_leases t'). dl_lease_id m = dl_lease_id l \<and> dl_scope m = dl_scope l"
  shows "credentials_ok t'"
  using assms unfolding credentials_ok_def by (metis (no_types, lifting))

lemma revoke_credentials_simps:
  "map cr_token_digest (revoke_credentials P now rows) = map cr_token_digest rows"
  "row \<in> set (revoke_credentials P now rows) \<Longrightarrow> cr_revoked_at_ms row = None \<Longrightarrow> row \<in> set rows \<and> \<not> P row"
  by (auto simp: revoke_credentials_def split: if_splits)

lemma keeps_identity_update:
  "(\<And>l. dl_lease_id (f l) = dl_lease_id l \<and> dl_scope (f l) = dl_scope l \<and>
     dl_scope_generation (f l) = dl_scope_generation l \<and>
     (dl_released_at_ms l \<noteq> None \<longrightarrow> dl_released_at_ms (f l) \<noteq> None)) \<Longrightarrow>
   keeps_identity (\<lambda>row. if dl_lease_id row = i then f row else row)"
  by (simp add: keeps_identity_def)

lemma renew_ok:
  assumes "leases_ok t" "renew_lease ttl now i t = (r, t')"
  shows "leases_ok t'"
proof (cases r)
  case (Inl e)
  with assms have "t' = t" by (auto simp: renew_lease_def or_return_def Let_def split: option.splits if_splits sum.splits)
  with assms(1) show ?thesis by simp
next
  case (Inr grant)
  with assms(2) obtain ms where t': "t' = update_lease i (\<lambda>row. row\<lparr>dl_expires_at_ms := ms\<rparr>) t"
    by (auto simp: renew_lease_def or_return_ok Let_def split: option.splits if_splits)
  let ?g = "\<lambda>row. if dl_lease_id row = i then row\<lparr>dl_expires_at_ms := ms\<rparr> else row"
  have g: "keeps_identity ?g" by (rule keeps_identity_update) simp
  have rows: "lt_leases t' = map ?g (lt_leases t)" by (simp add: t' update_lease_def)
  have "credentials_ok t'"
  proof (rule credentials_ok_same [of t])
    show "credentials_ok t" using assms(1) by (simp add: leases_ok_def)
    show "lt_credentials t' = lt_credentials t" by (simp add: t' update_lease_def)
    fix l assume "l \<in> set (latest_unreleased_leases t)"
    then show "\<exists>m \<in> set (latest_unreleased_leases t'). dl_lease_id m = dl_lease_id l \<and> dl_scope m = dl_scope l"
      by (intro bexI [of _ "?g l"]) (auto simp: live_map [OF g rows] live_iff [of l])
  qed
  then show ?thesis by (rule leases_ok_map [OF assms(1) g rows])
qed

lemma release_ok:
  assumes "leases_ok t" "release_lease now i t = (r, t')"
  shows "leases_ok t'"
proof (cases "t' = t")
  case False
  let ?g = "\<lambda>row. if dl_lease_id row = i then row\<lparr>dl_released_at_ms := Some now\<rparr> else row"
  from assms(2) False have t': "t' = revoke_lease_credentials i now
      (update_lease i (\<lambda>row. row\<lparr>dl_released_at_ms := Some now\<rparr>) t)"
    by (auto simp: release_lease_def split: option.splits if_splits)
  have g: "keeps_identity ?g" by (rule keeps_identity_update) simp
  have rows: "lt_leases t' = map ?g (lt_leases t)" by (simp add: t' update_lease_def revoke_lease_credentials_def)
  have creds: "lt_credentials t' = revoke_credentials (\<lambda>row. cr_lease_id row = i) now (lt_credentials t)"
    by (simp add: t' update_lease_def revoke_lease_credentials_def)
  have ok: "credentials_ok t" using assms(1) by (simp add: leases_ok_def)
  have "credentials_ok t'"
    unfolding credentials_ok_def creds
  proof (intro conjI ballI impI)
    show "distinct (map cr_token_digest (revoke_credentials (\<lambda>row. cr_lease_id row = i) now (lt_credentials t)))"
      using ok by (simp add: credentials_ok_def revoke_credentials_simps)
    fix row assume "row \<in> set (revoke_credentials (\<lambda>row. cr_lease_id row = i) now (lt_credentials t))"
      and "cr_revoked_at_ms row = None"
    then have row: "row \<in> set (lt_credentials t)" "cr_lease_id row \<noteq> i" "cr_revoked_at_ms row = None"
      using revoke_credentials_simps(2) by blast+
    with ok obtain l where l: "l \<in> set (latest_unreleased_leases t)" "dl_lease_id l = cr_lease_id row"
      "dl_scope l = cr_scope row" unfolding credentials_ok_def by blast
    with row(2) have "?g l = l" "dl_released_at_ms l = None" by (simp_all add: live_iff)
    with l(1) have "l \<in> set (latest_unreleased_leases t')" unfolding live_map [OF g rows] by metis
    with l(2,3) show "\<exists>l \<in> set (latest_unreleased_leases t'). dl_lease_id l = cr_lease_id row \<and>
      dl_scope l = cr_scope row" by blast
  qed
  then show ?thesis by (rule leases_ok_map [OF assms(1) g rows])
qed (use assms(1) in simp)

text \<open>A granted lease is new, of a higher generation than all of its scope, and the only live one there.\<close>

lemma grant_cases:
  assumes "grant_lease sh ttl now fresh sc holder lin t = (r, t')"
  obtains (err) e where "r = Inl e" "t' = t"
  | (ok) l where "r = Inr (lease_grant l)" "dl_lease_id l \<notin> dl_lease_id ` set (lt_leases t)" "dl_scope l = sc"
      "dl_lease_id l = StreamLeaseId (''lease_'' @ sh fresh)"
      "dl_released_at_ms l = None" "dl_granted_at_ms l = now" "dl_expires_at_ms l = now + ttl" "scope_str sc \<noteq> []"
      "lineage_matches (latest_lease_for_scope sc t) lin" "dl_predecessor_lease_id l = sl_superseded_lease_id lin"
      "\<forall>live \<in> set (latest_unreleased_leases t). dl_scope live = sc \<or> \<not> scopes_overlap (dl_scope live) sc"
      "case latest_lease_for_scope sc t of None \<Rightarrow> dl_scope_generation l = 1
       | Some p \<Rightarrow> dl_scope_generation l = dl_scope_generation p + 1"
      "lt_leases t' = lt_leases t @ [l]" "lt_journal t' = lt_journal t"
      "lt_credentials t' = (case latest_lease_for_scope sc t of None \<Rightarrow> lt_credentials t
       | Some p \<Rightarrow> revoke_credentials (\<lambda>row. cr_lease_id row = dl_lease_id p) now (lt_credentials t))"
proof (cases r)
  case (Inl e)
  with assms have "t' = t"
    by (auto simp: grant_lease_def or_return_def Let_def split: if_splits sum.splits prod.splits)
  with Inl show thesis by (rule err)
next
  case (Inr g)
  define l where "l n = \<lparr>dl_lease_id = StreamLeaseId (''lease_'' @ sh fresh), dl_scope = sc,
    dl_scope_generation = n, dl_holder_dispatch_id = holder,
    dl_predecessor_lease_id = sl_superseded_lease_id lin, dl_granted_at_ms = now,
    dl_expires_at_ms = now + ttl, dl_released_at_ms = None\<rparr>" for n
  from assms Inr obtain ms where ms: "lease_expiry now ttl = Inr ms"
    by (cases "lease_expiry now ttl") (auto simp: grant_lease_def split: if_splits)
  then have "ms = now + ttl" by (auto simp: lease_expiry_def checked_add_i64_def split: option.splits if_splits)
  note expiry = ms [unfolded this]
  from assms Inr have checks: "scope_str sc \<noteq> []" "lineage_matches (latest_lease_for_scope sc t) lin"
    "\<not> (\<exists>live \<in> set (latest_unreleased_leases t). dl_scope live \<noteq> sc \<and> scopes_overlap (dl_scope live) sc)"
    by (simp_all add: grant_lease_def expiry Let_def split: if_splits)
  with assms Inr obtain n where n: "next_generation (latest_lease_for_scope sc t) = Inr n"
    by (cases "next_generation (latest_lease_for_scope sc t)") (auto simp: grant_lease_def expiry Let_def)
  obtain v inserted where iv: "insert_lease_row (l n) t = (v, inserted)" by (cases "insert_lease_row (l n) t")
  have eq: "(r, t') = (case (v, inserted) of
      (Inl e, _) \<Rightarrow> (Inl e, t)
    | (Inr _, inserted) \<Rightarrow> (Inr (lease_grant (l n)), case latest_lease_for_scope sc t of None \<Rightarrow> inserted
        | Some previous \<Rightarrow> revoke_lease_credentials (dl_lease_id previous) now inserted))"
    using assms checks unfolding grant_lease_def iv [symmetric] l_def
    by (simp only: expiry or_return_simps Let_def n if_False not_not simp_thms)
  with Inr obtain u where v: "v = Inr u" by (cases v) simp_all
  have g: "g = lease_grant (l n)" and t': "t' = (case latest_lease_for_scope sc t of None \<Rightarrow> inserted
        | Some previous \<Rightarrow> revoke_lease_credentials (dl_lease_id previous) now inserted)"
    using eq Inr by (simp_all add: v)
  note ins = iv [unfolded v]
  from ins have new: "dl_lease_id (l n) \<notin> dl_lease_id ` set (lt_leases t)"
    and inserted: "inserted = t\<lparr>lt_leases := lt_leases t @ [l n]\<rparr>"
    by (auto simp: insert_lease_row_def image_iff split: if_splits)
  show thesis
  proof (rule ok [of "l n"])
    show "r = Inr (lease_grant (l n))" using Inr g by simp
    show "case latest_lease_for_scope sc t of None \<Rightarrow> dl_scope_generation (l n) = 1
        | Some p \<Rightarrow> dl_scope_generation (l n) = dl_scope_generation p + 1"
      using n by (auto simp: next_generation_def checked_add_i64_def l_def split: option.splits if_splits)
    show "\<forall>live \<in> set (latest_unreleased_leases t). dl_scope live = sc \<or> \<not> scopes_overlap (dl_scope live) sc"
      using checks(3) by blast
  qed (use new checks in \<open>simp_all add: t' inserted l_def revoke_lease_credentials_def split: option.split\<close>)
qed

lemma grant_ok:
  assumes "leases_ok t" "grant_lease sh ttl now fresh sc holder lin t = (r, t')"
  shows "leases_ok t'"
  using assms(2)
proof (cases rule: grant_cases)
  case err
  with assms(1) show ?thesis by simp
next
  case (ok l)
  have u: "generations_unique t" and d: "distinct (map dl_lease_id (lt_leases t))" and ap: "live_scopes_apart t"
    and c: "credentials_ok t" using assms(1) by (simp_all add: leases_ok_def)
  have higher: "dl_scope_generation m < dl_scope_generation l" if "m \<in> set (lt_leases t)" "dl_scope m = sc" for m
  proof (cases "latest_lease_for_scope sc t")
    case None
    with that show ?thesis by (auto simp: latest_lease_None)
  next
    case (Some p)
    with that latest_generation_ge [OF that(1)] ok(12) show ?thesis by (auto simp: latest_lease_Some [OF u])
  qed
  have gen: "latest_generation s t' = (if s = sc then dl_scope_generation l else latest_generation s t)" for s
  proof (cases "s = sc")
    case True
    have "Max (insert (dl_scope_generation l) (dl_scope_generation ` {m \<in> set (lt_leases t). dl_scope m = sc})) =
        dl_scope_generation l" by (rule Max_eqI) (use higher in \<open>auto simp: less_imp_le\<close>)
    moreover have "{m \<in> set (lt_leases t'). dl_scope m = sc} = insert l {m \<in> set (lt_leases t). dl_scope m = sc}"
      using ok(3) by (auto simp: ok(13))
    ultimately show ?thesis using True by (simp add: latest_generation_def)
  next
    case False
    have "{m \<in> set (lt_leases t'). dl_scope m = s} = {m \<in> set (lt_leases t). dl_scope m = s}"
      using False ok(3) by (auto simp: ok(13))
    with False show ?thesis by (simp add: latest_generation_def)
  qed
  have live: "m \<in> set (latest_unreleased_leases t') \<longleftrightarrow> m = l \<or> m \<in> set (latest_unreleased_leases t) \<and> dl_scope m \<noteq> sc" for m
    using ok(3,5) higher [of m] by (auto simp: live_iff gen ok(13))
  have "distinct (map dl_lease_id (lt_leases t'))" using d ok(2) by (simp add: ok(13))
  moreover have "\<forall>m \<in> set (lt_leases t). dl_scope m = sc \<longrightarrow> dl_scope_generation m \<noteq> dl_scope_generation l"
    using higher by fastforce
  then have "generations_unique t'" using u ok(3) unfolding generations_unique_def ok(13) by auto
  moreover have "live_scopes_apart t'"
    using ap ok(3,11) unfolding live_scopes_apart_def Ball_def live by (metis scopes_overlap_sym)
  moreover have "credentials_ok t'"
    unfolding credentials_ok_def
  proof (intro conjI ballI impI)
    show "distinct (map cr_token_digest (lt_credentials t'))"
      using c by (simp add: ok(15) credentials_ok_def revoke_credentials_simps split: option.split)
    fix row assume row: "row \<in> set (lt_credentials t')" "cr_revoked_at_ms row = None"
    then have old: "row \<in> set (lt_credentials t)"
      and other: "\<And>p. latest_lease_for_scope sc t = Some p \<Longrightarrow> cr_lease_id row \<noteq> dl_lease_id p"
      by (auto simp: ok(15) dest: revoke_credentials_simps(2) split: option.splits)
    from c old row(2) obtain m where m: "m \<in> set (latest_unreleased_leases t)" "dl_lease_id m = cr_lease_id row"
      "dl_scope m = cr_scope row" unfolding credentials_ok_def by blast
    have "dl_scope m \<noteq> sc"
    proof
      assume "dl_scope m = sc"
      with m(1) have "latest_lease_for_scope sc t = Some m" by (simp add: latest_lease_Some [OF u] live_iff)
      with other m(2) show False by simp
    qed
    with m show "\<exists>l \<in> set (latest_unreleased_leases t'). dl_lease_id l = cr_lease_id row \<and> dl_scope l = cr_scope row"
      unfolding live Bex_def by blast
  qed
  ultimately show ?thesis by (simp add: leases_ok_def)
qed

lemma leases_ok_journal: "leases_ok (t\<lparr>lt_journal := j\<rparr>) = leases_ok t"
  by (simp add: leases_ok_def generations_unique_def live_scopes_apart_def credentials_ok_def
      latest_unreleased_leases_def latest_generation_def)

lemma append_if_current_cases:
  obtains (rejected) "fence_decision i x now t \<noteq> Current"
      "append_if_current codec ep now i x q rs t = (Inr (LeaseRejected (fence_decision i x now t)), t)"
  | (appended) es j ack where "fence_decision i x now t = Current"
      "append_events_fenced_in_transaction codec ep i q rs (lt_journal t) = (Inr es, j)"
      "ack_from_appended i es [StreamCommitted, QueryProjected] = Inr ack"
      "append_if_current codec ep now i x q rs t = (Inr (Appended ack), t\<lparr>lt_journal := j\<rparr>)"
  | (conflict) a b n j where "fence_decision i x now t = Current"
      "append_events_fenced_in_transaction codec ep i q rs (lt_journal t) = (Inl (AppendFenceConflict a b n), j)"
      "append_if_current codec ep now i x q rs t = (Inr (AppendSequenceConflict (EventSequence n)), t)"
  | (failed) e where "fence_decision i x now t = Current"
      "append_if_current codec ep now i x q rs t = (Inl (StoreError e), t)"
proof (cases "fence_decision i x now t = Current")
  case False
  then show thesis by (intro rejected) (simp_all add: append_if_current_def)
next
  case True
  obtain r j where r: "append_events_fenced_in_transaction codec ep i q rs (lt_journal t) = (r, j)"
    by (cases "append_events_fenced_in_transaction codec ep i q rs (lt_journal t)")
  show thesis
  proof (cases r)
    case (Inl e)
    show thesis
    proof (cases "\<exists>a b n. e = AppendFenceConflict a b n")
      case conflicting: True
      then obtain a b n where "e = AppendFenceConflict a b n" by blast
      with True r Inl show thesis by (intro conflict [of a b n j]) (simp_all add: append_if_current_def)
    next
      case False
      then have "append_if_current codec ep now i x q rs t = (Inl (StoreError e), t)"
        by (cases e) (simp_all add: append_if_current_def True r Inl)
      with True show thesis by (rule failed)
    qed
  next
    case (Inr es)
    show thesis
    proof (cases "ack_from_appended i es [StreamCommitted, QueryProjected]")
      case (Inl e)
      with True r Inr show thesis by (intro failed [of e]) (simp_all add: append_if_current_def)
    next
      case (Inr ack)
      with True r \<open>r = Inr es\<close> show thesis
        by (intro appended [of es j ack]) (simp_all add: append_if_current_def)
    qed
  qed
qed

lemma append_if_current_rows:
  assumes "append_if_current codec ep now i x q rs t = (r, t')"
  shows "\<exists>j. t' = t\<lparr>lt_journal := j\<rparr>"
proof -
  have "\<exists>j. t = t\<lparr>lt_journal := j\<rparr>" by (rule exI [of _ "lt_journal t"]) simp
  with assms show ?thesis
    by (cases rule: append_if_current_cases [of i x now t codec ep q rs]) auto
qed

lemma mint_ok:
  assumes "leases_ok t" "mint_credential lib now fresh grant t = (r, t')"
  shows "leases_ok t'"
proof (cases "t' = t")
  case False
  let ?row = "mint_row lib now fresh grant"
  have row: "cr_lease_id ?row = lg_lease_id grant" "cr_scope ?row = lg_scope grant" by (simp_all add: mint_row_def)
  from assms(2) False have current: "is_current_grant grant t" and t': "t' = t\<lparr>lt_credentials := lt_credentials t @ [?row]\<rparr>"
    and new: "\<not> (\<exists>other \<in> set (lt_credentials t). cr_token_digest other = cr_token_digest ?row)"
    by (auto simp: mint_credential_def insert_credential_row_def Let_def split: if_splits)
  from current obtain l where l: "lease_by_id (lg_lease_id grant) t = Some l" "dl_released_at_ms l = None"
    "dl_scope l = lg_scope grant" "is_latest (lg_lease_id grant) l t"
    by (auto simp: is_current_grant_def is_latest_def split: option.splits)
  then have "l \<in> set (latest_unreleased_leases t)" "dl_lease_id l = lg_lease_id grant"
    using assms(1) by (simp_all add: live_iff is_latest_iff [OF assms(1)] lease_by_id_Some leases_ok_def)
  moreover have live: "latest_unreleased_leases t' = latest_unreleased_leases t"
    by (simp add: t' latest_unreleased_leases_def latest_generation_def)
  moreover have "credentials_ok t" using assms(1) by (simp add: leases_ok_def)
  ultimately have "credentials_ok t'"
    using row new l(3) unfolding credentials_ok_def live by (auto simp: t' image_iff)
  then show ?thesis
    using assms(1) by (simp add: leases_ok_def generations_unique_def live_scopes_apart_def live) (simp add: t')
qed (use assms(1) in simp)

lemma revoke_ok:
  assumes "leases_ok t" "revoke_credential now i t = (r, t')"
  shows "leases_ok t'"
proof -
  from assms(2) have t': "t' = t\<lparr>lt_credentials :=
      revoke_credentials (\<lambda>row. cr_credential_id row = i) now (lt_credentials t)\<rparr>" by (simp add: revoke_credential_def)
  have live: "latest_unreleased_leases t' = latest_unreleased_leases t"
    by (simp add: t' latest_unreleased_leases_def latest_generation_def)
  have "credentials_ok t" using assms(1) by (simp add: leases_ok_def)
  then have "credentials_ok t'"
    unfolding credentials_ok_def live
    by (auto simp: t' revoke_credentials_simps(1) dest!: revoke_credentials_simps(2))
  then show ?thesis
    using assms(1) by (simp add: leases_ok_def generations_unique_def live_scopes_apart_def live) (simp add: t')
qed

subsection \<open>Reachable authorities\<close>

text \<open>
  All calls that change the tables, and the requests that other handles of the same database serve on the
  journal.  The only assumption is that written texts read back.
\<close>

inductive authority_call ::
  "sqlite_codec \<Rightarrow> token_lib \<Rightarrow> i64 \<Rightarrow> lease_tables \<Rightarrow> bool \<Rightarrow> lease_tables \<Rightarrow> bool" for codec lib ttl where
  call_grant: "grant_lease (tk_show_uuid lib) ttl now fresh sc holder lin t = (r, t') \<Longrightarrow>
    authority_call codec lib ttl t (is_ok r) t'"
| call_renew: "renew_lease ttl now x t = (r, t') \<Longrightarrow> authority_call codec lib ttl t (is_ok r) t'"
| call_release: "release_lease now x t = (r, t') \<Longrightarrow> authority_call codec lib ttl t (is_ok r) t'"
| call_append: "append_if_current codec ep now i x q rs t = (r, t') \<Longrightarrow> \<forall>e \<in> set rs. event_text_ok codec e \<Longrightarrow>
    authority_call codec lib ttl t (is_ok r) t'"
| call_mint: "mint_credential lib now fresh3 grant t = (r, t') \<Longrightarrow> authority_call codec lib ttl t (is_ok r) t'"
| call_revoke: "revoke_credential now c t = (r, t') \<Longrightarrow> authority_call codec lib ttl t (is_ok r) t'"
| call_journal: "serve_sqlite codec req (lt_journal t) = Some (a, j) \<Longrightarrow> request_text_ok codec req (lt_journal t) \<Longrightarrow>
    authority_call codec lib ttl t (is_ok a) (t\<lparr>lt_journal := j\<rparr>)"

definition authority_later :: "sqlite_codec \<Rightarrow> token_lib \<Rightarrow> i64 \<Rightarrow> lease_tables \<Rightarrow> lease_tables \<Rightarrow> bool" where
  "authority_later codec lib ttl = (\<lambda>t t'. \<exists>ok. authority_call codec lib ttl t ok t')\<^sup>*\<^sup>*"

definition authority_reachable :: "sqlite_codec \<Rightarrow> token_lib \<Rightarrow> i64 \<Rightarrow> lease_tables \<Rightarrow> bool" where
  "authority_reachable codec lib ttl t \<longleftrightarrow> authority_later codec lib ttl lease_tables_new t"

text \<open>An append through the authority is a request of the store.\<close>

lemma append_is_request:
  assumes "append_if_current codec ep now i x q rs t = (r, t')" "t' \<noteq> t"
  shows "\<exists>es. serve_sqlite codec (AppendEventsFenced ep i q rs) (lt_journal t) =
    Some (Inr (AnswerEvents es), lt_journal t')"
  using assms
  by (cases rule: append_if_current_cases [of i x now t codec ep q rs])
    (auto simp: sqlite_append_events_fenced_def answer_def in_transaction_def)

lemma authority_call_ok:
  assumes "authority_call codec lib ttl t ok t'" "leases_ok t \<and> sqlite_reachable codec (lt_journal t)"
  shows "leases_ok t' \<and> sqlite_reachable codec (lt_journal t')"
  using assms
proof (induction rule: authority_call.induct)
  case (call_grant now fresh sc holder lin t r t')
  from call_grant(1) have "lt_journal t' = lt_journal t" by (cases rule: grant_cases) simp_all
  with call_grant show ?case by (auto intro: grant_ok)
next
  case (call_renew now x t r t')
  then have "lt_journal t' = lt_journal t"
    by (auto simp: renew_lease_def or_return_def update_lease_def Let_def split: option.splits if_splits sum.splits)
  with call_renew show ?case by (auto intro: renew_ok)
next
  case (call_release now x t r t')
  then have "lt_journal t' = lt_journal t"
    by (auto simp: release_lease_def update_lease_def revoke_lease_credentials_def split: option.splits if_splits)
  with call_release show ?case by (auto intro: release_ok)
next
  case (call_append ep now i x q rs t r t')
  have "sqlite_reachable codec (lt_journal t')"
  proof (cases "t' = t")
    case False
    from append_is_request [OF call_append(1) this] call_append(2,3) show ?thesis
      by (auto intro: sqlite_reachable.served [of codec "lt_journal t" "AppendEventsFenced ep i q rs"])
  qed (use call_append in simp)
  with call_append(3) append_if_current_rows [OF call_append(1)] show ?case by (auto simp: leases_ok_journal)
next
  case (call_mint now fresh3 grant t r t')
  then have "lt_journal t' = lt_journal t"
    by (auto simp: mint_credential_def insert_credential_row_def Let_def split: if_splits)
  with call_mint show ?case by (auto intro: mint_ok)
next
  case (call_revoke now c t r t')
  then have "lt_journal t' = lt_journal t" by (auto simp: revoke_credential_def)
  with call_revoke show ?case by (auto intro: revoke_ok)
next
  case (call_journal req t a j)
  then show ?case by (auto simp: leases_ok_journal intro: sqlite_reachable.served)
qed

definition leases_kept :: "lease_tables \<Rightarrow> lease_tables \<Rightarrow> bool" where
  "leases_kept t t' \<longleftrightarrow> (\<forall>l \<in> set (lt_leases t). \<exists>m \<in> set (lt_leases t'). dl_lease_id m = dl_lease_id l \<and>
     dl_scope m = dl_scope l \<and> dl_scope_generation m = dl_scope_generation l \<and>
     (dl_released_at_ms l \<noteq> None \<longrightarrow> dl_released_at_ms m \<noteq> None))"

lemma leases_kept_refl: "leases_kept t t"
  by (auto simp: leases_kept_def)

lemma leases_kept_same: "lt_leases t' = lt_leases t \<Longrightarrow> leases_kept t t'"
  by (auto simp: leases_kept_def)

lemma leases_kept_map: "keeps_identity g \<Longrightarrow> lt_leases t' = map g (lt_leases t) \<Longrightarrow> leases_kept t t'"
  by (force simp: leases_kept_def keeps_identity_def)

lemma leases_kept_append: "lt_leases t' = lt_leases t @ ls \<Longrightarrow> leases_kept t t'"
  by (auto simp: leases_kept_def)

lemma leases_kept_update:
  assumes "\<And>l. dl_lease_id (f l) = dl_lease_id l \<and> dl_scope (f l) = dl_scope l \<and>
     dl_scope_generation (f l) = dl_scope_generation l \<and>
     (dl_released_at_ms l \<noteq> None \<longrightarrow> dl_released_at_ms (f l) \<noteq> None)"
    and "lt_leases t' = lt_leases (update_lease x f t)"
  shows "leases_kept t t'"
  by (rule leases_kept_map [OF keeps_identity_update [of f x, OF assms(1)]]) (simp add: assms(2) update_lease_def)

lemma authority_call_keeps: "authority_call codec lib ttl t ok t' \<Longrightarrow> leases_kept t t'"
proof (induction rule: authority_call.induct)
  case (call_grant now fresh sc holder lin t r t')
  then show ?case by (cases rule: grant_cases) (simp_all add: leases_kept_refl leases_kept_append)
next
  case (call_renew now x t r t')
  show ?case
  proof (cases "t' = t")
    case False
    with call_renew obtain ms where "t' = update_lease x (\<lambda>row. row\<lparr>dl_expires_at_ms := ms\<rparr>) t"
      by (auto simp: renew_lease_def or_return_def Let_def split: option.splits if_splits sum.splits)
    then show ?thesis by (intro leases_kept_update [of "\<lambda>row. row\<lparr>dl_expires_at_ms := ms\<rparr>" t' x]) simp_all
  qed (simp add: leases_kept_refl)
next
  case (call_release now x t r t')
  show ?case
  proof (cases "t' = t")
    case False
    with call_release have "lt_leases t' = lt_leases (update_lease x (\<lambda>row. row\<lparr>dl_released_at_ms := Some now\<rparr>) t)"
      by (auto simp: release_lease_def revoke_lease_credentials_def split: option.splits if_splits)
    then show ?thesis by (intro leases_kept_update [of "\<lambda>row. row\<lparr>dl_released_at_ms := Some now\<rparr>" t' x]) simp_all
  qed (simp add: leases_kept_refl)
next
  case (call_append ep now i x q rs t r t')
  then show ?case using append_if_current_rows [OF call_append(1)] by (auto intro: leases_kept_same)
next
  case (call_mint now fresh3 grant t r t')
  then have "lt_leases t' = lt_leases t"
    by (auto simp: mint_credential_def insert_credential_row_def Let_def split: if_splits)
  then show ?case by (rule leases_kept_same)
next
  case (call_revoke now c t r t')
  then have "lt_leases t' = lt_leases t" by (auto simp: revoke_credential_def)
  then show ?case by (rule leases_kept_same)
qed (simp add: leases_kept_same)

interpretation authority: monotone_state "authority_call codec lib ttl" lease_tables_new
    "\<lambda>t. leases_ok t \<and> sqlite_reachable codec (lt_journal t)" leases_kept for codec lib ttl
proof unfold_locales
  show "leases_ok lease_tables_new \<and> sqlite_reachable codec (lt_journal lease_tables_new)"
    using leases_ok_new sqlite_reachable.opened by (simp add: lease_tables_new_def)
  show "leases_ok t' \<and> sqlite_reachable codec (lt_journal t')"
    if "leases_ok t \<and> sqlite_reachable codec (lt_journal t)" "authority_call codec lib ttl t ok t'" for t ok t'
    using authority_call_ok [OF that(2,1)] .
  show "leases_kept t t" for t by (rule leases_kept_refl)
  show "leases_kept t t''" if "leases_kept t t'" "leases_kept t' t''" for t t' t''
    using that unfolding leases_kept_def by metis
  show "leases_kept t t'" if "leases_ok t \<and> sqlite_reachable codec (lt_journal t)" "authority_call codec lib ttl t ok t'"
    for t ok t' using authority_call_keeps [OF that(2)] .
qed

lemma authority_ok: "authority_reachable codec lib ttl t \<Longrightarrow> leases_ok t \<and> sqlite_reachable codec (lt_journal t)"
  unfolding authority_reachable_def authority_later_def by (rule authority.reachable_good)

lemma authority_later_kept: "leases_ok t \<and> sqlite_reachable codec (lt_journal t) \<Longrightarrow>
    authority_later codec lib ttl t t' \<Longrightarrow> leases_kept t t' \<and> leases_ok t'"
  unfolding authority_later_def using authority.later_grows authority.later_good by blast

subsection \<open>Retired leases\<close>

definition retired :: "stream_lease_id \<Rightarrow> lease_tables \<Rightarrow> bool" where
  "retired x t \<longleftrightarrow> (\<exists>l \<in> set (lt_leases t). dl_lease_id l = x \<and> l \<notin> set (latest_unreleased_leases t))"

lemma retired_stays:
  assumes "retired x t" "leases_kept t t'"
  shows "retired x t'"
proof -
  from assms(1) obtain l where l: "l \<in> set (lt_leases t)" "dl_lease_id l = x"
    "dl_released_at_ms l \<noteq> None \<or> dl_scope_generation l \<noteq> latest_generation (dl_scope l) t"
    by (auto simp: retired_def live_iff)
  with assms(2) obtain m where m: "m \<in> set (lt_leases t')" "dl_lease_id m = x" "dl_scope m = dl_scope l"
    "dl_scope_generation m = dl_scope_generation l" "dl_released_at_ms l \<noteq> None \<longrightarrow> dl_released_at_ms m \<noteq> None"
    unfolding leases_kept_def by blast
  obtain n where n: "n \<in> set (lt_leases t)" "dl_scope n = dl_scope l"
    "dl_scope_generation n = latest_generation (dl_scope l) t" using latest_generation_member [OF l(1)] .
  with assms(2) obtain n' where "n' \<in> set (lt_leases t')" "dl_scope n' = dl_scope l"
    "dl_scope_generation n' = latest_generation (dl_scope l) t" unfolding leases_kept_def by metis
  then have "latest_generation (dl_scope l) t \<le> latest_generation (dl_scope l) t'" by (metis latest_generation_ge)
  with l latest_generation_ge [OF l(1)] m have "m \<notin> set (latest_unreleased_leases t')" by (auto simp: live_iff)
  with m(1,2) show ?thesis by (auto simp: retired_def)
qed

lemma retired_not_live:
  assumes "leases_ok t" "retired x t" "l \<in> set (latest_unreleased_leases t)"
  shows "dl_lease_id l \<noteq> x"
proof
  assume x: "dl_lease_id l = x"
  from assms(2) obtain m where m: "m \<in> set (lt_leases t)" "dl_lease_id m = x" "m \<notin> set (latest_unreleased_leases t)"
    unfolding retired_def by blast
  have "inj_on dl_lease_id (set (lt_leases t))" using assms(1) by (simp add: leases_ok_def distinct_map)
  moreover have "l \<in> set (lt_leases t)" using assms(3) by (simp add: live_iff)
  ultimately have "m = l" using m(1,2) x by (metis inj_onD)
  with m(3) assms(3) show False by simp
qed

lemma retired_fence:
  assumes "leases_ok t" "retired x t"
  shows "fence_decision i x now t \<in> {Superseded, UnknownLease}"
  using assms(1)
proof (cases rule: fence_cases [of t x i now])
  case (live l)
  with retired_not_live [OF assms live(1)] show ?thesis by simp
qed

lemma verified_is_live:
  assumes "leases_ok t" "verify_token digest token t = Inr (Some v)"
  shows "\<exists>l \<in> set (latest_unreleased_leases t). dl_lease_id l = vi_lease_id v \<and> dl_scope l = vi_scope v"
  using assms(2) unfolding verify_token_def by (auto simp: find_Some_iff live_iff)

lemma grant_retires:
  assumes "leases_ok t" "grant_lease sh ttl now fresh sc holder lin t = (Inr g, t')"
    "sl_superseded_lease_id lin = Some x"
  shows "retired x t'"
  using assms(2)
proof (cases rule: grant_cases)
  case (ok l)
  have u: "generations_unique t" using assms(1) by (simp add: leases_ok_def)
  from ok(9) assms(3) obtain p where p: "latest_lease_for_scope sc t = Some p" "dl_lease_id p = x"
    by (auto simp: lineage_matches_def split: option.splits)
  with ok(12) have "dl_scope_generation p < dl_scope_generation l" and p': "p \<in> set (lt_leases t)" "dl_scope p = sc"
    by (auto simp: latest_lease_Some [OF u])
  moreover have "dl_scope_generation l \<le> latest_generation (dl_scope l) t'"
    by (rule latest_generation_ge) (simp add: ok(13))
  ultimately have "p \<notin> set (latest_unreleased_leases t')" by (simp add: live_iff ok(3))
  with p(2) p'(1) show ?thesis by (auto simp: retired_def ok(13))
qed simp

lemma release_retires:
  assumes "leases_ok t" "release_lease now x t = (r, t')" "lease_by_id x t \<noteq> None"
  shows "retired x t'"
proof -
  from assms(3) obtain l where l: "lease_by_id x t = Some l" by blast
  then have l': "l \<in> set (lt_leases t)" "dl_lease_id l = x" using assms(1) by (simp_all add: lease_by_id_Some leases_ok_def)
  show ?thesis
  proof (cases "dl_released_at_ms l = None \<and> is_latest x l t")
    case True
    with assms(2) l have "lt_leases t' =
        map (\<lambda>row. if dl_lease_id row = x then row\<lparr>dl_released_at_ms := Some now\<rparr> else row) (lt_leases t)"
      by (auto simp: release_lease_def revoke_lease_credentials_def update_lease_def)
    with l' have "l\<lparr>dl_released_at_ms := Some now\<rparr> \<in> set (lt_leases t')" by (force simp: image_iff)
    then show ?thesis
      unfolding retired_def by (rule bexI [rotated]) (simp add: live_iff l'(2))
  next
    case False
    with assms(2) l have "t' = t" by (auto simp: release_lease_def)
    moreover have "l \<notin> set (latest_unreleased_leases t)" using False by (simp add: is_latest_iff [OF assms(1) l] live_iff)
    ultimately show ?thesis using l' by (auto simp: retired_def)
  qed
qed

subsection \<open>Properties\<close>

text \<open>A lease over one thread's stream, granted on empty tables\<close>

definition sample_tokens :: token_lib where
  "sample_tokens = \<lparr>tk_show_uuid = show_hyphenated, tk_show_simple = show_hyphenated, tk_digest = (\<lambda>token. token)\<rparr>"

definition sample_lease :: durable_lease where
  "sample_lease = \<lparr>dl_lease_id = StreamLeaseId (''lease_'' @ show_hyphenated 1), dl_scope = StreamPrefixScope ''thread:7'',
     dl_scope_generation = 1, dl_holder_dispatch_id = DispatchId ''d'', dl_predecessor_lease_id = None,
     dl_granted_at_ms = 0, dl_expires_at_ms = 60000, dl_released_at_ms = None\<rparr>"

definition sample_tables :: lease_tables where
  "sample_tables = \<lparr>lt_journal = sqlite_new, lt_leases = [sample_lease], lt_credentials = []\<rparr>"

lemma sample_grant:
  "grant_lease show_hyphenated 60000 0 1 (StreamPrefixScope ''thread:7'') (DispatchId ''d'')
     \<lparr>sl_superseded_lease_id = None\<rparr> lease_tables_new = (Inr (lease_grant sample_lease), sample_tables)"
  by (simp add: grant_lease_def lease_expiry_def checked_add_i64_def latest_lease_for_scope_def lease_tables_new_def
      lineage_matches_def latest_unreleased_leases_def next_generation_def insert_lease_row_def sample_lease_def
      sample_tables_def Let_def)

lemma sample_tables_reachable: "authority_reachable sample_columns sample_tokens 60000 sample_tables"
proof -
  have "tk_show_uuid sample_tokens = show_hyphenated" by (simp add: sample_tokens_def)
  note call_grant [OF sample_grant [folded this], of sample_columns]
  then show ?thesis unfolding authority_reachable_def authority_later_def by blast
qed

lemma sample_tables_simps:
  "latest_lease_for_scope (StreamPrefixScope ''thread:7'') sample_tables = Some sample_lease"
  "latest_unreleased_leases sample_tables = [sample_lease]"
  "authorizes (StreamPrefixScope ''thread:7'') (EventStreamId ''thread:7'')"
  by (simp_all add: latest_lease_for_scope_def latest_unreleased_leases_def latest_generation_def sample_tables_def
      sample_lease_def authorizes_def strip_prefix_def)

text \<open>
  C15. Every stream has at most one live propagator.  In every reachable state of the authority, two leases
  that both pass the fence of a stream up to expiry are the same lease; and a lease passes the fence
  exactly when it is the latest of its scope, was not released, covers the stream and has not expired.
\<close>

theorem one_live_propagator:
  assumes "authority_reachable codec lib ttl t"
  shows "(fence_decision i x now t \<in> {Current, Expired} \<longrightarrow> fence_decision i y now' t \<in> {Current, Expired} \<longrightarrow> x = y) \<and>
    (fence_decision i x now t = Current \<longleftrightarrow> (\<exists>l \<in> set (lt_leases t). dl_lease_id l = x \<and>
       latest_lease_for_scope (dl_scope l) t = Some l \<and> dl_released_at_ms l = None \<and>
       authorizes (dl_scope l) i \<and> now < dl_expires_at_ms l))"
proof -
  from authority_ok [OF assms] have ok: "leases_ok t" by simp
  then have u: "generations_unique t" by (simp add: leases_ok_def)
  have current: "l \<in> set (latest_unreleased_leases t) \<longleftrightarrow>
      l \<in> set (lt_leases t) \<and> latest_lease_for_scope (dl_scope l) t = Some l \<and> dl_released_at_ms l = None" for l
    by (auto simp: live_iff latest_lease_Some [OF u])
  have "x = y" if cx: "fence_decision i x now t \<in> {Current, Expired}" and cy: "fence_decision i y now' t \<in> {Current, Expired}"
  proof -
    obtain l where l: "l \<in> set (latest_unreleased_leases t)" "dl_lease_id l = x" "authorizes (dl_scope l) i"
      using fence_live [OF ok cx] by blast
    obtain m where m: "m \<in> set (latest_unreleased_leases t)" "dl_lease_id m = y" "authorizes (dl_scope m) i"
      using fence_live [OF ok cy] by blast
    from covering_unique [OF ok l(1,3)] covering_unique [OF ok m(1,3)] have "l = m" by simp
    with l(2) m(2) show ?thesis by simp
  qed
  moreover have "fence_decision i x now t = Current \<longleftrightarrow> (\<exists>l. l \<in> set (latest_unreleased_leases t) \<and>
      dl_lease_id l = x \<and> authorizes (dl_scope l) i \<and> now < dl_expires_at_ms l)"
  proof
    assume c: "fence_decision i x now t = Current"
    then obtain l where "l \<in> set (latest_unreleased_leases t)" "dl_lease_id l = x" "authorizes (dl_scope l) i"
      "fence_decision i x now t = (if dl_expires_at_ms l \<le> now then Expired else Current)"
      using fence_live [OF ok, of i x now] by auto
    with c show "\<exists>l. l \<in> set (latest_unreleased_leases t) \<and> dl_lease_id l = x \<and> authorizes (dl_scope l) i \<and>
      now < dl_expires_at_ms l" by (intro exI [of _ l]) (simp split: if_splits)
  qed (use fence_of_live [OF ok] in auto)
  ultimately show ?thesis unfolding current by blast
qed

theorem one_live_propagator_witness:
  "fence_decision (EventStreamId ''thread:7'') (dl_lease_id sample_lease) 5 sample_tables = Current"
  using one_live_propagator [OF sample_tables_reachable, of "EventStreamId ''thread:7''" "dl_lease_id sample_lease" 5]
    sample_tables_simps by (simp add: sample_tables_def sample_lease_def)

text \<open>
  C16. Authority that moved does not come back.  Once a grant has named a lease as its predecessor, or a lease has
  been released, then in every later state of the authority an append that presents it is rejected
  without effect, it cannot be renewed, and no bearer token verifies to it.
\<close>

theorem retired_lease_never_writes:
  assumes "authority_reachable codec lib ttl t"
    and "grant_lease (tk_show_uuid lib) ttl now fresh sc holder \<lparr>sl_superseded_lease_id = Some x\<rparr> t = (Inr g, t1) \<or>
      release_lease now x t = (Inr (), t1) \<and> lease_by_id x t \<noteq> None"
    and "authority_later codec lib ttl t1 t2"
  shows "(\<exists>d \<in> {Superseded, UnknownLease}.
      append_if_current codec ep now2 i x q rs t2 = (Inr (LeaseRejected d), t2)) \<and>
    (\<exists>e. renew_lease ttl now2 x t2 = (Inl e, t2)) \<and>
    (\<forall>token v. verify_token (tk_digest lib) token t2 = Inr (Some v) \<longrightarrow> vi_lease_id v \<noteq> x)"
proof -
  from authority_ok [OF assms(1)] have ok: "leases_ok t" "sqlite_reachable codec (lt_journal t)" by simp_all
  have step: "\<exists>b. authority_call codec lib ttl t b t1"
    using assms(2) call_grant call_release by blast
  with authority_call_ok ok have ok1: "leases_ok t1 \<and> sqlite_reachable codec (lt_journal t1)" by blast
  have "retired x t1" using assms(2) grant_retires [OF ok(1)] release_retires [OF ok(1)] by auto
  with authority_later_kept [OF ok1 assms(3)] have ret: "retired x t2" and ok2: "leases_ok t2"
    using retired_stays by blast+
  have fence: "fence_decision i x now2 t2 \<in> {Superseded, UnknownLease}" by (rule retired_fence [OF ok2 ret])
  then have "append_if_current codec ep now2 i x q rs t2 = (Inr (LeaseRejected (fence_decision i x now2 t2)), t2)"
    by (auto simp: append_if_current_def)
  moreover have "\<exists>e. renew_lease ttl now2 x t2 = (Inl e, t2)"
  proof (cases "lease_by_id x t2")
    case (Some l)
    then have "l \<in> set (lt_leases t2)" "dl_lease_id l = x" using ok2 by (simp_all add: lease_by_id_Some leases_ok_def)
    with retired_not_live [OF ok2 ret, of l] have "dl_released_at_ms l \<noteq> None \<or> \<not> is_latest x l t2"
      by (auto simp: is_latest_iff [OF ok2 Some] live_iff)
    with Some show ?thesis by (auto simp: renew_lease_def)
  qed (simp add: renew_lease_def)
  moreover have "vi_lease_id v \<noteq> x" if "verify_token (tk_digest lib) token t2 = Inr (Some v)" for token v
    using verified_is_live [OF ok2 that] retired_not_live [OF ok2 ret] by auto
  ultimately show ?thesis using fence by auto
qed

theorem retired_lease_never_writes_witness:
  "\<exists>g t1. grant_lease show_hyphenated 60000 9 2 (StreamPrefixScope ''thread:7'') (DispatchId ''e'')
       \<lparr>sl_superseded_lease_id = Some (dl_lease_id sample_lease)\<rparr> sample_tables = (Inr g, t1) \<and>
     (\<exists>d \<in> {Superseded, UnknownLease}. append_if_current sample_columns 0 10 (EventStreamId ''thread:7'')
       (dl_lease_id sample_lease) (EventSequence 1) [sample_record 1] t1 = (Inr (LeaseRejected d), t1))"
proof -
  let ?lin = "\<lparr>sl_superseded_lease_id = Some (dl_lease_id sample_lease)\<rparr>"
  have "show_hyphenated 2 \<noteq> show_hyphenated 1" using hyphenated.show_inj [of 2 1] by simp
  then have "\<exists>g t1. grant_lease show_hyphenated 60000 9 2 (StreamPrefixScope ''thread:7'') (DispatchId ''e'')
       ?lin sample_tables = (Inr g, t1)"
    by (simp add: grant_lease_def lease_expiry_def checked_add_i64_def sample_tables_simps lineage_matches_def
        next_generation_def insert_lease_row_def Let_def) (simp add: sample_tables_def sample_lease_def)
  then obtain g t1 where g: "grant_lease show_hyphenated 60000 9 2 (StreamPrefixScope ''thread:7'') (DispatchId ''e'')
       ?lin sample_tables = (Inr g, t1)" by blast
  have "authority_later sample_columns sample_tokens 60000 t1 t1" by (simp add: authority_later_def)
  moreover have "tk_show_uuid sample_tokens = show_hyphenated" by (simp add: sample_tokens_def)
  ultimately have "\<exists>d \<in> {Superseded, UnknownLease}. append_if_current sample_columns 0 10 (EventStreamId ''thread:7'')
       (dl_lease_id sample_lease) (EventSequence 1) [sample_record 1] t1 = (Inr (LeaseRejected d), t1)"
    using retired_lease_never_writes [OF sample_tables_reachable disjI1, THEN conjunct1] g by simp
  with g show ?thesis by blast
qed

text \<open>
  Expiry is not loss of authority.  While a lease is the latest of its scope and was not released, renewing it
  succeeds however long ago it expired, and from then until the new deadline it passes the fence of every
  stream of its scope.
\<close>

theorem latest_lease_can_return:
  assumes "authority_reachable codec lib ttl t" "l \<in> set (latest_unreleased_leases t)"
    and "- (2 ^ 63) \<le> now + ttl" "now + ttl < 2 ^ 63"
  shows "\<exists>g t'. renew_lease ttl now (dl_lease_id l) t = (Inr g, t') \<and> lg_expires_at_ms g = max (now + ttl) (dl_expires_at_ms l) \<and>
    (\<forall>i later. authorizes (dl_scope l) i \<longrightarrow> later < now + ttl \<longrightarrow> fence_decision i (dl_lease_id l) later t' = Current)"
proof -
  from authority_ok [OF assms(1)] have ok: "leases_ok t" by simp
  have l: "lease_by_id (dl_lease_id l) t = Some l" using ok assms(2) by (simp add: lease_by_id_Some leases_ok_def live_iff)
  let ?ms = "max (now + ttl) (dl_expires_at_ms l)"
  let ?g = "\<lambda>row. if dl_lease_id row = dl_lease_id l then row\<lparr>dl_expires_at_ms := ?ms\<rparr> else row"
  let ?t = "update_lease (dl_lease_id l) (\<lambda>row. row\<lparr>dl_expires_at_ms := ?ms\<rparr>) t"
  have "lease_expiry now ttl = Inr (now + ttl)" using assms(3,4) by (simp add: lease_expiry_def checked_add_i64_def)
  moreover have "is_latest (dl_lease_id l) l t" "dl_released_at_ms l = None"
    using assms(2) by (simp_all add: is_latest_iff [OF ok l] live_iff)
  ultimately have renewed: "renew_lease ttl now (dl_lease_id l) t =
      (Inr (lease_grant (l\<lparr>dl_expires_at_ms := ?ms\<rparr>)), ?t)"
    using l by (simp add: renew_lease_def Let_def)
  have ok': "leases_ok ?t" by (rule renew_ok [OF ok renewed])
  have g: "keeps_identity ?g" by (rule keeps_identity_update) simp
  have live: "l\<lparr>dl_expires_at_ms := ?ms\<rparr> \<in> set (latest_unreleased_leases ?t)"
    using assms(2) \<open>dl_released_at_ms l = None\<close> unfolding live_map [OF g, of ?t t, simplified update_lease_def, simplified]
      update_lease_def by (intro bexI [of _ l]) simp_all
  have "fence_decision i (dl_lease_id l) later ?t = Current" if "authorizes (dl_scope l) i" "later < now + ttl" for i later
    using fence_of_live [OF ok' live, of i later] that by simp
  with renewed show ?thesis by (auto simp: lease_grant_def)
qed

theorem latest_lease_can_return_witness:
  "\<exists>g t'. renew_lease 60000 100000 (dl_lease_id sample_lease) sample_tables = (Inr g, t') \<and>
     fence_decision (EventStreamId ''thread:7'') (dl_lease_id sample_lease) 150000 t' = Current"
proof -
  have "sample_lease \<in> set (latest_unreleased_leases sample_tables)" by (simp add: sample_tables_simps)
  moreover have "authorizes (dl_scope sample_lease) (EventStreamId ''thread:7'')"
    using sample_tables_simps(3) by (simp add: sample_lease_def)
  ultimately show ?thesis using latest_lease_can_return [OF sample_tables_reachable, of sample_lease 100000] by fastforce
qed

end
