(* ===== verification/Ingress_Queue.thy ===== *)
theory Ingress_Queue
  imports Io_Envelopes Sqlite_Properties Control_Decision
begin

section \<open>The durable ingress queue of a remote child\<close>

text \<open>
  \<^verbatim>\<open>src/crates/verlet-kernel/src/daemon/remote_store/queue.rs\<close>: the parent lands envelopes for a child in a
  table of its own store, the child tails its queue_of and acknowledges.  A retried submit with the same
  dispatch id folds into the entry that is there; it is never inserted twice and never replaced.
  The text of an entry and of identifiers is an argument (\<open>queue_codec\<close>).
\<close>

definition sync_ingress_queue_entry_schema :: string where
  "sync_ingress_queue_entry_schema = ''cooldis.stream.sync_ingress_queue_entry/1''"

definition sync_ingress_queue_stream_prefix :: string where
  "sync_ingress_queue_stream_prefix = ''sync-ingress:''"

definition remote_ingress_queue_stream_id :: "(uuid \<Rightarrow> string) \<Rightarrow> thread_id \<Rightarrow> event_stream_id" where
  "remote_ingress_queue_stream_id show_uuid target_thread_id =
     EventStreamId (sync_ingress_queue_stream_prefix @ show_thread_id show_uuid target_thread_id)"

definition remote_ingress_queue_target ::
  "(string \<Rightarrow> uuid option) \<Rightarrow> event_stream_id \<Rightarrow> thread_id option" where
  "remote_ingress_queue_target parse_uuid_str stream_id =
     Option.bind (strip_prefix sync_ingress_queue_stream_prefix (stream_id_str stream_id)) (\<lambda>value.
       if value = [] \<or> CHR '':'' \<in> set value then None
       else thread_id_parse_str parse_uuid_str value)"

record remote_ingress_queue_entry =
  qe_schema :: string
  qe_dispatch_id :: dispatch_id
  qe_target_thread_id :: thread_id
  qe_envelope :: ingress_envelope
  qe_enqueued_at_ms :: i64

datatype remote_enqueue_disposition = Enqueued | FoldedToExisting

record remote_enqueue_receipt =
  er_entry :: remote_ingress_queue_entry
  er_disposition :: remote_enqueue_disposition

record remote_ingress_queue_page =
  qp_entries :: "remote_ingress_queue_entry list"
  qp_next :: "event_sequence option"

record queue_row =
  qr_target_thread_id :: string
  qr_sequence :: i64
  qr_event_id :: string
  qr_dispatch_id :: string
  qr_entry_json :: string
  qr_acknowledged_at_ms :: "i64 option"

record queue_codec =
  qc_show_uuid :: "uuid \<Rightarrow> string"
  qc_parse_uuid :: "string \<Rightarrow> uuid option"
  qc_entry_text :: "remote_ingress_queue_entry \<Rightarrow> string"
  qc_parse_entry :: "string \<Rightarrow> string + remote_ingress_queue_entry"
  qc_entry_json :: "remote_ingress_queue_entry \<Rightarrow> json"

definition validate_queue_entry :: "remote_ingress_queue_entry \<Rightarrow> unit verlet_result" where
  "validate_queue_entry entry =
     (if qe_schema entry \<noteq> sync_ingress_queue_entry_schema
      then Inl (HistoryMessage ''unsupported remote ingress queue entry schema'')
      else
        (case ie_dedupe_key (qe_envelope entry) of
           None \<Rightarrow> Inl (HistoryMessage ''remote ingress queue entry requires a dispatch dedupe key'')
         | Some dedupe_key \<Rightarrow>
             if dk_key dedupe_key \<noteq> dispatch_id_str (qe_dispatch_id entry)
             then Inl (HistoryMessage ''remote ingress queue dedupe key does not match dispatch id'')
             else if qe_enqueued_at_ms entry \<noteq> 0
             then Inl (HistoryMessage ''remote ingress queue enqueued_at_ms must be zero for stable retry identity'')
             else Inr ()))"

definition decode_queue_entry :: "queue_codec \<Rightarrow> string \<Rightarrow> remote_ingress_queue_entry verlet_result" where
  "decode_queue_entry codec encoded =
     (case qc_parse_entry codec encoded of
        Inl e \<Rightarrow> Inl (HistoryMessage (''decode remote ingress queue entry: '' @ e))
      | Inr entry \<Rightarrow> and_then (validate_queue_entry entry) (\<lambda>_. Inr entry))"

definition parse_queue_event_id :: "queue_codec \<Rightarrow> string \<Rightarrow> event_record_id verlet_result" where
  "parse_queue_event_id codec value =
     (case qc_parse_uuid codec value of
        None \<Rightarrow> Inl (HistoryMessage (''decode queue event id: '' @ value)) | Some u \<Rightarrow> Inr (EventRecordId u))"

text \<open>The \<open>INSERT\<close> under \<open>PRIMARY KEY(target_thread_id, dispatch_id)\<close> and the two unique columns\<close>

definition insert_queue_row :: "queue_row \<Rightarrow> queue_row list \<Rightarrow> unit verlet_result \<times> queue_row list" where
  "insert_queue_row row rows =
     (if \<exists>other \<in> set rows. qr_event_id other = qr_event_id row \<or>
           qr_target_thread_id other = qr_target_thread_id row \<and>
           (qr_dispatch_id other = qr_dispatch_id row \<or> qr_sequence other = qr_sequence row)
      then (Inl (StoreError constraint_failed), rows)
      else (Inr (), rows @ [row]))"

definition next_queue_sequence :: "string \<Rightarrow> queue_row list \<Rightarrow> i64" where
  "next_queue_sequence target rows =
     (let sequences = map qr_sequence (filter (\<lambda>row. qr_target_thread_id row = target) rows) in
      (if sequences = [] then 0 else Max (set sequences)) + 1)"

definition enqueue ::
  "queue_codec \<Rightarrow> uuid \<Rightarrow> remote_ingress_queue_entry \<Rightarrow> queue_row list \<Rightarrow>
   remote_enqueue_receipt verlet_result \<times> queue_row list" where
  "enqueue codec fresh entry rows =
     or_return (validate_queue_entry entry) rows (\<lambda>_.
     let target = show_thread_id (qc_show_uuid codec) (qe_target_thread_id entry);
         dispatch = dispatch_id_str (qe_dispatch_id entry) in
     case find (\<lambda>row. qr_target_thread_id row = target \<and> qr_dispatch_id row = dispatch) rows of
       Some row \<Rightarrow>
         or_return (decode_queue_entry codec (qr_entry_json row)) rows (\<lambda>existing.
         if existing \<noteq> entry
         then (Inl (HistoryMessage (''remote ingress dispatch '' @ dispatch @
                 '' already exists with a different payload'')), rows)
         else (Inr \<lparr>er_entry = existing, er_disposition = FoldedToExisting\<rparr>, rows))
     | None \<Rightarrow>
         (case insert_queue_row
             \<lparr>qr_target_thread_id = target, qr_sequence = next_queue_sequence target rows,
              qr_event_id = qc_show_uuid codec fresh, qr_dispatch_id = dispatch,
              qr_entry_json = qc_entry_text codec entry, qr_acknowledged_at_ms = None\<rparr> rows of
            (Inl e, _) \<Rightarrow> (Inl e, rows)
          | (Inr _, rows') \<Rightarrow> (Inr \<lparr>er_entry = entry, er_disposition = Enqueued\<rparr>, rows')))"

record stored_queue_row =
  sr_sequence :: event_sequence
  sr_event_id :: event_record_id
  sr_entry :: remote_ingress_queue_entry

definition decode_queue_row :: "queue_codec \<Rightarrow> thread_id \<Rightarrow> queue_row \<Rightarrow> stored_queue_row verlet_result" where
  "decode_queue_row codec target_thread_id row =
     and_then (parse_queue_event_id codec (qr_event_id row)) (\<lambda>event_id.
     and_then (decode_queue_entry codec (qr_entry_json row)) (\<lambda>entry.
     if qe_target_thread_id entry \<noteq> target_thread_id
     then Inl (HistoryMessage ''remote ingress queue row target does not match its partition'')
     else Inr \<lparr>sr_sequence = EventSequence (qr_sequence row), sr_event_id = event_id, sr_entry = entry\<rparr>))"

definition pending_rows ::
  "queue_codec \<Rightarrow> thread_id \<Rightarrow> event_sequence option \<Rightarrow> queue_row list \<Rightarrow> stored_queue_row list verlet_result" where
  "pending_rows codec target_thread_id after rows =
     (let after = (case after of Some q \<Rightarrow> sequence_get q | None \<Rightarrow> 0) in
      collect_results (decode_queue_row codec target_thread_id)
        (sort_key qr_sequence (filter (\<lambda>row.
           qr_target_thread_id row = show_thread_id (qc_show_uuid codec) target_thread_id \<and>
           qr_sequence row > after \<and> qr_acknowledged_at_ms row = None) rows)))"

definition tail_pending ::
  "queue_codec \<Rightarrow> thread_id \<Rightarrow> event_sequence option \<Rightarrow> queue_row list \<Rightarrow> remote_ingress_queue_page verlet_result" where
  "tail_pending codec target_thread_id after rows =
     and_then (pending_rows codec target_thread_id after rows) (\<lambda>pending.
     Inr \<lparr>qp_entries = map sr_entry pending,
       qp_next = (if pending = [] then after else Some (sr_sequence (last pending)))\<rparr>)"

definition acknowledge ::
  "queue_codec \<Rightarrow> i64 \<Rightarrow> thread_id \<Rightarrow> dispatch_id \<Rightarrow> queue_row list \<Rightarrow> unit verlet_result \<times> queue_row list" where
  "acknowledge codec now_ms target_thread_id dispatch_id rows =
     (Inr (), map (\<lambda>row.
        if qr_target_thread_id row = show_thread_id (qc_show_uuid codec) target_thread_id \<and>
           qr_dispatch_id row = dispatch_id_str dispatch_id \<and> qr_acknowledged_at_ms row = None
        then row\<lparr>qr_acknowledged_at_ms := Some now_ms\<rparr> else row) rows)"

definition queue_coordinates :: "thread_id \<Rightarrow> thread_coordinates" where
  "queue_coordinates target_thread_id =
     \<lparr>tc_tenant_id = ''remote-ingress'', tc_user_id = ''remote-ingress'', tc_session_id = ''remote-ingress'',
      tc_thread_id = target_thread_id\<rparr>"

definition queue_row_into_wire ::
  "queue_codec \<Rightarrow> event_stream_id \<Rightarrow> stored_queue_row \<Rightarrow> stream_record_envelope" where
  "queue_row_into_wire codec stream_id row =
     \<lparr>se_schema = stream_record_schema_id, se_event_id = sr_event_id row, se_stream_id = stream_id,
      se_sequence = sr_sequence row, se_coordinates = queue_coordinates (qe_target_thread_id (sr_entry row)),
      se_created_at_ms = qe_enqueued_at_ms (sr_entry row), se_kind = ''sync.ingress.queue.entry'',
      se_origin = Witnessed, se_payload_schema = sync_ingress_queue_entry_schema, se_trace_context = None,
      se_provenance = provenance_default, se_payload = qc_entry_json codec (sr_entry row)\<rparr>"

definition verify_queue_cursor :: "queue_codec \<Rightarrow> thread_id \<Rightarrow> stream_cursor \<Rightarrow> queue_row list \<Rightarrow> unit verlet_result" where
  "verify_queue_cursor codec target_thread_id cursor rows =
     (case find (\<lambda>row. qr_target_thread_id row = show_thread_id (qc_show_uuid codec) target_thread_id \<and>
          qr_sequence row = sequence_get (cu_sequence cursor)) rows of
        None \<Rightarrow> Inl (HistoryMessage ''remote ingress queue cursor sequence is absent'')
      | Some row \<Rightarrow>
          if qr_event_id row \<noteq> show_event_id (qc_show_uuid codec) (cu_event_id cursor)
          then Inl (HistoryMessage ''remote ingress queue cursor event id diverged'')
          else Inr ())"

definition queue_pull_after ::
  "queue_codec \<Rightarrow> event_stream_id \<Rightarrow> stream_cursor option \<Rightarrow> queue_row list \<Rightarrow>
   stream_record_envelope list verlet_result" where
  "queue_pull_after codec stream_id cursor rows =
     (case remote_ingress_queue_target (qc_parse_uuid codec) stream_id of
        None \<Rightarrow> Inl (HistoryMessage (''invalid remote ingress queue stream '' @ stream_id_str stream_id))
      | Some target_thread_id \<Rightarrow>
          and_then (case cursor of
              None \<Rightarrow> Inr None
            | Some cursor \<Rightarrow>
                and_then (history_err (validate_stream_cursor_v1 (qc_show_uuid codec) cursor)) (\<lambda>_.
                if cu_stream_id cursor \<noteq> stream_id
                then Inl (HistoryMessage ''remote ingress queue cursor belongs to a different stream'')
                else and_then (verify_queue_cursor codec target_thread_id cursor rows) (\<lambda>_.
                  Inr (Some (cu_sequence cursor))))) (\<lambda>after.
          and_then (pending_rows codec target_thread_id after rows) (\<lambda>pending.
          Inr (map (queue_row_into_wire codec stream_id) pending))))"

subsection \<open>Reachable queues\<close>

definition entry_reads_back :: "queue_codec \<Rightarrow> remote_ingress_queue_entry \<Rightarrow> bool" where
  "entry_reads_back codec e \<longleftrightarrow> qc_parse_entry codec (qc_entry_text codec e) = Inr e"

definition row_holds :: "queue_codec \<Rightarrow> remote_ingress_queue_entry \<Rightarrow> queue_row \<Rightarrow> bool" where
  "row_holds codec e row \<longleftrightarrow> qr_entry_json row = qc_entry_text codec e \<and> entry_reads_back codec e \<and>
     validate_queue_entry e = Inr () \<and> (\<exists>u. qr_event_id row = qc_show_uuid codec u) \<and>
     qr_target_thread_id row = show_thread_id (qc_show_uuid codec) (qe_target_thread_id e) \<and>
     qr_dispatch_id row = dispatch_id_str (qe_dispatch_id e)"

definition queue_of :: "string \<Rightarrow> queue_row list \<Rightarrow> queue_row list" where
  "queue_of target rows = filter (\<lambda>row. qr_target_thread_id row = target) rows"

definition queue_ok :: "queue_codec \<Rightarrow> queue_row list \<Rightarrow> bool" where
  "queue_ok codec rows \<longleftrightarrow> (\<forall>row \<in> set rows. \<exists>e. row_holds codec e row) \<and>
     distinct (map (\<lambda>row. (qr_target_thread_id row, qr_dispatch_id row)) rows) \<and>
     (\<forall>target. map qr_sequence (queue_of target rows) = map (\<lambda>k. int k + 1) [0..<length (queue_of target rows)])"

inductive queue_call :: "queue_codec \<Rightarrow> queue_row list \<Rightarrow> bool \<Rightarrow> queue_row list \<Rightarrow> bool" for codec where
  call_enqueue: "enqueue codec fresh e rows = (r, rows') \<Longrightarrow> entry_reads_back codec e \<Longrightarrow> queue_call codec rows (is_ok r) rows'"
| call_acknowledge: "acknowledge codec now t d rows = (r, rows') \<Longrightarrow> queue_call codec rows (is_ok r) rows'"

definition queue_later :: "queue_codec \<Rightarrow> queue_row list \<Rightarrow> queue_row list \<Rightarrow> bool" where
  "queue_later codec = (\<lambda>rows rows'. \<exists>ok. queue_call codec rows ok rows')\<^sup>*\<^sup>*"

definition queue_reachable :: "queue_codec \<Rightarrow> queue_row list \<Rightarrow> bool" where
  "queue_reachable codec rows \<longleftrightarrow> queue_later codec [] rows"

lemma decode_held:
  "row_holds codec e row \<Longrightarrow> decode_queue_entry codec (qr_entry_json row) = Inr e"
  by (simp add: row_holds_def decode_queue_entry_def entry_reads_back_def)

lemma next_sequence_queue:
  assumes "queue_ok codec rows"
  shows "next_queue_sequence target rows = int (length (queue_of target rows)) + 1"
proof -
  let ?n = "length (queue_of target rows)"
  have seqs: "map qr_sequence (queue_of target rows) = map (\<lambda>k. int k + 1) [0..<?n]"
    using assms by (simp add: queue_ok_def)
  have "Max (set (map (\<lambda>k. int k + 1) [0..<n])) = int n" if "n \<noteq> 0" for n
  proof (cases n)
    case (Suc m)
    then show ?thesis by (intro Max_eqI) (auto simp: image_iff)
  qed (use that in simp)
  then show ?thesis
    using seqs unfolding next_queue_sequence_def queue_of_def [symmetric] Let_def
    by (cases "?n = 0") (simp_all del: set_map)
qed

lemma enqueue_cases:
  assumes "enqueue codec fresh e rows = (r, rows')"
  obtains (err) x where "r = Inl x" "rows' = rows"
  | (folded) "r = Inr \<lparr>er_entry = e, er_disposition = FoldedToExisting\<rparr>" "rows' = rows" "validate_queue_entry e = Inr ()"
      "\<exists>row \<in> set rows. qr_target_thread_id row = show_thread_id (qc_show_uuid codec) (qe_target_thread_id e) \<and>
        qr_dispatch_id row = dispatch_id_str (qe_dispatch_id e) \<and> decode_queue_entry codec (qr_entry_json row) = Inr e"
  | (new) row where "r = Inr \<lparr>er_entry = e, er_disposition = Enqueued\<rparr>" "rows' = rows @ [row]"
      "validate_queue_entry e = Inr ()"
      "row = \<lparr>qr_target_thread_id = show_thread_id (qc_show_uuid codec) (qe_target_thread_id e),
        qr_sequence = next_queue_sequence (show_thread_id (qc_show_uuid codec) (qe_target_thread_id e)) rows,
        qr_event_id = qc_show_uuid codec fresh, qr_dispatch_id = dispatch_id_str (qe_dispatch_id e),
        qr_entry_json = qc_entry_text codec e, qr_acknowledged_at_ms = None\<rparr>"
      "\<not> (\<exists>row \<in> set rows. qr_target_thread_id row = show_thread_id (qc_show_uuid codec) (qe_target_thread_id e) \<and>
        qr_dispatch_id row = dispatch_id_str (qe_dispatch_id e))"
proof (cases "validate_queue_entry e")
  case (Inl x)
  with assms show thesis by (intro err [of x]) (simp_all add: enqueue_def)
next
  case (Inr u)
  let ?P = "\<lambda>row. qr_target_thread_id row = show_thread_id (qc_show_uuid codec) (qe_target_thread_id e) \<and>
    qr_dispatch_id row = dispatch_id_str (qe_dispatch_id e)"
  show thesis
  proof (cases "find ?P rows")
    case (Some row)
    then have row: "row \<in> set rows" "?P row" by (auto simp: find_Some_iff)
    show thesis
    proof (cases "decode_queue_entry codec (qr_entry_json row) = Inr e")
      case True
      with assms Inr Some row show thesis by (intro folded) (auto simp: enqueue_def Let_def)
    next
      case False
      with assms Inr Some have "\<exists>x. r = Inl x \<and> rows' = rows"
        by (cases "decode_queue_entry codec (qr_entry_json row)") (auto simp: enqueue_def Let_def)
      with err show thesis by blast
    qed
  next
    case None
    then have none: "\<not> (\<exists>row \<in> set rows. ?P row)" by (auto simp: find_None_iff)
    define row where "row = \<lparr>qr_target_thread_id = show_thread_id (qc_show_uuid codec) (qe_target_thread_id e),
        qr_sequence = next_queue_sequence (show_thread_id (qc_show_uuid codec) (qe_target_thread_id e)) rows,
        qr_event_id = qc_show_uuid codec fresh, qr_dispatch_id = dispatch_id_str (qe_dispatch_id e),
        qr_entry_json = qc_entry_text codec e, qr_acknowledged_at_ms = None\<rparr>"
    obtain v rows1 where v: "insert_queue_row row rows = (v, rows1)" by (cases "insert_queue_row row rows")
    have eq: "enqueue codec fresh e rows = (case (v, rows1) of (Inl e, _) \<Rightarrow> (Inl e, rows)
        | (Inr _, rows') \<Rightarrow> (Inr \<lparr>er_entry = e, er_disposition = Enqueued\<rparr>, rows'))"
      using None Inr unfolding enqueue_def v [symmetric] row_def by (simp add: Let_def)
    show thesis
    proof (cases v)
      case (Inl x)
      with assms eq show thesis by (intro err [of x]) simp_all
    next
      case (Inr w)
      with v have "rows1 = rows @ [row]" by (auto simp: insert_queue_row_def split: if_splits)
      with assms eq Inr \<open>validate_queue_entry e = Inr u\<close> none show thesis by (intro new [of row]) (simp_all add: row_def)
    qed
  qed
qed

lemma queue_of_snoc:
  "queue_of target (rows @ [row]) = queue_of target rows @ (if qr_target_thread_id row = target then [row] else [])"
  by (simp add: queue_of_def)

lemma enqueue_queue_ok:
  assumes "queue_ok codec rows" "entry_reads_back codec e" "enqueue codec fresh e rows = (r, rows')"
  shows "queue_ok codec rows'"
  using assms(3)
proof (cases rule: enqueue_cases)
  case (new row)
  have "row_holds codec e row" using new(3) assms(2) by (auto simp: row_holds_def new(4))
  moreover have "(qr_target_thread_id row, qr_dispatch_id row) \<notin> (\<lambda>row. (qr_target_thread_id row, qr_dispatch_id row)) ` set rows"
    using new(5) by (auto simp: new(4))
  moreover have "qr_sequence row = int (length (queue_of (qr_target_thread_id row) rows)) + 1"
    using next_sequence_queue [OF assms(1)] by (simp add: new(4))
  ultimately show ?thesis
    using assms(1) unfolding queue_ok_def new(2) by (auto simp: queue_of_snoc)
qed (use assms(1) in auto)

text \<open>Acknowledging touches nothing but the time stamp.\<close>

definition unacknowledged :: "queue_row \<Rightarrow> queue_row" where
  "unacknowledged row = row\<lparr>qr_acknowledged_at_ms := None\<rparr>"

lemma acknowledge_rows:
  assumes "acknowledge codec now t d rows = (r, rows')"
  shows "map unacknowledged rows' = map unacknowledged rows"
  using assms by (auto simp: acknowledge_def unacknowledged_def)

lemma unacknowledged_simps:
  "qr_target_thread_id (unacknowledged row) = qr_target_thread_id row" "qr_sequence (unacknowledged row) = qr_sequence row"
  "qr_dispatch_id (unacknowledged row) = qr_dispatch_id row" "qr_entry_json (unacknowledged row) = qr_entry_json row"
  "row_holds codec e (unacknowledged row) = row_holds codec e row"
  by (simp_all add: unacknowledged_def row_holds_def)

lemma queue_ok_unacknowledged: "queue_ok codec (map unacknowledged rows) = queue_ok codec rows"
proof -
  have "queue_of target (map unacknowledged rows) = map unacknowledged (queue_of target rows)" for target
    by (simp add: queue_of_def filter_map comp_def unacknowledged_simps)
  then show ?thesis by (simp add: queue_ok_def comp_def unacknowledged_simps)
qed

interpretation ingress_queue: monotone_state "queue_call codec" "[]" "queue_ok codec"
    "\<lambda>rows rows'. prefix (map unacknowledged rows) (map unacknowledged rows')" for codec
proof unfold_locales
  show "queue_ok codec []" by (simp add: queue_ok_def queue_of_def)
  show "queue_ok codec rows'" if "queue_ok codec rows" "queue_call codec rows ok rows'" for rows ok rows'
    using that(2,1)
  proof (cases rule: queue_call.cases)
    case (call_enqueue fresh e r)
    with that(1) show ?thesis by (metis enqueue_queue_ok)
  next
    case (call_acknowledge now t d r)
    with that(1) acknowledge_rows [of codec now t d rows r rows'] queue_ok_unacknowledged show ?thesis by metis
  qed
  show "prefix (map unacknowledged rows) (map unacknowledged rows'')"
    if "prefix (map unacknowledged rows) (map unacknowledged rows')"
      "prefix (map unacknowledged rows') (map unacknowledged rows'')" for rows rows' rows''
    using that by (rule prefix_order.trans)
  show "prefix (map unacknowledged rows) (map unacknowledged rows')"
    if "queue_ok codec rows" "queue_call codec rows ok rows'" for rows ok rows'
    using that(2)
  proof (cases rule: queue_call.cases)
    case (call_enqueue fresh e r)
    from call_enqueue(2) show ?thesis by (cases rule: enqueue_cases) simp_all
  next
    case (call_acknowledge now t d r)
    with acknowledge_rows show ?thesis by (metis prefix_order.refl)
  qed
qed simp

text \<open>Histories of the queue: what the parent and the child asked for, in the order it was served\<close>

datatype queue_request =
    EnqueueRequest uuid remote_ingress_queue_entry
  | AcknowledgeRequest i64 thread_id dispatch_id

fun serve_queue :: "queue_codec \<Rightarrow> queue_request \<Rightarrow> queue_row list \<Rightarrow> queue_row list" where
  "serve_queue codec (EnqueueRequest fresh e) rows = snd (enqueue codec fresh e rows)"
| "serve_queue codec (AcknowledgeRequest now t d) rows = snd (acknowledge codec now t d rows)"

definition readable_requests :: "queue_codec \<Rightarrow> queue_request list \<Rightarrow> bool" where
  "readable_requests codec requests \<longleftrightarrow>
     (\<forall>fresh e. EnqueueRequest fresh e \<in> set requests \<longrightarrow> entry_reads_back codec e)"

definition acknowledges :: "remote_ingress_queue_entry \<Rightarrow> queue_request list \<Rightarrow> bool" where
  "acknowledges e requests \<longleftrightarrow>
     (\<exists>now. AcknowledgeRequest now (qe_target_thread_id e) (qe_dispatch_id e) \<in> set requests)"

text \<open>What a tail after a cursor owes the child: the rows of its queue, in order of arrival\<close>

definition owed ::
  "queue_codec \<Rightarrow> thread_id \<Rightarrow> event_sequence option \<Rightarrow> queue_row list \<Rightarrow> queue_row list" where
  "owed codec t after rows = filter (\<lambda>row. qr_acknowledged_at_ms row = None \<and>
     (case after of Some q \<Rightarrow> sequence_get q | None \<Rightarrow> 0) < qr_sequence row)
     (queue_of (show_thread_id (qc_show_uuid codec) t) rows)"

lemma serve_queue_ok:
  assumes "queue_ok codec rows" "readable_requests codec [r]"
  shows "queue_ok codec (serve_queue codec r rows)"
proof (cases r)
  case (EnqueueRequest fresh e)
  with assms(2) have "entry_reads_back codec e" by (simp add: readable_requests_def)
  with assms(1) enqueue_queue_ok show ?thesis unfolding EnqueueRequest by (metis serve_queue.simps(1) prod.collapse)
next
  case (AcknowledgeRequest now t d)
  have "map unacknowledged (serve_queue codec r rows) = map unacknowledged rows"
    unfolding AcknowledgeRequest by (metis serve_queue.simps(2) acknowledge_rows prod.collapse)
  with assms(1) show ?thesis by (metis queue_ok_unacknowledged)
qed

subsection \<open>Properties\<close>

lemma held_key:
  assumes "queue_ok codec rows" "row \<in> set rows" "row' \<in> set rows"
    "qr_target_thread_id row = qr_target_thread_id row'" "qr_dispatch_id row = qr_dispatch_id row'"
  shows "row = row'"
  using assms by (auto simp: queue_ok_def distinct_map dest: inj_onD)

lemma enqueue_again:
  assumes "queue_ok codec rows" "row \<in> set rows" "row_holds codec e row" "validate_queue_entry e' = Inr ()"
    and "qe_target_thread_id e' = qe_target_thread_id e" "qe_dispatch_id e' = qe_dispatch_id e"
  shows "if e' = e then enqueue codec fresh e' rows = (Inr \<lparr>er_entry = e, er_disposition = FoldedToExisting\<rparr>, rows)
    else \<exists>x. enqueue codec fresh e' rows = (Inl x, rows)"
proof -
  let ?P = "\<lambda>row. qr_target_thread_id row = show_thread_id (qc_show_uuid codec) (qe_target_thread_id e) \<and>
    qr_dispatch_id row = dispatch_id_str (qe_dispatch_id e)"
  have row: "?P row" using assms(3) by (simp add: row_holds_def)
  then obtain row' where row': "find ?P rows = Some row'" using assms(2) by (cases "find ?P rows") (auto simp: find_None_iff)
  then have "row' \<in> set rows" "?P row'" by (auto simp: find_Some_iff)
  with row held_key [OF assms(1) _ assms(2)] have "row' = row" by simp
  with row' decode_held [OF assms(3)] assms(4) show ?thesis by (auto simp: enqueue_def Let_def assms(5,6))
qed

lemma tail_of_queue:
  assumes "queue_ok codec rows" "uuid_codec (qc_show_uuid codec) (qc_parse_uuid codec)"
  shows "\<exists>page. tail_pending codec t after rows = Inr page \<and>
    list_all2 (row_holds codec) (qp_entries page) (owed codec t after rows)"
proof -
  let ?n = "case after of Some q \<Rightarrow> sequence_get q | None \<Rightarrow> 0" and ?t = "show_thread_id (qc_show_uuid codec) t"
  define todo where "todo = filter (\<lambda>row. qr_acknowledged_at_ms row = None \<and> ?n < qr_sequence row) (queue_of ?t rows)"
  have seqs: "map qr_sequence (queue_of ?t rows) = map (\<lambda>k. int k + 1) [0..<length (queue_of ?t rows)]"
    using assms(1) by (simp add: queue_ok_def)
  have "sorted (map qr_sequence (queue_of ?t rows))" unfolding seqs by (simp add: sorted_iff_nth_mono)
  then have "sorted (map qr_sequence todo)" unfolding todo_def by (rule sorted_filter)
  moreover have "filter (\<lambda>row. qr_target_thread_id row = ?t \<and> qr_sequence row > ?n \<and> qr_acknowledged_at_ms row = None) rows = todo"
    by (simp add: todo_def queue_of_def conj_ac cong: conj_cong)
  ultimately have pending: "pending_rows codec t after rows = collect_results (decode_queue_row codec t) todo"
    by (simp add: pending_rows_def sort_key_id_if_sorted)
  have one: "\<exists>sr. decode_queue_row codec t row = Inr sr \<and> row_holds codec (sr_entry sr) row" if "row \<in> set todo" for row
  proof -
    from that have row: "row \<in> set rows" "qr_target_thread_id row = ?t" by (auto simp: todo_def queue_of_def)
    with assms(1) obtain e where e: "row_holds codec e row" by (auto simp: queue_ok_def)
    then obtain u where u: "qr_event_id row = qc_show_uuid codec u" by (auto simp: row_holds_def)
    have "qe_target_thread_id e = t"
      using e row(2) uuid_codec.show_inj [OF assms(2)] by (cases t; cases "qe_target_thread_id e") (simp add: row_holds_def)
    with e u decode_held [OF e] show ?thesis
      by (simp add: decode_queue_row_def parse_queue_event_id_def uuid_codec.parse_show [OF assms(2)])
  qed
  then obtain f where f: "\<forall>row \<in> set todo. decode_queue_row codec t row = Inr (f row) \<and> row_holds codec (sr_entry (f row)) row"
    by metis
  then have "collect_results (decode_queue_row codec t) todo = Inr (map f todo)"
    by (simp add: collect_results_ok list_all2_conv_all_nth)
  with f show ?thesis
    unfolding tail_pending_def pending owed_def todo_def [symmetric]
    by (simp add: list_all2_conv_all_nth)
qed

lemma enqueued_row:
  assumes "queue_ok codec rows" "entry_reads_back codec e" "enqueue codec fresh e rows = (Inr receipt, rows1)"
  shows "validate_queue_entry e = Inr ()" and "\<exists>row \<in> set rows1. row_holds codec e row"
proof -
  show "validate_queue_entry e = Inr ()" using assms(3) by (cases rule: enqueue_cases) simp_all
  show "\<exists>row \<in> set rows1. row_holds codec e row"
    using assms(3)
  proof (cases rule: enqueue_cases)
    case folded
    then obtain row where row: "row \<in> set rows" "decode_queue_entry codec (qr_entry_json row) = Inr e" by blast
    with assms(1) obtain e' where "row_holds codec e' row" by (auto simp: queue_ok_def)
    with row decode_held have "row_holds codec e row" by fastforce
    with row(1) folded(2) show ?thesis by blast
  next
    case (new row)
    then have "row_holds codec e row" using assms(2) by (auto simp: row_holds_def)
    with new(2) show ?thesis by auto
  qed simp
qed

lemma held_row_unique:
  assumes "queue_ok codec rows" "row \<in> set rows" "row_holds codec e row"
  shows "filter (\<lambda>row. qr_target_thread_id row = show_thread_id (qc_show_uuid codec) (qe_target_thread_id e) \<and>
    qr_dispatch_id row = dispatch_id_str (qe_dispatch_id e)) rows = [row]" (is "filter ?P rows = _")
proof -
  have P: "?P row" using assms(3) by (simp add: row_holds_def)
  have "x = row" if "x \<in> set (filter ?P rows)" for x
    using that P by (intro held_key [OF assms(1) _ assms(2)]) auto
  moreover have "row \<in> set (filter ?P rows)" using P assms(2) by simp
  ultimately have one: "set (filter ?P rows) = {row}" by blast
  have "distinct rows" using assms(1) by (simp add: queue_ok_def distinct_map)
  then have "distinct (filter ?P rows)" by simp
  with one show ?thesis by (rule distinct_singleton)
qed

lemma list_all2_count:
  assumes "list_all2 P xs ys" "distinct ys" "y \<in> set ys \<Longrightarrow> P x y"
    and "\<And>x' y'. y' \<in> set ys \<Longrightarrow> P x' y' \<Longrightarrow> (x' = x) = (y' = y)"
  shows "count_list xs x = (if y \<in> set ys then 1 else 0)"
  using assms
proof (induction xs ys rule: list_all2_induct)
  case (Cons x' xs y' ys)
  then have "(x' = x) = (y' = y)" by simp
  moreover have "count_list xs x = (if y \<in> set ys then 1 else 0)" using Cons by simp
  ultimately show ?case using Cons(4) by auto
qed simp

lemma held_row_tailed:
  assumes "queue_ok codec rows" "uuid_codec (qc_show_uuid codec) (qc_parse_uuid codec)"
    and "row \<in> set rows" "row_holds codec e row"
  shows "\<exists>page. tail_pending codec (qe_target_thread_id e) after rows = Inr page \<and>
    list_all2 (row_holds codec) (qp_entries page) (owed codec (qe_target_thread_id e) after rows) \<and>
    count_list (qp_entries page) e =
      (if qr_acknowledged_at_ms row = None \<and>
          (case after of Some q \<Rightarrow> sequence_get q | None \<Rightarrow> 0) < qr_sequence row then 1 else 0)"
proof -
  let ?t = "qe_target_thread_id e"
  define todo where "todo = owed codec ?t after rows"
  from tail_of_queue [OF assms(1,2), of ?t after] obtain page where
    page: "tail_pending codec ?t after rows = Inr page" "list_all2 (row_holds codec) (qp_entries page) todo"
    by (auto simp: todo_def)
  have in_rows: "y \<in> set rows" if "y \<in> set todo" for y using that by (auto simp: todo_def owed_def queue_of_def)
  have "distinct rows" using assms(1) by (simp add: queue_ok_def distinct_map)
  then have "distinct todo" by (simp add: todo_def owed_def queue_of_def)
  moreover have "(x' = e) = (y' = row)" if y': "y' \<in> set todo" "row_holds codec x' y'" for x' y'
  proof
    assume "x' = e"
    with y'(2) assms(4) have "qr_target_thread_id y' = qr_target_thread_id row" "qr_dispatch_id y' = qr_dispatch_id row"
      by (simp_all add: row_holds_def)
    then show "y' = row" by (intro held_key [OF assms(1) in_rows [OF y'(1)] assms(3)])
  next
    assume "y' = row"
    with decode_held [OF y'(2)] decode_held [OF assms(4)] show "x' = e" by simp
  qed
  ultimately have "count_list (qp_entries page) e = (if row \<in> set todo then 1 else 0)"
    using assms(4) by (intro list_all2_count [OF page(2)])
  moreover have "row \<in> set todo \<longleftrightarrow> qr_acknowledged_at_ms row = None \<and>
      (case after of Some q \<Rightarrow> sequence_get q | None \<Rightarrow> 0) < qr_sequence row"
    using assms(3,4) by (simp add: todo_def owed_def queue_of_def row_holds_def)
  ultimately show ?thesis using page by (simp add: todo_def)
qed

lemma served_row_step:
  assumes "uuid_codec (qc_show_uuid codec) (qc_parse_uuid codec)" "row \<in> set rows" "row_holds codec e row"
  shows "\<exists>row' \<in> set (serve_queue codec r rows). unacknowledged row' = unacknowledged row \<and>
    (qr_acknowledged_at_ms row' = None \<longleftrightarrow> qr_acknowledged_at_ms row = None \<and> \<not> acknowledges e [r])"
proof (cases r)
  case (EnqueueRequest fresh e')
  obtain a rows' where "enqueue codec fresh e' rows = (a, rows')" by fastforce
  then have "row \<in> set rows'" "serve_queue codec r rows = rows'"
    using assms(2) unfolding EnqueueRequest by (cases rule: enqueue_cases; simp)+
  with EnqueueRequest show ?thesis by (auto simp: acknowledges_def)
next
  case (AcknowledgeRequest now t d)
  let ?hit = "qr_target_thread_id row = show_thread_id (qc_show_uuid codec) t \<and>
    qr_dispatch_id row = dispatch_id_str d \<and> qr_acknowledged_at_ms row = None"
  let ?row = "if ?hit then row\<lparr>qr_acknowledged_at_ms := Some now\<rparr> else row"
  have "?row \<in> set (serve_queue codec r rows)"
    using assms(2) by (force simp: AcknowledgeRequest acknowledge_def)
  moreover have "unacknowledged ?row = unacknowledged row" by (simp add: unacknowledged_def)
  moreover have "acknowledges e [r] \<longleftrightarrow> qr_target_thread_id row = show_thread_id (qc_show_uuid codec) t \<and>
      qr_dispatch_id row = dispatch_id_str d"
    using assms(3) uuid_codec.show_inj [OF assms(1)]
    by (cases t; cases "qe_target_thread_id e"; cases d; cases "qe_dispatch_id e")
      (auto simp: acknowledges_def AcknowledgeRequest row_holds_def)
  ultimately show ?thesis by (intro bexI [of _ ?row]) auto
qed

lemma served_row:
  assumes "uuid_codec (qc_show_uuid codec) (qc_parse_uuid codec)"
  shows "queue_ok codec rows \<Longrightarrow> readable_requests codec requests \<Longrightarrow> row \<in> set rows \<Longrightarrow>
    row_holds codec e row \<Longrightarrow>
    queue_ok codec (fold (serve_queue codec) requests rows) \<and>
    (\<exists>row' \<in> set (fold (serve_queue codec) requests rows). unacknowledged row' = unacknowledged row \<and>
      (qr_acknowledged_at_ms row' = None \<longleftrightarrow> qr_acknowledged_at_ms row = None \<and> \<not> acknowledges e requests))"
proof (induction requests arbitrary: rows row)
  case Nil
  then show ?case by (auto simp: acknowledges_def)
next
  case (Cons r requests)
  from served_row_step [OF assms Cons.prems(3,4), of r] obtain row1 where
    row1: "row1 \<in> set (serve_queue codec r rows)" "unacknowledged row1 = unacknowledged row"
      "qr_acknowledged_at_ms row1 = None \<longleftrightarrow> qr_acknowledged_at_ms row = None \<and> \<not> acknowledges e [r]"
    by (elim bexE conjE) (rule that)
  have readable: "readable_requests codec [r]" "readable_requests codec requests"
    using Cons.prems(2) by (simp_all add: readable_requests_def)
  have "row_holds codec e row1" using Cons.prems(4) row1(2) by (metis unacknowledged_simps(5))
  from Cons.IH [OF serve_queue_ok [OF Cons.prems(1) readable(1)] readable(2) row1(1) this]
  show ?case using row1(2,3) by (auto simp: acknowledges_def)
qed

text \<open>
  C19. A dispatch reaches the child's queue once, and stays pending until it is acknowledged.  After
  an enqueue answered, and after any further enqueues and acknowledgements, a retry of the same
  entry is folded into it without effect, and an entry with the same target and dispatch id but
  another content is refused without effect.  The queue holds exactly one row for that identity; but
  for its acknowledgement the row is the one the enqueue left, at the same position, and it
  is pending exactly if it was then (which it was if the enqueue was the first) and none of the
  further requests acknowledged this very target and dispatch id.  Every tail of the child, after
  any cursor, answers with the pending rows behind that cursor in the order of their arrival, and
  lists the entry once if it is pending and behind the cursor and not at all otherwise.
\<close>

theorem dispatch_enqueued_once:
  assumes "queue_reachable codec rows" "uuid_codec (qc_show_uuid codec) (qc_parse_uuid codec)" "entry_reads_back codec e"
    and "enqueue codec fresh e rows = (Inr receipt, rows1)"
    and "readable_requests codec requests" "rows2 = fold (serve_queue codec) requests rows1"
  shows "enqueue codec fresh2 e rows2 = (Inr \<lparr>er_entry = e, er_disposition = FoldedToExisting\<rparr>, rows2) \<and>
    (\<forall>e'. e' \<noteq> e \<longrightarrow> qe_target_thread_id e' = qe_target_thread_id e \<longrightarrow> qe_dispatch_id e' = qe_dispatch_id e \<longrightarrow>
       (\<exists>x. enqueue codec fresh2 e' rows2 = (Inl x, rows2))) \<and>
    (\<exists>row1 row. [row1] = filter (\<lambda>row. qr_target_thread_id row = show_thread_id (qc_show_uuid codec) (qe_target_thread_id e) \<and>
         qr_dispatch_id row = dispatch_id_str (qe_dispatch_id e)) rows1 \<and>
       [row] = filter (\<lambda>row. qr_target_thread_id row = show_thread_id (qc_show_uuid codec) (qe_target_thread_id e) \<and>
         qr_dispatch_id row = dispatch_id_str (qe_dispatch_id e)) rows2 \<and>
       unacknowledged row = unacknowledged row1 \<and>
       (er_disposition receipt = Enqueued \<longrightarrow> qr_acknowledged_at_ms row1 = None) \<and>
       (qr_acknowledged_at_ms row = None \<longleftrightarrow>
          qr_acknowledged_at_ms row1 = None \<and> \<not> acknowledges e requests) \<and>
       (\<forall>after. \<exists>page. tail_pending codec (qe_target_thread_id e) after rows2 = Inr page \<and>
          list_all2 (row_holds codec) (qp_entries page) (owed codec (qe_target_thread_id e) after rows2) \<and>
          count_list (qp_entries page) e =
            (if qr_acknowledged_at_ms row = None \<and>
                (case after of Some q \<Rightarrow> sequence_get q | None \<Rightarrow> 0) < qr_sequence row then 1 else 0)))"
proof -
  have ok: "queue_ok codec rows"
    using assms(1) unfolding queue_reachable_def queue_later_def by (rule ingress_queue.reachable_good)
  have ok1: "queue_ok codec rows1" by (rule enqueue_queue_ok [OF ok assms(3,4)])
  note valid = enqueued_row(1) [OF ok assms(3,4)]
  from enqueued_row(2) [OF ok assms(3,4)] obtain row1 where row1: "row1 \<in> set rows1" "row_holds codec e row1" by blast
  from served_row [OF assms(2) ok1 assms(5) row1] obtain row where ok2: "queue_ok codec rows2"
    and row: "row \<in> set rows2" "unacknowledged row = unacknowledged row1"
      "qr_acknowledged_at_ms row = None \<longleftrightarrow> qr_acknowledged_at_ms row1 = None \<and> \<not> acknowledges e requests"
    unfolding assms(6) [symmetric] by (elim conjE bexE) (rule that)
  have held: "row_holds codec e row" using row1(2) row(2) by (metis unacknowledged_simps(5))
  have other: "\<exists>x. enqueue codec fresh2 e' rows2 = (Inl x, rows2)"
    if "e' \<noteq> e" "qe_target_thread_id e' = qe_target_thread_id e" "qe_dispatch_id e' = qe_dispatch_id e" for e'
    using enqueue_again [OF ok2 row(1) held _ that(2,3), of fresh2] that(1)
    by (cases "validate_queue_entry e'") (auto simp: enqueue_def)
  have again: "enqueue codec fresh2 e rows2 = (Inr \<lparr>er_entry = e, er_disposition = FoldedToExisting\<rparr>, rows2)"
    using enqueue_again [OF ok2 row(1) held valid refl refl, of fresh2] by simp
  have first: "qr_acknowledged_at_ms row1 = None" if "er_disposition receipt = Enqueued"
    using assms(4)
  proof (cases rule: enqueue_cases)
    case (new x)
    then have x: "x \<in> set rows1" "qr_target_thread_id x = qr_target_thread_id row1" "qr_dispatch_id x = qr_dispatch_id row1"
      using row1(2) by (simp_all add: row_holds_def)
    have "x = row1" by (rule held_key [OF ok1 x(1) row1(1) x(2,3)])
    moreover have "qr_acknowledged_at_ms x = None" unfolding new(4) by simp
    ultimately show ?thesis by simp
  qed (use that in simp_all)
  show ?thesis
    using other again first row(2,3) held_row_unique [OF ok1 row1] held_row_unique [OF ok2 row(1) held]
      held_row_tailed [OF ok2 assms(2) row(1) held]
    by (intro conjI allI impI exI [of _ row1] exI [of _ row]) simp_all
qed

definition sample_queue_entry :: remote_ingress_queue_entry where
  "sample_queue_entry = \<lparr>qe_schema = sync_ingress_queue_entry_schema, qe_dispatch_id = DispatchId ''d'',
     qe_target_thread_id = ThreadId 7,
     qe_envelope = \<lparr>ie_id = ''ing'', ie_source = \<lparr>is_protocol = ''p'', is_instance_id = ''i'', is_metadata = []\<rparr>,
       ie_conversation = \<lparr>ic_external_conversation_id = ''c'', ic_kind = DirectConversation, ic_title = None,
         ic_external_thread_id = None, ic_metadata = []\<rparr>,
       ie_actor = None, ie_content = IngressText ''hello'', ie_attachments = [],
       ie_dedupe_key = Some \<lparr>dk_scope = ''s'', dk_key = ''d''\<rparr>, ie_delivery = None, ie_principal = None,
       ie_received_at_ms = 0, ie_metadata = []\<rparr>,
     qe_enqueued_at_ms = 0\<rparr>"

definition sample_queue_codec :: queue_codec where
  "sample_queue_codec = \<lparr>qc_show_uuid = show_hyphenated, qc_parse_uuid = parse_hyphenated, qc_entry_text = (\<lambda>_. ''e''),
     qc_parse_entry = (\<lambda>_. Inr sample_queue_entry), qc_entry_json = (\<lambda>_. JNull)\<rparr>"

theorem dispatch_enqueued_once_witness:
  "\<exists>rows rows2 page. enqueue sample_queue_codec 1 sample_queue_entry [] =
       (Inr \<lparr>er_entry = sample_queue_entry, er_disposition = Enqueued\<rparr>, rows) \<and>
     rows2 = snd (acknowledge sample_queue_codec 5 (ThreadId 7) (DispatchId ''other'') rows) \<and>
     enqueue sample_queue_codec 2 sample_queue_entry rows2 =
       (Inr \<lparr>er_entry = sample_queue_entry, er_disposition = FoldedToExisting\<rparr>, rows2) \<and>
     tail_pending sample_queue_codec (ThreadId 7) None rows2 = Inr page \<and>
     count_list (qp_entries page) sample_queue_entry = 1"
proof -
  have valid: "validate_queue_entry sample_queue_entry = Inr ()"
    by (simp add: validate_queue_entry_def sample_queue_entry_def)
  define row where "row = \<lparr>qr_target_thread_id = show_thread_id (qc_show_uuid sample_queue_codec) (ThreadId 7),
    qr_sequence = 1, qr_event_id = qc_show_uuid sample_queue_codec 1, qr_dispatch_id = ''d'',
    qr_entry_json = ''e'', qr_acknowledged_at_ms = None\<rparr>"
  let ?receipt = "\<lparr>er_entry = sample_queue_entry, er_disposition = Enqueued\<rparr>"
  have target: "qe_target_thread_id sample_queue_entry = ThreadId 7" "qe_dispatch_id sample_queue_entry = DispatchId ''d''"
      "qc_entry_text sample_queue_codec sample_queue_entry = ''e''"
    by (simp_all add: sample_queue_entry_def sample_queue_codec_def)
  have rows: "enqueue sample_queue_codec 1 sample_queue_entry [] = (Inr ?receipt, [row])"
    by (simp add: enqueue_def valid insert_queue_row_def Let_def next_queue_sequence_def row_def target)
  let ?requests = "[AcknowledgeRequest 5 (ThreadId 7) (DispatchId ''other'')]"
  define rows2 where "rows2 = fold (serve_queue sample_queue_codec) ?requests [row]"
  have start: "queue_reachable sample_queue_codec []" by (simp add: queue_reachable_def queue_later_def)
  have readable: "readable_requests sample_queue_codec ?requests" by (simp add: readable_requests_def)
  have codec: "uuid_codec (qc_show_uuid sample_queue_codec) (qc_parse_uuid sample_queue_codec)"
      "entry_reads_back sample_queue_codec sample_queue_entry"
    using hyphenated.uuid_codec_axioms by (simp_all add: sample_queue_codec_def entry_reads_back_def)
  note once = dispatch_enqueued_once [OF start codec rows readable rows2_def, of 2, unfolded target]
  then obtain row1 row' where row1:
      "[row1] = filter (\<lambda>r. qr_target_thread_id r = show_thread_id (qc_show_uuid sample_queue_codec) (ThreadId 7) \<and>
         qr_dispatch_id r = dispatch_id_str (DispatchId ''d'')) [row]"
      "unacknowledged row' = unacknowledged row1"
      "er_disposition ?receipt = Enqueued \<longrightarrow> qr_acknowledged_at_ms row1 = None"
      "qr_acknowledged_at_ms row' = None \<longleftrightarrow> qr_acknowledged_at_ms row1 = None \<and> \<not> acknowledges sample_queue_entry ?requests"
    and tail: "\<forall>after. \<exists>page. tail_pending sample_queue_codec (ThreadId 7) after rows2 = Inr page \<and>
      list_all2 (row_holds sample_queue_codec) (qp_entries page) (owed sample_queue_codec (ThreadId 7) after rows2) \<and>
      count_list (qp_entries page) sample_queue_entry = (if qr_acknowledged_at_ms row' = None \<and>
        (case after of Some q \<Rightarrow> sequence_get q | None \<Rightarrow> 0) < qr_sequence row' then 1 else 0)"
    by (elim conjE exE) (rule that)
  have "row1 = row" using row1(1) by (simp split: if_splits)
  then have "qr_sequence row' = 1" using row1(2) by (metis unacknowledged_simps(2) row_def queue_row.select_convs(2))
  moreover have "qr_acknowledged_at_ms row' = None" using row1(3,4) by (simp add: acknowledges_def target)
  ultimately obtain page where "tail_pending sample_queue_codec (ThreadId 7) None rows2 = Inr page"
      "count_list (qp_entries page) sample_queue_entry = 1"
    using tail by force
  moreover have "rows2 = snd (acknowledge sample_queue_codec 5 (ThreadId 7) (DispatchId ''other'') [row])"
    by (simp add: rows2_def)
  ultimately show ?thesis using rows once [THEN conjunct1] by blast
qed

end
