(* ===== verification/Sync_Endpoint.thy ===== *)
theory Sync_Endpoint
  imports Lease_Safety Ingress_Queue
begin

section \<open>The sync endpoint of the daemon\<close>

text \<open>
  \<^verbatim>\<open>src/crates/verlet-kernel/src/daemon/remote_store/endpoint.rs\<close>: the door through which a remote runtime pushes
  to and pulls from the daemon's store.  A push passes the credential, the scope, the binding of credential
  and lease, the shape of the request, and then the lease and sequence fences in one transaction; a refusal is
  recorded before it is returned.  \<open>tail.rs\<close> is the parent's own tail over the same journal.

  The fingerprint of a refused request and the text of its witness are arguments.  Each use of the clock is an
  argument of its own.
\<close>

subsection \<open>Requests and outcomes\<close>

definition sync_push_schema :: string where "sync_push_schema = ''cooldis.stream.sync_push/1''"
definition sync_push_rejection_schema :: string where
  "sync_push_rejection_schema = ''cooldis.stream.sync_push_rejection/1''"
definition sync_push_rejection_witness_schema :: string where
  "sync_push_rejection_witness_schema = ''cooldis.stream.sync_push_rejection_witness/1''"
definition sync_ingress_queue_ack_schema :: string where
  "sync_ingress_queue_ack_schema = ''cooldis.stream.sync_ingress_queue_ack/1''"

record sync_push_request =
  pr_schema :: string
  pr_stream_id :: event_stream_id
  pr_lease_id :: stream_lease_id
  pr_expected_next_sequence :: event_sequence
  pr_records :: "stream_record_envelope list"

record sync_ingress_queue_ack_request =
  qa_schema :: string
  qa_target_thread_id :: thread_id
  qa_dispatch_id :: dispatch_id

datatype sync_push_rejection_reason =
  CredentialUnknown
| ScopeViolation stream_prefix_scope
| CredentialLeaseMismatch stream_lease_id
| RequestInvalid string
| LeaseFence lease_fence_decision
| SequenceFenceConflict event_sequence

record sync_push_rejection =
  pj_schema :: string
  pj_stream_id :: event_stream_id
  pj_lease_id :: stream_lease_id
  pj_reason :: sync_push_rejection_reason
  pj_rejected_at_ms :: i64

datatype sync_push_outcome = Accepted stream_append_ack | Rejected sync_push_rejection

definition matches_request :: "sync_push_outcome \<Rightarrow> sync_push_request \<Rightarrow> bool" where
  "matches_request outcome request =
     (case outcome of
        Accepted ack \<Rightarrow>
          pr_records request \<noteq> [] \<and>
          (let final = last (pr_records request) in
           aa_schema ack = stream_append_ack_schema_id \<and> aa_stream_id ack = pr_stream_id request \<and>
           aa_start_sequence ack = pr_expected_next_sequence request \<and>
           aa_end_sequence ack = se_sequence final \<and> aa_tail_sequence ack = se_sequence final \<and>
           aa_tail_event_id ack = se_event_id final \<and> StreamCommitted \<in> set (aa_acks ack))
      | Rejected rejection \<Rightarrow>
          pj_schema rejection = sync_push_rejection_schema \<and> pj_stream_id rejection = pr_stream_id request \<and>
          pj_lease_id rejection = pr_lease_id request)"

record sync_push_rejection_witness =
  rw_schema :: string
  rw_request_fingerprint :: string
  rw_stream_id :: event_stream_id
  rw_reason :: string
  rw_detail :: json
  rw_rejected_at_ms :: i64

record rejection_row =
  rr_request_fingerprint :: string
  rr_stream_id :: string
  rr_reason :: string
  rr_rejected_at_ms :: i64
  rr_witness_json :: string

record endpoint_lib =
  el_tokens :: token_lib
  el_fingerprint :: "sync_push_request \<Rightarrow> sync_push_rejection_reason \<Rightarrow> string"
  el_witness_text :: "sync_push_rejection_witness \<Rightarrow> string"

record endpoint =
  en_tables :: lease_tables
  en_queue :: "queue_row list"
  en_rejections :: "rejection_row list"

subsection \<open>Rejections\<close>

fun fence_str :: "lease_fence_decision \<Rightarrow> string" where
  "fence_str Current = ''current''"
| "fence_str Superseded = ''superseded''"
| "fence_str Expired = ''expired''"
| "fence_str UnknownLease = ''unknown''"

fun redacted_rejection_reason :: "sync_push_rejection_reason \<Rightarrow> string \<times> json" where
  "redacted_rejection_reason CredentialUnknown = (''credential_unknown'', JNull)"
| "redacted_rejection_reason (ScopeViolation sc) =
     (''scope_violation'', jobj (field ''scope'' (JString (scope_str sc))))"
| "redacted_rejection_reason (CredentialLeaseMismatch _) = (''credential_lease_mismatch'', JNull)"
| "redacted_rejection_reason (RequestInvalid detail) =
     (''request_invalid'', jobj (field ''detail'' (JString detail)))"
| "redacted_rejection_reason (LeaseFence fence) =
     (''lease_fence'', jobj (field ''fence'' (jobj (field ''decision'' (JString (fence_str fence))))))"
| "redacted_rejection_reason (SequenceFenceConflict actual_next_sequence) =
     (''sequence_fence_conflict'', jobj (field ''actual_next_sequence'' (json_of_sequence actual_next_sequence)))"

text \<open>\<open>INSERT OR IGNORE\<close> under \<open>PRIMARY KEY(request_fingerprint)\<close>\<close>

definition persist_rejection_witness ::
  "endpoint_lib \<Rightarrow> sync_push_request \<Rightarrow> sync_push_rejection \<Rightarrow> endpoint \<Rightarrow> endpoint" where
  "persist_rejection_witness lib request rejection e =
     (let fingerprint = el_fingerprint lib request (pj_reason rejection);
          redacted = redacted_rejection_reason (pj_reason rejection);
          witness = \<lparr>rw_schema = sync_push_rejection_witness_schema, rw_request_fingerprint = fingerprint,
            rw_stream_id = pr_stream_id request, rw_reason = fst redacted, rw_detail = snd redacted,
            rw_rejected_at_ms = pj_rejected_at_ms rejection\<rparr> in
      if fingerprint \<in> rr_request_fingerprint ` set (en_rejections e) then e
      else e\<lparr>en_rejections := en_rejections e @
             [\<lparr>rr_request_fingerprint = fingerprint, rr_stream_id = stream_id_str (pr_stream_id request),
               rr_reason = fst redacted, rr_rejected_at_ms = pj_rejected_at_ms rejection,
               rr_witness_json = el_witness_text lib witness\<rparr>]\<rparr>)"

definition reject ::
  "endpoint_lib \<Rightarrow> i64 \<Rightarrow> sync_push_request \<Rightarrow> sync_push_rejection_reason \<Rightarrow> endpoint \<Rightarrow>
   sync_push_outcome verlet_result \<times> endpoint" where
  "reject lib now_ms request reason e =
     (let rejection = \<lparr>pj_schema = sync_push_rejection_schema, pj_stream_id = pr_stream_id request,
            pj_lease_id = pr_lease_id request, pj_reason = reason, pj_rejected_at_ms = now_ms\<rparr> in
      (Inr (Rejected rejection), persist_rejection_witness lib request rejection e))"

subsection \<open>Push\<close>

definition validate_push_record ::
  "(uuid \<Rightarrow> string) \<Rightarrow> sync_push_request \<Rightarrow> nat \<times> stream_record_envelope \<Rightarrow> string + new_event_record" where
  "validate_push_record show_uuid request = (\<lambda>(index, envelope).
     case checked_add_i64 (sequence_get (pr_expected_next_sequence request)) (int index) of
       None \<Rightarrow> Inl ''sync push sequence overflow''
     | Some expected_sequence \<Rightarrow>
         if se_schema envelope \<noteq> stream_record_schema_id then Inl ''record uses an unsupported stream schema''
         else if se_stream_id envelope \<noteq> pr_stream_id request then Inl ''record belongs to a different stream''
         else if sequence_get (se_sequence envelope) \<noteq> expected_sequence
         then Inl ''record sequences are not contiguous from expected_next_sequence''
         else if se_trace_context envelope \<noteq> None
         then Inl ''trace_context is not supported by the SQLite authority store''
         else
           (case event_kind_try_from (se_kind envelope) of
              Inl _ \<Rightarrow> Inl ''record kind is not in the frozen event vocabulary''
            | Inr kind \<Rightarrow>
                if se_payload_schema envelope \<noteq> payload_schema_id kind
                then Inl ''record payload schema does not match its kind''
                else
                  let event = \<lparr>ev_id = se_event_id envelope, ev_stream_id = se_stream_id envelope,
                        ev_sequence = se_sequence envelope, ev_coordinates = se_coordinates envelope,
                        ev_created_at_ms = se_created_at_ms envelope, ev_kind = kind, ev_origin = se_origin envelope,
                        ev_provenance = se_provenance envelope, ev_payload = se_payload envelope\<rparr> in
                  (case validate_stream_record_v1 show_uuid event of
                     Inl _ \<Rightarrow> Inl ''record or payload violates the V1 stream schema''
                   | Inr _ \<Rightarrow>
                       Inr \<lparr>ne_id = ev_id event, ne_coordinates = ev_coordinates event,
                         ne_created_at_ms = ev_created_at_ms event, ne_kind = ev_kind event,
                         ne_origin = ev_origin event, ne_provenance = ev_provenance event,
                         ne_payload = ev_payload event\<rparr>)))"

definition validate_push_request ::
  "(uuid \<Rightarrow> string) \<Rightarrow> sync_push_request \<Rightarrow> string + new_event_record list" where
  "validate_push_request show_uuid request =
     (if pr_schema request \<noteq> sync_push_schema then Inl ''unsupported sync push schema''
      else if sequence_get (pr_expected_next_sequence request) < 1
      then Inl ''expected_next_sequence must be positive''
      else if pr_records request = [] then Inl ''sync push batch must not be empty''
      else collect_results (validate_push_record show_uuid request) (List.enumerate 0 (pr_records request)))"

definition sync_push ::
  "sqlite_codec \<Rightarrow> endpoint_lib \<Rightarrow> u64 \<Rightarrow> i64 \<Rightarrow> i64 \<Rightarrow> string \<Rightarrow> sync_push_request \<Rightarrow> endpoint \<Rightarrow>
   sync_push_outcome verlet_result \<times> endpoint" where
  "sync_push codec lib lease_epoch now_ms reject_ms bearer_token request e =
     or_return (verify_token (tk_digest (el_tokens lib)) bearer_token (en_tables e)) e (\<lambda>verified.
     case verified of
       None \<Rightarrow> reject lib reject_ms request CredentialUnknown e
     | Some identity \<Rightarrow>
         if \<not> authorizes (vi_scope identity) (pr_stream_id request)
         then reject lib reject_ms request (ScopeViolation (vi_scope identity)) e
         else if vi_lease_id identity \<noteq> pr_lease_id request
         then reject lib reject_ms request (CredentialLeaseMismatch (vi_lease_id identity)) e
         else
           (case validate_push_request (sq_show_uuid codec) request of
              Inl detail \<Rightarrow> reject lib reject_ms request (RequestInvalid detail) e
            | Inr records \<Rightarrow>
                (case append_if_current codec lease_epoch now_ms (pr_stream_id request) (pr_lease_id request)
                        (pr_expected_next_sequence request) records (en_tables e) of
                   (Inl err, _) \<Rightarrow> (Inl err, e)
                 | (Inr (Appended ack), tables) \<Rightarrow> (Inr (Accepted ack), e\<lparr>en_tables := tables\<rparr>)
                 | (Inr (LeaseRejected fence), tables) \<Rightarrow>
                     reject lib reject_ms request (LeaseFence fence) (e\<lparr>en_tables := tables\<rparr>)
                 | (Inr (AppendSequenceConflict actual), tables) \<Rightarrow>
                     reject lib reject_ms request (SequenceFenceConflict actual) (e\<lparr>en_tables := tables\<rparr>))))"

subsection \<open>Renewal, pull and acknowledgement\<close>

definition sync_renew_lease ::
  "endpoint_lib \<Rightarrow> i64 \<Rightarrow> i64 \<Rightarrow> string \<Rightarrow> endpoint \<Rightarrow> stream_lease_grant option verlet_result \<times> endpoint" where
  "sync_renew_lease lib lease_ttl_ms now_ms bearer_token e =
     or_return (verify_token (tk_digest (el_tokens lib)) bearer_token (en_tables e)) e (\<lambda>verified.
     case verified of
       None \<Rightarrow> (Inr None, e)
     | Some identity \<Rightarrow>
         (case renew_lease lease_ttl_ms now_ms (vi_lease_id identity) (en_tables e) of
            (Inl err, tables) \<Rightarrow> (Inl err, e\<lparr>en_tables := tables\<rparr>)
          | (Inr grant, tables) \<Rightarrow> (Inr (Some grant), e\<lparr>en_tables := tables\<rparr>)))"

definition not_authorized :: verlet_error where
  "not_authorized = HistoryMessage ''sync pull not authorized''"

definition read_journal ::
  "sqlite_codec \<Rightarrow> event_stream_id \<Rightarrow> stream_cursor option \<Rightarrow> database \<Rightarrow> event_record list verlet_result" where
  "read_journal codec stream_id cursor db =
     history_err (case cursor of
         Some cursor \<Rightarrow> read_events_after_cursor (sq_show_uuid codec) (\<lambda>i q. sqlite_read_events codec i q db) stream_id cursor
       | None \<Rightarrow> sqlite_read_events codec stream_id None db)"

definition sync_pull_after ::
  "sqlite_codec \<Rightarrow> queue_codec \<Rightarrow> endpoint_lib \<Rightarrow> string \<Rightarrow> event_stream_id \<Rightarrow> stream_cursor option \<Rightarrow> endpoint \<Rightarrow>
   stream_record_envelope list verlet_result" where
  "sync_pull_after codec qcodec lib bearer_token stream_id cursor e =
     and_then (verify_token (tk_digest (el_tokens lib)) bearer_token (en_tables e)) (\<lambda>verified.
     case verified of
       None \<Rightarrow> Inl not_authorized
     | Some identity \<Rightarrow>
         if \<not> authorizes (vi_scope identity) stream_id then Inl not_authorized
         else if remote_ingress_queue_target (qc_parse_uuid qcodec) stream_id \<noteq> None
         then queue_pull_after qcodec stream_id cursor (en_queue e)
         else if strip_prefix sync_ingress_queue_stream_prefix (stream_id_str stream_id) \<noteq> None
         then Inl (HistoryMessage ''invalid remote ingress queue stream'')
         else and_then (read_journal codec stream_id cursor (lt_journal (en_tables e))) (\<lambda>events.
           Inr (map to_stream_record_v1 events)))"

definition acknowledge_ingress ::
  "queue_codec \<Rightarrow> endpoint_lib \<Rightarrow> i64 \<Rightarrow> string \<Rightarrow> sync_ingress_queue_ack_request \<Rightarrow> endpoint \<Rightarrow>
   unit verlet_result \<times> endpoint" where
  "acknowledge_ingress qcodec lib now_ms bearer_token request e =
     (if qa_schema request \<noteq> sync_ingress_queue_ack_schema
      then (Inl (HistoryMessage ''unsupported remote ingress acknowledgement schema''), e)
      else
        or_return (verify_token (tk_digest (el_tokens lib)) bearer_token (en_tables e)) e (\<lambda>verified.
        case verified of
          None \<Rightarrow> (Inl not_authorized, e)
        | Some identity \<Rightarrow>
            if \<not> authorizes (vi_scope identity)
                 (remote_ingress_queue_stream_id (qc_show_uuid qcodec) (qa_target_thread_id request))
            then (Inl not_authorized, e)
            else
              (case acknowledge qcodec now_ms (qa_target_thread_id request) (qa_dispatch_id request) (en_queue e) of
                 (r, rows) \<Rightarrow> (r, e\<lparr>en_queue := rows\<rparr>))))"

subsection \<open>The parent's tail\<close>

record remote_stream_tail_cursor =
  tl_stream_id :: event_stream_id
  tl_cursor :: "stream_cursor option"

record remote_stream_tail_page =
  tp_records :: "event_record list"
  tp_next :: remote_stream_tail_cursor

definition poll_tail ::
  "sqlite_codec \<Rightarrow> remote_stream_tail_cursor \<Rightarrow> database \<Rightarrow> remote_stream_tail_page verlet_result" where
  "poll_tail codec position db =
     and_then (read_journal codec (tl_stream_id position) (tl_cursor position) db) (\<lambda>records.
     Inr \<lparr>tp_records = records,
       tp_next = (if records = [] then position
         else \<lparr>tl_stream_id = tl_stream_id position, tl_cursor = Some (cursor_from_event (last records))\<rparr>)\<rparr>)"

end
