(* ===== verification/Endpoint_Safety.thy ===== *)
theory Endpoint_Safety
  imports Sync_Endpoint
begin

section \<open>What the sync endpoint lets through\<close>

text \<open>
  A push that is accepted extends the stream by exactly the records of the request, under a token that
  verifies to a live lease; every other outcome leaves the journal as it was, and a refusal has left its
  witness.  Conversely a well-formed push at the tail of its stream, under the live lease, is accepted.
\<close>

subsection \<open>Streams of a journal\<close>

definition journal_events :: "sqlite_codec \<Rightarrow> event_stream_id \<Rightarrow> database \<Rightarrow> event_record list" where
  "journal_events codec i db = (case sqlite_read_events codec i None db of Inl _ \<Rightarrow> [] | Inr es \<Rightarrow> es)"

definition journal_records :: "sqlite_codec \<Rightarrow> event_stream_id \<Rightarrow> database \<Rightarrow> stream_record_envelope list" where
  "journal_records codec i db = map to_stream_record_v1 (journal_events codec i db)"

lemma journal_events_eq: "represents codec db s \<Longrightarrow> journal_events codec i db = stream_events s i"
  by (simp add: journal_events_def read_events_eq read_events_def)

lemma journal_read:
  assumes "uuid_text_ok codec" "sqlite_reachable codec db"
  shows "sqlite_read_events codec i None db = Inr (journal_events codec i db)"
    and "contiguous_from i 1 (journal_events codec i db)"
    and "1 \<le> sequence_get q \<Longrightarrow>
      sqlite_read_events codec i (Some q) db = Inr (drop (nat (sequence_get q) - 1) (journal_events codec i db))"
proof -
  from reachable_represents [OF assms] obtain s where s: "reachable (sq_show_uuid codec) s" "represents codec db s" by blast
  from reachable_ok [OF s(1)] have ok: "journal_ok s" by simp
  show "sqlite_read_events codec i None db = Inr (journal_events codec i db)"
    by (simp add: read_events_eq [OF s(2)] journal_events_eq [OF s(2)] read_events_def)
  show "contiguous_from i 1 (journal_events codec i db)"
    using ok by (simp add: journal_events_eq [OF s(2)] journal_ok_def)
  show "sqlite_read_events codec i (Some q) db = Inr (drop (nat (sequence_get q) - 1) (journal_events codec i db))"
    if "1 \<le> sequence_get q"
    unfolding read_events_eq [OF s(2)] journal_events_eq [OF s(2)] by (rule memory_journal.read_from_drop [OF ok that])
qed

lemma to_stream_record_inj: "to_stream_record_v1 e = to_stream_record_v1 f \<Longrightarrow> e = f"
  by (cases e; cases f) (auto simp: to_stream_record_v1_def event_kind_str_inject)

subsection \<open>A validated request is the records it names\<close>

lemma validate_push_record_ok:
  assumes "validate_push_record sh request (k, env) = Inr r"
  shows "to_stream_record_v1 (event_from_new (pr_stream_id request)
      (EventSequence (sequence_get (pr_expected_next_sequence request) + int k)) r) = env"
    and "ne_payload r = se_payload env" "ne_provenance r = se_provenance env"
proof -
  show "to_stream_record_v1 (event_from_new (pr_stream_id request)
      (EventSequence (sequence_get (pr_expected_next_sequence request) + int k)) r) = env"
    using assms
    by (cases env; cases "se_sequence env")
      (auto simp: validate_push_record_def to_stream_record_v1_def event_from_new_def checked_add_i64_def Let_def
        event_kind_try_from_def split: option.splits if_splits sum.splits dest: event_kind_parse_SomeD)
  show "ne_payload r = se_payload env" "ne_provenance r = se_provenance env"
    using assms
    by (auto simp: validate_push_record_def Let_def split: option.splits if_splits sum.splits)
qed

lemma validate_push_request_ok:
  assumes "validate_push_request sh request = Inr rs"
  shows "map to_stream_record_v1
      (numbered (pr_stream_id request) (sequence_get (pr_expected_next_sequence request) - 1) rs) = pr_records request"
    and "pr_records request \<noteq> []" "rs \<noteq> []" "1 \<le> sequence_get (pr_expected_next_sequence request)"
proof -
  let ?q = "sequence_get (pr_expected_next_sequence request)"
  from assms have ok: "list_all2 (\<lambda>x r. validate_push_record sh request x = Inr r) (List.enumerate 0 (pr_records request)) rs"
    and ne: "pr_records request \<noteq> []" and pos: "1 \<le> ?q"
    by (auto simp: validate_push_request_def collect_results_ok split: if_splits)
  then have len: "length rs = length (pr_records request)" by (auto dest: list_all2_lengthD)
  have "to_stream_record_v1 (event_from_new (pr_stream_id request) (EventSequence (?q + int k)) (rs ! k)) =
      pr_records request ! k" if "k < length rs" for k
    using list_all2_nthD [OF ok, of k] that len by (intro validate_push_record_ok(1)) (simp add: nth_enumerate_eq)
  then show "map to_stream_record_v1 (numbered (pr_stream_id request) (?q - 1) rs) = pr_records request"
    by (intro nth_equalityI) (simp_all add: len numbered_def nth_enumerate_eq add.commute)
  show "pr_records request \<noteq> []" "rs \<noteq> []" "1 \<le> ?q" using ne len pos by auto
qed

text \<open>Conversely, events of a store validate as the records they were made from.\<close>

definition event_to_new :: "event_record \<Rightarrow> new_event_record" where
  "event_to_new e = \<lparr>ne_id = ev_id e, ne_coordinates = ev_coordinates e, ne_created_at_ms = ev_created_at_ms e,
     ne_kind = ev_kind e, ne_origin = ev_origin e, ne_provenance = ev_provenance e, ne_payload = ev_payload e\<rparr>"

lemma validate_own_record:
  assumes "event_ok e" "ev_stream_id e = pr_stream_id request"
    and "sequence_get (ev_sequence e) = sequence_get (pr_expected_next_sequence request) + int k"
    and "1 \<le> sequence_get (pr_expected_next_sequence request)" "sequence_get (ev_sequence e) < 2 ^ 63"
  shows "validate_push_record sh request (k, to_stream_record_v1 e) = Inr (event_to_new e)"
proof -
  have "checked_add_i64 (sequence_get (pr_expected_next_sequence request)) (int k) = Some (sequence_get (ev_sequence e))"
    using assms(3-5) by (simp add: checked_add_i64_def)
  moreover have "validate_stream_record_v1 sh e = Inr ()" using assms(1) by (simp add: validate_stream_record_iff event_ok_def)
  ultimately show ?thesis
    using assms(2)
    by (cases e) (simp add: validate_push_record_def to_stream_record_v1_def event_kind_try_from_def event_to_new_def Let_def)
qed

lemma validate_own_records:
  assumes "pr_schema request = sync_push_schema" "pr_records request = map to_stream_record_v1 es" "es \<noteq> []"
    and "contiguous_from (pr_stream_id request) (sequence_get (pr_expected_next_sequence request)) es"
    and "1 \<le> sequence_get (pr_expected_next_sequence request)"
    and "sequence_get (pr_expected_next_sequence request) + int (length es) \<le> 2 ^ 63" "\<forall>e \<in> set es. event_ok e"
  shows "validate_push_request sh request = Inr (map event_to_new es)"
proof -
  have "validate_push_record sh request (k, to_stream_record_v1 (es ! k)) = Inr (event_to_new (es ! k))" if "k < length es" for k
    using that assms(4-7) by (intro validate_own_record) (auto simp: contiguous_from_def)
  then have "list_all2 (\<lambda>x r. validate_push_record sh request x = Inr r)
      (List.enumerate 0 (pr_records request)) (map event_to_new es)"
    by (simp add: assms(2) list_all2_conv_all_nth nth_enumerate_eq)
  with assms(1-3,5) show ?thesis by (simp add: validate_push_request_def collect_results_ok)
qed

definition records_text_ok :: "sqlite_codec \<Rightarrow> stream_record_envelope list \<Rightarrow> bool" where
  "records_text_ok codec records \<longleftrightarrow> (\<forall>env \<in> set records.
     sq_parse_payload codec (sq_payload_text codec (se_payload env)) = Inr (se_payload env) \<and>
     sq_parse_provenance codec (sq_provenance_text codec (se_provenance env)) = Inr (se_provenance env))"

lemma validated_text_ok:
  assumes "validate_push_request sh request = Inr rs" "records_text_ok codec (pr_records request)"
  shows "\<forall>r \<in> set rs. event_text_ok codec r"
proof
  fix r assume "r \<in> set rs"
  from assms(1) have "list_all2 (\<lambda>x r. validate_push_record sh request x = Inr r) (List.enumerate 0 (pr_records request)) rs"
    by (auto simp: validate_push_request_def collect_results_ok split: if_splits)
  with \<open>r \<in> set rs\<close> obtain k where k: "k < length (pr_records request)"
    and x: "validate_push_record sh request (k, pr_records request ! k) = Inr r"
    by (auto simp: list_all2_conv_all_nth in_set_conv_nth nth_enumerate_eq)
  have "pr_records request ! k \<in> set (pr_records request)" using k by simp
  with assms(2) show "event_text_ok codec r"
    by (auto simp: records_text_ok_def event_text_ok_def validate_push_record_ok(2,3) [OF x])
qed

subsection \<open>The fenced append, on the stream it extends\<close>

lemma with_events_stream:
  "stream_events (with_events i ep rs s) j =
    stream_events s j @ (if j = i then numbered i (int (length (stream_events s i))) rs else [])"
  by (simp add: with_events_def)

lemma appended_extends:
  assumes "uuid_text_ok codec" "sqlite_reachable codec (lt_journal t)" "\<forall>r \<in> set rs. event_text_ok codec r"
    and "append_if_current codec ep now i x q rs t = (Inr (Appended ack), t')"
  shows "sequence_get q = int (length (journal_events codec i (lt_journal t))) + 1"
    and "journal_events codec j (lt_journal t') = journal_events codec j (lt_journal t) @
      (if j = i then numbered i (sequence_get q - 1) rs else [])"
    and "fence_decision i x now t = Current"
    and "ack_from_appended i (numbered i (sequence_get q - 1) rs) [StreamCommitted, QueryProjected] = Inr ack"
proof -
  from assms(4) obtain es jn where f: "fence_decision i x now t = Current"
    and es: "append_events_fenced_in_transaction codec ep i q rs (lt_journal t) = (Inr es, jn)"
    and ack: "ack_from_appended i es [StreamCommitted, QueryProjected] = Inr ack" and t': "t' = t\<lparr>lt_journal := jn\<rparr>"
    by (cases rule: append_if_current_cases [of i x now t codec ep q rs]) auto
  from reachable_represents [OF assms(1,2)] obtain s where
    s: "reachable (sq_show_uuid codec) s" "represents codec (lt_journal t) s" by blast
  from reachable_ok [OF s(1)] have ok: "journal_ok s" by simp
  have "sqlite_append_events_fenced codec ep i q rs (lt_journal t) = (Inr es, jn)"
    using es by (simp add: sqlite_append_events_fenced_def in_transaction_def)
  from append_events_fenced_simulated [OF assms(1) s(2) ok assms(3) this] obtain s' where
    s': "append_events_fenced (sq_show_uuid codec) ep i q rs s = (Inr es, s')" "represents codec jn s'" by blast
  have q: "sequence_get q = int (length (stream_events s i)) + 1"
    using fenced_when_closed [of q s i "sq_show_uuid codec" ep rs] s'(1) by auto
  with s'(1) have es': "es = numbered i (sequence_get q - 1) rs" and s'_eq: "s' = with_events i ep rs s"
    by (simp_all add: fenced_when_open append_events_ok)
  show "sequence_get q = int (length (journal_events codec i (lt_journal t))) + 1"
    using q by (simp add: journal_events_eq [OF s(2)])
  show "journal_events codec j (lt_journal t') = journal_events codec j (lt_journal t) @
      (if j = i then numbered i (sequence_get q - 1) rs else [])"
    using q by (simp add: t' journal_events_eq [OF s'(2)] journal_events_eq [OF s(2)] s'_eq with_events_stream)
  show "fence_decision i x now t = Current" by (rule f)
  show "ack_from_appended i (numbered i (sequence_get q - 1) rs) [StreamCommitted, QueryProjected] = Inr ack"
    using ack by (simp add: es')
qed

lemma not_appended_keeps:
  assumes "append_if_current codec ep now i x q rs t = (r, t')" "\<nexists>ack. r = Inr (Appended ack)"
  shows "t' = t"
  using assms by (cases rule: append_if_current_cases [of i x now t codec ep q rs]) auto

lemma numbered_contiguous: "contiguous_from i (n + 1) (numbered i n rs)"
  by (simp add: contiguous_from_def numbered_def nth_enumerate_eq event_from_new_def)

lemma ack_numbered:
  assumes "rs \<noteq> []" "acks \<noteq> []"
  shows "ack_from_appended i (numbered i n rs) acks =
    Inr \<lparr>aa_schema = stream_append_ack_schema_id, aa_stream_id = i, aa_start_sequence = EventSequence (n + 1),
      aa_end_sequence = ev_sequence (last (numbered i n rs)), aa_tail_sequence = ev_sequence (last (numbered i n rs)),
      aa_tail_event_id = ev_id (last (numbered i n rs)), aa_acks = acks\<rparr>"
proof -
  from assms(1) obtain r rest where rs: "rs = r # rest" by (cases rs) auto
  then obtain first more where es: "numbered i n rs = first # more" and first: "ev_sequence first = EventSequence (n + 1)"
    by (simp add: numbered_def event_from_new_def)
  have "for_each (check_ack_event i first) (List.enumerate 0 (numbered i n rs)) = Inr ()"
    unfolding ack_checks_ok using numbered_contiguous [of i n rs] first by simp
  with es first assms(2) show ?thesis by (simp add: ack_from_appended_def)
qed

text \<open>A batch at the tail of its stream is accepted when the store's own checks accept its records.\<close>

lemma fenced_accepts:
  assumes "uuid_text_ok codec" "sqlite_reachable codec db" "\<forall>r \<in> set rs. event_text_ok codec r"
    and "fst (sqlite_enforce_lease_epoch i ep db) = Inr ()"
    and "\<forall>r \<in> set rs. validate_new_event r = Inr () \<and> storable r" "distinct (map ne_id rs)"
    and "\<forall>j. ne_id ` set rs \<inter> ev_id ` set (journal_events codec j db) = {}"
    and "sequence_get q = int (length (journal_events codec i db)) + 1"
  shows "\<exists>es db'. append_events_fenced_in_transaction codec ep i q rs db = (Inr es, db')"
proof -
  from reachable_represents [OF assms(1,2)] obtain s where s: "represents codec db s" by blast
  then obtain js where js: "rows_ok codec js db" "\<forall>i. stream_of i js = stream_events s i" "epochs_match db s"
    by (auto simp: represents_def journal_matches_def)
  from assms(4) obtain db1 where e: "sqlite_enforce_lease_epoch i ep db = (Inr (), db1)"
    by (cases "sqlite_enforce_lease_epoch i ep db") auto
  from enforce_ok(3) [OF js(3) e] have rows: "rows_ok codec js db1" using js(1) rows_ok_cong [of db1 db] by auto
  have q: "sqlite_next_event_sequence i db1 = sequence_get q"
    using assms(8) js(2) by (simp add: next_sequence [OF rows] journal_events_eq [OF s])
  have "ne_id ` set rs \<inter> ev_id ` set js = {}"
  proof -
    have "ev_id e \<notin> ne_id ` set rs" if "e \<in> set js" for e
    proof -
      have "e \<in> set (journal_events codec (ev_stream_id e) db)"
        using that js(2) by (auto simp: journal_events_eq [OF s] stream_of_def simp flip: js(2) [rule_format])
      with assms(7) show ?thesis by blast
    qed
    then show ?thesis by (force simp: disjoint_iff image_iff)
  qed
  from insert_events_accept [OF assms(1) rows assms(3,5,6) this, of i] e q show ?thesis
    by (auto simp: append_events_fenced_in_transaction_def tx_then_def Let_def)
qed

lemma append_if_current_accepts:
  assumes "uuid_text_ok codec" "sqlite_reachable codec (lt_journal t)" "\<forall>r \<in> set rs. event_text_ok codec r" "rs \<noteq> []"
    and "fst (sqlite_enforce_lease_epoch i ep (lt_journal t)) = Inr ()"
    and "\<forall>r \<in> set rs. validate_new_event r = Inr () \<and> storable r" "distinct (map ne_id rs)"
    and "\<forall>j. ne_id ` set rs \<inter> ev_id ` set (journal_events codec j (lt_journal t)) = {}"
    and "sequence_get q = int (length (journal_events codec i (lt_journal t))) + 1"
    and "fence_decision i x now t = Current"
  shows "\<exists>ack t'. append_if_current codec ep now i x q rs t = (Inr (Appended ack), t')"
proof -
  from fenced_accepts [OF assms(1-3) assms(5-9)] obtain es j where
    es: "append_events_fenced_in_transaction codec ep i q rs (lt_journal t) = (Inr es, j)" by blast
  from reachable_represents [OF assms(1,2)] obtain s where
    s: "reachable (sq_show_uuid codec) s" "represents codec (lt_journal t) s" by blast
  from reachable_ok [OF s(1)] have ok: "journal_ok s" by simp
  have "sqlite_append_events_fenced codec ep i q rs (lt_journal t) = (Inr es, j)"
    using es by (simp add: sqlite_append_events_fenced_def in_transaction_def)
  from append_events_fenced_simulated [OF assms(1) s(2) ok assms(3) this] obtain s' where
    "append_events_fenced (sq_show_uuid codec) ep i q rs s = (Inr es, s')" by blast
  then have "es = numbered i (int (length (stream_events s i))) rs"
    using assms(9) by (simp add: journal_events_eq [OF s(2)] fenced_when_open append_events_ok)
  with ack_numbered [OF assms(4)] es assms(10) show ?thesis by (simp add: append_if_current_def)
qed

subsection \<open>The outcomes of a push\<close>

definition refusal :: "i64 \<Rightarrow> sync_push_request \<Rightarrow> sync_push_rejection_reason \<Rightarrow> sync_push_rejection" where
  "refusal now_ms request reason =
     \<lparr>pj_schema = sync_push_rejection_schema, pj_stream_id = pr_stream_id request, pj_lease_id = pr_lease_id request,
      pj_reason = reason, pj_rejected_at_ms = now_ms\<rparr>"

lemma reject_refusal:
  "reject lib now request reason e =
    (Inr (Rejected (refusal now request reason)), persist_rejection_witness lib request (refusal now request reason) e)"
  by (simp add: reject_def refusal_def Let_def)

lemma persist_keeps:
  "en_tables (persist_rejection_witness lib request rj e) = en_tables e"
  "en_queue (persist_rejection_witness lib request rj e) = en_queue e"
  "prefix (en_rejections e) (en_rejections (persist_rejection_witness lib request rj e))"
  "\<exists>row \<in> set (en_rejections (persist_rejection_witness lib request rj e)).
     rr_request_fingerprint row = el_fingerprint lib request (pj_reason rj)"
  by (auto simp: persist_rejection_witness_def Let_def)

text \<open>A push is accepted, refused with its witness kept, or fails without effect.\<close>

lemma push_cases:
  assumes "sync_push codec lib ep now reject_ms token request e = (out, e')"
  obtains (accepted) v rs ack t' where "out = Inr (Accepted ack)" "e' = e\<lparr>en_tables := t'\<rparr>"
      "verify_token (tk_digest (el_tokens lib)) token (en_tables e) = Inr (Some v)"
      "authorizes (vi_scope v) (pr_stream_id request)" "vi_lease_id v = pr_lease_id request"
      "validate_push_request (sq_show_uuid codec) request = Inr rs"
      "append_if_current codec ep now (pr_stream_id request) (pr_lease_id request)
         (pr_expected_next_sequence request) rs (en_tables e) = (Inr (Appended ack), t')"
  | (refused) reason where "out = Inr (Rejected (refusal reject_ms request reason))"
      "e' = persist_rejection_witness lib request (refusal reject_ms request reason) e"
  | (failed) err where "out = Inl err" "e' = e"
proof -
  obtain v where v: "verify_token (tk_digest (el_tokens lib)) token (en_tables e) = Inr v"
    by (simp add: verify_token_def)
  let ?i = "pr_stream_id request" and ?x = "pr_lease_id request"
  show thesis
  proof (cases "\<exists>identity rs. v = Some identity \<and> authorizes (vi_scope identity) ?i \<and> vi_lease_id identity = ?x \<and>
      validate_push_request (sq_show_uuid codec) request = Inr rs")
    case False
    then have "\<exists>reason. reject lib reject_ms request reason e = (out, e')"
      using assms v by (auto simp: sync_push_def split: option.splits if_splits sum.splits)
    then show thesis by (auto simp: reject_refusal intro: refused)
  next
    case True
    then obtain w rs where w: "v = Some w" "authorizes (vi_scope w) ?i" "vi_lease_id w = ?x"
      "validate_push_request (sq_show_uuid codec) request = Inr rs" by blast
    obtain r t' where r: "append_if_current codec ep now ?i ?x (pr_expected_next_sequence request) rs (en_tables e) = (r, t')"
      by (cases "append_if_current codec ep now ?i ?x (pr_expected_next_sequence request) rs (en_tables e)")
    have keep: "e\<lparr>en_tables := t'\<rparr> = e" if "\<nexists>ack. r = Inr (Appended ack)" using not_appended_keeps [OF r that] by simp
    have push: "(out, e') = (case (r, t') of (Inl err, _) \<Rightarrow> (Inl err, e)
        | (Inr (Appended ack), tables) \<Rightarrow> (Inr (Accepted ack), e\<lparr>en_tables := tables\<rparr>)
        | (Inr (LeaseRejected fence), tables) \<Rightarrow> reject lib reject_ms request (LeaseFence fence) (e\<lparr>en_tables := tables\<rparr>)
        | (Inr (AppendSequenceConflict actual), tables) \<Rightarrow>
            reject lib reject_ms request (SequenceFenceConflict actual) (e\<lparr>en_tables := tables\<rparr>))"
      using assms v w r by (simp add: sync_push_def)
    show thesis
    proof (cases r)
      case (Inl err)
      with push show thesis by (intro failed [of err]) simp_all
    next
      case (Inr outcome)
      show thesis
      proof (cases outcome)
        case (Appended ack)
        with Inr push v w r show thesis by (intro accepted [of ack t' w rs]) simp_all
      next
        case (LeaseRejected fence)
        with Inr push keep show thesis by (intro refused [of "LeaseFence fence"]) (simp_all add: reject_refusal)
      next
        case (AppendSequenceConflict n)
        with Inr push keep v w r show thesis
          by (intro refused [of "SequenceFenceConflict n"]) (auto simp: reject_refusal)
      qed
    qed
  qed
qed

text \<open>An accepted push, on a state that satisfies the invariants\<close>

lemma accepted_push:
  assumes "uuid_text_ok codec" "leases_ok (en_tables e)" "sqlite_reachable codec (lt_journal (en_tables e))"
    and "records_text_ok codec (pr_records request)"
    and "sync_push codec lib ep now reject_ms token request e = (Inr (Accepted ack), e')"
  obtains v l where "matches_request (Accepted ack) request"
    "verify_token (tk_digest (el_tokens lib)) token (en_tables e) = Inr (Some v)" "vi_lease_id v = pr_lease_id request"
    "l \<in> set (latest_unreleased_leases (en_tables e))" "dl_lease_id l = pr_lease_id request"
    "authorizes (dl_scope l) (pr_stream_id request)" "now < dl_expires_at_ms l"
    "sequence_get (pr_expected_next_sequence request) =
      int (length (journal_records codec (pr_stream_id request) (lt_journal (en_tables e)))) + 1"
    "\<forall>i. journal_records codec i (lt_journal (en_tables e')) =
      journal_records codec i (lt_journal (en_tables e)) @ (if i = pr_stream_id request then pr_records request else [])"
  using assms(5)
proof (cases rule: push_cases)
  case (accepted v rs ack' t')
  let ?i = "pr_stream_id request" and ?q = "pr_expected_next_sequence request"
  let ?es = "numbered ?i (sequence_get ?q - 1) rs"
  note valid = validate_push_request_ok [OF accepted(6)]
  note app = appended_extends [OF assms(1,3) validated_text_ok [OF accepted(6) assms(4)] accepted(7)]
  have "fence_decision ?i (pr_lease_id request) now (en_tables e) \<in> {Current, Expired}" by (simp add: app(3))
  from fence_live [OF assms(2) this] obtain l where
    l: "l \<in> set (latest_unreleased_leases (en_tables e))" "dl_lease_id l = pr_lease_id request" "authorizes (dl_scope l) ?i"
    and "Current = (if dl_expires_at_ms l \<le> now then Expired else Current)" unfolding app(3) by blast
  then have "now < dl_expires_at_ms l" by (simp split: if_splits)
  moreover have "matches_request (Accepted ack) request"
  proof -
    have "?es \<noteq> []" using valid(3) by (auto simp: numbered_def enumerate_eq_zip)
    then have "last (pr_records request) = to_stream_record_v1 (last ?es)" by (simp add: last_map flip: valid(1))
    moreover have "ack = \<lparr>aa_schema = stream_append_ack_schema_id, aa_stream_id = ?i, aa_start_sequence = ?q,
        aa_end_sequence = ev_sequence (last ?es), aa_tail_sequence = ev_sequence (last ?es),
        aa_tail_event_id = ev_id (last ?es), aa_acks = [StreamCommitted, QueryProjected]\<rparr>"
      using accepted(1) app(4) ack_numbered [OF valid(3), of "[StreamCommitted, QueryProjected]" ?i "sequence_get ?q - 1"]
      by (cases ?q) simp
    ultimately show ?thesis
      using valid(2) by (simp add: matches_request_def to_stream_record_v1_def Let_def)
  qed
  moreover have "journal_records codec i (lt_journal (en_tables e')) =
      journal_records codec i (lt_journal (en_tables e)) @ (if i = ?i then pr_records request else [])" for i
    using app(2) [of i] valid(1) by (simp add: journal_records_def accepted(2))
  ultimately show ?thesis using that [of v l] l accepted(1,3-5) app(1) by (simp add: journal_records_def)
qed simp_all

lemma push_keeps_ok:
  assumes "uuid_text_ok codec" "leases_ok (en_tables e)" "sqlite_reachable codec (lt_journal (en_tables e))"
    and "records_text_ok codec (pr_records request)"
    and "sync_push codec lib ep now reject_ms token request e = (out, e')"
  shows "leases_ok (en_tables e') \<and> sqlite_reachable codec (lt_journal (en_tables e'))"
  using assms(5)
proof (cases rule: push_cases)
  case (accepted v rs ack t')
  from call_append [OF accepted(7) validated_text_ok [OF accepted(6) assms(4)]] assms(2,3) authority_call_ok
  have "leases_ok t' \<and> sqlite_reachable codec (lt_journal t')" by blast
  with accepted(2) show ?thesis by simp
qed (use assms(2,3) in \<open>simp_all add: persist_keeps\<close>)

subsection \<open>Properties\<close>

definition sample_stream :: event_stream_id where "sample_stream = EventStreamId ''thread:7''"

text \<open>The lease of \<open>sample_tables\<close> with one credential minted for it\<close>

definition sample_credential :: credential_row where
  "sample_credential = mint_row sample_tokens 0 (2, 3, 4) (lease_grant sample_lease)"

definition sample_token :: string where
  "sample_token = mint_token sample_tokens (2, 3, 4)"

definition sample_endpoint :: endpoint where
  "sample_endpoint = \<lparr>en_tables = sample_tables\<lparr>lt_credentials := [sample_credential]\<rparr>, en_queue = [], en_rejections = []\<rparr>"

definition sample_endpoint_lib :: endpoint_lib where
  "sample_endpoint_lib = \<lparr>el_tokens = sample_tokens, el_fingerprint = (\<lambda>_ _. ''f''), el_witness_text = (\<lambda>_. ''{}'')\<rparr>"

definition sample_push :: sync_push_request where
  "sample_push = \<lparr>pr_schema = sync_push_schema, pr_stream_id = sample_stream, pr_lease_id = dl_lease_id sample_lease,
     pr_expected_next_sequence = EventSequence 1,
     pr_records = map to_stream_record_v1 (numbered sample_stream 0 [sample_record 1, sample_record 2])\<rparr>"

lemma sample_lease_current:
  "lease_by_id (dl_lease_id sample_lease) sample_tables = Some sample_lease"
  "latest_lease_for_scope (dl_scope sample_lease) sample_tables = Some sample_lease"
  using sample_tables_simps(1) by (simp_all add: lease_by_id_def sample_tables_def sample_lease_def)

lemma sample_mint:
  "mint_credential sample_tokens 0 (2, 3, 4) (lease_grant sample_lease) sample_tables =
     (Inr (\<lparr>wc_schema = sync_stream_write_credential_schema, wc_credential_id = cr_credential_id sample_credential,
       wc_scope = dl_scope sample_lease, wc_lease_id = dl_lease_id sample_lease, wc_minted_at_ms = 0\<rparr>, sample_token),
      en_tables sample_endpoint)"
proof -
  have "is_current_grant (lease_grant sample_lease) sample_tables"
    using sample_lease_current by (simp add: is_current_grant_def lease_grant_def) (simp add: sample_lease_def)
  moreover have "insert_credential_row sample_credential sample_tables = (Inr (), en_tables sample_endpoint)"
    by (simp add: insert_credential_row_def sample_credential_def mint_row_def lease_grant_def sample_endpoint_def)
      (simp add: sample_tables_def)
  moreover have "lg_scope (lease_grant l) = dl_scope l" "lg_lease_id (lease_grant l) = dl_lease_id l" for l
    by (simp_all add: lease_grant_def)
  ultimately show ?thesis
    by (simp add: mint_credential_def Let_def sample_token_def flip: sample_credential_def)
qed

lemma sample_endpoint_reachable:
  "authority_reachable sample_columns (el_tokens sample_endpoint_lib) 60000 (en_tables sample_endpoint)"
proof -
  have "authority_call sample_columns sample_tokens 60000 sample_tables (is_ok (fst (mint_credential sample_tokens 0 (2, 3, 4)
      (lease_grant sample_lease) sample_tables))) (en_tables sample_endpoint)"
    using call_mint [OF sample_mint] by (simp add: sample_mint)
  then show ?thesis
    using sample_tables_reachable unfolding authority_reachable_def authority_later_def
    by (simp add: sample_endpoint_lib_def) (rule rtranclp.rtrancl_into_rtrancl, auto)
qed

lemma sample_verified:
  "verify_token (tk_digest (el_tokens sample_endpoint_lib)) sample_token (en_tables sample_endpoint) =
     Inr (Some \<lparr>vi_credential_id = cr_credential_id sample_credential, vi_scope = dl_scope sample_lease,
       vi_lease_id = dl_lease_id sample_lease\<rparr>)"
proof -
  have row: "cr_token_digest sample_credential = tk_digest sample_tokens sample_token" "cr_revoked_at_ms sample_credential = None"
    "cr_lease_id sample_credential = dl_lease_id sample_lease" "cr_scope sample_credential = dl_scope sample_lease"
    by (simp_all add: sample_credential_def mint_row_def sample_token_def lease_grant_def)
  have leases: "lt_leases (en_tables sample_endpoint) = [sample_lease]" "dl_released_at_ms sample_lease = None"
    by (simp_all add: sample_endpoint_def sample_tables_def sample_lease_def)
  have "{lease. lease = sample_lease \<and> dl_scope lease = dl_scope sample_lease} = {sample_lease}" by auto
  with leases(1) have "latest_generation (dl_scope sample_lease) (en_tables sample_endpoint) = dl_scope_generation sample_lease"
    by (simp add: latest_generation_def)
  moreover have "lt_credentials (en_tables sample_endpoint) = [sample_credential]" by (simp add: sample_endpoint_def)
  ultimately show ?thesis
    using row leases by (simp add: verify_token_def sample_endpoint_lib_def)
qed

lemma sample_fence: "fence_decision sample_stream (dl_lease_id sample_lease) 5 (en_tables sample_endpoint) = Current"
proof -
  from authority_ok [OF sample_endpoint_reachable] have ok: "leases_ok (en_tables sample_endpoint)" by simp
  have "latest_unreleased_leases (en_tables sample_endpoint) = [sample_lease]"
    using sample_tables_simps(2) by (simp add: sample_endpoint_def latest_unreleased_leases_def latest_generation_def)
  moreover have "authorizes (dl_scope sample_lease) sample_stream"
    using sample_tables_simps(3) by (simp add: sample_lease_def sample_stream_def)
  ultimately show ?thesis
    using fence_of_live [OF ok, of sample_lease sample_stream 5] by (simp add: sample_lease_def)
qed

lemma sample_validated:
  "validate_push_request (sq_show_uuid sample_columns) sample_push = Inr [sample_record 1, sample_record 2]"
proof -
  let ?es = "numbered sample_stream 0 [sample_record 1, sample_record 2]"
  have "\<forall>e \<in> set ?es. event_ok e"
    by (simp add: numbered_def event_from_new_def sample_record_def event_witnessed_def event_ok_def)
  moreover have "contiguous_from sample_stream 1 ?es" using numbered_contiguous [of sample_stream 0] by simp
  moreover have "?es \<noteq> []" "length ?es = 2" by (simp_all add: numbered_def)
  ultimately have "validate_push_request (sq_show_uuid sample_columns) sample_push = Inr (map event_to_new ?es)"
    by (intro validate_own_records) (simp_all add: sample_push_def)
  then show ?thesis by (simp add: numbered_def event_from_new_def event_to_new_def)
qed


text \<open>
  C14. What a push can do.  On a reachable endpoint: an accepted push was made under a token that verifies to a live,
  unexpired lease that covers the stream and that the request names, started at the tail of the stream, and has
  extended that stream by exactly the request's records and no other; its acknowledgement is the one
  the request calls for.  A refused push has changed neither journal nor leases nor queue, and its witness is on
  record.  A push that fails has changed nothing.
\<close>

theorem push_is_fenced_and_exact:
  assumes "uuid_text_ok codec" "authority_reachable codec (el_tokens lib) ttl (en_tables e)"
    and "records_text_ok codec (pr_records request)"
    and "sync_push codec lib ep now reject_ms token request e = (out, e')"
  shows "case out of
      Inr (Accepted ack) \<Rightarrow>
        matches_request (Accepted ack) request \<and>
        (\<exists>v l. verify_token (tk_digest (el_tokens lib)) token (en_tables e) = Inr (Some v) \<and>
          l \<in> set (latest_unreleased_leases (en_tables e)) \<and> dl_lease_id l = pr_lease_id request \<and>
          vi_lease_id v = pr_lease_id request \<and> authorizes (dl_scope l) (pr_stream_id request) \<and> now < dl_expires_at_ms l) \<and>
        sequence_get (pr_expected_next_sequence request) =
          int (length (journal_records codec (pr_stream_id request) (lt_journal (en_tables e)))) + 1 \<and>
        (\<forall>i. journal_records codec i (lt_journal (en_tables e')) =
          journal_records codec i (lt_journal (en_tables e)) @ (if i = pr_stream_id request then pr_records request else []))
    | Inr (Rejected rejection) \<Rightarrow>
        matches_request (Rejected rejection) request \<and> en_tables e' = en_tables e \<and> en_queue e' = en_queue e \<and>
        prefix (en_rejections e) (en_rejections e') \<and>
        (\<exists>row \<in> set (en_rejections e'). rr_request_fingerprint row = el_fingerprint lib request (pj_reason rejection))
    | Inl err \<Rightarrow> e' = e"
  using assms(4)
proof (cases rule: push_cases)
  case (refused reason)
  then have "out = Inr (Rejected (refusal reject_ms request reason))"
    "matches_request (Rejected (refusal reject_ms request reason)) request"
    by (simp_all add: matches_request_def refusal_def)
  with refused(2) show ?thesis by (simp add: persist_keeps)
next
  case (accepted v rs ack t')
  from authority_ok [OF assms(2)] have ok: "leases_ok (en_tables e)" "sqlite_reachable codec (lt_journal (en_tables e))" by simp_all
  from accepted_push [OF assms(1) ok assms(3) assms(4) [unfolded accepted(1)]] obtain w l where
    "matches_request (Accepted ack) request"
    and w: "verify_token (tk_digest (el_tokens lib)) token (en_tables e) = Inr (Some w)" "vi_lease_id w = pr_lease_id request"
    "l \<in> set (latest_unreleased_leases (en_tables e))" "dl_lease_id l = pr_lease_id request"
    "authorizes (dl_scope l) (pr_stream_id request)" "now < dl_expires_at_ms l"
    and "sequence_get (pr_expected_next_sequence request) =
      int (length (journal_records codec (pr_stream_id request) (lt_journal (en_tables e)))) + 1"
    "\<forall>i. journal_records codec i (lt_journal (en_tables e')) =
      journal_records codec i (lt_journal (en_tables e)) @ (if i = pr_stream_id request then pr_records request else [])" .
  moreover from w have "\<exists>v l. verify_token (tk_digest (el_tokens lib)) token (en_tables e) = Inr (Some v) \<and>
      l \<in> set (latest_unreleased_leases (en_tables e)) \<and> dl_lease_id l = pr_lease_id request \<and>
      vi_lease_id v = pr_lease_id request \<and> authorizes (dl_scope l) (pr_stream_id request) \<and> now < dl_expires_at_ms l"
    by blast
  ultimately show ?thesis unfolding accepted(1) by simp
qed simp

lemma sample_push_accepted:
  "\<exists>ack e'. sync_push sample_columns sample_endpoint_lib 0 5 5 sample_token sample_push sample_endpoint =
     (Inr (Accepted ack), e')"
proof -
  let ?rs = "[sample_record 1, sample_record 2]"
  have journal: "lt_journal (en_tables sample_endpoint) = sqlite_new" by (simp add: sample_endpoint_def sample_tables_def)
  then have empty: "journal_events sample_columns i (lt_journal (en_tables sample_endpoint)) = []" for i
    using journal_events_eq [OF represents_new] by (simp add: store_new_def)
  have "sqlite_reachable sample_columns (lt_journal (en_tables sample_endpoint))"
    using journal sqlite_reachable.opened by simp
  moreover have "\<forall>r \<in> set ?rs. event_text_ok sample_columns r" by (simp add: sample_columns_ok)
  moreover have "fst (sqlite_enforce_lease_epoch sample_stream 0 (lt_journal (en_tables sample_endpoint))) = Inr ()"
    by (simp add: journal sqlite_enforce_lease_epoch_def sqlite_new_def)
  moreover have "\<forall>r \<in> set ?rs. validate_new_event r = Inr () \<and> storable r" "distinct (map ne_id ?rs)"
    using sample_admissible by (simp_all add: admissible_batch_def)
  ultimately have "\<exists>ack t'. append_if_current sample_columns 0 5 sample_stream (dl_lease_id sample_lease) (EventSequence 1) ?rs
      (en_tables sample_endpoint) = (Inr (Appended ack), t')"
    by (intro append_if_current_accepts sample_columns_ok(1) sample_fence) (simp_all add: empty)
  moreover have "authorizes (dl_scope sample_lease) sample_stream"
    using sample_tables_simps(3) by (simp add: sample_lease_def sample_stream_def)
  moreover have "pr_stream_id sample_push = sample_stream" "pr_lease_id sample_push = dl_lease_id sample_lease"
    "pr_expected_next_sequence sample_push = EventSequence 1" by (simp_all add: sample_push_def)
  ultimately show ?thesis by (auto simp: sync_push_def sample_verified sample_validated)
qed

theorem push_is_fenced_and_exact_witness:
  "\<exists>ack e'. sync_push sample_columns sample_endpoint_lib 0 5 5 sample_token sample_push sample_endpoint =
       (Inr (Accepted ack), e') \<and>
     journal_records sample_columns sample_stream (lt_journal (en_tables e')) = pr_records sample_push"
proof -
  from sample_push_accepted obtain ack e' where
    push: "sync_push sample_columns sample_endpoint_lib 0 5 5 sample_token sample_push sample_endpoint = (Inr (Accepted ack), e')"
    by blast
  have "records_text_ok sample_columns (pr_records sample_push)"
    by (simp add: records_text_ok_def sample_push_def numbered_def to_stream_record_v1_def event_from_new_def
        sample_columns_def sample_record_def event_witnessed_def)
  from push_is_fenced_and_exact [OF sample_columns_ok(1) sample_endpoint_reachable this push]
  have "journal_records sample_columns sample_stream (lt_journal (en_tables e')) =
      journal_records sample_columns sample_stream (lt_journal (en_tables sample_endpoint)) @ pr_records sample_push"
    by (simp add: sample_push_def)
  moreover have "journal_records sample_columns sample_stream (lt_journal (en_tables sample_endpoint)) = []"
    using journal_events_eq [OF represents_new, of sample_columns sample_stream]
    by (simp add: journal_records_def sample_endpoint_def sample_tables_def store_new_def)
  ultimately show ?thesis using push by auto
qed

end
