(* ===== verification/Stream_Propagation.thy ===== *)
theory Stream_Propagation
  imports Endpoint_Safety "HOL-Library.Signed_Division"
begin

section \<open>The stream propagator of a remote child\<close>

text \<open>
  \<^verbatim>\<open>src/crates/verlet-kernel/src/daemon/remote_store/propagator.rs\<close>: the child appends to its own store
  and a propagator pushes the local stream to the parent's endpoint.  The endpoint's three doors (push,
  pull, renew) are trait objects in the code and functions over a world here, so that the same
  propagator runs against the endpoint itself and against a link that loses requests and replies.

  One attempt sees one state of the local journal.  The clock is an argument; the text of a persisted state
  is a parameter.
\<close>

subsection \<open>State and steps\<close>

record stream_propagation_state =
  sp_stream_id :: event_stream_id
  sp_lease :: stream_lease_grant
  sp_pushed_through :: "event_sequence option"

datatype propagation_step =
  Converged
| Advanced event_sequence
| EndpointUnavailable
| LeaseFenced
| StreamDiverged event_sequence

record propagation_codec =
  pc_state_text :: "stream_propagation_state \<Rightarrow> string"
  pc_parse_state :: "string \<Rightarrow> string + stream_propagation_state"

type_synonym propagation_rows = "(string, string) hmap"

definition load_state ::
  "propagation_codec \<Rightarrow> event_stream_id \<Rightarrow> propagation_rows \<Rightarrow> stream_propagation_state option verlet_result" where
  "load_state codec stream_id rows =
     (case hm_get rows (stream_id_str stream_id) of
        None \<Rightarrow> Inr None
      | Some encoded \<Rightarrow>
          (case pc_parse_state codec encoded of
             Inl err \<Rightarrow> Inl (HistoryMessage (''decode stream propagation state: '' @ err))
           | Inr st \<Rightarrow> Inr (Some st)))"

definition persist_state ::
  "propagation_codec \<Rightarrow> stream_propagation_state \<Rightarrow> propagation_rows \<Rightarrow> propagation_rows" where
  "persist_state codec st rows = hm_insert (stream_id_str (sp_stream_id st)) (pc_state_text codec st) rows"

subsection \<open>The propagator\<close>

record 'w sync_gates =
  sg_push :: "string \<Rightarrow> sync_push_request \<Rightarrow> 'w \<Rightarrow> sync_push_outcome verlet_result \<times> 'w"
  sg_pull :: "string \<Rightarrow> event_stream_id \<Rightarrow> stream_cursor option \<Rightarrow> 'w \<Rightarrow>
    stream_record_envelope list verlet_result \<times> 'w"
  sg_renew :: "string \<Rightarrow> 'w \<Rightarrow> stream_lease_grant option verlet_result \<times> 'w"

record 'w local_first_propagator =
  lp_store_codec :: sqlite_codec
  lp_local :: database
  lp_gates :: "'w sync_gates"
  lp_state_codec :: propagation_codec
  lp_bearer_token :: string
  lp_batch_size :: nat

record 'w propagation =
  pg_state :: stream_propagation_state
  pg_rows :: propagation_rows
  pg_world :: 'w

definition default_push_batch_size :: nat where "default_push_batch_size = 128"

definition with_batch_size :: "nat \<Rightarrow> 'w local_first_propagator \<Rightarrow> 'w local_first_propagator" where
  "with_batch_size batch_size p = p\<lparr>lp_batch_size := max batch_size 1\<rparr>"

definition min_renewal_margin_ms :: i64 where "min_renewal_margin_ms = 1000"

definition saturate_i64 :: "int \<Rightarrow> i64" where
  "saturate_i64 n = max (- (2 ^ 63)) (min (2 ^ 63 - 1) n)"

definition persisted :: "'w local_first_propagator \<Rightarrow> stream_propagation_state \<Rightarrow> 'w propagation \<Rightarrow> 'w propagation" where
  "persisted p st g = g\<lparr>pg_state := st, pg_rows := persist_state (lp_state_codec p) st (pg_rows g)\<rparr>"

definition propagator_renew ::
  "'w local_first_propagator \<Rightarrow> 'w propagation \<Rightarrow> propagation_step option verlet_result \<times> 'w propagation" where
  "propagator_renew p g =
     (case sg_renew (lp_gates p) (lp_bearer_token p) (pg_world g) of
        (Inl _, w) \<Rightarrow> (Inr (Some EndpointUnavailable), g\<lparr>pg_world := w\<rparr>)
      | (Inr None, w) \<Rightarrow> (Inr (Some LeaseFenced), g\<lparr>pg_world := w\<rparr>)
      | (Inr (Some renewed), w) \<Rightarrow>
          let st = pg_state g; g = g\<lparr>pg_world := w\<rparr> in
          if lg_lease_id renewed \<noteq> lg_lease_id (sp_lease st) \<or> lg_scope renewed \<noteq> lg_scope (sp_lease st)
          then (Inr (Some LeaseFenced), g)
          else (Inr None, persisted p (st\<lparr>sp_lease := renewed\<rparr>) g))"

definition renew_if_due ::
  "'w local_first_propagator \<Rightarrow> i64 \<Rightarrow> 'w propagation \<Rightarrow> propagation_step option verlet_result \<times> 'w propagation" where
  "renew_if_due p now_ms g =
     (let lease = sp_lease (pg_state g);
          lease_duration_ms = saturate_i64 (lg_expires_at_ms lease - lg_granted_at_ms lease);
          renewal_margin_ms = max (lease_duration_ms sdiv 3) min_renewal_margin_ms in
      if now_ms < saturate_i64 (lg_expires_at_ms lease - renewal_margin_ms) then (Inr None, g)
      else propagator_renew p g)"

definition read_local ::
  "'w local_first_propagator \<Rightarrow> event_stream_id \<Rightarrow> event_sequence option \<Rightarrow> event_record list verlet_result" where
  "read_local p stream_id from_sequence =
     history_err (sqlite_read_events (lp_store_codec p) stream_id from_sequence (lp_local p))"

definition conflict_cursor ::
  "'w local_first_propagator \<Rightarrow> event_stream_id \<Rightarrow> event_sequence \<Rightarrow> stream_cursor option verlet_result" where
  "conflict_cursor p stream_id expected =
     (if sequence_get expected = 1 then Inr None
      else and_then (read_local p stream_id (Some (EventSequence (sequence_get expected - 1)))) (\<lambda>events.
        case events of
          [] \<Rightarrow> Inl (HistoryMessage ''local propagation cursor record is missing'')
        | previous # _ \<Rightarrow> Inr (Some (cursor_from_event previous))))"

definition advance ::
  "'w local_first_propagator \<Rightarrow> stream_record_envelope list \<Rightarrow> 'w propagation \<Rightarrow>
   propagation_step verlet_result \<times> 'w propagation" where
  "advance p batch g =
     (let pushed_through = se_sequence (last batch) in
      (Inr (Advanced pushed_through), persisted p ((pg_state g)\<lparr>sp_pushed_through := Some pushed_through\<rparr>) g))"

definition reconcile_sequence_conflict ::
  "'w local_first_propagator \<Rightarrow> stream_record_envelope list \<Rightarrow> event_sequence \<Rightarrow> 'w propagation \<Rightarrow>
   propagation_step verlet_result \<times> 'w propagation" where
  "reconcile_sequence_conflict p batch actual_next_sequence g =
     (let stream_id = sp_stream_id (pg_state g); expected = se_sequence (hd batch) in
      or_return (conflict_cursor p stream_id expected) g (\<lambda>cursor.
      case sg_pull (lp_gates p) (lp_bearer_token p) stream_id cursor (pg_world g) of
        (Inl err, w) \<Rightarrow>
          (Inr (if err = HistoryMessage ''sync pull not authorized'' then LeaseFenced
            else case err of
              HistoryMessage _ \<Rightarrow> StreamDiverged actual_next_sequence
            | StoreError _ \<Rightarrow> StreamDiverged actual_next_sequence
            | _ \<Rightarrow> EndpointUnavailable), g\<lparr>pg_world := w\<rparr>)
      | (Inr remote, w) \<Rightarrow>
          let g = g\<lparr>pg_world := w\<rparr> in
          if length remote < length batch \<or> take (length batch) remote \<noteq> batch
          then (Inr (StreamDiverged actual_next_sequence), g)
          else if length batch < length remote
          then or_return (read_local p stream_id (Some expected)) g (\<lambda>events.
            let local_records = map to_stream_record_v1 events in
            if length local_records < length remote \<or> remote \<noteq> take (length remote) local_records
            then (Inr (StreamDiverged actual_next_sequence), g)
            else advance p batch g)
          else advance p batch g))"

function push_batch ::
  "'w local_first_propagator \<Rightarrow> sync_push_request \<Rightarrow> bool \<Rightarrow> 'w propagation \<Rightarrow>
   propagation_step verlet_result \<times> 'w propagation" where
  "push_batch p request renewed_after_expiry g =
     (case sg_push (lp_gates p) (lp_bearer_token p) request (pg_world g) of
        (Inl _, w) \<Rightarrow> (Inr EndpointUnavailable, g\<lparr>pg_world := w\<rparr>)
      | (Inr outcome, w) \<Rightarrow>
          let g = g\<lparr>pg_world := w\<rparr> in
          if \<not> matches_request outcome request then (Inr EndpointUnavailable, g)
          else case outcome of
            Accepted _ \<Rightarrow> advance p (pr_records request) g
          | Rejected rejection \<Rightarrow>
              if pj_reason rejection = LeaseFence Expired \<and> \<not> renewed_after_expiry
              then (case propagator_renew p g of
                  (Inl e, g') \<Rightarrow> (Inl e, g')
                | (Inr (Some step), g') \<Rightarrow> (Inr step, g')
                | (Inr None, g') \<Rightarrow> push_batch p request True g')
              else (case pj_reason rejection of
                  SequenceFenceConflict actual \<Rightarrow> reconcile_sequence_conflict p (pr_records request) actual g
                | _ \<Rightarrow> (Inr LeaseFenced, g)))"
  by pat_completeness auto
termination by (relation "measure (\<lambda>(_, _, renewed, _). if renewed then 0 else 1)") auto

declare push_batch.simps [simp del]

definition propagate_once ::
  "'w local_first_propagator \<Rightarrow> i64 \<Rightarrow> 'w propagation \<Rightarrow> propagation_step verlet_result \<times> 'w propagation" where
  "propagate_once p now_ms g =
     (if \<not> authorizes (lg_scope (sp_lease (pg_state g))) (sp_stream_id (pg_state g))
      then (Inl (HistoryMessage ''propagation lease scope does not authorize its stream''), g)
      else
        (case renew_if_due p now_ms g of
           (Inl e, g) \<Rightarrow> (Inl e, g)
         | (Inr (Some step), g) \<Rightarrow> (Inr step, g)
         | (Inr None, g) \<Rightarrow>
             let st = pg_state g;
                 from_sequence = map_option (\<lambda>sequence. EventSequence (saturate_i64 (sequence_get sequence + 1)))
                   (sp_pushed_through st) in
             or_return (read_local p (sp_stream_id st) from_sequence) g (\<lambda>events.
             let batch = map to_stream_record_v1 (take (lp_batch_size p) events) in
             case batch of
               [] \<Rightarrow> (Inr Converged, g)
             | first # _ \<Rightarrow>
                 push_batch p
                   \<lparr>pr_schema = sync_push_schema, pr_stream_id = sp_stream_id st, pr_lease_id = lg_lease_id (sp_lease st),
                    pr_expected_next_sequence = se_sequence first, pr_records = batch\<rparr> False g)))"

end
