(* ===== verification/Propagation_Safety.thy ===== *)
theory Propagation_Safety
  imports Stream_Propagation
begin

section \<open>Propagation: the parent follows the child\<close>

text \<open>
  \<open>sync_parent\<close> is what a propagator relies on of the three doors it calls: a push extends the parent's
  stream by the request's records, at the tail the request names, or not at all, whatever it answers; an
  acceptance means it did; a pull reads the stream after the cursor; renewing changes no record.  In
  the locale, whatever was confirmed is held by both sides, and stays so.  The endpoint behind a link
  that loses requests and replies is the interpretation.
\<close>

subsection \<open>What was confirmed\<close>

definition pushed_count :: "stream_propagation_state \<Rightarrow> nat" where
  "pushed_count st = (case sp_pushed_through st of None \<Rightarrow> 0 | Some q \<Rightarrow> nat (sequence_get q))"

definition agrees ::
  "stream_record_envelope list \<Rightarrow> stream_record_envelope list \<Rightarrow> stream_propagation_state \<Rightarrow> bool" where
  "agrees child parent st \<longleftrightarrow> (\<forall>q. sp_pushed_through st = Some q \<longrightarrow> 1 \<le> sequence_get q) \<and>
     pushed_count st \<le> length child \<and> pushed_count st \<le> length parent \<and>
     take (pushed_count st) parent = take (pushed_count st) child"

lemma agrees_grow:
  "agrees child parent st \<Longrightarrow> prefix child child' \<Longrightarrow> prefix parent parent' \<Longrightarrow> agrees child' parent' st"
  by (auto simp: agrees_def prefix_def)

text \<open>What one call may do to the position and to the parent's stream\<close>

definition step_sound ::
  "stream_record_envelope list \<Rightarrow> stream_propagation_state \<Rightarrow> stream_record_envelope list \<Rightarrow>
   propagation_step verlet_result \<Rightarrow> stream_propagation_state \<Rightarrow> stream_record_envelope list \<Rightarrow> bool" where
  "step_sound child st parent r st' parent' \<longleftrightarrow>
     agrees child parent' st' \<and> prefix parent parent' \<and> (prefix parent child \<longrightarrow> prefix parent' child) \<and>
     sp_stream_id st' = sp_stream_id st \<and> lg_lease_id (sp_lease st') = lg_lease_id (sp_lease st) \<and>
     lg_scope (sp_lease st') = lg_scope (sp_lease st) \<and>
     (case r of
        Inr (Advanced q) \<Rightarrow> pushed_count st < pushed_count st' \<and> sp_pushed_through st' = Some q
      | Inr Converged \<Rightarrow> sp_pushed_through st' = sp_pushed_through st \<and> pushed_count st' = length child
      | _ \<Rightarrow> sp_pushed_through st' = sp_pushed_through st)"

lemma step_sound_trans:
  assumes "agrees child parent1 st1" "prefix parent parent1" "prefix parent child \<Longrightarrow> prefix parent1 child"
    and "sp_stream_id st1 = sp_stream_id st" "lg_lease_id (sp_lease st1) = lg_lease_id (sp_lease st)"
    and "lg_scope (sp_lease st1) = lg_scope (sp_lease st)" "sp_pushed_through st1 = sp_pushed_through st"
    and "step_sound child st1 parent1 r st' parent'"
  shows "step_sound child st parent r st' parent'"
proof -
  have "pushed_count st1 = pushed_count st" by (simp add: pushed_count_def assms(7))
  with assms show ?thesis
    unfolding step_sound_def by (auto split: sum.splits propagation_step.splits intro: prefix_order.trans)
qed

subsection \<open>The interface\<close>

locale sync_parent =
  fixes gates :: "'w sync_gates" and token :: string and i :: event_stream_id
    and records :: "'w \<Rightarrow> stream_record_envelope list" and inv :: "'w \<Rightarrow> bool" and readable :: "stream_record_envelope \<Rightarrow> bool"
  assumes push_law: "inv w \<Longrightarrow> pr_stream_id req = i \<Longrightarrow> \<forall>env \<in> set (pr_records req). readable env \<Longrightarrow>
      sg_push gates token req w = (out, w') \<Longrightarrow>
      inv w' \<and> (records w' = records w \<or> records w' = records w @ pr_records req \<and>
        sequence_get (pr_expected_next_sequence req) = int (length (records w)) + 1)"
    and accept_law: "inv w \<Longrightarrow> pr_stream_id req = i \<Longrightarrow> \<forall>env \<in> set (pr_records req). readable env \<Longrightarrow>
      sg_push gates token req w = (Inr (Accepted ack), w') \<Longrightarrow>
      records w' = records w @ pr_records req \<and>
        sequence_get (pr_expected_next_sequence req) = int (length (records w)) + 1"
    and pull_law: "inv w \<Longrightarrow> sg_pull gates token i cursor w = (got, w') \<Longrightarrow> inv w' \<and> records w' = records w \<and>
      (\<forall>rs. got = Inr rs \<longrightarrow> (case cursor of None \<Rightarrow> rs = records w
         | Some c \<Rightarrow> 1 \<le> sequence_get (cu_sequence c) \<and> sequence_get (cu_sequence c) \<le> int (length (records w)) \<and>
             rs = drop (nat (sequence_get (cu_sequence c))) (records w)))"
    and renew_law: "inv w \<Longrightarrow> sg_renew gates token w = (renewed, w') \<Longrightarrow> inv w' \<and> records w' = records w"

definition propagator_ok :: "'w sync_gates \<Rightarrow> string \<Rightarrow> event_stream_id \<Rightarrow> (stream_record_envelope \<Rightarrow> bool) \<Rightarrow>
    'w local_first_propagator \<Rightarrow> bool" where
  "propagator_ok gates token i readable p \<longleftrightarrow> lp_gates p = gates \<and> lp_bearer_token p = token \<and>
     uuid_text_ok (lp_store_codec p) \<and> sqlite_reachable (lp_store_codec p) (lp_local p) \<and> 1 \<le> lp_batch_size p \<and>
     int (length (journal_events (lp_store_codec p) i (lp_local p))) < 2 ^ 63 - 1 \<and>
     (\<forall>env \<in> set (journal_records (lp_store_codec p) i (lp_local p)). readable env)"

abbreviation child_records :: "'w local_first_propagator \<Rightarrow> event_stream_id \<Rightarrow> stream_record_envelope list" where
  "child_records p i \<equiv> journal_records (lp_store_codec p) i (lp_local p)"

subsection \<open>Reading the local stream\<close>

lemma child_record_at:
  assumes "propagator_ok gates token i readable p" "k < length (child_records p i)"
  shows "sequence_get (se_sequence (child_records p i ! k)) = int k + 1"
  using assms journal_read(2) [of "lp_store_codec p" "lp_local p" i]
  by (auto simp: propagator_ok_def journal_records_def to_stream_record_v1_def contiguous_from_def)

lemma read_local_from:
  assumes "propagator_ok gates token i readable p" "1 \<le> sequence_get q"
  shows "read_local p i (Some q) = Inr (drop (nat (sequence_get q) - 1) (journal_events (lp_store_codec p) i (lp_local p)))"
  using assms by (simp add: read_local_def propagator_ok_def journal_read(3))

lemma read_local_pushed:
  assumes "propagator_ok gates token i readable p" "agrees (child_records p i) parent st"
  shows "read_local p i (map_option (\<lambda>q. EventSequence (saturate_i64 (sequence_get q + 1))) (sp_pushed_through st)) =
    Inr (drop (pushed_count st) (journal_events (lp_store_codec p) i (lp_local p)))"
proof (cases "sp_pushed_through st")
  case None
  then show ?thesis using assms by (simp add: read_local_def propagator_ok_def journal_read(1) pushed_count_def)
next
  case (Some q)
  with assms have "1 \<le> sequence_get q" "int (nat (sequence_get q)) < 2 ^ 63 - 1"
    by (auto simp: agrees_def pushed_count_def propagator_ok_def journal_records_def)
  then have "saturate_i64 (sequence_get q + 1) = sequence_get q + 1" by (simp add: saturate_i64_def)
  with Some \<open>1 \<le> sequence_get q\<close> show ?thesis
    using read_local_from [OF assms(1), of "EventSequence (sequence_get q + 1)"]
    by (simp add: pushed_count_def nat_add_distrib)
qed

text \<open>A batch is the part of the local stream that follows what was confirmed.\<close>

lemma batch_bounds:
  assumes "propagator_ok gates token i readable p" "batch = take b (drop n (child_records p i))" "batch \<noteq> []"
  shows "sequence_get (se_sequence (hd batch)) = int n + 1"
    and "sequence_get (se_sequence (last batch)) = int n + int (length batch)"
    and "n + length batch \<le> length (child_records p i)"
    and "take (n + length batch) (child_records p i) = take n (child_records p i) @ batch"
    and "\<forall>env \<in> set batch. readable env"
proof -
  have n: "n < length (child_records p i)" "0 < b" using assms(2,3) by auto
  then have len: "length batch = min b (length (child_records p i) - n)" using assms(2) by simp
  have nth: "batch ! k = child_records p i ! (n + k)" if "k < length batch" for k using that n len assms(2) by simp
  show "sequence_get (se_sequence (hd batch)) = int n + 1"
    using nth [of 0] n assms(3) child_record_at [OF assms(1) n(1)] by (simp add: hd_conv_nth)
  obtain m where m: "length batch = Suc m" using assms(3) by (cases batch) auto
  then have "n + m < length (child_records p i)" using len n by linarith
  from child_record_at [OF assms(1) this] nth [of m] m
  show "sequence_get (se_sequence (last batch)) = int n + int (length batch)"
    using assms(3) by (simp add: last_conv_nth)
  show "n + length batch \<le> length (child_records p i)" using len n by simp
  show "take (n + length batch) (child_records p i) = take n (child_records p i) @ batch"
    using assms(2) by (simp add: take_add len take_all_iff min_def)
  show "\<forall>env \<in> set batch. readable env"
    using assms(1,2) by (auto simp: propagator_ok_def dest!: in_set_takeD in_set_dropD)
qed

text \<open>An attempt past the renewal pushes the next batch, or there is none.\<close>

definition next_batch :: "'w local_first_propagator \<Rightarrow> stream_propagation_state \<Rightarrow> stream_record_envelope list" where
  "next_batch p st = take (lp_batch_size p) (drop (pushed_count st) (child_records p (sp_stream_id st)))"

definition next_request :: "'w local_first_propagator \<Rightarrow> stream_propagation_state \<Rightarrow> sync_push_request" where
  "next_request p st =
     \<lparr>pr_schema = sync_push_schema, pr_stream_id = sp_stream_id st, pr_lease_id = lg_lease_id (sp_lease st),
      pr_expected_next_sequence = se_sequence (hd (next_batch p st)), pr_records = next_batch p st\<rparr>"

lemma propagate_pushes:
  assumes "propagator_ok gates token i readable p" "renew_if_due p now g = (Inr None, g1)"
    and "authorizes (lg_scope (sp_lease (pg_state g))) (sp_stream_id (pg_state g))"
    and "agrees (child_records p i) parent (pg_state g1)" "sp_stream_id (pg_state g1) = i"
  shows "propagate_once p now g = (if next_batch p (pg_state g1) = [] then (Inr Converged, g1)
    else push_batch p (next_request p (pg_state g1)) False g1)"
proof -
  let ?es = "take (lp_batch_size p) (drop (pushed_count (pg_state g1)) (journal_events (lp_store_codec p) i (lp_local p)))"
  have batch: "next_batch p (pg_state g1) = map to_stream_record_v1 ?es"
    by (simp add: next_batch_def assms(5) journal_records_def take_map drop_map)
  have "propagate_once p now g = (case map to_stream_record_v1 ?es of [] \<Rightarrow> (Inr Converged, g1)
      | first # _ \<Rightarrow> push_batch p \<lparr>pr_schema = sync_push_schema, pr_stream_id = sp_stream_id (pg_state g1),
          pr_lease_id = lg_lease_id (sp_lease (pg_state g1)), pr_expected_next_sequence = se_sequence first,
          pr_records = map to_stream_record_v1 ?es\<rparr> False g1)"
    using assms(2,3,5) read_local_pushed [OF assms(1,4)] by (simp add: propagate_once_def Let_def)
  then show ?thesis unfolding next_request_def batch by (cases "map to_stream_record_v1 ?es") simp_all
qed

lemma renew_returns: "propagator_renew p g = (Inl e, g') \<Longrightarrow> False"
  by (auto simp: propagator_renew_def Let_def split: prod.splits sum.splits option.splits if_splits)

lemma push_batch_cases:
  assumes "push_batch p req renewed g = (r, g')" "sg_push (lp_gates p) (lp_bearer_token p) req (pg_world g) = (out, w)"
  obtains (stopped) "r \<in> {Inr EndpointUnavailable, Inr LeaseFenced}" "g' = g\<lparr>pg_world := w\<rparr>"
  | (accepted) ack where "out = Inr (Accepted ack)" "matches_request (Accepted ack) req"
      "advance p (pr_records req) (g\<lparr>pg_world := w\<rparr>) = (r, g')"
  | (conflict) n where "reconcile_sequence_conflict p (pr_records req) n (g\<lparr>pg_world := w\<rparr>) = (r, g')"
  | (renewing) s where "propagator_renew p (g\<lparr>pg_world := w\<rparr>) = (Inr (Some s), g')" "r = Inr s"
  | (again) g2 where "\<not> renewed" "propagator_renew p (g\<lparr>pg_world := w\<rparr>) = (Inr None, g2)" "push_batch p req True g2 = (r, g')"
proof (cases "\<exists>outcome. out = Inr outcome \<and> matches_request outcome req")
  case False
  then show thesis
    using assms by (intro stopped) (auto simp: push_batch.simps [of p req renewed] Let_def split: sum.splits if_splits)
next
  case True
  then obtain outcome where out: "out = Inr outcome" "matches_request outcome req" by blast
  show thesis
  proof (cases outcome)
    case (Accepted ack)
    with assms out show thesis by (intro accepted) (auto simp: push_batch.simps [of p req renewed] Let_def)
  next
    case (Rejected rejection)
    show thesis
    proof (cases "pj_reason rejection = LeaseFence Expired \<and> \<not> renewed")
      case True
      obtain a g2 where a: "propagator_renew p (g\<lparr>pg_world := w\<rparr>) = (a, g2)" by (cases "propagator_renew p (g\<lparr>pg_world := w\<rparr>)")
      then obtain s where "a = Inr s" using renew_returns by (cases a) blast+
      with assms out Rejected True a renewing again show thesis
        by (cases s) (auto simp: push_batch.simps [of p req False] Let_def)
    next
      case False
      then have "(case pj_reason rejection of
            SequenceFenceConflict n \<Rightarrow> reconcile_sequence_conflict p (pr_records req) n (g\<lparr>pg_world := w\<rparr>)
          | _ \<Rightarrow> (Inr LeaseFenced, g\<lparr>pg_world := w\<rparr>)) = (r, g')"
        using assms out Rejected by (auto simp: push_batch.simps [of p req renewed] Let_def)
      then show thesis using stopped conflict by (cases "pj_reason rejection") auto
    qed
  qed
qed

context sync_parent
begin

lemma renew_sound:
  assumes "lp_gates p = gates" "lp_bearer_token p = token" "inv (pg_world g)" "propagator_renew p g = (r, g')"
  shows "inv (pg_world g') \<and> records (pg_world g') = records (pg_world g) \<and>
    sp_pushed_through (pg_state g') = sp_pushed_through (pg_state g) \<and> sp_stream_id (pg_state g') = sp_stream_id (pg_state g) \<and>
    lg_lease_id (sp_lease (pg_state g')) = lg_lease_id (sp_lease (pg_state g)) \<and>
    lg_scope (sp_lease (pg_state g')) = lg_scope (sp_lease (pg_state g)) \<and>
    (\<forall>s. r = Inr (Some s) \<longrightarrow> s \<in> {EndpointUnavailable, LeaseFenced}) \<and> (\<exists>o'. r = Inr o')"
proof -
  obtain a w where a: "sg_renew gates token (pg_world g) = (a, w)" by (cases "sg_renew gates token (pg_world g)")
  from renew_law [OF assms(3) a] have "inv w" "records w = records (pg_world g)" by simp_all
  with assms(1,2,4) a show ?thesis
    by (auto simp: propagator_renew_def persisted_def Let_def split: sum.splits option.splits if_splits)
qed

lemma advance_sound:
  assumes p: "propagator_ok gates token i readable p" and "agrees (child_records p i) (records w) st"
    and batch: "batch = take b (drop (pushed_count st) (child_records p i))" "batch \<noteq> []"
    and parent: "take (pushed_count st + length batch) (records w) = take (pushed_count st) (records w) @ batch"
    and st: "pg_state g = st" "pg_world g = w" and "advance p batch g = (r, g')"
  shows "step_sound (child_records p i) st (records w) r (pg_state g') (records w)" and "pg_world g' = w"
proof -
  let ?n = "pushed_count st + length batch" and ?q = "se_sequence (last batch)"
  note bounds = batch_bounds [OF p batch]
  have g': "pg_state g' = st\<lparr>sp_pushed_through := Some ?q\<rparr>" "pg_world g' = w" "r = Inr (Advanced ?q)"
    using assms(8) st by (auto simp: advance_def persisted_def Let_def)
  have count: "pushed_count (pg_state g') = ?n" using bounds(2) by (simp add: g' pushed_count_def)
  have "length (take ?n (records w)) = ?n"
    using assms(2) unfolding parent by (simp add: agrees_def)
  then have "?n \<le> length (records w)" by simp
  moreover have "take ?n (records w) = take ?n (child_records p i)"
    using assms(2) by (simp add: parent bounds(4) agrees_def)
  moreover have "1 \<le> sequence_get ?q" using bounds(2) batch(2) by (cases batch) simp_all
  ultimately have "agrees (child_records p i) (records w) (pg_state g')"
    using bounds(3) count by (simp add: agrees_def g')
  with count batch(2) show "step_sound (child_records p i) st (records w) r (pg_state g') (records w)"
    by (simp add: step_sound_def g')
  show "pg_world g' = w" by (rule g')
qed

text \<open>An attempt that reports no progress keeps the position.\<close>

lemma stay_sound:
  "agrees child parent st \<Longrightarrow> \<forall>q. r \<noteq> Inr (Advanced q) \<Longrightarrow> r \<noteq> Inr Converged \<Longrightarrow>
   step_sound child st parent r st parent"
  by (auto simp: step_sound_def split: sum.splits propagation_step.splits)

lemma conflict_cursor_pulls:
  assumes p: "propagator_ok gates token i readable p" and "agrees (child_records p i) (records w) st"
    and batch: "batch = take b (drop (pushed_count st) (child_records p i))" "batch \<noteq> []"
    and "conflict_cursor p i (se_sequence (hd batch)) = Inr cursor" "inv w"
    and "sg_pull gates token i cursor w = (Inr remote, w')"
  shows "remote = drop (pushed_count st) (records w)"
proof -
  let ?n = "pushed_count st" and ?es = "journal_events (lp_store_codec p) i (lp_local p)"
  note first = batch_bounds(1) [OF p batch]
  show ?thesis
  proof (cases "?n = 0")
    case True
    with first assms(5) have "cursor = None" by (simp add: conflict_cursor_def)
    with pull_law [OF assms(6,7)] True show ?thesis by simp
  next
    case False
    have "?n \<le> length ?es" using assms(2) by (simp add: agrees_def journal_records_def)
    with False have n: "?n - 1 < length ?es" by linarith
    have "read_local p i (Some (EventSequence (int ?n))) = Inr (drop (?n - 1) ?es)"
      using read_local_from [OF p, of "EventSequence (int ?n)"] False by simp
    moreover have "drop (?n - 1) ?es = ?es ! (?n - 1) # drop ?n ?es"
      using n False Cons_nth_drop_Suc [of "?n - 1" ?es] by simp
    ultimately have "cursor = Some (cursor_from_event (?es ! (?n - 1)))"
      using assms(5) first False by (simp add: conflict_cursor_def)
    moreover have "sequence_get (ev_sequence (?es ! (?n - 1))) = int ?n"
      using child_record_at [OF p, of "?n - 1"] n False
      by (simp add: journal_records_def to_stream_record_v1_def of_nat_diff)
    ultimately show ?thesis
      using pull_law [OF assms(6,7)] by (simp add: cursor_from_event_def cursor_new_def)
  qed
qed

lemma reconcile_sound:
  assumes p: "propagator_ok gates token i readable p" and ok: "agrees (child_records p i) (records (pg_world g)) (pg_state g)"
    and i: "sp_stream_id (pg_state g) = i" and w: "inv (pg_world g)"
    and batch: "batch = take b (drop (pushed_count (pg_state g)) (child_records p i))" "batch \<noteq> []"
    and r: "reconcile_sequence_conflict p batch n g = (r, g')"
  shows "step_sound (child_records p i) (pg_state g) (records (pg_world g)) r (pg_state g') (records (pg_world g')) \<and>
    inv (pg_world g')"
proof (cases "conflict_cursor p i (se_sequence (hd batch))")
  case (Inl e)
  with r i ok w show ?thesis by (auto simp: reconcile_sequence_conflict_def Let_def intro: stay_sound)
next
  case (Inr cursor)
  let ?n = "pushed_count (pg_state g)"
  obtain got w' where pull: "sg_pull gates token i cursor (pg_world g) = (got, w')"
    by (cases "sg_pull gates token i cursor (pg_world g)")
  have doors: "lp_gates p = gates" "lp_bearer_token p = token" using p by (simp_all add: propagator_ok_def)
  from pull_law [OF w pull] have w': "inv w'" "records w' = records (pg_world g)" by simp_all
  show ?thesis
  proof (cases got)
    case (Inl e)
    with r i doors Inr pull w' ok show ?thesis
      by (auto simp: reconcile_sequence_conflict_def Let_def intro!: stay_sound split: verlet_error.splits)
  next
    case remote: (Inr remote)
    note pulled = conflict_cursor_pulls [OF p ok batch Inr w pull [unfolded remote]]
    have first: "1 \<le> sequence_get (se_sequence (hd batch))" using batch_bounds(1) [OF p batch] by simp
    show ?thesis
    proof (cases "pg_state g' = pg_state g \<and> pg_world g' = w' \<and> r = Inr (StreamDiverged n)")
      case True
      with ok w' show ?thesis by (auto intro: stay_sound)
    next
      case False
      then have "take (length batch) remote = batch" "advance p batch (g\<lparr>pg_world := w'\<rparr>) = (r, g')"
        using r i doors Inr pull remote read_local_from [OF p first]
        by (auto simp: reconcile_sequence_conflict_def Let_def split: if_splits)
      then have take: "take (?n + length batch) (records w') = take ?n (records w') @ batch"
        and adv: "advance p batch (g\<lparr>pg_world := w'\<rparr>) = (r, g')"
        using pulled w'(2) by (simp_all add: take_add)
      from advance_sound [OF p ok [folded w'(2)] batch take _ _ adv] w' show ?thesis by simp
    qed
  qed
qed

text \<open>Where a push leaves the parent, whatever the propagator hears of it\<close>

lemma push_leaves:
  assumes p: "propagator_ok gates token i readable p" and ok: "agrees (child_records p i) (records w) st" and w: "inv w"
    and batch: "pr_records req = take b (drop (pushed_count st) (child_records p i))" "pr_records req \<noteq> []"
    and req: "pr_stream_id req = i" "pr_expected_next_sequence req = se_sequence (hd (pr_records req))"
    and push: "sg_push gates token req w = (out, w')"
  shows "inv w'" "agrees (child_records p i) (records w') st" "prefix (records w) (records w')"
    "prefix (records w) (child_records p i) \<Longrightarrow> prefix (records w') (child_records p i)"
    "out = Inr (Accepted ack) \<Longrightarrow> take (pushed_count st + length (pr_records req)) (records w') =
       take (pushed_count st) (records w') @ pr_records req"
proof -
  let ?n = "pushed_count st"
  note bounds = batch_bounds [OF p batch]
  note law = push_law [OF w req(1) bounds(5) push]
  show "inv w'" using law by simp
  have cases: "records w' = records w \<or> records w' = records w @ pr_records req \<and> length (records w) = ?n"
    using law bounds(1) req(2) by auto
  then show pre: "prefix (records w) (records w')" by auto
  show "agrees (child_records p i) (records w') st" by (rule agrees_grow [OF ok _ pre]) simp
  show "prefix (records w') (child_records p i)" if "prefix (records w) (child_records p i)"
  proof (cases "records w' = records w")
    case False
    with cases have w': "records w' = records w @ pr_records req" "length (records w) = ?n" by simp_all
    with ok have "records w = take ?n (child_records p i)" by (simp add: agrees_def)
    then have "records w' = take (?n + length (pr_records req)) (child_records p i)" using w' bounds(4) by simp
    then show ?thesis by (simp add: take_is_prefix)
  qed (use that in simp)
  show "take (?n + length (pr_records req)) (records w') = take ?n (records w') @ pr_records req" if "out = Inr (Accepted ack)"
    using accept_law [OF w req(1) bounds(5)] push that bounds(1) req(2) by auto
qed

text \<open>One push, given that the push after a renewal is sound\<close>

lemma push_step_sound:
  assumes p: "propagator_ok gates token i readable p" and ok: "agrees (child_records p i) (records (pg_world g)) (pg_state g)"
    and i: "sp_stream_id (pg_state g) = i" and w: "inv (pg_world g)"
    and batch: "pr_records req = take b (drop (pushed_count (pg_state g)) (child_records p i))" "pr_records req \<noteq> []"
    and req: "pr_stream_id req = i" "pr_expected_next_sequence req = se_sequence (hd (pr_records req))"
    and r: "push_batch p req renewed g = (r, g')"
    and rec: "\<And>g2. \<not> renewed \<Longrightarrow> agrees (child_records p i) (records (pg_world g2)) (pg_state g2) \<Longrightarrow>
      sp_stream_id (pg_state g2) = i \<Longrightarrow> inv (pg_world g2) \<Longrightarrow> pushed_count (pg_state g2) = pushed_count (pg_state g) \<Longrightarrow>
      push_batch p req True g2 = (r, g') \<Longrightarrow>
      step_sound (child_records p i) (pg_state g2) (records (pg_world g2)) r (pg_state g') (records (pg_world g')) \<and>
      inv (pg_world g')"
  shows "step_sound (child_records p i) (pg_state g) (records (pg_world g)) r (pg_state g') (records (pg_world g')) \<and>
    inv (pg_world g')"
proof -
  let ?child = "child_records p i" and ?st = "pg_state g"
  have doors: "lp_gates p = gates" "lp_bearer_token p = token" using p by (simp_all add: propagator_ok_def)
  obtain out w' where push: "sg_push gates token req (pg_world g) = (out, w')"
    by (cases "sg_push gates token req (pg_world g)")
  note left = push_leaves [OF p ok w batch req push]
  define g1 where "g1 = g\<lparr>pg_world := w'\<rparr>"
  have g1: "pg_state g1 = ?st" "pg_world g1 = w'" by (simp_all add: g1_def)
  have on: "step_sound ?child ?st (records (pg_world g)) r (pg_state g') parent'"
    if "step_sound ?child st (records w') r (pg_state g') parent'" "sp_stream_id st = sp_stream_id ?st"
      "lg_lease_id (sp_lease st) = lg_lease_id (sp_lease ?st)" "lg_scope (sp_lease st) = lg_scope (sp_lease ?st)"
      "sp_pushed_through st = sp_pushed_through ?st" for parent' st
  proof -
    have "agrees ?child (records w') st" using left(2) that(5) by (simp add: agrees_def pushed_count_def)
    from step_sound_trans [OF this left(3,4) that(2-5,1)] show ?thesis .
  qed
  have renewed_state: "agrees ?child (records w') (pg_state g2) \<and> pushed_count (pg_state g2) = pushed_count ?st"
    if "sp_pushed_through (pg_state g2) = sp_pushed_through ?st" for g2
    using left(2) that by (simp add: agrees_def pushed_count_def)
  show ?thesis
    using r push [folded doors]
  proof (cases rule: push_batch_cases)
    case stopped
    then have "step_sound ?child ?st (records w') r ?st (records w')" by (intro stay_sound [OF left(2)]) auto
    with on [of ?st] left(1) stopped(2) show ?thesis by simp
  next
    case (accepted ack)
    from advance_sound [OF p left(2) batch left(5) g1 accepted(3) [folded g1_def]] accepted(1) on [of ?st] left(1)
    show ?thesis by simp
  next
    case (conflict n)
    from reconcile_sound [OF p _ _ _ _ batch(2) conflict [folded g1_def], of b] left(1,2) i batch(1) g1 on [of ?st]
    show ?thesis by simp
  next
    case (renewing s)
    note g' = renew_sound [OF doors _ renewing(1) [folded g1_def]]
    then have "s \<in> {EndpointUnavailable, LeaseFenced}" using left(1) g1 by simp
    then have "step_sound ?child (pg_state g') (records w') r (pg_state g') (records w')"
      using renewed_state [of g'] g' left(1) g1 renewing(2) by (intro stay_sound) auto
    with on [of "pg_state g'"] g' left(1) g1 show ?thesis by simp
  next
    case (again g2)
    note g2 = renew_sound [OF doors _ again(2) [folded g1_def]]
    with rec [OF again(1) _ _ _ _ again(3)] renewed_state [of g2] left(1) g1 i on [of "pg_state g2"] show ?thesis by simp
  qed
qed

lemma push_batch_sound:
  assumes p: "propagator_ok gates token i readable p" and ok: "agrees (child_records p i) (records (pg_world g)) (pg_state g)"
    and i: "sp_stream_id (pg_state g) = i" and w: "inv (pg_world g)"
    and batch: "pr_records req = take b (drop (pushed_count (pg_state g)) (child_records p i))" "pr_records req \<noteq> []"
    and req: "pr_stream_id req = i" "pr_expected_next_sequence req = se_sequence (hd (pr_records req))"
    and r: "push_batch p req renewed g = (r, g')"
  shows "step_sound (child_records p i) (pg_state g) (records (pg_world g)) r (pg_state g') (records (pg_world g')) \<and>
    inv (pg_world g')"
proof (rule push_step_sound [OF assms])
  fix g2 assume "agrees (child_records p i) (records (pg_world g2)) (pg_state g2)" "sp_stream_id (pg_state g2) = i"
    "inv (pg_world g2)" and count: "pushed_count (pg_state g2) = pushed_count (pg_state g)"
    and "push_batch p req True g2 = (r, g')"
  with push_step_sound [OF p, of g2 req b True r g'] batch req
  show "step_sound (child_records p i) (pg_state g2) (records (pg_world g2)) r (pg_state g') (records (pg_world g')) \<and>
    inv (pg_world g')" by simp
qed

text \<open>An attempt of the propagator\<close>

lemma propagate_sound:
  assumes p: "propagator_ok gates token i readable p" and ok: "agrees (child_records p i) (records (pg_world g)) (pg_state g)"
    and i: "sp_stream_id (pg_state g) = i" and w: "inv (pg_world g)" and r: "propagate_once p now g = (r, g')"
  shows "step_sound (child_records p i) (pg_state g) (records (pg_world g)) r (pg_state g') (records (pg_world g')) \<and>
    inv (pg_world g')"
proof -
  let ?child = "child_records p i"
  have doors: "lp_gates p = gates" "lp_bearer_token p = token" using p by (simp_all add: propagator_ok_def)
  obtain a g1 where a: "renew_if_due p now g = (a, g1)" by (cases "renew_if_due p now g")
  have g1: "inv (pg_world g1) \<and> records (pg_world g1) = records (pg_world g) \<and>
      sp_pushed_through (pg_state g1) = sp_pushed_through (pg_state g) \<and> sp_stream_id (pg_state g1) = sp_stream_id (pg_state g) \<and>
      lg_lease_id (sp_lease (pg_state g1)) = lg_lease_id (sp_lease (pg_state g)) \<and>
      lg_scope (sp_lease (pg_state g1)) = lg_scope (sp_lease (pg_state g)) \<and>
      (\<forall>s. a = Inr (Some s) \<longrightarrow> s \<in> {EndpointUnavailable, LeaseFenced}) \<and> (\<exists>o'. a = Inr o')"
  proof (cases "propagator_renew p g = (a, g1)")
    case True
    from renew_sound [OF doors w this] show ?thesis .
  next
    case False
    with a have "a = Inr None" "g1 = g" by (auto simp: renew_if_due_def Let_def split: if_splits)
    with w show ?thesis by simp
  qed
  then have ok1: "agrees ?child (records (pg_world g1)) (pg_state g1)"
    and count: "pushed_count (pg_state g1) = pushed_count (pg_state g)" using ok by (simp_all add: agrees_def pushed_count_def)
  have on: ?thesis if s: "step_sound ?child (pg_state g1) (records (pg_world g1)) r (pg_state g') (records (pg_world g'))"
    and v: "inv (pg_world g')"
    using step_sound_trans [OF ok1 _ _ _ _ _ _ s, of "records (pg_world g)" "pg_state g"] g1 v by simp
  consider (unauthorized) e where "r = Inl e" "g' = g" | (stopped) s where "a = Inr (Some s)" "r = Inr s" "g' = g1"
    | (run) "a = Inr None" "authorizes (lg_scope (sp_lease (pg_state g))) (sp_stream_id (pg_state g))"
    using r a g1 by (auto simp: propagate_once_def split: if_splits option.splits)
  then show ?thesis
  proof cases
    case unauthorized
    with ok w stay_sound [OF ok, of r] show ?thesis by auto
  next
    case (stopped s)
    with g1 have "step_sound ?child (pg_state g1) (records (pg_world g1)) r (pg_state g1) (records (pg_world g1))"
      by (intro stay_sound [OF ok1]) auto
    with stopped g1 show ?thesis by (intro on) simp_all
  next
    case run
    let ?batch = "next_batch p (pg_state g1)"
    have i1: "sp_stream_id (pg_state g1) = i" using g1 i by simp
    have once: "(r, g') = (if ?batch = [] then (Inr Converged, g1) else push_batch p (next_request p (pg_state g1)) False g1)"
      using propagate_pushes [OF p _ run(2) ok1 i1] a r run(1) by simp
    show ?thesis
    proof (cases "?batch = []")
      case True
      then have "pushed_count (pg_state g1) = length ?child"
        using p ok1 by (auto simp: propagator_ok_def agrees_def next_batch_def i1)
      with True once ok1 g1 show ?thesis by (intro on) (simp_all add: step_sound_def)
    next
      case False
      with once have "push_batch p (next_request p (pg_state g1)) False g1 = (r, g')" by simp
      moreover have "pr_records (next_request p (pg_state g1)) =
          take (lp_batch_size p) (drop (pushed_count (pg_state g1)) ?child)"
        "pr_records (next_request p (pg_state g1)) \<noteq> []" "pr_stream_id (next_request p (pg_state g1)) = i"
        "pr_expected_next_sequence (next_request p (pg_state g1)) = se_sequence (hd (pr_records (next_request p (pg_state g1))))"
        using False i1 by (simp_all add: next_request_def) (simp add: next_batch_def)
      moreover have "inv (pg_world g1)" using g1 by simp
      ultimately show ?thesis using push_batch_sound [OF p ok1 i1] by (intro on) blast+
    qed
  qed
qed

end

end
