(* ===== verification/Propagation_Link.thy ===== *)
theory Propagation_Link
  imports Propagation_Safety
begin

section \<open>Propagation over a link that loses messages\<close>

text \<open>
  The propagator's doors are the endpoint's methods behind a link.  Each call meets a fate: it is delivered,
  its request is lost, or its reply is lost after the endpoint has acted.  The epoch and the clock of the endpoint
  at each call are part of the circumstances.  When no circumstances are left the link is down.
\<close>

datatype link_fate = Delivered | RequestLost | ReplyLost

record link_call =
  lc_fate :: link_fate
  lc_lease_epoch :: u64
  lc_now_ms :: i64
  lc_reject_ms :: i64

record sync_link =
  ln_endpoint :: endpoint
  ln_calls :: "link_call list"

definition link_down :: verlet_error where
  "link_down = RuntimeExecution ''sync endpoint request failed''"

definition over_link ::
  "(link_call \<Rightarrow> endpoint \<Rightarrow> 'a verlet_result \<times> endpoint) \<Rightarrow> sync_link \<Rightarrow> 'a verlet_result \<times> sync_link" where
  "over_link f l =
     (case ln_calls l of
        [] \<Rightarrow> (Inl link_down, l)
      | c # cs \<Rightarrow>
          (case lc_fate c of
             RequestLost \<Rightarrow> (Inl link_down, l\<lparr>ln_calls := cs\<rparr>)
           | ReplyLost \<Rightarrow> (Inl link_down, \<lparr>ln_endpoint = snd (f c (ln_endpoint l)), ln_calls = cs\<rparr>)
           | Delivered \<Rightarrow> (fst (f c (ln_endpoint l)), \<lparr>ln_endpoint = snd (f c (ln_endpoint l)), ln_calls = cs\<rparr>)))"

definition link_gates :: "sqlite_codec \<Rightarrow> queue_codec \<Rightarrow> endpoint_lib \<Rightarrow> i64 \<Rightarrow> sync_link sync_gates" where
  "link_gates codec qcodec lib ttl =
     \<lparr>sg_push = (\<lambda>token request. over_link (\<lambda>c.
        sync_push codec lib (lc_lease_epoch c) (lc_now_ms c) (lc_reject_ms c) token request)),
      sg_pull = (\<lambda>token i cursor. over_link (\<lambda>c e. (sync_pull_after codec qcodec lib token i cursor e, e))),
      sg_renew = (\<lambda>token. over_link (\<lambda>c. sync_renew_lease lib ttl (lc_now_ms c) token))\<rparr>"

definition parent_records :: "sqlite_codec \<Rightarrow> event_stream_id \<Rightarrow> sync_link \<Rightarrow> stream_record_envelope list" where
  "parent_records codec i l = journal_records codec i (lt_journal (en_tables (ln_endpoint l)))"

definition link_ok :: "sqlite_codec \<Rightarrow> event_stream_id \<Rightarrow> sync_link \<Rightarrow> bool" where
  "link_ok codec i l \<longleftrightarrow> uuid_text_ok codec \<and> strip_prefix sync_ingress_queue_stream_prefix (stream_id_str i) = None \<and>
     leases_ok (en_tables (ln_endpoint l)) \<and> sqlite_reachable codec (lt_journal (en_tables (ln_endpoint l)))"

definition readable_record :: "sqlite_codec \<Rightarrow> stream_record_envelope \<Rightarrow> bool" where
  "readable_record codec env \<longleftrightarrow> records_text_ok codec [env]"

lemma readable_records: "(\<forall>env \<in> set envs. readable_record codec env) \<longleftrightarrow> records_text_ok codec envs"
  by (auto simp: readable_record_def records_text_ok_def)

text \<open>Whatever a call's fate, the endpoint it leaves is the one before the call or the one the method left.\<close>

lemma over_link_cases:
  assumes "over_link f l = (r, l')"
  obtains (untouched) "ln_endpoint l' = ln_endpoint l" "r = Inl link_down"
  | (acted) c r0 where "f c (ln_endpoint l) = (r0, ln_endpoint l')" "r = r0 \<or> r = Inl link_down"
proof (cases "ln_calls l")
  case Nil
  with assms show thesis by (intro untouched) (auto simp: over_link_def)
next
  case (Cons c cs)
  then show thesis
    using assms untouched acted [of c "fst (f c (ln_endpoint l))"]
    by (cases "lc_fate c") (auto simp: over_link_def)
qed

lemma journal_eventsI: "sqlite_read_events codec i None db = Inr es \<Longrightarrow> journal_events codec i db = es"
  by (simp add: journal_events_def)

text \<open>A pull reads the stream after its cursor.\<close>

lemma pull_reads:
  assumes "uuid_text_ok codec" "sqlite_reachable codec (lt_journal (en_tables e))"
    and "strip_prefix sync_ingress_queue_stream_prefix (stream_id_str i) = None"
    and "sync_pull_after codec qcodec lib token i cursor e = Inr rs"
  shows "case cursor of None \<Rightarrow> rs = journal_records codec i (lt_journal (en_tables e))
    | Some c \<Rightarrow> 1 \<le> sequence_get (cu_sequence c) \<and>
        sequence_get (cu_sequence c) \<le> int (length (journal_records codec i (lt_journal (en_tables e)))) \<and>
        rs = drop (nat (sequence_get (cu_sequence c))) (journal_records codec i (lt_journal (en_tables e)))"
proof -
  let ?db = "lt_journal (en_tables e)"
  from assms(4) have "and_then (read_journal codec i cursor ?db) (\<lambda>events. Inr (map to_stream_record_v1 events)) = Inr rs"
    by (auto simp: sync_pull_after_def verify_token_def remote_ingress_queue_target_def assms(3)
        split: option.splits if_splits)
  then obtain es where es: "read_journal codec i cursor ?db = Inr es" "rs = map to_stream_record_v1 es"
    by (auto simp: and_then_eq_Inr)
  show ?thesis
  proof (cases cursor)
    case None
    with es journal_read(1) [OF assms(1,2)] show ?thesis
      by (simp add: read_journal_def journal_records_def)
  next
    case (Some c)
    from reachable_represents [OF assms(1,2)] obtain s where
      s: "reachable (sq_show_uuid codec) s" "represents codec ?db s" by blast
    from reachable_ok [OF s(1)] have ok: "journal_ok s" by simp
    from es Some have "read_events_after_cursor (sq_show_uuid codec) (\<lambda>i q. read_events i q s) i c = Inr es"
      by (auto simp: read_journal_def history_err_def read_events_eq [OF s(2)] split: sum.splits)
    from memory_journal.replay_sound [OF ok this] obtain n where
      n: "n < length (stream_events s i)" "cu_sequence c = ev_sequence (stream_events s i ! n)"
        "es = drop (Suc n) (stream_events s i)" by blast
    moreover from this(1) have "ev_sequence (stream_events s i ! n) = EventSequence (1 + int n)"
      using memory_journal.sequence_of [OF ok] by blast
    ultimately show ?thesis
      using Some es(2) by (simp add: journal_records_def journal_events_eq [OF s(2)] drop_map nat_add_distrib)
  qed
qed

lemma push_outcome:
  assumes "uuid_text_ok codec" "leases_ok (en_tables e)" "sqlite_reachable codec (lt_journal (en_tables e))"
    and "records_text_ok codec (pr_records req)" "sync_push codec lib ep now rj token req e = (r, e')"
  shows "journal_records codec (pr_stream_id req) (lt_journal (en_tables e')) =
      journal_records codec (pr_stream_id req) (lt_journal (en_tables e)) \<and> (\<nexists>ack. r = Inr (Accepted ack)) \<or>
    journal_records codec (pr_stream_id req) (lt_journal (en_tables e')) =
      journal_records codec (pr_stream_id req) (lt_journal (en_tables e)) @ pr_records req \<and>
      sequence_get (pr_expected_next_sequence req) =
        int (length (journal_records codec (pr_stream_id req) (lt_journal (en_tables e)))) + 1"
proof (cases "\<exists>ack. r = Inr (Accepted ack)")
  case True
  with assms(5) obtain ack where "sync_push codec lib ep now rj token req e = (Inr (Accepted ack), e')" by blast
  from accepted_push [OF assms(1-4) this] show ?thesis by (metis (full_types))
next
  case False
  from assms(5) have "en_tables e' = en_tables e"
  proof (cases rule: push_cases)
    case (accepted v rs ack t')
    with False show ?thesis by blast
  qed (simp_all add: persist_keeps)
  with False show ?thesis by simp
qed

lemma renew_keeps_ok:
  assumes "leases_ok (en_tables e)" "sync_renew_lease lib ttl now token e = (r, e')"
  shows "leases_ok (en_tables e') \<and> lt_journal (en_tables e') = lt_journal (en_tables e)"
proof -
  obtain v where v: "verify_token (tk_digest (el_tokens lib)) token (en_tables e) = Inr v" by (simp add: verify_token_def)
  show ?thesis
  proof (cases v)
    case None
    with v assms show ?thesis by (auto simp: sync_renew_lease_def)
  next
    case (Some w)
    obtain a t where a: "renew_lease ttl now (vi_lease_id w) (en_tables e) = (a, t)"
      by (cases "renew_lease ttl now (vi_lease_id w) (en_tables e)")
    from renew_ok [OF assms(1) a] have "leases_ok t" .
    moreover have "lt_journal t = lt_journal (en_tables e)"
      using a by (auto simp: renew_lease_def or_return_def update_lease_def Let_def split: option.splits if_splits sum.splits)
    moreover have "en_tables e' = t" using assms(2) v Some a by (auto simp: sync_renew_lease_def split: sum.splits)
    ultimately show ?thesis by simp
  qed
qed

lemma link_push:
  assumes w: "link_ok codec i w" and req: "pr_stream_id req = i" "\<forall>env \<in> set (pr_records req). readable_record codec env"
    and "sg_push (link_gates codec qcodec lib ttl) token req w = (out, w')"
  shows "link_ok codec i w'"
    and "parent_records codec i w' = parent_records codec i w \<and> (\<nexists>ack. out = Inr (Accepted ack)) \<or>
      parent_records codec i w' = parent_records codec i w @ pr_records req \<and>
      sequence_get (pr_expected_next_sequence req) = int (length (parent_records codec i w)) + 1"
proof -
  from w req have ok: "uuid_text_ok codec" "leases_ok (en_tables (ln_endpoint w))"
      "sqlite_reachable codec (lt_journal (en_tables (ln_endpoint w)))" "records_text_ok codec (pr_records req)"
    by (simp_all add: link_ok_def readable_records)
  from assms(4) have "over_link (\<lambda>c. sync_push codec lib (lc_lease_epoch c) (lc_now_ms c) (lc_reject_ms c) token req) w = (out, w')"
    by (simp add: link_gates_def)
  then have "link_ok codec i w' \<and> (parent_records codec i w' = parent_records codec i w \<and> (\<nexists>ack. out = Inr (Accepted ack)) \<or>
      parent_records codec i w' = parent_records codec i w @ pr_records req \<and>
      sequence_get (pr_expected_next_sequence req) = int (length (parent_records codec i w)) + 1)"
  proof (cases rule: over_link_cases)
    case untouched
    with w show ?thesis by (simp add: link_ok_def parent_records_def)
  next
    case (acted c r0)
    from push_outcome [OF ok acted(1)] push_keeps_ok [OF ok acted(1)] acted(2) w req(1) show ?thesis
      by (auto simp: link_ok_def parent_records_def)
  qed
  then show "link_ok codec i w'" and "parent_records codec i w' = parent_records codec i w \<and> (\<nexists>ack. out = Inr (Accepted ack)) \<or>
      parent_records codec i w' = parent_records codec i w @ pr_records req \<and>
      sequence_get (pr_expected_next_sequence req) = int (length (parent_records codec i w)) + 1" by simp_all
qed

lemma link_pull:
  assumes w: "link_ok codec i w" and "sg_pull (link_gates codec qcodec lib ttl) token i cursor w = (got, w')"
  shows "link_ok codec i w' \<and> parent_records codec i w' = parent_records codec i w \<and>
    (\<forall>rs. got = Inr rs \<longrightarrow> (case cursor of None \<Rightarrow> rs = parent_records codec i w
       | Some c \<Rightarrow> 1 \<le> sequence_get (cu_sequence c) \<and> sequence_get (cu_sequence c) \<le> int (length (parent_records codec i w)) \<and>
           rs = drop (nat (sequence_get (cu_sequence c))) (parent_records codec i w)))"
proof -
  from assms(2) have "over_link (\<lambda>c e. (sync_pull_after codec qcodec lib token i cursor e, e)) w = (got, w')"
    by (simp add: link_gates_def)
  then show ?thesis
  proof (cases rule: over_link_cases)
    case untouched
    with w show ?thesis by (simp add: link_ok_def parent_records_def)
  next
    case (acted c r0)
    then have w': "ln_endpoint w' = ln_endpoint w" and got: "got = Inr rs \<Longrightarrow>
        sync_pull_after codec qcodec lib token i cursor (ln_endpoint w) = Inr rs" for rs by auto
    have "case cursor of None \<Rightarrow> rs = parent_records codec i w
       | Some c \<Rightarrow> 1 \<le> sequence_get (cu_sequence c) \<and> sequence_get (cu_sequence c) \<le> int (length (parent_records codec i w)) \<and>
           rs = drop (nat (sequence_get (cu_sequence c))) (parent_records codec i w)" if "got = Inr rs" for rs
      unfolding parent_records_def by (rule pull_reads [OF _ _ _ got [OF that]]) (use w in \<open>simp_all add: link_ok_def\<close>)
    with w w' show ?thesis by (simp add: link_ok_def parent_records_def)
  qed
qed

lemma link_renew:
  assumes w: "link_ok codec i w" and "sg_renew (link_gates codec qcodec lib ttl) token w = (got, w')"
  shows "link_ok codec i w' \<and> parent_records codec i w' = parent_records codec i w"
proof -
  from assms(2) have "over_link (\<lambda>c. sync_renew_lease lib ttl (lc_now_ms c) token) w = (got, w')"
    by (simp add: link_gates_def)
  then show ?thesis
  proof (cases rule: over_link_cases)
    case untouched
    with w show ?thesis by (simp add: link_ok_def parent_records_def)
  next
    case (acted c r0)
    with w renew_keeps_ok [OF _ acted(1)] show ?thesis by (simp add: link_ok_def parent_records_def)
  qed
qed

interpretation link: sync_parent "link_gates codec qcodec lib ttl" token i "parent_records codec i" "link_ok codec i"
    "readable_record codec" for codec qcodec lib ttl token i
proof unfold_locales
  show "link_ok codec i w' \<and> (parent_records codec i w' = parent_records codec i w \<or>
      parent_records codec i w' = parent_records codec i w @ pr_records req \<and>
      sequence_get (pr_expected_next_sequence req) = int (length (parent_records codec i w)) + 1)"
    if "link_ok codec i w" "pr_stream_id req = i" "\<forall>env \<in> set (pr_records req). readable_record codec env"
      "sg_push (link_gates codec qcodec lib ttl) token req w = (out, w')" for w req out w'
    using link_push [OF that] by blast
  show "parent_records codec i w' = parent_records codec i w @ pr_records req \<and>
      sequence_get (pr_expected_next_sequence req) = int (length (parent_records codec i w)) + 1"
    if "link_ok codec i w" "pr_stream_id req = i" "\<forall>env \<in> set (pr_records req). readable_record codec env"
      "sg_push (link_gates codec qcodec lib ttl) token req w = (Inr (Accepted ack), w')" for w req ack w'
    using link_push(2) [OF that] by blast
qed (use link_pull link_renew in blast)+

end
