(* ===== verification/Propagation_Properties.thy ===== *)
theory Propagation_Properties
  imports Propagation_Link "HOL-Library.Countable"
begin

section \<open>What propagation guarantees\<close>

text \<open>
  A run interleaves local appends of the child, calls at the parent's authority by others, attempts of the
  propagator and the fates of its calls.  Throughout, the parent's stream is a prefix of the child's and nothing
  is taken for confirmed that the parent does not hold.  Over a link that delivers, an attempt under
  the live lease advances by a batch.  The last property is where the reconciliation of a lost reply goes
  wrong.
\<close>

subsection \<open>Journals\<close>

lemma event_from_row_text:
  assumes "sqlite_event_from_row codec row = Inr e"
  shows "sq_parse_payload codec (er_payload_json row) = Inr (ev_payload e)"
    "sq_parse_provenance codec (er_provenance_json row) = Inr (ev_provenance e)"
proof -
  from assms show "sq_parse_payload codec (er_payload_json row) = Inr (ev_payload e)"
    "sq_parse_provenance codec (er_provenance_json row) = Inr (ev_provenance e)"
    unfolding sqlite_event_from_row_def Let_def
    by (auto simp: and_then_eq_Inr codec_error_def split: if_splits sum.splits)
qed

lemma reads_back_text:
  assumes "reads_back codec e"
  shows "sq_parse_payload codec (sq_payload_text codec (ev_payload e)) = Inr (ev_payload e)"
    "sq_parse_provenance codec (sq_provenance_text codec (ev_provenance e)) = Inr (ev_provenance e)"
  using event_from_row_text [OF assms [unfolded reads_back_def]] by (simp_all add: event_row_of_def)

lemma journal_facts:
  assumes "uuid_text_ok codec" "sqlite_reachable codec db"
  shows "distinct (map ev_id (journal_events codec i db))" "\<forall>e \<in> set (journal_events codec i db). event_ok e"
    "records_text_ok codec (journal_records codec i db)"
proof -
  from reachable_represents [OF assms] obtain s where s: "reachable (sq_show_uuid codec) s" "represents codec db s" by blast
  from reachable_ok [OF s(1)] have ok: "journal_ok s" by simp
  show "distinct (map ev_id (journal_events codec i db))" "\<forall>e \<in> set (journal_events codec i db). event_ok e"
    using ok by (simp_all add: journal_events_eq [OF s(2)] journal_ok_def)
  from s(2) obtain js where "rows_ok codec js db" "\<forall>i. stream_of i js = stream_events s i"
    by (auto simp: represents_def journal_matches_def)
  then have "reads_back codec e" if "e \<in> set (journal_events codec i db)" for e
    using that by (auto simp: journal_events_eq [OF s(2)] rows_ok_def stream_of_def simp flip: \<open>\<forall>i. stream_of i js = stream_events s i\<close> [rule_format])
  then show "records_text_ok codec (journal_records codec i db)"
    using reads_back_text by (auto simp: records_text_ok_def journal_records_def to_stream_record_v1_def)
qed

lemma served_grows:
  assumes "uuid_text_ok codec" "sqlite_reachable codec db" "request_text_ok codec req db"
    and "serve_sqlite codec req db = Some (a, db')"
  shows "prefix (journal_records codec i db) (journal_records codec i db')"
proof (cases a)
  case (Inl e)
  with assms(4) have "db' = db" using failed_request_changes_nothing by blast
  then show ?thesis by simp
next
  case (Inr b)
  from reachable_represents [OF assms(1,2)] obtain s where
    s: "reachable (sq_show_uuid codec) s" "represents codec db s" by blast
  from reachable_ok [OF s(1)] request_simulated [OF assms(1) s(2) _ _ assms(3), of b db'] assms(4) Inr obtain s' where
    s': "represents codec db' s'" "later (sq_show_uuid codec) s s'" by auto
  from reachable_later [OF s(1) s'(2)] have "prefix (stream_events s i) (stream_events s' i)"
    by (simp add: journal_grows_def)
  then show ?thesis
    by (simp add: journal_records_def journal_events_eq [OF s(2)] journal_events_eq [OF s'(1)] map_mono_prefix)
qed

subsection \<open>What is persisted\<close>

text \<open>An attempt leaves state and row alone, or leaves the row of the state it ends with.\<close>

definition settles :: "'w local_first_propagator \<Rightarrow> 'w propagation \<Rightarrow> 'w propagation \<Rightarrow> bool" where
  "settles p g g' \<longleftrightarrow> pg_state g' = pg_state g \<and> pg_rows g' = pg_rows g \<or>
     hm_get (pg_rows g') (stream_id_str (sp_stream_id (pg_state g'))) = Some (pc_state_text (lp_state_codec p) (pg_state g'))"

lemma settles_trans: "settles p g g1 \<Longrightarrow> settles p g1 g' \<Longrightarrow> settles p g g'"
  by (auto simp: settles_def)

lemma settles_world: "settles p (g\<lparr>pg_world := w\<rparr>) g' \<longleftrightarrow> settles p g g'" "settles p g (g\<lparr>pg_world := w\<rparr>)"
  by (simp_all add: settles_def)

lemma settles_persisted: "settles p g (persisted p st g1)"
  by (simp add: settles_def persisted_def persist_state_def)

lemma renew_settles: "propagator_renew p g = (r, g') \<Longrightarrow> settles p g g'"
  by (auto simp: propagator_renew_def Let_def settles_world settles_persisted split: prod.splits sum.splits option.splits if_splits)

lemma advance_settles: "advance p batch g = (r, g') \<Longrightarrow> settles p g0 g'"
  by (auto simp: advance_def Let_def settles_persisted)

lemma reconcile_settles:
  assumes "reconcile_sequence_conflict p batch n g = (r, g')"
  shows "settles p g g'"
proof -
  have "settles p g g" by (simp add: settles_def)
  with assms show ?thesis
    by (auto simp: reconcile_sequence_conflict_def Let_def or_return_def settles_world dest: advance_settles
        split: prod.splits sum.splits if_splits)
qed

lemma push_step_settles:
  assumes "push_batch p req renewed g = (r, g')" "\<And>g2. \<not> renewed \<Longrightarrow> push_batch p req True g2 = (r, g') \<Longrightarrow> settles p g2 g'"
  shows "settles p g g'"
proof -
  obtain out w where push: "sg_push (lp_gates p) (lp_bearer_token p) req (pg_world g) = (out, w)"
    by (cases "sg_push (lp_gates p) (lp_bearer_token p) req (pg_world g)")
  from assms(1) push show ?thesis
  proof (cases rule: push_batch_cases)
    case (again g2)
    from settles_trans [OF renew_settles [OF again(2)] assms(2) [OF again(1,3)]] show ?thesis by (simp add: settles_world)
  qed (auto simp: settles_world dest: advance_settles reconcile_settles renew_settles)
qed

lemma push_batch_settles: "push_batch p req renewed g = (r, g') \<Longrightarrow> settles p g g'"
  using push_step_settles [of p req renewed g r g'] push_step_settles [of p req True _ r g'] by blast

lemma propagate_settles:
  assumes "propagate_once p now g = (r, g')"
  shows "settles p g g'"
proof -
  obtain a g1 where a: "renew_if_due p now g = (a, g1)" by (cases "renew_if_due p now g")
  then have g1: "settles p g g1"
    using renew_settles [of p g] by (auto simp: renew_if_due_def Let_def settles_def split: if_splits)
  show ?thesis
  proof (cases "settles p g1 g'")
    case False
    then have "g' \<noteq> g1" by (auto simp: settles_def)
    with False assms a push_batch_settles [of p _ False g1 r g'] have "g' = g"
      by (auto simp: propagate_once_def Let_def or_return_def split: if_splits sum.splits option.splits list.splits)
    then show ?thesis by (simp add: settles_def)
  qed (rule settles_trans [OF g1])
qed

subsection \<open>Runs\<close>

definition propagator_on ::
  "sqlite_codec \<Rightarrow> queue_codec \<Rightarrow> endpoint_lib \<Rightarrow> i64 \<Rightarrow> propagation_codec \<Rightarrow> string \<Rightarrow> nat \<Rightarrow> database \<Rightarrow>
   sync_link local_first_propagator" where
  "propagator_on codec qcodec lib ttl scodec token batch_size db = with_batch_size batch_size
     \<lparr>lp_store_codec = codec, lp_local = db, lp_gates = link_gates codec qcodec lib ttl, lp_state_codec = scodec,
      lp_bearer_token = token, lp_batch_size = default_push_batch_size\<rparr>"

definition with_tables :: "lease_tables \<Rightarrow> sync_link propagation \<Rightarrow> sync_link propagation" where
  "with_tables t g = g\<lparr>pg_world := (pg_world g)\<lparr>ln_endpoint := (ln_endpoint (pg_world g))\<lparr>en_tables := t\<rparr>\<rparr>\<rparr>"

definition with_calls :: "link_call list \<Rightarrow> sync_link propagation \<Rightarrow> sync_link propagation" where
  "with_calls calls g = g\<lparr>pg_world := (pg_world g)\<lparr>ln_calls := calls\<rparr>\<rparr>"

text \<open>
  The child appends; the parent serves anyone else, but no one else writes the leased stream; the propagator
  attempts, with any fates of its calls; the child crashes and resumes from the persisted position.
\<close>

inductive system_step ::
  "sqlite_codec \<Rightarrow> queue_codec \<Rightarrow> endpoint_lib \<Rightarrow> i64 \<Rightarrow> propagation_codec \<Rightarrow> string \<Rightarrow> nat \<Rightarrow> event_stream_id \<Rightarrow>
   database \<times> sync_link propagation \<Rightarrow> database \<times> sync_link propagation \<Rightarrow> bool"
  for codec qcodec lib ttl scodec token b i where
  child_appends: "serve_sqlite codec req db = Some (a, db') \<Longrightarrow> request_text_ok codec req db \<Longrightarrow>
    system_step codec qcodec lib ttl scodec token b i (db, g) (db', g)"
| parent_serves: "authority_call codec (el_tokens lib) ttl (en_tables (ln_endpoint (pg_world g))) ok t \<Longrightarrow>
    journal_records codec i (lt_journal t) = parent_records codec i (pg_world g) \<Longrightarrow>
    system_step codec qcodec lib ttl scodec token b i (db, g) (db, with_tables t g)"
| attempts: "propagate_once (propagator_on codec qcodec lib ttl scodec token b db) now (with_calls calls g) = (r, g') \<Longrightarrow>
    int (length (journal_records codec i db)) < 2 ^ 63 - 1 \<Longrightarrow>
    system_step codec qcodec lib ttl scodec token b i (db, g) (db, g')"
| resumes: "load_state scodec i (pg_rows g) = Inr (Some st) \<Longrightarrow>
    system_step codec qcodec lib ttl scodec token b i (db, g) (db, g\<lparr>pg_state := st\<rparr>)"

definition system_ok ::
  "sqlite_codec \<Rightarrow> propagation_codec \<Rightarrow> event_stream_id \<Rightarrow> database \<times> sync_link propagation \<Rightarrow> bool" where
  "system_ok codec scodec i = (\<lambda>(db, g).
     sqlite_reachable codec db \<and> link_ok codec i (pg_world g) \<and> sp_stream_id (pg_state g) = i \<and>
     agrees (journal_records codec i db) (parent_records codec i (pg_world g)) (pg_state g) \<and>
     prefix (parent_records codec i (pg_world g)) (journal_records codec i db) \<and>
     (\<forall>text. hm_get (pg_rows g) (stream_id_str i) = Some text \<longrightarrow>
        (\<exists>st. text = pc_state_text scodec st \<and> sp_stream_id st = i \<and>
           agrees (journal_records codec i db) (parent_records codec i (pg_world g)) st)))"

lemma propagator_on_ok:
  assumes "uuid_text_ok codec" "sqlite_reachable codec db" "int (length (journal_records codec i db)) < 2 ^ 63 - 1"
  shows "propagator_ok (link_gates codec qcodec lib ttl) token i (readable_record codec)
      (propagator_on codec qcodec lib ttl scodec token b db)"
    and "child_records (propagator_on codec qcodec lib ttl scodec token b db) i = journal_records codec i db"
    and "lp_state_codec (propagator_on codec qcodec lib ttl scodec token b db) = scodec"
proof -
  have "int (length (journal_events codec i db)) < 2 ^ 63 - 1" using assms(3) by (simp add: journal_records_def)
  with assms(1,2) journal_facts(3) [OF assms(1,2), of i] show "propagator_ok (link_gates codec qcodec lib ttl) token i
      (readable_record codec) (propagator_on codec qcodec lib ttl scodec token b db)"
    by (simp add: propagator_ok_def propagator_on_def with_batch_size_def readable_records)
qed (simp_all add: propagator_on_def with_batch_size_def)

lemma attempt_sound:
  assumes "sqlite_reachable codec db" "link_ok codec i (pg_world g)" "sp_stream_id (pg_state g) = i"
    and "agrees (journal_records codec i db) (parent_records codec i (pg_world g)) (pg_state g)"
    and "int (length (journal_records codec i db)) < 2 ^ 63 - 1"
    and "propagate_once (propagator_on codec qcodec lib ttl scodec token b db) now g = (r, g')"
  shows "step_sound (journal_records codec i db) (pg_state g) (parent_records codec i (pg_world g)) r
      (pg_state g') (parent_records codec i (pg_world g')) \<and> link_ok codec i (pg_world g')"
proof -
  let ?p = "propagator_on codec qcodec lib ttl scodec token b db"
  have u: "uuid_text_ok codec" using assms(2) by (simp add: link_ok_def)
  note p = propagator_on_ok [OF u assms(1,5)]
  from link.propagate_sound [OF p(1) _ assms(3,2,6)] assms(4) show ?thesis by (simp add: p(2))
qed

lemma attempt_ok:
  assumes "system_ok codec scodec i (db, g)" "int (length (journal_records codec i db)) < 2 ^ 63 - 1"
    and "propagate_once (propagator_on codec qcodec lib ttl scodec token b db) now g = (r, g')"
  shows "system_ok codec scodec i (db, g')"
proof -
  let ?child = "journal_records codec i db" and ?p = "propagator_on codec qcodec lib ttl scodec token b db"
  from assms(1) have ok: "sqlite_reachable codec db" "link_ok codec i (pg_world g)" "sp_stream_id (pg_state g) = i"
    "agrees ?child (parent_records codec i (pg_world g)) (pg_state g)"
    "prefix (parent_records codec i (pg_world g)) ?child"
    and rows: "hm_get (pg_rows g) (stream_id_str i) = Some t \<Longrightarrow> \<exists>st. t = pc_state_text scodec st \<and> sp_stream_id st = i \<and>
      agrees ?child (parent_records codec i (pg_world g)) st" for t
    by (auto simp: system_ok_def)
  note sound = attempt_sound [OF ok(1-4) assms(2,3)]
  then have st: "agrees ?child (parent_records codec i (pg_world g')) (pg_state g')" "sp_stream_id (pg_state g') = i"
    "prefix (parent_records codec i (pg_world g)) (parent_records codec i (pg_world g'))"
    "prefix (parent_records codec i (pg_world g')) ?child" "link_ok codec i (pg_world g')"
    using ok(3,5) by (simp_all add: step_sound_def)
  have "lp_state_codec ?p = scodec" by (simp add: propagator_on_def with_batch_size_def)
  with propagate_settles [OF assms(3)] st(2) have
    "pg_rows g' = pg_rows g \<or> hm_get (pg_rows g') (stream_id_str i) = Some (pc_state_text scodec (pg_state g'))"
    by (auto simp: settles_def)
  then have "\<exists>st. t = pc_state_text scodec st \<and> sp_stream_id st = i \<and> agrees ?child (parent_records codec i (pg_world g')) st"
    if "hm_get (pg_rows g') (stream_id_str i) = Some t" for t
    using that st(1,2) rows [of t] agrees_grow [OF _ prefix_order.refl st(3)] by fastforce
  with st ok(1) show ?thesis by (simp add: system_ok_def)
qed

lemma system_step_ok:
  assumes "system_step codec qcodec lib ttl scodec token b i x y" "system_ok codec scodec i x"
    and "\<And>st. pc_parse_state scodec (pc_state_text scodec st) = Inr st"
  shows "system_ok codec scodec i y"
  using assms(1,2)
proof (induction rule: system_step.induct)
  case (child_appends req db a db' g)
  then have "uuid_text_ok codec" "sqlite_reachable codec db" by (simp_all add: system_ok_def link_ok_def)
  from served_grows [OF this child_appends(2,1)] have grows: "prefix (journal_records codec i db) (journal_records codec i db')" .
  have "sqlite_reachable codec db'" using child_appends by (auto simp: system_ok_def intro: sqlite_reachable.served)
  with grows child_appends(3) agrees_grow [OF _ grows] show ?case
    unfolding system_ok_def by (auto intro: prefix_order.trans) blast
next
  case (parent_serves g ok t db)
  then have "leases_ok t \<and> sqlite_reachable codec (lt_journal t)"
    using authority_call_ok by (auto simp: system_ok_def link_ok_def)
  with parent_serves(2,3) show ?case by (simp add: system_ok_def with_tables_def link_ok_def parent_records_def)
next
  case (attempts db now calls g r g')
  have "system_ok codec scodec i (db, with_calls calls g)"
    using attempts(3) by (simp add: system_ok_def with_calls_def link_ok_def parent_records_def)
  from attempt_ok [OF this attempts(2,1)] show ?case .
next
  case (resumes g st db)
  then obtain st' where "hm_get (pg_rows g) (stream_id_str i) = Some (pc_state_text scodec st')" "sp_stream_id st' = i"
    "agrees (journal_records codec i db) (parent_records codec i (pg_world g)) st'" "st' = st"
    using assms(3) by (fastforce simp: system_ok_def load_state_def split: option.splits sum.splits)
  with resumes(2) show ?case by (simp add: system_ok_def)
qed

subsection \<open>A delivered push at the tail\<close>

definition can_push ::
  "sqlite_codec \<Rightarrow> endpoint_lib \<Rightarrow> string \<Rightarrow> event_stream_id \<Rightarrow> stream_lease_id \<Rightarrow> link_call \<Rightarrow> endpoint \<Rightarrow> bool" where
  "can_push codec lib token i x c e \<longleftrightarrow>
     (\<exists>v. verify_token (tk_digest (el_tokens lib)) token (en_tables e) = Inr (Some v) \<and> vi_lease_id v = x \<and>
        authorizes (vi_scope v) i) \<and>
     fence_decision i x (lc_now_ms c) (en_tables e) = Current \<and>
     fst (sqlite_enforce_lease_epoch i (lc_lease_epoch c) (lt_journal (en_tables e))) = Inr ()"

lemma same_records:
  assumes "journal_records codec i db = take n (journal_records codec i db')"
  shows "journal_events codec i db = take n (journal_events codec i db')"
proof -
  have "inj to_stream_record_v1" by (rule injI) (rule to_stream_record_inj)
  from inj_map_eq_map [OF this] assms show ?thesis by (simp add: journal_records_def take_map)
qed

lemma event_to_new_facts:
  "ne_id (event_to_new e) = ev_id e" "event_ok e \<Longrightarrow> validate_new_event (event_to_new e) = Inr () \<and> storable (event_to_new e)"
  "reads_back codec e \<Longrightarrow> event_text_ok codec (event_to_new e)"
  by (auto simp: event_to_new_def event_ok_def validate_new_event_def storable_def event_text_ok_def dest: reads_back_text)

lemma tail_request_valid:
  assumes u: "uuid_text_ok codec" "sqlite_reachable codec db" and es: "es = take b (drop n (journal_events codec i db))" "es \<noteq> []"
    and len: "int (length (journal_records codec i db)) < 2 ^ 63 - 1"
    and req: "pr_schema req = sync_push_schema" "pr_stream_id req = i" "pr_expected_next_sequence req = EventSequence (int n + 1)"
      "pr_records req = map to_stream_record_v1 es"
  shows "validate_push_request (sq_show_uuid codec) req = Inr (map event_to_new es)"
    and "\<forall>e \<in> set es. event_ok e" "records_text_ok codec (pr_records req)"
proof -
  let ?all = "journal_events codec i db"
  have sub: "set es \<subseteq> set ?all" using es(1) by (auto dest!: in_set_takeD in_set_dropD)
  then show ok: "\<forall>e \<in> set es. event_ok e" using journal_facts(2) [OF u] by blast
  have contiguous: "contiguous_from i (int n + 1) es"
    using journal_read(2) [OF u, of i] es(1) by (auto simp: contiguous_from_def)
  show "validate_push_request (sq_show_uuid codec) req = Inr (map event_to_new es)"
  proof (rule validate_own_records)
    have "n < length ?all" using es by auto
    then have "n + length es \<le> length ?all" using es(1) by simp
    then show "sequence_get (pr_expected_next_sequence req) + int (length es) \<le> 2 ^ 63"
      using len by (simp add: req(3) journal_records_def)
  qed (use contiguous ok es(2) in \<open>simp_all add: req\<close>)
  show "records_text_ok codec (pr_records req)"
    using journal_facts(3) [OF u, of i] sub by (auto simp: records_text_ok_def req(4) journal_records_def)
qed

lemma push_at_tail:
  assumes u: "uuid_text_ok codec" "sqlite_reachable codec db" and parent: "sqlite_reachable codec (lt_journal (en_tables e))"
    and can: "can_push codec lib token i x c e"
    and es: "es = take b (drop n (journal_events codec i db))" "es \<noteq> []"
    and len: "int (length (journal_records codec i db)) < 2 ^ 63 - 1"
    and tail: "journal_records codec i (lt_journal (en_tables e)) = take n (journal_records codec i db)"
    and fresh: "\<forall>j. j \<noteq> i \<longrightarrow> ev_id ` set (journal_events codec i db) \<inter>
      ev_id ` set (journal_events codec j (lt_journal (en_tables e))) = {}"
    and req: "pr_schema req = sync_push_schema" "pr_stream_id req = i" "pr_expected_next_sequence req = EventSequence (int n + 1)"
      "pr_records req = map to_stream_record_v1 es" "pr_lease_id req = x"
  shows "\<exists>ack e'. sync_push codec lib (lc_lease_epoch c) (lc_now_ms c) rj token req e = (Inr (Accepted ack), e')"
proof -
  let ?all = "journal_events codec i db"
  have n: "n < length ?all" using es by auto
  have sub: "set es \<subseteq> set (drop n ?all)" using es(1) set_take_subset by fast
  note valid = tail_request_valid [OF u es len req(1-4)]
  have events: "journal_events codec i (lt_journal (en_tables e)) = take n ?all" by (rule same_records [OF tail])
  have disj: "ev_id ` set es \<inter> ev_id ` set (journal_events codec j (lt_journal (en_tables e))) = {}" for j
  proof (cases "j = i")
    case True
    have "distinct (map ev_id (take n ?all @ drop n ?all))" using journal_facts(1) [OF u] by simp
    then have "ev_id ` set (drop n ?all) \<inter> ev_id ` set (take n ?all) = {}"
      unfolding map_append distinct_append by (simp add: Int_commute)
    moreover have "ev_id ` set es \<subseteq> ev_id ` set (drop n ?all)" using sub by (rule image_mono)
    ultimately show ?thesis unfolding True events by blast
  next
    case False
    have "set es \<subseteq> set ?all" using sub set_drop_subset [of n ?all] by (rule subset_trans)
    then have "ev_id ` set es \<subseteq> ev_id ` set ?all" by (rule image_mono)
    with fresh [rule_format, OF False] show ?thesis by blast
  qed
  have "map ev_id es = take b (drop n (map ev_id ?all))" by (simp add: es(1) take_map drop_map)
  then have "distinct (map ev_id es)" using journal_facts(1) [OF u, of i] by simp
  then have ids: "distinct (map ne_id (map event_to_new es))" by (simp add: comp_def event_to_new_facts(1))
  note texts = validated_text_ok [OF valid(1,3)]
  have accept: "\<exists>ack t. append_if_current codec (lc_lease_epoch c) (lc_now_ms c) i x (EventSequence (int n + 1)) (map event_to_new es)
      (en_tables e) = (Inr (Appended ack), t)"
  proof (rule append_if_current_accepts [OF u(1) parent texts _ _ _ ids])
    show "\<forall>j. ne_id ` set (map event_to_new es) \<inter> ev_id ` set (journal_events codec j (lt_journal (en_tables e))) = {}"
      using disj by (simp add: image_image event_to_new_facts(1))
    show "sequence_get (EventSequence (int n + 1)) = int (length (journal_events codec i (lt_journal (en_tables e)))) + 1"
      using n by (simp add: events)
  qed (use can es(2) valid(2) event_to_new_facts(2) in \<open>auto simp: can_push_def\<close>)
  from can obtain v where "verify_token (tk_digest (el_tokens lib)) token (en_tables e) = Inr (Some v)" "vi_lease_id v = x"
    "authorizes (vi_scope v) i" by (auto simp: can_push_def)
  then show ?thesis using accept valid(1) req by (auto simp: sync_push_def)
qed



subsection \<open>One attempt\<close>

definition renewal_due :: "i64 \<Rightarrow> stream_lease_grant \<Rightarrow> bool" where
  "renewal_due now_ms lease \<longleftrightarrow> saturate_i64 (lg_expires_at_ms lease -
     max (saturate_i64 (lg_expires_at_ms lease - lg_granted_at_ms lease) sdiv 3) min_renewal_margin_ms) \<le> now_ms"

lemma renewal_not_due: "\<not> renewal_due now (sp_lease (pg_state g)) \<Longrightarrow> renew_if_due p now g = (Inr None, g)"
  by (simp add: renew_if_due_def renewal_due_def Let_def)

text \<open>
  The circumstances of an attempt that needs no renewal: a child with records past the confirmed position, a
  parent whose other streams hold none of them, and a lease that lets the call \<open>c\<close> through.
\<close>

definition ready ::
  "sqlite_codec \<Rightarrow> endpoint_lib \<Rightarrow> string \<Rightarrow> event_stream_id \<Rightarrow> i64 \<Rightarrow> link_call \<Rightarrow> database \<Rightarrow> sync_link propagation \<Rightarrow> bool" where
  "ready codec lib token i now c db g \<longleftrightarrow>
     sqlite_reachable codec db \<and> link_ok codec i (pg_world g) \<and> sp_stream_id (pg_state g) = i \<and>
     agrees (journal_records codec i db) (parent_records codec i (pg_world g)) (pg_state g) \<and>
     pushed_count (pg_state g) < length (journal_records codec i db) \<and>
     int (length (journal_records codec i db)) < 2 ^ 63 - 1 \<and>
     authorizes (lg_scope (sp_lease (pg_state g))) i \<and> \<not> renewal_due now (sp_lease (pg_state g)) \<and>
     can_push codec lib token i (lg_lease_id (sp_lease (pg_state g))) c (ln_endpoint (pg_world g)) \<and>
     (\<forall>j. j \<noteq> i \<longrightarrow> ev_id ` set (journal_events codec i db) \<inter>
        ev_id ` set (journal_events codec j (lt_journal (en_tables (ln_endpoint (pg_world g))))) = {})"

lemma ready_request:
  assumes "ready codec lib token i now c db g" "p = propagator_on codec qcodec lib ttl scodec token b db"
    and "es = take (max b 1) (drop (pushed_count (pg_state g)) (journal_events codec i db))"
  shows "propagate_once p now g = push_batch p (next_request p (pg_state g)) False g"
    and "pr_schema (next_request p (pg_state g)) = sync_push_schema" "pr_stream_id (next_request p (pg_state g)) = i"
      "pr_expected_next_sequence (next_request p (pg_state g)) = EventSequence (int (pushed_count (pg_state g)) + 1)"
      "pr_records (next_request p (pg_state g)) = map to_stream_record_v1 es"
      "pr_lease_id (next_request p (pg_state g)) = lg_lease_id (sp_lease (pg_state g))"
    and "es \<noteq> []"
proof -
  let ?n = "pushed_count (pg_state g)"
  have u: "uuid_text_ok codec" using assms(1) by (simp add: ready_def link_ok_def)
  have i: "sp_stream_id (pg_state g) = i" using assms(1) by (simp add: ready_def)
  have p: "propagator_ok (link_gates codec qcodec lib ttl) token i (readable_record codec) p"
    unfolding assms(2) by (rule propagator_on_ok(1) [OF u]) (use assms(1) in \<open>simp_all add: ready_def\<close>)
  have child: "child_records p i = journal_records codec i db" "lp_batch_size p = max b 1"
    by (simp_all add: assms(2) propagator_on_def with_batch_size_def)
  have batch: "next_batch p (pg_state g) = map to_stream_record_v1 es"
    unfolding next_batch_def i child assms(3) by (simp add: journal_records_def take_map drop_map)
  have n: "?n < length (journal_events codec i db)" using assms(1) by (simp add: ready_def journal_records_def)
  then show es: "es \<noteq> []" by (simp add: assms(3))
  have "propagate_once p now g = (if next_batch p (pg_state g) = [] then (Inr Converged, g)
      else push_batch p (next_request p (pg_state g)) False g)"
    by (rule propagate_pushes [OF p renewal_not_due _ _ i, of now "parent_records codec i (pg_world g)"])
      (use assms(1) i child in \<open>simp_all add: ready_def\<close>)
  then show "propagate_once p now g = push_batch p (next_request p (pg_state g)) False g" using es by (simp add: batch)
  have "hd es = journal_events codec i db ! ?n" using n by (simp add: assms(3) hd_drop_conv_nth)
  moreover have "sequence_get (ev_sequence (journal_events codec i db ! ?n)) = int ?n + 1"
    using child_record_at [OF p, of ?n] n unfolding child(1) by (simp add: journal_records_def to_stream_record_v1_def)
  ultimately have "ev_sequence (hd es) = EventSequence (int ?n + 1)" by (cases "ev_sequence (hd es)") simp
  with es show "pr_expected_next_sequence (next_request p (pg_state g)) = EventSequence (int ?n + 1)"
    by (simp add: next_request_def batch hd_map to_stream_record_v1_def)
  show "pr_schema (next_request p (pg_state g)) = sync_push_schema" "pr_stream_id (next_request p (pg_state g)) = i"
    "pr_records (next_request p (pg_state g)) = map to_stream_record_v1 es"
    "pr_lease_id (next_request p (pg_state g)) = lg_lease_id (sp_lease (pg_state g))"
    by (simp_all add: next_request_def batch i)
qed

text \<open>At the tail, the endpoint takes the batch.\<close>

lemma ready_accepted:
  assumes ready: "ready codec lib token i now c db g" and p: "p = propagator_on codec qcodec lib ttl scodec token b db"
    and tail: "parent_records codec i (pg_world g) = take (pushed_count (pg_state g)) (journal_records codec i db)"
  obtains ack e' where
    "sync_push codec lib (lc_lease_epoch c) (lc_now_ms c) rj token (next_request p (pg_state g)) (ln_endpoint (pg_world g)) =
      (Inr (Accepted ack), e')" "matches_request (Accepted ack) (next_request p (pg_state g))"
    "journal_records codec i (lt_journal (en_tables e')) = take (pushed_count (pg_state g) + max b 1) (journal_records codec i db)"
    "records_text_ok codec (pr_records (next_request p (pg_state g)))"
proof -
  let ?n = "pushed_count (pg_state g)" and ?e = "ln_endpoint (pg_world g)"
  define es where "es = take (max b 1) (drop ?n (journal_events codec i db))"
  note req = ready_request [OF ready p es_def]
  from ready have u: "uuid_text_ok codec" "sqlite_reachable codec db" "leases_ok (en_tables ?e)"
      "sqlite_reachable codec (lt_journal (en_tables ?e))" "int (length (journal_records codec i db)) < 2 ^ 63 - 1"
      "can_push codec lib token i (lg_lease_id (sp_lease (pg_state g))) c ?e"
    and fresh: "\<forall>j. j \<noteq> i \<longrightarrow> ev_id ` set (journal_events codec i db) \<inter>
      ev_id ` set (journal_events codec j (lt_journal (en_tables ?e))) = {}"
    by (simp_all add: ready_def link_ok_def)
  note valid = tail_request_valid [OF u(1,2) es_def req(7) u(5) req(2-5)]
  from tail have "journal_records codec i (lt_journal (en_tables ?e)) = take ?n (journal_records codec i db)"
    by (simp add: parent_records_def)
  from push_at_tail [OF u(1,2,4,6) es_def req(7) u(5) this fresh req(2-6)] obtain ack e' where
    push: "sync_push codec lib (lc_lease_epoch c) (lc_now_ms c) rj token (next_request p (pg_state g)) ?e = (Inr (Accepted ack), e')"
    by blast
  have "matches_request (Accepted ack) (next_request p (pg_state g)) \<and> (\<forall>j. journal_records codec j (lt_journal (en_tables e')) =
      journal_records codec j (lt_journal (en_tables ?e)) @
        (if j = pr_stream_id (next_request p (pg_state g)) then pr_records (next_request p (pg_state g)) else []))"
    by (rule accepted_push [OF u(1,3,4) valid(3) push]) blast
  then have "matches_request (Accepted ack) (next_request p (pg_state g))"
    and "journal_records codec i (lt_journal (en_tables e')) =
      journal_records codec i (lt_journal (en_tables ?e)) @ pr_records (next_request p (pg_state g))"
    by (simp_all add: req(3))
  moreover have "take ?n (journal_records codec i db) @ pr_records (next_request p (pg_state g)) =
      take (?n + max b 1) (journal_records codec i db)"
    by (simp add: req(5) es_def journal_records_def take_add take_map drop_map)
  ultimately show thesis using that push valid(3) tail by (simp add: parent_records_def)
qed

lemma advance_result:
  "advance p batch g = (Inr (Advanced (se_sequence (last batch))),
     persisted p ((pg_state g)\<lparr>sp_pushed_through := Some (se_sequence (last batch))\<rparr>) g)"
  by (simp add: advance_def Let_def)

lemma last_of_request:
  assumes "ready codec lib token i now c db g" "p = propagator_on codec qcodec lib ttl scodec token b db"
  shows "se_sequence (last (pr_records (next_request p (pg_state g)))) =
    EventSequence (int (min (pushed_count (pg_state g) + max b 1) (length (journal_records codec i db))))"
proof -
  let ?n = "pushed_count (pg_state g)" and ?child = "journal_records codec i db"
  define batch where "batch = take (max b 1) (drop ?n ?child)"
  have p: "propagator_ok (link_gates codec qcodec lib ttl) token i (readable_record codec) p"
    unfolding assms(2) by (rule propagator_on_ok(1)) (use assms(1) in \<open>simp_all add: ready_def link_ok_def\<close>)
  have child: "child_records p i = ?child" by (simp add: assms(2) propagator_on_def with_batch_size_def)
  have "pr_records (next_request p (pg_state g)) = batch"
    unfolding batch_def ready_request(5) [OF assms refl] by (simp add: journal_records_def take_map drop_map)
  moreover have "?n < length ?child" using assms(1) by (simp add: ready_def)
  then have "batch \<noteq> []" "?n + length batch = min (?n + max b 1) (length ?child)" by (simp_all add: batch_def)
  moreover from batch_bounds(2) [OF p _ this(1)] batch_def child
  have "sequence_get (se_sequence (last batch)) = int ?n + int (length batch)" by simp
  ultimately show ?thesis by (cases "se_sequence (last batch)") (simp flip: of_nat_add)
qed

subsection \<open>A push that is late\<close>



subsection \<open>Attempts over the link\<close>

lemma delivered_advances:
  assumes ready: "ready codec lib token i now c db g"
    and tail: "parent_records codec i (pg_world g) = take (pushed_count (pg_state g)) (journal_records codec i db)"
    and calls: "ln_calls (pg_world g) = c # cs" "lc_fate c = Delivered"
    and q: "q = min (pushed_count (pg_state g) + max b 1) (length (journal_records codec i db))"
  shows "\<exists>g'. propagate_once (propagator_on codec qcodec lib ttl scodec token b db) now g = (Inr (Advanced (EventSequence (int q))), g') \<and>
    parent_records codec i (pg_world g') = take q (journal_records codec i db) \<and> pushed_count (pg_state g') = q \<and>
    hm_get (pg_rows g') (stream_id_str i) = Some (pc_state_text scodec (pg_state g'))"
proof -
  define p where "p = propagator_on codec qcodec lib ttl scodec token b db"
  let ?req = "next_request p (pg_state g)"
  obtain ack e' where push: "sync_push codec lib (lc_lease_epoch c) (lc_now_ms c) (lc_reject_ms c) token ?req (ln_endpoint (pg_world g)) =
      (Inr (Accepted ack), e')" and m: "matches_request (Accepted ack) ?req"
    and e': "journal_records codec i (lt_journal (en_tables e')) = take (pushed_count (pg_state g) + max b 1) (journal_records codec i db)"
    by (rule ready_accepted [OF ready p_def tail])
  define g1 where "g1 = g\<lparr>pg_world := \<lparr>ln_endpoint = e', ln_calls = cs\<rparr>\<rparr>"
  have "sg_push (lp_gates p) (lp_bearer_token p) ?req (pg_world g) = (Inr (Accepted ack), \<lparr>ln_endpoint = e', ln_calls = cs\<rparr>)"
    using push calls by (simp add: p_def propagator_on_def with_batch_size_def link_gates_def over_link_def)
  then have run: "propagate_once p now g = advance p (pr_records ?req) g1"
    using m by (simp add: ready_request(1) [OF ready p_def refl] push_batch.simps [of p ?req] g1_def Let_def)
  have "sp_stream_id (pg_state g) = i" using ready by (simp add: ready_def)
  with run last_of_request [OF ready p_def] e' show ?thesis
    by (simp add: advance_result persisted_def persist_state_def g1_def pushed_count_def parent_records_def q
        propagator_on_def with_batch_size_def flip: p_def) (simp add: p_def propagator_on_def with_batch_size_def min_def)
qed




subsection \<open>Properties\<close>

text \<open>A child with one record and the same child with two, against the endpoint of one lease\<close>

lemma sample_child:
  assumes "rs \<in> {[sample_record 1], [sample_record 1, sample_record 2]}"
  shows "\<exists>db. sqlite_reachable sample_columns db \<and>
    journal_events sample_columns sample_stream db = numbered sample_stream 0 rs"
proof -
  let ?req = "AppendEvents 3 sample_stream rs"
  have adm: "admissible_batch store_new rs" using sample_admissible assms by (auto simp: admissible_batch_def)
  have texts: "\<forall>r \<in> set rs. event_text_ok sample_columns r" using assms by (auto simp: sample_columns_ok)
  have mem: "append_events (sq_show_uuid sample_columns) 3 sample_stream rs store_new =
      (Inr (numbered sample_stream 0 rs), with_events sample_stream 3 rs store_new)"
    using adm by (simp add: append_events_ok check_in_memory_lease_epoch_def store_new_def)
  from append_accepts [OF sample_columns_ok(1) represents_new journal_ok_new texts _ mem] obtain fs db where
    db: "sqlite_append_events sample_columns 3 sample_stream rs sqlite_new = (Inr fs, db)" by auto
  from append_events_simulated [OF sample_columns_ok(1) represents_new journal_ok_new texts db] mem
  have "represents sample_columns db (with_events sample_stream 3 rs store_new)" by auto
  moreover have "sqlite_reachable sample_columns db"
    using sqlite_reachable.served [OF sqlite_reachable.opened, of sample_columns ?req] db texts by (simp add: answer_def)
  ultimately show ?thesis
    by (intro exI [of _ db]) (simp add: journal_events_eq with_events_stream, simp add: store_new_def)
qed

definition sample_call :: "link_fate \<Rightarrow> link_call" where
  "sample_call fate = \<lparr>lc_fate = fate, lc_lease_epoch = 0, lc_now_ms = 5, lc_reject_ms = 5\<rparr>"

definition sample_propagation :: "link_call list \<Rightarrow> sync_link propagation" where
  "sample_propagation calls =
     \<lparr>pg_state = \<lparr>sp_stream_id = sample_stream, sp_lease = lease_grant sample_lease, sp_pushed_through = None\<rparr>,
      pg_rows = [], pg_world = \<lparr>ln_endpoint = sample_endpoint, ln_calls = calls\<rparr>\<rparr>"

lemma sample_parent_empty: "journal_events sample_columns j (lt_journal (en_tables sample_endpoint)) = []"
  using journal_events_eq [OF represents_new, of sample_columns j]
  by (simp add: sample_endpoint_def sample_tables_def store_new_def)

lemma sample_not_queue: "strip_prefix sync_ingress_queue_stream_prefix (stream_id_str sample_stream) = None"
  by (simp add: strip_prefix_def sample_stream_def sync_ingress_queue_stream_prefix_def)

lemma sample_ready:
  assumes "sqlite_reachable sample_columns db" "rs \<in> {[sample_record 1], [sample_record 1, sample_record 2]}"
    and "journal_events sample_columns sample_stream db = numbered sample_stream 0 rs"
  shows "ready sample_columns sample_endpoint_lib sample_token sample_stream 5 (sample_call fate) db (sample_propagation calls)"
proof -
  from authority_ok [OF sample_endpoint_reachable] have ok: "leases_ok (en_tables sample_endpoint)"
    "sqlite_reachable sample_columns (lt_journal (en_tables sample_endpoint))" by simp_all
  have len: "0 < length (journal_records sample_columns sample_stream db)" "length (journal_records sample_columns sample_stream db) \<le> 2"
    using assms(2,3) by (auto simp: journal_records_def numbered_def)
  have auth: "authorizes (dl_scope sample_lease) sample_stream"
    using sample_tables_simps(3) by (simp add: sample_lease_def sample_stream_def)
  have grant: "lg_scope (lease_grant sample_lease) = dl_scope sample_lease" "lg_lease_id (lease_grant sample_lease) = dl_lease_id sample_lease"
    "lg_expires_at_ms (lease_grant sample_lease) = 60000" "lg_granted_at_ms (lease_grant sample_lease) = 0"
    by (simp_all add: lease_grant_def) (simp_all add: sample_lease_def)
  have "\<not> renewal_due 5 (lease_grant sample_lease)"
    unfolding renewal_due_def grant by (simp add: saturate_i64_def min_renewal_margin_ms_def signed_divide_int_def)
  moreover have "fst (sqlite_enforce_lease_epoch sample_stream 0 (lt_journal (en_tables sample_endpoint))) = Inr ()"
    by (simp add: sample_endpoint_def sample_tables_def sqlite_enforce_lease_epoch_def sqlite_new_def)
  then have "can_push sample_columns sample_endpoint_lib sample_token sample_stream (dl_lease_id sample_lease) (sample_call fate) sample_endpoint"
    using sample_verified sample_fence auth by (simp add: can_push_def sample_call_def)
  ultimately show ?thesis
    using assms(1) ok sample_not_queue auth len
    by (simp add: ready_def sample_propagation_def grant link_ok_def sample_columns_ok(1) agrees_def pushed_count_def
        sample_parent_empty parent_records_def journal_records_def)
qed

text \<open>A text for the states of a propagator, from a numbering of their fields\<close>

definition state_fields :: "stream_propagation_state \<Rightarrow>
    string \<times> (string \<times> string \<times> string \<times> string) \<times> string option \<times> int \<times> int \<times> int option" where
  "state_fields st = (stream_id_str (sp_stream_id st),
     (lg_schema (sp_lease st), lease_id_str (lg_lease_id (sp_lease st)), scope_str (lg_scope (sp_lease st)),
       (case lg_holder_dispatch_id (sp_lease st) of DispatchId d \<Rightarrow> d)),
     map_option lease_id_str (sl_superseded_lease_id (lg_lineage (sp_lease st))),
     lg_granted_at_ms (sp_lease st), lg_expires_at_ms (sp_lease st), map_option sequence_get (sp_pushed_through st))"

definition state_of_fields ::
  "string \<times> (string \<times> string \<times> string \<times> string) \<times> string option \<times> int \<times> int \<times> int option \<Rightarrow> stream_propagation_state" where
  "state_of_fields = (\<lambda>(i, (schema, x, sc, d), sup, granted, expires, pushed).
     \<lparr>sp_stream_id = EventStreamId i,
      sp_lease = \<lparr>lg_schema = schema, lg_lease_id = StreamLeaseId x, lg_scope = StreamPrefixScope sc,
        lg_holder_dispatch_id = DispatchId d, lg_lineage = \<lparr>sl_superseded_lease_id = map_option StreamLeaseId sup\<rparr>,
        lg_granted_at_ms = granted, lg_expires_at_ms = expires\<rparr>,
      sp_pushed_through = map_option EventSequence pushed\<rparr>)"

definition sample_state_codec :: propagation_codec where
  "sample_state_codec = \<lparr>pc_state_text = (\<lambda>st. replicate (to_nat (state_fields st)) CHR ''x''),
     pc_parse_state = (\<lambda>s. Inr (state_of_fields (from_nat (length s))))\<rparr>"

lemma state_of_fields: "state_of_fields (state_fields st) = st"
proof -
  have "EventStreamId (stream_id_str i) = i" "EventSequence (sequence_get q) = q"
    "DispatchId (case d of DispatchId s \<Rightarrow> s) = d" for i q d
    by (cases i; cases q; cases d; simp)+
  then show ?thesis by (simp add: state_of_fields_def state_fields_def option.map_comp comp_def option.map_ident)
qed

lemma sample_state_codec: "pc_parse_state sample_state_codec (pc_state_text sample_state_codec st) = Inr st"
  by (simp add: sample_state_codec_def state_of_fields)

text \<open>
  C13. The parent follows the child.  Whatever is lost on the link, however attempts, crashes, local appends and
  other traffic at the parent are interleaved, as long as that traffic does not write the leased stream (which
  is the propagator's alone while it holds the lease), the parent's stream is a prefix of the child's, and the confirmed
  position never runs ahead of the parent.  An attempt that reports convergence has found both
  streams equal, and one that reports an advance has raised a position up to which they are equal.
\<close>

theorem parent_follows_child:
  assumes "uuid_text_ok codec" "strip_prefix sync_ingress_queue_stream_prefix (stream_id_str i) = None"
    and "\<And>st. pc_parse_state scodec (pc_state_text scodec st) = Inr st"
    and "sqlite_reachable codec db0" "authority_reachable codec (el_tokens lib) ttl (en_tables (ln_endpoint (pg_world g0)))"
    and "parent_records codec i (pg_world g0) = []" "sp_stream_id (pg_state g0) = i"
    and "sp_pushed_through (pg_state g0) = None" "pg_rows g0 = []"
    and "(system_step codec qcodec lib ttl scodec token b i)\<^sup>*\<^sup>* (db0, g0) (db, g)"
  shows "prefix (parent_records codec i (pg_world g)) (journal_records codec i db) \<and>
    pushed_count (pg_state g) \<le> length (parent_records codec i (pg_world g)) \<and>
    (\<forall>now calls r g'. int (length (journal_records codec i db)) < 2 ^ 63 - 1 \<longrightarrow>
       propagate_once (propagator_on codec qcodec lib ttl scodec token b db) now (with_calls calls g) = (r, g') \<longrightarrow>
       (r = Inr Converged \<longrightarrow> parent_records codec i (pg_world g') = journal_records codec i db) \<and>
       (\<forall>q. r = Inr (Advanced q) \<longrightarrow> int (pushed_count (pg_state g)) < sequence_get q \<and>
          sequence_get q \<le> int (length (parent_records codec i (pg_world g')))))"
proof -
  have "system_ok codec scodec i (db0, g0)"
    using assms(1,2,4-9) authority_ok [OF assms(5)]
    by (simp add: system_ok_def link_ok_def agrees_def pushed_count_def)
  have ok: "system_ok codec scodec i (db, g)"
    using assms(10) \<open>system_ok codec scodec i (db0, g0)\<close>
  proof (induction rule: rtranclp_induct)
    case (step y z)
    then show ?case using system_step_ok [OF _ _ assms(3)] by blast
  qed
  have "(r = Inr Converged \<longrightarrow> parent_records codec i (pg_world g') = journal_records codec i db) \<and>
      (\<forall>q. r = Inr (Advanced q) \<longrightarrow> int (pushed_count (pg_state g)) < sequence_get q \<and>
        sequence_get q \<le> int (length (parent_records codec i (pg_world g'))))"
    if len: "int (length (journal_records codec i db)) < 2 ^ 63 - 1"
      and run: "propagate_once (propagator_on codec qcodec lib ttl scodec token b db) now (with_calls calls g) = (r, g')"
    for now calls r g'
  proof -
    have ok': "system_ok codec scodec i (db, with_calls calls g)"
      using ok by (simp add: system_ok_def with_calls_def link_ok_def parent_records_def)
    then have "step_sound (journal_records codec i db) (pg_state g) (parent_records codec i (pg_world g)) r
        (pg_state g') (parent_records codec i (pg_world g'))"
      using attempt_sound [OF _ _ _ _ len run] by (simp add: system_ok_def with_calls_def parent_records_def)
    moreover have "prefix (parent_records codec i (pg_world g')) (journal_records codec i db)"
      using attempt_ok [OF ok' len run] by (simp add: system_ok_def)
    ultimately show ?thesis
      by (auto simp: step_sound_def agrees_def pushed_count_def prefix_def nat_le_iff)
  qed
  with ok show ?thesis by (auto simp: system_ok_def agrees_def)
qed

theorem parent_follows_child_witness:
  "\<exists>db g. sqlite_reachable sample_columns db \<and>
     propagate_once (propagator_on sample_columns sample_queue_codec sample_endpoint_lib 60000 sample_state_codec sample_token 8 db) 5
       (sample_propagation [sample_call Delivered]) = (Inr (Advanced (EventSequence 2)), g) \<and>
     int (pushed_count (pg_state (sample_propagation [sample_call Delivered]))) < 2 \<and>
     2 \<le> int (length (parent_records sample_columns sample_stream (pg_world g)))"
proof -
  let ?g = "sample_propagation [sample_call Delivered]"
  from sample_child [of "[sample_record 1, sample_record 2]"] obtain db where db: "sqlite_reachable sample_columns db"
    "journal_events sample_columns sample_stream db = numbered sample_stream 0 [sample_record 1, sample_record 2]" by auto
  have len: "length (journal_records sample_columns sample_stream db) = 2" using db(2) by (simp add: journal_records_def numbered_def)
  have g: "ln_calls (pg_world ?g) = [sample_call Delivered]" "lc_fate (sample_call Delivered) = Delivered"
    "parent_records sample_columns sample_stream (pg_world ?g) = []" "pushed_count (pg_state ?g) = 0"
    "sp_stream_id (pg_state ?g) = sample_stream" "sp_pushed_through (pg_state ?g) = None" "pg_rows ?g = []"
    "ln_endpoint (pg_world ?g) = sample_endpoint" "with_calls [sample_call Delivered] ?g = ?g"
    by (simp_all add: sample_propagation_def sample_call_def parent_records_def journal_records_def sample_parent_empty pushed_count_def
        with_calls_def)
  have ready: "ready sample_columns sample_endpoint_lib sample_token sample_stream 5 (sample_call Delivered) db ?g"
    by (rule sample_ready [OF db(1) _ db(2)]) simp
  have "\<exists>g'. propagate_once (propagator_on sample_columns sample_queue_codec sample_endpoint_lib 60000 sample_state_codec
      sample_token 8 db) 5 ?g = (Inr (Advanced (EventSequence (int 2))), g') \<and>
    parent_records sample_columns sample_stream (pg_world g') = take 2 (journal_records sample_columns sample_stream db) \<and>
    pushed_count (pg_state g') = 2 \<and>
    hm_get (pg_rows g') (stream_id_str sample_stream) = Some (pc_state_text sample_state_codec (pg_state g'))"
    by (rule delivered_advances [OF ready _ g(1,2)]) (simp_all add: g(3,4) len)
  then obtain g' where g': "propagate_once (propagator_on sample_columns sample_queue_codec sample_endpoint_lib 60000 sample_state_codec
      sample_token 8 db) 5 ?g = (Inr (Advanced (EventSequence 2)), g')" by auto
  have "(system_step sample_columns sample_queue_codec sample_endpoint_lib 60000 sample_state_codec sample_token 8 sample_stream)\<^sup>*\<^sup>*
      (db, ?g) (db, ?g)" by blast
  from parent_follows_child [OF sample_columns_ok(1) sample_not_queue sample_state_codec db(1) _ g(3,5-7) this, THEN conjunct2,
      THEN conjunct2, rule_format, of 5 "[sample_call Delivered]" "Inr (Advanced (EventSequence 2))" g', THEN conjunct2, rule_format,
      of "EventSequence 2"] sample_endpoint_reachable g' g(4,8,9) len
  have "int (pushed_count (pg_state ?g)) < 2 \<and> 2 \<le> int (length (parent_records sample_columns sample_stream (pg_world g')))"
    by simp
  with db(1) g' show ?thesis by blast
qed

text \<open>
  C17. Propagation makes progress.  When the parent holds exactly what was confirmed, the lease is current and not due
  for renewal, and the push and its reply are delivered, an attempt confirms the next batch: the parent then
  holds the child's stream up to the new position, and that position is persisted.
\<close>

theorem delivered_attempt_advances:
  assumes "ready codec lib token i now c db g"
    and "parent_records codec i (pg_world g) = take (pushed_count (pg_state g)) (journal_records codec i db)"
    and "ln_calls (pg_world g) = c # cs" "lc_fate c = Delivered"
    and "q = min (pushed_count (pg_state g) + max b 1) (length (journal_records codec i db))"
  shows "\<exists>g'. propagate_once (propagator_on codec qcodec lib ttl scodec token b db) now g = (Inr (Advanced (EventSequence (int q))), g') \<and>
    parent_records codec i (pg_world g') = take q (journal_records codec i db) \<and> pushed_count (pg_state g') = q \<and>
    hm_get (pg_rows g') (stream_id_str i) = Some (pc_state_text scodec (pg_state g'))"
  by (rule delivered_advances [OF assms])

theorem delivered_attempt_advances_witness:
  "\<exists>db g. sqlite_reachable sample_columns db \<and>
     propagate_once (propagator_on sample_columns sample_queue_codec sample_endpoint_lib 60000 sample_state_codec sample_token 1 db) 5
       (sample_propagation [sample_call Delivered]) = (Inr (Advanced (EventSequence 1)), g) \<and>
     parent_records sample_columns sample_stream (pg_world g) = take 1 (journal_records sample_columns sample_stream db) \<and>
     length (journal_records sample_columns sample_stream db) = 2"
proof -
  let ?g = "sample_propagation [sample_call Delivered]"
  from sample_child [of "[sample_record 1, sample_record 2]"] obtain db where db: "sqlite_reachable sample_columns db"
    "journal_events sample_columns sample_stream db = numbered sample_stream 0 [sample_record 1, sample_record 2]" by auto
  have len: "length (journal_records sample_columns sample_stream db) = 2" using db(2) by (simp add: journal_records_def numbered_def)
  have g: "ln_calls (pg_world ?g) = [sample_call Delivered]" "lc_fate (sample_call Delivered) = Delivered"
    "parent_records sample_columns sample_stream (pg_world ?g) = []" "pushed_count (pg_state ?g) = 0"
    by (simp_all add: sample_propagation_def sample_call_def parent_records_def journal_records_def sample_parent_empty pushed_count_def)
  have ready: "ready sample_columns sample_endpoint_lib sample_token sample_stream 5 (sample_call Delivered) db ?g"
    by (rule sample_ready [OF db(1) _ db(2)]) simp
  have "\<exists>g'. propagate_once (propagator_on sample_columns sample_queue_codec sample_endpoint_lib 60000 sample_state_codec
      sample_token 1 db) 5 ?g = (Inr (Advanced (EventSequence (int 1))), g') \<and>
    parent_records sample_columns sample_stream (pg_world g') = take 1 (journal_records sample_columns sample_stream db) \<and>
    pushed_count (pg_state g') = 1 \<and>
    hm_get (pg_rows g') (stream_id_str sample_stream) = Some (pc_state_text sample_state_codec (pg_state g'))"
    by (rule delivered_attempt_advances [OF ready _ g(1,2)]) (simp_all add: g(3,4) len)
  with db(1) len show ?thesis by auto
qed



end
