(* ===== verification/Utf8_Text.thy ===== *)
theory Utf8_Text
  imports Event_Payloads
begin

section \<open>Bytes as text\<close>

text \<open>
  The part of Rust's \<open>core::str\<close> that turns bytes into text: the validator behind
  \<open>std::str::from_utf8\<close>, with the two coordinates of its error (\<open>valid_up_to\<close>, \<open>error_len\<close>), and
  \<open>String::from_utf8_lossy\<close>, which writes U+FFFD for every maximal ill-formed sequence.
\<close>

subsection \<open>One character\<close>

datatype utf8_head = Utf8Char nat | Utf8Invalid nat | Utf8Incomplete

definition utf8_width :: "char \<Rightarrow> nat" where
  "utf8_width c =
     (let b = (of_char c :: nat) in
      if b < 0x80 then 1 else if 0xC2 \<le> b \<and> b \<le> 0xDF then 2
      else if 0xE0 \<le> b \<and> b \<le> 0xEF then 3 else if 0xF0 \<le> b \<and> b \<le> 0xF4 then 4 else 0)"

text \<open>The second byte is restricted further after \<open>E0\<close>, \<open>ED\<close>, \<open>F0\<close> and \<open>F4\<close>.\<close>

definition second_byte_ok :: "char \<Rightarrow> char \<Rightarrow> bool" where
  "second_byte_ok c d \<longleftrightarrow>
     (let b = (of_char c :: nat); n = (of_char d :: nat) in
      if b = 0xE0 then 0xA0 \<le> n \<and> n \<le> 0xBF
      else if b = 0xED then 0x80 \<le> n \<and> n \<le> 0x9F
      else if b = 0xF0 then 0x90 \<le> n \<and> n \<le> 0xBF
      else if b = 0xF4 then 0x80 \<le> n \<and> n \<le> 0x8F
      else 0x80 \<le> n \<and> n \<le> 0xBF)"

text \<open>
  What the validator finds at the head of a non-empty rest: a character of \<open>n\<close> bytes, an ill-formed
  sequence of \<open>n\<close> bytes, or a character cut off by the end of the input.
\<close>

fun utf8_step :: "string \<Rightarrow> utf8_head" where
  "utf8_step [] = Utf8Incomplete"
| "utf8_step (c # cs) =
     (let w = utf8_width c in
      if w = 0 then Utf8Invalid 1
      else if w = 1 then Utf8Char 1
      else (case cs of
          [] \<Rightarrow> Utf8Incomplete
        | c1 # cs1 \<Rightarrow>
            if \<not> second_byte_ok c c1 then Utf8Invalid 1
            else if w = 2 then Utf8Char 2
            else (case cs1 of
                [] \<Rightarrow> Utf8Incomplete
              | c2 # cs2 \<Rightarrow>
                  if \<not> is_continuation_byte c2 then Utf8Invalid 2
                  else if w = 3 then Utf8Char 3
                  else (case cs2 of
                      [] \<Rightarrow> Utf8Incomplete
                    | c3 # cs3 \<Rightarrow>
                        if \<not> is_continuation_byte c3 then Utf8Invalid 3 else Utf8Char 4))))"

lemma utf8_step_bounds:
  "utf8_step s = Utf8Char n \<Longrightarrow> 0 < n \<and> n \<le> length s"
  "utf8_step s = Utf8Invalid n \<Longrightarrow> 0 < n \<and> n \<le> length s"
  by (cases s; auto simp: Let_def split: if_splits list.splits)+

subsection \<open>Whole inputs\<close>

record utf8_error =
  valid_up_to :: nat
  error_len :: "nat option"

function valid_length :: "string \<Rightarrow> nat" where
  "valid_length s =
     (case utf8_step s of
        Utf8Char n \<Rightarrow> n + valid_length (drop n s)
      | _ \<Rightarrow> 0)"
  by pat_completeness auto
termination
  by (relation "measure length") (auto dest: utf8_step_bounds)

definition from_utf8 :: "string \<Rightarrow> utf8_error + string" where
  "from_utf8 s =
     (let v = valid_length s in
      if v = length s then Inr s
      else Inl \<lparr>valid_up_to = v,
                error_len = (case utf8_step (drop v s) of Utf8Invalid n \<Rightarrow> Some n | _ \<Rightarrow> None)\<rparr>)"

definition replacement_character :: string where
  "replacement_character = [CHR 0xEF, CHR 0xBF, CHR 0xBD]"

function from_utf8_lossy :: "string \<Rightarrow> string" where
  "from_utf8_lossy s =
     (if s = [] then []
      else (case utf8_step s of
          Utf8Char n \<Rightarrow> take n s @ from_utf8_lossy (drop n s)
        | Utf8Invalid n \<Rightarrow> replacement_character @ from_utf8_lossy (drop n s)
        | Utf8Incomplete \<Rightarrow> replacement_character))"
  by pat_completeness auto
termination
  by (relation "measure length") (auto dest: utf8_step_bounds)

declare valid_length.simps [simp del] from_utf8_lossy.simps [simp del]

lemma valid_length_Nil [simp]: "valid_length [] = 0"
  by (simp add: valid_length.simps)

lemma from_utf8_lossy_Nil [simp]: "from_utf8_lossy [] = []"
  by (simp add: from_utf8_lossy.simps)

lemma valid_length_le: "valid_length s \<le> length s"
proof (induction s rule: valid_length.induct)
  case (1 s)
  show ?case
  proof (cases "utf8_step s")
    case (Utf8Char n)
    then have "valid_length (drop n s) \<le> length (drop n s)" by (rule "1.IH")
    then show ?thesis
      using Utf8Char utf8_step_bounds(1) [OF Utf8Char] by (subst valid_length.simps) auto
  qed (simp_all add: valid_length.simps)
qed

text \<open>After the valid prefix there is nothing, or no character.\<close>

lemma valid_length_stuck:
  "valid_length s = length s \<or> (\<nexists>n. utf8_step (drop (valid_length s) s) = Utf8Char n)"
proof (induction s rule: valid_length.induct)
  case (1 s)
  show ?case
  proof (cases "utf8_step s")
    case (Utf8Char n)
    then have "valid_length (drop n s) = length (drop n s) \<or>
        (\<nexists>k. utf8_step (drop (valid_length (drop n s)) (drop n s)) = Utf8Char k)"
      by (rule "1.IH")
    moreover have "valid_length s = n + valid_length (drop n s)"
      using Utf8Char by (subst valid_length.simps) simp
    ultimately show ?thesis
      using utf8_step_bounds(1) [OF Utf8Char] by (auto simp: add.commute)
  qed (simp_all add: valid_length.simps)
qed

text \<open>The lossy text: the valid prefix, then U+FFFD and the text of what follows the ill-formed bytes.\<close>

lemma from_utf8_lossy_unfold:
  "from_utf8_lossy s =
     take (valid_length s) s @ from_utf8_lossy (drop (valid_length s) s)"
proof (induction s rule: valid_length.induct)
  case (1 s)
  show ?case
  proof (cases "utf8_step s")
    case (Utf8Char n)
    then have ih: "from_utf8_lossy (drop n s) = take (valid_length (drop n s)) (drop n s) @
        from_utf8_lossy (drop (valid_length (drop n s)) (drop n s))"
      by (rule "1.IH")
    have "s \<noteq> []" using Utf8Char by auto
    then have "from_utf8_lossy s = take n s @ from_utf8_lossy (drop n s)"
      using Utf8Char by (subst from_utf8_lossy.simps) simp
    moreover have "valid_length s = n + valid_length (drop n s)"
      using Utf8Char by (subst valid_length.simps) simp
    ultimately show ?thesis using ih by (simp add: take_add add.commute)
  qed (simp_all add: valid_length.simps)
qed

subsection \<open>Character boundaries of decoded text\<close>

definition starts_char :: "string \<Rightarrow> bool" where
  "starts_char s \<longleftrightarrow> (case s of [] \<Rightarrow> True | c # _ \<Rightarrow> \<not> is_continuation_byte c)"

lemma utf8_width_lead: "utf8_width c \<noteq> 0 \<Longrightarrow> \<not> is_continuation_byte c"
  by (auto simp: utf8_width_def is_continuation_byte_def Let_def split: if_splits)

lemma utf8_step_starts:
  assumes "utf8_step s = Utf8Char n"
  shows "starts_char s"
proof (cases s)
  case (Cons c cs)
  with assms have "utf8_width c \<noteq> 0" by (auto simp: Let_def split: if_splits)
  then show ?thesis using Cons utf8_width_lead by (simp add: starts_char_def)
qed (simp add: starts_char_def)

lemma starts_char_append: "s \<noteq> [] \<Longrightarrow> starts_char (s @ t) = starts_char s"
  by (cases s) (simp_all add: starts_char_def)

lemma replacement_starts [simp]: "starts_char (replacement_character @ t)"
  "starts_char replacement_character"
  by (simp_all add: starts_char_def replacement_character_def is_continuation_byte_def)

lemma from_utf8_lossy_starts: "starts_char (from_utf8_lossy s)"
proof (cases "s = []")
  case True
  then show ?thesis by (simp add: starts_char_def)
next
  case False
  show ?thesis
  proof (cases "utf8_step s")
    case (Utf8Char n)
    have "starts_char (take n s)"
      using utf8_step_starts [OF Utf8Char] utf8_step_bounds(1) [OF Utf8Char] False
      by (cases s) (auto simp: starts_char_def take_Cons')
    moreover have "take n s \<noteq> []" using utf8_step_bounds(1) [OF Utf8Char] False by auto
    ultimately show ?thesis
      using False Utf8Char by (subst from_utf8_lossy.simps) (simp add: starts_char_append)
  qed (use False in \<open>subst from_utf8_lossy.simps, simp\<close>)+
qed

text \<open>A boundary search past a complete prefix searches the rest.\<close>

lemma is_char_boundary_shift:
  assumes "starts_char y"
  shows "is_char_boundary (x @ y) (length x + i) \<longleftrightarrow> is_char_boundary y i"
  using assms by (cases y) (auto simp: is_char_boundary_def starts_char_def nth_append)

lemma boundary_at_or_below_shift:
  assumes "starts_char y"
  shows "boundary_at_or_below (x @ y) (length x + i) = length x + boundary_at_or_below y i"
proof (induction i)
  case 0
  have "is_char_boundary (x @ y) (length x)"
    using is_char_boundary_shift [OF assms, of x 0] by (simp add: is_char_boundary_def)
  then show ?case by (cases "length x") simp_all
next
  case (Suc i)
  have "is_char_boundary (x @ y) (length x + Suc i) = is_char_boundary y (Suc i)"
    by (rule is_char_boundary_shift [OF assms])
  then show ?case using Suc.IH by simp
qed

lemma boundary_at_or_below_local:
  "i < length x \<Longrightarrow> boundary_at_or_below (x @ y) i = boundary_at_or_below x i"
proof (induction i)
  case (Suc i)
  then have "is_char_boundary (x @ y) (Suc i) = is_char_boundary x (Suc i)"
    by (auto simp: is_char_boundary_def nth_append)
  with Suc show ?case by simp
qed simp

lemma boundary_at_length: "boundary_at_or_below s (length s) = length s"
  by (cases "length s") (simp_all add: is_char_boundary_def)

text \<open>Text is valid when the validator accepts all of it.\<close>

definition utf8_valid :: "string \<Rightarrow> bool" where
  "utf8_valid s \<longleftrightarrow> valid_length s = length s"

lemma from_utf8_ok_iff: "from_utf8 s = Inr t \<longleftrightarrow> utf8_valid s \<and> t = s"
  by (auto simp: from_utf8_def utf8_valid_def Let_def)

lemma from_utf8_lossy_valid: "utf8_valid s \<Longrightarrow> from_utf8_lossy s = s"
  using from_utf8_lossy_unfold [of s] by (simp add: utf8_valid_def)

subsection \<open>Cutting valid text at a boundary\<close>

lemma utf8_step_CharE:
  assumes "utf8_step s = Utf8Char n"
  obtains c cs where "s = c # cs" "utf8_width c = 1" "n = 1"
  | c c1 cs where "s = c # c1 # cs" "utf8_width c = 2" "second_byte_ok c c1" "n = 2"
  | c c1 c2 cs where "s = c # c1 # c2 # cs" "utf8_width c = 3" "second_byte_ok c c1"
      "is_continuation_byte c2" "n = 3"
  | c c1 c2 c3 cs where "s = c # c1 # c2 # c3 # cs" "utf8_width c = 4" "second_byte_ok c c1"
      "is_continuation_byte c2" "is_continuation_byte c3" "n = 4"
proof -
  obtain c cs where s: "s = c # cs" using assms by (cases s) simp_all
  have w: "utf8_width c \<in> {0, 1, 2, 3, 4}" by (simp add: utf8_width_def Let_def)
  show thesis
    using assms that w unfolding s by (auto simp: Let_def split: if_splits list.splits)
qed

lemma utf8_step_local: "utf8_step s = Utf8Char n \<Longrightarrow> utf8_step (take n s @ t) = Utf8Char n"
  by (erule utf8_step_CharE) (simp_all add: Let_def)

lemma second_byte_continuation: "second_byte_ok c d \<Longrightarrow> is_continuation_byte d"
  by (auto simp: second_byte_ok_def is_continuation_byte_def Let_def split: if_splits)

lemma utf8_step_continuation:
  "utf8_step s = Utf8Char n \<Longrightarrow> 0 < j \<Longrightarrow> j < n \<Longrightarrow> is_continuation_byte (s ! j)"
  by (erule utf8_step_CharE) (auto simp: numeral_eq_Suc less_Suc_eq dest: second_byte_continuation)

lemma utf8_valid_step:
  "utf8_step s = Utf8Char n \<Longrightarrow> utf8_valid s \<longleftrightarrow> utf8_valid (drop n s)"
  using utf8_step_bounds(1) [of s n] valid_length_le [of "drop n s"]
  by (subst (1) utf8_valid_def, subst valid_length.simps) (auto simp: utf8_valid_def)

lemma utf8_valid_Cons:
  assumes "utf8_valid s" and "s \<noteq> []"
  obtains n where "utf8_step s = Utf8Char n" "utf8_valid (drop n s)"
proof (cases "utf8_step s")
  case (Utf8Char n)
  then show ?thesis using assms(1) utf8_valid_step that by blast
qed (use assms in \<open>simp_all add: utf8_valid_def valid_length.simps\<close>)

lemma utf8_valid_take:
  "utf8_valid s \<Longrightarrow> is_char_boundary s i \<Longrightarrow> utf8_valid (take i s)"
proof (induction "length s" arbitrary: s i rule: less_induct)
  case less
  show ?case
  proof (cases "i = 0 \<or> s = []")
    case True
    then show ?thesis using less.prems by (auto simp: utf8_valid_def)
  next
    case False
    then obtain n where n: "utf8_step s = Utf8Char n" "utf8_valid (drop n s)"
      using utf8_valid_Cons less.prems(1) by blast
    note nb = utf8_step_bounds(1) [OF n(1)]
    have "n \<le> i"
    proof (rule ccontr)
      assume "\<not> n \<le> i"
      then have "is_continuation_byte (s ! i)" using utf8_step_continuation [OF n(1), of i] False by simp
      then show False using less.prems(2) False \<open>\<not> n \<le> i\<close> nb by (auto simp: is_char_boundary_def)
    qed
    have "is_char_boundary (drop n s) (i - n)"
      using less.prems(2) False \<open>n \<le> i\<close> nb by (auto simp: is_char_boundary_def)
    moreover have "length (drop n s) < length s" using nb by auto
    ultimately have rest: "utf8_valid (take (i - n) (drop n s))" using less.hyps n(2) by blast
    have split_take: "take i s = take n s @ take (i - n) (drop n s)"
      using \<open>n \<le> i\<close> by (metis le_add_diff_inverse take_add)
    have "utf8_step (take i s) = Utf8Char n" unfolding split_take by (rule utf8_step_local [OF n(1)])
    moreover have "drop n (take i s) = take (i - n) (drop n s)" by (simp add: drop_take)
    ultimately show ?thesis using utf8_valid_step rest by metis
  qed
qed

lemma utf8_valid_ascii: "list_all (\<lambda>c. (of_char c :: nat) < 128) s \<Longrightarrow> utf8_valid s"
proof (induction s)
  case Nil
  then show ?case by (simp add: utf8_valid_def)
next
  case (Cons c s)
  then have "utf8_step (c # s) = Utf8Char 1" by (simp add: utf8_width_def)
  from utf8_valid_step [OF this] show ?case using Cons by simp
qed

end
