(* ===== verification/Output_Capture.thy ===== *)
theory Output_Capture
  imports Utf8_Text Session_Model
begin

section \<open>Captured command output\<close>

text \<open>
  \<^verbatim>\<open>src/crates/verlet-vbash/src/lib.rs\<close>: how the bytes a command printed become bounded text, and the
  plan made for output that does not fit: the text of the stub the model is shown and the raw bytes
  that go to a spill file.  The main result is that the incremental decoder with its byte limit computes
  the longest prefix of the lossy text that fits and ends between characters.
\<close>

subsection \<open>Definitions\<close>

record virtual_command_output =
  vco_stdout :: string
  vco_stderr :: string
  vco_exit_code :: int
  vco_stdout_truncated :: bool
  vco_stderr_truncated :: bool

definition command_succeeded :: "virtual_command_output \<Rightarrow> bool" where
  "command_succeeded out \<longleftrightarrow> vco_exit_code out = 0"

definition deny_output :: "string \<Rightarrow> virtual_command_output" where
  "deny_output label =
     \<lparr>vco_stdout = [], vco_stderr = ''verlet: command denied by routing policy: '' @ label @ newline,
      vco_exit_code = 126, vco_stdout_truncated = False, vco_stderr_truncated = False\<rparr>"

definition truncate_text_to_byte_limit :: "string \<Rightarrow> nat \<Rightarrow> string \<times> bool" where
  "truncate_text_to_byte_limit text0 max_output_bytes =
     (if length text0 \<le> max_output_bytes then (text0, False)
      else (take (boundary_at_or_below text0 max_output_bytes) text0, True))"

definition enforce_output_limit :: "virtual_command_output \<Rightarrow> nat \<Rightarrow> virtual_command_output" where
  "enforce_output_limit out max_output_bytes =
     (let (stdout, capped_stdout) = truncate_text_to_byte_limit (vco_stdout out) max_output_bytes;
          (stderr, capped_stderr) = truncate_text_to_byte_limit (vco_stderr out) max_output_bytes in
      out\<lparr>vco_stdout := stdout, vco_stderr := stderr,
          vco_stdout_truncated := vco_stdout_truncated out \<or> capped_stdout,
          vco_stderr_truncated := vco_stderr_truncated out \<or> capped_stderr\<rparr>)"

definition DEFAULT_SPILL_PREVIEW_BYTES :: nat where
  "DEFAULT_SPILL_PREVIEW_BYTES = 16 * 1024"

definition EMERGENCY_SPILL_PREVIEW_BYTES :: nat where
  "EMERGENCY_SPILL_PREVIEW_BYTES = 500"

definition SPILL_RETENTION_MAX_BYTES :: nat where
  "SPILL_RETENTION_MAX_BYTES = 64 * 1024 * 1024"

record spill_plan =
  sp_raw :: string
  sp_preview :: string
  sp_path :: string
  sp_total_bytes :: nat
  sp_preview_bytes :: nat
  sp_retention_truncated :: bool

datatype overflow_plan = InlinePlan string | SpillPlan spill_plan

definition is_utf8_continuation :: "char \<Rightarrow> bool" where
  "is_utf8_continuation byte \<longleftrightarrow> and (of_char byte :: nat) 192 = 128"

text \<open>\<open>while end > 0 && end < len && continuation(bytes[end])\<close>, from the limit downwards.\<close>

primrec prefix_end :: "string \<Rightarrow> nat \<Rightarrow> nat" where
  "prefix_end bytes 0 = 0"
| "prefix_end bytes (Suc e) =
     (if Suc e < length bytes \<and> is_utf8_continuation (bytes ! Suc e) then prefix_end bytes e else Suc e)"

definition utf8_safe_prefix :: "string \<Rightarrow> nat \<Rightarrow> string" where
  "utf8_safe_prefix bytes max_bytes = take (prefix_end bytes (min (length bytes) max_bytes)) bytes"

definition utf8_safe_suffix :: "string \<Rightarrow> nat \<Rightarrow> string" where
  "utf8_safe_suffix bytes max_bytes =
     dropWhile is_utf8_continuation (drop (length bytes - max_bytes) bytes)"

definition plan_output_overflow :: "string \<Rightarrow> nat \<Rightarrow> bool \<Rightarrow> string \<Rightarrow> overflow_plan" where
  "plan_output_overflow raw max_output_bytes retention_truncated spill_path =
     (if \<not> retention_truncated \<and> length raw \<le> max_output_bytes
      then InlinePlan (from_utf8_lossy raw)
      else let preview = utf8_safe_prefix raw DEFAULT_SPILL_PREVIEW_BYTES in
        SpillPlan \<lparr>sp_raw = raw, sp_preview = from_utf8_lossy preview, sp_path = spill_path,
          sp_total_bytes = length raw, sp_preview_bytes = length preview,
          sp_retention_truncated = retention_truncated\<rparr>)"

definition retention_truncation_notice :: "bool \<Rightarrow> string" where
  "retention_truncation_notice retention_truncated =
     (if retention_truncated
      then newline @ ''- Retention: source stream exceeded the '' @ show_nat SPILL_RETENTION_MAX_BYTES @
        ''-byte retention ceiling''
      else [])"

definition format_spill_stub :: "spill_plan \<Rightarrow> string" where
  "format_spill_stub plan =
     ''[CONTENT_SPILL: '' @ show_nat (sp_total_bytes plan) @ '' bytes]'' @ newline @
     ''- Path: '' @ sp_path plan @ newline @
     ''- Total bytes: '' @ show_nat (sp_total_bytes plan) @ newline @
     ''- Preview bytes: '' @ show_nat (sp_preview_bytes plan) @
     retention_truncation_notice (sp_retention_truncated plan) @ newline @ newline @
     ''Preview:'' @ newline @ ''---'' @ newline @ sp_preview plan @ newline @ ''---'' @ newline @ newline @
     ''Tip: cat '' @ sp_path plan"

definition build_emergency_spill_stub :: "string \<Rightarrow> string \<Rightarrow> bool \<Rightarrow> string" where
  "build_emergency_spill_stub raw spill_path retention_truncated =
     (let head = utf8_safe_prefix raw EMERGENCY_SPILL_PREVIEW_BYTES;
          tail = utf8_safe_suffix raw EMERGENCY_SPILL_PREVIEW_BYTES in
      ''[CONTENT_OVERFLOW - spill path unavailable]'' @ newline @
      ''Path: '' @ spill_path @ newline @
      ''Length: '' @ show_nat (length raw) @ '' bytes'' @ retention_truncation_notice retention_truncated @
      newline @ ''Head bytes: '' @ show_nat (length head) @ newline @
      ''Head:'' @ newline @ from_utf8_lossy head @ newline @ ''...'' @ newline @
      ''Tail bytes: '' @ show_nat (length tail) @ newline @
      ''Tail:'' @ newline @ from_utf8_lossy tail)"

text \<open>The decoding loop: \<open>text0\<close> is what has been written, \<open>remaining\<close> the bytes not yet decoded.\<close>

function capped_text_loop :: "nat \<Rightarrow> string \<Rightarrow> string \<Rightarrow> string \<times> bool" where
  "capped_text_loop max_output_bytes text0 remaining =
     (if remaining = [] then (text0, False)
      else (case from_utf8 remaining of
          Inr valid \<Rightarrow>
            (let available = max_output_bytes - length text0;
                 end_at = boundary_at_or_below valid (min (length valid) available) in
             (text0 @ take end_at valid, end_at \<noteq> length valid))
        | Inl err \<Rightarrow>
            (let valid_end = valid_up_to err;
                 valid = take valid_end remaining;
                 available = max_output_bytes - length text0;
                 end_at = boundary_at_or_below valid (min (length valid) available);
                 text1 = text0 @ take end_at valid in
             if end_at \<noteq> length valid \<or> length text1 + length replacement_character > max_output_bytes
             then (text1, True)
             else (case error_len err of
                 None \<Rightarrow> (text1 @ replacement_character, False)
               | Some invalid_bytes \<Rightarrow>
                   capped_text_loop max_output_bytes (text1 @ replacement_character)
                     (drop (valid_end + invalid_bytes) remaining)))))"
  by pat_completeness auto

lemma from_utf8_error:
  assumes "from_utf8 s = Inl err"
  shows "valid_up_to err = valid_length s" and "valid_length s < length s"
    and "error_len err = Some n \<Longrightarrow> utf8_step (drop (valid_length s) s) = Utf8Invalid n \<and> 0 < n"
    and "error_len err = None \<Longrightarrow> utf8_step (drop (valid_length s) s) = Utf8Incomplete"
  using assms valid_length_le [of s] valid_length_stuck [of s] utf8_step_bounds(2)
  by (auto simp: from_utf8_def Let_def split: if_splits utf8_head.splits)

termination capped_text_loop
proof (relation "measure (\<lambda>(m, t, r). length r)", goal_cases)
  case 1
  then show ?case by simp
next
  case (2 m t r err v e a b c n)
  then show ?case using from_utf8_error(3) [of r err n] by auto
qed

declare capped_text_loop.simps [simp del]

definition bytes_to_capped_text :: "string \<Rightarrow> nat \<Rightarrow> string \<times> bool" where
  "bytes_to_capped_text bytes max_output_bytes = capped_text_loop max_output_bytes [] bytes"

text \<open>The result of the interpreter, whose streams are text already.\<close>

definition virtual_command_output_from_exec_result ::
  "string \<Rightarrow> string \<Rightarrow> int \<Rightarrow> bool \<Rightarrow> bool \<Rightarrow> virtual_command_output" where
  "virtual_command_output_from_exec_result stdout0 stderr0 exit_code stdout_truncated stderr_truncated =
     (let (stdout, stdout_text_truncated) = bytes_to_capped_text stdout0 SPILL_RETENTION_MAX_BYTES;
          (stderr, stderr_text_truncated) = bytes_to_capped_text stderr0 SPILL_RETENTION_MAX_BYTES in
      \<lparr>vco_stdout = stdout, vco_stderr = stderr, vco_exit_code = exit_code,
       vco_stdout_truncated = stdout_truncated \<or> stdout_text_truncated,
       vco_stderr_truncated = stderr_truncated \<or> stderr_text_truncated\<rparr>)"

subsection \<open>The capped decoder\<close>

lemma truncate_inside:
  assumes "starts_char (valid @ rest)" and "length t \<le> m" and "m - length t < length valid"
  shows "truncate_utf8_bytes (t @ valid @ rest) m = t @ take (boundary_at_or_below valid (m - length t)) valid"
proof -
  have "boundary_at_or_below (t @ valid @ rest) m = length t + boundary_at_or_below valid (m - length t)"
    using boundary_at_or_below_shift [OF assms(1), of t "m - length t"] assms(2,3)
    by (simp add: boundary_at_or_below_local)
  moreover have "boundary_at_or_below valid (m - length t) \<le> length valid"
    using boundary_le [of valid "m - length t"] assms(3) by simp
  ultimately show ?thesis using assms(2,3) by (simp add: truncate_utf8_bytes_def)
qed

lemma truncate_before_replacement:
  assumes "length t \<le> m" and "m < length t + length replacement_character"
  shows "truncate_utf8_bytes (t @ replacement_character @ rest) m = t"
proof -
  let ?y = "replacement_character @ rest"
  have "m - length t = 0 \<or> m - length t = 1 \<or> m - length t = 2"
    using assms by (auto simp: replacement_character_def)
  then have "boundary_at_or_below ?y (m - length t) = 0"
    by (elim disjE)
      (simp_all add: replacement_character_def is_char_boundary_def is_continuation_byte_def
        numeral_2_eq_2)
  then have "boundary_at_or_below (t @ ?y) m = length t"
    using boundary_at_or_below_shift [of ?y t "m - length t"] assms(1) by simp
  then show ?thesis using assms(2) by (simp add: truncate_utf8_bytes_def)
qed

text \<open>Where the loop cuts the valid part: inside it exactly when it does not fit.\<close>

lemma cut_cases:
  fixes valid rest t :: string and stop :: nat
  assumes "starts_char (valid @ rest)" and "length t \<le> m"
  defines "stop \<equiv> boundary_at_or_below valid (min (length valid) (m - length t))"
  obtains (inside) "stop \<noteq> length valid"
      "truncate_utf8_bytes (t @ valid @ rest) m = t @ take stop valid" "m < length (t @ valid @ rest)"
    | (fits) "stop = length valid" "length (t @ valid) \<le> m"
proof (cases "m - length t < length valid")
  case True
  then show ?thesis
    using truncate_inside [OF assms(1,2) True] boundary_le [of valid "m - length t"] assms(2) inside
    unfolding stop_def by (simp add: min_absorb2)
next
  case False
  then show ?thesis
    using assms(2) fits unfolding stop_def by (simp add: min_absorb1 boundary_at_length)
qed

lemma from_utf8_lossy_error:
  assumes "from_utf8 s = Inl err"
  shows "from_utf8_lossy s = take (valid_length s) s @ replacement_character @
    (case error_len err of None \<Rightarrow> [] | Some n \<Rightarrow> from_utf8_lossy (drop (valid_length s + n) s))"
proof -
  note err = from_utf8_error [OF assms]
  have "drop (valid_length s) s \<noteq> []" using err(2) by simp
  then have "from_utf8_lossy (drop (valid_length s) s) = replacement_character @
      (case error_len err of None \<Rightarrow> [] | Some n \<Rightarrow> from_utf8_lossy (drop (valid_length s + n) s))"
    using err(3,4) by (subst from_utf8_lossy.simps) (auto simp: add.commute split: option.split)
  then show ?thesis by (subst from_utf8_lossy_unfold) simp
qed

lemma capped_text_loop_valid:
  assumes "from_utf8 s = Inr u" and "length t \<le> m"
  shows "capped_text_loop m t s =
    (truncate_utf8_bytes (t @ from_utf8_lossy s) m, m < length (t @ from_utf8_lossy s))"
proof -
  have u: "u = s" "utf8_valid s" using assms(1) by (simp_all add: from_utf8_ok_iff)
  have lossy: "from_utf8_lossy s = s" using u(2) by (rule from_utf8_lossy_valid)
  define stop where "stop = boundary_at_or_below s (min (length s) (m - length t))"
  have "capped_text_loop m t s = (t @ take stop s, stop \<noteq> length s)"
    using assms(1) u unfolding stop_def by (subst capped_text_loop.simps) (simp add: Let_def)
  moreover have "starts_char (s @ [])" using from_utf8_lossy_starts [of s] lossy by simp
  then consider "stop \<noteq> length s" "truncate_utf8_bytes (t @ s @ []) m = t @ take stop s"
      "m < length (t @ s @ [])" | "stop = length s" "length (t @ s) \<le> m"
    using assms(2) unfolding stop_def by (rule cut_cases)
  then have "(t @ take stop s, stop \<noteq> length s) = (truncate_utf8_bytes (t @ s) m, m < length (t @ s))"
    by cases (auto simp: truncate_utf8_bytes_def)
  ultimately show ?thesis using lossy by simp
qed

lemma capped_text_loop_spec:
  assumes "length t \<le> m"
  shows "capped_text_loop m t s =
    (truncate_utf8_bytes (t @ from_utf8_lossy s) m, m < length (t @ from_utf8_lossy s))"
  using assms
proof (induction "length s" arbitrary: t s rule: less_induct)
  case less
  show ?case
  proof (cases "from_utf8 s")
    case (Inr u)
    then show ?thesis using less.prems by (rule capped_text_loop_valid)
  next
    case (Inl err)
    note err = from_utf8_error [OF Inl]
    define valid where "valid = take (valid_length s) s"
    define stop where "stop = boundary_at_or_below valid (min (length valid) (m - length t))"
    define z where "z = (case error_len err of None \<Rightarrow> []
      | Some n \<Rightarrow> from_utf8_lossy (drop (valid_length s + n) s))"
    have lossy: "from_utf8_lossy s = valid @ replacement_character @ z"
      unfolding valid_def z_def by (rule from_utf8_lossy_error [OF Inl])
    have "s \<noteq> []" using err(2) by auto
    then have loop: "capped_text_loop m t s =
        (if stop \<noteq> length valid \<or> length (t @ take stop valid) + length replacement_character > m
         then (t @ take stop valid, True)
         else (case error_len err of
             None \<Rightarrow> ((t @ take stop valid) @ replacement_character, False)
           | Some n \<Rightarrow> capped_text_loop m ((t @ take stop valid) @ replacement_character)
                (drop (valid_length s + n) s)))"
      unfolding stop_def valid_def
      by (subst capped_text_loop.simps) (simp only: Inl err(1) Let_def if_False sum.case)
    have "starts_char (valid @ replacement_character @ z)"
      using from_utf8_lossy_starts [of s] lossy by simp
    from this less.prems show ?thesis
    proof (rule cut_cases, fold stop_def)
      assume "stop \<noteq> length valid" "m < length (t @ valid @ replacement_character @ z)"
        "truncate_utf8_bytes (t @ valid @ replacement_character @ z) m = t @ take stop valid"
      then show ?thesis using loop lossy by simp
    next
      assume stop: "stop = length valid" and t1: "length (t @ valid) \<le> m"
      show ?thesis
      proof (cases "length (t @ valid) + length replacement_character > m")
        case True
        then show ?thesis using loop stop lossy truncate_before_replacement [OF t1, of z] by simp
      next
        case room: False
        then have "length ((t @ valid) @ replacement_character) \<le> m" by simp
        note ih = less.hyps [OF _ this]
        have "length (drop (valid_length s + n) s) < length s" if "error_len err = Some n" for n
          using err(2) err(3) [OF that] by auto
        then show ?thesis
          using loop stop lossy room ih
          by (cases "error_len err") (simp_all add: z_def truncate_utf8_bytes_def)
      qed
    qed
  qed
qed

text \<open>
  C25. Decoding with a byte limit is decoding followed by truncation: for every byte string and every
  limit the loop returns the lossy UTF-8 text of the whole input cut at the last character boundary
  within the limit, and its flag says exactly whether the whole text would have been longer.
\<close>

theorem capped_text_is_truncated_lossy_text:
  "bytes_to_capped_text bytes limit =
     (truncate_utf8_bytes (from_utf8_lossy bytes) limit, limit < length (from_utf8_lossy bytes))"
  unfolding bytes_to_capped_text_def using capped_text_loop_spec [of "[]" limit bytes] by simp

subsection \<open>Previews\<close>

lemma and_192: "and n 192 = 64 * (n div 64 mod (4 :: nat))"
proof -
  have shift: "and n (push_bit 6 m) = push_bit 6 (and (drop_bit 6 n) m)" for m :: nat
    by (rule bit_eqI) (auto simp: bit_simps)
  have "and n 192 = push_bit 6 (and (drop_bit 6 n) 3)"
    using shift [of 3] by (simp add: push_bit_eq_mult)
  also have "and (drop_bit 6 n) 3 = take_bit 2 (drop_bit 6 n)"
    by (simp add: take_bit_eq_mask mask_eq_exp_minus_1)
  finally show ?thesis by (simp add: push_bit_eq_mult drop_bit_eq_div take_bit_eq_mod mult.commute)
qed

lemma is_utf8_continuation_iff: "is_utf8_continuation c \<longleftrightarrow> is_continuation_byte c"
proof -
  define n where "n = (of_char c :: nat)"
  have "n < 256" by (simp add: n_def)
  then have "n div 64 < 4" by (simp add: less_mult_imp_div_less)
  then have "and n 192 = 64 * (n div 64)" by (simp add: and_192)
  moreover have "64 * q = 128 \<longleftrightarrow> 128 \<le> n \<and> n < 192" if "64 * q + r = n" "r < 64" for q r
    using that by presburger
  then have "64 * (n div 64) = 128 \<longleftrightarrow> 128 \<le> n \<and> n < 192" by (metis mod_less_divisor
      mult_div_mod_eq zero_less_numeral)
  ultimately have "and n 192 = 128 \<longleftrightarrow> 128 \<le> n \<and> n < 192" by simp
  then show ?thesis unfolding is_utf8_continuation_def is_continuation_byte_def n_def .
qed

lemma prefix_end_boundary:
  "i \<le> length s \<Longrightarrow> prefix_end s i = boundary_at_or_below s i"
  by (induction i) (auto simp: is_char_boundary_def is_utf8_continuation_iff)

lemma utf8_safe_prefix_truncates: "utf8_safe_prefix s m = truncate_utf8_bytes s m"
  by (auto simp: utf8_safe_prefix_def prefix_end_boundary truncate_utf8_bytes_def min_def
      boundary_at_length)

lemma truncate_valid: "utf8_valid s \<Longrightarrow> utf8_valid (truncate_utf8_bytes s m)"
  using boundary_is_boundary [of s m] by (auto simp: truncate_utf8_bytes_def intro: utf8_valid_take)

lemma truncate_length: "length (truncate_utf8_bytes s m) \<le> m"
  using boundary_le [of s m] by (auto simp: truncate_utf8_bytes_def)

lemma truncate_prefix: "prefix (truncate_utf8_bytes s m) s"
  by (simp add: truncate_utf8_bytes_def take_is_prefix)

lemma utf8_safe_suffix_length: "length (utf8_safe_suffix s m) \<le> m"
proof -
  have "length (dropWhile P xs) \<le> length xs" for P and xs :: string by (rule length_dropWhile_le)
  from this [of is_utf8_continuation "drop (length s - m) s"] show ?thesis
    unfolding utf8_safe_suffix_def by simp
qed

text \<open>The preview of a plan: bounded, counted right, and for text an exact prefix of the output.\<close>

lemma spill_plan_preview:
  assumes "plan_output_overflow raw m cut_off path = SpillPlan plan"
  shows "sp_raw plan = raw" "sp_path plan = path" "sp_total_bytes plan = length raw"
    "sp_preview_bytes plan \<le> DEFAULT_SPILL_PREVIEW_BYTES"
    "utf8_valid raw \<Longrightarrow> prefix (sp_preview plan) raw \<and> length (sp_preview plan) = sp_preview_bytes plan"
  using assms truncate_length [of raw DEFAULT_SPILL_PREVIEW_BYTES]
    truncate_prefix [of raw DEFAULT_SPILL_PREVIEW_BYTES]
  by (auto simp: plan_output_overflow_def Let_def utf8_safe_prefix_truncates from_utf8_lossy_valid
      truncate_valid split: if_splits)

end
