(* ===== verification/Virtual_Files.thy ===== *)
theory Virtual_Files
  imports Prelude
begin

section \<open>The virtual file system\<close>

text \<open>
  \<^verbatim>\<open>src/crates/verlet-vfs/src/lib.rs\<close>: the file system a shell session sees (\<open>VerletVfs\<close>: a root, a table
  of mounts, a journal of mutations) and the read-only wrapper (\<open>ReadOnlyFileSystem\<close>).

  A \<open>std::path::Path\<close> is its sequence of components, on which \<open>Path\<close>'s equality, order, \<open>starts_with\<close>,
  \<open>parent\<close> and \<open>join\<close> are defined.  \<open>bashkit::normalize_path\<close> is an argument (\<open>normpath\<close>).  A value
  of the trait \<open>bashkit::FileSystem\<close> is the record of its operations, each a function of the state
  \<open>'w\<close> behind all the file systems of the process; an \<open>Arc\<close> adds the identity \<open>Arc::ptr_eq\<close> compares.
  The time of a directory's metadata is an argument.
\<close>

subsection \<open>Paths\<close>

datatype component = RootDir | CurDir | ParentDir | Normal string

fun component_key :: "component \<Rightarrow> nat \<times> string" where
  "component_key RootDir = (0, [])"
| "component_key CurDir = (1, [])"
| "component_key ParentDir = (2, [])"
| "component_key (Normal s) = (3, s)"

lemma component_key_inject: "component_key a = component_key b \<longleftrightarrow> a = b"
  by (cases a; cases b) simp_all

definition component_less :: "component \<Rightarrow> component \<Rightarrow> bool" where
  "component_less a b \<longleftrightarrow>
     fst (component_key a) < fst (component_key b) \<or>
     fst (component_key a) = fst (component_key b) \<and> snd (component_key a) < snd (component_key b)"

instantiation component :: linorder
begin

definition less_component_def: "(a :: component) < b \<longleftrightarrow> component_less a b"

definition less_eq_component_def: "(a :: component) \<le> b \<longleftrightarrow> component_less a b \<or> a = b"

instance
proof
  fix a b c :: component
  have eq: "component_key a = component_key b \<longleftrightarrow> a = b" by (rule component_key_inject)
  show "(a < b) = (a \<le> b \<and> \<not> b \<le> a)"
    by (auto simp: less_component_def less_eq_component_def component_less_def)
  show "a \<le> a" by (simp add: less_eq_component_def)
  show "a \<le> b \<Longrightarrow> b \<le> c \<Longrightarrow> a \<le> c"
    by (auto simp: less_eq_component_def component_less_def)
  show "a \<le> b \<Longrightarrow> b \<le> a \<Longrightarrow> a = b"
    by (auto simp: less_eq_component_def component_less_def)
  show "a \<le> b \<or> b \<le> a"
    using eq by (auto simp: less_eq_component_def component_less_def prod_eq_iff)
qed

end

type_synonym path = "component list"

text \<open>\<open>str::split\<close> on a character: always at least one piece.\<close>

primrec split_on :: "char \<Rightarrow> string \<Rightarrow> string list" where
  "split_on c [] = [[]]"
| "split_on c (x # xs) =
     (if x = c then [] # split_on c xs
      else case split_on c xs of [] \<Rightarrow> [[x]] | p # ps \<Rightarrow> (x # p) # ps)"

lemma split_on_none: "c \<notin> set p \<Longrightarrow> split_on c p = [p]"
  by (induction p) auto

lemma split_on_append: "c \<notin> set p \<Longrightarrow> split_on c (p @ c # s) = p # split_on c s"
  by (induction p) auto

text \<open>\<open>Path::new\<close>: empty pieces and inner \<open>.\<close> are no components.\<close>

definition component_of :: "string \<Rightarrow> component option" where
  "component_of s =
     (if s = [] \<or> s = ''.'' then None else if s = ''..'' then Some ParentDir else Some (Normal s))"

definition path_of_string :: "string \<Rightarrow> path" where
  "path_of_string s =
     (if starts_with s ''/'' then [RootDir] else if hd (split_on CHR ''/'' s) = ''.'' then [CurDir] else []) @
     List.map_filter component_of (split_on CHR ''/'' s)"

definition has_root :: "path \<Rightarrow> bool" where
  "has_root p \<longleftrightarrow> (case p of RootDir # _ \<Rightarrow> True | _ \<Rightarrow> False)"

text \<open>\<open>join\<close>: an absolute argument replaces; \<open>.\<close> is a component only at the start of a path.\<close>

definition path_join :: "path \<Rightarrow> path \<Rightarrow> path" where
  "path_join p q =
     (if has_root q then q
      else case q of
          CurDir # q' \<Rightarrow> if p = [] then q else p @ q'
        | _ \<Rightarrow> p @ q)"

definition path_parent :: "path \<Rightarrow> path option" where
  "path_parent p = (if p = [] \<or> last p = RootDir then None else Some (butlast p))"

definition path_file_name :: "path \<Rightarrow> string option" where
  "path_file_name p =
     (if p = [] then None else case last p of Normal s \<Rightarrow> Some s | _ \<Rightarrow> None)"

definition path_strip_prefix :: "path \<Rightarrow> path \<Rightarrow> path option" where
  "path_strip_prefix p base = (if prefix base p then Some (drop (length base) p) else None)"

definition normalize_vfs_path :: "(path \<Rightarrow> path) \<Rightarrow> path \<Rightarrow> path" where
  "normalize_vfs_path normpath p =
     (if has_root p then normpath p else normpath (path_join [RootDir] p))"

text \<open>
  What the documentation of \<open>bashkit::normalize_path\<close> says: the result is absolute, has no \<open>.\<close> or
  \<open>..\<close>, and normalizing it again does not change it.
\<close>

definition normal_path :: "path \<Rightarrow> bool" where
  "normal_path p \<longleftrightarrow> (\<exists>names. p = RootDir # map Normal names)"

definition normalizer :: "(path \<Rightarrow> path) \<Rightarrow> bool" where
  "normalizer normpath \<longleftrightarrow>
     (\<forall>p. normal_path (normpath p)) \<and> (\<forall>p. normal_path p \<longrightarrow> normpath p = p)"

subsection \<open>File systems\<close>

datatype io_error_kind = NotFound | PermissionDenied | AlreadyExists | InvalidInput | IsADirectory
  | DirectoryNotEmpty | Unsupported | OtherKind

datatype bashkit_error = BashkitIo io_error_kind string | BashkitOther string

datatype file_type = RegularFile | Directory | Symlink | SpecialFile

record file_metadata =
  md_file_type :: file_type
  md_size :: u64
  md_mode :: u32
  md_modified :: i64
  md_created :: i64

record dir_entry =
  de_name :: string
  de_metadata :: file_metadata

type_synonym 'a bashkit_result = "bashkit_error + 'a"

record 'w fs_ops =
  fs_read_file :: "path \<Rightarrow> 'w \<Rightarrow> string bashkit_result \<times> 'w"
  fs_write_file :: "path \<Rightarrow> string \<Rightarrow> 'w \<Rightarrow> unit bashkit_result \<times> 'w"
  fs_append_file :: "path \<Rightarrow> string \<Rightarrow> 'w \<Rightarrow> unit bashkit_result \<times> 'w"
  fs_mkdir :: "path \<Rightarrow> bool \<Rightarrow> 'w \<Rightarrow> unit bashkit_result \<times> 'w"
  fs_remove :: "path \<Rightarrow> bool \<Rightarrow> 'w \<Rightarrow> unit bashkit_result \<times> 'w"
  fs_stat :: "path \<Rightarrow> 'w \<Rightarrow> file_metadata bashkit_result \<times> 'w"
  fs_read_dir :: "path \<Rightarrow> 'w \<Rightarrow> dir_entry list bashkit_result \<times> 'w"
  fs_exists :: "path \<Rightarrow> 'w \<Rightarrow> bool bashkit_result \<times> 'w"
  fs_rename :: "path \<Rightarrow> path \<Rightarrow> 'w \<Rightarrow> unit bashkit_result \<times> 'w"
  fs_copy :: "path \<Rightarrow> path \<Rightarrow> 'w \<Rightarrow> unit bashkit_result \<times> 'w"
  fs_symlink :: "path \<Rightarrow> path \<Rightarrow> 'w \<Rightarrow> unit bashkit_result \<times> 'w"
  fs_read_link :: "path \<Rightarrow> 'w \<Rightarrow> path bashkit_result \<times> 'w"
  fs_chmod :: "path \<Rightarrow> u32 \<Rightarrow> 'w \<Rightarrow> unit bashkit_result \<times> 'w"
  fs_set_modified_time :: "path \<Rightarrow> i64 \<Rightarrow> 'w \<Rightarrow> unit bashkit_result \<times> 'w"
  fs_flush :: "'w \<Rightarrow> unit bashkit_result \<times> 'w"
  fs_validate_path :: "path \<Rightarrow> string + unit"

record 'w fs_arc =
  arc_id :: nat
  arc_fs :: "'w fs_ops"

text \<open>\<open>call().await?\<close>: an error ends the caller with the state the call left.\<close>

definition and_run :: "('e + 'a) \<times> 's \<Rightarrow> ('a \<Rightarrow> 's \<Rightarrow> ('e + 'b) \<times> 's) \<Rightarrow> ('e + 'b) \<times> 's" where
  "and_run r f = (case r of (Inl e, s) \<Rightarrow> (Inl e, s) | (Inr a, s) \<Rightarrow> f a s)"

lemma and_run_simps [simp]:
  "and_run (Inl e, s) f = (Inl e, s)"
  "and_run (Inr a, s) f = f a s"
  by (simp_all add: and_run_def)

lemma and_run_ok:
  "and_run r f = (Inr b, s') \<longleftrightarrow> (\<exists>a s. r = (Inr a, s) \<and> f a s = (Inr b, s'))"
  by (auto simp: and_run_def split: prod.splits sum.splits)

lemma and_run_cases:
  "(\<exists>e s. r = (Inl e, s) \<and> and_run r f = (Inl e, s)) \<or> (\<exists>a s. r = (Inr a, s) \<and> and_run r f = f a s)"
  by (cases r; cases "fst r") auto

subsection \<open>Read-only file systems\<close>

definition readonly_error :: bashkit_error where
  "readonly_error = BashkitIo PermissionDenied ''filesystem is mounted read-only''"

definition read_only_file_system :: "'w fs_ops \<Rightarrow> 'w fs_ops" where
  "read_only_file_system inner =
     \<lparr>fs_read_file = fs_read_file inner,
      fs_write_file = (\<lambda>path content w. (Inl readonly_error, w)),
      fs_append_file = (\<lambda>path content w. (Inl readonly_error, w)),
      fs_mkdir = (\<lambda>path recursive w. (Inl readonly_error, w)),
      fs_remove = (\<lambda>path recursive w. (Inl readonly_error, w)),
      fs_stat = fs_stat inner,
      fs_read_dir = fs_read_dir inner,
      fs_exists = fs_exists inner,
      fs_rename = (\<lambda>from to w. (Inl readonly_error, w)),
      fs_copy = (\<lambda>from to w. (Inl readonly_error, w)),
      fs_symlink = (\<lambda>target link w. (Inl readonly_error, w)),
      fs_read_link = fs_read_link inner,
      fs_chmod = (\<lambda>path mode w. (Inl readonly_error, w)),
      fs_set_modified_time = (\<lambda>path time w. (Inl readonly_error, w)),
      fs_flush = fs_flush inner,
      fs_validate_path = fs_validate_path inner\<rparr>"

subsection \<open>Mounts\<close>

datatype vfs_mutation_kind = WriteMutation | AppendMutation | MkdirMutation | RemoveMutation
  | RenameMutation | CopyMutation | ChmodMutation | SetModifiedTimeMutation

record vfs_mutation =
  vm_kind :: vfs_mutation_kind
  vm_path :: path
  vm_target :: "path option"

record 'w verlet_vfs =
  vv_root :: "'w fs_arc"
  vv_mounts :: "(path, 'w fs_arc) btmap"
  vv_journal :: "vfs_mutation list"
  vv_world :: 'w

definition verlet_vfs_new :: "'w fs_arc \<Rightarrow> 'w \<Rightarrow> 'w verlet_vfs" where
  "verlet_vfs_new root w = \<lparr>vv_root = root, vv_mounts = [], vv_journal = [], vv_world = w\<rparr>"

definition vfs_mount ::
  "(path \<Rightarrow> path) \<Rightarrow> path \<Rightarrow> 'w fs_arc \<Rightarrow> 'w verlet_vfs \<Rightarrow> unit bashkit_result \<times> 'w verlet_vfs" where
  "vfs_mount normpath p fs v =
     (if \<not> has_root p then (Inl (BashkitIo OtherKind ''mount path must be absolute''), v)
      else let path = normalize_vfs_path normpath p in
        if path = [RootDir] then (Inl (BashkitIo OtherKind ''mount path must not be /''), v)
        else (Inr (), v\<lparr>vv_mounts := bt_insert path fs (vv_mounts v)\<rparr>))"

definition has_mount :: "(path \<Rightarrow> path) \<Rightarrow> 'w verlet_vfs \<Rightarrow> path \<Rightarrow> bool" where
  "has_mount normpath v p \<longleftrightarrow> normalize_vfs_path normpath p \<in> fst ` set (vv_mounts v)"

definition clear_mutations :: "'w verlet_vfs \<Rightarrow> 'w verlet_vfs" where
  "clear_mutations v = v\<lparr>vv_journal := []\<rparr>"

definition vfs_record ::
  "vfs_mutation_kind \<Rightarrow> path \<Rightarrow> path option \<Rightarrow> 'w verlet_vfs \<Rightarrow> 'w verlet_vfs" where
  "vfs_record kind path target v =
     v\<lparr>vv_journal := vv_journal v @ [\<lparr>vm_kind = kind, vm_path = path, vm_target = target\<rparr>]\<rparr>"

definition vfs_resolve ::
  "(path \<Rightarrow> path) \<Rightarrow> 'w verlet_vfs \<Rightarrow> path \<Rightarrow> 'w fs_arc \<times> path" where
  "vfs_resolve normpath v p =
     (let path = normalize_vfs_path normpath p;
          best = max_by_key (\<lambda>(mount_path, _). length mount_path)
                   (filter (\<lambda>(mount_path, _). prefix mount_path path) (vv_mounts v)) in
      case best of
        Some (mount_path, fs) \<Rightarrow>
          (let relative = (case path_strip_prefix path mount_path of Some r \<Rightarrow> r | None \<Rightarrow> []) in
           (fs, if relative = [] then [RootDir] else path_join [RootDir] relative))
      | None \<Rightarrow> (vv_root v, path))"

definition vfs_validate_path :: "'w verlet_vfs \<Rightarrow> path \<Rightarrow> unit bashkit_result" where
  "vfs_validate_path v p =
     (case fs_validate_path (arc_fs (vv_root v)) p of
        Inl message \<Rightarrow> Inl (BashkitIo InvalidInput message)
      | Inr u \<Rightarrow> Inr u)"

definition direct_child_mount_names :: "'w verlet_vfs \<Rightarrow> path \<Rightarrow> string list" where
  "direct_child_mount_names v path =
     List.map_filter
       (\<lambda>(mount_path, _). if path_parent mount_path = Some path then path_file_name mount_path else None)
       (vv_mounts v)"

definition directory_metadata :: "i64 \<Rightarrow> file_metadata" where
  "directory_metadata now =
     \<lparr>md_file_type = Directory, md_size = 0, md_mode = 7 * 64 + 5 * 8 + 5, md_modified = now, md_created = now\<rparr>"

definition on_world :: "('w \<Rightarrow> 'r \<times> 'w) \<Rightarrow> 'w verlet_vfs \<Rightarrow> 'r \<times> 'w verlet_vfs" where
  "on_world f v = (case f (vv_world v) of (r, w) \<Rightarrow> (r, v\<lparr>vv_world := w\<rparr>))"

subsection \<open>The operations of the virtual file system\<close>

definition vfs_flush :: "'w verlet_vfs \<Rightarrow> unit bashkit_result \<times> 'w verlet_vfs" where
  "vfs_flush v =
     and_run (on_world (fs_flush (arc_fs (vv_root v))) v) (\<lambda>_ v.
       fold (\<lambda>mount acc. and_run acc (\<lambda>_ v. on_world (fs_flush (arc_fs mount)) v))
         (map snd (vv_mounts v)) (Inr (), v))"

definition vfs_read_file ::
  "(path \<Rightarrow> path) \<Rightarrow> path \<Rightarrow> 'w verlet_vfs \<Rightarrow> string bashkit_result \<times> 'w verlet_vfs" where
  "vfs_read_file normpath p v =
     (case vfs_resolve normpath v p of (fs, resolved) \<Rightarrow> on_world (fs_read_file (arc_fs fs) resolved) v)"

text \<open>
  The frame of the operations on one path: the path is checked, normalized and resolved, the
  operation runs on the file system it belongs to, and its success is recorded.
\<close>

definition vfs_mutate ::
  "(path \<Rightarrow> path) \<Rightarrow> vfs_mutation_kind \<Rightarrow> ('w fs_ops \<Rightarrow> path \<Rightarrow> 'w \<Rightarrow> unit bashkit_result \<times> 'w) \<Rightarrow>
   path \<Rightarrow> 'w verlet_vfs \<Rightarrow> unit bashkit_result \<times> 'w verlet_vfs" where
  "vfs_mutate normpath kind run p v =
     or_return (vfs_validate_path v p) v (\<lambda>_.
       let path = normalize_vfs_path normpath p in
       case vfs_resolve normpath v path of (fs, resolved) \<Rightarrow>
         and_run (on_world (run (arc_fs fs) resolved) v) (\<lambda>_ v.
           (Inr (), vfs_record kind path None v)))"

definition vfs_write_file ::
  "(path \<Rightarrow> path) \<Rightarrow> path \<Rightarrow> string \<Rightarrow> 'w verlet_vfs \<Rightarrow> unit bashkit_result \<times> 'w verlet_vfs" where
  "vfs_write_file normpath p content =
     vfs_mutate normpath WriteMutation (\<lambda>fs resolved. fs_write_file fs resolved content) p"

definition vfs_append_file ::
  "(path \<Rightarrow> path) \<Rightarrow> path \<Rightarrow> string \<Rightarrow> 'w verlet_vfs \<Rightarrow> unit bashkit_result \<times> 'w verlet_vfs" where
  "vfs_append_file normpath p content =
     vfs_mutate normpath AppendMutation (\<lambda>fs resolved. fs_append_file fs resolved content) p"

definition vfs_mkdir ::
  "(path \<Rightarrow> path) \<Rightarrow> path \<Rightarrow> bool \<Rightarrow> 'w verlet_vfs \<Rightarrow> unit bashkit_result \<times> 'w verlet_vfs" where
  "vfs_mkdir normpath p recursive =
     vfs_mutate normpath MkdirMutation (\<lambda>fs resolved. fs_mkdir fs resolved recursive) p"

definition vfs_remove ::
  "(path \<Rightarrow> path) \<Rightarrow> path \<Rightarrow> bool \<Rightarrow> 'w verlet_vfs \<Rightarrow> unit bashkit_result \<times> 'w verlet_vfs" where
  "vfs_remove normpath p recursive =
     vfs_mutate normpath RemoveMutation (\<lambda>fs resolved. fs_remove fs resolved recursive) p"

definition vfs_stat ::
  "(path \<Rightarrow> path) \<Rightarrow> i64 \<Rightarrow> path \<Rightarrow> 'w verlet_vfs \<Rightarrow> file_metadata bashkit_result \<times> 'w verlet_vfs" where
  "vfs_stat normpath now p v =
     (let path = normalize_vfs_path normpath p in
      if path \<in> fst ` set (vv_mounts v) \<or> direct_child_mount_names v path \<noteq> []
      then (Inr (directory_metadata now), v)
      else case vfs_resolve normpath v path of (fs, resolved) \<Rightarrow>
        on_world (fs_stat (arc_fs fs) resolved) v)"

text \<open>A mount below the directory is listed unless the directory has an entry of that name.\<close>

definition add_child_mount ::
  "i64 \<Rightarrow> string \<Rightarrow> string set \<times> dir_entry list \<Rightarrow> string set \<times> dir_entry list" where
  "add_child_mount now name acc =
     (case acc of (names, entries) \<Rightarrow>
        if name \<in> names then acc
        else (insert name names, entries @ [\<lparr>de_name = name, de_metadata = directory_metadata now\<rparr>]))"

definition vfs_read_dir ::
  "(path \<Rightarrow> path) \<Rightarrow> i64 \<Rightarrow> path \<Rightarrow> 'w verlet_vfs \<Rightarrow>
   dir_entry list bashkit_result \<times> 'w verlet_vfs" where
  "vfs_read_dir normpath now p v =
     (let path = normalize_vfs_path normpath p in
      case vfs_resolve normpath v path of (fs, resolved) \<Rightarrow>
      let child_mounts = direct_child_mount_names v path in
      case on_world (fs_read_dir (arc_fs fs) resolved) v of
        (r, v) \<Rightarrow>
          or_return
            (case r of
               Inr entries \<Rightarrow> Inr entries
             | Inl err \<Rightarrow> if child_mounts \<noteq> [] then Inr [] else Inl err) v (\<lambda>entries.
          let (names, entries) =
                fold (add_child_mount now) child_mounts (de_name ` set entries, entries) in
          (Inr (sort_key de_name entries), v)))"

definition vfs_exists ::
  "(path \<Rightarrow> path) \<Rightarrow> path \<Rightarrow> 'w verlet_vfs \<Rightarrow> bool bashkit_result \<times> 'w verlet_vfs" where
  "vfs_exists normpath p v =
     (let path = normalize_vfs_path normpath p in
      if path \<in> fst ` set (vv_mounts v) \<or> direct_child_mount_names v path \<noteq> [] then (Inr True, v)
      else case vfs_resolve normpath v path of (fs, resolved) \<Rightarrow>
        on_world (fs_exists (arc_fs fs) resolved) v)"

text \<open>Between two file systems a symbolic link is recreated and a file is read and written.\<close>

definition vfs_transfer ::
  "'w fs_ops \<Rightarrow> path \<Rightarrow> 'w fs_ops \<Rightarrow> path \<Rightarrow> 'w verlet_vfs \<Rightarrow> unit bashkit_result \<times> 'w verlet_vfs" where
  "vfs_transfer from_fs from_resolved to_fs to_resolved v =
     and_run (on_world (fs_stat from_fs from_resolved) v) (\<lambda>meta v.
       if md_file_type meta = Symlink then
         and_run (on_world (fs_read_link from_fs from_resolved) v) (\<lambda>target v.
           on_world (fs_symlink to_fs target to_resolved) v)
       else
         and_run (on_world (fs_read_file from_fs from_resolved) v) (\<lambda>content v.
           on_world (fs_write_file to_fs to_resolved content) v))"

definition vfs_rename ::
  "(path \<Rightarrow> path) \<Rightarrow> path \<Rightarrow> path \<Rightarrow> 'w verlet_vfs \<Rightarrow> unit bashkit_result \<times> 'w verlet_vfs" where
  "vfs_rename normpath from0 to0 v =
     or_return (vfs_validate_path v from0) v (\<lambda>_.
     or_return (vfs_validate_path v to0) v (\<lambda>_.
       let from = normalize_vfs_path normpath from0; to = normalize_vfs_path normpath to0 in
       case vfs_resolve normpath v from of (from_fs, from_resolved) \<Rightarrow>
       case vfs_resolve normpath v to of (to_fs, to_resolved) \<Rightarrow>
         and_run
           (if arc_id from_fs = arc_id to_fs
            then on_world (fs_rename (arc_fs from_fs) from_resolved to_resolved) v
            else and_run
                   (vfs_transfer (arc_fs from_fs) from_resolved (arc_fs to_fs) to_resolved v)
                   (\<lambda>_ v. on_world (fs_remove (arc_fs from_fs) from_resolved False) v))
           (\<lambda>_ v. (Inr (), vfs_record RenameMutation from (Some to) v))))"

definition vfs_copy ::
  "(path \<Rightarrow> path) \<Rightarrow> path \<Rightarrow> path \<Rightarrow> 'w verlet_vfs \<Rightarrow> unit bashkit_result \<times> 'w verlet_vfs" where
  "vfs_copy normpath from0 to0 v =
     or_return (vfs_validate_path v from0) v (\<lambda>_.
     or_return (vfs_validate_path v to0) v (\<lambda>_.
       let from = normalize_vfs_path normpath from0; to = normalize_vfs_path normpath to0 in
       case vfs_resolve normpath v from of (from_fs, from_resolved) \<Rightarrow>
       case vfs_resolve normpath v to of (to_fs, to_resolved) \<Rightarrow>
         and_run
           (if arc_id from_fs = arc_id to_fs
            then on_world (fs_copy (arc_fs from_fs) from_resolved to_resolved) v
            else vfs_transfer (arc_fs from_fs) from_resolved (arc_fs to_fs) to_resolved v)
           (\<lambda>_ v. (Inr (), vfs_record CopyMutation from (Some to) v))))"

definition vfs_symlink ::
  "(path \<Rightarrow> path) \<Rightarrow> path \<Rightarrow> path \<Rightarrow> 'w verlet_vfs \<Rightarrow> unit bashkit_result \<times> 'w verlet_vfs" where
  "vfs_symlink normpath target link v =
     or_return (vfs_validate_path v link) v (\<lambda>_.
       case vfs_resolve normpath v link of (fs, resolved) \<Rightarrow>
         on_world (fs_symlink (arc_fs fs) target resolved) v)"

definition vfs_read_link ::
  "(path \<Rightarrow> path) \<Rightarrow> path \<Rightarrow> 'w verlet_vfs \<Rightarrow> path bashkit_result \<times> 'w verlet_vfs" where
  "vfs_read_link normpath p v =
     (case vfs_resolve normpath v p of (fs, resolved) \<Rightarrow> on_world (fs_read_link (arc_fs fs) resolved) v)"

definition vfs_chmod ::
  "(path \<Rightarrow> path) \<Rightarrow> path \<Rightarrow> u32 \<Rightarrow> 'w verlet_vfs \<Rightarrow> unit bashkit_result \<times> 'w verlet_vfs" where
  "vfs_chmod normpath p mode =
     vfs_mutate normpath ChmodMutation (\<lambda>fs resolved. fs_chmod fs resolved mode) p"

definition vfs_set_modified_time ::
  "(path \<Rightarrow> path) \<Rightarrow> path \<Rightarrow> i64 \<Rightarrow> 'w verlet_vfs \<Rightarrow> unit bashkit_result \<times> 'w verlet_vfs" where
  "vfs_set_modified_time normpath p time =
     vfs_mutate normpath SetModifiedTimeMutation (\<lambda>fs resolved. fs_set_modified_time fs resolved time) p"

text \<open>\<open>impl FileSystem for VerletVfs\<close>: what a shell session is given.\<close>

definition verlet_vfs_fs :: "(path \<Rightarrow> path) \<Rightarrow> i64 \<Rightarrow> (path \<Rightarrow> string + unit) \<Rightarrow> 'w verlet_vfs fs_ops" where
  "verlet_vfs_fs normpath now limits =
     \<lparr>fs_read_file = vfs_read_file normpath, fs_write_file = vfs_write_file normpath,
      fs_append_file = vfs_append_file normpath, fs_mkdir = vfs_mkdir normpath,
      fs_remove = vfs_remove normpath, fs_stat = vfs_stat normpath now,
      fs_read_dir = vfs_read_dir normpath now, fs_exists = vfs_exists normpath,
      fs_rename = vfs_rename normpath, fs_copy = vfs_copy normpath,
      fs_symlink = vfs_symlink normpath, fs_read_link = vfs_read_link normpath,
      fs_chmod = vfs_chmod normpath, fs_set_modified_time = vfs_set_modified_time normpath,
      fs_flush = vfs_flush, fs_validate_path = limits\<rparr>"

end
