(* ===== verification/Vfs_Safety.thy ===== *)
theory Vfs_Safety
  imports Virtual_Files
begin

section \<open>What the virtual file system guarantees\<close>

text \<open>
  A path belongs to its deepest mount; the journal lists the successful mutations in order; what is
  mounted read-only does not change; and the virtual file system keeps the read-after-write contract
  of the file systems it is made of.
\<close>

subsection \<open>Which file system a path belongs to\<close>

text \<open>The mount table as \<open>mount\<close> builds it: absolute normalized paths other than the root, once each.\<close>

definition mounts_ok :: "'w verlet_vfs \<Rightarrow> bool" where
  "mounts_ok v \<longleftrightarrow>
     bt_wf (vv_mounts v) \<and> (\<forall>p \<in> fst ` set (vv_mounts v). normal_path p \<and> p \<noteq> [RootDir])"

lemma normalize_normal: "normalizer normpath \<Longrightarrow> normal_path (normalize_vfs_path normpath p)"
  by (simp add: normalizer_def normalize_vfs_path_def)

lemma normal_path_root: "normal_path p \<Longrightarrow> has_root p"
  by (auto simp: normal_path_def has_root_def)

lemma normalize_idem:
  "normalizer normpath \<Longrightarrow>
   normalize_vfs_path normpath (normalize_vfs_path normpath p) = normalize_vfs_path normpath p"
  using normalize_normal [of normpath p]
  by (auto simp: normalizer_def normalize_vfs_path_def dest: normal_path_root)

lemma resolve_normalized:
  "normalizer normpath \<Longrightarrow>
   vfs_resolve normpath v (normalize_vfs_path normpath p) = vfs_resolve normpath v p"
  by (simp add: vfs_resolve_def normalize_idem)

lemma mount_keeps_ok:
  assumes "normalizer normpath" and "mounts_ok v"
  shows "mounts_ok (snd (vfs_mount normpath p fs v))"
proof -
  let ?path = "normalize_vfs_path normpath p"
  let ?m = "bt_insert ?path fs (vv_mounts v)"
  have keys: "q = ?path \<or> q \<in> fst ` set (vv_mounts v)" if "q \<in> fst ` set ?m" for q
    using that by simp
  have "mounts_ok (v\<lparr>vv_mounts := ?m\<rparr>)" if "?path \<noteq> [RootDir]"
    using keys assms(2) that normalize_normal [OF assms(1), of p]
    unfolding mounts_ok_def by (metis bt_wf_insert verlet_vfs.select_convs(2) verlet_vfs.surjective
        verlet_vfs.update_convs(2))
  then show ?thesis using assms(2) by (simp add: vfs_mount_def Let_def)
qed

lemma resolve_deepest:
  assumes "normalizer normpath" and "mounts_ok v"
    and "vfs_resolve normpath v p = (fs, inner)"
  defines "path \<equiv> normalize_vfs_path normpath p"
  shows "normal_path inner \<and>
    ((\<exists>m. (m, fs) \<in> set (vv_mounts v) \<and> path = m @ tl inner \<and>
        (\<forall>m' \<in> fst ` set (vv_mounts v). prefix m' path \<longrightarrow> prefix m' m)) \<or>
     (\<forall>m \<in> fst ` set (vv_mounts v). \<not> prefix m path) \<and> fs = vv_root v \<and> inner = path)"
proof -
  define best where "best = max_by_key (\<lambda>(mount_path, _). length mount_path)
    (filter (\<lambda>(mount_path, _). prefix mount_path path) (vv_mounts v))"
  have np: "normal_path path" unfolding path_def by (rule normalize_normal [OF assms(1)])
  have res: "(case best of
        Some (mount_path, fs) \<Rightarrow>
          (let relative = (case path_strip_prefix path mount_path of Some r \<Rightarrow> r | None \<Rightarrow> []) in
           (fs, if relative = [] then [RootDir] else path_join [RootDir] relative))
      | None \<Rightarrow> (vv_root v, path)) = (fs, inner)"
    using assms(3) unfolding vfs_resolve_def Let_def best_def path_def by simp
  show ?thesis
  proof (cases best)
    case None
    then have "filter (\<lambda>(mount_path, _). prefix mount_path path) (vv_mounts v) = []"
      unfolding best_def max_by_key_None .
    then have "\<forall>m \<in> fst ` set (vv_mounts v). \<not> prefix m path"
      by (auto simp: filter_empty_conv)
    then show ?thesis using None res np by simp
  next
    case (Some mf)
    then obtain m where mf: "mf = (m, fs)" using res by (auto simp: Let_def split: prod.splits)
    have mem: "(m, fs) \<in> set (vv_mounts v)" and pre: "prefix m path"
      and mx: "\<forall>x \<in> set (filter (\<lambda>(mount_path, _). prefix mount_path path) (vv_mounts v)).
        length (fst x) \<le> length m"
      using max_by_key_Some [OF Some [unfolded best_def]] by (auto simp: mf case_prod_beta)
    have deepest: "\<forall>m' \<in> fst ` set (vv_mounts v). prefix m' path \<longrightarrow> prefix m' m"
      using mx pre prefix_length_prefix [OF _ pre] by (force simp: case_prod_beta)
    obtain names where names: "path = RootDir # map Normal names" using np by (auto simp: normal_path_def)
    have "normal_path m" using assms(2) mem by (force simp: mounts_ok_def)
    then obtain ms where ms: "m = RootDir # map Normal ms" by (auto simp: normal_path_def)
    obtain rest where rest: "path = m @ rest" using pre by (auto simp: prefix_def)
    then obtain rs where rs: "rest = map Normal rs"
      using names ms by (auto simp: map_eq_append_conv)
    have strip: "path_strip_prefix path m = Some rest"
      using rest by (simp add: path_strip_prefix_def)
    have "inner = RootDir # rest"
      using res strip rs
      by (cases rs) (auto simp: Some mf Let_def path_join_def has_root_def split: prod.splits)
    then show ?thesis using mem rest deepest rs by (auto simp: normal_path_def)
  qed
qed

text \<open>
  C22. Every path belongs to exactly one file system: the one mounted at the longest mount path that
  contains it, under the rest of the path read as absolute, so that the mount path and the inner path
  give the path back; or the root file system, under the path itself, when no mount contains it.
\<close>

theorem path_belongs_to_deepest_mount:
  assumes "normalizer normpath" and "mounts_ok v"
    and "vfs_resolve normpath v p = (fs, inner)"
  defines "path \<equiv> normalize_vfs_path normpath p"
  shows "normal_path inner \<and>
    ((\<exists>m. (m, fs) \<in> set (vv_mounts v) \<and> path = m @ tl inner \<and>
        (\<forall>m' \<in> fst ` set (vv_mounts v). prefix m' path \<longrightarrow> prefix m' m)) \<or>
     (\<forall>m \<in> fst ` set (vv_mounts v). \<not> prefix m path) \<and> fs = vv_root v \<and> inner = path)"
  unfolding path_def by (rule resolve_deepest [OF assms(1-3)])

subsection \<open>Sequences of calls\<close>

datatype vfs_call =
    ReadFileCall path | WriteFileCall path string | AppendFileCall path string
  | MkdirCall path bool | RemoveCall path bool | StatCall path | ReadDirCall path | ExistsCall path
  | RenameCall path path | CopyCall path path | SymlinkCall path path | ReadLinkCall path
  | ChmodCall path u32 | SetModifiedTimeCall path i64 | FlushCall

definition outcome :: "('e + 'a) \<times> 's \<Rightarrow> bool \<times> 's" where
  "outcome r = (is_ok (fst r), snd r)"

lemma snd_outcome: "snd (outcome r) = snd r"
  by (simp add: outcome_def)

fun run_vfs_call ::
  "(path \<Rightarrow> path) \<Rightarrow> i64 \<Rightarrow> vfs_call \<Rightarrow> 'w verlet_vfs \<Rightarrow> bool \<times> 'w verlet_vfs" where
  "run_vfs_call normpath now (ReadFileCall p) v = outcome (vfs_read_file normpath p v)"
| "run_vfs_call normpath now (WriteFileCall p c) v = outcome (vfs_write_file normpath p c v)"
| "run_vfs_call normpath now (AppendFileCall p c) v = outcome (vfs_append_file normpath p c v)"
| "run_vfs_call normpath now (MkdirCall p r) v = outcome (vfs_mkdir normpath p r v)"
| "run_vfs_call normpath now (RemoveCall p r) v = outcome (vfs_remove normpath p r v)"
| "run_vfs_call normpath now (StatCall p) v = outcome (vfs_stat normpath now p v)"
| "run_vfs_call normpath now (ReadDirCall p) v = outcome (vfs_read_dir normpath now p v)"
| "run_vfs_call normpath now (ExistsCall p) v = outcome (vfs_exists normpath p v)"
| "run_vfs_call normpath now (RenameCall p q) v = outcome (vfs_rename normpath p q v)"
| "run_vfs_call normpath now (CopyCall p q) v = outcome (vfs_copy normpath p q v)"
| "run_vfs_call normpath now (SymlinkCall t p) v = outcome (vfs_symlink normpath t p v)"
| "run_vfs_call normpath now (ReadLinkCall p) v = outcome (vfs_read_link normpath p v)"
| "run_vfs_call normpath now (ChmodCall p m) v = outcome (vfs_chmod normpath p m v)"
| "run_vfs_call normpath now (SetModifiedTimeCall p t) v = outcome (vfs_set_modified_time normpath p t v)"
| "run_vfs_call normpath now FlushCall v = outcome (vfs_flush v)"

fun run_vfs_calls ::
  "(path \<Rightarrow> path) \<Rightarrow> i64 \<Rightarrow> vfs_call list \<Rightarrow> 'w verlet_vfs \<Rightarrow> bool list \<times> 'w verlet_vfs" where
  "run_vfs_calls normpath now [] v = ([], v)"
| "run_vfs_calls normpath now (c # cs) v =
     (case run_vfs_call normpath now c v of (ok, v1) \<Rightarrow>
      case run_vfs_calls normpath now cs v1 of (oks, v2) \<Rightarrow> (ok # oks, v2))"

text \<open>
  Which calls change the file system, and what the journal says of a call that succeeded.  A
  symbolic link is the one change the code makes without recording it.
\<close>

fun mutating_call :: "vfs_call \<Rightarrow> bool" where
  "mutating_call (WriteFileCall p c) = True"
| "mutating_call (AppendFileCall p c) = True"
| "mutating_call (MkdirCall p r) = True"
| "mutating_call (RemoveCall p r) = True"
| "mutating_call (RenameCall p q) = True"
| "mutating_call (CopyCall p q) = True"
| "mutating_call (SymlinkCall t p) = True"
| "mutating_call (ChmodCall p m) = True"
| "mutating_call (SetModifiedTimeCall p t) = True"
| "mutating_call (ReadFileCall p) = False"
| "mutating_call (StatCall p) = False"
| "mutating_call (ReadDirCall p) = False"
| "mutating_call (ExistsCall p) = False"
| "mutating_call (ReadLinkCall p) = False"
| "mutating_call FlushCall = False"

fun symlink_call :: "vfs_call \<Rightarrow> bool" where
  "symlink_call (SymlinkCall t p) = True"
| "symlink_call _ = False"

fun call_mutation :: "(path \<Rightarrow> path) \<Rightarrow> vfs_call \<Rightarrow> vfs_mutation option" where
  "call_mutation normpath (WriteFileCall p c) =
     Some \<lparr>vm_kind = WriteMutation, vm_path = normalize_vfs_path normpath p, vm_target = None\<rparr>"
| "call_mutation normpath (AppendFileCall p c) =
     Some \<lparr>vm_kind = AppendMutation, vm_path = normalize_vfs_path normpath p, vm_target = None\<rparr>"
| "call_mutation normpath (MkdirCall p r) =
     Some \<lparr>vm_kind = MkdirMutation, vm_path = normalize_vfs_path normpath p, vm_target = None\<rparr>"
| "call_mutation normpath (RemoveCall p r) =
     Some \<lparr>vm_kind = RemoveMutation, vm_path = normalize_vfs_path normpath p, vm_target = None\<rparr>"
| "call_mutation normpath (RenameCall p q) =
     Some \<lparr>vm_kind = RenameMutation, vm_path = normalize_vfs_path normpath p,
           vm_target = Some (normalize_vfs_path normpath q)\<rparr>"
| "call_mutation normpath (CopyCall p q) =
     Some \<lparr>vm_kind = CopyMutation, vm_path = normalize_vfs_path normpath p,
           vm_target = Some (normalize_vfs_path normpath q)\<rparr>"
| "call_mutation normpath (ChmodCall p m) =
     Some \<lparr>vm_kind = ChmodMutation, vm_path = normalize_vfs_path normpath p, vm_target = None\<rparr>"
| "call_mutation normpath (SetModifiedTimeCall p t) =
     Some \<lparr>vm_kind = SetModifiedTimeMutation, vm_path = normalize_vfs_path normpath p,
           vm_target = None\<rparr>"
| "call_mutation normpath (SymlinkCall t p) = None" \<comment> \<open>changes the file system, unrecorded\<close>
| "call_mutation normpath (ReadFileCall p) = None"
| "call_mutation normpath (StatCall p) = None"
| "call_mutation normpath (ReadDirCall p) = None"
| "call_mutation normpath (ExistsCall p) = None"
| "call_mutation normpath (ReadLinkCall p) = None"
| "call_mutation normpath FlushCall = None"

lemma call_mutation_iff: "call_mutation normpath c \<noteq> None \<longleftrightarrow> mutating_call c \<and> \<not> symlink_call c"
  by (cases c) simp_all

lemma symlink_mutating: "symlink_call c \<Longrightarrow> mutating_call c"
  by (cases c) simp_all

subsection \<open>Frames of the operations\<close>

text \<open>
  The parts of the state other than the world: what \<open>on_world\<close> keeps, what a recording operation
  adds to the journal.
\<close>

definition table :: "'w verlet_vfs \<Rightarrow> 'w fs_arc \<times> (path, 'w fs_arc) btmap \<times> vfs_mutation list" where
  "table v = (vv_root v, vv_mounts v, vv_journal v)"

lemma on_world_table [simp]: "table (snd (on_world f v)) = table v"
  by (simp add: on_world_def table_def split: prod.splits)

lemma on_world_tableE: "on_world f v = (r, v') \<Longrightarrow> table v' = table v"
  using on_world_table [of f v] by simp

lemma and_run_table:
  assumes "table (snd r) = t" and "\<And>a s. r = (Inr a, s) \<Longrightarrow> table s = t \<Longrightarrow> table (snd (f a s)) = t"
  shows "table (snd (and_run r f)) = t"
  using assms and_run_cases [of r f] by (metis snd_conv)

lemma flush_table: "table (snd (vfs_flush v)) = table v"
proof -
  have "table (snd (fold (\<lambda>mount acc. and_run acc (\<lambda>_ v. on_world (fs_flush (arc_fs mount)) v)) ms acc)) =
      table (snd acc)" for ms :: "'a fs_arc list" and acc :: "unit bashkit_result \<times> 'a verlet_vfs"
  proof (induction ms arbitrary: acc)
    case (Cons m ms)
    have "table (snd (and_run acc (\<lambda>_ v. on_world (fs_flush (arc_fs m)) v))) = table (snd acc)"
      by (rule and_run_table) simp_all
    then show ?case using Cons.IH by simp
  qed simp
  then show ?thesis unfolding vfs_flush_def by (intro and_run_table) simp_all
qed

lemma transfer_table: "table (snd (vfs_transfer f p g q v)) = table v"
proof -
  have link: "table (snd (and_run (on_world (fs_read_link f p) v)
      (\<lambda>target v. on_world (fs_symlink g target q) v))) = table v" for v
    by (rule and_run_table) simp_all
  have whole: "table (snd (and_run (on_world (fs_read_file f p) v)
      (\<lambda>content v. on_world (fs_write_file g q content) v))) = table v" for v
    by (rule and_run_table) simp_all
  show ?thesis unfolding vfs_transfer_def
    by (rule and_run_table) (simp_all add: link whole)
qed

text \<open>A recording step: on success the journal grows by the record, on failure nothing but the world changes.\<close>

definition recorded ::
  "vfs_mutation option \<Rightarrow> ('e + 'a) \<times> 'w verlet_vfs \<Rightarrow> 'w verlet_vfs \<Rightarrow> bool" where
  "recorded m r v \<longleftrightarrow>
     vv_root (snd r) = vv_root v \<and> vv_mounts (snd r) = vv_mounts v \<and>
     vv_journal (snd r) =
       vv_journal v @ (if is_ok (fst r) then case m of None \<Rightarrow> [] | Some x \<Rightarrow> [x] else [])"

lemma recorded_none: "table (snd r) = table v \<Longrightarrow> recorded None r v"
  by (simp add: recorded_def table_def)

lemma recorded_run:
  assumes "table (snd r) = table v"
  shows "recorded (Some \<lparr>vm_kind = k, vm_path = p, vm_target = t\<rparr>)
    (and_run r (\<lambda>_ v. (Inr (), vfs_record k p t v))) v"
  using assms by (cases r; cases "fst r") (auto simp: recorded_def table_def vfs_record_def)

lemma recorded_or_return:
  "(\<And>a. x = Inr a \<Longrightarrow> recorded m (f a) v) \<Longrightarrow> recorded m (or_return x v f) v"
  by (cases x) (simp_all add: recorded_def)

lemma recorded_mutate:
  "recorded (Some \<lparr>vm_kind = k, vm_path = normalize_vfs_path normpath p, vm_target = None\<rparr>)
     (vfs_mutate normpath k run p v) v"
  unfolding vfs_mutate_def
  by (rule recorded_or_return) (simp add: Let_def recorded_run split: prod.splits)

lemma recorded_rename: "recorded (call_mutation normpath (RenameCall p q)) (vfs_rename normpath p q v) v"
proof -
  have "table (snd (and_run (vfs_transfer f r g s v) (\<lambda>_ v. on_world (fs_remove f r False) v))) = table v"
    for f g :: "'a fs_ops" and r s
    by (rule and_run_table) (simp_all add: transfer_table)
  then show ?thesis unfolding vfs_rename_def
    by (intro recorded_or_return) (simp add: Let_def recorded_run split: prod.splits)
qed

lemma recorded_copy: "recorded (call_mutation normpath (CopyCall p q)) (vfs_copy normpath p q v) v"
  unfolding vfs_copy_def
  by (intro recorded_or_return) (simp add: Let_def recorded_run transfer_table split: prod.splits)

lemma recorded_call:
  "recorded (call_mutation normpath c)
     (case run_vfs_call normpath now c v of (ok, v') \<Rightarrow> (if ok then Inr () else Inl (), v')) v"
proof -
  have lift: "recorded m (case outcome r of (ok, v') \<Rightarrow> (if ok then Inr () else Inl (), v')) v"
    if "recorded m r v" for m and r :: "('e + 'b) \<times> 'a verlet_vfs"
    using that by (simp add: recorded_def outcome_def)
  have read_dir: "table (snd (vfs_read_dir normpath now p v)) = table v" for p
    by (auto simp: vfs_read_dir_def Let_def or_return_def dest: on_world_tableE
        split: prod.splits sum.splits)
  have "recorded (call_mutation normpath (ReadFileCall p)) (vfs_read_file normpath p v) v"
    "recorded (call_mutation normpath (StatCall p)) (vfs_stat normpath now p v) v"
    "recorded (call_mutation normpath (ReadDirCall p)) (vfs_read_dir normpath now p v) v"
    "recorded (call_mutation normpath (ExistsCall p)) (vfs_exists normpath p v) v"
    "recorded (call_mutation normpath (ReadLinkCall p)) (vfs_read_link normpath p v) v"
    "recorded (call_mutation normpath FlushCall) (vfs_flush v) v" for p
    using read_dir [of p]
    by (simp_all add: recorded_none flush_table vfs_read_file_def vfs_stat_def vfs_exists_def
        vfs_read_link_def Let_def split: prod.splits)
  moreover have "recorded (call_mutation normpath (SymlinkCall t p)) (vfs_symlink normpath t p v) v" for t p
    unfolding vfs_symlink_def
    by (rule recorded_or_return) (simp add: recorded_none split: prod.splits)
  ultimately show ?thesis
    by (cases c) (simp_all only: run_vfs_call.simps call_mutation.simps vfs_write_file_def
        vfs_append_file_def vfs_mkdir_def vfs_remove_def vfs_chmod_def vfs_set_modified_time_def
        recorded_mutate recorded_rename [unfolded call_mutation.simps]
        recorded_copy [unfolded call_mutation.simps] lift)
qed

text \<open>
  C21. The journal of a session is the list of its successful mutations other than symbolic links:
  after any sequence of calls it has grown by one entry for every write, append, directory creation,
  removal, rename, copy, mode and time change that succeeded, with its normalized paths, in the order
  of the calls, and by nothing for calls that failed or only read.  A symbolic link that was created
  is the one mutation without an entry: the journal is short of the successful mutations by
  exactly the number of successful \<open>symlink\<close> calls.  The mount table is the one the session started
  with.
\<close>

theorem journal_lists_mutations_except_symlinks:
  assumes "run_vfs_calls normpath now cs v = (oks, v')"
  shows "length oks = length cs \<and> vv_root v' = vv_root v \<and> vv_mounts v' = vv_mounts v \<and>
    vv_journal v' = vv_journal v @
      List.map_filter (\<lambda>(ok, c). if ok then call_mutation normpath c else None) (zip oks cs) \<and>
    length (vv_journal v') + length (filter (\<lambda>(ok, c). ok \<and> symlink_call c) (zip oks cs)) =
      length (vv_journal v) + length (filter (\<lambda>(ok, c). ok \<and> mutating_call c) (zip oks cs))"
  using assms
proof (induction cs arbitrary: v oks)
  case (Cons c cs)
  obtain ok v1 where one: "run_vfs_call normpath now c v = (ok, v1)" by fastforce
  then obtain oks' where rest: "run_vfs_calls normpath now cs v1 = (oks', v')" and oks: "oks = ok # oks'"
    using Cons.prems by (auto split: prod.splits)
  have "recorded (call_mutation normpath c) (if ok then Inr () else Inl (), v1) v"
    using recorded_call [of normpath c now v] one by simp
  then show ?case
    using Cons.IH [OF rest] oks call_mutation_iff [of normpath c] symlink_mutating [of c]
    by (cases ok; cases "call_mutation normpath c")
      (auto simp: recorded_def List.map_filter_simps)
qed (simp add: List.map_filter_simps)

subsection \<open>Read-only mounts\<close>

text \<open>
  An operation keeps a part of the world (\<open>cell\<close>) when it leaves that part as it was.  The reading
  operations of a file system and its writing operations are separate contracts.
\<close>

definition keeps :: "('w \<Rightarrow> 'c) \<Rightarrow> ('w \<Rightarrow> 'r \<times> 'w) \<Rightarrow> bool" where
  "keeps cell f \<longleftrightarrow> (\<forall>w. cell (snd (f w)) = cell w)"

definition reads_keep :: "('w \<Rightarrow> 'c) \<Rightarrow> 'w fs_ops \<Rightarrow> bool" where
  "reads_keep cell fs \<longleftrightarrow>
     (\<forall>p. keeps cell (fs_read_file fs p)) \<and> (\<forall>p. keeps cell (fs_stat fs p)) \<and>
     (\<forall>p. keeps cell (fs_read_dir fs p)) \<and> (\<forall>p. keeps cell (fs_exists fs p)) \<and>
     (\<forall>p. keeps cell (fs_read_link fs p)) \<and> keeps cell (fs_flush fs)"

definition writes_keep :: "('w \<Rightarrow> 'c) \<Rightarrow> 'w fs_ops \<Rightarrow> bool" where
  "writes_keep cell fs \<longleftrightarrow>
     (\<forall>p c. keeps cell (fs_write_file fs p c)) \<and> (\<forall>p c. keeps cell (fs_append_file fs p c)) \<and>
     (\<forall>p r. keeps cell (fs_mkdir fs p r)) \<and> (\<forall>p r. keeps cell (fs_remove fs p r)) \<and>
     (\<forall>p q. keeps cell (fs_rename fs p q)) \<and> (\<forall>p q. keeps cell (fs_copy fs p q)) \<and>
     (\<forall>t p. keeps cell (fs_symlink fs t p)) \<and> (\<forall>p m. keeps cell (fs_chmod fs p m)) \<and>
     (\<forall>p t. keeps cell (fs_set_modified_time fs p t))"

lemma read_only_keeps:
  "reads_keep cell inner \<Longrightarrow>
   reads_keep cell (read_only_file_system inner) \<and> writes_keep cell (read_only_file_system inner)"
  by (simp add: reads_keep_def writes_keep_def read_only_file_system_def keeps_def)

definition mounted :: "'w verlet_vfs \<Rightarrow> 'w fs_arc set" where
  "mounted v = insert (vv_root v) (snd ` set (vv_mounts v))"

lemma resolve_mounted: "fst (vfs_resolve normpath v p) \<in> mounted v"
proof -
  have "snd x \<in> mounted v" if "max_by_key k (filter P (vv_mounts v)) = Some x" for k :: "_ \<Rightarrow> nat" and P x
    using max_by_key_Some [OF that] by (auto simp: mounted_def)
  then show ?thesis
    by (auto simp: vfs_resolve_def Let_def mounted_def split: option.splits prod.splits)
      (metis image_eqI snd_conv)+
qed

lemma resolve_mountedD: "vfs_resolve normpath v p = (fs, r) \<Longrightarrow> fs \<in> mounted v"
  using resolve_mounted [of normpath v p] by simp

lemma mounted_table: "table v = table v' \<Longrightarrow> mounted v = mounted v'"
  by (simp add: table_def mounted_def)

lemma on_world_keeps:
  "keeps cell f \<Longrightarrow> cell (vv_world (snd (on_world f v))) = cell (vv_world v)"
  by (simp add: keeps_def on_world_def split: prod.splits) (metis snd_conv)

lemma and_run_keeps:
  "cell (vv_world (snd r)) = x \<Longrightarrow>
   (\<And>a s. r = (Inr a, s) \<Longrightarrow> cell (vv_world (snd (f a s))) = cell (vv_world s)) \<Longrightarrow>
   cell (vv_world (snd (and_run r f))) = x"
  by (cases r; cases "fst r") auto

lemma or_return_keeps:
  "(\<And>a. x = Inr a \<Longrightarrow> cell (vv_world (snd (f a))) = cell (vv_world v)) \<Longrightarrow>
   cell (vv_world (snd (or_return x v f))) = cell (vv_world v)"
  by (cases x) simp_all

lemma vfs_record_world [simp]: "vv_world (vfs_record k p t v) = vv_world v"
  by (simp add: vfs_record_def)

text \<open>All file systems of the table keep the cell.\<close>

definition table_keeps :: "('w \<Rightarrow> 'c) \<Rightarrow> 'w verlet_vfs \<Rightarrow> bool" where
  "table_keeps cell v \<longleftrightarrow>
     (\<forall>fs \<in> mounted v. reads_keep cell (arc_fs fs) \<and> writes_keep cell (arc_fs fs))"

lemma table_keeps_resolve:
  "table_keeps cell v \<Longrightarrow> vfs_resolve normpath v p = (fs, r) \<Longrightarrow>
   reads_keep cell (arc_fs fs) \<and> writes_keep cell (arc_fs fs)"
  by (simp add: table_keeps_def resolve_mountedD)

lemma mutate_keeps:
  assumes "table_keeps cell v" and "\<And>fs p. writes_keep cell fs \<Longrightarrow> keeps cell (run fs p)"
  shows "cell (vv_world (snd (vfs_mutate normpath k run p v))) = cell (vv_world v)"
proof -
  obtain fs r where res: "vfs_resolve normpath v (normalize_vfs_path normpath p) = (fs, r)" by fastforce
  have step: "keeps cell (run (arc_fs fs) r)"
    using table_keeps_resolve [OF assms(1) res] assms(2) by blast
  show ?thesis unfolding vfs_mutate_def
    by (rule or_return_keeps, simp add: Let_def res, rule and_run_keeps)
      (simp_all add: on_world_keeps step)
qed

lemma transfer_keeps:
  assumes "reads_keep cell f" "writes_keep cell g"
  shows "cell (vv_world (snd (vfs_transfer f p g q v))) = cell (vv_world v)"
proof -
  have reads: "keeps cell (fs_stat f p)" "keeps cell (fs_read_link f p)" "keeps cell (fs_read_file f p)"
    and writes: "keeps cell (fs_symlink g t q)" "keeps cell (fs_write_file g q c)" for t c
    using assms by (simp_all add: reads_keep_def writes_keep_def)
  have link: "cell (vv_world (snd (and_run (on_world (fs_read_link f p) v)
      (\<lambda>target v. on_world (fs_symlink g target q) v)))) = cell (vv_world v)" for v
    by (rule and_run_keeps) (simp_all add: on_world_keeps reads writes)
  have whole: "cell (vv_world (snd (and_run (on_world (fs_read_file f p) v)
      (\<lambda>content v. on_world (fs_write_file g q content) v)))) = cell (vv_world v)" for v
    by (rule and_run_keeps) (simp_all add: on_world_keeps reads writes)
  show ?thesis unfolding vfs_transfer_def
    by (rule and_run_keeps) (simp_all add: on_world_keeps reads link whole)
qed

lemma rename_keeps:
  assumes "table_keeps cell v"
  shows "cell (vv_world (snd (vfs_rename normpath p q v))) = cell (vv_world v)"
proof -
  obtain f r where f: "vfs_resolve normpath v (normalize_vfs_path normpath p) = (f, r)" by fastforce
  obtain g t where g: "vfs_resolve normpath v (normalize_vfs_path normpath q) = (g, t)" by fastforce
  note fk = table_keeps_resolve [OF assms f] and gk = table_keeps_resolve [OF assms g]
  have ops: "keeps cell (fs_rename (arc_fs f) r t)" "keeps cell (fs_remove (arc_fs f) r False)"
    using fk by (simp_all add: writes_keep_def)
  have move: "cell (vv_world (snd (and_run (vfs_transfer (arc_fs f) r (arc_fs g) t v)
      (\<lambda>_ v. on_world (fs_remove (arc_fs f) r False) v)))) = cell (vv_world v)"
    by (rule and_run_keeps) (simp_all add: on_world_keeps ops transfer_keeps fk gk)
  show ?thesis unfolding vfs_rename_def
    by (rule or_return_keeps, rule or_return_keeps, simp only: Let_def f g prod.case, rule and_run_keeps)
      (simp_all add: on_world_keeps ops move)
qed

lemma copy_keeps:
  assumes "table_keeps cell v"
  shows "cell (vv_world (snd (vfs_copy normpath p q v))) = cell (vv_world v)"
proof -
  obtain f r where f: "vfs_resolve normpath v (normalize_vfs_path normpath p) = (f, r)" by fastforce
  obtain g t where g: "vfs_resolve normpath v (normalize_vfs_path normpath q) = (g, t)" by fastforce
  note fk = table_keeps_resolve [OF assms f] and gk = table_keeps_resolve [OF assms g]
  have ops: "keeps cell (fs_copy (arc_fs f) r t)" using fk by (simp add: writes_keep_def)
  show ?thesis unfolding vfs_copy_def
    by (rule or_return_keeps, rule or_return_keeps, simp only: Let_def f g prod.case, rule and_run_keeps)
      (simp_all add: on_world_keeps ops transfer_keeps fk gk)
qed

lemma flush_keeps:
  assumes "\<forall>fs \<in> mounted v. keeps cell (fs_flush (arc_fs fs))"
  shows "cell (vv_world (snd (vfs_flush v))) = cell (vv_world v)"
proof -
  have flush: "keeps cell (fs_flush (arc_fs fs))" if "fs \<in> mounted v" for fs
    using assms that by blast
  have "cell (vv_world (snd (fold (\<lambda>mount acc. and_run acc (\<lambda>_ v. on_world (fs_flush (arc_fs mount)) v))
      ms acc))) = cell (vv_world (snd acc))" if "set ms \<subseteq> mounted v"
    for ms and acc :: "unit bashkit_result \<times> 'a verlet_vfs"
    using that
  proof (induction ms arbitrary: acc)
    case (Cons m ms)
    then have "m \<in> mounted v" by simp
    have "cell (vv_world (snd (and_run acc (\<lambda>_ v. on_world (fs_flush (arc_fs m)) v)))) =
        cell (vv_world (snd acc))"
      by (rule and_run_keeps) (simp_all add: on_world_keeps flush [OF \<open>m \<in> mounted v\<close>])
    then show ?case using Cons by simp
  qed simp
  note mounts = this
  have same: "vv_mounts v' = vv_mounts v" if "on_world f v = (r, v')" for f :: "'a \<Rightarrow> 'r \<times> 'a" and r v'
    using on_world_tableE [OF that] by (simp add: table_def)
  have root: "vv_root v \<in> mounted v" by (simp add: mounted_def)
  have "set (map snd (vv_mounts v)) \<subseteq> mounted v" by (auto simp: mounted_def)
  note all = mounts [OF this]
  show ?thesis unfolding vfs_flush_def
  proof (rule and_run_keeps)
    show "cell (vv_world (snd (on_world (fs_flush (arc_fs (vv_root v))) v))) = cell (vv_world v)"
      by (rule on_world_keeps) (rule flush [OF root])
  next
    fix a v'
    assume "on_world (fs_flush (arc_fs (vv_root v))) v = (Inr a, v')"
    from same [OF this] all show "cell (vv_world (snd (fold (\<lambda>mount acc. and_run acc
        (\<lambda>_ v. on_world (fs_flush (arc_fs mount)) v)) (map snd (vv_mounts v')) (Inr (), v')))) =
        cell (vv_world v')" by simp
  qed
qed

lemma call_keeps:
  assumes "table_keeps cell v"
  shows "cell (vv_world (snd (run_vfs_call normpath now c v))) = cell (vv_world v)"
proof -
  note res = table_keeps_resolve [OF assms]
  have writes: "cell (vv_world (snd (vfs_write_file normpath p s v))) = cell (vv_world v)"
    "cell (vv_world (snd (vfs_append_file normpath p s v))) = cell (vv_world v)"
    "cell (vv_world (snd (vfs_mkdir normpath p b v))) = cell (vv_world v)"
    "cell (vv_world (snd (vfs_remove normpath p b v))) = cell (vv_world v)"
    "cell (vv_world (snd (vfs_chmod normpath p m v))) = cell (vv_world v)"
    "cell (vv_world (snd (vfs_set_modified_time normpath p i v))) = cell (vv_world v)" for p s b m i
    unfolding vfs_write_file_def vfs_append_file_def vfs_mkdir_def vfs_remove_def vfs_chmod_def
      vfs_set_modified_time_def
    by (rule mutate_keeps [OF assms], simp add: writes_keep_def)+
  have link: "cell (vv_world (snd (vfs_symlink normpath t p v))) = cell (vv_world v)" for t p
    unfolding vfs_symlink_def using res
    by (intro or_return_keeps) (auto simp: on_world_keeps writes_keep_def split: prod.splits)
  have reads: "cell (vv_world (snd (vfs_read_file normpath p v))) = cell (vv_world v)"
    "cell (vv_world (snd (vfs_stat normpath now p v))) = cell (vv_world v)"
    "cell (vv_world (snd (vfs_exists normpath p v))) = cell (vv_world v)"
    "cell (vv_world (snd (vfs_read_link normpath p v))) = cell (vv_world v)" for p
    using res by (auto simp: vfs_read_file_def vfs_stat_def vfs_exists_def vfs_read_link_def Let_def
        on_world_keeps reads_keep_def split: prod.splits)
  have dir: "cell (vv_world (snd (vfs_read_dir normpath now p v))) = cell (vv_world v)" for p
  proof -
    obtain fs r where fs: "vfs_resolve normpath v (normalize_vfs_path normpath p) = (fs, r)" by fastforce
    obtain x v' where x: "on_world (fs_read_dir (arc_fs fs) r) v = (x, v')" by fastforce
    have "cell (vv_world v') = cell (vv_world v)"
      using on_world_keeps [of cell "fs_read_dir (arc_fs fs) r" v] x res [OF fs]
      by (simp add: reads_keep_def)
    moreover have "vv_world (snd (vfs_read_dir normpath now p v)) = vv_world v'"
      by (simp add: vfs_read_dir_def Let_def fs x or_return_def split: sum.splits prod.splits)
    ultimately show ?thesis by simp
  qed
  have "\<forall>fs \<in> mounted v. keeps cell (fs_flush (arc_fs fs))"
    using assms by (simp add: table_keeps_def reads_keep_def)
  note flush = flush_keeps [OF this]
  show ?thesis
    by (cases c) (simp_all only: run_vfs_call.simps snd_outcome writes link reads dir flush
        rename_keeps [OF assms] copy_keeps [OF assms])
qed

lemma call_table: "run_vfs_call normpath now c v = (ok, v') \<Longrightarrow> mounted v' = mounted v"
  using recorded_call [of normpath c now v] by (simp add: recorded_def mounted_def)

text \<open>
  C20. What is mounted read-only does not change.  Take any part of the world that the writable file
  systems of a session never touch and that the file systems behind the read-only mounts keep when they
  are only read: no sequence of calls of the session, at whatever paths and however they end, changes it.
\<close>

theorem read_only_mount_unchanged:
  assumes "\<forall>fs \<in> mounted v.
      reads_keep cell (arc_fs fs) \<and> writes_keep cell (arc_fs fs) \<or>
      (\<exists>inner. arc_fs fs = read_only_file_system inner \<and> reads_keep cell inner)"
  shows "cell (vv_world (snd (run_vfs_calls normpath now cs v))) = cell (vv_world v)"
proof -
  have "table_keeps cell v" using assms read_only_keeps by (fastforce simp: table_keeps_def)
  then show ?thesis
  proof (induction cs arbitrary: v)
    case (Cons c cs)
    obtain ok v1 where one: "run_vfs_call normpath now c v = (ok, v1)" by fastforce
    have "table_keeps cell v1"
      using Cons.prems call_table [OF one] by (simp add: table_keeps_def)
    moreover have "cell (vv_world v1) = cell (vv_world v)"
      using call_keeps [OF Cons.prems, of normpath now c] one by simp
    ultimately show ?case using Cons.IH [of v1] one by (simp add: case_prod_beta)
  qed simp
qed

subsection \<open>Reading what was written\<close>

definition reads_its_writes :: "'w fs_ops \<Rightarrow> bool" where
  "reads_its_writes fs \<longleftrightarrow>
     (\<forall>p c w w'. fs_write_file fs p c w = (Inr (), w') \<longrightarrow> fst (fs_read_file fs p w') = Inr c)"

text \<open>The virtual file system keeps the contract of its parts: a written file reads as written.\<close>

lemma vfs_reads_its_writes:
  assumes "normalizer normpath" and "\<forall>fs \<in> mounted v. reads_its_writes (arc_fs fs)"
    and "vfs_write_file normpath p c v = (Inr (), v')"
  shows "fst (vfs_read_file normpath p v') = Inr c"
proof -
  obtain fs r where res: "vfs_resolve normpath v p = (fs, r)" by fastforce
  then have res': "vfs_resolve normpath v (normalize_vfs_path normpath p) = (fs, r)"
    by (simp add: resolve_normalized [OF assms(1)])
  obtain w' where w: "fs_write_file (arc_fs fs) r c (vv_world v) = (Inr (), w')"
    and v': "vv_world v' = w'" "vv_mounts v' = vv_mounts v" "vv_root v' = vv_root v"
    using assms(3) by (auto simp: vfs_write_file_def vfs_mutate_def or_return_ok Let_def res' and_run_ok
        on_world_def vfs_record_def split: prod.splits)
  have "vfs_resolve normpath v' p = (fs, r)"
    using res v' by (simp add: vfs_resolve_def cong: option.case_cong)
  moreover have "fst (fs_read_file (arc_fs fs) r w') = Inr c"
    using assms(2) resolve_mountedD [OF res] w by (auto simp: reads_its_writes_def)
  ultimately show ?thesis
    using v' by (simp add: vfs_read_file_def on_world_def case_prod_beta)
qed

text \<open>
  What is readable in a file system: reading it, or flushing any file system of the table, does not
  change what is read.
\<close>

definition readable :: "'w verlet_vfs \<Rightarrow> 'w \<Rightarrow> 'w fs_arc \<Rightarrow> path \<Rightarrow> string bashkit_result" where
  "readable v w fs p = (if fs \<in> mounted v then fst (fs_read_file (arc_fs fs) p w) else Inr [])"

definition quiet_reads :: "'w verlet_vfs \<Rightarrow> bool" where
  "quiet_reads v \<longleftrightarrow>
     (\<forall>fs \<in> mounted v. keeps (readable v) (fs_flush (arc_fs fs)) \<and>
        (\<forall>p. keeps (readable v) (fs_read_file (arc_fs fs) p)))"

lemma readable_read:
  "fst (vfs_read_file normpath p v) =
     (case vfs_resolve normpath v p of (fs, r) \<Rightarrow> readable v (vv_world v) fs r)"
  using resolve_mounted [of normpath v p]
  by (simp add: vfs_read_file_def on_world_def readable_def case_prod_beta)

lemma quiet_flush:
  assumes "quiet_reads v"
  shows "fst (vfs_read_file normpath p (snd (vfs_flush v))) = fst (vfs_read_file normpath p v)"
proof -
  let ?v = "snd (vfs_flush v)"
  have same: "vv_mounts ?v = vv_mounts v" "vv_root ?v = vv_root v"
    using flush_table [of v] by (simp_all add: table_def)
  then have "mounted ?v = mounted v" "vfs_resolve normpath ?v p = vfs_resolve normpath v p"
    by (simp_all add: mounted_def vfs_resolve_def cong: option.case_cong)
  moreover have "readable v (vv_world ?v) = readable v (vv_world v)"
    by (rule flush_keeps) (use assms in \<open>simp add: quiet_reads_def\<close>)
  ultimately show ?thesis by (simp add: readable_read readable_def fun_eq_iff split: prod.splits)
qed

lemma quiet_read:
  assumes "quiet_reads v"
  shows "fst (vfs_read_file normpath p (snd (vfs_read_file normpath p v))) = fst (vfs_read_file normpath p v)"
proof -
  obtain fs r where res: "vfs_resolve normpath v p = (fs, r)" by fastforce
  let ?w = "snd (fs_read_file (arc_fs fs) r (vv_world v))"
  have v': "snd (vfs_read_file normpath p v) = v\<lparr>vv_world := ?w\<rparr>"
    by (simp add: vfs_read_file_def res on_world_def case_prod_beta)
  have "readable v ?w = readable v (vv_world v)"
    using assms resolve_mountedD [OF res] by (auto simp: quiet_reads_def keeps_def)
  from fun_cong [OF fun_cong [OF this, of fs], of r] show ?thesis
    using resolve_mountedD [OF res] res
    by (simp add: v' vfs_read_file_def on_world_def readable_def case_prod_beta vfs_resolve_def
        cong: option.case_cong)
qed

subsection \<open>Two file systems in one world\<close>

text \<open>
  File systems of plain files, one per index, that only read and write: an instance at which the
  contracts above hold.
\<close>

type_synonym files = "nat \<Rightarrow> path \<Rightarrow> string option"

definition plain_fs :: "nat \<Rightarrow> files fs_ops" where
  "plain_fs i =
     \<lparr>fs_read_file = (\<lambda>p w. (case w i p of None \<Rightarrow> Inl (BashkitIo NotFound ''missing'') | Some c \<Rightarrow> Inr c, w)),
      fs_write_file = (\<lambda>p c w. (Inr (), w(i := (w i)(p \<mapsto> c)))),
      fs_append_file = (\<lambda>p c w. (Inl (BashkitOther ''unsupported''), w)),
      fs_mkdir = (\<lambda>p r w. (Inr (), w)),
      fs_remove = (\<lambda>p r w. (Inr (), w(i := (w i)(p := None)))),
      fs_stat = (\<lambda>p w. (case w i p of None \<Rightarrow> Inl (BashkitIo NotFound ''missing'')
        | Some c \<Rightarrow> Inr \<lparr>md_file_type = RegularFile, md_size = of_nat (length c), md_mode = 420,
            md_modified = 0, md_created = 0\<rparr>, w)),
      fs_read_dir = (\<lambda>p w. (Inr [], w)),
      fs_exists = (\<lambda>p w. (Inr (w i p \<noteq> None), w)),
      fs_rename = (\<lambda>p q w. (Inl (BashkitOther ''unsupported''), w)),
      fs_copy = (\<lambda>p q w. (Inl (BashkitOther ''unsupported''), w)),
      fs_symlink = (\<lambda>t p w. (Inl (BashkitOther ''unsupported''), w)),
      fs_read_link = (\<lambda>p w. (Inl (BashkitOther ''unsupported''), w)),
      fs_chmod = (\<lambda>p m w. (Inr (), w)),
      fs_set_modified_time = (\<lambda>p t w. (Inr (), w)),
      fs_flush = (\<lambda>w. (Inr (), w)),
      fs_validate_path = (\<lambda>p. Inr ())\<rparr>"

lemma plain_fs_keeps_others: "i \<noteq> j \<Longrightarrow> reads_keep (\<lambda>w. w j) (plain_fs i) \<and> writes_keep (\<lambda>w. w j) (plain_fs i)"
  by (simp add: reads_keep_def writes_keep_def plain_fs_def keeps_def)

lemma plain_fs_reads_keep: "reads_keep (\<lambda>w. w i) (plain_fs i)"
  by (simp add: reads_keep_def plain_fs_def keeps_def)

lemma plain_fs_reads_its_writes: "reads_its_writes (plain_fs i)"
  by (simp add: reads_its_writes_def plain_fs_def)

text \<open>A normalizer that drops \<open>.\<close> and resolves \<open>..\<close>.\<close>

fun lexical_names :: "string list \<Rightarrow> path \<Rightarrow> string list" where
  "lexical_names acc [] = rev acc"
| "lexical_names acc (RootDir # p) = lexical_names [] p"
| "lexical_names acc (CurDir # p) = lexical_names acc p"
| "lexical_names acc (ParentDir # p) = lexical_names (drop 1 acc) p"
| "lexical_names acc (Normal s # p) = lexical_names (s # acc) p"

definition lexical_path :: "path \<Rightarrow> path" where
  "lexical_path p = RootDir # map Normal (lexical_names [] p)"

lemma lexical_names_normal: "lexical_names acc (map Normal names) = rev acc @ names"
  by (induction names arbitrary: acc) simp_all

lemma lexical_path_normalizer: "normalizer lexical_path"
  by (auto simp: normalizer_def normal_path_def lexical_path_def lexical_names_normal)

definition sample_vfs :: "files verlet_vfs" where
  "sample_vfs =
     \<lparr>vv_root = \<lparr>arc_id = 0, arc_fs = plain_fs 0\<rparr>,
      vv_mounts = [([RootDir, Normal ''skills''],
                    \<lparr>arc_id = 1, arc_fs = read_only_file_system (plain_fs 1)\<rparr>)],
      vv_journal = [], vv_world = (\<lambda>i p. if i = 1 \<and> p = [RootDir, Normal ''a''] then Some ''s'' else None)\<rparr>"

lemma sample_mounts_ok: "mounts_ok sample_vfs"
  by (simp add: mounts_ok_def sample_vfs_def bt_wf_def normal_path_def)
    (rule exI [of _ "[''skills'']"], simp)

theorem path_belongs_to_deepest_mount_witness:
  "normal_path [RootDir, Normal ''a''] \<and>
   (\<exists>m fs. (m, fs) \<in> set (vv_mounts sample_vfs) \<and>
      normalize_vfs_path lexical_path [Normal ''skills'', CurDir, Normal ''a''] = m @ [Normal ''a''])"
proof -
  let ?p = "[Normal ''skills'', CurDir, Normal ''a'']"
  have path: "normalize_vfs_path lexical_path ?p = [RootDir, Normal ''skills'', Normal ''a'']"
    by (simp add: normalize_vfs_path_def has_root_def path_join_def lexical_path_def)
  have "vfs_resolve lexical_path sample_vfs ?p =
      (\<lparr>arc_id = 1, arc_fs = read_only_file_system (plain_fs 1)\<rparr>, [RootDir, Normal ''a''])"
    by (simp add: vfs_resolve_def path sample_vfs_def path_strip_prefix_def
        path_join_def has_root_def)
  from path_belongs_to_deepest_mount [OF lexical_path_normalizer sample_mounts_ok this]
  show ?thesis unfolding path by (auto simp: sample_vfs_def)
qed

theorem journal_lists_mutations_except_symlinks_witness:
  "vv_journal (snd (run_vfs_calls lexical_path 0
      [WriteFileCall [RootDir, Normal ''skills'', Normal ''a''] ''x'', MkdirCall [Normal ''b''] True]
      sample_vfs)) =
   [\<lparr>vm_kind = MkdirMutation, vm_path = [RootDir, Normal ''b''], vm_target = None\<rparr>]"
proof -
  let ?cs = "[WriteFileCall [RootDir, Normal ''skills'', Normal ''a''] ''x'', MkdirCall [Normal ''b''] True]"
  obtain v' where run: "run_vfs_calls lexical_path 0 ?cs sample_vfs = ([False, True], v')"
    by (simp add: outcome_def vfs_write_file_def vfs_mkdir_def vfs_mutate_def vfs_validate_path_def
        sample_vfs_def plain_fs_def normalize_vfs_path_def has_root_def lexical_path_def path_join_def
        vfs_resolve_def path_strip_prefix_def on_world_def read_only_file_system_def)
  from journal_lists_mutations_except_symlinks [OF run] run show ?thesis
    by (simp add: List.map_filter_simps sample_vfs_def normalize_vfs_path_def has_root_def
        lexical_path_def path_join_def)
qed

theorem read_only_mount_unchanged_witness:
  "vv_world (snd (run_vfs_calls lexical_path 0
      [WriteFileCall [RootDir, Normal ''skills'', Normal ''a''] ''x'',
       RemoveCall [RootDir, Normal ''skills'', Normal ''a''] False] sample_vfs)) 1 [RootDir, Normal ''a''] =
   Some ''s''"
proof -
  have "\<forall>fs \<in> mounted sample_vfs.
      reads_keep (\<lambda>w. w 1) (arc_fs fs) \<and> writes_keep (\<lambda>w. w 1) (arc_fs fs) \<or>
      (\<exists>inner. arc_fs fs = read_only_file_system inner \<and> reads_keep (\<lambda>w. w 1) inner)"
    using plain_fs_keeps_others [of 0 1] plain_fs_reads_keep [of 1]
    by (auto simp: mounted_def sample_vfs_def)
  then have "vv_world (snd (run_vfs_calls lexical_path 0
      [WriteFileCall [RootDir, Normal ''skills'', Normal ''a''] ''x'',
       RemoveCall [RootDir, Normal ''skills'', Normal ''a''] False] sample_vfs)) 1 = vv_world sample_vfs 1"
    by (rule read_only_mount_unchanged)
  moreover have "vv_world sample_vfs 1 [RootDir, Normal ''a''] = Some ''s''" by (simp add: sample_vfs_def)
  ultimately show ?thesis by metis
qed

end
