(* ===== verification/Virtual_Shell.thy ===== *)
theory Virtual_Shell
  imports Output_Capture Vfs_Safety
begin

section \<open>The file side of a shell session\<close>

text \<open>
  \<^verbatim>\<open>src/crates/verlet-vbash/src/lib.rs\<close> and \<^verbatim>\<open>harness.rs\<close>: the mounts of a session, their validation and
  installation, the writes an external command reports, and the spill file; and from
  \<^verbatim>\<open>src/crates/verlet-kernel/src/capabilities/execution.rs\<close> the presentation of a command's output and
  the name of its spill file.  The creation of a backend (\<open>new_backend\<close>), the identity of a new \<open>Arc\<close>
  (\<open>fresh_arc\<close>), the printed form of paths and errors and the SHA-256 digest are arguments.
\<close>

subsection \<open>Mounts and routing\<close>

datatype virtual_mount_mode = ReadWrite | ReadOnly

datatype 'c virtual_mount_backend = MemoryBackend | ObjectStoreBackend 'c

record virtual_file =
  vf_path :: path
  vf_content :: string

record 'c virtual_mount =
  vmt_path :: path
  vmt_mode :: virtual_mount_mode
  vmt_backend :: "'c virtual_mount_backend"
  vmt_files :: "virtual_file list"

definition mount_writable :: "path \<Rightarrow> 'c virtual_mount" where
  "mount_writable p =
     \<lparr>vmt_path = p, vmt_mode = ReadWrite, vmt_backend = MemoryBackend, vmt_files = []\<rparr>"

definition mount_readonly :: "path \<Rightarrow> virtual_file list \<Rightarrow> 'c virtual_mount" where
  "mount_readonly p files =
     \<lparr>vmt_path = p, vmt_mode = ReadOnly, vmt_backend = MemoryBackend, vmt_files = files\<rparr>"

definition mount_object_store :: "path \<Rightarrow> 'c \<Rightarrow> 'c virtual_mount" where
  "mount_object_store p config =
     \<lparr>vmt_path = p, vmt_mode = ReadWrite, vmt_backend = ObjectStoreBackend config, vmt_files = []\<rparr>"

definition mount_readonly_object_store :: "path \<Rightarrow> 'c \<Rightarrow> 'c virtual_mount" where
  "mount_readonly_object_store p config =
     \<lparr>vmt_path = p, vmt_mode = ReadOnly, vmt_backend = ObjectStoreBackend config, vmt_files = []\<rparr>"

definition mount_with_file :: "path \<Rightarrow> string \<Rightarrow> 'c virtual_mount \<Rightarrow> 'c virtual_mount" where
  "mount_with_file p content m =
     m\<lparr>vmt_files := vmt_files m @ [\<lparr>vf_path = p, vf_content = content\<rparr>]\<rparr>"

definition default_virtual_mounts :: "'c virtual_mount list" where
  "default_virtual_mounts =
     [mount_writable (path_of_string ''/workspace''),
      mount_writable (path_of_string ''/tmp''),
      mount_writable (path_of_string ''/files''),
      mount_writable (path_of_string ''/my''),
      mount_writable (path_of_string ''/livingapp''),
      mount_readonly (path_of_string ''/skills'')
        [\<lparr>vf_path = path_of_string ''/README.md'',
          vf_content = ''Verlet virtual bash skills mount'' @ newline\<rparr>]]"

datatype virtual_bash_error = RuntimeFactoryError string | RuntimeExecutionError string

definition absolute_mount_path :: "(path \<Rightarrow> path) \<Rightarrow> path \<Rightarrow> path" where
  "absolute_mount_path normpath p =
     (if has_root p then normpath p else normpath (path_join [RootDir] p))"

fun validate_mounts_from ::
  "(path \<Rightarrow> path) \<Rightarrow> (path \<Rightarrow> string) \<Rightarrow> path set \<Rightarrow> 'c virtual_mount list \<Rightarrow> virtual_bash_error + unit" where
  "validate_mounts_from normpath display seen [] = Inr ()"
| "validate_mounts_from normpath display seen (mount # mounts) =
     (if \<not> has_root (vmt_path mount)
      then Inl (RuntimeFactoryError (''virtual mount path must be absolute: '' @ display (vmt_path mount)))
      else let normalized = normpath (vmt_path mount) in
        if normalized = [RootDir] then Inl (RuntimeFactoryError ''virtual mount path must not be /'')
        else if prefix [RootDir, Normal ''spill''] normalized
        then Inl (RuntimeFactoryError
          ''virtual mount path /spill and its descendants are reserved for tool output spill'')
        else if normalized \<in> seen
        then Inl (RuntimeFactoryError (''duplicate virtual mount path: '' @ display normalized))
        else validate_mounts_from normpath display (insert normalized seen) mounts)"

definition validate_mounts ::
  "(path \<Rightarrow> path) \<Rightarrow> (path \<Rightarrow> string) \<Rightarrow> 'c virtual_mount list \<Rightarrow> virtual_bash_error + unit" where
  "validate_mounts normpath display mounts = validate_mounts_from normpath display {} mounts"

definition execution_error :: "(bashkit_error \<Rightarrow> string) \<Rightarrow> 'a bashkit_result \<Rightarrow> virtual_bash_error + 'a" where
  "execution_error show_error r =
     (case r of Inl e \<Rightarrow> Inl (RuntimeExecutionError (show_error e)) | Inr a \<Rightarrow> Inr a)"

definition map_execution_error ::
  "(bashkit_error \<Rightarrow> string) \<Rightarrow> 'a bashkit_result \<times> 's \<Rightarrow> (virtual_bash_error + 'a) \<times> 's" where
  "map_execution_error show_error r = (execution_error show_error (fst r), snd r)"

text \<open>The files a mount starts with, written before the mount is made read-only.\<close>

fun write_mount_files ::
  "(path \<Rightarrow> path) \<Rightarrow> (bashkit_error \<Rightarrow> string) \<Rightarrow> 'w fs_ops \<Rightarrow> virtual_mount_mode \<Rightarrow> virtual_file list \<Rightarrow>
   'w \<Rightarrow> (virtual_bash_error + unit) \<times> 'w" where
  "write_mount_files normpath show_error fs mode [] w = (Inr (), w)"
| "write_mount_files normpath show_error fs mode (f # files) w =
     (let path = absolute_mount_path normpath (vf_path f);
          bits = (case mode of ReadWrite \<Rightarrow> 6 * 64 + 4 * 8 + 4 | ReadOnly \<Rightarrow> 4 * 64 + 4 * 8 + 4) in
      and_run (map_execution_error show_error (fs_write_file fs path (vf_content f) w)) (\<lambda>_ w.
      and_run (map_execution_error show_error (fs_chmod fs path bits w)) (\<lambda>_ w.
      write_mount_files normpath show_error fs mode files w)))"

definition install_mount ::
  "(path \<Rightarrow> path) \<Rightarrow> (bashkit_error \<Rightarrow> string) \<Rightarrow>
   ('c virtual_mount_backend \<Rightarrow> 'w \<Rightarrow> 'w fs_arc bashkit_result \<times> 'w) \<Rightarrow> ('w \<Rightarrow> nat) \<Rightarrow> bool \<Rightarrow>
   'c virtual_mount \<Rightarrow> 'w verlet_vfs \<Rightarrow> (virtual_bash_error + unit) \<times> 'w verlet_vfs" where
  "install_mount normpath show_error new_backend fresh_arc uses_shared_workspace_vfs mount v =
     (if uses_shared_workspace_vfs \<and> has_mount normpath v (vmt_path mount) then (Inr (), v)
      else
        and_run (map_execution_error show_error (on_world (new_backend (vmt_backend mount)) v)) (\<lambda>fs v.
        and_run (on_world (write_mount_files normpath show_error (arc_fs fs) (vmt_mode mount)
            (vmt_files mount)) v) (\<lambda>_ v.
          let fs' = (case vmt_mode mount of
                ReadWrite \<Rightarrow> fs
              | ReadOnly \<Rightarrow> \<lparr>arc_id = fresh_arc (vv_world v),
                             arc_fs = read_only_file_system (arc_fs fs)\<rparr>) in
          map_execution_error show_error (vfs_mount normpath (vmt_path mount) fs' v))))"

fun install_mounts ::
  "(path \<Rightarrow> path) \<Rightarrow> (bashkit_error \<Rightarrow> string) \<Rightarrow>
   ('c virtual_mount_backend \<Rightarrow> 'w \<Rightarrow> 'w fs_arc bashkit_result \<times> 'w) \<Rightarrow> ('w \<Rightarrow> nat) \<Rightarrow> bool \<Rightarrow>
   'c virtual_mount list \<Rightarrow> 'w verlet_vfs \<Rightarrow> (virtual_bash_error + unit) \<times> 'w verlet_vfs" where
  "install_mounts normpath show_error new_backend fresh_arc shared [] v = (Inr (), v)"
| "install_mounts normpath show_error new_backend fresh_arc shared (m # ms) v =
     and_run (install_mount normpath show_error new_backend fresh_arc shared m v) (\<lambda>_ v.
       install_mounts normpath show_error new_backend fresh_arc shared ms v)"

text \<open>
  The file system part of \<open>BashkitExecutionHarness::new\<close>: a shared workspace keeps its mounts, a
  session of its own starts from an empty table over the in-memory root given as \<open>root\<close>.
\<close>

definition harness_vfs ::
  "(path \<Rightarrow> path) \<Rightarrow> (path \<Rightarrow> string) \<Rightarrow> (bashkit_error \<Rightarrow> string) \<Rightarrow>
   ('c virtual_mount_backend \<Rightarrow> 'w \<Rightarrow> 'w fs_arc bashkit_result \<times> 'w) \<Rightarrow> ('w \<Rightarrow> nat) \<Rightarrow>
   'w verlet_vfs option \<Rightarrow> 'w fs_arc \<Rightarrow> 'w \<Rightarrow> 'c virtual_mount list \<Rightarrow> virtual_bash_error + 'w verlet_vfs" where
  "harness_vfs normpath display show_error new_backend fresh_arc workspace_vfs root w mounts =
     and_then (validate_mounts normpath display mounts) (\<lambda>_.
       let v = (case workspace_vfs of Some v \<Rightarrow> v | None \<Rightarrow> verlet_vfs_new root w) in
       case install_mounts normpath show_error new_backend fresh_arc (workspace_vfs \<noteq> None) mounts v of
         (Inl e, v) \<Rightarrow> Inl e
       | (Inr u, v) \<Rightarrow> Inr v)"

subsection \<open>Writes reported by an external command\<close>

definition validate_external_file_write ::
  "(path \<Rightarrow> path) \<Rightarrow> (path \<Rightarrow> string) \<Rightarrow> path \<Rightarrow> virtual_bash_error + unit" where
  "validate_external_file_write normpath display p =
     (let normalized = absolute_mount_path normpath p in
      if normalized \<noteq> p
      then Inl (RuntimeExecutionError (''external file write path must be normalized: '' @ display p))
      else if normalized = [RootDir]
      then Inl (RuntimeExecutionError ''external file write path must not be /'')
      else Inr ())"

fun apply_external_file_writes ::
  "(path \<Rightarrow> path) \<Rightarrow> (path \<Rightarrow> string) \<Rightarrow> (bashkit_error \<Rightarrow> string) \<Rightarrow> 'w fs_ops \<Rightarrow> (path \<times> string) list \<Rightarrow>
   'w \<Rightarrow> (virtual_bash_error + unit) \<times> 'w" where
  "apply_external_file_writes normpath display show_error fs [] w = (Inr (), w)"
| "apply_external_file_writes normpath display show_error fs ((p, content) # writes) w =
     or_return (validate_external_file_write normpath display p) w (\<lambda>_.
       and_run (map_execution_error show_error (fs_write_file fs p content w)) (\<lambda>_ w.
         apply_external_file_writes normpath display show_error fs writes w))"

subsection \<open>Spill files\<close>

definition spill_dir :: path where
  "spill_dir = [RootDir, Normal ''spill'']"

definition write_spill_file_if_available ::
  "(path \<Rightarrow> path) \<Rightarrow> (bashkit_error \<Rightarrow> string) \<Rightarrow> path \<Rightarrow> string \<Rightarrow> 'w verlet_vfs \<Rightarrow>
   (virtual_bash_error + bool) \<times> 'w verlet_vfs" where
  "write_spill_file_if_available normpath show_error path content v =
     map_execution_error show_error
       (and_run (vfs_mkdir normpath spill_dir True v) (\<lambda>_ v.
        and_run (vfs_exists normpath path v) (\<lambda>present v.
          if present then
            and_run (vfs_read_file normpath path v) (\<lambda>existing v.
            and_run (vfs_flush v) (\<lambda>_ v. (Inr (existing = content), v)))
          else
            and_run (vfs_write_file normpath path content v) (\<lambda>_ v.
            and_run (vfs_flush v) (\<lambda>_ v. (Inr True, v))))))"

record tool_output_spill_receipt =
  tosr_path :: string
  tosr_total_bytes :: nat
  tosr_preview_bytes :: nat
  tosr_retention_truncated :: bool

definition present_output_stream ::
  "(path \<Rightarrow> path) \<Rightarrow> (bashkit_error \<Rightarrow> string) \<Rightarrow> string \<Rightarrow> nat \<Rightarrow> bool \<Rightarrow> string \<Rightarrow> 'w verlet_vfs \<Rightarrow>
   (string \<times> tool_output_spill_receipt option \<times> bool) \<times> 'w verlet_vfs" where
  "present_output_stream normpath show_error raw max_output_bytes retention_truncated path v =
     (case plan_output_overflow raw max_output_bytes retention_truncated path of
        InlinePlan content \<Rightarrow> ((content, None, False), v)
      | SpillPlan plan \<Rightarrow>
          (case write_spill_file_if_available normpath show_error (path_of_string (sp_path plan))
                  (sp_raw plan) v of
             (Inr True, v) \<Rightarrow>
               ((format_spill_stub plan,
                 Some \<lparr>tosr_path = sp_path plan, tosr_total_bytes = sp_total_bytes plan,
                       tosr_preview_bytes = sp_preview_bytes plan,
                       tosr_retention_truncated = sp_retention_truncated plan\<rparr>, True), v)
           | (_, v) \<Rightarrow>
               ((build_emergency_spill_stub (sp_raw plan) (sp_path plan) (sp_retention_truncated plan),
                 None, True), v)))"

subsection \<open>Validated mounts\<close>

definition mount_paths_ok :: "(path \<Rightarrow> path) \<Rightarrow> 'c virtual_mount list \<Rightarrow> bool" where
  "mount_paths_ok normpath mounts \<longleftrightarrow>
     distinct (map (\<lambda>m. normpath (vmt_path m)) mounts) \<and>
     (\<forall>m \<in> set mounts. has_root (vmt_path m) \<and> normpath (vmt_path m) \<noteq> [RootDir] \<and>
        \<not> prefix spill_dir (normpath (vmt_path m)))"

lemma validate_mounts_from_iff:
  "validate_mounts_from normpath display seen mounts = Inr () \<longleftrightarrow>
   mount_paths_ok normpath mounts \<and> (\<forall>m \<in> set mounts. normpath (vmt_path m) \<notin> seen)"
proof (induction mounts arbitrary: seen)
  case (Cons m ms)
  show ?case
    unfolding validate_mounts_from.simps Let_def
    by (simp add: Cons.IH) (auto simp: mount_paths_ok_def spill_dir_def, metis image_eqI)
qed (simp add: mount_paths_ok_def)

lemma validate_mounts_iff:
  "validate_mounts normpath display mounts = Inr () \<longleftrightarrow> mount_paths_ok normpath mounts"
  by (simp add: validate_mounts_def validate_mounts_from_iff)

lemma map_execution_error_snd [simp]: "snd (map_execution_error show_error r) = snd r"
  by (simp add: map_execution_error_def)

lemma map_execution_error_ok:
  "map_execution_error show_error r = (Inr a, s) \<longleftrightarrow> r = (Inr a, s)"
  by (cases r; cases "fst r") (auto simp: map_execution_error_def execution_error_def)

text \<open>What installing a mount does to the table: one entry under the normalized path.\<close>

lemma install_mount_table:
  assumes "install_mount normpath show_error new_backend fresh_arc shared m v = (Inr (), v')"
  shows "vv_root v' = vv_root v \<and>
    (v' = v \<or> has_root (vmt_path m) \<and> normpath (vmt_path m) \<noteq> [RootDir] \<and>
      (\<exists>fs. vv_mounts v' = bt_insert (normpath (vmt_path m)) fs (vv_mounts v)))"
proof (cases "shared \<and> has_mount normpath v (vmt_path m)")
  case True
  then show ?thesis using assms by (simp add: install_mount_def)
next
  case False
  then obtain fs v1 v2 fs' where
    step: "on_world (new_backend (vmt_backend m)) v = (Inr fs, v1)"
      "on_world (write_mount_files normpath show_error (arc_fs fs) (vmt_mode m) (vmt_files m)) v1 = (Inr (), v2)"
      "vfs_mount normpath (vmt_path m) fs' v2 = (Inr (), v')"
    using assms
    by (auto simp: install_mount_def Let_def and_run_ok map_execution_error_ok)
  have "vv_root v2 = vv_root v" "vv_mounts v2 = vv_mounts v"
    using on_world_tableE [OF step(1)] on_world_tableE [OF step(2)] by (simp_all add: table_def)
  then show ?thesis
    using step(3) by (auto simp: vfs_mount_def Let_def normalize_vfs_path_def split: if_splits)
qed

lemma install_mounts_table:
  assumes "install_mounts normpath show_error new_backend fresh_arc shared ms v = (Inr (), v')"
    and "normalizer normpath" and "mounts_ok v"
  shows "vv_root v' = vv_root v \<and> mounts_ok v' \<and>
    fst ` set (vv_mounts v') \<subseteq> fst ` set (vv_mounts v) \<union> (\<lambda>m. normpath (vmt_path m)) ` set ms"
  using assms(1,3)
proof (induction ms arbitrary: v)
  case (Cons m ms)
  then obtain v1 where one: "install_mount normpath show_error new_backend fresh_arc shared m v = (Inr (), v1)"
    and rest: "install_mounts normpath show_error new_backend fresh_arc shared ms v1 = (Inr (), v')"
    by (auto simp: and_run_ok)
  note tab = install_mount_table [OF one]
  have normal: "normal_path (normpath (vmt_path m))" using assms(2) by (simp add: normalizer_def)
  have keys: "fst ` set (vv_mounts v1) \<subseteq> insert (normpath (vmt_path m)) (fst ` set (vv_mounts v)) \<and>
      bt_wf (vv_mounts v1)"
  proof (cases "v1 = v")
    case False
    then obtain fs where fs: "vv_mounts v1 = bt_insert (normpath (vmt_path m)) fs (vv_mounts v)"
      using tab by blast
    show ?thesis unfolding fs set_keys_bt_insert using Cons.prems(2) by (simp add: mounts_ok_def)
  qed (use Cons.prems(2) in \<open>auto simp: mounts_ok_def\<close>)
  have "mounts_ok v1"
  proof (cases "v1 = v")
    case False
    then have "normpath (vmt_path m) \<noteq> [RootDir]" using tab by blast
    then have "\<forall>q \<in> insert (normpath (vmt_path m)) (fst ` set (vv_mounts v)). normal_path q \<and> q \<noteq> [RootDir]"
      using normal Cons.prems(2) by (simp add: mounts_ok_def)
    then have "\<forall>q \<in> fst ` set (vv_mounts v1). normal_path q \<and> q \<noteq> [RootDir]"
      using conjunct1 [OF keys] by (rule ballI [OF bspec, OF _ subsetD])
    then show ?thesis using conjunct2 [OF keys] by (simp only: mounts_ok_def simp_thms)
  qed (use Cons.prems(2) in simp)
  note ih = Cons.IH [OF rest this]
  have "fst ` set (vv_mounts v1) \<union> (\<lambda>m. normpath (vmt_path m)) ` set ms \<subseteq>
      fst ` set (vv_mounts v) \<union> (\<lambda>m. normpath (vmt_path m)) ` set (m # ms)"
    by (intro Un_least subset_trans [OF conjunct1 [OF keys]]) auto
  with ih have "fst ` set (vv_mounts v') \<subseteq>
      fst ` set (vv_mounts v) \<union> (\<lambda>m. normpath (vmt_path m)) ` set (m # ms)"
    by (meson subset_trans)
  then show ?case using ih tab by simp
qed simp

text \<open>
  C24. Mounts cannot take over the spill directory.  When a session of its own is set up, every path
  under \<open>/spill\<close>, however it is spelled, belongs to the root file system of the session under its
  normalized path: no accepted mount contains it.
\<close>

theorem spill_directory_not_mounted:
  assumes "normalizer normpath"
    and "harness_vfs normpath display show_error new_backend fresh_arc None root w mounts = Inr v"
    and "prefix spill_dir (normalize_vfs_path normpath p)"
  shows "vfs_resolve normpath v p = (root, normalize_vfs_path normpath p)"
proof -
  have valid: "mount_paths_ok normpath mounts"
    and run: "install_mounts normpath show_error new_backend fresh_arc False mounts (verlet_vfs_new root w) =
      (Inr (), v)"
    using assms(2) by (auto simp: harness_vfs_def and_then_eq_Inr Let_def validate_mounts_iff
        split: prod.splits sum.splits)
  have "mounts_ok (verlet_vfs_new root w)" by (simp add: mounts_ok_def verlet_vfs_new_def)
  note tab = install_mounts_table [OF run assms(1) this]
  have none: "\<not> prefix k (normalize_vfs_path normpath p)" if k: "k \<in> fst ` set (vv_mounts v)" for k
  proof
    assume "prefix k (normalize_vfs_path normpath p)"
    then have "prefix k spill_dir \<or> prefix spill_dir k"
      using assms(3) prefix_same_cases by blast
    moreover have "\<not> prefix spill_dir k"
      using k tab valid by (auto simp: mount_paths_ok_def verlet_vfs_new_def)
    moreover have "normal_path k" "k \<noteq> [RootDir]" using k tab unfolding mounts_ok_def by blast+
    ultimately show False by (auto simp: spill_dir_def prefix_Cons normal_path_def)
  qed
  obtain fs r where res: "vfs_resolve normpath v p = (fs, r)" by fastforce
  have ok: "mounts_ok v" using tab by blast
  have "fs = vv_root v \<and> r = normalize_vfs_path normpath p"
  proof (rule ccontr)
    assume "\<not> ?thesis"
    then obtain m where "(m, fs) \<in> set (vv_mounts v)" "normalize_vfs_path normpath p = m @ tl r"
      using resolve_deepest [OF assms(1) ok res] by blast
    then show False using none [of m] by (force simp: prefix_def)
  qed
  then show ?thesis using res tab by (simp add: verlet_vfs_new_def)
qed

subsection \<open>Output that was spilled\<close>

lemma recorded_mounted: "recorded m r v \<Longrightarrow> mounted (snd r) = mounted v"
  by (simp add: recorded_def mounted_def)

lemma quiet_reads_mounted: "mounted v = mounted v' \<Longrightarrow> quiet_reads v = quiet_reads v'"
  by (simp add: quiet_reads_def keeps_def readable_def fun_eq_iff)

lemma vfs_ops_mounted:
  "mounted (snd (vfs_mkdir normpath p b v)) = mounted v"
  "mounted (snd (vfs_write_file normpath p c v)) = mounted v"
  "mounted (snd (vfs_exists normpath p v)) = mounted v"
  "mounted (snd (vfs_read_file normpath p v)) = mounted v"
  using recorded_mutate [THEN recorded_mounted]
  by (simp_all add: vfs_mkdir_def vfs_write_file_def vfs_exists_def vfs_read_file_def Let_def
      mounted_table [OF on_world_table] split: prod.splits)

text \<open>A spill file that is reported stored reads as the bytes that were to be stored.\<close>

lemma stored_spill_reads_back:
  assumes "normalizer normpath" and "\<forall>fs \<in> mounted v. reads_its_writes (arc_fs fs)" and "quiet_reads v"
    and "write_spill_file_if_available normpath show_error p content v = (Inr True, v')"
  shows "fst (vfs_read_file normpath p v') = Inr content"
proof -
  obtain v1 present v2 where
    dir: "vfs_mkdir normpath spill_dir True v = (Inr (), v1)"
    and ex: "vfs_exists normpath p v1 = (Inr present, v2)"
    and rest: "(if present then
            and_run (vfs_read_file normpath p v2) (\<lambda>existing v.
            and_run (vfs_flush v) (\<lambda>_ v. (Inr (existing = content), v)))
          else
            and_run (vfs_write_file normpath p content v2) (\<lambda>_ v.
            and_run (vfs_flush v) (\<lambda>_ v. (Inr True, v)))) = (Inr True, v')"
    using assms(4) by (auto simp: write_spill_file_if_available_def map_execution_error_ok and_run_ok)
  have m2: "mounted v2 = mounted v"
    using vfs_ops_mounted(1) [of normpath spill_dir True v] vfs_ops_mounted(3) [of normpath p v1] dir ex by simp
  show ?thesis
  proof (cases present)
    case True
    then obtain v3 where r: "vfs_read_file normpath p v2 = (Inr content, v3)"
      and f: "vfs_flush v3 = (Inr (), v')"
      using rest by (auto simp: and_run_ok)
    have "mounted v3 = mounted v" using vfs_ops_mounted(4) [of normpath p v2] r m2 by simp
    then have "quiet_reads v3" "quiet_reads v2" using assms(3) m2 quiet_reads_mounted by blast+
    then show ?thesis
      using quiet_flush [of v3 normpath p] quiet_read [of v2 normpath p] r f by simp
  next
    case False
    then obtain v3 where wr: "vfs_write_file normpath p content v2 = (Inr (), v3)"
      and f: "vfs_flush v3 = (Inr (), v')"
      using rest by (auto simp: and_run_ok)
    have "mounted v3 = mounted v" using vfs_ops_mounted(2) [of normpath p content v2] wr m2 by simp
    then have "quiet_reads v3" using assms(3) quiet_reads_mounted by blast
    then show ?thesis
      using quiet_flush [of v3 normpath p] f vfs_reads_its_writes [OF assms(1) _ wr] assms(2) m2 by simp
  qed
qed

text \<open>
  C23. No output is lost in presenting it.  Output that fits and was not cut off is shown whole and
  nothing is written; any other output is marked as spilled, and when the result carries a receipt, the
  file it names reads as exactly the bytes that were captured, of the length the receipt states, and the
  preview is at most 16 KiB.  This holds over file systems whose files read as written and whose
  reads and flushes do not change what is read.
\<close>

theorem spilled_output_is_retrievable:
  assumes "normalizer normpath" and "\<forall>fs \<in> mounted v. reads_its_writes (arc_fs fs)" and "quiet_reads v"
    and "present_output_stream normpath show_error raw limit cut_off path v = ((shown, receipt, spilled), v')"
  shows "(spilled \<longleftrightarrow> cut_off \<or> limit < length raw) \<and>
    (\<not> spilled \<longrightarrow> shown = from_utf8_lossy raw \<and> receipt = None \<and> v' = v) \<and>
    (\<forall>r. receipt = Some r \<longrightarrow> tosr_path r = path \<and> tosr_total_bytes r = length raw \<and>
       tosr_preview_bytes r \<le> 16384 \<and> fst (vfs_read_file normpath (path_of_string path) v') = Inr raw)"
proof (cases "plan_output_overflow raw limit cut_off path")
  case (InlinePlan content)
  then show ?thesis
    using assms(4) by (auto simp: present_output_stream_def plan_output_overflow_def Let_def split: if_splits)
next
  case (SpillPlan plan)
  then have over: "cut_off \<or> limit < length raw"
    by (auto simp: plan_output_overflow_def Let_def split: if_splits)
  note plan = spill_plan_preview [OF SpillPlan]
  obtain ok v1 where wr: "write_spill_file_if_available normpath show_error (path_of_string path) raw v = (ok, v1)"
    by fastforce
  show ?thesis
  proof (cases "ok = Inr True")
    case True
    then have "fst (vfs_read_file normpath (path_of_string path) v1) = Inr raw"
      using stored_spill_reads_back [OF assms(1-3)] wr by simp
    then show ?thesis
      using assms(4) over plan True wr SpillPlan
      by (auto simp: present_output_stream_def DEFAULT_SPILL_PREVIEW_BYTES_def)
  next
    case False
    then show ?thesis
      using assms(4) over plan wr SpillPlan
      by (auto simp: present_output_stream_def split: sum.splits bool.splits)
  qed
qed

subsection \<open>A session with plain files\<close>

definition plain_backend :: "unit virtual_mount_backend \<Rightarrow> files \<Rightarrow> files fs_arc bashkit_result \<times> files" where
  "plain_backend b w = (Inr \<lparr>arc_id = 1, arc_fs = plain_fs 1\<rparr>, w)"

definition plain_root :: "files fs_arc" where
  "plain_root = \<lparr>arc_id = 0, arc_fs = plain_fs 0\<rparr>"

lemma plain_quiet:
  assumes "\<forall>fs \<in> mounted v. \<exists>i. arc_fs fs = plain_fs i"
  shows "quiet_reads v"
  using assms by (force simp: quiet_reads_def keeps_def plain_fs_def)

theorem spill_directory_not_mounted_witness:
  "\<exists>v. harness_vfs lexical_path (\<lambda>_. []) (\<lambda>_. []) plain_backend (\<lambda>_. 2) None plain_root (\<lambda>_ _. None)
      [mount_readonly [RootDir, Normal ''skills''] []] = Inr v \<and> vv_mounts v \<noteq> [] \<and>
    vfs_resolve lexical_path v [Normal ''spill'', CurDir, Normal ''a''] =
      (plain_root, [RootDir, Normal ''spill'', Normal ''a''])"
proof -
  let ?m = "[mount_readonly [RootDir, Normal ''skills''] []]"
  let ?p = "[Normal ''spill'', CurDir, Normal ''a'']"
  let ?run = "harness_vfs lexical_path (\<lambda>_. []) (\<lambda>_. []) plain_backend (\<lambda>_. 2) None plain_root (\<lambda>_ _. None) ?m"
  obtain v where run: "?run = Inr v" and tab: "vv_mounts v \<noteq> []"
    by (simp add: harness_vfs_def validate_mounts_def mount_readonly_def has_root_def lexical_path_def
        install_mount_def plain_backend_def on_world_def map_execution_error_def execution_error_def
        vfs_mount_def normalize_vfs_path_def verlet_vfs_new_def)
  have norm: "normalize_vfs_path lexical_path ?p = [RootDir, Normal ''spill'', Normal ''a'']"
    by (simp add: normalize_vfs_path_def has_root_def path_join_def lexical_path_def)
  have "prefix spill_dir (normalize_vfs_path lexical_path ?p)" unfolding norm by (simp add: spill_dir_def)
  from spill_directory_not_mounted [OF lexical_path_normalizer run this] run tab
  show ?thesis unfolding norm by blast
qed

theorem spilled_output_is_retrievable_witness:
  "\<exists>shown r v'. present_output_stream lexical_path (\<lambda>_. []) ''abc'' 2 False ''/spill/c.stdout.txt''
      (verlet_vfs_new plain_root (\<lambda>_ _. None)) = ((shown, Some r, True), v') \<and>
    fst (vfs_read_file lexical_path (path_of_string ''/spill/c.stdout.txt'') v') = Inr ''abc''"
proof -
  let ?v = "verlet_vfs_new plain_root (\<lambda>_ _. None)"
  let ?path = "''/spill/c.stdout.txt''"
  have plain: "\<forall>fs \<in> mounted ?v. \<exists>i. arc_fs fs = plain_fs i"
    by (auto simp: mounted_def verlet_vfs_new_def plain_root_def)
  then have rw: "\<forall>fs \<in> mounted ?v. reads_its_writes (arc_fs fs)"
    using plain_fs_reads_its_writes by fastforce
  have path: "path_of_string ?path = [RootDir, Normal ''spill'', Normal ''c.stdout.txt'']"
    by (simp add: path_of_string_def starts_with_def component_of_def List.map_filter_simps)
  obtain v' where wr: "write_spill_file_if_available lexical_path (\<lambda>_. []) (path_of_string ?path) ''abc'' ?v =
      (Inr True, v')"
    unfolding path
    by (simp add: write_spill_file_if_available_def map_execution_error_def execution_error_def
        vfs_mkdir_def vfs_exists_def vfs_write_file_def vfs_mutate_def vfs_flush_def vfs_validate_path_def
        vfs_resolve_def verlet_vfs_new_def plain_root_def plain_fs_def on_world_def
        vfs_record_def normalize_vfs_path_def has_root_def lexical_path_def spill_dir_def Let_def
        direct_child_mount_names_def List.map_filter_simps)
  define plan where "plan = \<lparr>sp_raw = ''abc'', sp_preview =
      from_utf8_lossy (utf8_safe_prefix ''abc'' DEFAULT_SPILL_PREVIEW_BYTES), sp_path = ?path,
      sp_total_bytes = 3, sp_preview_bytes = length (utf8_safe_prefix ''abc'' DEFAULT_SPILL_PREVIEW_BYTES),
      sp_retention_truncated = False\<rparr>"
  have "plan_output_overflow ''abc'' 2 False ?path = SpillPlan plan"
    by (simp add: plan_output_overflow_def Let_def plan_def)
  then obtain shown r where run: "present_output_stream lexical_path (\<lambda>_. []) ''abc'' 2 False ?path ?v =
      ((shown, Some r, True), v')"
    using wr by (simp add: present_output_stream_def plan_def)
  from spilled_output_is_retrievable [OF lexical_path_normalizer rw plain_quiet [OF plain] run] run
  show ?thesis by blast
qed

end
