(* ===== verification/Spill_Paths.thy ===== *)
theory Spill_Paths
  imports Virtual_Files
begin

section \<open>The name of a spill file\<close>

text \<open>
  \<^verbatim>\<open>src/crates/verlet-kernel/src/capabilities/execution.rs\<close>, \<open>spill_path\<close>: the file a tool call's
  output spills to is named after the call.  An identifier with other characters than letters, digits,
  \<open>-\<close> and \<open>_\<close> is encoded, and one whose safe form is long is cut and completed with its SHA-256 digest
  (\<open>sha256\<close>, an argument).
\<close>

subsection \<open>Definitions\<close>

definition is_ascii_alphanumeric :: "char \<Rightarrow> bool" where
  "is_ascii_alphanumeric c \<longleftrightarrow>
     (let b = (of_char c :: nat) in
      48 \<le> b \<and> b \<le> 57 \<or> 65 \<le> b \<and> b \<le> 90 \<or> 97 \<le> b \<and> b \<le> 122)"

definition hex_digit :: "nat \<Rightarrow> char" where
  "hex_digit n = ''0123456789abcdef'' ! n"

definition push_hex_byte :: "char \<Rightarrow> string" where
  "push_hex_byte byte = [hex_digit (of_char byte div 16), hex_digit (of_char byte mod 16)]"

definition ENCODED_PREFIX :: string where
  "ENCODED_PREFIX = ''_encoded_''"

definition MAX_COMPONENT_BYTES :: nat where
  "MAX_COMPONENT_BYTES = 160"

definition requires_encoding :: "string \<Rightarrow> bool" where
  "requires_encoding call_id \<longleftrightarrow>
     starts_with call_id ENCODED_PREFIX \<or>
     list_ex (\<lambda>byte. \<not> is_ascii_alphanumeric byte \<and> byte \<noteq> CHR ''-'' \<and> byte \<noteq> CHR ''_'') call_id"

definition encode_byte :: "char \<Rightarrow> string" where
  "encode_byte byte =
     (if is_ascii_alphanumeric byte \<or> byte = CHR ''-'' then [byte] else CHR ''_'' # push_hex_byte byte)"

definition safe_call_id :: "string \<Rightarrow> string" where
  "safe_call_id call_id =
     (if requires_encoding call_id then ENCODED_PREFIX @ concat (map encode_byte call_id) else call_id)"

definition spill_component :: "(string \<Rightarrow> string) \<Rightarrow> string \<Rightarrow> string" where
  "spill_component sha256 call_id =
     (let safe = safe_call_id call_id in
      if MAX_COMPONENT_BYTES < length safe
      then ENCODED_PREFIX @ ''h_'' @ take 80 safe @ ''_'' @ concat (map push_hex_byte (sha256 call_id))
      else safe)"

definition spill_path :: "(string \<Rightarrow> string) \<Rightarrow> string \<Rightarrow> string \<Rightarrow> string" where
  "spill_path sha256 call_id stream =
     ''/spill/'' @ spill_component sha256 call_id @ ''.'' @ stream @ ''.txt''"

subsection \<open>The characters of a name\<close>

definition safe_char :: "char \<Rightarrow> bool" where
  "safe_char c \<longleftrightarrow> is_ascii_alphanumeric c \<or> c = CHR ''-'' \<or> c = CHR ''_''"

lemma hex_digit_alnum: "n < 16 \<Longrightarrow> is_ascii_alphanumeric (hex_digit n)"
proof -
  have "\<forall>n \<in> {0..<16}. is_ascii_alphanumeric (hex_digit n)"
    by (simp add: is_ascii_alphanumeric_def hex_digit_def atLeast0_lessThan_Suc_eq_insert_0 numeral_eq_Suc
        atLeastLessThan_nat_numeral)
  then show "n < 16 \<Longrightarrow> ?thesis" by simp
qed

lemma hex_byte_alnum: "c \<in> set (push_hex_byte b) \<Longrightarrow> is_ascii_alphanumeric c"
proof -
  have "(of_char b :: nat) div 16 < 16" by (simp add: less_mult_imp_div_less)
  then show "c \<in> set (push_hex_byte b) \<Longrightarrow> ?thesis"
    by (auto simp: push_hex_byte_def hex_digit_alnum)
qed

lemma encode_byte_safe: "c \<in> set (encode_byte b) \<Longrightarrow> safe_char c"
  by (auto simp: encode_byte_def safe_char_def dest: hex_byte_alnum split: if_splits)

lemma encoded_prefix_safe: "c \<in> set ENCODED_PREFIX \<Longrightarrow> safe_char c"
  by (auto simp: ENCODED_PREFIX_def safe_char_def is_ascii_alphanumeric_def)

lemma safe_call_id_safe: "c \<in> set (safe_call_id call_id) \<Longrightarrow> safe_char c"
  by (auto simp: safe_call_id_def requires_encoding_def list_ex_iff safe_char_def [of c]
      dest: encode_byte_safe [unfolded safe_char_def] encoded_prefix_safe [unfolded safe_char_def]
      split: if_splits)

lemma spill_component_safe: "c \<in> set (spill_component sha256 call_id) \<Longrightarrow> safe_char c"
proof -
  have h: "safe_char d" if "d \<in> set ''h_''" for d
    using that by (auto simp: safe_char_def is_ascii_alphanumeric_def)
  have hex: "safe_char d" if "d \<in> set (concat (map push_hex_byte s))" for d s
    using that hex_byte_alnum by (auto simp: safe_char_def)
  assume "c \<in> set (spill_component sha256 call_id)"
  then consider "c \<in> set ENCODED_PREFIX" | "c \<in> set ''h_''" | "c \<in> set (safe_call_id call_id)"
    | "c \<in> set (concat (map push_hex_byte (sha256 call_id)))"
    by (auto simp: spill_component_def Let_def split: if_splits dest: in_set_takeD)
  then show ?thesis
    by cases (rule encoded_prefix_safe h safe_call_id_safe hex, assumption)+
qed

lemma safe_char_plain: "safe_char c \<Longrightarrow> c \<noteq> CHR ''.'' \<and> c \<noteq> CHR ''/''"
  by (auto simp: safe_char_def is_ascii_alphanumeric_def)

lemma component_plain:
  "CHR ''.'' \<notin> set (spill_component sha256 call_id)" "CHR ''/'' \<notin> set (spill_component sha256 call_id)"
  using spill_component_safe safe_char_plain by blast+

lemma hex_bytes_length: "length (concat (map push_hex_byte s)) = 2 * length s"
  by (induction s) (simp_all add: push_hex_byte_def)

lemma spill_component_length:
  "length (sha256 call_id) = 32 \<Longrightarrow> length (spill_component sha256 call_id) \<le> MAX_COMPONENT_BYTES"
  using hex_bytes_length [of "sha256 call_id"]
  by (simp add: spill_component_def Let_def MAX_COMPONENT_BYTES_def ENCODED_PREFIX_def min_def)

text \<open>
  Whatever a tool call's identifier contains, its spill file is one file directly in \<open>/spill\<close>:
  the path has no other directory and no \<open>..\<close>, and the part made from the identifier has at most
  160 bytes.
\<close>

theorem spill_file_is_directly_in_spill:
  assumes "length (sha256 call_id) = 32" and "CHR ''/'' \<notin> set stream"
  shows "\<exists>name. path_of_string (spill_path sha256 call_id stream) = [RootDir, Normal ''spill'', Normal name] \<and>
    length name \<le> 165 + length stream"
proof -
  define name where "name = spill_component sha256 call_id @ ''.'' @ stream @ ''.txt''"
  have plain: "CHR ''/'' \<notin> set name"
    using assms(2) component_plain(2) by (auto simp: name_def)
  have path: "spill_path sha256 call_id stream = CHR ''/'' # ''spill'' @ CHR ''/'' # name"
    by (simp add: spill_path_def name_def)
  have pieces: "split_on CHR ''/'' (spill_path sha256 call_id stream) = [[], ''spill'', name]"
    unfolding path using split_on_append [of "CHR ''/''" "''spill''" name] split_on_none [OF plain] by simp
  have "4 < length name" by (simp add: name_def)
  then have "component_of name = Some (Normal name)" by (auto simp: component_of_def)
  then have "path_of_string (spill_path sha256 call_id stream) = [RootDir, Normal ''spill'', Normal name]"
    unfolding path_of_string_def pieces
    by (simp add: List.map_filter_simps component_of_def path starts_with_def)
  moreover have "length name \<le> 165 + length stream"
    using spill_component_length [of sha256 call_id] assms(1) by (simp add: name_def MAX_COMPONENT_BYTES_def)
  ultimately show ?thesis by blast
qed

theorem spill_file_is_directly_in_spill_witness:
  "\<exists>name. path_of_string (spill_path (\<lambda>_. replicate 32 CHR ''x'') ''../../etc'' ''stdout'') =
     [RootDir, Normal ''spill'', Normal name]"
  using spill_file_is_directly_in_spill [of "\<lambda>_. replicate 32 CHR ''x''" "''../../etc''" "''stdout''"]
  by auto

subsection \<open>Which calls share a file\<close>

lemma distinct_hex_digits: "distinct ''0123456789abcdef''"
  by simp

lemma length_hex_digits: "length ''0123456789abcdef'' = 16"
  by simp

lemma hex_digit_inj: "m < 16 \<Longrightarrow> n < 16 \<Longrightarrow> hex_digit m = hex_digit n \<Longrightarrow> m = n"
  by (metis (no_types, lifting) distinct_conv_nth hex_digit_def
      distinct_hex_digits length_hex_digits)

lemma push_hex_byte_inj: "push_hex_byte a = push_hex_byte b \<Longrightarrow> a = b"
proof -
  assume eq: "push_hex_byte a = push_hex_byte b"
  have "(of_char a :: nat) div 16 < 16" "(of_char b :: nat) div 16 < 16"
    by (simp_all add: less_mult_imp_div_less)
  moreover have "hex_digit (of_char a div 16) = hex_digit (of_char b div 16)"
    "hex_digit (of_char a mod 16) = hex_digit (of_char b mod 16)"
    using eq by (simp_all add: push_hex_byte_def)
  ultimately have "(of_char a :: nat) div 16 = of_char b div 16" "(of_char a :: nat) mod 16 = of_char b mod 16"
    by (auto intro: hex_digit_inj)
  then have "(of_char a :: nat) = of_char b" by (metis div_mult_mod_eq)
  then show "a = b" by simp
qed

lemma hex_bytes_inj: "concat (map push_hex_byte s) = concat (map push_hex_byte t) \<Longrightarrow> s = t"
proof (induction s arbitrary: t)
  case Nil
  then show ?case by (cases t) (simp_all add: push_hex_byte_def)
next
  case (Cons a s)
  then obtain b u where t: "t = b # u" by (cases t) (simp_all add: push_hex_byte_def)
  have "push_hex_byte a = push_hex_byte b"
    "concat (map push_hex_byte s) = concat (map push_hex_byte u)"
    using Cons.prems by (simp_all add: t push_hex_byte_def [of a] push_hex_byte_def [of b])
  then show ?case using Cons.IH push_hex_byte_inj t by blast
qed

lemma underscore_encoded: "\<not> is_ascii_alphanumeric CHR ''_''"
  by (simp add: is_ascii_alphanumeric_def)

lemma encode_bytes_inj: "concat (map encode_byte s) = concat (map encode_byte t) \<Longrightarrow> s = t"
proof (induction s arbitrary: t)
  case Nil
  then show ?case by (cases t) (auto simp: encode_byte_def split: if_splits)
next
  case (Cons a s)
  then obtain b u where t: "t = b # u" by (cases t) (auto simp: encode_byte_def split: if_splits)
  have "encode_byte a = encode_byte b \<and> concat (map encode_byte s) = concat (map encode_byte u)"
    using Cons.prems underscore_encoded
    by (auto simp: t encode_byte_def [of a] encode_byte_def [of b] push_hex_byte_def [of a]
        push_hex_byte_def [of b] split: if_splits)
  moreover have "a = b" if "encode_byte a = encode_byte b"
    using that push_hex_byte_inj underscore_encoded by (auto simp: encode_byte_def split: if_splits)
  ultimately show ?case using Cons.IH t by blast
qed

lemma encoded_requires_encoding: "requires_encoding (ENCODED_PREFIX @ s)"
  by (simp add: requires_encoding_def)

lemma safe_call_id_inj:
  assumes "safe_call_id c = safe_call_id d"
  shows "c = d"
proof (cases "requires_encoding c \<longleftrightarrow> requires_encoding d")
  case True
  then show ?thesis using assms encode_bytes_inj by (auto simp: safe_call_id_def split: if_splits)
next
  case False
  then show ?thesis
    using assms encoded_requires_encoding by (metis safe_call_id_def)
qed

lemma append_separator_eq:
  assumes "xs @ c # ys = xs' @ c # ys'" and "c \<notin> set xs" "c \<notin> set xs'"
  shows "xs = xs' \<and> ys = ys'"
proof -
  have "takeWhile (\<lambda>x. x \<noteq> c) (zs @ c # us) = zs" if "c \<notin> set zs" for zs us
    using that by (induction zs) auto
  from this [OF assms(2), of ys] this [OF assms(3), of ys'] assms(1) have "xs = xs'" by simp
  then show ?thesis using assms(1) by simp
qed

text \<open>
  Two calls whose identifiers both have a short safe form, or both a long one, spill to the same
  file only if they are the same call and the same stream, provided the digest tells the two
  identifiers apart.
\<close>

theorem spill_paths_are_distinct:
  assumes "spill_path sha256 c s = spill_path sha256 d t"
    and "MAX_COMPONENT_BYTES < length (safe_call_id c) \<longleftrightarrow> MAX_COMPONENT_BYTES < length (safe_call_id d)"
    and "sha256 c = sha256 d \<Longrightarrow> c = d"
  shows "c = d \<and> s = t"
proof -
  have "spill_component sha256 c @ CHR ''.'' # s @ ''.txt'' =
      spill_component sha256 d @ CHR ''.'' # t @ ''.txt''"
    using assms(1) by (simp add: spill_path_def)
  from append_separator_eq [OF this component_plain(1) component_plain(1)]
  have comp: "spill_component sha256 c = spill_component sha256 d" and rest: "s @ ''.txt'' = t @ ''.txt''"
    by simp_all
  have "c = d"
  proof (cases "MAX_COMPONENT_BYTES < length (safe_call_id c)")
    case True
    then have "take 80 (safe_call_id c) @ ''_'' @ concat (map push_hex_byte (sha256 c)) =
        take 80 (safe_call_id d) @ ''_'' @ concat (map push_hex_byte (sha256 d))"
      using comp assms(2) by (simp add: spill_component_def Let_def)
    moreover have "length (take 80 (safe_call_id c)) = length (take 80 (safe_call_id d))"
      using True assms(2) by (simp add: MAX_COMPONENT_BYTES_def)
    ultimately have "concat (map push_hex_byte (sha256 c)) = concat (map push_hex_byte (sha256 d))" by simp
    then show ?thesis using hex_bytes_inj assms(3) by blast
  next
    case False
    then have "safe_call_id c = safe_call_id d"
      using comp assms(2) by (simp add: spill_component_def Let_def)
    then show ?thesis by (rule safe_call_id_inj)
  qed
  then show ?thesis using rest by simp
qed

theorem spill_paths_are_distinct_witness:
  "spill_path (\<lambda>x. x) ''/'' ''stdout'' \<noteq> spill_path (\<lambda>x. x) ''_2f'' ''stdout''"
proof -
  have "MAX_COMPONENT_BYTES < length (safe_call_id ''/'') \<longleftrightarrow> MAX_COMPONENT_BYTES < length (safe_call_id ''_2f'')"
    by (simp add: safe_call_id_def requires_encoding_def is_ascii_alphanumeric_def ENCODED_PREFIX_def
        starts_with_def encode_byte_def push_hex_byte_def MAX_COMPONENT_BYTES_def)
  from spill_paths_are_distinct [of "\<lambda>x. x" "''/''" "''stdout''" "''_2f''" "''stdout''", OF _ this]
  show ?thesis by auto
qed

text \<open>
  A long identifier can share its file with a short one, although the digest tells all
  identifiers apart.  Take a call identifier of letters and digits that starts with \<open>2f\<close> and has more
  than 160 characters, and whose digest starts with a byte that is no letter, digit or hyphen (about one
  identifier in four): another identifier has the same spill file, for both streams.
\<close>

theorem long_call_id_shares_spill_file:
  assumes "c = ''2f'' @ x @ y" and "length x = 78" and "80 < length y"
    and "\<forall>ch \<in> set (x @ y). is_ascii_alphanumeric ch"
    and "sha256 c = b # bs" and "length bs = 31"
    and "\<not> is_ascii_alphanumeric b" and "b \<noteq> CHR ''-''"
  shows "\<exists>d. d \<noteq> c \<and> spill_path sha256 d stream = spill_path sha256 c stream"
proof -
  define d where "d = ''h/'' @ x @ b # concat (map push_hex_byte bs)"
  have plain: "concat (map encode_byte s) = s" if "\<forall>ch \<in> set s. is_ascii_alphanumeric ch" for s
    using that by (induction s) (simp_all add: encode_byte_def)
  have hexes: "\<forall>ch \<in> set (concat (map push_hex_byte bs)). is_ascii_alphanumeric ch"
    using hex_byte_alnum by auto
  have enc: "concat (map encode_byte d) = ''h_2f'' @ x @ ''_'' @ concat (map push_hex_byte (b # bs))"
    using plain [of x] plain [OF hexes] assms(4,7,8)
    by (simp add: d_def encode_byte_def is_ascii_alphanumeric_def [of "CHR ''h''"]
        is_ascii_alphanumeric_def [of "CHR ''/''"] push_hex_byte_def [of "CHR ''/''"] hex_digit_def)
  have "requires_encoding d"
    by (simp add: requires_encoding_def d_def is_ascii_alphanumeric_def)
  then have safe_d: "safe_call_id d = ENCODED_PREFIX @ ''h_2f'' @ x @ ''_'' @ concat (map push_hex_byte (b # bs))"
    by (simp add: safe_call_id_def enc)
  then have "length (safe_call_id d) = 156"
    using assms(2,6) hex_bytes_length [of "b # bs"] by (simp add: ENCODED_PREFIX_def push_hex_byte_def)
  then have comp_d: "spill_component sha256 d = safe_call_id d"
    by (simp add: spill_component_def MAX_COMPONENT_BYTES_def)
  have "\<not> requires_encoding c"
    using assms(1,4) by (auto simp: requires_encoding_def list_ex_iff starts_with_def ENCODED_PREFIX_def
        is_ascii_alphanumeric_def [of "CHR ''2''"] is_ascii_alphanumeric_def [of "CHR ''f''"])
  then have safe_c: "safe_call_id c = c" by (simp add: safe_call_id_def)
  have "take 80 c = ''2f'' @ x" using assms(1,2) by simp
  then have "spill_component sha256 c = safe_call_id d"
    using assms(1,2,3,5) safe_c safe_d by (simp add: spill_component_def Let_def MAX_COMPONENT_BYTES_def)
  then have "spill_path sha256 d stream = spill_path sha256 c stream"
    using comp_d by (simp add: spill_path_def)
  moreover have "d \<noteq> c" using assms(1) by (simp add: d_def)
  ultimately show ?thesis by blast
qed

theorem long_call_id_shares_spill_file_witness:
  "\<exists>d. d \<noteq> ''2f'' @ replicate 159 CHR ''a'' \<and>
     spill_path (\<lambda>_. replicate 32 CHR ''/'') d ''stdout'' =
     spill_path (\<lambda>_. replicate 32 CHR ''/'') (''2f'' @ replicate 159 CHR ''a'') ''stdout''"
proof (rule long_call_id_shares_spill_file [where x = "replicate 78 CHR ''a''" and y = "replicate 81 CHR ''a''"
      and b = "CHR ''/''" and bs = "replicate 31 CHR ''/''"])
  show "''2f'' @ replicate 159 CHR ''a'' = ''2f'' @ replicate 78 CHR ''a'' @ replicate 81 CHR ''a''"
    by (simp flip: replicate_add)
  show "\<forall>ch \<in> set (replicate 78 CHR ''a'' @ replicate 81 CHR ''a''). is_ascii_alphanumeric ch"
    by (simp add: is_ascii_alphanumeric_def)
  show "replicate 32 CHR ''/'' = CHR ''/'' # replicate 31 CHR ''/''"
    by (simp add: numeral_eq_Suc)
  show "\<not> is_ascii_alphanumeric CHR ''/''" by (simp add: is_ascii_alphanumeric_def)
qed simp_all

end
