(* ===== verification/Patch_Language.thy ===== *)
theory Patch_Language
  imports Virtual_Files Session_Model Io_Envelopes
begin

section \<open>The patch language\<close>

text \<open>
  \<^verbatim>\<open>src/crates/verlet-vbash/src/apply_patch.rs\<close>, the parser: lines, the envelope of a patch, the hunks
  and the chunks of an update.  An error is the message the source formats; where the source would
  panic (a slice or an index out of range, \<open>unreachable!\<close>) the model returns \<open>PatchPanic\<close>, so that the
  absence of panics is a theorem.  Paths stay the text of the patch.
\<close>

datatype patch_error = PatchError string | PatchPanic

type_synonym 'a patch_result = "patch_error + 'a"

definition slice_from :: "'a list \<Rightarrow> nat \<Rightarrow> 'a list patch_result" where
  "slice_from xs n = (if n \<le> length xs then Inr (drop n xs) else Inl PatchPanic)"

text \<open>\<open>&xs[1..xs.len() - 1]\<close>, which needs two elements.\<close>

definition inner_slice :: "'a list \<Rightarrow> 'a list patch_result" where
  "inner_slice xs = (if 2 \<le> length xs then Inr (butlast (tl xs)) else Inl PatchPanic)"

subsection \<open>Lines\<close>

text \<open>
  \<open>str::lines\<close>: the pieces between newlines, without the empty piece after a final newline; a carriage
  return before a newline belongs to the line end.
\<close>

definition strip_cr :: "string \<Rightarrow> string" where
  "strip_cr s = (if s \<noteq> [] \<and> last s = CHR 0x0D then butlast s else s)"

definition str_lines :: "string \<Rightarrow> string list" where
  "str_lines s =
     (let pieces = split_on CHR 0x0A s in
      map strip_cr (butlast pieces) @ (if last pieces = [] then [] else [last pieces]))"

text \<open>\<open>lines.join("\\n")\<close>\<close>

fun join_lines :: "string list \<Rightarrow> string" where
  "join_lines [] = []"
| "join_lines [l] = l"
| "join_lines (l # ls) = l @ newline @ join_lines ls"

subsection \<open>Markers and hunks\<close>

definition BEGIN_PATCH_MARKER :: string where
  "BEGIN_PATCH_MARKER = ''*** Begin Patch''"

definition ENVIRONMENT_ID_MARKER :: string where
  "ENVIRONMENT_ID_MARKER = ''*** Environment ID: ''"

definition END_PATCH_MARKER :: string where
  "END_PATCH_MARKER = ''*** End Patch''"

definition ADD_FILE_MARKER :: string where
  "ADD_FILE_MARKER = ''*** Add File: ''"

definition DELETE_FILE_MARKER :: string where
  "DELETE_FILE_MARKER = ''*** Delete File: ''"

definition UPDATE_FILE_MARKER :: string where
  "UPDATE_FILE_MARKER = ''*** Update File: ''"

definition MOVE_TO_MARKER :: string where
  "MOVE_TO_MARKER = ''*** Move to: ''"

definition EOF_MARKER :: string where
  "EOF_MARKER = ''*** End of File''"

definition CHANGE_CONTEXT_MARKER :: string where
  "CHANGE_CONTEXT_MARKER = ''@@ ''"

definition EMPTY_CHANGE_CONTEXT_MARKER :: string where
  "EMPTY_CHANGE_CONTEXT_MARKER = ''@@''"

lemmas patch_markers = BEGIN_PATCH_MARKER_def ENVIRONMENT_ID_MARKER_def END_PATCH_MARKER_def
  ADD_FILE_MARKER_def DELETE_FILE_MARKER_def UPDATE_FILE_MARKER_def MOVE_TO_MARKER_def EOF_MARKER_def
  CHANGE_CONTEXT_MARKER_def EMPTY_CHANGE_CONTEXT_MARKER_def

record update_file_chunk =
  uc_change_context :: "string option"
  uc_old_lines :: "string list"
  uc_new_lines :: "string list"
  uc_is_end_of_file :: bool

datatype hunk =
    AddFile string string
  | DeleteFile string
  | UpdateFile string "string option" "update_file_chunk list"

fun hunk_path :: "hunk \<Rightarrow> string" where
  "hunk_path (AddFile path contents) = path"
| "hunk_path (DeleteFile path) = path"
| "hunk_path (UpdateFile path None chunks) = path"
| "hunk_path (UpdateFile path (Some move_path) chunks) = move_path"

definition quoted :: "string \<Rightarrow> string" where
  "quoted s = CHR 0x27 # s @ [CHR 0x27]"

subsection \<open>The envelope\<close>

definition check_start_and_end_lines :: "string list \<Rightarrow> unit patch_result" where
  "check_start_and_end_lines lines =
     (let first = (if lines = [] then None else Some (trim (hd lines)));
          final = (if lines = [] then None else Some (trim (last lines))) in
      if first = Some BEGIN_PATCH_MARKER \<and> final = Some END_PATCH_MARKER then Inr ()
      else if first \<noteq> None \<and> first \<noteq> Some BEGIN_PATCH_MARKER
      then Inl (PatchError (''Invalid patch: The first line of the patch must be '' @ quoted BEGIN_PATCH_MARKER))
      else Inl (PatchError (''Invalid patch: The last line of the patch must be '' @ quoted END_PATCH_MARKER)))"

definition heredoc_starts :: "string list" where
  "heredoc_starts = [''<<EOF'', ''<<'' @ quoted ''EOF'', ''<<'' @ [CHR 0x22] @ ''EOF'' @ [CHR 0x22]]"

definition check_patch_boundaries_lenient :: "string list \<Rightarrow> string list patch_result" where
  "check_patch_boundaries_lenient lines =
     (if is_ok (check_start_and_end_lines lines) then inner_slice lines
      else if 2 \<le> length lines \<and> hd lines \<in> set heredoc_starts \<and> ends_with (last lines) ''EOF'' \<and>
              4 \<le> length lines
      then and_then (inner_slice lines) (\<lambda>inner.
             and_then (check_start_and_end_lines inner) (\<lambda>_. inner_slice inner))
      else and_then (check_start_and_end_lines lines) (\<lambda>_. Inl PatchPanic))"

definition parse_environment_id_preamble ::
  "string list \<Rightarrow> (string option \<times> string list \<times> nat) patch_result" where
  "parse_environment_id_preamble hunk_lines =
     (case hunk_lines of
        [] \<Rightarrow> Inr (None, hunk_lines, 2)
      | first_line # rest \<Rightarrow>
          (case strip_prefix ENVIRONMENT_ID_MARKER (trim_start first_line) of
             None \<Rightarrow> Inr (None, hunk_lines, 2)
           | Some environment_id0 \<Rightarrow>
               (let environment_id = trim environment_id0 in
                if environment_id = [] then Inl (PatchError ''apply_patch environment_id cannot be empty'')
                else Inr (Some environment_id, rest, 3))))"

subsection \<open>Chunks\<close>

definition patch_hunk_error :: "nat \<Rightarrow> string \<Rightarrow> patch_error" where
  "patch_hunk_error line_number message =
     PatchError (''Invalid patch hunk at line '' @ show_nat line_number @ '': '' @ message)"

text \<open>The loop over the lines of a chunk; \<open>parsed_lines\<close> counts the lines taken.\<close>

fun parse_chunk_lines ::
  "nat \<Rightarrow> update_file_chunk \<Rightarrow> nat \<Rightarrow> string list \<Rightarrow> (update_file_chunk \<times> nat) patch_result" where
  "parse_chunk_lines line_number chunk parsed_lines [] = Inr (chunk, parsed_lines)"
| "parse_chunk_lines line_number chunk parsed_lines (line # rest) =
     (if line = EOF_MARKER then
        (if parsed_lines = 0
         then Inl (patch_hunk_error (line_number + 1) ''Update hunk does not contain any lines'')
         else Inr (chunk\<lparr>uc_is_end_of_file := True\<rparr>, parsed_lines + 1))
      else case line of
          [] \<Rightarrow> parse_chunk_lines line_number
                 (chunk\<lparr>uc_old_lines := uc_old_lines chunk @ [[]], uc_new_lines := uc_new_lines chunk @ [[]]\<rparr>)
                 (parsed_lines + 1) rest
        | c # cs \<Rightarrow>
            if c = CHR '' '' then parse_chunk_lines line_number
                 (chunk\<lparr>uc_old_lines := uc_old_lines chunk @ [cs], uc_new_lines := uc_new_lines chunk @ [cs]\<rparr>)
                 (parsed_lines + 1) rest
            else if c = CHR ''+'' then parse_chunk_lines line_number
                 (chunk\<lparr>uc_new_lines := uc_new_lines chunk @ [cs]\<rparr>) (parsed_lines + 1) rest
            else if c = CHR ''-'' then parse_chunk_lines line_number
                 (chunk\<lparr>uc_old_lines := uc_old_lines chunk @ [cs]\<rparr>) (parsed_lines + 1) rest
            else if 0 < parsed_lines then Inr (chunk, parsed_lines)
            else Inl (patch_hunk_error (line_number + 1)
              (''Unexpected line found in update hunk: '' @ quoted line)))"

text \<open>The first line of a chunk: its context, and how many lines that takes.\<close>

definition chunk_header :: "string \<Rightarrow> nat \<Rightarrow> bool \<Rightarrow> (string option \<times> nat) patch_result" where
  "chunk_header line line_number allow_missing_context =
     (if line = EMPTY_CHANGE_CONTEXT_MARKER then Inr (None, 1)
      else case strip_prefix CHANGE_CONTEXT_MARKER line of
          Some context0 \<Rightarrow> Inr (Some context0, 1)
        | None \<Rightarrow>
            if allow_missing_context then Inr (None, 0)
            else Inl (patch_hunk_error line_number
              (''Expected update hunk to start with a @@ context marker, got: '' @ quoted line)))"

definition empty_chunk :: "string option \<Rightarrow> update_file_chunk" where
  "empty_chunk change_context =
     \<lparr>uc_change_context = change_context, uc_old_lines = [], uc_new_lines = [], uc_is_end_of_file = False\<rparr>"

definition parse_update_file_chunk ::
  "string list \<Rightarrow> nat \<Rightarrow> bool \<Rightarrow> (update_file_chunk \<times> nat) patch_result" where
  "parse_update_file_chunk lines line_number allow_missing_context =
     (case lines of
        [] \<Rightarrow> Inl (patch_hunk_error line_number ''Update hunk does not contain any lines'')
      | line # _ \<Rightarrow>
          and_then (chunk_header line line_number allow_missing_context) (\<lambda>(change_context, start_index).
            if length lines \<le> start_index
            then Inl (patch_hunk_error (line_number + 1) ''Update hunk does not contain any lines'')
            else and_then
              (parse_chunk_lines line_number (empty_chunk change_context) 0 (drop start_index lines))
              (\<lambda>(chunk, parsed_lines). Inr (chunk, parsed_lines + start_index))))"

lemma parse_chunk_lines_count:
  "parse_chunk_lines n chunk k ls = Inr (chunk', m) \<Longrightarrow> k \<le> m \<and> m \<le> k + length ls"
proof (induction ls arbitrary: chunk k)
  case (Cons l ls)
  then show ?case by (auto split: if_splits list.splits dest!: Cons.IH)
qed simp

lemma parse_chunk_lines_progress:
  "parse_chunk_lines n chunk 0 (l # ls) = Inr (chunk', m) \<Longrightarrow> 0 < m"
  by (auto split: if_splits list.splits dest!: parse_chunk_lines_count)

lemma parse_update_file_chunk_count:
  assumes "parse_update_file_chunk lines n allow = Inr (chunk, m)"
  shows "0 < m \<and> m \<le> length lines"
proof -
  obtain line rest where lines: "lines = line # rest"
    using assms by (cases lines) (simp_all add: parse_update_file_chunk_def)
  obtain ctx start k where start: "start < length lines"
    and chunk: "parse_chunk_lines n (empty_chunk ctx) 0 (drop start lines) = Inr (chunk, k)" and m: "m = k + start"
    using assms by (auto simp: parse_update_file_chunk_def lines and_then_eq_Inr not_le split: if_splits)
  obtain l ls where "drop start lines = l # ls" using start by (cases "drop start lines") simp_all
  with chunk have "0 < k" by (metis parse_chunk_lines_progress)
  moreover have "k \<le> length (drop start lines)" using parse_chunk_lines_count [OF chunk] by simp
  ultimately show ?thesis using m start by simp
qed

subsection \<open>Hunks\<close>

text \<open>The loop over the chunks of an update.\<close>

function parse_chunks ::
  "nat \<Rightarrow> nat \<Rightarrow> update_file_chunk list \<Rightarrow> string list \<Rightarrow> (update_file_chunk list \<times> nat) patch_result" where
  "parse_chunks line_number parsed_lines chunks remaining_lines =
     (case remaining_lines of
        [] \<Rightarrow> Inr (chunks, parsed_lines)
      | line # rest \<Rightarrow>
          if trim line = [] then parse_chunks line_number (parsed_lines + 1) chunks rest
          else if starts_with line ''*'' then Inr (chunks, parsed_lines)
          else and_then (parse_update_file_chunk remaining_lines (line_number + parsed_lines) (chunks = []))
            (\<lambda>(chunk, chunk_lines).
              and_then (slice_from remaining_lines chunk_lines) (\<lambda>rest.
                parse_chunks line_number (parsed_lines + chunk_lines) (chunks @ [chunk]) rest)))"
  by pat_completeness auto
termination
  by (relation "measure (\<lambda>(_, _, _, ls). length ls)")
    (auto simp: slice_from_def dest!: parse_update_file_chunk_count split: if_splits)

declare parse_chunks.simps [simp del]

definition parse_one_hunk :: "string list \<Rightarrow> nat \<Rightarrow> (hunk \<times> nat) patch_result" where
  "parse_one_hunk lines line_number =
     (case lines of
        [] \<Rightarrow> Inl (PatchError ''invalid patch hunk: empty hunk'')
      | line # rest \<Rightarrow>
          (let first_line = trim line in
           case strip_prefix ADD_FILE_MARKER first_line of
             Some path \<Rightarrow>
               (let added = takeWhile (\<lambda>l. starts_with l ''+'') rest in
                Inr (AddFile path (concat (map (\<lambda>l. tl l @ newline) added)), 1 + length added))
           | None \<Rightarrow>
           (case strip_prefix DELETE_FILE_MARKER first_line of
             Some path \<Rightarrow> Inr (DeleteFile path, 1)
           | None \<Rightarrow>
           (case strip_prefix UPDATE_FILE_MARKER first_line of
             Some path \<Rightarrow>
               (let move_path = (case rest of [] \<Rightarrow> None | l # _ \<Rightarrow> strip_prefix MOVE_TO_MARKER l);
                    (remaining_lines, parsed_lines) =
                      (if move_path \<noteq> None then (tl rest, 2) else (rest, 1)) in
                and_then (parse_chunks line_number parsed_lines [] remaining_lines)
                  (\<lambda>(chunks, parsed_lines).
                    if chunks = []
                    then Inl (patch_hunk_error line_number
                      (''Update file hunk for path '' @ quoted path @ '' is empty''))
                    else Inr (UpdateFile path move_path chunks, parsed_lines)))
           | None \<Rightarrow> Inl (patch_hunk_error line_number (quoted first_line @ '' is not a valid hunk header''))))))"

lemma parse_chunks_count:
  "parse_chunks n k cs ls = Inr (cs', m) \<Longrightarrow> k \<le> m \<and> m \<le> k + length ls"
proof (induction n k cs ls arbitrary: cs' m rule: parse_chunks.induct)
  case (1 n k cs ls)
  show ?case
  proof (cases ls)
    case Nil
    then show ?thesis using "1.prems" by (simp add: parse_chunks.simps)
  next
    case (Cons line rest)
    consider (blank) "trim line = []" | (marker) "trim line \<noteq> []" "starts_with line ''*''"
      | (chunk) "trim line \<noteq> []" "\<not> starts_with line ''*''" by blast
    then show ?thesis
    proof cases
      case blank
      then have "parse_chunks n (k + 1) cs rest = Inr (cs', m)"
        using "1.prems" Cons by (simp add: parse_chunks.simps [of n k])
      from "1.IH"(1) [OF Cons blank this] Cons show ?thesis by simp
    next
      case marker
      then show ?thesis using "1.prems" Cons by (simp add: parse_chunks.simps [of n k])
    next
      case chunk
      then obtain c j where c: "parse_update_file_chunk ls (n + k) (cs = []) = Inr (c, j)"
        and rest: "parse_chunks n (k + j) (cs @ [c]) (drop j ls) = Inr (cs', m)"
        using "1.prems" Cons parse_update_file_chunk_count
        by (auto simp: parse_chunks.simps [of n k] and_then_eq_Inr slice_from_def split: if_splits)
      note j = parse_update_file_chunk_count [OF c]
      have "slice_from ls j = Inr (drop j ls)" using j by (simp add: slice_from_def)
      from "1.IH"(2) [OF Cons chunk c refl this rest] j show ?thesis by auto
    qed
  qed
qed

lemma parse_one_hunk_count:
  assumes "parse_one_hunk lines n = Inr (h, m)"
  shows "0 < m \<and> m \<le> length lines"
proof -
  obtain line rest where lines: "lines = line # rest"
    using assms by (cases lines) (simp_all add: parse_one_hunk_def)
  have adds: "length (takeWhile P rest) \<le> length rest" for P by (rule length_takeWhile_le)
  show ?thesis
    using assms adds unfolding parse_one_hunk_def lines
    by (auto simp: Let_def and_then_eq_Inr dest!: parse_chunks_count split: option.splits if_splits list.splits)
qed

text \<open>The loop over the hunks, and the parser.\<close>

function parse_hunks :: "nat \<Rightarrow> string list \<Rightarrow> hunk list patch_result" where
  "parse_hunks line_number remaining_lines =
     (if remaining_lines = [] then Inr []
      else and_then (parse_one_hunk remaining_lines line_number) (\<lambda>(hunk, parsed_lines).
        and_then (slice_from remaining_lines parsed_lines) (\<lambda>rest.
          and_then (parse_hunks (line_number + parsed_lines) rest) (\<lambda>hunks. Inr (hunk # hunks)))))"
  by pat_completeness auto
termination
  by (relation "measure (\<lambda>(_, ls). length ls)")
    (auto simp: slice_from_def dest!: parse_one_hunk_count split: if_splits)

declare parse_hunks.simps [simp del]

definition parse_patch :: "string \<Rightarrow> hunk list patch_result" where
  "parse_patch patch =
     (let lines = str_lines (trim patch) in
      and_then (check_patch_boundaries_lenient lines) (\<lambda>hunk_lines.
      and_then (parse_environment_id_preamble hunk_lines) (\<lambda>(environment_id, remaining_lines, line_number).
      parse_hunks line_number remaining_lines)))"

end
