(* ===== verification/Apply_Patch.thy ===== *)
theory Apply_Patch
  imports Patch_Language Utf8_Text
begin

section \<open>Applying a patch\<close>

text \<open>
  \<^verbatim>\<open>src/crates/verlet-vbash/src/apply_patch.rs\<close>, the part that finds the lines of a chunk in a file,
  computes the replacements, applies them from the back and writes the files.  The file system is the
  record of operations of \<open>Virtual_Files\<close>; the printed form of an error is an argument.
\<close>

subsection \<open>Finding lines\<close>

text \<open>The punctuation that is matched loosely: the UTF-8 encoding of each character, and its plain form.\<close>

definition punctuation :: "(string \<times> char) list" where
  "punctuation =
     map (\<lambda>e. (e, CHR ''-''))
       [[CHR 0xE2, CHR 0x80, CHR 0x90], [CHR 0xE2, CHR 0x80, CHR 0x91], [CHR 0xE2, CHR 0x80, CHR 0x92],
        [CHR 0xE2, CHR 0x80, CHR 0x93], [CHR 0xE2, CHR 0x80, CHR 0x94], [CHR 0xE2, CHR 0x80, CHR 0x95],
        [CHR 0xE2, CHR 0x88, CHR 0x92]] @
     map (\<lambda>e. (e, CHR 0x27))
       [[CHR 0xE2, CHR 0x80, CHR 0x98], [CHR 0xE2, CHR 0x80, CHR 0x99], [CHR 0xE2, CHR 0x80, CHR 0x9A],
        [CHR 0xE2, CHR 0x80, CHR 0x9B]] @
     map (\<lambda>e. (e, CHR 0x22))
       [[CHR 0xE2, CHR 0x80, CHR 0x9C], [CHR 0xE2, CHR 0x80, CHR 0x9D], [CHR 0xE2, CHR 0x80, CHR 0x9E],
        [CHR 0xE2, CHR 0x80, CHR 0x9F]] @
     map (\<lambda>e. (e, CHR '' ''))
       [[CHR 0xC2, CHR 0xA0], [CHR 0xE2, CHR 0x80, CHR 0x82], [CHR 0xE2, CHR 0x80, CHR 0x83],
        [CHR 0xE2, CHR 0x80, CHR 0x84], [CHR 0xE2, CHR 0x80, CHR 0x85], [CHR 0xE2, CHR 0x80, CHR 0x86],
        [CHR 0xE2, CHR 0x80, CHR 0x87], [CHR 0xE2, CHR 0x80, CHR 0x88], [CHR 0xE2, CHR 0x80, CHR 0x89],
        [CHR 0xE2, CHR 0x80, CHR 0x8A], [CHR 0xE2, CHR 0x80, CHR 0xAF], [CHR 0xE2, CHR 0x81, CHR 0x9F],
        [CHR 0xE3, CHR 0x80, CHR 0x80]]"

lemma punctuation_nonempty: "(e, c) \<in> set punctuation \<Longrightarrow> e \<noteq> []"
  by (auto simp: punctuation_def)

text \<open>
  The map over the characters.  Every entry starts with a lead byte, so in well-formed text a match
  is a whole character.
\<close>

function plain_punctuation :: "string \<Rightarrow> string" where
  "plain_punctuation s =
     (case s of
        [] \<Rightarrow> []
      | c # cs \<Rightarrow>
          (case find (\<lambda>(e, _). starts_with s e) punctuation of
             None \<Rightarrow> c # plain_punctuation cs
           | Some (e, plain) \<Rightarrow> plain # plain_punctuation (drop (length e) s)))"
  by pat_completeness auto
termination
proof (relation "measure length", goal_cases)
  case (3 s c cs p e plain)
  then have "e \<noteq> []" by (metis find_SomeD punctuation_nonempty)
  then show ?case using 3 by (cases e) auto
qed simp_all

declare plain_punctuation.simps [simp del]

definition normalize_punctuation :: "string \<Rightarrow> string" where
  "normalize_punctuation value = plain_punctuation (trim value)"

text \<open>
  Indexing and slicing of the lines of the file panic out of range: \<open>lines[i]\<close> and \<open>lines[a..b]\<close>.
\<close>

definition line_at :: "string list \<Rightarrow> nat \<Rightarrow> string patch_result" where
  "line_at lines i = (if i < length lines then Inr (lines ! i) else Inl PatchPanic)"

definition line_range :: "string list \<Rightarrow> nat \<Rightarrow> nat \<Rightarrow> string list patch_result" where
  "line_range lines a b =
     (if a \<le> b \<and> b \<le> length lines then Inr (take (b - a) (drop a lines)) else Inl PatchPanic)"

text \<open>
  The tests of the four passes: the first compares a slice, the others go through the lines
  of the pattern and stop at the first that differs.
\<close>

definition same_slice :: "string list \<Rightarrow> string list \<Rightarrow> nat \<Rightarrow> bool patch_result" where
  "same_slice lines pattern index =
     and_then (line_range lines index (index + length pattern)) (\<lambda>slice. Inr (slice = pattern))"

primrec same_lines ::
  "(string \<Rightarrow> string \<Rightarrow> bool) \<Rightarrow> string list \<Rightarrow> string list \<Rightarrow> nat \<Rightarrow> bool patch_result" where
  "same_lines same lines [] index = Inr True"
| "same_lines same lines (expected # pattern) index =
     and_then (line_at lines index) (\<lambda>line.
       if same line expected then same_lines same lines pattern (Suc index) else Inr False)"

text \<open>One pass of the search: the first index that passes the test, and then the next pass.\<close>

primrec seek_pass ::
  "(nat \<Rightarrow> bool patch_result) \<Rightarrow> nat list \<Rightarrow> nat option patch_result \<Rightarrow> nat option patch_result" where
  "seek_pass test [] otherwise = otherwise"
| "seek_pass test (index # indices) otherwise =
     and_then (test index) (\<lambda>found. if found then Inr (Some index) else seek_pass test indices otherwise)"

definition seek_sequence ::
  "string list \<Rightarrow> string list \<Rightarrow> nat \<Rightarrow> bool \<Rightarrow> nat option patch_result" where
  "seek_sequence lines pattern start eof =
     (if pattern = [] then Inr (Some start)
      else if length lines < length pattern then Inr None
      else let search_start =
             (if eof \<and> length pattern \<le> length lines then length lines - length pattern else start);
             indices = [search_start..<Suc (length lines - length pattern)] in
        seek_pass (same_slice lines pattern) indices
       (seek_pass (same_lines (\<lambda>l e. trim_end l = trim_end e) lines pattern) indices
       (seek_pass (same_lines (\<lambda>l e. trim l = trim e) lines pattern) indices
       (seek_pass (same_lines (\<lambda>l e. normalize_punctuation l = normalize_punctuation e) lines pattern) indices
       (Inr None)))))"

subsection \<open>Replacements\<close>

type_synonym replacement = "nat \<times> nat \<times> string list"

text \<open>Where the lines of a chunk with old lines are, and what replaces them.\<close>

definition locate_chunk ::
  "string \<Rightarrow> string list \<Rightarrow> nat \<Rightarrow> update_file_chunk \<Rightarrow> replacement patch_result" where
  "locate_chunk path original_lines line_index chunk =
     (let pattern = uc_old_lines chunk;
          new_slice = uc_new_lines chunk;
          eof = uc_is_end_of_file chunk in
      and_then (seek_sequence original_lines pattern line_index eof) (\<lambda>found.
      and_then
        (if found = None \<and> pattern \<noteq> [] \<and> last pattern = [] then
           (let pattern = butlast pattern;
                new_slice = (if new_slice \<noteq> [] \<and> last new_slice = [] then butlast new_slice else new_slice) in
            and_then (seek_sequence original_lines pattern line_index eof) (\<lambda>found.
            Inr (pattern, new_slice, found)))
         else Inr (pattern, new_slice, found)) (\<lambda>(pattern, new_slice, found).
      case found of
        None \<Rightarrow> Inl (PatchError (''Failed to find expected lines in '' @ path @ '':'' @ newline @
                  join_lines (uc_old_lines chunk)))
      | Some start_index \<Rightarrow> Inr (start_index, length pattern, new_slice))))"

definition seek_context ::
  "string \<Rightarrow> string list \<Rightarrow> nat \<Rightarrow> string option \<Rightarrow> nat patch_result" where
  "seek_context path original_lines line_index change_context =
     (case change_context of
        None \<Rightarrow> Inr line_index
      | Some context_line \<Rightarrow>
          and_then (seek_sequence original_lines [context_line] line_index False) (\<lambda>found.
          case found of
            None \<Rightarrow> Inl (PatchError (''Failed to find context '' @ quoted context_line @ '' in '' @ path))
          | Some index \<Rightarrow> Inr (index + 1)))"

fun replacements_from ::
  "string \<Rightarrow> string list \<Rightarrow> nat \<Rightarrow> update_file_chunk list \<Rightarrow> replacement list patch_result" where
  "replacements_from path original_lines line_index [] = Inr []"
| "replacements_from path original_lines line_index (chunk # chunks) =
     and_then (seek_context path original_lines line_index (uc_change_context chunk)) (\<lambda>line_index.
       if uc_old_lines chunk = [] then
         (let insertion_index =
            (if original_lines \<noteq> [] \<and> last original_lines = [] then length original_lines - 1
             else length original_lines) in
          and_then (replacements_from path original_lines line_index chunks) (\<lambda>rest.
            Inr ((insertion_index, 0, uc_new_lines chunk) # rest)))
       else
         and_then (locate_chunk path original_lines line_index chunk) (\<lambda>(start_index, old_len, new_slice).
         and_then (replacements_from path original_lines (start_index + old_len) chunks) (\<lambda>rest.
           Inr ((start_index, old_len, new_slice) # rest))))"

definition compute_replacements ::
  "string list \<Rightarrow> string \<Rightarrow> update_file_chunk list \<Rightarrow> replacement list patch_result" where
  "compute_replacements original_lines path chunks =
     and_then (replacements_from path original_lines 0 chunks) (\<lambda>replacements.
       Inr (sort_key fst replacements))"

text \<open>\<open>for _ in 0..old_len { if start < lines.len() { lines.remove(start) } }\<close>\<close>

primrec remove_lines :: "nat \<Rightarrow> nat \<Rightarrow> string list \<Rightarrow> string list" where
  "remove_lines start_index 0 lines = lines"
| "remove_lines start_index (Suc n) lines =
     remove_lines start_index n
       (if start_index < length lines then take start_index lines @ drop (Suc start_index) lines else lines)"

definition vec_insert :: "nat \<Rightarrow> 'a \<Rightarrow> 'a list \<Rightarrow> 'a list patch_result" where
  "vec_insert i x xs = (if i \<le> length xs then Inr (take i xs @ x # drop i xs) else Inl PatchPanic)"

primrec insert_lines :: "nat \<Rightarrow> string list \<Rightarrow> string list \<Rightarrow> string list patch_result" where
  "insert_lines at_index [] lines = Inr lines"
| "insert_lines at_index (l # ls) lines =
     and_then (vec_insert at_index l lines) (\<lambda>lines. insert_lines (Suc at_index) ls lines)"

definition apply_replacement :: "replacement \<Rightarrow> string list \<Rightarrow> string list patch_result" where
  "apply_replacement r lines =
     (case r of (start_index, old_len, new_segment) \<Rightarrow>
        insert_lines start_index new_segment (remove_lines start_index old_len lines))"

definition apply_replacements :: "string list \<Rightarrow> replacement list \<Rightarrow> string list patch_result" where
  "apply_replacements lines replacements =
     fold (\<lambda>r acc. and_then acc (apply_replacement r)) (rev replacements) (Inr lines)"

definition file_lines :: "string \<Rightarrow> string list" where
  "file_lines contents =
     (let lines = split_on CHR 0x0A contents in
      if lines \<noteq> [] \<and> last lines = [] then butlast lines else lines)"

definition with_final_newline :: "string list \<Rightarrow> string list" where
  "with_final_newline lines = (if lines \<noteq> [] \<and> last lines = [] then lines else lines @ [[]])"

definition derive_new_contents_from_chunks ::
  "string \<Rightarrow> string \<Rightarrow> update_file_chunk list \<Rightarrow> string patch_result" where
  "derive_new_contents_from_chunks path original_contents chunks =
     (let original_lines = file_lines original_contents in
      and_then (compute_replacements original_lines path chunks) (\<lambda>replacements.
      and_then (apply_replacements original_lines replacements) (\<lambda>new_lines.
      Inr (join_lines (with_final_newline new_lines)))))"

subsection \<open>Writing the files\<close>

record affected_paths =
  ap_added :: "string list"
  ap_modified :: "string list"
  ap_deleted :: "string list"

definition error_kind :: "bashkit_error \<Rightarrow> io_error_kind option" where
  "error_kind err = (case err of BashkitIo kind message \<Rightarrow> Some kind | BashkitOther message \<Rightarrow> None)"

definition resolve_virtual_path :: "(path \<Rightarrow> path) \<Rightarrow> path \<Rightarrow> string \<Rightarrow> path" where
  "resolve_virtual_path normpath cwd p =
     (let path = path_of_string p in normpath (if has_root path then path else path_join cwd path))"

definition ensure_not_directory :: "'w fs_ops \<Rightarrow> path \<Rightarrow> 'w \<Rightarrow> unit bashkit_result \<times> 'w" where
  "ensure_not_directory fs p w =
     and_run (fs_stat fs p w) (\<lambda>meta w.
       if md_file_type meta = Directory then (Inl (BashkitIo InvalidInput ''path is a directory''), w)
       else (Inr (), w))"

definition write_file_with_missing_parent_retry ::
  "'w fs_ops \<Rightarrow> path \<Rightarrow> string \<Rightarrow> 'w \<Rightarrow> unit bashkit_result \<times> 'w" where
  "write_file_with_missing_parent_retry fs p contents w =
     (case fs_write_file fs p contents w of
        (Inr u, w) \<Rightarrow> (Inr u, w)
      | (Inl err, w) \<Rightarrow>
          if error_kind err = Some NotFound then
            and_run (case path_parent p of Some parent \<Rightarrow> fs_mkdir fs parent True w | None \<Rightarrow> (Inr (), w))
              (\<lambda>_ w. fs_write_file fs p contents w)
          else (Inl err, w))"

definition read_text_file :: "'w fs_ops \<Rightarrow> path \<Rightarrow> 'w \<Rightarrow> string bashkit_result \<times> 'w" where
  "read_text_file fs p w = and_run (fs_read_file fs p w) (\<lambda>bytes w. (Inr (from_utf8_lossy bytes), w))"

text \<open>\<open>map_err(|err| format!(\"{what} {}: {err}\", path.display()))\<close>\<close>

definition patch_io_error ::
  "(bashkit_error \<Rightarrow> string) \<Rightarrow> (path \<Rightarrow> string) \<Rightarrow> string \<Rightarrow> path \<Rightarrow> 'a bashkit_result \<times> 'w \<Rightarrow>
   'a patch_result \<times> 'w" where
  "patch_io_error show_error display what p r =
     (case r of
        (Inl err, w) \<Rightarrow> (Inl (PatchError (what @ '' '' @ display p @ '': '' @ show_error err)), w)
      | (Inr a, w) \<Rightarrow> (Inr a, w))"

definition apply_hunk ::
  "(bashkit_error \<Rightarrow> string) \<Rightarrow> (path \<Rightarrow> string) \<Rightarrow> (path \<Rightarrow> path) \<Rightarrow> 'w fs_ops \<Rightarrow> path \<Rightarrow> hunk \<Rightarrow>
   affected_paths \<Rightarrow> 'w \<Rightarrow> affected_paths patch_result \<times> 'w" where
  "apply_hunk show_error display normpath fs cwd h affected w =
     (case h of
        AddFile path contents \<Rightarrow>
          (let target = resolve_virtual_path normpath cwd path in
           and_run (patch_io_error show_error display ''Failed to write file'' target
               (write_file_with_missing_parent_retry fs target contents w)) (\<lambda>_ w.
             (Inr (affected\<lparr>ap_added := ap_added affected @ [hunk_path h]\<rparr>), w)))
      | DeleteFile path \<Rightarrow>
          (let target = resolve_virtual_path normpath cwd path in
           and_run (patch_io_error show_error display ''Failed to delete file'' target
               (ensure_not_directory fs target w)) (\<lambda>_ w.
           and_run (patch_io_error show_error display ''Failed to delete file'' target
               (fs_remove fs target False w)) (\<lambda>_ w.
             (Inr (affected\<lparr>ap_deleted := ap_deleted affected @ [hunk_path h]\<rparr>), w))))
      | UpdateFile path move_path chunks \<Rightarrow>
          (let source = resolve_virtual_path normpath cwd path in
           and_run (patch_io_error show_error display ''Failed to read file to update'' source
               (read_text_file fs source w)) (\<lambda>original_contents w.
           or_return (derive_new_contents_from_chunks (display source) original_contents chunks) w (\<lambda>new_contents.
           and_run
             (case move_path of
                Some move_path \<Rightarrow>
                  (let dest = resolve_virtual_path normpath cwd move_path in
                   and_run (patch_io_error show_error display ''Failed to write file'' dest
                       (write_file_with_missing_parent_retry fs dest new_contents w)) (\<lambda>_ w.
                   and_run (patch_io_error show_error display ''Failed to remove original'' source
                       (ensure_not_directory fs source w)) (\<lambda>_ w.
                   patch_io_error show_error display ''Failed to remove original'' source
                       (fs_remove fs source False w))))
              | None \<Rightarrow>
                  patch_io_error show_error display ''Failed to write file'' source
                    (fs_write_file fs source new_contents w)) (\<lambda>_ w.
             (Inr (affected\<lparr>ap_modified := ap_modified affected @ [hunk_path h]\<rparr>), w))))))"

fun apply_hunks ::
  "(bashkit_error \<Rightarrow> string) \<Rightarrow> (path \<Rightarrow> string) \<Rightarrow> (path \<Rightarrow> path) \<Rightarrow> 'w fs_ops \<Rightarrow> path \<Rightarrow> hunk list \<Rightarrow>
   affected_paths \<Rightarrow> 'w \<Rightarrow> affected_paths patch_result \<times> 'w" where
  "apply_hunks show_error display normpath fs cwd [] affected w = (Inr affected, w)"
| "apply_hunks show_error display normpath fs cwd (h # hs) affected w =
     and_run (apply_hunk show_error display normpath fs cwd h affected w) (\<lambda>affected w.
       apply_hunks show_error display normpath fs cwd hs affected w)"

definition print_summary :: "affected_paths \<Rightarrow> string" where
  "print_summary affected =
     ''Success. Updated the following files:'' @ newline @
     concat (map (\<lambda>p. ''A '' @ p @ newline) (ap_added affected)) @
     concat (map (\<lambda>p. ''M '' @ p @ newline) (ap_modified affected)) @
     concat (map (\<lambda>p. ''D '' @ p @ newline) (ap_deleted affected))"

definition apply_patch_to_bashkit ::
  "(bashkit_error \<Rightarrow> string) \<Rightarrow> (path \<Rightarrow> string) \<Rightarrow> (path \<Rightarrow> path) \<Rightarrow> 'w fs_ops \<Rightarrow> path \<Rightarrow> string \<Rightarrow>
   'w \<Rightarrow> string patch_result \<times> 'w" where
  "apply_patch_to_bashkit show_error display normpath fs cwd patch w =
     or_return (parse_patch patch) w (\<lambda>hunks.
       if hunks = [] then (Inl (PatchError ''No files were modified.''), w)
       else and_run
         (apply_hunks show_error display normpath fs cwd hunks
           \<lparr>ap_added = [], ap_modified = [], ap_deleted = []\<rparr> w)
         (\<lambda>affected w. (Inr (print_summary affected), w)))"

end
