(* ===== verification/Patch_Printing.thy ===== *)
theory Patch_Printing
  imports Patch_Language
begin

section \<open>Printing patches\<close>

text \<open>
  A printer for the patch language and the proof that the parser reads back what it prints: every
  list of hunks whose paths and lines can be written in the language has a text that parses to it.
\<close>

subsection \<open>The printer\<close>

definition render_chunk :: "update_file_chunk \<Rightarrow> string list" where
  "render_chunk c =
     (case uc_change_context c of
        None \<Rightarrow> EMPTY_CHANGE_CONTEXT_MARKER | Some ctx \<Rightarrow> CHANGE_CONTEXT_MARKER @ ctx) #
     map (Cons CHR ''-'') (uc_old_lines c) @ map (Cons CHR ''+'') (uc_new_lines c) @
     (if uc_is_end_of_file c then [EOF_MARKER] else [])"

fun render_hunk :: "hunk \<Rightarrow> string list" where
  "render_hunk (AddFile path contents) =
     (ADD_FILE_MARKER @ path) # map (Cons CHR ''+'') (butlast (split_on CHR 0x0A contents))"
| "render_hunk (DeleteFile path) = [DELETE_FILE_MARKER @ path]"
| "render_hunk (UpdateFile path move_path chunks) =
     (UPDATE_FILE_MARKER @ path) #
     (case move_path of None \<Rightarrow> [] | Some to_path \<Rightarrow> [MOVE_TO_MARKER @ to_path]) @
     concat (map render_chunk chunks)"

definition render_patch :: "hunk list \<Rightarrow> string" where
  "render_patch hunks =
     join_lines (BEGIN_PATCH_MARKER # concat (map render_hunk hunks) @ [END_PATCH_MARKER])"

text \<open>What can be written: lines without line ends, paths that end in a visible character, no empty chunk.\<close>

definition printable_line :: "string \<Rightarrow> bool" where
  "printable_line l \<longleftrightarrow> CHR 0x0A \<notin> set l \<and> (l = [] \<or> last l \<noteq> CHR 0x0D)"

definition printable_path :: "string \<Rightarrow> bool" where
  "printable_path p \<longleftrightarrow> printable_line p \<and> p \<noteq> [] \<and> \<not> trailing_whitespace p"

definition printable_chunk :: "update_file_chunk \<Rightarrow> bool" where
  "printable_chunk c \<longleftrightarrow>
     uc_old_lines c @ uc_new_lines c \<noteq> [] \<and>
     list_all printable_line (uc_old_lines c) \<and> list_all printable_line (uc_new_lines c) \<and>
     (case uc_change_context c of None \<Rightarrow> True | Some ctx \<Rightarrow> printable_line ctx)"

fun printable_hunk :: "hunk \<Rightarrow> bool" where
  "printable_hunk (AddFile path contents) \<longleftrightarrow>
     printable_path path \<and>
     (let ls = split_on CHR 0x0A contents in last ls = [] \<and> list_all printable_line (butlast ls))"
| "printable_hunk (DeleteFile path) \<longleftrightarrow> printable_path path"
| "printable_hunk (UpdateFile path move_path chunks) \<longleftrightarrow>
     printable_path path \<and> (case move_path of None \<Rightarrow> True | Some to_path \<Rightarrow> printable_line to_path) \<and>
     chunks \<noteq> [] \<and> list_all printable_chunk chunks"

subsection \<open>Lines of a text\<close>

lemma split_on_nonempty: "split_on c s \<noteq> []"
  by (induction s) (auto split: list.splits)

lemma split_join_lines:
  "ls \<noteq> [] \<Longrightarrow> list_all (\<lambda>l. CHR 0x0A \<notin> set l) ls \<Longrightarrow> split_on CHR 0x0A (join_lines ls) = ls"
proof (induction ls rule: join_lines.induct)
  case (3 l k ls)
  then show ?case using split_on_append [of "CHR 0x0A" l "join_lines (k # ls)"]
    by (simp add: newline_def)
qed (simp_all add: split_on_none)

lemma strip_cr_printable: "printable_line l \<Longrightarrow> strip_cr l = l"
  by (auto simp: printable_line_def strip_cr_def)

lemma str_lines_join:
  assumes "ls \<noteq> []" and "list_all printable_line ls" and "last ls \<noteq> []"
  shows "str_lines (join_lines ls) = ls"
proof -
  have "list_all (\<lambda>l. CHR 0x0A \<notin> set l) ls"
    using assms(2) by (auto simp: list_all_iff printable_line_def)
  then have "split_on CHR 0x0A (join_lines ls) = ls" using assms(1) by (rule split_join_lines [rotated])
  moreover have "map strip_cr (butlast ls) = butlast ls"
    using assms(2) by (intro map_idI) (auto simp: list_all_iff strip_cr_printable dest: in_set_butlastD)
  ultimately show ?thesis using assms(1,3) by (simp add: str_lines_def)
qed

lemma concat_split_lines:
  "last (split_on CHR 0x0A s) = [] \<Longrightarrow>
   concat (map (\<lambda>l. l @ newline) (butlast (split_on CHR 0x0A s))) = s"
proof (induction s)
  case (Cons x s)
  obtain p ps where ps: "split_on CHR 0x0A s = p # ps" using split_on_nonempty by (cases "split_on CHR 0x0A s") auto
  show ?case
  proof (cases "x = CHR 0x0A")
    case True
    then show ?thesis using Cons ps by (simp add: newline_def)
  next
    case False
    then have "ps \<noteq> []" using Cons.prems ps by auto
    then show ?thesis using Cons False ps by (simp add: newline_def)
  qed
qed (simp add: newline_def)

subsection \<open>White space around markers\<close>

text \<open>A character that starts no white space.\<close>

definition visible :: "char \<Rightarrow> bool" where
  "visible c \<longleftrightarrow> (\<forall>w \<in> set whitespace_encodings. hd w \<noteq> c)"

lemma visible_no_leading: "visible c \<Longrightarrow> \<not> leading_whitespace (c # s)"
  using whitespace_nonempty
  by (auto simp: visible_def leading_whitespace_def starts_with_prefix prefix_def)
    (metis append_Cons list.sel(1) neq_Nil_conv)

lemma trim_end_visible: "visible c \<Longrightarrow> trim_end (c # s) \<noteq> []"
proof (induction "c # s" arbitrary: s rule: trim_end.induct)
  case 1
  show ?case
  proof (cases "find (ends_with (c # s)) whitespace_encodings")
    case None
    then show ?thesis by (subst trim_end.simps) simp
  next
    case (Some w)
    then have w: "ends_with (c # s) w" "w \<in> set whitespace_encodings" using find_SomeD by metis+
    then obtain u where u: "c # s = u @ w" by (auto simp: ends_with_suffix suffix_def)
    have "u \<noteq> []" using u w(2) 1(2) by (force simp: visible_def)
    then obtain t where t: "take (length (c # s) - length w) (c # s) = c # t"
      using u by (cases u) auto
    then show ?thesis using 1(1) [OF Some t] 1(2) Some by (subst trim_end.simps) (simp add: t)
  qed
qed

lemma trim_visible: "visible c \<Longrightarrow> trim (c # s) \<noteq> []"
  by (simp add: trim_def trim_start_fix visible_no_leading trim_end_visible)

lemma visible_markers: "visible CHR ''*''" "visible CHR ''@''"
  by (simp_all add: visible_def whitespace_encodings_def)

lemma space_only_alone: "w \<in> set whitespace_encodings \<Longrightarrow> CHR '' '' \<in> set w \<Longrightarrow> length w = 1"
  by (auto simp: whitespace_encodings_def)

lemma no_trailing_after_space:
  assumes "\<not> trailing_whitespace p" and "p \<noteq> []"
  shows "\<not> trailing_whitespace (m @ CHR '' '' # p)"
proof
  assume "trailing_whitespace (m @ CHR '' '' # p)"
  then obtain w where w: "w \<in> set whitespace_encodings" "suffix w (m @ CHR '' '' # p)"
    by (auto simp: trailing_whitespace_def ends_with_suffix)
  have "\<not> suffix w p" using assms(1) w(1) by (auto simp: trailing_whitespace_def ends_with_suffix)
  then have "suffix (CHR '' '' # p) w"
    using w(2) by (metis (no_types, lifting) suffix_Cons suffix_appendI suffix_order.refl
        suffix_same_cases append_Cons)
  then obtain u where u: "w = u @ CHR '' '' # p" by (auto simp: suffix_def)
  then have "length w = 1" using space_only_alone [OF w(1)] by simp
  then show False using u assms(2) by simp
qed

lemma trim_header:
  assumes "printable_path p"
  shows "trim (CHR ''*'' # m @ CHR '' '' # p) = CHR ''*'' # m @ CHR '' '' # p"
  using assms no_trailing_after_space [of p "CHR ''*'' # m"] visible_no_leading [OF visible_markers(1)]
  by (simp add: trim_fix printable_path_def)

subsection \<open>Reading a chunk back\<close>

text \<open>The line after a chunk or a hunk: nothing, or a line that can only start the next one.\<close>

definition ends_chunk :: "string list \<Rightarrow> bool" where
  "ends_chunk rest \<longleftrightarrow> (case rest of [] \<Rightarrow> True
     | l # _ \<Rightarrow> l \<noteq> EOF_MARKER \<and> l \<noteq> [] \<and> (hd l = CHR ''@'' \<or> hd l = CHR ''*''))"

definition ends_hunk :: "string list \<Rightarrow> bool" where
  "ends_hunk rest \<longleftrightarrow> (case rest of [] \<Rightarrow> True
     | l # _ \<Rightarrow> l \<noteq> EOF_MARKER \<and> l \<noteq> [] \<and> hd l = CHR ''*'')"

lemma ends_hunk_chunk: "ends_hunk rest \<Longrightarrow> ends_chunk rest"
  by (auto simp: ends_hunk_def ends_chunk_def split: list.splits)

lemma eof_marker_head: "EOF_MARKER = CHR ''*'' # ''** End of File''"
  by (simp add: EOF_MARKER_def)

lemma parse_old_lines:
  "parse_chunk_lines n c k (map (Cons CHR ''-'') ls @ rest) =
   parse_chunk_lines n (c\<lparr>uc_old_lines := uc_old_lines c @ ls\<rparr>) (k + length ls) rest"
  by (induction ls arbitrary: c k) (simp_all add: eof_marker_head)

lemma parse_new_lines:
  "parse_chunk_lines n c k (map (Cons CHR ''+'') ls @ rest) =
   parse_chunk_lines n (c\<lparr>uc_new_lines := uc_new_lines c @ ls\<rparr>) (k + length ls) rest"
  by (induction ls arbitrary: c k) (simp_all add: eof_marker_head)

lemma parse_chunk_end:
  "0 < k \<Longrightarrow> ends_chunk rest \<Longrightarrow> parse_chunk_lines n c k rest = Inr (c, k)"
  by (cases rest) (auto simp: ends_chunk_def split: list.splits)

lemma parse_render_chunk:
  assumes "printable_chunk c" and "ends_chunk rest"
  shows "parse_update_file_chunk (render_chunk c @ rest) n allow = Inr (c, length (render_chunk c))"
proof -
  let ?body = "map (Cons CHR ''-'') (uc_old_lines c) @ map (Cons CHR ''+'') (uc_new_lines c) @
    (if uc_is_end_of_file c then [EOF_MARKER] else []) @ rest"
  obtain line where lines: "render_chunk c @ rest = line # ?body"
    and header: "chunk_header line n allow = Inr (uc_change_context c, 1)"
    by (cases "uc_change_context c")
      (simp_all add: render_chunk_def chunk_header_def CHANGE_CONTEXT_MARKER_def strip_prefix_def
        EMPTY_CHANGE_CONTEXT_MARKER_def)
  have some: "0 < length (uc_old_lines c) + length (uc_new_lines c)" and body: "?body \<noteq> []"
    using assms(1) by (auto simp: printable_chunk_def)
  have "parse_chunk_lines n (empty_chunk (uc_change_context c)) 0 ?body =
      Inr (c, length (uc_old_lines c) + length (uc_new_lines c) + (if uc_is_end_of_file c then 1 else 0))"
    using some assms(2) parse_chunk_end
    by (auto simp: parse_old_lines parse_new_lines empty_chunk_def)
  then show ?thesis
    using header body unfolding lines parse_update_file_chunk_def
    by (simp add: render_chunk_def)
qed

lemma render_chunk_head:
  "\<exists>line body. render_chunk c = line # body \<and> (\<exists>s. line = CHR ''@'' # s)"
  by (simp add: render_chunk_def EMPTY_CHANGE_CONTEXT_MARKER_def CHANGE_CONTEXT_MARKER_def split: option.splits)

lemma render_chunks_end:
  assumes "ends_hunk rest"
  shows "ends_chunk (concat (map render_chunk cs) @ rest)"
proof (cases cs)
  case Nil
  then show ?thesis using assms by (simp add: ends_hunk_chunk)
next
  case (Cons c cs')
  obtain s body where "render_chunk c = (CHR ''@'' # s) # body" using render_chunk_head [of c] by blast
  then show ?thesis using Cons by (simp add: ends_chunk_def eof_marker_head)
qed

lemma parse_render_chunks:
  assumes "list_all printable_chunk cs" and "ends_hunk rest"
  shows "parse_chunks n k acc (concat (map render_chunk cs) @ rest) =
    Inr (acc @ cs, k + length (concat (map render_chunk cs)))"
  using assms(1)
proof (induction cs arbitrary: k acc)
  case Nil
  show ?case
  proof (cases rest)
    case Nil
    then show ?thesis by (simp add: parse_chunks.simps)
  next
    case (Cons l ls)
    then obtain s where "l = CHR ''*'' # s" using assms(2) by (cases l) (auto simp: ends_hunk_def)
    then show ?thesis
      using Cons trim_visible [OF visible_markers(1), of s]
      by (subst parse_chunks.simps) (simp add: starts_with_def)
  qed
next
  case (Cons c cs)
  let ?rest = "concat (map render_chunk cs) @ rest"
  obtain s body where c: "render_chunk c = (CHR ''@'' # s) # body" using render_chunk_head [of c] by blast
  have chunk: "parse_update_file_chunk (render_chunk c @ ?rest) (n + k) (acc = []) =
      Inr (c, length (render_chunk c))"
    using Cons.prems by (intro parse_render_chunk render_chunks_end assms(2)) simp_all
  have "parse_chunks n k acc (render_chunk c @ ?rest) =
      parse_chunks n (k + length (render_chunk c)) (acc @ [c]) ?rest"
    using chunk trim_visible [OF visible_markers(2), of s]
    by (subst parse_chunks.simps) (simp add: c starts_with_def slice_from_def)
  then show ?case using Cons.IH [of "k + length (render_chunk c)" "acc @ [c]"] Cons.prems by (simp add: ac_simps)
qed

subsection \<open>Reading a patch back\<close>

lemma header_trims:
  assumes "printable_path p"
  shows "trim (ADD_FILE_MARKER @ p) = ADD_FILE_MARKER @ p"
    "trim (DELETE_FILE_MARKER @ p) = DELETE_FILE_MARKER @ p"
    "trim (UPDATE_FILE_MARKER @ p) = UPDATE_FILE_MARKER @ p"
  using trim_header [OF assms, of "''** Add File:''"] trim_header [OF assms, of "''** Delete File:''"]
    trim_header [OF assms, of "''** Update File:''"]
  by (simp_all add: patch_markers)

lemma strip_own_marker: "strip_prefix m (m @ p) = Some p"
  by (simp add: strip_prefix_def)

lemma strip_other_markers:
  "strip_prefix ADD_FILE_MARKER (DELETE_FILE_MARKER @ p) = None"
  "strip_prefix ADD_FILE_MARKER (UPDATE_FILE_MARKER @ p) = None"
  "strip_prefix DELETE_FILE_MARKER (UPDATE_FILE_MARKER @ p) = None"
  "strip_prefix MOVE_TO_MARKER (CHR ''@'' # s) = None"
  by (simp_all add: strip_prefix_def patch_markers)

lemma header_line:
  "line = ADD_FILE_MARKER @ p \<or> line = DELETE_FILE_MARKER @ p \<or> line = UPDATE_FILE_MARKER @ p \<Longrightarrow>
   \<exists>s. line = CHR ''*'' # s \<and> line \<noteq> EOF_MARKER \<and> strip_prefix ENVIRONMENT_ID_MARKER line = None"
  by (auto simp: patch_markers strip_prefix_def)

lemma render_hunk_head:
  obtains s body where "render_hunk h = (CHR ''*'' # s) # body" "CHR ''*'' # s \<noteq> EOF_MARKER"
    "strip_prefix ENVIRONMENT_ID_MARKER (CHR ''*'' # s) = None"
proof -
  obtain line body p where "render_hunk h = line # body"
    and "line = ADD_FILE_MARKER @ p \<or> line = DELETE_FILE_MARKER @ p \<or> line = UPDATE_FILE_MARKER @ p"
    by (cases h) auto
  then show thesis using header_line that by metis
qed

lemma render_hunks_end: "ends_hunk (concat (map render_hunk hs))"
proof (cases hs)
  case (Cons h hs')
  obtain s body where "render_hunk h = (CHR ''*'' # s) # body" "CHR ''*'' # s \<noteq> EOF_MARKER"
    by (rule render_hunk_head)
  then show ?thesis using Cons by (simp add: ends_hunk_def)
qed (simp add: ends_hunk_def)

lemma takeWhile_added:
  assumes "ends_hunk rest"
  shows "takeWhile (\<lambda>l. starts_with l ''+'') (map (Cons CHR ''+'') ls @ rest) = map (Cons CHR ''+'') ls"
proof (induction ls)
  case Nil
  have "\<not> starts_with l ''+''" if "rest = l # ls" for l ls
    using assms that by (cases l) (auto simp: ends_hunk_def starts_with_def)
  then show ?case by (cases rest) simp_all
qed (simp add: starts_with_def)

lemma parse_render_hunk:
  assumes "printable_hunk h" and "ends_hunk rest"
  shows "parse_one_hunk (render_hunk h @ rest) n = Inr (h, length (render_hunk h))"
proof (cases h)
  case (AddFile p contents)
  have p: "printable_path p" and contents: "last (split_on CHR 0x0A contents) = []"
    using assms(1) AddFile by (simp_all add: Let_def)
  have tls: "map (\<lambda>l. tl l @ newline) (map (Cons CHR ''+'') ls) = map (\<lambda>l. l @ newline) ls" for ls by simp
  show ?thesis
    using concat_split_lines [OF contents]
    by (simp add: AddFile parse_one_hunk_def Let_def header_trims [OF p] strip_own_marker
        takeWhile_added [OF assms(2)] comp_def)
next
  case (DeleteFile p)
  then have "printable_path p" using assms(1) by simp
  then show ?thesis
    by (simp add: DeleteFile parse_one_hunk_def header_trims strip_own_marker strip_other_markers)
next
  case (UpdateFile p mv cs)
  then have p: "printable_path p" and cs: "cs \<noteq> []" "list_all printable_chunk cs"
    using assms(1) by simp_all
  obtain c cs' where "cs = c # cs'" using cs(1) by (cases cs) auto
  then obtain s body where body: "concat (map render_chunk cs) @ rest = (CHR ''@'' # s) # body"
    using render_chunk_head [of c] by auto
  note chunks = parse_render_chunks [OF cs(2) assms(2)]
  show ?thesis
  proof (cases mv)
    case None
    have "parse_one_hunk ((UPDATE_FILE_MARKER @ p) # concat (map render_chunk cs) @ rest) n =
        Inr (UpdateFile p None cs, 1 + length (concat (map render_chunk cs)))"
      using cs(1) chunks [of n 1 "[]"] body
      by (simp add: parse_one_hunk_def Let_def header_trims [OF p] strip_own_marker strip_other_markers)
    then show ?thesis by (simp add: UpdateFile None)
  next
    case (Some q)
    have "parse_one_hunk ((UPDATE_FILE_MARKER @ p) # (MOVE_TO_MARKER @ q) # concat (map render_chunk cs) @ rest) n =
        Inr (UpdateFile p (Some q) cs, 2 + length (concat (map render_chunk cs)))"
      using cs(1) chunks [of n 2 "[]"]
      by (simp add: parse_one_hunk_def Let_def header_trims [OF p] strip_own_marker strip_other_markers)
    then show ?thesis by (simp add: UpdateFile Some)
  qed
qed

lemma parse_render_hunks:
  "list_all printable_hunk hs \<Longrightarrow> parse_hunks n (concat (map render_hunk hs)) = Inr hs"
proof (induction hs arbitrary: n)
  case Nil
  then show ?case by (simp add: parse_hunks.simps)
next
  case (Cons h hs)
  let ?rest = "concat (map render_hunk hs)"
  have one: "parse_one_hunk (render_hunk h @ ?rest) n = Inr (h, length (render_hunk h))"
    using Cons.prems by (intro parse_render_hunk render_hunks_end) simp
  have "render_hunk h @ ?rest \<noteq> []" by (rule render_hunk_head [of h]) simp
  then show ?case
    using one Cons.IH [of "n + length (render_hunk h)"] Cons.prems
    by (subst parse_hunks.simps) (simp add: slice_from_def)
qed

lemma printable_append:
  "printable_line p \<Longrightarrow> printable_line m \<Longrightarrow> printable_line (m @ p)"
  by (auto simp: printable_line_def last_append)

lemma printable_Cons: "printable_line l \<Longrightarrow> c \<noteq> CHR 0x0A \<Longrightarrow> c \<noteq> CHR 0x0D \<Longrightarrow> printable_line (c # l)"
  by (auto simp: printable_line_def)

lemma printable_markers:
  "printable_line BEGIN_PATCH_MARKER" "printable_line END_PATCH_MARKER" "printable_line ADD_FILE_MARKER"
  "printable_line DELETE_FILE_MARKER" "printable_line UPDATE_FILE_MARKER" "printable_line MOVE_TO_MARKER"
  "printable_line EOF_MARKER" "printable_line CHANGE_CONTEXT_MARKER" "printable_line EMPTY_CHANGE_CONTEXT_MARKER"
  by (simp_all add: printable_line_def patch_markers)

lemma render_chunk_printable: "printable_chunk c \<Longrightarrow> list_all printable_line (render_chunk c)"
  by (auto simp: printable_chunk_def render_chunk_def list_all_iff printable_markers
      intro: printable_append printable_Cons split: option.splits)

lemma render_hunk_printable: "printable_hunk h \<Longrightarrow> list_all printable_line (render_hunk h)"
  using render_chunk_printable
  by (cases h) (auto simp: Let_def list_all_iff printable_path_def printable_markers
      intro!: printable_append printable_Cons split: option.splits)

lemma trim_markers: "trim BEGIN_PATCH_MARKER = BEGIN_PATCH_MARKER" "trim END_PATCH_MARKER = END_PATCH_MARKER"
  by (rule trim_fix; simp add: leading_whitespace_def trailing_whitespace_def whitespace_encodings_def
      starts_with_def ends_with_def patch_markers)+

lemma join_lines_snoc: "ls \<noteq> [] \<Longrightarrow> join_lines (ls @ [l]) = join_lines ls @ newline @ l"
  by (induction ls rule: join_lines.induct) simp_all

lemma join_lines_head: "join_lines (l # ls) = l @ (if ls = [] then [] else newline @ join_lines ls)"
  by (cases ls) simp_all

lemma end_marker_nonempty: "END_PATCH_MARKER \<noteq> []"
  by (simp add: END_PATCH_MARKER_def)

lemma trim_patch: "trim (render_patch hs) = render_patch hs"
proof (rule trim_fix)
  show "\<not> leading_whitespace (render_patch hs)"
    using visible_no_leading [OF visible_markers(1)]
    by (simp add: render_patch_def join_lines_head BEGIN_PATCH_MARKER_def)
  have "render_patch hs = (join_lines (BEGIN_PATCH_MARKER # concat (map render_hunk hs)) @ newline @ ''*** End'') @
      CHR '' '' # ''Patch''"
    using join_lines_snoc [of "BEGIN_PATCH_MARKER # concat (map render_hunk hs)" END_PATCH_MARKER]
    by (simp add: render_patch_def END_PATCH_MARKER_def)
  moreover have "\<not> trailing_whitespace ''Patch''"
    by (simp add: trailing_whitespace_def whitespace_encodings_def ends_with_def)
  ultimately show "\<not> trailing_whitespace (render_patch hs)"
    by (metis list.distinct(1) no_trailing_after_space)
qed

lemma parse_render_patch:
  assumes "list_all printable_hunk hs"
  shows "parse_patch (render_patch hs) = Inr hs"
proof -
  let ?body = "concat (map render_hunk hs)"
  let ?lines = "BEGIN_PATCH_MARKER # ?body @ [END_PATCH_MARKER]"
  have "list_all printable_line ?body"
    using assms render_hunk_printable by (fastforce simp: list_all_iff)
  then have lines: "str_lines (render_patch hs) = ?lines"
    unfolding render_patch_def
    by (intro str_lines_join) (simp_all add: printable_markers end_marker_nonempty)
  have "check_patch_boundaries_lenient ?lines = Inr ?body"
    by (simp add: check_patch_boundaries_lenient_def check_start_and_end_lines_def Let_def trim_markers
        inner_slice_def)
  moreover have "parse_environment_id_preamble ?body = Inr (None, ?body, 2)"
  proof (cases hs)
    case (Cons h hs')
    obtain s body where "render_hunk h = (CHR ''*'' # s) # body"
      "strip_prefix ENVIRONMENT_ID_MARKER (CHR ''*'' # s) = None"
      by (rule render_hunk_head)
    then show ?thesis
      using Cons visible_no_leading [OF visible_markers(1), of s]
      by (simp add: parse_environment_id_preamble_def trim_start_fix)
  qed (simp add: parse_environment_id_preamble_def)
  ultimately show ?thesis
    using parse_render_hunks [OF assms, of 2] by (simp add: parse_patch_def trim_patch lines)
qed

text \<open>
  C28. The parser reads back every patch that can be written: any list of hunks, additions, deletions
  and updates with moves, contexts and end-of-file marks, whose paths and lines are printable has a text
  that parses to exactly that list.
\<close>

theorem patch_roundtrip:
  assumes "list_all printable_hunk hs"
  shows "parse_patch (render_patch hs) = Inr hs"
  using assms by (rule parse_render_patch)

theorem patch_roundtrip_witness:
  "parse_patch (render_patch
     [AddFile ''a'' (''x'' @ newline), DeleteFile ''b'',
      UpdateFile ''c'' (Some ''d'')
        [\<lparr>uc_change_context = Some ''fn'', uc_old_lines = [''y''], uc_new_lines = [''z''],
          uc_is_end_of_file = True\<rparr>]]) =
   Inr [AddFile ''a'' (''x'' @ newline), DeleteFile ''b'',
      UpdateFile ''c'' (Some ''d'')
        [\<lparr>uc_change_context = Some ''fn'', uc_old_lines = [''y''], uc_new_lines = [''z''],
          uc_is_end_of_file = True\<rparr>]]"
  by (rule patch_roundtrip)
    (simp add: printable_path_def printable_line_def printable_chunk_def trailing_whitespace_def
      whitespace_encodings_def ends_with_def newline_def Let_def)

end
