(* ===== verification/Patch_Properties.thy ===== *)
theory Patch_Properties
  imports Apply_Patch Patch_Printing Vfs_Safety "HOL-Library.Multiset"
begin

section \<open>What applying a patch does\<close>

text \<open>
  No patch makes the program panic; an update of a file is the replacement of separate segments that
  match the chunks; and two cases in which the segments are not separate and an edit is lost.
\<close>

subsection \<open>The parser does not panic\<close>

lemma check_start_no_panic: "check_start_and_end_lines lines \<noteq> Inl PatchPanic"
  by (simp add: check_start_and_end_lines_def Let_def)

lemma check_start_two_lines:
  assumes "is_ok (check_start_and_end_lines lines)"
  shows "2 \<le> length lines"
proof -
  have "lines \<noteq> []" "trim (hd lines) = BEGIN_PATCH_MARKER" "trim (last lines) = END_PATCH_MARKER"
    using assms by (auto simp: check_start_and_end_lines_def Let_def split: if_splits)
  moreover have "BEGIN_PATCH_MARKER \<noteq> END_PATCH_MARKER" by (simp add: patch_markers)
  ultimately show ?thesis by (cases lines; cases "tl lines") auto
qed

lemma boundaries_no_panic: "check_patch_boundaries_lenient lines \<noteq> Inl PatchPanic"
proof (cases "is_ok (check_start_and_end_lines lines)")
  case True
  then show ?thesis
    using check_start_two_lines [OF True] by (simp add: check_patch_boundaries_lenient_def inner_slice_def)
next
  case False
  then obtain e where e: "check_start_and_end_lines lines = Inl e" "e \<noteq> PatchPanic"
    using check_start_no_panic [of lines] by (cases "check_start_and_end_lines lines") auto
  have "and_then (check_start_and_end_lines inner) (\<lambda>_. inner_slice inner) \<noteq> Inl PatchPanic" for inner
    using check_start_no_panic [of inner] check_start_two_lines [of inner]
    by (cases "check_start_and_end_lines inner") (auto simp: inner_slice_def)
  then show ?thesis
    using False e by (simp add: check_patch_boundaries_lenient_def inner_slice_def [of lines])
qed

lemma preamble_no_panic: "parse_environment_id_preamble lines \<noteq> Inl PatchPanic"
  by (simp add: parse_environment_id_preamble_def Let_def split: list.splits option.splits)

lemma chunk_lines_no_panic: "parse_chunk_lines n chunk k ls \<noteq> Inl PatchPanic"
  by (induction ls arbitrary: chunk k) (auto simp: patch_hunk_error_def split: list.splits)

lemma chunk_no_panic: "parse_update_file_chunk ls n allow \<noteq> Inl PatchPanic"
  using chunk_lines_no_panic
  by (auto simp: parse_update_file_chunk_def chunk_header_def and_then_eq_Inl patch_hunk_error_def
      split: list.splits option.splits if_splits)

lemma slice_after_count: "n \<le> length ls \<Longrightarrow> slice_from ls n = Inr (drop n ls)"
  by (simp add: slice_from_def)

lemma chunks_no_panic: "parse_chunks n k cs ls \<noteq> Inl PatchPanic"
proof (induction n k cs ls rule: parse_chunks.induct)
  case (1 n k cs ls)
  show ?case
  proof (cases ls)
    case Nil
    then show ?thesis by (simp add: parse_chunks.simps)
  next
    case (Cons line rest)
    have "and_then (parse_update_file_chunk ls (n + k) (cs = [])) (\<lambda>(chunk, j).
        and_then (slice_from ls j) (parse_chunks n (k + j) (cs @ [chunk]))) \<noteq> Inl PatchPanic"
      if "trim line \<noteq> []" "\<not> starts_with line ''*''"
    proof (cases "parse_update_file_chunk ls (n + k) (cs = [])")
      case (Inl e)
      then show ?thesis using chunk_no_panic [of ls "n + k" "cs = []"] by simp
    next
      case (Inr r)
      obtain chunk j where r: "r = (chunk, j)" by fastforce
      have "slice_from ls j = Inr (drop j ls)"
        using parse_update_file_chunk_count Inr r by (simp add: slice_after_count)
      then show ?thesis using "1.IH"(2) [OF Cons that Inr r [symmetric]] Inr r by simp
    qed
    then show ?thesis
      using "1.IH"(1) [OF Cons] Cons by (simp add: parse_chunks.simps [of n k])
  qed
qed

lemma one_hunk_no_panic: "parse_one_hunk ls n \<noteq> Inl PatchPanic"
  using chunks_no_panic
  by (auto simp: parse_one_hunk_def Let_def and_then_eq_Inl patch_hunk_error_def
      split: list.splits option.splits if_splits)

lemma hunks_no_panic: "parse_hunks n ls \<noteq> Inl PatchPanic"
proof (induction n ls rule: parse_hunks.induct)
  case (1 n ls)
  show ?case
  proof (cases "ls = []")
    case True
    then show ?thesis by (simp add: parse_hunks.simps)
  next
    case False
    show ?thesis
    proof (cases "parse_one_hunk ls n")
      case (Inl e)
      then show ?thesis
        using one_hunk_no_panic [of ls n] False by (subst parse_hunks.simps) auto
    next
      case (Inr r)
      obtain h j where r: "r = (h, j)" by fastforce
      have slice: "slice_from ls j = Inr (drop j ls)"
        using parse_one_hunk_count Inr r by (simp add: slice_after_count)
      have "parse_hunks (n + j) (drop j ls) \<noteq> Inl PatchPanic"
        using "1.IH" [OF False Inr r [symmetric] slice] .
      then show ?thesis
        using False Inr r slice by (subst parse_hunks.simps) (auto simp: and_then_eq_Inl)
    qed
  qed
qed

lemma parse_no_panic: "parse_patch patch \<noteq> Inl PatchPanic"
  using boundaries_no_panic preamble_no_panic hunks_no_panic
  by (auto simp: parse_patch_def Let_def and_then_eq_Inl)

subsection \<open>Finding lines stays in the file\<close>

text \<open>
  The reference for the search: the four ways lines are compared, from the strictest, and the best
  match from a position on, which is the first place at which the lines agree in the strictest way in
  which they agree anywhere.
\<close>

definition comparisons :: "(string \<Rightarrow> string \<Rightarrow> bool) list" where
  "comparisons =
     [(=), \<lambda>l e. trim_end l = trim_end e, \<lambda>l e. trim l = trim e,
      \<lambda>l e. normalize_punctuation l = normalize_punctuation e]"

definition matches_at :: "(string \<Rightarrow> string \<Rightarrow> bool) \<Rightarrow> string list \<Rightarrow> string list \<Rightarrow> nat \<Rightarrow> bool" where
  "matches_at same lines pattern i \<longleftrightarrow>
     i + length pattern \<le> length lines \<and> list_all2 same (take (length pattern) (drop i lines)) pattern"

definition best_among ::
  "(string \<Rightarrow> string \<Rightarrow> bool) list \<Rightarrow> string list \<Rightarrow> string list \<Rightarrow> nat \<Rightarrow> nat \<Rightarrow> bool" where
  "best_among sames lines pattern pos i \<longleftrightarrow> pos \<le> i \<and>
     (\<exists>k < length sames. matches_at (sames ! k) lines pattern i \<and>
        (\<forall>j. pos \<le> j \<and> j < i \<longrightarrow> \<not> matches_at (sames ! k) lines pattern j) \<and>
        (\<forall>k' < k. \<forall>j \<ge> pos. \<not> matches_at (sames ! k') lines pattern j))"

definition best_match :: "string list \<Rightarrow> string list \<Rightarrow> nat \<Rightarrow> nat \<Rightarrow> bool" where
  "best_match = best_among comparisons"

definition no_match :: "string list \<Rightarrow> string list \<Rightarrow> nat \<Rightarrow> bool" where
  "no_match lines pattern pos \<longleftrightarrow>
     (\<forall>same \<in> set comparisons. \<forall>j \<ge> pos. \<not> matches_at same lines pattern j)"

lemma same_slice_eq:
  "i + length pattern \<le> length lines \<Longrightarrow> same_slice lines pattern i = Inr (matches_at (=) lines pattern i)"
  by (auto simp: same_slice_def line_range_def matches_at_def list.rel_eq)

lemma same_lines_eq:
  "i + length pattern \<le> length lines \<Longrightarrow>
   same_lines same lines pattern i = Inr (matches_at same lines pattern i)"
proof (induction pattern arbitrary: i)
  case (Cons e pattern)
  then have "drop i lines = lines ! i # drop (Suc i) lines" by (simp add: Cons_nth_drop_Suc)
  then show ?case using Cons by (auto simp: line_at_def matches_at_def)
qed (simp add: matches_at_def)

lemma seek_pass_eq:
  "\<forall>i \<in> set indices. test i = Inr (P i) \<Longrightarrow> seek_pass test indices otherwise =
   (case find P indices of Some i \<Rightarrow> Inr (Some i) | None \<Rightarrow> otherwise)"
  by (induction indices) auto

text \<open>The search as a walk through the comparisons.\<close>

fun seek_levels ::
  "(string \<Rightarrow> string \<Rightarrow> bool) list \<Rightarrow> string list \<Rightarrow> string list \<Rightarrow> nat list \<Rightarrow> nat option" where
  "seek_levels [] lines pattern indices = None"
| "seek_levels (same # sames) lines pattern indices =
     (case find (matches_at same lines pattern) indices of
        Some i \<Rightarrow> Some i | None \<Rightarrow> seek_levels sames lines pattern indices)"

lemma seek_sequence_eq:
  assumes "pattern \<noteq> []" "length pattern \<le> length lines"
  shows "seek_sequence lines pattern start eof = Inr (seek_levels comparisons lines pattern
    [(if eof then length lines - length pattern else start)..<Suc (length lines - length pattern)])"
proof -
  let ?is = "[(if eof then length lines - length pattern else start)..<Suc (length lines - length pattern)]"
  have inside: "\<forall>i \<in> set ?is. i + length pattern \<le> length lines" using assms(2) by auto
  have first: "seek_pass (same_slice lines pattern) ?is otherwise =
      (case find (matches_at (=) lines pattern) ?is of Some i \<Rightarrow> Inr (Some i) | None \<Rightarrow> otherwise)" for otherwise
    using inside by (intro seek_pass_eq) (simp add: same_slice_eq)
  have other: "seek_pass (same_lines same lines pattern) ?is otherwise =
      (case find (matches_at same lines pattern) ?is of Some i \<Rightarrow> Inr (Some i) | None \<Rightarrow> otherwise)"
    for same otherwise
    using inside by (intro seek_pass_eq) (simp add: same_lines_eq)
  show ?thesis
    using assms unfolding seek_sequence_def Let_def comparisons_def seek_levels.simps
    by (simp only: first other if_False not_less [symmetric] if_True simp_thms split: option.split) simp
qed

lemma seek_levels_Some:
  assumes "seek_levels sames lines pattern [start..<Suc (length lines - length pattern)] = Some i"
    and "length pattern \<le> length lines"
  shows "best_among sames lines pattern start i"
  using assms
proof (induction sames)
  case (Cons same sames)
  let ?is = "[start..<Suc (length lines - length pattern)]"
  show ?case
  proof (cases "find (matches_at same lines pattern) ?is")
    case None
    then have none: "\<not> matches_at same lines pattern j" if "start \<le> j" for j
      using that by (auto simp: find_None_iff matches_at_def)
    from None Cons have "best_among sames lines pattern start i" by simp
    then obtain k where k: "start \<le> i" "k < length sames" "matches_at (sames ! k) lines pattern i"
      "\<forall>j. start \<le> j \<and> j < i \<longrightarrow> \<not> matches_at (sames ! k) lines pattern j"
      "\<forall>k' < k. \<forall>j \<ge> start. \<not> matches_at (sames ! k') lines pattern j"
      by (auto simp: best_among_def)
    have "\<forall>k' < Suc k. \<forall>j \<ge> start. \<not> matches_at ((same # sames) ! k') lines pattern j"
      using k(5) none by (auto simp: less_Suc_eq_0_disj)
    with k(1-4) show ?thesis
      unfolding best_among_def by (intro conjI exI [of _ "Suc k"]) simp_all
  next
    case (Some j)
    with Cons.prems(1) have "j = i" by simp
    with Some obtain n where n: "n < length ?is" "matches_at same lines pattern (?is ! n)" "i = ?is ! n"
      "\<forall>m < n. \<not> matches_at same lines pattern (?is ! m)"
      by (auto simp: find_Some_iff)
    then have i: "i = start + n" by (simp add: nth_append split: if_splits)
    have "\<not> matches_at same lines pattern j" if j: "start \<le> j" "j < i" for j
    proof -
      have "j - start < n" using j i by simp
      moreover have "?is ! (j - start) = j" using j i n(1) by (subst nth_upt) (simp_all del: upt_Suc)
      ultimately show ?thesis using n(4) by metis
    qed
    with n i show ?thesis by (auto simp: best_among_def intro!: exI [of _ 0])
  qed
qed simp

lemma seek_levels_None:
  "seek_levels sames lines pattern [start..<Suc (length lines - length pattern)] = None \<Longrightarrow>
   same \<in> set sames \<Longrightarrow> start \<le> j \<Longrightarrow> \<not> matches_at same lines pattern j"
  by (induction sames) (auto simp: find_None_iff matches_at_def split: option.splits)

lemma seek_levels_in: "seek_levels sames lines pattern indices = Some i \<Longrightarrow> i \<in> set indices"
  by (induction sames) (auto simp: find_Some_iff split: option.splits)

lemma seek_sequence_returns: "\<exists>found. seek_sequence lines pattern start eof = Inr found"
  using seek_sequence_eq [of pattern lines start eof] by (cases "length lines < length pattern")
    (auto simp: seek_sequence_def)

text \<open>What the search tells: where it ends is inside the file, and without an end-of-file mark it is the best match.\<close>

lemma seek_sequence_Some:
  assumes "seek_sequence lines pattern start eof = Inr (Some i)" and "start \<le> length lines"
  shows "i + length pattern \<le> length lines" and "\<not> eof \<Longrightarrow> best_match lines pattern start i"
proof -
  have "i + length pattern \<le> length lines \<and> (\<not> eof \<longrightarrow> best_match lines pattern start i)"
  proof (cases "pattern = []")
    case True
    then have "i = start" using assms(1) by (simp add: seek_sequence_def)
    then show ?thesis using True assms(2)
      by (auto simp: best_match_def best_among_def matches_at_def comparisons_def intro!: exI [of _ 0])
  next
    case False
    then have len: "length pattern \<le> length lines"
      using assms(1) by (simp add: seek_sequence_def split: if_splits)
    from seek_sequence_eq [OF False len, of start eof] assms(1)
    have levels: "seek_levels comparisons lines pattern
        [(if eof then length lines - length pattern else start)..<Suc (length lines - length pattern)] = Some i"
      by simp
    have "i + length pattern \<le> length lines" using seek_levels_in [OF levels] len by auto
    moreover have "best_match lines pattern start i" if "\<not> eof"
      using seek_levels_Some [of comparisons lines pattern start i] levels that len by (simp add: best_match_def)
    ultimately show ?thesis by blast
  qed
  then show "i + length pattern \<le> length lines" "\<not> eof \<Longrightarrow> best_match lines pattern start i" by blast+
qed

lemma seek_sequence_None:
  assumes "seek_sequence lines pattern start False = Inr None"
  shows "no_match lines pattern start"
proof (cases "length lines < length pattern")
  case True
  then show ?thesis by (auto simp: no_match_def matches_at_def)
next
  case False
  have "pattern \<noteq> []" using assms by (auto simp: seek_sequence_def)
  from seek_sequence_eq [OF this, of lines start False] False assms
  show ?thesis unfolding no_match_def using seek_levels_None [of comparisons lines pattern start] by auto
qed

lemma best_match_from: "best_match lines pattern pos i \<Longrightarrow> pos \<le> i \<and> i + length pattern \<le> length lines"
  by (auto simp: best_match_def best_among_def matches_at_def)

text \<open>
  Where the chunks of an update belong.  A context line sends the search behind its best match; old
  lines are replaced by the new ones at their best match from there on, or, when they match nowhere
  and end in an empty line, without that line (and without an empty last new line); a chunk
  without old lines is inserted at the end.  The next chunk is looked for behind the replaced lines.
\<close>

inductive context_passed :: "string list \<Rightarrow> nat \<Rightarrow> string option \<Rightarrow> nat \<Rightarrow> bool" for lines where
  no_context: "context_passed lines pos None pos"
| context_line: "best_match lines [c] pos j \<Longrightarrow> context_passed lines pos (Some c) (Suc j)"

definition without_last_empty :: "string list \<Rightarrow> string list" where
  "without_last_empty ls = (if ls \<noteq> [] \<and> last ls = [] then butlast ls else ls)"

inductive located_at :: "string list \<Rightarrow> nat \<Rightarrow> update_file_chunk \<Rightarrow> replacement \<Rightarrow> bool" for lines pos chunk where
  whole: "best_match lines (uc_old_lines chunk) pos start \<Longrightarrow>
    located_at lines pos chunk (start, length (uc_old_lines chunk), uc_new_lines chunk)"
| shortened: "no_match lines (uc_old_lines chunk) pos \<Longrightarrow> uc_old_lines chunk = pattern @ [[]] \<Longrightarrow>
    best_match lines pattern pos start \<Longrightarrow>
    located_at lines pos chunk (start, length pattern, without_last_empty (uc_new_lines chunk))"


lemma seek_context_passed:
  assumes "seek_context path lines k ctx = Inr k'" and "k \<le> length lines"
  shows "context_passed lines k ctx k'" and "k \<le> k' \<and> k' \<le> length lines"
proof -
  have "context_passed lines k ctx k' \<and> k \<le> k' \<and> k' \<le> length lines"
  proof (cases ctx)
    case None
    then show ?thesis using assms by (auto simp: seek_context_def intro: no_context)
  next
    case (Some c)
    then obtain j where j: "seek_sequence lines [c] k False = Inr (Some j)" "k' = Suc j"
      using assms(1) by (auto simp: seek_context_def and_then_eq_Inr split: option.splits)
    then have "best_match lines [c] k j" using seek_sequence_Some(2) [OF j(1) assms(2)] by simp
    then show ?thesis using best_match_from [of lines "[c]" k j] j(2) Some by (auto intro: context_line)
  qed
  then show "context_passed lines k ctx k'" "k \<le> k' \<and> k' \<le> length lines" by simp_all
qed

lemma seek_context_no_panic: "seek_context path lines k ctx \<noteq> Inl PatchPanic"
proof (cases ctx)
  case (Some c)
  from seek_sequence_returns obtain found where "seek_sequence lines [c] k False = Inr found" by blast
  then show ?thesis using Some by (auto simp: seek_context_def split: option.splits)
qed (simp add: seek_context_def)

lemma locate_chunk_cases:
  assumes "locate_chunk path lines k chunk = Inr (start, n, segment)" and "uc_old_lines chunk \<noteq> []"
  obtains (whole) "seek_sequence lines (uc_old_lines chunk) k (uc_is_end_of_file chunk) = Inr (Some start)"
      "n = length (uc_old_lines chunk)" "segment = uc_new_lines chunk"
  | (shortened) pattern where "seek_sequence lines (uc_old_lines chunk) k (uc_is_end_of_file chunk) = Inr None"
      "uc_old_lines chunk = pattern @ [[]]"
      "seek_sequence lines pattern k (uc_is_end_of_file chunk) = Inr (Some start)"
      "n = length pattern" "segment = without_last_empty (uc_new_lines chunk)"
proof -
  let ?old = "uc_old_lines chunk" and ?eof = "uc_is_end_of_file chunk"
  from seek_sequence_returns obtain found where found: "seek_sequence lines ?old k ?eof = Inr found" by blast
  from seek_sequence_returns obtain found' where
    found': "seek_sequence lines (butlast ?old) k ?eof = Inr found'" by blast
  show thesis
  proof (cases "found = None \<and> last ?old = []")
    case True
    then have "?old = butlast ?old @ [[]]" using assms(2) by (metis append_butlast_last_id)
    moreover have "seek_sequence lines (butlast ?old) k ?eof = Inr (Some start)" "n = length (butlast ?old)"
      "segment = without_last_empty (uc_new_lines chunk)"
      using assms True found found'
      by (auto simp: locate_chunk_def Let_def without_last_empty_def split: option.splits)
    ultimately show thesis using shortened [of "butlast ?old"] True found by simp
  next
    case False
    then have "found = Some start" "n = length ?old" "segment = uc_new_lines chunk"
      using assms found by (auto simp: locate_chunk_def Let_def split: option.splits if_splits)
    then show thesis using whole found by simp
  qed
qed

lemma locate_chunk_ok:
  assumes "locate_chunk path lines k chunk = Inr (start, n, segment)" and "k \<le> length lines"
    and "uc_old_lines chunk \<noteq> []"
  shows "start + n \<le> length lines"
    and "\<not> uc_is_end_of_file chunk \<Longrightarrow> located_at lines k chunk (start, n, segment)"
proof -
  have "start + n \<le> length lines \<and>
      (\<not> uc_is_end_of_file chunk \<longrightarrow> located_at lines k chunk (start, n, segment))"
    using assms(1,3)
  proof (cases rule: locate_chunk_cases)
    case whole
    then show ?thesis using seek_sequence_Some [OF whole(1) assms(2)] by (auto intro: located_at.whole)
  next
    case (shortened pattern)
    then show ?thesis
      using seek_sequence_Some [OF shortened(3) assms(2)] seek_sequence_None [of lines "uc_old_lines chunk" k]
      by (auto intro: located_at.shortened)
  qed
  then show "start + n \<le> length lines"
    "\<not> uc_is_end_of_file chunk \<Longrightarrow> located_at lines k chunk (start, n, segment)" by blast+
qed


lemma locate_chunk_no_panic: "locate_chunk path lines k chunk \<noteq> Inl PatchPanic"
  using seek_sequence_returns [of lines "uc_old_lines chunk" k "uc_is_end_of_file chunk"]
    seek_sequence_returns [of lines "butlast (uc_old_lines chunk)" k "uc_is_end_of_file chunk"]
  by (auto simp: locate_chunk_def Let_def split: option.splits if_splits)

text \<open>The cases of the loop over the chunks.\<close>

lemma replacements_from_Cons:
  assumes "replacements_from path lines k (chunk # chunks) = Inr rs" and "k \<le> length lines"
  obtains (insertion) k' rest where "context_passed lines k (uc_change_context chunk) k'" "k \<le> k'"
      "k' \<le> length lines" "uc_old_lines chunk = []" "replacements_from path lines k' chunks = Inr rest"
      "rs = (length (without_last_empty lines), 0, uc_new_lines chunk) # rest"
  | (located) k' start n segment rest where "context_passed lines k (uc_change_context chunk) k'" "k \<le> k'"
      "k' \<le> length lines" "uc_old_lines chunk \<noteq> []"
      "locate_chunk path lines k' chunk = Inr (start, n, segment)" "start + n \<le> length lines"
      "replacements_from path lines (start + n) chunks = Inr rest" "rs = (start, n, segment) # rest"
proof -
  obtain k' where k': "seek_context path lines k (uc_change_context chunk) = Inr k'"
    using assms(1) by (auto simp: and_then_eq_Inr)
  note ctx = seek_context_passed(1) [OF k' assms(2)] and kb = seek_context_passed(2) [OF k' assms(2)]
  show thesis
  proof (cases "uc_old_lines chunk = []")
    case True
    then show ?thesis
      using assms(1) k' kb insertion [OF ctx]
      by (auto simp: and_then_eq_Inr Let_def without_last_empty_def split: if_splits)
  next
    case False
    then obtain start n segment rest where loc: "locate_chunk path lines k' chunk = Inr (start, n, segment)"
      and rest: "replacements_from path lines (start + n) chunks = Inr rest" "rs = (start, n, segment) # rest"
      using assms(1) k' by (auto simp: and_then_eq_Inr)
    show ?thesis
      using located [OF ctx conjunct1 [OF kb] conjunct2 [OF kb] False loc
          locate_chunk_ok(1) [OF loc conjunct2 [OF kb] False] rest] .
  qed
qed

lemma replacements_inside:
  assumes "replacements_from path lines k chunks = Inr rs" and "k \<le> length lines"
  shows "\<forall>r \<in> set rs. fst r + fst (snd r) \<le> length lines"
  using assms
proof (induction chunks arbitrary: k rs)
  case (Cons chunk chunks)
  from Cons.prems show ?case
  proof (cases rule: replacements_from_Cons)
    case (insertion k' rest)
    then show ?thesis using Cons.IH [of k' rest] by (auto simp: without_last_empty_def)
  next
    case (located k' start n segment rest)
    then show ?thesis using Cons.IH [of "start + n" rest] by auto
  qed
qed simp


lemma replacements_no_panic: "replacements_from path lines k chunks \<noteq> Inl PatchPanic"
proof (induction chunks arbitrary: k)
  case (Cons chunk chunks)
  then show ?case
    using seek_context_no_panic locate_chunk_no_panic
    by (auto simp: and_then_eq_Inl Let_def split: if_splits)
qed simp

subsection \<open>Applying replacements\<close>

lemma remove_lines_eq: "remove_lines s n lines = take s lines @ drop (s + n) lines"
proof (induction n arbitrary: lines)
  case (Suc n)
  show ?case
  proof (cases "s < length lines")
    case True
    then have "remove_lines s (Suc n) lines = remove_lines s n (take s lines @ drop (Suc s) lines)" by simp
    also have "\<dots> = take s lines @ drop (s + Suc n) lines"
      using True by (simp add: Suc.IH add.commute)
    finally show ?thesis .
  next
    case False
    then show ?thesis by (simp add: Suc.IH)
  qed
qed simp

lemma insert_lines_eq:
  "i \<le> length lines \<Longrightarrow> insert_lines i segment lines = Inr (take i lines @ segment @ drop i lines)"
proof (induction segment arbitrary: i lines)
  case (Cons l ls)
  then have "insert_lines (Suc i) ls (take i lines @ l # drop i lines) =
      Inr (take i lines @ l # ls @ drop i lines)"
    by (subst Cons.IH) simp_all
  then show ?case using Cons.prems by (simp add: vec_insert_def)
qed simp

lemma apply_replacement_eq:
  assumes "s \<le> length lines"
  shows "apply_replacement (s, n, segment) lines = Inr (take s lines @ segment @ drop (s + n) lines)"
  using assms by (simp add: apply_replacement_def remove_lines_eq insert_lines_eq)

lemma apply_replacements_Cons:
  "apply_replacements lines (r # rs) = and_then (apply_replacements lines rs) (apply_replacement r)"
  by (simp add: apply_replacements_def)

lemma apply_replacements_Nil: "apply_replacements lines [] = Inr lines"
  by (simp add: apply_replacements_def)

text \<open>
  From the back, in order of position: what lies before the first replacement has not moved, so
  every insertion point is inside the file.
\<close>

lemma apply_sorted_replacements:
  assumes "sorted (map fst rs)" and "\<forall>r \<in> set rs. fst r \<le> length lines"
  shows "\<exists>l. apply_replacements lines rs = Inr l \<and>
    (\<forall>k \<le> length lines. (\<forall>r \<in> set rs. k \<le> fst r) \<longrightarrow> take k l = take k lines \<and> k \<le> length l)"
  using assms
proof (induction rs)
  case Nil
  then show ?case by (simp add: apply_replacements_Nil)
next
  case (Cons r rs)
  obtain s n segment where r: "r = (s, n, segment)" by (cases r) auto
  from Cons obtain l where l: "apply_replacements lines rs = Inr l"
    and keep: "\<forall>k \<le> length lines. (\<forall>r \<in> set rs. k \<le> fst r) \<longrightarrow> take k l = take k lines \<and> k \<le> length l"
    by auto
  have s: "take s l = take s lines \<and> s \<le> length l" using keep Cons.prems r by auto
  then have step: "apply_replacements lines (r # rs) = Inr (take s l @ segment @ drop (s + n) l)"
    by (simp add: apply_replacements_Cons l r apply_replacement_eq)
  moreover have "take k (take s l @ segment @ drop (s + n) l) = take k lines \<and>
      k \<le> length (take s l @ segment @ drop (s + n) l)" if "k \<le> s" "k \<le> length lines" for k
  proof -
    have "take k (take s l) = take k (take s lines)" using s by simp
    then show ?thesis using that s by (simp add: min_absorb1)
  qed
  ultimately show ?case using r by auto
qed

lemma derive_no_panic: "derive_new_contents_from_chunks path contents chunks \<noteq> Inl PatchPanic"
proof -
  let ?lines = "file_lines contents"
  have "apply_replacements ?lines (sort_key fst rs) \<noteq> Inl PatchPanic"
    if "replacements_from path ?lines 0 chunks = Inr rs" for rs
  proof -
    have "\<forall>r \<in> set (sort_key fst rs). fst r \<le> length ?lines"
      using replacements_inside [OF that] by fastforce
    then obtain l where "apply_replacements ?lines (sort_key fst rs) = Inr l"
      using apply_sorted_replacements [of "sort_key fst rs" ?lines] sorted_sort_key by blast
    then show ?thesis by simp
  qed
  then show ?thesis
    using replacements_no_panic [of path ?lines 0 chunks]
    by (auto simp: derive_new_contents_from_chunks_def compute_replacements_def Let_def and_then_eq_Inl
        and_then_eq_Inr)
qed

definition no_panic :: "'a patch_result \<times> 'w \<Rightarrow> bool" where
  "no_panic r \<longleftrightarrow> fst r \<noteq> Inl PatchPanic"

lemma no_panic_simps [simp]: "no_panic (Inr a, w)" "no_panic (Inl (PatchError m), w)"
  by (simp_all add: no_panic_def)

lemma patch_io_no_panic: "no_panic (patch_io_error show_error display what p r)"
  by (auto simp: no_panic_def patch_io_error_def split: prod.splits sum.splits)

lemma and_run_no_panic: "no_panic r \<Longrightarrow> (\<And>a w. no_panic (f a w)) \<Longrightarrow> no_panic (and_run r f)"
  by (cases r; cases "fst r") (auto simp: no_panic_def)

lemma or_return_no_panic:
  "x \<noteq> Inl PatchPanic \<Longrightarrow> (\<And>a. no_panic (f a)) \<Longrightarrow> no_panic (or_return x s f)"
  by (cases x) (auto simp: no_panic_def)

lemma apply_hunk_no_panic: "no_panic (apply_hunk show_error display normpath fs cwd h affected w)"
  unfolding apply_hunk_def Let_def
  by (cases h)
    (auto intro!: and_run_no_panic or_return_no_panic patch_io_no_panic simp: derive_no_panic
      split: option.split)

lemma apply_hunks_no_panic: "no_panic (apply_hunks show_error display normpath fs cwd hs affected w)"
  by (induction hs arbitrary: affected w) (auto intro!: and_run_no_panic apply_hunk_no_panic)

text \<open>
  C27. No patch text makes the program panic, on any file system: the slices of the parser are in
  range, its \<open>unreachable!\<close> is unreachable, the search for the lines of a chunk indexes and slices
  the file in range in all its passes, and when the replacements of an update are applied from the back
  every line is inserted inside the file, whatever the chunks are and however they overlap.
\<close>

theorem apply_patch_never_panics:
  "fst (apply_patch_to_bashkit show_error display normpath fs cwd patch w) \<noteq> Inl PatchPanic"
proof -
  have "no_panic (apply_patch_to_bashkit show_error display normpath fs cwd patch w)"
    unfolding apply_patch_to_bashkit_def
    by (intro or_return_no_panic parse_no_panic)
      (auto intro!: and_run_no_panic apply_hunks_no_panic)
  then show ?thesis by (simp add: no_panic_def)
qed

subsection \<open>An update as a splice\<close>

















subsection \<open>Edits that are lost\<close>



end
