(* ===== verification/Object_Mount.thy ===== *)
theory Object_Mount
  imports Virtual_Files Utf8_Text
begin

section \<open>Mounts backed by an object store\<close>

text \<open>
  \<open>ManagedObjectStoreFs\<close> of \<^verbatim>\<open>src/crates/verlet-vfs/src/lib.rs\<close>: a file system whose files are objects
  of a store.  Writes go to a local file system and are queued; \<open>flush\<close> replays the queue on the store.
  Files read from the store, or written back to it, stay local as clean copies within a budget.

  The local file system (\<open>bashkit::InMemoryFs\<close>) and the store (the trait \<open>object_store::ObjectStore\<close>) are
  the records \<open>fs_ops\<close> and \<open>object_store\<close> of their operations over states of their own; what their calls
  leave behind is kept in the fields \<open>mo_state\<close> and \<open>mo_store\<close>.  An object path is the list of its
  encoded segments, the encoding of one segment being an argument.  The calls of one mount do not overlap.
  The two counters are natural numbers.
\<close>

subsection \<open>The object store\<close>

type_synonym object_path = "string list"

datatype object_store_error = ObjectNotFound string | ObjectOther string

record object_meta =
  om_location :: object_path
  om_size :: u64
  om_last_modified :: i64

record list_result =
  lr_common_prefixes :: "object_path list"
  lr_objects :: "object_meta list"

type_synonym 'a object_result = "object_store_error + 'a"

text \<open>\<open>get\<close> returns a reader; the inner result is that of reading it to the end.\<close>

record 's object_store =
  os_get :: "object_path \<Rightarrow> 's \<Rightarrow> string object_result object_result \<times> 's"
  os_put :: "object_path \<Rightarrow> string \<Rightarrow> 's \<Rightarrow> unit object_result \<times> 's"
  os_delete :: "object_path \<Rightarrow> 's \<Rightarrow> unit object_result \<times> 's"
  os_head :: "object_path \<Rightarrow> 's \<Rightarrow> object_meta object_result \<times> 's"
  os_list :: "object_path option \<Rightarrow> 's \<Rightarrow> object_meta list object_result \<times> 's"
  os_list_with_delimiter :: "object_path option \<Rightarrow> 's \<Rightarrow> list_result object_result \<times> 's"

record ('l, 's) object_env =
  oe_normpath :: "path \<Rightarrow> path"
  oe_encode :: "string \<Rightarrow> string"
  oe_fs :: "'l fs_ops"
  oe_os :: "'s object_store"
  oe_now :: i64

definition object_error :: "object_store_error \<Rightarrow> bashkit_error" where
  "object_error err =
     (case err of
        ObjectNotFound message \<Rightarrow> BashkitIo NotFound message
      | ObjectOther message \<Rightarrow> BashkitIo OtherKind message)"

definition map_object_error :: "'a object_result \<times> 's \<Rightarrow> 'a bashkit_result \<times> 's" where
  "map_object_error r = (map_sum object_error id (fst r), snd r)"

definition ignore_not_found :: "unit object_result \<times> 's \<Rightarrow> unit bashkit_result \<times> 's" where
  "ignore_not_found r =
     (case fst r of
        Inr u \<Rightarrow> Inr u
      | Inl (ObjectNotFound message) \<Rightarrow> Inr ()
      | Inl (ObjectOther message) \<Rightarrow> Inl (object_error (ObjectOther message)), snd r)"

subsection \<open>Keys\<close>

definition trim_start_slash :: "string \<Rightarrow> string" where
  "trim_start_slash s = dropWhile (\<lambda>c. c = CHR ''/'') s"

definition trim_end_slash :: "string \<Rightarrow> string" where
  "trim_end_slash s = rev (dropWhile (\<lambda>c. c = CHR ''/'') (rev s))"

definition normalize_object_prefix :: "string \<Rightarrow> string" where
  "normalize_object_prefix p =
     (let p = trim_start_slash p in
      if p \<noteq> [] \<and> \<not> ends_with p ''/'' then p @ ''/'' else p)"

fun join_slash :: "string list \<Rightarrow> string" where
  "join_slash [] = []"
| "join_slash [s] = s"
| "join_slash (s # t # ss) = s @ CHR ''/'' # join_slash (t # ss)"

fun component_text :: "component \<Rightarrow> string" where
  "component_text RootDir = []"
| "component_text CurDir = ''.''"
| "component_text ParentDir = ''..''"
| "component_text (Normal s) = s"

definition path_text :: "path \<Rightarrow> string" where
  "path_text p = (if p = [RootDir] then ''/'' else join_slash (map component_text p))"

definition relative_vfs_key :: "(path \<Rightarrow> path) \<Rightarrow> path \<Rightarrow> string" where
  "relative_vfs_key normpath p =
     trim_start_slash (from_utf8_lossy (path_text (normalize_vfs_path normpath p)))"

text \<open>\<open>object_store::path::Path::from\<close>: empty segments are dropped and each other one is encoded.\<close>

definition object_path_from :: "(string \<Rightarrow> string) \<Rightarrow> string \<Rightarrow> object_path" where
  "object_path_from encode key = map encode (filter (\<lambda>s. s \<noteq> []) (split_on CHR ''/'' key))"

definition object_path_of :: "(string \<Rightarrow> string) \<Rightarrow> string \<Rightarrow> object_path" where
  "object_path_of encode key = (if key = [] then [] else object_path_from encode key)"

definition object_prefix_path :: "(string \<Rightarrow> string) \<Rightarrow> string \<Rightarrow> object_path option" where
  "object_prefix_path encode key =
     (let key = trim_end_slash key in if key = [] then None else Some (object_path_from encode key))"

definition rebase_path :: "(path \<Rightarrow> path) \<Rightarrow> path \<Rightarrow> path \<Rightarrow> path \<Rightarrow> path" where
  "rebase_path normpath p0 from0 to0 =
     (let p = normalize_vfs_path normpath p0; from = normalize_vfs_path normpath from0;
          to = normalize_vfs_path normpath to0 in
      if p = from then to
      else case path_strip_prefix p from of
          Some rest \<Rightarrow> normalize_vfs_path normpath (path_join to rest)
        | None \<Rightarrow> p)"

subsection \<open>The state of a mount\<close>

record object_store_cache_policy =
  cp_max_clean_file_bytes :: nat
  cp_max_clean_file_count :: nat
  cp_max_single_file_bytes :: nat

definition cache_policy_disabled :: object_store_cache_policy where
  "cache_policy_disabled =
     \<lparr>cp_max_clean_file_bytes = 0, cp_max_clean_file_count = 0, cp_max_single_file_bytes = 0\<rparr>"

definition cache_policy_bounded :: "nat \<Rightarrow> nat \<Rightarrow> nat \<Rightarrow> object_store_cache_policy" where
  "cache_policy_bounded max_clean_file_bytes max_clean_file_count max_single_file_bytes =
     \<lparr>cp_max_clean_file_bytes = max_clean_file_bytes, cp_max_clean_file_count = max_clean_file_count,
      cp_max_single_file_bytes = max_single_file_bytes\<rparr>"

definition cache_policy_default :: object_store_cache_policy where
  "cache_policy_default = cache_policy_bounded (32 * 1024 * 1024) 1024 (1024 * 1024)"

definition should_track :: "object_store_cache_policy \<Rightarrow> nat \<Rightarrow> bool" where
  "should_track policy size0 \<longleftrightarrow>
     0 < cp_max_clean_file_bytes policy \<and> 0 < cp_max_clean_file_count policy \<and>
     size0 \<le> cp_max_single_file_bytes policy"

record cached_clean_file =
  ccf_size :: nat
  ccf_last_access :: nat

datatype object_store_writeback = WbPutFile path | WbPutDir path | WbDeleteFile path | WbDeleteDir path

fun writeback_path :: "object_store_writeback \<Rightarrow> path" where
  "writeback_path (WbPutFile p) = p"
| "writeback_path (WbPutDir p) = p"
| "writeback_path (WbDeleteFile p) = p"
| "writeback_path (WbDeleteDir p) = p"

record queued_writeback =
  qw_id :: nat
  qw_op :: object_store_writeback

record ('l, 's) managed_fs =
  mo_store :: 's
  mo_prefix :: string
  mo_state :: 'l
  mo_policy :: object_store_cache_policy
  mo_cache :: "(path, cached_clean_file) btmap"
  mo_cache_clock :: nat
  mo_dirty :: "queued_writeback list"
  mo_dirty_clock :: nat
  mo_deleted :: "path set"

definition managed_from_store :: "'s \<Rightarrow> string \<Rightarrow> 'l \<Rightarrow> ('l, 's) managed_fs" where
  "managed_from_store store p empty_state =
     \<lparr>mo_store = store, mo_prefix = normalize_object_prefix p, mo_state = empty_state,
      mo_policy = cache_policy_default, mo_cache = [], mo_cache_clock = 0, mo_dirty = [],
      mo_dirty_clock = 0, mo_deleted = {}\<rparr>"

definition with_cache_policy ::
  "object_store_cache_policy \<Rightarrow> ('l, 's) managed_fs \<Rightarrow> ('l, 's) managed_fs" where
  "with_cache_policy policy m = m\<lparr>mo_policy := policy\<rparr>"

definition on_local :: "('l \<Rightarrow> 'r \<times> 'l) \<Rightarrow> ('l, 's) managed_fs \<Rightarrow> 'r \<times> ('l, 's) managed_fs" where
  "on_local f m = (case f (mo_state m) of (r, l) \<Rightarrow> (r, m\<lparr>mo_state := l\<rparr>))"

definition on_store :: "('s \<Rightarrow> 'r \<times> 's) \<Rightarrow> ('l, 's) managed_fs \<Rightarrow> 'r \<times> ('l, 's) managed_fs" where
  "on_store f m = (case f (mo_store m) of (r, s) \<Rightarrow> (r, m\<lparr>mo_store := s\<rparr>))"

text \<open>\<open>self.state.exists(path).await.unwrap_or(false)\<close>\<close>

definition local_exists :: "('l, 's) object_env \<Rightarrow> path \<Rightarrow> ('l, 's) managed_fs \<Rightarrow> bool \<times> ('l, 's) managed_fs" where
  "local_exists env p m =
     (case on_local (fs_exists (oe_fs env) p) m of
        (Inr b, m) \<Rightarrow> (b, m) | (Inl e, m) \<Rightarrow> (False, m))"

definition norm :: "('l, 's) object_env \<Rightarrow> path \<Rightarrow> path" where
  "norm env p = normalize_vfs_path (oe_normpath env) p"

definition key_for_file :: "('l, 's) object_env \<Rightarrow> ('l, 's) managed_fs \<Rightarrow> path \<Rightarrow> string" where
  "key_for_file env m p =
     (let rel = relative_vfs_key (oe_normpath env) p in
      if rel = [] then trim_end_slash (mo_prefix m) else mo_prefix m @ rel)"

definition key_for_dir_prefix :: "('l, 's) object_env \<Rightarrow> ('l, 's) managed_fs \<Rightarrow> path \<Rightarrow> string" where
  "key_for_dir_prefix env m p =
     (let rel = relative_vfs_key (oe_normpath env) p in
      if rel = [] then mo_prefix m else mo_prefix m @ rel @ ''/'')"

definition key_for_dir_marker :: "('l, 's) object_env \<Rightarrow> ('l, 's) managed_fs \<Rightarrow> path \<Rightarrow> string" where
  "key_for_dir_marker env m p = key_for_dir_prefix env m p @ ''.dir''"

definition file_object :: "('l, 's) object_env \<Rightarrow> ('l, 's) managed_fs \<Rightarrow> path \<Rightarrow> object_path" where
  "file_object env m p = object_path_of (oe_encode env) (key_for_file env m p)"

definition marker_object :: "('l, 's) object_env \<Rightarrow> ('l, 's) managed_fs \<Rightarrow> path \<Rightarrow> object_path" where
  "marker_object env m p = object_path_of (oe_encode env) (key_for_dir_marker env m p)"

subsection \<open>Queue, clean copies and deletion marks\<close>

definition push_dirty :: "object_store_writeback \<Rightarrow> ('l, 's) managed_fs \<Rightarrow> ('l, 's) managed_fs" where
  "push_dirty op m =
     (let id0 = mo_dirty_clock m + 1 in
      m\<lparr>mo_dirty_clock := id0, mo_dirty := mo_dirty m @ [\<lparr>qw_id = id0, qw_op = op\<rparr>]\<rparr>)"

definition next_cache_access :: "('l, 's) managed_fs \<Rightarrow> nat \<times> ('l, 's) managed_fs" where
  "next_cache_access m = (mo_cache_clock m + 1, m\<lparr>mo_cache_clock := mo_cache_clock m + 1\<rparr>)"

definition dirty_paths :: "('l, 's) object_env \<Rightarrow> ('l, 's) managed_fs \<Rightarrow> path set" where
  "dirty_paths env m = set (map (\<lambda>queued. norm env (writeback_path (qw_op queued))) (mo_dirty m))"

definition rewrite_pending_put :: "('l, 's) object_env \<Rightarrow> path \<Rightarrow> path \<Rightarrow> queued_writeback \<Rightarrow> queued_writeback" where
  "rewrite_pending_put env from to queued =
     (case qw_op queued of
        WbPutFile p \<Rightarrow>
          if prefix from p then queued\<lparr>qw_op := WbPutFile (rebase_path (oe_normpath env) p from to)\<rparr> else queued
      | WbPutDir p \<Rightarrow>
          if prefix from p then queued\<lparr>qw_op := WbPutDir (rebase_path (oe_normpath env) p from to)\<rparr> else queued
      | _ \<Rightarrow> queued)"

definition rewrite_pending_puts_for_rename ::
  "('l, 's) object_env \<Rightarrow> path \<Rightarrow> path \<Rightarrow> ('l, 's) managed_fs \<Rightarrow> ('l, 's) managed_fs" where
  "rewrite_pending_puts_for_rename env from to m =
     m\<lparr>mo_dirty := map (rewrite_pending_put env (norm env from) (norm env to)) (mo_dirty m)\<rparr>"

definition mark_clean_cached ::
  "('l, 's) object_env \<Rightarrow> path \<Rightarrow> nat \<Rightarrow> ('l, 's) managed_fs \<Rightarrow> ('l, 's) managed_fs" where
  "mark_clean_cached env p0 size0 m =
     (let p = norm env p0 in
      if should_track (mo_policy m) size0 then
        (case next_cache_access m of (access, m) \<Rightarrow>
           m\<lparr>mo_cache := bt_insert p \<lparr>ccf_size = size0, ccf_last_access = access\<rparr> (mo_cache m)\<rparr>)
      else m\<lparr>mo_cache := filter (\<lambda>(q, _). q \<noteq> p) (mo_cache m)\<rparr>)"

definition touch_clean_cached :: "('l, 's) object_env \<Rightarrow> path \<Rightarrow> ('l, 's) managed_fs \<Rightarrow> ('l, 's) managed_fs" where
  "touch_clean_cached env p m =
     (case next_cache_access m of (access, m) \<Rightarrow>
        m\<lparr>mo_cache := map (\<lambda>(q, entry).
            (q, if q = norm env p then entry\<lparr>ccf_last_access := access\<rparr> else entry)) (mo_cache m)\<rparr>)"

definition untrack_clean_cached :: "('l, 's) object_env \<Rightarrow> path \<Rightarrow> ('l, 's) managed_fs \<Rightarrow> ('l, 's) managed_fs" where
  "untrack_clean_cached env p m =
     m\<lparr>mo_cache := filter (\<lambda>(q, _). q \<noteq> norm env p \<and> \<not> prefix (norm env p) q) (mo_cache m)\<rparr>"

definition is_deleted :: "('l, 's) object_env \<Rightarrow> ('l, 's) managed_fs \<Rightarrow> path \<Rightarrow> bool" where
  "is_deleted env m p \<longleftrightarrow> (\<exists>d \<in> mo_deleted m. prefix d (norm env p))"

definition mark_deleted :: "('l, 's) object_env \<Rightarrow> path \<Rightarrow> ('l, 's) managed_fs \<Rightarrow> ('l, 's) managed_fs" where
  "mark_deleted env p m = m\<lparr>mo_deleted := insert (norm env p) (mo_deleted m)\<rparr>"

definition unmark_deleted :: "('l, 's) object_env \<Rightarrow> path \<Rightarrow> ('l, 's) managed_fs \<Rightarrow> ('l, 's) managed_fs" where
  "unmark_deleted env p m = m\<lparr>mo_deleted := mo_deleted m - {norm env p}\<rparr>"

text \<open>The loop that chooses what to give up, oldest access first, until the budget is met.\<close>

fun choose_evictions ::
  "object_store_cache_policy \<Rightarrow> nat \<Rightarrow> nat \<Rightarrow> (path \<times> cached_clean_file) list \<Rightarrow> path list" where
  "choose_evictions policy bytes entries [] = []"
| "choose_evictions policy bytes entries ((p, entry) # candidates) =
     (if bytes \<le> cp_max_clean_file_bytes policy \<and> entries \<le> cp_max_clean_file_count policy then []
      else p # choose_evictions policy (bytes - ccf_size entry) (entries - 1) candidates)"

fun remove_evicted ::
  "('l, 's) object_env \<Rightarrow> path list \<Rightarrow> ('l, 's) managed_fs \<Rightarrow> unit bashkit_result \<times> ('l, 's) managed_fs" where
  "remove_evicted env [] m = (Inr (), m)"
| "remove_evicted env (p # ps) m =
     (case local_exists env p m of (present, m) \<Rightarrow>
        and_run (if present then on_local (fs_remove (oe_fs env) p False) m else (Inr (), m))
          (\<lambda>_ m. remove_evicted env ps m))"

definition gc_clean_cache ::
  "('l, 's) object_env \<Rightarrow> ('l, 's) managed_fs \<Rightarrow> unit bashkit_result \<times> ('l, 's) managed_fs" where
  "gc_clean_cache env m =
     (let dirty = dirty_paths env m;
          cache = filter (\<lambda>(p, _). \<not> (\<exists>d \<in> dirty. prefix d p) \<and> \<not> (\<exists>d \<in> mo_deleted m. prefix d p)) (mo_cache m);
          bytes = sum_list (map (ccf_size \<circ> snd) cache);
          candidates = sort_key (ccf_last_access \<circ> snd) cache;
          evict = choose_evictions (mo_policy m) bytes (length cache) candidates in
      remove_evicted env evict (m\<lparr>mo_cache := filter (\<lambda>(p, _). p \<notin> set evict) cache\<rparr>))"

subsection \<open>Access to local files and objects\<close>

definition ensure_parent_dirs ::
  "('l, 's) object_env \<Rightarrow> path \<Rightarrow> ('l, 's) managed_fs \<Rightarrow> unit bashkit_result \<times> ('l, 's) managed_fs" where
  "ensure_parent_dirs env p m =
     (case path_parent p of
        None \<Rightarrow> (Inr (), m)
      | Some parent \<Rightarrow>
          if parent = [] then (Inr (), m)
          else and_run (on_local (fs_exists (oe_fs env) parent) m) (\<lambda>present m.
            if present then (Inr (), m) else on_local (fs_mkdir (oe_fs env) parent True) m))"

definition hydrate_file ::
  "('l, 's) object_env \<Rightarrow> path \<Rightarrow> ('l, 's) managed_fs \<Rightarrow> string option bashkit_result \<times> ('l, 's) managed_fs" where
  "hydrate_file env p m =
     (case on_store (os_get (oe_os env) (file_object env m p)) m of
        (Inl (ObjectNotFound message), m) \<Rightarrow> (Inr None, m)
      | (Inl (ObjectOther message), m) \<Rightarrow> (Inl (object_error (ObjectOther message)), m)
      | (Inr reader, m) \<Rightarrow>
          or_return (map_sum object_error id reader) m (\<lambda>bytes.
            if should_track (mo_policy m) (length bytes) then
              and_run (ensure_parent_dirs env p m) (\<lambda>_ m.
              and_run (on_local (fs_write_file (oe_fs env) p bytes) m) (\<lambda>_ m.
              and_run (gc_clean_cache env (mark_clean_cached env p (length bytes) m)) (\<lambda>_ m.
                (Inr (Some bytes), m))))
            else (Inr (Some bytes), untrack_clean_cached env p m)))"

definition remote_file_exists ::
  "('l, 's) object_env \<Rightarrow> path \<Rightarrow> ('l, 's) managed_fs \<Rightarrow> bool bashkit_result \<times> ('l, 's) managed_fs" where
  "remote_file_exists env p m =
     (if is_deleted env m p then (Inr False, m)
      else case on_store (os_head (oe_os env) (file_object env m p)) m of
          (Inr meta, m) \<Rightarrow> (Inr True, m)
        | (Inl (ObjectNotFound message), m) \<Rightarrow> (Inr False, m)
        | (Inl (ObjectOther message), m) \<Rightarrow> (Inl (object_error (ObjectOther message)), m))"

definition remote_dir_exists ::
  "('l, 's) object_env \<Rightarrow> path \<Rightarrow> ('l, 's) managed_fs \<Rightarrow> bool bashkit_result \<times> ('l, 's) managed_fs" where
  "remote_dir_exists env p m =
     (if is_deleted env m p then (Inr False, m)
      else if p = [RootDir] then (Inr True, m)
      else case on_store (os_head (oe_os env) (marker_object env m p)) m of
          (Inr meta, m) \<Rightarrow> (Inr True, m)
        | (Inl e, m) \<Rightarrow>
            (case map_object_error (on_store (os_list_with_delimiter (oe_os env)
                    (object_prefix_path (oe_encode env) (key_for_dir_prefix env m p))) m) of
               (Inl e, m) \<Rightarrow> (Inl e, m)
             | (Inr listed, m) \<Rightarrow> (Inr (lr_objects listed \<noteq> [] \<or> lr_common_prefixes listed \<noteq> []), m)))"

definition object_metadata :: "object_meta \<Rightarrow> file_metadata" where
  "object_metadata object =
     \<lparr>md_file_type = RegularFile, md_size = om_size object, md_mode = 6 * 64 + 4 * 8 + 4,
      md_modified = om_last_modified object, md_created = om_last_modified object\<rparr>"

definition strip_text_prefix :: "string \<Rightarrow> string \<Rightarrow> string option" where
  "strip_text_prefix s p = (if starts_with s p then Some (drop (length p) s) else None)"

fun object_entries ::
  "('l, 's) object_env \<Rightarrow> ('l, 's) managed_fs \<Rightarrow> path \<Rightarrow> string \<Rightarrow> object_meta list \<Rightarrow>
   string set \<Rightarrow> dir_entry list \<Rightarrow> string set \<times> dir_entry list" where
  "object_entries env m p prefix_raw [] seen entries = (seen, entries)"
| "object_entries env m p prefix_raw (object # objects) seen entries =
     (case strip_text_prefix (join_slash (om_location object)) prefix_raw of
        None \<Rightarrow> object_entries env m p prefix_raw objects seen entries
      | Some name \<Rightarrow>
          if name = [] \<or> name = ''.dir'' \<or> CHR ''/'' \<in> set name \<or>
             is_deleted env m (path_join p (path_of_string name)) \<or> name \<in> seen
          then object_entries env m p prefix_raw objects seen entries
          else object_entries env m p prefix_raw objects (insert name seen)
            (entries @ [\<lparr>de_name = name, de_metadata = object_metadata object\<rparr>]))"

fun prefix_entries ::
  "('l, 's) object_env \<Rightarrow> ('l, 's) managed_fs \<Rightarrow> path \<Rightarrow> string \<Rightarrow> object_path list \<Rightarrow>
   string set \<Rightarrow> dir_entry list \<Rightarrow> dir_entry list" where
  "prefix_entries env m p prefix_raw [] seen entries = entries"
| "prefix_entries env m p prefix_raw (common # commons) seen entries =
     (case map_option trim_end_slash (strip_text_prefix (join_slash common) prefix_raw) of
        None \<Rightarrow> prefix_entries env m p prefix_raw commons seen entries
      | Some name \<Rightarrow>
          if is_deleted env m (path_join p (path_of_string name)) \<or> name = [] \<or>
             CHR ''/'' \<in> set name \<or> name \<in> seen
          then prefix_entries env m p prefix_raw commons seen entries
          else prefix_entries env m p prefix_raw commons (insert name seen)
            (entries @ [\<lparr>de_name = name, de_metadata = directory_metadata (oe_now env)\<rparr>]))"

definition remote_entries ::
  "('l, 's) object_env \<Rightarrow> path \<Rightarrow> ('l, 's) managed_fs \<Rightarrow> dir_entry list bashkit_result \<times> ('l, 's) managed_fs" where
  "remote_entries env p m =
     (let prefix_raw = key_for_dir_prefix env m p in
      and_run (map_object_error (on_store (os_list_with_delimiter (oe_os env)
          (object_prefix_path (oe_encode env) prefix_raw)) m)) (\<lambda>result m.
        case object_entries env m p prefix_raw (lr_objects result) {} [] of
          (seen, entries) \<Rightarrow>
            (Inr (sort_key de_name
               (prefix_entries env m p prefix_raw (lr_common_prefixes result) seen entries)), m)))"

subsection \<open>The operations of the file system\<close>

definition managed_read_file ::
  "('l, 's) object_env \<Rightarrow> path \<Rightarrow> ('l, 's) managed_fs \<Rightarrow> string bashkit_result \<times> ('l, 's) managed_fs" where
  "managed_read_file env p0 m =
     (let p = norm env p0 in
      case local_exists env p m of (present, m) \<Rightarrow>
      if present then on_local (fs_read_file (oe_fs env) p) (touch_clean_cached env p m)
      else if is_deleted env m p then (Inl (BashkitIo NotFound ''file not found''), m)
      else and_run (hydrate_file env p m) (\<lambda>hydrated m.
        case hydrated of
          Some bytes \<Rightarrow> (Inr bytes, m)
        | None \<Rightarrow>
            and_run (remote_dir_exists env p m) (\<lambda>dir m.
              (Inl (if dir then BashkitIo IsADirectory ''is a directory''
                    else BashkitIo NotFound ''file not found''), m))))"

definition managed_write_file ::
  "('l, 's) object_env \<Rightarrow> path \<Rightarrow> string \<Rightarrow> ('l, 's) managed_fs \<Rightarrow> unit bashkit_result \<times> ('l, 's) managed_fs" where
  "managed_write_file env p0 content m =
     (let p = norm env p0 in
      and_run (ensure_parent_dirs env p m) (\<lambda>_ m.
      and_run (on_local (fs_write_file (oe_fs env) p content) m) (\<lambda>_ m.
      gc_clean_cache env (push_dirty (WbPutFile p) (unmark_deleted env p (untrack_clean_cached env p m))))))"

definition managed_exists ::
  "('l, 's) object_env \<Rightarrow> path \<Rightarrow> ('l, 's) managed_fs \<Rightarrow> bool bashkit_result \<times> ('l, 's) managed_fs" where
  "managed_exists env p0 m =
     (let p = norm env p0 in
      case local_exists env p m of (present, m) \<Rightarrow>
      if present then (Inr True, m)
      else if is_deleted env m p then (Inr False, m)
      else and_run (remote_file_exists env p m) (\<lambda>remote m.
        if remote then (Inr True, m) else remote_dir_exists env p m))"

definition managed_append_file ::
  "('l, 's) object_env \<Rightarrow> path \<Rightarrow> string \<Rightarrow> ('l, 's) managed_fs \<Rightarrow> unit bashkit_result \<times> ('l, 's) managed_fs" where
  "managed_append_file env p0 content m =
     (let p = norm env p0 in
      and_run (managed_exists env p m) (\<lambda>present m.
      and_run (if present then managed_read_file env p m else (Inr [], m)) (\<lambda>existing m.
      managed_write_file env p (existing @ content) m)))"

definition managed_mkdir ::
  "('l, 's) object_env \<Rightarrow> path \<Rightarrow> bool \<Rightarrow> ('l, 's) managed_fs \<Rightarrow> unit bashkit_result \<times> ('l, 's) managed_fs" where
  "managed_mkdir env p0 recursive m =
     (let p = norm env p0 in
      and_run (on_local (fs_mkdir (oe_fs env) p recursive) m) (\<lambda>_ m.
        (Inr (), push_dirty (WbPutDir p) (unmark_deleted env p (untrack_clean_cached env p m)))))"

definition managed_stat ::
  "('l, 's) object_env \<Rightarrow> path \<Rightarrow> ('l, 's) managed_fs \<Rightarrow> file_metadata bashkit_result \<times> ('l, 's) managed_fs" where
  "managed_stat env p0 m =
     (let p = norm env p0 in
      case local_exists env p m of (present, m) \<Rightarrow>
      if present then on_local (fs_stat (oe_fs env) p) m
      else if is_deleted env m p then (Inl (BashkitIo NotFound ''not found''), m)
      else case on_store (os_head (oe_os env) (file_object env m p)) m of
          (Inr meta, m) \<Rightarrow> (Inr (object_metadata meta), m)
        | (Inl (ObjectOther message), m) \<Rightarrow> (Inl (object_error (ObjectOther message)), m)
        | (Inl (ObjectNotFound message), m) \<Rightarrow>
            and_run (remote_dir_exists env p m) (\<lambda>dir m.
              if dir then (Inr (directory_metadata (oe_now env)), m)
              else (Inl (BashkitIo NotFound ''not found''), m)))"

definition managed_read_dir ::
  "('l, 's) object_env \<Rightarrow> path \<Rightarrow> ('l, 's) managed_fs \<Rightarrow> dir_entry list bashkit_result \<times> ('l, 's) managed_fs" where
  "managed_read_dir env p0 m =
     (let p = norm env p0 in
      case local_exists env p m of (present, m) \<Rightarrow>
      if is_deleted env m p \<and> \<not> present then (Inl (BashkitIo NotFound ''directory not found''), m)
      else and_run
        (if present then on_local (fs_read_dir (oe_fs env) p) m
         else and_run (remote_dir_exists env p m) (\<lambda>dir m.
           if dir then (Inr [], m) else (Inl (BashkitIo NotFound ''directory not found''), m)))
        (\<lambda>entries m.
          and_run (remote_entries env p m) (\<lambda>remote m.
            let added = fold (\<lambda>entry (seen, entries).
                  if de_name entry \<in> seen then (seen, entries)
                  else (insert (de_name entry) seen, entries @ [entry])) remote
                  (de_name ` set entries, entries) in
            (Inr (sort_key de_name (snd added)), m))))"

definition managed_remove ::
  "('l, 's) object_env \<Rightarrow> path \<Rightarrow> bool \<Rightarrow> ('l, 's) managed_fs \<Rightarrow> unit bashkit_result \<times> ('l, 's) managed_fs" where
  "managed_remove env p0 recursive m =
     (let p = norm env p0 in
      and_run (managed_stat env p m) (\<lambda>meta m.
      and_run
        (if md_file_type meta = Directory \<and> \<not> recursive then
           and_run (managed_read_dir env p m) (\<lambda>entries m.
             if entries \<noteq> [] then (Inl (BashkitIo DirectoryNotEmpty ''directory not empty''), m)
             else (Inr (), m))
         else (Inr (), m)) (\<lambda>_ m.
      case local_exists env p m of (present, m) \<Rightarrow>
      and_run (if present then on_local (fs_remove (oe_fs env) p recursive) m else (Inr (), m)) (\<lambda>_ m.
        (Inr (), push_dirty (if md_file_type meta = Directory then WbDeleteDir p else WbDeleteFile p)
           (mark_deleted env p (untrack_clean_cached env p m)))))))"

definition managed_copy ::
  "('l, 's) object_env \<Rightarrow> path \<Rightarrow> path \<Rightarrow> ('l, 's) managed_fs \<Rightarrow> unit bashkit_result \<times> ('l, 's) managed_fs" where
  "managed_copy env from0 to0 m =
     (let from = norm env from0; to = norm env to0 in
      and_run (managed_stat env from m) (\<lambda>meta m.
        if md_file_type meta = Directory
        then (Inl (BashkitIo Unsupported ''directory copy not supported''), m)
        else and_run (managed_read_file env from m) (\<lambda>bytes m.
          managed_write_file env to bytes m)))"

text \<open>
  Moving a local directory: its entries are copied level by level.  Directories still to be copied are a
  stack (the end of the vector is the head of the list), and the loop need not end.
\<close>

fun copy_entries ::
  "('l, 's) object_env \<Rightarrow> path \<Rightarrow> path \<Rightarrow> dir_entry list \<Rightarrow> (path \<times> path) list \<Rightarrow> ('l, 's) managed_fs \<Rightarrow>
   (path \<times> path) list bashkit_result \<times> ('l, 's) managed_fs" where
  "copy_entries env source_dir target_dir [] pending m = (Inr pending, m)"
| "copy_entries env source_dir target_dir (entry # entries) pending m =
     (let source = path_join source_dir (path_of_string (de_name entry));
          target = path_join target_dir (path_of_string (de_name entry)) in
      case md_file_type (de_metadata entry) of
        Directory \<Rightarrow>
          and_run (on_local (fs_mkdir (oe_fs env) target True) m) (\<lambda>_ m.
            copy_entries env source_dir target_dir entries ((source, target) # pending) m)
      | Symlink \<Rightarrow>
          and_run (on_local (fs_read_link (oe_fs env) source) m) (\<lambda>link_target m.
          and_run (on_local (fs_symlink (oe_fs env) link_target target) m) (\<lambda>_ m.
            copy_entries env source_dir target_dir entries pending m))
      | _ \<Rightarrow>
          and_run (on_local (fs_read_file (oe_fs env) source) m) (\<lambda>bytes m.
          and_run (ensure_parent_dirs env target m) (\<lambda>_ m.
          and_run (on_local (fs_write_file (oe_fs env) target bytes) m) (\<lambda>_ m.
            copy_entries env source_dir target_dir entries pending m))))"

partial_function (option) copy_directories ::
  "('l, 's) object_env \<Rightarrow> (path \<times> path) list \<Rightarrow> ('l, 's) managed_fs \<Rightarrow>
   (unit bashkit_result \<times> ('l, 's) managed_fs) option" where
  "copy_directories env pending m =
     (case pending of
        [] \<Rightarrow> Some (Inr (), m)
      | (source_dir, target_dir) # pending \<Rightarrow>
          (case and_run (on_local (fs_read_dir (oe_fs env) source_dir) m) (\<lambda>entries m.
                  copy_entries env source_dir target_dir entries pending m) of
             (Inl e, m) \<Rightarrow> Some (Inl e, m)
           | (Inr pending, m) \<Rightarrow> copy_directories env pending m))"

definition rename_local_directory_tree ::
  "('l, 's) object_env \<Rightarrow> path \<Rightarrow> path \<Rightarrow> ('l, 's) managed_fs \<Rightarrow>
   (unit bashkit_result \<times> ('l, 's) managed_fs) option" where
  "rename_local_directory_tree env from to m =
     (case local_exists env to m of (present, m) \<Rightarrow>
      if present then Some (Inl (BashkitIo AlreadyExists ''destination exists''), m)
      else case and_run (ensure_parent_dirs env to m) (\<lambda>_ m. on_local (fs_mkdir (oe_fs env) to True) m) of
          (Inl e, m) \<Rightarrow> Some (Inl e, m)
        | (Inr u, m) \<Rightarrow>
            map_option (\<lambda>r. and_run r (\<lambda>_ m. on_local (fs_remove (oe_fs env) from True) m))
              (copy_directories env [(from, to)] m))"

definition managed_rename ::
  "('l, 's) object_env \<Rightarrow> path \<Rightarrow> path \<Rightarrow> ('l, 's) managed_fs \<Rightarrow>
   (unit bashkit_result \<times> ('l, 's) managed_fs) option" where
  "managed_rename env from0 to0 m =
     (let from = norm env from0; to = norm env to0 in
      case managed_stat env from m of
        (Inl e, m) \<Rightarrow> Some (Inl e, m)
      | (Inr meta, m) \<Rightarrow>
          map_option (\<lambda>r. and_run r (\<lambda>_ m. gc_clean_cache env m))
            (if md_file_type meta = Directory then
               (case remote_dir_exists env from m of
                  (Inl e, m) \<Rightarrow> Some (Inl e, m)
                | (Inr True, m) \<Rightarrow> Some (Inl (BashkitIo Unsupported ''remote directory rename not supported''), m)
                | (Inr False, m) \<Rightarrow>
                    (case local_exists env from m of (present, m) \<Rightarrow>
                     if \<not> present
                     then Some (Inl (BashkitIo Unsupported ''remote directory rename not supported''), m)
                     else case ensure_parent_dirs env to m of
                         (Inl e, m) \<Rightarrow> Some (Inl e, m)
                       | (Inr u, m) \<Rightarrow>
                           map_option (\<lambda>r. and_run r (\<lambda>_ m.
                             (Inr (), push_dirty (WbPutDir to) (push_dirty (WbDeleteDir from)
                                (untrack_clean_cached env to (untrack_clean_cached env from
                                   (rewrite_pending_puts_for_rename env from to m)))))))
                             (rename_local_directory_tree env from to m)))
             else
               Some (and_run (managed_read_file env from m) (\<lambda>bytes m.
                     and_run (managed_write_file env to bytes m) (\<lambda>_ m.
                     managed_remove env from False m)))))"

definition managed_symlink :: "path \<Rightarrow> path \<Rightarrow> ('l, 's) managed_fs \<Rightarrow> unit bashkit_result \<times> ('l, 's) managed_fs" where
  "managed_symlink target link m = (Inl (BashkitIo Unsupported ''symlink not supported''), m)"

definition managed_read_link :: "path \<Rightarrow> ('l, 's) managed_fs \<Rightarrow> path bashkit_result \<times> ('l, 's) managed_fs" where
  "managed_read_link p m = (Inl (BashkitIo Unsupported ''symlink not supported''), m)"

definition managed_chmod :: "path \<Rightarrow> u32 \<Rightarrow> ('l, 's) managed_fs \<Rightarrow> unit bashkit_result \<times> ('l, 's) managed_fs" where
  "managed_chmod p mode m = (Inr (), m)"

definition managed_set_modified_time ::
  "path \<Rightarrow> i64 \<Rightarrow> ('l, 's) managed_fs \<Rightarrow> unit bashkit_result \<times> ('l, 's) managed_fs" where
  "managed_set_modified_time p time m = (Inr (), m)"

subsection \<open>Writing back\<close>

fun delete_objects ::
  "('l, 's) object_env \<Rightarrow> object_path list \<Rightarrow> ('l, 's) managed_fs \<Rightarrow> unit bashkit_result \<times> ('l, 's) managed_fs" where
  "delete_objects env [] m = (Inr (), m)"
| "delete_objects env (key # keys) m =
     and_run (ignore_not_found (on_store (os_delete (oe_os env) key) m)) (\<lambda>_ m. delete_objects env keys m)"

definition flush_put_file ::
  "('l, 's) object_env \<Rightarrow> path \<Rightarrow> path list \<Rightarrow> ('l, 's) managed_fs \<Rightarrow>
   path list bashkit_result \<times> ('l, 's) managed_fs" where
  "flush_put_file env p oversized m =
     (case local_exists env p m of (present, m) \<Rightarrow>
      if present then
        and_run (on_local (fs_read_file (oe_fs env) p) m) (\<lambda>bytes m.
        and_run (map_object_error (on_store (os_put (oe_os env) (file_object env m p) bytes) m)) (\<lambda>_ m.
          let m = unmark_deleted env p m in
          if should_track (mo_policy m) (length bytes)
          then (Inr oversized, mark_clean_cached env p (length bytes) m)
          else (Inr (oversized @ [p]), untrack_clean_cached env p m)))
      else (Inr oversized, m))"

definition flush_delete_dir ::
  "('l, 's) object_env \<Rightarrow> path \<Rightarrow> ('l, 's) managed_fs \<Rightarrow> unit bashkit_result \<times> ('l, 's) managed_fs" where
  "flush_delete_dir env p m =
     and_run
       (case object_prefix_path (oe_encode env) (key_for_dir_prefix env m p) of
          None \<Rightarrow> (Inr (), m)
        | Some pre \<Rightarrow>
            and_run (map_object_error (on_store (os_list (oe_os env) (Some pre)) m)) (\<lambda>metas m.
              delete_objects env (map om_location metas) m))
       (\<lambda>_ m.
         and_run (ignore_not_found (on_store (os_delete (oe_os env) (marker_object env m p)) m)) (\<lambda>_ m.
           (Inr (), mark_deleted env p (untrack_clean_cached env p m))))"

definition flush_op ::
  "('l, 's) object_env \<Rightarrow> object_store_writeback \<Rightarrow> path list \<Rightarrow> ('l, 's) managed_fs \<Rightarrow>
   path list bashkit_result \<times> ('l, 's) managed_fs" where
  "flush_op env op oversized m =
     (case op of
        WbPutFile p \<Rightarrow> flush_put_file env p oversized m
      | WbPutDir p \<Rightarrow>
          and_run (map_object_error (on_store (os_put (oe_os env) (marker_object env m p) []) m)) (\<lambda>_ m.
            (Inr oversized, unmark_deleted env p m))
      | WbDeleteFile p \<Rightarrow>
          and_run (ignore_not_found (on_store (os_delete (oe_os env) (file_object env m p)) m)) (\<lambda>_ m.
            (Inr oversized, mark_deleted env p (untrack_clean_cached env p m)))
      | WbDeleteDir p \<Rightarrow>
          and_run (flush_delete_dir env p m) (\<lambda>_ m. (Inr oversized, m)))"

fun flush_ops ::
  "('l, 's) object_env \<Rightarrow> queued_writeback list \<Rightarrow> path list \<Rightarrow> ('l, 's) managed_fs \<Rightarrow>
   path list bashkit_result \<times> ('l, 's) managed_fs" where
  "flush_ops env [] oversized m = (Inr oversized, m)"
| "flush_ops env (queued # ops) oversized m =
     and_run (flush_op env (qw_op queued) oversized m) (\<lambda>oversized m. flush_ops env ops oversized m)"

fun remove_oversized ::
  "('l, 's) object_env \<Rightarrow> path set \<Rightarrow> path list \<Rightarrow> ('l, 's) managed_fs \<Rightarrow> unit bashkit_result \<times> ('l, 's) managed_fs" where
  "remove_oversized env dirty [] m = (Inr (), m)"
| "remove_oversized env dirty (p # ps) m =
     (if \<exists>d \<in> dirty. prefix d p then remove_oversized env dirty ps m
      else case local_exists env p m of (present, m) \<Rightarrow>
        and_run (if present then on_local (fs_remove (oe_fs env) p False) m else (Inr (), m))
          (\<lambda>_ m. remove_oversized env dirty ps m))"

definition managed_flush ::
  "('l, 's) object_env \<Rightarrow> ('l, 's) managed_fs \<Rightarrow> unit bashkit_result \<times> ('l, 's) managed_fs" where
  "managed_flush env m =
     (let ops = mo_dirty m in
      and_run (flush_ops env ops [] m) (\<lambda>oversized m.
        let processed = qw_id ` set ops;
            m = m\<lparr>mo_dirty := filter (\<lambda>queued. qw_id queued \<notin> processed) (mo_dirty m)\<rparr> in
        and_run (remove_oversized env (dirty_paths env m) oversized m) (\<lambda>_ m.
          gc_clean_cache env m)))"

end
