(* ===== verification/Object_Mount_Invariant.thy ===== *)
theory Object_Mount_Invariant
  imports Object_Mount Vfs_Safety
begin

section \<open>Files behind an object mount\<close>

text \<open>
  What an object mount needs of the local file system and of the store, and the invariant under which it shows a
  set of files, none of which lies below another, as a plain map from paths to contents.  Giving up clean
  copies is the first operation that keeps it.
\<close>

subsection \<open>Contracts\<close>

text \<open>
  What the mount is built on.  \<open>ms_file\<close> is the content of a file in the local file system and
  \<open>ms_object\<close> that of an object in the store; \<open>ms_wf\<close> says that no path of \<open>ms_files\<close> is a local directory.
\<close>

record ('l, 's) mount_spec =
  ms_env :: "('l, 's) object_env"
  ms_prefix :: string
  ms_files :: "path set"
  ms_file :: "'l \<Rightarrow> path \<Rightarrow> string option"
  ms_object :: "'s \<Rightarrow> object_path \<Rightarrow> string option"
  ms_wf :: "'l \<Rightarrow> bool"

definition plain_path :: "path \<Rightarrow> bool" where
  "plain_path p \<longleftrightarrow>
     (\<exists>names. p = RootDir # map Normal names \<and> (\<forall>s \<in> set names. s \<noteq> [] \<and> CHR ''/'' \<notin> set s)) \<and>
     utf8_valid (path_text p)"

text \<open>A directory that may be created: it is not a file of the set and lies below none.\<close>

definition free_dir :: "path set \<Rightarrow> path \<Rightarrow> bool" where
  "free_dir F d \<longleftrightarrow> plain_path d \<and> (\<forall>p \<in> F. \<not> prefix p d)"

definition local_contract ::
  "path set \<Rightarrow> 'l fs_ops \<Rightarrow> ('l \<Rightarrow> path \<Rightarrow> string option) \<Rightarrow> ('l \<Rightarrow> bool) \<Rightarrow> bool" where
  "local_contract F fs content good \<longleftrightarrow>
     (\<forall>l p. snd (fs_exists fs p l) = l) \<and>
     (\<forall>l. \<forall>p \<in> F. good l \<longrightarrow> fst (fs_exists fs p l) = Inr (content l p \<noteq> None)) \<and>
     (\<forall>l. \<forall>p \<in> F. good l \<longrightarrow> snd (fs_read_file fs p l) = l) \<and>
     (\<forall>l. \<forall>p \<in> F. \<forall>c. good l \<longrightarrow> content l p = Some c \<longrightarrow> fst (fs_read_file fs p l) = Inr c) \<and>
     (\<forall>l. \<forall>p \<in> F. good l \<longrightarrow> snd (fs_stat fs p l) = l) \<and>
     (\<forall>l. \<forall>p \<in> F. \<forall>meta. good l \<longrightarrow> content l p \<noteq> None \<longrightarrow> fst (fs_stat fs p l) = Inr meta \<longrightarrow>
        md_file_type meta \<noteq> Directory) \<and>
     (\<forall>l l' r c. \<forall>p \<in> F. good l \<longrightarrow> fs_write_file fs p c l = (r, l') \<longrightarrow>
        good l' \<and> (\<forall>q \<in> F. content l' q = (if q = p \<and> r = Inr () then Some c else content l q))) \<and>
     (\<forall>l l' r b. \<forall>p \<in> F. good l \<longrightarrow> fs_remove fs p b l = (r, l') \<longrightarrow>
        good l' \<and> (\<forall>q \<in> F. content l' q = (if q = p \<and> r = Inr () then None else content l q))) \<and>
     (\<forall>l l' r b d. good l \<longrightarrow> (\<forall>p \<in> F. \<not> prefix p d) \<longrightarrow> fs_mkdir fs d b l = (r, l') \<longrightarrow>
        good l' \<and> (\<forall>q \<in> F. content l' q = content l q))"

text \<open>A store answers truly; a call that fails may have had its effect or not.\<close>

definition store_contract :: "'s object_store \<Rightarrow> ('s \<Rightarrow> object_path \<Rightarrow> string option) \<Rightarrow> bool" where
  "store_contract os content \<longleftrightarrow>
     (\<forall>s k r s'. os_get os k s = (r, s') \<longrightarrow> content s' = content s \<and>
        (\<forall>c. r = Inr (Inr c) \<longrightarrow> content s k = Some c) \<and>
        (\<forall>m. r = Inl (ObjectNotFound m) \<longrightarrow> content s k = None)) \<and>
     (\<forall>s k r s'. os_head os k s = (r, s') \<longrightarrow> content s' = content s \<and>
        (\<forall>meta. r = Inr meta \<longrightarrow> content s k \<noteq> None) \<and>
        (\<forall>m. r = Inl (ObjectNotFound m) \<longrightarrow> content s k = None)) \<and>
     (\<forall>s k c r s'. os_put os k c s = (r, s') \<longrightarrow>
        content s' = (content s)(k \<mapsto> c) \<or> (r \<noteq> Inr () \<and> content s' = content s)) \<and>
     (\<forall>s k r s'. os_delete os k s = (r, s') \<longrightarrow>
        content s' = (content s)(k := None) \<or> (\<exists>m. r = Inl (ObjectOther m)) \<and> content s' = content s) \<and>
     (\<forall>s k r s'. os_list_with_delimiter os k s = (r, s') \<longrightarrow> content s' = content s \<and>
        (\<forall>listed pre. r = Inr listed \<longrightarrow> k = Some pre \<longrightarrow>
           lr_objects listed \<noteq> [] \<or> lr_common_prefixes listed \<noteq> [] \<longrightarrow>
           (\<exists>k'. strict_prefix pre k' \<and> content s k' \<noteq> None)))"

definition mount_contract :: "('l, 's) mount_spec \<Rightarrow> bool" where
  "mount_contract c \<longleftrightarrow>
     normalizer (oe_normpath (ms_env c)) \<and> inj (oe_encode (ms_env c)) \<and>
     (\<exists>x. ms_prefix c = normalize_object_prefix x) \<and>
     (\<forall>p \<in> ms_files c. plain_path p \<and> p \<noteq> [RootDir] \<and> last p \<noteq> Normal ''.dir'') \<and>
     (\<forall>p \<in> ms_files c. \<forall>q \<in> ms_files c. prefix p q \<longrightarrow> p = q) \<and>
     local_contract (ms_files c) (oe_fs (ms_env c)) (ms_file c) (ms_wf c) \<and>
     store_contract (oe_os (ms_env c)) (ms_object c)"

lemma local_contractD:
  assumes "local_contract F fs content good"
  shows "snd (fs_exists fs p l) = l"
    "p \<in> F \<Longrightarrow> good l \<Longrightarrow> fst (fs_exists fs p l) = Inr (content l p \<noteq> None)"
    "p \<in> F \<Longrightarrow> good l \<Longrightarrow> snd (fs_read_file fs p l) = l"
    "p \<in> F \<Longrightarrow> good l \<Longrightarrow> content l p = Some c \<Longrightarrow> fst (fs_read_file fs p l) = Inr c"
    "p \<in> F \<Longrightarrow> good l \<Longrightarrow> snd (fs_stat fs p l) = l"
    "p \<in> F \<Longrightarrow> good l \<Longrightarrow> content l p \<noteq> None \<Longrightarrow> fst (fs_stat fs p l) = Inr meta \<Longrightarrow>
       md_file_type meta \<noteq> Directory"
    "p \<in> F \<Longrightarrow> good l \<Longrightarrow> fs_write_file fs p c l = (r, l') \<Longrightarrow>
       good l' \<and> (\<forall>q \<in> F. content l' q = (if q = p \<and> r = Inr () then Some c else content l q))"
    "p \<in> F \<Longrightarrow> good l \<Longrightarrow> fs_remove fs p b l = (r, l') \<Longrightarrow>
       good l' \<and> (\<forall>q \<in> F. content l' q = (if q = p \<and> r = Inr () then None else content l q))"
    "good l \<Longrightarrow> \<forall>p \<in> F. \<not> prefix p d \<Longrightarrow> fs_mkdir fs d b l = (r, l') \<Longrightarrow>
       good l' \<and> (\<forall>q \<in> F. content l' q = content l q)"
proof -
  note law = assms [unfolded local_contract_def]
  show "snd (fs_exists fs p l) = l"
    using law [THEN conjunct1] by simp
  show "p \<in> F \<Longrightarrow> good l \<Longrightarrow> fst (fs_exists fs p l) = Inr (content l p \<noteq> None)"
    using law [THEN conjunct2, THEN conjunct1] by blast
  show "p \<in> F \<Longrightarrow> good l \<Longrightarrow> snd (fs_read_file fs p l) = l"
    using law [THEN conjunct2, THEN conjunct2, THEN conjunct1] by blast
  show "p \<in> F \<Longrightarrow> good l \<Longrightarrow> content l p = Some c \<Longrightarrow> fst (fs_read_file fs p l) = Inr c"
    using law [THEN conjunct2, THEN conjunct2, THEN conjunct2, THEN conjunct1] by blast
  show "p \<in> F \<Longrightarrow> good l \<Longrightarrow> snd (fs_stat fs p l) = l"
    using law [THEN conjunct2, THEN conjunct2, THEN conjunct2, THEN conjunct2, THEN conjunct1] by blast
  show "p \<in> F \<Longrightarrow> good l \<Longrightarrow> content l p \<noteq> None \<Longrightarrow> fst (fs_stat fs p l) = Inr meta \<Longrightarrow>
       md_file_type meta \<noteq> Directory"
    using law [THEN conjunct2, THEN conjunct2, THEN conjunct2, THEN conjunct2, THEN conjunct2, THEN conjunct1] by blast
  show "p \<in> F \<Longrightarrow> good l \<Longrightarrow> fs_write_file fs p c l = (r, l') \<Longrightarrow>
       good l' \<and> (\<forall>q \<in> F. content l' q = (if q = p \<and> r = Inr () then Some c else content l q))"
    using law [THEN conjunct2, THEN conjunct2, THEN conjunct2, THEN conjunct2, THEN conjunct2, THEN conjunct2, THEN conjunct1] by blast
  show "p \<in> F \<Longrightarrow> good l \<Longrightarrow> fs_remove fs p b l = (r, l') \<Longrightarrow>
       good l' \<and> (\<forall>q \<in> F. content l' q = (if q = p \<and> r = Inr () then None else content l q))"
    using law [THEN conjunct2, THEN conjunct2, THEN conjunct2, THEN conjunct2, THEN conjunct2, THEN conjunct2, THEN conjunct2, THEN conjunct1] by blast
  show "good l \<Longrightarrow> \<forall>p \<in> F. \<not> prefix p d \<Longrightarrow> fs_mkdir fs d b l = (r, l') \<Longrightarrow>
       good l' \<and> (\<forall>q \<in> F. content l' q = content l q)"
    using law [THEN conjunct2, THEN conjunct2, THEN conjunct2, THEN conjunct2, THEN conjunct2, THEN conjunct2, THEN conjunct2, THEN conjunct2] by blast
qed

lemma store_contractD:
  assumes "store_contract os content"
  shows "os_get os k s = (r, s') \<Longrightarrow> content s' = content s \<and>
        (\<forall>c. r = Inr (Inr c) \<longrightarrow> content s k = Some c) \<and>
        (\<forall>m. r = Inl (ObjectNotFound m) \<longrightarrow> content s k = None)"
    "os_head os k s = (h, s') \<Longrightarrow> content s' = content s \<and>
        (\<forall>meta. h = Inr meta \<longrightarrow> content s k \<noteq> None) \<and>
        (\<forall>m. h = Inl (ObjectNotFound m) \<longrightarrow> content s k = None)"
    "os_put os k c s = (u, s') \<Longrightarrow>
        content s' = (content s)(k \<mapsto> c) \<or> (u \<noteq> Inr () \<and> content s' = content s)"
    "os_delete os k s = (u, s') \<Longrightarrow>
        content s' = (content s)(k := None) \<or> (\<exists>m. u = Inl (ObjectOther m)) \<and> content s' = content s"
    "os_list_with_delimiter os (Some pre) s = (w, s') \<Longrightarrow> content s' = content s \<and>
        (\<forall>listed. w = Inr listed \<longrightarrow> lr_objects listed \<noteq> [] \<or> lr_common_prefixes listed \<noteq> [] \<longrightarrow>
           (\<exists>k'. strict_prefix pre k' \<and> content s k' \<noteq> None))"
proof -
  note law = assms [unfolded store_contract_def]
  show "os_get os k s = (r, s') \<Longrightarrow> content s' = content s \<and>
        (\<forall>c. r = Inr (Inr c) \<longrightarrow> content s k = Some c) \<and>
        (\<forall>m. r = Inl (ObjectNotFound m) \<longrightarrow> content s k = None)"
    using law [THEN conjunct1] by blast
  show "os_head os k s = (h, s') \<Longrightarrow> content s' = content s \<and>
        (\<forall>meta. h = Inr meta \<longrightarrow> content s k \<noteq> None) \<and>
        (\<forall>m. h = Inl (ObjectNotFound m) \<longrightarrow> content s k = None)"
    using law [THEN conjunct2, THEN conjunct1] by blast
  show "os_put os k c s = (u, s') \<Longrightarrow>
        content s' = (content s)(k \<mapsto> c) \<or> (u \<noteq> Inr () \<and> content s' = content s)"
    using law [THEN conjunct2, THEN conjunct2, THEN conjunct1] by blast
  show "os_delete os k s = (u, s') \<Longrightarrow>
        content s' = (content s)(k := None) \<or> (\<exists>m. u = Inl (ObjectOther m)) \<and> content s' = content s"
    using law [THEN conjunct2, THEN conjunct2, THEN conjunct2, THEN conjunct1] by blast
  show "os_list_with_delimiter os (Some pre) s = (w, s') \<Longrightarrow> content s' = content s \<and>
        (\<forall>listed. w = Inr listed \<longrightarrow> lr_objects listed \<noteq> [] \<or> lr_common_prefixes listed \<noteq> [] \<longrightarrow>
           (\<exists>k'. strict_prefix pre k' \<and> content s k' \<noteq> None))"
    using law [THEN conjunct2, THEN conjunct2, THEN conjunct2, THEN conjunct2] by blast
qed

lemma mount_contractD:
  assumes "mount_contract c"
  shows "normalizer (oe_normpath (ms_env c))" "inj (oe_encode (ms_env c))"
    "p \<in> ms_files c \<Longrightarrow> plain_path p" "p \<in> ms_files c \<Longrightarrow> p \<noteq> [RootDir]"
    "p \<in> ms_files c \<Longrightarrow> last p \<noteq> Normal ''.dir''"
    "p \<in> ms_files c \<Longrightarrow> q \<in> ms_files c \<Longrightarrow> prefix p q \<Longrightarrow> p = q"
    "local_contract (ms_files c) (oe_fs (ms_env c)) (ms_file c) (ms_wf c)"
    "store_contract (oe_os (ms_env c)) (ms_object c)"
  using assms unfolding mount_contract_def by blast+

subsection \<open>The names of objects\<close>

lemma split_on_not_Nil [simp]: "split_on c s \<noteq> []"
  by (induction s) (auto split: list.splits)

lemma split_on_middle: "split_on c (a @ c # b) = split_on c a @ split_on c b"
proof (induction a)
  case (Cons x a)
  obtain y ys where "split_on c a = y # ys" by (cases "split_on c a") simp_all
  then show ?case using Cons by simp
qed simp

definition segments :: "string \<Rightarrow> string list" where
  "segments key = filter (\<lambda>s. s \<noteq> []) (split_on CHR ''/'' key)"

lemma segments_middle: "segments (a @ CHR ''/'' # b) = segments a @ segments b"
  by (simp add: segments_def split_on_middle)

lemma segments_Nil [simp]: "segments [] = []"
  by (simp add: segments_def)

lemma segments_prefix:
  "segments (normalize_object_prefix x @ s) = segments (normalize_object_prefix x) @ segments s"
proof (cases "normalize_object_prefix x = []")
  case False
  have "\<exists>a. normalize_object_prefix x = a @ [CHR ''/'']"
  proof (cases "ends_with (trim_start_slash x) ''/''")
    case True
    then have "normalize_object_prefix x = trim_start_slash x" by (simp add: normalize_object_prefix_def Let_def)
    moreover have "trim_start_slash x =
        take (length (trim_start_slash x) - 1) (trim_start_slash x) @ [CHR ''/'']"
      using True unfolding ends_with_def by (metis append_take_drop_id list.size(3,4) One_nat_def add_0)
    ultimately show ?thesis by metis
  next
    case False2: False
    then show ?thesis using False by (auto simp: normalize_object_prefix_def Let_def split: if_splits)
  qed
  then obtain a where a: "normalize_object_prefix x = a @ [CHR ''/'']" by blast
  show ?thesis using segments_middle [of a s] segments_middle [of a "[]"] by (simp add: a)
qed simp

lemma segments_join:
  "\<forall>s \<in> set names. s \<noteq> [] \<and> CHR ''/'' \<notin> set s \<Longrightarrow> segments (join_slash names) = names"
proof (induction names rule: join_slash.induct)
  case (2 s)
  then show ?case by (simp add: segments_def split_on_none)
next
  case (3 s t ss)
  then show ?case by (simp add: segments_middle) (simp add: segments_def split_on_none)
qed simp

lemma join_slash_not_Nil: "names \<noteq> [] \<Longrightarrow> \<forall>s \<in> set names. s \<noteq> [] \<Longrightarrow> join_slash names \<noteq> []"
  by (induction names rule: join_slash.induct) auto

lemma join_slash_ends:
  assumes "names \<noteq> []" and "\<forall>s \<in> set names. s \<noteq> [] \<and> CHR ''/'' \<notin> set s"
  shows "hd (join_slash names) \<noteq> CHR ''/'' \<and> last (join_slash names) \<noteq> CHR ''/''"
  using assms
proof (induction names rule: join_slash.induct)
  case (2 s)
  then have s: "s \<noteq> []" "CHR ''/'' \<notin> set s" by simp_all
  from s show ?case using hd_in_set [OF s(1)] last_in_set [OF s(1)] by (auto simp del: hd_in_set last_in_set)
next
  case (3 s t ss)
  then have "join_slash (t # ss) \<noteq> []" using join_slash_not_Nil [of "t # ss"] by simp
  moreover have s: "s \<noteq> []" "CHR ''/'' \<notin> set s" using 3 by simp_all
  ultimately show ?case using 3 hd_in_set [OF s(1)] by (auto simp del: hd_in_set)
qed simp

definition names_of :: "path \<Rightarrow> string list" where
  "names_of p = map component_text (tl p)"

lemma plain_pathE:
  assumes "plain_path p"
  obtains "p = RootDir # map Normal (names_of p)" "\<forall>s \<in> set (names_of p). s \<noteq> [] \<and> CHR ''/'' \<notin> set s"
  using assms by (auto simp: plain_path_def names_of_def comp_def)

lemma plain_path_norm:
  "normalizer (oe_normpath env) \<Longrightarrow> plain_path p \<Longrightarrow> norm env p = p"
  by (auto simp: norm_def normalize_vfs_path_def normalizer_def plain_path_def normal_path_def has_root_def)

lemma relative_key:
  fixes env :: "('l, 's) object_env"
  assumes "normalizer (oe_normpath env)" and "plain_path p"
  shows "relative_vfs_key (oe_normpath env) p = join_slash (names_of p)"
proof -
  obtain names: "p = RootDir # map Normal (names_of p)" "\<forall>s \<in> set (names_of p). s \<noteq> [] \<and> CHR ''/'' \<notin> set s"
    by (rule plain_pathE [OF assms(2)])
  have "from_utf8_lossy (path_text p) = path_text p"
    using assms(2) by (simp add: plain_path_def from_utf8_lossy_valid)
  moreover have "path_text p = CHR ''/'' # join_slash (names_of p)"
    by (subst names(1)) (cases "names_of p"; simp add: path_text_def comp_def)
  moreover have "trim_start_slash (CHR ''/'' # join_slash (names_of p)) = join_slash (names_of p)"
  proof (cases "join_slash (names_of p)")
    case (Cons x xs)
    then have "x \<noteq> CHR ''/''" using join_slash_ends [OF _ names(2)] by (cases "names_of p") auto
    then show ?thesis by (simp add: trim_start_slash_def Cons)
  qed (simp add: trim_start_slash_def)
  ultimately show ?thesis
    using plain_path_norm [OF assms] by (simp add: relative_vfs_key_def norm_def)
qed

definition object_of :: "('l, 's) mount_spec \<Rightarrow> path \<Rightarrow> object_path" where
  "object_of c p = map (oe_encode (ms_env c)) (segments (ms_prefix c) @ names_of p)"

lemma key_not_Nil:
  assumes "names_of p \<noteq> []" and "\<forall>s \<in> set (names_of p). s \<noteq> [] \<and> CHR ''/'' \<notin> set s"
  shows "join_slash (names_of p) \<noteq> []"
  using assms join_slash_not_Nil by blast

lemma file_object_eq:
  assumes "mount_contract c" and "plain_path p" and "p \<noteq> [RootDir]" and "mo_prefix m = ms_prefix c"
  shows "file_object (ms_env c) m p = object_of c p"
    and "object_prefix_path (oe_encode (ms_env c)) (key_for_dir_prefix (ms_env c) m p) = Some (object_of c p)"
proof -
  obtain names: "p = RootDir # map Normal (names_of p)" "\<forall>s \<in> set (names_of p). s \<noteq> [] \<and> CHR ''/'' \<notin> set s"
    by (rule plain_pathE [OF assms(2)])
  then have ne: "names_of p \<noteq> []" using assms(3) by auto
  note key = key_not_Nil [OF ne names(2)] and rel = relative_key [OF mount_contractD(1) [OF assms(1)] assms(2)]
  obtain x where x: "ms_prefix c = normalize_object_prefix x" using assms(1) by (auto simp: mount_contract_def)
  show "file_object (ms_env c) m p = object_of c p"
    using key segments_prefix [of x] segments_join [OF names(2)]
    by (simp add: file_object_def object_path_of_def object_path_from_def key_for_file_def rel Let_def assms(4) x
        object_of_def segments_def [symmetric])
  have last: "last (join_slash (names_of p)) \<noteq> CHR ''/''"
    using join_slash_ends [OF ne names(2)] by simp
  have "trim_end_slash (ms_prefix c @ join_slash (names_of p) @ ''/'') = ms_prefix c @ join_slash (names_of p)"
    using last key by (simp add: trim_end_slash_def) (cases "rev (join_slash (names_of p))"; simp add: last_rev)
  then show "object_prefix_path (oe_encode (ms_env c)) (key_for_dir_prefix (ms_env c) m p) = Some (object_of c p)"
    using key segments_prefix [of x] segments_join [OF names(2)]
    by (simp add: object_prefix_path_def object_path_from_def key_for_dir_prefix_def rel Let_def assms(4) x
        object_of_def segments_def [symmetric])
qed

lemma marker_object_eq:
  assumes "mount_contract c" and "plain_path p" and "mo_prefix m = ms_prefix c"
  shows "marker_object (ms_env c) m p = object_of c p @ [oe_encode (ms_env c) ''.dir'']"
proof -
  obtain names: "p = RootDir # map Normal (names_of p)" "\<forall>s \<in> set (names_of p). s \<noteq> [] \<and> CHR ''/'' \<notin> set s"
    by (rule plain_pathE [OF assms(2)])
  note rel = relative_key [OF mount_contractD(1) [OF assms(1)] assms(2)]
  obtain x where x: "ms_prefix c = normalize_object_prefix x" using assms(1) by (auto simp: mount_contract_def)
  have dir: "segments ''.dir'' = [''.dir'']" by (simp add: segments_def)
  have "segments (key_for_dir_marker (ms_env c) m p) = segments (ms_prefix c) @ names_of p @ [''.dir'']"
  proof (cases "join_slash (names_of p) = []")
    case True
    then have "names_of p = []" using key_not_Nil names(2) by blast
    then show ?thesis
      using segments_prefix [of x "''.dir''"]
      by (simp add: key_for_dir_marker_def key_for_dir_prefix_def rel assms(3) x dir)
  next
    case False
    then show ?thesis
      using segments_prefix [of x "join_slash (names_of p) @ CHR ''/'' # ''.dir''"] segments_join [OF names(2)]
      by (simp add: key_for_dir_marker_def key_for_dir_prefix_def rel assms(3) x dir segments_middle Let_def)
  qed
  moreover have "key_for_dir_marker (ms_env c) m p \<noteq> []" by (simp add: key_for_dir_marker_def)
  ultimately show ?thesis
    by (simp add: marker_object_def object_path_of_def object_path_from_def segments_def [symmetric] object_of_def)
qed

lemma prefix_map_inj: "inj f \<Longrightarrow> prefix (map f xs) (map f ys) \<longleftrightarrow> prefix xs ys"
proof (induction xs arbitrary: ys)
  case (Cons x xs)
  then show ?case by (cases ys) (auto simp: inj_eq)
qed simp

lemma object_of_prefix:
  assumes "mount_contract c" and "plain_path p" and "plain_path q"
  shows "prefix (object_of c p) (object_of c q) \<longleftrightarrow> prefix p q"
proof -
  have "inj Normal" by (simp add: inj_def)
  then have "prefix (RootDir # map Normal (names_of p)) (RootDir # map Normal (names_of q)) \<longleftrightarrow>
      prefix (names_of p) (names_of q)"
    by (simp add: prefix_map_inj)
  then have "prefix p q \<longleftrightarrow> prefix (names_of p) (names_of q)"
    using plain_pathE [OF assms(2)] plain_pathE [OF assms(3)] by metis
  then show ?thesis
    using mount_contractD(2) [OF assms(1)] by (simp add: object_of_def prefix_map_inj del: map_append)
qed

subsection \<open>The invariant\<close>

definition pending :: "path \<Rightarrow> ('l, 's) managed_fs \<Rightarrow> object_store_writeback list" where
  "pending p m = filter (\<lambda>op. op = WbPutFile p \<or> op = WbDeleteFile p) (map qw_op (mo_dirty m))"

definition local_file :: "('l, 's) mount_spec \<Rightarrow> ('l, 's) managed_fs \<Rightarrow> path \<Rightarrow> string option" where
  "local_file c m p = ms_file c (mo_state m) p"

definition stored :: "('l, 's) mount_spec \<Rightarrow> ('l, 's) managed_fs \<Rightarrow> path \<Rightarrow> string option" where
  "stored c m p = ms_object c (mo_store m) (object_of c p)"

text \<open>What a file reads as.\<close>

definition view :: "('l, 's) mount_spec \<Rightarrow> ('l, 's) managed_fs \<Rightarrow> path \<Rightarrow> string option" where
  "view c m p =
     (case local_file c m p of
        Some x \<Rightarrow> Some x
      | None \<Rightarrow> if p \<in> mo_deleted m then None else stored c m p)"

text \<open>
  A file with nothing queued is in the store as it reads; the last thing queued for a file is a write if it is
  there and a deletion if it is gone.
\<close>

definition saved :: "('l, 's) mount_spec \<Rightarrow> ('l, 's) managed_fs \<Rightarrow> path \<Rightarrow> bool" where
  "saved c m p \<longleftrightarrow>
     (if pending p m = [] then
        (\<forall>x. local_file c m p = Some x \<longrightarrow> stored c m p = Some x) \<and>
        (local_file c m p = None \<and> p \<in> mo_deleted m \<longrightarrow> stored c m p = None)
      else if last (pending p m) = WbPutFile p then local_file c m p \<noteq> None
      else local_file c m p = None \<and> p \<in> mo_deleted m)"

fun tame :: "path set \<Rightarrow> object_store_writeback \<Rightarrow> bool" where
  "tame F (WbPutFile p) \<longleftrightarrow> p \<in> F"
| "tame F (WbDeleteFile p) \<longleftrightarrow> p \<in> F"
| "tame F (WbPutDir d) \<longleftrightarrow> free_dir F d"
| "tame F (WbDeleteDir d) \<longleftrightarrow> False"

definition mount_inv :: "('l, 's) mount_spec \<Rightarrow> ('l, 's) managed_fs \<Rightarrow> bool" where
  "mount_inv c m \<longleftrightarrow>
     ms_wf c (mo_state m) \<and> mo_prefix m = ms_prefix c \<and>
     (\<forall>op \<in> qw_op ` set (mo_dirty m). tame (ms_files c) op) \<and>
     mo_deleted m \<subseteq> ms_files c \<and> fst ` set (mo_cache m) \<subseteq> ms_files c \<and>
     (\<forall>p \<in> ms_files c. \<forall>k. strict_prefix (object_of c p) k \<longrightarrow> ms_object c (mo_store m) k = None) \<and>
     (\<forall>p \<in> ms_files c. saved c m p)"

lemma mount_invD:
  assumes "mount_inv c m"
  shows "ms_wf c (mo_state m)" "mo_prefix m = ms_prefix c"
    "op \<in> qw_op ` set (mo_dirty m) \<Longrightarrow> tame (ms_files c) op"
    "p \<in> mo_deleted m \<Longrightarrow> p \<in> ms_files c" "fst ` set (mo_cache m) \<subseteq> ms_files c"
    "p \<in> ms_files c \<Longrightarrow> strict_prefix (object_of c p) k \<Longrightarrow> ms_object c (mo_store m) k = None"
    "p \<in> ms_files c \<Longrightarrow> saved c m p"
  using assms unfolding mount_inv_def by blast+

definition unseen :: "('l, 's) mount_spec \<Rightarrow> ('l, 's) managed_fs \<Rightarrow> ('l, 's) managed_fs \<Rightarrow> bool" where
  "unseen c m m' \<longleftrightarrow> mount_inv c m' \<and> (\<forall>p \<in> ms_files c. view c m' p = view c m p)"

lemma unseen_refl: "mount_inv c m \<Longrightarrow> unseen c m m"
  by (simp add: unseen_def)

lemma unseen_trans: "unseen c m m1 \<Longrightarrow> unseen c m1 m2 \<Longrightarrow> unseen c m m2"
  by (simp add: unseen_def)

lemma same_file:
  assumes "local_file c m' q = local_file c m q" and "stored c m' q = stored c m q"
    and "q \<in> mo_deleted m' \<longleftrightarrow> q \<in> mo_deleted m" and "pending q m' = pending q m"
  shows "saved c m' q \<longleftrightarrow> saved c m q" and "view c m' q = view c m q"
  by (simp_all only: saved_def view_def assms)

text \<open>Only the cache, its clock and unobservable parts of the two worlds differ.\<close>

lemma unseenI:
  assumes "mount_inv c m" and "ms_wf c (mo_state m')"
    and "\<And>p. p \<in> ms_files c \<Longrightarrow> local_file c m' p = local_file c m p"
    and "ms_object c (mo_store m') = ms_object c (mo_store m)"
    and "mo_prefix m' = mo_prefix m" "mo_dirty m' = mo_dirty m" "mo_deleted m' = mo_deleted m"
    and "fst ` set (mo_cache m') \<subseteq> ms_files c"
  shows "unseen c m m'"
proof -
  have st: "stored c m' = stored c m" by (simp add: stored_def fun_eq_iff assms(4))
  have pe: "pending p m' = pending p m" for p by (simp add: pending_def assms(6))
  have same: "saved c m' p = saved c m p" "view c m' p = view c m p" if "p \<in> ms_files c" for p
    using same_file [OF assms(3) [OF that] fun_cong [OF st] _ pe] assms(7) by simp_all
  have "saved c m' p" if "p \<in> ms_files c" for p using mount_invD(7) [OF assms(1) that] same [OF that] by simp
  then show ?thesis
    using assms(2,5,6,7,8) mount_invD(1-6) [OF assms(1)] same(2)
    by (auto simp: unseen_def mount_inv_def assms(4))
qed

subsection \<open>Steps on the local file system\<close>

lemma on_local_quiet: "snd (f (mo_state m)) = mo_state m \<Longrightarrow> on_local f m = (fst (f (mo_state m)), m)"
  by (simp add: on_local_def case_prod_beta)

lemma local_existsD: "mount_contract c \<Longrightarrow> on_local (fs_exists (oe_fs (ms_env c)) p) m =
    (fst (fs_exists (oe_fs (ms_env c)) p (mo_state m)), m)"
  by (rule on_local_quiet) (rule local_contractD(1) [OF mount_contractD(7)])

lemma local_exists_file:
  assumes "mount_contract c" and "ms_wf c (mo_state m)" and "p \<in> ms_files c"
  shows "local_exists (ms_env c) p m = (local_file c m p \<noteq> None, m)"
proof -
  have "fst (fs_exists (oe_fs (ms_env c)) p (mo_state m)) = Inr (local_file c m p \<noteq> None)"
    unfolding local_file_def by (rule local_contractD(2) [OF mount_contractD(7) [OF assms(1)] assms(3,2)])
  then show ?thesis by (simp add: local_exists_def local_existsD [OF assms(1)])
qed

lemma local_exists_same: "mount_contract c \<Longrightarrow> snd (local_exists (ms_env c) p m) = m"
  by (simp add: local_exists_def local_existsD split: sum.splits)

lemma local_readD:
  assumes "mount_contract c" and "ms_wf c (mo_state m)" and "p \<in> ms_files c"
  shows "on_local (fs_read_file (oe_fs (ms_env c)) p) m =
      (fst (fs_read_file (oe_fs (ms_env c)) p (mo_state m)), m)"
    and "local_file c m p = Some x \<Longrightarrow> on_local (fs_read_file (oe_fs (ms_env c)) p) m = (Inr x, m)"
proof -
  note law = mount_contractD(7) [OF assms(1)]
  show *: "on_local (fs_read_file (oe_fs (ms_env c)) p) m =
      (fst (fs_read_file (oe_fs (ms_env c)) p (mo_state m)), m)"
    by (rule on_local_quiet) (rule local_contractD(3) [OF law assms(3,2)])
  show "on_local (fs_read_file (oe_fs (ms_env c)) p) m = (Inr x, m)" if "local_file c m p = Some x"
    using local_contractD(4) [OF law assms(3,2) that [unfolded local_file_def]] unfolding * by simp
qed

lemma local_writeD:
  assumes "mount_contract c" and "ms_wf c (mo_state m)" and "p \<in> ms_files c"
    and "on_local (fs_write_file (oe_fs (ms_env c)) p x) m = (r, m')"
  obtains l where "m' = m\<lparr>mo_state := l\<rparr>" "ms_wf c l"
    "\<And>q. q \<in> ms_files c \<Longrightarrow> ms_file c l q = (if q = p \<and> r = Inr () then Some x else local_file c m q)"
proof -
  obtain l where l: "fs_write_file (oe_fs (ms_env c)) p x (mo_state m) = (r, l)" and m': "m' = m\<lparr>mo_state := l\<rparr>"
    using assms(4) by (auto simp: on_local_def split: prod.splits)
  show ?thesis
    using local_contractD(7) [OF mount_contractD(7) [OF assms(1)] assms(3,2) l]
    by (intro that [OF m']) (simp_all add: local_file_def)
qed

lemma local_removeD:
  assumes "mount_contract c" and "ms_wf c (mo_state m)" and "p \<in> ms_files c"
    and "on_local (fs_remove (oe_fs (ms_env c)) p b) m = (r, m')"
  obtains l where "m' = m\<lparr>mo_state := l\<rparr>" "ms_wf c l"
    "\<And>q. q \<in> ms_files c \<Longrightarrow> ms_file c l q = (if q = p \<and> r = Inr () then None else local_file c m q)"
proof -
  obtain l where l: "fs_remove (oe_fs (ms_env c)) p b (mo_state m) = (r, l)" and m': "m' = m\<lparr>mo_state := l\<rparr>"
    using assms(4) by (auto simp: on_local_def split: prod.splits)
  show ?thesis
    using local_contractD(8) [OF mount_contractD(7) [OF assms(1)] assms(3,2) l]
    by (intro that [OF m']) (simp_all add: local_file_def)
qed

lemma local_mkdirD:
  assumes "mount_contract c" and "ms_wf c (mo_state m)" and "\<forall>p \<in> ms_files c. \<not> prefix p d"
    and "on_local (fs_mkdir (oe_fs (ms_env c)) d b) m = (r, m')"
  obtains l where "m' = m\<lparr>mo_state := l\<rparr>" "ms_wf c l"
    "\<And>q. q \<in> ms_files c \<Longrightarrow> ms_file c l q = local_file c m q"
proof -
  obtain l where l: "fs_mkdir (oe_fs (ms_env c)) d b (mo_state m) = (r, l)" and m': "m' = m\<lparr>mo_state := l\<rparr>"
    using assms(4) by (auto simp: on_local_def split: prod.splits)
  show ?thesis
    using local_contractD(9) [OF mount_contractD(7) [OF assms(1)] assms(2,3) l]
    by (intro that [OF m']) (simp_all add: local_file_def)
qed

lemma ensure_parent_dirsD:
  assumes "mount_contract c" and "ms_wf c (mo_state m)" and "p \<in> ms_files c"
    and "ensure_parent_dirs (ms_env c) p m = (r, m')"
  obtains l where "m' = m\<lparr>mo_state := l\<rparr>" "ms_wf c l"
    "\<And>q. q \<in> ms_files c \<Longrightarrow> ms_file c l q = local_file c m q"
proof (cases "m' = m")
  case True
  then show ?thesis using that [of "mo_state m"] assms(2) by (simp add: local_file_def)
next
  case False
  then obtain d where d: "path_parent p = Some d"
    and mk: "on_local (fs_mkdir (oe_fs (ms_env c)) d True) m = (r, m')"
    using assms(4) by (auto simp: ensure_parent_dirs_def local_existsD [OF assms(1)] and_run_def
        split: option.splits if_splits sum.splits)
  have "\<not> prefix q d" if "q \<in> ms_files c" for q
  proof
    assume q: "prefix q d"
    have p: "p = d @ [last p]" using d by (auto simp: path_parent_def split: if_splits)
    have "prefix q p" using prefix_prefix [OF q, of "[last p]"] p by simp
    then have "length q = length p" using mount_contractD(6) [OF assms(1) that assms(3)] by simp
    moreover have "length p = Suc (length d)" by (subst p) simp
    ultimately show False using prefix_length_le [OF q] by simp
  qed
  then show ?thesis using local_mkdirD [OF assms(1,2) _ mk] that by blast
qed

subsection \<open>Giving up clean copies\<close>

lemma pending_cong: "mo_dirty m' = mo_dirty m \<Longrightarrow> pending p m' = pending p m"
  by (simp add: pending_def)

text \<open>Removing the local copy of a file with nothing queued and no deletion mark is not seen.\<close>

lemma drop_clean_copy:
  assumes "mount_contract c" and "mount_inv c m" and "p \<in> ms_files c" and "pending p m = []" and "p \<notin> mo_deleted m"
    and "on_local (fs_remove (oe_fs (ms_env c)) p b) m = (r, m')"
  shows "unseen c m m'" and "\<exists>l. m' = m\<lparr>mo_state := l\<rparr>"
proof -
  obtain l where m': "m' = m\<lparr>mo_state := l\<rparr>" and good: "ms_wf c l"
    and l: "\<And>q. q \<in> ms_files c \<Longrightarrow> ms_file c l q = (if q = p \<and> r = Inr () then None else local_file c m q)"
    using local_removeD [OF assms(1) mount_invD(1) [OF assms(2)] assms(3,6)] by blast
  show "\<exists>l. m' = m\<lparr>mo_state := l\<rparr>" using m' by blast
  have st: "stored c m' q = stored c m q" and pe: "pending q m' = pending q m" for q
    by (simp_all add: m' stored_def pending_def)
  have de: "mo_deleted m' = mo_deleted m" by (simp add: m')
  have lf: "q \<in> ms_files c \<Longrightarrow> local_file c m' q = (if q = p \<and> r = Inr () then None else local_file c m q)" for q
    using l by (simp add: m' local_file_def)
  have sv: "saved c m q" if "q \<in> ms_files c" for q using mount_invD(7) [OF assms(2) that] .
  have "saved c m' q \<and> view c m' q = view c m q" if q: "q \<in> ms_files c" for q
  proof (cases "q = p \<and> r = Inr ()")
    case True
    then show ?thesis
      using sv [OF q] assms(4,5) lf [OF q] by (auto simp: saved_def view_def st pe de split: option.splits)
  next
    case False
    have "local_file c m' q = local_file c m q" unfolding lf [OF q] if_not_P [OF False] ..
    from same_file [OF this st _ pe] de sv [OF q] show ?thesis by simp
  qed
  then show "unseen c m m'"
    using mount_invD(1-6) [OF assms(2)] good by (auto simp: unseen_def mount_inv_def m')
qed

lemma remove_evicted_unseen:
  assumes "mount_contract c" and "mount_inv c m"
    and "\<forall>p \<in> set ps. p \<in> ms_files c \<and> pending p m = [] \<and> p \<notin> mo_deleted m"
    and "remove_evicted (ms_env c) ps m = (r, m')"
  shows "unseen c m m' \<and> (\<exists>l. m' = m\<lparr>mo_state := l\<rparr>)"
  using assms(2-4)
proof (induction ps arbitrary: m)
  case Nil
  then show ?case using unseen_refl by (auto intro: exI [of _ "mo_state m"])
next
  case (Cons p ps)
  have p: "p \<in> ms_files c" "pending p m = []" "p \<notin> mo_deleted m" using Cons.prems by simp_all
  obtain r1 m1 where step: "(if local_file c m p \<noteq> None then on_local (fs_remove (oe_fs (ms_env c)) p False) m
      else (Inr (), m)) = (r1, m1)" by fastforce
  have one: "unseen c m m1 \<and> (\<exists>l. m1 = m\<lparr>mo_state := l\<rparr>)"
  proof (cases "local_file c m p = None")
    case True
    then show ?thesis
      using step Cons.prems(1) unseen_refl by (auto intro: exI [of _ "mo_state m"])
  next
    case False
    then have "on_local (fs_remove (oe_fs (ms_env c)) p False) m = (r1, m1)" using step by simp
    then show ?thesis using drop_clean_copy [OF assms(1) Cons.prems(1) p] by blast
  qed
  then obtain l where l: "m1 = m\<lparr>mo_state := l\<rparr>" by blast
  have run: "and_run (r1, m1) (\<lambda>_ m. remove_evicted (ms_env c) ps m) = (r, m')"
    using Cons.prems(3) step local_exists_file [OF assms(1) mount_invD(1) [OF Cons.prems(1)] p(1)] by simp
  show ?case
  proof (cases r1)
    case (Inl e)
    then show ?thesis using run one by simp
  next
    case (Inr u)
    have "\<forall>q \<in> set ps. q \<in> ms_files c \<and> pending q m1 = [] \<and> q \<notin> mo_deleted m1"
      using Cons.prems(2) by (simp add: l pending_def)
    moreover have "mount_inv c m1" using one by (simp add: unseen_def)
    ultimately have "unseen c m1 m' \<and> (\<exists>l. m' = m1\<lparr>mo_state := l\<rparr>)"
      using Cons.IH [of m1] run Inr by simp
    then show ?thesis using one unseen_trans [of c m m1 m'] l by auto
  qed
qed

lemma choose_evictions_subset: "set (choose_evictions policy bytes n cands) \<subseteq> fst ` set cands"
  by (induction policy bytes n cands rule: choose_evictions.induct) auto

lemma norm_file: "mount_contract c \<Longrightarrow> p \<in> ms_files c \<Longrightarrow> norm (ms_env c) p = p"
  using plain_path_norm [OF mount_contractD(1) mount_contractD(3)] .

lemma pending_dirty:
  assumes "mount_contract c" and "p \<in> ms_files c" and "pending p m \<noteq> []"
  shows "p \<in> dirty_paths (ms_env c) m"
proof -
  obtain q where "q \<in> set (mo_dirty m)" "writeback_path (qw_op q) = p"
    using assms(3) by (auto simp: pending_def filter_empty_conv)
  then show ?thesis using norm_file [OF assms(1,2)] by (force simp: dirty_paths_def)
qed

lemma gc_unseen:
  assumes "mount_contract c" and "mount_inv c m" and "gc_clean_cache (ms_env c) m = (r, m')"
  shows "unseen c m m' \<and> mo_store m' = mo_store m \<and> mo_dirty m' = mo_dirty m"
proof -
  define cache where "cache = filter (\<lambda>(p, _). \<not> (\<exists>d \<in> dirty_paths (ms_env c) m. prefix d p) \<and>
      \<not> (\<exists>d \<in> mo_deleted m. prefix d p)) (mo_cache m)"
  define evict where "evict = choose_evictions (mo_policy m) (sum_list (map (ccf_size \<circ> snd) cache)) (length cache)
      (sort_key (ccf_last_access \<circ> snd) cache)"
  define m1 where "m1 = m\<lparr>mo_cache := filter (\<lambda>(p, _). p \<notin> set evict) cache\<rparr>"
  have run: "remove_evicted (ms_env c) evict m1 = (r, m')"
    using assms(3) by (simp add: gc_clean_cache_def Let_def cache_def evict_def m1_def)
  have files: "fst ` set (mo_cache m) \<subseteq> ms_files c" by (rule mount_invD(5) [OF assms(2)])
  have "fst ` set (mo_cache m1) \<subseteq> fst ` set (mo_cache m)" by (auto simp: m1_def cache_def)
  with files have one: "unseen c m m1"
    by (intro unseenI [OF assms(2)]) (auto simp: m1_def local_file_def mount_invD(1) [OF assms(2)])
  have "p \<in> ms_files c \<and> pending p m1 = [] \<and> p \<notin> mo_deleted m1" if "p \<in> set evict" for p
  proof -
    have "p \<in> fst ` set cache" using that choose_evictions_subset unfolding evict_def by fastforce
    then have p: "p \<in> ms_files c" "p \<notin> dirty_paths (ms_env c) m" "p \<notin> mo_deleted m"
      using files by (auto simp: cache_def)
    moreover have "pending p m1 = pending p m" by (simp add: m1_def pending_def)
    ultimately show ?thesis using pending_dirty [OF assms(1) p(1)] by (auto simp: m1_def)
  qed
  with remove_evicted_unseen [OF assms(1) _ _ run] one
  have "unseen c m1 m' \<and> (\<exists>l. m' = m1\<lparr>mo_state := l\<rparr>)" by (auto simp: unseen_def)
  then show ?thesis using one unseen_trans [of c m m1 m'] by (auto simp: m1_def)
qed

end
