(* ===== verification/Object_Mount_Flush.thy ===== *)
theory Object_Mount_Flush
  imports Object_Mount_Invariant
begin

section \<open>Writing back to the store\<close>

text \<open>
  The queue of an object mount is replayed entry by entry; any entry may fail.  What is seen of the files does not
  change, and when all of it succeeded every file is in the store as it reads.
\<close>

subsection \<open>Steps on the store\<close>

lemma on_storeD:
  assumes "on_store f m = (r, m')"
  obtains s where "f (mo_store m) = (r, s)" "m' = m\<lparr>mo_store := s\<rparr>"
  using assms by (auto simp: on_store_def split: prod.splits)

lemma store_quiet_unseen:
  assumes "mount_inv c m" and "ms_object c s = ms_object c (mo_store m)"
  shows "unseen c m (m\<lparr>mo_store := s\<rparr>)"
  by (rule unseenI [OF assms(1)])
    (simp_all add: local_file_def assms mount_invD(1,5) [OF assms(1)])

lemma object_of_inj:
  assumes "mount_contract c" and "p \<in> ms_files c" and "q \<in> ms_files c" and "object_of c p = object_of c q"
  shows "p = q"
  using object_of_prefix [OF assms(1) mount_contractD(3) [OF assms(1,2)] mount_contractD(3) [OF assms(1,3)]]
    mount_contractD(6) [OF assms(1-3)] assms(4) by simp

lemma object_not_below:
  assumes "mount_contract c" and "p \<in> ms_files c" and "q \<in> ms_files c"
  shows "\<not> strict_prefix (object_of c p) (object_of c q)"
  using object_of_prefix [OF assms(1) mount_contractD(3) [OF assms(1,2)] mount_contractD(3) [OF assms(1,3)]]
    mount_contractD(6) [OF assms(1-3)] by (auto simp: strict_prefix_def)

lemma marker_apart:
  assumes "mount_contract c" and "p \<in> ms_files c" and "free_dir (ms_files c) d"
  shows "object_of c d @ [oe_encode (ms_env c) ''.dir''] \<noteq> object_of c p"
    and "\<not> strict_prefix (object_of c p) (object_of c d @ [oe_encode (ms_env c) ''.dir''])"
proof -
  have plain: "plain_path p" "plain_path d" and free: "\<not> prefix p d"
    using assms mount_contractD(3) by (auto simp: free_dir_def)
  show "object_of c d @ [oe_encode (ms_env c) ''.dir''] \<noteq> object_of c p"
  proof
    assume eq: "object_of c d @ [oe_encode (ms_env c) ''.dir''] = object_of c p"
    have "segments (ms_prefix c) @ names_of d @ [''.dir''] = segments (ms_prefix c) @ names_of p"
      by (rule injD [OF inj_mapI [OF mount_contractD(2) [OF assms(1)]]]) (use eq in \<open>simp add: object_of_def\<close>)
    then have "names_of p = names_of d @ [''.dir'']" by simp
    then have "p = RootDir # map Normal (names_of d @ [''.dir''])" using plain_pathE [OF plain(1)] by metis
    then have "last p = Normal ''.dir''" by simp
    then show False using mount_contractD(5) [OF assms(1,2)] by simp
  qed
  show "\<not> strict_prefix (object_of c p) (object_of c d @ [oe_encode (ms_env c) ''.dir''])"
    using object_of_prefix [OF assms(1) plain] free by (simp add: strict_prefix_def)
qed

subsection \<open>Replaying the queue\<close>

definition flush_ready :: "('l, 's) mount_spec \<Rightarrow> ('l, 's) managed_fs \<Rightarrow> bool" where
  "flush_ready c m \<longleftrightarrow>
     ms_wf c (mo_state m) \<and> mo_prefix m = ms_prefix c \<and> mo_deleted m \<subseteq> ms_files c \<and>
     fst ` set (mo_cache m) \<subseteq> ms_files c \<and>
     (\<forall>p \<in> ms_files c. \<forall>k. strict_prefix (object_of c p) k \<longrightarrow> ms_object c (mo_store m) k = None)"

lemma inv_flush_ready: "mount_inv c m \<Longrightarrow> flush_ready c m"
  by (simp add: mount_inv_def flush_ready_def)

text \<open>What one entry of the queue may do, whether it succeeds or not.\<close>

definition op_frame ::
  "('l, 's) mount_spec \<Rightarrow> object_store_writeback \<Rightarrow> ('l, 's) managed_fs \<Rightarrow> ('l, 's) managed_fs \<Rightarrow> bool" where
  "op_frame c op m m' \<longleftrightarrow>
     flush_ready c m' \<and> mo_state m' = mo_state m \<and> mo_dirty m' = mo_dirty m \<and>
     (\<forall>p \<in> ms_files c.
        (op \<noteq> WbPutFile p \<and> op \<noteq> WbDeleteFile p \<longrightarrow>
           stored c m' p = stored c m p \<and> (p \<in> mo_deleted m' \<longleftrightarrow> p \<in> mo_deleted m)) \<and>
        (local_file c m p = None \<and> p \<in> mo_deleted m \<longrightarrow> p \<in> mo_deleted m'))"

definition op_done ::
  "('l, 's) mount_spec \<Rightarrow> object_store_writeback \<Rightarrow> ('l, 's) managed_fs \<Rightarrow> ('l, 's) managed_fs \<Rightarrow> bool" where
  "op_done c op m m' \<longleftrightarrow>
     (\<forall>p \<in> ms_files c.
        (op = WbPutFile p \<longrightarrow>
           (case local_file c m p of
              Some x \<Rightarrow> stored c m' p = Some x \<and> p \<notin> mo_deleted m'
            | None \<Rightarrow> stored c m' p = stored c m p \<and> (p \<in> mo_deleted m' \<longleftrightarrow> p \<in> mo_deleted m))) \<and>
        (op = WbDeleteFile p \<longrightarrow> stored c m' p = None \<and> p \<in> mo_deleted m'))"

lemma op_frame_refl: "flush_ready c m \<Longrightarrow> op_frame c op m m"
  by (simp add: op_frame_def)

text \<open>The effect on the store of writing or deleting one object that is not below a file.\<close>

lemma op_frame_store:
  assumes "mount_contract c" and "flush_ready c m"
    and "\<forall>p \<in> ms_files c. \<not> strict_prefix (object_of c p) k"
    and "\<forall>p \<in> ms_files c. object_of c p = k \<longrightarrow> op = WbPutFile p \<or> op = WbDeleteFile p"
    and "ms_object c s = ms_object c (mo_store m) \<or> ms_object c s = (ms_object c (mo_store m))(k := x)"
  shows "op_frame c op m (m\<lparr>mo_store := s\<rparr>)"
proof -
  have other: "ms_object c s k' = ms_object c (mo_store m) k'" if "k' \<noteq> k" for k'
    using assms(5) that by auto
  have "flush_ready c (m\<lparr>mo_store := s\<rparr>)"
    using assms(2,3) other by (auto simp: flush_ready_def)
  moreover have "stored c (m\<lparr>mo_store := s\<rparr>) p = stored c m p"
    if "p \<in> ms_files c" "op \<noteq> WbPutFile p \<and> op \<noteq> WbDeleteFile p" for p
    using other [of "object_of c p"] assms(4) that by (auto simp: stored_def)
  ultimately show ?thesis by (simp add: op_frame_def)
qed

lemma cache_files_mark:
  assumes "mount_contract c" and "p \<in> ms_files c" and "fst ` set (mo_cache m) \<subseteq> ms_files c"
  shows "fst ` set (mo_cache (mark_clean_cached (ms_env c) p n m)) \<subseteq> ms_files c"
    and "fst ` set (mo_cache (untrack_clean_cached (ms_env c) q m)) \<subseteq> ms_files c"
  using assms(2,3)
  by (auto simp: mark_clean_cached_def next_cache_access_def norm_file [OF assms(1,2)] untrack_clean_cached_def Let_def)

lemma mark_clean_fields [simp]:
  "mo_state (mark_clean_cached env p n m) = mo_state m" "mo_store (mark_clean_cached env p n m) = mo_store m"
  "mo_prefix (mark_clean_cached env p n m) = mo_prefix m" "mo_dirty (mark_clean_cached env p n m) = mo_dirty m"
  "mo_deleted (mark_clean_cached env p n m) = mo_deleted m"
  by (simp_all add: mark_clean_cached_def next_cache_access_def Let_def)

lemma untrack_fields [simp]:
  "mo_state (untrack_clean_cached env p m) = mo_state m" "mo_store (untrack_clean_cached env p m) = mo_store m"
  "mo_prefix (untrack_clean_cached env p m) = mo_prefix m" "mo_dirty (untrack_clean_cached env p m) = mo_dirty m"
  "mo_deleted (untrack_clean_cached env p m) = mo_deleted m"
  by (simp_all add: untrack_clean_cached_def)

lemma stored_store: "mo_store m' = mo_store m \<Longrightarrow> stored c m' p = stored c m p"
  by (simp add: stored_def)

lemma local_file_state: "mo_state m' = mo_state m \<Longrightarrow> local_file c m' p = local_file c m p"
  by (simp add: local_file_def)

text \<open>Bookkeeping after a call to the store: marks and cache entries of the file of the entry.\<close>

lemma op_frame_marks:
  assumes "op_frame c op m m1" and "mo_state m' = mo_state m1" and "mo_store m' = mo_store m1"
    and "mo_prefix m' = mo_prefix m1" and "mo_dirty m' = mo_dirty m1" and "fst ` set (mo_cache m') \<subseteq> ms_files c"
    and "mo_deleted m' \<subseteq> ms_files c"
    and "\<And>p. p \<in> ms_files c \<Longrightarrow> op \<noteq> WbPutFile p \<Longrightarrow> op \<noteq> WbDeleteFile p \<Longrightarrow>
      p \<in> mo_deleted m' \<longleftrightarrow> p \<in> mo_deleted m1"
    and "\<And>p. p \<in> ms_files c \<Longrightarrow> local_file c m p = None \<Longrightarrow> p \<in> mo_deleted m1 \<Longrightarrow> p \<in> mo_deleted m'"
  shows "op_frame c op m m'"
proof -
  have st: "stored c m' p = stored c m1 p" for p by (rule stored_store [OF assms(3)])
  have "ms_wf c (mo_state m)" using assms(1) by (metis op_frame_def flush_ready_def)
  then show ?thesis using assms(1) assms(2-9) by (simp add: op_frame_def flush_ready_def st)
qed

lemma flush_put_file_step:
  assumes "mount_contract c" and "flush_ready c m" and p: "p \<in> ms_files c"
    and "flush_put_file (ms_env c) p os m = (r, m')"
  shows "op_frame c (WbPutFile p) m m' \<and> (\<forall>os'. r = Inr os' \<longrightarrow> op_done c (WbPutFile p) m m' \<and>
    set os' \<subseteq> set os \<union> {q. q = p \<and> local_file c m q \<noteq> None})"
proof (cases "local_file c m p")
  case None
  have good: "ms_wf c (mo_state m)" using assms(2) by (simp add: flush_ready_def)
  have "r = Inr os \<and> m' = m"
    using assms(4) local_exists_file [OF assms(1) good p] None by (simp add: flush_put_file_def)
  then show ?thesis using op_frame_refl [OF assms(2)] None by (auto simp: op_done_def)
next
  case (Some x)
  have ready: "ms_wf c (mo_state m)" "mo_prefix m = ms_prefix c" "fst ` set (mo_cache m) \<subseteq> ms_files c"
    "mo_deleted m \<subseteq> ms_files c"
    using assms(2) by (simp_all add: flush_ready_def)
  have obj: "file_object (ms_env c) m p = object_of c p"
    by (rule file_object_eq(1) [OF assms(1) mount_contractD(3,4) [OF assms(1) p] ready(2)])
  obtain u m1 where put: "on_store (os_put (oe_os (ms_env c)) (object_of c p) x) m = (u, m1)" by fastforce
  then obtain s where s: "os_put (oe_os (ms_env c)) (object_of c p) x (mo_store m) = (u, s)"
    and m1: "m1 = m\<lparr>mo_store := s\<rparr>" by (rule on_storeD)
  note law = store_contractD(3) [OF mount_contractD(8) [OF assms(1)] s]
  have frame: "op_frame c (WbPutFile p) m m1"
    unfolding m1 by (rule op_frame_store [OF assms(1,2), where k = "object_of c p" and x = "Some x"])
      (use law object_not_below [OF assms(1) _ p] object_of_inj [OF assms(1) _ p] in auto)
  show ?thesis
  proof (cases u)
    case (Inl e)
    then have "r = Inl (object_error e) \<and> m' = m1"
      using assms(4) Some local_exists_file [OF assms(1) ready(1) p] local_readD(2) [OF assms(1) ready(1) p Some] put
      by (simp add: flush_put_file_def map_object_error_def obj)
    then show ?thesis using frame by simp
  next
    case (Inr v)
    define m2 where "m2 = unmark_deleted (ms_env c) p m1"
    have m2: "mo_state m2 = mo_state m1" "mo_store m2 = mo_store m1" "mo_prefix m2 = mo_prefix m1"
      "mo_dirty m2 = mo_dirty m1" "mo_deleted m2 = mo_deleted m1 - {p}" "mo_cache m2 = mo_cache m"
      by (simp_all add: m2_def unmark_deleted_def norm_file [OF assms(1) p] m1)
    have run: "(r, m') = (if should_track (mo_policy m2) (length x)
        then (Inr os, mark_clean_cached (ms_env c) p (length x) m2)
        else (Inr (os @ [p]), untrack_clean_cached (ms_env c) p m2))"
      using assms(4) Some local_exists_file [OF assms(1) ready(1) p] local_readD(2) [OF assms(1) ready(1) p Some] put Inr
      by (auto simp: flush_put_file_def map_object_error_def obj Let_def m2_def)
    have same: "mo_state m' = mo_state m2" "mo_store m' = mo_store m2" "mo_prefix m' = mo_prefix m2"
      "mo_dirty m' = mo_dirty m2" "mo_deleted m' = mo_deleted m2"
      using run by (auto split: if_splits)
    have cache: "fst ` set (mo_cache m') \<subseteq> ms_files c"
      using run ready(3) m2(6) cache_files_mark [OF assms(1) p, of m2] by (auto split: if_splits)
    have del: "mo_deleted m' = mo_deleted m - {p}" using same(5) m2(5) by (simp add: m1)
    have "op_frame c (WbPutFile p) m m'"
      by (rule op_frame_marks [OF frame])
        (use same m2 cache del ready(4) Some in \<open>auto simp: m1\<close>)
    moreover have "stored c m' p = Some x"
      using law Inr same(2) m2(2) by (simp add: stored_def m1)
    ultimately show ?thesis using run Some del by (auto simp: op_done_def split: if_splits)
  qed
qed

lemma ignore_not_found_err: "ignore_not_found (Inl (ObjectOther e), s) = (Inl (object_error (ObjectOther e)), s)"
  by (simp add: ignore_not_found_def)

lemma ignore_not_found_ok: "\<nexists>e. u = Inl (ObjectOther e) \<Longrightarrow> ignore_not_found (u, s) = (Inr (), s)"
  by (auto simp: ignore_not_found_def split: sum.splits object_store_error.splits)

lemma flush_delete_step:
  assumes "mount_contract c" and "flush_ready c m" and p: "p \<in> ms_files c"
    and "flush_op (ms_env c) (WbDeleteFile p) os m = (r, m')"
  shows "op_frame c (WbDeleteFile p) m m' \<and>
    (\<forall>os'. r = Inr os' \<longrightarrow> op_done c (WbDeleteFile p) m m' \<and> os' = os)"
proof -
  have ready: "mo_prefix m = ms_prefix c" "fst ` set (mo_cache m) \<subseteq> ms_files c" "mo_deleted m \<subseteq> ms_files c"
    using assms(2) by (simp_all add: flush_ready_def)
  have obj: "file_object (ms_env c) m p = object_of c p"
    by (rule file_object_eq(1) [OF assms(1) mount_contractD(3,4) [OF assms(1) p] ready(1)])
  obtain u m1 where del: "on_store (os_delete (oe_os (ms_env c)) (object_of c p)) m = (u, m1)" by fastforce
  then obtain s where s: "os_delete (oe_os (ms_env c)) (object_of c p) (mo_store m) = (u, s)"
    and m1: "m1 = m\<lparr>mo_store := s\<rparr>" by (rule on_storeD)
  note law = store_contractD(4) [OF mount_contractD(8) [OF assms(1)] s]
  have frame: "op_frame c (WbDeleteFile p) m m1"
    unfolding m1 by (rule op_frame_store [OF assms(1,2), where k = "object_of c p" and x = None])
      (use law object_not_below [OF assms(1) _ p] object_of_inj [OF assms(1) _ p] in auto)
  show ?thesis
  proof (cases "\<exists>e. u = Inl (ObjectOther e)")
    case True
    then obtain e where "u = Inl (ObjectOther e)" by blast
    then have "r = Inl (object_error (ObjectOther e)) \<and> m' = m1"
      using assms(4) del by (simp add: flush_op_def obj ignore_not_found_err)
    then show ?thesis using frame by simp
  next
    case False
    then have run: "r = Inr os" "m' = mark_deleted (ms_env c) p (untrack_clean_cached (ms_env c) p m1)"
      using assms(4) del by (simp_all add: flush_op_def obj ignore_not_found_ok)
    have m': "mo_state m' = mo_state m1" "mo_store m' = mo_store m1" "mo_prefix m' = mo_prefix m1"
      "mo_dirty m' = mo_dirty m1" "mo_deleted m' = insert p (mo_deleted m)"
      by (simp_all add: run(2) mark_deleted_def norm_file [OF assms(1) p] m1)
    have cache: "fst ` set (mo_cache m') \<subseteq> ms_files c"
      using ready(2) cache_files_mark(2) [OF assms(1) p, of m1] by (simp add: run(2) mark_deleted_def m1)
    have "op_frame c (WbDeleteFile p) m m'"
      by (rule op_frame_marks [OF frame]) (use m' cache ready(3) p in \<open>auto simp: m1\<close>)
    moreover have "stored c m' p = None" using law False m'(2) by (auto simp: stored_def m1)
    ultimately show ?thesis using run(1) m'(5) by (simp add: op_done_def)
  qed
qed

lemma flush_put_dir_step:
  assumes "mount_contract c" and "flush_ready c m" and d: "free_dir (ms_files c) d"
    and "flush_op (ms_env c) (WbPutDir d) os m = (r, m')"
  shows "op_frame c (WbPutDir d) m m' \<and> (\<forall>os'. r = Inr os' \<longrightarrow> os' = os)"
proof -
  have ready: "mo_prefix m = ms_prefix c" "fst ` set (mo_cache m) \<subseteq> ms_files c" "mo_deleted m \<subseteq> ms_files c"
    using assms(2) by (simp_all add: flush_ready_def)
  have plain: "plain_path d" and free: "d \<notin> ms_files c" using d by (auto simp: free_dir_def)
  define k where "k = object_of c d @ [oe_encode (ms_env c) ''.dir'']"
  have obj: "marker_object (ms_env c) m d = k"
    unfolding k_def by (rule marker_object_eq [OF assms(1) plain ready(1)])
  obtain u m1 where put: "on_store (os_put (oe_os (ms_env c)) k []) m = (u, m1)" by fastforce
  then obtain s where s: "os_put (oe_os (ms_env c)) k [] (mo_store m) = (u, s)"
    and m1: "m1 = m\<lparr>mo_store := s\<rparr>" by (rule on_storeD)
  note law = store_contractD(3) [OF mount_contractD(8) [OF assms(1)] s]
  have frame: "op_frame c (WbPutDir d) m m1"
    unfolding m1 by (rule op_frame_store [OF assms(1,2), where k = k and x = "Some []"])
      (use law marker_apart(2) [OF assms(1) _ d] marker_apart(1) [OF assms(1) _ d, symmetric] in \<open>auto simp: k_def\<close>)
  show ?thesis
  proof (cases u)
    case (Inl e)
    then have "r = Inl (object_error e) \<and> m' = m1"
      using assms(4) put by (simp add: flush_op_def obj map_object_error_def)
    then show ?thesis using frame by simp
  next
    case (Inr v)
    then have run: "r = Inr os" "m' = unmark_deleted (ms_env c) d m1"
      using assms(4) put by (simp_all add: flush_op_def obj map_object_error_def)
    have "mo_deleted m' = mo_deleted m"
      using free ready(3) plain_path_norm [OF mount_contractD(1) [OF assms(1)] plain]
      by (auto simp: run(2) unmark_deleted_def m1)
    then have "op_frame c (WbPutDir d) m m'"
      by (intro op_frame_marks [OF frame]) (use ready in \<open>auto simp: run(2) unmark_deleted_def m1\<close>)
    then show ?thesis using run(1) by simp
  qed
qed

lemma flush_op_step:
  assumes "mount_contract c" and "flush_ready c m" and "tame (ms_files c) op"
    and "flush_op (ms_env c) op os m = (r, m')"
  shows "op_frame c op m m'"
    and "r = Inr os' \<Longrightarrow> op_done c op m m'"
    and "r = Inr os' \<Longrightarrow> set os' \<subseteq> set os \<union> {p. op = WbPutFile p \<and> local_file c m p \<noteq> None}"
proof -
  have "op_frame c op m m' \<and> (r = Inr os' \<longrightarrow> op_done c op m m' \<and>
      set os' \<subseteq> set os \<union> {p. op = WbPutFile p \<and> local_file c m p \<noteq> None})"
  proof (cases op)
    case (WbPutFile p)
    then show ?thesis
      using flush_put_file_step [OF assms(1,2), of p os r m'] assms(3,4) by (auto simp: flush_op_def)
  next
    case (WbDeleteFile p)
    then show ?thesis using flush_delete_step [OF assms(1,2), of p os r m'] assms(3,4) by auto
  next
    case (WbPutDir d)
    then show ?thesis
      using flush_put_dir_step [OF assms(1,2), of d os r m'] assms(3,4) by (auto simp: op_done_def)
  next
    case (WbDeleteDir d)
    then show ?thesis using assms(3) by simp
  qed
  then show "op_frame c op m m'" "r = Inr os' \<Longrightarrow> op_done c op m m'"
    "r = Inr os' \<Longrightarrow> set os' \<subseteq> set os \<union> {p. op = WbPutFile p \<and> local_file c m p \<noteq> None}"
    by blast+
qed

definition touching :: "path \<Rightarrow> queued_writeback list \<Rightarrow> object_store_writeback list" where
  "touching p ops = filter (\<lambda>op. op = WbPutFile p \<or> op = WbDeleteFile p) (map qw_op ops)"

lemma touching_Cons:
  "touching p (q # ops) =
     (if qw_op q = WbPutFile p \<or> qw_op q = WbDeleteFile p then qw_op q # touching p ops else touching p ops)"
  by (simp add: touching_def)

definition run_frame ::
  "('l, 's) mount_spec \<Rightarrow> queued_writeback list \<Rightarrow> ('l, 's) managed_fs \<Rightarrow> ('l, 's) managed_fs \<Rightarrow> bool" where
  "run_frame c ops m m' \<longleftrightarrow>
     flush_ready c m' \<and> mo_state m' = mo_state m \<and> mo_dirty m' = mo_dirty m \<and>
     (\<forall>p \<in> ms_files c.
        (touching p ops = [] \<longrightarrow> stored c m' p = stored c m p \<and> (p \<in> mo_deleted m' \<longleftrightarrow> p \<in> mo_deleted m)) \<and>
        (local_file c m p = None \<and> p \<in> mo_deleted m \<longrightarrow> p \<in> mo_deleted m'))"

definition run_done ::
  "('l, 's) mount_spec \<Rightarrow> queued_writeback list \<Rightarrow> ('l, 's) managed_fs \<Rightarrow> ('l, 's) managed_fs \<Rightarrow> bool" where
  "run_done c ops m m' \<longleftrightarrow>
     (\<forall>p \<in> ms_files c. touching p ops \<noteq> [] \<longrightarrow>
        (if last (touching p ops) = WbPutFile p
         then (\<forall>x. local_file c m p = Some x \<longrightarrow> stored c m' p = Some x \<and> p \<notin> mo_deleted m')
         else stored c m' p = None \<and> p \<in> mo_deleted m'))"

lemma run_frame_step:
  assumes "op_frame c (qw_op q) m m1" and "run_frame c ops m1 m'"
  shows "run_frame c (q # ops) m m'"
proof -
  have lf: "local_file c m1 p = local_file c m p" for p
    using assms(1) by (simp add: op_frame_def local_file_def)
  show ?thesis
    using assms unfolding run_frame_def op_frame_def by (auto simp: touching_Cons lf)
qed

lemma run_done_step:
  assumes "op_frame c (qw_op q) m m1" and "op_done c (qw_op q) m m1"
    and "run_frame c ops m1 m'" and "run_done c ops m1 m'"
  shows "run_done c (q # ops) m m'"
  unfolding run_done_def
proof (intro ballI impI)
  fix p assume p: "p \<in> ms_files c" and touch: "touching p (q # ops) \<noteq> []"
  have lf: "local_file c m1 p = local_file c m p"
    using assms(1) by (simp add: op_frame_def local_file_def)
  show "if last (touching p (q # ops)) = WbPutFile p
     then (\<forall>x. local_file c m p = Some x \<longrightarrow> stored c m' p = Some x \<and> p \<notin> mo_deleted m')
     else stored c m' p = None \<and> p \<in> mo_deleted m'"
  proof (cases "touching p ops = []")
    case True
    then have "qw_op q = WbPutFile p \<or> qw_op q = WbDeleteFile p"
      and last: "last (touching p (q # ops)) = qw_op q"
      using touch by (auto simp: touching_Cons split: if_splits)
    moreover have "stored c m' p = stored c m1 p" "p \<in> mo_deleted m' \<longleftrightarrow> p \<in> mo_deleted m1"
      using assms(3) p True by (auto simp: run_frame_def)
    ultimately show ?thesis
      using assms(2) p by (auto simp: op_done_def)
  next
    case False
    then have "last (touching p (q # ops)) = last (touching p ops)" by (simp add: touching_Cons)
    then show ?thesis using assms(4) p False unfolding run_done_def lf [symmetric] by simp
  qed
qed

lemma flush_ops_run:
  assumes "mount_contract c" and "flush_ready c m" and "\<forall>q \<in> set ops. tame (ms_files c) (qw_op q)"
    and "flush_ops (ms_env c) ops os m = (r, m')"
  shows "run_frame c ops m m' \<and> (\<forall>os'. r = Inr os' \<longrightarrow> run_done c ops m m' \<and>
    set os' \<subseteq> set os \<union> {p. WbPutFile p \<in> qw_op ` set ops \<and> local_file c m p \<noteq> None})"
  using assms(2-4)
proof (induction ops arbitrary: os m)
  case Nil
  then show ?case by (auto simp: run_frame_def run_done_def touching_def)
next
  case (Cons q ops)
  obtain r1 m1 where one: "flush_op (ms_env c) (qw_op q) os m = (r1, m1)" by fastforce
  have tame: "tame (ms_files c) (qw_op q)" using Cons.prems(2) by simp
  note step = flush_op_step [OF assms(1) Cons.prems(1) tame one]
  show ?case
  proof (cases r1)
    case (Inl e)
    have "run_frame c (q # ops) m m1"
      using step(1) by (auto simp: run_frame_def op_frame_def touching_Cons split: if_splits)
    then show ?thesis using Cons.prems(3) one Inl by auto
  next
    case (Inr os1)
    have ready: "flush_ready c m1" and lf: "\<And>p. local_file c m1 p = local_file c m p"
      using step(1) by (simp_all add: op_frame_def local_file_def)
    have run: "flush_ops (ms_env c) ops os1 m1 = (r, m')" using Cons.prems(3) one Inr by simp
    from Cons.IH [OF ready _ run] Cons.prems(2)
    have rest: "run_frame c ops m1 m'" and fin: "\<And>os'. r = Inr os' \<Longrightarrow> run_done c ops m1 m' \<and>
        set os' \<subseteq> set os1 \<union> {p. WbPutFile p \<in> qw_op ` set ops \<and> local_file c m1 p \<noteq> None}"
      by auto
    have "run_frame c (q # ops) m m'" by (rule run_frame_step [OF step(1) rest])
    moreover have "run_done c (q # ops) m m'" if "r = Inr os'" for os'
      using run_done_step [OF step(1) step(2) [OF Inr] rest] fin [OF that] by blast
    moreover have "set os' \<subseteq> set os \<union> {p. WbPutFile p \<in> qw_op ` set (q # ops) \<and> local_file c m p \<noteq> None}"
      if "r = Inr os'" for os'
      using fin [OF that] step(3) [OF Inr] unfolding lf by auto
    ultimately show ?thesis by blast
  qed
qed

text \<open>The queue stays as it was while it is replayed, so what is seen does not change.\<close>

lemma run_frame_unseen:
  assumes "mount_inv c m" and "run_frame c (mo_dirty m) m m'"
  shows "unseen c m m'"
proof -
  have fr: "flush_ready c m'" "mo_state m' = mo_state m" "mo_dirty m' = mo_dirty m"
    using assms(2) by (simp_all add: run_frame_def)
  have lf: "local_file c m' p = local_file c m p" for p by (simp add: local_file_def fr(2))
  have pe: "pending p m' = pending p m" "touching p (mo_dirty m) = pending p m" for p
    by (simp_all add: pending_def touching_def fr(3))
  have "saved c m' p \<and> view c m' p = view c m p" if p: "p \<in> ms_files c" for p
  proof (cases "pending p m = []")
    case True
    then have "stored c m' p = stored c m p" "p \<in> mo_deleted m' \<longleftrightarrow> p \<in> mo_deleted m"
      using assms(2) p by (auto simp: run_frame_def pe)
    from same_file [OF lf this pe(1)] show ?thesis using mount_invD(7) [OF assms(1) p] by simp
  next
    case False
    show ?thesis
    proof (cases "last (pending p m) = WbPutFile p")
      case True
      then show ?thesis
        using mount_invD(7) [OF assms(1) p] False by (auto simp: saved_def view_def pe lf)
    next
      case del: False
      then have "local_file c m p = None" "p \<in> mo_deleted m"
        using mount_invD(7) [OF assms(1) p] False by (simp_all add: saved_def)
      moreover from this have "p \<in> mo_deleted m'" using assms(2) p by (auto simp: run_frame_def)
      ultimately show ?thesis using False del by (simp add: saved_def view_def pe lf)
    qed
  qed
  then show ?thesis
    using fr(1) mount_invD(3) [OF assms(1)] by (auto simp: unseen_def mount_inv_def flush_ready_def fr(3))
qed

text \<open>Once all of it is replayed the queue can be dropped: every file is in the store.\<close>

definition emptied :: "('l, 's) managed_fs \<Rightarrow> ('l, 's) managed_fs" where
  "emptied m = m\<lparr>mo_dirty := []\<rparr>"

lemma run_done_saved:
  assumes "mount_inv c m" and "run_frame c (mo_dirty m) m m'" and "run_done c (mo_dirty m) m m'"
  shows "unseen c m (emptied m')" and "\<forall>p \<in> ms_files c. stored c m' p = view c m p"
    and "\<And>p. p \<in> ms_files c \<Longrightarrow> WbPutFile p \<in> qw_op ` set (mo_dirty m) \<Longrightarrow> local_file c m p \<noteq> None \<Longrightarrow> p \<notin> mo_deleted m'"
proof -
  have fr: "flush_ready c m'" "mo_state m' = mo_state m" using assms(2) by (simp_all add: run_frame_def)
  have lf: "local_file c m' p = local_file c m p" for p by (simp add: local_file_def fr(2))
  have pe: "touching p (mo_dirty m) = pending p m" "pending p (emptied m') = []" for p
    by (simp_all add: pending_def touching_def emptied_def)
  have em: "local_file c (emptied m') p = local_file c m p" "stored c (emptied m') p = stored c m' p"
    "p \<in> mo_deleted (emptied m') \<longleftrightarrow> p \<in> mo_deleted m'" for p
    by (simp_all add: emptied_def local_file_def stored_def fr(2))
  have main: "saved c (emptied m') p \<and> view c (emptied m') p = view c m p \<and> stored c m' p = view c m p \<and>
      (pending p m \<noteq> [] \<and> local_file c m p \<noteq> None \<longrightarrow> p \<notin> mo_deleted m')" if p: "p \<in> ms_files c" for p
  proof (cases "pending p m = []")
    case True
    then have "stored c m' p = stored c m p" "p \<in> mo_deleted m' \<longleftrightarrow> p \<in> mo_deleted m"
      using assms(2) p by (auto simp: run_frame_def pe)
    then show ?thesis
      using mount_invD(7) [OF assms(1) p] True by (auto simp: saved_def view_def pe em split: option.splits)
  next
    case False
    note end_state = assms(3) [unfolded run_done_def, rule_format, OF p, unfolded pe, OF False]
    show ?thesis
    proof (cases "last (pending p m) = WbPutFile p")
      case True
      then obtain x where "local_file c m p = Some x"
        using mount_invD(7) [OF assms(1) p] False by (auto simp: saved_def)
      then show ?thesis using end_state True by (auto simp: saved_def view_def pe em)
    next
      case del: False
      then have "local_file c m p = None" "p \<in> mo_deleted m"
        using mount_invD(7) [OF assms(1) p] False by (simp_all add: saved_def)
      then show ?thesis using end_state del by (auto simp: saved_def view_def pe em)
    qed
  qed
  show "unseen c m (emptied m')"
    using main fr(1) by (auto simp: unseen_def mount_inv_def flush_ready_def emptied_def)
  show "\<forall>p \<in> ms_files c. stored c m' p = view c m p" using main by blast
  show "p \<notin> mo_deleted m'" if "p \<in> ms_files c" "WbPutFile p \<in> qw_op ` set (mo_dirty m)" "local_file c m p \<noteq> None" for p
  proof -
    have "pending p m \<noteq> []" using that(2) by (auto simp: pending_def filter_empty_conv)
    then show ?thesis using main [OF that(1)] that(3) by blast
  qed
qed

lemma remove_oversized_unseen:
  assumes "mount_contract c" and "mount_inv c m" and "mo_dirty m = []"
    and "\<forall>p \<in> set ps. p \<in> ms_files c \<and> p \<notin> mo_deleted m"
    and "remove_oversized (ms_env c) {} ps m = (r, m')"
  shows "unseen c m m' \<and> (\<exists>l. m' = m\<lparr>mo_state := l\<rparr>)"
proof -
  have "remove_oversized (ms_env c) {} ps m = remove_evicted (ms_env c) ps m" for m
    by (induction ps arbitrary: m) (simp_all add: and_run_def split: prod.splits sum.splits)
  then show ?thesis
    using remove_evicted_unseen [OF assms(1,2), of ps r m'] assms(3-5) by (simp add: pending_def)
qed

lemma managed_flush_unseen:
  assumes "mount_contract c" and "mount_inv c m" and "managed_flush (ms_env c) m = (r, m')"
  shows "unseen c m m' \<and>
    (r = Inr () \<longrightarrow> mo_dirty m' = [] \<and> (\<forall>p \<in> ms_files c. stored c m' p = view c m p))"
proof -
  obtain r1 m1 where one: "flush_ops (ms_env c) (mo_dirty m) [] m = (r1, m1)" by fastforce
  have "\<forall>q \<in> set (mo_dirty m). tame (ms_files c) (qw_op q)" using mount_invD(3) [OF assms(2)] by blast
  note run = flush_ops_run [OF assms(1) inv_flush_ready [OF assms(2)] this one]
  show ?thesis
  proof (cases r1)
    case (Inl e)
    then have "r = Inl e \<and> m' = m1" using assms(3) one by (simp add: managed_flush_def)
    then show ?thesis using run_frame_unseen [OF assms(2)] run by simp
  next
    case (Inr os)
    have fin: "run_frame c (mo_dirty m) m m1" "run_done c (mo_dirty m) m m1"
      "set os \<subseteq> {p. WbPutFile p \<in> qw_op ` set (mo_dirty m) \<and> local_file c m p \<noteq> None}"
      using run Inr by auto
    define m2 where "m2 = emptied m1"
    have d1: "mo_dirty m1 = mo_dirty m" using fin(1) by (simp add: run_frame_def)
    have m2: "m1\<lparr>mo_dirty := filter (\<lambda>queued. qw_id queued \<notin> qw_id ` set (mo_dirty m)) (mo_dirty m1)\<rparr> = m2"
      by (simp add: m2_def emptied_def d1 filter_empty_conv)
    note sv = run_done_saved [OF assms(2) fin(1,2)]
    have un2: "unseen c m m2" and st2: "\<forall>p \<in> ms_files c. stored c m2 p = view c m p"
      using sv(1,2) by (simp_all add: m2_def emptied_def stored_def)
    have d2: "mo_dirty m2 = []" by (simp add: m2_def emptied_def)
    have os: "\<forall>p \<in> set os. p \<in> ms_files c \<and> p \<notin> mo_deleted m2"
    proof
      fix p assume "p \<in> set os"
      then have p: "WbPutFile p \<in> qw_op ` set (mo_dirty m)" "local_file c m p \<noteq> None" using fin(3) by auto
      then have "p \<in> ms_files c" using mount_invD(3) [OF assms(2) p(1)] by simp
      then show "p \<in> ms_files c \<and> p \<notin> mo_deleted m2" using sv(3) p by (simp add: m2_def emptied_def)
    qed
    obtain r3 m3 where three: "remove_oversized (ms_env c) {} os m2 = (r3, m3)" by fastforce
    have inv2: "mount_inv c m2" using un2 by (simp add: unseen_def)
    note un3 = remove_oversized_unseen [OF assms(1) inv2 d2 os three]
    have dp: "dirty_paths (ms_env c) m2 = {}" by (simp add: dirty_paths_def d2)
    have rest: "and_run (r3, m3) (\<lambda>_ m. gc_clean_cache (ms_env c) m) = (r, m')"
      using assms(3) unfolding managed_flush_def Let_def one Inr and_run_simps(2) m2 dp three .
    have un: "unseen c m m3" using un2 un3 unseen_trans [of c m m2 m3] by blast
    have st: "\<forall>p \<in> ms_files c. stored c m3 p = view c m p" and d3: "mo_dirty m3 = []"
      using un3 st2 d2 by (auto simp: stored_def)
    show ?thesis
    proof (cases r3)
      case (Inl e)
      then show ?thesis using rest un by auto
    next
      case (Inr u)
      then have gc: "gc_clean_cache (ms_env c) m3 = (r, m')" using rest by simp
      have "mount_inv c m3" using un by (simp add: unseen_def)
      from gc_unseen [OF assms(1) this gc] show ?thesis
        using un unseen_trans [of c m m3 m'] st d3 by (simp add: stored_def)
    qed
  qed
qed

end
