(* ===== verification/Object_Mount_Safety.thy ===== *)
theory Object_Mount_Safety
  imports Object_Mount_Flush "HOL-Library.Multiset"
begin

section \<open>What an object mount promises\<close>

text \<open>
  For a set of files none of which lies below another, an object mount behaves as a plain map from paths
  to contents: queue, clean copies, eviction and deletion marks cannot be seen.  A flush that succeeds
  leaves every file in the store as it reads, and clean copies stay within their budget.
\<close>

subsection \<open>Reading\<close>

lemma is_deleted_file:
  assumes "mount_contract c" and "mo_deleted m \<subseteq> ms_files c" and "p \<in> ms_files c"
  shows "is_deleted (ms_env c) m p \<longleftrightarrow> p \<in> mo_deleted m"
  using mount_contractD(6) [OF assms(1) _ assms(3)] assms(2)
  by (auto simp: is_deleted_def norm_file [OF assms(1,3)])

text \<open>A file that is not there locally and has no deletion mark has nothing queued.\<close>

lemma absent_not_pending:
  assumes "mount_inv c m" and "p \<in> ms_files c" and "local_file c m p = None" and "p \<notin> mo_deleted m"
  shows "pending p m = []" and "view c m p = stored c m p"
  using mount_invD(7) [OF assms(1,2)] assms(3,4) by (auto simp: saved_def view_def split: if_splits)

lemma write_clean_copy:
  assumes "mount_contract c" and "mount_inv c m" and p: "p \<in> ms_files c"
    and "local_file c m p = None" and "p \<notin> mo_deleted m" and "stored c m p = Some x"
    and "on_local (fs_write_file (oe_fs (ms_env c)) p x) m = (r, m')"
  shows "unseen c m m'"
proof -
  obtain l where m': "m' = m\<lparr>mo_state := l\<rparr>" and good: "ms_wf c l"
    and l: "\<And>q. q \<in> ms_files c \<Longrightarrow> ms_file c l q = (if q = p \<and> r = Inr () then Some x else local_file c m q)"
    using local_writeD [OF assms(1) mount_invD(1) [OF assms(2)] p assms(7)] by blast
  have "saved c m' q \<and> view c m' q = view c m q" if q: "q \<in> ms_files c" for q
  proof (cases "q = p \<and> r = Inr ()")
    case True
    have "pending q m' = []" using absent_not_pending(1) [OF assms(2-5)] True by (simp add: m' pending_def)
    moreover have "local_file c m' q = Some x" "stored c m' q = Some x"
      using l [OF q] True assms(6) by (simp_all add: m' local_file_def stored_def)
    moreover have "view c m q = Some x" using True assms(4-6) by (simp add: view_def)
    ultimately show ?thesis by (simp add: saved_def view_def)
  next
    case False
    then have "local_file c m' q = local_file c m q" using l [OF q] by (auto simp: m' local_file_def)
    from same_file [OF this] mount_invD(7) [OF assms(2) q] show ?thesis
      by (simp add: m' stored_def pending_def)
  qed
  then show ?thesis
    using mount_invD(1-6) [OF assms(2)] good by (auto simp: unseen_def mount_inv_def m')
qed

lemma touch_unseen:
  assumes "mount_inv c m"
  shows "unseen c m (touch_clean_cached (ms_env c) p m)"
  using mount_invD(5) [OF assms]
  by (intro unseenI [OF assms])
    (auto simp: touch_clean_cached_def next_cache_access_def local_file_def mount_invD(1) [OF assms])

lemma hydrate_unseen:
  assumes "mount_contract c" and "mount_inv c m" and p: "p \<in> ms_files c"
    and "local_file c m p = None" and "p \<notin> mo_deleted m"
    and "hydrate_file (ms_env c) p m = (r, m')"
  shows "unseen c m m' \<and> (\<forall>x. r = Inr (Some x) \<longrightarrow> view c m p = Some x) \<and> (r = Inr None \<longrightarrow> view c m p = None)"
proof -
  note vw = absent_not_pending [OF assms(2) p assms(4,5)]
  have obj: "file_object (ms_env c) m p = object_of c p"
    by (rule file_object_eq(1) [OF assms(1) mount_contractD(3,4) [OF assms(1) p] mount_invD(2) [OF assms(2)]])
  obtain g m1 where get: "on_store (os_get (oe_os (ms_env c)) (object_of c p)) m = (g, m1)" by fastforce
  then obtain s where s: "os_get (oe_os (ms_env c)) (object_of c p) (mo_store m) = (g, s)"
    and m1: "m1 = m\<lparr>mo_store := s\<rparr>" by (rule on_storeD)
  note law = store_contractD(1) [OF mount_contractD(8) [OF assms(1)] s]
  have un1: "unseen c m m1" unfolding m1 by (rule store_quiet_unseen [OF assms(2)]) (use law in blast)
  then have inv1: "mount_inv c m1" by (simp add: unseen_def)
  show ?thesis
  proof (cases "\<exists>x. g = Inr (Inr x)")
    case False
    then have "m' = m1 \<and> (r = Inr None \<longrightarrow> (\<exists>e. g = Inl (ObjectNotFound e))) \<and> (\<forall>x. r \<noteq> Inr (Some x))"
      using assms(6) get
      by (cases g; cases "projl g"; cases "projr g") (auto simp: hydrate_file_def obj)
    then show ?thesis using un1 law vw(2) by (auto simp: stored_def)
  next
    case True
    then obtain x where x: "g = Inr (Inr x)" by blast
    have vx: "view c m p = Some x" using law x vw(2) by (simp add: stored_def)
    have lf1: "local_file c m1 p = None" "p \<notin> mo_deleted m1" using assms(4,5) by (simp_all add: m1 local_file_def)
    show ?thesis
    proof (cases "should_track (mo_policy m1) (length x)")
      case False
      then have "r = Inr (Some x) \<and> m' = untrack_clean_cached (ms_env c) p m1"
        using assms(6) get x by (simp add: hydrate_file_def obj)
      moreover have "unseen c m1 (untrack_clean_cached (ms_env c) p m1)"
        using cache_files_mark(2) [OF assms(1) p mount_invD(5) [OF inv1]]
        by (intro unseenI [OF inv1]) (simp_all add: local_file_def mount_invD(1) [OF inv1])
      ultimately show ?thesis using un1 unseen_trans [of c m m1] vx by auto
    next
      case track: True
      obtain e m2 where en: "ensure_parent_dirs (ms_env c) p m1 = (e, m2)" by fastforce
      obtain l2 where m2: "m2 = m1\<lparr>mo_state := l2\<rparr>" and good2: "ms_wf c l2"
        and l2: "\<And>q. q \<in> ms_files c \<Longrightarrow> ms_file c l2 q = local_file c m1 q"
        using ensure_parent_dirsD [OF assms(1) mount_invD(1) [OF inv1] p en] by blast
      have un2: "unseen c m1 m2"
        using l2 good2 mount_invD(5) [OF inv1] by (intro unseenI [OF inv1]) (simp_all add: m2 local_file_def)
      then have inv2: "mount_inv c m2" by (simp add: unseen_def)
      show ?thesis
      proof (cases e)
        case (Inl err)
        then have "m' = m2 \<and> r = Inl err" using assms(6) get x track en by (simp add: hydrate_file_def obj)
        then show ?thesis using un1 un2 unseen_trans [of c m m1 m2] by simp
      next
        case (Inr u)
        obtain w m3 where wr: "on_local (fs_write_file (oe_fs (ms_env c)) p x) m2 = (w, m3)" by fastforce
        have p2: "local_file c m2 p = None" "p \<notin> mo_deleted m2" "stored c m2 p = Some x"
          using lf1 l2 [OF p] law x by (simp_all add: m2 m1 local_file_def stored_def)
        have un3: "unseen c m2 m3"
          by (rule write_clean_copy [OF assms(1) inv2 p p2 wr])
        then have inv3: "mount_inv c m3" by (simp add: unseen_def)
        have un: "unseen c m m3" using un1 un2 un3 unseen_trans by blast
        show ?thesis
        proof (cases w)
          case (Inl err)
          then have "m' = m3 \<and> r = Inl err" using assms(6) get x track en Inr wr by (simp add: hydrate_file_def obj)
          then show ?thesis using un by simp
        next
          case w: (Inr v)
          define m4 where "m4 = mark_clean_cached (ms_env c) p (length x) m3"
          have un4: "unseen c m3 m4"
            using cache_files_mark(1) [OF assms(1) p mount_invD(5) [OF inv3]]
            by (intro unseenI [OF inv3]) (simp_all add: m4_def local_file_def mount_invD(1) [OF inv3])
          obtain g5 m5 where gc: "gc_clean_cache (ms_env c) m4 = (g5, m5)" by fastforce
          have un5: "unseen c m4 m5" using gc_unseen [OF assms(1) _ gc] un4 by (simp add: unseen_def)
          have "m' = m5 \<and> (r = Inr (Some x) \<or> (\<exists>err. r = Inl err))"
            using assms(6) get x track en Inr wr w gc
            by (cases g5) (auto simp: hydrate_file_def obj m4_def)
          then show ?thesis using un un4 un5 unseen_trans [of c m m3 m4] unseen_trans [of c m m4 m5] vx by auto
        qed
      qed
    qed
  qed
qed

lemma remote_dir_unseen:
  assumes "mount_contract c" and "mount_inv c m" and p: "p \<in> ms_files c"
    and "remote_dir_exists (ms_env c) p m = (r, m')"
  shows "unseen c m m' \<and> r \<noteq> Inr True"
proof (cases "is_deleted (ms_env c) m p")
  case True
  then show ?thesis using assms(4) unseen_refl [OF assms(2)] by (auto simp: remote_dir_exists_def)
next
  case False
  have plain: "plain_path p" "p \<noteq> [RootDir]" using mount_contractD(3,4) [OF assms(1) p] .
  define k where "k = object_of c p @ [oe_encode (ms_env c) ''.dir'']"
  have mark: "marker_object (ms_env c) m p = k"
    unfolding k_def by (rule marker_object_eq [OF assms(1) plain(1) mount_invD(2) [OF assms(2)]])
  have none: "ms_object c (mo_store m) k' = None" if "strict_prefix (object_of c p) k'" for k'
    by (rule mount_invD(6) [OF assms(2) p that])
  obtain h m1 where head: "on_store (os_head (oe_os (ms_env c)) k) m = (h, m1)" by fastforce
  then obtain s where s: "os_head (oe_os (ms_env c)) k (mo_store m) = (h, s)"
    and m1: "m1 = m\<lparr>mo_store := s\<rparr>" by (rule on_storeD)
  note law = store_contractD(2) [OF mount_contractD(8) [OF assms(1)] s]
  obtain e where e: "h = Inl e"
    using law none [of k] by (cases h) (auto simp: k_def strict_prefix_def)
  have un1: "unseen c m m1" unfolding m1 by (rule store_quiet_unseen [OF assms(2)]) (use law in blast)
  then have inv1: "mount_inv c m1" by (simp add: unseen_def)
  have pre: "object_prefix_path (oe_encode (ms_env c)) (key_for_dir_prefix (ms_env c) m1 p) = Some (object_of c p)"
    by (rule file_object_eq(2) [OF assms(1) plain mount_invD(2) [OF inv1]])
  obtain w m2 where list: "on_store (os_list_with_delimiter (oe_os (ms_env c)) (Some (object_of c p))) m1 = (w, m2)"
    by fastforce
  then obtain s2 where s2: "os_list_with_delimiter (oe_os (ms_env c)) (Some (object_of c p)) (mo_store m1) = (w, s2)"
    and m2: "m2 = m1\<lparr>mo_store := s2\<rparr>" by (rule on_storeD)
  note law2 = store_contractD(5) [OF mount_contractD(8) [OF assms(1)] s2]
  have un2: "unseen c m1 m2" unfolding m2 by (rule store_quiet_unseen [OF inv1]) (use law2 in blast)
  have "lr_objects listed = [] \<and> lr_common_prefixes listed = []" if "w = Inr listed" for listed
    using law2 that none law by (auto simp: m1)
  then have "m' = m2 \<and> r \<noteq> Inr True"
    using assms(4) False plain(2) head list e
    by (cases w) (auto simp: remote_dir_exists_def mark pre map_object_error_def)
  then show ?thesis using unseen_trans [OF un1 un2] by simp
qed

lemma managed_read_unseen:
  assumes "mount_contract c" and "mount_inv c m" and p: "p \<in> ms_files c"
    and "managed_read_file (ms_env c) p m = (r, m')"
  shows "unseen c m m' \<and> (\<forall>x. r = Inr x \<longrightarrow> view c m p = Some x)"
proof (cases "local_file c m p")
  case (Some x)
  note here = local_exists_file [OF assms(1) mount_invD(1) [OF assms(2)] p]
  define m1 where "m1 = touch_clean_cached (ms_env c) p m"
  have un: "unseen c m m1" unfolding m1_def by (rule touch_unseen [OF assms(2)])
  then have good: "ms_wf c (mo_state m1)" by (simp add: unseen_def mount_inv_def)
  have "local_file c m1 p = Some x"
    using Some by (simp add: m1_def touch_clean_cached_def next_cache_access_def local_file_def)
  from local_readD(2) [OF assms(1) good p this] have "r = Inr x \<and> m' = m1"
    using assms(4) Some here by (simp add: managed_read_file_def norm_file [OF assms(1) p] m1_def)
  then show ?thesis using un Some by (simp add: view_def)
next
  case None
  note here = local_exists_file [OF assms(1) mount_invD(1) [OF assms(2)] p]
  have del: "is_deleted (ms_env c) m p \<longleftrightarrow> p \<in> mo_deleted m"
    by (rule is_deleted_file [OF assms(1) _ p]) (use mount_invD(4) [OF assms(2)] in blast)
  show ?thesis
  proof (cases "p \<in> mo_deleted m")
    case True
    then show ?thesis
      using assms(4) None here del unseen_refl [OF assms(2)]
      by (auto simp: managed_read_file_def norm_file [OF assms(1) p])
  next
    case False
    obtain h m1 where hy: "hydrate_file (ms_env c) p m = (h, m1)" by fastforce
    note un1 = hydrate_unseen [OF assms(1,2) p None False hy]
    have run: "and_run (h, m1) (\<lambda>hydrated m. case hydrated of Some bytes \<Rightarrow> (Inr bytes, m)
        | None \<Rightarrow> and_run (remote_dir_exists (ms_env c) p m) (\<lambda>dir m.
            (Inl (if dir then BashkitIo IsADirectory ''is a directory'' else BashkitIo NotFound ''file not found''), m))) =
        (r, m')"
      using assms(4) None here del False hy by (simp add: managed_read_file_def norm_file [OF assms(1) p])
    show ?thesis
    proof (cases "h = Inr None")
      case True
      obtain d m2 where dir: "remote_dir_exists (ms_env c) p m1 = (d, m2)" by fastforce
      have "unseen c m1 m2" using remote_dir_unseen [OF assms(1) _ p dir] un1 by (simp add: unseen_def)
      moreover have "m' = m2 \<and> (\<exists>e. r = Inl e)" using run True dir by (cases d) auto
      ultimately show ?thesis using un1 unseen_trans [of c m m1 m2] by auto
    next
      case False
      then show ?thesis using run un1 by (cases h) (auto split: option.splits)
    qed
  qed
qed

text \<open>The calls of the store that ask about the object of one file.\<close>

lemma head_unseen:
  assumes "mount_contract c" and "mount_inv c m" and p: "p \<in> ms_files c"
    and "on_store (os_head (oe_os (ms_env c)) (file_object (ms_env c) m p)) m = (h, m')"
  shows "unseen c m m'" and "h = Inr meta \<Longrightarrow> stored c m p \<noteq> None" and "h = Inl (ObjectNotFound e) \<Longrightarrow> stored c m p = None"
    and "local_file c m' p = local_file c m p" and "mo_deleted m' = mo_deleted m"
proof -
  have obj: "file_object (ms_env c) m p = object_of c p"
    by (rule file_object_eq(1) [OF assms(1) mount_contractD(3,4) [OF assms(1) p] mount_invD(2) [OF assms(2)]])
  obtain s where s: "os_head (oe_os (ms_env c)) (object_of c p) (mo_store m) = (h, s)"
    and m': "m' = m\<lparr>mo_store := s\<rparr>" using assms(4) unfolding obj by (rule on_storeD)
  note law = store_contractD(2) [OF mount_contractD(8) [OF assms(1)] s]
  show "unseen c m m'" unfolding m' by (rule store_quiet_unseen [OF assms(2)]) (use law in blast)
  show "h = Inr meta \<Longrightarrow> stored c m p \<noteq> None" "h = Inl (ObjectNotFound e) \<Longrightarrow> stored c m p = None"
    using law by (simp_all add: stored_def)
  show "local_file c m' p = local_file c m p" "mo_deleted m' = mo_deleted m" by (simp_all add: m' local_file_def)
qed

lemma managed_stat_unseen:
  assumes "mount_contract c" and "mount_inv c m" and p: "p \<in> ms_files c"
    and "managed_stat (ms_env c) p m = (r, m')"
  shows "unseen c m m' \<and> (\<forall>meta. r = Inr meta \<longrightarrow> md_file_type meta \<noteq> Directory)"
proof -
  note here = local_exists_file [OF assms(1) mount_invD(1) [OF assms(2)] p] and nf = norm_file [OF assms(1) p]
  note law = mount_contractD(7) [OF assms(1)] and good = mount_invD(1) [OF assms(2)]
  have stat: "on_local (fs_stat (oe_fs (ms_env c)) p) m = (fst (fs_stat (oe_fs (ms_env c)) p (mo_state m)), m)"
    by (rule on_local_quiet) (rule local_contractD(5) [OF law p good])
  show ?thesis
  proof (cases "local_file c m p = None \<and> \<not> is_deleted (ms_env c) m p")
    case False
    then show ?thesis
      using assms(4) here stat unseen_refl [OF assms(2)] local_contractD(6) [OF law p good]
      by (auto simp: managed_stat_def nf local_file_def split: if_splits)
  next
    case True
    obtain h m1 where head: "on_store (os_head (oe_os (ms_env c)) (file_object (ms_env c) m p)) m = (h, m1)"
      by fastforce
    note un1 = head_unseen(1) [OF assms(1,2) p head]
    obtain d m2 where dir: "remote_dir_exists (ms_env c) p m1 = (d, m2)" by fastforce
    have un2: "unseen c m1 m2 \<and> d \<noteq> Inr True" using remote_dir_unseen [OF assms(1) _ p dir] un1 by (simp add: unseen_def)
    have "m' \<in> {m1, m2} \<and> (\<forall>meta. r = Inr meta \<longrightarrow> md_file_type meta \<noteq> Directory)"
      using assms(4) here True head dir un2
      by (cases h; cases "projl h"; cases d) (auto simp: managed_stat_def nf object_metadata_def)
    then show ?thesis using un1 un2 unseen_trans [of c m m1 m2] by auto
  qed
qed

lemma managed_exists_unseen:
  assumes "mount_contract c" and "mount_inv c m" and p: "p \<in> ms_files c"
    and "managed_exists (ms_env c) p m = (r, m')"
  shows "unseen c m m' \<and> (\<forall>b. r = Inr b \<longrightarrow> b = (view c m p \<noteq> None))"
proof -
  note here = local_exists_file [OF assms(1) mount_invD(1) [OF assms(2)] p] and nf = norm_file [OF assms(1) p]
  have del: "is_deleted (ms_env c) m p \<longleftrightarrow> p \<in> mo_deleted m"
    by (rule is_deleted_file [OF assms(1) _ p]) (use mount_invD(4) [OF assms(2)] in blast)
  show ?thesis
  proof (cases "local_file c m p = None \<and> p \<notin> mo_deleted m")
    case False
    then show ?thesis
      using assms(4) here del unseen_refl [OF assms(2)]
      by (auto simp: managed_exists_def nf view_def split: if_splits option.splits)
  next
    case True
    obtain h m1 where head: "on_store (os_head (oe_os (ms_env c)) (file_object (ms_env c) m p)) m = (h, m1)"
      by fastforce
    note un1 = head_unseen [OF assms(1,2) p head]
    obtain d m2 where dir: "remote_dir_exists (ms_env c) p m1 = (d, m2)" by fastforce
    have un2: "unseen c m1 m2 \<and> d \<noteq> Inr True"
      using remote_dir_unseen [OF assms(1) _ p dir] un1(1) by (simp add: unseen_def)
    have "view c m p = stored c m p" using True by (simp add: view_def)
    then have "m' \<in> {m1, m2} \<and> (\<forall>b. r = Inr b \<longrightarrow> b = (view c m p \<noteq> None))"
      using assms(4) here True head dir un2 del un1(2,3)
      by (cases h; cases "projl h"; cases d) (auto simp: managed_exists_def remote_file_exists_def nf)
    then show ?thesis using un1(1) un2 unseen_trans [of c m m1 m2] by auto
  qed
qed

subsection \<open>Writing\<close>

text \<open>
  A call with an intended effect: when it succeeds every file is as intended, when it fails each file is as
  intended or as it was.
\<close>

definition takes_effect ::
  "('l, 's) mount_spec \<Rightarrow> (path \<Rightarrow> string option) \<Rightarrow> bool \<Rightarrow> ('l, 's) managed_fs \<Rightarrow> ('l, 's) managed_fs \<Rightarrow> bool" where
  "takes_effect c new ok m m' \<longleftrightarrow>
     mount_inv c m' \<and> (\<forall>p \<in> ms_files c. view c m' p = new p \<or> \<not> ok \<and> view c m' p = view c m p)"

lemma takes_effect_unseen: "unseen c m m' \<Longrightarrow> takes_effect c new False m m'"
  by (simp add: unseen_def takes_effect_def)

lemma takes_effect_after: "unseen c m m1 \<Longrightarrow> takes_effect c new ok m1 m' \<Longrightarrow> takes_effect c new ok m m'"
  by (simp add: unseen_def takes_effect_def)

lemma takes_effect_before:
  "takes_effect c new True m m1 \<Longrightarrow> unseen c m1 m' \<Longrightarrow> takes_effect c new ok m m'"
  by (simp add: unseen_def takes_effect_def)

lemma pending_push:
  "pending q (push_dirty op m) = pending q m @ (if op = WbPutFile q \<or> op = WbDeleteFile q then [op] else [])"
  by (simp add: pending_def push_dirty_def Let_def)

lemma push_fields [simp]:
  "mo_state (push_dirty op m) = mo_state m" "mo_store (push_dirty op m) = mo_store m"
  "mo_prefix (push_dirty op m) = mo_prefix m" "mo_cache (push_dirty op m) = mo_cache m"
  "mo_deleted (push_dirty op m) = mo_deleted m"
  "qw_op ` set (mo_dirty (push_dirty op m)) = insert op (qw_op ` set (mo_dirty m))"
  by (simp_all add: push_dirty_def Let_def)

text \<open>A local file becomes a queued write.\<close>

lemma queue_write:
  assumes "mount_contract c" and "mount_inv c m" and p: "p \<in> ms_files c" and "ms_wf c l"
    and "\<And>q. q \<in> ms_files c \<Longrightarrow> ms_file c l q = (if q = p then Some x else local_file c m q)"
    and "m' = push_dirty (WbPutFile p) (unmark_deleted (ms_env c) p (untrack_clean_cached (ms_env c) p (m\<lparr>mo_state := l\<rparr>)))"
  shows "takes_effect c ((view c m)(p \<mapsto> x)) True m m'"
proof -
  have m': "mo_state m' = l" "mo_store m' = mo_store m" "mo_prefix m' = mo_prefix m" "mo_deleted m' = mo_deleted m - {p}"
    "qw_op ` set (mo_dirty m') = insert (WbPutFile p) (qw_op ` set (mo_dirty m))"
    by (simp_all add: assms(6) unmark_deleted_def norm_file [OF assms(1) p])
  have pe: "pending q m' = pending q m @ (if q = p then [WbPutFile p] else [])" for q
    by (auto simp: assms(6) pending_push) (auto simp: pending_def unmark_deleted_def untrack_clean_cached_def)
  have cache: "fst ` set (mo_cache m') \<subseteq> ms_files c"
    using mount_invD(5) [OF assms(2)] by (auto simp: assms(6) unmark_deleted_def untrack_clean_cached_def)
  have lf: "local_file c m' q = (if q = p then Some x else local_file c m q)" if "q \<in> ms_files c" for q
    using assms(5) [OF that] by (simp add: local_file_def m'(1))
  have "saved c m' q \<and> view c m' q = ((view c m)(p \<mapsto> x)) q" if q: "q \<in> ms_files c" for q
  proof (cases "q = p")
    case True
    then show ?thesis using lf [OF q] by (simp add: saved_def view_def pe)
  next
    case False
    have "local_file c m' q = local_file c m q" "stored c m' q = stored c m q" "q \<in> mo_deleted m' \<longleftrightarrow> q \<in> mo_deleted m"
      "pending q m' = pending q m"
      using lf [OF q] False m' pe by (simp_all add: stored_def)
    from same_file [OF this] show ?thesis using mount_invD(7) [OF assms(2) q] False by simp
  qed
  then show ?thesis
    using mount_invD(1-6) [OF assms(2)] cache p assms(4) m'
    by (auto simp: takes_effect_def mount_inv_def)
qed

lemma managed_write_effect:
  assumes "mount_contract c" and "mount_inv c m" and p: "p \<in> ms_files c"
    and "managed_write_file (ms_env c) p x m = (r, m')"
  shows "takes_effect c ((view c m)(p \<mapsto> x)) (is_ok r) m m'"
proof -
  obtain e m1 where en: "ensure_parent_dirs (ms_env c) p m = (e, m1)" by fastforce
  obtain l1 where m1: "m1 = m\<lparr>mo_state := l1\<rparr>" and good1: "ms_wf c l1"
    and l1: "\<And>q. q \<in> ms_files c \<Longrightarrow> ms_file c l1 q = local_file c m q"
    using ensure_parent_dirsD [OF assms(1) mount_invD(1) [OF assms(2)] p en] by blast
  have un1: "unseen c m m1"
    using l1 good1 mount_invD(5) [OF assms(2)] by (intro unseenI [OF assms(2)]) (simp_all add: m1 local_file_def)
  obtain w m2 where wr: "on_local (fs_write_file (oe_fs (ms_env c)) p x) m1 = (w, m2)" by fastforce
  have g1: "ms_wf c (mo_state m1)" by (simp add: m1 good1)
  obtain l2 where m2: "m2 = m1\<lparr>mo_state := l2\<rparr>" and good2: "ms_wf c l2"
    and l2: "\<And>q. q \<in> ms_files c \<Longrightarrow> ms_file c l2 q = (if q = p \<and> w = Inr () then Some x else local_file c m1 q)"
    using local_writeD [OF assms(1) g1 p wr] by blast
  have f1: "local_file c m1 q = local_file c m q" if "q \<in> ms_files c" for q
    using l1 [OF that] by (simp add: m1 local_file_def)
  define m3 where "m3 = push_dirty (WbPutFile p) (unmark_deleted (ms_env c) p (untrack_clean_cached (ms_env c) p m2))"
  have run: "and_run (e, m1) (\<lambda>_ m. and_run (on_local (fs_write_file (oe_fs (ms_env c)) p x) m) (\<lambda>_ m.
      gc_clean_cache (ms_env c) (push_dirty (WbPutFile p) (unmark_deleted (ms_env c) p (untrack_clean_cached (ms_env c) p m))))) =
      (r, m')"
    using assms(4) en by (simp add: managed_write_file_def norm_file [OF assms(1) p] Let_def)
  show ?thesis
  proof (cases "e = Inr () \<and> w = Inr ()")
    case False
    have "unseen c m m' \<and> \<not> is_ok r"
    proof (cases e)
      case (Inl err)
      then show ?thesis using run un1 by auto
    next
      case (Inr u)
      then have w: "w \<noteq> Inr ()" using False by simp
      have "unseen c m m2"
        using l2 f1 good2 mount_invD(5) [OF assms(2)] w
        by (intro unseenI [OF assms(2)]) (simp_all add: m2 m1 local_file_def)
      then show ?thesis using run Inr w wr by (cases w) auto
    qed
    then show ?thesis using takes_effect_unseen [of c m m'] by auto
  next
    case True
    have gc: "gc_clean_cache (ms_env c) m3 = (r, m')" using run True wr by (simp add: m3_def)
    have "takes_effect c ((view c m)(p \<mapsto> x)) True m m3"
      by (rule queue_write [OF assms(1,2) p good2]) (use l2 f1 True in \<open>auto simp: m3_def m2 m1\<close>)
    moreover from this have "unseen c m3 m'" using gc_unseen [OF assms(1) _ gc] by (simp add: takes_effect_def)
    ultimately show ?thesis by (rule takes_effect_before)
  qed
qed

text \<open>A file that is gone locally becomes a queued deletion.\<close>

lemma queue_delete:
  assumes "mount_contract c" and "mount_inv c m" and p: "p \<in> ms_files c" and "ms_wf c l"
    and "\<And>q. q \<in> ms_files c \<Longrightarrow> ms_file c l q = (if q = p then None else local_file c m q)"
    and "m' = push_dirty (WbDeleteFile p) (mark_deleted (ms_env c) p (untrack_clean_cached (ms_env c) p (m\<lparr>mo_state := l\<rparr>)))"
  shows "takes_effect c ((view c m)(p := None)) True m m'"
proof -
  have m': "mo_state m' = l" "mo_store m' = mo_store m" "mo_prefix m' = mo_prefix m" "mo_deleted m' = insert p (mo_deleted m)"
    "qw_op ` set (mo_dirty m') = insert (WbDeleteFile p) (qw_op ` set (mo_dirty m))"
    by (simp_all add: assms(6) mark_deleted_def norm_file [OF assms(1) p])
  have pe: "pending q m' = pending q m @ (if q = p then [WbDeleteFile p] else [])" for q
    by (auto simp: assms(6) pending_push) (auto simp: pending_def mark_deleted_def untrack_clean_cached_def)
  have cache: "fst ` set (mo_cache m') \<subseteq> ms_files c"
    using mount_invD(5) [OF assms(2)] by (auto simp: assms(6) mark_deleted_def untrack_clean_cached_def)
  have lf: "local_file c m' q = (if q = p then None else local_file c m q)" if "q \<in> ms_files c" for q
    using assms(5) [OF that] by (simp add: local_file_def m'(1))
  have "saved c m' q \<and> view c m' q = ((view c m)(p := None)) q" if q: "q \<in> ms_files c" for q
  proof (cases "q = p")
    case True
    then show ?thesis using lf [OF q] m'(4) by (simp add: saved_def view_def pe)
  next
    case False
    have "local_file c m' q = local_file c m q" "stored c m' q = stored c m q" "q \<in> mo_deleted m' \<longleftrightarrow> q \<in> mo_deleted m"
      "pending q m' = pending q m"
      using lf [OF q] False m' pe by (simp_all add: stored_def)
    from same_file [OF this] show ?thesis using mount_invD(7) [OF assms(2) q] False by simp
  qed
  then show ?thesis
    using mount_invD(1-6) [OF assms(2)] cache p assms(4) m'
    by (auto simp: takes_effect_def mount_inv_def)
qed

lemma managed_remove_effect:
  assumes "mount_contract c" and "mount_inv c m" and p: "p \<in> ms_files c"
    and "managed_remove (ms_env c) p b m = (r, m')"
  shows "takes_effect c ((view c m)(p := None)) (is_ok r) m m'"
proof -
  obtain t m1 where st: "managed_stat (ms_env c) p m = (t, m1)" by fastforce
  note un1 = managed_stat_unseen [OF assms(1,2) p st]
  show ?thesis
  proof (cases t)
    case (Inl e)
    then show ?thesis
      using assms(4) st un1 takes_effect_unseen [of c m m'] by (auto simp: managed_remove_def norm_file [OF assms(1) p])
  next
    case (Inr meta)
    then have nodir: "md_file_type meta \<noteq> Directory" and inv1: "mount_inv c m1" and seen: "unseen c m m1"
      using un1 by (auto simp: unseen_def)
    have vw: "view c m1 q = view c m q" if "q \<in> ms_files c" for q using seen that by (simp add: unseen_def)
    note here = local_exists_file [OF assms(1) mount_invD(1) [OF inv1] p]
    obtain d m2 where rm: "(if local_file c m1 p \<noteq> None then on_local (fs_remove (oe_fs (ms_env c)) p b) m1
        else (Inr (), m1)) = (d, m2)" by fastforce
    have run: "and_run (d, m2) (\<lambda>_ m. (Inr (), push_dirty (WbDeleteFile p)
        (mark_deleted (ms_env c) p (untrack_clean_cached (ms_env c) p m)))) = (r, m')"
      using assms(4) st Inr nodir here rm by (simp add: managed_remove_def norm_file [OF assms(1) p] Let_def)
    obtain l where m2: "m2 = m1\<lparr>mo_state := l\<rparr>" and good: "ms_wf c l"
      and l: "\<And>q. q \<in> ms_files c \<Longrightarrow> ms_file c l q = (if q = p \<and> d = Inr () then None else local_file c m1 q)"
    proof (cases "local_file c m1 p")
      case None
      then show ?thesis using that [of "mo_state m1"] rm mount_invD(1) [OF inv1] by (auto simp: local_file_def)
    next
      case (Some x)
      then have "on_local (fs_remove (oe_fs (ms_env c)) p b) m1 = (d, m2)" using rm by simp
      then show ?thesis using local_removeD [OF assms(1) mount_invD(1) [OF inv1] p] that by blast
    qed
    show ?thesis
    proof (cases d)
      case (Inl e)
      have "unseen c m1 m2"
        using l good mount_invD(5) [OF inv1] Inl by (intro unseenI [OF inv1]) (simp_all add: m2 local_file_def)
      then show ?thesis using run Inl seen unseen_trans [of c m m1 m2] takes_effect_unseen [of c m m2] by auto
    next
      case d: (Inr u)
      have "takes_effect c ((view c m1)(p := None)) True m1 m'"
        by (rule queue_delete [OF assms(1) inv1 p good]) (use l d run m2 in auto)
      then show ?thesis using run d vw by (auto simp: takes_effect_def)
    qed
  qed
qed

lemma managed_mkdir_unseen:
  assumes "mount_contract c" and "mount_inv c m" and d: "free_dir (ms_files c) d"
    and "managed_mkdir (ms_env c) d b m = (r, m')"
  shows "unseen c m m'"
proof -
  have plain: "plain_path d" and free: "\<forall>p \<in> ms_files c. \<not> prefix p d" using d by (simp_all add: free_dir_def)
  have nd: "norm (ms_env c) d = d" by (rule plain_path_norm [OF mount_contractD(1) [OF assms(1)] plain])
  have out: "d \<notin> ms_files c" using free by auto
  obtain k m1 where mk: "on_local (fs_mkdir (oe_fs (ms_env c)) d b) m = (k, m1)" by fastforce
  obtain l where m1: "m1 = m\<lparr>mo_state := l\<rparr>" and good: "ms_wf c l"
    and l: "\<And>q. q \<in> ms_files c \<Longrightarrow> ms_file c l q = local_file c m q"
    using local_mkdirD [OF assms(1) mount_invD(1) [OF assms(2)] free mk] by blast
  have un1: "unseen c m m1"
    using l good mount_invD(5) [OF assms(2)] by (intro unseenI [OF assms(2)]) (simp_all add: m1 local_file_def)
  then have inv1: "mount_inv c m1" by (simp add: unseen_def)
  show ?thesis
  proof (cases k)
    case (Inl e)
    then show ?thesis using assms(4) mk un1 by (simp add: managed_mkdir_def nd)
  next
    case (Inr u)
    then have m': "m' = push_dirty (WbPutDir d) (unmark_deleted (ms_env c) d (untrack_clean_cached (ms_env c) d m1))"
      using assms(4) mk by (simp add: managed_mkdir_def nd)
    have "mo_deleted m1 - {d} = mo_deleted m1" using mount_invD(4) [OF inv1] out by blast
    then have fields: "mo_state m' = mo_state m1" "mo_store m' = mo_store m1" "mo_prefix m' = mo_prefix m1"
      "mo_deleted m' = mo_deleted m1" "qw_op ` set (mo_dirty m') = insert (WbPutDir d) (qw_op ` set (mo_dirty m1))"
      by (simp_all add: m' unmark_deleted_def nd)
    have pe: "pending q m' = pending q m1" for q
      by (simp add: m' pending_push) (simp add: pending_def unmark_deleted_def untrack_clean_cached_def)
    have cache: "fst ` set (mo_cache m') \<subseteq> ms_files c"
      using mount_invD(5) [OF inv1] by (auto simp: m' unmark_deleted_def untrack_clean_cached_def)
    have "saved c m' q \<and> view c m' q = view c m1 q" if q: "q \<in> ms_files c" for q
      using same_file [of c m' q m1] fields pe mount_invD(7) [OF inv1 q] by (simp add: local_file_def stored_def)
    then have "unseen c m1 m'"
      using mount_invD(1-6) [OF inv1] cache d fields by (auto simp: unseen_def mount_inv_def)
    then show ?thesis by (rule unseen_trans [OF un1])
  qed
qed

lemma managed_append_effect:
  assumes "mount_contract c" and "mount_inv c m" and p: "p \<in> ms_files c"
    and "managed_append_file (ms_env c) p x m = (r, m')"
  shows "takes_effect c ((view c m)(p \<mapsto> (case view c m p of None \<Rightarrow> [] | Some y \<Rightarrow> y) @ x)) (is_ok r) m m'"
proof -
  obtain e m1 where ex: "managed_exists (ms_env c) p m = (e, m1)" by fastforce
  note un1 = managed_exists_unseen [OF assms(1,2) p ex]
  then have inv1: "mount_inv c m1" and v1: "\<And>q. q \<in> ms_files c \<Longrightarrow> view c m1 q = view c m q" by (auto simp: unseen_def)
  show ?thesis
  proof (cases e)
    case (Inl err)
    then show ?thesis using assms(4) ex un1 takes_effect_unseen [of c m m']
      by (auto simp: managed_append_file_def norm_file [OF assms(1) p])
  next
    case (Inr b)
    obtain y m2 where rd: "(if b then managed_read_file (ms_env c) p m1 else (Inr [], m1)) = (y, m2)" by fastforce
    have two: "unseen c m1 m2 \<and> (\<forall>z. y = Inr z \<longrightarrow> z = (case view c m p of None \<Rightarrow> [] | Some y \<Rightarrow> y))"
    proof (cases b)
      case True
      then show ?thesis using managed_read_unseen [OF assms(1) inv1 p, of y m2] rd v1 [OF p] by auto
    next
      case False
      then show ?thesis using rd un1 Inr unseen_refl [OF inv1] by auto
    qed
    have run: "and_run (y, m2) (\<lambda>existing m. managed_write_file (ms_env c) p (existing @ x) m) = (r, m')"
      using assms(4) ex Inr rd by (simp add: managed_append_file_def norm_file [OF assms(1) p] Let_def)
    have un2: "unseen c m m2" using un1 two unseen_trans by blast
    then have inv2: "mount_inv c m2" and v2: "\<And>q. q \<in> ms_files c \<Longrightarrow> view c m2 q = view c m q" by (auto simp: unseen_def)
    show ?thesis
    proof (cases y)
      case (Inl err)
      then show ?thesis using run un2 takes_effect_unseen [of c m m'] by auto
    next
      case y: (Inr z)
      then have wr: "managed_write_file (ms_env c) p (z @ x) m2 = (r, m')" using run by simp
      from managed_write_effect [OF assms(1) inv2 p wr] show ?thesis
        using two y v2 by (auto simp: takes_effect_def)
    qed
  qed
qed

lemma managed_copy_effect:
  assumes "mount_contract c" and "mount_inv c m" and p: "p \<in> ms_files c" and q: "q \<in> ms_files c"
    and "managed_copy (ms_env c) p q m = (r, m')"
  shows "takes_effect c ((view c m)(q := view c m p)) (is_ok r) m m'"
proof -
  note nf = norm_file [OF assms(1) p] norm_file [OF assms(1) q]
  obtain t m1 where st: "managed_stat (ms_env c) p m = (t, m1)" by fastforce
  note un1 = managed_stat_unseen [OF assms(1,2) p st]
  show ?thesis
  proof (cases t)
    case (Inl err)
    then show ?thesis using assms(5) st un1 takes_effect_unseen [of c m m'] by (auto simp: managed_copy_def nf)
  next
    case (Inr meta)
    then have inv1: "mount_inv c m1" using un1 by (simp add: unseen_def)
    obtain y m2 where rd: "managed_read_file (ms_env c) p m1 = (y, m2)" by fastforce
    note two = managed_read_unseen [OF assms(1) inv1 p rd]
    have run: "and_run (y, m2) (\<lambda>bytes m. managed_write_file (ms_env c) q bytes m) = (r, m')"
      using assms(5) st Inr un1 rd by (simp add: managed_copy_def nf Let_def)
    have un2: "unseen c m m2" using un1 two unseen_trans by blast
    then have inv2: "mount_inv c m2" and v2: "\<And>q. q \<in> ms_files c \<Longrightarrow> view c m2 q = view c m q" by (auto simp: unseen_def)
    have vp: "view c m1 p = view c m p" using un1 p by (simp add: unseen_def)
    show ?thesis
    proof (cases y)
      case (Inl err)
      then show ?thesis using run un2 takes_effect_unseen [of c m m'] by auto
    next
      case y: (Inr z)
      then have wr: "managed_write_file (ms_env c) q z m2 = (r, m')" using run by simp
      from managed_write_effect [OF assms(1) inv2 q wr] show ?thesis
        using two y v2 vp by (auto simp: takes_effect_def)
    qed
  qed
qed

lemma managed_rename_effect:
  assumes "mount_contract c" and "mount_inv c m" and p: "p \<in> ms_files c" and q: "q \<in> ms_files c"
    and "managed_rename (ms_env c) p q m = Some (r, m')"
  shows "takes_effect c ((view c m)(q := view c m p, p := None)) (is_ok r) m m'"
proof -
  note nf = norm_file [OF assms(1) p] norm_file [OF assms(1) q]
  obtain t m1 where st: "managed_stat (ms_env c) p m = (t, m1)" by fastforce
  note un1 = managed_stat_unseen [OF assms(1,2) p st]
  show ?thesis
  proof (cases t)
    case (Inl err)
    then show ?thesis using assms(5) st un1 takes_effect_unseen [of c m m'] by (auto simp: managed_rename_def nf)
  next
    case (Inr meta)
    then have inv1: "mount_inv c m1" and vp: "view c m1 p = view c m p" using un1 p by (simp_all add: unseen_def)
    obtain y m2 where rd: "managed_read_file (ms_env c) p m1 = (y, m2)" by fastforce
    note two = managed_read_unseen [OF assms(1) inv1 p rd]
    have run: "and_run (and_run (y, m2) (\<lambda>bytes m. and_run (managed_write_file (ms_env c) q bytes m) (\<lambda>_ m.
        managed_remove (ms_env c) p False m))) (\<lambda>_ m. gc_clean_cache (ms_env c) m) = (r, m')"
      using assms(5) st Inr un1 rd by (simp add: managed_rename_def nf Let_def)
    have un2: "unseen c m m2" using un1 two unseen_trans by blast
    then have inv2: "mount_inv c m2" and v2: "\<And>q. q \<in> ms_files c \<Longrightarrow> view c m2 q = view c m q" by (auto simp: unseen_def)
    show ?thesis
    proof (cases y)
      case (Inl err)
      then show ?thesis using run un2 takes_effect_unseen [of c m m'] by auto
    next
      case y: (Inr z)
      then have z: "view c m p = Some z" using two vp by simp
      obtain w m3 where wr: "managed_write_file (ms_env c) q z m2 = (w, m3)" by fastforce
      note three = managed_write_effect [OF assms(1) inv2 q wr]
      then have inv3: "mount_inv c m3" by (simp add: takes_effect_def)
      show ?thesis
      proof (cases w)
        case (Inl err)
        then have "r = Inl err \<and> m' = m3" using run y wr by simp
        then show ?thesis using three Inl v2 z by (auto simp: takes_effect_def)
      next
        case w: (Inr u)
        obtain d m4 where rm: "managed_remove (ms_env c) p False m3 = (d, m4)" by fastforce
        note four = managed_remove_effect [OF assms(1) inv3 p rm]
        have v3: "view c m3 s = (if s = q then Some z else view c m s)" if "s \<in> ms_files c" for s
          using three w v2 [OF that] that by (simp add: takes_effect_def)
        have eff: "takes_effect c ((view c m)(q := view c m p, p := None)) (is_ok d) m m4"
          unfolding takes_effect_def
        proof (intro conjI ballI)
          show "mount_inv c m4" using four by (simp add: takes_effect_def)
          fix s assume s: "s \<in> ms_files c"
          have "view c m4 s = ((view c m3)(p := None)) s \<or> \<not> is_ok d \<and> view c m4 s = view c m3 s"
            using four s by (simp only: takes_effect_def)
          then show "view c m4 s = ((view c m)(q := view c m p, p := None)) s \<or> \<not> is_ok d \<and> view c m4 s = view c m s"
            using v3 [OF s] z by (cases "s = p"; cases "s = q") auto
        qed
        have fin: "and_run (d, m4) (\<lambda>_ m. gc_clean_cache (ms_env c) m) = (r, m')" using run y wr w rm by simp
        show ?thesis
        proof (cases d)
          case (Inl err)
          then show ?thesis using fin eff by auto
        next
          case d: (Inr v)
          then have gc: "gc_clean_cache (ms_env c) m4 = (r, m')" using fin by simp
          have un: "unseen c m4 m'" using gc_unseen [OF assms(1) _ gc] eff by (simp add: takes_effect_def)
          have "takes_effect c ((view c m)(q := view c m p, p := None)) True m m4" using eff d by simp
          from takes_effect_before [OF this un] show ?thesis .
        qed
      qed
    qed
  qed
qed

subsection \<open>Sequences of calls\<close>

datatype mount_call =
    McRead path | McWrite path string | McAppend path string | McRemove path bool
  | McStat path | McExists path | McCopy path path | McRename path path | McMkdir path bool | McFlush

definition reply :: "('a \<Rightarrow> string option) \<Rightarrow> 'a bashkit_result \<times> 's \<Rightarrow> string option bashkit_result \<times> 's" where
  "reply f r = (map_sum id f (fst r), snd r)"

fun run_mount_call ::
  "('l, 's) object_env \<Rightarrow> mount_call \<Rightarrow> ('l, 's) managed_fs \<Rightarrow>
   (string option bashkit_result \<times> ('l, 's) managed_fs) option" where
  "run_mount_call env (McRead p) m = Some (reply Some (managed_read_file env p m))"
| "run_mount_call env (McWrite p x) m = Some (reply (\<lambda>_. None) (managed_write_file env p x m))"
| "run_mount_call env (McAppend p x) m = Some (reply (\<lambda>_. None) (managed_append_file env p x m))"
| "run_mount_call env (McRemove p b) m = Some (reply (\<lambda>_. None) (managed_remove env p b m))"
| "run_mount_call env (McStat p) m = Some (reply (\<lambda>_. None) (managed_stat env p m))"
| "run_mount_call env (McExists p) m = Some (reply (\<lambda>_. None) (managed_exists env p m))"
| "run_mount_call env (McCopy p q) m = Some (reply (\<lambda>_. None) (managed_copy env p q m))"
| "run_mount_call env (McRename p q) m = map_option (reply (\<lambda>_. None)) (managed_rename env p q m)"
| "run_mount_call env (McMkdir d b) m = Some (reply (\<lambda>_. None) (managed_mkdir env d b m))"
| "run_mount_call env McFlush m = Some (reply (\<lambda>_. None) (managed_flush env m))"

text \<open>Calls on the files of the set, and on directories that are no files of it.\<close>

fun file_call :: "path set \<Rightarrow> mount_call \<Rightarrow> bool" where
  "file_call F (McRead p) \<longleftrightarrow> p \<in> F"
| "file_call F (McWrite p x) \<longleftrightarrow> p \<in> F"
| "file_call F (McAppend p x) \<longleftrightarrow> p \<in> F"
| "file_call F (McRemove p b) \<longleftrightarrow> p \<in> F"
| "file_call F (McStat p) \<longleftrightarrow> p \<in> F"
| "file_call F (McExists p) \<longleftrightarrow> p \<in> F"
| "file_call F (McCopy p q) \<longleftrightarrow> p \<in> F \<and> q \<in> F"
| "file_call F (McRename p q) \<longleftrightarrow> p \<in> F \<and> q \<in> F"
| "file_call F (McMkdir d b) \<longleftrightarrow> free_dir F d"
| "file_call F McFlush \<longleftrightarrow> True"

text \<open>The specification: a map from paths to contents.\<close>

fun apply_call :: "mount_call \<Rightarrow> (path \<Rightarrow> string option) \<Rightarrow> path \<Rightarrow> string option" where
  "apply_call (McWrite p x) files = files(p \<mapsto> x)"
| "apply_call (McAppend p x) files = files(p \<mapsto> (case files p of None \<Rightarrow> [] | Some y \<Rightarrow> y) @ x)"
| "apply_call (McRemove p b) files = files(p := None)"
| "apply_call (McCopy p q) files = files(q := files p)"
| "apply_call (McRename p q) files = files(q := files p, p := None)"
| "apply_call _ files = files"

definition fresh_mount :: "('l, 's) mount_spec \<Rightarrow> ('l, 's) managed_fs \<Rightarrow> bool" where
  "fresh_mount c m \<longleftrightarrow>
     (\<exists>store x l policy. m = with_cache_policy policy (managed_from_store store x l) \<and>
        normalize_object_prefix x = ms_prefix c \<and> ms_wf c l \<and> (\<forall>p \<in> ms_files c. ms_file c l p = None) \<and>
        (\<forall>p \<in> ms_files c. \<forall>k. strict_prefix (object_of c p) k \<longrightarrow> ms_object c store k = None))"

inductive mount_reachable :: "('l, 's) mount_spec \<Rightarrow> ('l, 's) managed_fs \<Rightarrow> bool" for c where
  fresh: "fresh_mount c m \<Longrightarrow> mount_reachable c m"
| call: "mount_reachable c m \<Longrightarrow> file_call (ms_files c) k \<Longrightarrow> run_mount_call (ms_env c) k m = Some (r, m') \<Longrightarrow>
    mount_reachable c m'"

lemma fresh_inv: "fresh_mount c m \<Longrightarrow> mount_inv c m"
  by (auto simp: fresh_mount_def mount_inv_def with_cache_policy_def managed_from_store_def saved_def
      pending_def local_file_def)

lemma replyE:
  assumes "reply f a = (r, m')"
  obtains t where "a = (t, m')" "is_ok r = is_ok t" "r = map_sum id f t"
proof -
  have "a = (fst a, m')" "r = map_sum id f (fst a)" using assms by (auto simp: reply_def)
  moreover from this(2) have "is_ok r = is_ok (fst a)" by (cases "fst a") simp_all
  ultimately show ?thesis using that by blast
qed

lemma unseen_effect: "unseen c m m' \<Longrightarrow> takes_effect c (view c m) ok m m'"
  by (simp add: unseen_def takes_effect_def)

lemma file_call_effect:
  assumes "mount_contract c" and "mount_inv c m" and "file_call (ms_files c) k"
    and "run_mount_call (ms_env c) k m = Some (r, m')"
  shows "takes_effect c (apply_call k (view c m)) (is_ok r) m m'"
proof (cases k)
  case (McRead p)
  obtain t where t: "managed_read_file (ms_env c) p m = (t, m')" "is_ok r = is_ok t"
    using assms(4) McRead by (auto elim: replyE)
  then show ?thesis using managed_read_unseen [OF assms(1,2) _ t(1)] assms(3) McRead by (auto intro: unseen_effect)
next
  case (McWrite p x)
  obtain t where t: "managed_write_file (ms_env c) p x m = (t, m')" "is_ok r = is_ok t"
    using assms(4) McWrite by (auto elim: replyE)
  then show ?thesis using managed_write_effect [OF assms(1,2) _ t(1)] assms(3) McWrite by simp
next
  case (McAppend p x)
  obtain t where t: "managed_append_file (ms_env c) p x m = (t, m')" "is_ok r = is_ok t"
    using assms(4) McAppend by (auto elim: replyE)
  then show ?thesis using managed_append_effect [OF assms(1,2) _ t(1)] assms(3) McAppend by simp
next
  case (McRemove p b)
  obtain t where t: "managed_remove (ms_env c) p b m = (t, m')" "is_ok r = is_ok t"
    using assms(4) McRemove by (auto elim: replyE)
  then show ?thesis using managed_remove_effect [OF assms(1,2) _ t(1)] assms(3) McRemove by simp
next
  case (McStat p)
  obtain t where t: "managed_stat (ms_env c) p m = (t, m')" "is_ok r = is_ok t"
    using assms(4) McStat by (auto elim: replyE)
  then show ?thesis using managed_stat_unseen [OF assms(1,2) _ t(1)] assms(3) McStat by (auto intro: unseen_effect)
next
  case (McExists p)
  obtain t where t: "managed_exists (ms_env c) p m = (t, m')" "is_ok r = is_ok t"
    using assms(4) McExists by (auto elim: replyE)
  then show ?thesis using managed_exists_unseen [OF assms(1,2) _ t(1)] assms(3) McExists by (auto intro: unseen_effect)
next
  case (McCopy p q)
  obtain t where t: "managed_copy (ms_env c) p q m = (t, m')" "is_ok r = is_ok t"
    using assms(4) McCopy by (auto elim: replyE)
  then show ?thesis using managed_copy_effect [OF assms(1,2) _ _ t(1)] assms(3) McCopy by simp
next
  case (McRename p q)
  obtain t where t: "managed_rename (ms_env c) p q m = Some (t, m')" "is_ok r = is_ok t"
    using assms(4) McRename by (auto elim: replyE)
  then show ?thesis using managed_rename_effect [OF assms(1,2) _ _ t(1)] assms(3) McRename by simp
next
  case (McMkdir d b)
  obtain t where t: "managed_mkdir (ms_env c) d b m = (t, m')" "is_ok r = is_ok t"
    using assms(4) McMkdir by (auto elim: replyE)
  then show ?thesis using managed_mkdir_unseen [OF assms(1,2) _ t(1)] assms(3) McMkdir by (auto intro: unseen_effect)
next
  case McFlush
  obtain t where t: "managed_flush (ms_env c) m = (t, m')" "is_ok r = is_ok t"
    using assms(4) McFlush by (auto elim: replyE)
  then show ?thesis using managed_flush_unseen [OF assms(1,2) t(1)] assms(3) McFlush by (auto intro: unseen_effect)
qed

lemma reachable_inv:
  assumes "mount_contract c" and "mount_reachable c m"
  shows "mount_inv c m"
  using assms(2)
proof (induction rule: mount_reachable.induct)
  case (fresh m)
  then show ?case by (rule fresh_inv)
next
  case (call m k r m')
  then show ?case using file_call_effect [OF assms(1), of m k r m'] by (simp add: takes_effect_def)
qed

text \<open>On files every call returns: only the move of a directory may not end.\<close>

lemma file_call_returns:
  assumes "mount_contract c" and "mount_inv c m" and "file_call (ms_files c) k"
  shows "\<exists>r m'. run_mount_call (ms_env c) k m = Some (r, m')"
proof (cases k)
  case (McRename p q)
  then have p: "p \<in> ms_files c" using assms(3) by simp
  obtain t m1 where st: "managed_stat (ms_env c) p m = (t, m1)" by fastforce
  have "\<exists>x. managed_rename (ms_env c) p q m = Some x"
    using managed_stat_unseen [OF assms(1,2) p st] st
    by (cases t) (auto simp: managed_rename_def norm_file [OF assms(1) p] Let_def)
  then show ?thesis using McRename by (auto simp: reply_def)
qed (auto simp: reply_def)

text \<open>
  An object mount behaves as a map from paths to contents.  Take a set of files none of which lies below
  another, over a local file system and a store that keep their contracts, where the calls of the store may
  fail at any time with or without effect.  After any sequence of reads, writes, appends, removals, copies,
  moves, flushes and directory creations, every further call returns; if it succeeds, every file reads as the same
  call on a plain map leaves it; if it fails, every file is as that or as before; and what a read returns is the
  content of the file.
\<close>

theorem object_mount_refines_file_map:
  assumes "mount_contract c" and "mount_reachable c m" and "file_call (ms_files c) k"
  shows "\<exists>r m'. run_mount_call (ms_env c) k m = Some (r, m') \<and>
    (\<forall>p \<in> ms_files c. view c m' p = apply_call k (view c m) p \<or> \<not> is_ok r \<and> view c m' p = view c m p) \<and>
    (\<forall>p x. k = McRead p \<and> r = Inr (Some x) \<longrightarrow> view c m p = Some x)"
proof -
  have inv: "mount_inv c m" by (rule reachable_inv [OF assms(1,2)])
  obtain r m' where run: "run_mount_call (ms_env c) k m = Some (r, m')"
    using file_call_returns [OF assms(1) inv assms(3)] by blast
  have "view c m p = Some x" if k: "k = McRead p" and r: "r = Inr (Some x)" for p x
  proof -
    obtain t where "managed_read_file (ms_env c) p m = (t, m')" "r = map_sum id Some t"
      using run k by (auto elim: replyE)
    then show ?thesis
      using managed_read_unseen [OF assms(1) inv, of p t m'] assms(3) k r by (cases t) auto
  qed
  then show ?thesis
    using run file_call_effect [OF assms(1) inv assms(3) run] by (auto simp: takes_effect_def)
qed

text \<open>
  A flush that succeeds leaves nothing behind.  After any sequence of calls, once a flush succeeds the queue is
  empty, and a mount opened afresh on the same store, with any cache policy, shows every file as it was seen before;
  what it returns when a file is read is that content.
\<close>

theorem flush_saves_every_file:
  assumes "mount_contract c" and "mount_reachable c m" and "managed_flush (ms_env c) m = (Inr (), m')"
    and "normalize_object_prefix x = ms_prefix c" and "ms_wf c l" and "\<forall>p \<in> ms_files c. ms_file c l p = None"
    and "m2 = with_cache_policy policy (managed_from_store (mo_store m') x l)"
  shows "mo_dirty m' = [] \<and> (\<forall>p \<in> ms_files c. view c m2 p = view c m p \<and>
    (\<forall>content. fst (managed_read_file (ms_env c) p m2) = Inr content \<longrightarrow> view c m p = Some content))"
proof -
  have inv: "mount_inv c m" by (rule reachable_inv [OF assms(1,2)])
  note fl = managed_flush_unseen [OF assms(1) inv assms(3)]
  have "mount_inv c m'" using fl by (simp add: unseen_def)
  from mount_invD(6) [OF this] have fresh: "fresh_mount c m2"
    unfolding fresh_mount_def using assms(4-7) by blast
  have "view c m2 p = view c m p" if p: "p \<in> ms_files c" for p
    using fl assms(6) p by (simp add: view_def assms(7) with_cache_policy_def managed_from_store_def local_file_def stored_def)
  then show ?thesis
    using fl managed_read_unseen [OF assms(1) fresh_inv [OF fresh]] by (metis prod.collapse)
qed

subsection \<open>A concrete mount\<close>

text \<open>Plain local files over a plain store, with two files: an instance at which the contracts hold.\<close>

definition plain_store :: "(object_path \<Rightarrow> string option) object_store" where
  "plain_store =
     \<lparr>os_get = (\<lambda>k s. (case s k of None \<Rightarrow> Inl (ObjectNotFound ''missing'') | Some x \<Rightarrow> Inr (Inr x), s)),
      os_put = (\<lambda>k x s. (Inr (), s(k \<mapsto> x))),
      os_delete = (\<lambda>k s. (Inr (), s(k := None))),
      os_head = (\<lambda>k s. (case s k of None \<Rightarrow> Inl (ObjectNotFound ''missing'')
        | Some x \<Rightarrow> Inr \<lparr>om_location = k, om_size = of_nat (length x), om_last_modified = 0\<rparr>, s)),
      os_list = (\<lambda>k s. (Inr [], s)),
      os_list_with_delimiter = (\<lambda>k s. (Inr \<lparr>lr_common_prefixes = [], lr_objects = []\<rparr>, s))\<rparr>"

definition sample_env :: "(files, object_path \<Rightarrow> string option) object_env" where
  "sample_env =
     \<lparr>oe_normpath = lexical_path, oe_encode = (\<lambda>s. s), oe_fs = plain_fs 0, oe_os = plain_store, oe_now = 0\<rparr>"

definition sample_spec :: "(files, object_path \<Rightarrow> string option) mount_spec" where
  "sample_spec =
     \<lparr>ms_env = sample_env, ms_prefix = ''data/'', ms_files = {[RootDir, Normal ''a''], [RootDir, Normal ''b'']},
      ms_file = (\<lambda>l p. l 0 p), ms_object = (\<lambda>s k. s k), ms_wf = (\<lambda>l. True)\<rparr>"

definition sample_mount :: "(files, object_path \<Rightarrow> string option) managed_fs" where
  "sample_mount = with_cache_policy cache_policy_default (managed_from_store (\<lambda>k. None) ''data'' (\<lambda>i p. None))"

lemma plain_local_contract: "local_contract F (plain_fs i) (\<lambda>l p. l i p) (\<lambda>l. True)"
  unfolding local_contract_def by (intro conjI) (auto simp: plain_fs_def)

lemma plain_store_contract: "store_contract plain_store (\<lambda>s k. s k)"
  unfolding store_contract_def by (intro conjI) (auto simp: plain_store_def fun_eq_iff split: option.splits)

lemma plain_name:
  assumes "list_all (\<lambda>ch. (of_char ch :: nat) < 128) s" and "s \<noteq> []" and "CHR ''/'' \<notin> set s"
  shows "plain_path [RootDir, Normal s]"
proof -
  have "utf8_valid (CHR ''/'' # s)" by (rule utf8_valid_ascii) (simp add: assms(1))
  then show ?thesis
    using assms(2,3) unfolding plain_path_def by (auto simp: path_text_def intro!: exI [of _ "[s]"])
qed

lemma sample_contract: "mount_contract sample_spec"
proof -
  have "plain_path [RootDir, Normal ''a'']" "plain_path [RootDir, Normal ''b'']" by (auto intro!: plain_name)
  moreover have "normalize_object_prefix ''data'' = ''data/''"
    by (simp add: normalize_object_prefix_def trim_start_slash_def ends_with_def)
  ultimately show ?thesis
    unfolding mount_contract_def using lexical_path_normalizer plain_local_contract plain_store_contract
    by (auto simp: sample_spec_def sample_env_def inj_def intro: exI [of _ "''data''"])
qed

lemma sample_fresh: "fresh_mount sample_spec sample_mount"
  unfolding fresh_mount_def sample_mount_def
  by (intro exI conjI, rule refl)
    (auto simp: sample_spec_def normalize_object_prefix_def trim_start_slash_def ends_with_def)

theorem object_mount_refines_file_map_witness:
  "\<exists>r m'. run_mount_call sample_env (McWrite [RootDir, Normal ''a''] ''x'') sample_mount = Some (r, m') \<and>
     (view sample_spec m' [RootDir, Normal ''a''] = Some ''x'' \<or> \<not> is_ok r)"
proof -
  have call: "file_call (ms_files sample_spec) (McWrite [RootDir, Normal ''a''] ''x'')" by (simp add: sample_spec_def)
  have env: "ms_env sample_spec = sample_env" and a: "[RootDir, Normal ''a''] \<in> ms_files sample_spec"
    by (simp_all add: sample_spec_def)
  from object_mount_refines_file_map [OF sample_contract mount_reachable.fresh [OF sample_fresh] call] a
  show ?thesis unfolding env by fastforce
qed

lemma sample_write:
  "managed_write_file sample_env [RootDir, Normal ''a''] ''x'' sample_mount =
     (Inr (), sample_mount\<lparr>mo_state := (\<lambda>i p. if i = 0 \<and> p = [RootDir, Normal ''a''] then Some ''x'' else None),
        mo_dirty := [\<lparr>qw_id = 1, qw_op = WbPutFile [RootDir, Normal ''a'']\<rparr>], mo_dirty_clock := 1\<rparr>)"
  by (simp add: managed_write_file_def sample_env_def sample_mount_def norm_def normalize_vfs_path_def has_root_def
      lexical_path_def ensure_parent_dirs_def path_parent_def on_local_def plain_fs_def with_cache_policy_def
      managed_from_store_def push_dirty_def unmark_deleted_def untrack_clean_cached_def gc_clean_cache_def Let_def
      dirty_paths_def fun_eq_iff)

lemma sample_env_fields [simp]: "oe_fs sample_env = plain_fs 0" "oe_os sample_env = plain_store" "oe_now sample_env = 0"
  by (simp_all add: sample_env_def)

lemmas mount_eval = on_local_def on_store_def local_exists_def plain_store_def plain_fs_def map_object_error_def
  ignore_not_found_def unmark_deleted_def mark_deleted_def untrack_clean_cached_def mark_clean_cached_def
  next_cache_access_def push_dirty_def dirty_paths_def gc_clean_cache_def with_cache_policy_def managed_from_store_def
  normalize_object_prefix_def trim_start_slash_def ends_with_def should_track_def path_parent_def ensure_parent_dirs_def
  flush_op_def flush_put_file_def managed_flush_def is_deleted_def names_of_def Let_def

lemma sample_keys:
  assumes "plain_path p" and "mo_prefix m = ''data/''"
  shows "p \<noteq> [RootDir] \<Longrightarrow> file_object sample_env m p = ''data'' # names_of p"
    and "marker_object sample_env m p = ''data'' # names_of p @ [''.dir'']"
    and "p \<noteq> [RootDir] \<Longrightarrow> object_prefix_path (oe_encode sample_env) (key_for_dir_prefix sample_env m p) =
      Some (''data'' # names_of p)"
proof -
  have c: "ms_env sample_spec = sample_env" "mo_prefix m = ms_prefix sample_spec"
    "object_of sample_spec p = ''data'' # names_of p"
    using assms(2) by (simp_all add: sample_spec_def sample_env_def object_of_def segments_def)
  show "p \<noteq> [RootDir] \<Longrightarrow> file_object sample_env m p = ''data'' # names_of p"
    "p \<noteq> [RootDir] \<Longrightarrow> object_prefix_path (oe_encode sample_env) (key_for_dir_prefix sample_env m p) =
      Some (''data'' # names_of p)"
    using file_object_eq [OF sample_contract assms(1) _ c(2)] by (simp_all add: c)
  show "marker_object sample_env m p = ''data'' # names_of p @ [''.dir'']"
    using marker_object_eq [OF sample_contract assms(1) c(2)] by (simp add: c) (simp add: sample_env_def)
qed

lemma sample_norm: "plain_path p \<Longrightarrow> norm sample_env p = p"
  by (rule plain_path_norm) (simp_all add: sample_env_def lexical_path_normalizer)

lemma sample_gc: "\<exists>m'. gc_clean_cache sample_env m = (Inr (), m')"
proof -
  have "\<exists>m'. remove_evicted sample_env ps m = (Inr (), m')" for ps m
    by (induction ps arbitrary: m) (simp_all add: local_exists_def on_local_def plain_fs_def)
  then show ?thesis by (simp add: gc_clean_cache_def Let_def)
qed

theorem flush_saves_every_file_witness:
  "\<exists>m'. managed_flush sample_env (snd (managed_write_file sample_env [RootDir, Normal ''a''] ''x'' sample_mount)) = (Inr (), m') \<and>
     mo_dirty m' = [] \<and>
     view sample_spec (with_cache_policy cache_policy_disabled (managed_from_store (mo_store m') ''data'' (\<lambda>i p. None)))
       [RootDir, Normal ''a''] = Some ''x''"
proof -
  have plain_a: "plain_path [RootDir, Normal ''a'']" by (auto intro!: plain_name)
  define m where "m = snd (managed_write_file sample_env [RootDir, Normal ''a''] ''x'' sample_mount)"
  have env: "ms_env sample_spec = sample_env" and a: "[RootDir, Normal ''a''] \<in> ms_files sample_spec"
    by (simp_all add: sample_spec_def)
  have wr: "run_mount_call (ms_env sample_spec) (McWrite [RootDir, Normal ''a''] ''x'') sample_mount = Some (Inr None, m)"
    by (simp add: env reply_def sample_write m_def)
  have reach: "mount_reachable sample_spec m"
    by (rule mount_reachable.call [OF mount_reachable.fresh [OF sample_fresh] _ wr]) (use a in simp)
  have "\<exists>m3. flush_ops sample_env (mo_dirty m) [] m = (Inr [], m3)"
    unfolding m_def sample_write snd_conv by (simp add: sample_mount_def cache_policy_default_def cache_policy_bounded_def
        sample_keys [OF plain_a] sample_norm [OF plain_a] mount_eval)
  then have "\<exists>m'. managed_flush (ms_env sample_spec) m = (Inr (), m')"
    using sample_gc by (auto simp: managed_flush_def env)
  then obtain m' where m': "managed_flush (ms_env sample_spec) m = (Inr (), m')" by blast
  have view: "view sample_spec m [RootDir, Normal ''a''] = Some ''x''"
    by (simp add: view_def local_file_def sample_spec_def m_def sample_write)
  from flush_saves_every_file [OF sample_contract reach m', of "''data''" "\<lambda>i p. None"]
  show ?thesis using m' a view unfolding env m_def
    by (auto simp: sample_spec_def normalize_object_prefix_def trim_start_slash_def ends_with_def)
qed

subsection \<open>Where the map is left\<close>

text \<open>
  The set of files may not lie below one another, and no directory is removed, for a reason.  A mount that keeps no
  clean copies removes a directory, writes a file below it and flushes: the object is in the store, and the file
  cannot be read, because the deletion mark of the directory outlives the flush.
\<close>

lemma removed_directory_hides_saved_file:
  fixes m0 :: "(files, object_path \<Rightarrow> string option) managed_fs"
    and m1 m2 m3 :: "unit bashkit_result \<times> (files, object_path \<Rightarrow> string option) managed_fs"
  defines "m0 \<equiv> with_cache_policy cache_policy_disabled
      (managed_from_store [[''data'', ''d'', ''.dir''] \<mapsto> []] ''data'' (\<lambda>i p. None))"
    and "m1 \<equiv> managed_remove sample_env [RootDir, Normal ''d''] True m0"
    and "m2 \<equiv> managed_write_file sample_env [RootDir, Normal ''d'', Normal ''f''] ''y'' (snd m1)"
    and "m3 \<equiv> managed_flush sample_env (snd m2)"
  shows "fst m1 = Inr ()" and "fst m2 = Inr ()" and "fst m3 = Inr ()"
    and "mo_store (snd m3) [''data'', ''d'', ''f''] = Some ''y''"
    and "fst (managed_read_file sample_env [RootDir, Normal ''d'', Normal ''f''] (snd m3)) =
      Inl (BashkitIo NotFound ''file not found'')"
proof -
  have "utf8_valid (path_text [RootDir, Normal ''d'', Normal ''f''])"
    by (rule utf8_valid_ascii) (simp add: path_text_def)
  then have f: "plain_path [RootDir, Normal ''d'', Normal ''f'']"
    unfolding plain_path_def by (auto intro!: exI [of _ "[''d'', ''f'']"])
  have d: "plain_path [RootDir, Normal ''d'']" by (auto intro!: plain_name)
  have "mo_prefix m0 = ''data/''" by (simp add: m0_def mount_eval)
  have e1: "m1 = (Inr (), m0\<lparr>mo_deleted := {[RootDir, Normal ''d'']}, mo_dirty_clock := 1,
      mo_dirty := [\<lparr>qw_id = 1, qw_op = WbDeleteDir [RootDir, Normal ''d'']\<rparr>]\<rparr>)"
    unfolding m1_def m0_def managed_remove_def managed_stat_def remote_dir_exists_def
    by (simp add: sample_keys [OF d] sample_norm [OF d] mount_eval directory_metadata_def)
  show "fst m1 = Inr ()" by (simp add: e1)
  have e2: "m2 = (Inr (), (snd m1)\<lparr>mo_state := (\<lambda>i p. if i = 0 \<and> p = [RootDir, Normal ''d'', Normal ''f''] then Some ''y'' else None),
      mo_dirty_clock := 2, mo_dirty := [\<lparr>qw_id = 1, qw_op = WbDeleteDir [RootDir, Normal ''d'']\<rparr>,
        \<lparr>qw_id = 2, qw_op = WbPutFile [RootDir, Normal ''d'', Normal ''f'']\<rparr>]\<rparr>)"
    unfolding m2_def e1 m0_def managed_write_file_def
    by (simp add: sample_keys [OF f] sample_keys [OF d] sample_norm [OF f] sample_norm [OF d] mount_eval fun_eq_iff)
  show "fst m2 = Inr ()" by (simp add: e2)
  have e3: "fst m3 = Inr () \<and> mo_store (snd m3) [''data'', ''d'', ''f''] = Some ''y'' \<and>
      mo_state (snd m3) 0 [RootDir, Normal ''d'', Normal ''f''] = None \<and> [RootDir, Normal ''d''] \<in> mo_deleted (snd m3)"
    unfolding m3_def e2 snd_conv e1 m0_def managed_flush_def
    by (simp add: sample_keys [OF f] sample_keys [OF d] sample_norm [OF f] sample_norm [OF d] mount_eval
        flush_delete_dir_def cache_policy_disabled_def) auto
  then show "fst m3 = Inr ()" "mo_store (snd m3) [''data'', ''d'', ''f''] = Some ''y''" by simp_all
  have "prefix [RootDir, Normal ''d''] [RootDir, Normal ''d'', Normal ''f'']" by simp
  then show "fst (managed_read_file sample_env [RootDir, Normal ''d'', Normal ''f''] (snd m3)) =
      Inl (BashkitIo NotFound ''file not found'')"
    using e3 sample_norm [OF f] by (auto simp: managed_read_file_def local_exists_def on_local_def plain_fs_def is_deleted_def Let_def)
qed

text \<open>Moving a file onto itself removes it: it is read, written to the target and removed as the source.\<close>

lemma rename_onto_itself_removes_file:
  assumes "mount_contract c" and "mount_reachable c m" and "p \<in> ms_files c"
    and "managed_rename (ms_env c) p p m = Some (Inr (), m')"
  shows "view c m' p = None"
  using managed_rename_effect [OF assms(1) reachable_inv [OF assms(1,2)] assms(3,3,4)] assms(3)
  by (simp add: takes_effect_def)

subsection \<open>The budget of clean copies\<close>

definition within_budget :: "object_store_cache_policy \<Rightarrow> (path, cached_clean_file) btmap \<Rightarrow> bool" where
  "within_budget policy cache \<longleftrightarrow>
     sum_list (map (ccf_size \<circ> snd) cache) \<le> cp_max_clean_file_bytes policy \<and>
     length cache \<le> cp_max_clean_file_count policy"

lemma within_budget_mset:
  "mset xs = mset ys \<Longrightarrow> within_budget policy xs \<longleftrightarrow> within_budget policy ys"
  unfolding within_budget_def by (metis mset_map size_mset sum_mset_sum_list)

lemma choose_evictions_budget:
  "\<exists>k. choose_evictions policy (sum_list (map (ccf_size \<circ> snd) cands)) (length cands) cands = map fst (take k cands) \<and>
     within_budget policy (drop k cands)"
proof (induction cands)
  case Nil
  then show ?case by (simp add: within_budget_def)
next
  case (Cons e cands)
  obtain p entry where e: "e = (p, entry)" by fastforce
  obtain k where k: "choose_evictions policy (sum_list (map (ccf_size \<circ> snd) cands)) (length cands) cands =
      map fst (take k cands)" "within_budget policy (drop k cands)" using Cons.IH by blast
  show ?case
  proof (cases "within_budget policy (e # cands)")
    case True
    then show ?thesis by (intro exI [of _ 0]) (simp add: e within_budget_def comp_def)
  next
    case False
    then show ?thesis using k by (intro exI [of _ "Suc k"]) (auto simp: e within_budget_def comp_def)
  qed
qed

lemma remove_evicted_cache:
  "remove_evicted env ps m = (r, m') \<Longrightarrow> mo_cache m' = mo_cache m \<and> mo_policy m' = mo_policy m"
proof (induction ps arbitrary: m)
  case (Cons p ps)
  obtain b m1 where ex: "local_exists env p m = (b, m1)" by fastforce
  obtain r2 m2 where two: "(if b then on_local (fs_remove (oe_fs env) p False) m1 else (Inr (), m1)) = (r2, m2)" by fastforce
  have "mo_cache m1 = mo_cache m \<and> mo_policy m1 = mo_policy m"
    using ex by (auto simp: local_exists_def on_local_def split: prod.splits sum.splits)
  moreover have "mo_cache m2 = mo_cache m1 \<and> mo_policy m2 = mo_policy m1"
    using two by (auto simp: on_local_def split: if_splits prod.splits)
  moreover have "and_run (r2, m2) (\<lambda>_ m. remove_evicted env ps m) = (r, m')" using Cons.prems ex two by simp
  ultimately show ?case using Cons.IH [of m2] by (cases r2) auto
qed simp

lemma gc_within_budget:
  assumes "bt_wf (mo_cache m)" and "gc_clean_cache env m = (r, m')"
  shows "within_budget (mo_policy m) (mo_cache m')"
proof -
  define cache where "cache = filter (\<lambda>(p, _). \<not> (\<exists>d \<in> dirty_paths env m. prefix d p) \<and>
      \<not> (\<exists>d \<in> mo_deleted m. prefix d p)) (mo_cache m)"
  define cands where "cands = sort_key (ccf_last_access \<circ> snd) cache"
  have dist: "distinct (map fst cands)"
  proof -
    have "distinct (map fst (mo_cache m))" using assms(1) by (simp add: bt_wf_def strict_sorted_iff)
    then have "distinct (map fst cache)" unfolding cache_def by (rule distinct_map_filter)
    then show ?thesis by (simp add: cands_def distinct_map)
  qed
  have sums: "sum_list (map (ccf_size \<circ> snd) cache) = sum_list (map (ccf_size \<circ> snd) cands)" "length cache = length cands"
    unfolding cands_def by (metis mset_map mset_sort sum_mset_sum_list) simp
  obtain k where k: "choose_evictions (mo_policy m) (sum_list (map (ccf_size \<circ> snd) cache)) (length cache) cands =
      map fst (take k cands)" "within_budget (mo_policy m) (drop k cands)"
    using choose_evictions_budget [of "mo_policy m" cands] unfolding sums by blast
  have run: "remove_evicted env (map fst (take k cands))
      (m\<lparr>mo_cache := filter (\<lambda>(p, _). p \<notin> set (map fst (take k cands))) cache\<rparr>) = (r, m')"
    using assms(2) unfolding gc_clean_cache_def Let_def cache_def [symmetric] cands_def [symmetric] k(1) .
  have m': "mo_cache m' = filter (\<lambda>(p, _). p \<notin> set (map fst (take k cands))) cache"
    using remove_evicted_cache [OF run] by simp
  have "set (map fst (take k cands)) \<inter> set (map fst (drop k cands)) = {}"
    using dist by (metis append_take_drop_id distinct_append map_append)
  then have "filter (\<lambda>(p, _). p \<notin> set (map fst (take k cands))) (drop k cands) = drop k cands"
    by (intro filter_True) force
  moreover have "filter (\<lambda>(p, _). p \<notin> set (map fst (take k cands))) (take k cands) = []"
    by (force simp: filter_empty_conv)
  ultimately have "filter (\<lambda>(p, _). p \<notin> set (map fst (take k cands))) cands = drop k cands"
    by (metis append_Nil append_take_drop_id filter_append)
  then have "mset (mo_cache m') = mset (drop k cands)"
    unfolding m' by (metis cands_def mset_filter mset_sort)
  then show ?thesis using k(2) within_budget_mset by blast
qed

text \<open>The table of clean copies stays sorted and the policy stays as it is.\<close>

definition tidy :: "('l, 's) managed_fs \<Rightarrow> ('l, 's) managed_fs \<Rightarrow> bool" where
  "tidy m m' \<longleftrightarrow> (bt_wf (mo_cache m) \<longrightarrow> bt_wf (mo_cache m')) \<and> mo_policy m' = mo_policy m"

lemma tidy_refl [simp]: "tidy m m"
  by (simp add: tidy_def)

lemma tidy_trans: "tidy m m1 \<Longrightarrow> tidy m1 m2 \<Longrightarrow> tidy m m2"
  by (simp add: tidy_def)

lemma bt_wf_filter: "bt_wf cache \<Longrightarrow> bt_wf (filter P cache)"
  by (induction cache) (auto simp: bt_wf_def)

lemma tidy_steps [simp]:
  "tidy m (snd (on_store f m))" "tidy m (snd (on_local g m))" "tidy m (snd (local_exists env p m))"
  "tidy m (untrack_clean_cached env p m)" "tidy m (mark_clean_cached env p n m)"
  "tidy m (mark_deleted env p m)" "tidy m (unmark_deleted env p m)" "tidy m (push_dirty op m)"
  by (simp_all add: tidy_def on_store_def on_local_def local_exists_def untrack_clean_cached_def mark_clean_cached_def
      next_cache_access_def mark_deleted_def unmark_deleted_def push_dirty_def bt_wf_filter Let_def
      split: prod.splits sum.splits)

lemma tidy_and_run:
  "tidy m (snd a) \<Longrightarrow> (\<And>x. tidy (snd a) (snd (f x (snd a)))) \<Longrightarrow> tidy m (snd (and_run a f))"
  by (cases a; cases "fst a") (auto intro: tidy_trans)

lemma tidy_map_error [simp]: "snd (map_object_error r) = snd r" "snd (ignore_not_found u) = snd u"
  by (simp_all add: map_object_error_def ignore_not_found_def)

lemma tidy_delete_objects: "tidy m (snd (delete_objects env keys m))"
  by (induction keys arbitrary: m) (auto intro!: tidy_and_run)

lemma tidy_flush_delete_dir: "tidy m (snd (flush_delete_dir env p m))"
  unfolding flush_delete_dir_def
  by (rule tidy_and_run)
    (auto intro!: tidy_and_run tidy_delete_objects tidy_trans [OF tidy_steps(4) tidy_steps(6)] split: option.splits)

lemma tidy_flush_put_file: "tidy m (snd (flush_put_file env p os m))"
proof -
  obtain b m1 where ex: "local_exists env p m = (b, m1)" by fastforce
  have one: "tidy m m1" using tidy_steps(3) [of m env p] by (simp add: ex)
  have fin: "tidy m (snd (if should_track (mo_policy (unmark_deleted env p m)) n
      then (Inr os, mark_clean_cached env p n (unmark_deleted env p m))
      else (Inr (os @ [p]), untrack_clean_cached env p (unmark_deleted env p m))))" for m n
    by (simp add: tidy_trans [OF tidy_steps(7) tidy_steps(4)] tidy_trans [OF tidy_steps(7) tidy_steps(5)])
  have "tidy m1 (snd (flush_put_file env p os m))"
  proof (cases b)
    case True
    show ?thesis unfolding flush_put_file_def ex prod.case Let_def if_P [OF True]
      by (rule tidy_and_run, simp, rule tidy_and_run, simp, rule fin)
  qed (simp add: flush_put_file_def ex)
  with one show ?thesis by (rule tidy_trans)
qed

lemma tidy_flush_ops: "tidy m (snd (flush_ops env ops os m))"
proof (induction ops arbitrary: os m)
  case (Cons q ops)
  have "tidy m (snd (flush_op env (qw_op q) os m))"
    by (cases "qw_op q")
      (auto simp: flush_op_def intro!: tidy_and_run tidy_flush_put_file tidy_flush_delete_dir
        tidy_trans [OF tidy_steps(4) tidy_steps(6)])
  then show ?case using Cons.IH by (auto intro: tidy_and_run)
qed simp

lemma tidy_remove_oversized: "tidy m (snd (remove_oversized env dirty ps m))"
proof (induction ps arbitrary: m)
  case (Cons p ps)
  obtain b m1 where ex: "local_exists env p m = (b, m1)" by fastforce
  have "tidy m m1" using tidy_steps(3) [of m env p] by (simp add: ex)
  then show ?case using Cons.IH by (auto simp: ex intro!: tidy_and_run intro: tidy_trans)
qed simp

lemma tidy_ensure_parent_dirs: "tidy m (snd (ensure_parent_dirs env p m))"
  by (auto simp: ensure_parent_dirs_def intro!: tidy_and_run split: option.splits)

text \<open>
  Clean copies stay within their budget: after every successful write and every successful flush the files kept
  only as copies of objects are at most as many, and have at most as many bytes, as the cache policy allows.
\<close>

theorem clean_copies_within_budget:
  assumes "bt_wf (mo_cache m)"
    and "managed_write_file env p x m = (Inr (), m') \<or> managed_flush env m = (Inr (), m')"
  shows "sum_list (map (ccf_size \<circ> snd) (mo_cache m')) \<le> cp_max_clean_file_bytes (mo_policy m) \<and>
    length (mo_cache m') \<le> cp_max_clean_file_count (mo_policy m)"
proof -
  have "\<exists>m1. tidy m m1 \<and> gc_clean_cache env m1 = (Inr (), m')"
    using assms(2)
  proof
    assume "managed_write_file env p x m = (Inr (), m')"
    then obtain m1 m2 where e: "ensure_parent_dirs env (norm env p) m = (Inr (), m1)"
      and w: "on_local (fs_write_file (oe_fs env) (norm env p) x) m1 = (Inr (), m2)"
      and g: "gc_clean_cache env (push_dirty (WbPutFile (norm env p)) (unmark_deleted env (norm env p)
        (untrack_clean_cached env (norm env p) m2))) = (Inr (), m')"
      by (auto simp: managed_write_file_def Let_def and_run_ok)
    have "tidy m m1" using tidy_ensure_parent_dirs [of m env "norm env p"] e by simp
    moreover have "tidy m1 m2" using tidy_steps(2) [of m1 "fs_write_file (oe_fs env) (norm env p) x"] w by simp
    ultimately have "tidy m m2" by (rule tidy_trans)
    from tidy_trans [OF tidy_trans [OF tidy_trans [OF this tidy_steps(4)] tidy_steps(7)] tidy_steps(8)] g
    show ?thesis by blast
  next
    assume "managed_flush env m = (Inr (), m')"
    then obtain os m1 m2 where o: "flush_ops env (mo_dirty m) [] m = (Inr os, m1)"
      and r: "remove_oversized env (dirty_paths env (m1\<lparr>mo_dirty := filter (\<lambda>q. qw_id q \<notin> qw_id ` set (mo_dirty m)) (mo_dirty m1)\<rparr>))
        os (m1\<lparr>mo_dirty := filter (\<lambda>q. qw_id q \<notin> qw_id ` set (mo_dirty m)) (mo_dirty m1)\<rparr>) = (Inr (), m2)"
      and g: "gc_clean_cache env m2 = (Inr (), m')"
      by (auto simp: managed_flush_def Let_def and_run_ok)
    have "tidy m m1" using tidy_flush_ops [of m env "mo_dirty m" "[]"] o by simp
    moreover have "tidy m1 (m1\<lparr>mo_dirty := filter (\<lambda>q. qw_id q \<notin> qw_id ` set (mo_dirty m)) (mo_dirty m1)\<rparr>)"
      by (simp add: tidy_def)
    moreover have "tidy (m1\<lparr>mo_dirty := filter (\<lambda>q. qw_id q \<notin> qw_id ` set (mo_dirty m)) (mo_dirty m1)\<rparr>) m2"
      by (metis tidy_remove_oversized r snd_conv)
    ultimately show ?thesis using g tidy_trans by blast
  qed
  then obtain m1 where "tidy m m1" "gc_clean_cache env m1 = (Inr (), m')" by blast
  then show ?thesis
    using gc_within_budget [of m1 env "Inr ()" m'] assms(1) by (simp add: tidy_def within_budget_def)
qed

theorem clean_copies_within_budget_witness:
  "length (mo_cache (snd (managed_write_file sample_env [RootDir, Normal ''a''] ''x'' sample_mount))) \<le> 1024"
  using clean_copies_within_budget [of sample_mount sample_env "[RootDir, Normal ''a'']" "''x''"
      "snd (managed_write_file sample_env [RootDir, Normal ''a''] ''x'' sample_mount)"]
  by (simp add: sample_write) (simp add: sample_mount_def with_cache_policy_def cache_policy_default_def
      cache_policy_bounded_def managed_from_store_def)

end
