(* ===== verification/Spec2Isabelle.thy ===== *)
theory Spec2Isabelle
  imports Daemon_Retry Turn_Admission Manifest_Receipts Propagation_Properties Virtual_Shell Spill_Paths
    Patch_Properties Object_Mount_Safety
begin

text \<open>
  \<^bold>\<open>The Verlet kernel\<close>

  Verlet runs agents as threads.  Everything an agent does is an event on an append-only stream: one
  stream per thread for what happened, and one control stream per thread for what was decided about it.
  State is never stored beside the record; bindings, mandates, continuations and contexts are folds of the
  streams.  The development follows that structure: the record and its store first, then the folds and the
  operations of the kernel that read the record, decide and append.

  \<^bold>\<open>Theories and sources\<close> (paths are below \<^verbatim>\<open>src/crates/\<close>)

  \<^item> \<open>Prelude\<close>: machine integers, results (\<open>'e + 'a\<close>, \<open>Inl\<close> is \<open>Err\<close>), sequencing (\<open>and_then\<close>,
    \<open>or_return\<close>), loops over lists, hash maps as association lists with one
    entry per key, ordered maps as sorted lists.
  \<^item> \<open>Json_Value\<close>, \<open>Json_Schema\<close>: JSON values as \<open>serde_json\<close> holds them, and the schema engine of
    \<^verbatim>\<open>verlet-runtime-contracts/src/schema.rs\<close> with the relation \<open>conforms\<close> it refines.
  \<^item> \<open>Runtime_Contracts\<close>, \<open>Uuid_Format\<close>: identities, coordinates, topology, signals and handles of
    \<^verbatim>\<open>verlet-runtime-contracts/src/lib.rs\<close> and \<^verbatim>\<open>handle.rs\<close>.
  \<^item> \<open>Event_Vocabulary\<close>, \<open>Event_Payloads\<close>, \<open>Event_Record\<close>, \<open>Schema_Rules\<close>, \<open>Stream_Schemas\<close>,
    \<open>Stream_Records\<close>, \<open>Session_Model\<close>, \<open>History_Store\<close>: \<^verbatim>\<open>verlet-history/src/lib.rs\<close>, in the order of the
    file.  Event kinds and their printed forms; typed payloads and the JSON they are written as; records,
    envelopes, routing, acknowledgements and cursors; the frozen schemas and their registry; canonical
    messages, session entries and compaction; the in-memory store with every method of its three traits.
  \<^item> \<open>Store_Journal\<close>, \<open>Store_Sessions\<close>, \<open>Store_Contexts\<close>, \<open>Store_Reachable\<close>, \<open>Store_Properties\<close>: the
    theorems of the store.  \<open>Store_Reachable\<close> closes the operations into a step relation \<open>store_call\<close>;
    \<open>reachable\<close> and \<open>later\<close> are its closures.
  \<^item> \<open>Sqlite_Store\<close>, \<open>Sqlite_Sessions\<close>: \<^verbatim>\<open>verlet-history-sqlite/src/lib.rs\<close>, the durable store: tables with
    their constraints, immediate transactions, and the methods of the session and event traits.
    \<open>Sqlite_Refinement\<close> relates a database to an in-memory state (\<open>represents\<close>), \<open>Sqlite_Simulation\<close> and
    \<open>Sqlite_Calls\<close> carry the relation through the methods, \<open>Sqlite_Properties\<close> concludes.
  \<^item> \<open>Control_Decision\<close>: \<^verbatim>\<open>verlet-kernel/src/kernel/control_decision.rs\<close>, the decisions on tool calls,
    continuations and placements.
  \<^item> \<open>Mandate_Lifecycle\<close>: \<^verbatim>\<open>verlet-kernel/src/kernel/mandate_lifecycle.rs\<close>, starting, listing and revoking
    mandates on the control stream.
  \<^item> \<open>Loop_Continuation\<close>: \<^verbatim>\<open>verlet-kernel/src/kernel/runtime_host/loop_continuation.rs\<close> and
    \<open>continue_turn_if_requested\<close> of \<^verbatim>\<open>verlet-kernel/src/kernel/runtime_host.rs\<close>, which composes the decision,
    its receipt and the submission of the next turn.
  \<^item> \<open>Turn_Admission\<close>: \<^verbatim>\<open>verlet-kernel/src/kernel/admission.rs\<close> and the choke point of the runtime host
    through which every turn passes, as a step relation over interleaved submissions.
  \<^item> \<open>Binding_Projector\<close>, \<open>Manifest_Receipts\<close>: \<^verbatim>\<open>verlet-kernel/src/kernel/binding_projector.rs\<close>, and the
    recording of a manifest binding in \<^verbatim>\<open>verlet-kernel/src/kernel/runtime_host/thread_handle.rs\<close>.
  \<^item> \<open>Daemon_Retry\<close>: \<^verbatim>\<open>verlet-kernel/src/daemon/retry.rs\<close>.
  \<^item> \<open>Io_Envelopes\<close>: the ingress contracts of \<^verbatim>\<open>verlet-io-core/src/lib.rs\<close>.
  \<^item> The remote store, \<^verbatim>\<open>verlet-kernel/src/daemon/remote_store/\<close>: \<open>Stream_Leases\<close> (\<^verbatim>\<open>lease.rs\<close>, the authority
    that grants leases over streams and credentials for them), \<open>Ingress_Queue\<close> (\<^verbatim>\<open>queue.rs\<close>), \<open>Sync_Endpoint\<close>
    (\<^verbatim>\<open>endpoint.rs\<close> and \<^verbatim>\<open>tail.rs\<close>, the parent's door) and \<open>Stream_Propagation\<close> (\<^verbatim>\<open>propagator.rs\<close>, the child's side).
    \<open>Lease_Safety\<close>, \<open>Endpoint_Safety\<close> and \<open>Propagation_Safety\<close> hold their invariants; \<open>Propagation_Link\<close> puts a
    link that loses requests and replies between the two, and \<open>Propagation_Properties\<close> concludes.
  \<^item> \<open>Utf8_Text\<close>: decoding of UTF-8, strict and lossy, as the Rust library does it.
  \<^item> \<open>Virtual_Files\<close>, \<open>Vfs_Safety\<close>: \<^verbatim>\<open>verlet-vfs/src/lib.rs\<close>, the file system a session of tools sees: paths, the
    read-only view, \<open>VerletVfs\<close> with its mount table and journal, over backends that are arbitrary.
  \<^item> \<open>Object_Mount\<close>: the mount backed by an object store, of the same file: local files, the queue of writes, clean
    copies within a budget, \<open>flush\<close>.  \<open>Object_Mount_Invariant\<close> has the invariant of the mount and the file map it
    stands for, \<open>Object_Mount_Flush\<close> the flush, \<open>Object_Mount_Safety\<close> concludes.
  \<^item> \<open>Output_Capture\<close>, \<open>Virtual_Shell\<close>, \<open>Spill_Paths\<close>: \<^verbatim>\<open>verlet-vbash/src/lib.rs\<close> and \<^verbatim>\<open>harness.rs\<close> with the callers in
    \<^verbatim>\<open>verlet-kernel/src/capabilities/execution.rs\<close>: output limits and previews, the mounts of a session, and the
    files that keep output too long to show.
  \<^item> \<open>Patch_Language\<close>, \<open>Patch_Printing\<close>, \<open>Apply_Patch\<close>, \<open>Patch_Properties\<close>: \<^verbatim>\<open>verlet-vbash/src/apply_patch.rs\<close>, the
    parser of patches and their application to a file system.  \<open>Patch_Printing\<close> writes patches, to state that the
    parser reads them back.

  \<^bold>\<open>State and operations\<close>

  The store is the record \<open>store_inner\<close>, the fields of \<open>InMemorySessionStoreInner\<close> behind its lock; each method
  takes it and returns a result and the new store, which is sound because the methods hold the lock
  throughout.  The kernel operations that touch the store more than once (revoking a mandate, recording the
  receipts of a manifest, continuing a turn) take the interference of other tasks as arguments: functions
  \<open>between\<close> or \<open>env\<close>, only required to be composed of store calls (\<open>later\<close>), run between any two accesses.  Fresh UUIDs and clock readings are arguments (\<open>stamp\<close>), so a theorem holds
  for all of them.

  The tables of the remote store lie in the same database as the journal, so the authority and the endpoint are
  records that contain it (\<open>lease_tables\<close>, \<open>endpoint\<close>), and a method is one transaction over them.  The propagator
  threads its position, the row it persists and the world behind its three doors.

  A file system is a record of operations (\<open>fs_ops\<close>, the trait \<open>VerletVfsBackend\<close>) over a world they thread;
  mounted ones carry the identity of their \<open>Arc\<close>, which \<open>rename\<close> and \<open>copy\<close> compare.  In the patch code an index,
  slice or insertion into a list of lines that Rust would panic on is the value \<open>PatchPanic\<close>; where the code has just
  looked at the last line or at the first, ASCII, character of a line, dropping it is written without that case.

  \<^bold>\<open>Parameters\<close>

  Code outside the repository is an argument: the text form of UUIDs, the derived decoders of
  \<open>serde\<close> (in records such as \<open>binding_codec\<close> and \<open>manifest_lib\<close>), cron, time zone and date parsing
  (\<open>schedule_lib\<close>), hashing, path normalization of \<open>bashkit\<close> and its file systems.  Where a theorem needs something of one of them, usually that a decoder reads
  back what its encoder wrote, it is a premise, and a witness shows an instance.

  \<^bold>\<open>What is shown\<close>

  \<^item> The record: streams are numbered without gaps under unique ids, only grow, appends are all or nothing
    and fenced by tail and lease epoch, every failure leaves the store as it was, replay from a cursor is
    exact, and a retried turn input is stored once.
  \<^item> Sessions: branches are chains that end, bases close no cycle, context assembly terminates and does not
    change under later calls, clones and selections do what they record.
  \<^item> The durable store: whatever requests it served, a database stands for a reachable in-memory state,
    answers and reads as that state does, and drops a failed transaction whole.
  \<^item> Schemas: validation refines a declarative relation, a preflighted schema cannot fail by itself, and
    of the typed payloads all but two are accepted by the schema registered for them whatever they hold, the two
    others exactly under the stated conditions.
  \<^item> Vocabularies and bounds: printed forms read back, stored messages are cut at character boundaries,
    retry delays stay in their bounds.
  \<^item> Decisions: exactly which facts permit a call, accept a continuation or choose a placement.
  \<^item> Operations over the record: a revoked mandate never becomes active again, a decision on a
    continuation that was answered is what retries answer, no turn is handed over twice or without its admission event, pending inputs stay within their
    limit, and binding a manifest leaves exactly the bindings it asks for.
  \<^item> The remote store: a stream has at most one live lease, authority that moved does not come back, expiry alone
    loses nothing; an accepted push extends one stream by exactly its records; a dispatch is queued once;
    over a link that loses messages the parent's stream stays a prefix of the child's, and delivered attempts advance it.
    One property is a defect: a lost reply followed by a local append ends in a reported divergence.
  \<^item> The object mount: every operation does to the file map of a mount what it says, a flush that succeeds leaves every
    file in the object store, and clean copies stay within their budget.
  \<^item> Files and patches: a path belongs to its deepest mount, nothing behind a read-only mount changes, the journal
    lists exactly the successful mutations other than symbolic links, output that is too long can be read back from its spill file, and no mount
    covers that directory; decoding with a limit is decoding, then cutting; patches read back, never panic, and replace exactly
    the lines they name.  One property is a defect: a chunk that only adds lines can lose one of them.

  \<^bold>\<open>Interfaces\<close>

  Locales state what one part promises another and are interpreted on the model itself: \<open>journal_reader\<close>,
  \<open>event_journal\<close> and \<open>fenced_journal\<close> (the in-memory store), \<open>served_state\<close> and \<open>monotone_state\<close> (the store's
  step relation, the gate of \<open>Turn_Admission\<close>, the lease authority and the ingress queue), \<open>sync_parent\<close> (the doors a
  propagator calls, interpreted on the endpoint behind the link), \<open>fact_scan\<close> and \<open>candidate_scan\<close> (the scans of the
  control stream), \<open>uuid_codec\<close> (the text form of identities).

  \<^bold>\<open>Termination and bounds\<close>

  Walks along parents and bases are \<open>partial_function (option)\<close>, so that not ending is a value; they are shown
  to end in every reachable state; in the SQLite store the walks along bases carry the set of visited threads,
  which is finite.  The push loop of the propagator repeats at most once, after a renewal.
  Moving a directory inside an object mount is also a
  \<open>partial_function (option)\<close>.  All other loops are recursion on lists or JSON values.  Lease
  epochs keep their 64 bits; sequence numbers are integers, since a stream of \<open>2^63\<close> events
  cannot be held in memory.

  \<^bold>\<open>Not modelled\<close>

  \<^item> Of the SQLite store: the SQL engine (its statements are written out as operations on tables), the migration
    of old files, rebuilding of leaves when a file is opened, and observations.
  \<^item> Of the remote store: its HTTP transport, the placement of children and their processes.
  \<^item> The agent loop, app server, daemon IO and chat client: network and process I/O around the operations
    above.
  \<^item> The backends of the file system (host directories, clients of object stores), the shell interpreter, the projection of
    operations as shell commands, and the running of processes.
  \<^item> The manifest compiler, couplings and their scheduler, the supervisor and the file tools.
  \<^item> Async cancellation inside a store call, and panics of spawned tasks.
\<close>

end
